(* ===== verification/Prelude.thy ===== *)
theory Prelude
  imports Complex_Main "HOL-Library.Multiset"
begin

text \<open>
  Shared vocabulary of the development: Python exceptions as values, the result type every
  fallible operation returns, Python list operations (slices, comparisons, the stable
  \<open>sorted\<close>), and the generic list and multiset lemmas that the components share.
\<close>

section \<open>Results and exceptions\<close>

text \<open>The exception classes that the modelled code raises. A call that raises returns \<open>Inl\<close>
  of the class; the message text is not kept.\<close>

datatype pyerr =
    ValueError
  | AssertionError
  | IndexError
  | KeyError
  | TypeError
  | ZeroDivisionError
  | RuntimeError
  | NotImplementedError
  | AttributeError
  | TimeoutError

type_synonym 'a res = "pyerr + 'a"

named_theorems res_simps \<open>unfolding of sequenced fallible calls\<close>

fun rbind :: "'a res \<Rightarrow> ('a \<Rightarrow> 'b res) \<Rightarrow> 'b res" where
  "rbind (Inl e) f = Inl e"
| "rbind (Inr x) f = f x"

definition rassert :: "bool \<Rightarrow> unit res" where
  "rassert b = (if b then Inr () else Inl AssertionError)"

definition rcheck :: "pyerr \<Rightarrow> bool \<Rightarrow> unit res" where
  "rcheck e b = (if b then Inr () else Inl e)"

lemma rbind_eq_Inr [res_simps]: "rbind r f = Inr y \<longleftrightarrow> (\<exists>x. r = Inr x \<and> f x = Inr y)"
  by (cases r) auto

lemma rbind_eq_Inl [res_simps]:
  "rbind r f = Inl e \<longleftrightarrow> r = Inl e \<or> (\<exists>x. r = Inr x \<and> f x = Inl e)"
  by (cases r) auto

lemma rassert_eq_Inr [res_simps]: "rassert b = Inr u \<longleftrightarrow> b"
  by (simp add: rassert_def)

lemma rcheck_eq_Inr [res_simps]: "rcheck e b = Inr u \<longleftrightarrow> b"
  by (simp add: rcheck_def)

lemma rassert_True [simp]: "rassert True = Inr ()"
  by (simp add: rassert_def)

lemma rassert_False [simp]: "rassert False = Inl AssertionError"
  by (simp add: rassert_def)

lemma rcheck_True [simp]: "rcheck e True = Inr ()"
  by (simp add: rcheck_def)

lemma rcheck_False [simp]: "rcheck e False = Inl e"
  by (simp add: rcheck_def)

lemma rassert_eq_Inl [res_simps]: "rassert b = Inl e \<longleftrightarrow> \<not> b \<and> e = AssertionError"
  by (auto simp: rassert_def)

lemma rcheck_eq_Inl [res_simps]: "rcheck e' b = Inl e \<longleftrightarrow> \<not> b \<and> e = e'"
  by (auto simp: rcheck_def)

lemma rbind_cong [fundef_cong]:
  "r = s \<Longrightarrow> (\<And>x. s = Inr x \<Longrightarrow> f x = g x) \<Longrightarrow> rbind r f = rbind s g"
  by (cases s) auto

lemma rbind_assoc: "rbind (rbind r f) g = rbind r (\<lambda>x. rbind (f x) g)"
  by (cases r) auto

text \<open>A list comprehension whose element expression may raise: left to right, the first
  exception wins.\<close>

fun rmap :: "('a \<Rightarrow> 'b res) \<Rightarrow> 'a list \<Rightarrow> 'b list res" where
  "rmap f [] = Inr []"
| "rmap f (x # xs) = rbind (f x) (\<lambda>y. rbind (rmap f xs) (\<lambda>ys. Inr (y # ys)))"

lemma rmap_eq_Inr: "rmap f xs = Inr ys \<longleftrightarrow> map f xs = map Inr ys"
proof (induction xs arbitrary: ys)
  case Nil
  then show ?case by auto
next
  case (Cons x xs)
  then show ?case by (cases ys) (auto simp: res_simps)
qed

lemma rmap_Inr: "(\<And>x. x \<in> set xs \<Longrightarrow> f x = Inr (g x)) \<Longrightarrow> rmap f xs = Inr (map g xs)"
  by (induction xs) auto

lemma rmap_cong: "(\<And>x. x \<in> set xs \<Longrightarrow> f x = g x) \<Longrightarrow> rmap f xs = rmap g xs"
  by (induction xs) auto

lemma rmap_map: "rmap f (map g xs) = rmap (\<lambda>x. f (g x)) xs"
  by (induction xs) auto

lemma rmap_length: "rmap f xs = Inr ys \<Longrightarrow> length ys = length xs"
  by (drule rmap_eq_Inr [THEN iffD1], drule arg_cong [where f = length]) simp

lemma rmap_nth: "rmap f xs = Inr ys \<Longrightarrow> i < length xs \<Longrightarrow> f (xs ! i) = Inr (ys ! i)"
  by (metis length_map nth_map rmap_eq_Inr)

section \<open>Python lists\<close>

text \<open>Slices \<open>xs[a:b]\<close> with non-negative bounds.\<close>

definition pyslice :: "nat \<Rightarrow> nat \<Rightarrow> 'a list \<Rightarrow> 'a list" where
  "pyslice a b xs = take (b - a) (drop a xs)"

lemma length_pyslice: "length (pyslice a b xs) = min (b - a) (length xs - a)"
  by (simp add: pyslice_def)

lemma nth_pyslice: "i < b - a \<Longrightarrow> a + i < length xs \<Longrightarrow> pyslice a b xs ! i = xs ! (a + i)"
  by (simp add: pyslice_def)

text \<open>Strided slices \<open>xs[::k]\<close> (for \<open>k > 0\<close>); \<open>xs[1::2]\<close> is \<open>every 2 (drop 1 xs)\<close>.\<close>

definition every :: "nat \<Rightarrow> 'a list \<Rightarrow> 'a list" where
  "every k xs = map (\<lambda>i. xs ! (i * k)) [0..<(length xs + k - 1) div k]"

lemma mset_every2: "mset (every 2 xs) + mset (every 2 (drop 1 xs)) = mset xs"
proof -
  define evens where "evens = (\<lambda>xs :: 'a list. map (\<lambda>i. xs ! (i * 2)) [0..<(length xs + 1) div 2])"
  have split: "mset (evens xs) + mset (evens (drop 1 xs)) = mset xs" for xs :: "'a list"
  proof (induction xs rule: induct_list012)
    case (3 x y zs)
    have shift: "evens (x # y # zs) = x # evens zs" for x y :: 'a and zs
    proof -
      have "[0..<(length (x # y # zs) + 1) div 2] = 0 # map Suc [0..<(length zs + 1) div 2]"
        by (simp add: map_Suc_upt upt_conv_Cons del: upt_Suc)
      then show ?thesis by (simp add: evens_def)
    qed
    show ?case
    proof (cases zs)
      case Nil
      then show ?thesis by (simp add: evens_def)
    next
      case (Cons z zs')
      then have "drop 1 (x # y # zs) = y # z # zs'" and "drop 1 zs = zs'" by auto
      then have "evens (drop 1 (x # y # zs)) = y # evens (drop 1 zs)" by (simp add: shift)
      then show ?thesis using 3(1) by (simp add: shift)
    qed
  qed (auto simp: evens_def)
  have "every 2 ys = evens ys" for ys :: "'a list"
    by (simp add: every_def evens_def)
  then show ?thesis using split by simp
qed


text \<open>Sub-list selection by a list of indices (\<open>[xs[i] for i in idxs]\<close>, all in range).\<close>

definition select :: "'a list \<Rightarrow> nat list \<Rightarrow> 'a list" where
  "select xs idxs = map (nth xs) idxs"

lemma length_select [simp]: "length (select xs idxs) = length idxs"
  by (simp add: select_def)

lemma select_append: "select xs (is @ js) = select xs is @ select xs js"
  by (simp add: select_def)

lemma select_upt: "select xs [0..<length xs] = xs"
  by (simp add: select_def map_nth)

lemma mset_select_perm:
  "mset idxs = mset [0..<length xs] \<Longrightarrow> mset (select xs idxs) = mset xs"
  by (metis mset_map select_def select_upt)

text \<open>Comparison of Python tuples and lists: the first position where the elements differ
  decides, a proper prefix is smaller.\<close>

fun py_list_lt :: "('a \<Rightarrow> 'a \<Rightarrow> bool) \<Rightarrow> 'a list \<Rightarrow> 'a list \<Rightarrow> bool" where
  "py_list_lt lt xs [] = False"
| "py_list_lt lt [] (y # ys) = True"
| "py_list_lt lt (x # xs) (y # ys) = (if x = y then py_list_lt lt xs ys else lt x y)"

definition py_pair_lt :: "('a \<Rightarrow> 'a \<Rightarrow> bool) \<Rightarrow> ('b \<Rightarrow> 'b \<Rightarrow> bool) \<Rightarrow> 'a \<times> 'b \<Rightarrow> 'a \<times> 'b \<Rightarrow> bool" where
  "py_pair_lt lta ltb p q =
     (if fst p = fst q then (if snd p = snd q then False else ltb (snd p) (snd q))
      else lta (fst p) (fst q))"

text \<open>\<open>sorted(xs)\<close>: Python's sort is stable and only calls \<open>__lt__\<close>, so for a strict weak
  order its result is the one of stable insertion. \<open>reverse=True\<close> keeps stability by
  reversing before and after.\<close>

fun py_insort :: "('a \<Rightarrow> 'a \<Rightarrow> bool) \<Rightarrow> 'a \<Rightarrow> 'a list \<Rightarrow> 'a list" where
  "py_insort lt x [] = [x]"
| "py_insort lt x (y # ys) = (if lt y x then y # py_insort lt x ys else x # y # ys)"

fun py_sorted :: "('a \<Rightarrow> 'a \<Rightarrow> bool) \<Rightarrow> 'a list \<Rightarrow> 'a list" where
  "py_sorted lt [] = []"
| "py_sorted lt (x # xs) = py_insort lt x (py_sorted lt xs)"

definition py_sorted_reverse :: "('a \<Rightarrow> 'a \<Rightarrow> bool) \<Rightarrow> 'a list \<Rightarrow> 'a list" where
  "py_sorted_reverse lt xs = rev (py_sorted lt (rev xs))"

lemma mset_py_insort: "mset (py_insort lt x xs) = add_mset x (mset xs)"
  by (induction xs) auto

lemma mset_py_sorted [simp]: "mset (py_sorted lt xs) = mset xs"
  by (induction xs) (auto simp: mset_py_insort)

lemma mset_py_sorted_reverse [simp]: "mset (py_sorted_reverse lt xs) = mset xs"
  by (simp add: py_sorted_reverse_def)

lemma set_py_sorted [simp]: "set (py_sorted lt xs) = set xs"
  by (metis mset_py_sorted set_mset_mset)

lemma set_py_sorted_reverse [simp]: "set (py_sorted_reverse lt xs) = set xs"
  by (metis mset_py_sorted_reverse set_mset_mset)

lemma length_py_sorted [simp]: "length (py_sorted lt xs) = length xs"
  by (metis mset_py_sorted size_mset)

lemma length_py_sorted_reverse [simp]: "length (py_sorted_reverse lt xs) = length xs"
  by (metis mset_py_sorted_reverse size_mset)

text \<open>What sorting gives for a comparison that refines a key on the elements that satisfy
  \<open>ok\<close>. The two laws are what a client of \<open>sorted\<close> relies on; every comparison of the code is
  an instance.\<close>

locale keyed_order =
  fixes lt :: "'a \<Rightarrow> 'a \<Rightarrow> bool"
    and key :: "'a \<Rightarrow> 'k::linorder"
    and ok :: "'a \<Rightarrow> bool"
  assumes lt_key: "ok x \<Longrightarrow> ok y \<Longrightarrow> lt x y \<Longrightarrow> key x \<le> key y"
    and not_lt_key: "ok x \<Longrightarrow> ok y \<Longrightarrow> \<not> lt x y \<Longrightarrow> key y \<le> key x"
begin

lemma sorted_py_insort:
  "\<forall>y\<in>set (x # xs). ok y \<Longrightarrow> sorted (map key xs) \<Longrightarrow> sorted (map key (py_insort lt x xs))"
proof (induction xs)
  case Nil
  then show ?case by simp
next
  case (Cons y ys)
  have "set (py_insort lt x ys) = insert x (set ys)"
    by (metis mset_py_insort set_mset_add_mset_insert set_mset_mset)
  with Cons show ?case
    by (auto dest: lt_key not_lt_key intro: order_trans)
qed

lemma sorted_py_sorted: "\<forall>y\<in>set xs. ok y \<Longrightarrow> sorted (map key (py_sorted lt xs))"
  by (induction xs) (auto intro!: sorted_py_insort)

lemma sorted_py_sorted_reverse:
  "\<forall>y\<in>set xs. ok y \<Longrightarrow> sorted_wrt (\<ge>) (map key (py_sorted_reverse lt xs))"
  using sorted_py_sorted [of "rev xs"]
  by (simp add: py_sorted_reverse_def rev_map [symmetric] sorted_wrt_rev)

lemma py_sorted_reverse_nth_mono:
  assumes "\<forall>y\<in>set xs. ok y" and "i \<le> j" and "j < length xs"
  shows "key (py_sorted_reverse lt xs ! j) \<le> key (py_sorted_reverse lt xs ! i)"
proof (cases "i = j")
  case False
  with assms show ?thesis
    using sorted_wrt_nth_less [OF sorted_py_sorted_reverse [OF assms(1)], of i j] by simp
qed simp

end

interpretation nat_order: keyed_order "(<) :: nat \<Rightarrow> nat \<Rightarrow> bool" "\<lambda>x. x" "\<lambda>_. True"
  by unfold_locales auto

lemma py_sorted_nat [simp]: "sorted (py_sorted (<) (xs :: nat list))"
  using nat_order.sorted_py_sorted [of xs] by simp

section \<open>Generic list lemmas\<close>

lemma mset_list_update_swap:
  assumes "i < length xs" and "j < length xs"
  shows "mset (xs[i := xs ! j, j := x]) = mset (xs[i := x])"
proof (cases "i = j")
  case False
  have "mset (xs[i := xs ! j, j := x])
      = add_mset x (mset (xs[i := xs ! j])) - {# xs ! j #}"
    using assms False by (simp add: mset_update)
  also have "\<dots> = add_mset x (add_mset (xs ! j) (mset xs) - {# xs ! i #}) - {# xs ! j #}"
    using assms by (simp add: mset_update)
  also have "\<dots> = add_mset x (mset xs) - {# xs ! i #}"
  proof (cases "xs ! i = xs ! j")
    case False
    have "xs ! i \<in># mset xs" using assms by simp
    with False show ?thesis
      by (simp add: add_mset_diff_bothsides diff_add_mset_swap)
  qed simp
  also have "\<dots> = mset (xs[i := x])"
    using assms by (simp add: mset_update)
  finally show ?thesis .
qed simp

lemma mset_concat_map_add:
  "length xs = length ys \<Longrightarrow>
   mset (concat (map2 (\<lambda>a b. a @ b) xs ys)) = mset (concat xs) + mset (concat ys)"
  by (induction xs ys rule: list_induct2) auto

lemma sum_list_select_perm:
  fixes xs :: "'a::comm_monoid_add list"
  assumes "mset idxs = mset [0..<length xs]"
  shows "sum_list (select xs idxs) = sum_list xs"
  by (metis assms mset_select_perm sum_mset_sum_list)

lemma concat_blocks:
  "m * k \<le> length xs \<Longrightarrow>
   concat (map (\<lambda>b. map (\<lambda>i. xs ! (b * k + i)) [0..<k]) [0..<m]) = take (m * k) xs"
proof (induction m)
  case 0
  then show ?case by simp
next
  case (Suc m)
  have "map (\<lambda>i. xs ! (m * k + i)) [0..<k] = take k (drop (m * k) xs)"
    using Suc.prems by (intro nth_equalityI) auto
  moreover have "take (Suc m * k) xs = take (m * k) xs @ take k (drop (m * k) xs)"
    by (metis add.commute mult_Suc take_add)
  ultimately show ?case using Suc by simp
qed

lemma sum_mset_mset_map: "(\<Sum>x\<in>#mset xs. f x) = (\<Sum>x\<leftarrow>xs. f x)"
  by (induction xs) auto

lemma sum_list_replicate_empty [simp]: "sum_list (replicate n {#}) = {#}"
  by (induction n) auto

lemma sum_list_mset_concat: "(\<Sum>x\<leftarrow>xs. mset (f x)) = mset (concat (map f xs))"
  by (induction xs) auto

text \<open>A list sorted so that the elements with a property come first.\<close>

lemma nth_prefix_filter:
  assumes "\<And>i j. i \<le> j \<Longrightarrow> j < length xs \<Longrightarrow> P (xs ! j) \<Longrightarrow> P (xs ! i)" and "j < length xs"
  shows "P (xs ! j) \<longleftrightarrow> j < length (filter P xs)"
proof -
  let ?I = "{i. i < length xs \<and> P (xs ! i)}"
  have card: "length (filter P xs) = card ?I" by (rule length_filter_conv_card)
  show ?thesis
  proof (cases "P (xs ! j)")
    case True
    have "{0..j} \<subseteq> ?I" using assms True by auto
    then have "card {0..j} \<le> card ?I" by (intro card_mono) auto
    with True card show ?thesis by simp
  next
    case False
    have "?I \<subseteq> {0..<j}"
      using assms False by (auto simp: not_less [symmetric]) (metis linorder_le_less_linear)
    then have "card ?I \<le> card {0..<j}" by (intro card_mono) auto
    with False card show ?thesis by simp
  qed
qed

lemma perm_upt_iff:
  "mset is = mset [0..<n] \<longleftrightarrow> distinct is \<and> set is = {0..<n}"
  by (metis atLeastLessThan_upt distinct_upt mset_eq_setD mset_eq_imp_distinct_iff
      set_eq_iff_mset_eq_distinct)

end
