(* ===== verification/HeapQueue.thy ===== *)
theory HeapQueue
  imports Prelude
begin

text \<open>
  The standard library's binary heap, as the partitioner of
  \<open>verl/utils/seqlen_balancing.py\<close> uses it (\<open>heapq.heappush\<close> and \<open>heapq.heappop\<close>): the array
  algorithm with its two sifting loops, over an arbitrary comparison \<open>lt\<close>. The interface that
  the partitioner relies on is the locale \<open>priority_queue\<close>: pushing adds one element, popping
  takes one element out, whatever the comparison.
\<close>

section \<open>The array heap\<close>

text \<open>\<open>_siftdown(heap, startpos, pos)\<close> with the item that is being placed as an argument: the
  source writes it once, at the end.\<close>

function sift_down :: "('a \<Rightarrow> 'a \<Rightarrow> bool) \<Rightarrow> 'a list \<Rightarrow> nat \<Rightarrow> nat \<Rightarrow> 'a \<Rightarrow> 'a list" where
  "sift_down lt heap startpos pos newitem =
     (if startpos < pos then
        (let parentpos = (pos - 1) div 2; parent = heap ! parentpos
         in if lt newitem parent
            then sift_down lt (heap[pos := parent]) startpos parentpos newitem
            else heap[pos := newitem])
      else heap[pos := newitem])"
  by pat_completeness auto
termination
  by (relation "measure (\<lambda>(lt, heap, startpos, pos, newitem). pos)") auto

declare sift_down.simps [simp del]

text \<open>The loop of \<open>_siftup(heap, pos)\<close>: move the smaller child up until a leaf is reached; the
  final position is returned with the array.\<close>

function sift_up_loop :: "('a \<Rightarrow> 'a \<Rightarrow> bool) \<Rightarrow> 'a list \<Rightarrow> nat \<Rightarrow> 'a list \<times> nat" where
  "sift_up_loop lt heap pos =
     (let childpos = 2 * pos + 1; rightpos = childpos + 1 in
      if childpos < length heap then
        (let c = (if rightpos < length heap \<and> \<not> lt (heap ! childpos) (heap ! rightpos)
                  then rightpos else childpos)
         in sift_up_loop lt (heap[pos := heap ! c]) c)
      else (heap, pos))"
  by pat_completeness auto
termination
  by (relation "measure (\<lambda>(lt, heap, pos). length heap - pos)") (auto split: if_splits)

declare sift_up_loop.simps [simp del]

definition sift_up :: "('a \<Rightarrow> 'a \<Rightarrow> bool) \<Rightarrow> 'a list \<Rightarrow> nat \<Rightarrow> 'a list" where
  "sift_up lt heap startpos =
     (let newitem = heap ! startpos; (heap', pos) = sift_up_loop lt heap startpos
      in sift_down lt heap' startpos pos newitem)"

definition heappush :: "('a \<Rightarrow> 'a \<Rightarrow> bool) \<Rightarrow> 'a list \<Rightarrow> 'a \<Rightarrow> 'a list" where
  "heappush lt heap item =
     (let heap' = heap @ [item] in sift_down lt heap' 0 (length heap' - 1) item)"

definition heappop :: "('a \<Rightarrow> 'a \<Rightarrow> bool) \<Rightarrow> 'a list \<Rightarrow> ('a \<times> 'a list) res" where
  "heappop lt heap =
     (if heap = [] then Inl IndexError
      else (let lastelt = last heap; heap' = butlast heap
            in if heap' = [] then Inr (lastelt, [])
               else Inr (heap' ! 0, sift_up lt (heap'[0 := lastelt]) 0)))"

section \<open>Multiset of a heap\<close>

lemma mset_sift_down:
  assumes "pos < length heap"
  shows "mset (sift_down lt heap startpos pos newitem) = mset (heap[pos := newitem])"
  using assms
proof (induction lt heap startpos pos newitem rule: sift_down.induct)
  case (1 lt heap startpos pos newitem)
  let ?pp = "(pos - 1) div 2"
  show ?case
  proof (cases "startpos < pos \<and> lt newitem (heap ! ?pp)")
    case True
    with 1 have "mset (sift_down lt heap startpos pos newitem)
        = mset (heap[pos := heap ! ?pp, ?pp := newitem])"
      by (simp add: sift_down.simps [of lt heap startpos pos] Let_def)
    also have "\<dots> = mset (heap[pos := newitem])"
      using 1 by (intro mset_list_update_swap) auto
    finally show ?thesis .
  next
    case False
    then show ?thesis
      by (auto simp: sift_down.simps [of lt heap startpos pos] Let_def)
  qed
qed

lemma sift_up_loop_mset:
  assumes "sift_up_loop lt heap pos = (heap', pos')" and "pos < length heap"
  shows "pos' < length heap' \<and> length heap' = length heap
    \<and> mset (heap'[pos' := x]) = mset (heap[pos := x])"
  using assms
proof (induction lt heap pos arbitrary: heap' pos' rule: sift_up_loop.induct)
  case (1 lt heap pos)
  let ?cp = "2 * pos + 1"
  let ?c = "if ?cp + 1 < length heap \<and> \<not> lt (heap ! ?cp) (heap ! (?cp + 1)) then ?cp + 1 else ?cp"
  show ?case
  proof (cases "?cp < length heap")
    case True
    then have c: "?c < length heap" by auto
    from True 1(2) have eq: "sift_up_loop lt (heap[pos := heap ! ?c]) ?c = (heap', pos')"
      by (simp only: sift_up_loop.simps [of lt heap pos] Let_def if_True)
    have "pos' < length heap' \<and> length heap' = length (heap[pos := heap ! ?c])
      \<and> mset (heap'[pos' := x]) = mset (heap[pos := heap ! ?c, ?c := x])"
      using 1(1) [OF refl refl True refl eq] c by simp
    moreover have "mset (heap[pos := heap ! ?c, ?c := x]) = mset (heap[pos := x])"
      using c 1(3) by (intro mset_list_update_swap) auto
    ultimately show ?thesis by simp
  next
    case False
    with 1(2,3) show ?thesis
      by (simp add: sift_up_loop.simps [of lt heap pos] Let_def)
  qed
qed

lemma mset_sift_up:
  assumes "pos < length heap"
  shows "mset (sift_up lt heap pos) = mset heap"
proof -
  obtain heap' pos' where eq: "sift_up_loop lt heap pos = (heap', pos')"
    by (cases "sift_up_loop lt heap pos") auto
  from sift_up_loop_mset [OF eq assms, of "heap ! pos"]
  show ?thesis
    by (simp add: sift_up_def eq mset_sift_down)
qed

lemma mset_heappush [simp]: "mset (heappush lt heap item) = add_mset item (mset heap)"
  by (simp add: heappush_def Let_def mset_sift_down)

lemma mset_heappop:
  assumes "heappop lt heap = Inr (x, heap')"
  shows "mset heap = add_mset x (mset heap')"
proof (cases "butlast heap = []")
  case True
  with assms show ?thesis
    by (cases heap rule: rev_cases) (auto simp: heappop_def)
next
  case False
  then obtain y ys l where heap: "heap = y # ys @ [l]"
    by (metis append_Cons append_Nil append_butlast_last_id butlast.simps(1) neq_Nil_conv)
  with False assms show ?thesis
    by (auto simp: heappop_def Let_def mset_sift_up butlast_append)
qed

lemma heappop_nonempty: "heap \<noteq> [] \<Longrightarrow> \<exists>x heap'. heappop lt heap = Inr (x, heap')"
  by (auto simp: heappop_def Let_def)

section \<open>The interface of a priority queue\<close>

text \<open>What the merging loops of the partitioner need of the queue. The laws speak about the
  multiset of the queued items only, so they hold for any comparison; which item comes out
  first only affects the quality of a partition, not its correctness.\<close>

locale priority_queue =
  fixes push :: "'a list \<Rightarrow> 'a \<Rightarrow> 'a list"
    and pop :: "'a list \<Rightarrow> ('a \<times> 'a list) res"
  assumes push_mset: "mset (push q x) = add_mset x (mset q)"
    and pop_mset: "pop q = Inr (x, q') \<Longrightarrow> mset q = add_mset x (mset q')"
    and pop_nonempty: "q \<noteq> [] \<Longrightarrow> \<exists>x q'. pop q = Inr (x, q')"
begin

lemma push_length: "length (push q x) = Suc (length q)"
  by (metis push_mset size_add_mset size_mset)

lemma push_set: "set (push q x) = insert x (set q)"
  by (metis push_mset set_mset_add_mset_insert set_mset_mset)

lemma pop_length: "pop q = Inr (x, q') \<Longrightarrow> length q = Suc (length q')"
  by (metis pop_mset size_add_mset size_mset)

lemma pop_set: "pop q = Inr (x, q') \<Longrightarrow> set q = insert x (set q')"
  by (metis pop_mset set_mset_add_mset_insert set_mset_mset)

text \<open>Taking the two first items out of a queue that has two.\<close>

lemma pop_twice:
  assumes "1 < length q"
  obtains x y q1 q2 where "pop q = Inr (x, q1)" and "pop q1 = Inr (y, q2)"
    and "mset q = add_mset x (add_mset y (mset q2))"
proof -
  from assms have "q \<noteq> []" by auto
  then obtain x q1 where 1: "pop q = Inr (x, q1)"
    using pop_nonempty [of q] by blast
  with assms have "q1 \<noteq> []" using pop_length [OF 1] by auto
  then obtain y q2 where 2: "pop q1 = Inr (y, q2)"
    using pop_nonempty [of q1] by auto
  show thesis
    using that [OF 1 2] pop_mset [OF 1] pop_mset [OF 2] by simp
qed

text \<open>Building a queue item by item.\<close>

lemma foldl_push_mset: "mset (foldl push q xs) = mset q + mset xs"
  by (induction xs arbitrary: q) (auto simp: push_mset)

lemma foldl_push_set: "set (foldl push q xs) = set q \<union> set xs"
  by (metis foldl_push_mset set_mset_mset set_mset_union)

end

interpretation heapq: priority_queue "heappush lt" "heappop lt"
  for lt :: "'a \<Rightarrow> 'a \<Rightarrow> bool"
  by unfold_locales (auto dest: mset_heappop heappop_nonempty)

end
