(* ===== verification/KarmarkarKarp.thy ===== *)
theory KarmarkarKarp
  imports HeapQueue
begin

text \<open>
  The Karmarkar-Karp partitioner \<open>karmarkar_karp\<close> of \<open>verl/utils/seqlen_balancing.py\<close>: its local
  classes \<open>Set\<close> and \<open>State\<close>, the queue of states, and the merging loop. Values are Python
  integers, indices natural numbers.
\<close>

section \<open>Class Set\<close>

record kkset =
  ksum :: int
  kitems :: "(nat \<times> int) list"

definition kkset_new :: kkset where
  "kkset_new = \<lparr>ksum = 0, kitems = []\<rparr>"

definition kkset_add :: "kkset \<Rightarrow> nat \<Rightarrow> int \<Rightarrow> kkset" where
  "kkset_add s idx val = s\<lparr>kitems := kitems s @ [(idx, val)], ksum := ksum s + val\<rparr>"

definition kkset_merge :: "kkset \<Rightarrow> kkset \<Rightarrow> kkset" where
  "kkset_merge s other = foldl (\<lambda>s (idx, val). kkset_add s idx val) s (kitems other)"

definition kkset_lt :: "kkset \<Rightarrow> kkset \<Rightarrow> bool" where
  "kkset_lt s other =
     (if ksum s \<noteq> ksum other then ksum s < ksum other
      else if length (kitems s) \<noteq> length (kitems other)
           then length (kitems s) < length (kitems other)
      else py_list_lt (py_pair_lt (<) (<)) (kitems s) (kitems other))"

section \<open>Class State\<close>

record kkstate =
  kk :: nat
  ksets :: "kkset list"

fun kkstate_fill :: "nat \<Rightarrow> (nat \<times> int) list \<Rightarrow> kkset list \<Rightarrow> kkset list res" where
  "kkstate_fill i [] sets = Inr sets"
| "kkstate_fill i ((idx, seqlen) # items) sets =
     (if i < length sets
      then kkstate_fill (Suc i) items (sets[i := kkset_add (sets ! i) idx seqlen])
      else Inl IndexError)"

definition kkstate_new :: "(nat \<times> int) list \<Rightarrow> nat \<Rightarrow> kkstate res" where
  "kkstate_new items k =
     rbind (rassert (length items = 1 \<or> length items = k)) (\<lambda>_.
     rbind (kkstate_fill 0 items (replicate k kkset_new)) (\<lambda>sets.
     Inr \<lparr>kk = k, ksets = py_sorted_reverse kkset_lt sets\<rparr>))"

definition kkstate_partitions :: "kkstate \<Rightarrow> nat list list" where
  "kkstate_partitions st = map (\<lambda>s. map fst (kitems s)) (ksets st)"

definition kkstate_merge :: "kkstate \<Rightarrow> kkstate \<Rightarrow> kkstate" where
  "kkstate_merge st other =
     st\<lparr>ksets := py_sorted_reverse kkset_lt
          (map (\<lambda>i. kkset_merge (ksets st ! i) (ksets other ! (kk st - 1 - i))) [0..<kk st])\<rparr>"

definition kkstate_spread :: "kkstate \<Rightarrow> int" where
  "kkstate_spread st = ksum (hd (ksets st)) - ksum (last (ksets st))"

definition kkstate_lt :: "kkstate \<Rightarrow> kkstate \<Rightarrow> bool" where
  "kkstate_lt st other =
     (if kkstate_spread st \<noteq> kkstate_spread other then kkstate_spread st > kkstate_spread other
      else kkset_lt (hd (ksets other)) (hd (ksets st)))"

section \<open>The algorithm\<close>

definition kk_sorted_items :: "int list \<Rightarrow> (int \<times> nat) list" where
  "kk_sorted_items seqlen_list =
     py_sorted (py_pair_lt (<) (<)) (map (\<lambda>(i, seqlen). (seqlen, i)) (enumerate 0 seqlen_list))"

text \<open>The two ways of filling the queue: blocks of \<open>k\<close> items, or one item at a time.\<close>

definition kk_block_states :: "(int \<times> nat) list \<Rightarrow> nat \<Rightarrow> kkstate list res" where
  "kk_block_states sorted_list k =
     rmap (\<lambda>offset. kkstate_new
             (map (\<lambda>i. let (seqlen, idx) = sorted_list ! (offset * k + i) in (idx, seqlen)) [0..<k]) k)
          [0..<length sorted_list div k]"

definition kk_item_states :: "(int \<times> nat) list \<Rightarrow> nat \<Rightarrow> kkstate list res" where
  "kk_item_states sorted_list k = rmap (\<lambda>(seqlen, idx). kkstate_new [(idx, seqlen)] k) sorted_list"

definition kk_initial_queue :: "int list \<Rightarrow> nat \<Rightarrow> bool \<Rightarrow> kkstate list res" where
  "kk_initial_queue seqlen_list k equal_size =
     (let sorted_list = kk_sorted_items seqlen_list in
      rbind (if equal_size then
               rbind (rcheck ZeroDivisionError (k \<noteq> 0)) (\<lambda>_.
               rbind (rassert (length seqlen_list mod k = 0)) (\<lambda>_.
               kk_block_states sorted_list k))
             else kk_item_states sorted_list k)
        (\<lambda>states. Inr (foldl (heappush kkstate_lt) [] states)))"

text \<open>\<open>while len(states_pq) > 1\<close>: pop two states, merge the second into the first, push it.\<close>

function kk_loop :: "kkstate list \<Rightarrow> kkstate list res" where
  "kk_loop pq =
     (if 1 < length pq then
        rbind (heappop kkstate_lt pq) (\<lambda>(state0, pq0).
        rbind (heappop kkstate_lt pq0) (\<lambda>(state1, pq1).
        kk_loop (heappush kkstate_lt pq1 (kkstate_merge state0 state1))))
      else Inr pq)"
  by pat_completeness auto
termination
  by (relation "measure length") (auto dest!: heapq.pop_length simp: heapq.push_length)

declare kk_loop.simps [simp del]

definition karmarkar_karp :: "int list \<Rightarrow> nat \<Rightarrow> bool \<Rightarrow> nat list list res" where
  "karmarkar_karp seqlen_list k_partitions equal_size =
     rbind (kk_initial_queue seqlen_list k_partitions equal_size) (\<lambda>pq.
     rbind (kk_loop pq) (\<lambda>pq'.
     rbind (rcheck IndexError (pq' \<noteq> [])) (\<lambda>_.
     (let partitions = kkstate_partitions (hd pq') in
      rbind (rassert (equal_size \<longrightarrow>
               (\<forall>p \<in> set partitions. length p * k_partitions = length seqlen_list))) (\<lambda>_.
      Inr partitions)))))"

section \<open>Sets and states\<close>

named_theorems kk_simps \<open>closed forms of the operations on sets and states\<close>

lemma kkset_merge_eq [kk_simps]:
  "kkset_merge s other =
     \<lparr>ksum = ksum s + sum_list (map snd (kitems other)), kitems = kitems s @ kitems other\<rparr>"
proof -
  have "foldl (\<lambda>s (idx, val). kkset_add s idx val) s xs =
      \<lparr>ksum = ksum s + sum_list (map snd xs), kitems = kitems s @ xs\<rparr>" for xs
    by (induction xs arbitrary: s) (auto simp: kkset_add_def)
  then show ?thesis by (simp add: kkset_merge_def)
qed

interpretation kkset_order: keyed_order kkset_lt ksum "\<lambda>_. True"
  by unfold_locales (auto simp: kkset_lt_def split: if_splits)

definition kkset_ok :: "kkset \<Rightarrow> bool" where
  "kkset_ok s \<longleftrightarrow> ksum s = sum_list (map snd (kitems s))"

definition state_items :: "kkstate \<Rightarrow> (nat \<times> int) multiset" where
  "state_items st = (\<Sum>s\<leftarrow>ksets st. mset (kitems s))"

text \<open>The invariant of a state: its sets carry their sums, are in decreasing order, any two sums
  differ by at most \<open>B\<close>, and (when \<open>E\<close> is set) all of them have the same number of items.\<close>

definition kkstate_inv :: "nat \<Rightarrow> int \<Rightarrow> bool \<Rightarrow> kkstate \<Rightarrow> bool" where
  "kkstate_inv k B E st \<longleftrightarrow>
     kk st = k \<and> length (ksets st) = k \<and> (\<forall>s\<in>set (ksets st). kkset_ok s)
     \<and> (\<forall>i j. i \<le> j \<longrightarrow> j < k \<longrightarrow> ksum (ksets st ! j) \<le> ksum (ksets st ! i))
     \<and> (\<forall>s\<in>set (ksets st). \<forall>t\<in>set (ksets st). ksum s - ksum t \<le> B)
     \<and> (E \<longrightarrow> (\<exists>m. \<forall>s\<in>set (ksets st). length (kitems s) = m))"

text \<open>A state built by sorting a list of sets satisfies the invariant when the list does.\<close>

lemma kkstate_inv_sorted:
  assumes "length sets = k" and "\<And>s. s \<in> set sets \<Longrightarrow> kkset_ok s"
    and "\<And>s t. s \<in> set sets \<Longrightarrow> t \<in> set sets \<Longrightarrow> ksum s - ksum t \<le> B"
    and "E \<Longrightarrow> \<exists>m. \<forall>s\<in>set sets. length (kitems s) = m"
  shows "kkstate_inv k B E \<lparr>kk = k, ksets = py_sorted_reverse kkset_lt sets\<rparr>"
  unfolding kkstate_inv_def
  using assms by (auto intro: kkset_order.py_sorted_reverse_nth_mono)

lemma state_items_sorted:
  "state_items \<lparr>kk = k, ksets = py_sorted_reverse kkset_lt sets\<rparr> = (\<Sum>s\<leftarrow>sets. mset (kitems s))"
  by (simp add: state_items_def sum_mset_mset_map [symmetric])

lemma kkstate_merge_eq:
  assumes "length (ksets st) = kk st" and "length (ksets other) = kk st"
  shows "kkstate_merge st other =
    \<lparr>kk = kk st, ksets = py_sorted_reverse kkset_lt
       (map2 kkset_merge (ksets st) (rev (ksets other)))\<rparr>"
proof -
  have "map (\<lambda>i. kkset_merge (ksets st ! i) (ksets other ! (kk st - 1 - i))) [0..<kk st]
      = map2 kkset_merge (ksets st) (rev (ksets other))"
    using assms by (intro nth_equalityI) (auto simp: rev_nth)
  then show ?thesis by (simp add: kkstate_merge_def)
qed

lemma state_items_merge:
  assumes "kkstate_inv k B E st" and "kkstate_inv k B E other"
  shows "state_items (kkstate_merge st other) = state_items st + state_items other"
proof -
  have len: "length (ksets st) = length (rev (ksets other))"
    using assms by (simp add: kkstate_inv_def)
  have "(\<Sum>s\<leftarrow>map2 kkset_merge xs ys. mset (kitems s))
      = (\<Sum>s\<leftarrow>xs. mset (kitems s)) + (\<Sum>s\<leftarrow>ys. mset (kitems s))"
    if "length xs = length ys" for xs ys
    using that by (induction xs ys rule: list_induct2) (auto simp: kk_simps)
  from this [OF len] have "(\<Sum>s\<leftarrow>map2 kkset_merge (ksets st) (rev (ksets other)). mset (kitems s))
      = state_items st + (\<Sum>s\<leftarrow>rev (ksets other). mset (kitems s))"
    by (simp add: state_items_def)
  also have "(\<Sum>s\<leftarrow>rev (ksets other). mset (kitems s)) = state_items other"
    by (simp add: state_items_def sum_mset_mset_map [symmetric])
  finally show ?thesis
    using assms by (simp add: kkstate_merge_eq kkstate_inv_def state_items_sorted)
qed

lemma merged_sum_diff:
  assumes "kkstate_inv k B E st" and "kkstate_inv k B E other" and "i < k" and "j < k"
  shows "ksum (ksets st ! i) + ksum (ksets other ! (k - 1 - i))
       - (ksum (ksets st ! j) + ksum (ksets other ! (k - 1 - j))) \<le> B"
proof -
  have range: "ksum (ksets x ! a) - ksum (ksets x ! b) \<le> B"
    if "kkstate_inv k B E x" "a < k" "b < k" for x a b
    using that by (simp add: kkstate_inv_def)
  have dec: "ksum (ksets x ! b) \<le> ksum (ksets x ! a)"
    if "kkstate_inv k B E x" "a \<le> b" "b < k" for x a b
    using that by (simp add: kkstate_inv_def)
  show ?thesis
  proof (cases "i \<le> j")
    case True
    with assms(3,4) have "k - 1 - j \<le> k - 1 - i" "k - 1 - i < k" by auto
    then show ?thesis
      using range [OF assms(1) assms(3) assms(4)] dec [OF assms(2), of "k - 1 - j" "k - 1 - i"] by linarith
  next
    case False
    with assms(3,4) have "j \<le> i" "k - 1 - i < k" "k - 1 - j < k" by auto
    then show ?thesis
      using dec [OF assms(1) _ assms(3)] range [OF assms(2), of "k - 1 - i" "k - 1 - j"] by fastforce
  qed
qed

lemma kkstate_inv_merge:
  assumes st: "kkstate_inv k B E st" and other: "kkstate_inv k B E other"
  shows "kkstate_inv k B E (kkstate_merge st other)"
proof -
  let ?ms = "map2 kkset_merge (ksets st) (rev (ksets other))"
  have len: "length (ksets st) = k" "length (ksets other) = k" "kk st = k"
    using assms by (auto simp: kkstate_inv_def)
  have nth: "?ms ! i = kkset_merge (ksets st ! i) (ksets other ! (k - 1 - i))"
      "ksets other ! (k - 1 - i) \<in> set (ksets other)" if "i < k" for i
    using that len by (auto simp: rev_nth)
  have sum: "ksum (?ms ! i) = ksum (ksets st ! i) + ksum (ksets other ! (k - 1 - i))" if "i < k" for i
    using nth [OF that] other by (simp add: kk_simps kkstate_inv_def kkset_ok_def)
  have in_ms: "\<exists>i<k. s = ?ms ! i" if "s \<in> set ?ms" for s
    using that len by (metis in_set_conv_nth length_map length_rev length_zip min.idem)
  have "kkstate_inv k B E \<lparr>kk = k, ksets = py_sorted_reverse kkset_lt ?ms\<rparr>"
  proof (rule kkstate_inv_sorted)
    show "length ?ms = k" by (simp add: len)
    show "kkset_ok s" if "s \<in> set ?ms" for s
    proof -
      from in_ms [OF that] obtain i where i: "i < k" "s = ?ms ! i" by blast
      then have "kkset_ok (ksets st ! i)" using st len by (simp add: kkstate_inv_def)
      then show ?thesis using i nth [OF i(1)] by (simp add: kk_simps kkset_ok_def)
    qed
    show "ksum s - ksum t \<le> B" if "s \<in> set ?ms" "t \<in> set ?ms" for s t
      using in_ms [OF that(1)] in_ms [OF that(2)] merged_sum_diff [OF st other] sum by fastforce
    show "\<exists>m. \<forall>s\<in>set ?ms. length (kitems s) = m" if E
    proof -
      from that st obtain m1 where m1: "\<And>s. s \<in> set (ksets st) \<Longrightarrow> length (kitems s) = m1"
        unfolding kkstate_inv_def by blast
      from that other obtain m2 where m2: "\<And>s. s \<in> set (ksets other) \<Longrightarrow> length (kitems s) = m2"
        unfolding kkstate_inv_def by blast
      have "length (kitems (?ms ! i)) = m1 + m2" if "i < k" for i
        using that m1 [of "ksets st ! i"] m2 [OF nth(2) [OF that]] len nth(1) [OF that]
        by (simp add: kk_simps)
      then show ?thesis using in_ms by metis
    qed
  qed
  then show ?thesis using len by (simp add: kkstate_merge_eq)
qed

section \<open>The loop\<close>

lemma kk_loop_result:
  assumes "pq \<noteq> []" and "\<forall>st\<in>set pq. kkstate_inv k B E st"
  shows "\<exists>st. kk_loop pq = Inr [st] \<and> kkstate_inv k B E st
    \<and> state_items st = (\<Sum>st\<in>#mset pq. state_items st)"
  using assms
proof (induction pq rule: kk_loop.induct)
  case (1 pq)
  show ?case
  proof (cases "1 < length pq")
    case False
    with 1(2) obtain st where pq: "pq = [st]" by (cases pq) auto
    with 1(3) show ?thesis by (simp add: kk_loop.simps [of "[st]"])
  next
    case True
    then obtain s0 s1 q1 q2 where pops: "heappop kkstate_lt pq = Inr (s0, q1)"
        "heappop kkstate_lt q1 = Inr (s1, q2)"
      and mset: "mset pq = add_mset s0 (add_mset s1 (mset q2))"
      by (rule heapq.pop_twice)
    let ?q = "heappush kkstate_lt q2 (kkstate_merge s0 s1)"
    have set: "set pq = insert s0 (insert s1 (set q2))"
      by (metis mset set_mset_add_mset_insert set_mset_mset)
    then have inv: "kkstate_inv k B E s0" "kkstate_inv k B E s1" "\<forall>st\<in>set q2. kkstate_inv k B E st"
      using 1(3) by auto
    have loop: "kk_loop pq = kk_loop ?q"
      using True pops by (simp add: kk_loop.simps [of pq])
    have "\<exists>st. kk_loop ?q = Inr [st] \<and> kkstate_inv k B E st
        \<and> state_items st = (\<Sum>st\<in>#mset ?q. state_items st)"
    proof (rule 1(1) [OF True pops(1) refl pops(2) refl])
      show "?q \<noteq> []" by (metis heapq.push_length list.size(3) nat.distinct(1))
      show "\<forall>st\<in>set ?q. kkstate_inv k B E st"
        using inv by (auto simp: heapq.push_set intro: kkstate_inv_merge)
    qed
    moreover have "(\<Sum>st\<in>#mset ?q. state_items st) = (\<Sum>st\<in>#mset pq. state_items st)"
      using inv by (simp add: mset state_items_merge)
    ultimately show ?thesis using loop by simp
  qed
qed

section \<open>The initial states\<close>

lemma kkstate_fill_nth:
  assumes "i + length items \<le> length sets"
  shows "\<exists>sets'. kkstate_fill i items sets = Inr sets' \<and> length sets' = length sets
    \<and> (\<forall>j < length sets. sets' ! j =
          (if i \<le> j \<and> j < i + length items
           then kkset_add (sets ! j) (fst (items ! (j - i))) (snd (items ! (j - i))) else sets ! j))"
  using assms
proof (induction i items sets rule: kkstate_fill.induct)
  case (1 i sets)
  then show ?case by auto
next
  case (2 i idx seqlen items sets)
  let ?sets = "sets[i := kkset_add (sets ! i) idx seqlen]"
  have "i < length sets" using 2(2) by simp
  with 2 obtain sets' where fill: "kkstate_fill (Suc i) items ?sets = Inr sets'"
    and len: "length sets' = length sets"
    and nth: "\<And>j. j < length sets \<Longrightarrow> sets' ! j =
      (if Suc i \<le> j \<and> j < Suc i + length items
       then kkset_add (?sets ! j) (fst (items ! (j - Suc i))) (snd (items ! (j - Suc i))) else ?sets ! j)"
    by auto
  have "sets' ! j = (if i \<le> j \<and> j < i + length ((idx, seqlen) # items)
      then kkset_add (sets ! j) (fst (((idx, seqlen) # items) ! (j - i))) (snd (((idx, seqlen) # items) ! (j - i)))
      else sets ! j)" if "j < length sets" for j
    using nth [OF that] that by (cases "j = i") (auto simp: nth_Cons')
  with fill len \<open>i < length sets\<close> show ?case by simp
qed

definition filled_sets :: "(nat \<times> int) list \<Rightarrow> nat \<Rightarrow> kkset list" where
  "filled_sets items k =
     map (\<lambda>(idx, v). kkset_add kkset_new idx v) items @ replicate (k - length items) kkset_new"

lemma kkstate_new_eq:
  assumes "length items = 1 \<or> length items = k" and "0 < k"
  shows "kkstate_new items k = Inr \<lparr>kk = k, ksets = py_sorted_reverse kkset_lt (filled_sets items k)\<rparr>"
proof -
  from assms have le: "0 + length items \<le> length (replicate k kkset_new)" by auto
  from kkstate_fill_nth [OF this] obtain sets where
    fill: "kkstate_fill 0 items (replicate k kkset_new) = Inr sets" and len: "length sets = k"
    and nth: "\<And>j. j < k \<Longrightarrow> sets ! j = (if j < length items
       then kkset_add kkset_new (fst (items ! j)) (snd (items ! j)) else kkset_new)"
    by auto
  have "sets = filled_sets items k"
    using le len nth by (intro nth_equalityI) (auto simp: filled_sets_def nth_append split_beta)
  with assms fill show ?thesis by (auto simp: kkstate_new_def)
qed

lemma filled_sets_ok: "s \<in> set (filled_sets items k) \<Longrightarrow> kkset_ok s"
  by (auto simp: filled_sets_def kkset_ok_def kkset_add_def kkset_new_def)

lemma filled_sets_items: "(\<Sum>s\<leftarrow>filled_sets items k. mset (kitems s)) = mset items"
proof -
  have "(\<Sum>s\<leftarrow>replicate n kkset_new. mset (kitems s)) = {#}" for n
    by (induction n) (auto simp: kkset_new_def)
  moreover have "(\<Sum>s\<leftarrow>map (\<lambda>(idx, v). kkset_add kkset_new idx v) items. mset (kitems s)) = mset items"
    by (induction items) (auto simp: kkset_add_def kkset_new_def)
  ultimately show ?thesis by (simp add: filled_sets_def)
qed

text \<open>A state of a single item: its set against empty sets. The spread is the item itself.\<close>

lemma item_state:
  assumes "0 < k" and "\<bar>v\<bar> \<le> B"
  shows "\<exists>st. kkstate_new [(idx, v)] k = Inr st \<and> kkstate_inv k B False st
    \<and> state_items st = {# (idx, v) #}"
proof -
  let ?sets = "filled_sets [(idx, v)] k"
  have sums: "ksum s \<in> {0, v}" if "s \<in> set ?sets" for s
    using that by (auto simp: filled_sets_def kkset_add_def kkset_new_def)
  have "kkstate_inv k B False \<lparr>kk = k, ksets = py_sorted_reverse kkset_lt ?sets\<rparr>"
  proof (rule kkstate_inv_sorted)
    show "ksum s - ksum t \<le> B" if "s \<in> set ?sets" "t \<in> set ?sets" for s t
      using sums [OF that(1)] sums [OF that(2)] assms(2) by auto
  qed (use assms in \<open>auto simp: filled_sets_def kkset_ok_def kkset_add_def kkset_new_def\<close>)
  then show ?thesis
    using assms by (simp add: kkstate_new_eq state_items_sorted filled_sets_items)
qed

text \<open>A state of a block of \<open>k\<close> items: one item per set.\<close>

lemma block_state:
  assumes "0 < k" and "length items = k" and "\<And>p. p \<in> set items \<Longrightarrow> lo \<le> snd p \<and> snd p \<le> hi"
  shows "\<exists>st. kkstate_new items k = Inr st \<and> kkstate_inv k (hi - lo) True st
    \<and> state_items st = mset items"
proof -
  let ?sets = "filled_sets items k"
  have eq: "?sets = map (\<lambda>p. kkset_add kkset_new (fst p) (snd p)) items"
    using assms(2) by (simp add: filled_sets_def split_beta)
  have "kkstate_inv k (hi - lo) True \<lparr>kk = k, ksets = py_sorted_reverse kkset_lt ?sets\<rparr>"
  proof (rule kkstate_inv_sorted)
    show "length ?sets = k" by (simp add: eq assms(2))
    show "kkset_ok s" if "s \<in> set ?sets" for s
      using that by (rule filled_sets_ok)
    show "ksum s - ksum t \<le> hi - lo" if "s \<in> set ?sets" "t \<in> set ?sets" for s t
    proof -
      from that obtain p q where "p \<in> set items" "q \<in> set items"
        "ksum s = snd p" "ksum t = snd q"
        by (auto simp: eq kkset_add_def kkset_new_def)
      then show ?thesis using assms(3) [of p] assms(3) [of q] by linarith
    qed
    show "\<exists>m. \<forall>s\<in>set ?sets. length (kitems s) = m"
      by (auto simp: eq kkset_add_def kkset_new_def)
  qed
  then show ?thesis
    using assms by (simp add: kkstate_new_eq state_items_sorted filled_sets_items)
qed

definition indexed :: "int list \<Rightarrow> (nat \<times> int) multiset" where
  "indexed seqlens = mset (map (\<lambda>i. (i, seqlens ! i)) [0..<length seqlens])"

lemma mset_kk_sorted_items:
  "image_mset prod.swap (mset (kk_sorted_items seqlens)) = indexed seqlens"
proof -
  have "map (\<lambda>(i, seqlen). (seqlen, i)) (enumerate 0 seqlens) = map (\<lambda>i. (seqlens ! i, i)) [0..<length seqlens]"
    by (intro nth_equalityI) (auto simp: nth_enumerate_eq)
  then have "image_mset prod.swap (mset (kk_sorted_items seqlens))
      = mset (map prod.swap (map (\<lambda>i. (seqlens ! i, i)) [0..<length seqlens]))"
    unfolding kk_sorted_items_def mset_py_sorted by (simp only: mset_map)
  also have "map prod.swap (map (\<lambda>i. (seqlens ! i, i)) [0..<length seqlens])
      = map (\<lambda>i. (i, seqlens ! i)) [0..<length seqlens]"
    by simp
  finally show ?thesis by (simp only: indexed_def)
qed

lemma kk_sorted_items_snd: "p \<in> set (kk_sorted_items seqlens) \<Longrightarrow> fst p \<in> set seqlens"
  by (auto simp: kk_sorted_items_def in_set_enumerate_eq)

lemma length_kk_sorted_items [simp]: "length (kk_sorted_items seqlens) = length seqlens"
  by (simp add: kk_sorted_items_def)

text \<open>A list of states that are built one per element.\<close>

lemma rmap_states:
  assumes "\<And>x. x \<in> set xs \<Longrightarrow> \<exists>st. f x = Inr st \<and> P st \<and> state_items st = g x"
  shows "\<exists>sts. rmap f xs = Inr sts \<and> length sts = length xs \<and> (\<forall>st\<in>set sts. P st)
    \<and> (\<Sum>st\<in>#mset sts. state_items st) = (\<Sum>x\<leftarrow>xs. g x)"
  using assms
proof (induction xs)
  case Nil
  then show ?case by auto
next
  case (Cons x xs)
  from Cons.prems obtain st where "f x = Inr st" "P st" "state_items st = g x" by auto
  moreover from Cons obtain sts where "rmap f xs = Inr sts" "length sts = length xs"
    "\<forall>st\<in>set sts. P st" "(\<Sum>st\<in>#mset sts. state_items st) = (\<Sum>x\<leftarrow>xs. g x)"
    by auto
  ultimately show ?case by auto
qed

lemma kk_item_states_result:
  assumes "0 < k" and "\<And>v. v \<in> set seqlens \<Longrightarrow> \<bar>v\<bar> \<le> B"
  shows "\<exists>sts. kk_item_states (kk_sorted_items seqlens) k = Inr sts \<and> length sts = length seqlens
    \<and> (\<forall>st\<in>set sts. kkstate_inv k B False st) \<and> (\<Sum>st\<in>#mset sts. state_items st) = indexed seqlens"
proof -
  have "\<exists>st. (case p of (seqlen, idx) \<Rightarrow> kkstate_new [(idx, seqlen)] k) = Inr st
      \<and> kkstate_inv k B False st \<and> state_items st = {# prod.swap p #}"
    if "p \<in> set (kk_sorted_items seqlens)" for p
    using item_state [OF assms(1), of "fst p" B "snd p"] assms(2) [OF kk_sorted_items_snd [OF that]]
    by (cases p) simp
  from rmap_states [of "kk_sorted_items seqlens" _ _ "\<lambda>p. {# prod.swap p #}", OF this]
  have "\<exists>sts. kk_item_states (kk_sorted_items seqlens) k = Inr sts
    \<and> length sts = length seqlens \<and> (\<forall>st\<in>set sts. kkstate_inv k B False st)
    \<and> (\<Sum>st\<in>#mset sts. state_items st) = (\<Sum>p\<leftarrow>kk_sorted_items seqlens. {# prod.swap p #})"
    by (simp add: kk_item_states_def)
  moreover have "(\<Sum>p\<leftarrow>ps. {# prod.swap p #}) = image_mset prod.swap (mset ps)" for ps :: "(int \<times> nat) list"
    by (induction ps) auto
  ultimately show ?thesis by (simp only: mset_kk_sorted_items)
qed

lemma kk_block_states_result:
  assumes "0 < k" and "length seqlens mod k = 0" and "\<And>v. v \<in> set seqlens \<Longrightarrow> lo \<le> v \<and> v \<le> hi"
  shows "\<exists>sts. kk_block_states (kk_sorted_items seqlens) k = Inr sts
    \<and> length sts = length seqlens div k
    \<and> (\<forall>st\<in>set sts. kkstate_inv k (hi - lo) True st)
    \<and> (\<Sum>st\<in>#mset sts. state_items st) = indexed seqlens"
proof -
  let ?s = "map prod.swap (kk_sorted_items seqlens)" and ?m = "length seqlens div k"
  have mk: "?m * k = length seqlens" using assms(2) by (simp add: mod_0_imp_dvd)
  let ?block = "\<lambda>b. map (\<lambda>i. ?s ! (b * k + i)) [0..<k]"
  let ?code = "\<lambda>b. map (\<lambda>i. let (seqlen, idx) = kk_sorted_items seqlens ! (b * k + i) in (idx, seqlen)) [0..<k]"
  have in_range: "b * k + i < length seqlens" if "b < ?m" "i < k" for b i
  proof -
    have "Suc b * k \<le> ?m * k" using that(1) by (intro mult_le_mono1) simp
    then show ?thesis using that(2) mk by simp
  qed
  have block: "?code b = ?block b" if "b < ?m" for b
    using in_range [OF that] by (auto simp: split_beta prod.swap_def)
  have bounds: "lo \<le> snd p \<and> snd p \<le> hi" if "p \<in> set (?block b)" "b < ?m" for p b
  proof -
    from that(1) obtain i where "i < k" "p = ?s ! (b * k + i)" by auto
    then have "snd p = fst (kk_sorted_items seqlens ! (b * k + i))"
      and "kk_sorted_items seqlens ! (b * k + i) \<in> set (kk_sorted_items seqlens)"
      using in_range [OF that(2)] by simp_all
    then show ?thesis using assms(3) kk_sorted_items_snd by metis
  qed
  have "\<exists>st. kkstate_new (?code b) k = Inr st \<and> kkstate_inv k (hi - lo) True st
      \<and> state_items st = mset (?block b)" if "b \<in> set [0..<?m]" for b
  proof -
    from that have b: "b < ?m" by simp
    show ?thesis unfolding block [OF b]
      using block_state [OF assms(1), of "?block b" lo hi] bounds [OF _ b] by simp
  qed
  from rmap_states [of "[0..<?m]" _ _ "\<lambda>b. mset (?block b)", OF this] obtain sts where
    sts: "kk_block_states (kk_sorted_items seqlens) k = Inr sts" "length sts = ?m"
      "\<forall>st\<in>set sts. kkstate_inv k (hi - lo) True st"
    and items: "(\<Sum>st\<in>#mset sts. state_items st) = (\<Sum>b\<leftarrow>[0..<?m]. mset (?block b))"
    by (auto simp: kk_block_states_def)
  have "(\<Sum>b\<leftarrow>[0..<?m]. mset (?block b)) = mset (take (?m * k) ?s)"
    using mk by (simp only: sum_list_mset_concat) (subst concat_blocks, auto)
  also have "\<dots> = indexed seqlens"
    using mk by (simp add: mset_kk_sorted_items)
  finally show ?thesis using sts items by auto
qed

section \<open>The result\<close>

text \<open>The specification of a partitioner: the parts hold every index of the input exactly once.\<close>

definition partition_of :: "nat \<Rightarrow> nat list list \<Rightarrow> bool" where
  "partition_of n parts \<longleftrightarrow> mset (concat parts) = mset [0..<n]"

definition psum :: "int list \<Rightarrow> nat list \<Rightarrow> int" where
  "psum seqlens part = sum_list (select seqlens part)"

lemma partition_ofD:
  assumes "partition_of n parts"
  shows "set (concat parts) = {0..<n}" and "distinct (concat parts)" and "length (concat parts) = n"
  using assms unfolding partition_of_def perm_upt_iff [symmetric]
  by (metis perm_upt_iff, metis perm_upt_iff, metis diff_zero length_upt size_mset)

lemma kk_state_values:
  assumes items: "state_items st = indexed seqlens" and s: "s \<in> set (ksets st)"
  shows "map snd (kitems s) = select seqlens (map fst (kitems s))"
proof -
  have "snd p = seqlens ! fst p" if "p \<in> set (kitems s)" for p
  proof -
    from that s have "p \<in># state_items st"
      by (auto simp: state_items_def sum_list_mset_concat)
    then show ?thesis unfolding items by (auto simp: indexed_def)
  qed
  then show ?thesis by (simp add: select_def)
qed

lemma kk_state_sums:
  assumes "kkstate_inv k B E st" and "state_items st = indexed seqlens" and "s \<in> set (ksets st)"
  shows "psum seqlens (map fst (kitems s)) = ksum s"
  using assms by (simp add: psum_def kk_state_values [symmetric] kkstate_inv_def kkset_ok_def)

lemma kk_state_partition:
  assumes "state_items st = indexed seqlens"
  shows "partition_of (length seqlens) (kkstate_partitions st)"
proof -
  have "mset (concat (kkstate_partitions st)) = image_mset fst (state_items st)"
    by (simp add: kkstate_partitions_def state_items_def sum_list_mset_concat map_concat
        mset_map [symmetric] comp_def del: mset_map)
  also have "\<dots> = mset (map fst (map (\<lambda>i. (i, seqlens ! i)) [0..<length seqlens]))"
    unfolding assms indexed_def by (simp only: mset_map)
  also have "map fst (map (\<lambda>i. (i, seqlens ! i)) [0..<length seqlens]) = [0..<length seqlens]"
    by (simp add: comp_def)
  finally show ?thesis by (simp only: partition_of_def)
qed

lemma equal_lengths_times:
  assumes "\<forall>p\<in>set parts. length p = m" and "length parts = k" and "partition_of n parts"
  shows "m * k = n"
proof -
  have "length (concat parts) = (\<Sum>p\<leftarrow>parts. length p)" by (simp add: length_concat)
  also have "\<dots> = (\<Sum>p\<leftarrow>parts. m)" using assms(1) by (intro arg_cong [where f = sum_list] map_cong) auto
  finally show ?thesis using partition_ofD(3) [OF assms(3)] assms(2) by (simp add: sum_list_triv mult.commute)
qed

lemma kk_final_state:
  assumes inv: "kkstate_inv k B E st" and items: "state_items st = indexed seqlens"
  defines "parts \<equiv> kkstate_partitions st"
  shows "length parts = k" and "partition_of (length seqlens) parts"
    and "\<And>p q. p \<in> set parts \<Longrightarrow> q \<in> set parts \<Longrightarrow> psum seqlens p - psum seqlens q \<le> B"
    and "E \<Longrightarrow> p \<in> set parts \<Longrightarrow> length p * k = length seqlens"
proof -
  show len: "length parts = k"
    using inv by (simp add: parts_def kkstate_partitions_def kkstate_inv_def)
  show part: "partition_of (length seqlens) parts"
    unfolding parts_def by (rule kk_state_partition [OF items])
  show "psum seqlens p - psum seqlens q \<le> B" if "p \<in> set parts" "q \<in> set parts" for p q
    using that inv kk_state_sums [OF inv items]
    by (auto simp: parts_def kkstate_partitions_def kkstate_inv_def)
  show "length p * k = length seqlens" if "E" "p \<in> set parts"
  proof -
    from that(1) inv obtain m where "\<forall>s\<in>set (ksets st). length (kitems s) = m"
      unfolding kkstate_inv_def by blast
    then have m: "\<forall>p\<in>set parts. length p = m" by (auto simp: parts_def kkstate_partitions_def)
    with that(2) show ?thesis using equal_lengths_times [OF m len part] by auto
  qed
qed

text \<open>Both ways of running the algorithm, from the initial queue to the returned partition.\<close>

lemma karmarkar_karp_runs:
  assumes queue: "kk_initial_queue seqlens k E = Inr (foldl (heappush kkstate_lt) [] sts)"
    and ne: "sts \<noteq> []" and inv: "\<forall>st\<in>set sts. kkstate_inv k B E st"
    and items: "(\<Sum>st\<in>#mset sts. state_items st) = indexed seqlens"
  shows "\<exists>parts. karmarkar_karp seqlens k E = Inr parts \<and> length parts = k
    \<and> partition_of (length seqlens) parts
    \<and> (\<forall>p\<in>set parts. \<forall>q\<in>set parts. psum seqlens p - psum seqlens q \<le> B)
    \<and> (E \<longrightarrow> (\<forall>p\<in>set parts. length p * k = length seqlens))"
proof -
  let ?pq = "foldl (heappush kkstate_lt) [] sts"
  have mset: "mset ?pq = mset sts" by (simp add: heapq.foldl_push_mset)
  then have "?pq \<noteq> []" and "\<forall>st\<in>set ?pq. kkstate_inv k B E st"
    using ne inv by (metis mset.simps(1) mset_zero_iff, metis set_mset_mset)
  then obtain st where loop: "kk_loop ?pq = Inr [st]" and st: "kkstate_inv k B E st"
    and "state_items st = indexed seqlens"
    using kk_loop_result [of ?pq k B E] mset items by metis
  note facts = kk_final_state [OF st this(3)]
  have "karmarkar_karp seqlens k E = Inr (kkstate_partitions st)"
    using facts(4) by (auto simp: karmarkar_karp_def queue loop rassert_def)
  then show ?thesis using facts by auto
qed

lemma karmarkar_karp_items:
  assumes "0 < k" and "seqlens \<noteq> []" and "\<And>v. v \<in> set seqlens \<Longrightarrow> \<bar>v\<bar> \<le> B"
  shows "\<exists>parts. karmarkar_karp seqlens k False = Inr parts \<and> length parts = k
    \<and> partition_of (length seqlens) parts
    \<and> (\<forall>p\<in>set parts. \<forall>q\<in>set parts. psum seqlens p - psum seqlens q \<le> B)"
proof -
  from kk_item_states_result [OF assms(1,3)] obtain sts where
    sts: "kk_item_states (kk_sorted_items seqlens) k = Inr sts" "length sts = length seqlens"
      "\<forall>st\<in>set sts. kkstate_inv k B False st"
      "(\<Sum>st\<in>#mset sts. state_items st) = indexed seqlens" by blast
  have "kk_initial_queue seqlens k False = Inr (foldl (heappush kkstate_lt) [] sts)"
    by (simp add: kk_initial_queue_def sts(1))
  moreover have "sts \<noteq> []" using sts(2) assms(2) by auto
  ultimately show ?thesis
    using karmarkar_karp_runs [OF _ _ sts(3,4)] by blast
qed

lemma karmarkar_karp_blocks:
  assumes "0 < k" and "seqlens \<noteq> []" and "length seqlens mod k = 0"
    and "\<And>v. v \<in> set seqlens \<Longrightarrow> lo \<le> v \<and> v \<le> hi"
  shows "\<exists>parts. karmarkar_karp seqlens k True = Inr parts \<and> length parts = k
    \<and> partition_of (length seqlens) parts
    \<and> (\<forall>p\<in>set parts. \<forall>q\<in>set parts. psum seqlens p - psum seqlens q \<le> hi - lo)
    \<and> (\<forall>p\<in>set parts. length p * k = length seqlens)"
proof -
  from kk_block_states_result [OF assms(1,3,4)] obtain sts where
    sts: "kk_block_states (kk_sorted_items seqlens) k = Inr sts" "length sts = length seqlens div k"
      "\<forall>st\<in>set sts. kkstate_inv k (hi - lo) True st"
      "(\<Sum>st\<in>#mset sts. state_items st) = indexed seqlens" by blast
  have "kk_initial_queue seqlens k True = Inr (foldl (heappush kkstate_lt) [] sts)"
    using assms(1,3) by (simp add: kk_initial_queue_def sts(1))
  moreover have "sts \<noteq> []"
    using sts(2) assms(1-3) by (cases sts) (auto simp: div_eq_0_iff)
  ultimately show ?thesis
    using karmarkar_karp_runs [OF _ _ sts(3,4)] by blast
qed

section \<open>No part is empty\<close>

text \<open>With non-negative values the non-empty sets of a state come first (an empty set has sum 0
  and length 0), and merging pairs the empty sets of one state with non-empty sets of the other
  as long as there are any. So a state with \<open>c\<close> items has \<open>min k c\<close> non-empty sets.\<close>

definition occupied :: "kkset \<Rightarrow> bool" where
  "occupied s \<longleftrightarrow> kitems s \<noteq> []"

definition kkset_nonneg :: "kkset \<Rightarrow> bool" where
  "kkset_nonneg s \<longleftrightarrow> kkset_ok s \<and> (\<forall>p\<in>set (kitems s). 0 \<le> snd p)"

lemma kkset_nonneg_sum: "kkset_nonneg s \<Longrightarrow> 0 \<le> ksum s"
  by (auto simp: kkset_nonneg_def kkset_ok_def intro!: sum_list_nonneg)

lemma kkset_empty_sum: "kkset_ok s \<Longrightarrow> \<not> occupied s \<Longrightarrow> ksum s = 0"
  by (simp add: kkset_ok_def occupied_def)

interpretation occupied_order: keyed_order kkset_lt "\<lambda>s. of_bool (occupied s) :: nat" kkset_nonneg
proof
  fix x y
  assume x: "kkset_nonneg x" and y: "kkset_nonneg y"
  have less: "kkset_lt u v" and asym: "\<not> kkset_lt v u"
    if "kkset_nonneg u" "kkset_nonneg v" "\<not> occupied u" "occupied v" for u v
    using that kkset_nonneg_sum [of v] kkset_empty_sum [of u]
    by (auto simp: kkset_lt_def occupied_def kkset_nonneg_def)
  show "of_bool (occupied x) \<le> (of_bool (occupied y) :: nat)" if "kkset_lt x y"
    using asym [OF y x] that by (cases "occupied x"; cases "occupied y") auto
  show "of_bool (occupied y) \<le> (of_bool (occupied x) :: nat)" if "\<not> kkset_lt x y"
    using less [OF x y] that by (cases "occupied x"; cases "occupied y") auto
qed

definition kkstate_full :: "nat \<Rightarrow> kkstate \<Rightarrow> bool" where
  "kkstate_full k st \<longleftrightarrow>
     kk st = k \<and> length (ksets st) = k \<and> (\<forall>s\<in>set (ksets st). kkset_nonneg s)
     \<and> (\<forall>j<k. occupied (ksets st ! j) \<longleftrightarrow> j < min k (size (state_items st)))"

lemma occupied_sorted:
  assumes "\<forall>s\<in>set sets. kkset_nonneg s" and "j < length sets"
  shows "occupied (py_sorted_reverse kkset_lt sets ! j) \<longleftrightarrow> j < length (filter occupied sets)"
proof -
  let ?xs = "py_sorted_reverse kkset_lt sets"
  have "occupied (?xs ! i)" if "i \<le> j" "j < length ?xs" "occupied (?xs ! j)" for i j
    using occupied_order.py_sorted_reverse_nth_mono [OF assms(1) that(1)] that
    by (auto simp: of_bool_def split: if_splits)
  then have "occupied (?xs ! j) \<longleftrightarrow> j < length (filter occupied ?xs)"
    using assms(2) by (intro nth_prefix_filter) auto
  also have "length (filter occupied ?xs) = length (filter occupied sets)"
    by (metis mset_filter mset_py_sorted_reverse size_mset)
  finally show ?thesis .
qed

lemma kkstate_full_sorted:
  assumes "length sets = k" and "\<forall>s\<in>set sets. kkset_nonneg s"
    and "length (filter occupied sets) = min k (size (\<Sum>s\<leftarrow>sets. mset (kitems s)))"
  shows "kkstate_full k \<lparr>kk = k, ksets = py_sorted_reverse kkset_lt sets\<rparr>"
  using assms occupied_sorted [OF assms(2)] by (simp add: kkstate_full_def state_items_sorted)

lemma card_window:
  assumes "a \<le> k" and "b \<le> (k::nat)"
  shows "card {i. i < k \<and> (i < a \<or> k - 1 - i < b)} = min k (a + b)"
proof -
  have "{i. i < k \<and> (i < a \<or> k - 1 - i < b)} = {0..<a} \<union> {max a (k - b)..<k}"
    using assms by (auto simp: max_def)
  also have "card \<dots> = a + (k - max a (k - b))"
    by (subst card_Un_disjoint) auto
  finally show ?thesis using assms by (auto simp: max_def min_def)
qed

lemma kkstate_full_merge:
  assumes st: "kkstate_full k st" and other: "kkstate_full k other"
  shows "kkstate_full k (kkstate_merge st other)"
proof -
  let ?ms = "map2 kkset_merge (ksets st) (rev (ksets other))"
  let ?a = "min k (size (state_items st))" and ?b = "min k (size (state_items other))"
  have len: "length (ksets st) = k" "length (ksets other) = k" "kk st = k"
    using assms by (auto simp: kkstate_full_def)
  have items: "(\<Sum>s\<leftarrow>?ms. mset (kitems s)) = state_items st + state_items other"
  proof -
    have "(\<Sum>s\<leftarrow>map2 kkset_merge xs ys. mset (kitems s))
        = (\<Sum>s\<leftarrow>xs. mset (kitems s)) + (\<Sum>s\<leftarrow>ys. mset (kitems s))"
      if "length xs = length ys" for xs ys
      using that by (induction xs ys rule: list_induct2) (auto simp: kk_simps)
    moreover have "(\<Sum>s\<leftarrow>rev (ksets other). mset (kitems s)) = state_items other"
      by (simp add: state_items_def sum_mset_mset_map [symmetric])
    ultimately show ?thesis using len by (simp add: state_items_def)
  qed
  have nonneg: "kkset_nonneg s" if s: "s \<in> set ?ms" for s
  proof -
    from s obtain x y where xy: "(x, y) \<in> set (zip (ksets st) (rev (ksets other)))"
      and "s = kkset_merge x y" by auto
    moreover have "x \<in> set (ksets st)" "y \<in> set (ksets other)"
      using set_zip_leftD [OF xy] set_zip_rightD [OF xy] by simp_all
    ultimately show ?thesis
      using st other by (auto simp: kkstate_full_def kk_simps kkset_nonneg_def kkset_ok_def)
  qed
  have occ: "occupied (?ms ! i) \<longleftrightarrow> i < ?a \<or> k - 1 - i < ?b" if "i < k" for i
  proof -
    have "occupied (?ms ! i) \<longleftrightarrow> occupied (ksets st ! i) \<or> occupied (ksets other ! (k - 1 - i))"
      using that len by (simp add: kk_simps occupied_def rev_nth)
    then show ?thesis
      using st other that by (simp add: kkstate_full_def)
  qed
  have "length (filter occupied ?ms) = card {i. i < k \<and> (i < ?a \<or> k - 1 - i < ?b)}"
    unfolding length_filter_conv_card using occ len by (intro arg_cong [where f = card]) auto
  also have "\<dots> = min k (?a + ?b)"
    by (rule card_window) auto
  also have "\<dots> = min k (size (\<Sum>s\<leftarrow>?ms. mset (kitems s)))"
    unfolding items size_union by (simp add: min_def)
  finally have "length (filter occupied ?ms) = min k (size (\<Sum>s\<leftarrow>?ms. mset (kitems s)))" .
  with nonneg have "kkstate_full k \<lparr>kk = k, ksets = py_sorted_reverse kkset_lt ?ms\<rparr>"
    using len by (intro kkstate_full_sorted) auto
  then show ?thesis using len by (simp add: kkstate_merge_eq)
qed

lemma item_state_full:
  assumes "0 < k" and "0 \<le> v" and "kkstate_new [(idx, v)] k = Inr st"
  shows "kkstate_full k st"
proof -
  obtain k' where k: "k = Suc k'" using assms(1) by (cases k) auto
  have "kkstate_full k \<lparr>kk = k, ksets = py_sorted_reverse kkset_lt (filled_sets [(idx, v)] k)\<rparr>"
    using assms(1,2)
    by (intro kkstate_full_sorted)
      (auto simp: filled_sets_items filled_sets_def kkset_nonneg_def kkset_ok_def kkset_add_def
        kkset_new_def occupied_def k)
  then show ?thesis using assms(1,3) by (simp add: kkstate_new_eq)
qed

text \<open>Preservation by the loop: any property that merging preserves holds of the final state.\<close>

lemma kk_loop_preserves:
  assumes "\<And>s t. P s \<Longrightarrow> P t \<Longrightarrow> P (kkstate_merge s t)"
    and "\<forall>st\<in>set pq. P st" and "kk_loop pq = Inr pq'"
  shows "\<forall>st\<in>set pq'. P st"
  using assms(2,3)
proof (induction pq rule: kk_loop.induct)
  case (1 pq)
  show ?case
  proof (cases "1 < length pq")
    case False
    with 1(2,3) show ?thesis by (simp add: kk_loop.simps [of pq])
  next
    case True
    then obtain s0 s1 q1 q2 where pops: "heappop kkstate_lt pq = Inr (s0, q1)"
        "heappop kkstate_lt q1 = Inr (s1, q2)"
      and mset: "mset pq = add_mset s0 (add_mset s1 (mset q2))"
      by (rule heapq.pop_twice)
    have set: "set pq = insert s0 (insert s1 (set q2))"
      by (metis mset set_mset_add_mset_insert set_mset_mset)
    show ?thesis
    proof (rule 1(1) [OF True pops(1) refl pops(2) refl])
      show "\<forall>st\<in>set (heappush kkstate_lt q2 (kkstate_merge s0 s1)). P st"
        using 1(2) set assms(1) by (auto simp: heapq.push_set)
      show "kk_loop (heappush kkstate_lt q2 (kkstate_merge s0 s1)) = Inr pq'"
        using 1(3) True pops by (simp add: kk_loop.simps [of pq])
    qed
  qed
qed

lemma karmarkar_karp_nonempty:
  assumes "0 < k" and "k \<le> length seqlens" and "\<And>v. v \<in> set seqlens \<Longrightarrow> 0 \<le> v"
    and "karmarkar_karp seqlens k False = Inr parts"
  shows "\<forall>p\<in>set parts. p \<noteq> []"
proof -
  let ?items = "kk_sorted_items seqlens"
  from assms(4) obtain sts pq' where
    sts: "kk_item_states ?items k = Inr sts"
    and loop: "kk_loop (foldl (heappush kkstate_lt) [] sts) = Inr pq'"
    and ne: "pq' \<noteq> []" and parts: "parts = kkstate_partitions (hd pq')"
    by (auto simp: karmarkar_karp_def kk_initial_queue_def res_simps Let_def)
  have full: "kkstate_full k st" if "st \<in> set sts" for st
  proof -
    from that obtain i where i: "i < length sts" "st = sts ! i" by (metis in_set_conv_nth)
    have "i < length ?items" using i rmap_length [OF sts [unfolded kk_item_states_def]] by simp
    then have "?items ! i \<in> set ?items" by simp
    moreover have "kkstate_new [(snd (?items ! i), fst (?items ! i))] k = Inr st"
      using rmap_nth [OF sts [unfolded kk_item_states_def]] \<open>i < length ?items\<close> i
      by (simp add: split_beta)
    ultimately show ?thesis
      using item_state_full [OF assms(1)] assms(3) [OF kk_sorted_items_snd] by metis
  qed
  let ?B = "Max (insert 0 (set seqlens))"
  from kk_item_states_result [OF assms(1), of seqlens ?B] assms(3)
  have inv: "\<forall>st\<in>set sts. kkstate_inv k ?B False st" and len: "length sts = length seqlens"
    and items: "(\<Sum>st\<in>#mset sts. state_items st) = indexed seqlens"
    using sts by auto
  have set: "set (foldl (heappush kkstate_lt) [] sts) = set sts"
    by (simp add: heapq.foldl_push_set)
  have "sts \<noteq> []" using len assms(1,2) by auto
  then have "foldl (heappush kkstate_lt) [] sts \<noteq> []" using set by (metis set_empty)
  from kk_loop_result [OF this, of k ?B False] loop inv items obtain st where
    st: "pq' = [st]" "state_items st = indexed seqlens"
    by (auto simp: set heapq.foldl_push_mset)
  have "kkstate_full k st"
    using kk_loop_preserves [where P = "kkstate_full k", OF kkstate_full_merge _ loop] full st(1) set by simp
  moreover have "size (state_items st) = length seqlens" by (simp add: st(2) indexed_def)
  ultimately have "\<forall>j<k. occupied (ksets st ! j)" and "length (ksets st) = k"
    using assms(2) by (auto simp: kkstate_full_def)
  then show ?thesis
    by (auto simp: parts st(1) kkstate_partitions_def occupied_def in_set_conv_nth)
qed

end
