(* ===== verification/Partition.thy ===== *)
theory Partition
  imports KarmarkarKarp
begin

text \<open>
  The partitioning entry points of \<open>verl/utils/seqlen_balancing.py\<close>: the greedy partitioner, the
  checked Karmarkar-Karp partitioner \<open>get_seqlen_balanced_partitions\<close> and the variant that keeps
  the samples of one prompt together.
\<close>

section \<open>Workload and integer helpers\<close>

definition calculate_workload :: "int \<Rightarrow> int" where
  "calculate_workload seqlen = 24576 * seqlen + seqlen ^ 2"

definition ceildiv :: "int \<Rightarrow> int \<Rightarrow> int res" where
  "ceildiv a b = rbind (rcheck ZeroDivisionError (b \<noteq> 0)) (\<lambda>_. Inr (- (a div (- b))))"

definition roundup_divisible :: "int \<Rightarrow> int \<Rightarrow> int res" where
  "roundup_divisible a b =
     rbind (rcheck ZeroDivisionError (b \<noteq> 0)) (\<lambda>_. Inr (((a + b - 1) div b) * b))"

section \<open>greedy_partition\<close>

text \<open>The inner loop: the first partition with the smallest sum; \<open>None\<close> when there is none.\<close>

definition greedy_min_idx :: "int list \<Rightarrow> nat \<Rightarrow> nat option" where
  "greedy_min_idx partition_sums k =
     foldl (\<lambda>min_idx j. case min_idx of None \<Rightarrow> Some j
              | Some i \<Rightarrow> if partition_sums ! j < partition_sums ! i then Some j else Some i)
           None [0..<k]"

fun greedy_loop :: "nat \<Rightarrow> (int \<times> nat) list \<Rightarrow> nat list list \<Rightarrow> int list \<Rightarrow> (nat list list \<times> int list) res" where
  "greedy_loop k [] partitions partition_sums = Inr (partitions, partition_sums)"
| "greedy_loop k ((seqlen, i) # rest) partitions partition_sums =
     (case greedy_min_idx partition_sums k of
        None \<Rightarrow> Inl TypeError
      | Some m \<Rightarrow> greedy_loop k rest (partitions[m := partitions ! m @ [i]])
                    (partition_sums[m := partition_sums ! m + seqlen]))"

definition greedy_partition :: "int list \<Rightarrow> nat \<Rightarrow> bool \<Rightarrow> nat list list res" where
  "greedy_partition seqlen_list k_partitions equal_size =
     (let bias = (if equal_size then sum_list seqlen_list + 1 else 0);
          sorted_seqlen = map (\<lambda>(i, seqlen). (seqlen + bias, i)) (enumerate 0 seqlen_list)
      in rbind (greedy_loop k_partitions sorted_seqlen
                  (replicate k_partitions []) (replicate k_partitions 0)) (\<lambda>(partitions, _).
         rbind (rassert (equal_size \<longrightarrow>
                  (\<forall>p \<in> set partitions. length p * k_partitions = length seqlen_list))) (\<lambda>_.
         Inr partitions)))"

section \<open>get_seqlen_balanced_partitions\<close>

definition check_and_sort_partitions :: "nat \<Rightarrow> nat \<Rightarrow> nat list list \<Rightarrow> nat list list res" where
  "check_and_sort_partitions n k_partitions partitions =
     rbind (rassert (length partitions = k_partitions)) (\<lambda>_.
     rbind (rassert (\<forall>p \<in> set partitions. 0 < length p)) (\<lambda>_.
     rbind (rassert (set (concat partitions) = {0..<n})) (\<lambda>_.
     Inr (map (py_sorted (<)) partitions))))"

definition get_seqlen_balanced_partitions :: "int list \<Rightarrow> nat \<Rightarrow> bool \<Rightarrow> nat list list res" where
  "get_seqlen_balanced_partitions seqlen_list k_partitions equal_size =
     rbind (rassert (k_partitions \<le> length seqlen_list)) (\<lambda>_.
     rbind (karmarkar_karp seqlen_list k_partitions equal_size) (\<lambda>partitions.
     check_and_sort_partitions (length seqlen_list) k_partitions partitions))"

section \<open>get_group_balanced_partitions\<close>

text \<open>The loop that cuts the batch into runs of equal uid. The state is \<open>(groups, current_uid,
  current_indices, current_seqlen)\<close>, where \<open>groups\<close> holds pairs of indices and total length.
  A uid is an optional value: \<open>None\<close> is Python's \<open>None\<close>, the initial \<open>current_uid\<close>.\<close>

type_synonym 'u group_state = "(nat list \<times> int) list \<times> 'u option \<times> nat list \<times> int"

definition group_step :: "'u group_state \<Rightarrow> nat \<times> int \<times> 'u option \<Rightarrow> 'u group_state" where
  "group_step st p =
     (case st of (groups, current_uid, current_indices, current_seqlen) \<Rightarrow>
      case p of (i, seqlen, uid) \<Rightarrow>
        if uid \<noteq> current_uid
        then (if current_indices \<noteq> [] then groups @ [(current_indices, current_seqlen)] else groups,
              uid, [i], seqlen)
        else (groups, current_uid, current_indices @ [i], current_seqlen + seqlen))"

definition uid_groups :: "int list \<Rightarrow> 'u option list \<Rightarrow> (nat list \<times> int) list" where
  "uid_groups seqlen_list uid_list =
     (case foldl group_step ([], None, [], 0) (enumerate 0 (zip seqlen_list uid_list)) of
        (groups, _, current_indices, current_seqlen) \<Rightarrow>
          if current_indices \<noteq> [] then groups @ [(current_indices, current_seqlen)] else groups)"

definition get_group_balanced_partitions ::
    "int list \<Rightarrow> 'u option list \<Rightarrow> nat \<Rightarrow> nat list list res" where
  "get_group_balanced_partitions seqlen_list uid_list k_partitions =
     rbind (rassert (length seqlen_list = length uid_list)) (\<lambda>_.
     (let groups = uid_groups seqlen_list uid_list in
      rbind (rassert (k_partitions \<le> length groups)) (\<lambda>_.
      (let group_workloads = map (\<lambda>(indices, total_seqlen).
             sum_list (map (\<lambda>i. calculate_workload (seqlen_list ! i)) indices)) groups in
       rbind (get_seqlen_balanced_partitions group_workloads k_partitions True) (\<lambda>group_partitions.
       Inr (map (\<lambda>group_partition. py_sorted (<) (concat (map (\<lambda>g. fst (groups ! g)) group_partition)))
              group_partitions))))))"

section \<open>log_seqlen_unbalance\<close>

record unbalance_metrics =
  metric_min :: int
  metric_max :: int
  metric_minmax_diff :: int
  metric_balanced_min :: int
  metric_balanced_max :: int
  metric_mean :: real

text \<open>The sums of the consecutive blocks of \<open>batch_size\<close> items, the last one possibly shorter.\<close>

definition block_sums :: "nat \<Rightarrow> int list \<Rightarrow> int list" where
  "block_sums batch_size seqlen_list =
     map (\<lambda>b. sum_list (pyslice (b * batch_size) (b * batch_size + batch_size) seqlen_list))
       [0..<(length seqlen_list + batch_size - 1) div batch_size]"

definition running_extremum :: "(int \<Rightarrow> int \<Rightarrow> bool) \<Rightarrow> int list \<Rightarrow> int option" where
  "running_extremum better xs =
     foldl (\<lambda>acc cur. case acc of None \<Rightarrow> Some cur | Some m \<Rightarrow> if better cur m then Some cur else Some m)
       None xs"

definition log_seqlen_unbalance :: "int list \<Rightarrow> nat list list \<Rightarrow> unbalance_metrics res" where
  "log_seqlen_unbalance seqlen_list partitions =
     rbind (rcheck ZeroDivisionError (length partitions \<noteq> 0)) (\<lambda>_.
     (let batch_size = length seqlen_list div length partitions in
      rbind (rcheck ValueError (batch_size \<noteq> 0)) (\<lambda>_.
      (let block = block_sums batch_size seqlen_list;
           lo = the (running_extremum (<) block);
           hi = the (running_extremum (>) block);
           balanced = map (\<lambda>p. sum_list (select seqlen_list p)) partitions
       in Inr \<lparr>metric_min = lo, metric_max = hi, metric_minmax_diff = hi - lo,
               metric_balanced_min = Min (set balanced), metric_balanced_max = Max (set balanced),
               metric_mean = real_of_int (sum_list block) / real (length partitions)\<rparr>))))"

section \<open>Integer helpers\<close>

lemma ceildiv_spec:
  assumes "0 < b"
  shows "\<exists>q. ceildiv a b = Inr q \<and> (q - 1) * b < a \<and> a \<le> q * b"
proof -
  let ?q = "- (a div (- b))"
  have "a = (a div (- b)) * (- b) + a mod (- b)" by (rule div_mult_mod_eq [symmetric])
  moreover have "a mod (- b) \<le> 0" "- b < a mod (- b)" using assms by simp_all
  ultimately have "(?q - 1) * b < a \<and> a \<le> ?q * b" by (simp add: algebra_simps)
  then show ?thesis using assms by (simp add: ceildiv_def)
qed

lemma roundup_divisible_spec:
  assumes "0 < b"
  shows "\<exists>r. roundup_divisible a b = Inr r \<and> b dvd r \<and> a \<le> r \<and> r < a + b"
proof -
  let ?r = "((a + b - 1) div b) * b"
  have "a + b - 1 = ?r + (a + b - 1) mod b" by simp
  moreover have "0 \<le> (a + b - 1) mod b" "(a + b - 1) mod b < b" using assms by simp_all
  ultimately have "a \<le> ?r \<and> ?r < a + b" by linarith
  then show ?thesis using assms by (simp add: roundup_divisible_def)
qed

lemma calculate_workload_nonneg: "0 \<le> n \<Longrightarrow> 0 \<le> calculate_workload n"
  by (simp add: calculate_workload_def)

section \<open>The greedy partitioner\<close>

lemma greedy_min_idx_spec:
  "0 < k \<Longrightarrow> \<exists>m<k. greedy_min_idx tots k = Some m \<and> (\<forall>j<k. tots ! m \<le> tots ! j)"
proof (induction k)
  case 0
  then show ?case by simp
next
  case (Suc k)
  show ?case
  proof (cases "k = 0")
    case True
    then show ?thesis by (simp add: greedy_min_idx_def)
  next
    case False
    with Suc obtain m where m: "m < k" "greedy_min_idx tots k = Some m" "\<forall>j<k. tots ! m \<le> tots ! j"
      by auto
    then have "greedy_min_idx tots (Suc k) = (if tots ! k < tots ! m then Some k else Some m)"
      by (simp add: greedy_min_idx_def)
    with m show ?thesis
      by (cases "tots ! k < tots ! m") (auto simp: less_Suc_eq intro: order_trans less_imp_le)
  qed
qed

lemma mset_concat_update:
  "m < length parts \<Longrightarrow> mset (concat (parts[m := parts ! m @ [i]])) = add_mset i (mset (concat parts))"
  by (induction parts arbitrary: m) (auto split: nat.splits)

lemma sum_part_le_concat:
  fixes w :: "nat \<Rightarrow> int"
  assumes "\<And>i. 0 \<le> w i" and "j < length parts"
  shows "sum_list (map w (parts ! j)) \<le> sum_list (map w (concat parts))"
  using assms
proof (induction parts arbitrary: j)
  case Nil
  then show ?case by simp
next
  case (Cons p parts)
  have nonneg: "0 \<le> sum_list (map w xs)" for xs
    using Cons.prems(1) by (intro sum_list_nonneg) auto
  show ?case
  proof (cases j)
    case 0
    then show ?thesis using nonneg [of "concat parts"] by simp
  next
    case (Suc j')
    then have "sum_list (map w (parts ! j')) \<le> sum_list (map w (concat parts))"
      using Cons.IH [OF Cons.prems(1), of j'] Cons.prems(2) by simp
    then show ?thesis using nonneg [of p] Suc by simp
  qed
qed

text \<open>The loop's invariant. Every item weighs \<open>w i + b\<close>; the tots are the weights of the parts,
  any two tots differ by at most the largest item, and when the bias \<open>b\<close> exceeds the total of
  the \<open>w\<close>'s the parts' sizes differ by at most one.\<close>

definition greedy_inv :: "nat \<Rightarrow> (nat \<Rightarrow> int) \<Rightarrow> int \<Rightarrow> int \<Rightarrow> nat list list \<Rightarrow> int list \<Rightarrow> bool" where
  "greedy_inv k w b M parts tots \<longleftrightarrow>
     length parts = k \<and> length tots = k
     \<and> (\<forall>j<k. tots ! j = int (length (parts ! j)) * b + sum_list (map w (parts ! j)))
     \<and> (\<forall>i<k. \<forall>j<k. tots ! i - tots ! j \<le> M)"

definition sizes_close :: "nat \<Rightarrow> nat list list \<Rightarrow> bool" where
  "sizes_close k parts \<longleftrightarrow> (\<forall>i<k. \<forall>j<k. length (parts ! i) \<le> Suc (length (parts ! j)))"

lemma greedy_inv_step:
  assumes inv: "greedy_inv k w b M parts tots" and m: "m < k" "\<forall>j<k. tots ! m \<le> tots ! j"
    and v: "v = w i + b" "0 \<le> v" "v \<le> M"
  shows "greedy_inv k w b M (parts[m := parts ! m @ [i]]) (tots[m := tots ! m + v])"
proof -
  let ?tots = "tots[m := tots ! m + v]"
  have len: "length parts = k" "length tots = k" using inv by (auto simp: greedy_inv_def)
  have close: "tots ! a - tots ! c \<le> M" if "a < k" "c < k" for a c
    using inv that unfolding greedy_inv_def by blast
  have "?tots ! a - ?tots ! c \<le> M" if "a < k" "c < k" for a c
    using close [OF that] close [OF that(1) m(1)] m that v len by (auto simp: nth_list_update)
  moreover have "?tots ! j = int (length (parts[m := parts ! m @ [i]] ! j)) * b
      + sum_list (map w (parts[m := parts ! m @ [i]] ! j))" if "j < k" for j
  proof -
    have "tots ! j = int (length (parts ! j)) * b + sum_list (map w (parts ! j))"
      using inv that unfolding greedy_inv_def by blast
    then show ?thesis
      using that len v(1) by (cases "j = m") (simp_all add: algebra_simps)
  qed
  ultimately show ?thesis using len by (simp add: greedy_inv_def)
qed

lemma sizes_close_step:
  assumes inv: "greedy_inv k w b M parts tots" and m: "m < k" "\<forall>j<k. tots ! m \<le> tots ! j"
    and w: "\<And>i. 0 \<le> w i" and total: "sum_list (map w (concat parts)) < b"
    and close: "sizes_close k parts"
  shows "sizes_close k (parts[m := parts ! m @ [i]])"
proof -
  have len: "length parts = k" using inv by (auto simp: greedy_inv_def)
  have least: "length (parts ! m) \<le> length (parts ! j)" if "j < k" for j
  proof (rule ccontr)
    assume "\<not> ?thesis"
    then have more: "int (length (parts ! j)) + 1 \<le> int (length (parts ! m))" by simp
    have "tots ! l = int (length (parts ! l)) * b + sum_list (map w (parts ! l))" if "l < k" for l
      using inv that unfolding greedy_inv_def by blast
    from this [OF m(1)] this [OF that] m(2) that
    have le: "int (length (parts ! m)) * b + sum_list (map w (parts ! m))
        \<le> int (length (parts ! j)) * b + sum_list (map w (parts ! j))"
      by fastforce
    have "0 \<le> sum_list (map w (parts ! m))" using w by (intro sum_list_nonneg) auto
    moreover have "sum_list (map w (parts ! j)) < b"
      using sum_part_le_concat [of w j parts] w len that total by fastforce
    moreover have "0 < b" using w total sum_list_nonneg [of "map w (concat parts)"] by fastforce
    then have "(int (length (parts ! j)) + 1) * b \<le> int (length (parts ! m)) * b"
      using more by (intro mult_right_mono) auto
    ultimately show False using le by (simp add: algebra_simps)
  qed
  have "length (parts[m := parts ! m @ [i]] ! a) \<le> Suc (length (parts[m := parts ! m @ [i]] ! c))"
    if "a < k" "c < k" for a c
  proof -
    have "length (parts ! a) \<le> Suc (length (parts ! c))"
      using close that by (simp add: sizes_close_def)
    then show ?thesis using least [OF that(2)] m(1) that len by (auto simp: nth_list_update)
  qed
  then show ?thesis by (simp add: sizes_close_def)
qed

lemma greedy_loop_result:
  assumes "0 < k" and "greedy_inv k w b M parts tots" and "\<And>i. 0 \<le> w i"
    and "\<And>v i. (v, i) \<in> set items \<Longrightarrow> v = w i + b \<and> 0 \<le> v \<and> v \<le> M"
    and "E \<Longrightarrow> sizes_close k parts
           \<and> sum_list (map w (concat parts)) + sum_list (map w (map snd items)) < b"
  shows "\<exists>parts' tots'. greedy_loop k items parts tots = Inr (parts', tots')
    \<and> greedy_inv k w b M parts' tots'
    \<and> mset (concat parts') = mset (concat parts) + mset (map snd items)
    \<and> (E \<longrightarrow> sizes_close k parts')"
  using assms(2,4,5)
proof (induction items arbitrary: parts tots)
  case Nil
  then show ?case by auto
next
  case (Cons item items)
  obtain v i where item: "item = (v, i)" by (cases item)
  from greedy_min_idx_spec [OF assms(1)] obtain m where
    m: "m < k" "greedy_min_idx tots k = Some m" "\<forall>j<k. tots ! m \<le> tots ! j" by blast
  let ?parts = "parts[m := parts ! m @ [i]]" and ?tots = "tots[m := tots ! m + v]"
  have v: "v = w i + b" "0 \<le> v" "v \<le> M" using Cons.prems(2) [of v i] by (auto simp: item)
  have inv: "greedy_inv k w b M ?parts ?tots"
    by (rule greedy_inv_step [OF Cons.prems(1) m(1,3) v])
  have len: "m < length parts" using m(1) Cons.prems(1) by (simp add: greedy_inv_def)
  note mset = mset_concat_update [OF len, of i]
  have total: "sum_list (map w (concat ?parts)) = sum_list (map w (concat parts)) + w i"
    using arg_cong [OF mset, where f = "\<lambda>M. \<Sum>x\<in>#M. w x"] by (simp add: sum_mset_mset_map)
  have close: "sizes_close k ?parts \<and> sum_list (map w (concat ?parts)) + sum_list (map w (map snd items)) < b"
    if E
  proof -
    have rest: "0 \<le> sum_list (map w (map snd (item # items)))"
      using assms(3) by (intro sum_list_nonneg) auto
    from Cons.prems(3) [OF that] have c: "sizes_close k parts"
      and t: "sum_list (map w (concat parts)) + sum_list (map w (map snd (item # items))) < b" by auto
    with rest have "sum_list (map w (concat parts)) < b" by linarith
    from sizes_close_step [OF Cons.prems(1) m(1,3) assms(3) this c] t show ?thesis
      by (simp add: total item)
  qed
  have "\<exists>parts' tots'. greedy_loop k items ?parts ?tots = Inr (parts', tots')
    \<and> greedy_inv k w b M parts' tots'
    \<and> mset (concat parts') = mset (concat ?parts) + mset (map snd items)
    \<and> (E \<longrightarrow> sizes_close k parts')"
    by (rule Cons.IH [OF inv _ close]) (use Cons.prems(2) in auto)
  then show ?case using m(2) mset by (simp add: item)
qed

lemma sizes_close_equal:
  assumes close: "sizes_close k parts" and len: "length parts = k"
    and total: "length (concat parts) = n" and dvd: "n mod k = 0" and p: "p \<in> set parts"
  shows "length p * k = n"
proof -
  from p len have k: "0 < k" by (cases parts) auto
  let ?m = "Min (length ` set parts)"
  have m: "?m \<in> length ` set parts" using p by (intro Min_in) auto
  have lower: "?m \<le> length q" if "q \<in> set parts" for q using that by simp
  have upper: "length q \<le> Suc ?m" if q: "q \<in> set parts" for q
  proof -
    from m obtain r where "r \<in> set parts" "length r = ?m" by auto
    with q close len show ?thesis by (metis in_set_conv_nth sizes_close_def)
  qed
  let ?large = "filter (\<lambda>q. length q = Suc ?m) parts"
  have "(\<Sum>q\<leftarrow>xs. length q) = ?m * length xs + length (filter (\<lambda>q. length q = Suc ?m) xs)"
    if "set xs \<subseteq> set parts" for xs
    using that
  proof (induction xs)
    case (Cons q xs)
    then have "length q = ?m \<or> length q = Suc ?m"
      using lower [of q] upper [of q] by fastforce
    with Cons show ?case by auto
  qed simp
  then have n: "n = ?m * k + length ?large"
    using total len by (simp add: length_concat)
  obtain r where r: "r \<in> set parts" "length r = ?m" using m by auto
  then have "length ?large < length parts"
    by (intro length_filter_less) auto
  moreover have "length ?large mod k = 0" using n dvd by simp
  ultimately have "?large = []" using len by simp
  then have "length p \<noteq> Suc ?m" using p by (auto simp: filter_empty_conv)
  with lower [OF p] upper [OF p] have "length p = ?m" by linarith
  then show ?thesis using n \<open>?large = []\<close> by simp
qed

definition item_weight :: "int list \<Rightarrow> nat \<Rightarrow> int" where
  "item_weight seqlens i = (if i < length seqlens then seqlens ! i else 0)"

lemma sum_item_weight:
  assumes "set part \<subseteq> {0..<length seqlens}"
  shows "sum_list (map (item_weight seqlens) part) = psum seqlens part"
proof -
  have "map (item_weight seqlens) part = map (nth seqlens) part"
    using assms by (intro map_cong) (auto simp: item_weight_def)
  then show ?thesis by (simp only: psum_def select_def)
qed

lemma greedy_partition_result:
  assumes k: "0 < k" and nonneg: "\<And>v. v \<in> set seqlens \<Longrightarrow> 0 \<le> v"
    and dvd: "E \<Longrightarrow> length seqlens mod k = 0"
  shows "\<exists>parts. greedy_partition seqlens k E = Inr parts \<and> length parts = k
    \<and> partition_of (length seqlens) parts
    \<and> (E \<longrightarrow> (\<forall>p\<in>set parts. length p * k = length seqlens))
    \<and> (\<forall>M. \<not> E \<longrightarrow> 0 \<le> M \<longrightarrow> (\<forall>v\<in>set seqlens. v \<le> M)
        \<longrightarrow> (\<forall>p\<in>set parts. \<forall>q\<in>set parts. psum seqlens p - psum seqlens q \<le> M))"
proof -
  let ?n = "length seqlens" and ?w = "item_weight seqlens"
  let ?b = "if E then sum_list seqlens + 1 else 0"
  let ?items = "map (\<lambda>(i, seqlen). (seqlen + ?b, i)) (enumerate 0 seqlens)"
  have w: "0 \<le> ?w i" for i using nonneg by (auto simp: item_weight_def)
  have tot: "0 \<le> sum_list seqlens" using nonneg by (intro sum_list_nonneg) auto
  have items: "v = ?w i + ?b" if "(v, i) \<in> set ?items" for v i
    using that by (auto simp: in_set_enumerate_eq item_weight_def)
  have snds: "map snd ?items = [0..<?n]"
    by (intro nth_equalityI) (auto simp: nth_enumerate_eq split_beta)
  have "map ?w [0..<?n] = seqlens" by (intro nth_equalityI) (auto simp: item_weight_def)
  then have rem: "sum_list (map ?w (map snd ?items)) = sum_list seqlens" unfolding snds by simp
  have mem: "v \<le> sum_list seqlens" if "v \<in> set seqlens" for v
    using that nonneg by (auto intro: member_le_sum_list)
  have run: "\<exists>parts' tots'. greedy_loop k ?items (replicate k []) (replicate k 0) = Inr (parts', tots')
    \<and> greedy_inv k ?w ?b M parts' tots'
    \<and> mset (concat parts') = mset (concat (replicate k [])) + mset (map snd ?items)
    \<and> (E \<longrightarrow> sizes_close k parts')"
    if M: "\<And>v. v \<in> set seqlens \<Longrightarrow> v + ?b \<le> M" "0 \<le> M" for M
  proof (rule greedy_loop_result [OF k _ w])
    show "greedy_inv k ?w ?b M (replicate k []) (replicate k 0)"
      using M(2) by (simp add: greedy_inv_def)
    show "v = ?w i + ?b \<and> 0 \<le> v \<and> v \<le> M" if "(v, i) \<in> set ?items" for v i
      using items [OF that] w [of i] that tot M(1) by (auto simp: in_set_enumerate_eq item_weight_def)
    show "sizes_close k (replicate k []) \<and>
      sum_list (map ?w (concat (replicate k []))) + sum_list (map ?w (map snd ?items)) < ?b" if E
      using that unfolding rem by (simp add: sizes_close_def)
  qed
  have "v + ?b \<le> sum_list seqlens + \<bar>?b\<bar>" if "v \<in> set seqlens" for v
    using mem [OF that] by simp
  from run [OF this] tot obtain parts tots where
    loop: "greedy_loop k ?items (replicate k []) (replicate k 0) = Inr (parts, tots)"
    and inv: "greedy_inv k ?w ?b (sum_list seqlens + \<bar>?b\<bar>) parts tots"
    and mset: "mset (concat parts) = mset [0..<?n]" and close: "E \<longrightarrow> sizes_close k parts"
    unfolding snds by auto
  have len: "length parts = k" using inv by (simp add: greedy_inv_def)
  have part: "partition_of ?n parts" by (simp add: partition_of_def mset)
  have total: "length (concat parts) = ?n" by (rule partition_ofD(3) [OF part])
  have equal: "E \<longrightarrow> (\<forall>p\<in>set parts. length p * k = ?n)"
    using sizes_close_equal [OF _ len total dvd] close by blast
  then have res: "greedy_partition seqlens k E = Inr parts"
    by (simp add: greedy_partition_def loop)
  have spread: "psum seqlens p - psum seqlens q \<le> M"
    if M: "\<not> E" "0 \<le> M" "\<forall>v\<in>set seqlens. v \<le> M" and pq: "p \<in> set parts" "q \<in> set parts" for M p q
  proof -
    from run [of M] M loop have inv: "greedy_inv k ?w 0 M parts tots" by auto
    have sub: "set r \<subseteq> {0..<?n}" if "r \<in> set parts" for r
      using that partition_ofD(1) [OF part] by auto
    have "psum seqlens r \<in> set tots \<and> (\<exists>j<k. psum seqlens r = tots ! j)" if r: "r \<in> set parts" for r
    proof -
      from r len obtain j where j: "j < k" "r = parts ! j" by (metis in_set_conv_nth)
      then have "tots ! j = psum seqlens r"
        using inv sum_item_weight [OF sub [OF r]] by (simp add: greedy_inv_def)
      with j inv show ?thesis by (auto simp: greedy_inv_def in_set_conv_nth)
    qed
    with pq inv show ?thesis unfolding greedy_inv_def by metis
  qed
  show ?thesis using res len part equal spread by blast
qed

section \<open>The checked partitioner\<close>

lemma partition_of_sorted:
  assumes "partition_of n parts"
  shows "partition_of n (map (py_sorted (<)) parts)"
proof -
  have "mset (concat (map (py_sorted (<)) parts)) = mset (concat parts)"
    by (induction parts) auto
  with assms show ?thesis by (simp add: partition_of_def)
qed

lemma psum_sorted: "psum seqlens (py_sorted (<) p) = psum seqlens p"
  by (metis psum_def select_def mset_map mset_py_sorted sum_mset_sum_list)

lemma check_and_sort_ok:
  assumes "length parts = k" and "\<forall>p\<in>set parts. p \<noteq> []" and "partition_of n parts"
  shows "check_and_sort_partitions n k parts = Inr (map (py_sorted (<)) parts)"
  using assms partition_ofD(1) [OF assms(3)] by (simp add: check_and_sort_partitions_def)

definition balanced_partition :: "int list \<Rightarrow> nat \<Rightarrow> int \<Rightarrow> nat list list \<Rightarrow> bool" where
  "balanced_partition seqlens k B parts \<longleftrightarrow>
     length parts = k \<and> partition_of (length seqlens) parts
     \<and> (\<forall>p\<in>set parts. p \<noteq> [] \<and> sorted p)
     \<and> (\<forall>p\<in>set parts. \<forall>q\<in>set parts. psum seqlens p - psum seqlens q \<le> B)"

lemma balanced_partition_sorted:
  assumes "length parts = k" and "partition_of (length seqlens) parts"
    and "\<forall>p\<in>set parts. p \<noteq> []"
    and "\<forall>p\<in>set parts. \<forall>q\<in>set parts. psum seqlens p - psum seqlens q \<le> B"
  shows "balanced_partition seqlens k B (map (py_sorted (<)) parts)"
proof -
  have "py_sorted (<) p \<noteq> []" if "p \<noteq> []" for p :: "nat list"
    using that by (metis length_0_conv length_py_sorted)
  with assms show ?thesis
    by (auto simp: balanced_partition_def partition_of_sorted psum_sorted)
qed

lemma balanced_items:
  assumes "0 < k" and "k \<le> length seqlens" and "\<And>v. v \<in> set seqlens \<Longrightarrow> 0 \<le> v \<and> v \<le> B"
  shows "\<exists>parts. get_seqlen_balanced_partitions seqlens k False = Inr parts
    \<and> balanced_partition seqlens k B parts"
proof -
  have ne: "seqlens \<noteq> []" using assms(1,2) by auto
  have "\<bar>v\<bar> \<le> B" if "v \<in> set seqlens" for v using assms(3) [OF that] by simp
  from karmarkar_karp_items [OF assms(1) ne this] obtain parts where
    parts: "karmarkar_karp seqlens k False = Inr parts" "length parts = k"
      "partition_of (length seqlens) parts"
      "\<forall>p\<in>set parts. \<forall>q\<in>set parts. psum seqlens p - psum seqlens q \<le> B" by blast
  have nonempty: "\<forall>p\<in>set parts. p \<noteq> []"
    using karmarkar_karp_nonempty [OF assms(1,2) _ parts(1)] assms(3) by blast
  show ?thesis
    using balanced_partition_sorted [OF parts(2,3) nonempty parts(4)]
      check_and_sort_ok [OF parts(2) nonempty parts(3)] assms(2)
    by (simp add: get_seqlen_balanced_partitions_def parts(1))
qed

lemma balanced_blocks:
  assumes "0 < k" and "seqlens \<noteq> []" and "length seqlens mod k = 0"
    and "\<And>v. v \<in> set seqlens \<Longrightarrow> lo \<le> v \<and> v \<le> hi"
  shows "\<exists>parts. get_seqlen_balanced_partitions seqlens k True = Inr parts
    \<and> balanced_partition seqlens k (hi - lo) parts
    \<and> (\<forall>p\<in>set parts. length p * k = length seqlens)"
proof -
  from karmarkar_karp_blocks [OF assms] obtain parts where
    parts: "karmarkar_karp seqlens k True = Inr parts" "length parts = k"
      "partition_of (length seqlens) parts"
      "\<forall>p\<in>set parts. \<forall>q\<in>set parts. psum seqlens p - psum seqlens q \<le> hi - lo"
      "\<forall>p\<in>set parts. length p * k = length seqlens" by blast
  have nonempty: "\<forall>p\<in>set parts. p \<noteq> []" using parts(5) assms(2) by fastforce
  have "k \<le> length seqlens" using assms(1-3) by (simp add: dvd_imp_le mod_0_imp_dvd)
  then have "get_seqlen_balanced_partitions seqlens k True = Inr (map (py_sorted (<)) parts)"
    using check_and_sort_ok [OF parts(2) nonempty parts(3)]
    by (simp add: get_seqlen_balanced_partitions_def parts(1))
  then show ?thesis
    using balanced_partition_sorted [OF parts(2,3) nonempty parts(4)] parts(5) by auto
qed

section \<open>Groups of one prompt\<close>

text \<open>Two indices are together in a list of parts when some part holds both.\<close>

definition together :: "nat list list \<Rightarrow> nat \<Rightarrow> nat \<Rightarrow> bool" where
  "together parts i j \<longleftrightarrow> (\<exists>p\<in>set parts. i \<in> set p \<and> j \<in> set p)"

lemma distinct_concat_unique:
  assumes "distinct (concat parts)" and "p \<in> set parts" and "q \<in> set parts"
    and "x \<in> set p" and "x \<in> set q"
  shows "p = q"
  using assms by (induction parts) auto

lemma together_trans:
  assumes "distinct (concat parts)" and "together parts i j" and "together parts j l"
  shows "together parts i l"
  using assms distinct_concat_unique unfolding together_def by metis

text \<open>A run of equal uids stays together once neighbours with the same uid are together.\<close>

lemma together_run:
  assumes dist: "distinct (concat parts)" and cover: "i \<in> set (concat parts)"
    and step: "\<And>l. i \<le> l \<Longrightarrow> l < j \<Longrightarrow> together parts l (Suc l)" and "i \<le> j"
  shows "together parts i j"
  using \<open>i \<le> j\<close> step
proof (induction j rule: dec_induct)
  case base
  then show ?case using cover by (auto simp: together_def)
next
  case (step j)
  then have "together parts i j" and "together parts j (Suc j)" by auto
  then show ?case by (rule together_trans [OF dist])
qed

text \<open>The state of the grouping loop after \<open>m\<close> samples.\<close>

definition group_inv :: "'u option list \<Rightarrow> nat \<Rightarrow> 'u group_state \<Rightarrow> bool" where
  "group_inv uids m st \<longleftrightarrow>
     (case st of (groups, cur_uid, cur, _) \<Rightarrow>
        concat (map fst groups) @ cur = [0..<m]
        \<and> (\<forall>g\<in>set groups. fst g \<noteq> []) \<and> (0 < m \<longrightarrow> cur \<noteq> [])
        \<and> (\<forall>i\<in>set cur. uids ! i = cur_uid)
        \<and> (\<forall>l. Suc l < m \<longrightarrow> uids ! l = uids ! Suc l \<longrightarrow> together (map fst groups @ [cur]) l (Suc l)))"

lemma group_inv_step:
  assumes inv: "group_inv uids m st"
  shows "group_inv uids (Suc m) (group_step st (m, s, uids ! m))"
proof -
  obtain groups cur_uid cur t where st: "st = (groups, cur_uid, cur, t)" by (cases st) auto
  from inv have cat: "concat (map fst groups) @ cur = [0..<m]" and ne: "\<forall>g\<in>set groups. fst g \<noteq> []"
    and cur: "0 < m \<longrightarrow> cur \<noteq> []" "\<forall>i\<in>set cur. uids ! i = cur_uid"
    and tog: "\<And>l. Suc l < m \<Longrightarrow> uids ! l = uids ! Suc l \<Longrightarrow> together (map fst groups @ [cur]) l (Suc l)"
    by (auto simp: group_inv_def st)
  have last: "m - 1 \<in> set cur" if "0 < m"
  proof -
    have "last (concat (map fst groups) @ cur) = m - 1" using that by (simp add: cat)
    then show ?thesis using cur(1) that last_in_set [of cur] by simp
  qed
  show ?thesis
  proof (cases "uids ! m = cur_uid")
    case True
    have "together (map fst groups @ [cur @ [m]]) l (Suc l)" if "Suc l < Suc m" "uids ! l = uids ! Suc l" for l
    proof (cases "Suc l = m")
      case True
      then show ?thesis using last by (auto simp: together_def)
    next
      case False
      then show ?thesis using tog [of l] that by (auto simp: together_def)
    qed
    with True cat ne cur show ?thesis by (auto simp: group_inv_def st group_step_def)
  next
    case False
    have split: "together (map fst groups @ [cur, [m]]) l (Suc l)" if "Suc l < Suc m" "uids ! l = uids ! Suc l" for l
    proof (cases "Suc l = m")
      case True
      then have "uids ! l = cur_uid" using last cur(2) by auto
      with False True that(2) show ?thesis by simp
    next
      case False
      then show ?thesis using tog [of l] that by (auto simp: together_def)
    qed
    show ?thesis
    proof (cases "cur = []")
      case True
      with False cur cat ne have "m = 0" by auto
      with True False cat ne show ?thesis by (auto simp: group_inv_def st group_step_def)
    next
      case ncur: False
      with False cat ne split show ?thesis
        by (simp add: group_inv_def st group_step_def)
    qed
  qed
qed

lemma group_inv_foldl:
  assumes "length seqlens = length uids"
  shows "group_inv uids (length uids) (foldl group_step ([], None, [], 0) (enumerate 0 (zip seqlens uids)))"
proof -
  have "group_inv uids m (foldl group_step ([], None, [], 0) (map (\<lambda>i. (i, seqlens ! i, uids ! i)) [0..<m]))" for m
    by (induction m) (auto simp: group_inv_def [of _ 0] intro!: group_inv_step)
  moreover have "enumerate 0 (zip seqlens uids) = map (\<lambda>i. (i, seqlens ! i, uids ! i)) [0..<length uids]"
    using assms by (intro nth_equalityI) (auto simp: nth_enumerate_eq)
  ultimately show ?thesis by simp
qed

lemma uid_groups_facts:
  assumes "length seqlens = length uids"
  defines "gs \<equiv> map fst (uid_groups seqlens uids)"
  shows "concat gs = [0..<length uids]" and "\<forall>g\<in>set gs. g \<noteq> []"
    and "\<And>l. Suc l < length uids \<Longrightarrow> uids ! l = uids ! Suc l \<Longrightarrow> together gs l (Suc l)"
proof -
  obtain groups cur_uid cur t where
    st: "foldl group_step ([], None, [], 0) (enumerate 0 (zip seqlens uids)) = (groups, cur_uid, cur, t)"
    by (metis prod_cases4)
  note inv = group_inv_foldl [OF assms(1), unfolded st]
  have gs: "gs = map fst groups @ (if cur = [] then [] else [cur])"
    by (simp add: gs_def uid_groups_def st)
  from inv show "concat gs = [0..<length uids]" and "\<forall>g\<in>set gs. g \<noteq> []"
    by (auto simp: gs group_inv_def)
  show "together gs l (Suc l)" if "Suc l < length uids" "uids ! l = uids ! Suc l" for l
    using inv that by (auto simp: gs group_inv_def)
qed

text \<open>Merging groups by a partition of the group indices.\<close>

lemma merged_groups_partition:
  assumes "partition_of (length gs) gparts" and "concat gs = [0..<n]"
  shows "partition_of n (map (\<lambda>gp. py_sorted (<) (concat (map (nth gs) gp))) gparts)"
proof -
  have "mset (concat (map (\<lambda>gp. py_sorted (<) (concat (map (nth gs) gp))) gparts))
      = (\<Sum>g\<in>#mset (concat gparts). mset (gs ! g))"
  proof (induction gparts)
    case (Cons gp gparts)
    have "mset (concat (map (nth gs) gp)) = (\<Sum>g\<in>#mset gp. mset (gs ! g))"
      by (induction gp) auto
    with Cons show ?case by simp
  qed simp
  also have "\<dots> = (\<Sum>g\<leftarrow>[0..<length gs]. mset (gs ! g))"
    using assms(1) by (simp add: partition_of_def sum_mset_mset_map [symmetric])
  also have "\<dots> = mset (concat (map (nth gs) [0..<length gs]))"
    by (simp only: sum_list_mset_concat)
  finally show ?thesis by (simp add: partition_of_def map_nth assms(2))
qed

lemma merged_groups_together:
  assumes gp: "partition_of (length gs) gparts" and tog: "together gs i j"
  shows "together (map (\<lambda>gp. py_sorted (<) (concat (map (nth gs) gp))) gparts) i j"
proof -
  from tog obtain grp where "grp \<in> set gs" "i \<in> set grp" "j \<in> set grp"
    by (auto simp: together_def)
  then obtain g where g: "g < length gs" "i \<in> set (gs ! g)" "j \<in> set (gs ! g)"
    by (metis in_set_conv_nth)
  then have "g \<in> set (concat gparts)" using partition_ofD(1) [OF gp] by simp
  with g show ?thesis by (auto simp: together_def)
qed

lemma group_partitions_shape:
  assumes "get_group_balanced_partitions seqlens uids k = Inr parts"
  obtains gparts where "length seqlens = length uids"
    and "parts = map (\<lambda>gp. py_sorted (<) (concat (map (nth (map fst (uid_groups seqlens uids))) gp))) gparts"
    and "partition_of (length (uid_groups seqlens uids)) gparts" and "length gparts = k"
proof -
  let ?gs = "uid_groups seqlens uids"
  let ?work = "map (\<lambda>(indices, total_seqlen).
             sum_list (map (\<lambda>i. calculate_workload (seqlens ! i)) indices)) ?gs"
  from assms obtain gparts where len: "length seqlens = length uids"
    and gp: "get_seqlen_balanced_partitions ?work k True = Inr gparts"
    and parts: "parts = map (\<lambda>gp. py_sorted (<) (concat (map (\<lambda>g. fst (?gs ! g)) gp))) gparts"
    by (auto simp: get_group_balanced_partitions_def res_simps Let_def)
  from gp obtain raw where kk: "karmarkar_karp ?work k True = Inr raw"
    and chk: "length raw = k" "set (concat raw) = {0..<length ?gs}" "gparts = map (py_sorted (<)) raw"
    and kle: "k \<le> length ?gs" and ne: "\<forall>p\<in>set raw. p \<noteq> []"
    by (auto simp: get_seqlen_balanced_partitions_def check_and_sort_partitions_def res_simps)
  have k0: "0 < k" and dvd: "length ?work mod k = 0"
    using kk by (auto simp: karmarkar_karp_def kk_initial_queue_def res_simps Let_def)
  then have "?work \<noteq> []" using kle by auto
  let ?lo = "Min (set ?work)" and ?hi = "Max (set ?work)"
  have "\<exists>parts. karmarkar_karp ?work k True = Inr parts \<and> partition_of (length ?work) parts"
    using karmarkar_karp_blocks [OF k0 \<open>?work \<noteq> []\<close> dvd, of ?lo ?hi] by fastforce
  then have part: "partition_of (length ?gs) gparts"
    using kk chk(3) partition_of_sorted by auto
  have idx: "map (\<lambda>g. fst (?gs ! g)) p = map (nth (map fst ?gs)) p" if "p \<in> set gparts" for p
  proof (intro map_cong refl)
    fix g
    assume "g \<in> set p"
    with that have "g \<in> set (concat gparts)" by auto
    then have "g \<in> {0..<length ?gs}" unfolding partition_ofD(1) [OF part] .
    then show "fst (?gs ! g) = map fst ?gs ! g" by simp
  qed
  have "parts = map (\<lambda>gp. py_sorted (<) (concat (map (nth (map fst ?gs)) gp))) gparts"
    unfolding parts by (intro map_cong refl) (simp only: idx)
  moreover have "length gparts = k" using chk(1,3) by simp
  ultimately show thesis by (rule that [OF len _ part])
qed

lemma group_partitions_correct:
  assumes "get_group_balanced_partitions seqlens uids k = Inr parts"
  shows "length parts = k" and "partition_of (length uids) parts" and "\<forall>p\<in>set parts. sorted p"
    and "\<lbrakk>i \<le> j; j < length uids; \<forall>l. i \<le> l \<longrightarrow> l \<le> j \<longrightarrow> uids ! l = uids ! i\<rbrakk> \<Longrightarrow> together parts i j"
proof -
  from group_partitions_shape [OF assms] obtain gparts where len: "length seqlens = length uids"
    and parts: "parts = map (\<lambda>gp. py_sorted (<) (concat (map (nth (map fst (uid_groups seqlens uids))) gp))) gparts"
    and gp: "partition_of (length (map fst (uid_groups seqlens uids))) gparts" and "length gparts = k"
    by (metis length_map)
  note groups = uid_groups_facts [OF len]
  show "length parts = k" using parts \<open>length gparts = k\<close> by simp
  show "\<forall>p\<in>set parts. sorted p" using parts by auto
  show part: "partition_of (length uids) parts"
    unfolding parts by (rule merged_groups_partition [OF gp groups(1)])
  show "together parts i j"
    if ij: "i \<le> j" "j < length uids" and same: "\<forall>l. i \<le> l \<longrightarrow> l \<le> j \<longrightarrow> uids ! l = uids ! i"
  proof (rule together_run [OF partition_ofD(2) [OF part] _ _ ij(1)])
    show "i \<in> set (concat parts)" using partition_ofD(1) [OF part] ij by auto
    show "together parts l (Suc l)" if "i \<le> l" "l < j" for l
    proof -
      have "uids ! l = uids ! Suc l" using same that ij(1) by (metis Suc_leI le_Suc_eq less_imp_le_nat)
      then have "together (map fst (uid_groups seqlens uids)) l (Suc l)"
        using groups(3) that ij(2) by auto
      then show ?thesis unfolding parts by (rule merged_groups_together [OF gp])
    qed
  qed
qed

section \<open>Balance metrics\<close>

lemma running_extremum_some:
  assumes "xs \<noteq> []" and "\<And>a b c. \<not> better a b \<Longrightarrow> \<not> better b c \<Longrightarrow> \<not> better a c"
    and "\<And>a b. better a b \<Longrightarrow> \<not> better b a" and "\<And>a. \<not> better a a"
  shows "\<exists>m\<in>set xs. running_extremum better xs = Some m \<and> (\<forall>x\<in>set xs. \<not> better x m)"
  using assms(1)
proof (induction xs rule: rev_nonempty_induct)
  case (single x)
  then show ?case using assms(4) by (simp add: running_extremum_def)
next
  case (snoc x xs)
  then obtain m where m: "m \<in> set xs" "running_extremum better xs = Some m" "\<forall>x\<in>set xs. \<not> better x m"
    by blast
  have "running_extremum better (xs @ [x]) = (if better x m then Some x else Some m)"
    using m(2) by (simp add: running_extremum_def)
  moreover have "\<forall>y\<in>set xs. \<not> better y x" if "better x m"
    using m(3) assms(2) [of _ m x] assms(3) [OF that] by blast
  ultimately show ?case using m assms(4) by auto
qed

lemma sum_block_sums:
  assumes "0 < k"
  shows "sum_list (block_sums k xs) = sum_list xs"
proof -
  have "sum_list (map (\<lambda>b. sum_list (pyslice (b * k) (b * k + k) xs)) [0..<m]) = sum_list (take (m * k) xs)" for m
  proof (induction m)
    case (Suc m)
    have "take (Suc m * k) xs = take (m * k) xs @ take k (drop (m * k) xs)"
      by (metis add.commute mult_Suc take_add)
    with Suc show ?case by (simp add: pyslice_def)
  qed simp
  moreover have "length xs \<le> (length xs + k - 1) div k * k"
    using div_mult_mod_eq [of "length xs + k - 1" k] mod_less_divisor [OF assms, of "length xs + k - 1"]
    by linarith
  ultimately show ?thesis by (simp add: block_sums_def)
qed

lemma block_sums_nonempty: "0 < k \<Longrightarrow> xs \<noteq> [] \<Longrightarrow> block_sums k xs \<noteq> []"
  by (cases xs) (auto simp: block_sums_def div_eq_0_iff)

lemma sum_psum:
  fixes xs :: "int list"
  assumes "partition_of (length xs) parts"
  shows "sum_list (map (\<lambda>p. sum_list (select xs p)) parts) = sum_list xs"
proof -
  have "sum_list (map (\<lambda>p. sum_list (select xs p)) parts) = sum_list (select xs (concat parts))"
    by (induction parts) (auto simp: select_append, simp add: select_def)
  then show ?thesis
    using sum_list_select_perm [of "concat parts" xs] assms by (simp add: partition_of_def)
qed

lemma mean_between_extremes:
  fixes xs :: "int list"
  assumes "xs \<noteq> []"
  shows "int (length xs) * Min (set xs) \<le> sum_list xs" and "sum_list xs \<le> int (length xs) * Max (set xs)"
proof -
  have "\<forall>x\<in>set xs. m \<le> x \<Longrightarrow> int (length xs) * m \<le> sum_list xs" for m
    by (induction xs) (auto simp: algebra_simps)
  then show "int (length xs) * Min (set xs) \<le> sum_list xs" by simp
  have "\<forall>x\<in>set xs. x \<le> m \<Longrightarrow> sum_list xs \<le> int (length xs) * m" for m
    by (induction xs) (auto simp: algebra_simps)
  then show "sum_list xs \<le> int (length xs) * Max (set xs)" by simp
qed

section \<open>Properties\<close>

text \<open>C1: With non-negative workloads and between one and as many parts as items, the balanced
  partitioner (without the equal-size option) returns: it gives exactly \<open>k\<close> parts that partition
  the indices, every part is non-empty and in increasing order (so none of the assertions of
  \<open>_check_and_sort_partitions\<close> can fire), and any two parts differ in total workload by at most the
  largest workload.\<close>

theorem balanced_partition_exists:
  assumes "0 < k" and "k \<le> length seqlens" and "\<forall>v\<in>set seqlens. 0 \<le> v \<and> v \<le> B"
  shows "\<exists>parts. get_seqlen_balanced_partitions seqlens k False = Inr parts
    \<and> length parts = k \<and> mset (concat parts) = mset [0..<length seqlens]
    \<and> (\<forall>p\<in>set parts. p \<noteq> [] \<and> sorted p)
    \<and> (\<forall>p\<in>set parts. \<forall>q\<in>set parts. psum seqlens p - psum seqlens q \<le> B)"
  using balanced_items [OF assms(1,2), of B] assms(3)
  by (auto simp: balanced_partition_def partition_of_def)

theorem balanced_partition_exists_witness:
  "\<exists>parts. get_seqlen_balanced_partitions [3, 1, 5] 2 False = Inr parts
    \<and> length parts = 2 \<and> mset (concat parts) = mset [0..<length [3, 1, 5 :: int]]
    \<and> (\<forall>p\<in>set parts. p \<noteq> [] \<and> sorted p)
    \<and> (\<forall>p\<in>set parts. \<forall>q\<in>set parts. psum [3, 1, 5] p - psum [3, 1, 5] q \<le> 5)"
  by (rule balanced_partition_exists) auto

text \<open>With the equal-size option and a number of items divisible by the number of parts, the
  balanced partitioner returns parts of exactly equal size that partition the indices, and any two
  parts differ in total workload by at most the spread between the largest and the smallest item.\<close>

theorem equal_size_partition_exists:
  assumes "0 < k" and "seqlens \<noteq> []" and "k dvd length seqlens" and "\<forall>v\<in>set seqlens. lo \<le> v \<and> v \<le> hi"
  shows "\<exists>parts. get_seqlen_balanced_partitions seqlens k True = Inr parts
    \<and> length parts = k \<and> mset (concat parts) = mset [0..<length seqlens]
    \<and> (\<forall>p\<in>set parts. length p = length seqlens div k \<and> sorted p)
    \<and> (\<forall>p\<in>set parts. \<forall>q\<in>set parts. psum seqlens p - psum seqlens q \<le> hi - lo)"
proof -
  have "length p = length seqlens div k" if "length p * k = length seqlens" for p :: "nat list"
    using assms(1) that by (metis nonzero_mult_div_cancel_right not_less_zero)
  with balanced_blocks [OF assms(1,2), of lo hi] assms(3,4) show ?thesis
    by (auto simp: balanced_partition_def partition_of_def dvd_eq_mod_eq_0)
qed

theorem equal_size_partition_exists_witness:
  "\<exists>parts. get_seqlen_balanced_partitions [3, 1, 5, 2] 2 True = Inr parts
    \<and> length parts = 2 \<and> mset (concat parts) = mset [0..<length [3, 1, 5, 2 :: int]]
    \<and> (\<forall>p\<in>set parts. length p = length [3, 1, 5, 2 :: int] div 2 \<and> sorted p)
    \<and> (\<forall>p\<in>set parts. \<forall>q\<in>set parts. psum [3, 1, 5, 2] p - psum [3, 1, 5, 2] q \<le> 5 - 1)"
  by (rule equal_size_partition_exists) auto

text \<open>The greedy partitioner with non-negative lengths always returns a partition of the
  indices into \<open>k\<close> parts; with the equal-size bias its final assertion never fires (given
  divisibility) and the parts have equal size; without it any two parts differ by at most the
  largest length.\<close>

theorem greedy_partition_correct:
  assumes "0 < k" and "\<forall>v\<in>set seqlens. 0 \<le> v \<and> v \<le> M" and "0 \<le> M"
    and "equal_size \<longrightarrow> k dvd length seqlens"
  shows "\<exists>parts. greedy_partition seqlens k equal_size = Inr parts \<and> length parts = k
    \<and> mset (concat parts) = mset [0..<length seqlens]
    \<and> (if equal_size then \<forall>p\<in>set parts. length p * k = length seqlens
       else \<forall>p\<in>set parts. \<forall>q\<in>set parts. psum seqlens p - psum seqlens q \<le> M)"
  using greedy_partition_result [OF assms(1), of seqlens equal_size] assms(2-4)
  by (cases equal_size) (auto simp: partition_of_def)

theorem greedy_partition_correct_witness:
  "\<exists>parts. greedy_partition [4, 1, 2, 2] 2 True = Inr parts \<and> length parts = 2
    \<and> mset (concat parts) = mset [0..<length [4, 1, 2, 2 :: int]]
    \<and> (if True then \<forall>p\<in>set parts. length p * 2 = length [4, 1, 2, 2 :: int]
       else \<forall>p\<in>set parts. \<forall>q\<in>set parts. psum [4, 1, 2, 2] p - psum [4, 1, 2, 2] q \<le> 4)"
  by (rule greedy_partition_correct) auto

text \<open>When \<open>get_group_balanced_partitions\<close> returns, its parts partition the samples into
  exactly \<open>k\<close> sorted index lists, and the samples of any contiguous run of one uid are all in the
  same part.\<close>

theorem group_partition_keeps_uids_together:
  assumes "get_group_balanced_partitions seqlens uids k = Inr parts"
  shows "length parts = k \<and> mset (concat parts) = mset [0..<length uids] \<and> (\<forall>p\<in>set parts. sorted p)
    \<and> (\<forall>i j. i \<le> j \<and> j < length uids \<and> (\<forall>l. i \<le> l \<and> l \<le> j \<longrightarrow> uids ! l = uids ! i)
        \<longrightarrow> (\<exists>p\<in>set parts. i \<in> set p \<and> j \<in> set p))"
proof (intro conjI allI impI)
  note facts = group_partitions_correct [OF assms]
  show "length parts = k" "\<forall>p\<in>set parts. sorted p" by (rule facts(1), rule facts(3))
  show "mset (concat parts) = mset [0..<length uids]"
    using facts(2) unfolding partition_of_def .
  show "\<exists>p\<in>set parts. i \<in> set p \<and> j \<in> set p"
    if "i \<le> j \<and> j < length uids \<and> (\<forall>l. i \<le> l \<and> l \<le> j \<longrightarrow> uids ! l = uids ! i)" for i j
    using facts(4) [of i j] that unfolding together_def by blast
qed

theorem group_partition_keeps_uids_together_witness:
  "\<exists>parts. get_group_balanced_partitions [3, 4, 5, 6] [Some 7, Some 7, Some 9, Some (9 :: int)] 2 = Inr parts
    \<and> length parts = 2 \<and> mset (concat parts) = mset [0..<length [Some 7, Some 7, Some 9, Some (9 :: int)]]
    \<and> (\<forall>p\<in>set parts. sorted p)
    \<and> (\<forall>i j. i \<le> j \<and> j < length [Some 7, Some 7, Some 9, Some (9 :: int)]
          \<and> (\<forall>l. i \<le> l \<and> l \<le> j \<longrightarrow> [Some 7, Some 7, Some 9, Some (9 :: int)] ! l = [Some 7, Some 7, Some 9, Some 9] ! i)
        \<longrightarrow> (\<exists>p\<in>set parts. i \<in> set p \<and> j \<in> set p))"
proof -
  have "get_group_balanced_partitions [3, 4, 5, 6] [Some 7, Some 7, Some 9, Some (9 :: int)] 2
      = Inr [[2, 3], [0, 1]]" by code_simp
  with group_partition_keeps_uids_together [OF this] show ?thesis by blast
qed

text \<open>The logged balance metrics are consistent: for a partition of the samples the mean equals
  the total length divided by the number of parts and lies between the smallest and the largest
  part, and the reported spread of the unbalanced blocks is non-negative.\<close>

theorem unbalance_metrics_consistent:
  assumes "log_seqlen_unbalance seqlens parts = Inr m" and "partition_of (length seqlens) parts"
  shows "metric_mean m = real_of_int (sum_list seqlens) / real (length parts)
    \<and> real_of_int (metric_balanced_min m) \<le> metric_mean m
    \<and> metric_mean m \<le> real_of_int (metric_balanced_max m)
    \<and> 0 \<le> metric_minmax_diff m"
proof -
  let ?k = "length seqlens div length parts" and ?b = "map (\<lambda>p. sum_list (select seqlens p)) parts"
  from assms(1) have k: "parts \<noteq> []" "0 < ?k" and m:
    "metric_mean m = real_of_int (sum_list (block_sums ?k seqlens)) / real (length parts)"
    "metric_balanced_min m = Min (set ?b)" "metric_balanced_max m = Max (set ?b)"
    "metric_minmax_diff m = the (running_extremum (>) (block_sums ?k seqlens))
       - the (running_extremum (<) (block_sums ?k seqlens))"
    by (auto simp: log_seqlen_unbalance_def res_simps Let_def)
  have mean: "metric_mean m = real_of_int (sum_list seqlens) / real (length parts)"
    using m(1) sum_block_sums [OF k(2)] by simp
  have "int (length parts) * Min (set ?b) \<le> sum_list seqlens" "sum_list seqlens \<le> int (length parts) * Max (set ?b)"
    using mean_between_extremes [of ?b] sum_psum [OF assms(2)] k(1) by auto
  then have "real (length parts) * real_of_int (Min (set ?b)) \<le> real_of_int (sum_list seqlens)"
    and "real_of_int (sum_list seqlens) \<le> real (length parts) * real_of_int (Max (set ?b))"
    by (metis of_int_le_iff of_int_mult of_int_of_nat_eq)+
  then have between: "real_of_int (Min (set ?b)) \<le> metric_mean m \<and> metric_mean m \<le> real_of_int (Max (set ?b))"
    using k(1) unfolding mean by (simp add: field_simps)
  have "seqlens \<noteq> []" using k(2) by auto
  then have "block_sums ?k seqlens \<noteq> []"
    using block_sums_nonempty k(2) by blast
  from running_extremum_some [OF this, of "(<)"] running_extremum_some [OF this, of "(>)"]
  have "0 \<le> metric_minmax_diff m" unfolding m(4) by fastforce
  with between mean m(2,3) show ?thesis by simp
qed

theorem unbalance_metrics_consistent_witness:
  "\<exists>m. log_seqlen_unbalance [3, 1, 5, 2] [[0, 2], [1, 3]] = Inr m
    \<and> metric_mean m = real_of_int (sum_list [3, 1, 5, 2]) / real (length [[0, 2], [1, 3 :: nat]])
    \<and> real_of_int (metric_balanced_min m) \<le> metric_mean m
    \<and> metric_mean m \<le> real_of_int (metric_balanced_max m)
    \<and> 0 \<le> metric_minmax_diff m"
proof -
  obtain m where m: "log_seqlen_unbalance [3, 1, 5, 2] [[0, 2], [1, 3]] = Inr m"
  proof -
    have len: "length [3, 1, 5, 2 :: int] = 4" "length [[0, 2], [1, 3 :: nat]] = 2" by simp_all
    show thesis by (rule that) (unfold log_seqlen_unbalance_def len, simp add: Let_def)
  qed
  have "partition_of (length [3, 1, 5, 2 :: int]) [[0, 2], [1, 3]]" by code_simp
  from m unbalance_metrics_consistent [OF m this] show ?thesis by blast
qed

end
