(* ===== verification/MicroBatch.thy ===== *)
theory MicroBatch
  imports Partition
begin

text \<open>
  Dynamic micro-batching of \<open>verl/utils/seqlen_balancing.py\<close>: \<open>rearrange_micro_batches\<close> splits a
  batch into micro-batches under a token budget, \<open>restore_dynamic_batch\<close> puts per-sample results
  back into the original order. A batch is the list of its rows; the collective \<open>all_reduce\<close> with
  \<open>MAX\<close> over the data-parallel group is a parameter.
\<close>

section \<open>rearrange_micro_batches\<close>

text \<open>Where the sequence lengths come from: the offsets of a nested tensor, or a padded attention
  mask of a given width.\<close>

datatype batch_lens =
    NestedIds (nested_lens: "int list")
  | PaddedMask (mask_width: int) (mask_rows: "int list list")

record micro_config =
  max_token_len :: int
  dist_initialized :: bool
  has_dp_group :: bool
  num_batches_divided_by :: "int option"
  same_micro_num_in_dp :: bool
  min_num_micro_batch :: "int option"
  use_dynamic_bsz_balance :: bool
  force_group_size :: nat

definition effective_lens :: "batch_lens \<Rightarrow> (int \<times> int list) res" where
  "effective_lens b =
     (case b of
        NestedIds lens \<Rightarrow> rbind (rcheck ValueError (lens \<noteq> [])) (\<lambda>_. Inr (Max (set lens), lens))
      | PaddedMask width rows \<Rightarrow> Inr (width, map sum_list rows))"

text \<open>The number of micro-batches, before the final assertion.\<close>

definition num_micro_batches :: "(int \<Rightarrow> int) \<Rightarrow> micro_config \<Rightarrow> int \<Rightarrow> int \<Rightarrow> int res" where
  "num_micro_batches all_reduce_max c num_groups total_seqlen =
     rbind (ceildiv total_seqlen (max_token_len c)) (\<lambda>q.
     (let n0 = min num_groups q;
          n1 = (case min_num_micro_batch c of None \<Rightarrow> n0 | Some m \<Rightarrow> max m n0);
          n2 = (if dist_initialized c \<and> same_micro_num_in_dp c \<and> has_dp_group c
                then all_reduce_max n1 else n1)
      in (case num_batches_divided_by c of None \<Rightarrow> Inr n2 | Some d \<Rightarrow> roundup_divisible n2 d)))"

text \<open>Workloads summed per group of \<open>g\<close> consecutive samples (\<open>view(num_groups, g).sum(dim=1)\<close>).\<close>

definition grouped_workloads :: "nat \<Rightarrow> int list \<Rightarrow> int list" where
  "grouped_workloads g lens =
     map (\<lambda>b. sum_list (map (\<lambda>i. calculate_workload (lens ! (b * g + i))) [0..<g]))
       [0..<length lens div g]"

definition expand_groups :: "nat \<Rightarrow> nat list list \<Rightarrow> nat list list" where
  "expand_groups g parts =
     map (\<lambda>part. concat (map (\<lambda>group_idx. [group_idx * g..<group_idx * g + g]) part)) parts"

text \<open>The workloads that are partitioned, per group when samples are grouped, and the sample
  indices of the parts.\<close>

definition unit_workloads :: "nat \<Rightarrow> int list \<Rightarrow> int list" where
  "unit_workloads g lens = (if 1 < g then grouped_workloads g lens else map calculate_workload lens)"

definition sample_indices :: "nat \<Rightarrow> nat list list \<Rightarrow> nat list list" where
  "sample_indices g parts = (if 1 < g then expand_groups g parts else parts)"

definition partition_key :: "nat \<Rightarrow> int list \<Rightarrow> nat list \<Rightarrow> int \<times> nat" where
  "partition_key g workloads part =
     ((if 1 < g then sum_list (map (\<lambda>idx. workloads ! (idx div g)) (every g part))
       else sum_list (map (nth workloads) part)),
      (case part of [] \<Rightarrow> 0 | i # _ \<Rightarrow> i))"

definition balance_order :: "nat \<Rightarrow> int list \<Rightarrow> nat list list \<Rightarrow> nat list list" where
  "balance_order g workloads micro_bsz_idx =
     (let sorted_idx = py_sorted_reverse
            (\<lambda>p q. py_pair_lt (<) (<) (partition_key g workloads p) (partition_key g workloads q))
            micro_bsz_idx
      in rev (every 2 sorted_idx) @ every 2 (drop 1 sorted_idx))"

definition micro_batch_indices ::
    "(int \<Rightarrow> int) \<Rightarrow> micro_config \<Rightarrow> batch_lens \<Rightarrow> nat list list res" where
  "micro_batch_indices all_reduce_max c b =
     (let g = force_group_size c in
      rbind (effective_lens b) (\<lambda>(max_seq_len, lens).
      rbind (rassert (max_seq_len \<le> max_token_len c)) (\<lambda>_.
      rbind (rcheck ZeroDivisionError (g \<noteq> 0)) (\<lambda>_.
      rbind (rassert (length lens mod g = 0)) (\<lambda>_.
      (let num_groups = length lens div g in
       rbind (num_micro_batches all_reduce_max c (int num_groups) (sum_list lens)) (\<lambda>n.
       rbind (rassert (n \<le> int num_groups)) (\<lambda>_.
       (let workloads = unit_workloads g lens in
        rbind (get_seqlen_balanced_partitions workloads (nat n) False) (\<lambda>parts.
        (let idx = sample_indices g parts in
         Inr (if use_dynamic_bsz_balance c then balance_order g workloads idx else idx))))))))))))"

definition rearrange_micro_batches ::
    "(int \<Rightarrow> int) \<Rightarrow> micro_config \<Rightarrow> batch_lens \<Rightarrow> 'r list \<Rightarrow> ('r list list \<times> nat list list) res" where
  "rearrange_micro_batches all_reduce_max c b rows =
     rbind (micro_batch_indices all_reduce_max c b) (\<lambda>micro_bsz_idx.
     Inr (map (select rows) micro_bsz_idx, micro_bsz_idx))"

section \<open>Restoring the order\<close>

fun reverse_idx_loop :: "nat \<Rightarrow> nat list \<Rightarrow> nat list \<Rightarrow> nat list res" where
  "reverse_idx_loop i [] reverse_idx_map = Inr reverse_idx_map"
| "reverse_idx_loop i (idx # idxs) reverse_idx_map =
     (if idx < length reverse_idx_map then reverse_idx_loop (Suc i) idxs (reverse_idx_map[idx := i])
      else Inl IndexError)"

definition get_reverse_idx :: "nat list \<Rightarrow> nat list res" where
  "get_reverse_idx idx_map = reverse_idx_loop 0 idx_map idx_map"

definition restore_dynamic_batch :: "'r list \<Rightarrow> nat list list \<Rightarrow> 'r list res" where
  "restore_dynamic_batch data batch_idx_list =
     (let indices = concat batch_idx_list in
      rbind (rassert (length indices = length data)) (\<lambda>_.
      rbind (get_reverse_idx indices) (\<lambda>revert_indices.
      Inr (select data revert_indices))))"

section \<open>The index lists\<close>

lemma mset_balance_order: "mset (balance_order g workloads idx) = mset idx"
  using mset_every2 [of "py_sorted_reverse _ idx"] by (simp add: balance_order_def Let_def)

lemma partition_of_perm:
  assumes "mset parts' = mset parts" and "partition_of n parts"
  shows "partition_of n parts'"
proof -
  have concat_sum: "mset (concat ps) = (\<Sum>p\<in>#mset ps. mset p)" for ps :: "nat list list"
    by (induction ps) auto
  show ?thesis using assms by (simp add: partition_of_def concat_sum)
qed

lemma partition_of_expand:
  assumes "partition_of m parts"
  shows "partition_of (m * g) (expand_groups g parts)"
proof -
  let ?f = "\<lambda>b. [b * g..<b * g + g]"
  have flat: "concat (expand_groups g parts) = concat (map ?f (concat parts))"
    by (induction parts) (auto simp: expand_groups_def)
  have "mset (concat (map ?f bs)) = (\<Sum>b\<in>#mset bs. mset (?f b))" for bs
    by (induction bs) auto
  then have "mset (concat (expand_groups g parts)) = mset (concat (map ?f [0..<m]))"
    using assms unfolding flat partition_of_def by metis
  also have "concat (map ?f [0..<m]) = [0..<m * g]"
  proof (induction m)
    case (Suc m)
    have "[0..<Suc m * g] = [0..<m * g] @ [m * g..<m * g + g]"
      using upt_add_eq_append [of 0 "m * g" g] by (simp add: add.commute)
    then show ?case using Suc by simp
  qed simp
  finally show ?thesis by (simp add: partition_of_def)
qed

lemma balanced_success:
  assumes "get_seqlen_balanced_partitions work k False = Inr parts"
  shows "partition_of (length work) parts" and "length parts = k" and "0 < k"
    and "\<forall>p\<in>set parts. p \<noteq> []"
proof -
  from assms obtain raw where kk: "karmarkar_karp work k False = Inr raw"
    and chk: "length raw = k" "\<forall>p\<in>set raw. p \<noteq> []" "parts = map (py_sorted (<)) raw"
    by (auto simp: get_seqlen_balanced_partitions_def check_and_sort_partitions_def res_simps)
  have ne: "work \<noteq> []"
  proof
    assume "work = []"
    then have "kk_initial_queue work k False = Inr []"
      by (simp add: kk_initial_queue_def kk_item_states_def kk_sorted_items_def)
    moreover have "kk_loop [] = Inr []" by (simp add: kk_loop.simps [of "[]"])
    ultimately show False using kk by (simp add: karmarkar_karp_def)
  qed
  have k: "0 < k"
  proof (rule ccontr)
    assume "\<not> 0 < k"
    then have "kkstate_new [p] k = Inl IndexError" for p
      by (cases p) (simp add: kkstate_new_def)
    moreover obtain p ps where "kk_sorted_items work = p # ps"
      using ne by (metis length_0_conv length_kk_sorted_items list.exhaust)
    ultimately have "kk_initial_queue work k False = Inl IndexError"
      by (simp add: kk_initial_queue_def kk_item_states_def split_beta)
    with kk show False by (simp add: karmarkar_karp_def)
  qed
  then show "0 < k" .
  from karmarkar_karp_items [OF k ne, of "Max ((\<lambda>v. \<bar>v\<bar>) ` set work)"] kk
  have "partition_of (length work) raw" by auto
  then show "partition_of (length work) parts" unfolding chk(3) by (rule partition_of_sorted)
  show "length parts = k" using chk by simp
  have "py_sorted (<) p \<noteq> []" if "p \<noteq> []" for p :: "nat list"
    using that by (metis length_0_conv length_py_sorted)
  then show "\<forall>p\<in>set parts. p \<noteq> []" using chk(2,3) by auto
qed

section \<open>What a successful call returns\<close>

lemma micro_batch_indices_shape:
  assumes "micro_batch_indices ar c b = Inr idxs"
  obtains max_len lens n parts where "effective_lens b = Inr (max_len, lens)"
    and "max_len \<le> max_token_len c" and "length lens mod force_group_size c = 0"
    and "0 < force_group_size c"
    and "num_micro_batches ar c (int (length lens div force_group_size c)) (sum_list lens) = Inr n"
    and "n \<le> int (length lens div force_group_size c)" and "0 < n"
    and "partition_of (length lens div force_group_size c) parts" and "length parts = nat n"
    and "\<forall>p\<in>set parts. p \<noteq> []"
    and "mset idxs = mset (expand_groups (force_group_size c) parts)"
proof -
  let ?g = "force_group_size c"
  from assms obtain max_len lens n parts where
    el: "effective_lens b = Inr (max_len, lens)" "max_len \<le> max_token_len c"
    and g: "?g \<noteq> 0" "length lens mod ?g = 0"
    and n: "num_micro_batches ar c (int (length lens div ?g)) (sum_list lens) = Inr n"
      "n \<le> int (length lens div ?g)"
    and bal: "get_seqlen_balanced_partitions (unit_workloads ?g lens) (nat n) False = Inr parts"
    and res: "idxs = (if use_dynamic_bsz_balance c
        then balance_order ?g (unit_workloads ?g lens) (sample_indices ?g parts) else sample_indices ?g parts)"
    unfolding micro_batch_indices_def Let_def
    by (clarsimp simp: res_simps)
  have idxs: "mset idxs = mset (sample_indices ?g parts)"
    unfolding res by (simp add: mset_balance_order)
  note facts = balanced_success [OF bal]
  have size: "length (unit_workloads ?g lens) = length lens div ?g"
    using g(1) by (cases "?g = 1") (auto simp: unit_workloads_def grouped_workloads_def)
  have "expand_groups 1 parts = parts" by (simp add: expand_groups_def map_idI)
  then have "mset idxs = mset (expand_groups ?g parts)"
    using idxs g(1) by (cases "?g = 1") (auto simp: sample_indices_def)
  then show thesis
    using that [OF el g(2) _ n _ _ facts(2)] g(1) facts size by simp
qed

text \<open>The micro-batches partition the batch, samples of a forced group stay together, and there are
  as many micro-batches as computed.\<close>

lemma micro_batches_partition:
  assumes "micro_batch_indices ar c b = Inr idxs" and "effective_lens b = Inr (max_len, lens)"
  shows "partition_of (length lens) idxs"
    and "num_micro_batches ar c (int (length lens div force_group_size c)) (sum_list lens) = Inr (int (length idxs))"
    and "\<forall>p\<in>set idxs. p \<noteq> []"
proof -
  let ?g = "force_group_size c"
  from micro_batch_indices_shape [OF assms(1)] assms(2) obtain n parts where
    g: "length lens mod ?g = 0" "0 < ?g" and n: "0 < n"
      "num_micro_batches ar c (int (length lens div ?g)) (sum_list lens) = Inr n"
    and parts: "partition_of (length lens div ?g) parts" "length parts = nat n" "\<forall>p\<in>set parts. p \<noteq> []"
    and mset: "mset idxs = mset (expand_groups ?g parts)"
    by (metis Inr_inject prod.inject)
  have "length lens div ?g * ?g = length lens" using g by (simp add: mod_0_imp_dvd)
  then show "partition_of (length lens) idxs"
    using partition_of_perm [OF mset] partition_of_expand [OF parts(1), of ?g] by simp
  have "length idxs = length (expand_groups ?g parts)" using mset by (metis size_mset)
  then show "num_micro_batches ar c (int (length lens div ?g)) (sum_list lens) = Inr (int (length idxs))"
    using n parts(2) by (simp add: expand_groups_def)
  have "set idxs = set (expand_groups ?g parts)" using mset by (metis set_mset_mset)
  then show "\<forall>p\<in>set idxs. p \<noteq> []"
    using parts(3) g(2) by (auto simp: expand_groups_def concat_eq_Nil_conv)
qed

lemma forced_groups_together:
  assumes "micro_batch_indices ar c b = Inr idxs" and "effective_lens b = Inr (max_len, lens)"
    and "i < length lens" and "j < length lens" and "i div force_group_size c = j div force_group_size c"
  shows "together idxs i j"
proof -
  let ?g = "force_group_size c"
  from micro_batch_indices_shape [OF assms(1)] assms(2) obtain parts where
    g: "length lens mod ?g = 0" "0 < ?g"
    and parts: "partition_of (length lens div ?g) parts"
    and mset: "mset idxs = mset (expand_groups ?g parts)"
    by (metis Inr_inject prod.inject)
  have "i div ?g < length lens div ?g"
    using assms(3) g by (metis div_less_iff_less_mult mod_0_imp_dvd dvd_div_mult_self)
  then have "i div ?g \<in> set (concat parts)" unfolding partition_ofD(1) [OF parts] by simp
  then obtain p where p: "p \<in> set parts" "i div ?g \<in> set p" by auto
  have "l \<in> set [l div ?g * ?g..<l div ?g * ?g + ?g]" for l
    using g(2) dividend_less_div_times [of ?g l] by (simp add: mult.commute add.commute)
  then have "i \<in> set (concat (map (\<lambda>b. [b * ?g..<b * ?g + ?g]) p))"
    and "j \<in> set (concat (map (\<lambda>b. [b * ?g..<b * ?g + ?g]) p))"
    using p(2) assms(5) by (metis (mono_tags, lifting) UN_I set_concat set_map image_eqI)+
  then have "together (expand_groups ?g parts) i j"
    using p(1) unfolding together_def expand_groups_def by (metis (mono_tags, lifting) image_eqI set_map)
  moreover have "set idxs = set (expand_groups ?g parts)" using mset by (metis set_mset_mset)
  ultimately show ?thesis by (simp add: together_def)
qed

section \<open>Restoring inverts rearranging\<close>

lemma reverse_idx_loop_nth:
  assumes "\<forall>i\<in>set idxs. i < length rm" and "distinct idxs"
  shows "\<exists>rm'. reverse_idx_loop i0 idxs rm = Inr rm' \<and> length rm' = length rm
    \<and> (\<forall>l < length idxs. rm' ! (idxs ! l) = i0 + l)
    \<and> (\<forall>j < length rm. j \<notin> set idxs \<longrightarrow> rm' ! j = rm ! j)"
  using assms
proof (induction idxs arbitrary: i0 rm)
  case Nil
  then show ?case by auto
next
  case (Cons idx idxs)
  then obtain rm' where rm': "reverse_idx_loop (Suc i0) idxs (rm[idx := i0]) = Inr rm'"
      "length rm' = length rm" "\<forall>l < length idxs. rm' ! (idxs ! l) = Suc i0 + l"
      "\<forall>j < length rm. j \<notin> set idxs \<longrightarrow> rm' ! j = rm[idx := i0] ! j"
    using Cons.IH [of "rm[idx := i0]" "Suc i0"] by auto
  have "rm' ! ((idx # idxs) ! l) = i0 + l" if "l < length (idx # idxs)" for l
    using that rm' Cons.prems by (cases l) auto
  then show ?case using rm' Cons.prems by auto
qed

lemma get_reverse_idx_inverse:
  assumes "mset idxs = mset [0..<length idxs]"
  shows "\<exists>r. get_reverse_idx idxs = Inr r \<and> length r = length idxs
    \<and> (\<forall>l < length idxs. r ! (idxs ! l) = l)"
proof -
  from assms have "distinct idxs" "\<forall>i\<in>set idxs. i < length idxs"
    unfolding perm_upt_iff by auto
  then show ?thesis using reverse_idx_loop_nth [of idxs idxs 0] by (auto simp: get_reverse_idx_def)
qed

lemma restore_inverts_select:
  assumes part: "partition_of (length rows) idxs"
  shows "restore_dynamic_batch (concat (map (select rows) idxs)) idxs = Inr rows"
proof -
  let ?ix = "concat idxs"
  have len: "length ?ix = length rows" by (rule partition_ofD(3) [OF part])
  have data: "concat (map (select rows) idxs) = select rows ?ix"
    by (induction idxs) (auto simp: select_def)
  from part len have "mset ?ix = mset [0..<length ?ix]" by (simp add: partition_of_def)
  from get_reverse_idx_inverse [OF this] obtain r where
    r: "get_reverse_idx ?ix = Inr r" "length r = length ?ix" "\<forall>l < length ?ix. r ! (?ix ! l) = l"
    by blast
  have "select (select rows ?ix) r = rows"
  proof (rule nth_equalityI)
    fix j
    assume "j < length (select (select rows ?ix) r)"
    then have "j \<in> set ?ix" using len r(2) unfolding partition_ofD(1) [OF part] by simp
    then obtain l where "l < length ?ix" "?ix ! l = j" by (metis in_set_conv_nth)
    with r len show "select (select rows ?ix) r ! j = rows ! j"
      using \<open>j < _\<close> by (auto simp: select_def)
  qed (simp add: len r)
  then show ?thesis by (simp add: restore_dynamic_batch_def data r(1) len)
qed

section \<open>The token budget\<close>

text \<open>The number of micro-batches covers the total number of tokens on average.\<close>

lemma num_micro_batches_covers:
  assumes n: "num_micro_batches ar c groups tokens = Inr n" and pos: "0 < max_token_len c"
    and dvd: "\<And>d. num_batches_divided_by c = Some d \<Longrightarrow> 0 < d" and ar: "\<And>x. x \<le> ar x"
    and cap: "tokens \<le> groups * (max_token_len c * g)" and g: "1 \<le> g" and tokens: "0 \<le> tokens"
  shows "tokens \<le> n * (max_token_len c * g)"
proof -
  let ?m = "max_token_len c"
  obtain q where q: "ceildiv tokens ?m = Inr q" "(q - 1) * ?m < tokens" "tokens \<le> q * ?m"
    using ceildiv_spec [OF pos] by blast
  define n1 where "n1 = (case min_num_micro_batch c of None \<Rightarrow> min groups q | Some m \<Rightarrow> max m (min groups q))"
  define n2 where "n2 = (if dist_initialized c \<and> same_micro_num_in_dp c \<and> has_dp_group c then ar n1 else n1)"
  have res: "(case num_batches_divided_by c of None \<Rightarrow> Inr n2 | Some d \<Rightarrow> roundup_divisible n2 d) = Inr n"
    using n q(1) by (simp only: num_micro_batches_def n2_def n1_def Let_def rbind.simps)
  have "min groups q \<le> n1" by (simp add: n1_def split: option.splits)
  also have "n1 \<le> n2" using ar [of n1] by (simp add: n2_def)
  also have "n2 \<le> n"
  proof (cases "num_batches_divided_by c")
    case (Some d)
    from roundup_divisible_spec [OF dvd [OF Some], of n2] res Some show ?thesis by auto
  qed (use res in simp)
  finally have le: "min groups q * (?m * g) \<le> n * (?m * g)"
    using pos g by (intro mult_right_mono) auto
  have "0 \<le> q * ?m" using q(3) tokens by linarith
  then have "q * ?m * 1 \<le> q * ?m * g" using g by (intro mult_left_mono) auto
  then have "tokens \<le> q * (?m * g)" using q(3) by (simp add: mult.assoc)
  with cap have "tokens \<le> min groups q * (?m * g)" by (simp add: min_def)
  with le show ?thesis by linarith
qed

section \<open>Properties\<close>

text \<open>C4: When \<open>rearrange_micro_batches\<close> computes index lists, they partition the samples of the
  batch: every sample is in exactly one micro-batch, no micro-batch is empty, their number is the
  one computed (after the data-parallel synchronisation and the rounding), and samples of one block
  of \<open>force_group_size\<close> consecutive samples share a micro-batch - whether or not the micro-batches
  are reordered for balance.\<close>

theorem micro_batches_partition_batch:
  assumes "micro_batch_indices ar c b = Inr idxs" and "effective_lens b = Inr (max_len, lens)"
  shows "mset (concat idxs) = mset [0..<length lens] \<and> (\<forall>p\<in>set idxs. p \<noteq> [])
    \<and> num_micro_batches ar c (int (length lens div force_group_size c)) (sum_list lens) = Inr (int (length idxs))
    \<and> (\<forall>i<length lens. \<forall>j<length lens. i div force_group_size c = j div force_group_size c
        \<longrightarrow> (\<exists>p\<in>set idxs. i \<in> set p \<and> j \<in> set p))"
  using micro_batches_partition [OF assms] forced_groups_together [OF assms]
  unfolding together_def partition_of_def by blast

definition demo_config :: "nat \<Rightarrow> micro_config" where
  "demo_config g = \<lparr>max_token_len = 5, dist_initialized = False, has_dp_group = False,
     num_batches_divided_by = None, same_micro_num_in_dp = True, min_num_micro_batch = None,
     use_dynamic_bsz_balance = True, force_group_size = g\<rparr>"

theorem micro_batches_partition_batch_witness:
  "\<exists>idxs. micro_batch_indices (\<lambda>n. n) (demo_config 2) (NestedIds [3, 1, 2, 4]) = Inr idxs
    \<and> mset (concat idxs) = mset [0..<length [3, 1, 2, 4 :: int]] \<and> (\<forall>p\<in>set idxs. p \<noteq> [])
    \<and> num_micro_batches (\<lambda>n. n) (demo_config 2) (int (length [3, 1, 2, 4 :: int] div force_group_size (demo_config 2)))
        (sum_list [3, 1, 2, 4]) = Inr (int (length idxs))
    \<and> (\<forall>i<length [3, 1, 2, 4 :: int]. \<forall>j<length [3, 1, 2, 4 :: int].
        i div force_group_size (demo_config 2) = j div force_group_size (demo_config 2)
        \<longrightarrow> (\<exists>p\<in>set idxs. i \<in> set p \<and> j \<in> set p))"
proof -
  have "micro_batch_indices (\<lambda>n. n) (demo_config 2) (NestedIds [3, 1, 2, 4]) = Inr [[2, 3], [0, 1]]"
    and lens: "effective_lens (NestedIds [3, 1, 2, 4]) = Inr (4, [3, 1, 2, 4])" by code_simp+
  from this(1) micro_batches_partition_batch [OF this] show ?thesis by blast
qed

text \<open>C16: Computing per-sample results micro-batch by micro-batch and restoring gives back the
  original order: concatenating the micro-batches of any batch and applying
  \<open>restore_dynamic_batch\<close> with the returned index lists yields the batch itself.\<close>

theorem restore_inverts_rearrange:
  assumes "rearrange_micro_batches ar c b rows = Inr (batches, idxs)"
    and "effective_lens b = Inr (max_len, lens)" and "length rows = length lens"
  shows "restore_dynamic_batch (concat batches) idxs = Inr rows"
proof -
  from assms(1) have idxs: "micro_batch_indices ar c b = Inr idxs" and "batches = map (select rows) idxs"
    by (auto simp: rearrange_micro_batches_def res_simps)
  then show ?thesis
    using restore_inverts_select micro_batches_partition(1) [OF idxs assms(2)] assms(3) by metis
qed

theorem restore_inverts_rearrange_witness:
  "rearrange_micro_batches (\<lambda>n. n) (demo_config 1) (NestedIds [3, 1, 2, 4]) [''a'', ''b'', ''c'', ''d'']
     = Inr ([[''b'', ''d''], [''a'', ''c'']], [[1, 3], [0, 2]])
   \<and> restore_dynamic_batch (concat [[''b'', ''d''], [''a'', ''c'']]) [[1, 3], [0, 2]]
     = Inr [''a'', ''b'', ''c'', ''d'']"
proof -
  have run: "rearrange_micro_batches (\<lambda>n. n) (demo_config 1) (NestedIds [3, 1, 2, 4]) [''a'', ''b'', ''c'', ''d'']
     = Inr ([[''b'', ''d''], [''a'', ''c'']], [[1, 3], [0, 2]])"
    and "effective_lens (NestedIds [3, 1, 2, 4]) = Inr (4, [3, 1, 2, 4])" by code_simp+
  from run restore_inverts_rearrange [OF this] show ?thesis by simp
qed

text \<open>The micro-batch count respects the token budget on average: with non-negative lengths
  that do not exceed the checked maximum, the total number of tokens is at most the number of
  micro-batches times \<open>max_token_len\<close> (times the forced group size). A single micro-batch may
  exceed the budget, see the next property.\<close>

theorem micro_batches_cover_tokens:
  assumes "micro_batch_indices ar c b = Inr idxs" and "effective_lens b = Inr (max_len, lens)"
    and "\<forall>l\<in>set lens. 0 \<le> l \<and> l \<le> max_len" and "0 < max_token_len c" and "\<forall>x. x \<le> ar x"
    and "case num_batches_divided_by c of None \<Rightarrow> True | Some d \<Rightarrow> 0 < d"
  shows "sum_list lens \<le> int (length idxs) * (max_token_len c * int (force_group_size c))"
proof -
  let ?g = "force_group_size c"
  from micro_batch_indices_shape [OF assms(1)] assms(2) have
    max: "max_len \<le> max_token_len c" and g: "length lens mod ?g = 0" "0 < ?g"
    by (metis Inr_inject prod.inject)+
  have "sum_list lens \<le> int (length lens) * max_token_len c"
  proof -
    have "\<forall>l\<in>set ls. l \<le> m \<Longrightarrow> sum_list ls \<le> int (length ls) * m" for ls and m :: int
      by (induction ls) (auto simp: algebra_simps)
    moreover have "\<forall>l\<in>set lens. l \<le> max_token_len c" using assms(3) max by force
    ultimately show ?thesis by blast
  qed
  also have "int (length lens) = int (length lens div ?g) * int ?g"
    using g by (metis add.right_neutral div_mult_mod_eq of_nat_mult)
  finally have cap: "sum_list lens \<le> int (length lens div ?g) * (max_token_len c * int ?g)"
    by (simp add: mult.commute mult.assoc)
  have "0 \<le> sum_list lens" using assms(3) by (intro sum_list_nonneg) auto
  then show ?thesis
    using num_micro_batches_covers [OF micro_batches_partition(2) [OF assms(1,2)] assms(4) _ _ cap] g(2) assms(5,6)
    by (auto split: option.splits)
qed

theorem micro_batches_cover_tokens_witness:
  "sum_list [3, 1, 2, 4] \<le> int (length [[1, 3], [0, 2 :: nat]])
     * (max_token_len (demo_config 1) * int (force_group_size (demo_config 1)))"
proof (rule micro_batches_cover_tokens)
  show "micro_batch_indices (\<lambda>n. n) (demo_config 1) (NestedIds [3, 1, 2, 4]) = Inr [[1, 3], [0, 2]]"
    and "effective_lens (NestedIds [3, 1, 2, 4]) = Inr (4, [3, 1, 2, 4])" by code_simp+
qed (auto simp: demo_config_def)

text \<open>The budget is not a bound on the individual micro-batch, although the docstring calls
  \<open>max_token_len\<close> the maximum sum per micro-batch: three samples of 3 tokens with a budget of 5
  give two micro-batches, one of which holds 6 tokens.\<close>

theorem micro_batch_may_exceed_budget:
  "\<exists>idxs p. micro_batch_indices (\<lambda>n. n) (demo_config 1) (NestedIds [3, 3, 3]) = Inr idxs
    \<and> p \<in> set idxs \<and> max_token_len (demo_config 1) < sum_list (select [3, 3, 3] p)"
proof -
  have "micro_batch_indices (\<lambda>n. n) (demo_config 1) (NestedIds [3, 3, 3]) = Inr [[0, 1], [2]]"
    by code_simp
  moreover have "max_token_len (demo_config 1) < sum_list (select [3, 3, 3] [0, 1])" by code_simp
  ultimately show ?thesis by (metis list.set_intros(1))
qed

end
