(* ===== verification/PyObject.thy ===== *)
theory PyObject
  imports Prelude "HOL-Library.AList"
begin

text \<open>
  Python values that the data structures of the program carry: dictionaries in insertion order,
  the objects stored in \<open>meta_info\<close>, and the helpers on dictionaries of
  \<open>verl/utils/py_functional.py\<close>.
\<close>

section \<open>Dictionaries\<close>

text \<open>A dictionary is the list of its items in insertion order, with distinct keys. Storing under
  an existing key keeps its place.\<close>

type_synonym 'v pydict = "(string \<times> 'v) list"

definition dict_set :: "'v pydict \<Rightarrow> string \<Rightarrow> 'v \<Rightarrow> 'v pydict" where
  "dict_set d k v = AList.update k v d"

text \<open>\<open>d.update(e)\<close>.\<close>

definition dict_update :: "'v pydict \<Rightarrow> 'v pydict \<Rightarrow> 'v pydict" where
  "dict_update d e = foldl (\<lambda>d (k, v). dict_set d k v) d e"

definition dict_get :: "'v pydict \<Rightarrow> string \<Rightarrow> 'v res" where
  "dict_get d k = (case map_of d k of None \<Rightarrow> Inl KeyError | Some v \<Rightarrow> Inr v)"

definition dict_del :: "'v pydict \<Rightarrow> string \<Rightarrow> 'v pydict" where
  "dict_del d k = filter (\<lambda>(k', _). k' \<noteq> k) d"

definition has_key :: "'v pydict \<Rightarrow> string \<Rightarrow> bool" where
  "has_key d k \<longleftrightarrow> k \<in> set (map fst d)"

definition dict_map :: "('v \<Rightarrow> 'w) \<Rightarrow> 'v pydict \<Rightarrow> 'w pydict" where
  "dict_map f d = map (\<lambda>(k, v). (k, f v)) d"

definition dict_rmap :: "('v \<Rightarrow> 'w res) \<Rightarrow> 'v pydict \<Rightarrow> 'w pydict res" where
  "dict_rmap f d = rmap (\<lambda>(k, v). rbind (f v) (\<lambda>w. Inr (k, w))) d"

definition dict_wf :: "'v pydict \<Rightarrow> bool" where
  "dict_wf d \<longleftrightarrow> distinct (map fst d)"

lemma has_key_iff: "has_key d k \<longleftrightarrow> (\<exists>v. map_of d k = Some v)"
  by (metis has_key_def map_of_eq_None_iff not_None_eq list.set_map)

lemma dict_map_keys [simp]: "map fst (dict_map f d) = map fst d"
  by (induction d) (auto simp: dict_map_def)

lemma length_dict_map [simp]: "length (dict_map f d) = length d"
  by (simp add: dict_map_def)

lemma dict_map_Nil [simp]: "dict_map f [] = []"
  by (simp add: dict_map_def)

lemma dict_map_eq_Nil [simp]: "dict_map f d = [] \<longleftrightarrow> d = []"
  by (simp add: dict_map_def)

lemma dict_map_Cons [simp]: "dict_map f ((k, v) # d) = (k, f v) # dict_map f d"
  by (simp add: dict_map_def)

lemma dict_map_dict_map: "dict_map g (dict_map f d) = dict_map (\<lambda>v. g (f v)) d"
  by (induction d) auto

lemma dict_map_id: "(\<And>k v. (k, v) \<in> set d \<Longrightarrow> f v = v) \<Longrightarrow> dict_map f d = d"
  by (auto simp: dict_map_def intro!: map_idI)

lemma dict_map_cong: "(\<And>k v. (k, v) \<in> set d \<Longrightarrow> f v = g v) \<Longrightarrow> dict_map f d = dict_map g d"
  by (auto simp: dict_map_def)

lemma set_dict_map: "set (dict_map f d) = (\<lambda>(k, v). (k, f v)) ` set d"
  by (auto simp: dict_map_def)

lemma in_dict_mapD: "(k, w) \<in> set (dict_map f d) \<Longrightarrow> \<exists>v. (k, v) \<in> set d \<and> w = f v"
  by (auto simp: dict_map_def)

lemma dict_wf_map [simp]: "dict_wf (dict_map f d) = dict_wf d"
  by (simp add: dict_wf_def)

lemma has_key_dict_map [simp]: "has_key (dict_map f d) k = has_key d k"
  by (simp add: has_key_def del: list.set_map)

lemma map_of_dict_map: "map_of (dict_map f d) k = map_option f (map_of d k)"
  by (induction d) auto

lemma dict_wf_set: "dict_wf d \<Longrightarrow> dict_wf (dict_set d k v)"
  by (simp add: dict_wf_def dict_set_def distinct_update)

lemma map_of_dict_set: "map_of (dict_set d k v) k' = (if k' = k then Some v else map_of d k')"
  by (simp add: dict_set_def update_conv')

lemma map_of_dict_del: "map_of (dict_del d k) k' = (if k' = k then None else map_of d k')"
  by (induction d) (auto simp: dict_del_def)

lemma dict_rmap_Inr:
  "(\<And>k v. (k, v) \<in> set d \<Longrightarrow> f v = Inr (g v)) \<Longrightarrow> dict_rmap f d = Inr (dict_map g d)"
  unfolding dict_rmap_def dict_map_def by (rule rmap_Inr) (auto simp: split_beta)

lemma dict_rmap_keys: "dict_rmap f d = Inr d' \<Longrightarrow> map fst d' = map fst d"
  by (induction d arbitrary: d') (auto simp: dict_rmap_def res_simps)

lemma dict_rmap_in:
  "dict_rmap f d = Inr d' \<Longrightarrow> (k, w) \<in> set d' \<Longrightarrow> \<exists>v. (k, v) \<in> set d \<and> f v = Inr w"
proof (induction d arbitrary: d')
  case (Cons kv d)
  obtain a b where "kv = (a, b)" by force
  with Cons show ?case by (fastforce simp: dict_rmap_def res_simps)
qed (simp add: dict_rmap_def)

lemma dict_set_new: "\<not> has_key d k \<Longrightarrow> dict_set d k v = d @ [(k, v)]"
  by (induction d) (auto simp: dict_set_def has_key_def)

lemma dict_set_same: "dict_wf d \<Longrightarrow> (k, v) \<in> set d \<Longrightarrow> dict_set d k v = d"
  by (induction d) (auto simp: dict_set_def dict_wf_def rev_image_eqI)

lemma keys_dict_set: "map fst (dict_set d k v) = (if has_key d k then map fst d else map fst d @ [k])"
  by (induction d) (auto simp: dict_set_def has_key_def)

section \<open>Objects\<close>

text \<open>The values of \<open>meta_info\<close>. Floating-point numbers are reals, so no value differs from itself.\<close>

datatype pyobj =
    PNone
  | PBool bool
  | PInt int
  | PFloat real
  | PStr string
  | PList "pyobj list"
  | PDict "(string \<times> pyobj) list"

fun truthy :: "pyobj \<Rightarrow> bool" where
  "truthy PNone = False"
| "truthy (PBool b) = b"
| "truthy (PInt i) = (i \<noteq> 0)"
| "truthy (PFloat r) = (r \<noteq> 0)"
| "truthy (PStr s) = (s \<noteq> [])"
| "truthy (PList xs) = (xs \<noteq> [])"
| "truthy (PDict d) = (d \<noteq> [])"

fun py_number :: "pyobj \<Rightarrow> real option" where
  "py_number (PBool b) = Some (of_bool b)"
| "py_number (PInt i) = Some (of_int i)"
| "py_number (PFloat r) = Some r"
| "py_number _ = None"

lemma size_dict_value: "(k, v) \<in> set d \<Longrightarrow> size v < Suc (size_list (size_prod (\<lambda>_. 0) size) d)"
  by (induction d) auto

text \<open>The operator \<open>==\<close>: booleans and numbers compare by value, dictionaries regardless of order.\<close>

function (sequential) py_eq :: "pyobj \<Rightarrow> pyobj \<Rightarrow> bool" where
  "py_eq PNone PNone = True"
| "py_eq (PStr s) (PStr t) = (s = t)"
| "py_eq (PList []) (PList []) = True"
| "py_eq (PList (x # xs)) (PList (y # ys)) = (py_eq x y \<and> py_eq (PList xs) (PList ys))"
| "py_eq (PDict d) (PDict e) =
     (length d = length e
      \<and> (\<forall>(k, v) \<in> set d. case map_of e k of None \<Rightarrow> False | Some w \<Rightarrow> py_eq v w))"
| "py_eq x y = (case (py_number x, py_number y) of (Some a, Some b) \<Rightarrow> a = b | _ \<Rightarrow> False)"
  by pat_completeness auto
termination by (relation "measure (\<lambda>(x, y). size x)") (auto dest: size_dict_value)

text \<open>Objects whose dictionaries have distinct keys, at every depth.\<close>

function py_wf :: "pyobj \<Rightarrow> bool" where
  "py_wf PNone = True"
| "py_wf (PBool b) = True"
| "py_wf (PInt i) = True"
| "py_wf (PFloat r) = True"
| "py_wf (PStr s) = True"
| "py_wf (PList xs) = (\<forall>x\<in>set xs. py_wf x)"
| "py_wf (PDict d) = (dict_wf d \<and> (\<forall>(k, v)\<in>set d. py_wf v))"
  by pat_completeness auto
termination
proof (relation "measure size")
  show "x \<in> set xs \<Longrightarrow> (x, PList xs) \<in> measure size" for x xs
    by (induction xs) auto
qed (auto dest: size_dict_value)

lemma py_eq_refl: "py_wf x \<Longrightarrow> py_eq x x"
proof (induction x rule: py_wf.induct)
  case (6 xs)
  then show ?case by (induction xs) auto
next
  case (7 d)
  have "map_of d k = Some v" if "(k, v) \<in> set d" for k v
    using 7(2) that by (simp add: dict_wf_def)
  with 7 show ?case by (fastforce simp: split_beta)
qed auto

section \<open>Dictionary helpers of the code\<close>

fun union_two_dict :: "pyobj pydict \<Rightarrow> pyobj pydict \<Rightarrow> pyobj pydict res" where
  "union_two_dict dict1 [] = Inr dict1"
| "union_two_dict dict1 ((key, val) # rest) =
     rbind (case map_of dict1 key of None \<Rightarrow> Inr () | Some old \<Rightarrow> rassert (py_eq val old)) (\<lambda>_.
     union_two_dict (dict_set dict1 key val) rest)"

fun append_items :: "'v list pydict \<Rightarrow> 'v pydict \<Rightarrow> 'v list pydict res" where
  "append_items out_dict [] = Inr out_dict"
| "append_items out_dict ((key, item) # items) =
     (case map_of out_dict key of
        None \<Rightarrow> Inl AssertionError
      | Some xs \<Rightarrow> append_items (dict_set out_dict key (xs @ [item])) items)"

fun append_dicts :: "('d \<Rightarrow> 'v pydict res) \<Rightarrow> 'v list pydict \<Rightarrow> 'd list \<Rightarrow> 'v list pydict res" where
  "append_dicts as_dict out_dict [] = Inr out_dict"
| "append_dicts as_dict out_dict (d # ds) =
     rbind (as_dict d) (\<lambda>data. rbind (append_items out_dict data) (\<lambda>out_dict'.
     append_dicts as_dict out_dict' ds))"

text \<open>\<open>as_dict\<close> is the access to the dictionary's methods: it raises on an element that is none.\<close>

definition list_of_dict_to_dict_of_list :: "('d \<Rightarrow> 'v pydict res) \<Rightarrow> 'd list \<Rightarrow> 'v list pydict res" where
  "list_of_dict_to_dict_of_list as_dict list_of_dict =
     (case list_of_dict of
        [] \<Rightarrow> Inr []
      | d # _ \<Rightarrow> rbind (as_dict d) (\<lambda>data.
          append_dicts as_dict (map (\<lambda>(key, _). (key, [])) data) list_of_dict))"

fun obj_as_dict :: "pyobj \<Rightarrow> pyobj pydict res" where
  "obj_as_dict (PDict d) = Inr d"
| "obj_as_dict _ = Inl AttributeError"

lemma append_items_same_keys:
  assumes "map fst out_dict = map fst data" and "dict_wf data"
    and "set (map fst pre) \<inter> set (map fst data) = {}"
  shows "append_items (pre @ out_dict) data
    = Inr (pre @ map2 (\<lambda>(k, xs) (_, x). (k, xs @ [x])) out_dict data)"
  using assms
proof (induction data arbitrary: pre out_dict)
  case Nil
  then show ?case by simp
next
  case (Cons kv data)
  obtain k v where kv: "kv = (k, v)" by force
  with Cons.prems obtain xs out' where out: "out_dict = (k, xs) # out'" and keys: "map fst out' = map fst data"
    by (cases out_dict) auto
  have fresh: "k \<notin> set (map fst pre)" using Cons.prems(3) kv by auto
  then have look: "map_of (pre @ out_dict) k = Some xs"
    unfolding out by (simp add: map_add_def map_of_eq_None_iff [THEN iffD2])
  have upd: "dict_set (pre @ out_dict) k (xs @ [v]) = (pre @ [(k, xs @ [v])]) @ out'"
    using fresh unfolding out by (induction pre) (auto simp: dict_set_def)
  have "append_items ((pre @ [(k, xs @ [v])]) @ out') data
      = Inr ((pre @ [(k, xs @ [v])]) @ map2 (\<lambda>(k, xs) (_, x). (k, xs @ [x])) out' data)"
    using Cons.prems kv by (intro Cons.IH [OF keys]) (auto simp: dict_wf_def)
  then show ?case unfolding kv append_items.simps look option.case upd by (simp add: out)
qed

text \<open>Dictionaries with the same keys in the same order: the lists collect the columns.\<close>

lemma append_dicts_same_keys:
  assumes "\<And>d. d \<in> set ds \<Longrightarrow> as_dict d = Inr (f d)" and "\<And>d. d \<in> set ds \<Longrightarrow> map fst (f d) = keys"
    and "distinct keys" and "map fst out_dict = keys"
  shows "append_dicts as_dict out_dict ds
    = Inr (map (\<lambda>i. (keys ! i, snd (out_dict ! i) @ map (\<lambda>d. snd (f d ! i)) ds)) [0..<length keys])"
  using assms
proof (induction ds arbitrary: out_dict)
  case Nil
  have "out_dict = map (\<lambda>i. (keys ! i, snd (out_dict ! i))) [0..<length keys]"
    using Nil(4) by (auto intro!: nth_equalityI simp: prod_eq_iff)
  then show ?case by simp
next
  case (Cons d ds)
  define new where "new = map2 (\<lambda>(k, xs) (_, x). (k, xs @ [x])) out_dict (f d)"
  have step: "append_items out_dict (f d) = Inr new"
    using append_items_same_keys [of out_dict "f d" "[]"] Cons.prems by (auto simp: dict_wf_def new_def)
  have "length (map fst out_dict) = length keys" "length (map fst (f d)) = length keys"
    using Cons.prems(2) [of d] Cons.prems(4) by auto
  then have len: "length out_dict = length keys" "length (f d) = length keys" by simp_all
  have nth: "new ! i = (keys ! i, snd (out_dict ! i) @ [snd (f d ! i)])" if "i < length keys" for i
  proof -
    have "keys ! i = fst (out_dict ! i)" using that len nth_map [of i out_dict fst] Cons.prems(4) by simp
    then show ?thesis using that len by (simp add: split_beta new_def)
  qed
  have "map fst new = keys"
  proof (rule nth_equalityI)
    show "length (map fst new) = length keys" using len by (simp add: new_def)
    then show "map fst new ! i = keys ! i" if "i < length (map fst new)" for i
      using that nth by simp
  qed
  from Cons.IH [OF _ _ Cons.prems(3) this] Cons.prems(1,2)
  have "append_dicts as_dict new ds
    = Inr (map (\<lambda>i. (keys ! i, snd (new ! i) @ map (\<lambda>d. snd (f d ! i)) ds)) [0..<length keys])"
    by simp
  moreover have "as_dict d = Inr (f d)" using Cons.prems(1) by simp
  ultimately show ?case by (simp add: step nth)
qed

lemma columns_of_same_keys:
  assumes "ds \<noteq> []" and "\<And>d. d \<in> set ds \<Longrightarrow> as_dict d = Inr (f d)"
    and "\<And>d. d \<in> set ds \<Longrightarrow> map fst (f d) = keys" and "distinct keys"
  shows "list_of_dict_to_dict_of_list as_dict ds
    = Inr (map (\<lambda>i. (keys ! i, map (\<lambda>d. snd (f d ! i)) ds)) [0..<length keys])"
proof -
  obtain d ds' where ds: "ds = d # ds'" using assms(1) by (cases ds) auto
  have keys: "map fst (f d) = keys" "length (f d) = length keys"
    using assms(3) [of d] ds by (auto dest: arg_cong [where f = length])
  have "append_dicts as_dict (map (\<lambda>(key, _). (key, [])) (f d)) ds
    = Inr (map (\<lambda>i. (keys ! i, snd (map (\<lambda>(key, _). (key, [])) (f d) ! i) @ map (\<lambda>d. snd (f d ! i)) ds))
        [0..<length keys])"
    using assms(2-4) keys by (intro append_dicts_same_keys) (auto simp: split_beta comp_def)
  then show ?thesis
    using assms(2) keys(2) by (simp add: list_of_dict_to_dict_of_list_def ds split_beta)
qed

end
