(* ===== verification/DataProto.thy ===== *)
theory DataProto
  imports PyObject
begin

text \<open>
  The batch container \<open>DataProto\<close> of \<open>verl/protocol.py\<close>: its data and every operation on it. A
  tensor or array is the list of its rows along the batch dimension (rows are values of any type);
  a \<open>TensorDict\<close> is its batch size and its tensors by key. Indexing, slicing, concatenating and
  repeating rows follow the documented meaning of the tensor library's operations; how it cuts a
  batch that does not divide evenly is a parameter.
\<close>

section \<open>Indices and slices\<close>

definition py_index :: "nat \<Rightarrow> int \<Rightarrow> nat res" where
  "py_index n i =
     (if 0 \<le> i \<and> i < int n then Inr (nat i)
      else if i < 0 \<and> 0 \<le> i + int n then Inr (nat (i + int n))
      else Inl IndexError)"

text \<open>The positions that \<open>start:stop:step\<close> denotes in a sequence of length \<open>n\<close>.\<close>

definition clip_bound :: "int \<Rightarrow> int \<Rightarrow> int \<Rightarrow> int \<Rightarrow> int" where
  "clip_bound lower upper n x =
     (if x < 0 then (if x + n < 0 then lower else x + n) else if upper < x then upper else x)"

definition slice_start :: "int option \<Rightarrow> int \<Rightarrow> int \<Rightarrow> int" where
  "slice_start start step n =
     (let lower = (if step < 0 then -1 else 0); upper = (if step < 0 then n - 1 else n) in
      case start of None \<Rightarrow> (if step < 0 then upper else lower) | Some x \<Rightarrow> clip_bound lower upper n x)"

definition slice_stop :: "int option \<Rightarrow> int \<Rightarrow> int \<Rightarrow> int" where
  "slice_stop stop step n =
     (let lower = (if step < 0 then -1 else 0); upper = (if step < 0 then n - 1 else n) in
      case stop of None \<Rightarrow> (if step < 0 then lower else upper) | Some x \<Rightarrow> clip_bound lower upper n x)"

definition slice_count :: "int \<Rightarrow> int \<Rightarrow> int \<Rightarrow> nat" where
  "slice_count i j step =
     (if 0 < step then (if i < j then nat ((j - i - 1) div step + 1) else 0)
      else (if j < i then nat ((i - j - 1) div (- step) + 1) else 0))"

definition slice_indices :: "int option \<Rightarrow> int option \<Rightarrow> int option \<Rightarrow> nat \<Rightarrow> nat list res" where
  "slice_indices start stop step n =
     (let s = (case step of None \<Rightarrow> 1 | Some s \<Rightarrow> s) in
      rbind (rcheck ValueError (s \<noteq> 0)) (\<lambda>_.
      (let i = slice_start start s (int n); j = slice_stop stop s (int n) in
       Inr (map (\<lambda>l. nat (i + int l * s)) [0..<slice_count i j s]))))"

definition slice_rows :: "int option \<Rightarrow> int option \<Rightarrow> int option \<Rightarrow> 'r list \<Rightarrow> 'r list res" where
  "slice_rows start stop step rows =
     rbind (slice_indices start stop step (length rows)) (\<lambda>idxs. Inr (select rows idxs))"

section \<open>The data\<close>

record 'r tensordict =
  batch_size :: nat
  tensors :: "'r list pydict"

record ('r, 'o) dataproto =
  batch :: "'r tensordict option"
  non_tensor_batch :: "'o list pydict"
  meta_info :: "pyobj pydict"

record ('r, 'o) dataproto_item =
  item_batch :: "'r pydict option"
  item_non_tensor_batch :: "'o pydict"
  item_meta_info :: "pyobj pydict"

text \<open>\<open>TensorDict(source, batch_size)\<close> checks the leading dimension of every tensor.\<close>

definition tensordict_new :: "'r list pydict \<Rightarrow> nat \<Rightarrow> 'r tensordict res" where
  "tensordict_new source n =
     rbind (rcheck RuntimeError (\<forall>(k, v) \<in> set source. length v = n)) (\<lambda>_.
     Inr \<lparr>batch_size = n, tensors = source\<rparr>)"

definition check_consistency :: "('r, 'o) dataproto \<Rightarrow> unit res" where
  "check_consistency dp =
     (case batch dp of
        None \<Rightarrow> Inr ()
      | Some td \<Rightarrow> rassert (\<forall>(k, v) \<in> set (non_tensor_batch dp). length v = batch_size td))"

text \<open>The constructor of the dataclass, which runs \<open>__post_init__\<close>.\<close>

definition dataproto_new ::
    "'r tensordict option \<Rightarrow> 'o list pydict \<Rightarrow> pyobj pydict \<Rightarrow> ('r, 'o) dataproto res" where
  "dataproto_new b nt mi =
     (let dp = \<lparr>batch = b, non_tensor_batch = nt, meta_info = mi\<rparr> in
      rbind (check_consistency dp) (\<lambda>_. Inr dp))"

definition dp_len :: "('r, 'o) dataproto \<Rightarrow> nat" where
  "dp_len dp =
     (case batch dp of
        Some td \<Rightarrow> batch_size td
      | None \<Rightarrow> (case non_tensor_batch dp of (_, val) # _ \<Rightarrow> length val | [] \<Rightarrow> 0))"

definition auto_padding_key :: string where
  "auto_padding_key = ''_verl_auto_padding''"

text \<open>\<open>DataProtoConfig.auto_padding\<close> is the environment variable or the configured value.\<close>

definition auto_padding :: "bool \<Rightarrow> pyobj pydict \<Rightarrow> bool" where
  "auto_padding enabled_by_env config =
     (enabled_by_env \<or> (case map_of config auto_padding_key of None \<Rightarrow> False | Some v \<Rightarrow> truthy v))"

definition is_padding_enabled :: "bool \<Rightarrow> ('r, 'o) dataproto \<Rightarrow> bool" where
  "is_padding_enabled config_auto_padding dp =
     ((case map_of (meta_info dp) auto_padding_key of None \<Rightarrow> False | Some v \<Rightarrow> truthy v)
      \<or> config_auto_padding)"

section \<open>Construction\<close>

definition from_dict ::
    "'r list pydict \<Rightarrow> 'o list pydict \<Rightarrow> pyobj pydict \<Rightarrow> bool \<Rightarrow> ('r, 'o) dataproto res" where
  "from_dict tensor_cols non_tensor_cols mi auto_pad =
     rbind (case tensor_cols of
              [] \<Rightarrow> Inr None
            | (pivot_key, pivot) # rest \<Rightarrow>
                rbind (rassert (\<forall>(k, v) \<in> set rest. length v = length pivot)) (\<lambda>_.
                rbind (tensordict_new tensor_cols (length pivot)) (\<lambda>td. Inr (Some td)))) (\<lambda>b.
     dataproto_new b non_tensor_cols
       (if auto_pad then dict_set mi auto_padding_key (PBool True) else mi))"

datatype ('r, 'o) column = Tensor "'r list" | NdArray "'o list" | OtherValue

fun sort_columns ::
    "('r, 'o) column pydict \<Rightarrow> 'r list pydict \<Rightarrow> 'o list pydict \<Rightarrow> ('r list pydict \<times> 'o list pydict) res" where
  "sort_columns [] ts nts = Inr (ts, nts)"
| "sort_columns ((key, Tensor val) # rest) ts nts = sort_columns rest (dict_set ts key val) nts"
| "sort_columns ((key, NdArray val) # rest) ts nts = sort_columns rest ts (dict_set nts key val)"
| "sort_columns ((key, OtherValue) # rest) ts nts = Inl ValueError"

definition from_single_dict ::
    "('r, 'o) column pydict \<Rightarrow> pyobj pydict \<Rightarrow> bool \<Rightarrow> ('r, 'o) dataproto res" where
  "from_single_dict data mi auto_pad =
     rbind (sort_columns data [] []) (\<lambda>(ts, nts). from_dict ts nts mi auto_pad)"

section \<open>Selecting\<close>

definition select_keys :: "string list option \<Rightarrow> 'v pydict \<Rightarrow> 'v pydict" where
  "select_keys keys d =
     (case keys of None \<Rightarrow> d | Some ks \<Rightarrow> filter (\<lambda>(key, _). key \<in> set ks) d)"

fun tensordict_select :: "string list \<Rightarrow> 'r list pydict \<Rightarrow> 'r list pydict \<Rightarrow> 'r list pydict res" where
  "tensordict_select [] source d = Inr source"
| "tensordict_select (k # ks) source d =
     rbind (dict_get d k) (\<lambda>v. tensordict_select ks (dict_set source k v) d)"

definition select_columns ::
    "string list option \<Rightarrow> string list option \<Rightarrow> string list option \<Rightarrow> ('r, 'o) dataproto
      \<Rightarrow> ('r, 'o) dataproto res" where
  "select_columns batch_keys non_tensor_batch_keys meta_info_keys dp =
     rbind (case batch_keys of
              None \<Rightarrow> Inr (batch dp)
            | Some ks \<Rightarrow> (case batch dp of
                None \<Rightarrow> Inl AttributeError
              | Some td \<Rightarrow> rbind (tensordict_select ks [] (tensors td)) (\<lambda>ts. Inr (Some (td\<lparr>tensors := ts\<rparr>)))))
       (\<lambda>sub_batch.
     dataproto_new sub_batch (select_keys non_tensor_batch_keys (non_tensor_batch dp))
       (select_keys meta_info_keys (meta_info dp)))"

datatype row_selector = Indices "int list" | Mask "bool list"

fun selected_size :: "row_selector \<Rightarrow> nat" where
  "selected_size (Indices idxs) = length idxs"
| "selected_size (Mask bs) = length (filter (\<lambda>b. b) bs)"

fun take_rows :: "row_selector \<Rightarrow> 'r list \<Rightarrow> 'r list res" where
  "take_rows (Indices idxs) rows = rmap (\<lambda>i. rbind (py_index (length rows) i) (\<lambda>j. Inr (rows ! j))) idxs"
| "take_rows (Mask bs) rows =
     rbind (rcheck IndexError (length bs = length rows)) (\<lambda>_.
     Inr (map fst (filter snd (zip rows bs))))"

definition select_idxs :: "row_selector \<Rightarrow> ('r, 'o) dataproto \<Rightarrow> ('r, 'o) dataproto res" where
  "select_idxs idxs dp =
     rbind (case batch dp of
              None \<Rightarrow> Inr None
            | Some td \<Rightarrow> rbind (dict_rmap (take_rows idxs) (tensors td)) (\<lambda>source.
                rbind (tensordict_new source (selected_size idxs)) (\<lambda>td'. Inr (Some td')))) (\<lambda>selected_batch.
     rbind (dict_rmap (take_rows idxs) (non_tensor_batch dp)) (\<lambda>selected_non_tensor.
     dataproto_new selected_batch selected_non_tensor (meta_info dp)))"

text \<open>Tensors refuse a negative step, arrays accept it.\<close>

definition slice_tensordict ::
    "int option \<Rightarrow> int option \<Rightarrow> int option \<Rightarrow> 'r tensordict \<Rightarrow> 'r tensordict res" where
  "slice_tensordict start stop step td =
     rbind (rcheck ValueError (case step of None \<Rightarrow> True | Some s \<Rightarrow> 0 < s)) (\<lambda>_.
     rbind (slice_indices start stop step (batch_size td)) (\<lambda>idxs.
     Inr \<lparr>batch_size = length idxs, tensors = dict_map (\<lambda>rows. select rows idxs) (tensors td)\<rparr>))"

definition slice_dataproto ::
    "int option \<Rightarrow> int option \<Rightarrow> int option \<Rightarrow> ('r, 'o) dataproto \<Rightarrow> ('r, 'o) dataproto res" where
  "slice_dataproto start stop step dp =
     rbind (case batch dp of
              None \<Rightarrow> Inr None
            | Some td \<Rightarrow> rbind (slice_tensordict start stop step td) (\<lambda>td'. Inr (Some td'))) (\<lambda>sliced_batch.
     rbind (dict_rmap (slice_rows start stop step) (non_tensor_batch dp)) (\<lambda>sliced_non_tensor.
     dataproto_new sliced_batch sliced_non_tensor (meta_info dp)))"

definition get_item :: "int \<Rightarrow> ('r, 'o) dataproto \<Rightarrow> ('r, 'o) dataproto_item res" where
  "get_item item dp =
     rbind (case batch dp of
              None \<Rightarrow> Inr None
            | Some td \<Rightarrow> rbind (py_index (batch_size td) item) (\<lambda>i.
                Inr (Some (dict_map (\<lambda>rows. rows ! i) (tensors td))))) (\<lambda>tensor_data.
     rbind (dict_rmap (\<lambda>val. rbind (py_index (length val) item) (\<lambda>i. Inr (val ! i))) (non_tensor_batch dp))
       (\<lambda>non_tensor_data.
     Inr \<lparr>item_batch = tensor_data, item_non_tensor_batch = non_tensor_data,
          item_meta_info = meta_info dp\<rparr>))"

section \<open>Changing the columns\<close>

text \<open>\<open>pop\<close> changes the container: the result is the popped part and what is left.\<close>

fun pop_keys :: "string list \<Rightarrow> 'v pydict \<Rightarrow> 'v pydict \<Rightarrow> ('v pydict \<times> 'v pydict) res" where
  "pop_keys [] popped d = Inr (popped, d)"
| "pop_keys (key # keys) popped d =
     (case map_of d key of
        None \<Rightarrow> Inl AssertionError
      | Some v \<Rightarrow> pop_keys keys (dict_set popped key v) (dict_del d key))"

definition pop_tensors ::
    "string list \<Rightarrow> 'r tensordict option \<Rightarrow> ('r list pydict \<times> 'r tensordict option) res" where
  "pop_tensors keys b =
     (case b of
        None \<Rightarrow> rbind (rcheck AttributeError (keys = [])) (\<lambda>_. Inr ([], None))
      | Some td \<Rightarrow> rbind (pop_keys keys [] (tensors td)) (\<lambda>(popped, rest).
          Inr (popped, Some (td\<lparr>tensors := rest\<rparr>))))"

definition pop_columns ::
    "string list \<Rightarrow> string list \<Rightarrow> string list \<Rightarrow> ('r, 'o) dataproto
      \<Rightarrow> (('r, 'o) dataproto \<times> ('r, 'o) dataproto) res" where
  "pop_columns batch_keys non_tensor_batch_keys meta_info_keys dp =
     rbind (pop_tensors batch_keys (batch dp)) (\<lambda>(ts, b).
     rbind (pop_keys non_tensor_batch_keys [] (non_tensor_batch dp)) (\<lambda>(nts, nt).
     rbind (pop_keys meta_info_keys [] (meta_info dp)) (\<lambda>(ms, mi).
     rbind (from_dict ts nts ms False) (\<lambda>popped.
     Inr (popped, \<lparr>batch = b, non_tensor_batch = nt, meta_info = mi\<rparr>)))))"

datatype rename_keys = NoKeys | OneKey string | ManyKeys "string list" | OtherKeys

fun validate_input :: "rename_keys \<Rightarrow> string list option res" where
  "validate_input NoKeys = Inr None"
| "validate_input (OneKey k) = Inr (Some [k])"
| "validate_input (ManyKeys ks) = Inr (Some ks)"
| "validate_input OtherKeys = Inl TypeError"

text \<open>\<open>TensorDict.rename_key_\<close> is a parameter.\<close>

definition rename_columns ::
    "('r tensordict \<Rightarrow> string list \<Rightarrow> string list \<Rightarrow> 'r tensordict res) \<Rightarrow> rename_keys \<Rightarrow> rename_keys
      \<Rightarrow> ('r, 'o) dataproto \<Rightarrow> ('r, 'o) dataproto res" where
  "rename_columns rename_key old_keys new_keys dp =
     rbind (validate_input old_keys) (\<lambda>old.
     rbind (validate_input new_keys) (\<lambda>new.
     (case (new, old) of
        (Some new_ks, Some old_ks) \<Rightarrow>
          rbind (rcheck ValueError (length new_ks = length old_ks)) (\<lambda>_.
          (case batch dp of
             None \<Rightarrow> Inl AttributeError
           | Some td \<Rightarrow> rbind (rename_key td old_ks new_ks) (\<lambda>td'. Inr (dp\<lparr>batch := Some td'\<rparr>))))
      | _ \<Rightarrow> Inl TypeError)))"

section \<open>Union\<close>

fun union_tensors :: "'r list pydict \<Rightarrow> 'r list pydict \<Rightarrow> 'r list pydict res" where
  "union_tensors d1 [] = Inr d1"
| "union_tensors d1 ((key, val) # rest) =
     (case map_of d1 key of
        None \<Rightarrow> union_tensors (dict_set d1 key val) rest
      | Some old \<Rightarrow> rbind (rassert (old = val)) (\<lambda>_. union_tensors d1 rest))"

definition union_tensor_dict :: "'r tensordict \<Rightarrow> 'r tensordict \<Rightarrow> 'r tensordict res" where
  "union_tensor_dict tensor_dict1 tensor_dict2 =
     rbind (rassert (batch_size tensor_dict1 = batch_size tensor_dict2)) (\<lambda>_.
     rbind (union_tensors (tensors tensor_dict1) (tensors tensor_dict2)) (\<lambda>ts.
     Inr (tensor_dict1\<lparr>tensors := ts\<rparr>)))"

text \<open>\<open>deep_equal\<close> is the comparison of two arrays.\<close>

fun union_numpy_dict ::
    "('o list \<Rightarrow> 'o list \<Rightarrow> bool) \<Rightarrow> 'o list pydict \<Rightarrow> 'o list pydict \<Rightarrow> 'o list pydict res" where
  "union_numpy_dict deep_equal d1 [] = Inr d1"
| "union_numpy_dict deep_equal d1 ((key, val) # rest) =
     rbind (case map_of d1 key of None \<Rightarrow> Inr () | Some old \<Rightarrow> rassert (deep_equal old val)) (\<lambda>_.
     union_numpy_dict deep_equal (dict_set d1 key val) rest)"

definition union_dataproto ::
    "('o list \<Rightarrow> 'o list \<Rightarrow> bool) \<Rightarrow> ('r, 'o) dataproto \<Rightarrow> ('r, 'o) dataproto \<Rightarrow> ('r, 'o) dataproto res" where
  "union_dataproto deep_equal dp other =
     (case (batch dp, batch other) of
        (Some td1, Some td2) \<Rightarrow>
          rbind (union_tensor_dict td1 td2) (\<lambda>td.
          rbind (union_numpy_dict deep_equal (non_tensor_batch dp) (non_tensor_batch other)) (\<lambda>nt.
          rbind (union_two_dict (meta_info dp) (meta_info other)) (\<lambda>mi.
          Inr \<lparr>batch = Some td, non_tensor_batch = nt, meta_info = mi\<rparr>)))
      | _ \<Rightarrow> Inl AttributeError)"

end
