(* ===== verification/BatchOps.thy ===== *)
theory BatchOps
  imports DataProto
begin

text \<open>
  The operations of \<open>verl/protocol.py\<close> along the batch dimension: concatenating, chunking,
  splitting, repeating, reordering, padding to a divisor and folding.
\<close>

section \<open>Concatenation\<close>

text \<open>\<open>torch.cat\<close> on \<open>TensorDict\<close>s: all have the keys of the first.\<close>

definition cat_tensordicts :: "'r tensordict list \<Rightarrow> 'r tensordict res" where
  "cat_tensordicts tds =
     (let keys = map fst (tensors (hd tds)) in
      rbind (rcheck KeyError (\<forall>td\<in>set tds. set (map fst (tensors td)) = set keys)) (\<lambda>_.
      Inr \<lparr>batch_size = sum_list (map batch_size tds),
           tensors = map (\<lambda>k. (k, concat (map (\<lambda>td. the (map_of (tensors td) k)) tds))) keys\<rparr>))"

definition cat_batches :: "'r tensordict option list \<Rightarrow> 'r tensordict option res" where
  "cat_batches bs =
     (case bs of
        [] \<Rightarrow> Inl IndexError
      | None # _ \<Rightarrow> Inr None
      | Some _ # _ \<Rightarrow>
          rbind (rmap (\<lambda>b. case b of None \<Rightarrow> Inl TypeError | Some td \<Rightarrow> Inr td) bs) (\<lambda>tds.
          rbind (cat_tensordicts tds) (\<lambda>td. Inr (Some td))))"

text \<open>Merging the \<open>meta_info\<close> of the parts. The metrics of the workers are collected in a list,
  every other key must agree.\<close>

fun merge_items ::
    "pyobj list \<Rightarrow> pyobj pydict \<Rightarrow> pyobj pydict \<Rightarrow> (pyobj list \<times> pyobj pydict) res" where
  "merge_items all_metrics merged [] = Inr (all_metrics, merged)"
| "merge_items all_metrics merged ((k, v) # rest) =
     (if k = ''metrics''
      then merge_items (case v of PNone \<Rightarrow> all_metrics | PList xs \<Rightarrow> all_metrics @ xs | _ \<Rightarrow> all_metrics @ [v])
             merged rest
      else case map_of merged k of
          Some old \<Rightarrow> rbind (rassert (py_eq old v)) (\<lambda>_. merge_items all_metrics merged rest)
        | None \<Rightarrow> merge_items all_metrics (dict_set merged k v) rest)"

fun merge_metas ::
    "pyobj list \<Rightarrow> pyobj pydict \<Rightarrow> pyobj pydict list \<Rightarrow> (pyobj list \<times> pyobj pydict) res" where
  "merge_metas all_metrics merged [] = Inr (all_metrics, merged)"
| "merge_metas all_metrics merged (mi # mis) =
     rbind (merge_items all_metrics merged mi) (\<lambda>(all_metrics', merged').
     merge_metas all_metrics' merged' mis)"

definition merge_meta_info :: "pyobj pydict list \<Rightarrow> pyobj pydict res" where
  "merge_meta_info mis =
     rbind (merge_metas [] [] mis) (\<lambda>(all_metrics, merged).
     (if all_metrics = [] then Inr merged
      else rbind (list_of_dict_to_dict_of_list obj_as_dict all_metrics) (\<lambda>metrics.
           Inr (dict_set merged ''metrics'' (PDict (dict_map PList metrics))))))"

definition concat_dataproto :: "('r, 'o) dataproto list \<Rightarrow> ('r, 'o) dataproto res" where
  "concat_dataproto data =
     rbind (cat_batches (map batch data)) (\<lambda>new_batch.
     rbind (list_of_dict_to_dict_of_list Inr (map non_tensor_batch data)) (\<lambda>columns.
     rbind (merge_meta_info (map meta_info data)) (\<lambda>merged_meta_info.
     dataproto_new new_batch (dict_map concat columns) merged_meta_info)))"

section \<open>Chunking and splitting\<close>

text \<open>Consecutive blocks of the given sizes.\<close>

fun take_blocks :: "nat list \<Rightarrow> 'r list \<Rightarrow> 'r list list" where
  "take_blocks [] rows = []"
| "take_blocks (n # ns) rows = take n rows # take_blocks ns (drop n rows)"

text \<open>\<open>np.array_split(val, sections)\<close>: the first \<open>len mod sections\<close> parts have one row more.\<close>

definition array_split_sizes :: "nat \<Rightarrow> nat \<Rightarrow> nat list" where
  "array_split_sizes n sections =
     map (\<lambda>i. n div sections + (if i < n mod sections then 1 else 0)) [0..<sections]"

text \<open>\<open>np.array_split(val, indices)\<close>: cut points from cumulative sizes; the last part is the rest.\<close>

definition array_split_at :: "nat list \<Rightarrow> 'r list \<Rightarrow> 'r list list" where
  "array_split_at sizes rows =
     take_blocks (butlast sizes) rows @ [drop (sum_list (butlast sizes)) rows]"

text \<open>\<open>chunk_sizes n chunks\<close> are the batch sizes of the parts into which \<open>TensorDict.chunk\<close> cuts a
  batch of size \<open>n\<close>, a parameter.\<close>

definition chunk_batch ::
    "(nat \<Rightarrow> nat \<Rightarrow> nat list res) \<Rightarrow> nat \<Rightarrow> 'r tensordict option \<Rightarrow> ('r tensordict option list \<times> nat list option) res" where
  "chunk_batch chunk_sizes chunks b =
     (case b of
        None \<Rightarrow> Inr (replicate chunks None, None)
      | Some td \<Rightarrow> rbind (chunk_sizes (batch_size td) chunks) (\<lambda>sizes.
          Inr (map (\<lambda>i. Some \<lparr>batch_size = sizes ! i,
                              tensors = dict_map (\<lambda>rows. take_blocks sizes rows ! i) (tensors td)\<rparr>)
                 [0..<length sizes], Some sizes)))"

definition split_array :: "nat list option \<Rightarrow> nat \<Rightarrow> 'o list \<Rightarrow> 'o list list res" where
  "split_array bsz_in_batch chunks val =
     (case bsz_in_batch of
        Some sizes \<Rightarrow> Inr (array_split_at sizes val)
      | None \<Rightarrow> rbind (rcheck ValueError (chunks \<noteq> 0)) (\<lambda>_.
          Inr (take_blocks (array_split_sizes (length val) chunks) val)))"

definition chunk_column :: "nat list option \<Rightarrow> nat \<Rightarrow> 'o list \<Rightarrow> 'o list list res" where
  "chunk_column bsz_in_batch chunks val =
     rbind (split_array bsz_in_batch chunks val) (\<lambda>parts.
     rbind (rassert (length parts = chunks)) (\<lambda>_. Inr parts))"

definition chunk_dataproto ::
    "(nat \<Rightarrow> nat \<Rightarrow> nat list res) \<Rightarrow> bool \<Rightarrow> nat \<Rightarrow> ('r, 'o) dataproto \<Rightarrow> ('r, 'o) dataproto list res" where
  "chunk_dataproto chunk_sizes config_auto_padding chunks dp =
     rbind (if is_padding_enabled config_auto_padding dp then Inr ()
            else rbind (rcheck ZeroDivisionError (chunks \<noteq> 0)) (\<lambda>_. rassert (dp_len dp mod chunks = 0))) (\<lambda>_.
     rbind (chunk_batch chunk_sizes chunks (batch dp)) (\<lambda>(batch_lst, bsz_in_batch).
     rbind (dict_rmap (chunk_column bsz_in_batch chunks) (non_tensor_batch dp)) (\<lambda>columns.
     rmap (\<lambda>i. rbind (rcheck IndexError (i < length batch_lst)) (\<lambda>_.
               dataproto_new (batch_lst ! i) (dict_map (\<lambda>parts. parts ! i) columns) (meta_info dp)))
       [0..<chunks])))"

definition split_dataproto :: "nat \<Rightarrow> ('r, 'o) dataproto \<Rightarrow> ('r, 'o) dataproto list res" where
  "split_dataproto split_size dp =
     rbind (rcheck ValueError (split_size \<noteq> 0)) (\<lambda>_.
     rmap (\<lambda>j. slice_dataproto (Some (int (j * split_size))) (Some (int (j * split_size + split_size))) None dp)
       [0..<(dp_len dp + split_size - 1) div split_size])"

section \<open>Reordering and repeating\<close>

definition reorder :: "nat list \<Rightarrow> ('r, 'o) dataproto \<Rightarrow> ('r, 'o) dataproto res" where
  "reorder indices dp =
     (case batch dp of
        None \<Rightarrow> Inl TypeError
      | Some td \<Rightarrow>
          rbind (dict_rmap (take_rows (Indices (map int indices))) (tensors td)) (\<lambda>ts.
          rbind (dict_rmap (take_rows (Indices (map int indices))) (non_tensor_batch dp)) (\<lambda>nt.
          Inr (dp\<lparr>batch := Some \<lparr>batch_size = length indices, tensors = ts\<rparr>, non_tensor_batch := nt\<rparr>))))"

definition repeat_interleave :: "nat \<Rightarrow> 'r list \<Rightarrow> 'r list" where
  "repeat_interleave k rows = concat (map (replicate k) rows)"

definition tile :: "nat \<Rightarrow> 'r list \<Rightarrow> 'r list" where
  "tile k rows = concat (replicate k rows)"

definition repeat_rows :: "bool \<Rightarrow> nat \<Rightarrow> 'r list \<Rightarrow> 'r list" where
  "repeat_rows interleave k rows = (if interleave then repeat_interleave k rows else tile k rows)"

definition repeat_dataproto :: "nat \<Rightarrow> bool \<Rightarrow> ('r, 'o) dataproto \<Rightarrow> ('r, 'o) dataproto res" where
  "repeat_dataproto repeat_times interleave dp =
     rbind (case batch dp of
              None \<Rightarrow> Inr None
            | Some td \<Rightarrow> rbind (tensordict_new (dict_map (repeat_rows interleave repeat_times) (tensors td))
                                  (batch_size td * repeat_times)) (\<lambda>td'. Inr (Some td'))) (\<lambda>repeated_batch.
     dataproto_new repeated_batch (dict_map (repeat_rows interleave repeat_times) (non_tensor_batch dp))
       (meta_info dp))"

text \<open>One count per row (a single count applies to all rows); tensors and arrays raise different
  exceptions.\<close>

definition repeat_each :: "pyerr \<Rightarrow> int list \<Rightarrow> 'r list \<Rightarrow> 'r list res" where
  "repeat_each err repeat_times rows =
     (if \<exists>k\<in>set repeat_times. k < 0 then Inl err
      else if length repeat_times = length rows
      then Inr (concat (map2 (\<lambda>k row. replicate (nat k) row) repeat_times rows))
      else if length repeat_times = 1 then Inr (repeat_interleave (nat (hd repeat_times)) rows)
      else Inl err)"

definition sample_level_repeat :: "int list \<Rightarrow> ('r, 'o) dataproto \<Rightarrow> ('r, 'o) dataproto res" where
  "sample_level_repeat repeat_times dp =
     rbind (case batch dp of
              None \<Rightarrow> Inr None
            | Some td \<Rightarrow> rbind (dict_rmap (repeat_each RuntimeError repeat_times) (tensors td)) (\<lambda>source.
                rbind (tensordict_new source (nat (sum_list repeat_times))) (\<lambda>td'. Inr (Some td')))) (\<lambda>repeated_batch.
     rbind (dict_rmap (repeat_each ValueError repeat_times) (non_tensor_batch dp)) (\<lambda>nt.
     dataproto_new repeated_batch nt (meta_info dp)))"

section \<open>Padding\<close>

text \<open>The loop that takes copies of the head of the batch until the padding is complete; it gives
  the slices to append.\<close>

function padding_sizes :: "nat \<Rightarrow> nat \<Rightarrow> nat list" where
  "padding_sizes len remaining_pad =
     (if remaining_pad = 0 \<or> len = 0 then []
      else (let take_size = min remaining_pad len in
            take_size # padding_sizes len (remaining_pad - take_size)))"
  by pat_completeness auto
termination by (relation "measure snd") auto

definition pad_dataproto_to_divisor ::
    "nat \<Rightarrow> ('r, 'o) dataproto \<Rightarrow> (('r, 'o) dataproto \<times> nat) res" where
  "pad_dataproto_to_divisor size_divisor dp =
     rbind (rcheck ZeroDivisionError (size_divisor \<noteq> 0)) (\<lambda>_.
     (if dp_len dp mod size_divisor \<noteq> 0
      then (let pad_size = size_divisor - dp_len dp mod size_divisor in
            rbind (rmap (\<lambda>take_size. slice_dataproto None (Some (int take_size)) None dp)
                     (padding_sizes (dp_len dp) pad_size)) (\<lambda>padding_protos.
            rbind (concat_dataproto (dp # padding_protos)) (\<lambda>data_padded.
            Inr (data_padded, pad_size))))
      else Inr (dp, 0)))"

definition unpad_dataproto :: "('r, 'o) dataproto \<Rightarrow> nat \<Rightarrow> ('r, 'o) dataproto res" where
  "unpad_dataproto dp pad_size =
     (if pad_size \<noteq> 0 then slice_dataproto None (Some (- int pad_size)) None dp else Inr dp)"

definition padding :: "nat \<Rightarrow> string \<Rightarrow> ('r, 'o) dataproto \<Rightarrow> ('r, 'o) dataproto res" where
  "padding padding_size padding_candidate dp =
     (if padding_size = 0 then Inr dp
      else rbind (select_idxs (Indices [if padding_candidate = ''first'' then 0 else int (dp_len dp) - 1]) dp) (\<lambda>cand.
           rbind (repeat_dataproto padding_size True cand) (\<lambda>padding_part.
           rbind (concat_dataproto [dp, padding_part]) (\<lambda>padded_dp.
           Inr (dp\<lparr>batch := batch padded_dp, non_tensor_batch := non_tensor_batch padded_dp\<rparr>)))))"

section \<open>Columns and batch dimensions\<close>

text \<open>Reshaping rows of width \<open>w\<close> (the width of the first row) into \<open>n_split\<close> times as many rows.\<close>

definition split_row_columns :: "pyerr \<Rightarrow> nat \<Rightarrow> 'e list list \<Rightarrow> 'e list list res" where
  "split_row_columns err n_split rows =
     rbind (rcheck ZeroDivisionError (n_split \<noteq> 0)) (\<lambda>_.
     (let w = (case rows of [] \<Rightarrow> 0 | row # _ \<Rightarrow> length row) div n_split in
      rbind (rcheck err (length (concat rows) = length rows * n_split * w)) (\<lambda>_.
      Inr (take_blocks (replicate (length rows * n_split) w) (concat rows)))))"

definition unfold_tensor :: "nat \<Rightarrow> string list option \<Rightarrow> string \<times> 'e list list \<Rightarrow> (string \<times> 'e list list) res" where
  "unfold_tensor n_split split_keys p =
     (if (case split_keys of None \<Rightarrow> False | Some ks \<Rightarrow> fst p \<in> set ks)
      then rbind (split_row_columns RuntimeError n_split (snd p)) (\<lambda>v. Inr (fst p, v))
      else Inr (fst p, repeat_interleave n_split (snd p)))"

definition unfold_array :: "nat \<Rightarrow> string list option \<Rightarrow> string \<times> 'e list list \<Rightarrow> (string \<times> 'e list list) res" where
  "unfold_array n_split split_keys p =
     (case split_keys of
        None \<Rightarrow> Inl TypeError
      | Some ks \<Rightarrow>
          (if fst p \<in> set ks then rbind (split_row_columns ValueError n_split (snd p)) (\<lambda>v. Inr (fst p, v))
           else Inr (fst p, repeat_interleave n_split (snd p))))"

definition unfold_column_chunks ::
    "nat \<Rightarrow> string list option \<Rightarrow> ('e list, 'f list) dataproto \<Rightarrow> ('e list, 'f list) dataproto res" where
  "unfold_column_chunks n_split split_keys dp =
     rbind (case batch dp of
              None \<Rightarrow> Inr None
            | Some td \<Rightarrow> rbind (rmap (unfold_tensor n_split split_keys) (tensors td)) (\<lambda>source.
                rbind (tensordict_new source (batch_size td * n_split)) (\<lambda>td'. Inr (Some td')))) (\<lambda>unfolded_batch.
     rbind (rmap (unfold_array n_split split_keys) (non_tensor_batch dp)) (\<lambda>nt.
     dataproto_new unfolded_batch nt (meta_info dp)))"

definition fold_rows :: "nat \<Rightarrow> 'r list \<Rightarrow> 'r list list" where
  "fold_rows n rows = take_blocks (replicate n (length rows div n)) rows"

text \<open>Folding stores the reshaped arrays into the argument's own \<open>non_tensor_batch\<close>: the result is
  the new container and the argument afterwards.\<close>

definition fold_batch_dim ::
    "nat \<Rightarrow> ('r, 'o) dataproto
      \<Rightarrow> (('r list, 'o list) dataproto \<times> ('r, 'o list) dataproto) res" where
  "fold_batch_dim new_batch_size dp =
     (case batch dp of
        None \<Rightarrow> Inl AttributeError
      | Some td \<Rightarrow>
          rbind (rcheck ZeroDivisionError (new_batch_size \<noteq> 0)) (\<lambda>_.
          rbind (rassert (batch_size td mod new_batch_size = 0)) (\<lambda>_.
          rbind (dict_rmap (\<lambda>val. rbind (rcheck ValueError (length val mod new_batch_size = 0)) (\<lambda>_.
                    Inr (fold_rows new_batch_size val))) (non_tensor_batch dp)) (\<lambda>nt.
          rbind (dataproto_new (Some \<lparr>batch_size = new_batch_size,
                                      tensors = dict_map (fold_rows new_batch_size) (tensors td)\<rparr>)
                   nt (meta_info dp)) (\<lambda>folded.
          Inr (folded, \<lparr>batch = Some td, non_tensor_batch = nt, meta_info = meta_info dp\<rparr>))))))"

definition unfold_batch_dim ::
    "('r list, 'o list) dataproto \<Rightarrow> ('r, 'o) dataproto res" where
  "unfold_batch_dim dp =
     (case batch dp of
        None \<Rightarrow> Inl AttributeError
      | Some td \<Rightarrow>
          (let n = (case tensors td of [] \<Rightarrow> batch_size td | (_, v) # _ \<Rightarrow> length (concat v)) in
           rbind (rcheck ValueError (\<forall>(k, v) \<in> set (non_tensor_batch dp). length (concat v) = n)) (\<lambda>_.
           dataproto_new (Some \<lparr>batch_size = n, tensors = dict_map concat (tensors td)\<rparr>)
             (dict_map concat (non_tensor_batch dp)) (meta_info dp))))"

text \<open>Stacking single items into a batch.\<close>

definition stack_items :: "'r pydict list \<Rightarrow> 'r tensordict res" where
  "stack_items items =
     (case items of
        [] \<Rightarrow> Inl RuntimeError
      | first # _ \<Rightarrow>
          rbind (rcheck KeyError (\<forall>item\<in>set items. set (map fst item) = set (map fst first))) (\<lambda>_.
          Inr \<lparr>batch_size = length items,
               tensors = map (\<lambda>(k, _). (k, map (\<lambda>item. the (map_of item k)) items)) first\<rparr>))"

definition collate_fn :: "('r, 'o) dataproto_item list \<Rightarrow> ('r, 'o) dataproto res" where
  "collate_fn x =
     rbind (rmap (\<lambda>d. case item_batch d of None \<Rightarrow> Inl TypeError | Some b \<Rightarrow> Inr b) x) (\<lambda>bs.
     rbind (stack_items bs) (\<lambda>td.
     rbind (list_of_dict_to_dict_of_list Inr (map item_non_tensor_batch x)) (\<lambda>nt.
     dataproto_new (Some td) nt [])))"

end
