(* ===== verification/BatchLaws.thy ===== *)
theory BatchLaws
  imports BatchOps
begin

text \<open>
  What the operations on \<open>DataProto\<close> guarantee: on a well-formed container every operation along the
  batch dimension acts on all columns alike, so chunking and concatenating, padding and unpadding,
  folding and unfolding are inverse to each other.
\<close>

section \<open>Well-formed containers\<close>

definition wf_columns :: "nat \<Rightarrow> 'v list pydict \<Rightarrow> bool" where
  "wf_columns n d \<longleftrightarrow> dict_wf d \<and> (\<forall>(k, v)\<in>set d. length v = n)"

definition wf_meta :: "pyobj pydict \<Rightarrow> bool" where
  "wf_meta mi \<longleftrightarrow> dict_wf mi \<and> (\<forall>(k, v)\<in>set mi. py_wf v)"

definition wf_dataproto :: "('r, 'o) dataproto \<Rightarrow> bool" where
  "wf_dataproto dp \<longleftrightarrow>
     wf_columns (dp_len dp) (non_tensor_batch dp) \<and> wf_meta (meta_info dp)
     \<and> (case batch dp of None \<Rightarrow> True | Some td \<Rightarrow> wf_columns (batch_size td) (tensors td))"

text \<open>The container with every column transformed.\<close>

definition with_rows ::
    "nat \<Rightarrow> ('r list \<Rightarrow> 'r2 list) \<Rightarrow> ('o list \<Rightarrow> 'o2 list) \<Rightarrow> ('r, 'o) dataproto \<Rightarrow> ('r2, 'o2) dataproto" where
  "with_rows n f g dp =
     \<lparr>batch = map_option (\<lambda>td. \<lparr>batch_size = n, tensors = dict_map f (tensors td)\<rparr>) (batch dp),
      non_tensor_batch = dict_map g (non_tensor_batch dp), meta_info = meta_info dp\<rparr>"

named_theorems dp_simps \<open>selectors of transformed containers\<close>

lemma with_rows_simps [dp_simps]:
  "batch (with_rows n f g dp) = map_option (\<lambda>td. \<lparr>batch_size = n, tensors = dict_map f (tensors td)\<rparr>) (batch dp)"
  "non_tensor_batch (with_rows n f g dp) = dict_map g (non_tensor_batch dp)"
  "meta_info (with_rows n f g dp) = meta_info dp"
  by (simp_all add: with_rows_def)

lemma wf_columnsD: "wf_columns n d \<Longrightarrow> (k, v) \<in> set d \<Longrightarrow> length v = n"
  by (auto simp: wf_columns_def)

lemma wf_columns_map:
  "wf_columns n d \<Longrightarrow> (\<And>v. length v = n \<Longrightarrow> length (f v) = m) \<Longrightarrow> wf_columns m (dict_map f d)"
  unfolding wf_columns_def by (auto dest!: in_dict_mapD simp: dict_wf_map)

lemma dp_len_Some: "batch dp = Some td \<Longrightarrow> dp_len dp = batch_size td"
  by (simp add: dp_len_def)

lemma dp_len_with_rows:
  assumes "wf_dataproto dp" and "\<And>v. length v = dp_len dp \<Longrightarrow> length (g v) = m"
    and "batch dp = None \<Longrightarrow> non_tensor_batch dp = [] \<Longrightarrow> m = 0"
  shows "dp_len (with_rows m f g dp) = m"
proof (cases "batch dp")
  case None
  show ?thesis
  proof (cases "non_tensor_batch dp")
    case (Cons kv rest)
    then obtain k v where "kv = (k, v)" by force
    with Cons None assms show ?thesis
      by (auto simp: dp_len_def with_rows_def wf_dataproto_def wf_columns_def)
  qed (use None assms in \<open>simp add: dp_len_def with_rows_def\<close>)
qed (simp add: dp_len_def with_rows_def)

lemma wf_with_rows:
  assumes "wf_dataproto dp" and "\<And>v. length v = dp_len dp \<Longrightarrow> length (f v) = m"
    and "\<And>v. length v = dp_len dp \<Longrightarrow> length (g v) = m"
    and "batch dp = None \<Longrightarrow> non_tensor_batch dp = [] \<Longrightarrow> m = 0"
  shows "wf_dataproto (with_rows m f g dp)"
proof -
  have "wf_columns m (dict_map g (non_tensor_batch dp))"
    using assms(1) by (auto simp: wf_dataproto_def intro!: wf_columns_map [where n = "dp_len dp"] assms(3))
  moreover have "wf_columns m (dict_map f (tensors td))" if "batch dp = Some td" for td
    using assms(1) that
    by (auto simp: wf_dataproto_def dp_len_Some intro!: wf_columns_map [where n = "dp_len dp"] assms(2))
  moreover have "dp_len (with_rows m f g dp) = m"
    by (rule dp_len_with_rows) (use assms in auto)
  ultimately show ?thesis
    using assms(1)
    by (simp add: wf_dataproto_def dp_simps split: option.splits)
qed

text \<open>Two transformations that agree on columns of the right length give the same container.\<close>

lemma with_rows_cong:
  assumes "wf_dataproto dp" and "\<And>v. length v = dp_len dp \<Longrightarrow> f v = f' v"
    and "\<And>v. length v = dp_len dp \<Longrightarrow> g v = g' v"
  shows "with_rows n f g dp = with_rows n f' g' dp"
  using assms unfolding with_rows_def wf_dataproto_def
  by (cases "batch dp") (auto simp: dp_len_Some dest: wf_columnsD intro!: dict_map_cong)

lemma with_rows_id: "wf_dataproto dp \<Longrightarrow> with_rows (dp_len dp) (\<lambda>v. v) (\<lambda>v. v) dp = dp"
  by (cases "batch dp") (auto simp: with_rows_def dp_len_Some dict_map_id)

lemma with_rows_with_rows:
  "with_rows m f g (with_rows n f' g' dp) = with_rows m (\<lambda>v. f (f' v)) (\<lambda>v. g (g' v)) dp"
  by (cases "batch dp") (simp_all add: with_rows_def dict_map_dict_map)

lemma dataproto_new_rows:
  assumes "wf_dataproto dp" and "\<And>v. length v = dp_len dp \<Longrightarrow> length (g v) = m"
  shows "dataproto_new (map_option (\<lambda>td. \<lparr>batch_size = m, tensors = dict_map f (tensors td)\<rparr>) (batch dp))
           (dict_map g (non_tensor_batch dp)) (meta_info dp) = Inr (with_rows m f g dp)"
proof -
  have "check_consistency (with_rows m f g dp) = Inr ()"
  proof (cases "batch dp")
    case (Some td)
    have "length w = m" if kw: "(k, w) \<in> set (dict_map g (non_tensor_batch dp))" for k w
    proof -
      from in_dict_mapD [OF kw] obtain v where v: "(k, v) \<in> set (non_tensor_batch dp)" "w = g v" by blast
      have "length v = dp_len dp" using assms(1) v(1) by (auto simp: wf_dataproto_def wf_columns_def)
      then show ?thesis using v(2) assms(2) by simp
    qed
    with Some show ?thesis by (auto simp: check_consistency_def dp_simps res_simps)
  qed (simp add: check_consistency_def dp_simps)
  then show ?thesis by (simp add: dataproto_new_def with_rows_def)
qed

section \<open>Slices\<close>

lemma map_shift_upt: "map (\<lambda>l. nat (int a + int l)) [0..<n] = [a..<a + n]"
  by (induction n) (auto simp: nat_add_distrib)

lemma select_upt_slice: "b \<le> length rows \<Longrightarrow> select rows [a..<b] = pyslice a b rows"
  by (intro nth_equalityI) (auto simp: select_def pyslice_def)

lemma slice_positions: "map (\<lambda>l. nat (int i + int l)) [0..<slice_count (int i) (int j) 1] = [i..<j]"
proof (cases "i < j")
  case True
  then have "slice_count (int i) (int j) 1 = j - i" by (simp add: slice_count_def)
  with True show ?thesis using map_shift_upt [of i "j - i"] by simp
qed (simp add: slice_count_def)

lemma slice_indices_block:
  "slice_indices (Some (int a)) (Some (int b)) None n = Inr [min a n..<min b n]"
proof -
  have start: "slice_start (Some (int a)) 1 (int n) = int (min a n)"
    and stop: "slice_stop (Some (int b)) 1 (int n) = int (min b n)"
    by (simp_all add: slice_start_def slice_stop_def clip_bound_def min_def)
  show ?thesis
    using slice_positions [of "min a n" "min b n"]
    by (simp add: slice_indices_def Let_def start stop del: of_nat_min)
qed

lemma slice_indices_head: "slice_indices None (Some (int b)) None n = Inr [0..<min b n]"
proof -
  have "slice_indices None (Some (int b)) None n = slice_indices (Some (int 0)) (Some (int b)) None n"
    by (simp add: slice_indices_def slice_start_def clip_bound_def)
  then show ?thesis using slice_indices_block [of 0 b n] by simp
qed

lemma slice_indices_drop_last:
  assumes "k \<le> n" and "0 < k"
  shows "slice_indices None (Some (- int k)) None n = Inr [0..<n - k]"
proof -
  have "slice_indices None (Some (- int k)) None n = slice_indices None (Some (int (n - k))) None n"
    using assms by (simp add: slice_indices_def slice_stop_def clip_bound_def of_nat_diff)
  then show ?thesis by (simp add: slice_indices_head)
qed

lemma slice_rows_all:
  assumes wf: "wf_dataproto dp" and idxs: "slice_indices start stop None (dp_len dp) = Inr idxs"
  shows "slice_dataproto start stop None dp
    = Inr (with_rows (length idxs) (\<lambda>v. select v idxs) (\<lambda>v. select v idxs) dp)"
proof -
  have "dict_rmap (slice_rows start stop None) (non_tensor_batch dp)
      = Inr (dict_map (\<lambda>v. select v idxs) (non_tensor_batch dp))"
    using wf idxs by (intro dict_rmap_Inr) (auto simp: slice_rows_def wf_dataproto_def wf_columns_def)
  moreover have "(case batch dp of None \<Rightarrow> Inr None
        | Some td \<Rightarrow> rbind (slice_tensordict start stop None td) (\<lambda>td'. Inr (Some td')))
      = Inr (map_option (\<lambda>td. \<lparr>batch_size = length idxs, tensors = dict_map (\<lambda>v. select v idxs) (tensors td)\<rparr>) (batch dp))"
    using idxs by (cases "batch dp") (auto simp: slice_tensordict_def dp_len_Some)
  ultimately show ?thesis
    using dataproto_new_rows [OF wf, of "\<lambda>v. select v idxs" "length idxs" "\<lambda>v. select v idxs"]
    by (simp add: slice_dataproto_def)
qed

lemma slice_head:
  assumes "wf_dataproto dp" and "k \<le> dp_len dp"
  shows "slice_dataproto None (Some (int k)) None dp = Inr (with_rows k (take k) (take k) dp)"
proof -
  have "slice_dataproto None (Some (int k)) None dp
      = Inr (with_rows k (\<lambda>v. select v [0..<k]) (\<lambda>v. select v [0..<k]) dp)"
    using slice_rows_all [OF assms(1) slice_indices_head] assms(2) by (simp add: min_def)
  moreover have "with_rows k (\<lambda>v. select v [0..<k]) (\<lambda>v. select v [0..<k]) dp = with_rows k (take k) (take k) dp"
    using assms(2) by (intro with_rows_cong [OF assms(1)]) (simp_all add: select_upt_slice pyslice_def)
  ultimately show ?thesis by simp
qed

lemma select_clipped:
  assumes "length v = n"
  shows "select v [min a n..<min b n] = pyslice a b v"
proof -
  have "select v [min a n..<min b n] = pyslice (min a n) (min b n) v"
    using assms by (simp add: select_upt_slice)
  also have "\<dots> = pyslice a b v" using assms by (intro nth_equalityI) (auto simp: pyslice_def)
  finally show ?thesis .
qed

lemma slice_block:
  assumes "wf_dataproto dp"
  shows "slice_dataproto (Some (int a)) (Some (int b)) None dp
    = Inr (with_rows (min b (dp_len dp) - min a (dp_len dp)) (pyslice a b) (pyslice a b) dp)"
proof -
  let ?idxs = "[min a (dp_len dp)..<min b (dp_len dp)]"
  have "with_rows (length ?idxs) (\<lambda>v. select v ?idxs) (\<lambda>v. select v ?idxs) dp
      = with_rows (length ?idxs) (pyslice a b) (pyslice a b) dp"
    by (intro with_rows_cong [OF assms] select_clipped) auto
  then show ?thesis using slice_rows_all [OF assms slice_indices_block] by simp
qed

section \<open>Concatenation\<close>

lemma columns_dict_map:
  assumes "is \<noteq> []" and "dict_wf d"
  shows "list_of_dict_to_dict_of_list Inr (map (\<lambda>i. dict_map (g i) d) is)
    = Inr (dict_map (\<lambda>v. map (\<lambda>i. g i v) is) d)"
proof -
  have "list_of_dict_to_dict_of_list Inr (map (\<lambda>i. dict_map (g i) d) is)
      = Inr (map (\<lambda>l. (map fst d ! l, map (\<lambda>c. snd (c ! l)) (map (\<lambda>i. dict_map (g i) d) is)))
          [0..<length (map fst d)])"
    using assms by (intro columns_of_same_keys) (auto simp: dict_wf_def)
  also have "map (\<lambda>l. (map fst d ! l, map (\<lambda>c. snd (c ! l)) (map (\<lambda>i. dict_map (g i) d) is)))
        [0..<length (map fst d)] = dict_map (\<lambda>v. map (\<lambda>i. g i v) is) d"
    by (rule nth_equalityI) (auto simp: dict_map_def split_beta)
  finally show ?thesis .
qed

lemma cat_tensordicts_map:
  assumes "is \<noteq> []" and "dict_wf d"
  shows "cat_tensordicts (map (\<lambda>i. \<lparr>batch_size = n i, tensors = dict_map (f i) d\<rparr>) is)
    = Inr \<lparr>batch_size = sum_list (map n is), tensors = dict_map (\<lambda>v. concat (map (\<lambda>i. f i v) is)) d\<rparr>"
proof -
  let ?tds = "map (\<lambda>i. \<lparr>batch_size = n i, tensors = dict_map (f i) d\<rparr>) is"
  have keys: "map fst (tensors (hd ?tds)) = map fst d" using assms(1) by (cases "is") auto
  have "the (map_of (dict_map (f i) d) k) = f i v" if "(k, v) \<in> set d" for i k v
    using assms(2) that by (simp add: map_of_dict_map dict_wf_def)
  then have "map (\<lambda>k. (k, concat (map (\<lambda>td. the (map_of (tensors td) k)) ?tds))) (map fst d)
      = dict_map (\<lambda>v. concat (map (\<lambda>i. f i v) is)) d"
    by (auto simp: dict_map_def comp_def intro!: arg_cong [where f = concat])
  moreover have "\<forall>td\<in>set ?tds. set (map fst (tensors td)) = set (map fst d)"
  proof
    fix td
    assume "td \<in> set ?tds"
    then obtain i where "td = \<lparr>batch_size = n i, tensors = dict_map (f i) d\<rparr>" by auto
    then have "map fst (tensors td) = map fst d" by simp
    then show "set (map fst (tensors td)) = set (map fst d)" by (rule arg_cong)
  qed
  ultimately show ?thesis
    unfolding cat_tensordicts_def Let_def keys by (simp only: rcheck_True rbind.simps simp_thms) (simp add: comp_def)
qed

lemma merge_items_same:
  assumes "wf_meta mi" and "\<not> has_key mi ''metrics''" and "set items \<subseteq> set mi"
  shows "merge_items ms mi items = Inr (ms, mi)"
  using assms(3)
proof (induction items)
  case (Cons kv items)
  obtain k v where kv: "kv = (k, v)" by force
  with Cons.prems assms(1) have "map_of mi k = Some v" "py_wf v"
    by (auto simp: wf_meta_def dict_wf_def)
  moreover have "k \<noteq> ''metrics''" using assms(2) Cons.prems kv by (force simp: has_key_def)
  ultimately show ?case using Cons kv by (simp add: py_eq_refl)
qed simp

lemma merge_items_fresh:
  assumes "dict_wf (pre @ items)" and "\<not> has_key items ''metrics''"
  shows "merge_items ms pre items = Inr (ms, pre @ items)"
  using assms
proof (induction items arbitrary: pre)
  case (Cons kv items)
  obtain k v where kv: "kv = (k, v)" by force
  have fresh: "\<not> has_key pre k" "map_of pre k = None"
    using Cons.prems(1) kv by (auto simp: dict_wf_def has_key_def map_of_eq_None_iff)
  moreover have "merge_items ms (pre @ [(k, v)]) items = Inr (ms, (pre @ [(k, v)]) @ items)"
    using Cons.prems kv by (intro Cons.IH) (auto simp: has_key_def)
  moreover have "k \<noteq> ''metrics''" using Cons.prems(2) kv by (auto simp: has_key_def)
  ultimately show ?case using kv by (simp add: dict_set_new)
qed simp

lemma merge_metas_same:
  assumes "wf_meta mi" and "\<not> has_key mi ''metrics''" and "\<And>m. m \<in> set mis \<Longrightarrow> m = mi"
  shows "merge_metas ms mi mis = Inr (ms, mi)"
  using assms(3)
proof (induction mis)
  case (Cons m mis)
  then have "m = mi" by simp
  have "merge_items ms mi mi = Inr (ms, mi)" using merge_items_same [OF assms(1,2)] by simp
  moreover have "merge_metas ms mi mis = Inr (ms, mi)" using Cons by simp
  ultimately show ?case using \<open>m = mi\<close> by simp
qed simp

lemma merge_meta_info_same:
  assumes "wf_meta mi" and "\<not> has_key mi ''metrics''" and "mis \<noteq> []" and "\<And>m. m \<in> set mis \<Longrightarrow> m = mi"
  shows "merge_meta_info mis = Inr mi"
proof -
  obtain mis' where mis: "mis = mi # mis'" using assms(3,4) by (cases mis) auto
  have "merge_items [] [] mi = Inr ([], mi)"
    using merge_items_fresh [of "[]" mi "[]"] assms(1,2) by (simp add: wf_meta_def)
  moreover have "merge_metas [] mi mis' = Inr ([], mi)"
    using assms(4) mis by (intro merge_metas_same [OF assms(1,2)]) simp
  ultimately show ?thesis by (simp add: merge_meta_info_def mis)
qed

text \<open>Concatenating row-wise transformations of one container concatenates their rows.\<close>

lemma concat_with_rows:
  assumes wf: "wf_dataproto dp" and metrics: "\<not> has_key (meta_info dp) ''metrics''" and ne: "is \<noteq> []"
    and len: "\<And>i v. i \<in> set is \<Longrightarrow> length v = dp_len dp \<Longrightarrow> length (g i v) = n i"
  shows "concat_dataproto (map (\<lambda>i. with_rows (n i) (f i) (g i) dp) is)
    = Inr (with_rows (sum_list (map n is)) (\<lambda>v. concat (map (\<lambda>i. f i v) is))
        (\<lambda>v. concat (map (\<lambda>i. g i v) is)) dp)"
proof -
  let ?f = "\<lambda>v. concat (map (\<lambda>i. f i v) is)" and ?g = "\<lambda>v. concat (map (\<lambda>i. g i v) is)"
  let ?n = "sum_list (map n is)"
  let ?dps = "map (\<lambda>i. with_rows (n i) (f i) (g i) dp) is"
  have batches: "cat_batches (map batch ?dps)
      = Inr (map_option (\<lambda>td. \<lparr>batch_size = ?n, tensors = dict_map ?f (tensors td)\<rparr>) (batch dp))"
  proof (cases "batch dp")
    case None
    then show ?thesis using ne by (cases "is") (auto simp: cat_batches_def dp_simps)
  next
    case (Some td)
    let ?tds = "map (\<lambda>i. \<lparr>batch_size = n i, tensors = dict_map (f i) (tensors td)\<rparr>) is"
    have bs: "map batch ?dps = map Some ?tds" using Some by (simp add: dp_simps)
    have "rmap (\<lambda>b. case b of None \<Rightarrow> Inl TypeError | Some td \<Rightarrow> Inr td) (map Some ?tds) = Inr ?tds"
      by (simp add: rmap_eq_Inr comp_def)
    moreover have "cat_tensordicts ?tds = Inr \<lparr>batch_size = ?n, tensors = dict_map ?f (tensors td)\<rparr>"
      using wf Some by (intro cat_tensordicts_map [OF ne]) (simp add: wf_dataproto_def wf_columns_def)
    ultimately show ?thesis
      using ne unfolding bs cat_batches_def by (cases "is") (simp_all add: Some)
  qed
  have nts: "list_of_dict_to_dict_of_list Inr (map non_tensor_batch ?dps)
      = Inr (dict_map (\<lambda>v. map (\<lambda>i. g i v) is) (non_tensor_batch dp))"
    using columns_dict_map [OF ne, of "non_tensor_batch dp" g] wf
    by (simp add: dp_simps wf_dataproto_def wf_columns_def comp_def)
  have metas: "merge_meta_info (map meta_info ?dps) = Inr (meta_info dp)"
    using wf metrics ne by (intro merge_meta_info_same) (auto simp: wf_dataproto_def dp_simps)
  have "length (?g v) = ?n" if "length v = dp_len dp" for v
    using len that by (simp add: length_concat comp_def cong: map_cong)
  from dataproto_new_rows [OF wf, of ?g, OF this, of ?f]
  show ?thesis
    unfolding concat_dataproto_def batches nts metas by (simp add: dict_map_dict_map)
qed

section \<open>Chunks\<close>

lemma concat_take_blocks: "concat (take_blocks ns rows) = take (sum_list ns) rows"
  by (induction ns arbitrary: rows) (auto simp: take_add)

lemma length_take_blocks [simp]: "length (take_blocks ns rows) = length ns"
  by (induction ns arbitrary: rows) auto

lemma take_blocks_append:
  "take_blocks (ms @ ns) rows = take_blocks ms rows @ take_blocks ns (drop (sum_list ms) rows)"
  by (induction ms arbitrary: rows) (auto simp: add.commute)

lemma array_split_at_blocks:
  assumes "sizes \<noteq> []" and "length rows = sum_list sizes"
  shows "array_split_at sizes rows = take_blocks sizes rows"
proof -
  have "sizes = butlast sizes @ [last sizes]" using assms(1) by simp
  then have "take_blocks sizes rows
      = take_blocks (butlast sizes) rows @ [take (last sizes) (drop (sum_list (butlast sizes)) rows)]"
    and "sum_list sizes = sum_list (butlast sizes) + last sizes"
    using take_blocks_append [of "butlast sizes" "[last sizes]" rows]
    by (metis take_blocks.simps, metis sum_list.Cons sum_list.Nil sum_list_append add.right_neutral)
  then show ?thesis using assms(2) by (simp add: array_split_at_def)
qed

lemma length_take_blocks_nth:
  "i < length ns \<Longrightarrow> sum_list ns = length rows \<Longrightarrow> length (take_blocks ns rows ! i) = ns ! i"
proof (induction ns arbitrary: rows i)
  case (Cons n ns)
  then show ?case by (cases i) auto
qed simp

lemma length_even_block:
  "i < c \<Longrightarrow> length v = m * c \<Longrightarrow> length (take_blocks (replicate c m) v ! i) = m"
  using length_take_blocks_nth [of i "replicate c m" v] by (simp add: sum_list_replicate mult.commute)

lemma blocks_concat:
  assumes "length v = m * c"
  shows "concat (map (\<lambda>i. take_blocks (replicate c m) v ! i) [0..<c]) = v"
proof -
  have "map (\<lambda>i. take_blocks (replicate c m) v ! i) [0..<c] = take_blocks (replicate c m) v"
    by (rule nth_equalityI) simp_all
  then show ?thesis using assms by (simp add: concat_take_blocks sum_list_replicate mult.commute)
qed

text \<open>The \<open>i\<close>-th of \<open>c\<close> equal parts.\<close>

definition part :: "nat \<Rightarrow> nat \<Rightarrow> nat \<Rightarrow> ('r, 'o) dataproto \<Rightarrow> ('r, 'o) dataproto" where
  "part c m i dp =
     with_rows m (\<lambda>v. take_blocks (replicate c m) v ! i) (\<lambda>v. take_blocks (replicate c m) v ! i) dp"

lemma array_split_sizes_even: "0 < c \<Longrightarrow> array_split_sizes (m * c) c = replicate c m"
  by (rule nth_equalityI) (simp_all add: array_split_sizes_def)

lemma chunk_even:
  assumes wf: "wf_dataproto dp" and n: "dp_len dp = m * c" and c: "0 < c"
    and sizes: "\<And>td. batch dp = Some td \<Longrightarrow> chunk_sizes (m * c) c = Inr (replicate c m)"
  shows "chunk_dataproto chunk_sizes pad c dp = Inr (map (\<lambda>i. part c m i dp) [0..<c])"
proof -
  let ?sizes = "replicate c m"
  define bsz where "bsz = (case batch dp of None \<Rightarrow> None | Some td \<Rightarrow> Some ?sizes)"
  let ?part = "\<lambda>i td. \<lparr>batch_size = m, tensors = dict_map (\<lambda>v. take_blocks ?sizes v ! i) (tensors td)\<rparr>"
  have batches: "chunk_batch chunk_sizes c (batch dp) = Inr (map (\<lambda>i. map_option (?part i) (batch dp)) [0..<c], bsz)"
  proof (cases "batch dp")
    case (Some td)
    then have "batch_size td = m * c" using n by (simp add: dp_len_Some)
    with Some show ?thesis using sizes by (auto simp: chunk_batch_def bsz_def intro!: nth_equalityI)
  qed (auto simp: chunk_batch_def bsz_def map_replicate_const [symmetric] intro!: nth_equalityI)
  have len: "length v = m * c" if "(k, v) \<in> set (non_tensor_batch dp)" for k v
    using wf that n by (auto simp: wf_dataproto_def wf_columns_def)
  have col: "chunk_column bsz c v = Inr (take_blocks ?sizes v)" if "length v = m * c" for v :: "'b list"
    using that c n array_split_at_blocks [of ?sizes v]
    by (auto simp: chunk_column_def split_array_def bsz_def sum_list_replicate array_split_sizes_even mult.commute [of c m]
        split: option.splits)
  from dict_rmap_Inr [of "non_tensor_batch dp" "chunk_column bsz c" "take_blocks ?sizes"] len this
  have cols: "dict_rmap (chunk_column bsz c) (non_tensor_batch dp)
      = Inr (dict_map (take_blocks ?sizes) (non_tensor_batch dp))"
    by blast
  have "rmap (\<lambda>i. rbind (rcheck IndexError (i < length (map (\<lambda>i. map_option (?part i) (batch dp)) [0..<c]))) (\<lambda>_.
            dataproto_new (map (\<lambda>i. map_option (?part i) (batch dp)) [0..<c] ! i)
              (dict_map (\<lambda>parts. parts ! i) (dict_map (take_blocks ?sizes) (non_tensor_batch dp))) (meta_info dp)))
          [0..<c] = Inr (map (\<lambda>i. part c m i dp) [0..<c])"
  proof (rule rmap_Inr)
    fix i
    assume "i \<in> set [0..<c]"
    then have i: "i < c" by simp
    have "length (take_blocks ?sizes v ! i) = m" if "length v = dp_len dp" for v :: "'b list"
      using that i n by (simp add: length_even_block)
    from dataproto_new_rows [OF wf, of "\<lambda>v. take_blocks ?sizes v ! i", OF this, of "\<lambda>v. take_blocks ?sizes v ! i"]
    show "rbind (rcheck IndexError (i < length (map (\<lambda>i. map_option (?part i) (batch dp)) [0..<c]))) (\<lambda>_.
            dataproto_new (map (\<lambda>i. map_option (?part i) (batch dp)) [0..<c] ! i)
              (dict_map (\<lambda>parts. parts ! i) (dict_map (take_blocks ?sizes) (non_tensor_batch dp))) (meta_info dp))
        = Inr (part c m i dp)"
      using i by (simp add: dict_map_dict_map part_def)
  qed
  moreover have "(if is_padding_enabled pad dp then Inr ()
      else rbind (rcheck ZeroDivisionError (c \<noteq> 0)) (\<lambda>_. rassert (dp_len dp mod c = 0))) = Inr ()"
    using c n by simp
  ultimately show ?thesis unfolding chunk_dataproto_def batches by (simp add: cols)
qed

lemma concat_parts:
  assumes wf: "wf_dataproto dp" and n: "dp_len dp = m * c" and c: "0 < c"
    and metrics: "\<not> has_key (meta_info dp) ''metrics''"
  shows "concat_dataproto (map (\<lambda>i. part c m i dp) [0..<c]) = Inr dp"
proof -
  let ?b = "\<lambda>i v. take_blocks (replicate c m) v ! i"
  have "concat_dataproto (map (\<lambda>i. with_rows m (\<lambda>v. take_blocks (replicate c m) v ! i)
        (\<lambda>v. take_blocks (replicate c m) v ! i) dp) [0..<c])
    = Inr (with_rows (sum_list (map (\<lambda>_. m) [0..<c])) (\<lambda>v. concat (map (\<lambda>i. take_blocks (replicate c m) v ! i) [0..<c]))
        (\<lambda>v. concat (map (\<lambda>i. take_blocks (replicate c m) v ! i) [0..<c])) dp)"
    using n c by (intro concat_with_rows [OF wf metrics]) (auto intro!: length_even_block)
  also have "with_rows (sum_list (map (\<lambda>_. m) [0..<c])) (\<lambda>v. concat (map (\<lambda>i. take_blocks (replicate c m) v ! i) [0..<c]))
        (\<lambda>v. concat (map (\<lambda>i. take_blocks (replicate c m) v ! i) [0..<c])) dp
      = with_rows (dp_len dp) (\<lambda>v. v) (\<lambda>v. v) dp"
    unfolding n by (subst with_rows_cong [OF wf, where f' = "\<lambda>v. v" and g' = "\<lambda>v. v"])
      (auto simp: blocks_concat n sum_list_triv mult.commute [of c m])
  also have "\<dots> = dp" by (rule with_rows_id [OF wf])
  finally show ?thesis by (simp add: part_def)
qed

section \<open>Padding to a divisor\<close>

declare padding_sizes.simps [simp del]

definition cyclic :: "nat \<Rightarrow> 'r list \<Rightarrow> 'r list" where
  "cyclic m v = map (\<lambda>j. v ! (j mod length v)) [0..<m]"

lemma length_cyclic [simp]: "length (cyclic m v) = m"
  by (simp add: cyclic_def)

lemma take_as_cyclic: "k \<le> length v \<Longrightarrow> take k v = cyclic k v"
  by (rule nth_equalityI) (auto simp: cyclic_def)

lemma cyclic_append: "v \<noteq> [] \<Longrightarrow> v @ cyclic m v = cyclic (length v + m) v"
  by (rule nth_equalityI) (auto simp: cyclic_def nth_append le_mod_geq)

lemma padding_sizes_0 [simp]: "padding_sizes len 0 = []"
  by (simp add: padding_sizes.simps [of len 0])

lemma padding_sizes_last: "0 < m \<Longrightarrow> m \<le> len \<Longrightarrow> padding_sizes len m = [m]"
  by (simp add: padding_sizes.simps [of len m])

lemma padding_sizes_more: "0 < len \<Longrightarrow> len < m \<Longrightarrow> padding_sizes len m = len # padding_sizes len (m - len)"
  by (simp add: padding_sizes.simps [of len m] min_def Let_def)

lemma padding_sizes_bounds:
  "0 < len \<Longrightarrow> sum_list (padding_sizes len m) = m \<and> (\<forall>k\<in>set (padding_sizes len m). k \<le> len)"
proof (induction m rule: less_induct)
  case (less m)
  consider "m = 0" | "0 < m" "m \<le> len" | "len < m" by linarith
  then show ?case
  proof cases
    case 3
    then have split: "padding_sizes len m = len # padding_sizes len (m - len)"
      using less(2) by (intro padding_sizes_more)
    have "sum_list (padding_sizes len (m - len)) = m - len \<and> (\<forall>k\<in>set (padding_sizes len (m - len)). k \<le> len)"
      using less 3 by (intro less(1)) auto
    then show ?thesis using 3 unfolding split by auto
  qed (simp_all add: padding_sizes_last)
qed

lemma concat_padding:
  "v \<noteq> [] \<Longrightarrow> concat (map (\<lambda>k. take k v) (padding_sizes (length v) m)) = cyclic m v"
proof (induction m rule: less_induct)
  case (less m)
  consider "m = 0" | "0 < m" "m \<le> length v" | "length v < m" by linarith
  then show ?case
  proof cases
    case 3
    then have "concat (map (\<lambda>k. take k v) (padding_sizes (length v) m)) = v @ cyclic (m - length v) v"
      using less by (simp add: padding_sizes_more)
    then show ?thesis using less(2) 3 by (simp add: cyclic_append)
  qed (simp add: cyclic_def, simp add: padding_sizes_last take_as_cyclic)
qed

lemma padded_rows:
  assumes "length v = n" and "0 < n"
  shows "v @ concat (map (\<lambda>k. take k v) (padding_sizes n m)) = cyclic (n + m) v"
proof -
  have "v \<noteq> []" using assms by auto
  from concat_padding [OF this] cyclic_append [OF this] show ?thesis using assms(1) by metis
qed

lemma pad_dataproto:
  assumes wf: "wf_dataproto dp" and metrics: "\<not> has_key (meta_info dp) ''metrics''" and d: "0 < d"
  defines "k \<equiv> (if dp_len dp mod d = 0 then 0 else d - dp_len dp mod d)"
  shows "pad_dataproto_to_divisor d dp
    = Inr (with_rows (dp_len dp + k) (cyclic (dp_len dp + k)) (cyclic (dp_len dp + k)) dp, k)"
proof (cases "dp_len dp mod d = 0")
  case True
  have "with_rows (dp_len dp) (cyclic (dp_len dp)) (cyclic (dp_len dp)) dp = with_rows (dp_len dp) (\<lambda>v. v) (\<lambda>v. v) dp"
    by (intro with_rows_cong [OF wf]) (auto simp: take_as_cyclic [symmetric])
  then show ?thesis
    using True d with_rows_id [OF wf] by (simp add: pad_dataproto_to_divisor_def k_def)
next
  case False
  let ?n = "dp_len dp"
  let ?sizes = "padding_sizes ?n k"
  have n: "0 < ?n" using False by (cases "?n = 0") auto
  note sizes = padding_sizes_bounds [OF n, of k]
  have slices: "rmap (\<lambda>m. slice_dataproto None (Some (int m)) None dp) ?sizes
      = Inr (map (\<lambda>m. with_rows m (take m) (take m) dp) ?sizes)"
    using sizes by (intro rmap_Inr slice_head [OF wf]) auto
  have whole: "with_rows ?n (take ?n) (take ?n) dp = dp"
    using with_rows_cong [OF wf, of "take ?n" "\<lambda>v. v" "take ?n" "\<lambda>v. v" ?n] with_rows_id [OF wf] by simp
  have "concat_dataproto (map (\<lambda>m. with_rows m (take m) (take m) dp) (?n # ?sizes))
      = Inr (with_rows (sum_list (map (\<lambda>m. m) (?n # ?sizes))) (\<lambda>v. concat (map (\<lambda>m. take m v) (?n # ?sizes)))
          (\<lambda>v. concat (map (\<lambda>m. take m v) (?n # ?sizes))) dp)"
    using sizes by (intro concat_with_rows [OF wf metrics]) auto
  also have "with_rows (sum_list (map (\<lambda>m. m) (?n # ?sizes))) (\<lambda>v. concat (map (\<lambda>m. take m v) (?n # ?sizes)))
          (\<lambda>v. concat (map (\<lambda>m. take m v) (?n # ?sizes))) dp
      = with_rows (?n + k) (cyclic (?n + k)) (cyclic (?n + k)) dp"
    using n sizes by (auto intro!: with_rows_cong [OF wf] padded_rows)
  finally show ?thesis
    using False d slices whole by (simp add: pad_dataproto_to_divisor_def k_def)
qed

lemma unpad_cyclic:
  assumes wf: "wf_dataproto dp" and n: "k \<noteq> 0 \<Longrightarrow> 0 < dp_len dp"
  shows "unpad_dataproto (with_rows (dp_len dp + k) (cyclic (dp_len dp + k)) (cyclic (dp_len dp + k)) dp) k = Inr dp"
proof -
  let ?n = "dp_len dp" and ?m = "dp_len dp + k"
  let ?p = "with_rows ?m (cyclic ?m) (cyclic ?m) dp"
  have same: "with_rows ?n (cyclic ?n) (cyclic ?n) dp = dp"
    using with_rows_cong [OF wf, of "cyclic ?n" "\<lambda>v. v" "cyclic ?n" "\<lambda>v. v" ?n] with_rows_id [OF wf]
    by (simp add: take_as_cyclic [symmetric])
  show ?thesis
  proof (cases "k = 0")
    case True
    then show ?thesis using same by (simp add: unpad_dataproto_def)
  next
    case False
    have empty: "?m = 0" if "batch dp = None" "non_tensor_batch dp = []"
      using n [OF False] that by (simp add: dp_len_def)
    have wfp: "wf_dataproto ?p" by (rule wf_with_rows [OF wf]) (use empty in simp_all)
    have len: "dp_len ?p = ?m" by (rule dp_len_with_rows [OF wf]) (use empty in simp_all)
    have "slice_dataproto None (Some (- int k)) None ?p
        = Inr (with_rows ?n (\<lambda>v. select v [0..<?n]) (\<lambda>v. select v [0..<?n]) ?p)"
      using slice_rows_all [OF wfp slice_indices_drop_last] False by (simp add: len)
    also have "with_rows ?n (\<lambda>v. select v [0..<?n]) (\<lambda>v. select v [0..<?n]) ?p
        = with_rows ?n (\<lambda>v. select (cyclic ?m v) [0..<?n]) (\<lambda>v. select (cyclic ?m v) [0..<?n]) dp"
      by (rule with_rows_with_rows)
    also have "\<dots> = with_rows ?n (cyclic ?n) (cyclic ?n) dp"
      by (intro with_rows_cong [OF wf]) (auto simp: select_def cyclic_def intro!: nth_equalityI)
    also have "\<dots> = dp" by (rule same)
    finally show ?thesis using False by (simp add: unpad_dataproto_def)
  qed
qed

section \<open>Repeating\<close>

lemma length_repeat_rows: "length (repeat_rows interleave k v) = length v * k"
  by (induction v) (auto simp: repeat_rows_def repeat_interleave_def tile_def length_concat sum_list_replicate)

lemma nth_repeat_interleave:
  "i < length v * k \<Longrightarrow> repeat_interleave k v ! i = v ! (i div k)"
proof (induction v arbitrary: i)
  case (Cons x v)
  have k: "0 < k" using Cons.prems by (cases k) auto
  show ?case
  proof (cases "i < k")
    case False
    then have "i - k < length v * k" "i div k = Suc ((i - k) div k)"
      using Cons.prems k by (auto simp: le_div_geq not_less)
    then show ?thesis using Cons.IH [of "i - k"] False by (simp add: repeat_interleave_def nth_append)
  qed (simp add: repeat_interleave_def nth_append)
qed simp

lemma nth_tile: "i < k * length v \<Longrightarrow> tile k v ! i = v ! (i mod length v)"
proof (induction k arbitrary: i)
  case (Suc k)
  show ?case
  proof (cases "i < length v")
    case False
    then have "i - length v < k * length v" "i mod length v = (i - length v) mod length v"
      using Suc.prems by (auto simp: not_less le_mod_geq)
    then show ?thesis using Suc.IH [of "i - length v"] False by (simp add: tile_def nth_append)
  qed (simp add: tile_def nth_append)
qed simp

lemma tensordict_new_ok:
  "(\<And>k v. (k, v) \<in> set source \<Longrightarrow> length v = n) \<Longrightarrow> tensordict_new source n = Inr \<lparr>batch_size = n, tensors = source\<rparr>"
  by (auto simp: tensordict_new_def rcheck_def)

lemma repeat_dataproto_rows:
  assumes wf: "wf_dataproto dp"
  shows "repeat_dataproto k b dp = Inr (with_rows (dp_len dp * k) (repeat_rows b k) (repeat_rows b k) dp)"
proof -
  have "(case batch dp of None \<Rightarrow> Inr None
      | Some td \<Rightarrow> rbind (tensordict_new (dict_map (repeat_rows b k) (tensors td)) (batch_size td * k)) (\<lambda>td'. Inr (Some td')))
    = Inr (map_option (\<lambda>td. \<lparr>batch_size = dp_len dp * k, tensors = dict_map (repeat_rows b k) (tensors td)\<rparr>) (batch dp))"
  proof (cases "batch dp")
    case (Some td)
    have "length v = batch_size td * k" if kv: "(key, v) \<in> set (dict_map (repeat_rows b k) (tensors td))" for key v
    proof -
      from in_dict_mapD [OF kv] obtain u where "(key, u) \<in> set (tensors td)" "v = repeat_rows b k u" by blast
      then show ?thesis
        using wf Some by (auto simp: wf_dataproto_def length_repeat_rows dest: wf_columnsD)
    qed
    then show ?thesis using Some by (simp add: tensordict_new_ok dp_len_Some)
  qed simp
  then show ?thesis
    using dataproto_new_rows [OF wf, of "repeat_rows b k" "dp_len dp * k" "repeat_rows b k"]
    by (simp add: repeat_dataproto_def length_repeat_rows)
qed

section \<open>Preservation of well-formedness\<close>

lemma wf_dataproto_new:
  assumes "dataproto_new b nt mi = Inr r" and "wf_meta mi" and "wf_columns m nt"
    and "\<And>td. b = Some td \<Longrightarrow> wf_columns m (tensors td) \<and> batch_size td = m"
  shows "wf_dataproto r"
proof -
  have r: "r = \<lparr>batch = b, non_tensor_batch = nt, meta_info = mi\<rparr>"
    using assms(1) by (simp add: dataproto_new_def Let_def res_simps)
  have "wf_columns (dp_len r) nt"
    using assms(3,4) unfolding r dp_len_def wf_columns_def
    by (cases b; cases nt) (auto split: list.splits)
  then show ?thesis using assms(2,4) unfolding r wf_dataproto_def by (auto split: option.splits)
qed

lemma wf_columns_rmap:
  assumes "wf_columns n d" and "dict_rmap f d = Inr d'"
    and "\<And>v w. length v = n \<Longrightarrow> f v = Inr w \<Longrightarrow> length w = m"
  shows "wf_columns m d'"
proof -
  have "dict_wf d'" using assms(1) dict_rmap_keys [OF assms(2)] by (simp add: wf_columns_def dict_wf_def)
  moreover have "length w = m" if "(k, w) \<in> set d'" for k w
    using dict_rmap_in [OF assms(2) that] assms(1,3) by (auto dest: wf_columnsD)
  ultimately show ?thesis by (auto simp: wf_columns_def)
qed

lemma length_take_rows: "take_rows sel v = Inr w \<Longrightarrow> length w = selected_size sel"
proof (cases sel)
  case (Mask bs)
  have "length (filter snd (zip v bs)) = length (filter (\<lambda>b. b) bs)" if "length bs = length v"
    using that by (induction v bs rule: list_induct2') auto
  then show "take_rows sel v = Inr w \<Longrightarrow> length w = selected_size sel"
    using Mask by (auto simp: res_simps)
qed (auto dest: rmap_length)

lemma wf_select_idxs:
  assumes "wf_dataproto dp" and "select_idxs sel dp = Inr r"
  shows "wf_dataproto r"
proof -
  from assms(2) obtain b nt where
    b: "(case batch dp of None \<Rightarrow> Inr None
         | Some td \<Rightarrow> rbind (dict_rmap (take_rows sel) (tensors td)) (\<lambda>source.
             rbind (tensordict_new source (selected_size sel)) (\<lambda>td'. Inr (Some td')))) = Inr b"
    and nt: "dict_rmap (take_rows sel) (non_tensor_batch dp) = Inr nt"
    and r: "dataproto_new b nt (meta_info dp) = Inr r"
    unfolding select_idxs_def rbind_eq_Inr by blast
  show ?thesis
  proof (rule wf_dataproto_new [OF r])
    show "wf_meta (meta_info dp)" using assms(1) by (simp add: wf_dataproto_def)
    show "wf_columns (selected_size sel) nt"
      using assms(1) nt by (auto simp: wf_dataproto_def intro: wf_columns_rmap length_take_rows)
    show "wf_columns (selected_size sel) (tensors td) \<and> batch_size td = selected_size sel" if "b = Some td" for td
      using assms(1) b that
      by (auto simp: wf_dataproto_def tensordict_new_def res_simps split: option.splits
          intro: wf_columns_rmap length_take_rows)
  qed
qed

lemma wf_slice:
  assumes "wf_dataproto dp" and "slice_dataproto start stop None dp = Inr r"
  shows "wf_dataproto r"
proof -
  obtain idxs where idxs: "slice_indices start stop None (dp_len dp) = Inr idxs"
    by (simp add: slice_indices_def Let_def)
  have "idxs = []" if "dp_len dp = 0"
    using idxs that
    by (auto simp: slice_indices_def slice_start_def slice_stop_def clip_bound_def slice_count_def Let_def
        split: option.splits if_splits)
  then have "wf_dataproto (with_rows (length idxs) (\<lambda>v. select v idxs) (\<lambda>v. select v idxs) dp)"
    by (intro wf_with_rows [OF assms(1)]) (auto simp: dp_len_def)
  then show ?thesis using slice_rows_all [OF assms(1) idxs] assms(2) by simp
qed

lemma wf_repeat: "wf_dataproto dp \<Longrightarrow> repeat_dataproto k b dp = Inr r \<Longrightarrow> wf_dataproto r"
  using wf_with_rows [of dp "repeat_rows b k" "dp_len dp * k" "repeat_rows b k"]
  by (simp add: repeat_dataproto_rows length_repeat_rows) (auto simp: dp_len_def)

lemma wf_columns_set: "wf_columns n d \<Longrightarrow> length v = n \<Longrightarrow> wf_columns n (dict_set d k v)"
proof -
  assume wf: "wf_columns n d" and len: "length v = n"
  have "set (dict_set d k v) \<subseteq> insert (k, v) (set d)"
    by (induction d) (auto simp: dict_set_def)
  with wf len show ?thesis by (auto simp: wf_columns_def dict_wf_set)
qed

lemma wf_union_tensors:
  "union_tensors d1 d2 = Inr d \<Longrightarrow> wf_columns n d1 \<Longrightarrow> \<forall>(k, v)\<in>set d2. length v = n \<Longrightarrow> wf_columns n d"
  by (induction d1 d2 rule: union_tensors.induct)
    (auto simp: res_simps split: option.splits intro: wf_columns_set)

lemma wf_union_numpy:
  "union_numpy_dict eq d1 d2 = Inr d \<Longrightarrow> wf_columns n d1 \<Longrightarrow> \<forall>(k, v)\<in>set d2. length v = n \<Longrightarrow> wf_columns n d"
  by (induction eq d1 d2 rule: union_numpy_dict.induct)
    (auto simp: res_simps intro: wf_columns_set)

lemma wf_union_two:
  "union_two_dict d1 d2 = Inr d \<Longrightarrow> wf_meta d1 \<Longrightarrow> \<forall>(k, v)\<in>set d2. py_wf v \<Longrightarrow> wf_meta d"
proof (induction d1 d2 rule: union_two_dict.induct)
  case (2 d1 key val rest)
  have "set (dict_set d1 key val) \<subseteq> insert (key, val) (set d1)"
    by (induction d1) (auto simp: dict_set_def)
  with 2 have "wf_meta (dict_set d1 key val)" by (auto simp: wf_meta_def dict_wf_set)
  with 2 show ?case by (auto simp: res_simps)
qed simp

lemma wf_union:
  assumes "wf_dataproto dp" and "wf_dataproto other" and "union_dataproto eq dp other = Inr r"
  shows "wf_dataproto r"
proof -
  from assms(3) obtain td1 td2 ts nt mi where
    td: "batch dp = Some td1" "batch other = Some td2" "batch_size td1 = batch_size td2"
    and ts: "union_tensors (tensors td1) (tensors td2) = Inr ts"
    and nt: "union_numpy_dict eq (non_tensor_batch dp) (non_tensor_batch other) = Inr nt"
    and mi: "union_two_dict (meta_info dp) (meta_info other) = Inr mi"
    and r: "r = \<lparr>batch = Some (td1\<lparr>tensors := ts\<rparr>), non_tensor_batch = nt, meta_info = mi\<rparr>"
    by (auto simp: union_dataproto_def union_tensor_dict_def res_simps split: option.splits)
  have w: "wf_columns (batch_size td1) (tensors td1)" "wf_columns (batch_size td1) (tensors td2)"
    "wf_columns (batch_size td1) (non_tensor_batch dp)" "wf_columns (batch_size td1) (non_tensor_batch other)"
    "wf_meta (meta_info dp)" "wf_meta (meta_info other)"
    using assms(1,2) td by (auto simp: wf_dataproto_def dp_len_Some)
  have "wf_columns (batch_size td1) ts" "wf_columns (batch_size td1) nt" "wf_meta mi"
    using w(2,4,6) wf_union_tensors [OF ts w(1)] wf_union_numpy [OF nt w(3)] wf_union_two [OF mi w(5)]
    by (simp_all add: wf_columns_def wf_meta_def)
  then show ?thesis by (simp add: r wf_dataproto_def dp_len_def)
qed

section \<open>Folding and collating\<close>

lemma concat_fold_rows: "length v mod n = 0 \<Longrightarrow> concat (fold_rows n v) = v"
  by (auto simp: fold_rows_def concat_take_blocks sum_list_replicate)

lemma fold_batch_dim_rows:
  assumes wf: "wf_dataproto dp" and td: "batch dp = Some td" and n: "0 < n" "dp_len dp mod n = 0"
  shows "fold_batch_dim n dp = Inr (with_rows n (fold_rows n) (fold_rows n) dp,
    \<lparr>batch = Some td, non_tensor_batch = dict_map (fold_rows n) (non_tensor_batch dp), meta_info = meta_info dp\<rparr>)"
proof -
  have "dict_rmap (\<lambda>val. rbind (rcheck ValueError (length val mod n = 0)) (\<lambda>_. Inr (fold_rows n val))) (non_tensor_batch dp)
      = Inr (dict_map (fold_rows n) (non_tensor_batch dp))"
    using wf n by (intro dict_rmap_Inr) (auto simp: wf_dataproto_def wf_columns_def)
  then show ?thesis
    using td n dataproto_new_rows [OF wf, of "fold_rows n" n "fold_rows n"]
    by (simp add: fold_batch_dim_def dp_len_Some fold_rows_def)
qed

lemma unfold_fold:
  assumes wf: "wf_dataproto dp" and td: "batch dp = Some td" "tensors td \<noteq> []" and n: "dp_len dp mod n = 0"
  shows "unfold_batch_dim (with_rows n (fold_rows n) (fold_rows n) dp) = Inr dp"
proof -
  obtain key v rest where ts: "tensors td = (key, v) # rest" using td(2) by (cases "tensors td") auto
  have len: "length v = dp_len dp" using wf td ts by (auto simp: wf_dataproto_def dp_len_Some wf_columns_def)
  let ?p = "with_rows n (fold_rows n) (fold_rows n) dp"
  have "(case tensors \<lparr>batch_size = n, tensors = dict_map (fold_rows n) (tensors td)\<rparr> of
      [] \<Rightarrow> n | (_, v) # _ \<Rightarrow> length (concat v)) = dp_len dp"
    using len n by (simp add: ts concat_fold_rows)
  moreover have "\<forall>(k, w) \<in> set (dict_map (fold_rows n) (non_tensor_batch dp)). length (concat w) = dp_len dp"
    using wf n by (auto simp: wf_dataproto_def wf_columns_def concat_fold_rows dest!: in_dict_mapD)
  moreover have "dict_map concat (dict_map (fold_rows n) (tensors td)) = dict_map (\<lambda>v. v) (tensors td)"
    using wf td n unfolding dict_map_dict_map
    by (intro dict_map_cong) (auto simp: wf_dataproto_def wf_columns_def dp_len_Some concat_fold_rows)
  moreover have "dict_map concat (dict_map (fold_rows n) (non_tensor_batch dp)) = dict_map (\<lambda>v. v) (non_tensor_batch dp)"
    using wf n unfolding dict_map_dict_map
    by (intro dict_map_cong) (auto simp: wf_dataproto_def wf_columns_def concat_fold_rows)
  ultimately show ?thesis
    using td dataproto_new_rows [OF wf, of "\<lambda>v. v" "dp_len dp" "\<lambda>v. v"] with_rows_id [OF wf]
    by (simp add: unfold_batch_dim_def dp_simps Let_def ts len n concat_fold_rows)
qed

lemma all_rows: "length v = n \<Longrightarrow> map ((!) v) [0..<n] = v"
  by (rule nth_equalityI) simp_all

lemma stack_rows:
  assumes "wf_columns n d" and "0 < n"
  shows "stack_items (map (\<lambda>i. dict_map (\<lambda>rows. rows ! i) d) [0..<n]) = Inr \<lparr>batch_size = n, tensors = d\<rparr>"
proof -
  let ?items = "map (\<lambda>i. dict_map (\<lambda>rows. rows ! i) d) [0..<n]"
  obtain n' where n': "n = Suc n'" using assms(2) by (cases n) auto
  have hd: "?items = dict_map (\<lambda>rows. rows ! 0) d # map (\<lambda>i. dict_map (\<lambda>rows. rows ! i) d) [1..<n]"
    unfolding n' by (simp add: upt_conv_Cons del: upt_Suc)
  have keys: "\<forall>item\<in>set ?items. set (map fst item) = set (map fst (dict_map (\<lambda>rows. rows ! 0) d))"
  proof
    fix it
    assume "it \<in> set ?items"
    then obtain i where "it = dict_map (\<lambda>rows. rows ! i) d" by auto
    then show "set (map fst it) = set (map fst (dict_map (\<lambda>rows. rows ! 0) d))"
      by (simp del: list.set_map set_map)
  qed
  have "map (\<lambda>(k, _). (k, map (\<lambda>item. the (map_of item k)) ?items)) (dict_map (\<lambda>rows. rows ! 0) d) = d"
  proof (rule nth_equalityI)
    fix j
    assume "j < length (map (\<lambda>(k, _). (k, map (\<lambda>item. the (map_of item k)) ?items)) (dict_map (\<lambda>rows. rows ! 0) d))"
    then have j: "j < length d" by simp
    obtain k v where kv: "d ! j = (k, v)" by force
    with j have "(k, v) \<in> set d" by (metis nth_mem)
    then have "map_of d k = Some v" "length v = n" using assms(1) by (auto simp: wf_columns_def dict_wf_def)
    with j kv show "map (\<lambda>(k, _). (k, map (\<lambda>item. the (map_of item k)) ?items)) (dict_map (\<lambda>rows. rows ! 0) d) ! j = d ! j"
      by (auto simp: dict_map_def [of "\<lambda>rows. rows ! 0"] map_of_dict_map comp_def map_nth split_beta)
  qed simp
  then show ?thesis using keys unfolding stack_items_def by (subst hd) (simp add: hd [symmetric])
qed

lemma collate_items:
  assumes wf: "wf_dataproto dp" and td: "batch dp = Some td" and n: "0 < dp_len dp"
    and items: "rmap (\<lambda>i. get_item (int i) dp) [0..<dp_len dp] = Inr xs"
  shows "collate_fn xs = Inr (dp\<lparr>meta_info := []\<rparr>)"
proof -
  let ?n = "dp_len dp"
  define item where "item i = \<lparr>item_batch = Some (dict_map (\<lambda>rows. rows ! i) (tensors td)),
    item_non_tensor_batch = dict_map (\<lambda>rows. rows ! i) (non_tensor_batch dp), item_meta_info = meta_info dp\<rparr>" for i
  have "get_item (int i) dp = Inr (item i)" if "i < ?n" for i
  proof -
    have "dict_rmap (\<lambda>val. rbind (py_index (length val) (int i)) (\<lambda>i. Inr (val ! i))) (non_tensor_batch dp)
        = Inr (dict_map (\<lambda>rows. rows ! i) (non_tensor_batch dp))"
      using wf that by (intro dict_rmap_Inr) (auto simp: py_index_def wf_dataproto_def wf_columns_def)
    with td that show ?thesis
      by (simp add: get_item_def py_index_def item_def dp_len_Some [symmetric, OF td])
  qed
  then have "rmap (\<lambda>i. get_item (int i) dp) [0..<?n] = Inr (map item [0..<?n])" by (intro rmap_Inr) simp
  with items have xs: "xs = map item [0..<?n]" by simp
  have "rmap (\<lambda>d. case item_batch d of None \<Rightarrow> Inl TypeError | Some b \<Rightarrow> Inr b) xs
      = Inr (map (\<lambda>i. dict_map (\<lambda>rows. rows ! i) (tensors td)) [0..<?n])"
    unfolding xs by (simp add: rmap_eq_Inr item_def)
  moreover have "stack_items (map (\<lambda>i. dict_map (\<lambda>rows. rows ! i) (tensors td)) [0..<?n])
      = Inr \<lparr>batch_size = ?n, tensors = tensors td\<rparr>"
    using wf td n by (intro stack_rows) (auto simp: wf_dataproto_def dp_len_Some)
  moreover have "list_of_dict_to_dict_of_list Inr (map item_non_tensor_batch xs) = Inr (non_tensor_batch dp)"
  proof -
    have "map item_non_tensor_batch xs = map (\<lambda>i. dict_map (\<lambda>rows. rows ! i) (non_tensor_batch dp)) [0..<?n]"
      by (simp add: xs item_def)
    moreover have "dict_map (\<lambda>v. map ((!) v) [0..<?n]) (non_tensor_batch dp) = non_tensor_batch dp"
      using wf by (intro dict_map_id all_rows) (auto simp: wf_dataproto_def wf_columns_def)
    ultimately show ?thesis
      using columns_dict_map [of "[0..<?n]" "non_tensor_batch dp" "\<lambda>i rows. rows ! i"] wf n
      by (simp add: wf_dataproto_def wf_columns_def)
  qed
  moreover have "dataproto_new (Some \<lparr>batch_size = ?n, tensors = tensors td\<rparr>) (non_tensor_batch dp) []
      = Inr (dp\<lparr>meta_info := []\<rparr>)"
    using wf td by (auto simp: dataproto_new_def check_consistency_def wf_dataproto_def wf_columns_def dp_len_Some rassert_def)
  ultimately show ?thesis by (simp add: collate_fn_def)
qed

section \<open>Properties\<close>

text \<open>A container used in the concrete instances below.\<close>

definition demo_data :: "pyobj pydict \<Rightarrow> (int, string) dataproto" where
  "demo_data mi = \<lparr>batch = Some \<lparr>batch_size = 3, tensors = [(''ids'', [1, 2, 3]), (''len'', [7, 8, 9])]\<rparr>,
     non_tensor_batch = [(''uid'', [''a'', ''b'', ''c''])], meta_info = mi\<rparr>"

definition even_chunks :: "nat \<Rightarrow> nat \<Rightarrow> nat list res" where
  "even_chunks n c = Inr (replicate c (n div c))"

lemma wf_demo_data: "wf_meta mi \<Longrightarrow> wf_dataproto (demo_data mi)"
  by (simp add: demo_data_def wf_dataproto_def wf_columns_def dict_wf_def dp_len_def)

text \<open>C24: The dispatch cycle of a worker group loses nothing: a well-formed container (without
  metrics in its \<open>meta_info\<close>) of any size can be padded to the number of workers, the padded
  container splits into that many chunks of equal size, and concatenating the chunks and removing
  the padding gives back the container exactly. \<open>TensorDict.chunk\<close> is a parameter of which only
  the division into equal parts is used.\<close>

theorem pad_chunk_concat_unpad:
  assumes "wf_dataproto dp" and "\<not> has_key (meta_info dp) ''metrics''" and "0 < d"
    and "\<forall>m. chunk_sizes (m * d) d = Inr (replicate d m)"
  shows "\<exists>padded k chunks. pad_dataproto_to_divisor d dp = Inr (padded, k) \<and> k < d
    \<and> chunk_dataproto chunk_sizes config d padded = Inr chunks
    \<and> length chunks = d \<and> (\<forall>c\<in>set chunks. wf_dataproto c \<and> dp_len c * d = dp_len padded)
    \<and> concat_dataproto chunks = Inr padded
    \<and> unpad_dataproto padded k = Inr dp"
proof -
  define k where "k = (if dp_len dp mod d = 0 then 0 else d - dp_len dp mod d)"
  let ?m = "dp_len dp + k"
  define p where "p = with_rows ?m (cyclic ?m) (cyclic ?m) dp"
  have kd: "k < d" using assms(3) by (auto simp: k_def)
  have k0: "k \<noteq> 0 \<Longrightarrow> 0 < dp_len dp" by (cases "dp_len dp = 0") (auto simp: k_def)
  have empty: "?m = 0" if "batch dp = None" "non_tensor_batch dp = []"
    using k0 that by (auto simp: dp_len_def)
  have wfp: "wf_dataproto p" unfolding p_def by (rule wf_with_rows [OF assms(1)]) (use empty in simp_all)
  have len: "dp_len p = ?m" unfolding p_def by (rule dp_len_with_rows [OF assms(1)]) (use empty in simp_all)
  have "d dvd ?m"
    using mod_less_divisor [OF assms(3), of "dp_len dp"]
    by (auto simp: k_def mod_eq_0_iff_dvd) (metis dvd_refl dvd_minus_mod dvd_add_right_iff
        le_add_diff_inverse2 less_imp_le_nat mod_less_eq_dividend Nat.add_diff_assoc add.commute)
  then obtain m where m: "dp_len p = m * d" using len by (metis dvdE mult.commute)
  have metp: "\<not> has_key (meta_info p) ''metrics''" using assms(2) by (simp add: p_def dp_simps)
  have chunks: "chunk_dataproto chunk_sizes config d p = Inr (map (\<lambda>i. part d m i p) [0..<d])"
    using assms(4) by (intro chunk_even [OF wfp m assms(3)]) simp
  have parts: "wf_dataproto (part d m i p) \<and> dp_len (part d m i p) * d = dp_len p" if "i < d" for i
  proof -
    have none: "m = 0" if "batch p = None" "non_tensor_batch p = []"
      using that m assms(3) by (simp add: dp_len_def)
    have "wf_dataproto (part d m i p)" unfolding part_def
      by (rule wf_with_rows [OF wfp]) (use none m that length_even_block in auto)
    moreover have "dp_len (part d m i p) = m" unfolding part_def
      by (rule dp_len_with_rows [OF wfp]) (use none m that length_even_block in auto)
    ultimately show ?thesis using m by simp
  qed
  have "pad_dataproto_to_divisor d dp = Inr (p, k)"
    unfolding p_def k_def by (rule pad_dataproto [OF assms(1-3)])
  moreover have "unpad_dataproto p k = Inr dp" unfolding p_def by (rule unpad_cyclic [OF assms(1) k0])
  ultimately show ?thesis
    using kd chunks parts concat_parts [OF wfp m assms(3) metp] by auto
qed

theorem pad_chunk_concat_unpad_witness:
  "\<exists>padded k chunks. pad_dataproto_to_divisor 2 (demo_data []) = Inr (padded, k) \<and> k < 2
    \<and> chunk_dataproto even_chunks False 2 padded = Inr chunks
    \<and> length chunks = 2 \<and> (\<forall>c\<in>set chunks. wf_dataproto c \<and> dp_len c * 2 = dp_len padded)
    \<and> concat_dataproto chunks = Inr padded
    \<and> unpad_dataproto padded k = Inr (demo_data [])"
  by (rule pad_chunk_concat_unpad)
    (simp_all add: wf_demo_data wf_meta_def dict_wf_def even_chunks_def, simp add: demo_data_def has_key_def)

text \<open>Well-formedness (distinct keys, every column of the batch's length, \<open>meta_info\<close> with
  distinct keys) is an invariant of the container: slicing, selecting rows by indices or by mask,
  repeating, and the union with another well-formed container all preserve it whenever they
  return.\<close>

theorem operations_preserve_wf:
  assumes "wf_dataproto dp" and "wf_dataproto other"
  shows "(\<forall>r. slice_dataproto start stop None dp = Inr r \<longrightarrow> wf_dataproto r)
    \<and> (\<forall>r. select_idxs sel dp = Inr r \<longrightarrow> wf_dataproto r)
    \<and> (\<forall>r. repeat_dataproto k interleave dp = Inr r \<longrightarrow> wf_dataproto r)
    \<and> (\<forall>r. union_dataproto eq dp other = Inr r \<longrightarrow> wf_dataproto r)"
  using wf_slice [OF assms(1)] wf_select_idxs [OF assms(1)] wf_repeat [OF assms(1)] wf_union [OF assms]
  by blast

theorem operations_preserve_wf_witness:
  "\<exists>r1 r2 r3 r4. slice_dataproto None (Some (-1)) None (demo_data []) = Inr r1 \<and> wf_dataproto r1
    \<and> select_idxs (Mask [True, False, True]) (demo_data []) = Inr r2 \<and> wf_dataproto r2
    \<and> repeat_dataproto 2 True (demo_data []) = Inr r3 \<and> wf_dataproto r3
    \<and> union_dataproto (=) (demo_data []) (demo_data []) = Inr r4 \<and> wf_dataproto r4"
proof -
  have wf: "wf_dataproto (demo_data [])" by (simp add: wf_demo_data wf_meta_def dict_wf_def)
  have "slice_dataproto None (Some (-1)) None (demo_data []) = Inr
      \<lparr>batch = Some \<lparr>batch_size = 2, tensors = [(''ids'', [1, 2]), (''len'', [7, 8])]\<rparr>,
       non_tensor_batch = [(''uid'', [''a'', ''b''])], meta_info = []\<rparr>" by code_simp
  moreover have "select_idxs (Mask [True, False, True]) (demo_data []) = Inr
      \<lparr>batch = Some \<lparr>batch_size = 2, tensors = [(''ids'', [1, 3]), (''len'', [7, 9])]\<rparr>,
       non_tensor_batch = [(''uid'', [''a'', ''c''])], meta_info = []\<rparr>" by code_simp
  moreover obtain r3 where "repeat_dataproto 2 True (demo_data []) = Inr r3"
    using repeat_dataproto_rows [OF wf] by blast
  moreover have "union_dataproto (=) (demo_data []) (demo_data []) = Inr (demo_data [])" by code_simp
  ultimately show ?thesis
    using operations_preserve_wf [OF wf wf, of None "Some (-1)" "Mask [True, False, True]" 2 True "(=)"] by blast
qed

text \<open>Repeating a well-formed batch of \<open>n\<close> rows \<open>k\<close> times succeeds and gives \<open>n * k\<close> rows: row \<open>i\<close>
  of every tensor is row \<open>i div k\<close> of the original when interleaving and row \<open>i mod n\<close> otherwise.\<close>

theorem repeat_rows_correct:
  assumes "wf_dataproto dp" and "batch dp = Some td"
  shows "\<exists>r td'. repeat_dataproto k interleave dp = Inr r \<and> batch r = Some td'
    \<and> batch_size td' = batch_size td * k
    \<and> (\<forall>key v. (key, v) \<in> set (tensors td) \<longrightarrow> (\<exists>w. (key, w) \<in> set (tensors td') \<and> length w = length v * k
        \<and> (\<forall>i<length w. w ! i = v ! (if interleave then i div k else i mod length v))))"
proof -
  have row: "repeat_rows interleave k v ! i = v ! (if interleave then i div k else i mod length v)"
    if "i < length (repeat_rows interleave k v)" for v :: "'a list" and i
    using that nth_repeat_interleave [of i v k] nth_tile [of i k v]
    by (simp add: length_repeat_rows) (simp add: repeat_rows_def mult.commute)
  let ?td = "\<lparr>batch_size = batch_size td * k, tensors = dict_map (repeat_rows interleave k) (tensors td)\<rparr>"
  have "batch (with_rows (dp_len dp * k) (repeat_rows interleave k) (repeat_rows interleave k) dp) = Some ?td"
    using assms(2) by (simp add: dp_simps dp_len_Some)
  moreover have "(key, repeat_rows interleave k v) \<in> set (tensors ?td)" if "(key, v) \<in> set (tensors td)" for key v
    using that by (force simp: set_dict_map)
  ultimately show ?thesis
    using repeat_dataproto_rows [OF assms(1), of k interleave] row length_repeat_rows
    by (metis select_convs(1) tensordict.select_convs(1))
qed

theorem repeat_rows_correct_witness:
  "\<exists>r td'. repeat_dataproto 2 False (demo_data []) = Inr r \<and> batch r = Some td'
    \<and> batch_size td' = batch_size (the (batch (demo_data []))) * 2
    \<and> (\<forall>key v. (key, v) \<in> set (tensors (the (batch (demo_data [])))) \<longrightarrow> (\<exists>w. (key, w) \<in> set (tensors td')
        \<and> length w = length v * 2 \<and> (\<forall>i<length w. w ! i = v ! (if False then i div 2 else i mod length v))))"
  by (rule repeat_rows_correct)
    (simp_all add: wf_demo_data wf_meta_def dict_wf_def, simp add: demo_data_def)

lemma map_of_union_tensors:
  "union_tensors d1 d2 = Inr d \<Longrightarrow> map_of d k = (case map_of d1 k of Some v \<Rightarrow> Some v | None \<Rightarrow> map_of d2 k)
    \<and> (\<forall>v w. dict_wf d2 \<longrightarrow> map_of d1 k = Some v \<longrightarrow> map_of d2 k = Some w \<longrightarrow> v = w)"
proof (induction d1 d2 rule: union_tensors.induct)
  case (2 d1 key val rest)
  show ?case
  proof (cases "map_of d1 key")
    case None
    have fresh: "dict_wf ((key, val) # rest) \<Longrightarrow> map_of rest key = None"
      by (simp add: dict_wf_def map_of_eq_None_iff)
    have ih: "map_of d k = (case map_of (dict_set d1 key val) k of Some v \<Rightarrow> Some v | None \<Rightarrow> map_of rest k)
      \<and> (\<forall>v w. dict_wf rest \<longrightarrow> map_of (dict_set d1 key val) k = Some v \<longrightarrow> map_of rest k = Some w \<longrightarrow> v = w)"
      using 2(1) [OF None] 2(3) None by simp
    then show ?thesis
      using None fresh by (cases "k = key"; cases "map_of d1 k") (simp_all add: map_of_dict_set dict_wf_def)
  next
    case (Some old)
    have old: "old = val" and rest: "union_tensors d1 rest = Inr d"
      using 2(3) Some by (auto simp: res_simps)
    have ih: "map_of d k = (case map_of d1 k of Some v \<Rightarrow> Some v | None \<Rightarrow> map_of rest k)
      \<and> (\<forall>v w. dict_wf rest \<longrightarrow> map_of d1 k = Some v \<longrightarrow> map_of rest k = Some w \<longrightarrow> v = w)"
      using 2(2) [OF Some _ rest] old by simp
    then show ?thesis
      using Some old by (cases "k = key"; cases "map_of d1 k") (simp_all add: dict_wf_def)
  qed
qed (simp split: option.splits)

text \<open>A union of two containers that returns has every tensor of either: its tensors are the
  first container's, extended by the keys only the second has, the batch size is unchanged and equal
  in both, and a key present in both has equal tensors in both (otherwise the union raises).\<close>

theorem union_has_both:
  assumes "wf_dataproto other" and "union_dataproto eq dp other = Inr r"
  shows "\<exists>t1 t2 t. batch dp = Some t1 \<and> batch other = Some t2 \<and> batch r = Some t
    \<and> batch_size t1 = batch_size t2 \<and> batch_size t = batch_size t1
    \<and> (\<forall>k. map_of (tensors t) k = (case map_of (tensors t1) k of Some v \<Rightarrow> Some v | None \<Rightarrow> map_of (tensors t2) k))
    \<and> (\<forall>k v w. map_of (tensors t1) k = Some v \<longrightarrow> map_of (tensors t2) k = Some w \<longrightarrow> v = w)"
proof -
  from assms(2) obtain t1 t2 ts where
    td: "batch dp = Some t1" "batch other = Some t2" "batch_size t1 = batch_size t2"
    and ts: "union_tensors (tensors t1) (tensors t2) = Inr ts" and r: "batch r = Some (t1\<lparr>tensors := ts\<rparr>)"
    by (auto simp: union_dataproto_def union_tensor_dict_def res_simps split: option.splits)
  have "dict_wf (tensors t2)" using assms(1) td(2) by (simp add: wf_dataproto_def wf_columns_def)
  then show ?thesis using td r map_of_union_tensors [OF ts] by auto
qed

theorem union_has_both_witness:
  "\<exists>r. union_dataproto (=) (demo_data []) (demo_data []) = Inr r
    \<and> (\<exists>t1 t2 t. batch (demo_data []) = Some t1 \<and> batch (demo_data []) = Some t2 \<and> batch r = Some t
    \<and> batch_size t1 = batch_size t2 \<and> batch_size t = batch_size t1
    \<and> (\<forall>k. map_of (tensors t) k = (case map_of (tensors t1) k of Some v \<Rightarrow> Some v | None \<Rightarrow> map_of (tensors t2) k))
    \<and> (\<forall>k v w. map_of (tensors t1) k = Some v \<longrightarrow> map_of (tensors t2) k = Some w \<longrightarrow> v = w))"
proof -
  have run: "union_dataproto (=) (demo_data []) (demo_data []) = Inr (demo_data [])"
    by (simp add: demo_data_def union_dataproto_def union_tensor_dict_def dict_set_def)
  have "wf_dataproto (demo_data [])" by (simp add: wf_demo_data wf_meta_def dict_wf_def)
  from union_has_both [OF this run] run show ?thesis by blast
qed

text \<open>Taking the rows of a well-formed batch one by one and collating them gives the batch back
  (the \<open>meta_info\<close> is not part of the items that are collated).\<close>

theorem collate_inverts_indexing:
  assumes "wf_dataproto dp" and "batch dp = Some td" and "0 < dp_len dp"
  shows "\<exists>items. rmap (\<lambda>i. get_item (int i) dp) [0..<dp_len dp] = Inr items
    \<and> length items = dp_len dp \<and> collate_fn items = Inr (dp\<lparr>meta_info := []\<rparr>)"
proof -
  have "\<exists>x. get_item (int i) dp = Inr x" if "i < dp_len dp" for i
  proof -
    have "dict_rmap (\<lambda>val. rbind (py_index (length val) (int i)) (\<lambda>i. Inr (val ! i))) (non_tensor_batch dp)
        = Inr (dict_map (\<lambda>rows. rows ! i) (non_tensor_batch dp))"
      using assms(1) that by (intro dict_rmap_Inr) (auto simp: py_index_def wf_dataproto_def wf_columns_def)
    with assms(2) that show ?thesis by (simp add: get_item_def py_index_def dp_len_Some)
  qed
  then obtain g where "get_item (int i) dp = Inr (g i)" if "i < dp_len dp" for i by metis
  then have "rmap (\<lambda>i. get_item (int i) dp) [0..<dp_len dp] = Inr (map g [0..<dp_len dp])"
    by (intro rmap_Inr) simp
  then show ?thesis using collate_items [OF assms] by auto
qed

theorem collate_inverts_indexing_witness:
  "\<exists>items. rmap (\<lambda>i. get_item (int i) (demo_data [])) [0..<dp_len (demo_data [])] = Inr items
    \<and> length items = dp_len (demo_data []) \<and> collate_fn items = Inr ((demo_data [])\<lparr>meta_info := []\<rparr>)"
proof -
  have "wf_dataproto (demo_data [])" by (simp add: wf_demo_data wf_meta_def dict_wf_def)
  moreover obtain td where "batch (demo_data []) = Some td" by (simp add: demo_data_def)
  moreover have "0 < dp_len (demo_data [])" by (simp add: demo_data_def dp_len_def)
  ultimately show ?thesis by (rule collate_inverts_indexing)
qed

text \<open>Folding the batch dimension and unfolding it again is the identity; but folding a batch
  with arrays overwrites the argument's own arrays with the reshaped ones, so that unless the fold
  is trivial the argument is left inconsistent (its arrays no longer have the batch size).\<close>

theorem fold_unfold_and_argument:
  assumes "wf_dataproto dp" and "batch dp = Some td" and "tensors td \<noteq> []" and "0 < n"
    and "batch_size td mod n = 0"
  shows "\<exists>folded after. fold_batch_dim n dp = Inr (folded, after)
    \<and> unfold_batch_dim folded = Inr dp
    \<and> (non_tensor_batch dp \<noteq> [] \<and> n \<noteq> batch_size td \<longrightarrow> check_consistency after = Inl AssertionError)"
proof -
  let ?after = "\<lparr>batch = Some td, non_tensor_batch = dict_map (fold_rows n) (non_tensor_batch dp), meta_info = meta_info dp\<rparr>"
  have n: "dp_len dp mod n = 0" using assms(2,5) by (simp add: dp_len_Some)
  have "check_consistency ?after = Inl AssertionError" if "non_tensor_batch dp \<noteq> []" "n \<noteq> batch_size td"
  proof -
    have ne: "non_tensor_batch dp \<noteq> []" by (rule that(1))
    obtain key v rest where "non_tensor_batch dp = (key, v) # rest" using ne by (cases "non_tensor_batch dp") auto
    then show ?thesis using that(2) by (auto simp: check_consistency_def rassert_def fold_rows_def)
  qed
  then show ?thesis
    using fold_batch_dim_rows [OF assms(1,2,4) n] unfold_fold [OF assms(1-3) n] by simp
qed

theorem fold_unfold_and_argument_witness:
  "\<exists>folded after. fold_batch_dim 1 (demo_data []) = Inr (folded, after)
    \<and> unfold_batch_dim folded = Inr (demo_data [])
    \<and> (non_tensor_batch (demo_data []) \<noteq> [] \<and> 1 \<noteq> batch_size (the (batch (demo_data [])))
        \<longrightarrow> check_consistency after = Inl AssertionError)"
  by (rule fold_unfold_and_argument)
    (simp_all add: wf_demo_data wf_meta_def dict_wf_def, simp_all add: demo_data_def)

text \<open>\<open>unfold_column_chunks\<close> without \<open>split_keys\<close>, which its docstring documents as repeating
  every key, raises a \<open>TypeError\<close> as soon as the container carries a non-tensor array.\<close>

theorem unfold_without_split_keys:
  assumes "wf_dataproto dp" and "non_tensor_batch dp \<noteq> []"
  shows "unfold_column_chunks n None dp = Inl TypeError"
proof -
  have "rmap (unfold_tensor n None) ts = Inr (dict_map (repeat_interleave n) ts)" for ts :: "'a list list pydict"
    unfolding dict_map_def by (rule rmap_Inr) (auto simp: unfold_tensor_def split_beta)
  moreover have "length v = m * n" if "(k, v) \<in> set (dict_map (repeat_interleave n) ts)" "wf_columns m ts"
    for k v m and ts :: "'a list list pydict"
    using that length_repeat_rows [of True n] by (auto simp: repeat_rows_def dest!: in_dict_mapD wf_columnsD)
  ultimately have "\<exists>b. (case batch dp of None \<Rightarrow> Inr None
      | Some td \<Rightarrow> rbind (rmap (unfold_tensor n None) (tensors td)) (\<lambda>source.
          rbind (tensordict_new source (batch_size td * n)) (\<lambda>td'. Inr (Some td')))) = Inr b"
    using assms(1) by (cases "batch dp") (auto simp: wf_dataproto_def tensordict_new_ok)
  moreover have "rmap (unfold_array n None) (non_tensor_batch dp) = Inl TypeError"
    using assms(2) by (cases "non_tensor_batch dp") (simp_all add: unfold_array_def)
  ultimately show ?thesis by (auto simp: unfold_column_chunks_def)
qed

theorem unfold_without_split_keys_witness:
  "unfold_column_chunks 2 None \<lparr>batch = Some \<lparr>batch_size = 1, tensors = [(''ids'', [[1, 2 :: int]])]\<rparr>,
     non_tensor_batch = [(''uid'', [[''a'', ''b'']])], meta_info = []\<rparr> = Inl TypeError"
  by (rule unfold_without_split_keys)
    (simp_all add: wf_dataproto_def wf_columns_def dict_wf_def dp_len_def wf_meta_def)

text \<open>Padding is not transparent for metrics: padding a container whose \<open>meta_info\<close> holds a
  metrics dictionary, and unpadding it, leaves the metrics as lists with one entry per padding copy,
  so a value recorded once is counted twice.\<close>

theorem padding_duplicates_metrics:
  "\<exists>padded k back. pad_dataproto_to_divisor 2 (demo_data [(''metrics'', PDict [(''loss'', PInt 1)])]) = Inr (padded, k)
    \<and> unpad_dataproto padded k = Inr back
    \<and> batch back = batch (demo_data []) \<and> non_tensor_batch back = non_tensor_batch (demo_data [])
    \<and> meta_info back = [(''metrics'', PDict [(''loss'', PList [PInt 1, PInt 1])])]"
proof -
  let ?mi = "[(''metrics'', PDict [(''loss'', PInt 1)])]"
  let ?padded = "\<lparr>batch = Some \<lparr>batch_size = 4, tensors = [(''ids'', [1, 2, 3, 1]), (''len'', [7, 8, 9, 7])]\<rparr>,
     non_tensor_batch = [(''uid'', [''a'', ''b'', ''c'', ''a''])],
     meta_info = [(''metrics'', PDict [(''loss'', PList [PInt 1, PInt 1])])]\<rparr> :: (int, string) dataproto"
  have "pad_dataproto_to_divisor 2 (demo_data ?mi) = Inr (?padded, 1)" by code_simp
  moreover have "unpad_dataproto ?padded 1
      = Inr (demo_data [(''metrics'', PDict [(''loss'', PList [PInt 1, PInt 1])])])" by code_simp
  ultimately show ?thesis by (auto simp: demo_data_def)
qed

end
