(* ===== verification/TensorOps.thy ===== *)
theory TensorOps
  imports Prelude
begin

text \<open>
  Two-dimensional tensors as lists of rows of real numbers, and the masked statistics of
  \<open>verl/utils/torch_functional.py\<close>. Numbers are exact reals: rounding, infinities and \<open>nan\<close> are not
  modelled, so a quotient whose denominator could be zero is only used in properties where it is not.
\<close>

type_synonym tensor = "real list list"

section \<open>Elementwise operations and reductions\<close>

definition tmap2 :: "('a \<Rightarrow> 'b \<Rightarrow> 'c) \<Rightarrow> 'a list list \<Rightarrow> 'b list list \<Rightarrow> 'c list list" where
  "tmap2 f A B = map2 (\<lambda>a b. map2 f a b) A B"

definition tmap :: "('a \<Rightarrow> 'b) \<Rightarrow> 'a list list \<Rightarrow> 'b list list" where
  "tmap f A = map (map f) A"

text \<open>\<open>sum(dim=-1)\<close>, \<open>sum()\<close> and a per-row number broadcast over the tokens of a mask.\<close>

definition row_sums :: "tensor \<Rightarrow> real list" where
  "row_sums A = map sum_list A"

definition tsum :: "tensor \<Rightarrow> real" where
  "tsum A = sum_list (row_sums A)"

definition mask_rows :: "real list \<Rightarrow> tensor \<Rightarrow> tensor" where
  "mask_rows scalars msk = map2 (\<lambda>s row. map (\<lambda>m. s * m) row) scalars msk"

fun cumsum_from :: "real \<Rightarrow> real list \<Rightarrow> real list" where
  "cumsum_from acc [] = []"
| "cumsum_from acc (x # xs) = (acc + x) # cumsum_from (acc + x) xs"

definition cumsum :: "real list \<Rightarrow> real list" where
  "cumsum xs = cumsum_from 0 xs"

definition clamp :: "real \<Rightarrow> real \<Rightarrow> real \<Rightarrow> real" where
  "clamp lo hi x = min hi (max lo x)"

text \<open>Two tensors of the same shape.\<close>

definition same_shape :: "'a list list \<Rightarrow> 'b list list \<Rightarrow> bool" where
  "same_shape A B \<longleftrightarrow> map length A = map length B"

section \<open>Masked statistics\<close>

definition masked_sum :: "tensor \<Rightarrow> tensor \<Rightarrow> real" where
  "masked_sum vals msk = tsum (tmap2 (\<lambda>v m. (if m \<noteq> 0 then v else 0) * m) vals msk)"

definition masked_mean :: "tensor \<Rightarrow> tensor \<Rightarrow> real" where
  "masked_mean vals msk = masked_sum vals msk / (tsum msk + 1 / 10 ^ 8)"

definition masked_var :: "tensor \<Rightarrow> tensor \<Rightarrow> bool \<Rightarrow> real res" where
  "masked_var vals msk unbiased =
     (let mean = masked_mean vals msk;
          variance = masked_mean (tmap (\<lambda>v. (v - mean)\<^sup>2) vals) msk
      in if unbiased
         then (let mask_sum = tsum msk in
               rbind (rcheck ValueError (mask_sum \<noteq> 0)) (\<lambda>_.
               rbind (rcheck ValueError (mask_sum \<noteq> 1)) (\<lambda>_.
               Inr (variance * (mask_sum / (mask_sum - 1))))))
         else Inr variance)"

definition masked_whiten :: "tensor \<Rightarrow> tensor \<Rightarrow> bool \<Rightarrow> tensor res" where
  "masked_whiten vals msk shift_mean =
     (let mean = masked_mean vals msk in
      rbind (masked_var vals msk True) (\<lambda>var.
      (let whitened = tmap (\<lambda>v. (v - mean) * (1 / sqrt (var + 1 / 10 ^ 8))) vals in
       Inr (if shift_mean then whitened else tmap (\<lambda>v. v + mean) whitened))))"

text \<open>the mask of the tokens up to and including the first end-of-sentence token.\<close>

definition eos_mask :: "int list \<Rightarrow> int list \<Rightarrow> int list" where
  "eos_mask eos_token row = map (\<lambda>t. if t \<in> set eos_token then 1 else 0) row"

fun int_cumsum_from :: "int \<Rightarrow> int list \<Rightarrow> int list" where
  "int_cumsum_from acc [] = []"
| "int_cumsum_from acc (x # xs) = (acc + x) # int_cumsum_from (acc + x) xs"

definition get_response_mask :: "int list \<Rightarrow> int list list \<Rightarrow> int list list" where
  "get_response_mask eos_token response_id =
     map (\<lambda>row. map2 (\<lambda>c e. if c - e = 0 then 1 else 0) (int_cumsum_from 0 (eos_mask eos_token row)) (eos_mask eos_token row))
       response_id"

section \<open>Lemmas\<close>

lemma length_tmap2 [simp]: "length (tmap2 f A B) = min (length A) (length B)"
  by (simp add: tmap2_def)

lemma nth_tmap2 [simp]: "i < length A \<Longrightarrow> i < length B \<Longrightarrow> tmap2 f A B ! i = map2 f (A ! i) (B ! i)"
  by (simp add: tmap2_def)

lemma length_row_sums [simp]: "length (row_sums A) = length A"
  by (simp add: row_sums_def)

lemma length_mask_rows [simp]: "length (mask_rows scalars msk) = min (length scalars) (length msk)"
  by (simp add: mask_rows_def)

lemma nth_mask_rows:
  "i < length scalars \<Longrightarrow> i < length msk \<Longrightarrow> mask_rows scalars msk ! i = map (\<lambda>m. scalars ! i * m) (msk ! i)"
  by (simp add: mask_rows_def)

lemma tsum_append [simp]: "tsum (A @ B) = tsum A + tsum B"
  by (simp add: tsum_def row_sums_def)

lemma tsum_Nil [simp]: "tsum [] = 0"
  by (simp add: tsum_def row_sums_def)

lemma tsum_Cons [simp]: "tsum (row # A) = sum_list row + tsum A"
  by (simp add: tsum_def row_sums_def)

lemma tmap2_append: "length A = length B \<Longrightarrow> tmap2 f (A @ A') (B @ B') = tmap2 f A B @ tmap2 f A' B'"
  by (simp add: tmap2_def)

lemma masked_sum_Nil [simp]: "masked_sum [] [] = 0"
  by (simp add: masked_sum_def tmap2_def)

lemma masked_sum_append:
  "length A = length M \<Longrightarrow> masked_sum (A @ A') (M @ M') = masked_sum A M + masked_sum A' M'"
  by (simp add: masked_sum_def tmap2_append)

lemma sum_list_linear:
  fixes f g :: "'a \<Rightarrow> real"
  shows "(\<Sum>x\<leftarrow>xs. a * f x + b * g x) = a * sum_list (map f xs) + b * sum_list (map g xs)"
  by (induction xs) (auto simp: algebra_simps)

text \<open>A mask of zeros and ones; then the masked mean of numbers in an interval that contains 0 is in
  that interval.\<close>

definition binary_mask :: "tensor \<Rightarrow> bool" where
  "binary_mask msk \<longleftrightarrow> (\<forall>row\<in>set msk. \<forall>m\<in>set row. m = 0 \<or> m = 1)"

lemma masked_sum_bounds:
  assumes "binary_mask msk" and "same_shape vals msk" and "\<forall>row\<in>set vals. \<forall>v\<in>set row. lo \<le> v \<and> v \<le> hi"
  shows "lo * tsum msk \<le> masked_sum vals msk \<and> masked_sum vals msk \<le> hi * tsum msk"
proof -
  have row: "lo * sum_list ms \<le> sum_list (map2 (\<lambda>v m. (if m \<noteq> 0 then v else 0) * m) vs ms)
      \<and> sum_list (map2 (\<lambda>v m. (if m \<noteq> 0 then v else 0) * m) vs ms) \<le> hi * sum_list ms"
    if "length vs = length ms" "\<forall>m\<in>set ms. m = 0 \<or> m = 1" "\<forall>v\<in>set vs. lo \<le> v \<and> v \<le> hi" for vs ms
    using that by (induction vs ms rule: list_induct2) (auto simp: algebra_simps)
  have "map length vals = map length msk" using assms(2) by (simp add: same_shape_def)
  with assms(1,3) show ?thesis
  proof (induction vals arbitrary: msk)
    case (Cons vs vals)
    then obtain ms msk' where msk: "msk = ms # msk'" by (cases msk) auto
    with Cons.prems have "lo * tsum msk' \<le> masked_sum vals msk' \<and> masked_sum vals msk' \<le> hi * tsum msk'"
      by (intro Cons.IH) (auto simp: binary_mask_def)
    moreover have "masked_sum (vs # vals) (ms # msk')
        = sum_list (map2 (\<lambda>v m. (if m \<noteq> 0 then v else 0) * m) vs ms) + masked_sum vals msk'"
      by (simp add: masked_sum_def tmap2_def)
    ultimately show ?case
      using row [of vs ms] Cons.prems msk by (auto simp: binary_mask_def algebra_simps)
  qed (simp add: masked_sum_def tmap2_def)
qed

lemma tsum_binary_nonneg: "binary_mask msk \<Longrightarrow> 0 \<le> tsum msk"
proof (induction msk)
  case (Cons row msk)
  have "0 \<le> sum_list row" using Cons.prems by (intro sum_list_nonneg) (auto simp: binary_mask_def)
  with Cons show ?case by (simp add: binary_mask_def)
qed simp

lemma masked_mean_bounds:
  assumes "binary_mask msk" and "same_shape vals msk" and "\<forall>row\<in>set vals. \<forall>v\<in>set row. lo \<le> v \<and> v \<le> hi"
    and "lo \<le> 0" and "0 \<le> hi"
  shows "lo \<le> masked_mean vals msk \<and> masked_mean vals msk \<le> hi"
proof -
  let ?d = "tsum msk + 1 / 10 ^ 8 :: real"
  have d: "0 < ?d" using tsum_binary_nonneg [OF assms(1)] by simp
  have "lo * ?d \<le> lo * tsum msk" "hi * tsum msk \<le> hi * ?d"
    using assms(4,5) by (simp_all add: algebra_simps)
  with masked_sum_bounds [OF assms(1-3)] have "lo * ?d \<le> masked_sum vals msk" "masked_sum vals msk \<le> hi * ?d"
    by linarith+
  with d show ?thesis unfolding masked_mean_def by (simp add: pos_le_divide_eq pos_divide_le_eq)
qed

lemma int_cumsum_eos:
  "0 \<le> acc \<Longrightarrow> map2 (\<lambda>c e. if c - e = 0 then 1 else 0 :: int) (int_cumsum_from acc (eos_mask eos row)) (eos_mask eos row)
    = (if acc = 0 then map (\<lambda>i. if \<exists>j<i. row ! j \<in> set eos then 0 else 1) [0..<length row] else replicate (length row) 0)"
proof (induction row arbitrary: acc)
  case Nil
  then show ?case by (simp add: eos_mask_def)
next
  case (Cons t row)
  have shift: "map (\<lambda>i. if \<exists>j<i. (t # row) ! j \<in> set eos then 0 else 1 :: int) [0..<Suc (length row)]
      = 1 # map (\<lambda>i. if t \<in> set eos \<or> (\<exists>j<i. row ! j \<in> set eos) then 0 else 1) [0..<length row]"
    by (auto simp: upt_conv_Cons map_Suc_upt [symmetric] less_Suc_eq_0_disj simp del: upt_Suc intro!: map_cong)
  show ?case
    using Cons.prems Cons.IH [of acc] Cons.IH [of "acc + 1"]
    by (cases "t \<in> set eos"; cases "acc = 0") (auto simp: eos_mask_def shift map_replicate_const simp del: upt_Suc)
qed

lemma get_response_mask_nth:
  assumes "r < length ids" and "i < length (ids ! r)"
  shows "get_response_mask eos ids ! r ! i = (if \<exists>j<i. ids ! r ! j \<in> set eos then 0 else 1)"
  using assms int_cumsum_eos [of 0 eos "ids ! r"] by (simp add: get_response_mask_def)

end
