(* ===== verification/Advantages.thy ===== *)
theory Advantages
  imports TensorOps DataProto
begin

text \<open>
  The advantage estimators of \<open>verl/trainer/ppo/core_algos.py\<close>. A token-level tensor is a list of
  rows; \<open>index\<close> is the list of group labels (the prompt of every row).
\<close>

section \<open>Grouping\<close>

text \<open>\<open>id2score[index[i]].append(scores[i])\<close> for every row: a \<open>defaultdict(list)\<close>.\<close>

definition id2list :: "'i list \<Rightarrow> 'a list \<Rightarrow> 'i \<Rightarrow> 'a list" where
  "id2list index xs = foldl (\<lambda>d (i, x). d(i := d i @ [x])) (\<lambda>_. []) (zip index xs)"

text \<open>The keys in the order in which they were first used.\<close>

definition first_keys :: "'i list \<Rightarrow> 'i list" where
  "first_keys index = foldl (\<lambda>ks i. if i \<in> set ks then ks else ks @ [i]) [] index"

definition tmean :: "real list \<Rightarrow> real" where
  "tmean xs = sum_list xs / real (length xs)"

text \<open>\<open>torch.std\<close>, with Bessel's correction.\<close>

definition tstd :: "real list \<Rightarrow> real" where
  "tstd xs = sqrt ((\<Sum>x\<leftarrow>xs. (x - tmean xs)\<^sup>2) / (real (length xs) - 1))"

definition id2mean :: "real list \<Rightarrow> real" where
  "id2mean xs = (if length xs = 1 then 0 else tmean xs)"

definition id2std :: "real list \<Rightarrow> real" where
  "id2std xs = (if length xs = 1 then 1 else tstd xs)"

section \<open>GRPO\<close>

definition grpo_scalars :: "'i list \<Rightarrow> real list \<Rightarrow> real \<Rightarrow> bool \<Rightarrow> real list" where
  "grpo_scalars index scores epsilon norm_adv_by_std_in_grpo =
     (let id2score = id2list index scores in
      map2 (\<lambda>i s. if norm_adv_by_std_in_grpo
                  then (s - id2mean (id2score i)) / (id2std (id2score i) + epsilon)
                  else s - id2mean (id2score i)) index scores)"

definition compute_grpo_outcome_advantage ::
    "tensor \<Rightarrow> tensor \<Rightarrow> 'i list \<Rightarrow> real \<Rightarrow> bool \<Rightarrow> tensor \<times> tensor" where
  "compute_grpo_outcome_advantage token_level_rewards response_mask index epsilon norm_adv_by_std_in_grpo =
     (let scores = mask_rows (grpo_scalars index (row_sums token_level_rewards) epsilon norm_adv_by_std_in_grpo)
                     response_mask
      in (scores, scores))"

text \<open>\<open>group_mean_std\<close> of \<open>verl/utils/groupwise.py\<close> on integer group indices: the means, standard
  deviations and counts per group.\<close>

definition index_add :: "nat \<Rightarrow> nat list \<Rightarrow> real list \<Rightarrow> real list" where
  "index_add G gidx xs = foldl (\<lambda>acc (g, x). acc[g := acc ! g + x]) (replicate G 0) (zip gidx xs)"

definition group_mean_std ::
    "real list \<Rightarrow> nat list \<Rightarrow> real \<Rightarrow> (real list \<times> real list \<times> real list) res" where
  "group_mean_std scores gidx eps =
     rbind (rcheck ValueError (length scores = length gidx)) (\<lambda>_.
     (let G = (if gidx = [] then 0 else Max (set gidx) + 1);
          count = index_add G gidx (map (\<lambda>_. 1) scores);
          s1 = index_add G gidx scores;
          s2 = index_add G gidx (map (\<lambda>s. s * s) scores);
          mean = map2 (\<lambda>s c. s / max c 1) s1 count;
          var_num = map (\<lambda>g. s2 ! g - (s1 ! g * s1 ! g) / max (count ! g) 1) [0..<G];
          var = map2 (\<lambda>v c. v / max (c - 1) 1) var_num count;
          std = map (\<lambda>v. sqrt (max v eps)) var
      in Inr (map2 (\<lambda>m c. if c \<le> 1 then 0 else m) mean count,
              map2 (\<lambda>s c. if c \<le> 1 then 1 else s) std count, count)))"

text \<open>The vectorised estimator on integer labels, which \<open>as_torch_index\<close> leaves unchanged.\<close>

definition compute_grpo_vectorized_outcome_advantage ::
    "tensor \<Rightarrow> tensor \<Rightarrow> nat list \<Rightarrow> real \<Rightarrow> bool \<Rightarrow> (tensor \<times> tensor) res" where
  "compute_grpo_vectorized_outcome_advantage token_level_rewards response_mask index epsilon norm_adv_by_std_in_grpo =
     (let scores = row_sums token_level_rewards in
      rbind (group_mean_std scores index epsilon) (\<lambda>(mean_g, std_g, _).
      (let scalars = map2 (\<lambda>g s. if norm_adv_by_std_in_grpo then (s - mean_g ! g) / (std_g ! g + epsilon)
                                 else s - mean_g ! g) index scores;
           advantages = mask_rows scalars response_mask
       in Inr (advantages, advantages))))"

section \<open>GDPO\<close>

text \<open>The per-dimension rewards: each component is put at the last valid token of its row.\<close>

record gdpo_inputs =
  gdpo_reward_keys :: "string list option"
  gdpo_reward_weights :: "real list option"
  gdpo_components :: "real list pydict"
  prompt_length :: nat
  attention_mask :: "int list list"

definition place_component :: "gdpo_inputs \<Rightarrow> tensor \<Rightarrow> real list \<Rightarrow> tensor res" where
  "place_component c response_mask component =
     rmap (\<lambda>(row, attn, r).
             rbind (py_index (length row) (sum_list (drop (prompt_length c) attn) - 1)) (\<lambda>j.
             Inr ((replicate (length row) 0)[j := r])))
       (zip response_mask (zip (attention_mask c) component))"

definition gdpo_score_list :: "gdpo_inputs \<Rightarrow> tensor \<Rightarrow> tensor list res" where
  "gdpo_score_list c response_mask =
     (case gdpo_reward_keys c of
        None \<Rightarrow> Inl AssertionError
      | Some keys \<Rightarrow>
          rbind (rassert (keys \<noteq> [])) (\<lambda>_.
          rmap (\<lambda>key. case map_of (gdpo_components c) key of
                        None \<Rightarrow> Inl AssertionError
                      | Some component \<Rightarrow> place_component c response_mask component) keys))"

definition gdpo_sum ::
    "tensor list \<Rightarrow> real list \<Rightarrow> tensor \<Rightarrow> 'i list \<Rightarrow> real \<Rightarrow> bool \<Rightarrow> tensor res" where
  "gdpo_sum score_list weights response_mask index epsilon norm_adv =
     rbind (rmap (\<lambda>i. rbind (rcheck IndexError (i < length weights)) (\<lambda>_.
              Inr (tmap (\<lambda>x. weights ! i * x)
                     (fst (compute_grpo_outcome_advantage (score_list ! i) response_mask index epsilon norm_adv)))))
            [0..<length score_list]) (\<lambda>parts.
     Inr (foldl (tmap2 (+)) (hd parts) (tl parts)))"

definition compute_gdpo_outcome_advantage ::
    "tensor \<Rightarrow> tensor \<Rightarrow> 'i list \<Rightarrow> real \<Rightarrow> bool \<Rightarrow> gdpo_inputs option \<Rightarrow> (tensor \<times> tensor) res" where
  "compute_gdpo_outcome_advantage token_level_rewards response_mask index epsilon norm_adv inputs =
     rbind (case inputs of
              None \<Rightarrow> Inr ([token_level_rewards], None)
            | Some c \<Rightarrow> rbind (gdpo_score_list c response_mask) (\<lambda>l. Inr (l, gdpo_reward_weights c))) (\<lambda>(score_list, ws).
     rbind (gdpo_sum score_list (case ws of None \<Rightarrow> replicate (length score_list) 1 | Some w \<Rightarrow> w)
              response_mask index epsilon norm_adv) (\<lambda>new_advantage.
     rbind (masked_whiten new_advantage response_mask True) (\<lambda>white.
     (let advantages = tmap2 (*) white response_mask in Inr (advantages, advantages)))))"

section \<open>Pass@k\<close>

text \<open>\<open>torch.topk(rewards, 2)\<close>: the two largest values; which position of a maximum it names first is
  a parameter.\<close>

definition passk_advantage :: "real list \<Rightarrow> real \<Rightarrow> bool \<Rightarrow> real" where
  "passk_advantage rewards epsilon norm_adv =
     (let sorted = rev (sort rewards);
          advantage = sorted ! 0 - sorted ! 1
      in if norm_adv then advantage / (tstd rewards + epsilon) else advantage)"

fun passk_loop ::
    "(real list \<Rightarrow> nat) \<Rightarrow> ('i \<Rightarrow> real list) \<Rightarrow> ('i \<Rightarrow> nat list) \<Rightarrow> real \<Rightarrow> bool \<Rightarrow> 'i list \<Rightarrow> real list \<Rightarrow> real list res" where
  "passk_loop top_position id2scores id2indices epsilon norm_adv [] advantages = Inr advantages"
| "passk_loop top_position id2scores id2indices epsilon norm_adv (idx # keys) advantages =
     rbind (rcheck ValueError (2 \<le> length (id2scores idx))) (\<lambda>_.
     passk_loop top_position id2scores id2indices epsilon norm_adv keys
       (advantages[id2indices idx ! top_position (id2scores idx) := passk_advantage (id2scores idx) epsilon norm_adv]))"

text \<open>The configuration is required; \<open>norm_adv_by_std_in_grpo\<close> is read from it with default true.\<close>

definition compute_grpo_passk_outcome_advantage ::
    "(real list \<Rightarrow> nat) \<Rightarrow> tensor \<Rightarrow> tensor \<Rightarrow> 'i list \<Rightarrow> real \<Rightarrow> bool option option \<Rightarrow> (tensor \<times> tensor) res" where
  "compute_grpo_passk_outcome_advantage top_position token_level_rewards response_mask index epsilon config =
     (case config of
        None \<Rightarrow> Inl AssertionError
      | Some norm_option \<Rightarrow>
          (let norm_adv = (case norm_option of None \<Rightarrow> True | Some b \<Rightarrow> b);
               scores = row_sums token_level_rewards in
           rbind (passk_loop top_position (id2list index scores) (id2list index [0..<length scores]) epsilon norm_adv
                    (first_keys index) (replicate (length scores) 0)) (\<lambda>scalars.
           (let advantages = mask_rows scalars response_mask in Inr (advantages, advantages)))))"

section \<open>Baselines from the group\<close>

definition compute_reinforce_plus_plus_baseline_outcome_advantage ::
    "tensor \<Rightarrow> tensor \<Rightarrow> 'i list \<Rightarrow> (tensor \<times> tensor) res" where
  "compute_reinforce_plus_plus_baseline_outcome_advantage token_level_rewards response_mask index =
     (let scores = row_sums token_level_rewards;
          id2score = id2list index scores;
          centred = mask_rows (map2 (\<lambda>i s. s - id2mean (id2score i)) index scores) response_mask in
      rbind (masked_whiten centred response_mask True) (\<lambda>white.
      (let scores' = tmap2 (*) white response_mask in Inr (scores', scores'))))"

definition rloo_scalars :: "'i list \<Rightarrow> real list \<Rightarrow> real list" where
  "rloo_scalars index scores =
     (let id2score = id2list index scores in
      map2 (\<lambda>i s. let response_num = real (length (id2score i)) in
                  if response_num > 1
                  then s * response_num / (response_num - 1) - id2mean (id2score i) * response_num / (response_num - 1)
                  else s) index scores)"

definition compute_rloo_outcome_advantage :: "tensor \<Rightarrow> tensor \<Rightarrow> 'i list \<Rightarrow> tensor \<times> tensor" where
  "compute_rloo_outcome_advantage token_level_rewards response_mask index =
     (let scores = mask_rows (rloo_scalars index (row_sums token_level_rewards)) response_mask in (scores, scores))"

text \<open>\<open>torch.bincount\<close> of the inverse of \<open>np.unique\<close>, read back per row: the size and the sum of the
  row's group.\<close>

definition group_size :: "'i list \<Rightarrow> 'i \<Rightarrow> real" where
  "group_size index i = real (length (filter (\<lambda>j. j = i) index))"

definition group_sum :: "'i list \<Rightarrow> real list \<Rightarrow> 'i \<Rightarrow> real" where
  "group_sum index scores i = sum_list (map snd (filter (\<lambda>p. fst p = i) (zip index scores)))"

definition rloo_vectorized_scalars :: "'i list \<Rightarrow> real list \<Rightarrow> real list" where
  "rloo_vectorized_scalars index scores =
     map2 (\<lambda>i s. let c = group_size index i in
                 (c * s - group_sum index scores i) / max (c - 1) 1 * of_bool (c > 1)) index scores"

definition compute_rloo_vectorized_outcome_advantage :: "tensor \<Rightarrow> tensor \<Rightarrow> 'i list \<Rightarrow> tensor \<times> tensor" where
  "compute_rloo_vectorized_outcome_advantage token_level_rewards response_mask index =
     (let adv = mask_rows (rloo_vectorized_scalars index (row_sums token_level_rewards)) response_mask in (adv, adv))"

text \<open>The baseline of OPO: the mean score weighted by response length.\<close>

definition opo_baseline :: "real list \<Rightarrow> real list \<Rightarrow> real" where
  "opo_baseline scores lens =
     (if length scores = 1 then 0 else sum_list (map2 (*) lens scores) / sum_list lens)"

definition opo_scalars :: "'i list \<Rightarrow> real list \<Rightarrow> real list \<Rightarrow> real list" where
  "opo_scalars index scores response_length =
     (let id2score = id2list index scores; id2len = id2list index response_length in
      map2 (\<lambda>i s. s - opo_baseline (id2score i) (id2len i)) index scores)"

definition compute_opo_outcome_advantage :: "tensor \<Rightarrow> tensor \<Rightarrow> 'i list \<Rightarrow> tensor \<times> tensor" where
  "compute_opo_outcome_advantage token_level_rewards response_mask index =
     (let scores = mask_rows (opo_scalars index (row_sums token_level_rewards) (row_sums response_mask)) response_mask
      in (scores, scores))"

definition compute_gpg_outcome_advantage :: "tensor \<Rightarrow> tensor \<Rightarrow> 'i list \<Rightarrow> real \<Rightarrow> tensor \<times> tensor" where
  "compute_gpg_outcome_advantage token_level_rewards response_mask index f_norm =
     (let scores = row_sums token_level_rewards;
          m = real (length (filter (\<lambda>s. s \<noteq> 0) scores));
          alpha = real (length scores) / max m 1;
          id2score = id2list index scores;
          adv = mask_rows (map2 (\<lambda>i s. alpha * (s - id2mean (id2score i)) / f_norm) index scores) response_mask
      in (adv, adv))"

section \<open>Returns\<close>

text \<open>Generalised advantage estimation. One row as the list of its (reward, value, mask) triples; the
  loop runs from the last token: the result is the advantages and the two carried numbers.\<close>

fun gae_row :: "real \<Rightarrow> real \<Rightarrow> (real \<times> real \<times> real) list \<Rightarrow> real list \<times> real \<times> real" where
  "gae_row gamma lam [] = ([], 0, 0)"
| "gae_row gamma lam ((r, v, m) # rest) =
     (case gae_row gamma lam rest of (advantages, nextvalues, lastgaelam) \<Rightarrow>
        let delta = r + gamma * nextvalues - v;
            lastgaelam_new = delta + gamma * lam * lastgaelam;
            nextvalues' = v * m + (1 - m) * nextvalues;
            lastgaelam' = lastgaelam_new * m + (1 - m) * lastgaelam
        in (lastgaelam' # advantages, nextvalues', lastgaelam'))"

definition gae_advantages :: "real \<Rightarrow> real \<Rightarrow> tensor \<Rightarrow> tensor \<Rightarrow> tensor \<Rightarrow> tensor" where
  "gae_advantages gamma lam rewards vals response_mask =
     map (\<lambda>(r, v, m). fst (gae_row gamma lam (zip r (zip v m)))) (zip rewards (zip vals response_mask))"

definition compute_gae_advantage_return ::
    "tensor \<Rightarrow> tensor \<Rightarrow> tensor \<Rightarrow> real \<Rightarrow> real \<Rightarrow> (tensor \<times> tensor) res" where
  "compute_gae_advantage_return token_level_rewards vals response_mask gamma lam =
     (let advantages = gae_advantages gamma lam token_level_rewards vals response_mask;
          returns = tmap2 (+) advantages vals in
      rbind (masked_whiten advantages response_mask True) (\<lambda>white. Inr (white, returns)))"

text \<open>REINFORCE++: discounted returns that restart after a masked token. The loop again runs from the
  last token; the second component is the carried return.\<close>

fun rfpp_row :: "real \<Rightarrow> (real \<times> real) list \<Rightarrow> real list \<times> real" where
  "rfpp_row gamma [] = ([], 0)"
| "rfpp_row gamma ((r, m) # rest) =
     (case rfpp_row gamma rest of (returns, running_return) \<Rightarrow>
        let ret = r + gamma * running_return in (ret # returns, ret * m))"

definition compute_reinforce_plus_plus_outcome_advantage ::
    "tensor \<Rightarrow> tensor \<Rightarrow> real option \<Rightarrow> (tensor \<times> tensor) res" where
  "compute_reinforce_plus_plus_outcome_advantage token_level_rewards response_mask config_gamma =
     (case config_gamma of
        None \<Rightarrow> Inl AssertionError
      | Some gamma \<Rightarrow>
          (let returns = map2 (\<lambda>r m. fst (rfpp_row gamma (zip r m))) token_level_rewards response_mask in
           rbind (masked_whiten returns response_mask True) (\<lambda>white.
           Inr (tmap2 (*) white response_mask, returns))))"

text \<open>\<open>flip\<close>, \<open>cumsum\<close>, \<open>flip\<close>: the rewards to go.\<close>

definition rewards_to_go :: "tensor \<Rightarrow> tensor \<Rightarrow> tensor" where
  "rewards_to_go token_level_rewards response_mask =
     map (\<lambda>row. rev (cumsum (rev row))) (tmap2 (*) token_level_rewards response_mask)"

definition compute_remax_outcome_advantage :: "tensor \<Rightarrow> real list \<Rightarrow> tensor \<Rightarrow> tensor \<times> tensor" where
  "compute_remax_outcome_advantage token_level_rewards reward_baselines response_mask =
     (let returns = rewards_to_go token_level_rewards response_mask
      in (tmap2 (-) returns (mask_rows reward_baselines response_mask), returns))"

section \<open>Optimal token baseline\<close>

text \<open>The cumulative path-variance proxy of one row; the importance weights are optional.\<close>

definition otb_w_cumulative :: "real list \<Rightarrow> real list \<Rightarrow> real list option \<Rightarrow> real list \<Rightarrow> real list" where
  "otb_w_cumulative old_log_probs sum_pi_squared rollout_is_weights m =
     (let w = map2 (\<lambda>lp s. 1 - 2 * exp lp + s) old_log_probs sum_pi_squared;
          w' = (case rollout_is_weights of None \<Rightarrow> w | Some iw \<Rightarrow> map2 (\<lambda>x r. x * r\<^sup>2) w iw)
      in cumsum (map2 (*) w' m))"

definition otb_w_rows :: "tensor \<Rightarrow> tensor \<Rightarrow> tensor option \<Rightarrow> tensor \<Rightarrow> tensor" where
  "otb_w_rows old_log_probs sum_pi_squared rollout_is_weights response_mask =
     map (\<lambda>i. otb_w_cumulative (old_log_probs ! i) (sum_pi_squared ! i)
                (map_option (\<lambda>iw. iw ! i) rollout_is_weights) (response_mask ! i))
       [0..<length response_mask]"

text \<open>The baseline of a group: per token the mean return weighted by \<open>W\<close>.\<close>

definition otb_baseline_per_step :: "nat \<Rightarrow> real \<Rightarrow> tensor \<Rightarrow> tensor \<Rightarrow> tensor \<Rightarrow> real list" where
  "otb_baseline_per_step seq_len epsilon returns_group w_group mask_group =
     map (\<lambda>t. (\<Sum>i\<leftarrow>[0..<length returns_group]. returns_group ! i ! t * w_group ! i ! t * mask_group ! i ! t)
              / ((\<Sum>i\<leftarrow>[0..<length returns_group]. w_group ! i ! t * mask_group ! i ! t) + epsilon))
       [0..<seq_len]"

text \<open>The one longest trajectory of a group and the length of the second longest, when the longest is
  unique.\<close>

definition longest_tail :: "real list \<Rightarrow> (nat \<times> nat) option" where
  "longest_tail response_lengths =
     (let sorted_lengths = sort response_lengths;
          n = length sorted_lengths;
          max_length = sorted_lengths ! (n - 1);
          second_max_length = sorted_lengths ! (n - 2);
          max_length_idx = filter (\<lambda>i. response_lengths ! i = max_length) [0..<length response_lengths]
      in if length max_length_idx = 1 \<and> max_length > second_max_length
         then Some (hd max_length_idx, nat \<lfloor>second_max_length\<rfloor>) else None)"

definition zero_from :: "nat \<Rightarrow> real list \<Rightarrow> real list" where
  "zero_from a row = map (\<lambda>t. if a \<le> t then 0 else row ! t) [0..<length row]"

definition cut_tail :: "bool \<Rightarrow> real list \<Rightarrow> nat list \<Rightarrow> tensor \<Rightarrow> tensor" where
  "cut_tail handle_zero_tail response_lengths trajectory_indices baselines =
     (if handle_zero_tail
      then (case longest_tail response_lengths of
              None \<Rightarrow> baselines
            | Some (j, a) \<Rightarrow> baselines[trajectory_indices ! j := zero_from a (baselines ! (trajectory_indices ! j))])
      else baselines)"

definition assign_rows :: "nat list \<Rightarrow> real list \<Rightarrow> tensor \<Rightarrow> tensor" where
  "assign_rows trajectory_indices row baselines = foldl (\<lambda>B i. B[i := row]) baselines trajectory_indices"

definition otb_group_step ::
    "nat \<Rightarrow> real \<Rightarrow> bool \<Rightarrow> tensor \<Rightarrow> tensor \<Rightarrow> tensor \<Rightarrow> tensor \<Rightarrow> nat list \<Rightarrow> tensor" where
  "otb_group_step seq_len epsilon handle_zero_tail returns w response_mask baselines trajectory_indices =
     (if length trajectory_indices = 1 then baselines
      else cut_tail handle_zero_tail (row_sums (select response_mask trajectory_indices)) trajectory_indices
             (assign_rows trajectory_indices
               (otb_baseline_per_step seq_len epsilon (select returns trajectory_indices)
                  (select w trajectory_indices) (select response_mask trajectory_indices)) baselines))"

definition compute_optimal_token_baseline_advantage ::
    "tensor \<Rightarrow> tensor \<Rightarrow> 'i list \<Rightarrow> tensor \<Rightarrow> tensor \<Rightarrow> tensor option \<Rightarrow> bool \<Rightarrow> real \<Rightarrow> nat \<Rightarrow> tensor \<times> tensor" where
  "compute_optimal_token_baseline_advantage token_level_rewards response_mask index old_log_probs sum_pi_squared
       rollout_is_weights handle_zero_tail epsilon seq_len =
     (let returns = rewards_to_go token_level_rewards response_mask;
          w = otb_w_rows old_log_probs sum_pi_squared rollout_is_weights response_mask;
          prompt_groups = id2list index [0..<length token_level_rewards];
          baselines = foldl (\<lambda>B g. otb_group_step seq_len epsilon handle_zero_tail returns w response_mask B (prompt_groups g))
                        (map (map (\<lambda>_. 0)) returns) (first_keys index)
      in (tmap2 (*) (tmap2 (-) returns baselines) response_mask, returns))"

text \<open>The multi-turn variant first removes the masked tokens of every row and puts the advantages back
  at the end. Rows are padded with zeros to the longest.\<close>

definition unmasked :: "real list \<Rightarrow> real list \<Rightarrow> real list" where
  "unmasked m row = map snd (filter (\<lambda>p. fst p \<noteq> 0) (zip m row))"

definition pad_row :: "nat \<Rightarrow> real list \<Rightarrow> real list" where
  "pad_row n row = row @ replicate (n - length row) 0"

fun scatter_row :: "real list \<Rightarrow> real list \<Rightarrow> real list" where
  "scatter_row [] xs = []"
| "scatter_row (m # ms) xs =
     (if m \<noteq> 0 then (case xs of [] \<Rightarrow> 0 # scatter_row ms [] | x # xs' \<Rightarrow> x # scatter_row ms xs')
      else 0 # scatter_row ms xs)"

definition tir_group_step ::
    "nat \<Rightarrow> real \<Rightarrow> bool \<Rightarrow> tensor \<Rightarrow> tensor \<Rightarrow> real list \<Rightarrow> tensor \<Rightarrow> nat list \<Rightarrow> tensor" where
  "tir_group_step width epsilon handle_zero_tail all_returns all_w response_lengths baselines trajectory_indices =
     (if length trajectory_indices = 1
      then assign_rows trajectory_indices (replicate width 0) baselines
      else cut_tail handle_zero_tail (select response_lengths trajectory_indices) trajectory_indices
             (assign_rows trajectory_indices
               (otb_baseline_per_step width epsilon (select all_returns trajectory_indices)
                  (select all_w trajectory_indices) (map (\<lambda>_. replicate width 1) trajectory_indices)) baselines))"

definition compute_multi_turn_optimal_token_baseline_advantage ::
    "tensor \<Rightarrow> tensor \<Rightarrow> 'i list \<Rightarrow> tensor \<Rightarrow> tensor \<Rightarrow> tensor option \<Rightarrow> bool \<Rightarrow> real \<Rightarrow> tensor \<times> tensor" where
  "compute_multi_turn_optimal_token_baseline_advantage token_level_rewards response_mask index old_log_probs
       sum_pi_squared rollout_is_weights handle_zero_tail epsilon =
     (let token_returns = rewards_to_go token_level_rewards response_mask;
          w = otb_w_rows old_log_probs sum_pi_squared rollout_is_weights response_mask;
          response_lengths = map (\<lambda>m. of_int \<lfloor>sum_list m\<rfloor>) response_mask;
          width = (if response_lengths = [] then 0 else nat \<lfloor>Max (set response_lengths)\<rfloor>);
          all_w = map (pad_row width) (map2 unmasked response_mask w);
          all_returns = map (pad_row width) (map2 unmasked response_mask token_returns);
          live = filter (\<lambda>i. response_lengths ! i \<noteq> 0) [0..<length response_lengths];
          prompt_groups = id2list (select index live) live;
          baselines = foldl (\<lambda>B g. tir_group_step width epsilon handle_zero_tail all_returns all_w response_lengths B (prompt_groups g))
                        (map (\<lambda>_. replicate width 0) all_returns) (first_keys (select index live));
          all_advantages = tmap2 (-) all_returns baselines;
          advantages = map2 scatter_row response_mask all_advantages
      in (tmap2 (*) advantages response_mask, token_returns))"

end
