(* ===== verification/AdvantageLaws.thy ===== *)
theory AdvantageLaws
  imports Advantages
begin

text \<open>
  What the advantage estimators compute: group-relative advantages are centred, leave-one-out is the
  score minus the mean of the others, the vectorised variants agree with the loops, pass@k rewards one
  sample per group, generalised advantage estimation ignores masked tokens.
\<close>

section \<open>Groups\<close>

lemma id2list_filter:
  fixes index :: "'i list" and xs :: "'x list"
  shows "id2list index xs g = map snd (filter (\<lambda>p. fst p = g) (zip index xs))"
proof -
  have "foldl (\<lambda>d (i, x). d(i := d i @ [x])) d ps g = d g @ map snd (filter (\<lambda>p. fst p = g) ps)"
    for d :: "'i \<Rightarrow> 'x list" and ps
    by (induction ps arbitrary: d) auto
  from this [of "\<lambda>_. []"] show ?thesis by (simp add: id2list_def)
qed

lemma id2list_map2:
  "length index = length xs \<Longrightarrow> id2list index (map2 F index xs) g = map (F g) (id2list index xs g)"
  unfolding id2list_filter by (induction index xs rule: list_induct2) auto

lemma id2list_member: "i < length index \<Longrightarrow> length index = length xs \<Longrightarrow> xs ! i \<in> set (id2list index xs (index ! i))"
  unfolding id2list_filter by (force simp: in_set_conv_nth set_zip)

lemma length_id2list: "length index = length xs \<Longrightarrow> length (id2list index xs g) = length (filter (\<lambda>j. j = g) index)"
  unfolding id2list_filter by (induction index xs rule: list_induct2) auto

lemma id2list_positions:
  "j \<in> set (id2list index [0..<length index] g) \<longleftrightarrow> j < length index \<and> index ! j = g"
  unfolding id2list_filter by (auto simp: in_set_conv_nth set_zip image_iff)

text \<open>Reading the scores at the positions of a group gives the scores of the group.\<close>

lemma id2list_select:
  assumes "length index = length xs"
  shows "id2list index xs g = map (\<lambda>i. xs ! i) (id2list index [0..<length index] g)"
proof -
  have "zip index xs = map (\<lambda>(i, j). (i, xs ! j)) (zip index [0..<length index])"
    using assms by (intro nth_equalityI) auto
  then show ?thesis unfolding id2list_filter by (simp add: filter_map comp_def split_beta)
qed

lemma sum_centred: "xs \<noteq> [] \<Longrightarrow> (\<Sum>x\<leftarrow>xs. x - tmean xs) = 0"
proof -
  have "(\<Sum>x\<leftarrow>xs. x - c) = sum_list xs - real (length xs) * c" for c :: real
    by (induction xs) (auto simp: algebra_simps)
  then show "xs \<noteq> [] \<Longrightarrow> ?thesis" by (simp add: tmean_def)
qed

section \<open>Group statistics of the vectorised estimators\<close>

lemma index_add_nth:
  assumes "length gidx = length xs" and "\<forall>g\<in>set gidx. g < G" and "g < G"
  shows "index_add G gidx xs ! g = sum_list (id2list gidx xs g)"
proof -
  have "length acc = G \<Longrightarrow> (\<forall>p\<in>set ps. fst p < G) \<Longrightarrow>
      foldl (\<lambda>acc (g, x). acc[g := acc ! g + x]) acc ps ! g = acc ! g + sum_list (map snd (filter (\<lambda>p. fst p = g) ps))"
    for acc :: "real list" and ps
    by (induction ps arbitrary: acc) (auto simp: nth_list_update)
  moreover have "\<forall>p\<in>set (zip gidx xs). fst p < G" using assms(2) by (auto dest: set_zip_leftD)
  ultimately show ?thesis
    using assms(3) by (simp add: index_add_def id2list_filter)
qed

lemma length_index_add [simp]: "length (index_add G gidx xs) = G"
proof -
  have "length (foldl (\<lambda>acc (g, x). acc[g := acc ! g + x]) acc ps) = length acc" for acc :: "real list" and ps
    by (induction ps arbitrary: acc) auto
  then show ?thesis by (simp add: index_add_def)
qed

lemma sum_squares_centred:
  assumes "xs \<noteq> []"
  shows "(\<Sum>x\<leftarrow>xs. (x - tmean xs)\<^sup>2) = (\<Sum>x\<leftarrow>xs. x * x) - sum_list xs * sum_list xs / real (length xs)"
proof -
  have "(\<Sum>x\<leftarrow>xs. (x - c)\<^sup>2) = (\<Sum>x\<leftarrow>xs. x * x) - 2 * c * sum_list xs + real (length xs) * c\<^sup>2" for c :: real
    by (induction xs) (auto simp: algebra_simps power2_eq_square)
  moreover have "real (length xs) * tmean xs = sum_list xs" using assms by (simp add: tmean_def)
  ultimately have "(\<Sum>x\<leftarrow>xs. (x - tmean xs)\<^sup>2) = (\<Sum>x\<leftarrow>xs. x * x) - tmean xs * sum_list xs"
    by (simp add: power2_eq_square)
  then show ?thesis by (simp add: tmean_def)
qed

text \<open>The three columns of \<open>group_mean_std\<close> at a group that occurs.\<close>

lemma group_mean_std_columns:
  assumes len: "length scores = length gidx" and g: "g \<in> set gidx"
  defines "xs \<equiv> id2list gidx scores g"
  obtains mean std count where "group_mean_std scores gidx eps = Inr (mean, std, count)"
    and "mean ! g = id2mean xs"
    and "std ! g = (if length xs = 1 then 1 else sqrt (max ((tstd xs)\<^sup>2) eps))"
proof -
  define G where "G = Max (set gidx) + 1"
  have bound: "\<forall>g\<in>set gidx. g < G" by (auto simp: G_def less_Suc_eq_le)
  have gG: "g < G" and ne: "gidx \<noteq> []" using g bound by auto
  define n where "n = length xs"
  have n: "1 \<le> n" using id2list_member [of _ gidx scores] g len
    unfolding n_def xs_def by (metis One_nat_def Suc_leI in_set_conv_nth length_pos_if_in_set)
  have count: "index_add G gidx (map (\<lambda>_. 1) scores) ! g = real n"
  proof -
    have ones: "id2list gidx (map (\<lambda>_. 1 :: real) scores) g = map (\<lambda>_. 1) xs"
      using len unfolding xs_def id2list_filter by (induction scores gidx rule: list_induct2) auto
    have "sum_list (id2list gidx (map (\<lambda>_. 1) scores) g) = real n"
      unfolding n_def ones by (simp add: sum_list_triv)
    then show ?thesis using index_add_nth [of gidx "map (\<lambda>_. 1) scores" G g] bound gG len by simp
  qed
  have s1: "index_add G gidx scores ! g = sum_list xs"
    using index_add_nth [OF _ bound gG] len by (simp add: xs_def)
  have s2: "index_add G gidx (map (\<lambda>s. s * s) scores) ! g = (\<Sum>x\<leftarrow>xs. x * x)"
  proof -
    have "id2list gidx (map (\<lambda>s. s * s) scores) g = map (\<lambda>x. x * x) xs"
      using len unfolding xs_def id2list_filter by (induction scores gidx rule: list_induct2) auto
    then show ?thesis using index_add_nth [of gidx "map (\<lambda>s. s * s) scores" G g] bound gG len by simp
  qed
  have mx: "max (real n) 1 = real n" using n by simp
  have var: "((\<Sum>x\<leftarrow>xs. x * x) - sum_list xs * sum_list xs / real n) / (real n - 1) = (tstd xs)\<^sup>2" if "1 < n"
  proof -
    have "0 \<le> (\<Sum>x\<leftarrow>xs. (x - tmean xs)\<^sup>2) / (real n - 1)"
      using that by (intro divide_nonneg_nonneg sum_list_nonneg) auto
    moreover have "xs \<noteq> []" using that by (auto simp: n_def)
    ultimately show ?thesis using sum_squares_centred [of xs] by (simp add: tstd_def n_def)
  qed
  let ?mean = "map2 (\<lambda>s c. s / max c 1) (index_add G gidx scores) (index_add G gidx (map (\<lambda>_. 1) scores))"
  show thesis
  proof (rule that)
    show "group_mean_std scores gidx eps = Inr
      (map2 (\<lambda>m c. if c \<le> 1 then 0 else m) ?mean (index_add G gidx (map (\<lambda>_. 1) scores)),
       map2 (\<lambda>s c. if c \<le> 1 then 1 else s) (map (\<lambda>v. sqrt (max v eps)) (map2 (\<lambda>v c. v / max (c - 1) 1)
         (map (\<lambda>g. index_add G gidx (map (\<lambda>s. s * s) scores) ! g - (index_add G gidx scores ! g * index_add G gidx scores ! g)
            / max (index_add G gidx (map (\<lambda>_. 1) scores) ! g) 1) [0..<G])
         (index_add G gidx (map (\<lambda>_. 1) scores)))) (index_add G gidx (map (\<lambda>_. 1) scores)),
       index_add G gidx (map (\<lambda>_. 1) scores))"
      using len ne unfolding group_mean_std_def G_def Let_def by simp
    show "map2 (\<lambda>m c. if c \<le> 1 then 0 else m) ?mean (index_add G gidx (map (\<lambda>_. 1) scores)) ! g = id2mean xs"
      using gG n by (auto simp: count s1 mx id2mean_def tmean_def n_def [symmetric])
    show "map2 (\<lambda>s c. if c \<le> 1 then 1 else s) (map (\<lambda>v. sqrt (max v eps)) (map2 (\<lambda>v c. v / max (c - 1) 1)
         (map (\<lambda>g. index_add G gidx (map (\<lambda>s. s * s) scores) ! g - (index_add G gidx scores ! g * index_add G gidx scores ! g)
            / max (index_add G gidx (map (\<lambda>_. 1) scores) ! g) 1) [0..<G])
         (index_add G gidx (map (\<lambda>_. 1) scores)))) (index_add G gidx (map (\<lambda>_. 1) scores)) ! g
      = (if length xs = 1 then 1 else sqrt (max ((tstd xs)\<^sup>2) eps))"
    proof (cases "n = 1")
      case False
      then have "1 < n" "max (real n - 1) 1 = real n - 1" using n by (auto simp: max_def)
      with gG n var show ?thesis by (simp add: count s1 s2 mx n_def [symmetric])
    qed (use gG in \<open>simp add: count n_def [symmetric]\<close>)
  qed
qed

section \<open>Group-relative advantages\<close>

lemma length_grpo_scalars [simp]:
  "length (grpo_scalars index scores epsilon norm_adv) = min (length index) (length scores)"
  by (simp add: grpo_scalars_def Let_def)

lemma id2list_grpo:
  assumes "length index = length scores"
  shows "id2list index (grpo_scalars index scores epsilon norm_adv) g
    = map (\<lambda>s. (s - id2mean (id2list index scores g)) * (if norm_adv then 1 / (id2std (id2list index scores g) + epsilon) else 1))
        (id2list index scores g)"
  unfolding grpo_scalars_def Let_def using assms
  by (subst id2list_map2) (auto simp: divide_inverse)

lemma sum_grpo_group:
  assumes "length index = length scores" and "2 \<le> length (id2list index scores g)"
  shows "sum_list (id2list index (grpo_scalars index scores epsilon norm_adv) g) = 0"
proof -
  let ?xs = "id2list index scores g"
  let ?c = "if norm_adv then 1 / (id2std ?xs + epsilon) else 1"
  have "sum_list (map (\<lambda>s. (s - id2mean ?xs) * ?c) ?xs) = (\<Sum>s\<leftarrow>?xs. s - id2mean ?xs) * ?c"
    by (rule sum_list_mult_const)
  moreover have "(\<Sum>s\<leftarrow>?xs. s - id2mean ?xs) = 0"
  proof -
    have "?xs \<noteq> []" using assms(2) by auto
    from sum_centred [OF this] show ?thesis using assms(2) by (simp add: id2mean_def)
  qed
  ultimately show ?thesis by (simp only: id2list_grpo [OF assms(1)] mult_zero_left)
qed

text \<open>Leave-one-out.\<close>

lemma rloo_scalar:
  assumes "length index = length scores" and "k < length scores"
  defines "xs \<equiv> id2list index scores (index ! k)"
  shows "rloo_scalars index scores ! k =
    (if 2 \<le> length xs then scores ! k - (sum_list xs - scores ! k) / real (length xs - 1) else scores ! k)"
proof (cases "2 \<le> length xs")
  case True
  then have n: "real (length xs) \<noteq> 0" "real (length xs) - 1 \<noteq> 0" "1 < real (length xs)" "real (length xs - 1) = real (length xs) - 1"
    by (auto simp: of_nat_diff)
  have "scores ! k * real (length xs) / (real (length xs) - 1) - sum_list xs / real (length xs) * real (length xs) / (real (length xs) - 1)
      = scores ! k - (sum_list xs - scores ! k) / (real (length xs) - 1)"
  proof -
    have "sum_list xs / real (length xs) * real (length xs) = sum_list xs" using n(1) by simp
    then show ?thesis using n(2) by (simp only:) (simp add: divide_simps, simp add: algebra_simps)
  qed
  then show ?thesis
    using assms(1,2) True n unfolding rloo_scalars_def Let_def xs_def [symmetric]
    by (simp add: xs_def [symmetric] id2mean_def tmean_def)
next
  case False
  then show ?thesis using assms(1,2) by (simp add: rloo_scalars_def Let_def xs_def)
qed

lemma rloo_vectorized_scalar:
  assumes "length index = length scores" and "k < length scores"
  defines "xs \<equiv> id2list index scores (index ! k)"
  shows "rloo_vectorized_scalars index scores ! k =
    (if 2 \<le> length xs then scores ! k - (sum_list xs - scores ! k) / real (length xs - 1) else 0)"
proof -
  have c: "group_size index (index ! k) = real (length xs)"
    using assms(1) by (simp add: group_size_def xs_def length_id2list)
  have s: "group_sum index scores (index ! k) = sum_list xs"
    by (simp add: group_sum_def xs_def id2list_filter)
  show ?thesis
  proof (cases "2 \<le> length xs")
    case True
    then have n: "real (length xs) - 1 \<noteq> 0" "1 < real (length xs)" "real (length xs - 1) = real (length xs) - 1"
        "max (real (length xs) - 1) 1 = real (length xs) - 1"
      by (auto simp: of_nat_diff max_def)
    have "(real (length xs) * scores ! k - sum_list xs) / (real (length xs) - 1)
        = scores ! k - (sum_list xs - scores ! k) / (real (length xs) - 1)"
      using n(1) by (simp add: field_simps)
    then show ?thesis using assms(1,2) True n by (simp add: rloo_vectorized_scalars_def Let_def c s)
  next
    case False
    then show ?thesis using assms(1,2) by (simp add: rloo_vectorized_scalars_def Let_def c s)
  qed
qed

lemma rloo_lengths [simp]:
  "length (rloo_scalars index scores) = min (length index) (length scores)"
  "length (rloo_vectorized_scalars index scores) = min (length index) (length scores)"
  by (simp_all add: rloo_scalars_def rloo_vectorized_scalars_def Let_def)

text \<open>The length-weighted sum of OPO's centred scores.\<close>

lemma opo_weighted_sum:
  assumes "length index = length scores" and "length lens = length scores"
    and "2 \<le> length (id2list index scores g)" and "sum_list (id2list index lens g) \<noteq> 0"
  shows "sum_list (map2 (*) (id2list index lens g) (id2list index (opo_scalars index scores lens) g)) = 0"
proof -
  let ?xs = "id2list index scores g" and ?ls = "id2list index lens g"
  let ?b = "sum_list (map2 (*) ?ls ?xs) / sum_list ?ls"
  have len: "length ?ls = length ?xs" using assms(1,2) by (simp add: length_id2list)
  have opo: "id2list index (opo_scalars index scores lens) g = map (\<lambda>s. s - ?b) ?xs"
    using assms(3) id2list_map2 [OF assms(1), of "\<lambda>i s. s - opo_baseline (id2list index scores i) (id2list index lens i)" g]
    by (simp add: opo_scalars_def Let_def opo_baseline_def)
  have "sum_list (map2 (*) ls (map (\<lambda>s. s - b) xs)) = sum_list (map2 (*) ls xs) - b * sum_list ls"
    if "length ls = length xs" for ls xs and b :: real
    using that by (induction ls xs rule: list_induct2) (auto simp: algebra_simps)
  from this [OF len] show ?thesis unfolding opo using assms(4) by simp
qed

section \<open>Pass@k\<close>

definition passk_winner :: "(real list \<Rightarrow> nat) \<Rightarrow> 'i list \<Rightarrow> real list \<Rightarrow> 'i \<Rightarrow> nat" where
  "passk_winner topk index scores g = id2list index [0..<length scores] g ! topk (id2list index scores g)"

lemma first_keys_set: "set (first_keys index) = set index" and first_keys_distinct: "distinct (first_keys index)"
proof -
  have "set (foldl (\<lambda>ks i. if i \<in> set ks then ks else ks @ [i]) ks is) = set ks \<union> set is
      \<and> (distinct ks \<longrightarrow> distinct (foldl (\<lambda>ks i. if i \<in> set ks then ks else ks @ [i]) ks is))" for ks "is" :: "'a list"
    by (induction "is" arbitrary: ks) auto
  from this [of "[]" index] show "set (first_keys index) = set index" "distinct (first_keys index)"
    by (simp_all add: first_keys_def)
qed

text \<open>The loop writes one entry per group; the entries of different groups are different positions.\<close>

lemma passk_loop_result:
  assumes "\<forall>g\<in>set keys. 2 \<le> length (sc g)"
    and "distinct keys" and "\<And>g. g \<in> set keys \<Longrightarrow> win g < length adv \<and> lab (win g) = g"
    and "\<And>g. g \<in> set keys \<Longrightarrow> ix g ! topk (sc g) = win g"
  shows "\<exists>adv'. passk_loop topk sc ix eps na keys adv = Inr adv' \<and> length adv' = length adv
    \<and> (\<forall>i<length adv. adv' ! i = (if lab i \<in> set keys \<and> i = win (lab i) then passk_advantage (sc (lab i)) eps na
         else adv ! i))"
  using assms
proof (induction keys arbitrary: adv)
  case Nil
  then show ?case by simp
next
  case (Cons g keys)
  let ?adv = "adv[win g := passk_advantage (sc g) eps na]"
  obtain adv' where adv': "passk_loop topk sc ix eps na keys ?adv = Inr adv'" "length adv' = length adv"
      "\<forall>i<length adv. adv' ! i = (if lab i \<in> set keys \<and> i = win (lab i) then passk_advantage (sc (lab i)) eps na else ?adv ! i)"
    using Cons.IH [of ?adv] Cons.prems by auto
  have "adv' ! i = (if lab i \<in> set (g # keys) \<and> i = win (lab i) then passk_advantage (sc (lab i)) eps na else adv ! i)"
    if "i < length adv" for i
    using adv'(3) that Cons.prems(2) Cons.prems(3) [of g] by (auto simp: nth_list_update)
  with adv' Cons.prems show ?case by auto
qed

lemma passk_advantage_nonneg:
  assumes "2 \<le> length xs" and "0 < eps"
  shows "0 \<le> passk_advantage xs eps na"
proof -
  have "sorted_wrt (\<ge>) (rev (sort xs))" by (simp add: sorted_wrt_rev)
  then have "rev (sort xs) ! 1 \<le> rev (sort xs) ! 0"
    using assms(1) sorted_wrt_nth_less [of "(\<ge>)" "rev (sort xs)" 0 1] by simp
  moreover have "0 \<le> tstd xs"
    using assms(1) by (auto simp: tstd_def intro!: divide_nonneg_nonneg sum_list_nonneg)
  ultimately show ?thesis using assms(2) by (auto simp: passk_advantage_def Let_def)
qed

section \<open>Generalised advantage estimation\<close>

text \<open>With a mask of zeros and ones, the advantages at the unmasked tokens are those of the row
  without the masked tokens, and so are the carried numbers.\<close>

lemma gae_row_length [simp]: "length (fst (gae_row gamma lam xs)) = length xs"
  by (induction gamma lam xs rule: gae_row.induct) (auto simp: Let_def split: prod.splits)

lemma gae_row_compact:
  assumes "\<forall>(r, v, m)\<in>set xs. m = 0 \<or> m = 1"
  shows "map snd (filter (\<lambda>p. fst p \<noteq> 0) (zip (map (\<lambda>(r, v, m). m) xs) (fst (gae_row gamma lam xs))))
      = fst (gae_row gamma lam (filter (\<lambda>(r, v, m). m \<noteq> 0) xs))
    \<and> snd (gae_row gamma lam xs) = snd (gae_row gamma lam (filter (\<lambda>(r, v, m). m \<noteq> 0) xs))"
  using assms
proof (induction xs)
  case (Cons x xs)
  obtain r v m where x: "x = (r, v, m)" by (cases x)
  obtain a nv lg where rest: "gae_row gamma lam xs = (a, nv, lg)" by (cases "gae_row gamma lam xs")
  obtain a' where rest': "gae_row gamma lam (filter (\<lambda>(r, v, m). m \<noteq> 0) xs) = (a', nv, lg)"
    using Cons rest by (cases "gae_row gamma lam (filter (\<lambda>(r, v, m). m \<noteq> 0) xs)") auto
  from Cons x have "m = 0 \<or> m = 1" by auto
  with Cons x rest rest' show ?case by (auto simp: Let_def)
qed simp

text \<open>Without masked tokens and with \<open>lam = 1\<close> the advantage plus the value is the discounted return.\<close>

fun discounted_return :: "real \<Rightarrow> real list \<Rightarrow> real" where
  "discounted_return gamma [] = 0"
| "discounted_return gamma (r # rs) = r + gamma * discounted_return gamma rs"

lemma gae_row_return:
  assumes "\<forall>(r, v, m)\<in>set xs. m = 1"
  shows "(\<forall>k<length xs. fst (gae_row gamma 1 xs) ! k + fst (snd (xs ! k)) = discounted_return gamma (drop k (map fst xs)))
    \<and> fst (snd (gae_row gamma 1 xs)) = (case xs of [] \<Rightarrow> 0 | x # _ \<Rightarrow> fst (snd x))
    \<and> snd (snd (gae_row gamma 1 xs)) + fst (snd (gae_row gamma 1 xs)) = discounted_return gamma (map fst xs)"
  using assms
proof (induction xs)
  case (Cons x xs)
  obtain r v m where x: "x = (r, v, m)" by (cases x)
  with Cons.prems have m: "m = 1" by simp
  obtain a nv lg where rest: "gae_row gamma 1 xs = (a, nv, lg)" by (cases "gae_row gamma 1 xs")
  have ih: "lg + nv = discounted_return gamma (map fst xs)"
      "\<forall>k<length xs. a ! k + fst (snd (xs ! k)) = discounted_return gamma (drop k (map fst xs))"
    using Cons rest by auto
  have cur: "r + gamma * nv - v + gamma * lg + v = r + gamma * discounted_return gamma (map fst xs)"
    unfolding ih(1) [symmetric] by (simp add: algebra_simps)
  have "fst (gae_row gamma 1 (x # xs)) ! k + fst (snd ((x # xs) ! k)) = discounted_return gamma (drop k (map fst (x # xs)))"
    if "k < length (x # xs)" for k
    using that ih(2) cur x m rest by (cases k) (auto simp: Let_def)
  with cur x m rest show ?case by (auto simp: Let_def)
qed simp

section \<open>Properties\<close>

text \<open>C36: GRPO advantages are one number per response, spread over the unmasked tokens. In every
  group of at least two responses these numbers sum to zero, with or without the normalisation by the
  standard deviation; a response that is alone in its group keeps its score (divided by
  \<open>1 + epsilon\<close> when normalising).\<close>

theorem grpo_group_centred:
  assumes "length index = length rewards" and "length response_mask = length rewards"
  shows "\<exists>scalars. compute_grpo_outcome_advantage rewards response_mask index epsilon norm_adv
        = (mask_rows scalars response_mask, mask_rows scalars response_mask)
    \<and> length scalars = length rewards
    \<and> (\<forall>g. 2 \<le> length (id2list index (row_sums rewards) g) \<longrightarrow> sum_list (id2list index scalars g) = 0)
    \<and> (\<forall>k<length rewards. length (id2list index (row_sums rewards) (index ! k)) = 1
        \<longrightarrow> scalars ! k = row_sums rewards ! k / (if norm_adv then 1 + epsilon else 1))"
proof -
  let ?scalars = "grpo_scalars index (row_sums rewards) epsilon norm_adv"
  have "?scalars ! k = row_sums rewards ! k / (if norm_adv then 1 + epsilon else 1)"
    if "k < length rewards" "length (id2list index (row_sums rewards) (index ! k)) = 1" for k
    using that assms by (simp add: grpo_scalars_def Let_def id2mean_def id2std_def)
  then show ?thesis
    using sum_grpo_group [of index "row_sums rewards" _ epsilon norm_adv] assms
    unfolding compute_grpo_outcome_advantage_def Let_def
    by (intro exI [where x = ?scalars]) simp
qed

theorem grpo_group_centred_witness:
  "\<exists>scalars. compute_grpo_outcome_advantage [[1, 0], [0, 3], [5, 0]] [[1, 1], [1, 0], [1, 1]] [7, 7, 9 :: int] 1 True
        = (mask_rows scalars [[1, 1], [1, 0], [1, 1]], mask_rows scalars [[1, 1], [1, 0], [1, 1]])
    \<and> length scalars = length [[1, 0], [0, 3], [5, 0 :: real]]
    \<and> (\<forall>g. 2 \<le> length (id2list [7, 7, 9 :: int] (row_sums [[1, 0], [0, 3], [5, 0]]) g) \<longrightarrow> sum_list (id2list [7, 7, 9] scalars g) = 0)
    \<and> (\<forall>k<length [[1, 0], [0, 3], [5, 0 :: real]]. length (id2list [7, 7, 9 :: int] (row_sums [[1, 0], [0, 3], [5, 0]]) ([7, 7, 9] ! k)) = 1
        \<longrightarrow> scalars ! k = row_sums [[1, 0], [0, 3], [5, 0]] ! k / (if True then 1 + 1 else 1))"
  by (rule grpo_group_centred) simp_all

text \<open>On integer labels the vectorised GRPO estimator returns exactly the result of the loop
  version, when the scores are only centred, or when they are normalised and no group of two or more
  responses has a variance below \<open>epsilon\<close> (the vectorised variance is floored there, the loop's is
  not).\<close>

theorem grpo_vectorized_agrees:
  assumes "length index = length rewards" and "0 \<le> epsilon"
    and "norm_adv \<longrightarrow> (\<forall>g\<in>set index. 2 \<le> length (id2list index (row_sums rewards) g)
           \<longrightarrow> epsilon \<le> (tstd (id2list index (row_sums rewards) g))\<^sup>2)"
  shows "compute_grpo_vectorized_outcome_advantage rewards response_mask index epsilon norm_adv
    = Inr (compute_grpo_outcome_advantage rewards response_mask index epsilon norm_adv)"
proof -
  let ?sc = "row_sums rewards"
  obtain mean std count where gms: "group_mean_std ?sc index epsilon = Inr (mean, std, count)"
    using assms(1) by (auto simp: group_mean_std_def Let_def)
  have cols: "mean ! g = id2mean (id2list index ?sc g) \<and> (norm_adv \<longrightarrow> std ! g = id2std (id2list index ?sc g))"
    if g: "g \<in> set index" for g
  proof -
    from group_mean_std_columns [of ?sc index g epsilon] g assms(1) gms
    have "mean ! g = id2mean (id2list index ?sc g)"
      and std: "std ! g = (if length (id2list index ?sc g) = 1 then 1 else sqrt (max ((tstd (id2list index ?sc g))\<^sup>2) epsilon))"
      by (metis Inr_inject length_row_sums prod.inject)+
    moreover have "std ! g = id2std (id2list index ?sc g)" if norm_adv
    proof (cases "length (id2list index ?sc g) = 1")
      case False
      obtain k where "k < length index" "index ! k = g" using g by (metis in_set_conv_nth)
      then have "id2list index ?sc g \<noteq> []" using id2list_member [of k index ?sc] assms(1) by auto
      with False have two: "2 \<le> length (id2list index ?sc g)"
        by (metis One_nat_def Suc_1 Suc_leI length_greater_0_conv nat_less_le)
      then have "0 \<le> tstd (id2list index ?sc g)"
        by (auto simp: tstd_def intro!: divide_nonneg_nonneg sum_list_nonneg)
      moreover have "epsilon \<le> (tstd (id2list index ?sc g))\<^sup>2" using assms(3) that two g by blast
      ultimately show ?thesis using std False by (simp add: id2std_def max_absorb1)
    qed (simp add: std id2std_def)
    ultimately show ?thesis by blast
  qed
  have "map2 (\<lambda>g s. if norm_adv then (s - mean ! g) / (std ! g + epsilon) else s - mean ! g) index ?sc
      = grpo_scalars index ?sc epsilon norm_adv"
    unfolding grpo_scalars_def Let_def using assms(1) cols by (auto simp: set_zip intro!: map_cong)
  then show ?thesis
    unfolding compute_grpo_vectorized_outcome_advantage_def compute_grpo_outcome_advantage_def Let_def gms
    by simp
qed

theorem grpo_vectorized_agrees_witness:
  "compute_grpo_vectorized_outcome_advantage [[1, 0], [0, 3], [5, 0]] [[1, 1], [1, 0], [1, 1]] [0, 0, 1] 1 False
    = Inr (compute_grpo_outcome_advantage [[1, 0], [0, 3], [5, 0]] [[1, 1], [1, 0], [1, 1]] [0, 0, 1 :: nat] 1 False)"
  by (rule grpo_vectorized_agrees) simp_all

text \<open>RLOO gives every response of a group of two or more its score minus the mean score of the
  other responses of the group, in the loop version and in the vectorised one. They part on a
  response that is alone in its group: the loop keeps the score, the vectorised version gives 0.\<close>

theorem rloo_leave_one_out:
  assumes "length index = length rewards" and "k < length rewards"
  shows "let scores = row_sums rewards; xs = id2list index scores (index ! k);
             loo = scores ! k - (sum_list xs - scores ! k) / real (length xs - 1) in
    rloo_scalars index scores ! k = (if 2 \<le> length xs then loo else scores ! k)
    \<and> rloo_vectorized_scalars index scores ! k = (if 2 \<le> length xs then loo else 0)
    \<and> compute_rloo_outcome_advantage rewards response_mask index
        = (mask_rows (rloo_scalars index scores) response_mask, mask_rows (rloo_scalars index scores) response_mask)
    \<and> compute_rloo_vectorized_outcome_advantage rewards response_mask index
        = (mask_rows (rloo_vectorized_scalars index scores) response_mask,
           mask_rows (rloo_vectorized_scalars index scores) response_mask)"
  using rloo_scalar [of index "row_sums rewards" k] rloo_vectorized_scalar [of index "row_sums rewards" k] assms
  by (simp add: Let_def compute_rloo_outcome_advantage_def compute_rloo_vectorized_outcome_advantage_def)

theorem rloo_leave_one_out_witness:
  "let scores = row_sums [[1, 0], [0, 3], [5, 0]]; xs = id2list [7, 7, 9 :: int] scores ([7, 7, 9] ! 2);
       loo = scores ! 2 - (sum_list xs - scores ! 2) / real (length xs - 1) in
    rloo_scalars [7, 7, 9 :: int] scores ! 2 = (if 2 \<le> length xs then loo else scores ! 2)
    \<and> rloo_vectorized_scalars [7, 7, 9 :: int] scores ! 2 = (if 2 \<le> length xs then loo else 0)
    \<and> compute_rloo_outcome_advantage [[1, 0], [0, 3], [5, 0]] [[1, 1], [1, 1], [1, 0]] [7, 7, 9 :: int]
        = (mask_rows (rloo_scalars [7, 7, 9 :: int] scores) [[1, 1], [1, 1], [1, 0]],
           mask_rows (rloo_scalars [7, 7, 9 :: int] scores) [[1, 1], [1, 1], [1, 0]])
    \<and> compute_rloo_vectorized_outcome_advantage [[1, 0], [0, 3], [5, 0]] [[1, 1], [1, 1], [1, 0]] [7, 7, 9 :: int]
        = (mask_rows (rloo_vectorized_scalars [7, 7, 9 :: int] scores) [[1, 1], [1, 1], [1, 0]],
           mask_rows (rloo_vectorized_scalars [7, 7, 9 :: int] scores) [[1, 1], [1, 1], [1, 0]])"
  by (rule rloo_leave_one_out) simp_all

text \<open>Pass@k: when every group has at least two responses the estimator returns; exactly one
  response per group - one whose score is the group's maximum - can have a non-zero advantage, and that
  advantage is the non-negative (normalised) gap between the two best scores of the group. The only
  thing used of the top-2 selection is that it names a position of the maximum.\<close>

theorem passk_one_winner_per_group:
  assumes "length index = length rewards" and "0 < epsilon"
    and "\<forall>g\<in>set index. 2 \<le> length (id2list index (row_sums rewards) g)"
    and topk: "\<forall>xs. xs \<noteq> [] \<longrightarrow> topk xs < length xs \<and> xs ! topk xs = Max (set xs)"
  shows "\<exists>scalars. compute_grpo_passk_outcome_advantage topk rewards response_mask index epsilon (Some norm_option)
      = Inr (mask_rows scalars response_mask, mask_rows scalars response_mask)
    \<and> length scalars = length rewards
    \<and> (\<forall>k<length rewards. let xs = id2list index (row_sums rewards) (index ! k) in
        0 \<le> scalars ! k
        \<and> (scalars ! k \<noteq> 0 \<longrightarrow> k = passk_winner topk index (row_sums rewards) (index ! k) \<and> row_sums rewards ! k = Max (set xs)
             \<and> scalars ! k = passk_advantage xs epsilon (norm_option \<noteq> Some False)))"
proof -
  let ?sc = "row_sums rewards"
  let ?na = "case norm_option of None \<Rightarrow> True | Some b \<Rightarrow> b"
  let ?win = "passk_winner topk index ?sc"
  have win: "?win g < length index \<and> index ! ?win g = g \<and> ?sc ! ?win g = Max (set (id2list index ?sc g))"
    if "g \<in> set index" for g
  proof -
    let ?xs = "id2list index ?sc g" and ?ps = "id2list index [0..<length index] g"
    have "?xs \<noteq> []" using assms(3) that by fastforce
    then have t: "topk ?xs < length ?xs" "?xs ! topk ?xs = Max (set ?xs)" using topk by blast+
    have xs: "?xs = map (\<lambda>i. ?sc ! i) ?ps" using assms(1) by (intro id2list_select) simp
    then have "topk ?xs < length ?ps" "?sc ! (?ps ! topk ?xs) = Max (set ?xs)"
      using t by (metis length_map, metis length_map nth_map)
    moreover from this(1) have "?ps ! topk ?xs \<in> set ?ps" by simp
    then have "?ps ! topk ?xs < length index \<and> index ! (?ps ! topk ?xs) = g"
      by (simp only: id2list_positions)
    ultimately show ?thesis using assms(1) by (simp add: passk_winner_def)
  qed
  have "\<exists>adv'. passk_loop topk (id2list index ?sc) (id2list index [0..<length ?sc]) epsilon ?na (first_keys index)
        (replicate (length ?sc) 0) = Inr adv' \<and> length adv' = length (replicate (length ?sc) (0 :: real))
    \<and> (\<forall>i<length (replicate (length ?sc) (0 :: real)). adv' ! i = (if index ! i \<in> set (first_keys index) \<and> i = ?win (index ! i)
         then passk_advantage (id2list index ?sc (index ! i)) epsilon ?na else replicate (length ?sc) 0 ! i))"
    using assms(1,3) win
    by (intro passk_loop_result) (auto simp: first_keys_set first_keys_distinct passk_winner_def)
  then obtain scalars where run: "passk_loop topk (id2list index ?sc) (id2list index [0..<length ?sc]) epsilon ?na
        (first_keys index) (replicate (length ?sc) 0) = Inr scalars"
    and len: "length scalars = length rewards"
    and nth: "\<forall>i<length rewards. scalars ! i = (if i = ?win (index ! i)
        then passk_advantage (id2list index ?sc (index ! i)) epsilon ?na else 0)"
    using assms(1) by (auto simp: first_keys_set)
  have "0 \<le> passk_advantage (id2list index ?sc (index ! k)) epsilon ?na" if "k < length rewards" for k
    using that assms(1-3) by (intro passk_advantage_nonneg) auto
  moreover have "?na = (norm_option \<noteq> Some False)" by (cases norm_option) auto
  ultimately have "\<forall>k<length rewards. let xs = id2list index ?sc (index ! k) in
        0 \<le> scalars ! k
        \<and> (scalars ! k \<noteq> 0 \<longrightarrow> k = ?win (index ! k) \<and> ?sc ! k = Max (set xs)
             \<and> scalars ! k = passk_advantage xs epsilon (norm_option \<noteq> Some False))"
    using nth win assms(1) by (auto simp: Let_def) (metis nth_mem)+
  with run len show ?thesis
    unfolding compute_grpo_passk_outcome_advantage_def by (auto simp: Let_def)
qed

definition first_max :: "real list \<Rightarrow> nat" where
  "first_max xs = hd (filter (\<lambda>i. xs ! i = Max (set xs)) [0..<length xs])"

lemma first_max: "xs \<noteq> [] \<Longrightarrow> first_max xs < length xs \<and> xs ! first_max xs = Max (set xs)"
proof -
  assume ne: "xs \<noteq> []"
  let ?is = "filter (\<lambda>i. xs ! i = Max (set xs)) [0..<length xs]"
  have "Max (set xs) \<in> set xs" using ne by (intro Max_in) auto
  then have "?is \<noteq> []" by (auto simp: in_set_conv_nth filter_empty_conv)
  then have "hd ?is \<in> set ?is" by (rule hd_in_set)
  then show ?thesis unfolding first_max_def by auto
qed

theorem passk_one_winner_per_group_witness:
  "\<exists>scalars. compute_grpo_passk_outcome_advantage first_max [[1, 0], [0, 3]] [[1, 1], [1, 0]] [7, 7 :: int] 1 (Some None)
      = Inr (mask_rows scalars [[1, 1], [1, 0]], mask_rows scalars [[1, 1], [1, 0]])
    \<and> length scalars = length [[1, 0], [0, 3 :: real]]
    \<and> (\<forall>k<length [[1, 0], [0, 3 :: real]]. let xs = id2list [7, 7 :: int] (row_sums [[1, 0], [0, 3]]) ([7, 7] ! k) in
        0 \<le> scalars ! k
        \<and> (scalars ! k \<noteq> 0 \<longrightarrow> k = passk_winner first_max [7, 7 :: int] (row_sums [[1, 0], [0, 3]]) ([7, 7] ! k)
             \<and> row_sums [[1, 0], [0, 3]] ! k = Max (set xs)
             \<and> scalars ! k = passk_advantage xs 1 (None \<noteq> Some False)))"
  by (rule passk_one_winner_per_group) (simp_all add: first_max, simp add: id2list_def row_sums_def)

text \<open>OPO subtracts the length-weighted mean: in every group of at least two responses the
  advantages weighted by response length sum to zero (when the group has any unmasked token).\<close>

theorem opo_length_weighted_centred:
  assumes "length index = length rewards" and "length response_mask = length rewards"
    and "2 \<le> length (id2list index (row_sums rewards) g)"
    and "sum_list (id2list index (row_sums response_mask) g) \<noteq> 0"
  shows "\<exists>scalars. compute_opo_outcome_advantage rewards response_mask index
        = (mask_rows scalars response_mask, mask_rows scalars response_mask)
    \<and> sum_list (map2 (*) (id2list index (row_sums response_mask) g) (id2list index scalars g)) = 0"
  using opo_weighted_sum [OF _ _ assms(3,4)] assms(1,2)
  unfolding compute_opo_outcome_advantage_def Let_def
  by (intro exI [where x = "opo_scalars index (row_sums rewards) (row_sums response_mask)"]) simp

theorem opo_length_weighted_centred_witness:
  "\<exists>scalars. compute_opo_outcome_advantage [[1, 0], [0, 3]] [[1, 1], [1, 0]] [7, 7 :: int]
        = (mask_rows scalars [[1, 1], [1, 0]], mask_rows scalars [[1, 1], [1, 0]])
    \<and> sum_list (map2 (*) (id2list [7, 7 :: int] (row_sums [[1, 1], [1, 0]]) 7) (id2list [7, 7 :: int] scalars 7)) = 0"
  by (rule opo_length_weighted_centred) (simp_all add: id2list_def row_sums_def)

text \<open>Generalised advantage estimation skips observation tokens: for a mask of zeros and ones,
  the advantages of a row at its unmasked tokens are those computed on the row with the masked tokens
  removed. In particular, with \<open>lam = 1\<close> the advantage plus the value at the \<open>k\<close>-th unmasked token is the
  discounted sum of the rewards of the unmasked tokens from there on.\<close>

theorem gae_skips_masked_tokens:
  assumes "\<forall>(r, v, m)\<in>set row. m = 0 \<or> m = 1"
  shows "let live = filter (\<lambda>(r, v, m). m \<noteq> 0) row in
    unmasked (map (\<lambda>(r, v, m). m) row) (fst (gae_row gamma lam row)) = fst (gae_row gamma lam live)
    \<and> (\<forall>k<length live. fst (gae_row gamma 1 live) ! k + fst (snd (live ! k)) = discounted_return gamma (drop k (map fst live)))
    \<and> gae_advantages gamma lam [map fst row] [map (\<lambda>x. fst (snd x)) row] [map (\<lambda>x. snd (snd x)) row] = [fst (gae_row gamma lam row)]"
proof -
  let ?live = "filter (\<lambda>(r, v, m). m \<noteq> 0) row"
  have "\<forall>(r, v, m)\<in>set ?live. m = 1" using assms by auto
  from gae_row_return [OF this] gae_row_compact [OF assms]
  have "unmasked (map (\<lambda>(r, v, m). m) row) (fst (gae_row gamma lam row)) = fst (gae_row gamma lam ?live)"
    and "\<forall>k<length ?live. fst (gae_row gamma 1 ?live) ! k + fst (snd (?live ! k)) = discounted_return gamma (drop k (map fst ?live))"
    unfolding unmasked_def by blast+
  moreover have "zip (map fst row) (zip (map (\<lambda>x. fst (snd x)) row) (map (\<lambda>x. snd (snd x)) row)) = row"
    by (intro nth_equalityI) auto
  ultimately show ?thesis by (simp add: Let_def gae_advantages_def)
qed

theorem gae_skips_masked_tokens_witness:
  "let row = [(1, 2, 1), (5, 7, 0), (3, 4, 1)]; live = filter (\<lambda>(r, v, m). m \<noteq> 0) row in
    unmasked (map (\<lambda>(r, v, m). m) row) (fst (gae_row (1/2) 1 row)) = fst (gae_row (1/2) 1 live)
    \<and> (\<forall>k<length live. fst (gae_row (1/2) 1 live) ! k + fst (snd (live ! k)) = discounted_return (1/2) (drop k (map fst live)))
    \<and> gae_advantages (1/2) 1 [map fst row] [map (\<lambda>x. fst (snd x)) row] [map (\<lambda>x. snd (snd x)) row] = [fst (gae_row (1/2) 1 row)]"
  using gae_skips_masked_tokens [of "[(1, 2, 1), (5, 7, 0), (3, 4, 1)]" "1/2" 1] by (simp only: Let_def) simp

end
