(* ===== verification/PolicyLoss.thy ===== *)
theory PolicyLoss
  imports TensorOps DataProto
begin

text \<open>
  The losses of \<open>verl/trainer/ppo/core_algos.py\<close>: KL controllers, loss aggregation over a
  data-parallel batch, the policy losses, the value loss and the KL penalties. Only values are
  modelled: \<open>detach\<close> is the identity.
\<close>

section \<open>KL controllers\<close>

datatype kl_controller =
    AdaptiveKLController (kl_value: real) (kl_target: real) (kl_horizon: real)
  | FixedKLController (kl_value: real)

fun kl_update :: "kl_controller \<Rightarrow> real \<Rightarrow> real \<Rightarrow> kl_controller" where
  "kl_update (AdaptiveKLController v target horizon) current_kl n_steps =
     (let proportional_error = clamp (-0.2) 0.2 (current_kl / target - 1);
          mult = 1 + proportional_error * n_steps / horizon
      in AdaptiveKLController (v * mult) target horizon)"
| "kl_update (FixedKLController v) current_kl n_steps = FixedKLController v"

record kl_ctrl_config =
  kl_type :: string
  kl_coef :: real
  kl_target_kl :: real
  kl_ctrl_horizon :: real

definition get_kl_controller :: "kl_ctrl_config \<Rightarrow> kl_controller res" where
  "get_kl_controller kl_ctrl =
     (if kl_type kl_ctrl = ''fixed'' then Inr (FixedKLController (kl_coef kl_ctrl))
      else if kl_type kl_ctrl = ''adaptive''
      then rbind (rassert (kl_ctrl_horizon kl_ctrl > 0)) (\<lambda>_.
           Inr (AdaptiveKLController (kl_coef kl_ctrl) (kl_target_kl kl_ctrl) (kl_ctrl_horizon kl_ctrl)))
      else Inl NotImplementedError)"

definition compute_rewards :: "tensor \<Rightarrow> tensor \<Rightarrow> tensor \<Rightarrow> real \<Rightarrow> tensor" where
  "compute_rewards token_level_scores old_log_prob ref_log_prob kl_ratio =
     tmap2 (-) token_level_scores (tmap (\<lambda>kl. kl * kl_ratio) (tmap2 (-) old_log_prob ref_log_prob))"

section \<open>Loss aggregation\<close>

record batch_info =
  dp_size :: nat
  batch_num_tokens :: "real option"
  global_batch_size :: "real option"
  loss_scale_factor :: "real option"

text \<open>\<open>masked_sum\<close> of a vector.\<close>

definition masked_sum1 :: "real list \<Rightarrow> real list \<Rightarrow> real" where
  "masked_sum1 vals m = sum_list (map2 (\<lambda>v m. (if m \<noteq> 0 then v else 0) * m) vals m)"

definition tensor_width :: "tensor \<Rightarrow> real" where
  "tensor_width A = (case A of [] \<Rightarrow> 0 | row # _ \<Rightarrow> real (length row))"

definition seq_token_sum :: "tensor \<Rightarrow> tensor \<Rightarrow> real list" where
  "seq_token_sum loss_mat loss_mask = row_sums (tmap2 (*) loss_mat loss_mask)"

definition seq_live :: "tensor \<Rightarrow> real list" where
  "seq_live loss_mask = map (\<lambda>s. of_bool (s > 0)) (row_sums loss_mask)"

text \<open>The denominator: given globally, or computed locally, which is refused with several ranks.\<close>

definition denominator :: "nat \<Rightarrow> real option \<Rightarrow> real \<Rightarrow> real res" where
  "denominator dp global local_value =
     (case global of
        Some n \<Rightarrow> Inr n
      | None \<Rightarrow> rbind (rcheck ValueError (\<not> 1 < dp)) (\<lambda>_. Inr local_value))"

definition agg_loss :: "tensor \<Rightarrow> tensor \<Rightarrow> string \<Rightarrow> batch_info \<Rightarrow> real res" where
  "agg_loss loss_mat loss_mask loss_agg_mode info =
     (if loss_agg_mode = ''token-mean''
      then rbind (denominator (dp_size info) (batch_num_tokens info) (tsum loss_mask)) (\<lambda>n.
           Inr (masked_sum loss_mat loss_mask / n * real (dp_size info)))
      else if loss_agg_mode \<in> {''seq-mean-token-sum'', ''seq-mean-token-sum-norm''}
      then (let seq_losses = seq_token_sum loss_mat loss_mask; seq_mask = seq_live loss_mask in
            rbind (denominator (dp_size info) (global_batch_size info) (sum_list seq_mask)) (\<lambda>n.
            (let loss = masked_sum1 seq_losses seq_mask / n * real (dp_size info) in
             Inr (if loss_agg_mode = ''seq-mean-token-sum-norm''
                  then loss / (case loss_scale_factor info of None \<Rightarrow> tensor_width loss_mask | Some f \<Rightarrow> f)
                  else loss))))
      else if loss_agg_mode = ''seq-mean-token-mean''
      then (let seq_losses = map2 (\<lambda>s n. s / (n + 1 / 10 ^ 8)) (seq_token_sum loss_mat loss_mask) (row_sums loss_mask);
                seq_mask = seq_live loss_mask in
            rbind (denominator (dp_size info) (global_batch_size info) (sum_list seq_mask)) (\<lambda>n.
            Inr (masked_sum1 seq_losses seq_mask / n * real (dp_size info))))
      else Inl ValueError)"

section \<open>Policy losses\<close>

record policy_loss_config =
  clip_cov_ratio :: "real option"
  clip_cov_ub :: "real option"
  clip_cov_lb :: "real option"
  kl_cov_ratio :: "real option"
  ppo_kl_coef :: "real option"

record actor_config =
  clip_ratio :: real
  clip_ratio_low :: "real option"
  clip_ratio_high :: "real option"
  clip_ratio_c :: "real option"
  tau_pos :: real
  tau_neg :: real
  policy_loss :: "policy_loss_config option"
  global_batch_info :: batch_info

text \<open>The inputs common to all policy losses.\<close>

record policy_inputs =
  old_log_prob :: tensor
  log_prob :: tensor
  advantages :: tensor
  response_mask :: tensor
  rollout_is_weights :: "tensor option"

type_synonym loss_result = "(real \<times> real pydict) res"

definition or_else :: "'a option \<Rightarrow> 'a \<Rightarrow> 'a" where
  "or_else x d = (case x of None \<Rightarrow> d | Some y \<Rightarrow> y)"

definition clip_low :: "actor_config \<Rightarrow> real" where
  "clip_low config = or_else (clip_ratio_low config) (clip_ratio config)"

definition clip_high :: "actor_config \<Rightarrow> real" where
  "clip_high config = or_else (clip_ratio_high config) (clip_ratio config)"

definition negative_approx_kl :: "policy_inputs \<Rightarrow> tensor" where
  "negative_approx_kl inp = tmap2 (\<lambda>l old. clamp (-20) 20 (l - old)) (log_prob inp) (old_log_prob inp)"

definition raw_approx_kl :: "policy_inputs \<Rightarrow> tensor" where
  "raw_approx_kl inp = tmap2 (-) (log_prob inp) (old_log_prob inp)"

definition mean_ppo_kl :: "tensor \<Rightarrow> policy_inputs \<Rightarrow> real" where
  "mean_ppo_kl kl inp = masked_mean (tmap uminus kl) (response_mask inp)"

definition is_weighted :: "policy_inputs \<Rightarrow> tensor \<Rightarrow> tensor" where
  "is_weighted inp pg_losses =
     (case rollout_is_weights inp of None \<Rightarrow> pg_losses | Some w \<Rightarrow> tmap2 (*) pg_losses w)"

definition fraction :: "bool list list \<Rightarrow> tensor \<Rightarrow> real" where
  "fraction flags m = masked_mean (tmap of_bool flags) m"

text \<open>The token-level loss of PPO with dual clipping, and the two clip indicators.\<close>

definition ppo_loss1 :: "real \<Rightarrow> real \<Rightarrow> real" where
  "ppo_loss1 a r = - a * r"

definition ppo_loss2 :: "real \<Rightarrow> real \<Rightarrow> real \<Rightarrow> real \<Rightarrow> real" where
  "ppo_loss2 low high a r = - a * clamp (1 - low) (1 + high) r"

definition ppo_token_loss :: "real \<Rightarrow> real \<Rightarrow> real \<Rightarrow> real \<Rightarrow> real \<Rightarrow> real" where
  "ppo_token_loss low high c a r =
     (let clip_pg_losses1 = max (ppo_loss1 a r) (ppo_loss2 low high a r);
          pg_losses3 = - a * c;
          clip_pg_losses2 = min pg_losses3 clip_pg_losses1
      in if a < 0 then clip_pg_losses2 else clip_pg_losses1)"

definition ppo_clipped :: "real \<Rightarrow> real \<Rightarrow> real \<Rightarrow> real \<Rightarrow> bool" where
  "ppo_clipped low high a r = (ppo_loss2 low high a r > ppo_loss1 a r)"

definition ppo_clipped_lower :: "real \<Rightarrow> real \<Rightarrow> real \<Rightarrow> real \<Rightarrow> real \<Rightarrow> bool" where
  "ppo_clipped_lower low high c a r = (max (ppo_loss1 a r) (ppo_loss2 low high a r) > - a * c \<and> a < 0)"

definition ppo_metrics :: "real \<Rightarrow> real \<Rightarrow> real \<Rightarrow> real pydict" where
  "ppo_metrics clipfrac kl clipfrac_lower =
     [(''actor/pg_clipfrac'', clipfrac), (''actor/ppo_kl'', kl), (''actor/pg_clipfrac_lower'', clipfrac_lower)]"

text \<open>The deprecated entry point: \<open>cliprange\<close> is the fallback of both bounds.\<close>

definition resolve_cliprange :: "real option \<Rightarrow> real option \<Rightarrow> real res" where
  "resolve_cliprange specific cliprange =
     (case specific of Some x \<Rightarrow> Inr x | None \<Rightarrow> (case cliprange of Some x \<Rightarrow> Inr x | None \<Rightarrow> Inl TypeError))"

definition plain_batch :: batch_info where
  "plain_batch = \<lparr>dp_size = 1, batch_num_tokens = None, global_batch_size = None, loss_scale_factor = None\<rparr>"

definition compute_policy_loss ::
    "policy_inputs \<Rightarrow> real option \<Rightarrow> real option \<Rightarrow> real option \<Rightarrow> real \<Rightarrow> string \<Rightarrow> (real \<times> real \<times> real \<times> real) res" where
  "compute_policy_loss inp cliprange cliprange_low cliprange_high c loss_agg_mode =
     rbind (rassert (c > 1)) (\<lambda>_.
     rbind (resolve_cliprange cliprange_low cliprange) (\<lambda>low.
     rbind (resolve_cliprange cliprange_high cliprange) (\<lambda>high.
     (let kl = negative_approx_kl inp; ratio = tmap exp kl; adv = advantages inp; m = response_mask inp in
      rbind (agg_loss (tmap2 (ppo_token_loss low high c) adv ratio) m loss_agg_mode plain_batch) (\<lambda>pg_loss.
      Inr (pg_loss, fraction (tmap2 (ppo_clipped low high) adv ratio) m, mean_ppo_kl kl inp,
           fraction (tmap2 (ppo_clipped_lower low high c) adv ratio) m))))))"

definition compute_policy_loss_vanilla :: "actor_config option \<Rightarrow> policy_inputs \<Rightarrow> string \<Rightarrow> loss_result" where
  "compute_policy_loss_vanilla config_option inp loss_agg_mode =
     (case config_option of
        None \<Rightarrow> Inl AssertionError
      | Some config \<Rightarrow>
          (let low = clip_low config; high = clip_high config; c = or_else (clip_ratio_c config) 3 in
           rbind (rassert (c > 1)) (\<lambda>_.
           (let kl = negative_approx_kl inp; ratio = tmap exp kl; adv = advantages inp; m = response_mask inp;
                pg_losses = is_weighted inp (tmap2 (ppo_token_loss low high c) adv ratio) in
            rbind (agg_loss pg_losses m loss_agg_mode (global_batch_info config)) (\<lambda>pg_loss.
            Inr (pg_loss, ppo_metrics (fraction (tmap2 (ppo_clipped low high) adv ratio) m) (mean_ppo_kl kl inp)
                   (fraction (tmap2 (ppo_clipped_lower low high c) adv ratio) m)))))))"

text \<open>DPPO: a truncated ratio and a validity mask from a divergence of the token's probabilities.\<close>

definition dppo_tv_valid :: "real \<Rightarrow> real \<Rightarrow> real \<Rightarrow> real \<Rightarrow> real \<Rightarrow> bool" where
  "dppo_tv_valid low high a l old =
     (if a > 0 then exp l - exp old \<le> high else exp l - exp old \<ge> - low)"

definition binary_kl :: "real \<Rightarrow> real \<Rightarrow> real" where
  "binary_kl l old =
     exp old * (old - l) + (1 - exp old) * ln ((1 - exp old + 1 / 10 ^ 8) / (1 - exp l + 1 / 10 ^ 8))"

definition dppo_kl_valid :: "real \<Rightarrow> real \<Rightarrow> real \<Rightarrow> real \<Rightarrow> real \<Rightarrow> bool" where
  "dppo_kl_valid low high a l old =
     (if a > 0 then binary_kl l old \<le> high \<or> exp l \<le> exp old else binary_kl l old \<le> low \<or> exp l \<ge> exp old)"

definition dppo_loss ::
    "(real \<Rightarrow> real \<Rightarrow> real \<Rightarrow> bool) \<Rightarrow> actor_config \<Rightarrow> policy_inputs \<Rightarrow> string \<Rightarrow> loss_result" where
  "dppo_loss valid config inp loss_agg_mode =
     (let kl = negative_approx_kl inp; ratio = tmap exp kl; adv = advantages inp; m = response_mask inp;
          c = or_else (clip_ratio_c config) 20;
          valid_mask = tmap2 (\<lambda>a (l, old). valid a l old) adv (tmap2 Pair (log_prob inp) (old_log_prob inp));
          truncated = tmap (\<lambda>r. min c r) ratio;
          pg_losses = is_weighted inp
            (tmap2 (*) (tmap2 (*) (tmap2 (\<lambda>a r. - a * r) adv truncated) (log_prob inp)) (tmap of_bool valid_mask)) in
      rbind (agg_loss pg_losses m loss_agg_mode (global_batch_info config)) (\<lambda>pg_loss.
      Inr (pg_loss, ppo_metrics (masked_mean (tmap (\<lambda>v. 1 - of_bool v) valid_mask) m) (mean_ppo_kl kl inp)
             (masked_mean (tmap2 (\<lambda>r v. of_bool (r > c) * of_bool v) ratio valid_mask) m))))"

definition compute_policy_loss_dppo_tv :: "actor_config option \<Rightarrow> policy_inputs \<Rightarrow> string \<Rightarrow> loss_result" where
  "compute_policy_loss_dppo_tv config_option inp loss_agg_mode =
     (case config_option of None \<Rightarrow> Inl AssertionError
      | Some config \<Rightarrow> dppo_loss (dppo_tv_valid (clip_low config) (clip_high config)) config inp loss_agg_mode)"

definition compute_policy_loss_dppo_kl :: "actor_config option \<Rightarrow> policy_inputs \<Rightarrow> string \<Rightarrow> loss_result" where
  "compute_policy_loss_dppo_kl config_option inp loss_agg_mode =
     (case config_option of None \<Rightarrow> Inl AssertionError
      | Some config \<Rightarrow> dppo_loss (dppo_kl_valid (clip_low config) (clip_high config)) config inp loss_agg_mode)"

text \<open>GSPO: one importance ratio per sequence.\<close>

definition gspo_log_ratio :: "policy_inputs \<Rightarrow> real list" where
  "gspo_log_ratio inp =
     map2 (\<lambda>s n. s / max n 1) (row_sums (tmap2 (*) (raw_approx_kl inp) (response_mask inp)))
       (row_sums (response_mask inp))"

definition gspo_ratio :: "policy_inputs \<Rightarrow> tensor" where
  "gspo_ratio inp =
     map2 (\<lambda>s row. map (\<lambda>l. exp (min 10 (l - l + s))) row) (gspo_log_ratio inp) (log_prob inp)"

definition compute_policy_loss_gspo :: "actor_config option \<Rightarrow> policy_inputs \<Rightarrow> string \<Rightarrow> loss_result" where
  "compute_policy_loss_gspo config_option inp loss_agg_mode =
     (case config_option of
        None \<Rightarrow> Inl AssertionError
      | Some config \<Rightarrow>
          (let low = clip_low config; high = clip_high config; adv = advantages inp; m = response_mask inp;
               ratio = gspo_ratio inp;
               pg_losses = is_weighted inp (tmap2 (\<lambda>a r. max (ppo_loss1 a r) (ppo_loss2 low high a r)) adv ratio) in
           rbind (agg_loss pg_losses m ''seq-mean-token-mean'' (global_batch_info config)) (\<lambda>pg_loss.
           Inr (pg_loss, ppo_metrics (fraction (tmap2 (ppo_clipped low high) adv ratio) m)
                  (mean_ppo_kl (raw_approx_kl inp) inp) 0))))"

definition sigmoid :: "real \<Rightarrow> real" where
  "sigmoid x = 1 / (1 + exp (- x))"

definition sapo_gate :: "real \<Rightarrow> real \<Rightarrow> real" where
  "sapo_gate x tau = sigmoid (tau * (x - 1)) * (4 / tau)"

definition compute_policy_loss_sapo :: "actor_config option \<Rightarrow> policy_inputs \<Rightarrow> string \<Rightarrow> loss_result" where
  "compute_policy_loss_sapo config_option inp loss_agg_mode =
     (case config_option of
        None \<Rightarrow> Inl AssertionError
      | Some config \<Rightarrow>
          (let kl = negative_approx_kl inp; ratio = tmap exp kl; m = response_mask inp;
               pg_losses = is_weighted inp
                 (tmap2 (\<lambda>a r. - sapo_gate r (if a > 0 then tau_pos config else tau_neg config) * a) (advantages inp) ratio) in
           rbind (agg_loss pg_losses m ''seq-mean-token-mean'' (global_batch_info config)) (\<lambda>pg_loss.
           Inr (pg_loss, ppo_metrics 0 (mean_ppo_kl kl inp) 0))))"

definition compute_policy_loss_gpg :: "actor_config option \<Rightarrow> policy_inputs \<Rightarrow> string \<Rightarrow> loss_result" where
  "compute_policy_loss_gpg config_option inp loss_agg_mode =
     (case config_option of
        None \<Rightarrow> Inl AssertionError
      | Some config \<Rightarrow>
          rbind (agg_loss (is_weighted inp (tmap2 (\<lambda>l a. - l * a) (log_prob inp) (advantages inp))) (response_mask inp)
                   loss_agg_mode (global_batch_info config)) (\<lambda>pg_loss.
          Inr (pg_loss, [])))"

end
