(* ===== verification/LossVariants.thy ===== *)
theory LossVariants
  imports PolicyLoss
begin

text \<open>
  The remaining losses of \<open>verl/trainer/ppo/core_algos.py\<close>: the covariance-based variants, GMPO,
  CISPO, REINFORCE, the entropy loss, the value loss, the KL penalties and the resampling weights of
  PF-PPO.
\<close>

section \<open>Positions of a tensor\<close>

text \<open>\<open>torch.nonzero\<close> of a Boolean tensor: the positions in row-major order.\<close>

definition tnonzero :: "bool list list \<Rightarrow> (nat \<times> nat) list" where
  "tnonzero B = concat (map (\<lambda>i. map (Pair i) (filter (\<lambda>j. B ! i ! j) [0..<length (B ! i)])) [0..<length B])"

definition tset :: "'a \<Rightarrow> (nat \<times> nat) \<Rightarrow> 'a list list \<Rightarrow> 'a list list" where
  "tset x p A = A[fst p := (A ! fst p)[snd p := x]]"

section \<open>Covariance-based losses\<close>

text \<open>\<open>cov_all\<close>: masked and clipped tokens get minus infinity, here \<open>None\<close>.\<close>

definition clip_cov_all :: "real \<Rightarrow> real \<Rightarrow> policy_inputs \<Rightarrow> real option list list" where
  "clip_cov_all low high inp =
     (let adv = advantages inp; lp = log_prob inp; m = response_mask inp;
          amean = masked_mean adv m; lmean = masked_mean lp m;
          ratio = tmap exp (raw_approx_kl inp);
          cov = tmap2 (\<lambda>a l. (a - amean) * (l - lmean)) adv lp;
          clip_by_origin = tmap2 (\<and>) (tmap2 (ppo_clipped low high) adv ratio) (tmap (\<lambda>x. x > 0) m)
      in tmap2 (\<lambda>c (x, clipped). if x = 0 \<or> clipped then None else Some c) cov (tmap2 Pair m clip_by_origin))"

definition cov_candidates :: "real \<Rightarrow> real \<Rightarrow> real option list list \<Rightarrow> tensor \<Rightarrow> (nat \<times> nat) list" where
  "cov_candidates lb ub cov_all m =
     tnonzero (tmap2 (\<lambda>c x. (case c of None \<Rightarrow> False | Some v \<Rightarrow> v < ub \<and> v > lb) \<and> x > 0) cov_all m)"

text \<open>\<open>perm[: min(clip_num, len(top_k_idx))]\<close> of a random permutation, which is a parameter.\<close>

definition chosen_positions :: "(nat \<Rightarrow> nat list) \<Rightarrow> nat \<Rightarrow> (nat \<times> nat) list \<Rightarrow> (nat \<times> nat) list" where
  "chosen_positions randperm clip_num top_k_idx =
     (if length top_k_idx > 0
      then select top_k_idx (take (min clip_num (length top_k_idx)) (randperm (length top_k_idx)))
      else [])"

definition cov_corr :: "tensor \<Rightarrow> (nat \<times> nat) list \<Rightarrow> tensor" where
  "cov_corr adv positions = foldl (\<lambda>corr p. tset 0 p corr) (tmap (\<lambda>_. 1) adv) positions"

definition clip_cov_corr ::
    "(nat \<Rightarrow> nat list) \<Rightarrow> actor_config \<Rightarrow> policy_loss_config \<Rightarrow> policy_inputs \<Rightarrow> tensor" where
  "clip_cov_corr randperm config pl inp =
     (let m = response_mask inp;
          clip_num = max (nat \<lfloor>or_else (clip_cov_ratio pl) 0.0002 * tsum m\<rfloor>) 1;
          cov_all = clip_cov_all (clip_low config) (clip_high config) inp;
          top_k_idx = cov_candidates (or_else (clip_cov_lb pl) 1) (or_else (clip_cov_ub pl) 5) cov_all m
      in cov_corr (advantages inp) (chosen_positions randperm clip_num top_k_idx))"

definition compute_policy_loss_clip_cov ::
    "(nat \<Rightarrow> nat list) \<Rightarrow> actor_config option \<Rightarrow> policy_inputs \<Rightarrow> string \<Rightarrow> loss_result" where
  "compute_policy_loss_clip_cov randperm config_option inp loss_agg_mode =
     (case config_option of
        None \<Rightarrow> Inl AssertionError
      | Some config \<Rightarrow>
          (case policy_loss config of
             None \<Rightarrow> Inl AssertionError
           | Some pl \<Rightarrow>
               rbind (rassert (or_else (clip_cov_ratio pl) 0.0002 > 0)) (\<lambda>_.
               (let kl = raw_approx_kl inp; ratio = tmap exp kl; adv = advantages inp; m = response_mask inp;
                    low = clip_low config; high = clip_high config;
                    corr = clip_cov_corr randperm config pl inp;
                    pg_losses = is_weighted inp
                      (tmap2 (*) (tmap2 (\<lambda>a r. max (ppo_loss1 a r) (ppo_loss2 low high a r)) adv ratio) corr) in
                rbind (agg_loss pg_losses m loss_agg_mode (global_batch_info config)) (\<lambda>pg_loss.
                Inr (pg_loss, [(''actor/pg_clipfrac'', fraction (tmap (\<lambda>x. x = 0) corr) m),
                               (''actor/ppo_kl'', mean_ppo_kl kl inp)]))))))"

text \<open>\<open>pg_losses\<close> at the flat positions of the largest covariances gets the KL term; \<open>torch.topk\<close> is a
  parameter, which refuses a count above the number of values.\<close>

definition kl_cov_positions ::
    "(nat \<Rightarrow> real list \<Rightarrow> nat list) \<Rightarrow> real \<Rightarrow> policy_inputs \<Rightarrow> nat list res" where
  "kl_cov_positions topk cov_ratio inp =
     (let flat_mask = concat (response_mask inp);
          all_valid_idx = filter (\<lambda>i. flat_mask ! i > 0) [0..<length flat_mask];
          all_valid_adv = select (concat (advantages inp)) all_valid_idx;
          all_valid_logp = select (concat (log_prob inp)) all_valid_idx;
          amean = sum_list all_valid_adv / real (length all_valid_adv);
          lmean = sum_list all_valid_logp / real (length all_valid_logp);
          cov_lst_all = map2 (\<lambda>a l. (a - amean) * (l - lmean)) all_valid_adv all_valid_logp;
          k_percent_nums = max 1 (nat \<lfloor>real (length cov_lst_all) * cov_ratio\<rfloor>)
      in if min cov_ratio (real (length all_valid_adv)) \<noteq> 0
         then rbind (rcheck RuntimeError (k_percent_nums \<le> length cov_lst_all)) (\<lambda>_.
              Inr (select all_valid_idx (topk k_percent_nums cov_lst_all)))
         else Inr [])"

definition kl_cov_losses :: "real \<Rightarrow> policy_inputs \<Rightarrow> nat list \<Rightarrow> tensor" where
  "kl_cov_losses kl_weight inp positions =
     (let kl = raw_approx_kl inp; ratio = tmap exp kl; adv = advantages inp;
          pg_losses1 = tmap2 ppo_loss1 adv ratio;
          pg_losses_kl = tmap2 (+) pg_losses1 (tmap (\<lambda>k. kl_weight * \<bar>k\<bar>) kl);
          width = length (hd adv)
      in foldl (\<lambda>losses p. tset (pg_losses_kl ! (p div width) ! (p mod width)) (p div width, p mod width) losses)
           pg_losses1 positions)"

definition compute_policy_loss_kl_cov ::
    "(nat \<Rightarrow> real list \<Rightarrow> nat list) \<Rightarrow> actor_config option \<Rightarrow> policy_inputs \<Rightarrow> string \<Rightarrow> loss_result" where
  "compute_policy_loss_kl_cov topk config_option inp loss_agg_mode =
     (case config_option of
        None \<Rightarrow> Inl AssertionError
      | Some config \<Rightarrow>
          (case policy_loss config of
             None \<Rightarrow> Inl AssertionError
           | Some pl \<Rightarrow>
               rbind (rassert (or_else (kl_cov_ratio pl) 0.0002 > 0)) (\<lambda>_.
               rbind (kl_cov_positions topk (or_else (kl_cov_ratio pl) 0.0002) inp) (\<lambda>positions.
               rbind (agg_loss (is_weighted inp (kl_cov_losses (or_else (ppo_kl_coef pl) 1) inp positions))
                        (response_mask inp) loss_agg_mode (global_batch_info config)) (\<lambda>pg_loss.
               Inr (pg_loss, [(''actor/ppo_kl'', masked_mean (tmap abs (raw_approx_kl inp)) (response_mask inp))]))))))"

section \<open>Sequence-level geometric mean, clipped importance weights, REINFORCE\<close>

definition gmpo_token :: "real \<Rightarrow> real \<Rightarrow> real \<Rightarrow> real \<Rightarrow> real" where
  "gmpo_token low high a kl = sgn a * min (sgn a * kl) (sgn a * clamp (- low) high kl)"

definition seq_masked_mean :: "tensor \<Rightarrow> tensor \<Rightarrow> real list" where
  "seq_masked_mean A m = map2 (\<lambda>s n. s / (n + 1 / 10 ^ 8)) (row_sums (tmap2 (*) A m)) (row_sums m)"

definition compute_policy_loss_geo_mean :: "actor_config option \<Rightarrow> policy_inputs \<Rightarrow> loss_result" where
  "compute_policy_loss_geo_mean config_option inp =
     (case config_option of
        None \<Rightarrow> Inl AssertionError
      | Some config \<Rightarrow>
          (let low = clip_low config; high = clip_high config; kl = raw_approx_kl inp;
               adv = advantages inp; m = response_mask inp;
               ratio = map exp (seq_masked_mean (tmap2 (gmpo_token low high) adv kl) m);
               advantage = seq_masked_mean adv m;
               pg_losses = map2 (\<lambda>a r. - a * r) advantage ratio;
               weighted = (case rollout_is_weights inp of
                             None \<Rightarrow> pg_losses
                           | Some w \<Rightarrow> map2 (*) pg_losses (map exp (seq_masked_mean (tmap (\<lambda>x. ln (x + 1 / 10 ^ 10)) w) m)));
               clipped = tmap (\<lambda>k. k \<noteq> clamp (- low) high k) kl
           in Inr (sum_list weighted / real (length weighted),
                   ppo_metrics (fraction (tmap2 (\<lambda>c a. c \<and> a > 0) clipped adv) m) (mean_ppo_kl kl inp)
                     (fraction (tmap2 (\<lambda>c a. c \<and> a < 0) clipped adv) m))))"

definition compute_policy_loss_cispo :: "actor_config option \<Rightarrow> policy_inputs \<Rightarrow> string \<Rightarrow> loss_result" where
  "compute_policy_loss_cispo config_option inp loss_agg_mode =
     (case config_option of
        None \<Rightarrow> Inl AssertionError
      | Some config \<Rightarrow>
          (let kl = negative_approx_kl inp; ratio = tmap exp kl; m = response_mask inp;
               clipped_ratio = tmap (clamp (1 - clip_low config) (1 + clip_high config)) ratio;
               pg_losses = is_weighted inp
                 (tmap2 (*) (tmap2 (\<lambda>r a. - r * a) clipped_ratio (advantages inp)) (log_prob inp)) in
           rbind (agg_loss pg_losses m loss_agg_mode (global_batch_info config)) (\<lambda>pg_loss.
           Inr (pg_loss, ppo_metrics (fraction (tmap2 (\<noteq>) ratio clipped_ratio) m) (mean_ppo_kl kl inp) 0))))"

text \<open>The argument \<open>rollout_log_prob\<close> takes the place of the old policy.\<close>

definition compute_policy_loss_reinforce :: "actor_config option \<Rightarrow> policy_inputs \<Rightarrow> string \<Rightarrow> loss_result" where
  "compute_policy_loss_reinforce config_option inp loss_agg_mode =
     (case config_option of
        None \<Rightarrow> Inl AssertionError
      | Some config \<Rightarrow>
          rbind (agg_loss (is_weighted inp (tmap2 (\<lambda>a l. - a * l) (advantages inp) (log_prob inp))) (response_mask inp)
                   loss_agg_mode (global_batch_info config)) (\<lambda>pg_loss.
          Inr (pg_loss, [(''actor/ppo_kl'', mean_ppo_kl (raw_approx_kl inp) inp)])))"

section \<open>Entropy\<close>

definition logsumexp :: "real list \<Rightarrow> real" where
  "logsumexp xs = ln (\<Sum>x\<leftarrow>xs. exp x)"

definition softmax :: "real list \<Rightarrow> real list" where
  "softmax xs = (let z = (\<Sum>x\<leftarrow>xs. exp x) in map (\<lambda>x. exp x / z) xs)"

definition entropy_from_logits :: "real list \<Rightarrow> real" where
  "entropy_from_logits logits = (let pd = softmax logits in logsumexp logits - sum_list (map2 (*) pd logits))"

text \<open>The chunked version: \<open>entropy[i : i + chunk_size]\<close> is written for every chunk start \<open>i\<close>.\<close>

definition entropy_chunk_step :: "real list list \<Rightarrow> nat \<Rightarrow> real list \<Rightarrow> nat \<Rightarrow> real list" where
  "entropy_chunk_step logits chunk_size entropy i =
     take i entropy @ map entropy_from_logits (pyslice i (i + chunk_size) logits) @ drop (i + chunk_size) entropy"

definition entropy_from_logits_with_chunking :: "real list list \<Rightarrow> nat \<Rightarrow> real list res" where
  "entropy_from_logits_with_chunking logits chunk_size =
     rbind (rcheck ValueError (chunk_size \<noteq> 0)) (\<lambda>_.
     Inr (foldl (entropy_chunk_step logits chunk_size) (replicate (length logits) 0)
            (map (\<lambda>c. c * chunk_size) [0..<(length logits + chunk_size - 1) div chunk_size])))"

definition compute_entropy_loss :: "real list list list \<Rightarrow> tensor \<Rightarrow> string \<Rightarrow> real res" where
  "compute_entropy_loss logits m loss_agg_mode =
     agg_loss (tmap entropy_from_logits logits) m loss_agg_mode plain_batch"

section \<open>Value loss and KL penalties\<close>

definition clip_by_value :: "real \<Rightarrow> real \<Rightarrow> real \<Rightarrow> real" where
  "clip_by_value x tensor_min tensor_max = max (min x tensor_max) tensor_min"

definition value_losses :: "real \<Rightarrow> (real \<times> real \<times> real) \<Rightarrow> real \<times> real" where
  "value_losses cliprange_value = (\<lambda>(vpred, ret, v).
     (let vpredclipped = clip_by_value vpred (v - cliprange_value) (v + cliprange_value)
      in ((vpred - ret)\<^sup>2, (vpredclipped - ret)\<^sup>2)))"

definition compute_value_loss ::
    "tensor \<Rightarrow> tensor \<Rightarrow> tensor \<Rightarrow> tensor \<Rightarrow> real \<Rightarrow> string \<Rightarrow> (real \<times> real) res" where
  "compute_value_loss vpreds returns vals m cliprange_value loss_agg_mode =
     (let losses = tmap (value_losses cliprange_value) (tmap2 Pair vpreds (tmap2 Pair returns vals)) in
      rbind (agg_loss (tmap (\<lambda>(l1, l2). max l1 l2) losses) m loss_agg_mode plain_batch) (\<lambda>loss.
      Inr (0.5 * loss, fraction (tmap (\<lambda>(l1, l2). l2 > l1) losses) m)))"

definition k3_penalty :: "real \<Rightarrow> real \<Rightarrow> real" where
  "k3_penalty logprob ref_logprob =
     (let kl = clamp (-20) 20 (ref_logprob - logprob); ratio = exp kl in clamp (-10) 10 (ratio - kl - 1))"

definition kl_penalty_forward :: "tensor \<Rightarrow> tensor \<Rightarrow> string \<Rightarrow> tensor res" where
  "kl_penalty_forward logprob ref_logprob kl_penalty =
     (if kl_penalty \<in> {''kl'', ''k1''} then Inr (tmap2 (-) logprob ref_logprob)
      else if kl_penalty = ''abs'' then Inr (tmap2 (\<lambda>l r. \<bar>l - r\<bar>) logprob ref_logprob)
      else if kl_penalty \<in> {''mse'', ''k2''} then Inr (tmap2 (\<lambda>l r. 0.5 * (l - r)\<^sup>2) logprob ref_logprob)
      else if kl_penalty \<in> {''low_var_kl'', ''k3''} then Inr (tmap2 k3_penalty logprob ref_logprob)
      else Inl NotImplementedError)"

definition ends_with_plus :: "string \<Rightarrow> bool" where
  "ends_with_plus s = (s \<noteq> [] \<and> last s = CHR ''+'')"

definition kl_penalty :: "tensor \<Rightarrow> tensor \<Rightarrow> string \<Rightarrow> tensor res" where
  "kl_penalty logprob ref_logprob name =
     (let base = (if ends_with_plus name then butlast name else name) in
      rbind (kl_penalty_forward logprob ref_logprob base) (\<lambda>forward_score.
      if \<not> ends_with_plus name \<or> name \<in> {''mse'', ''k2''} then Inr forward_score
      else (let backward_score = tmap2 (\<lambda>l r. 0.5 * (l - r)\<^sup>2) logprob ref_logprob in
            Inr (tmap2 (+) (tmap2 (-) backward_score backward_score) forward_score))))"

section \<open>Resampling of PF-PPO\<close>

definition tpow :: "real \<Rightarrow> real \<Rightarrow> real" where
  "tpow x p = (if p = 0 then 1 else x powr p)"

definition compute_weights :: "real list \<Rightarrow> string \<Rightarrow> real \<Rightarrow> real list res" where
  "compute_weights scores reweight_method weight_pow =
     (if reweight_method = ''pow'' then Inr (map (\<lambda>s. tpow \<bar>s\<bar> weight_pow) scores)
      else if reweight_method = ''max_min''
      then rbind (rcheck RuntimeError (scores \<noteq> [])) (\<lambda>_.
           Inr (map (\<lambda>s. if s = Max (set scores) \<or> s = Min (set scores) then 1 else 0) scores))
      else if reweight_method = ''max_random''
      then rbind (rcheck RuntimeError (scores \<noteq> [])) (\<lambda>_.
           Inr (map (\<lambda>s. if s = Max (set scores) then 0.4 else 0.1) scores))
      else Inl ValueError)"

definition resample_meta :: "nat \<Rightarrow> nat list \<Rightarrow> pyobj \<Rightarrow> pyobj" where
  "resample_meta n sample_indices v =
     (case v of
        PList xs \<Rightarrow> (if length xs = n then PList (select xs sample_indices) else v)
      | _ \<Rightarrow> v)"

text \<open>The token-level scores of the container are an argument beside its other columns; the random
  draw is a parameter. The container must hold tensors.\<close>

definition compute_pf_ppo_reweight_data ::
    "(real list \<Rightarrow> nat \<Rightarrow> nat list) \<Rightarrow> ('r \<Rightarrow> real list) \<Rightarrow> ('r, 'o) dataproto \<Rightarrow> string \<Rightarrow> real \<Rightarrow> ('r, 'o) dataproto res" where
  "compute_pf_ppo_reweight_data multinomial row_values data reweight_method weight_pow =
     (case batch data of
        None \<Rightarrow> Inl TypeError
      | Some td \<Rightarrow>
          rbind (dict_get (tensors td) ''token_level_scores'') (\<lambda>rows.
          (let scores = map (\<lambda>r. sum_list (row_values r)) rows in
           rbind (compute_weights scores reweight_method weight_pow) (\<lambda>ws.
           (let weights = map (\<lambda>w. max (1 / 10 ^ 8) (w + 1 / 10 ^ 8)) ws;
                sample_indices = multinomial weights (length scores)
            in Inr \<lparr>batch = Some \<lparr>batch_size = batch_size td, tensors = dict_map (\<lambda>t. select t sample_indices) (tensors td)\<rparr>,
                     non_tensor_batch = dict_map (\<lambda>a. select a sample_indices) (non_tensor_batch data),
                     meta_info = dict_map (resample_meta (length scores) sample_indices) (meta_info data)\<rparr>)))))"

end
