(* ===== verification/LossLaws.thy ===== *)
theory LossLaws
  imports LossVariants
begin

text \<open>
  Laws of the losses: the aggregation gives the same number however the batch is cut, the clipped
  losses in closed form, the ranges of their metrics, what they give on-policy, and the ranges of the
  KL penalties, the value loss and the entropy.
\<close>

section \<open>Aggregation\<close>

definition loss_agg_modes :: "string set" where
  "loss_agg_modes = {''token-mean'', ''seq-mean-token-sum'', ''seq-mean-token-sum-norm'', ''seq-mean-token-mean''}"

text \<open>The numerator of a mode: additive in the rows of the batch.\<close>

definition seq_numerator :: "tensor \<Rightarrow> tensor \<Rightarrow> real" where
  "seq_numerator A M = masked_sum1 (seq_token_sum A M) (seq_live M)"

definition seq_mean_numerator :: "tensor \<Rightarrow> tensor \<Rightarrow> real" where
  "seq_mean_numerator A M =
     masked_sum1 (map2 (\<lambda>s n. s / (n + 1 / 10 ^ 8)) (seq_token_sum A M) (row_sums M)) (seq_live M)"

definition agg_numerator :: "string \<Rightarrow> tensor \<Rightarrow> tensor \<Rightarrow> real" where
  "agg_numerator mode A M =
     (if mode = ''token-mean'' then masked_sum A M
      else if mode = ''seq-mean-token-mean'' then seq_mean_numerator A M
      else seq_numerator A M)"

definition agg_count :: "string \<Rightarrow> tensor \<Rightarrow> real" where
  "agg_count mode M = (if mode = ''token-mean'' then tsum M else sum_list (seq_live M))"

definition agg_given :: "string \<Rightarrow> batch_info \<Rightarrow> real option" where
  "agg_given mode info = (if mode = ''token-mean'' then batch_num_tokens info else global_batch_size info)"

definition agg_scale :: "string \<Rightarrow> tensor \<Rightarrow> batch_info \<Rightarrow> real" where
  "agg_scale mode M info =
     (if mode = ''seq-mean-token-sum-norm''
      then (case loss_scale_factor info of None \<Rightarrow> tensor_width M | Some f \<Rightarrow> f) else 1)"

text \<open>All modes in one form.\<close>

lemma agg_loss_form:
  "mode \<in> loss_agg_modes \<Longrightarrow>
   agg_loss A M mode info = rbind (denominator (dp_size info) (agg_given mode info) (agg_count mode M)) (\<lambda>n.
     Inr (agg_numerator mode A M / n * real (dp_size info) / agg_scale mode M info))"
  by (auto simp: agg_loss_def loss_agg_modes_def agg_given_def agg_count_def agg_numerator_def agg_scale_def
      seq_numerator_def seq_mean_numerator_def Let_def intro!: rbind_cong)

lemma agg_loss_unknown_mode: "mode \<notin> loss_agg_modes \<Longrightarrow> agg_loss A M mode info = Inl ValueError"
  by (auto simp: agg_loss_def loss_agg_modes_def)

lemma masked_sum1_append:
  "length xs = length ms \<Longrightarrow> masked_sum1 (xs @ xs') (ms @ ms') = masked_sum1 xs ms + masked_sum1 xs' ms'"
  by (simp add: masked_sum1_def)

lemma seq_token_sum_append:
  "length A = length M \<Longrightarrow> seq_token_sum (A @ A') (M @ M') = seq_token_sum A M @ seq_token_sum A' M'"
  by (simp add: seq_token_sum_def tmap2_append row_sums_def)

lemma length_seq_token_sum [simp]: "length (seq_token_sum A M) = min (length A) (length M)"
  by (simp add: seq_token_sum_def)

lemma length_seq_live [simp]: "length (seq_live M) = length M"
  by (simp add: seq_live_def)

lemma row_sums_append: "row_sums (A @ B) = row_sums A @ row_sums B"
  by (simp add: row_sums_def)

lemma seq_live_append: "seq_live (M @ M') = seq_live M @ seq_live M'"
  by (simp add: seq_live_def row_sums_append)

lemma agg_numerator_append:
  "length A = length M \<Longrightarrow>
   agg_numerator mode (A @ A') (M @ M') = agg_numerator mode A M + agg_numerator mode A' M'"
  by (simp add: agg_numerator_def masked_sum_append seq_numerator_def seq_mean_numerator_def
      seq_token_sum_append seq_live_append row_sums_append masked_sum1_append)

lemma agg_numerator_Nil [simp]: "agg_numerator mode [] [] = 0"
  by (simp add: agg_numerator_def seq_numerator_def seq_mean_numerator_def seq_token_sum_def seq_live_def
      tmap2_def row_sums_def masked_sum1_def masked_sum_def)

lemma agg_numerator_concat:
  "\<forall>(A, M)\<in>set parts. length A = length M \<Longrightarrow>
   agg_numerator mode (concat (map fst parts)) (concat (map snd parts)) = (\<Sum>(A, M)\<leftarrow>parts. agg_numerator mode A M)"
  by (induction parts) (auto simp: agg_numerator_append)

lemma agg_count_append: "agg_count mode (M @ M') = agg_count mode M + agg_count mode M'"
  by (simp add: agg_count_def seq_live_append)

lemma sum_list_divide: "(\<Sum>x\<leftarrow>xs. f x / c) = (\<Sum>x\<leftarrow>xs. f x) / (c :: real)"
  by (induction xs) (auto simp: add_divide_distrib)


section \<open>Clipping\<close>

definition dual_clip :: "real \<Rightarrow> real \<Rightarrow> real \<Rightarrow> real \<Rightarrow> real \<Rightarrow> real" where
  "dual_clip low high c a r = (if 0 \<le> a then - a * min r (1 + high) else - a * min c (max r (1 - low)))"

lemma ppo_token_loss_closed:
  assumes "0 \<le> low" "0 \<le> high" "1 < c"
  shows "ppo_token_loss low high c a r = dual_clip low high c a r"
proof (cases "0 \<le> a")
  case True
  have m: "max (- (a * x)) (- (a * y)) = - (a * min x y)" for x y
    using mult_left_mono [OF _ True] by (cases x y rule: le_cases) (simp_all add: max_absorb1 max_absorb2)
  have "min r (clamp (1 - low) (1 + high) r) = min r (1 + high)"
    using assms by (auto simp: clamp_def min_def max_def)
  with True show ?thesis by (simp add: ppo_token_loss_def ppo_loss1_def ppo_loss2_def dual_clip_def m)
next
  case False
  then have a: "0 < - a" by simp
  have m: "max (- (a * x)) (- (a * y)) = - (a * max x y)" "min (- (a * x)) (- (a * y)) = - (a * min x y)" for x y
    using a by (auto simp: max_def min_def mult_le_cancel_left)
  have "min c (max r (clamp (1 - low) (1 + high) r)) = min c (max r (1 - low))"
    using assms by (auto simp: clamp_def min_def max_def)
  with False show ?thesis by (simp add: ppo_token_loss_def ppo_loss1_def ppo_loss2_def dual_clip_def m)
qed

lemma ppo_clipped_iff:
  assumes "0 \<le> low" "0 \<le> high"
  shows "ppo_clipped low high a r \<longleftrightarrow> 0 < a \<and> 1 + high < r \<or> a < 0 \<and> r < 1 - low"
proof -
  have "ppo_clipped low high a r \<longleftrightarrow> a * clamp (1 - low) (1 + high) r < a * r"
    by (simp add: ppo_clipped_def ppo_loss1_def ppo_loss2_def)
  also have "\<dots> \<longleftrightarrow> 0 < a \<and> clamp (1 - low) (1 + high) r < r \<or> a < 0 \<and> r < clamp (1 - low) (1 + high) r"
    by (auto simp: mult_less_cancel_left)
  also have "\<dots> \<longleftrightarrow> 0 < a \<and> 1 + high < r \<or> a < 0 \<and> r < 1 - low"
    using assms by (auto simp: clamp_def)
  finally show ?thesis .
qed

lemma ppo_clipped_lower_iff:
  assumes "0 \<le> low" "0 \<le> high" "1 < c"
  shows "ppo_clipped_lower low high c a r \<longleftrightarrow> a < 0 \<and> c < r"
proof (cases "a < 0")
  case True
  then have a: "0 < - a" by simp
  have "max (ppo_loss1 a r) (ppo_loss2 low high a r) = - a * max r (clamp (1 - low) (1 + high) r)"
    using a by (auto simp: ppo_loss1_def ppo_loss2_def max_def mult_le_cancel_left)
  with a show ?thesis
    using assms by (auto simp: ppo_clipped_lower_def mult_less_cancel_left clamp_def)
qed (simp add: ppo_clipped_lower_def)

section \<open>Shapes\<close>

named_theorems shapes \<open>shapes of the results of tensor operations\<close>

lemma same_shape_refl [shapes]: "same_shape A A"
  by (simp add: same_shape_def)

lemma same_shape_trans: "same_shape A B \<Longrightarrow> same_shape B C \<Longrightarrow> same_shape A C"
  by (simp add: same_shape_def)

lemma same_shape_iff:
  "same_shape A B \<longleftrightarrow> length A = length B \<and> (\<forall>i<length A. length (A ! i) = length (B ! i))"
  by (auto simp: same_shape_def list_eq_iff_nth_eq)

lemma same_shape_tmap [shapes]: "same_shape A M \<Longrightarrow> same_shape (tmap f A) M"
  by (simp add: same_shape_def tmap_def comp_def)

lemma same_shape_tmap2 [shapes]: "same_shape A M \<Longrightarrow> same_shape B M \<Longrightarrow> same_shape (tmap2 f A B) M"
  by (simp add: same_shape_iff)

lemma same_shape_is_weighted [shapes]:
  "same_shape A M \<Longrightarrow> \<forall>w. rollout_is_weights inp = Some w \<longrightarrow> same_shape w M \<Longrightarrow> same_shape (is_weighted inp A) M"
  by (auto simp: is_weighted_def same_shape_tmap2 split: option.splits)

lemma same_shape_tset [shapes]: "same_shape A M \<Longrightarrow> same_shape (tset x p A) M"
  by (cases "fst p < length A") (auto simp: same_shape_iff tset_def nth_list_update)

lemma same_shape_cov_corr [shapes]: "same_shape adv M \<Longrightarrow> same_shape (cov_corr adv ps) M"
proof -
  have "same_shape A M \<Longrightarrow> same_shape (foldl (\<lambda>corr p. tset 0 p corr) A ps) M" for A :: tensor
    by (induction ps arbitrary: A) (auto intro: shapes)
  then show "same_shape adv M \<Longrightarrow> ?thesis" by (simp add: cov_corr_def shapes)
qed

text \<open>The inputs of a loss have one shape, and the mask consists of zeros and ones.\<close>

definition wf_inputs :: "policy_inputs \<Rightarrow> bool" where
  "wf_inputs inp \<longleftrightarrow> binary_mask (response_mask inp) \<and> same_shape (log_prob inp) (response_mask inp)
     \<and> same_shape (old_log_prob inp) (response_mask inp) \<and> same_shape (advantages inp) (response_mask inp)
     \<and> (case rollout_is_weights inp of None \<Rightarrow> True | Some w \<Rightarrow> same_shape w (response_mask inp))"

lemma wf_inputsD:
  assumes "wf_inputs inp"
  shows "binary_mask (response_mask inp)" "same_shape (log_prob inp) (response_mask inp)"
    "same_shape (old_log_prob inp) (response_mask inp)" "same_shape (advantages inp) (response_mask inp)"
  using assms by (auto simp: wf_inputs_def)

lemma kl_shapes [shapes]:
  assumes "wf_inputs inp"
  shows "same_shape (negative_approx_kl inp) (response_mask inp)" "same_shape (raw_approx_kl inp) (response_mask inp)"
  using assms by (auto simp: negative_approx_kl_def raw_approx_kl_def wf_inputs_def intro: shapes)

lemma gspo_ratio_shape [shapes]: "wf_inputs inp \<Longrightarrow> same_shape (gspo_ratio inp) (response_mask inp)"
  by (auto simp: same_shape_iff gspo_ratio_def gspo_log_ratio_def wf_inputs_def raw_approx_kl_def)

lemma set_tmap2: "row \<in> set (tmap2 f A B) \<Longrightarrow> x \<in> set row \<Longrightarrow> \<exists>a b. x = f a b"
  by (auto simp: tmap2_def set_zip) blast

lemma set_tmap: "row \<in> set (tmap f A) \<Longrightarrow> x \<in> set row \<Longrightarrow> \<exists>a. x = f a"
  by (auto simp: tmap_def)

text \<open>A fraction of tokens is between 0 and 1.\<close>

lemma fraction_bounds:
  assumes "binary_mask M" and "same_shape B M"
  shows "0 \<le> fraction B M \<and> fraction B M \<le> 1"
  unfolding fraction_def using assms by (intro masked_mean_bounds shapes) (auto simp: tmap_def)

lemma unit_mean_bounds:
  assumes "binary_mask M" and "same_shape B M" and "\<And>row x. row \<in> set B \<Longrightarrow> x \<in> set row \<Longrightarrow> 0 \<le> x \<and> x \<le> 1"
  shows "0 \<le> masked_mean B M \<and> masked_mean B M \<le> 1"
  using assms by (intro masked_mean_bounds) auto

text \<open>The losses, given a random permutation for Clip-Cov.\<close>

definition clipped_losses ::
    "(nat \<Rightarrow> nat list) \<Rightarrow> actor_config \<Rightarrow> policy_inputs \<Rightarrow> string \<Rightarrow> loss_result list" where
  "clipped_losses randperm config inp mode =
     [compute_policy_loss_vanilla (Some config) inp mode, compute_policy_loss_dppo_tv (Some config) inp mode,
      compute_policy_loss_dppo_kl (Some config) inp mode, compute_policy_loss_gspo (Some config) inp mode,
      compute_policy_loss_sapo (Some config) inp mode, compute_policy_loss_clip_cov randperm (Some config) inp mode,
      compute_policy_loss_geo_mean (Some config) inp, compute_policy_loss_cispo (Some config) inp mode]"

definition clip_metrics_ok :: "loss_result \<Rightarrow> bool" where
  "clip_metrics_ok r \<longleftrightarrow> (\<forall>loss metrics. r = Inr (loss, metrics) \<longrightarrow>
     (\<forall>(k, v)\<in>set metrics. k \<noteq> ''actor/ppo_kl'' \<longrightarrow> 0 \<le> v \<and> v \<le> 1))"

lemma clip_metrics_ok_rbind: "(\<And>x. clip_metrics_ok (f x)) \<Longrightarrow> clip_metrics_ok (rbind r f)"
  by (cases r) (auto simp: clip_metrics_ok_def)

lemma clip_metrics_ok_ppo:
  "0 \<le> x \<and> x \<le> 1 \<Longrightarrow> 0 \<le> y \<and> y \<le> 1 \<Longrightarrow> clip_metrics_ok (Inr (loss, ppo_metrics x kl y))"
  by (simp add: clip_metrics_ok_def ppo_metrics_def)

lemma clip_metrics_dppo:
  assumes "wf_inputs inp"
  shows "clip_metrics_ok (dppo_loss valid config inp mode)"
  unfolding dppo_loss_def Let_def
  by (intro clip_metrics_ok_rbind clip_metrics_ok_ppo unit_mean_bounds shapes assms wf_inputsD [OF assms])
    (auto simp: of_bool_def dest!: set_tmap set_tmap2)

lemma clip_metrics_clipped:
  assumes "wf_inputs inp"
  shows "\<forall>r\<in>set (clipped_losses randperm config inp mode). clip_metrics_ok r"
proof -
  note * = clip_metrics_ok_rbind clip_metrics_ok_ppo fraction_bounds shapes assms wf_inputsD [OF assms]
  have "clip_metrics_ok (compute_policy_loss_vanilla (Some config) inp mode)"
    unfolding compute_policy_loss_vanilla_def option.case Let_def by (intro *)
  moreover have "clip_metrics_ok (compute_policy_loss_gspo (Some config) inp mode)"
    unfolding compute_policy_loss_gspo_def option.case Let_def by (intro *) simp
  moreover have "clip_metrics_ok (compute_policy_loss_sapo (Some config) inp mode)"
    unfolding compute_policy_loss_sapo_def option.case Let_def by (intro *) simp_all
  moreover have "clip_metrics_ok (compute_policy_loss_cispo (Some config) inp mode)"
    unfolding compute_policy_loss_cispo_def option.case Let_def by (intro *) simp
  moreover have "clip_metrics_ok (compute_policy_loss_geo_mean (Some config) inp)"
    unfolding compute_policy_loss_geo_mean_def option.case Let_def by (intro *)
  moreover have "clip_metrics_ok (compute_policy_loss_clip_cov randperm (Some config) inp mode)"
  proof (cases "policy_loss config")
    case (Some pl)
    have "0 \<le> fraction (tmap (\<lambda>x. x = 0) (clip_cov_corr randperm config pl inp)) (response_mask inp)
        \<and> fraction (tmap (\<lambda>x. x = 0) (clip_cov_corr randperm config pl inp)) (response_mask inp) \<le> 1"
      unfolding clip_cov_corr_def Let_def by (intro *)
    then show ?thesis
      unfolding compute_policy_loss_clip_cov_def option.case Some Let_def
      by (intro clip_metrics_ok_rbind) (simp add: clip_metrics_ok_def)
  qed (simp add: compute_policy_loss_clip_cov_def clip_metrics_ok_def)
  ultimately show ?thesis
    using clip_metrics_dppo [OF assms]
    by (simp add: clipped_losses_def compute_policy_loss_dppo_tv_def compute_policy_loss_dppo_kl_def)
qed

section \<open>On-policy inputs\<close>

lemma tmap2_const_right: "same_shape A B \<Longrightarrow> tmap2 f A (tmap (\<lambda>_. c) B) = tmap (\<lambda>a. f a c) A"
  by (auto simp: same_shape_iff tmap_def list_eq_iff_nth_eq)

lemma tmap2_const_left: "same_shape A B \<Longrightarrow> tmap2 f (tmap (\<lambda>_. c) A) B = tmap (\<lambda>b. f c b) B"
  by (auto simp: same_shape_iff tmap_def list_eq_iff_nth_eq)

lemma tmap2_same: "tmap2 f A A = tmap (\<lambda>a. f a a) A"
  by (auto simp: tmap_def list_eq_iff_nth_eq)

lemma tmap_tmap: "tmap f (tmap g A) = tmap (\<lambda>a. f (g a)) A"
  by (simp add: tmap_def comp_def)

lemma tmap_const_shape: "same_shape A B \<Longrightarrow> tmap (\<lambda>_. c) A = tmap (\<lambda>_. c) B"
  by (auto simp: same_shape_iff tmap_def list_eq_iff_nth_eq)

lemma sum_list_all_zero: "\<forall>x\<in>set xs. x = 0 \<Longrightarrow> sum_list xs = (0 :: real)"
  by (induction xs) auto

lemma masked_mean_zero: "masked_mean (tmap (\<lambda>_. 0) A) M = 0"
proof -
  have "sum_list (map2 (\<lambda>v m. (if m \<noteq> 0 then v else 0) * m) (map (\<lambda>_. 0) xs) ms) = 0" for xs ms :: "real list"
    by (intro sum_list_all_zero) (auto simp: set_zip)
  then have "masked_sum (tmap (\<lambda>_. 0) A) M = 0"
    by (auto simp: masked_sum_def tsum_def row_sums_def tmap2_def tmap_def set_zip intro!: sum_list_all_zero)
  then show ?thesis by (simp add: masked_mean_def)
qed

lemma fraction_none: "fraction (tmap (\<lambda>_. False) A) M = 0"
  by (simp add: fraction_def tmap_tmap masked_mean_zero)

lemma tmap2_commute: "tmap2 f A B = tmap2 (\<lambda>b a. f a b) B A"
  by (auto simp: list_eq_iff_nth_eq)

lemma on_policy_ratio:
  assumes "wf_inputs inp" and "log_prob inp = old_log_prob inp"
  shows "negative_approx_kl inp = tmap (\<lambda>_. 0) (response_mask inp)"
    "raw_approx_kl inp = tmap (\<lambda>_. 0) (response_mask inp)"
    "gspo_ratio inp = tmap (\<lambda>_. 1) (response_mask inp)"
proof -
  have sh: "same_shape (old_log_prob inp) (response_mask inp)" using wf_inputsD [OF assms(1)] by simp
  show raw: "raw_approx_kl inp = tmap (\<lambda>_. 0) (response_mask inp)"
    unfolding raw_approx_kl_def assms(2) tmap2_same diff_self by (rule tmap_const_shape [OF sh])
  have "clamp (-20) 20 (0 :: real) = 0" by (simp add: clamp_def)
  then show "negative_approx_kl inp = tmap (\<lambda>_. 0) (response_mask inp)"
    unfolding negative_approx_kl_def assms(2) tmap2_same diff_self by (simp add: tmap_const_shape [OF sh])
  have "sum_list (map2 (*) (map (\<lambda>_. 0) ms) ms) = 0" for ms :: "real list"
    by (intro sum_list_all_zero) (auto simp: set_zip)
  then have "gspo_log_ratio inp = map (\<lambda>_. 0) (response_mask inp)"
    by (auto simp: gspo_log_ratio_def raw row_sums_def tmap2_def tmap_def list_eq_iff_nth_eq)
  then show "gspo_ratio inp = tmap (\<lambda>_. 1) (response_mask inp)"
    using sh by (auto simp: gspo_ratio_def assms(2) same_shape_iff tmap_def list_eq_iff_nth_eq)
qed

lemma agg_loss_cut:
  fixes f :: real
  assumes "mode \<in> loss_agg_modes" and "\<forall>(A, M)\<in>set parts. length A = length M" and "0 < ranks"
  defines "M_all \<equiv> concat (map snd parts)"
  defines "info \<equiv> \<lparr>dp_size = ranks, batch_num_tokens = Some (tsum M_all),
      global_batch_size = Some (sum_list (seq_live M_all)), loss_scale_factor = Some f\<rparr>"
  shows "\<exists>losses loss. rmap (\<lambda>(A, M). agg_loss A M mode info) parts = Inr losses
      \<and> agg_loss (concat (map fst parts)) M_all mode
          \<lparr>dp_size = 1, batch_num_tokens = None, global_batch_size = None, loss_scale_factor = Some f\<rparr> = Inr loss
      \<and> sum_list losses / real ranks = loss"
proof -
  let ?n = "agg_count mode M_all"
  let ?s = "if mode = ''seq-mean-token-sum-norm'' then f else 1"
  define share where "share p = (case p of (A, M) \<Rightarrow> agg_numerator mode A M / ?n * real ranks / ?s)" for p
  have "agg_loss A M mode info = Inr (share (A, M))" for A M
    using assms(1) by (simp add: agg_loss_form info_def agg_given_def denominator_def agg_scale_def agg_count_def share_def)
  then have losses: "rmap (\<lambda>(A, M). agg_loss A M mode info) parts = Inr (map share parts)"
    by (intro rmap_Inr) auto
  have loss: "agg_loss (concat (map fst parts)) M_all mode
      \<lparr>dp_size = 1, batch_num_tokens = None, global_batch_size = None, loss_scale_factor = Some f\<rparr>
      = Inr ((\<Sum>(A, M)\<leftarrow>parts. agg_numerator mode A M) / ?n / ?s)"
    using assms(1) agg_numerator_concat [OF assms(2), of mode]
    by (simp add: agg_loss_form agg_given_def denominator_def agg_scale_def M_all_def)
  have "sum_list (map share parts) = (\<Sum>p\<leftarrow>parts. (case p of (A, M) \<Rightarrow> agg_numerator mode A M) * (real ranks / ?n / ?s))"
    by (intro arg_cong [where f = sum_list] map_cong) (simp_all add: share_def split_beta del: mult_cancel_left mult_cancel_right)
  also have "\<dots> = (\<Sum>(A, M)\<leftarrow>parts. agg_numerator mode A M) * (real ranks / ?n / ?s)"
    by (rule sum_list_mult_const)
  finally have "sum_list (map share parts) / real ranks = (\<Sum>(A, M)\<leftarrow>parts. agg_numerator mode A M) / ?n / ?s"
    using assms(3) by simp
  with losses loss show ?thesis by blast
qed

text \<open>The loss of a micro-batch with given counts: its sum divided by the count of the mode and by the divisor of the mode.\<close>

lemma agg_loss_given:
  assumes "mode \<in> loss_agg_modes"
  shows "agg_loss A M mode \<lparr>dp_size = k, batch_num_tokens = Some N, global_batch_size = Some G, loss_scale_factor = scale\<rparr>
    = Inr (agg_numerator mode A M / (if mode = ''token-mean'' then N else G) * real k
        / (if mode = ''seq-mean-token-sum-norm'' then (case scale of None \<Rightarrow> tensor_width M | Some f \<Rightarrow> f) else 1))"
  using assms by (simp add: agg_loss_form agg_given_def denominator_def agg_scale_def split: option.splits)

lemma sum_parts_divide:
  fixes c :: "tensor \<times> tensor \<Rightarrow> real"
  shows "(\<Sum>p\<leftarrow>parts. f p / N * K / c p) / K = (if K = 0 then 0 else (\<Sum>p\<leftarrow>parts. f p / c p) / N)"
proof -
  have "(\<Sum>p\<leftarrow>parts. f p / N * K / c p) = (\<Sum>p\<leftarrow>parts. f p / c p) / N * K"
    by (induction parts) (simp_all add: add_divide_distrib distrib_right)
  then show ?thesis by simp
qed

section \<open>Properties\<close>

text \<open>C3: However a batch is cut into micro-batches and ranks, averaging the losses that the ranks report gives the loss of
  the whole batch computed at once on one rank, for whatever token count and global batch size are handed to all of
  them, and with or without a scale factor. This holds in the modes \<open>token-mean\<close>, \<open>seq-mean-token-sum\<close> and
  \<open>seq-mean-token-mean\<close>, and in \<open>seq-mean-token-sum-norm\<close> when a scale factor is given or all micro-batches
  are as wide as the batch. Without a scale factor that last mode divides the loss of each micro-batch by the width of this
  micro-batch, so that there the result depends on the cut. When the handed counts are those of the
  whole batch, its loss is the one computed with no counts given.\<close>

theorem agg_loss_partition_invariant:
  fixes N G :: real and scale :: "real option"
  assumes "mode \<in> loss_agg_modes" and "\<forall>(A, M)\<in>set parts. length A = length M" and "0 < ranks"
  defines "M_all \<equiv> concat (map snd parts)"
  defines "info \<equiv> \<lambda>k. \<lparr>dp_size = k, batch_num_tokens = Some N, global_batch_size = Some G, loss_scale_factor = scale\<rparr>"
  shows "\<exists>losses loss. rmap (\<lambda>(A, M). agg_loss A M mode (info ranks)) parts = Inr losses
      \<and> agg_loss (concat (map fst parts)) M_all mode (info 1) = Inr loss
      \<and> (mode \<noteq> ''seq-mean-token-sum-norm'' \<or> scale \<noteq> None \<or> (\<forall>(A, M)\<in>set parts. tensor_width M = tensor_width M_all)
          \<longrightarrow> sum_list losses / real ranks = loss)
      \<and> (mode = ''seq-mean-token-sum-norm'' \<and> scale = None
          \<longrightarrow> sum_list losses / real ranks = (\<Sum>(A, M)\<leftarrow>parts. agg_numerator mode A M / tensor_width M) / G)
      \<and> (N = tsum M_all \<and> G = sum_list (seq_live M_all)
          \<longrightarrow> agg_loss (concat (map fst parts)) M_all mode
                \<lparr>dp_size = 1, batch_num_tokens = None, global_batch_size = None, loss_scale_factor = scale\<rparr> = Inr loss)"
proof -
  let ?n = "if mode = ''token-mean'' then N else G"
  let ?c = "\<lambda>M. if mode = ''seq-mean-token-sum-norm'' then (case scale of None \<Rightarrow> tensor_width M | Some f \<Rightarrow> f) else 1"
  let ?num = "\<lambda>p. agg_numerator mode (fst p) (snd p)"
  define losses where "losses = map (\<lambda>p. ?num p / ?n * real ranks / ?c (snd p)) parts"
  define loss where "loss = (\<Sum>p\<leftarrow>parts. ?num p) / ?n / ?c M_all"
  have losses: "rmap (\<lambda>(A, M). agg_loss A M mode (info ranks)) parts = Inr losses"
    unfolding losses_def info_def by (intro rmap_Inr) (simp only: split_beta agg_loss_given [OF assms(1)])
  have all: "agg_numerator mode (concat (map fst parts)) M_all = (\<Sum>p\<leftarrow>parts. ?num p)"
    unfolding M_all_def agg_numerator_concat [OF assms(2), of mode] by (simp only: case_prod_unfold)
  have whole: "agg_loss (concat (map fst parts)) M_all mode (info 1) = Inr loss"
    unfolding info_def agg_loss_given [OF assms(1)] all loss_def by simp
  have mean: "sum_list losses / real ranks = (\<Sum>p\<leftarrow>parts. ?num p / ?c (snd p)) / ?n"
    unfolding losses_def using assms(3) by (simp only: sum_parts_divide) simp
  have same: "sum_list losses / real ranks = loss" if "\<forall>p\<in>set parts. ?c (snd p) = ?c M_all"
  proof -
    have "(\<Sum>p\<leftarrow>parts. ?num p / ?c (snd p)) = (\<Sum>p\<leftarrow>parts. ?num p / ?c M_all)"
      using that by (intro arg_cong [where f = sum_list] map_cong) auto
    then show ?thesis unfolding mean loss_def by (simp add: sum_list_divide)
  qed
  have "mode \<noteq> ''seq-mean-token-sum-norm'' \<or> scale \<noteq> None \<or> (\<forall>(A, M)\<in>set parts. tensor_width M = tensor_width M_all)
      \<longrightarrow> sum_list losses / real ranks = loss"
    by (intro impI same) (cases scale; auto)
  moreover have "mode = ''seq-mean-token-sum-norm'' \<and> scale = None
      \<longrightarrow> sum_list losses / real ranks = (\<Sum>(A, M)\<leftarrow>parts. agg_numerator mode A M / tensor_width M) / G"
    using mean by (simp add: case_prod_unfold)
  moreover have "N = tsum M_all \<and> G = sum_list (seq_live M_all) \<longrightarrow> agg_loss (concat (map fst parts)) M_all mode
      \<lparr>dp_size = 1, batch_num_tokens = None, global_batch_size = None, loss_scale_factor = scale\<rparr> = Inr loss"
    unfolding whole [symmetric] info_def
    using assms(1) by (simp add: agg_loss_form agg_given_def denominator_def agg_count_def agg_scale_def)
  ultimately show ?thesis using losses whole by blast
qed

theorem agg_loss_partition_invariant_witness:
  "(\<exists>losses loss. rmap (\<lambda>(A, M). agg_loss A M ''seq-mean-token-sum-norm''
        \<lparr>dp_size = 2, batch_num_tokens = Some 9, global_batch_size = Some 4, loss_scale_factor = Some 3\<rparr>)
      [([[1, 2]], [[1, 1]]), ([[4, 9, 1]], [[1, 0, 1]])] = Inr losses
      \<and> agg_loss [[1, 2], [4, 9, 1]] [[1, 1], [1, 0, 1]] ''seq-mean-token-sum-norm''
          \<lparr>dp_size = 1, batch_num_tokens = Some 9, global_batch_size = Some 4, loss_scale_factor = Some 3\<rparr> = Inr loss
      \<and> sum_list losses / 2 = loss)"
  using agg_loss_partition_invariant [of "''seq-mean-token-sum-norm''" "[([[1, 2]], [[1, 1]]), ([[4, 9, 1]], [[1, 0, 1]])]" 2 9 4 "Some 3"]
  by (auto simp: loss_agg_modes_def)

text \<open>A batch of two sequences whose loss depends on how wide the micro-batches are padded.\<close>

lemma norm_loss_depends_on_padding:
  "rmap (\<lambda>(A, M). agg_loss A M ''seq-mean-token-sum-norm''
      \<lparr>dp_size = 1, batch_num_tokens = None, global_batch_size = Some 2, loss_scale_factor = None\<rparr>)
     [([[6]], [[1]]), ([[6, 6]], [[1, 1]])] = Inr [3, 3]
   \<and> agg_loss [[6, 0], [6, 6]] [[1, 0], [1, 1]] ''seq-mean-token-sum-norm''
      \<lparr>dp_size = 1, batch_num_tokens = None, global_batch_size = Some 2, loss_scale_factor = None\<rparr> = Inr (9 / 2)"
  by (simp add: agg_loss_def denominator_def seq_token_sum_def seq_live_def row_sums_def tmap2_def masked_sum1_def tensor_width_def)


text \<open>C23: The token loss of PPO with dual clipping in closed form: for a nonnegative advantage the
  ratio is capped above at \<open>1 + clip_ratio_high\<close>; for a negative one it is raised to at least
  \<open>1 - clip_ratio_low\<close> and capped at \<open>clip_ratio_c\<close>. The clip fraction counts the tokens whose ratio has
  left the range on the side of the advantage's sign, the lower one those with a negative advantage
  and a ratio above \<open>clip_ratio_c\<close>.\<close>

theorem vanilla_closed_form:
  fixes config :: actor_config and inp :: policy_inputs
  defines "low \<equiv> clip_low config" and "high \<equiv> clip_high config" and "c \<equiv> or_else (clip_ratio_c config) 3"
  defines "ratio \<equiv> tmap exp (negative_approx_kl inp)"
  assumes "0 \<le> low" and "0 \<le> high" and "1 < c"
  shows "compute_policy_loss_vanilla (Some config) inp mode =
    rbind (agg_loss (is_weighted inp (tmap2 (dual_clip low high c) (advantages inp) ratio)) (response_mask inp) mode
             (global_batch_info config)) (\<lambda>pg_loss.
    Inr (pg_loss, ppo_metrics
      (fraction (tmap2 (\<lambda>a r. 0 < a \<and> 1 + high < r \<or> a < 0 \<and> r < 1 - low) (advantages inp) ratio) (response_mask inp))
      (mean_ppo_kl (negative_approx_kl inp) inp)
      (fraction (tmap2 (\<lambda>a r. a < 0 \<and> c < r) (advantages inp) ratio) (response_mask inp))))"
proof -
  have "ppo_token_loss low high c = dual_clip low high c"
    "ppo_clipped low high = (\<lambda>a r. 0 < a \<and> 1 + high < r \<or> a < 0 \<and> r < 1 - low)"
    "ppo_clipped_lower low high c = (\<lambda>a r. a < 0 \<and> c < r)"
    using assms(5-7) by (auto simp: fun_eq_iff ppo_token_loss_closed ppo_clipped_iff ppo_clipped_lower_iff)
  then show ?thesis
    using assms(7) unfolding compute_policy_loss_vanilla_def low_def high_def c_def ratio_def by (simp add: Let_def)
qed

definition demo_actor :: actor_config where
  "demo_actor = \<lparr>clip_ratio = 0.2, clip_ratio_low = None, clip_ratio_high = Some 0.3, clip_ratio_c = None,
     tau_pos = 1, tau_neg = 1.05, policy_loss = Some \<lparr>clip_cov_ratio = Some 0.5, clip_cov_ub = None,
       clip_cov_lb = Some 0, kl_cov_ratio = None, ppo_kl_coef = None\<rparr>, global_batch_info = plain_batch\<rparr>"

definition demo_inputs :: policy_inputs where
  "demo_inputs = \<lparr>old_log_prob = [[-1, -2], [-1, -3]], log_prob = [[-1, -2], [-1, -3]],
     advantages = [[1, -1], [2, 0]], response_mask = [[1, 1], [1, 0]], rollout_is_weights = None\<rparr>"

lemma demo_inputs_wf: "wf_inputs demo_inputs" "log_prob demo_inputs = old_log_prob demo_inputs"
  by (auto simp: demo_inputs_def wf_inputs_def binary_mask_def same_shape_def)

lemma demo_actor_clip: "clip_low demo_actor = 0.2" "clip_high demo_actor = 0.3" "or_else (clip_ratio_c demo_actor) 3 = 3"
  by (simp_all add: demo_actor_def clip_low_def clip_high_def or_else_def)

theorem vanilla_closed_form_witness:
  "compute_policy_loss_vanilla (Some demo_actor) demo_inputs ''token-mean'' =
    rbind (agg_loss (is_weighted demo_inputs (tmap2 (dual_clip 0.2 0.3 3) (advantages demo_inputs)
             (tmap exp (negative_approx_kl demo_inputs)))) (response_mask demo_inputs) ''token-mean'' plain_batch) (\<lambda>pg_loss.
    Inr (pg_loss, ppo_metrics
      (fraction (tmap2 (\<lambda>a r. 0 < a \<and> 1 + 0.3 < r \<or> a < 0 \<and> r < 1 - 0.2) (advantages demo_inputs)
          (tmap exp (negative_approx_kl demo_inputs))) (response_mask demo_inputs))
      (mean_ppo_kl (negative_approx_kl demo_inputs) demo_inputs)
      (fraction (tmap2 (\<lambda>a r. a < 0 \<and> 3 < r) (advantages demo_inputs) (tmap exp (negative_approx_kl demo_inputs)))
         (response_mask demo_inputs))))"
  using vanilla_closed_form [of demo_actor demo_inputs "''token-mean''"] unfolding demo_actor_clip
  by (simp add: demo_actor_def)

lemma on_policy_equations:
  assumes "wf_inputs inp" and "log_prob inp = old_log_prob inp"
    and "0 \<le> clip_low config" and "0 \<le> clip_high config" and "1 < or_else (clip_ratio_c config) 3"
  shows "compute_policy_loss_vanilla (Some config) inp mode =
      rbind (agg_loss (is_weighted inp (tmap uminus (advantages inp))) (response_mask inp) mode (global_batch_info config))
        (\<lambda>loss. Inr (loss, ppo_metrics 0 0 0))"
    and "compute_policy_loss_gspo (Some config) inp mode = compute_policy_loss_vanilla (Some config) inp ''seq-mean-token-mean''"
    and "compute_policy_loss_cispo (Some config) inp mode =
      rbind (compute_policy_loss_reinforce (Some config) inp mode) (\<lambda>(loss, _). Inr (loss, ppo_metrics 0 0 0))"
proof -
  note ratio = on_policy_ratio [OF assms(1,2)]
  note sh = wf_inputsD [OF assms(1)]
  let ?low = "clip_low config" and ?high = "clip_high config" and ?c = "or_else (clip_ratio_c config) 3"
  have one: "clamp (1 - ?low) (1 + ?high) 1 = 1" using assms(3,4) by (simp add: clamp_def)
  have kl: "mean_ppo_kl (tmap (\<lambda>_. 0) A) inp = 0" for A :: tensor
    by (simp add: mean_ppo_kl_def tmap_tmap masked_mean_zero)
  have loss: "(\<lambda>a. ppo_token_loss ?low ?high ?c a 1) = uminus"
    using assms(3-5) by (auto simp: fun_eq_iff ppo_token_loss_closed dual_clip_def)
  have loss': "(\<lambda>a. max (ppo_loss1 a 1) (ppo_loss2 ?low ?high a 1)) = uminus"
    using one by (simp add: fun_eq_iff ppo_loss1_def ppo_loss2_def)
  have clip: "(\<lambda>a. ppo_clipped ?low ?high a 1) = (\<lambda>_. False)" "(\<lambda>a. ppo_clipped_lower ?low ?high ?c a 1) = (\<lambda>_. False)"
    using assms(3-5) by (auto simp: fun_eq_iff ppo_clipped_iff ppo_clipped_lower_iff)
  show vanilla: "compute_policy_loss_vanilla (Some config) inp mode =
      rbind (agg_loss (is_weighted inp (tmap uminus (advantages inp))) (response_mask inp) mode (global_batch_info config))
        (\<lambda>loss. Inr (loss, ppo_metrics 0 0 0))" for mode
    using assms(5)
    by (simp add: compute_policy_loss_vanilla_def ratio tmap_tmap tmap2_const_right [OF sh(4)] loss clip kl fraction_none)
  show "compute_policy_loss_gspo (Some config) inp mode = compute_policy_loss_vanilla (Some config) inp ''seq-mean-token-mean''"
    unfolding vanilla
    by (simp add: compute_policy_loss_gspo_def ratio tmap_tmap tmap2_const_right [OF sh(4)] loss' clip kl fraction_none)
  have neq: "tmap2 (\<noteq>) (tmap (\<lambda>_. 1 :: real) M) (tmap (\<lambda>_. 1) M) = tmap (\<lambda>_. False) M" for M :: tensor
    by (simp add: tmap2_same tmap_tmap)
  have prod: "tmap2 (*) (tmap (\<lambda>b. - b) A) B = tmap2 (\<lambda>a l. - (a * l)) A B"
    "tmap2 (\<lambda>a. (*) (- a)) A B = tmap2 (\<lambda>a l. - (a * l)) A B" for A B :: tensor
    by (auto simp: tmap_def list_eq_iff_nth_eq)
  have "same_shape (response_mask inp) (advantages inp)" using sh(4) by (simp add: same_shape_def)
  then show "compute_policy_loss_cispo (Some config) inp mode =
      rbind (compute_policy_loss_reinforce (Some config) inp mode) (\<lambda>(loss, _). Inr (loss, ppo_metrics 0 0 0))"
    by (cases "agg_loss (is_weighted inp (tmap2 (\<lambda>a l. - a * l) (advantages inp) (log_prob inp))) (response_mask inp) mode
          (global_batch_info config)")
      (simp_all add: compute_policy_loss_cispo_def compute_policy_loss_reinforce_def ratio tmap_tmap one neq kl
        fraction_none tmap2_const_left prod)
qed

text \<open>On-policy, when the old and the current log-probabilities agree, nothing is clipped and no
  divergence is reported: the PPO loss is the aggregated negative advantage, GSPO is PPO with the
  sequence-mean aggregation, and CISPO is REINFORCE.\<close>

theorem on_policy_losses:
  assumes "wf_inputs inp" and "log_prob inp = old_log_prob inp"
    and "0 \<le> clip_low config" and "0 \<le> clip_high config" and "1 < or_else (clip_ratio_c config) 3"
  shows "compute_policy_loss_vanilla (Some config) inp mode =
      rbind (agg_loss (is_weighted inp (tmap uminus (advantages inp))) (response_mask inp) mode (global_batch_info config))
        (\<lambda>loss. Inr (loss, ppo_metrics 0 0 0))
    \<and> compute_policy_loss_gspo (Some config) inp mode = compute_policy_loss_vanilla (Some config) inp ''seq-mean-token-mean''
    \<and> compute_policy_loss_cispo (Some config) inp mode =
      rbind (compute_policy_loss_reinforce (Some config) inp mode) (\<lambda>(loss, _). Inr (loss, ppo_metrics 0 0 0))"
  by (intro conjI on_policy_equations assms)

theorem on_policy_losses_witness:
  "compute_policy_loss_vanilla (Some demo_actor) demo_inputs ''token-mean'' =
     rbind (agg_loss (is_weighted demo_inputs (tmap uminus (advantages demo_inputs))) (response_mask demo_inputs) ''token-mean''
              (global_batch_info demo_actor)) (\<lambda>loss. Inr (loss, ppo_metrics 0 0 0))
   \<and> compute_policy_loss_gspo (Some demo_actor) demo_inputs ''token-mean''
     = compute_policy_loss_vanilla (Some demo_actor) demo_inputs ''seq-mean-token-mean''
   \<and> compute_policy_loss_cispo (Some demo_actor) demo_inputs ''token-mean'' =
     rbind (compute_policy_loss_reinforce (Some demo_actor) demo_inputs ''token-mean'') (\<lambda>(loss, _). Inr (loss, ppo_metrics 0 0 0))"
  using on_policy_losses [OF demo_inputs_wf, of demo_actor "''token-mean''"] by (simp add: demo_actor_clip)

text \<open>In every clipped loss, on inputs of one shape with a mask of zeros and ones, the reported
  clip fractions lie between 0 and 1.\<close>

theorem clip_fractions_in_unit_interval:
  assumes "wf_inputs inp" and "r \<in> set (clipped_losses randperm config inp mode)"
    and "r = Inr (loss, metrics)" and "(k, v) \<in> set metrics" and "k \<noteq> ''actor/ppo_kl''"
  shows "0 \<le> v \<and> v \<le> 1"
  using clip_metrics_clipped [OF assms(1), of randperm config mode] assms(2-)
  by (fastforce simp: clip_metrics_ok_def)

theorem clip_fractions_in_unit_interval_witness:
  "\<exists>loss. compute_policy_loss_vanilla (Some demo_actor) demo_inputs ''token-mean'' = Inr (loss, ppo_metrics 0 0 0)
     \<and> 0 \<le> (0 :: real) \<and> (0 :: real) \<le> 1"
proof -
  have "compute_policy_loss_vanilla (Some demo_actor) demo_inputs ''token-mean'' = Inr (- 2 / 3, ppo_metrics 0 0 0)"
    unfolding on_policy_ratio [OF demo_inputs_wf] compute_policy_loss_vanilla_def demo_actor_clip option.case Let_def
    by (simp add: demo_inputs_def demo_actor_def tmap_def tmap2_def ppo_token_loss_def ppo_loss1_def ppo_loss2_def clamp_def
        is_weighted_def agg_loss_def denominator_def plain_batch_def masked_sum_def ppo_clipped_def ppo_clipped_lower_def
        fraction_def masked_mean_def mean_ppo_kl_def)
  from clip_fractions_in_unit_interval [OF demo_inputs_wf(1) _ this, of "\<lambda>n. [0..<n]" demo_actor "''token-mean''" "''actor/pg_clipfrac''" 0] this
  show ?thesis by (auto simp: clipped_losses_def ppo_metrics_def)
qed

end
