(* ===== verification/LossRanges.thy ===== *)
theory LossRanges
  imports LossLaws BatchLaws
begin

text \<open>
  The ranges of the KL penalties, of the value loss, of the entropy and of the adaptive KL coefficient;
  which tokens Clip-Cov removes; what the resampling of PF-PPO keeps.
\<close>

section \<open>Monotonicity of the aggregation\<close>

definition tensor_le :: "tensor \<Rightarrow> tensor \<Rightarrow> bool" where
  "tensor_le A B \<longleftrightarrow> list_all2 (list_all2 (\<le>)) A B"

lemma map2_mono:
  assumes "list_all2 P xs ys" and "\<And>x y m. P x y \<Longrightarrow> m \<in> set ms \<Longrightarrow> f x m \<le> (f y m :: real)"
  shows "sum_list (map2 f xs ms) \<le> sum_list (map2 f ys ms)"
  using assms
proof (induction xs ys arbitrary: ms rule: list_all2_induct)
  case (Cons x xs y ys)
  then show ?case by (cases ms) (auto intro!: add_mono)
qed simp

lemma binary_mask_nonneg: "binary_mask M \<Longrightarrow> row \<in> set M \<Longrightarrow> m \<in> set row \<Longrightarrow> 0 \<le> m"
  by (force simp: binary_mask_def)

lemma masked_sum_rows:
  "masked_sum A M = sum_list (map2 (\<lambda>row m. sum_list (map2 (\<lambda>v m. (if m \<noteq> 0 then v else 0) * m) row m)) A M)"
proof (induction A arbitrary: M)
  case (Cons row A)
  then show ?case by (cases M) (simp_all add: masked_sum_def tmap2_def)
qed (simp add: masked_sum_def tmap2_def)

lemma masked_sum_mono:
  assumes "tensor_le A B" and "binary_mask M"
  shows "masked_sum A M \<le> masked_sum B M"
proof -
  have "sum_list (map2 (\<lambda>row m. sum_list (map2 (\<lambda>v m. (if m \<noteq> 0 then v else 0) * m) row m)) A M)
      \<le> sum_list (map2 (\<lambda>row m. sum_list (map2 (\<lambda>v m. (if m \<noteq> 0 then v else 0) * m) row m)) B M)"
  proof (rule map2_mono)
    show "list_all2 (list_all2 (\<le>)) A B" using assms(1) by (simp add: tensor_le_def)
    fix x y m assume "list_all2 (\<le>) (x :: real list) y" and "m \<in> set M"
    then show "sum_list (map2 (\<lambda>v m. (if m \<noteq> 0 then v else 0) * m) x m) \<le> sum_list (map2 (\<lambda>v m. (if m \<noteq> 0 then v else 0) * m) y m)"
      using assms(2) by (intro map2_mono [where P = "(\<le>)"]) (auto intro: mult_right_mono dest: binary_mask_nonneg)
  qed
  then show ?thesis by (simp only: masked_sum_rows)
qed

lemma seq_token_sum_mono:
  assumes "tensor_le A B" and "binary_mask M"
  shows "list_all2 (\<le>) (seq_token_sum A M) (seq_token_sum B M)"
proof -
  have "sum_list (map2 (*) x m) \<le> sum_list (map2 (*) y m)"
    if "list_all2 (\<le>) x y" and "m \<in> set M" for x y m :: "real list"
    using that assms(2) by (intro map2_mono [where P = "(\<le>)"]) (auto intro: mult_right_mono dest: binary_mask_nonneg)
  then show ?thesis
    using assms(1) by (auto simp: list_all2_conv_all_nth tensor_le_def seq_token_sum_def row_sums_def)
qed

lemma seq_live_nonneg: "m \<in> set (seq_live M) \<Longrightarrow> 0 \<le> m"
  by (auto simp: seq_live_def)

lemma masked_sum1_mono:
  assumes "list_all2 (\<le>) xs ys" and "\<And>m. m \<in> set ms \<Longrightarrow> 0 \<le> m"
  shows "masked_sum1 xs ms \<le> masked_sum1 ys ms"
  unfolding masked_sum1_def using assms by (intro map2_mono [where P = "(\<le>)"]) (auto intro: mult_right_mono)

lemma row_sums_nonneg: "binary_mask M \<Longrightarrow> n \<in> set (row_sums M) \<Longrightarrow> 0 \<le> n"
  by (auto simp: row_sums_def intro!: sum_list_nonneg dest: binary_mask_nonneg)

lemma agg_numerator_mono:
  assumes "tensor_le A B" and "binary_mask M"
  shows "agg_numerator mode A M \<le> agg_numerator mode B M"
proof -
  have "list_all2 (\<le>) (map2 (\<lambda>s n. s / (n + 1 / 10 ^ 8)) (seq_token_sum A M) (row_sums M))
      (map2 (\<lambda>s n. s / (n + 1 / 10 ^ 8)) (seq_token_sum B M) (row_sums M))"
    using seq_token_sum_mono [OF assms] row_sums_nonneg [OF assms(2)]
    by (auto simp: list_all2_conv_all_nth intro!: divide_right_mono add_nonneg_nonneg)
  then show ?thesis
    using masked_sum_mono [OF assms] seq_token_sum_mono [OF assms]
    by (auto simp: agg_numerator_def seq_numerator_def seq_mean_numerator_def intro!: masked_sum1_mono dest: seq_live_nonneg)
qed

lemma agg_count_nonneg: "binary_mask M \<Longrightarrow> 0 \<le> agg_count mode M"
  by (auto simp: agg_count_def tsum_binary_nonneg intro!: sum_list_nonneg dest: seq_live_nonneg)

lemma tensor_width_nonneg: "0 \<le> tensor_width M"
  by (simp add: tensor_width_def split: list.splits)

text \<open>Without given counts the loss is monotone in the loss matrix.\<close>

lemma agg_loss_plain:
  "mode \<in> loss_agg_modes \<Longrightarrow>
   agg_loss A M mode plain_batch = Inr (agg_numerator mode A M / agg_count mode M / agg_scale mode M plain_batch)"
  by (simp add: agg_loss_form agg_given_def denominator_def) (simp add: plain_batch_def denominator_def)

lemma agg_loss_mono:
  assumes "tensor_le A B" and "binary_mask M" and "mode \<in> loss_agg_modes"
  shows "\<exists>a b. agg_loss A M mode plain_batch = Inr a \<and> agg_loss B M mode plain_batch = Inr b \<and> a \<le> b"
proof -
  have "0 \<le> agg_scale mode M plain_batch"
    by (simp add: agg_scale_def plain_batch_def tensor_width_nonneg)
  with agg_numerator_mono [OF assms(1,2), of mode] agg_count_nonneg [OF assms(2), of mode]
  have "agg_numerator mode A M / agg_count mode M / agg_scale mode M plain_batch
      \<le> agg_numerator mode B M / agg_count mode M / agg_scale mode M plain_batch"
    by (intro divide_right_mono) auto
  then show ?thesis using assms(3) by (simp add: agg_loss_plain del: divide_divide_eq_left)
qed

section \<open>Entropy\<close>

lemma member_le_real_sum_list: "x \<in> set xs \<Longrightarrow> \<forall>y\<in>set xs. 0 \<le> y \<Longrightarrow> x \<le> (sum_list xs :: real)"
  by (induction xs) (auto intro: add_increasing add_increasing2 sum_list_nonneg)

lemma entropy_bounds:
  assumes "xs \<noteq> []"
  shows "0 \<le> entropy_from_logits xs \<and> entropy_from_logits xs \<le> ln (real (length xs))"
proof -
  define z where "z = (\<Sum>x\<leftarrow>xs. exp x :: real)"
  define p where "p x = exp x / z" for x
  let ?n = "real (length xs)"
  have z: "0 < z" using assms by (cases xs) (auto simp: z_def intro!: add_pos_nonneg sum_list_nonneg)
  have p: "0 < p x" for x using z by (simp add: p_def)
  have sum_p: "(\<Sum>x\<leftarrow>xs. p x) = 1"
    using z by (simp add: p_def sum_list_divide z_def [symmetric])
  have n: "0 < ?n" using assms by simp
  have "map2 (*) (map p ys) ys = map (\<lambda>x. p x * x) ys" for ys by (induction ys) auto
  then have "entropy_from_logits xs = ln z - (\<Sum>x\<leftarrow>xs. p x * x)"
    unfolding entropy_from_logits_def softmax_def logsumexp_def Let_def z_def [symmetric] p_def by simp
  also have "\<dots> = (\<Sum>x\<leftarrow>xs. p x * (ln z - x))"
    using sum_list_linear [of "ln z" p "-1" "\<lambda>x. p x * x" xs] sum_p by (simp add: algebra_simps)
  finally have h: "entropy_from_logits xs = (\<Sum>x\<leftarrow>xs. p x * (ln z - x))" .
  have "0 \<le> p x * (ln z - x)" if "x \<in> set xs" for x
  proof -
    have "exp x \<le> z" unfolding z_def using that by (intro member_le_real_sum_list) auto
    then have "x \<le> ln z" using z ln_ge_iff by blast
    with p [of x] show ?thesis by simp
  qed
  then have lower: "0 \<le> entropy_from_logits xs" unfolding h by (intro sum_list_nonneg) auto
  have "p x * (ln z - x) \<le> ln ?n * p x + (1 / ?n - p x)" for x
  proof -
    have "ln (z / (?n * exp x)) \<le> z / (?n * exp x) - 1" using z n by (intro ln_le_minus_one) simp
    then have "p x * ln (z / (?n * exp x)) \<le> p x * (z / (?n * exp x) - 1)" using p [of x] by (intro mult_left_mono) auto
    also have "\<dots> = 1 / ?n - p x" using z n by (simp add: p_def field_simps)
    also have "ln (z / (?n * exp x)) = ln z - x - ln ?n" using z n by (simp add: ln_div ln_mult)
    finally show ?thesis by (simp add: algebra_simps)
  qed
  then have "entropy_from_logits xs \<le> (\<Sum>x\<leftarrow>xs. ln ?n * p x + (1 / ?n - p x))"
    unfolding h by (intro sum_list_mono) auto
  also have "\<dots> = ln ?n * 1 + (\<Sum>x\<leftarrow>xs. 1 / ?n) - 1"
    using sum_p by (simp add: sum_list_addf sum_list_subtractf sum_list_const_mult)
  also have "\<dots> = ln ?n" using n by (simp add: sum_list_triv)
  finally show ?thesis using lower by simp
qed

lemma entropy_chunk_loop:
  assumes "0 < k"
  shows "foldl (entropy_chunk_step logits k) (replicate (length logits) 0) (map (\<lambda>c. c * k) [0..<m])
    = map entropy_from_logits (take (m * k) logits) @ replicate (length logits - m * k) 0"
proof (induction m)
  case (Suc m)
  have len: "length (map entropy_from_logits (take (m * k) logits)) = min (length logits) (m * k)" by simp
  have "take (k + m * k) logits = take (m * k) logits @ take k (drop (m * k) logits)"
    by (metis add.commute take_add)
  then show ?case
    using Suc by (cases "m * k \<le> length logits") (auto simp: entropy_chunk_step_def pyslice_def add.commute)
qed simp

lemma ceil_chunks: "0 < k \<Longrightarrow> n \<le> ((n + k - 1) div k) * (k :: nat)"
  using div_mult_mod_eq [of "n + k - 1" k] mod_less_divisor [of k "n + k - 1"] by linarith

section \<open>Which tokens Clip-Cov removes\<close>

lemma tnonzero_set: "(i, j) \<in> set (tnonzero B) \<longleftrightarrow> i < length B \<and> j < length (B ! i) \<and> B ! i ! j"
  by (auto simp: tnonzero_def)

lemma tnonzero_distinct: "distinct (tnonzero B)"
proof -
  have "distinct (concat (map (\<lambda>i. map (Pair i) (P i)) is))"
    if "distinct is" and "\<And>i. distinct (P i)" for "is" :: "nat list" and P :: "nat \<Rightarrow> nat list"
    using that by (induction "is") (auto simp: distinct_map inj_on_def)
  then show ?thesis by (simp add: tnonzero_def)
qed

lemma tset_nth:
  "i < length A \<Longrightarrow> j < length (A ! i) \<Longrightarrow> tset x p A ! i ! j = (if p = (i, j) then x else A ! i ! j)"
  by (cases p; cases "fst p = i") (auto simp: tset_def nth_list_update)

lemma tset_lengths [simp]: "length (tset x p A) = length A" "length (tset x p A ! i) = length (A ! i)"
  by (cases "fst p = i"; cases "fst p < length A"; simp add: tset_def nth_list_update list_update_beyond)+

lemma cov_corr_nth:
  assumes "i < length adv" and "j < length (adv ! i)"
  shows "cov_corr adv ps ! i ! j = (if (i, j) \<in> set ps then 0 else 1)"
proof -
  have "foldl (\<lambda>corr p. tset 0 p corr) A ps ! i ! j = (if (i, j) \<in> set ps then 0 else A ! i ! j)"
    if "i < length A" "j < length (A ! i)" for A :: tensor
    using that by (induction ps arbitrary: A) (auto simp: tset_nth)
  then show ?thesis using assms by (simp add: cov_corr_def tmap_def)
qed

text \<open>A random permutation of \<open>0..n-1\<close>.\<close>

definition is_randperm :: "(nat \<Rightarrow> nat list) \<Rightarrow> bool" where
  "is_randperm randperm \<longleftrightarrow> (\<forall>n. mset (randperm n) = mset [0..<n])"

lemma chosen_positions_props:
  assumes "is_randperm randperm" and "distinct cands"
  shows "set (chosen_positions randperm k cands) \<subseteq> set cands"
    and "card (set (chosen_positions randperm k cands)) = min k (length cands)"
proof -
  let ?perm = "randperm (length cands)"
  have perm: "set ?perm = {0..<length cands}" "distinct ?perm" "length ?perm = length cands"
    using assms(1) perm_upt_iff [of ?perm "length cands"] mset_eq_length [of ?perm "[0..<length cands]"]
    by (auto simp: is_randperm_def)
  have sub: "set (take m ?perm) \<subseteq> {0..<length cands}" for m using perm(1) set_take_subset by metis
  then show "set (chosen_positions randperm k cands) \<subseteq> set cands"
    by (fastforce simp: chosen_positions_def select_def)
  have "distinct (select cands (take m ?perm))" for m
    using sub [of m] perm(2) assms(2) by (auto simp: select_def distinct_map inj_on_def nth_eq_iff_index_eq subset_iff)
  then have "card (set (select cands (take m ?perm))) = min m (length cands)" for m
    using perm(3) by (simp add: distinct_card)
  then show "card (set (chosen_positions randperm k cands)) = min k (length cands)"
    by (cases "cands = []") (simp_all add: chosen_positions_def)
qed

lemma cov_candidate_props:
  assumes "wf_inputs inp" and "(i, j) \<in> set (cov_candidates lb ub (clip_cov_all low high inp) (response_mask inp))"
  shows "i < length (response_mask inp) \<and> j < length (response_mask inp ! i) \<and> 0 < response_mask inp ! i ! j
    \<and> \<not> ppo_clipped low high (advantages inp ! i ! j) (exp (raw_approx_kl inp ! i ! j))"
proof -
  let ?M = "response_mask inp"
  note sh = wf_inputsD(2-4) [OF assms(1)] kl_shapes(2) [OF assms(1)]
  have ij: "i < length ?M" "j < length (?M ! i)"
    using assms(2) by (auto simp: cov_candidates_def tnonzero_set)
  then show ?thesis
    using assms(2) sh
    by (auto simp: cov_candidates_def tnonzero_set clip_cov_all_def Let_def same_shape_iff tmap_def split: option.splits if_splits)
qed

section \<open>Properties\<close>

text \<open>Clip-Cov removes exactly as many tokens as its budget allows, and only tokens that are in
  the mask and were not already clipped: the correction is 0 at
  \<open>min (max (int (ratio * tokens)) 1) candidates\<close> positions and 1 elsewhere.\<close>

theorem clip_cov_removes_candidates:
  fixes config :: actor_config and pl :: policy_loss_config
  assumes "wf_inputs inp" and "is_randperm randperm"
  defines "M \<equiv> response_mask inp"
  defines "cands \<equiv> cov_candidates (or_else (clip_cov_lb pl) 1) (or_else (clip_cov_ub pl) 5)
      (clip_cov_all (clip_low config) (clip_high config) inp) M"
  defines "zeros \<equiv> {(i, j). i < length M \<and> j < length (M ! i) \<and> clip_cov_corr randperm config pl inp ! i ! j = 0}"
  shows "card zeros = min (max (nat \<lfloor>or_else (clip_cov_ratio pl) 0.0002 * tsum M\<rfloor>) 1) (length cands)
    \<and> (\<forall>(i, j)\<in>zeros. 0 < M ! i ! j
        \<and> \<not> ppo_clipped (clip_low config) (clip_high config) (advantages inp ! i ! j) (exp (raw_approx_kl inp ! i ! j)))
    \<and> (\<forall>i<length M. \<forall>j<length (M ! i). (i, j) \<notin> zeros \<longrightarrow> clip_cov_corr randperm config pl inp ! i ! j = 1)"
proof -
  let ?k = "max (nat \<lfloor>or_else (clip_cov_ratio pl) 0.0002 * tsum M\<rfloor>) 1"
  let ?chosen = "chosen_positions randperm ?k cands"
  have corr: "clip_cov_corr randperm config pl inp ! i ! j = (if (i, j) \<in> set ?chosen then 0 else 1)"
    if "i < length M" "j < length (M ! i)" for i j
    using that wf_inputsD(4) [OF assms(1)]
    by (simp add: clip_cov_corr_def Let_def cands_def M_def cov_corr_nth same_shape_iff)
  have chosen: "set ?chosen \<subseteq> set cands" "card (set ?chosen) = min ?k (length cands)"
    using chosen_positions_props [OF assms(2)] by (simp_all add: cands_def cov_candidates_def tnonzero_distinct)
  have cand: "i < length M \<and> j < length (M ! i) \<and> 0 < M ! i ! j
      \<and> \<not> ppo_clipped (clip_low config) (clip_high config) (advantages inp ! i ! j) (exp (raw_approx_kl inp ! i ! j))"
    if "(i, j) \<in> set ?chosen" for i j
    using that chosen(1) cov_candidate_props [OF assms(1)] by (auto simp: cands_def M_def)
  have "zeros = set ?chosen" using corr cand by (auto simp: zeros_def split: if_splits)
  with corr chosen(2) cand show ?thesis by auto
qed

lemma k3_penalty_bounds: "0 \<le> k3_penalty l r \<and> k3_penalty l r \<le> 10"
proof -
  have "0 \<le> exp x - x - 1" for x :: real using exp_ge_add_one_self [of x] by linarith
  then have "0 \<le> clamp (-10) 10 (exp x - x - 1) \<and> clamp (-10) 10 (exp x - x - 1) \<le> (10 :: real)" for x :: real
    unfolding clamp_def by (simp only: le_max_iff_disj min.bounded_iff max.bounded_iff) auto
  then show ?thesis unfolding k3_penalty_def Let_def .
qed

lemma tmap2_cancel:
  fixes A C D :: tensor
  assumes "same_shape A D" and "same_shape C D"
  shows "tmap2 (+) (tmap2 (-) (tmap2 f C D) (tmap2 f C D)) A = A"
proof -
  have "same_shape (tmap2 f C D) A" using assms by (simp add: same_shape_iff)
  moreover have "same_shape A A" by (rule same_shape_refl)
  ultimately show ?thesis
    by (subst tmap2_same, simp add: tmap2_const_left) (simp add: tmap_def)
qed

definition strip_plus :: "string \<Rightarrow> string" where
  "strip_plus name = (if ends_with_plus name then butlast name else name)"

lemma kl_penalty_forward_shape:
  "same_shape l r \<Longrightarrow> kl_penalty_forward l r name = Inr kl \<Longrightarrow> same_shape kl r"
  by (auto simp: kl_penalty_forward_def split: if_splits intro!: same_shape_tmap2 same_shape_refl)

lemma kl_penalty_strip:
  assumes "same_shape l r"
  shows "kl_penalty l r name = kl_penalty_forward l r (strip_plus name)"
proof (cases "kl_penalty_forward l r (strip_plus name)")
  case (Inr kl)
  with kl_penalty_forward_shape [OF assms this] assms show ?thesis
    by (simp add: kl_penalty_def strip_plus_def Let_def tmap2_cancel)
qed (simp add: kl_penalty_def strip_plus_def)

text \<open>The KL penalties: a trailing plus sign changes nothing in the value, exactly the listed
  names are accepted, and every penalty but the first-order one is nonnegative, the low-variance one
  at most 10.\<close>

theorem kl_penalty_values:
  assumes "same_shape l r"
  shows "kl_penalty l r name = kl_penalty_forward l r (strip_plus name)
    \<and> ((\<exists>kl. kl_penalty l r name = Inr kl)
      \<longleftrightarrow> strip_plus name \<in> {''kl'', ''k1'', ''abs'', ''mse'', ''k2'', ''low_var_kl'', ''k3''})
    \<and> (\<forall>kl row x. kl_penalty l r name = Inr kl \<longrightarrow> row \<in> set kl \<longrightarrow> x \<in> set row \<longrightarrow> strip_plus name \<notin> {''kl'', ''k1''}
      \<longrightarrow> 0 \<le> x \<and> (strip_plus name \<in> {''low_var_kl'', ''k3''} \<longrightarrow> x \<le> 10))"
  unfolding kl_penalty_strip [OF assms]
  using k3_penalty_bounds
  by (auto simp: kl_penalty_forward_def split: if_splits dest!: set_tmap2)

theorem kl_penalty_values_witness:
  "kl_penalty [[-1, -2]] [[-2, -1]] ''k3+'' = kl_penalty_forward [[-1, -2]] [[-2, -1]] ''k3''
   \<and> (\<exists>kl. kl_penalty [[-1, -2]] [[-2, -1]] ''k3+'' = Inr kl)"
proof -
  have "same_shape [[-1 :: real, -2]] [[-2 :: real, -1]]" by (simp add: same_shape_def)
  moreover have "strip_plus ''k3+'' = ''k3''" by (simp add: strip_plus_def ends_with_plus_def)
  ultimately show ?thesis using kl_penalty_values [of "[[-1, -2]]" "[[-2, -1]]" "''k3+''"] by (auto dest: sym)
qed

lemma value_losses_inside:
  "0 \<le> c \<Longrightarrow> \<bar>p - v\<bar> \<le> c \<Longrightarrow> value_losses c (p, ret, v) = ((p - ret)\<^sup>2, (p - ret)\<^sup>2)"
  by (auto simp: value_losses_def clip_by_value_def abs_le_iff)

lemma value_losses_max: "(p - ret)\<^sup>2 \<le> (case value_losses c (p, ret, v) of (l1, l2) \<Rightarrow> max l1 l2)"
  by (simp add: value_losses_def Let_def)

text \<open>The clipped value loss is never below half the unclipped squared error and its clip fraction
  is between 0 and 1; when every prediction is within the clip range of the old value, it is exactly
  that and nothing is reported clipped.\<close>

theorem value_loss_dominates:
  assumes "binary_mask M" and "same_shape vpreds M" and "same_shape returns M" and "same_shape vals M"
    and "mode \<in> loss_agg_modes" and "0 \<le> c"
  shows "\<exists>vf frac mse. compute_value_loss vpreds returns vals M c mode = Inr (vf, frac)
    \<and> agg_loss (tmap2 (\<lambda>p r. (p - r)\<^sup>2) vpreds returns) M mode plain_batch = Inr mse
    \<and> 0.5 * mse \<le> vf \<and> 0 \<le> frac \<and> frac \<le> 1
    \<and> ((\<forall>i<length M. \<forall>j<length (M ! i). \<bar>vpreds ! i ! j - vals ! i ! j\<bar> \<le> c) \<longrightarrow> vf = 0.5 * mse \<and> frac = 0)"
proof -
  let ?losses = "tmap (value_losses c) (tmap2 Pair vpreds (tmap2 Pair returns vals))"
  let ?sq = "tmap2 (\<lambda>p r. (p - r)\<^sup>2) vpreds returns"
  let ?max = "tmap (\<lambda>(l1, l2). max l1 l2) ?losses" and ?gt = "tmap (\<lambda>(l1, l2). l2 > l1) ?losses"
  have "tensor_le ?sq ?max"
    using assms(2-4) value_losses_max
    by (auto simp: tensor_le_def list_all2_conv_all_nth tmap_def same_shape_iff)
  from agg_loss_mono [OF this assms(1,5)] obtain mse l
    where l: "agg_loss ?sq M mode plain_batch = Inr mse" "agg_loss ?max M mode plain_batch = Inr l" "mse \<le> l" by blast
  have frac: "0 \<le> fraction ?gt M \<and> fraction ?gt M \<le> 1"
    using assms(1-4) by (intro fraction_bounds shapes)
  have inside: "l = mse \<and> fraction ?gt M = 0"
    if "\<forall>i<length M. \<forall>j<length (M ! i). \<bar>vpreds ! i ! j - vals ! i ! j\<bar> \<le> c"
  proof -
    have "?max = ?sq" "?gt = tmap (\<lambda>_. False) M"
      using assms(2-4,6) that by (auto simp: list_eq_iff_nth_eq tmap_def same_shape_iff value_losses_inside)
    with l show ?thesis by (simp add: fraction_none)
  qed
  have "compute_value_loss vpreds returns vals M c mode = Inr (0.5 * l, fraction ?gt M)"
    using l(2) by (simp add: compute_value_loss_def Let_def)
  moreover have "0.5 * mse \<le> 0.5 * l" using l(3) by simp
  ultimately show ?thesis using l(1) frac inside by metis
qed

theorem value_loss_dominates_witness:
  "\<exists>vf frac mse. compute_value_loss [[1, 5]] [[2, 2]] [[1, 1]] [[1, 1]] 1 ''token-mean'' = Inr (vf, frac)
    \<and> agg_loss (tmap2 (\<lambda>p r. (p - r)\<^sup>2) [[1, 5]] [[2, 2]]) [[1, 1]] ''token-mean'' plain_batch = Inr mse
    \<and> 0.5 * mse \<le> vf \<and> 0 \<le> frac \<and> frac \<le> 1"
  using value_loss_dominates [of "[[1, 1]]" "[[1, 5]]" "[[2, 2]]" "[[1, 1]]" "''token-mean''" 1]
  by (fastforce simp: binary_mask_def same_shape_def loss_agg_modes_def)

text \<open>The memory-saving chunked entropy computes the same numbers as the direct one for every chunk
  size, and each is between 0 and the logarithm of the vocabulary size.\<close>

theorem entropy_chunking_correct:
  assumes "0 < chunk_size" and "\<forall>row\<in>set logits. row \<noteq> []"
  shows "\<exists>es. entropy_from_logits_with_chunking logits chunk_size = Inr es \<and> es = map entropy_from_logits logits
    \<and> (\<forall>i<length logits. 0 \<le> es ! i \<and> es ! i \<le> ln (real (length (logits ! i))))"
proof -
  let ?m = "(length logits + chunk_size - 1) div chunk_size"
  have "length logits \<le> ?m * chunk_size" by (rule ceil_chunks [OF assms(1)])
  then have "foldl (entropy_chunk_step logits chunk_size) (replicate (length logits) 0) (map (\<lambda>c. c * chunk_size) [0..<?m])
      = map entropy_from_logits logits"
    by (simp only: entropy_chunk_loop [OF assms(1)] take_all) simp
  then show ?thesis
    using assms entropy_bounds by (simp add: entropy_from_logits_with_chunking_def del: foldl_map)
qed

theorem entropy_chunking_correct_witness:
  "\<exists>es. entropy_from_logits_with_chunking [[0, 0], [1, 2], [3, 3]] (2 :: nat) = Inr es
    \<and> es = map entropy_from_logits [[0, 0], [1, 2], [3, 3]]"
  using entropy_chunking_correct [of 2 "[[0, 0], [1, 2], [3, 3]]"] by fastforce

text \<open>The adaptive KL coefficient moves by at most a fifth of \<open>n_steps / horizon\<close> per update, in the
  direction of the measured divergence, and stays nonnegative while the steps do not exceed five
  horizons; the fixed coefficient never moves. Other types are refused.\<close>

theorem kl_controller_bounded:
  fixes current_kl :: real
  assumes "get_kl_controller config = Inr ctrl" and "0 \<le> kl_coef config" and "0 < kl_target_kl config"
    and "0 \<le> n_steps" and "n_steps \<le> 5 * kl_ctrl_horizon config"
  defines "v \<equiv> kl_value ctrl" and "v' \<equiv> kl_value (kl_update ctrl current_kl n_steps)"
  shows "v = kl_coef config \<and> 0 \<le> v'
    \<and> (kl_type config = ''fixed'' \<and> v' = v
       \<or> kl_type config = ''adaptive'' \<and> \<bar>v' - v\<bar> \<le> 0.2 * v * n_steps / kl_ctrl_horizon config
         \<and> (kl_target_kl config \<le> current_kl \<longrightarrow> v \<le> v') \<and> (current_kl \<le> kl_target_kl config \<longrightarrow> v' \<le> v))"
proof (cases "kl_type config = ''fixed''")
  case True
  then show ?thesis using assms(1,2) by (auto simp: get_kl_controller_def v_def v'_def)
next
  case False
  then have ty: "kl_type config = ''adaptive''" and h: "0 < kl_ctrl_horizon config"
    and ctrl: "ctrl = AdaptiveKLController (kl_coef config) (kl_target_kl config) (kl_ctrl_horizon config)"
    using assms(1) by (auto simp: get_kl_controller_def res_simps split: if_splits)
  let ?h = "kl_ctrl_horizon config"
  define e where "e = clamp (-0.2) 0.2 (current_kl / kl_target_kl config - 1)"
  define q where "q = n_steps / ?h"
  have q: "0 \<le> q" "q \<le> 5" using assms(4,5) h by (simp_all add: q_def pos_divide_le_eq)
  have e: "-0.2 \<le> e" "e \<le> 0.2"
    unfolding e_def clamp_def by (simp_all only: le_max_iff_disj min.bounded_iff max.bounded_iff min.cobounded1) auto
  have v: "v = kl_coef config" and v': "v' = v * (1 + e * q)"
    by (simp_all add: v_def v'_def ctrl Let_def e_def q_def)
  have vn: "0 \<le> v" using assms(2) v by simp
  have "\<bar>e\<bar> \<le> 0.2" using e by linarith
  then have "\<bar>e\<bar> * \<bar>q\<bar> \<le> 0.2 * \<bar>q\<bar>" by (intro mult_right_mono) auto
  then have "\<bar>e * q\<bar> \<le> 0.2 * q" using q by (simp only: abs_mult abs_of_nonneg)
  moreover have "0.2 * q \<le> 1" using q by simp
  ultimately have eq: "- 1 \<le> e * q" "\<bar>e * q\<bar> \<le> 0.2 * q" by auto
  have "v' - v = v * (e * q)" by (simp add: v' algebra_simps)
  then have bound: "\<bar>v' - v\<bar> \<le> 0.2 * v * n_steps / ?h"
    using mult_left_mono [OF eq(2) vn] vn by (simp add: abs_mult q_def mult_ac)
  have nonneg: "0 \<le> v'" unfolding v' using vn eq(1) by (intro mult_nonneg_nonneg) auto
  have up: "v \<le> v'" if "kl_target_kl config \<le> current_kl"
  proof -
    have "0 \<le> current_kl / kl_target_kl config - 1" using that assms(3) by (simp add: pos_le_divide_eq)
    then have "0 \<le> e" unfolding e_def clamp_def by simp
    then have "0 \<le> v * (e * q)" using vn q by (intro mult_nonneg_nonneg)
    then show ?thesis using \<open>v' - v = v * (e * q)\<close> by linarith
  qed
  have down: "v' \<le> v" if "current_kl \<le> kl_target_kl config"
  proof -
    have "current_kl / kl_target_kl config - 1 \<le> 0" using that assms(3) by (simp add: pos_divide_le_eq)
    then have "e \<le> 0" unfolding e_def clamp_def by (simp add: min_le_iff_disj)
    then have "v * (e * q) \<le> 0" using vn q by (intro mult_nonneg_nonpos mult_nonpos_nonneg)
    then show ?thesis using \<open>v' - v = v * (e * q)\<close> by linarith
  qed
  show ?thesis using ty v bound nonneg up down by simp
qed


definition demo_kl_config :: kl_ctrl_config where
  "demo_kl_config = \<lparr>kl_type = ''adaptive'', kl_coef = 0.1, kl_target_kl = 2, kl_ctrl_horizon = 100\<rparr>"

theorem kl_controller_bounded_witness:
  "\<exists>ctrl. get_kl_controller demo_kl_config = Inr ctrl \<and> kl_value ctrl = 0.1
     \<and> \<bar>kl_value (kl_update ctrl 3 10) - kl_value ctrl\<bar> \<le> 0.2 * kl_value ctrl * 10 / 100"
proof -
  have g: "get_kl_controller demo_kl_config = Inr (AdaptiveKLController 0.1 2 100)"
    by (simp add: get_kl_controller_def demo_kl_config_def)
  from kl_controller_bounded [OF g, of 10 3] g show ?thesis
    by (simp add: demo_kl_config_def clamp_def)
qed

theorem clip_cov_removes_candidates_witness:
  "\<exists>n. card {(i, j). i < length (response_mask demo_inputs) \<and> j < length (response_mask demo_inputs ! i)
     \<and> clip_cov_corr (\<lambda>n. [0..<n]) demo_actor (the (policy_loss demo_actor)) demo_inputs ! i ! j = 0} = n \<and> n \<le> 1"
proof -
  have "is_randperm (\<lambda>n. [0..<n])" by (simp add: is_randperm_def)
  from clip_cov_removes_candidates [OF demo_inputs_wf(1) this, of demo_actor "the (policy_loss demo_actor)"]
  have "card {(i, j). i < length (response_mask demo_inputs) \<and> j < length (response_mask demo_inputs ! i)
      \<and> clip_cov_corr (\<lambda>n. [0..<n]) demo_actor (the (policy_loss demo_actor)) demo_inputs ! i ! j = 0}
    \<le> max (nat \<lfloor>or_else (clip_cov_ratio (the (policy_loss demo_actor))) 0.0002 * tsum (response_mask demo_inputs)\<rfloor>) 1"
    by (metis (no_types, lifting) min.cobounded1)
  then show ?thesis by (simp add: demo_actor_def demo_inputs_def or_else_def)
qed

end
