(* ===== verification/EvidenceWeighting.thy ===== *)
theory EvidenceWeighting
  imports TensorOps PyObject
begin

text \<open>
  The relative evidence weights of on-policy distillation,
  \<open>verl/trainer/distillation/evidence_weighting.py\<close>: every rollout is scored by how much the teacher's
  log-probabilities improve with the evidence, the scores are standardised among the rollouts of the
  same prompt and mapped to a clamped weight.
\<close>

section \<open>Definitions\<close>

text \<open>Sampled-token log-probabilities come with or without a trailing axis of size one.\<close>

datatype logprob_tensor = Logprobs2 tensor | Logprobs3 "real list list list"

definition squeeze_single_logprob :: "logprob_tensor \<Rightarrow> tensor res" where
  "squeeze_single_logprob logprobs =
     (case logprobs of
        Logprobs2 A \<Rightarrow> Inr A
      | Logprobs3 A \<Rightarrow>
          rbind (rcheck ValueError (\<forall>row\<in>set A. \<forall>cell\<in>set row. length cell = 1)) (\<lambda>_. Inr (tmap hd A)))"

definition columns :: "'a list list \<Rightarrow> nat" where
  "columns A = (case A of [] \<Rightarrow> 0 | row # _ \<Rightarrow> length row)"

record evidence_config =
  ev_gamma :: real
  ev_alpha :: real
  ev_w_min :: real
  ev_w_max :: real
  ev_eps :: real

definition relu :: "real \<Rightarrow> real" where
  "relu x = max x 0"

definition mean1 :: "real list \<Rightarrow> real" where
  "mean1 xs = sum_list xs / real (length xs)"

definition std1 :: "real list \<Rightarrow> real" where
  "std1 xs = sqrt (mean1 (map (\<lambda>x. (x - mean1 xs)\<^sup>2) xs))"

definition token_score :: "real \<Rightarrow> real \<Rightarrow> real" where
  "token_score gamma delta = relu delta - gamma * relu (- delta)"

text \<open>The score of a rollout: the mean token score over the unmasked tokens.\<close>

definition evidence_scores :: "evidence_config \<Rightarrow> tensor \<Rightarrow> tensor \<Rightarrow> real list" where
  "evidence_scores cfg delta mask_t =
     (let token_scores = tmap (token_score (ev_gamma cfg)) delta;
          lengths = map (\<lambda>n. max n (ev_eps cfg)) (row_sums mask_t)
      in map2 (/) (row_sums (tmap2 (*) token_scores mask_t)) lengths)"

text \<open>One prompt: the rollouts with its id, standardised; a single rollout keeps advantage 0.\<close>

definition group_positions :: "'u list \<Rightarrow> 'u \<Rightarrow> nat list" where
  "group_positions uids uid = filter (\<lambda>i. uids ! i = uid) [0..<length uids]"

definition scatter :: "real list \<Rightarrow> nat list \<Rightarrow> real list \<Rightarrow> real list" where
  "scatter xs idxs vals = foldl (\<lambda>ys (i, v). ys[i := v]) xs (zip idxs vals)"

definition evidence_group_step :: "evidence_config \<Rightarrow> 'u list \<Rightarrow> real list \<Rightarrow> real list \<Rightarrow> 'u \<Rightarrow> real list" where
  "evidence_group_step cfg uids scores advantages uid =
     (let indices = group_positions uids uid in
      if length indices \<le> 1 then advantages
      else (let group_scores = select scores indices;
                group_mean = mean1 group_scores;
                group_std = std1 group_scores
            in scatter advantages indices (map (\<lambda>s. (s - group_mean) / (group_std + ev_eps cfg)) group_scores)))"

definition evidence_advantages :: "evidence_config \<Rightarrow> ('u::linorder) list \<Rightarrow> real list \<Rightarrow> real list" where
  "evidence_advantages cfg uids scores =
     foldl (evidence_group_step cfg uids scores) (map (\<lambda>_. 0) scores) (py_sorted (<) (remdups uids))"

definition evidence_weight :: "evidence_config \<Rightarrow> real \<Rightarrow> real" where
  "evidence_weight cfg a = clamp (ev_w_min cfg) (ev_w_max cfg) (1 + ev_alpha cfg * a)"

definition evidence_metrics :: "evidence_config \<Rightarrow> tensor \<Rightarrow> tensor \<Rightarrow> real list \<Rightarrow> real list \<Rightarrow> real list \<Rightarrow> real pydict" where
  "evidence_metrics cfg delta mask_t scores advantages weights =
     (let valid_delta = map snd (filter (\<lambda>p. fst p \<noteq> 0) (zip (concat mask_t) (concat delta)));
          delta_mean = (if valid_delta = [] then 0 else mean1 valid_delta);
          delta_pos_frac = (if valid_delta = [] then 0 else mean1 (map (\<lambda>d. of_bool (d > 0)) valid_delta))
      in [(''rew_opd/score_mean'', mean1 scores), (''rew_opd/score_std'', std1 scores),
          (''rew_opd/adv_mean'', mean1 advantages), (''rew_opd/adv_std'', std1 advantages),
          (''rew_opd/weight_mean'', mean1 weights), (''rew_opd/weight_min'', Min (set weights)),
          (''rew_opd/weight_max'', Max (set weights)),
          (''rew_opd/weight_zero_frac'', mean1 (map (\<lambda>w. of_bool (w \<le> ev_w_min cfg + ev_eps cfg)) weights)),
          (''rew_opd/delta_mean'', delta_mean), (''rew_opd/delta_pos_frac'', delta_pos_frac)])"

text \<open>The weights, the metrics and the diagnostics (scores and advantages). An empty batch has no
  minimal weight.\<close>

definition compute_relative_evidence_opd_weights ::
    "evidence_config \<Rightarrow> logprob_tensor \<Rightarrow> logprob_tensor \<Rightarrow> tensor \<Rightarrow> int \<Rightarrow> ('u::linorder) list
      \<Rightarrow> (real list \<times> real pydict \<times> real list \<times> real list) res" where
  "compute_relative_evidence_opd_weights cfg teacher_logprobs teacher_neg_logprobs response_mask prompt_width uids =
     rbind (rcheck ValueError (length uids = length response_mask)) (\<lambda>_.
     rbind (squeeze_single_logprob teacher_logprobs) (\<lambda>plus_full.
     rbind (squeeze_single_logprob teacher_neg_logprobs) (\<lambda>minus_full.
     rbind (rcheck ValueError (\<not> prompt_width < 1)) (\<lambda>_.
     (let response_start = nat (prompt_width - 1);
          response_end = response_start + columns response_mask in
      rbind (rcheck ValueError (map length plus_full = map length minus_full)) (\<lambda>_.
      rbind (rcheck ValueError (\<not> columns plus_full < response_end)) (\<lambda>_.
      (let plus = map (pyslice response_start response_end) plus_full;
           minus = map (pyslice response_start response_end) minus_full;
           delta = tmap2 (-) plus minus;
           scores = evidence_scores cfg delta response_mask;
           advantages = evidence_advantages cfg uids scores;
           weights = map (evidence_weight cfg) advantages in
       rbind (rcheck RuntimeError (weights \<noteq> [])) (\<lambda>_.
       Inr (weights, evidence_metrics cfg delta response_mask scores advantages weights, scores, advantages))))))))))"

section \<open>Lemmas\<close>

lemma length_evidence_scores [simp]: "length (evidence_scores cfg delta M) = min (length delta) (length M)"
  by (simp add: evidence_scores_def Let_def tmap_def)

lemma length_scatter [simp]: "length (scatter xs idxs vals) = length xs"
proof -
  have "length (foldl (\<lambda>ys (i, v). ys[i := v]) xs ps) = length xs" for ps :: "(nat \<times> real) list"
    by (induction ps arbitrary: xs) auto
  then show ?thesis by (simp add: scatter_def)
qed

lemma scatter_map_nth:
  "i < length xs \<Longrightarrow> scatter xs idxs (map F idxs) ! i = (if i \<in> set idxs then F i else xs ! i)"
proof -
  have "i < length xs \<Longrightarrow> foldl (\<lambda>ys (i, v). ys[i := v]) xs (zip idxs (map F idxs)) ! i = (if i \<in> set idxs then F i else xs ! i)" for xs
    by (induction idxs arbitrary: xs) (auto simp: nth_list_update)
  then show "i < length xs \<Longrightarrow> ?thesis" by (simp add: scatter_def)
qed

definition group_scores :: "'u list \<Rightarrow> real list \<Rightarrow> 'u \<Rightarrow> real list" where
  "group_scores uids scores uid = select scores (group_positions uids uid)"

definition standardised :: "evidence_config \<Rightarrow> real list \<Rightarrow> real \<Rightarrow> real" where
  "standardised cfg xs s = (if length xs \<le> 1 then 0 else (s - mean1 xs) / (std1 xs + ev_eps cfg))"

lemma group_positions_set: "i \<in> set (group_positions uids uid) \<longleftrightarrow> i < length uids \<and> uids ! i = uid"
  by (auto simp: group_positions_def)

lemma length_group_step [simp]: "length (evidence_group_step cfg uids scores advs uid) = length advs"
  by (simp add: evidence_group_step_def Let_def)

lemma evidence_group_step_nth:
  assumes "i < length advs"
  shows "evidence_group_step cfg uids scores advs uid ! i
    = (if i < length uids \<and> uids ! i = uid \<and> 1 < length (group_positions uids uid)
       then standardised cfg (group_scores uids scores uid) (scores ! i) else advs ! i)"
proof -
  let ?idx = "group_positions uids uid"
  have "map (\<lambda>s. (s - mean1 (select scores ?idx)) / (std1 (select scores ?idx) + ev_eps cfg)) (select scores ?idx)
      = map (\<lambda>i. (scores ! i - mean1 (select scores ?idx)) / (std1 (select scores ?idx) + ev_eps cfg)) ?idx"
    by (simp add: select_def)
  then show ?thesis
    using assms
    by (auto simp: evidence_group_step_def Let_def scatter_map_nth group_positions_set standardised_def group_scores_def)
qed

lemma foldl_group_steps_nth:
  assumes "i < length advs" and "length uids = length advs" and "distinct us"
  shows "length (foldl (evidence_group_step cfg uids scores) advs us) = length advs
    \<and> foldl (evidence_group_step cfg uids scores) advs us ! i
      = (if uids ! i \<in> set us \<and> 1 < length (group_positions uids (uids ! i))
         then standardised cfg (group_scores uids scores (uids ! i)) (scores ! i) else advs ! i)"
  using assms
proof (induction us arbitrary: advs)
  case (Cons u us)
  then show ?case by (auto simp: evidence_group_step_nth)
qed simp

lemma evidence_advantages_nth:
  assumes "i < length scores" and "length uids = length scores"
  shows "evidence_advantages cfg uids scores ! i = standardised cfg (group_scores uids scores (uids ! i)) (scores ! i)"
    and "length (evidence_advantages cfg uids scores) = length scores"
proof -
  have d: "distinct (py_sorted (<) (remdups uids))"
    by (metis distinct_remdups mset_eq_imp_distinct_iff mset_py_sorted)
  have u: "uids ! i \<in> set (py_sorted (<) (remdups uids))" using assms by simp
  note r = foldl_group_steps_nth [of i "map (\<lambda>_. 0) scores" uids "py_sorted (<) (remdups uids)" cfg scores, OF _ _ d]
  show "length (evidence_advantages cfg uids scores) = length scores"
    using r assms unfolding evidence_advantages_def by simp
  show "evidence_advantages cfg uids scores ! i = standardised cfg (group_scores uids scores (uids ! i)) (scores ! i)"
    using r assms u unfolding evidence_advantages_def
    by (auto simp: standardised_def group_scores_def not_less)
qed

lemma length_evidence_advantages [simp]: "length (evidence_advantages cfg uids scores) = length scores"
proof -
  have "length (foldl (evidence_group_step cfg uids scores) advs us) = length advs" for advs us
    by (induction us arbitrary: advs) auto
  then show ?thesis by (simp add: evidence_advantages_def)
qed

lemma std1_nonneg: "0 \<le> std1 xs"
  by (auto simp: std1_def mean1_def intro!: divide_nonneg_nonneg sum_list_nonneg)

lemma standardised_mono:
  "0 < ev_eps cfg \<Longrightarrow> s \<le> t \<Longrightarrow> standardised cfg xs s \<le> standardised cfg xs t"
  using std1_nonneg [of xs] by (auto simp: standardised_def intro!: divide_right_mono)

lemma sum_standardised: "(\<Sum>s\<leftarrow>xs. standardised cfg xs s) = 0"
proof (cases "length xs \<le> 1")
  case False
  have "(\<Sum>s\<leftarrow>ys. (s - m) / d) = (sum_list ys - real (length ys) * m) / d" for ys and m d :: real
    by (induction ys) (auto simp: algebra_simps add_divide_distrib diff_divide_distrib)
  from this [where ys = xs and m = "mean1 xs"] False show ?thesis
    by (simp add: standardised_def mean1_def)
qed (simp add: standardised_def)

lemma evidence_weight_bounds: "ev_w_min cfg \<le> ev_w_max cfg \<Longrightarrow> ev_w_min cfg \<le> evidence_weight cfg a \<and> evidence_weight cfg a \<le> ev_w_max cfg"
  by (simp add: evidence_weight_def clamp_def)

lemma evidence_weight_mono: "0 \<le> ev_alpha cfg \<Longrightarrow> a \<le> b \<Longrightarrow> evidence_weight cfg a \<le> evidence_weight cfg b"
proof -
  assume "0 \<le> ev_alpha cfg" "a \<le> b"
  then have "ev_alpha cfg * a \<le> ev_alpha cfg * b" by (rule mult_left_mono [rotated])
  then show ?thesis unfolding evidence_weight_def clamp_def by (intro min.mono max.mono) auto
qed

section \<open>Properties\<close>

text \<open>The evidence weights are relative: there is one per rollout, each within the configured
  bounds; among the rollouts of one prompt a higher score never gets a lower weight; the advantages of
  a prompt sum to zero; a prompt's only rollout gets the neutral weight 1 (clamped).\<close>

theorem evidence_weights_relative:
  assumes "compute_relative_evidence_opd_weights cfg tp tn M pw uids = Inr (weights, metrics, scores, advantages)"
    and "squeeze_single_logprob tp = Inr P" and "length P = length M"
    and "0 < ev_eps cfg" and "0 \<le> ev_alpha cfg" and "ev_w_min cfg \<le> ev_w_max cfg"
  shows "length weights = length uids
    \<and> (\<forall>i<length uids. ev_w_min cfg \<le> weights ! i \<and> weights ! i \<le> ev_w_max cfg
        \<and> (length (group_positions uids (uids ! i)) = 1 \<longrightarrow> weights ! i = clamp (ev_w_min cfg) (ev_w_max cfg) 1)
        \<and> sum_list (select advantages (group_positions uids (uids ! i))) = 0
        \<and> (\<forall>j<length uids. uids ! i = uids ! j \<longrightarrow> scores ! i \<le> scores ! j \<longrightarrow> weights ! i \<le> weights ! j))"
proof -
  define cut :: "tensor \<Rightarrow> tensor" where "cut = map (pyslice (nat (pw - 1)) (nat (pw - 1) + columns M))"
  obtain N where uids: "length uids = length M" and shape: "map length P = map length N"
    and scores: "scores = evidence_scores cfg (tmap2 (-) (cut P) (cut N)) M"
    and advs: "advantages = evidence_advantages cfg uids scores"
    and weights: "weights = map (evidence_weight cfg) advantages"
    using assms(1,2) unfolding compute_relative_evidence_opd_weights_def Let_def cut_def [symmetric]
    by (auto simp: res_simps)
  have delta: "length (tmap2 (-) (cut P) (cut N)) = length M"
    using arg_cong [OF shape, of length] assms(3) by (simp add: cut_def)
  have len: "length scores = length uids" using scores delta uids by simp
  note nth = evidence_advantages_nth [OF _ len [symmetric], of _ cfg, folded advs]
  have lenw: "length advantages = length uids" by (simp add: advs len)
  have w: "weights ! i = evidence_weight cfg (standardised cfg (group_scores uids scores (uids ! i)) (scores ! i))"
    if "i < length uids" for i
    using that nth(1) [of i] len lenw by (simp add: weights)
  have zero: "sum_list (select advantages (group_positions uids u)) = 0" for u
  proof -
    have "select advantages (group_positions uids u)
        = map (standardised cfg (group_scores uids scores u)) (group_scores uids scores u)"
      using nth(1) len by (auto simp: select_def group_scores_def group_positions_set)
    then show ?thesis using sum_standardised by simp
  qed
  have "length weights = length uids" by (simp add: weights lenw)
  moreover have "standardised cfg (group_scores uids scores u) s = 0" if "length (group_positions uids u) = 1" for u s
    using that by (simp add: standardised_def group_scores_def)
  moreover have "evidence_weight cfg 0 = clamp (ev_w_min cfg) (ev_w_max cfg) 1" by (simp add: evidence_weight_def)
  ultimately show ?thesis
    using w zero assms(4-6)
    by (auto simp: evidence_weight_bounds evidence_weight_mono standardised_mono)
qed

definition demo_evidence :: evidence_config where
  "demo_evidence = \<lparr>ev_gamma = 1, ev_alpha = 1/2, ev_w_min = 0, ev_w_max = 2, ev_eps = 1\<rparr>"

theorem evidence_weights_relative_witness:
  "\<exists>weights metrics scores advantages.
     compute_relative_evidence_opd_weights demo_evidence (Logprobs2 [[-1, -1], [-2, -1], [-1, -1]])
       (Logprobs3 [[[-2], [-1]], [[-1], [-1]], [[-3], [-1]]]) [[1], [1], [1]] 1 [5, 5, 6 :: int]
       = Inr (weights, metrics, scores, advantages)
     \<and> length weights = 3 \<and> weights ! 1 \<le> weights ! 0"
proof -
  let ?r = "compute_relative_evidence_opd_weights demo_evidence (Logprobs2 [[-1, -1], [-2, -1], [-1, -1]])
       (Logprobs3 [[[-2], [-1]], [[-1], [-1]], [[-3], [-1]]]) [[1], [1], [1]] 1 [5, 5, 6 :: int]"
  let ?scores = "evidence_scores demo_evidence [[1], [-1], [2]] [[1], [1], [1]]"
  have sc: "?scores = [1, -1, 2]"
    by (simp add: evidence_scores_def demo_evidence_def tmap_def tmap2_def row_sums_def token_score_def relu_def)
  have "length (evidence_advantages demo_evidence [5, 5, 6 :: int] [1, -1, 2]) = 3" by simp
  then have ne: "evidence_advantages demo_evidence [5, 5, 6 :: int] [1, -1, 2] \<noteq> []"
    by (metis length_0_conv numeral_eq_Suc nat.distinct(1))
  obtain weights metrics where r: "?r = Inr (weights, metrics, [1, -1, 2], evidence_advantages demo_evidence [5, 5, 6 :: int] [1, -1, 2])"
    using sc ne
    by (simp add: compute_relative_evidence_opd_weights_def squeeze_single_logprob_def tmap_def columns_def pyslice_def tmap2_def Let_def)
  from evidence_weights_relative [OF r, of "[[-1, -1], [-2, -1], [-1, -1]]"] r show ?thesis
    by (auto simp: squeeze_single_logprob_def demo_evidence_def numeral_nat All_less_Suc)
qed

end
