(* ===== verification/MetricAgg.thy ===== *)
theory MetricAgg
  imports LossLaws
begin

text \<open>
  The metric aggregators of \<open>verl/utils/metric/utils.py\<close>: the class \<open>Metric\<close>, the aggregation over
  data-parallel ranks and \<open>reduce_metrics\<close>. A value is a real number, numpy arrays of values are not
  modelled; the mean of no values is NaN, here \<open>None\<close>.
\<close>

section \<open>The class Metric\<close>

datatype aggregation = AggMean | AggSum | AggMin | AggMax

record metric =
  aggregation_of :: aggregation
  metric_values :: "real list"

text \<open>What \<open>append\<close> may be given: a number, a tensor with its elements, another metric, anything else.\<close>

datatype metric_input = NumberInput real | TensorInput "real list" | MetricInput metric | OtherInput

definition aggregation_by_name :: "string \<Rightarrow> aggregation res" where
  "aggregation_by_name name =
     (if name = ''mean'' then Inr AggMean else if name = ''sum'' then Inr AggSum
      else if name = ''min'' then Inr AggMin else if name = ''max'' then Inr AggMax else Inl ValueError)"

definition init_list :: "metric \<Rightarrow> metric" where
  "init_list m = \<lparr>aggregation_of = aggregation_of m, metric_values = []\<rparr>"

definition metric_push :: "metric \<Rightarrow> real \<Rightarrow> metric" where
  "metric_push m x = m\<lparr>metric_values := metric_values m @ [x]\<rparr>"

definition metric_extend :: "metric \<Rightarrow> metric \<Rightarrow> metric res" where
  "metric_extend m other =
     rbind (rcheck ValueError (\<not> aggregation_of other \<noteq> aggregation_of m)) (\<lambda>_.
     Inr (foldl metric_push m (metric_values other)))"

fun metric_append :: "metric \<Rightarrow> metric_input \<Rightarrow> metric res" where
  "metric_append m (MetricInput other) = metric_extend m other"
| "metric_append m (TensorInput xs) = rbind (rcheck ValueError (\<not> length xs \<noteq> 1)) (\<lambda>_. Inr (metric_push m (hd xs)))"
| "metric_append m (NumberInput x) = Inr (metric_push m x)"
| "metric_append m OtherInput = Inl ValueError"

definition metric_new :: "aggregation \<Rightarrow> metric_input option \<Rightarrow> metric res" where
  "metric_new a value_option =
     (let m = \<lparr>aggregation_of = a, metric_values = []\<rparr> in
      case value_option of None \<Rightarrow> Inr m | Some x \<Rightarrow> metric_append m x)"

fun extend_inputs :: "metric \<Rightarrow> metric_input list \<Rightarrow> metric res" where
  "extend_inputs m [] = Inr m"
| "extend_inputs m (x # xs) = rbind (metric_append m x) (\<lambda>m'. extend_inputs m' xs)"

section \<open>Aggregating\<close>

text \<open>\<open>np.mean\<close>, \<open>np.sum\<close>, \<open>np.min\<close> and \<open>np.max\<close>.\<close>

definition np_mean :: "real list \<Rightarrow> real option" where
  "np_mean xs = (if xs = [] then None else Some (sum_list xs / real (length xs)))"

definition np_min :: "real list \<Rightarrow> real res" where
  "np_min xs = rbind (rcheck ValueError (xs \<noteq> [])) (\<lambda>_. Inr (Min (set xs)))"

definition np_max :: "real list \<Rightarrow> real res" where
  "np_max xs = rbind (rcheck ValueError (xs \<noteq> [])) (\<lambda>_. Inr (Max (set xs)))"

fun aggregate_by :: "real list \<Rightarrow> aggregation \<Rightarrow> real option res" where
  "aggregate_by xs AggMean = Inr (np_mean xs)"
| "aggregate_by xs AggSum = Inr (Some (sum_list xs))"
| "aggregate_by xs AggMin = rbind (np_min xs) (\<lambda>x. Inr (Some x))"
| "aggregate_by xs AggMax = rbind (np_max xs) (\<lambda>x. Inr (Some x))"

definition aggregate :: "metric \<Rightarrow> real option res" where
  "aggregate m = aggregate_by (metric_values m) (aggregation_of m)"

text \<open>\<open>np.mean(value_arrays, axis=0)\<close> of a rectangular list of lists.\<close>

definition column_means :: "real list list \<Rightarrow> real list" where
  "column_means rows = map (\<lambda>j. (\<Sum>row\<leftarrow>rows. row ! j) / real (length rows)) [0..<length (hd rows)]"

definition aggregate_dp :: "metric list \<Rightarrow> real option res" where
  "aggregate_dp metric_lists =
     rbind (rcheck ValueError (metric_lists \<noteq> [])) (\<lambda>_.
     (let value_lists = map metric_values metric_lists in
      rbind (rcheck ValueError (\<forall>ls\<in>set value_lists. length ls = length (hd value_lists))) (\<lambda>_.
      (let aggregation = aggregation_of (hd metric_lists) in
       if aggregation = AggSum \<or> aggregation = AggMean
       then aggregate_by (column_means value_lists) aggregation
       else aggregate_by (concat value_lists) aggregation))))"

definition metrics_from_dict :: "real pydict \<Rightarrow> aggregation \<Rightarrow> metric pydict" where
  "metrics_from_dict d a = dict_map (\<lambda>x. \<lparr>aggregation_of = a, metric_values = [x]\<rparr>) d"

text \<open>\<open>reduce_metrics\<close>: a metric, or the list of a key, reduced as the key's name says.\<close>

definition contains_text :: "string \<Rightarrow> string \<Rightarrow> bool" where
  "contains_text part text = list_ex (\<lambda>i. take (length part) (drop i text) = part) [0..<Suc (length text)]"

definition reduce_by_name :: "string \<Rightarrow> metric + real list \<Rightarrow> real option res" where
  "reduce_by_name key v =
     (case v of
        Inl m \<Rightarrow> aggregate m
      | Inr xs \<Rightarrow> if contains_text ''max'' key then aggregate_by xs AggMax
                 else if contains_text ''min'' key then aggregate_by xs AggMin
                 else aggregate_by xs AggMean)"

fun reduce_metrics :: "(metric + real list) pydict \<Rightarrow> real option pydict res" where
  "reduce_metrics [] = Inr []"
| "reduce_metrics ((key, v) # ms) =
     rbind (reduce_by_name key v) (\<lambda>x. rbind (reduce_metrics ms) (\<lambda>rest. Inr ((key, x) # rest)))"

section \<open>Lemmas\<close>

lemma foldl_metric_push:
  "foldl metric_push m xs = m\<lparr>metric_values := metric_values m @ xs\<rparr>"
  by (induction xs arbitrary: m) (auto simp: metric_push_def)

lemma metric_extend_result:
  "aggregation_of other = aggregation_of m \<Longrightarrow>
   metric_extend m other = Inr (m\<lparr>metric_values := metric_values m @ metric_values other\<rparr>)"
  by (simp add: metric_extend_def foldl_metric_push)

lemma sum_list_swap:
  "(\<Sum>x\<leftarrow>xs. \<Sum>y\<leftarrow>ys. f x y) = (\<Sum>y\<leftarrow>ys. \<Sum>x\<leftarrow>xs. (f x y :: real))"
  by (induction xs) (simp_all add: sum_list_addf)

lemma map_nth_upto: "length xs = n \<Longrightarrow> map ((!) xs) [0..<n] = xs"
  using map_nth [of xs] by simp

lemma sum_column_means:
  assumes "\<forall>row\<in>set rows. length row = n" and "rows \<noteq> []"
  shows "sum_list (column_means rows) = sum_list (concat rows) / real (length rows)"
proof -
  have hd: "length (hd rows) = n" using assms by (cases rows) auto
  have "sum_list (column_means rows) = (\<Sum>j\<leftarrow>[0..<n]. \<Sum>row\<leftarrow>rows. row ! j) / real (length rows)"
    by (simp add: column_means_def hd sum_list_divide)
  also have "(\<Sum>j\<leftarrow>[0..<n]. \<Sum>row\<leftarrow>rows. row ! j) = (\<Sum>row\<leftarrow>rows. \<Sum>j\<leftarrow>[0..<n]. row ! j)"
    by (rule sum_list_swap)
  also have "\<dots> = (\<Sum>row\<leftarrow>rows. sum_list row)"
    using assms(1) by (intro arg_cong [where f = sum_list] map_cong) (auto simp: map_nth_upto)
  also have "\<dots> = sum_list (concat rows)" by (induction rows) auto
  finally show ?thesis .
qed

lemma length_concat_same: "\<forall>row\<in>set rows. length row = n \<Longrightarrow> length (concat rows) = length rows * n"
  by (induction rows) auto

definition same_size_ranks :: "aggregation \<Rightarrow> real list list \<Rightarrow> metric list" where
  "same_size_ranks a rows = map (\<lambda>row. \<lparr>aggregation_of = a, metric_values = row\<rparr>) rows"

text \<open>What the ranks report together: a mean of all values, a sum divided by the number of ranks, an
  extremum of all values.\<close>

definition joint_aggregate :: "aggregation \<Rightarrow> real list list \<Rightarrow> real option res" where
  "joint_aggregate a rows =
     (if a = AggSum then Inr (Some (sum_list (concat rows) / real (length rows)))
      else aggregate_by (concat rows) a)"

lemma aggregate_dp_joint:
  assumes "rows \<noteq> []" and len: "\<forall>row\<in>set rows. length row = n"
  shows "aggregate_dp (same_size_ranks a rows) = joint_aggregate a rows"
proof -
  have hd: "length (hd rows) = n" "aggregation_of (hd (same_size_ranks a rows)) = a"
    using assms by (cases rows; simp add: same_size_ranks_def)+
  have vals: "map metric_values (same_size_ranks a rows) = rows" by (simp add: same_size_ranks_def comp_def)
  have ne: "same_size_ranks a rows \<noteq> []" using assms by (simp add: same_size_ranks_def)
  have lc: "length (column_means rows) = n" by (simp add: column_means_def hd)
  have "np_mean (column_means rows) = np_mean (concat rows)"
  proof (cases "n = 0")
    case True
    then have "concat rows = []" using len by auto
    moreover have "column_means rows = []" using lc True by simp
    ultimately show ?thesis by (simp add: np_mean_def)
  next
    case False
    then have "column_means rows \<noteq> []" "concat rows \<noteq> []"
      using lc length_concat_same [OF len] assms(1) by (metis length_0_conv mult_is_0)+
    then show ?thesis
      using sum_column_means [OF len assms(1)] lc length_concat_same [OF len] by (simp add: np_mean_def)
  qed
  then show ?thesis
    using len hd ne vals sum_column_means [OF len assms(1)]
    by (cases a) (simp_all add: aggregate_dp_def joint_aggregate_def)
qed

text \<open>Aggregating over the ranks what each of them accumulated over its micro-batches.\<close>

lemma rmap_rmap_concat:
  "rmap f (concat parts) = Inr ys \<Longrightarrow>
   \<exists>rows. rmap (rmap f) parts = Inr rows \<and> concat rows = ys \<and> map length rows = map length parts"
proof (induction parts arbitrary: ys)
  case (Cons p parts)
  have append: "rmap f (xs @ zs) = Inr ys \<Longrightarrow> \<exists>us vs. ys = us @ vs \<and> rmap f xs = Inr us \<and> rmap f zs = Inr vs" for xs zs ys
    by (induction xs arbitrary: ys) (fastforce simp: res_simps)+
  obtain us vs where ys: "ys = us @ vs" "rmap f p = Inr us" "rmap f (concat parts) = Inr vs"
    using append [of p "concat parts" ys] Cons.prems by auto
  obtain rows where "rmap (rmap f) parts = Inr rows" "concat rows = vs" "map length rows = map length parts"
    using Cons.IH [OF ys(3)] by blast
  then have "rmap (rmap f) (p # parts) = Inr (us # rows) \<and> concat (us # rows) = ys
      \<and> map length (us # rows) = map length (p # parts)"
    using ys rmap_length [OF ys(2)] by simp
  then show ?case by blast
qed simp

section \<open>Properties\<close>

text \<open>The logged policy loss is the loss of the global batch: when every rank reports the losses of
  its micro-batches, normalised with the global counts, as a metric of kind sum and the ranks hold the
  same number of micro-batches, aggregating the metrics over the ranks gives the loss of all rows at
  once. This holds in every aggregation mode.\<close>

theorem reported_loss_is_global:
  fixes f :: real
  assumes "mode \<in> loss_agg_modes" and "\<forall>(A, M)\<in>set (concat ranks). length A = length M"
    and "ranks \<noteq> []" and "\<forall>parts\<in>set ranks. length parts = n"
  defines "M_all \<equiv> concat (map snd (concat ranks))"
  defines "info \<equiv> \<lparr>dp_size = length ranks, batch_num_tokens = Some (tsum M_all),
      global_batch_size = Some (sum_list (seq_live M_all)), loss_scale_factor = Some f\<rparr>"
  shows "\<exists>rows loss. rmap (rmap (\<lambda>(A, M). agg_loss A M mode info)) ranks = Inr rows
      \<and> agg_loss (concat (map fst (concat ranks))) M_all mode
          \<lparr>dp_size = 1, batch_num_tokens = None, global_batch_size = None, loss_scale_factor = Some f\<rparr> = Inr loss
      \<and> aggregate_dp (map (\<lambda>losses. \<lparr>aggregation_of = AggSum, metric_values = losses\<rparr>) rows) = Inr (Some loss)"
proof -
  obtain losses loss where cut: "rmap (\<lambda>(A, M). agg_loss A M mode info) (concat ranks) = Inr losses"
      "agg_loss (concat (map fst (concat ranks))) M_all mode
          \<lparr>dp_size = 1, batch_num_tokens = None, global_batch_size = None, loss_scale_factor = Some f\<rparr> = Inr loss"
      "sum_list losses / real (length ranks) = loss"
    using agg_loss_cut [OF assms(1,2), of "length ranks" f] assms(3) unfolding info_def M_all_def by auto
  obtain rows where rows: "rmap (rmap (\<lambda>(A, M). agg_loss A M mode info)) ranks = Inr rows" "concat rows = losses"
      "map length rows = map length ranks"
    using rmap_rmap_concat [OF cut(1)] by blast
  have "length rows = length ranks" using rows(3) by (metis length_map)
  moreover have "length row = n" if "row \<in> set rows" for row
  proof -
    have "length row \<in> set (map length ranks)" using that rows(3) [symmetric] by simp
    then show ?thesis using assms(4) by auto
  qed
  moreover have "rows \<noteq> []" using rows(3) assms(3) by auto
  ultimately have "aggregate_dp (same_size_ranks AggSum rows) = Inr (Some loss)"
    using aggregate_dp_joint [of rows n AggSum] cut(3) rows(2) by (auto simp: joint_aggregate_def)
  then show ?thesis using cut rows unfolding same_size_ranks_def by blast
qed

theorem reported_loss_is_global_witness:
  "\<exists>rows loss. rmap (rmap (\<lambda>(A, M). agg_loss A M ''token-mean''
        \<lparr>dp_size = 2, batch_num_tokens = Some 3, global_batch_size = Some 2, loss_scale_factor = Some 1\<rparr>))
      [[([[1, 2]], [[1, 1]])], [([[4, 9]], [[1, 0]])]] = Inr rows
      \<and> agg_loss [[1, 2], [4, 9]] [[1, 1], [1, 0]] ''token-mean''
          \<lparr>dp_size = 1, batch_num_tokens = None, global_batch_size = None, loss_scale_factor = Some 1\<rparr> = Inr loss
      \<and> aggregate_dp (map (\<lambda>losses. \<lparr>aggregation_of = AggSum, metric_values = losses\<rparr>) rows) = Inr (Some loss)"
  using reported_loss_is_global [of "''token-mean''" "[[([[1, 2]], [[1, 1]])], [([[4, 9]], [[1, 0]])]]" "Suc 0" 1]
  by (simp add: loss_agg_modes_def seq_live_def row_sums_def numeral_2_eq_2)

end
