(* ===== verification/TeacherReplay.thy ===== *)
theory TeacherReplay
  imports Prelude
begin

text \<open>
  The teacher replay of on-policy distillation: \<open>verl/trainer/distillation/teacher_alignment.py\<close>
  aligns the teacher's per-token outputs with the student's prompt and response layout, and
  \<open>verl/workers/utils/padding.py\<close> removes the padding before the model and cuts the responses out
  afterwards. A tensor is the list of its entries along the token dimension; the entry (a number, or
  the top-k numbers of the token) is of any type, and a fill value is such an entry.
\<close>

section \<open>Padding along the token dimension\<close>

text \<open>\<open>F.pad(t, (0, 0, left, right), value)\<close>: negative amounts crop, first of all, and may not crop more
  than there is.\<close>

definition pad_dim :: "int \<Rightarrow> int \<Rightarrow> 'a \<Rightarrow> 'a list \<Rightarrow> 'a list res" where
  "pad_dim left right value xs =
     rbind (rcheck RuntimeError (0 \<le> int (length xs) + min left 0 + min right 0)) (\<lambda>_.
     (let ys = (if 0 \<le> left then replicate (nat left) value @ xs else drop (nat (- left)) xs) in
      Inr (if 0 \<le> right then ys @ replicate (nat right) value else take (nat (int (length ys) + right)) ys)))"

definition pad_teacher_outputs ::
    "'i list \<Rightarrow> 'l list \<Rightarrow> int \<Rightarrow> int \<Rightarrow> int \<Rightarrow> int \<Rightarrow> 'i \<Rightarrow> 'l \<Rightarrow> ('i list \<times> 'l list) res" where
  "pad_teacher_outputs teacher_ids teacher_logprobs prompt_width response_width prompt_length response_length
       pad_token zero =
     (let left_pad_size = prompt_width - prompt_length; right_pad_size = response_width - response_length in
      rbind (pad_dim left_pad_size right_pad_size pad_token teacher_ids) (\<lambda>ids.
      rbind (pad_dim left_pad_size right_pad_size zero teacher_logprobs) (\<lambda>logprobs.
      Inr (ids, logprobs))))"

definition align_teacher_outputs_to_student_sequence ::
    "'i list \<Rightarrow> 'l list \<Rightarrow> int \<Rightarrow> int \<Rightarrow> int \<Rightarrow> 'i \<Rightarrow> 'l \<Rightarrow> ('i list \<times> 'l list) res" where
  "align_teacher_outputs_to_student_sequence teacher_ids teacher_logprobs student_prompt_length
       student_response_length teacher_prompt_length pad_token zero =
     rbind (rcheck ValueError (\<not> (student_prompt_length < 1 \<or> teacher_prompt_length < 1 \<or> student_response_length < 0))) (\<lambda>_.
     (let expected_length = teacher_prompt_length + student_response_length in
      rbind (rcheck ValueError (\<not> (int (length teacher_ids) \<noteq> expected_length \<or> int (length teacher_logprobs) \<noteq> expected_length))) (\<lambda>_.
      (let response_start = nat (teacher_prompt_length - 1);
           response_end = response_start + nat student_response_length;
           teacher_response_ids = pyslice response_start response_end teacher_ids;
           teacher_response_logprobs = pyslice response_start response_end teacher_logprobs;
           prompt_ids_pad = replicate (nat (student_prompt_length - 1)) pad_token;
           prompt_logprobs_pad = replicate (nat (student_prompt_length - 1)) zero
       in Inr (prompt_ids_pad @ teacher_response_ids @ map (\<lambda>_. pad_token) (take 1 teacher_ids),
               prompt_logprobs_pad @ teacher_response_logprobs @ map (\<lambda>_. zero) (take 1 teacher_logprobs))))))"

section \<open>Removing the padding and cutting the responses out\<close>

text \<open>\<open>unpad_input\<close> gives the flat positions of the attended tokens; \<open>index_first_axis\<close> reads them from
  the flattened batch. The offsets of the resulting nested tensor are not needed here.\<close>

definition attended_indices :: "nat list list \<Rightarrow> nat list" where
  "attended_indices attention_mask =
     (let flat = concat attention_mask in filter (\<lambda>i. flat ! i \<noteq> 0) [0..<length flat])"

definition nested_values :: "nat list list \<Rightarrow> 'a list list \<Rightarrow> 'a list" where
  "nested_values attention_mask column = select (concat column) (attended_indices attention_mask)"

text \<open>Where the lengths come from: nested prompts and responses, or an attention mask over padded ones.\<close>

datatype seq_layout =
    NestedSeqs (nested_prompt_lens: "nat list") (nested_response_lens: "nat list")
  | PaddedSeqs (layout_attention_mask: "nat list list") (prompt_columns: nat) (response_columns: nat)

definition layout_lens :: "seq_layout \<Rightarrow> int \<Rightarrow> (nat list \<times> nat list \<times> int) res" where
  "layout_lens layout max_response_len =
     (case layout of
        NestedSeqs prompt_lens response_lens \<Rightarrow>
          (if max_response_len < 0
           then rbind (rcheck RuntimeError (response_lens \<noteq> [])) (\<lambda>_.
                Inr (prompt_lens, response_lens, int (Max (set response_lens))))
           else Inr (prompt_lens, response_lens, max_response_len))
      | PaddedSeqs attention_mask prompt_cols response_cols \<Rightarrow>
          Inr (map (\<lambda>row. sum_list (take prompt_cols row)) attention_mask,
               map (\<lambda>row. sum_list (drop prompt_cols row)) attention_mask, int response_cols))"

fun nat_cumsum :: "nat \<Rightarrow> nat list \<Rightarrow> nat list" where
  "nat_cumsum acc [] = []"
| "nat_cumsum acc (x # xs) = (acc + x) # nat_cumsum (acc + x) xs"

definition no_padding_2_padding :: "'a \<Rightarrow> 'a list \<Rightarrow> seq_layout \<Rightarrow> int \<Rightarrow> 'a list list res" where
  "no_padding_2_padding zero vals layout max_response_len =
     rbind (layout_lens layout max_response_len) (\<lambda>(prompt_lens, response_lens, max_len).
     (let sequence_offsets = nat_cumsum 0 (map2 (+) prompt_lens response_lens) in
      rbind (rcheck IndexError (sequence_offsets \<noteq> [])) (\<lambda>_.
      rbind (rassert (last sequence_offsets = length vals)) (\<lambda>_.
      rbind (rassert (0 \<notin> set prompt_lens)) (\<lambda>_.
      rmap (\<lambda>(resp_len, seq_offset).
              pad_dim 0 (max_len - int resp_len) zero (pyslice (seq_offset - resp_len - 1) (seq_offset - 1) vals))
        (zip response_lens sequence_offsets))))))"

section \<open>Lemmas\<close>

lemma pad_dim_nonneg:
  "0 \<le> l \<Longrightarrow> 0 \<le> r \<Longrightarrow> pad_dim l r v xs = Inr (replicate (nat l) v @ xs @ replicate (nat r) v)"
  by (simp add: pad_dim_def)

lemma align_result:
  assumes "1 \<le> sp" and "1 \<le> tp" and "length ids = tp + n" and "length lps = tp + n"
  shows "align_teacher_outputs_to_student_sequence ids lps (int sp) (int n) (int tp) pad zero
    = Inr (replicate (sp - 1) pad @ take n (drop (tp - 1) ids) @ [pad], replicate (sp - 1) zero @ take n (drop (tp - 1) lps) @ [zero])"
proof -
  have "take 1 ids = [hd ids]" "take 1 lps = [hd lps]" using assms by (cases ids; cases lps; simp)+
  then show ?thesis
    using assms by (simp add: align_teacher_outputs_to_student_sequence_def pyslice_def Let_def nat_diff_distrib')
qed

text \<open>Selecting the attended tokens of the flattened batch filters every row.\<close>

lemma select_Nil: "select xs [] = []"
  by (simp add: select_def)

lemma select_filter:
  "length xs = length ms \<Longrightarrow>
   select xs (filter (\<lambda>i. ms ! i \<noteq> (0 :: nat)) [0..<length ms]) = map snd (filter (\<lambda>p. fst p \<noteq> 0) (zip ms xs))"
proof (induction ms arbitrary: xs rule: rev_induct)
  case (snoc m ms)
  then obtain x xs' where xs: "xs = xs' @ [x]" "length xs' = length ms" by (cases xs rule: rev_cases) auto
  have "filter (\<lambda>i. (ms @ [m]) ! i \<noteq> 0) [0..<length ms] = filter (\<lambda>i. ms ! i \<noteq> 0) [0..<length ms]"
    by (intro filter_cong) (auto simp: nth_append)
  moreover have "select (xs' @ [x]) (filter (\<lambda>i. ms ! i \<noteq> 0) [0..<length ms]) = select xs' (filter (\<lambda>i. ms ! i \<noteq> 0) [0..<length ms])"
    using xs(2) by (auto simp: select_def nth_append)
  moreover have "select (xs' @ [x]) [length ms] = [x]" using xs(2) by (simp add: select_def nth_append)
  ultimately show ?case
    using snoc.IH [OF xs(2)] xs by (simp add: select_append select_Nil del: neq0_conv)
qed (simp add: select_def)

lemma map_filter_zip_concat:
  "map snd (concat (map2 (\<lambda>m c. filter P (zip m c)) M C)) = concat (map2 (\<lambda>m c. map snd (filter P (zip m c))) M C)"
proof (induction M arbitrary: C)
  case (Cons m M)
  then show ?case by (cases C) auto
qed simp

lemma replicate_merge: "m + n = k \<Longrightarrow> replicate m c @ replicate n c = replicate k c"
  by (simp add: replicate_add [symmetric])

lemma replicate_merge_append: "m + n = k \<Longrightarrow> replicate m c @ replicate n c @ xs = replicate k c @ xs"
  by (simp add: replicate_merge [symmetric])

lemma zip_concat:
  "map length M = map length C \<Longrightarrow> zip (concat M) (concat C) = concat (map2 zip M C)"
proof (induction M arbitrary: C)
  case (Cons m M)
  then show ?case by (cases C) (auto simp: zip_append)
qed simp

lemma filter_zip_concat:
  "filter P (concat (map2 zip M C)) = concat (map2 (\<lambda>m c. filter P (zip m c)) M C)"
proof (induction M arbitrary: C)
  case (Cons m M)
  then show ?case by (cases C) auto
qed simp

lemma nested_values_rows:
  assumes "map length M = map length C"
  shows "nested_values M C = concat (map2 (\<lambda>m c. map snd (filter (\<lambda>p. fst p \<noteq> 0) (zip m c))) M C)"
proof -
  have "length (concat C) = length (concat M)" using assms by (simp add: length_concat)
  from select_filter [OF this] have "nested_values M C = map snd (filter (\<lambda>p. fst p \<noteq> 0) (zip (concat M) (concat C)))"
    by (simp add: nested_values_def attended_indices_def Let_def)
  also have "\<dots> = concat (map2 (\<lambda>m c. map snd (filter (\<lambda>p. fst p \<noteq> 0) (zip m c))) M C)"
    by (simp only: zip_concat [OF assms] filter_zip_concat map_filter_zip_concat)
  finally show ?thesis .
qed

text \<open>Cutting a concatenation of sequences at its running offsets.\<close>

lemma length_nat_cumsum [simp]: "length (nat_cumsum acc xs) = length xs"
  by (induction xs arbitrary: acc) auto

lemma last_nat_cumsum: "xs \<noteq> [] \<Longrightarrow> last (nat_cumsum acc xs) = acc + sum_list xs"
proof (induction xs arbitrary: acc)
  case (Cons x xs)
  then show ?case by (cases xs) auto
qed simp

lemma nat_cumsum_slices:
  assumes "\<forall>(n, seq)\<in>set (zip ns seqs). n < length seq" and "length ns = length seqs"
  shows "map2 (\<lambda>n off. pyslice (off - n - 1) (off - 1) (pre @ concat seqs)) ns (nat_cumsum (length pre) (map length seqs))
    = map2 (\<lambda>n seq. pyslice (length seq - n - 1) (length seq - 1) seq) ns seqs"
  using assms
proof (induction ns arbitrary: seqs pre)
  case (Cons n ns)
  then obtain seq seqs' where seqs: "seqs = seq # seqs'" by (cases seqs) auto
  have "n < length seq" using Cons.prems seqs by simp
  then have "pyslice (length pre + length seq - n - 1) (length pre + length seq - 1) (pre @ seq @ concat seqs')
      = pyslice (length seq - n - 1) (length seq - 1) seq"
    by (simp add: pyslice_def)
  moreover have "map2 (\<lambda>n off. pyslice (off - n - 1) (off - 1) ((pre @ seq) @ concat seqs')) ns (nat_cumsum (length (pre @ seq)) (map length seqs'))
      = map2 (\<lambda>n seq. pyslice (length seq - n - 1) (length seq - 1) seq) ns seqs'"
    using Cons.prems seqs by (intro Cons.IH) auto
  ultimately show ?case by (simp add: seqs)
qed simp

section \<open>One sample\<close>

text \<open>What the teacher returned for a sample: the lengths of the student's prompt, the response and the
  teacher's prompt, and the teacher's outputs for its prompt followed by the response.\<close>

record ('i, 'l) replay_sample =
  student_prompt_len :: nat
  response_len :: nat
  teacher_prompt_len :: nat
  replay_ids :: "'i list"
  replay_logprobs :: "'l list"

definition wf_sample :: "nat \<Rightarrow> nat \<Rightarrow> ('i, 'l) replay_sample \<Rightarrow> bool" where
  "wf_sample pw rw s \<longleftrightarrow> 1 \<le> student_prompt_len s \<and> student_prompt_len s \<le> pw \<and> response_len s \<le> rw
     \<and> 1 \<le> teacher_prompt_len s \<and> length (replay_ids s) = teacher_prompt_len s + response_len s
     \<and> length (replay_logprobs s) = teacher_prompt_len s + response_len s"

text \<open>The two padded columns of a sample, as the teacher loop computes them.\<close>

definition replay_columns :: "nat \<Rightarrow> nat \<Rightarrow> 'i \<Rightarrow> 'l \<Rightarrow> ('i, 'l) replay_sample \<Rightarrow> ('i list \<times> 'l list) res" where
  "replay_columns pw rw pad zero s =
     rbind (align_teacher_outputs_to_student_sequence (replay_ids s) (replay_logprobs s) (int (student_prompt_len s))
              (int (response_len s)) (int (teacher_prompt_len s)) pad zero) (\<lambda>(ids, logprobs).
     pad_teacher_outputs ids logprobs (int pw) (int rw) (int (student_prompt_len s)) (int (response_len s)) pad zero)"

text \<open>The attention mask of a sample: prompts are padded on the left, responses on the right.\<close>

definition sample_mask :: "nat \<Rightarrow> nat \<Rightarrow> ('i, 'l) replay_sample \<Rightarrow> nat list" where
  "sample_mask pw rw s = replicate (pw - student_prompt_len s) 0 @ replicate (student_prompt_len s) 1
     @ replicate (response_len s) 1 @ replicate (rw - response_len s) 0"

text \<open>The predictions of the response tokens among the teacher's outputs.\<close>

definition response_predictions :: "nat \<Rightarrow> 'a \<Rightarrow> ('i, 'l) replay_sample \<Rightarrow> 'a list \<Rightarrow> 'a list" where
  "response_predictions rw fill s rows =
     take (response_len s) (drop (teacher_prompt_len s - 1) rows) @ replicate (rw - response_len s) fill"

definition padded_column :: "nat \<Rightarrow> nat \<Rightarrow> 'a \<Rightarrow> ('i, 'l) replay_sample \<Rightarrow> 'a list \<Rightarrow> 'a list" where
  "padded_column pw rw fill s rows =
     replicate (pw - 1) fill @ take (response_len s) (drop (teacher_prompt_len s - 1) rows)
     @ replicate (rw - response_len s + 1) fill"

lemma replay_columns_result:
  assumes "wf_sample pw rw s"
  shows "replay_columns pw rw pad zero s
    = Inr (padded_column pw rw pad s (replay_ids s), padded_column pw rw zero s (replay_logprobs s))"
  using assms
  by (simp add: replay_columns_def align_result pad_teacher_outputs_def pad_dim_nonneg padded_column_def wf_sample_def
      nat_diff_distrib' replicate_merge_append)

lemma filter_constant_mask:
  "length xs = n \<Longrightarrow> map snd (filter (\<lambda>p. fst p \<noteq> (0 :: nat)) (zip (replicate n k) xs)) = (if k \<noteq> 0 then xs else [])"
  by (induction n arbitrary: xs) (auto simp: length_Suc_conv)

lemma filter_window_mask:
  assumes "length xs = a + b + c"
  shows "map snd (filter (\<lambda>p. fst p \<noteq> (0 :: nat)) (zip (replicate a 0 @ replicate b 1 @ replicate c 0) xs)) = take b (drop a xs)"
proof -
  have "xs = take a xs @ take b (drop a xs) @ drop b (drop a xs)" by (metis append_take_drop_id)
  then obtain us vs ws where xs: "xs = us @ vs @ ws" "us = take a xs" "vs = take b (drop a xs)" "ws = drop b (drop a xs)" by blast
  then have len: "length us = a" "length vs = b" "length ws = c" using assms by auto
  have "zip (replicate a 0 @ replicate b 1 @ replicate c 0) (us @ vs @ ws)
      = zip (replicate a 0) us @ zip (replicate b 1) vs @ zip (replicate c (0 :: nat)) ws"
    using len by (simp add: zip_append)
  then show ?thesis
    using filter_constant_mask [OF len(1), of 0] filter_constant_mask [OF len(2), of 1] filter_constant_mask [OF len(3), of 0]
    by (subst xs(1)) (simp add: xs(3) [symmetric] del: neq0_conv)
qed

definition student_sequence :: "'a \<Rightarrow> ('i, 'l) replay_sample \<Rightarrow> 'a list \<Rightarrow> 'a list" where
  "student_sequence fill s rows =
     replicate (student_prompt_len s - 1) fill @ take (response_len s) (drop (teacher_prompt_len s - 1) rows) @ [fill]"

lemma attended_column:
  assumes "wf_sample pw rw s" and "length rows = teacher_prompt_len s + response_len s"
  shows "map snd (filter (\<lambda>p. fst p \<noteq> 0) (zip (sample_mask pw rw s) (padded_column pw rw fill s rows))) = student_sequence fill s rows"
    and "length (sample_mask pw rw s) = length (padded_column pw rw fill s rows)"
    and "length (student_sequence fill s rows) = student_prompt_len s + response_len s"
proof -
  let ?a = "pw - student_prompt_len s" and ?b = "student_prompt_len s + response_len s" and ?c = "rw - response_len s"
  have mask: "sample_mask pw rw s = replicate ?a 0 @ replicate ?b 1 @ replicate ?c 0"
    by (simp add: sample_mask_def replicate_add)
  have len: "length (padded_column pw rw fill s rows) = ?a + ?b + ?c"
    using assms by (simp add: padded_column_def wf_sample_def)
  then show "length (sample_mask pw rw s) = length (padded_column pw rw fill s rows)" by (simp add: mask)
  show "length (student_sequence fill s rows) = student_prompt_len s + response_len s"
    using assms by (simp add: student_sequence_def wf_sample_def)
  have "padded_column pw rw fill s rows = replicate ?a fill @ student_sequence fill s rows @ replicate ?c fill"
    using assms by (simp add: padded_column_def student_sequence_def wf_sample_def replicate_merge_append)
  then have "take ?b (drop ?a (padded_column pw rw fill s rows)) = student_sequence fill s rows"
    using assms by (simp add: student_sequence_def wf_sample_def)
  then show "map snd (filter (\<lambda>p. fst p \<noteq> 0) (zip (sample_mask pw rw s) (padded_column pw rw fill s rows))) = student_sequence fill s rows"
    unfolding mask using filter_window_mask [OF len] by simp
qed

lemma student_sequence_slice:
  assumes "wf_sample pw rw s" and "length rows = teacher_prompt_len s + response_len s"
  shows "pyslice (length (student_sequence fill s rows) - response_len s - 1) (length (student_sequence fill s rows) - 1)
      (student_sequence fill s rows) = take (response_len s) (drop (teacher_prompt_len s - 1) rows)"
  unfolding attended_column(3) [OF assms]
  using assms by (simp add: pyslice_def student_sequence_def wf_sample_def)

lemma sample_mask_lens:
  assumes "wf_sample pw rw s"
  shows "sum_list (take pw (sample_mask pw rw s)) = student_prompt_len s"
    and "sum_list (drop pw (sample_mask pw rw s)) = response_len s"
  using assms by (simp_all add: sample_mask_def wf_sample_def sum_list_replicate)

text \<open>The actor's path for one column of a batch of samples.\<close>

lemma actor_path:
  fixes samples :: "('i, 'l) replay_sample list" and rows :: "('i, 'l) replay_sample \<Rightarrow> 'a list"
  assumes "samples \<noteq> []" and "\<forall>s\<in>set samples. wf_sample pw rw s \<and> length (rows s) = teacher_prompt_len s + response_len s"
  defines "masks \<equiv> map (sample_mask pw rw) samples"
  shows "no_padding_2_padding fill (nested_values masks (map (\<lambda>s. padded_column pw rw fill s (rows s)) samples))
      (PaddedSeqs masks pw rw) max_len = Inr (map (\<lambda>s. response_predictions rw fill s (rows s)) samples)"
proof -
  let ?seqs = "map (\<lambda>s. student_sequence fill s (rows s)) samples"
  let ?ns = "map response_len samples"
  have rows: "map length masks = map length (map (\<lambda>s. padded_column pw rw fill s (rows s)) samples)"
    using assms(2) attended_column(2) by (fastforce simp: masks_def)
  have vals: "nested_values masks (map (\<lambda>s. padded_column pw rw fill s (rows s)) samples) = concat ?seqs"
    unfolding nested_values_rows [OF rows] unfolding masks_def
    using assms(2)
    by (auto simp: attended_column(1) zip_map1 zip_map2 zip_same_conv_map comp_def intro!: arg_cong [where f = concat] map_cong simp del: neq0_conv)
  have lens: "layout_lens (PaddedSeqs masks pw rw) max_len = Inr (map student_prompt_len samples, ?ns, int rw)"
    using assms(2) by (simp add: layout_lens_def masks_def sample_mask_lens)
  have off: "map2 (+) (map student_prompt_len samples) ?ns = map length ?seqs"
    using assms(2) by (simp add: attended_column(3) [where pw = pw and rw = rw] zip_map1 zip_map2 zip_same_conv_map)
  have short: "\<forall>(n, seq)\<in>set (zip ?ns ?seqs). n < length seq"
    using assms(2) by (auto simp: attended_column(3) [where pw = pw and rw = rw] zip_map1 zip_map2 zip_same_conv_map wf_sample_def)
  have slices: "map2 (\<lambda>n off. pyslice (off - n - 1) (off - 1) (concat ?seqs)) ?ns (nat_cumsum 0 (map length ?seqs))
      = map (\<lambda>s. take (response_len s) (drop (teacher_prompt_len s - 1) (rows s))) samples"
  proof -
    have "map2 (\<lambda>n off. pyslice (off - n - 1) (off - 1) (concat ?seqs)) ?ns (nat_cumsum 0 (map length ?seqs))
        = map2 (\<lambda>n seq. pyslice (length seq - n - 1) (length seq - 1) seq) ?ns ?seqs"
      using nat_cumsum_slices [OF short, of "[]"] by simp
    also have "\<dots> = map (\<lambda>s. pyslice (length (student_sequence fill s (rows s)) - response_len s - 1)
        (length (student_sequence fill s (rows s)) - 1) (student_sequence fill s (rows s))) samples"
      by (simp add: zip_map1 zip_map2 zip_same_conv_map)
    also have "\<dots> = map (\<lambda>s. take (response_len s) (drop (teacher_prompt_len s - 1) (rows s))) samples"
      using assms(2) by (intro map_cong refl student_sequence_slice [of pw rw]) auto
    finally show ?thesis .
  qed
  have last: "last (nat_cumsum 0 (map length ?seqs)) = length (concat ?seqs)" "nat_cumsum 0 (map length ?seqs) \<noteq> []"
    using assms(1) by (auto simp: last_nat_cumsum length_concat comp_def dest: arg_cong [where f = length])
  have pos: "0 \<notin> set (map student_prompt_len samples)" using assms(2) by (auto simp: wf_sample_def)
  let ?off = "nat_cumsum 0 (map length ?seqs)"
  have "pad_dim 0 (int rw - int n) fill (pyslice (off - n - 1) (off - 1) (concat ?seqs))
      = Inr (pyslice (off - n - 1) (off - 1) (concat ?seqs) @ replicate (rw - n) fill)"
    if "(n, off) \<in> set (zip ?ns ?off)" for n off
  proof -
    have "n \<le> rw" using that assms(2) by (auto dest!: set_zip_leftD simp: wf_sample_def)
    then show ?thesis by (simp add: pad_dim_nonneg nat_diff_distrib')
  qed
  then have "rmap (\<lambda>(n, off). pad_dim 0 (int rw - int n) fill (pyslice (off - n - 1) (off - 1) (concat ?seqs))) (zip ?ns ?off)
      = Inr (map2 (\<lambda>n off. pyslice (off - n - 1) (off - 1) (concat ?seqs) @ replicate (rw - n) fill) ?ns ?off)"
    by (intro rmap_Inr) auto
  moreover have "map2 (\<lambda>n off. pyslice (off - n - 1) (off - 1) (concat ?seqs) @ replicate (rw - n) fill) ?ns ?off
      = map2 (\<lambda>n xs. xs @ replicate (rw - n) fill) ?ns (map2 (\<lambda>n off. pyslice (off - n - 1) (off - 1) (concat ?seqs)) ?ns ?off)"
    by (intro nth_equalityI) auto
  moreover have "\<dots> = map (\<lambda>s. response_predictions rw fill s (rows s)) samples"
    unfolding slices by (simp add: zip_map1 zip_map2 zip_same_conv_map response_predictions_def)
  ultimately show ?thesis
    unfolding no_padding_2_padding_def vals lens using last pos by (simp add: off)
qed

text \<open>The slice of the evidence weighting.\<close>

lemma evidence_slice:
  "wf_sample pw rw s \<Longrightarrow> length rows = teacher_prompt_len s + response_len s \<Longrightarrow>
   pyslice (pw - 1) (pw - 1 + rw) (padded_column pw rw fill s rows) = response_predictions rw fill s rows"
  by (auto simp: pyslice_def padded_column_def response_predictions_def wf_sample_def simp flip: replicate_append_same)

section \<open>Properties\<close>

text \<open>C5: The teacher's prediction rows reach the loss and the evidence weights at the right tokens. For
  every batch of samples whose student prompts, responses and teacher prompts have any lengths within
  the padded widths: aligning and padding the teacher's outputs succeeds; what the actor cuts out
  after removing the padding, and what the evidence weighting slices out of the padded columns, are
  both exactly the teacher's rows for the response tokens (row \<open>teacher_prompt_len - 1 + j\<close>, the
  prediction of response token \<open>j\<close>), filled up to the response width.\<close>

theorem replay_reaches_response_tokens:
  fixes samples :: "('i, 'l) replay_sample list" and pad :: 'i and zero :: 'l
  assumes "samples \<noteq> []" and "\<forall>s\<in>set samples. wf_sample pw rw s"
  defines "masks \<equiv> map (sample_mask pw rw) samples"
  defines "ids \<equiv> map (\<lambda>s. response_predictions rw pad s (replay_ids s)) samples"
  defines "logprobs \<equiv> map (\<lambda>s. response_predictions rw zero s (replay_logprobs s)) samples"
  shows "\<exists>cols. rmap (replay_columns pw rw pad zero) samples = Inr cols
    \<and> no_padding_2_padding pad (nested_values masks (map fst cols)) (PaddedSeqs masks pw rw) max_len = Inr ids
    \<and> no_padding_2_padding zero (nested_values masks (map snd cols)) (PaddedSeqs masks pw rw) max_len = Inr logprobs
    \<and> map (pyslice (pw - 1) (pw - 1 + rw)) (map fst cols) = ids
    \<and> map (pyslice (pw - 1) (pw - 1 + rw)) (map snd cols) = logprobs"
proof -
  let ?ids = "map (\<lambda>s. padded_column pw rw pad s (replay_ids s)) samples"
  let ?lps = "map (\<lambda>s. padded_column pw rw zero s (replay_logprobs s)) samples"
  have wf: "\<forall>s\<in>set samples. wf_sample pw rw s \<and> length (replay_ids s) = teacher_prompt_len s + response_len s"
    "\<forall>s\<in>set samples. wf_sample pw rw s \<and> length (replay_logprobs s) = teacher_prompt_len s + response_len s"
    using assms(2) by (auto simp: wf_sample_def)
  have cols: "rmap (replay_columns pw rw pad zero) samples = Inr (zip ?ids ?lps)"
    using assms(2) rmap_Inr [of samples "replay_columns pw rw pad zero"
        "\<lambda>s. (padded_column pw rw pad s (replay_ids s), padded_column pw rw zero s (replay_logprobs s))"]
    by (simp add: replay_columns_result zip_map1 zip_map2 zip_same_conv_map)
  have "map fst (zip ?ids ?lps) = ?ids" "map snd (zip ?ids ?lps) = ?lps" by simp_all
  moreover have "map (pyslice (pw - 1) (pw - 1 + rw)) ?ids = ids" "map (pyslice (pw - 1) (pw - 1 + rw)) ?lps = logprobs"
    using wf by (simp_all add: ids_def logprobs_def evidence_slice del: One_nat_def)
  ultimately show ?thesis
    using cols actor_path [OF assms(1) wf(1)] actor_path [OF assms(1) wf(2)]
    unfolding masks_def ids_def logprobs_def by (intro exI [where x = "zip ?ids ?lps"]) simp
qed

theorem replay_reaches_response_tokens_witness:
  "\<exists>cols. rmap (replay_columns 4 3 0 (0 :: real))
        [\<lparr>student_prompt_len = 3, response_len = 2, teacher_prompt_len = 5, replay_ids = [1, 2, 3, 4, 5, 6, 7 :: int],
          replay_logprobs = [1, 2, 3, 4, 5, 6, 7]\<rparr>] = Inr cols
    \<and> map (pyslice 3 6) (map snd cols) = [[5, 6, 0]]"
  using replay_reaches_response_tokens [of "[\<lparr>student_prompt_len = 3, response_len = 2, teacher_prompt_len = 5,
      replay_ids = [1, 2, 3, 4, 5, 6, 7 :: int], replay_logprobs = [1, 2, 3, 4, 5, 6, 7]\<rparr>]" 4 3 0 "0 :: real" 0]
  by (auto simp: wf_sample_def response_predictions_def)

end
