(* ===== verification/TrainLoss.thy ===== *)
theory TrainLoss
  imports MetricAgg TeacherReplay
begin

text \<open>
  The training losses of \<open>verl/workers/utils/losses.py\<close>: \<open>ppo_loss\<close>, \<open>sft_loss\<close> and \<open>value_loss\<close>, and how
  the training engine (\<open>verl/workers/engine/fsdp/transformer_impl.py\<close>) accumulates them over the
  micro-batches of a batch. Nested tensors that the code converts with \<open>to_padded_tensor\<close> are modelled in
  padded form.
\<close>

section \<open>Metrics and registries\<close>

datatype metric_value = Scalar real | MetricOf metric

type_synonym metrics = "metric_value pydict"

definition one_metric :: "aggregation \<Rightarrow> real \<Rightarrow> metric_value" where
  "one_metric a x = MetricOf \<lparr>aggregation_of = a, metric_values = [x]\<rparr>"

lemma one_metric_new: "rbind (metric_new a (Some (NumberInput x))) (\<lambda>m. Inr (MetricOf m)) = Inr (one_metric a x)"
  by (simp add: metric_new_def metric_push_def one_metric_def)

type_synonym policy_loss_fn = "actor_config option \<Rightarrow> policy_inputs \<Rightarrow> string \<Rightarrow> loss_result"

text \<open>The registered policy losses; \<open>bypass_mode\<close>, which needs the configuration of the
  rollout correction, is an argument.\<close>

definition policy_loss_registry ::
    "(nat \<Rightarrow> nat list) \<Rightarrow> (nat \<Rightarrow> real list \<Rightarrow> nat list) \<Rightarrow> policy_loss_fn \<Rightarrow> (string \<times> policy_loss_fn) list" where
  "policy_loss_registry randperm topk bypass =
     [(''vanilla'', compute_policy_loss_vanilla), (''dppo_tv'', compute_policy_loss_dppo_tv),
      (''dppo_kl'', compute_policy_loss_dppo_kl), (''gspo'', compute_policy_loss_gspo),
      (''sapo'', compute_policy_loss_sapo), (''gpg'', compute_policy_loss_gpg),
      (''clip_cov'', compute_policy_loss_clip_cov randperm), (''kl_cov'', compute_policy_loss_kl_cov topk),
      (''geo_mean'', \<lambda>config inp mode. compute_policy_loss_geo_mean config inp),
      (''cispo'', compute_policy_loss_cispo), (''bypass_mode'', bypass)]"

definition get_policy_loss_fn :: "(string \<times> policy_loss_fn) list \<Rightarrow> string \<Rightarrow> policy_loss_fn res" where
  "get_policy_loss_fn registry name =
     (case map_of registry name of None \<Rightarrow> Inl ValueError | Some f \<Rightarrow> Inr f)"

section \<open>The data of a micro-batch and the configuration\<close>

datatype opd_weights = PerSample "real list" | PerToken tensor

record loss_data =
  data_dp_size :: nat
  data_batch_num_tokens :: "real option"
  data_global_batch_size :: "real option"
  data_layout :: seq_layout
  data_max_response_len :: int
  data_response_mask :: tensor
  data_old_log_probs :: tensor
  data_advantages :: tensor
  data_is_weights :: "tensor option"
  data_ref_log_prob :: "tensor option"
  data_teacher_logprobs :: "real list list"
  data_opd_weights :: "opd_weights option"

record model_output =
  out_log_probs :: "real list"
  out_entropy :: "real list option"
  out_topk :: "(real list \<times> real list \<times> real list) option"

record ppo_config = actor_config +
  loss_agg_mode :: string
  cfg_loss_scale_factor :: "real option"
  loss_mode :: string
  entropy_coeff :: real
  use_kl_loss :: bool
  kl_loss_type :: string
  kl_loss_coef :: real

definition unpadded :: "loss_data \<Rightarrow> real list \<Rightarrow> tensor res" where
  "unpadded data vals = no_padding_2_padding 0 vals (data_layout data) (data_max_response_len data)"

definition ppo_batch_info :: "ppo_config \<Rightarrow> loss_data \<Rightarrow> batch_info" where
  "ppo_batch_info config data =
     \<lparr>dp_size = data_dp_size data, batch_num_tokens = data_batch_num_tokens data,
      global_batch_size = data_global_batch_size data, loss_scale_factor = cfg_loss_scale_factor config\<rparr>"

definition metric_aggregation :: "ppo_config \<Rightarrow> loss_data \<Rightarrow> aggregation" where
  "metric_aggregation config data =
     (if data_dp_size data > 1 \<or> data_batch_num_tokens data \<noteq> None \<or> data_global_batch_size data \<noteq> None
         \<or> cfg_loss_scale_factor config \<noteq> None
      then AggSum else AggMean)"

section \<open>The PPO and SFT losses\<close>

definition add_entropy ::
    "ppo_config \<Rightarrow> loss_data \<Rightarrow> tensor option \<Rightarrow> real \<times> metrics \<Rightarrow> (real \<times> metrics) res" where
  "add_entropy config data entropy_option = (\<lambda>(policy_loss, ms).
     case entropy_option of
       None \<Rightarrow> Inr (policy_loss, ms)
     | Some entropy \<Rightarrow>
         rbind (agg_loss entropy (data_response_mask data) (loss_agg_mode config) (ppo_batch_info config data)) (\<lambda>entropy_loss.
         Inr (policy_loss - entropy_coeff config * entropy_loss,
              dict_set ms ''actor/entropy_loss'' (one_metric (metric_aggregation config data) entropy_loss))))"

definition add_kl :: "ppo_config \<Rightarrow> loss_data \<Rightarrow> tensor \<Rightarrow> real \<times> metrics \<Rightarrow> (real \<times> metrics) res" where
  "add_kl config data log_probs = (\<lambda>(policy_loss, ms).
     if use_kl_loss config
     then (case data_ref_log_prob data of
             None \<Rightarrow> Inl KeyError
           | Some ref \<Rightarrow>
               rbind (kl_penalty log_probs ref (kl_loss_type config)) (\<lambda>kld.
               rbind (agg_loss kld (data_response_mask data) (loss_agg_mode config) (ppo_batch_info config data)) (\<lambda>kl_loss.
               Inr (policy_loss + kl_loss * kl_loss_coef config,
                    dict_set (dict_set ms ''kl_loss'' (one_metric (metric_aggregation config data) kl_loss)) ''kl_coef''
                      (Scalar (kl_loss_coef config))))))
     else Inr (policy_loss, ms))"

definition ppo_loss :: "(string \<times> policy_loss_fn) list \<Rightarrow> ppo_config \<Rightarrow> model_output \<Rightarrow> loss_data \<Rightarrow> (real \<times> metrics) res" where
  "ppo_loss registry config model_out data =
     rbind (unpadded data (out_log_probs model_out)) (\<lambda>log_probs.
     rbind (case out_entropy model_out of None \<Rightarrow> Inr None | Some e \<Rightarrow> rbind (unpadded data e) (\<lambda>x. Inr (Some x))) (\<lambda>entropy.
     rbind (get_policy_loss_fn registry (loss_mode config)) (\<lambda>policy_fn.
     (let inputs = \<lparr>old_log_prob = data_old_log_probs data, log_prob = log_probs, advantages = data_advantages data,
                    response_mask = data_response_mask data, rollout_is_weights = data_is_weights data\<rparr>;
          actor = actor_config.truncate (config\<lparr>global_batch_info := ppo_batch_info config data\<rparr>) in
      rbind (policy_fn (Some actor) inputs (loss_agg_mode config)) (\<lambda>(pg_loss, pg_metrics).
      (let ms = dict_set (dict_map MetricOf (metrics_from_dict pg_metrics AggMean)) ''actor/pg_loss'' (one_metric (metric_aggregation config data) pg_loss) in
       rbind (add_entropy config data entropy (pg_loss, ms)) (add_kl config data log_probs)))))))"

text \<open>SFT: the loss mask over the full sequences, flattened, is rolled by one token to go with the
  flattened log-probabilities; padded data uses the response mask instead. A mask and the
  log-probabilities are given as rows; with padding removed the rows are the sequences.\<close>

datatype pad_mode = NoPadding | Padded

definition roll_left :: "'a list \<Rightarrow> 'a list" where
  "roll_left xs = (case xs of [] \<Rightarrow> [] | x # ys \<Rightarrow> ys @ [x])"

definition sft_loss :: "pad_mode \<Rightarrow> tensor \<Rightarrow> tensor \<Rightarrow> tensor \<Rightarrow> real \<Rightarrow> nat \<Rightarrow> real" where
  "sft_loss mode log_prob_rows loss_mask resp_mask num_tokens dp =
     (case mode of
        NoPadding \<Rightarrow>
          (let log_prob_flatten = concat log_prob_rows;
               loss_mask_flatten = roll_left (concat loss_mask)
           in - masked_sum1 log_prob_flatten loss_mask_flatten / num_tokens * real dp)
      | Padded \<Rightarrow> - masked_sum log_prob_rows (tmap (\<lambda>m. of_bool (m \<noteq> 0)) resp_mask) / num_tokens * real dp)"

section \<open>The value loss\<close>

record critic_config =
  cliprange_value :: real
  critic_loss_agg_mode :: string

record value_data =
  val_layout :: seq_layout
  val_max_response_len :: int
  old_vals :: tensor
  val_returns :: tensor
  val_response_mask :: tensor

definition value_loss :: "critic_config \<Rightarrow> real list \<Rightarrow> value_data \<Rightarrow> (real \<times> metrics) res" where
  "value_loss config out_vals data =
     rbind (no_padding_2_padding 0 out_vals (val_layout data) (val_max_response_len data)) (\<lambda>vpreds.
     (let m = val_response_mask data in
      rbind (compute_value_loss vpreds (val_returns data) (old_vals data) m (cliprange_value config)
               (critic_loss_agg_mode config)) (\<lambda>(vf_loss, vf_clipfrac).
      Inr (vf_loss, dict_update []
             [(''critic/vf_loss'', Scalar vf_loss), (''critic/vf_clipfrac'', Scalar vf_clipfrac),
              (''critic/vpred_mean'', Scalar (masked_mean vpreds m))]))))"

section \<open>Accumulation over micro-batches\<close>

text \<open>Every micro-batch's loss is back-propagated as it is, so the gradients that a rank accumulates are
  those of the sum of the losses, and the data-parallel engine averages them over the ranks.\<close>

definition accumulated_loss :: "('b \<Rightarrow> (real \<times> 'm) res) \<Rightarrow> 'b list \<Rightarrow> (real \<times> 'm list) res" where
  "accumulated_loss loss_function micro_batches =
     rbind (rmap loss_function micro_batches) (\<lambda>output_lst.
     Inr (sum_list (map fst output_lst), map snd output_lst))"

end
