(* ===== verification/DistillLoss.thy ===== *)
theory DistillLoss
  imports TrainLoss
begin

text \<open>
  The distillation losses of \<open>verl/trainer/distillation/losses.py\<close> and
  \<open>verl/trainer/distillation/fsdp/losses.py\<close>: the losses per token, their registration, the clamp, the
  evidence weights, the two ways to use them and the combination with the policy loss.
\<close>

section \<open>Registration\<close>

text \<open>The settings of a distillation loss and the registry by name.\<close>

record loss_settings =
  names :: "string list"
  use_topk :: bool
  use_estimator :: bool

definition loss_settings_new :: "string list \<Rightarrow> bool \<Rightarrow> bool \<Rightarrow> loss_settings res" where
  "loss_settings_new ns topk est =
     rbind (rcheck ValueError (of_bool topk + of_bool est = (1 :: nat))) (\<lambda>_.
     Inr \<lparr>names = ns, use_topk = topk, use_estimator = est\<rparr>)"

fun register_names :: "(string \<times> 'f) list \<Rightarrow> 'f \<Rightarrow> string list \<Rightarrow> (string \<times> 'f) list res" where
  "register_names registry f [] = Inr registry"
| "register_names registry f (name # ns) =
     rbind (rcheck ValueError (\<not> has_key registry name)) (\<lambda>_. register_names (dict_set registry name f) f ns)"

definition get_registered :: "(string \<times> 'f) list \<Rightarrow> string \<Rightarrow> 'f res" where
  "get_registered registry name =
     (case map_of registry name of None \<Rightarrow> Inl ValueError | Some f \<Rightarrow> Inr f)"

section \<open>Distillation losses\<close>

record distill_config =
  dl_loss_mode :: string
  dl_use_task_rewards :: bool
  dl_loss_coef :: real
  dl_loss_max_clamp :: "real option"
  dl_log_prob_min_clamp :: "real option"
  dl_use_policy_gradient :: bool
  dl_policy_loss_mode :: string
  dl_clip_ratio :: real
  dl_clip_ratio_low :: real
  dl_clip_ratio_high :: real

text \<open>\<open>log_softmax\<close>, \<open>gather\<close> and the KL divergence of one token over the teacher's top-k ids.\<close>

definition log_softmax :: "real list \<Rightarrow> real list" where
  "log_softmax logits = map (\<lambda>x. x - logsumexp logits) logits"

definition gather :: "'a list \<Rightarrow> nat list \<Rightarrow> 'a list res" where
  "gather xs ids = rbind (rcheck IndexError (\<forall>i\<in>set ids. i < length xs)) (\<lambda>_. Inr (select xs ids))"

definition kl_divergence :: "real list \<Rightarrow> real list \<Rightarrow> real" where
  "kl_divergence log_q log_p = sum_list (map2 (\<lambda>q p. exp p * (p - q)) log_q log_p)"

definition clamp_min :: "real option \<Rightarrow> real list \<Rightarrow> real list" where
  "clamp_min bound xs = (case bound of None \<Rightarrow> xs | Some b \<Rightarrow> map (\<lambda>x. max b x) xs)"

definition topk_token :: "real option \<Rightarrow> real list \<Rightarrow> real list \<Rightarrow> nat list \<Rightarrow> (real \<times> real \<times> real) res" where
  "topk_token log_prob_min_clamp student_logits teacher_log_probs teacher_ids =
     rbind (gather (log_softmax student_logits) teacher_ids) (\<lambda>student_log_probs.
     Inr (kl_divergence (clamp_min log_prob_min_clamp student_log_probs) (clamp_min log_prob_min_clamp teacher_log_probs),
          sum_list (map exp student_log_probs), sum_list (map exp teacher_log_probs)))"

text \<open>The loss of the FSDP logit processor on the flattened tokens. \<open>slice_input\<close> is the part of the
  tokens of this rank under sequence parallelism (the identity for one rank).\<close>

definition forward_kl_topk_fsdp ::
    "distill_config \<Rightarrow> (real list list \<Rightarrow> real list list) \<Rightarrow> (nat list list \<Rightarrow> nat list list) \<Rightarrow> real list list
      \<Rightarrow> real list list \<Rightarrow> nat list list \<Rightarrow> (real list \<times> real list \<times> real list) res" where
  "forward_kl_topk_fsdp config slice_input slice_ids student_logits teacher_topk_log_probs teacher_topk_ids =
     (let log_probs = slice_input teacher_topk_log_probs; ids = slice_ids teacher_topk_ids in
      rbind (rassert (length log_probs = length ids \<and> length ids = length student_logits)) (\<lambda>_.
      rbind (rmap (\<lambda>(l, lp, i). topk_token (dl_log_prob_min_clamp config) l lp i) (zip student_logits (zip log_probs ids))) (\<lambda>outs.
      Inr (map fst outs, map (\<lambda>t. fst (snd t)) outs, map (\<lambda>t. snd (snd t)) outs))))"

text \<open>The logit processor dispatches on the training strategy; the loss of the Megatron backend is a
  parameter. Every output has the shape of the tokens.\<close>

type_synonym topk_outputs = "real list \<times> real list \<times> real list"

definition compute_topk_loss ::
    "string \<Rightarrow> (unit \<Rightarrow> topk_outputs res) \<Rightarrow> (unit \<Rightarrow> topk_outputs res) \<Rightarrow> real list list \<Rightarrow> topk_outputs res" where
  "compute_topk_loss strategy fsdp_loss megatron_loss student_logits =
     rbind (if strategy \<in> {''fsdp'', ''veomni''} then fsdp_loss ()
            else if strategy = ''megatron'' then megatron_loss ()
            else Inl NotImplementedError) (\<lambda>(losses, student_mass, teacher_mass).
     rbind (rassert (length losses = length student_logits \<and> length student_mass = length student_logits
                     \<and> length teacher_mass = length student_logits)) (\<lambda>_.
     Inr (losses, student_mass, teacher_mass)))"

text \<open>Selecting by a Boolean mask.\<close>

definition masked_select :: "tensor \<Rightarrow> tensor \<Rightarrow> real list" where
  "masked_select A mask_t = map snd (filter (\<lambda>p. fst p \<noteq> 0) (zip (concat mask_t) (concat A)))"

definition mean_of :: "real list \<Rightarrow> real" where
  "mean_of xs = sum_list xs / real (length xs)"

definition compute_distillation_loss_range :: "tensor \<Rightarrow> tensor \<Rightarrow> metrics res" where
  "compute_distillation_loss_range losses m =
     (let vals = masked_select losses m in
      rbind (rcheck RuntimeError (vals \<noteq> [])) (\<lambda>_.
      Inr [(''distillation/loss_min'', one_metric AggMin (Min (set vals))),
           (''distillation/loss_max'', one_metric AggMax (Max (set vals)))]))"

definition compute_distillation_abs_loss :: "tensor \<Rightarrow> tensor \<Rightarrow> metric_value" where
  "compute_distillation_abs_loss losses m =
     one_metric AggMean (mean_of (map abs (masked_select losses m)))"

text \<open>The registered losses per token: the top-k loss was computed by the logit processor.\<close>

definition compute_forward_kl_topk :: "model_output \<Rightarrow> loss_data \<Rightarrow> (tensor \<times> metrics) res" where
  "compute_forward_kl_topk model_out data =
     (case out_topk model_out of
        None \<Rightarrow> Inl KeyError
      | Some (losses, smass, tmass) \<Rightarrow>
          rbind (unpadded data losses) (\<lambda>distillation_losses.
          rbind (unpadded data smass) (\<lambda>student_mass.
          rbind (unpadded data tmass) (\<lambda>teacher_mass.
          (let m = data_response_mask data in
           rbind (rassert (map length distillation_losses = map length student_mass
                     \<and> map length student_mass = map length teacher_mass \<and> map length teacher_mass = map length m)) (\<lambda>_.
           (let s = masked_select student_mass m; t = masked_select teacher_mass m in
            rbind (rcheck RuntimeError (s \<noteq> [])) (\<lambda>_.
            Inr (tmap (\<lambda>x. max 0 x) distillation_losses,
                 [(''distillation/student_mass'', Scalar (mean_of s)),
                  (''distillation/student_mass_min'', one_metric AggMin (Min (set s))),
                  (''distillation/student_mass_max'', one_metric AggMax (Max (set s))),
                  (''distillation/teacher_mass'', Scalar (mean_of t)),
                  (''distillation/teacher_mass_min'', one_metric AggMin (Min (set t))),
                  (''distillation/teacher_mass_max'', one_metric AggMax (Max (set t)))])))))))))"

definition compute_distillation_loss_reverse_kl_estimator ::
    "distill_config \<Rightarrow> model_output \<Rightarrow> loss_data \<Rightarrow> (tensor \<times> metrics) res" where
  "compute_distillation_loss_reverse_kl_estimator config model_out data =
     rbind (unpadded data (out_log_probs model_out)) (\<lambda>student_log_probs.
     rbind (no_padding_2_padding [0] (data_teacher_logprobs data) (data_layout data) (data_max_response_len data)) (\<lambda>teacher.
     (let teacher_log_probs = tmap hd teacher; m = data_response_mask data in
      rbind (rassert (map length teacher_log_probs = map length student_log_probs
                      \<and> map length student_log_probs = map length m)) (\<lambda>_.
      rbind (kl_penalty student_log_probs teacher_log_probs (dl_loss_mode config)) (\<lambda>distillation_losses.
      Inr (distillation_losses, [(''distillation/abs_loss'', compute_distillation_abs_loss distillation_losses m)]))))))"

definition estimator_modes :: "string list" where
  "estimator_modes = [''kl'', ''k1'', ''abs'', ''mse'', ''k2'', ''low_var_kl'', ''k3'']"

type_synonym distillation_loss_fn = "distill_config \<Rightarrow> model_output \<Rightarrow> loss_data \<Rightarrow> (tensor \<times> metrics) res"

definition distillation_loss_registry :: "(string \<times> distillation_loss_fn) list res" where
  "distillation_loss_registry =
     rbind (loss_settings_new [''forward_kl_topk''] True False) (\<lambda>topk_settings.
     rbind (register_names [] (\<lambda>config. compute_forward_kl_topk) (names topk_settings)) (\<lambda>registry.
     rbind (loss_settings_new estimator_modes False True) (\<lambda>estimator_settings.
     register_names registry compute_distillation_loss_reverse_kl_estimator (names estimator_settings))))"

definition apply_opd_weights :: "opd_weights option \<Rightarrow> tensor \<Rightarrow> tensor" where
  "apply_opd_weights opd_weights_option losses =
     (case opd_weights_option of
        None \<Rightarrow> losses
      | Some (PerSample ws) \<Rightarrow> map2 (\<lambda>w row. map (\<lambda>x. x * w) row) ws losses
      | Some (PerToken W) \<Rightarrow> tmap2 (*) losses W)"

text \<open>The loss configuration in the place of an actor configuration; the batch information was copied.\<close>

definition loss_config_as_actor :: "distill_config \<Rightarrow> batch_info \<Rightarrow> actor_config" where
  "loss_config_as_actor config info =
     \<lparr>clip_ratio = dl_clip_ratio config, clip_ratio_low = Some (dl_clip_ratio_low config),
      clip_ratio_high = Some (dl_clip_ratio_high config), clip_ratio_c = None, tau_pos = 1, tau_neg = 1,
      policy_loss = None, global_batch_info = info\<rparr>"

text \<open>The key of a policy metric without its prefix \<open>actor/\<close>.\<close>

definition distillation_metric :: "string \<times> real \<Rightarrow> string \<times> metric_value" where
  "distillation_metric kv = (''distillation/'' @ drop 6 (fst kv), Scalar (snd kv))"

definition distillation_policy_gradient ::
    "(string \<times> policy_loss_fn) list \<Rightarrow> ppo_config \<Rightarrow> distill_config \<Rightarrow> model_output \<Rightarrow> loss_data \<Rightarrow> tensor \<Rightarrow> metrics
      \<Rightarrow> (real \<times> metrics) res" where
  "distillation_policy_gradient registry config loss_config model_out data distillation_losses ms =
     rbind (get_policy_loss_fn registry (dl_policy_loss_mode loss_config)) (\<lambda>policy_fn.
     rbind (unpadded data (out_log_probs model_out)) (\<lambda>log_probs.
     rbind (policy_fn (Some (loss_config_as_actor loss_config (ppo_batch_info config data)))
              \<lparr>old_log_prob = data_old_log_probs data, log_prob = log_probs,
               advantages = tmap uminus distillation_losses, response_mask = data_response_mask data,
               rollout_is_weights = data_is_weights data\<rparr> (loss_agg_mode config)) (\<lambda>(loss, pg_metrics).
     Inr (loss, dict_update ms (map distillation_metric pg_metrics)))))"

definition distillation_loss ::
    "(string \<times> policy_loss_fn) list \<Rightarrow> ppo_config \<Rightarrow> distill_config \<Rightarrow> model_output \<Rightarrow> loss_data \<Rightarrow> (real \<times> metrics) res" where
  "distillation_loss registry config loss_config model_out data =
     rbind distillation_loss_registry (\<lambda>distillation_fns.
     rbind (get_registered distillation_fns (dl_loss_mode loss_config)) (\<lambda>loss_fn.
     rbind (loss_fn loss_config model_out data) (\<lambda>(raw_losses, ms).
     rbind (compute_distillation_loss_range raw_losses (data_response_mask data)) (\<lambda>range.
     (let ms1 = dict_update ms range;
          ms2 = (case map_of ms1 ''distillation/abs_loss'' of
                   None \<Rightarrow> ms1 | Some v \<Rightarrow> dict_set ms1 ''distillation/raw_abs_loss'' v);
          clamped = (case dl_loss_max_clamp loss_config of None \<Rightarrow> raw_losses | Some c \<Rightarrow> tmap (clamp (- c) c) raw_losses);
          weighted = apply_opd_weights (data_opd_weights data) clamped;
          ms3 = (if has_key ms2 ''distillation/abs_loss''
                 then dict_set ms2 ''distillation/abs_loss'' (compute_distillation_abs_loss weighted (data_response_mask data))
                 else ms2) in
      if dl_use_policy_gradient loss_config
      then distillation_policy_gradient registry config loss_config model_out data weighted ms3
      else rbind (agg_loss weighted (data_response_mask data) (loss_agg_mode config) (ppo_batch_info config data)) (\<lambda>loss.
           Inr (loss, ms3)))))))"

definition distillation_ppo_loss ::
    "(string \<times> policy_loss_fn) list \<Rightarrow> ppo_config \<Rightarrow> distill_config \<Rightarrow> model_output \<Rightarrow> loss_data \<Rightarrow> (real \<times> metrics) res" where
  "distillation_ppo_loss registry config loss_config model_out data =
     rbind (ppo_loss registry config model_out data) (\<lambda>(ppo, policy_metrics).
     rbind (distillation_loss registry config loss_config model_out data) (\<lambda>(distill, distill_metrics).
     (let policy = (if dl_use_task_rewards loss_config then ppo else 0);
          coef = (if dl_use_task_rewards loss_config then dl_loss_coef loss_config else 1) in
      Inr (policy + distill * coef,
           dict_set (dict_update policy_metrics distill_metrics) ''distillation/loss'' (one_metric AggSum distill)))))"

end
