(* ===== verification/DistillLaws.thy ===== *)
theory DistillLaws
  imports LossRanges DistillLoss
begin

text \<open>
  Laws of the training and distillation losses: the shift of the SFT mask stays within the sequences,
  the top-k divergence is bounded below by the mass it misses, policy-gradient and supervised
  distillation have the same value on-policy, and the clamp and the evidence weights bound the loss.
\<close>

section \<open>The rolled mask of SFT\<close>

definition shift_within :: "real list \<Rightarrow> real list" where
  "shift_within ms = tl ms @ [0]"

lemma roll_left_concat:
  assumes "\<forall>ms\<in>set M. ms \<noteq> [] \<and> hd ms = (0 :: real)"
  shows "roll_left (concat M) = concat (map shift_within M)"
proof (cases M)
  case (Cons ms M')
  have step: "tl (concat (ms # M')) @ [0] = concat (map shift_within (ms # M'))"
    if "\<forall>ms\<in>set (ms # M'). ms \<noteq> [] \<and> hd ms = (0 :: real)" for ms M'
    using that
  proof (induction M' arbitrary: ms)
    case (Cons ms' M')
    then have "ms' = 0 # tl ms'" by (metis list.collapse list.set_intros)
    then have "concat (ms' # M') = 0 # tl (concat (ms' # M'))" by (metis append_Cons concat.simps(2) list.sel(3))
    with Cons show ?case by (auto simp: shift_within_def)
  qed (simp add: shift_within_def)
  have "concat M = 0 # tl (concat M)" using assms Cons by (cases ms) auto
  then show ?thesis using step [of ms M'] assms Cons by (metis roll_left_def list.simps(5))
qed (simp add: roll_left_def)

lemma masked_sum1_concat:
  "map length A = map length M \<Longrightarrow> masked_sum1 (concat A) (concat M) = sum_list (map2 masked_sum1 A M)"
proof (induction A arbitrary: M)
  case (Cons row A)
  then obtain ms M' where "M = ms # M'" "length row = length ms" "map length A = map length M'" by (cases M) auto
  then show ?case using Cons.IH [of M'] by (simp add: masked_sum1_append)
qed (simp add: masked_sum1_def)

lemma sft_loss_no_padding:
  assumes "\<forall>ms\<in>set M. ms \<noteq> [] \<and> hd ms = 0" and "map length A = map length M"
  shows "sft_loss NoPadding A M R n dp = - sum_list (map2 masked_sum1 A (map shift_within M)) / n * real dp"
proof -
  have "map length (map shift_within M) = map length M"
    using assms(1) by (simp add: shift_within_def comp_def Suc_diff_Suc)
  then have "map length A = map length (map shift_within M)" by (simp only: assms(2))
  then show ?thesis by (simp add: sft_loss_def roll_left_concat [OF assms(1)] masked_sum1_concat Let_def)
qed

section \<open>The divergence over the top-k tokens\<close>

lemma kl_term_bound: "exp p - exp q \<le> exp p * (p - q)" for p q :: real
proof -
  have "exp p * (1 + (q - p)) \<le> exp p * exp (q - p)"
    by (intro mult_left_mono) (auto simp: exp_ge_add_one_self)
  also have "\<dots> = exp q" by (simp add: exp_add [symmetric])
  finally show ?thesis by (simp add: algebra_simps)
qed

lemma kl_divergence_bound:
  "length q = length p \<Longrightarrow> sum_list (map exp p) - sum_list (map exp q) \<le> kl_divergence q p"
proof (induction q p rule: list_induct2)
  case (Cons x xs y ys)
  then show ?case using kl_term_bound [of y x] by (simp add: kl_divergence_def)
qed (simp add: kl_divergence_def)

lemma kl_divergence_self: "kl_divergence p p = 0"
  by (induction p) (auto simp: kl_divergence_def)

lemma softmax_mass: "xs \<noteq> [] \<Longrightarrow> sum_list (map exp (log_softmax xs)) = 1"
proof -
  assume "xs \<noteq> []"
  then have z: "0 < (\<Sum>x\<leftarrow>xs. exp x)" by (cases xs) (auto intro!: add_pos_nonneg sum_list_nonneg)
  have "map exp (log_softmax xs) = map (\<lambda>x. exp x / (\<Sum>x\<leftarrow>xs. exp x)) xs"
    using z by (simp add: log_softmax_def logsumexp_def exp_diff)
  then show ?thesis using z by (simp add: sum_list_divide)
qed

lemma selected_mass_le:
  assumes "distinct ids" and "\<forall>i\<in>set ids. i < length xs"
  shows "sum_list (map exp (select xs ids)) \<le> sum_list (map exp (xs :: real list))"
proof -
  have "sum_list (map exp (select xs ids)) = (\<Sum>i\<in>set ids. exp (xs ! i))"
    using assms(1) by (simp add: select_def sum_list_distinct_conv_sum_set comp_def)
  also have "\<dots> \<le> (\<Sum>i\<in>{..<length xs}. exp (xs ! i))"
    using assms(2) by (intro sum_mono2) auto
  also have "\<dots> = sum_list (map exp xs)"
    by (simp add: sum_list_sum_nth lessThan_atLeast0)
  finally show ?thesis .
qed

section \<open>Bounds of an aggregated loss\<close>

lemma masked_sum1_scale: "masked_sum1 (map ((*) k) xs) ms = k * masked_sum1 xs ms"
proof (induction xs arbitrary: ms)
  case (Cons x xs)
  then show ?case by (cases ms) (auto simp: masked_sum1_def algebra_simps)
qed (simp add: masked_sum1_def)

lemma row_scale: "sum_list (map2 (*) (map ((*) k) xs) ms) = k * sum_list (map2 (*) xs ms)" for k :: real
proof (induction xs arbitrary: ms)
  case (Cons x xs)
  then show ?case by (cases ms) (auto simp: algebra_simps)
qed simp

lemma seq_token_sum_scale: "seq_token_sum (tmap ((*) k) A) M = map ((*) k) (seq_token_sum A M)"
proof (induction A arbitrary: M)
  case (Cons row A)
  then show ?case
    by (cases M) (simp_all add: seq_token_sum_def row_sums_def tmap_def tmap2_def row_scale)
qed (simp add: seq_token_sum_def row_sums_def tmap_def tmap2_def)

lemma masked_sum_by_rows: "masked_sum A M = sum_list (map2 masked_sum1 A M)"
  by (simp add: masked_sum_rows masked_sum1_def)

lemma masked_sum_scale: "masked_sum (tmap ((*) k) A) M = k * masked_sum A M"
proof (induction A arbitrary: M)
  case (Cons row A)
  then show ?case
    by (cases M) (simp_all add: masked_sum_by_rows tmap_def masked_sum1_scale distrib_left)
qed (simp add: masked_sum_rows tmap_def)

lemma map2_divide_scale: "map2 (\<lambda>s n. s / (n + d)) (map ((*) k) ss) ns = map ((*) k) (map2 (\<lambda>s n. s / (n + d)) ss ns)" for d :: real
  by (induction ss arbitrary: ns) (simp_all add: zip_Cons1 split: list.splits)

lemma agg_numerator_scale: "agg_numerator mode (tmap ((*) k) A) M = k * agg_numerator mode A M"
  unfolding agg_numerator_def seq_numerator_def seq_mean_numerator_def
    masked_sum_scale seq_token_sum_scale map2_divide_scale masked_sum1_scale
  by simp

definition entries_within :: "real \<Rightarrow> tensor \<Rightarrow> bool" where
  "entries_within b A \<longleftrightarrow> (\<forall>row\<in>set A. \<forall>x\<in>set row. \<bar>x\<bar> \<le> b)"

lemma entries_within_le:
  assumes "entries_within b A" and "same_shape A M"
  shows "tensor_le A (tmap ((*) b) (tmap (\<lambda>_. 1) M))" and "tensor_le (tmap ((*) (- b)) (tmap (\<lambda>_. 1) M)) A"
proof -
  have "\<bar>A ! i ! j\<bar> \<le> b" if "i < length A" "j < length (A ! i)" for i j
    using assms(1) that nth_mem [OF that(1)] nth_mem [OF that(2)] unfolding entries_within_def by blast
  then have le: "A ! i ! j \<le> b \<and> - b \<le> A ! i ! j" if "i < length A" "j < length (A ! i)" for i j
    using that by (meson abs_le_iff minus_le_iff)
  then show "tensor_le A (tmap ((*) b) (tmap (\<lambda>_. 1) M))" "tensor_le (tmap ((*) (- b)) (tmap (\<lambda>_. 1) M)) A"
    using assms(2) by (auto simp: tensor_le_def list_all2_conv_all_nth tmap_def same_shape_iff)
qed

definition counts_nonneg :: "batch_info \<Rightarrow> bool" where
  "counts_nonneg info \<longleftrightarrow> (\<forall>n. batch_num_tokens info = Some n \<longrightarrow> 0 \<le> n) \<and> (\<forall>n. global_batch_size info = Some n \<longrightarrow> 0 \<le> n)
     \<and> (\<forall>n. loss_scale_factor info = Some n \<longrightarrow> 0 \<le> n)"

text \<open>A loss whose entries are within \<open>b\<close> is within \<open>b\<close> times the loss of a matrix of ones.\<close>

lemma agg_loss_bounded:
  assumes loss: "agg_loss A M mode info = Inr loss" and within: "entries_within b A" and shape: "same_shape A M"
    and mask: "binary_mask M" and mode: "mode \<in> loss_agg_modes" and counts: "counts_nonneg info"
  shows "\<exists>unit. agg_loss (tmap (\<lambda>_. 1) M) M mode info = Inr unit \<and> \<bar>loss\<bar> \<le> b * unit"
proof -
  define f where "f B n = agg_numerator mode B M / n * real (dp_size info) / agg_scale mode M info" for B n
  have form: "agg_loss B M mode info = rbind (denominator (dp_size info) (agg_given mode info) (agg_count mode M)) (\<lambda>n. Inr (f B n))" for B
    using mode by (simp add: agg_loss_form f_def)
  obtain n where n: "denominator (dp_size info) (agg_given mode info) (agg_count mode M) = Inr n" and l: "loss = f A n"
    using loss by (auto simp: form res_simps)
  have "0 \<le> n"
    using n counts agg_count_nonneg [OF mask, of mode]
    by (auto simp: denominator_def agg_given_def counts_nonneg_def res_simps split: option.splits if_splits)
  moreover have "0 \<le> agg_scale mode M info"
    using counts by (auto simp: agg_scale_def counts_nonneg_def tensor_width_nonneg split: option.splits)
  ultimately have mono: "f B n \<le> f C n" if "tensor_le B C" for B C
    unfolding f_def using agg_numerator_mono [OF that mask, of mode]
    by (intro divide_right_mono mult_right_mono) auto
  have scale: "f (tmap ((*) k) B) n = k * f B n" for k B by (simp add: f_def agg_numerator_scale)
  have "loss \<le> b * f (tmap (\<lambda>_. 1) M) n" "(- b) * f (tmap (\<lambda>_. 1) M) n \<le> loss"
    using mono [OF entries_within_le(1) [OF within shape]] mono [OF entries_within_le(2) [OF within shape]]
    unfolding l scale by auto
  then have "\<bar>loss\<bar> \<le> b * f (tmap (\<lambda>_. 1) M) n" by (simp add: abs_le_iff)
  then show ?thesis using n by (auto simp: form)
qed

lemma clamp_within: "0 \<le> c \<Longrightarrow> entries_within c (tmap (clamp (- c) c) A)"
  by (auto simp: entries_within_def tmap_def clamp_def)

lemma weighted_within:
  assumes "entries_within c A" and "\<forall>w\<in>set ws. 0 \<le> w \<and> w \<le> W" and "0 \<le> c"
  shows "entries_within (c * W) (apply_opd_weights (Some (PerSample ws)) A)"
proof -
  have "\<bar>x * w\<bar> \<le> c * W" if "row \<in> set A" "x \<in> set row" "w \<in> set ws" for row x w
    using assms that by (auto simp: entries_within_def abs_mult intro!: mult_mono)
  then show ?thesis
    by (auto simp: entries_within_def apply_opd_weights_def set_zip) (metis nth_mem)
qed

lemma weighted_shape: "length ws = length A \<Longrightarrow> same_shape A M \<Longrightarrow> same_shape (apply_opd_weights (Some (PerSample ws)) A) M"
  by (simp add: apply_opd_weights_def same_shape_iff)

section \<open>The distillation loss\<close>

lemma distillation_loss_registry_value:
  "distillation_loss_registry = Inr ((''forward_kl_topk'', \<lambda>config. compute_forward_kl_topk)
     # map (\<lambda>name. (name, compute_distillation_loss_reverse_kl_estimator)) estimator_modes)"
  by (simp add: distillation_loss_registry_def loss_settings_new_def estimator_modes_def has_key_def dict_set_def)

text \<open>Every registered loss has the shape of the response mask.\<close>

lemma raw_loss_shape:
  assumes "distillation_loss_registry = Inr fns" and "get_registered fns name = Inr f" and "f config mo data = Inr (raw, ms)"
  shows "same_shape raw (data_response_mask data)"
proof -
  have "f = (\<lambda>config. compute_forward_kl_topk) \<or> f = compute_distillation_loss_reverse_kl_estimator"
    using assms(1,2) unfolding distillation_loss_registry_value
    by (auto simp: get_registered_def split: option.splits if_splits dest!: map_of_SomeD)
  moreover have ?thesis if "compute_forward_kl_topk mo data = Inr (raw, ms)"
    using that
    by (auto simp: compute_forward_kl_topk_def Let_def res_simps same_shape_def tmap_def comp_def split: option.splits)
  moreover have ?thesis if r: "compute_distillation_loss_reverse_kl_estimator config mo data = Inr (raw, ms)"
  proof -
    obtain s t where st: "map length (tmap hd t) = map length s" "map length s = map length (data_response_mask data)"
        "kl_penalty s (tmap hd t) (dl_loss_mode config) = Inr raw"
      using r by (auto simp: compute_distillation_loss_reverse_kl_estimator_def Let_def res_simps)
    then have sh: "same_shape s (tmap hd t)" by (simp add: same_shape_def)
    from st(3) have "same_shape raw (tmap hd t)"
      unfolding kl_penalty_strip [OF sh] by (rule kl_penalty_forward_shape [OF sh])
    then show ?thesis using st by (simp add: same_shape_def)
  qed
  ultimately show ?thesis using assms(3) by auto
qed

text \<open>The loss per token after the clamp and the weights, before it is used.\<close>

definition token_losses :: "distill_config \<Rightarrow> loss_data \<Rightarrow> tensor \<Rightarrow> tensor" where
  "token_losses lc data raw =
     apply_opd_weights (data_opd_weights data)
       (case dl_loss_max_clamp lc of None \<Rightarrow> raw | Some c \<Rightarrow> tmap (clamp (- c) c) raw)"

lemma distillation_loss_cases:
  assumes "distillation_loss registry config lc mo data = Inr (loss, ms)"
  obtains raw ms3 where "same_shape raw (data_response_mask data)"
    and "\<And>lc'. lc' = lc\<lparr>dl_use_policy_gradient := True\<rparr> \<Longrightarrow> distillation_loss registry config lc' mo data =
       distillation_policy_gradient registry config lc' mo data (token_losses lc data raw) ms3"
    and "\<And>lc'. lc' = lc\<lparr>dl_use_policy_gradient := False\<rparr> \<Longrightarrow> distillation_loss registry config lc' mo data =
       rbind (agg_loss (token_losses lc data raw) (data_response_mask data) (loss_agg_mode config) (ppo_batch_info config data))
         (\<lambda>loss. Inr (loss, ms3))"
proof -
  obtain fns f raw ms1 range where parts: "distillation_loss_registry = Inr fns" "get_registered fns (dl_loss_mode lc) = Inr f"
      "f lc mo data = Inr (raw, ms1)" "compute_distillation_loss_range raw (data_response_mask data) = Inr range"
    using assms by (auto simp: distillation_loss_def res_simps)
  have same: "f (lc\<lparr>dl_use_policy_gradient := b\<rparr>) mo data = f lc mo data" for b
    using parts(1,2) unfolding distillation_loss_registry_value
    by (auto simp: get_registered_def compute_distillation_loss_reverse_kl_estimator_def split: option.splits if_splits dest!: map_of_SomeD)
  show ?thesis
    by (rule that [OF raw_loss_shape [OF parts(1-3)]])
      (simp_all add: distillation_loss_def parts same token_losses_def Let_def)
qed

lemma config_flag: "dl_use_policy_gradient lc = b \<Longrightarrow> lc\<lparr>dl_use_policy_gradient := b\<rparr> = lc"
  by (cases lc) simp

section \<open>Properties\<close>

text \<open>In SFT without padding, rolling the flattened loss mask by one token is the same as shifting the
  mask of every sequence on its own, provided no loss is placed on the first token of a sequence: the
  log-probabilities of a sequence are never masked by its neighbour's entries.\<close>

theorem sft_shift_within_sequences:
  assumes "\<forall>ms\<in>set M. ms \<noteq> [] \<and> hd ms = 0" and "map length A = map length M"
  shows "sft_loss NoPadding A M R n dp = - sum_list (map2 masked_sum1 A (map shift_within M)) / n * real dp"
  using assms by (rule sft_loss_no_padding)

theorem sft_shift_within_sequences_witness:
  "sft_loss NoPadding [[-1, -2, -3], [-4, -5]] [[0, 1, 1], [0, 1]] [] 3 2
     = - sum_list (map2 masked_sum1 [[-1, -2, -3], [-4, -5]] (map shift_within [[0, 1, 1], [0, 1]])) / 3 * 2
   \<and> sft_loss NoPadding [[-1, -2, -3], [-4, -5]] [[0, 1, 1], [0, 1]] [] 3 2 = 14 / 3"
  using sft_shift_within_sequences [of "[[0, 1, 1], [0, 1]]" "[[-1, -2, -3], [-4, -5]]" "[]" 3 2]
  by (simp add: shift_within_def masked_sum1_def)

text \<open>The top-k distillation loss of a token is at least the probability mass of the teacher's top-k
  ids minus the student's mass on them, the student's mass is at most 1, and the loss is 0 where the
  student's log-probabilities on those ids are the teacher's.\<close>

theorem topk_loss_bounded_by_mass:
  assumes "topk_token None logits teacher_log_probs teacher_ids = Inr (loss, student_mass, teacher_mass)"
    and "length teacher_log_probs = length teacher_ids" and "distinct teacher_ids"
  shows "teacher_mass - student_mass \<le> loss \<and> student_mass \<le> 1 \<and> teacher_mass - 1 \<le> loss
    \<and> (select (log_softmax logits) teacher_ids = teacher_log_probs \<longrightarrow> loss = 0)"
proof -
  let ?s = "select (log_softmax logits) teacher_ids"
  have r: "loss = kl_divergence ?s teacher_log_probs" "student_mass = sum_list (map exp ?s)"
      "teacher_mass = sum_list (map exp teacher_log_probs)" "\<forall>i\<in>set teacher_ids. i < length (log_softmax logits)"
    using assms(1) by (auto simp: topk_token_def gather_def clamp_min_def res_simps)
  have bound: "teacher_mass - student_mass \<le> loss"
    unfolding r by (intro kl_divergence_bound) (simp add: assms(2))
  have mass: "student_mass \<le> 1"
  proof (cases "logits = []")
    case True
    then have "teacher_ids = []" using r(4) by (cases teacher_ids) (auto simp: log_softmax_def)
    then show ?thesis by (simp add: r select_def)
  next
    case False
    then show ?thesis using selected_mass_le [OF assms(3) r(4)] softmax_mass by (simp add: r)
  qed
  from bound mass show ?thesis by (auto simp: r(1) kl_divergence_self)
qed

theorem topk_loss_bounded_by_mass_witness:
  "\<exists>loss student_mass. topk_token None [0, 0] [0] [1] = Inr (loss, student_mass, 1) \<and> 1 - student_mass \<le> loss"
proof -
  obtain loss smass where r: "topk_token None [0, 0] [0] [1] = Inr (loss, smass, 1)"
    by (simp add: topk_token_def gather_def log_softmax_def)
  with topk_loss_bounded_by_mass [OF r] show ?thesis by auto
qed

text \<open>C25: On-policy, using the distillation loss as a policy-gradient reward and using it as a supervised
  loss give the same value: with no rollout weights, the log-probabilities of the old policy and
  nonnegative clip ranges, the vanilla policy loss of the negated losses is their aggregate.\<close>

theorem policy_gradient_equals_supervised:
  assumes "distillation_loss registry config (lc\<lparr>dl_use_policy_gradient := False\<rparr>) mo data = Inr (loss, ms)"
    and "get_policy_loss_fn registry (dl_policy_loss_mode lc) = Inr compute_policy_loss_vanilla"
    and "unpadded data (out_log_probs mo) = Inr (data_old_log_probs data)" and "data_is_weights data = None"
    and "binary_mask (data_response_mask data)" and "same_shape (data_old_log_probs data) (data_response_mask data)"
    and "case data_opd_weights data of None \<Rightarrow> True | Some (PerSample ws) \<Rightarrow> length ws = length (data_response_mask data)
          | Some (PerToken W) \<Rightarrow> same_shape W (data_response_mask data)"
    and "0 \<le> dl_clip_ratio_low lc" and "0 \<le> dl_clip_ratio_high lc"
  shows "\<exists>ms'. distillation_loss registry config (lc\<lparr>dl_use_policy_gradient := True\<rparr>) mo data = Inr (loss, ms')"
proof -
  obtain raw ms3 where shape: "same_shape raw (data_response_mask data)"
    and pg: "distillation_loss registry config (lc\<lparr>dl_use_policy_gradient := True\<rparr>) mo data =
       distillation_policy_gradient registry config (lc\<lparr>dl_use_policy_gradient := True\<rparr>) mo data (token_losses lc data raw) ms3"
    and sup: "distillation_loss registry config (lc\<lparr>dl_use_policy_gradient := False\<rparr>) mo data =
       rbind (agg_loss (token_losses lc data raw) (data_response_mask data) (loss_agg_mode config) (ppo_batch_info config data))
         (\<lambda>loss. Inr (loss, ms3))"
    by (rule distillation_loss_cases [OF assms(1)]) (simp add: token_losses_def)
  let ?L = "token_losses lc data raw"
  have "same_shape (case dl_loss_max_clamp lc of None \<Rightarrow> raw | Some c \<Rightarrow> tmap (clamp (- c) c) raw) (data_response_mask data)"
    using shape by (simp add: same_shape_tmap split: option.split)
  then have shapeL: "same_shape ?L (data_response_mask data)"
    using assms(7)
    by (auto simp: token_losses_def apply_opd_weights_def same_shape_iff split: option.splits opd_weights.splits)
  let ?inp = "\<lparr>old_log_prob = data_old_log_probs data, log_prob = data_old_log_probs data,
               advantages = tmap uminus ?L, response_mask = data_response_mask data,
               rollout_is_weights = data_is_weights data\<rparr>"
  let ?actor = "loss_config_as_actor (lc\<lparr>dl_use_policy_gradient := True\<rparr>) (ppo_batch_info config data)"
  have "wf_inputs ?inp" using assms(4-6) shapeL by (simp add: wf_inputs_def same_shape_tmap)
  then have "compute_policy_loss_vanilla (Some ?actor) ?inp (loss_agg_mode config) =
      rbind (agg_loss (is_weighted ?inp (tmap uminus (advantages ?inp))) (response_mask ?inp) (loss_agg_mode config) (global_batch_info ?actor))
        (\<lambda>loss. Inr (loss, ppo_metrics 0 0 0))"
    using assms(8,9)
    by (intro on_policy_equations(1)) (auto simp: clip_low_def clip_high_def or_else_def loss_config_as_actor_def)
  then have "compute_policy_loss_vanilla (Some ?actor) ?inp (loss_agg_mode config) =
      rbind (agg_loss ?L (data_response_mask data) (loss_agg_mode config) (ppo_batch_info config data))
        (\<lambda>loss. Inr (loss, ppo_metrics 0 0 0))"
    by (simp add: is_weighted_def assms(4) tmap_tmap loss_config_as_actor_def) (simp add: tmap_def)
  then show ?thesis
    using assms(1) unfolding pg sup
    by (auto simp: distillation_policy_gradient_def assms(2,3) res_simps)
qed

definition demo_ppo :: ppo_config where
  "demo_ppo = \<lparr>clip_ratio = 0.2, clip_ratio_low = None, clip_ratio_high = None, clip_ratio_c = None, tau_pos = 1, tau_neg = 1,
     policy_loss = None, global_batch_info = plain_batch, loss_agg_mode = ''token-mean'', cfg_loss_scale_factor = None,
     loss_mode = ''vanilla'', entropy_coeff = 0, use_kl_loss = False, kl_loss_type = ''k1'', kl_loss_coef = 0\<rparr>"

definition demo_distill :: distill_config where
  "demo_distill = \<lparr>dl_loss_mode = ''k1'', dl_use_task_rewards = False, dl_loss_coef = 1, dl_loss_max_clamp = Some 10,
     dl_log_prob_min_clamp = None, dl_use_policy_gradient = False, dl_policy_loss_mode = ''vanilla'', dl_clip_ratio = 0.2,
     dl_clip_ratio_low = 0.2, dl_clip_ratio_high = 0.2\<rparr>"

definition demo_data :: loss_data where
  "demo_data = \<lparr>data_dp_size = 1, data_batch_num_tokens = None, data_global_batch_size = None,
     data_layout = NestedSeqs [1] [1], data_max_response_len = 1, data_response_mask = [[1]],
     data_old_log_probs = [[-1]], data_advantages = [[0]], data_is_weights = None, data_ref_log_prob = None,
     data_teacher_logprobs = [[-3], [-4]], data_opd_weights = Some (PerSample [1/2])\<rparr>"

definition demo_output :: model_output where
  "demo_output = \<lparr>out_log_probs = [-1, -2], out_entropy = None, out_topk = None\<rparr>"

definition demo_registry :: "(string \<times> policy_loss_fn) list" where
  "demo_registry = policy_loss_registry (\<lambda>n. [0..<n]) (\<lambda>k xs. [0..<k]) (\<lambda>config inp mode. Inl NotImplementedError)"

lemma demo_unpadded: "unpadded demo_data (out_log_probs demo_output) = Inr [[-1]]"
  by (simp add: unpadded_def demo_data_def demo_output_def no_padding_2_padding_def layout_lens_def pyslice_def pad_dim_def Let_def)

lemma demo_supervised:
  "\<exists>ms. distillation_loss demo_registry demo_ppo (demo_distill\<lparr>dl_use_policy_gradient := False\<rparr>) demo_output demo_data = Inr (1, ms)"
proof -
  have reg: "get_registered ((''forward_kl_topk'', \<lambda>config. compute_forward_kl_topk)
     # map (\<lambda>name. (name, compute_distillation_loss_reverse_kl_estimator)) estimator_modes) ''k1''
     = Inr compute_distillation_loss_reverse_kl_estimator"
    by (simp add: get_registered_def estimator_modes_def)
  have teacher: "no_padding_2_padding [0] (data_teacher_logprobs demo_data) (data_layout demo_data) (data_max_response_len demo_data)
     = Inr [[[-3]]]"
    by (simp add: demo_data_def no_padding_2_padding_def layout_lens_def pyslice_def pad_dim_def Let_def)
  have kl: "kl_penalty [[-1]] [[-3]] ''k1'' = Inr [[2]]"
    by (simp add: kl_penalty_def kl_penalty_forward_def ends_with_plus_def tmap2_def)
  have raw: "compute_distillation_loss_reverse_kl_estimator (demo_distill\<lparr>dl_use_policy_gradient := False\<rparr>) demo_output demo_data
     = Inr ([[2]], [(''distillation/abs_loss'', compute_distillation_abs_loss [[2]] [[1]])])"
    unfolding compute_distillation_loss_reverse_kl_estimator_def demo_unpadded teacher rbind.simps Let_def
    using kl by (simp add: demo_distill_def demo_data_def tmap_def)
  have agg: "agg_loss [[1]] [[1]] ''token-mean'' (ppo_batch_info demo_ppo demo_data) = Inr 1"
    by (simp add: agg_loss_def ppo_batch_info_def demo_ppo_def demo_data_def denominator_def masked_sum_def tmap2_def)
  have rng: "\<exists>r. compute_distillation_loss_range [[2]] [[1]] = Inr r"
    by (simp add: compute_distillation_loss_range_def masked_select_def)
  have w: "apply_opd_weights (data_opd_weights demo_data) (tmap (clamp (- 10) 10) [[2]]) = [[1]]"
    by (simp add: apply_opd_weights_def demo_data_def tmap_def clamp_def)
  have cfg: "dl_loss_mode demo_distill = ''k1''" "dl_loss_max_clamp demo_distill = Some 10" "loss_agg_mode demo_ppo = ''token-mean''"
      "data_response_mask demo_data = [[1]]"
    by (simp_all add: demo_distill_def demo_ppo_def demo_data_def)
  show ?thesis
    using rng by (auto simp: distillation_loss_def distillation_loss_registry_value reg raw cfg w agg Let_def)
qed

theorem policy_gradient_equals_supervised_witness:
  "\<exists>ms'. distillation_loss demo_registry demo_ppo (demo_distill\<lparr>dl_use_policy_gradient := True\<rparr>) demo_output demo_data = Inr (1, ms')"
proof -
  obtain ms where r: "distillation_loss demo_registry demo_ppo (demo_distill\<lparr>dl_use_policy_gradient := False\<rparr>) demo_output demo_data = Inr (1, ms)"
    using demo_supervised by blast
  show ?thesis
    by (rule policy_gradient_equals_supervised [OF r])
      (simp_all add: demo_unpadded, simp_all add: demo_registry_def policy_loss_registry_def get_policy_loss_fn_def demo_distill_def
        demo_data_def binary_mask_def same_shape_def)
qed

text \<open>The supervised distillation loss is bounded by the configuration: with losses clamped at
  \<open>loss_max_clamp\<close> and evidence weights between 0 and \<open>W\<close>, its absolute value is at most the clamp times \<open>W\<close>
  times the aggregate of a matrix of ones, which is 1 for a mean over the batch at hand.\<close>

theorem distillation_loss_bounded:
  assumes "distillation_loss registry config lc mo data = Inr (loss, ms)" and "\<not> dl_use_policy_gradient lc"
    and "dl_loss_max_clamp lc = Some c" and "0 \<le> c"
    and "data_opd_weights data = Some (PerSample ws)" and "length ws = length (data_response_mask data)"
    and "\<forall>w\<in>set ws. 0 \<le> w \<and> w \<le> W" and "binary_mask (data_response_mask data)"
    and "loss_agg_mode config \<in> loss_agg_modes" and "counts_nonneg (ppo_batch_info config data)"
  shows "\<exists>unit. agg_loss (tmap (\<lambda>_. 1) (data_response_mask data)) (data_response_mask data) (loss_agg_mode config)
        (ppo_batch_info config data) = Inr unit
      \<and> \<bar>loss\<bar> \<le> c * W * unit"
proof -
  obtain raw ms3 where shape: "same_shape raw (data_response_mask data)"
    and sup: "distillation_loss registry config (lc\<lparr>dl_use_policy_gradient := False\<rparr>) mo data =
       rbind (agg_loss (token_losses lc data raw) (data_response_mask data) (loss_agg_mode config) (ppo_batch_info config data))
         (\<lambda>loss. Inr (loss, ms3))"
    by (rule distillation_loss_cases [OF assms(1)]) simp
  have loss: "agg_loss (token_losses lc data raw) (data_response_mask data) (loss_agg_mode config) (ppo_batch_info config data) = Inr loss"
    using sup [symmetric] assms(1) config_flag [of lc False] assms(2) by (auto simp: rbind_eq_Inr)
  have "entries_within (c * W) (token_losses lc data raw)"
    unfolding token_losses_def assms(3,5) option.case by (intro weighted_within clamp_within assms(4,7))
  moreover have "same_shape (token_losses lc data raw) (data_response_mask data)"
    unfolding token_losses_def assms(3,5) option.case
    using shape assms(6) by (intro weighted_shape same_shape_tmap) (auto simp: same_shape_iff tmap_def)
  ultimately show ?thesis
    using agg_loss_bounded [OF loss] assms(8-10) by blast
qed

theorem distillation_loss_bounded_witness:
  "\<exists>loss ms. distillation_loss demo_registry demo_ppo demo_distill demo_output demo_data = Inr (loss, ms) \<and> \<bar>loss\<bar> \<le> 10 * (1/2) * 1"
proof -
  have "demo_distill\<lparr>dl_use_policy_gradient := False\<rparr> = demo_distill" by (simp add: demo_distill_def)
  then obtain ms where r: "distillation_loss demo_registry demo_ppo demo_distill demo_output demo_data = Inr (1, ms)"
    using demo_supervised by auto
  have "\<exists>unit. agg_loss (tmap (\<lambda>_. 1) (data_response_mask demo_data)) (data_response_mask demo_data) (loss_agg_mode demo_ppo)
        (ppo_batch_info demo_ppo demo_data) = Inr unit \<and> \<bar>1\<bar> \<le> 10 * (1/2) * unit"
    by (rule distillation_loss_bounded [OF r, of 10 "[1/2]"])
      (simp_all add: demo_distill_def demo_data_def demo_ppo_def binary_mask_def loss_agg_modes_def counts_nonneg_def ppo_batch_info_def)
  then show ?thesis
    using r by (auto simp: agg_loss_def demo_data_def demo_ppo_def ppo_batch_info_def denominator_def masked_sum_def tmap2_def tmap_def)
qed

section \<open>The value loss over micro-batches\<close>

definition demo_critic :: critic_config where
  "demo_critic = \<lparr>cliprange_value = 1, critic_loss_agg_mode = ''token-mean''\<rparr>"

definition demo_value_data :: "nat \<Rightarrow> value_data" where
  "demo_value_data n = \<lparr>val_layout = NestedSeqs (replicate n 1) (replicate n 1), val_max_response_len = 1,
     old_vals = replicate n [0], val_returns = replicate n [2], val_response_mask = replicate n [1]\<rparr>"

text \<open>The value loss is not normalised with the global counts, and the engine adds up the losses of the
  micro-batches: two samples in two micro-batches give twice the loss that they give in one.\<close>

theorem value_loss_depends_on_micro_batches:
  "\<exists>ms ms'. accumulated_loss (\<lambda>(v, d). value_loss demo_critic v d) [([0, 0, 0, 0], demo_value_data 2)] = Inr (2, ms)
     \<and> accumulated_loss (\<lambda>(v, d). value_loss demo_critic v d) [([0, 0], demo_value_data 1), ([0, 0], demo_value_data 1)] = Inr (4, ms')"
  by (simp add: accumulated_loss_def value_loss_def demo_critic_def demo_value_data_def no_padding_2_padding_def layout_lens_def
      pyslice_def pad_dim_def numeral_2_eq_2 compute_value_loss_def agg_loss_def plain_batch_def denominator_def masked_sum_def
      tmap_def tmap2_def value_losses_def clamp_def clip_by_value_def Let_def fraction_def)

end
