(* ===== verification/MessageQueue.thy ===== *)
theory MessageQueue
  imports Prelude
begin

text \<open>
  The message queue between the rollouter and the trainer,
  \<open>verl/experimental/fully_async_policy/message_queue.py\<close>: a bounded queue that drops its oldest sample
  when it is full, with consumers that wait on a condition variable. Every method holds the actor's
  lock from end to end, except that a consumer gives it up while it waits; so the calls interleave at
  these points only, and the step relation has one step per critical section.
\<close>

section \<open>State and operations\<close>

record ('a, 'v) mq =
  max_queue_size :: nat
  queue :: "'a list"
  val_queue :: "'v list"
  running :: bool
  total_produced :: nat
  total_consumed :: nat
  dropped_samples :: nat

text \<open>The constructor; \<open>deque(maxlen)\<close> refuses a negative length.\<close>

definition mq_new :: "int option \<Rightarrow> ('a, 'v) mq res" where
  "mq_new max_size =
     (case max_size of
        None \<Rightarrow> Inl ValueError
      | Some n \<Rightarrow> rbind (rcheck ValueError (0 \<le> n)) (\<lambda>_.
          Inr \<lparr>max_queue_size = nat n, queue = [], val_queue = [], running = True,
               total_produced = 0, total_consumed = 0, dropped_samples = 0\<rparr>))"

text \<open>\<open>append\<close> of a bounded deque discards from the other end, \<open>popleft\<close> of an empty one raises.\<close>

definition deque_append :: "nat \<Rightarrow> 'a list \<Rightarrow> 'a \<Rightarrow> 'a list" where
  "deque_append maxlen xs x = (let ys = xs @ [x] in drop (length ys - maxlen) ys)"

fun popleft :: "'a list \<Rightarrow> ('a \<times> 'a list) res" where
  "popleft [] = Inl IndexError"
| "popleft (x # xs) = Inr (x, xs)"

definition put_sample :: "'a \<Rightarrow> ('a, 'v) mq \<Rightarrow> (('a, 'v) mq \<times> bool) res" where
  "put_sample sample st =
     rbind (if max_queue_size st \<le> length (queue st)
            then rbind (popleft (queue st)) (\<lambda>(_, q). Inr (st\<lparr>queue := q, dropped_samples := dropped_samples st + 1\<rparr>, True))
            else Inr (st, False)) (\<lambda>(st1, is_drop).
     Inr (st1\<lparr>queue := deque_append (max_queue_size st1) (queue st1) sample,
              total_produced := total_produced st1 + 1\<rparr>, \<not> is_drop))"

text \<open>One pass of \<open>get_sample\<close> through its critical section.\<close>

datatype 'a get_outcome = MustWait | QueueClosed | GotSample 'a nat

definition get_sample_once :: "('a, 'v) mq \<Rightarrow> 'a get_outcome \<times> ('a, 'v) mq" where
  "get_sample_once st =
     (case queue st of
        [] \<Rightarrow> (if running st then (MustWait, st) else (QueueClosed, st))
      | x # q \<Rightarrow> (GotSample x (length q), st\<lparr>queue := q, total_consumed := total_consumed st + 1\<rparr>))"

definition get_queue_size :: "('a, 'v) mq \<Rightarrow> nat" where
  "get_queue_size st = length (queue st)"

record mq_statistics =
  stat_queue_size :: nat
  stat_produced :: nat
  stat_consumed :: nat
  stat_dropped :: nat
  stat_max_size :: nat

definition get_statistics :: "('a, 'v) mq \<Rightarrow> mq_statistics" where
  "get_statistics st =
     \<lparr>stat_queue_size = length (queue st), stat_produced = total_produced st, stat_consumed = total_consumed st,
      stat_dropped = dropped_samples st, stat_max_size = max_queue_size st\<rparr>"

definition clear_queue :: "('a, 'v) mq \<Rightarrow> ('a, 'v) mq" where
  "clear_queue st = st\<lparr>queue := []\<rparr>"

definition shutdown :: "('a, 'v) mq \<Rightarrow> ('a, 'v) mq" where
  "shutdown st = st\<lparr>running := False\<rparr>"

text \<open>The memory estimate; the size of the first sample, or the failure to measure it, is a parameter.\<close>

definition get_memory_usage :: "('a \<Rightarrow> nat option) \<Rightarrow> ('a, 'v) mq \<Rightarrow> nat \<times> nat" where
  "get_memory_usage sample_size st =
     (let sample_count = length (queue st) in
      (sample_count,
       case queue st of
         [] \<Rightarrow> 0
       | sample # _ \<Rightarrow> (case sample_size sample of Some n \<Rightarrow> n * sample_count | None \<Rightarrow> sample_count * 15000)))"

definition put_validate :: "'v \<Rightarrow> ('a, 'v) mq \<Rightarrow> ('a, 'v) mq" where
  "put_validate x st = st\<lparr>val_queue := val_queue st @ [x]\<rparr>"

definition get_validate :: "('a, 'v) mq \<Rightarrow> 'v option \<times> ('a, 'v) mq" where
  "get_validate st =
     (case val_queue st of [] \<Rightarrow> (None, st) | x # q \<Rightarrow> (Some x, st\<lparr>val_queue := q\<rparr>))"

section \<open>Calls in flight\<close>

text \<open>A call of \<open>get_sample\<close> is about to run its critical section, waits on the condition, or has
  returned. \<open>notify_all\<close> lets every waiting call run again.\<close>

datatype 'a call_phase = Ready | Waiting | Returned "('a \<times> nat) option"

definition notify_all :: "'a call_phase list \<Rightarrow> 'a call_phase list" where
  "notify_all cs = map (\<lambda>c. if c = Waiting then Ready else c) cs"

text \<open>The queue with the calls, and for the statements the samples produced so far and what became of
  those that left the queue, in the order in which they left.\<close>

datatype fate = Consumed | Dropped | Cleared

record ('a, 'v) mq_world =
  mqs :: "('a, 'v) mq"
  calls :: "'a call_phase list"
  produced :: "'a list"
  fates :: "(fate \<times> 'a) list"

definition world_new :: "('a, 'v) mq \<Rightarrow> ('a, 'v) mq_world" where
  "world_new st = \<lparr>mqs = st, calls = [], produced = [], fates = []\<rparr>"

datatype ('a, 'v) mq_event =
    PutSample 'a
  | CallGet
  | RunGet nat
  | ClearQueue
  | Shutdown
  | PutValidate 'v
  | GetValidate

inductive mq_step :: "('a, 'v) mq_world \<Rightarrow> ('a, 'v) mq_event \<Rightarrow> ('a, 'v) mq_world \<Rightarrow> bool" where
  put: "put_sample x (mqs w) = Inr (st, ok) \<Longrightarrow>
    mq_step w (PutSample x)
      (w\<lparr>mqs := st, calls := notify_all (calls w), produced := produced w @ [x],
         fates := fates w @ (if ok then [] else [(Dropped, hd (queue (mqs w)))])\<rparr>)"
| put_raises: "put_sample x (mqs w) = Inl e \<Longrightarrow> mq_step w (PutSample x) w"
| call: "mq_step w CallGet (w\<lparr>calls := calls w @ [Ready]\<rparr>)"
| wait: "i < length (calls w) \<Longrightarrow> calls w ! i = Ready \<Longrightarrow> get_sample_once (mqs w) = (MustWait, st) \<Longrightarrow>
    mq_step w (RunGet i) (w\<lparr>mqs := st, calls := (calls w)[i := Waiting]\<rparr>)"
| closed: "i < length (calls w) \<Longrightarrow> calls w ! i = Ready \<Longrightarrow> get_sample_once (mqs w) = (QueueClosed, st) \<Longrightarrow>
    mq_step w (RunGet i) (w\<lparr>mqs := st, calls := (calls w)[i := Returned None]\<rparr>)"
| got: "i < length (calls w) \<Longrightarrow> calls w ! i = Ready \<Longrightarrow> get_sample_once (mqs w) = (GotSample x n, st) \<Longrightarrow>
    mq_step w (RunGet i)
      (w\<lparr>mqs := st, calls := (calls w)[i := Returned (Some (x, n))], fates := fates w @ [(Consumed, x)]\<rparr>)"
| clear: "mq_step w ClearQueue
      (w\<lparr>mqs := clear_queue (mqs w), fates := fates w @ map (Pair Cleared) (queue (mqs w))\<rparr>)"
| shut: "mq_step w Shutdown (w\<lparr>mqs := shutdown (mqs w), calls := notify_all (calls w)\<rparr>)"
| putval: "mq_step w (PutValidate v) (w\<lparr>mqs := put_validate v (mqs w)\<rparr>)"
| getval: "get_validate (mqs w) = (r, st) \<Longrightarrow> mq_step w GetValidate (w\<lparr>mqs := st\<rparr>)"

inductive mq_reachable :: "nat \<Rightarrow> ('a, 'v) mq_world \<Rightarrow> bool" for bound :: nat where
  init: "mq_new (Some (int bound)) = Inr st \<Longrightarrow> mq_reachable bound (world_new st)"
| step: "mq_reachable bound w \<Longrightarrow> mq_step w e w' \<Longrightarrow> mq_reachable bound w'"

section \<open>The contract of a bounded queue\<close>

text \<open>What producers and consumers rely on: a queue with a capacity keeps the newest samples, in order.\<close>

locale bounded_fifo =
  fixes put :: "'a \<Rightarrow> 's \<Rightarrow> ('s \<times> bool) res"
    and get :: "'s \<Rightarrow> 'a get_outcome \<times> 's"
    and content :: "'s \<Rightarrow> 'a list"
    and capacity :: "'s \<Rightarrow> nat"
  assumes put_content: "0 < capacity s \<Longrightarrow> length (content s) \<le> capacity s \<Longrightarrow>
      \<exists>s'. put x s = Inr (s', length (content s) < capacity s) \<and> capacity s' = capacity s
        \<and> content s' = drop (length (content s) + 1 - capacity s) (content s @ [x])"
    and get_content: "content s = y # ys \<Longrightarrow>
      \<exists>s'. get s = (GotSample y (length ys), s') \<and> capacity s' = capacity s \<and> content s' = ys"
begin

text \<open>Producing as many samples as there is room for drops nothing.\<close>

fun put_all :: "'a list \<Rightarrow> 's \<Rightarrow> ('s \<times> bool list) res" where
  "put_all [] s = Inr (s, [])"
| "put_all (x # xs) s = rbind (put x s) (\<lambda>(s1, ok). rbind (put_all xs s1) (\<lambda>(s2, oks). Inr (s2, ok # oks)))"

lemma put_all_room:
  assumes "length (content s) + length xs \<le> capacity s"
  shows "\<exists>s'. put_all xs s = Inr (s', replicate (length xs) True) \<and> capacity s' = capacity s \<and> content s' = content s @ xs"
  using assms
proof (induction xs arbitrary: s)
  case (Cons x xs)
  then have "0 < capacity s" "length (content s) \<le> capacity s" "length (content s) < capacity s" by auto
  with put_content [of s x] obtain s1 where s1: "put x s = Inr (s1, True)" "capacity s1 = capacity s" "content s1 = content s @ [x]"
    by auto
  with Cons.IH [of s1] Cons.prems show ?case by auto
qed simp

text \<open>Consuming takes the samples in the order of the queue.\<close>

fun get_many :: "nat \<Rightarrow> 's \<Rightarrow> ('a list \<times> 's) option" where
  "get_many 0 s = Some ([], s)"
| "get_many (Suc n) s =
     (case get s of
        (GotSample x k, s1) \<Rightarrow> map_option (\<lambda>(xs, s2). (x # xs, s2)) (get_many n s1)
      | _ \<Rightarrow> None)"

lemma get_many_prefix:
  assumes "n \<le> length (content s)"
  shows "\<exists>s'. get_many n s = Some (take n (content s), s') \<and> capacity s' = capacity s \<and> content s' = drop n (content s)"
  using assms
proof (induction n arbitrary: s)
  case (Suc n)
  then obtain y ys where y: "content s = y # ys" by (cases "content s") auto
  with get_content [OF y] obtain s1 where "get s = (GotSample y (length ys), s1)" "capacity s1 = capacity s" "content s1 = ys"
    by blast
  with Suc.IH [of s1] Suc.prems y show ?case by auto
qed simp

lemma put_all_get_many:
  assumes "length (content s) + length xs \<le> capacity s"
  shows "\<exists>s1 s2. put_all xs s = Inr (s1, replicate (length xs) True)
    \<and> get_many (length (content s) + length xs) s1 = Some (content s @ xs, s2) \<and> content s2 = []"
proof -
  obtain s1 where s1: "put_all xs s = Inr (s1, replicate (length xs) True)" "content s1 = content s @ xs"
    using put_all_room [OF assms] by blast
  then show ?thesis using get_many_prefix [of "length (content s) + length xs" s1] by auto
qed

end

lemma put_sample_result:
  assumes "0 < max_queue_size st" and "length (queue st) \<le> max_queue_size st"
  shows "put_sample x st =
    (if length (queue st) < max_queue_size st
     then Inr (st\<lparr>queue := queue st @ [x], total_produced := total_produced st + 1\<rparr>, True)
     else Inr (st\<lparr>queue := tl (queue st) @ [x], dropped_samples := dropped_samples st + 1,
                  total_produced := total_produced st + 1\<rparr>, False))"
proof (cases "length (queue st) < max_queue_size st")
  case False
  then obtain y q where "queue st = y # q" using assms(1) by (cases "queue st") auto
  then show ?thesis using assms False by (simp add: put_sample_def deque_append_def)
qed (simp add: put_sample_def deque_append_def)

interpretation fifo: bounded_fifo put_sample get_sample_once queue max_queue_size
proof
  fix st :: "('a, 'b) mq" and x :: 'a
  assume "0 < max_queue_size st" and "length (queue st) \<le> max_queue_size st"
  moreover from this have "\<not> length (queue st) < max_queue_size st \<Longrightarrow> queue st \<noteq> []"
    by (cases "queue st") auto
  ultimately show "\<exists>st'. put_sample x st = Inr (st', length (queue st) < max_queue_size st)
      \<and> max_queue_size st' = max_queue_size st
      \<and> queue st' = drop (length (queue st) + 1 - max_queue_size st) (queue st @ [x])"
    by (auto simp: put_sample_result drop_Suc)
next
  fix st :: "('a, 'b) mq" and y ys
  assume "queue st = y # ys"
  then show "\<exists>st'. get_sample_once st = (GotSample y (length ys), st') \<and> max_queue_size st' = max_queue_size st \<and> queue st' = ys"
    by (auto simp: get_sample_once_def)
qed

section \<open>The invariant\<close>

definition of_fate :: "fate \<Rightarrow> (fate \<times> 'a) list \<Rightarrow> 'a list" where
  "of_fate f fs = map snd (filter (\<lambda>p. fst p = f) fs)"

definition returned_samples :: "'a call_phase list \<Rightarrow> 'a list" where
  "returned_samples cs = concat (map (\<lambda>c. case c of Returned (Some (x, n)) \<Rightarrow> [x] | _ \<Rightarrow> []) cs)"

text \<open>What holds between any two steps: the capacity, the account of the samples (those that left the
  queue, in order, followed by those in it, are those produced), the counters, what the consumers got,
  and that nobody waits while there is something to get or the queue is closed.\<close>

definition mq_inv :: "nat \<Rightarrow> ('a, 'v) mq_world \<Rightarrow> bool" where
  "mq_inv bound w \<longleftrightarrow>
     max_queue_size (mqs w) = bound \<and> length (queue (mqs w)) \<le> bound
     \<and> produced w = map snd (fates w) @ queue (mqs w)
     \<and> total_produced (mqs w) = length (produced w)
     \<and> total_consumed (mqs w) = length (of_fate Consumed (fates w))
     \<and> dropped_samples (mqs w) = length (of_fate Dropped (fates w))
     \<and> mset (returned_samples (calls w)) = mset (of_fate Consumed (fates w))
     \<and> (Waiting \<in> set (calls w) \<longrightarrow> queue (mqs w) = [] \<and> running (mqs w))"

lemma of_fate_append [simp]: "of_fate f (xs @ ys) = of_fate f xs @ of_fate f ys"
  by (simp add: of_fate_def)

lemma of_fate_single [simp]: "of_fate f [] = []" "of_fate f ((g, x) # xs) = (if g = f then x # of_fate f xs else of_fate f xs)"
  by (simp_all add: of_fate_def)

lemma of_fate_map [simp]: "of_fate f (map (Pair g) xs) = (if f = g then xs else [])"
  by (induction xs) auto

lemma notify_all_simps [simp]:
  "Waiting \<notin> set (notify_all cs)" "returned_samples (notify_all cs) = returned_samples cs" "length (notify_all cs) = length cs"
  by (auto simp: notify_all_def returned_samples_def comp_def intro!: arg_cong [where f = concat] split: call_phase.split)

lemma returned_samples_append [simp]: "returned_samples (cs @ ds) = returned_samples cs @ returned_samples ds"
  by (simp add: returned_samples_def)

lemma returned_samples_update:
  assumes "i < length cs" and "cs ! i = Ready"
  shows "mset (returned_samples (cs[i := c])) = mset (returned_samples cs) + mset (returned_samples [c])"
proof -
  have "mset (returned_samples (xs @ Ready # ys)) + mset (returned_samples [c]) = mset (returned_samples (xs @ c # ys))" for xs ys
    by (simp add: returned_samples_def)
  from this [of "take i cs" "drop (Suc i) cs"] assms show ?thesis
    by (metis id_take_nth_drop upd_conv_take_nth_drop)
qed

lemma returned_samples_single [simp]:
  "returned_samples [] = []" "returned_samples [Ready] = []" "returned_samples [Waiting] = []" "returned_samples [Returned None] = []"
  "returned_samples [Returned (Some (x, n))] = [x]"
  by (simp_all add: returned_samples_def)

lemma get_outcome_cases:
  "get_sample_once st = (MustWait, st') \<longleftrightarrow> queue st = [] \<and> running st \<and> st' = st"
  "get_sample_once st = (QueueClosed, st') \<longleftrightarrow> queue st = [] \<and> \<not> running st \<and> st' = st"
  "get_sample_once st = (GotSample x n, st') \<longleftrightarrow>
     (\<exists>q. queue st = x # q \<and> n = length q \<and> st' = st\<lparr>queue := q, total_consumed := total_consumed st + 1\<rparr>)"
  by (auto simp: get_sample_once_def split: list.splits)

inductive_cases run_getE: "mq_step w (RunGet i) w'"

lemma put_sample_zero: "max_queue_size st = 0 \<Longrightarrow> queue st = [] \<Longrightarrow> put_sample x st = Inl IndexError"
  by (simp add: put_sample_def)

lemma mq_inv_put:
  assumes "mq_inv bound w" and "put_sample x (mqs w) = Inr (st, ok)"
  shows "mq_inv bound (w\<lparr>mqs := st, calls := notify_all (calls w), produced := produced w @ [x],
         fates := fates w @ (if ok then [] else [(Dropped, hd (queue (mqs w)))])\<rparr>)"
proof -
  have len: "length (queue (mqs w)) \<le> max_queue_size (mqs w)" using assms(1) by (simp add: mq_inv_def)
  then have pos: "0 < max_queue_size (mqs w)"
    using assms(2) put_sample_zero [of "mqs w" x] by (cases "max_queue_size (mqs w)") auto
  show ?thesis
  proof (cases "length (queue (mqs w)) < max_queue_size (mqs w)")
    case True
    then have "st = mqs w\<lparr>queue := queue (mqs w) @ [x], total_produced := total_produced (mqs w) + 1\<rparr>" "ok"
      using assms(2) by (simp_all add: put_sample_result [OF pos len])
    then show ?thesis using assms(1) True by (simp add: mq_inv_def)
  next
    case False
    then have st: "st = mqs w\<lparr>queue := tl (queue (mqs w)) @ [x], dropped_samples := dropped_samples (mqs w) + 1,
        total_produced := total_produced (mqs w) + 1\<rparr>" "\<not> ok"
      using assms(2) by (simp_all add: put_sample_result [OF pos len])
    obtain y q where "queue (mqs w) = y # q" using False pos by (cases "queue (mqs w)") auto
    then show ?thesis using assms(1) st by (simp add: mq_inv_def)
  qed
qed

lemma mq_inv_return:
  assumes "mq_inv bound w" and "i < length (calls w)" and "calls w ! i = Ready"
  shows "get_sample_once (mqs w) = (QueueClosed, st) \<Longrightarrow> mq_inv bound (w\<lparr>mqs := st, calls := (calls w)[i := Returned None]\<rparr>)"
    and "get_sample_once (mqs w) = (GotSample x n, st) \<Longrightarrow>
      mq_inv bound (w\<lparr>mqs := st, calls := (calls w)[i := Returned (Some (x, n))], fates := fates w @ [(Consumed, x)]\<rparr>)"
  using assms returned_samples_update [OF assms(2,3)] set_update_subset_insert [of "calls w" i "Returned None"]
    set_update_subset_insert [of "calls w" i "Returned (Some (x, n))"]
  by (auto simp: mq_inv_def get_outcome_cases)

lemma mq_inv_wait:
  assumes "mq_inv bound w" and "i < length (calls w)" and "calls w ! i = Ready"
    and "get_sample_once (mqs w) = (MustWait, st)"
  shows "mq_inv bound (w\<lparr>mqs := st, calls := (calls w)[i := Waiting]\<rparr>)"
  using assms returned_samples_update [OF assms(2,3), of Waiting] by (auto simp: mq_inv_def get_outcome_cases)

lemma get_validate_frame:
  "get_validate st = (r, st') \<Longrightarrow> \<exists>q. st' = st\<lparr>val_queue := q\<rparr>"
  by (cases st) (auto simp: get_validate_def split: list.splits)

lemma mq_inv_step:
  assumes "mq_step w e w'" and "mq_inv bound w"
  shows "mq_inv bound w'"
  using assms
proof (induction rule: mq_step.induct)
  case (put x w st ok)
  show ?case by (rule mq_inv_put [OF put.prems put.hyps])
next
  case (wait i w st)
  show ?case by (rule mq_inv_wait [OF wait.prems wait.hyps])
next
  case (closed i w st)
  show ?case by (rule mq_inv_return(1) [OF closed.prems closed.hyps])
next
  case (got i w x n st)
  show ?case by (rule mq_inv_return(2) [OF got.prems got.hyps])
next
  case (getval w r st)
  then show ?case using get_validate_frame [OF getval.hyps] by (auto simp: mq_inv_def)
qed (auto simp: mq_inv_def clear_queue_def shutdown_def put_validate_def comp_def)

lemma mq_inv_reachable: "mq_reachable bound w \<Longrightarrow> mq_inv bound w"
proof (induction rule: mq_reachable.induct)
  case (init st)
  then show ?case by (auto simp: mq_new_def world_new_def mq_inv_def res_simps)
next
  case (step w e w')
  then show ?case using mq_inv_step by blast
qed

section \<open>Draining the calls\<close>

text \<open>Runs of ready calls only, as the event loop performs them when nothing else happens.\<close>

inductive drains :: "('a, 'v) mq_world \<Rightarrow> nat \<Rightarrow> ('a, 'v) mq_world \<Rightarrow> bool" where
  stop: "drains w 0 w"
| run: "mq_step w (RunGet i) w1 \<Longrightarrow> drains w1 n w2 \<Longrightarrow> drains w (Suc n) w2"

definition pending :: "'a call_phase list \<Rightarrow> nat" where
  "pending cs = length (filter (\<lambda>c. c = Ready \<or> c = Waiting) cs)"

definition all_returned :: "'a call_phase list \<Rightarrow> bool" where
  "all_returned cs \<longleftrightarrow> (\<forall>c\<in>set cs. \<exists>r. c = Returned r)"

lemma pending_zero: "pending cs = 0 \<longleftrightarrow> all_returned cs"
proof -
  have "(c = Ready \<or> c = Waiting) = (\<not> (\<exists>r. c = Returned r))" for c :: "'a call_phase" by (cases c) auto
  then show ?thesis by (auto simp: pending_def all_returned_def filter_empty_conv)
qed

lemma pending_update:
  assumes "i < length cs" and "cs ! i = Ready"
  shows "pending cs = Suc (pending (cs[i := Returned r]))"
proof -
  have "pending (xs @ Ready # ys) = Suc (pending (xs @ Returned r # ys))" for xs ys
    by (simp add: pending_def)
  from this [of "take i cs" "drop (Suc i) cs"] assms show ?thesis
    by (metis id_take_nth_drop upd_conv_take_nth_drop)
qed

text \<open>Once the queue is closed, a ready call returns when it runs.\<close>

lemma run_when_closed:
  assumes "mq_step w (RunGet i) w'" and "\<not> running (mqs w)"
  shows "pending (calls w) = Suc (pending (calls w')) \<and> \<not> running (mqs w') \<and> (Waiting \<notin> set (calls w) \<longrightarrow> Waiting \<notin> set (calls w'))"
  using assms(1)
proof (rule run_getE)
  fix st assume "w' = w\<lparr>mqs := st, calls := (calls w)[i := Waiting]\<rparr>" "get_sample_once (mqs w) = (MustWait, st)"
  then show ?thesis using assms(2) by (simp add: get_outcome_cases)
next
  fix st assume "w' = w\<lparr>mqs := st, calls := (calls w)[i := Returned None]\<rparr>" "i < length (calls w)" "calls w ! i = Ready"
    "get_sample_once (mqs w) = (QueueClosed, st)"
  then show ?thesis using assms(2) pending_update [of i "calls w" None] set_update_subset_insert [of "calls w" i "Returned None"]
    by (auto simp: get_outcome_cases)
next
  fix x n st assume "w' = w\<lparr>mqs := st, calls := (calls w)[i := Returned (Some (x, n))], fates := fates w @ [(Consumed, x)]\<rparr>"
    "i < length (calls w)" "calls w ! i = Ready" "get_sample_once (mqs w) = (GotSample x n, st)"
  then show ?thesis using assms(2) pending_update [of i "calls w" "Some (x, n)"]
      set_update_subset_insert [of "calls w" i "Returned (Some (x, n))"]
    by (auto simp: get_outcome_cases)
qed

lemma run_enabled:
  assumes "i < length (calls w)" and "calls w ! i = Ready"
  shows "\<exists>w'. mq_step w (RunGet i) w'"
proof (cases "get_sample_once (mqs w)")
  case (Pair out st)
  then show ?thesis
    using mq_step.wait [OF assms] mq_step.closed [OF assms] mq_step.got [OF assms] by (cases out) blast+
qed

lemma pending_ready:
  assumes "pending cs = Suc n" and "Waiting \<notin> set cs"
  shows "\<exists>i<length cs. cs ! i = Ready"
proof -
  have "filter (\<lambda>c. c = Ready \<or> c = Waiting) cs \<noteq> []" using assms(1) by (auto simp: pending_def)
  then have "Ready \<in> set cs" using assms(2) by (auto simp: filter_empty_conv)
  then show ?thesis by (simp add: in_set_conv_nth)
qed

lemma drain_closed:
  "pending (calls w) = n \<Longrightarrow> \<not> running (mqs w) \<Longrightarrow> Waiting \<notin> set (calls w) \<Longrightarrow> \<exists>w'. drains w n w' \<and> all_returned (calls w')"
proof (induction n arbitrary: w)
  case 0
  then show ?case using drains.stop by (auto simp: pending_zero)
next
  case (Suc n)
  then obtain i where "i < length (calls w)" "calls w ! i = Ready" using pending_ready by blast
  then obtain w1 where w1: "mq_step w (RunGet i) w1" using run_enabled by blast
  with run_when_closed [OF w1] Suc.prems obtain w' where "drains w1 n w'" "all_returned (calls w')"
    using Suc.IH [of w1] by auto
  then show ?case using w1 drains.run by blast
qed

section \<open>Properties\<close>

text \<open>C37: In every state that calls can reach, however they interleave: the queue is within its capacity;
  the samples that left it, in the order in which they left, followed by those in it, are the samples
  produced; the counters count them; every sample is delivered to at most one consumer; and no consumer
  waits while there is a sample or the queue is closed.\<close>

theorem message_queue_account:
  assumes "mq_reachable bound w"
  shows "length (queue (mqs w)) \<le> bound
    \<and> produced w = map snd (fates w) @ queue (mqs w)
    \<and> total_produced (mqs w) = length (produced w)
    \<and> total_consumed (mqs w) = length (of_fate Consumed (fates w))
    \<and> dropped_samples (mqs w) = length (of_fate Dropped (fates w))
    \<and> mset (returned_samples (calls w)) = mset (of_fate Consumed (fates w))
    \<and> (Waiting \<in> set (calls w) \<longrightarrow> queue (mqs w) = [] \<and> running (mqs w))"
  using mq_inv_reachable [OF assms] by (simp add: mq_inv_def)

definition demo_mq :: "(nat, nat) mq" where
  "demo_mq = \<lparr>max_queue_size = 1, queue = [], val_queue = [], running = True, total_produced = 0, total_consumed = 0, dropped_samples = 0\<rparr>"

lemma demo_mq_reachable: "mq_reachable 1 (world_new demo_mq)"
  by (rule mq_reachable.init) (simp add: mq_new_def demo_mq_def)

lemma demo_waiting:
  "\<exists>w. mq_reachable 1 w \<and> calls w = [Waiting] \<and> mqs w = demo_mq \<and> fates w = [] \<and> produced w = []"
proof -
  let ?w0 = "world_new demo_mq"
  let ?w1 = "?w0\<lparr>calls := calls ?w0 @ [Ready]\<rparr>"
  have r1: "mq_reachable 1 ?w1" by (rule mq_reachable.step [OF demo_mq_reachable mq_step.call])
  have "mq_step ?w1 (RunGet 0) (?w1\<lparr>mqs := demo_mq, calls := (calls ?w1)[0 := Waiting]\<rparr>)"
    by (rule mq_step.wait) (simp_all add: world_new_def get_sample_once_def demo_mq_def)
  from mq_reachable.step [OF r1 this] show ?thesis by (auto simp: world_new_def)
qed

theorem message_queue_account_witness:
  "\<exists>w. mq_reachable 1 (w :: (nat, nat) mq_world) \<and> calls w = [Waiting] \<and> queue (mqs w) = [] \<and> running (mqs w)"
proof -
  obtain w :: "(nat, nat) mq_world" where w: "mq_reachable 1 w" "calls w = [Waiting]" using demo_waiting by blast
  from message_queue_account [OF w(1)] have "queue (mqs w) = [] \<and> running (mqs w)" using w(2) by auto
  then show ?thesis using w by blast
qed

text \<open>Closing the queue releases every consumer: in a reachable state with a closed queue, running the
  calls that are still in flight, each once, makes them all return, and every run of a call makes one
  of them return, whatever the order.\<close>

theorem shutdown_releases_consumers:
  assumes "mq_reachable bound w" and "\<not> running (mqs w)"
  shows "(\<exists>w'. drains w (pending (calls w)) w' \<and> all_returned (calls w'))
    \<and> (\<forall>i w'. mq_step w (RunGet i) w' \<longrightarrow> pending (calls w) = Suc (pending (calls w')))"
proof -
  have "Waiting \<notin> set (calls w)" using mq_inv_reachable [OF assms(1)] assms(2) by (auto simp: mq_inv_def)
  then show ?thesis using drain_closed [OF refl assms(2)] run_when_closed [OF _ assms(2)] by blast
qed

theorem shutdown_releases_consumers_witness:
  "\<exists>w w'. mq_reachable 1 (w :: (nat, nat) mq_world) \<and> calls w = [Ready] \<and> drains w (pending (calls w)) w' \<and> all_returned (calls w')"
proof -
  obtain w :: "(nat, nat) mq_world" where w: "mq_reachable 1 w" "calls w = [Waiting]" using demo_waiting by blast
  let ?w' = "w\<lparr>mqs := shutdown (mqs w), calls := notify_all (calls w)\<rparr>"
  have r: "mq_reachable 1 ?w'" by (rule mq_reachable.step [OF w(1) mq_step.shut])
  have "\<not> running (mqs ?w')" by (simp add: shutdown_def)
  from shutdown_releases_consumers [OF r this] obtain w2 where "drains ?w' (pending (calls ?w')) w2" "all_returned (calls w2)" by blast
  moreover have "calls ?w' = [Ready]" using w(2) by (simp add: notify_all_def)
  ultimately show ?thesis using r by blast
qed

end
