(* ===== verification/AsyncRollout.thy ===== *)
theory AsyncRollout
  imports MessageQueue
begin

text \<open>
  The fully asynchronous pipeline: the rollouter's processor, its generation tasks, its monitor and
  \<open>reset_staleness\<close> (\<open>verl/experimental/fully_async_policy/fully_async_rollouter.py\<close>) and the trainer that
  consumes the samples and synchronises the parameters (\<open>fully_async_trainer.py\<close>), around the message
  queue. The coroutines run on one event loop, so between two awaits a coroutine is atomic: the model
  has one step per stretch between awaits, and a lock that a coroutine holds across an await is a phase
  in which it is not free. Generation itself is a step of the environment, it succeeds or fails.
\<close>

section \<open>Configuration and state\<close>

record async_config =
  required_samples :: nat
  staleness_threshold :: real
  trigger_parameter_sync_step :: nat
  num_replicas :: nat

text \<open>\<open>set_max_required_samples\<close>; \<open>int\<close> of a nonnegative number is its integral part.\<close>

definition max_required_samples :: "async_config \<Rightarrow> nat" where
  "max_required_samples cfg =
     nat \<lfloor>real (required_samples cfg) * (staleness_threshold cfg + 1) * real (trigger_parameter_sync_step cfg)\<rfloor>"

definition max_concurrent_samples :: "async_config \<Rightarrow> nat" where
  "max_concurrent_samples cfg = min (num_replicas cfg * 16) (max_required_samples cfg)"

datatype task_status = Generating | Finished | Failed

text \<open>Where the processor is: at the top of its loop; with the queue size just read; about to pause;
  draining or blocked until resumed; about to remove, with the lock, the tasks that had finished; about to
  fetch; with a sample in hand; waiting, with the lock, for a task to finish; at the end of the input,
  without and with the lock; done, crashed or stopped.\<close>

datatype 'a proc_phase =
    LoopTop | Checking nat | Pausing | Draining | Reaping "nat list" | Fetching | Holding 'a | WaitingSlot 'a
  | Ending | EndingWait | Ended | Crashed | Stopped

record 'a async_state =
  pending_queue :: "'a option list"
  paused :: bool
  resume_event :: bool
  active_tasks :: "('a \<times> task_status) list"
  staleness_samples :: nat
  total_generated_samples :: nat
  dropped_stale_samples :: nat
  processed_sample_count :: nat
  phase :: "'a proc_phase"
  resetting :: "nat option"
  monitor_ready :: bool
  message_queue :: "('a option, unit) mq"
  queue_samples :: "'a list"
  local_trigger_step :: nat
  current_param_version :: nat
  must_sync :: bool
  trainer_stopped :: bool
  crashed :: bool
  missed :: nat
  since_reset :: nat

text \<open>The last three fields are for the statements: whether a generation has failed, how many parameter
  updates came while the processor had a sample in hand, and the samples consumed since the last one.\<close>

definition async_init :: "async_config \<Rightarrow> 'a async_state" where
  "async_init cfg =
     \<lparr>pending_queue = [], paused = False, resume_event = True, active_tasks = [], staleness_samples = 0,
      total_generated_samples = 0, dropped_stale_samples = 0, processed_sample_count = 0, phase = LoopTop,
      resetting = None, monitor_ready = False,
      message_queue = \<lparr>max_queue_size = max_required_samples cfg, queue = [], val_queue = [], running = True,
        total_produced = 0, total_consumed = 0, dropped_samples = 0\<rparr>,
      queue_samples = [], local_trigger_step = 1, current_param_version = 0, must_sync = False,
      trainer_stopped = False, crashed = False, missed = 0, since_reset = 0\<rparr>"

section \<open>The rollouter\<close>

definition lock_free :: "'a async_state \<Rightarrow> bool" where
  "lock_free w \<longleftrightarrow> resetting w = None \<and> (case phase w of WaitingSlot _ \<Rightarrow> False | EndingWait \<Rightarrow> False | _ \<Rightarrow> True)"

definition should_pause :: "async_config \<Rightarrow> nat \<Rightarrow> 'a async_state \<Rightarrow> bool" where
  "should_pause cfg queue_size w \<longleftrightarrow>
     max_required_samples cfg \<le> queue_size \<or> max_required_samples cfg \<le> staleness_samples w"

definition done_positions :: "'a async_state \<Rightarrow> nat list" where
  "done_positions w = filter (\<lambda>i. snd (active_tasks w ! i) \<noteq> Generating) [0..<length (active_tasks w)]"

text \<open>Finished tasks leave the set and are awaited; a failed one raises in the processor.\<close>

definition reap :: "nat list \<Rightarrow> 'a proc_phase \<Rightarrow> 'a async_state \<Rightarrow> 'a async_state" where
  "reap ps next_phase w =
     (let w1 = w\<lparr>active_tasks := select (active_tasks w) (filter (\<lambda>i. i \<notin> set ps) [0..<length (active_tasks w)])\<rparr> in
      if \<exists>i\<in>set ps. snd (active_tasks w ! i) = Failed then w1\<lparr>phase := Crashed, crashed := True\<rparr>
      else w1\<lparr>phase := next_phase\<rparr>)"

definition proc_check :: "'a async_state \<Rightarrow> 'a async_state option" where
  "proc_check w =
     (case phase w of
        LoopTop \<Rightarrow> Some (w\<lparr>phase := (if paused w then Pausing else Checking (get_queue_size (message_queue w)))\<rparr>)
      | _ \<Rightarrow> None)"

definition proc_decide :: "async_config \<Rightarrow> 'a async_state \<Rightarrow> 'a async_state option" where
  "proc_decide cfg w =
     (case phase w of Checking n \<Rightarrow> Some (w\<lparr>phase := (if should_pause cfg n w then Pausing else Fetching)\<rparr>) | _ \<Rightarrow> None)"

definition proc_pause :: "'a async_state \<Rightarrow> 'a async_state option" where
  "proc_pause w =
     (if phase w = Pausing \<and> lock_free w then Some (w\<lparr>paused := True, resume_event := False, phase := Draining\<rparr>) else None)"

definition proc_wake :: "'a async_state \<Rightarrow> 'a async_state option" where
  "proc_wake w =
     (if phase w = Draining \<and> done_positions w \<noteq> [] then Some (w\<lparr>phase := Reaping (done_positions w)\<rparr>) else None)"

definition proc_reap :: "'a async_state \<Rightarrow> 'a async_state option" where
  "proc_reap w =
     (case phase w of
        Reaping ps \<Rightarrow> (if lock_free w then Some (reap ps Draining w) else None)
      | WaitingSlot x \<Rightarrow> (if done_positions w = [] then None else Some (reap (done_positions w) (Holding x) w))
      | EndingWait \<Rightarrow> (if done_positions w = [] then None else Some (reap (done_positions w) Ending w))
      | _ \<Rightarrow> None)"

definition proc_resume :: "'a async_state \<Rightarrow> 'a async_state option" where
  "proc_resume w = (if phase w = Draining \<and> resume_event w then Some (w\<lparr>phase := LoopTop\<rparr>) else None)"

definition proc_fetch :: "'a async_state \<Rightarrow> 'a async_state option" where
  "proc_fetch w =
     (case (phase w, pending_queue w) of
        (Fetching, item # rest) \<Rightarrow>
          Some (w\<lparr>pending_queue := rest, staleness_samples := staleness_samples w + 1,
                  phase := (case item of Some x \<Rightarrow> Holding x | None \<Rightarrow> Ending)\<rparr>)
      | _ \<Rightarrow> None)"

definition proc_wait :: "async_config \<Rightarrow> 'a async_state \<Rightarrow> 'a async_state option" where
  "proc_wait cfg w =
     (if active_tasks w = [] \<or> \<not> lock_free w then None
      else case phase w of
             Holding x \<Rightarrow> (if max_concurrent_samples cfg \<le> length (active_tasks w)
                           then Some (w\<lparr>phase := WaitingSlot x\<rparr>) else None)
           | Ending \<Rightarrow> Some (w\<lparr>phase := EndingWait\<rparr>)
           | _ \<Rightarrow> None)"

definition proc_submit :: "async_config \<Rightarrow> 'a async_state \<Rightarrow> 'a async_state option" where
  "proc_submit cfg w =
     (case phase w of
        Holding x \<Rightarrow>
          (if length (active_tasks w) < max_concurrent_samples cfg \<and> (\<not> paused w \<or> resume_event w) \<and> lock_free w
           then Some (w\<lparr>active_tasks := active_tasks w @ [(x, Generating)], phase := LoopTop\<rparr>) else None)
      | _ \<Rightarrow> None)"

definition proc_finish :: "'a async_state \<Rightarrow> 'a async_state option" where
  "proc_finish w = (if phase w = Ending \<and> active_tasks w = [] then Some (w\<lparr>phase := Ended\<rparr>) else None)"

text \<open>At the end, after a crash as well, the end signal \<open>None\<close> goes to the trainer.\<close>

definition end_signal :: "'a async_state \<Rightarrow> 'a async_state option" where
  "end_signal w =
     (if phase w = Ended \<or> phase w = Crashed
      then (case put_sample None (message_queue w) of
              Inl _ \<Rightarrow> None | Inr (q, _) \<Rightarrow> Some (w\<lparr>message_queue := q, phase := Stopped\<rparr>))
      else None)"

text \<open>A generation task puts its sample, or fails.\<close>

definition task_done :: "nat \<Rightarrow> 'a async_state \<Rightarrow> 'a async_state option" where
  "task_done i w =
     (if i < length (active_tasks w) \<and> snd (active_tasks w ! i) = Generating
      then (let x = fst (active_tasks w ! i) in
            case put_sample (Some x) (message_queue w) of
              Inl _ \<Rightarrow> None
            | Inr (q, success) \<Rightarrow>
                Some (w\<lparr>message_queue := q, active_tasks := (active_tasks w)[i := (x, Finished)],
                        total_generated_samples := total_generated_samples w + of_bool success,
                        dropped_stale_samples := dropped_stale_samples w + of_bool (\<not> success),
                        processed_sample_count := processed_sample_count w + 1\<rparr>))
      else None)"

definition task_fail :: "nat \<Rightarrow> 'a async_state \<Rightarrow> 'a async_state option" where
  "task_fail i w =
     (if i < length (active_tasks w) \<and> snd (active_tasks w ! i) = Generating
      then Some (w\<lparr>active_tasks := (active_tasks w)[i := (fst (active_tasks w ! i), Failed)]\<rparr>) else None)"

text \<open>\<open>reset_staleness\<close> counts the active tasks, and while it holds the lock asks the queue for its size.\<close>

definition reset_begin :: "'a async_state \<Rightarrow> 'a async_state option" where
  "reset_begin w =
     (if must_sync w \<and> lock_free w
      then Some (w\<lparr>paused := False, resume_event := True, resetting := Some (length (active_tasks w))\<rparr>) else None)"

definition in_hand :: "'a async_state \<Rightarrow> nat" where
  "in_hand w = (case phase w of Holding _ \<Rightarrow> 1 | WaitingSlot _ \<Rightarrow> 1 | _ \<Rightarrow> 0)"

definition reset_end :: "'a async_state \<Rightarrow> 'a async_state option" where
  "reset_end w =
     (case resetting w of
        Some n \<Rightarrow> Some (w\<lparr>staleness_samples := n + get_queue_size (message_queue w), resetting := None, must_sync := False,
                          since_reset := 0, missed := missed w + in_hand w\<rparr>)
      | None \<Rightarrow> None)"

text \<open>The monitor looks at the queue first and takes the lock afterwards.\<close>

definition monitor_check :: "async_config \<Rightarrow> 'a async_state \<Rightarrow> 'a async_state option" where
  "monitor_check cfg w =
     (if paused w \<and> \<not> should_pause cfg (get_queue_size (message_queue w)) w \<and> phase w \<noteq> Stopped
      then Some (w\<lparr>monitor_ready := True\<rparr>) else None)"

definition monitor_resume :: "'a async_state \<Rightarrow> 'a async_state option" where
  "monitor_resume w =
     (if monitor_ready w \<and> lock_free w
      then Some (w\<lparr>paused := False, resume_event := True, monitor_ready := False\<rparr>) else None)"

section \<open>The trainer\<close>

text \<open>The collecting loop of \<open>_get_samples_from_queue\<close>: a queue that is closed and empty returns \<open>None\<close>, which
  does not unpack into a pair.\<close>

datatype 'a collected = Batch "'a list" | Terminated "'a list" | BlockedWith "'a list" | CollectError pyerr

function collect_samples :: "nat \<Rightarrow> 'a list \<Rightarrow> ('a option, 'v) mq \<Rightarrow> 'a collected \<times> ('a option, 'v) mq" where
  "collect_samples required acc q =
     (if length acc < required
      then (case get_sample_once q of
              (MustWait, q1) \<Rightarrow> (BlockedWith acc, q1)
            | (QueueClosed, q1) \<Rightarrow> (CollectError TypeError, q1)
            | (GotSample None n, q1) \<Rightarrow> (Terminated acc, q1)
            | (GotSample (Some x) n, q1) \<Rightarrow> collect_samples required (acc @ [x]) q1)
      else (Batch acc, q))"
  by pat_completeness auto
termination
  by (relation "measure (\<lambda>(required, acc, q). required - length acc)") auto

declare collect_samples.simps [simp del]

text \<open>One turn of that loop, and a training step with its parameter synchronisation.\<close>

definition trainer_get :: "async_config \<Rightarrow> 'a async_state \<Rightarrow> 'a async_state option" where
  "trainer_get cfg w =
     (if must_sync w \<or> trainer_stopped w \<or> required_samples cfg \<le> length (queue_samples w) then None
      else case get_sample_once (message_queue w) of
             (GotSample (Some x) n, q) \<Rightarrow>
               Some (w\<lparr>message_queue := q, queue_samples := queue_samples w @ [x], since_reset := since_reset w + 1\<rparr>)
           | (GotSample None n, q) \<Rightarrow> Some (w\<lparr>message_queue := q, trainer_stopped := True\<rparr>)
           | _ \<Rightarrow> None)"

definition update_local_step :: "async_config \<Rightarrow> 'a async_state \<Rightarrow> 'a async_state" where
  "update_local_step cfg w =
     (if local_trigger_step w < trigger_parameter_sync_step cfg
      then w\<lparr>local_trigger_step := local_trigger_step w + 1\<rparr>
      else w\<lparr>current_param_version := current_param_version w + 1, local_trigger_step := 1\<rparr>)"

definition trainer_step :: "async_config \<Rightarrow> 'a async_state \<Rightarrow> 'a async_state option" where
  "trainer_step cfg w =
     (if must_sync w \<or> trainer_stopped w \<or> queue_samples w = [] \<or> length (queue_samples w) \<noteq> required_samples cfg then None
      else (let w1 = update_local_step cfg w in
            Some (w1\<lparr>queue_samples := [], must_sync := (local_trigger_step w1 = 1)\<rparr>)))"

section \<open>The pipeline\<close>

datatype 'a async_event =
    Feed "'a option" | ProcCheck | ProcDecide | ProcPause | ProcWake | ProcReap | ProcResume | ProcFetch | ProcWait | ProcSubmit
  | ProcFinish | EndSignal | TaskDone nat | TaskFail nat | ResetBegin | ResetEnd | MonitorCheck | MonitorResume | TrainerGet | TrainerStep

text \<open>The feeder blocks while the pending queue holds 128 samples.\<close>

fun async_exec :: "async_config \<Rightarrow> 'a async_event \<Rightarrow> 'a async_state \<Rightarrow> 'a async_state option" where
  "async_exec cfg (Feed item) w =
     (if length (pending_queue w) < 128 then Some (w\<lparr>pending_queue := pending_queue w @ [item]\<rparr>) else None)"
| "async_exec cfg ProcCheck w = proc_check w"
| "async_exec cfg ProcDecide w = proc_decide cfg w"
| "async_exec cfg ProcPause w = proc_pause w"
| "async_exec cfg ProcWake w = proc_wake w"
| "async_exec cfg ProcReap w = proc_reap w"
| "async_exec cfg ProcResume w = proc_resume w"
| "async_exec cfg ProcFetch w = proc_fetch w"
| "async_exec cfg ProcWait w = proc_wait cfg w"
| "async_exec cfg ProcSubmit w = proc_submit cfg w"
| "async_exec cfg ProcFinish w = proc_finish w"
| "async_exec cfg EndSignal w = end_signal w"
| "async_exec cfg (TaskDone i) w = task_done i w"
| "async_exec cfg (TaskFail i) w = task_fail i w"
| "async_exec cfg ResetBegin w = reset_begin w"
| "async_exec cfg ResetEnd w = reset_end w"
| "async_exec cfg MonitorCheck w = monitor_check cfg w"
| "async_exec cfg MonitorResume w = monitor_resume w"
| "async_exec cfg TrainerGet w = trainer_get cfg w"
| "async_exec cfg TrainerStep w = trainer_step cfg w"

fun async_run :: "async_config \<Rightarrow> 'a async_event list \<Rightarrow> 'a async_state \<Rightarrow> 'a async_state option" where
  "async_run cfg [] w = Some w"
| "async_run cfg (e # es) w = (case async_exec cfg e w of None \<Rightarrow> None | Some w1 \<Rightarrow> async_run cfg es w1)"

inductive async_reachable :: "async_config \<Rightarrow> 'a async_state \<Rightarrow> bool" for cfg :: async_config where
  init: "async_reachable cfg (async_init cfg)"
| step: "async_reachable cfg w \<Longrightarrow> async_exec cfg e w = Some w' \<Longrightarrow> async_reachable cfg w'"

end
