(* ===== verification/AsyncLaws.thy ===== *)
theory AsyncLaws
  imports AsyncRollout
begin

text \<open>
  Laws of the fully asynchronous pipeline: the samples in flight stay within the staleness bound, when a
  sample can be dropped, when the pipeline can stall, and how the trainer collects its batches.
\<close>

section \<open>Counting tasks\<close>

definition generating :: "('a \<times> task_status) list \<Rightarrow> nat" where
  "generating ts = length (filter (\<lambda>t. snd t = Generating) ts)"

definition failed :: "('a \<times> task_status) list \<Rightarrow> nat" where
  "failed ts = length (filter (\<lambda>t. snd t = Failed) ts)"

lemma generating_simps [simp]:
  "generating [] = 0" "generating (ts @ [(x, Generating)]) = Suc (generating ts)"
  "failed [] = 0" "failed (ts @ [(x, Generating)]) = failed ts"
  by (simp_all add: generating_def failed_def)

lemma generating_le: "generating ts \<le> length ts"
  by (simp add: generating_def)

lemma length_filter_update:
  assumes "i < length ts" and "P (ts ! i)" and "\<not> P t"
  shows "length (filter P ts) = Suc (length (filter P (ts[i := t])))"
proof -
  have "length (filter P (xs @ ts ! i # ys)) = Suc (length (filter P (xs @ t # ys)))" for xs ys
    using assms(2,3) by simp
  from this [of "take i ts" "drop (Suc i) ts"] show ?thesis
    using assms(1) by (metis id_take_nth_drop upd_conv_take_nth_drop)
qed

lemma length_filter_update_same:
  assumes "i < length ts" and "P (ts ! i) = P t"
  shows "length (filter P (ts[i := t])) = length (filter P ts)"
proof -
  have "length (filter P (xs @ ts ! i # ys)) = length (filter P (xs @ t # ys))" for xs ys
    using assms(2) by simp
  from this [of "take i ts" "drop (Suc i) ts"] show ?thesis
    using assms(1) by (metis id_take_nth_drop upd_conv_take_nth_drop)
qed

lemma task_update_counts:
  assumes "i < length ts" and "snd (ts ! i) = Generating"
  shows "generating ts = Suc (generating (ts[i := (x, Finished)]))" "failed (ts[i := (x, Finished)]) = failed ts"
    "generating ts = Suc (generating (ts[i := (x, Failed)]))" "failed (ts[i := (x, Failed)]) = Suc (failed ts)"
proof -
  show "generating ts = Suc (generating (ts[i := (x, Finished)]))" "generating ts = Suc (generating (ts[i := (x, Failed)]))"
    unfolding generating_def using assms by (intro length_filter_update; simp)+
  show "failed (ts[i := (x, Finished)]) = failed ts"
    unfolding failed_def using assms by (intro length_filter_update_same; simp)
  have "length (filter (\<lambda>t. \<not> snd t = Failed) ts) = Suc (length (filter (\<lambda>t. \<not> snd t = Failed) (ts[i := (x, Failed)])))"
    using assms by (intro length_filter_update; simp)
  moreover have "length (filter P us) + length (filter (\<lambda>t. \<not> P t) us) = length us" for P and us :: "('a \<times> task_status) list"
    by (rule sum_length_filter_compl)
  from this [of "\<lambda>t. snd t = Failed" ts] this [of "\<lambda>t. snd t = Failed" "ts[i := (x, Failed)]"]
  have "length (filter (\<lambda>t. snd t = Failed) ts) + length (filter (\<lambda>t. \<not> snd t = Failed) ts)
      = length (filter (\<lambda>t. snd t = Failed) (ts[i := (x, Failed)])) + length (filter (\<lambda>t. \<not> snd t = Failed) (ts[i := (x, Failed)]))"
    by simp
  ultimately show "failed (ts[i := (x, Failed)]) = Suc (failed ts)" unfolding failed_def by linarith
qed

lemma filter_select:
  assumes "\<forall>i<length ts. P (ts ! i) \<longrightarrow> Q i"
  shows "filter P (select ts (filter Q [0..<length ts])) = filter P ts"
proof -
  have "filter P (select ts (filter Q [0..<length ts])) = map (nth ts) (filter (\<lambda>i. P (ts ! i)) (filter Q [0..<length ts]))"
    by (simp add: select_def filter_map comp_def)
  also have "filter (\<lambda>i. P (ts ! i)) (filter Q [0..<length ts]) = filter (\<lambda>i. P (ts ! i)) [0..<length ts]"
    using assms by (auto intro!: filter_cong)
  also have "map (nth ts) \<dots> = filter P (map (nth ts) [0..<length ts])" by (simp add: filter_map comp_def)
  finally show ?thesis by (simp add: map_nth)
qed

definition finished_positions :: "nat list \<Rightarrow> ('a \<times> task_status) list \<Rightarrow> bool" where
  "finished_positions ps ts \<longleftrightarrow> (\<forall>i\<in>set ps. i < length ts \<and> snd (ts ! i) \<noteq> Generating)"

lemma reap_counts:
  assumes "finished_positions ps (active_tasks w)" and "\<not> crashed (reap ps q w)" and "\<not> crashed w"
  shows "generating (active_tasks (reap ps q w)) = generating (active_tasks w)"
    "failed (active_tasks (reap ps q w)) = failed (active_tasks w)"
    "length (active_tasks (reap ps q w)) \<le> length (active_tasks w)"
proof -
  let ?keep = "select (active_tasks w) (filter (\<lambda>i. i \<notin> set ps) [0..<length (active_tasks w)])"
  have ok: "\<not> (\<exists>i\<in>set ps. snd (active_tasks w ! i) = Failed)"
    using assms(2) by (auto simp: reap_def Let_def split: if_splits)
  have keep: "active_tasks (reap ps q w) = ?keep" by (simp add: reap_def Let_def)
  show "generating (active_tasks (reap ps q w)) = generating (active_tasks w)"
    unfolding keep generating_def using assms(1)
    by (intro arg_cong [where f = length] filter_select) (auto simp: finished_positions_def)
  show "failed (active_tasks (reap ps q w)) = failed (active_tasks w)"
    unfolding keep failed_def using ok by (intro arg_cong [where f = length] filter_select) auto
  show "length (active_tasks (reap ps q w)) \<le> length (active_tasks w)"
    unfolding keep by (metis length_filter_le length_select length_upt minus_nat.diff_0)
qed

lemma reap_frame:
  "\<not> crashed (reap ps q w) \<Longrightarrow> \<exists>ts. reap ps q w = w\<lparr>active_tasks := ts, phase := q\<rparr>"
  by (auto simp: reap_def Let_def split: if_splits)

lemma done_positions_finished: "finished_positions (done_positions w) (active_tasks w)"
  by (auto simp: finished_positions_def done_positions_def)

section \<open>Samples in flight\<close>

definition queued :: "'a async_state \<Rightarrow> nat" where
  "queued w = length (queue (message_queue w))"

definition dropped :: "'a async_state \<Rightarrow> nat" where
  "dropped w = dropped_samples (message_queue w)"

definition outstanding :: "'a async_state \<Rightarrow> nat" where
  "outstanding w = generating (active_tasks w) + queued w + in_hand w"

text \<open>The shape of a reachable state.\<close>

definition async_wf :: "async_config \<Rightarrow> 'a async_state \<Rightarrow> bool" where
  "async_wf cfg w \<longleftrightarrow>
     max_queue_size (message_queue w) = max_required_samples cfg \<and> queued w \<le> max_required_samples cfg
     \<and> running (message_queue w) \<and> length (active_tasks w) \<le> max_concurrent_samples cfg
     \<and> (\<forall>ps. phase w = Reaping ps \<longrightarrow> finished_positions ps (active_tasks w))
     \<and> (\<forall>n. resetting w = Some n \<longrightarrow> generating (active_tasks w) \<le> n \<and> n \<le> max_concurrent_samples cfg)
     \<and> (phase w = Ended \<or> phase w = Stopped \<longrightarrow> active_tasks w = []) \<and> phase w \<noteq> Crashed"

text \<open>What the counters know: the samples in flight exceed the staleness count by at most the samples that
  resets did not see and that were not dropped, and by at most one. A sample is fetched only below the
  bound.\<close>

definition balance :: "nat \<Rightarrow> nat \<Rightarrow> nat \<Rightarrow> nat \<Rightarrow> nat \<Rightarrow> bool \<Rightarrow> bool \<Rightarrow> bool" where
  "balance bound out drops stale misses live tight \<longleftrightarrow>
     drops \<le> misses
     \<and> (live \<longrightarrow> out + drops \<le> stale + misses \<and> out \<le> stale + 1)
     \<and> out + drops \<le> bound + misses \<and> out \<le> bound + 1
     \<and> (tight \<longrightarrow> out + drops + 1 \<le> bound + misses \<and> out \<le> bound)"

definition tight_phase :: "'a proc_phase \<Rightarrow> bool" where
  "tight_phase ph \<longleftrightarrow> (case ph of Fetching \<Rightarrow> True | Ending \<Rightarrow> True | EndingWait \<Rightarrow> True | Ended \<Rightarrow> True | _ \<Rightarrow> False)"

definition counts_ok :: "async_config \<Rightarrow> 'a async_state \<Rightarrow> bool" where
  "counts_ok cfg w \<longleftrightarrow>
     balance (max_required_samples cfg) (outstanding w) (dropped w) (staleness_samples w) (missed w)
       (phase w \<noteq> Stopped) (tight_phase (phase w))"

definition async_inv :: "async_config \<Rightarrow> 'a async_state \<Rightarrow> bool" where
  "async_inv cfg w \<longleftrightarrow> (\<not> crashed w \<longrightarrow> async_wf cfg w \<and> counts_ok cfg w)"

lemma async_invI:
  assumes "async_inv cfg w" and "\<not> crashed w' \<Longrightarrow> \<not> crashed w"
    and "\<not> crashed w' \<Longrightarrow> async_wf cfg w \<Longrightarrow> counts_ok cfg w \<Longrightarrow> async_wf cfg w'"
    and "\<not> crashed w' \<Longrightarrow> async_wf cfg w \<Longrightarrow> counts_ok cfg w \<Longrightarrow> counts_ok cfg w'"
  shows "async_inv cfg w'"
  using assms unfolding async_inv_def by blast

lemmas count_defs = counts_ok_def outstanding_def queued_def dropped_def in_hand_def tight_phase_def

lemma async_inv_init: "async_inv cfg (async_init cfg)"
  by (simp add: async_inv_def async_wf_def count_defs balance_def async_init_def)

text \<open>Steps that change the phase only.\<close>

lemma inv_phase:
  assumes "async_inv cfg w" and "in_hand (w\<lparr>phase := ph\<rparr>) = in_hand w"
    and "ph \<noteq> Stopped" and "ph \<noteq> Crashed" and "ph = Ended \<Longrightarrow> active_tasks w = []"
    and "\<And>ps. ph = Reaping ps \<Longrightarrow> finished_positions ps (active_tasks w)"
    and "tight_phase ph \<Longrightarrow> tight_phase (phase w) \<or> staleness_samples w < max_required_samples cfg"
    and "phase w \<noteq> Stopped"
  shows "async_inv cfg (w\<lparr>phase := ph\<rparr>)"
proof (rule async_invI [OF assms(1)])
  assume "async_wf cfg w"
  then show "async_wf cfg (w\<lparr>phase := ph\<rparr>)" using assms(3-6) by (simp add: async_wf_def queued_def)
next
  assume c: "counts_ok cfg w"
  have "outstanding (w\<lparr>phase := ph\<rparr>) = outstanding w" using assms(2) by (simp add: outstanding_def queued_def)
  then show "counts_ok cfg (w\<lparr>phase := ph\<rparr>)"
    using c assms(3,7,8) by (auto simp: counts_ok_def dropped_def balance_def)
qed simp

lemma inv_check: "async_inv cfg w \<Longrightarrow> proc_check w = Some w' \<Longrightarrow> async_inv cfg w'"
  by (auto simp: proc_check_def in_hand_def tight_phase_def split: proc_phase.splits if_splits intro!: inv_phase)

lemma inv_decide: "async_inv cfg w \<Longrightarrow> proc_decide cfg w = Some w' \<Longrightarrow> async_inv cfg w'"
  by (auto simp: proc_decide_def in_hand_def tight_phase_def should_pause_def split: proc_phase.splits if_splits intro!: inv_phase)

lemma inv_wake: "async_inv cfg w \<Longrightarrow> proc_wake w = Some w' \<Longrightarrow> async_inv cfg w'"
  by (auto simp: proc_wake_def in_hand_def tight_phase_def done_positions_finished split: if_splits intro!: inv_phase)

lemma inv_resume: "async_inv cfg w \<Longrightarrow> proc_resume w = Some w' \<Longrightarrow> async_inv cfg w'"
  by (auto simp: proc_resume_def in_hand_def tight_phase_def split: if_splits intro!: inv_phase)

lemma inv_wait: "async_inv cfg w \<Longrightarrow> proc_wait cfg w = Some w' \<Longrightarrow> async_inv cfg w'"
  by (auto simp: proc_wait_def in_hand_def tight_phase_def split: if_splits proc_phase.splits intro!: inv_phase)

lemma inv_finish: "async_inv cfg w \<Longrightarrow> proc_finish w = Some w' \<Longrightarrow> async_inv cfg w'"
  by (auto simp: proc_finish_def in_hand_def tight_phase_def split: if_splits intro!: inv_phase)

text \<open>Steps that the invariant does not see.\<close>

lemma inv_same:
  assumes "async_inv cfg w" and "active_tasks w' = active_tasks w" and "message_queue w' = message_queue w"
    and "phase w' = phase w" and "staleness_samples w' = staleness_samples w" and "missed w' = missed w"
    and "crashed w' = crashed w" and "resetting w' = resetting w"
  shows "async_inv cfg w'"
  using assms by (simp add: async_inv_def async_wf_def count_defs)

lemma inv_pause: "async_inv cfg w \<Longrightarrow> proc_pause w = Some w' \<Longrightarrow> async_inv cfg w'"
  by (auto simp: proc_pause_def in_hand_def tight_phase_def split: if_splits intro!: inv_phase elim: inv_same)

lemma inv_monitor:
  "async_inv cfg w \<Longrightarrow> monitor_check cfg w = Some w' \<Longrightarrow> async_inv cfg w'"
  "async_inv cfg w \<Longrightarrow> monitor_resume w = Some w' \<Longrightarrow> async_inv cfg w'"
  by (auto simp: monitor_check_def monitor_resume_def split: if_splits elim: inv_same)

lemma inv_trainer_step: "async_inv cfg w \<Longrightarrow> trainer_step cfg w = Some w' \<Longrightarrow> async_inv cfg w'"
  by (auto simp: trainer_step_def update_local_step_def Let_def split: if_splits elim: inv_same)

text \<open>Fetching, submitting and removing tasks.\<close>

lemma inv_fetch: "async_inv cfg w \<Longrightarrow> proc_fetch w = Some w' \<Longrightarrow> async_inv cfg w'"
proof -
  assume inv: "async_inv cfg w" and step: "proc_fetch w = Some w'"
  obtain item rest where ph: "phase w = Fetching"
      and w': "w' = w\<lparr>pending_queue := rest, staleness_samples := staleness_samples w + 1,
                  phase := (case item of Some x \<Rightarrow> Holding x | None \<Rightarrow> Ending)\<rparr>"
    using step by (auto simp: proc_fetch_def split: proc_phase.splits list.splits)
  show ?thesis
  proof (rule async_invI [OF inv])
    assume "async_wf cfg w"
    then show "async_wf cfg w'" by (cases item) (simp_all add: w' async_wf_def queued_def)
  next
    assume c: "counts_ok cfg w"
    have "outstanding w' = outstanding w + (case item of Some x \<Rightarrow> 1 | None \<Rightarrow> 0)"
      by (cases item) (simp_all add: w' ph outstanding_def queued_def in_hand_def)
    then show "counts_ok cfg w'"
      using c by (cases item) (auto simp: counts_ok_def tight_phase_def ph w' dropped_def balance_def)
  qed (simp add: w')
qed

lemma inv_submit: "async_inv cfg w \<Longrightarrow> proc_submit cfg w = Some w' \<Longrightarrow> async_inv cfg w'"
proof -
  assume inv: "async_inv cfg w" and step: "proc_submit cfg w = Some w'"
  obtain x where ph: "phase w = Holding x" and lock: "resetting w = None" and len: "length (active_tasks w) < max_concurrent_samples cfg"
      and w': "w' = w\<lparr>active_tasks := active_tasks w @ [(x, Generating)], phase := LoopTop\<rparr>"
    using step by (auto simp: proc_submit_def lock_free_def split: proc_phase.splits if_splits)
  show ?thesis
  proof (rule async_invI [OF inv])
    assume "async_wf cfg w"
    then show "async_wf cfg w'" using lock len by (simp add: w' async_wf_def queued_def)
  next
    assume c: "counts_ok cfg w"
    have "outstanding w' = outstanding w" by (simp add: w' ph outstanding_def queued_def in_hand_def)
    then show "counts_ok cfg w'" using c by (simp add: counts_ok_def tight_phase_def ph w' dropped_def balance_def)
  qed (simp add: w')
qed

lemma inv_reap_tasks:
  assumes inv: "async_inv cfg w" and fin: "finished_positions ps (active_tasks w)"
    and "in_hand (w\<lparr>phase := q\<rparr>) = in_hand w" and "tight_phase q \<Longrightarrow> tight_phase (phase w)"
    and "phase w \<noteq> Stopped" and "q \<noteq> Stopped" and "q \<noteq> Ended" and "\<And>ps. q \<noteq> Reaping ps" and "q \<noteq> Crashed"
  shows "async_inv cfg (reap ps q w)"
proof (rule async_invI [OF inv])
  assume nc: "\<not> crashed (reap ps q w)"
  then obtain ts where r: "reap ps q w = w\<lparr>active_tasks := ts, phase := q\<rparr>" using reap_frame by blast
  show nc': "\<not> crashed w" using nc by (simp add: r)
  note counts = reap_counts [OF fin nc nc', unfolded r]
  {
    assume "async_wf cfg w"
    then show "async_wf cfg (reap ps q w)" using counts assms(6-9) by (auto simp: r async_wf_def queued_def)
  next
    assume c: "counts_ok cfg w"
    have "outstanding (reap ps q w) = outstanding w"
      using counts(1) assms(3) by (simp add: r outstanding_def queued_def in_hand_def)
    then show "counts_ok cfg (reap ps q w)"
      using c assms(4-6) by (auto simp: counts_ok_def r dropped_def balance_def)
  }
qed

lemma inv_reap: "async_inv cfg w \<Longrightarrow> proc_reap w = Some w' \<Longrightarrow> async_inv cfg w'"
proof -
  assume inv: "async_inv cfg w" and step: "proc_reap w = Some w'"
  show ?thesis
  proof (cases "crashed w")
    case True
    have "crashed (reap ps q w)" for ps q using True by (simp add: reap_def Let_def)
    then show ?thesis using step by (auto simp: proc_reap_def async_inv_def split: proc_phase.splits if_splits)
  next
    case False
    then have "phase w = Reaping ps \<Longrightarrow> finished_positions ps (active_tasks w)" for ps
      using inv by (simp add: async_inv_def async_wf_def)
    then show ?thesis
      using inv step
      by (auto simp: proc_reap_def done_positions_finished in_hand_def tight_phase_def split: proc_phase.splits if_splits
          intro!: inv_reap_tasks)
  qed
qed

text \<open>Putting samples.\<close>

lemma put_sample_bounded:
  assumes "put_sample x q = Inr (q', ok)" and "length (queue q) \<le> max_queue_size q"
  shows "max_queue_size q' = max_queue_size q \<and> running q' = running q \<and> length (queue q') \<le> max_queue_size q
    \<and> length (queue q') + dropped_samples q' = length (queue q) + dropped_samples q + 1
    \<and> (dropped_samples q' = dropped_samples q \<or> dropped_samples q' = dropped_samples q + 1 \<and> length (queue q) = max_queue_size q)"
proof (cases "max_queue_size q = 0")
  case True
  then show ?thesis using assms by (simp add: put_sample_zero)
next
  case False
  then show ?thesis
    using assms put_sample_result [of q x] by (cases "queue q") (auto split: if_splits)
qed

lemma inv_task_done: "async_inv cfg w \<Longrightarrow> task_done i w = Some w' \<Longrightarrow> async_inv cfg w'"
proof -
  assume inv: "async_inv cfg w" and step: "task_done i w = Some w'"
  define x where "x = fst (active_tasks w ! i)"
  obtain q ok where i: "i < length (active_tasks w)" "snd (active_tasks w ! i) = Generating"
      and put: "put_sample (Some x) (message_queue w) = Inr (q, ok)"
      and w': "w' = w\<lparr>message_queue := q, active_tasks := (active_tasks w)[i := (x, Finished)],
                        total_generated_samples := total_generated_samples w + of_bool ok,
                        dropped_stale_samples := dropped_stale_samples w + of_bool (\<not> ok),
                        processed_sample_count := processed_sample_count w + 1\<rparr>"
    using step by (auto simp: task_done_def Let_def x_def split: if_splits sum.splits)
  note gen = task_update_counts(1) [OF i, of x]
  show ?thesis
  proof (rule async_invI [OF inv])
    assume wf: "async_wf cfg w"
    then have q: "length (queue (message_queue w)) \<le> max_queue_size (message_queue w)"
      and M: "max_queue_size (message_queue w) = max_required_samples cfg" by (simp_all add: async_wf_def queued_def)
    note bounds = put_sample_bounded [OF put q, unfolded M]
    have ph: "phase w \<noteq> Stopped" "phase w \<noteq> Ended" using wf i by (auto simp: async_wf_def)
    have fin: "finished_positions ps (active_tasks w) \<Longrightarrow> finished_positions ps ((active_tasks w)[i := (x, Finished)])" for ps
      using i by (auto simp: finished_positions_def nth_list_update)
    have reset: "generating ((active_tasks w)[i := (x, Finished)]) \<le> n" if "generating (active_tasks w) \<le> n" for n
      using gen that by simp
    show "async_wf cfg w'"
      using wf bounds ph fin reset by (simp add: w' async_wf_def queued_def)
    assume c: "counts_ok cfg w"
    have "outstanding w' + dropped w' = outstanding w + dropped w" "dropped w' = dropped w \<or>
        dropped w' = dropped w + 1 \<and> max_required_samples cfg + 1 \<le> outstanding w"
      using gen bounds by (auto simp: outstanding_def queued_def dropped_def in_hand_def w')
    then show "counts_ok cfg w'" using c ph by (auto simp: counts_ok_def balance_def w')
  qed (simp add: w')
qed

lemma inv_task_fail: "async_inv cfg w \<Longrightarrow> task_fail i w = Some w' \<Longrightarrow> async_inv cfg w'"
proof -
  assume inv: "async_inv cfg w" and step: "task_fail i w = Some w'"
  define x where "x = fst (active_tasks w ! i)"
  have i: "i < length (active_tasks w)" "snd (active_tasks w ! i) = Generating"
      and w': "w' = w\<lparr>active_tasks := (active_tasks w)[i := (x, Failed)]\<rparr>"
    using step by (auto simp: task_fail_def x_def split: if_splits)
  note gen = task_update_counts(3) [OF i, of x]
  show ?thesis
  proof (rule async_invI [OF inv])
    assume wf: "async_wf cfg w"
    have fin: "finished_positions ps (active_tasks w) \<Longrightarrow> finished_positions ps ((active_tasks w)[i := (x, Failed)])" for ps
      using i by (auto simp: finished_positions_def nth_list_update)
    show "async_wf cfg w'" using wf fin gen by (auto simp: w' async_wf_def queued_def)
    assume c: "counts_ok cfg w"
    have "outstanding w' \<le> outstanding w" "dropped w' = dropped w"
      using gen by (auto simp: outstanding_def queued_def dropped_def in_hand_def w')
    then show "counts_ok cfg w'" using c by (auto simp: counts_ok_def balance_def w')
  qed (simp add: w')
qed

lemma inv_end_signal: "async_inv cfg w \<Longrightarrow> end_signal w = Some w' \<Longrightarrow> async_inv cfg w'"
proof -
  assume inv: "async_inv cfg w" and step: "end_signal w = Some w'"
  obtain q ok where put: "put_sample None (message_queue w) = Inr (q, ok)" and ph: "phase w = Ended \<or> phase w = Crashed"
      and w': "w' = w\<lparr>message_queue := q, phase := Stopped\<rparr>"
    using step by (auto simp: end_signal_def split: if_splits sum.splits)
  show ?thesis
  proof (rule async_invI [OF inv])
    assume wf: "async_wf cfg w"
    then have q: "length (queue (message_queue w)) \<le> max_queue_size (message_queue w)"
      and M: "max_queue_size (message_queue w) = max_required_samples cfg" by (simp_all add: async_wf_def queued_def)
    note bounds = put_sample_bounded [OF put q, unfolded M]
    have ended: "phase w = Ended" "active_tasks w = []" using ph wf by (auto simp: async_wf_def)
    then show "async_wf cfg w'" using wf bounds by (simp add: w' async_wf_def queued_def)
    assume c: "counts_ok cfg w"
    have "outstanding w' + dropped w' = outstanding w + dropped w + 1"
        "dropped w' = dropped w \<or> dropped w' = dropped w + 1 \<and> max_required_samples cfg \<le> outstanding w"
      using bounds ended by (auto simp: outstanding_def queued_def dropped_def in_hand_def w')
    then show "counts_ok cfg w'"
      using c ended by (auto simp: counts_ok_def balance_def tight_phase_def w')
  qed (simp add: w')
qed

lemma inv_trainer_get: "async_inv cfg w \<Longrightarrow> trainer_get cfg w = Some w' \<Longrightarrow> async_inv cfg w'"
proof -
  assume inv: "async_inv cfg w" and step: "trainer_get cfg w = Some w'"
  obtain item n q where get: "get_sample_once (message_queue w) = (GotSample item n, q)"
      and w': "w' = (case item of Some x \<Rightarrow> w\<lparr>message_queue := q, queue_samples := queue_samples w @ [x], since_reset := since_reset w + 1\<rparr>
                   | None \<Rightarrow> w\<lparr>message_queue := q, trainer_stopped := True\<rparr>)"
    using step by (auto simp: trainer_get_def split: if_splits prod.splits get_outcome.splits option.splits)
  obtain rest where rest: "queue (message_queue w) = item # rest"
      "q = message_queue w\<lparr>queue := rest, total_consumed := total_consumed (message_queue w) + 1\<rparr>"
    using get by (auto simp: get_outcome_cases)
  show ?thesis
  proof (rule async_invI [OF inv])
    assume wf: "async_wf cfg w"
    then show "async_wf cfg w'" using rest by (cases item) (auto simp: w' async_wf_def queued_def)
    assume c: "counts_ok cfg w"
    have "outstanding w = Suc (outstanding w')" "dropped w' = dropped w" "phase w' = phase w" "missed w' = missed w"
        "staleness_samples w' = staleness_samples w"
      using rest by (cases item; simp add: outstanding_def queued_def dropped_def in_hand_def w')+
    then show "counts_ok cfg w'" using c by (auto simp: counts_ok_def balance_def)
  qed (cases item, simp_all add: w')
qed

text \<open>Resetting.\<close>

lemma inv_reset_begin: "async_inv cfg w \<Longrightarrow> reset_begin w = Some w' \<Longrightarrow> async_inv cfg w'"
proof -
  assume inv: "async_inv cfg w" and step: "reset_begin w = Some w'"
  have w': "w' = w\<lparr>paused := False, resume_event := True, resetting := Some (length (active_tasks w))\<rparr>"
    using step by (auto simp: reset_begin_def split: if_splits)
  show ?thesis
    by (rule async_invI [OF inv])
      (simp_all add: w' async_wf_def counts_ok_def outstanding_def queued_def dropped_def in_hand_def generating_le)
qed

lemma inv_reset_end: "async_inv cfg w \<Longrightarrow> reset_end w = Some w' \<Longrightarrow> async_inv cfg w'"
proof -
  assume inv: "async_inv cfg w" and step: "reset_end w = Some w'"
  obtain n where n: "resetting w = Some n"
      and w': "w' = w\<lparr>staleness_samples := n + get_queue_size (message_queue w), resetting := None, must_sync := False,
                          since_reset := 0, missed := missed w + in_hand w\<rparr>"
    using step by (auto simp: reset_end_def split: option.splits)
  show ?thesis
  proof (rule async_invI [OF inv])
    assume wf: "async_wf cfg w"
    then show "async_wf cfg w'" by (simp add: w' async_wf_def queued_def)
    assume c: "counts_ok cfg w"
    have "generating (active_tasks w) \<le> n" using wf n by (simp add: async_wf_def)
    moreover have "in_hand w \<le> 1" "in_hand w = 0 \<or> phase w \<noteq> Stopped"
      by (simp_all add: in_hand_def split: proc_phase.split)
    ultimately show "counts_ok cfg w'"
      using c by (auto simp: counts_ok_def balance_def outstanding_def queued_def dropped_def w' get_queue_size_def in_hand_def
          split: proc_phase.splits)
  qed (simp add: w')
qed

lemma inv_feed: "async_inv cfg w \<Longrightarrow> async_exec cfg (Feed item) w = Some w' \<Longrightarrow> async_inv cfg w'"
  by (auto split: if_splits elim: inv_same)

lemma async_inv_step:
  assumes inv: "async_inv cfg w" and step: "async_exec cfg e w = Some w'"
  shows "async_inv cfg w'"
proof (cases e)
  case (Feed item)
  then show ?thesis using inv_feed [OF inv] step by blast
next
  case ProcCheck
  then show ?thesis using step inv_check [OF inv] by simp
next
  case ProcDecide
  then show ?thesis using step inv_decide [OF inv] by simp
next
  case ProcPause
  then show ?thesis using step inv_pause [OF inv] by simp
next
  case ProcWake
  then show ?thesis using step inv_wake [OF inv] by simp
next
  case ProcReap
  then show ?thesis using step inv_reap [OF inv] by simp
next
  case ProcResume
  then show ?thesis using step inv_resume [OF inv] by simp
next
  case ProcFetch
  then show ?thesis using step inv_fetch [OF inv] by simp
next
  case ProcWait
  then show ?thesis using step inv_wait [OF inv] by simp
next
  case ProcSubmit
  then show ?thesis using step inv_submit [OF inv] by simp
next
  case ProcFinish
  then show ?thesis using step inv_finish [OF inv] by simp
next
  case EndSignal
  then show ?thesis using step inv_end_signal [OF inv] by simp
next
  case (TaskDone i)
  then show ?thesis using step inv_task_done [OF inv] by simp
next
  case (TaskFail i)
  then show ?thesis using step inv_task_fail [OF inv] by simp
next
  case ResetBegin
  then show ?thesis using step inv_reset_begin [OF inv] by simp
next
  case ResetEnd
  then show ?thesis using step inv_reset_end [OF inv] by simp
next
  case MonitorCheck
  then show ?thesis using step inv_monitor(1) [OF inv] by simp
next
  case MonitorResume
  then show ?thesis using step inv_monitor(2) [OF inv] by simp
next
  case TrainerGet
  then show ?thesis using step inv_trainer_get [OF inv] by simp
next
  case TrainerStep
  then show ?thesis using step inv_trainer_step [OF inv] by simp
qed

lemma async_inv_reachable: "async_reachable cfg w \<Longrightarrow> async_inv cfg w"
  by (induction rule: async_reachable.induct) (auto intro: async_inv_init async_inv_step)

section \<open>How far the staleness count overestimates\<close>

text \<open>The trainer's counters: the samples consumed since the last reset.\<close>

definition sync_period :: "async_config \<Rightarrow> nat" where
  "sync_period cfg = max 1 (trigger_parameter_sync_step cfg)"

definition trainer_inv :: "async_config \<Rightarrow> 'a async_state \<Rightarrow> bool" where
  "trainer_inv cfg w \<longleftrightarrow>
     1 \<le> local_trigger_step w \<and> local_trigger_step w \<le> sync_period cfg
     \<and> length (queue_samples w) \<le> required_samples cfg
     \<and> (\<not> must_sync w \<longrightarrow> since_reset w = (local_trigger_step w - 1) * required_samples cfg + length (queue_samples w))
     \<and> (must_sync w \<longrightarrow> local_trigger_step w = 1 \<and> queue_samples w = [])
     \<and> (resetting w \<noteq> None \<longrightarrow> must_sync w)"

definition same_trainer :: "'a async_state \<Rightarrow> 'a async_state \<Rightarrow> bool" where
  "same_trainer w w' \<longleftrightarrow>
     local_trigger_step w' = local_trigger_step w \<and> queue_samples w' = queue_samples w \<and> must_sync w' = must_sync w
     \<and> since_reset w' = since_reset w \<and> (resetting w' \<noteq> None \<longrightarrow> resetting w \<noteq> None)"

lemma trainer_inv_same: "same_trainer w w' \<Longrightarrow> trainer_inv cfg w \<Longrightarrow> trainer_inv cfg w'"
  by (simp add: trainer_inv_def same_trainer_def)

text \<open>The count exceeds the samples in flight, failed, dropped or consumed since the last reset by at most
  the tasks that the reset may have counted twice, those in the set of active tasks; the end of the input
  is counted as one.\<close>

definition end_credit :: "'a proc_phase \<Rightarrow> nat" where
  "end_credit ph = (case ph of Ending \<Rightarrow> 1 | EndingWait \<Rightarrow> 1 | Ended \<Rightarrow> 1 | _ \<Rightarrow> 0)"

definition stale_bounded :: "async_config \<Rightarrow> 'a async_state \<Rightarrow> bool" where
  "stale_bounded cfg w \<longleftrightarrow>
     (\<not> crashed w \<and> phase w \<noteq> Stopped \<longrightarrow> None \<notin> set (queue (message_queue w))
        \<and> staleness_samples w \<le> outstanding w + failed (active_tasks w) + since_reset w + dropped w
            + max_concurrent_samples cfg + end_credit (phase w))"

definition stall_inv :: "async_config \<Rightarrow> 'a async_state \<Rightarrow> bool" where
  "stall_inv cfg w \<longleftrightarrow> trainer_inv cfg w \<and> stale_bounded cfg w"

lemma stall_init: "stall_inv cfg (async_init cfg)"
  by (simp add: stall_inv_def trainer_inv_def stale_bounded_def async_init_def sync_period_def)

lemma stall_phase:
  assumes "stall_inv cfg w" and "in_hand (w\<lparr>phase := ph\<rparr>) = in_hand w" and "end_credit (phase w) \<le> end_credit ph" and "phase w \<noteq> Stopped"
  shows "stall_inv cfg (w\<lparr>phase := ph\<rparr>)"
  using assms by (auto simp: stall_inv_def trainer_inv_def stale_bounded_def outstanding_def queued_def dropped_def)

lemma stall_same:
  assumes "stall_inv cfg w" and "same_trainer w w'" and "active_tasks w' = active_tasks w" and "message_queue w' = message_queue w"
    and "phase w' = phase w" and "staleness_samples w' = staleness_samples w" and "crashed w' = crashed w"
  shows "stall_inv cfg w'"
  using assms trainer_inv_same [OF assms(2)]
  by (simp add: stall_inv_def stale_bounded_def outstanding_def queued_def dropped_def in_hand_def same_trainer_def)

lemmas stall_phase_simps = in_hand_def end_credit_def

lemma stall_check: "stall_inv cfg w \<Longrightarrow> proc_check w = Some w' \<Longrightarrow> stall_inv cfg w'"
  by (auto simp: proc_check_def stall_phase_simps split: proc_phase.splits if_splits intro!: stall_phase)

lemma stall_decide: "stall_inv cfg w \<Longrightarrow> proc_decide cfg w = Some w' \<Longrightarrow> stall_inv cfg w'"
  by (auto simp: proc_decide_def stall_phase_simps split: proc_phase.splits if_splits intro!: stall_phase)

lemma stall_wake: "stall_inv cfg w \<Longrightarrow> proc_wake w = Some w' \<Longrightarrow> stall_inv cfg w'"
  by (auto simp: proc_wake_def stall_phase_simps split: proc_phase.splits if_splits intro!: stall_phase)

lemma stall_resume: "stall_inv cfg w \<Longrightarrow> proc_resume w = Some w' \<Longrightarrow> stall_inv cfg w'"
  by (auto simp: proc_resume_def stall_phase_simps split: proc_phase.splits if_splits intro!: stall_phase)

lemma stall_wait: "stall_inv cfg w \<Longrightarrow> proc_wait cfg w = Some w' \<Longrightarrow> stall_inv cfg w'"
  by (auto simp: proc_wait_def stall_phase_simps split: proc_phase.splits if_splits intro!: stall_phase)

lemma stall_finish: "stall_inv cfg w \<Longrightarrow> proc_finish w = Some w' \<Longrightarrow> stall_inv cfg w'"
  by (auto simp: proc_finish_def stall_phase_simps split: proc_phase.splits if_splits intro!: stall_phase)

lemma stall_pause: "stall_inv cfg w \<Longrightarrow> proc_pause w = Some w' \<Longrightarrow> stall_inv cfg w'"
  by (auto simp: proc_pause_def stall_phase_simps same_trainer_def split: proc_phase.splits if_splits intro!: stall_phase elim: stall_same)

lemma stall_monitor:
  "stall_inv cfg w \<Longrightarrow> monitor_check cfg w = Some w' \<Longrightarrow> stall_inv cfg w'"
  "stall_inv cfg w \<Longrightarrow> monitor_resume w = Some w' \<Longrightarrow> stall_inv cfg w'"
  by (auto simp: monitor_check_def monitor_resume_def same_trainer_def split: if_splits elim: stall_same)

lemma stall_feed: "stall_inv cfg w \<Longrightarrow> async_exec cfg (Feed item) w = Some w' \<Longrightarrow> stall_inv cfg w'"
  by (auto simp: same_trainer_def split: if_splits elim: stall_same)

lemma stall_invI:
  assumes "stall_inv cfg w" and "same_trainer w w'" and "\<not> crashed w' \<Longrightarrow> \<not> crashed w \<and> phase w \<noteq> Stopped"
    and "\<not> crashed w' \<Longrightarrow> set (queue (message_queue w')) \<subseteq> insert (Some x) (set (queue (message_queue w)))"
    and "\<not> crashed w' \<Longrightarrow> phase w' \<noteq> Stopped \<Longrightarrow>
      staleness_samples w' + outstanding w + failed (active_tasks w) + dropped w + end_credit (phase w)
        \<le> staleness_samples w + outstanding w' + failed (active_tasks w') + dropped w' + end_credit (phase w')"
  shows "stall_inv cfg w'"
proof -
  have "since_reset w' = since_reset w" using assms(2) by (simp add: same_trainer_def)
  then show ?thesis
    using assms trainer_inv_same [OF assms(2)] unfolding stall_inv_def stale_bounded_def by fastforce
qed

lemma stall_fetch: "stall_inv cfg w \<Longrightarrow> proc_fetch w = Some w' \<Longrightarrow> stall_inv cfg w'"
proof -
  assume inv: "stall_inv cfg w" and step: "proc_fetch w = Some w'"
  obtain item rest where ph: "phase w = Fetching"
      and w': "w' = w\<lparr>pending_queue := rest, staleness_samples := staleness_samples w + 1,
                  phase := (case item of Some x \<Rightarrow> Holding x | None \<Rightarrow> Ending)\<rparr>"
    using step by (auto simp: proc_fetch_def split: proc_phase.splits list.splits)
  show ?thesis
    by (rule stall_invI [OF inv], cases item)
      (auto simp: w' ph same_trainer_def outstanding_def queued_def dropped_def in_hand_def end_credit_def split: option.split)
qed

lemma stall_submit: "stall_inv cfg w \<Longrightarrow> proc_submit cfg w = Some w' \<Longrightarrow> stall_inv cfg w'"
proof -
  assume inv: "stall_inv cfg w" and step: "proc_submit cfg w = Some w'"
  obtain x where ph: "phase w = Holding x"
      and w': "w' = w\<lparr>active_tasks := active_tasks w @ [(x, Generating)], phase := LoopTop\<rparr>"
    using step by (auto simp: proc_submit_def lock_free_def split: proc_phase.splits if_splits)
  show ?thesis
    by (rule stall_invI [OF inv])
      (auto simp: w' ph same_trainer_def outstanding_def queued_def dropped_def in_hand_def end_credit_def)
qed

lemma stall_reap_tasks:
  assumes inv: "stall_inv cfg w" and fin: "finished_positions ps (active_tasks w)"
    and "in_hand (w\<lparr>phase := q\<rparr>) = in_hand w" and "end_credit (phase w) \<le> end_credit q" and "phase w \<noteq> Stopped"
  shows "stall_inv cfg (reap ps q w)"
proof (cases "crashed (reap ps q w)")
  case True
  have "same_trainer w (reap ps q w)" by (simp add: same_trainer_def reap_def Let_def)
  then show ?thesis using inv trainer_inv_same True by (auto simp: stall_inv_def stale_bounded_def)
next
  case False
  then obtain ts where r: "reap ps q w = w\<lparr>active_tasks := ts, phase := q\<rparr>" using reap_frame by blast
  have nc: "\<not> crashed w" using False by (simp add: r)
  note counts = reap_counts [OF fin False nc, unfolded r]
  show ?thesis
    by (rule stall_invI [OF inv])
      (use counts assms(3-5) nc in \<open>auto simp: r same_trainer_def outstanding_def queued_def dropped_def in_hand_def\<close>)
qed

lemma stall_reap: "async_inv cfg w \<Longrightarrow> stall_inv cfg w \<Longrightarrow> proc_reap w = Some w' \<Longrightarrow> stall_inv cfg w'"
proof -
  assume inv: "stall_inv cfg w" and step: "proc_reap w = Some w'" and ainv: "async_inv cfg w"
  show ?thesis
  proof (cases "crashed w")
    case True
    have "crashed (reap ps q w)" "same_trainer w (reap ps q w)" for ps q
      using True by (simp_all add: reap_def Let_def same_trainer_def)
    moreover from this(2) have "trainer_inv cfg (reap ps q w)" for ps q
      using inv by (intro trainer_inv_same [of w "reap ps q w"]) (simp_all add: stall_inv_def)
    ultimately have "stall_inv cfg (reap ps q w)" for ps q
      by (simp add: stall_inv_def stale_bounded_def)
    then show ?thesis using step by (auto simp: proc_reap_def split: proc_phase.splits if_splits)
  next
    case False
    then have "phase w = Reaping ps \<Longrightarrow> finished_positions ps (active_tasks w)" for ps
      using ainv by (simp add: async_inv_def async_wf_def)
    then show ?thesis
      using inv step
      by (auto simp: proc_reap_def done_positions_finished stall_phase_simps split: proc_phase.splits if_splits
          intro!: stall_reap_tasks)
  qed
qed

lemma put_sample_queue:
  "put_sample x q = Inr (q', ok) \<Longrightarrow> length (queue q) \<le> max_queue_size q \<Longrightarrow> set (queue q') \<subseteq> insert x (set (queue q))"
  using put_sample_result [of q x] put_sample_zero [of q x]
  by (cases "max_queue_size q = 0"; cases "queue q") (auto split: if_splits)

lemma stall_task_done: "async_inv cfg w \<Longrightarrow> stall_inv cfg w \<Longrightarrow> task_done i w = Some w' \<Longrightarrow> stall_inv cfg w'"
proof -
  assume ainv: "async_inv cfg w" and inv: "stall_inv cfg w" and step: "task_done i w = Some w'"
  define x where "x = fst (active_tasks w ! i)"
  obtain q ok where i: "i < length (active_tasks w)" "snd (active_tasks w ! i) = Generating"
      and put: "put_sample (Some x) (message_queue w) = Inr (q, ok)"
      and w': "w' = w\<lparr>message_queue := q, active_tasks := (active_tasks w)[i := (x, Finished)],
                        total_generated_samples := total_generated_samples w + of_bool ok,
                        dropped_stale_samples := dropped_stale_samples w + of_bool (\<not> ok),
                        processed_sample_count := processed_sample_count w + 1\<rparr>"
    using step by (auto simp: task_done_def Let_def x_def split: if_splits sum.splits)
  note counts = task_update_counts(1,2) [OF i, of x]
  have wf: "\<not> crashed w \<Longrightarrow> async_wf cfg w" using ainv by (simp add: async_inv_def)
  have q: "\<not> crashed w \<Longrightarrow> length (queue (message_queue w)) \<le> max_queue_size (message_queue w)"
    using wf by (simp add: async_wf_def queued_def)
  have ph: "\<not> crashed w \<Longrightarrow> phase w \<noteq> Stopped" using wf i by (auto simp: async_wf_def)
  show ?thesis
  proof (rule stall_invI [OF inv])
    show "same_trainer w w'" by (simp add: w' same_trainer_def)
    show "\<not> crashed w' \<Longrightarrow> \<not> crashed w \<and> phase w \<noteq> Stopped" using ph by (simp add: w')
    show "\<not> crashed w' \<Longrightarrow> set (queue (message_queue w')) \<subseteq> insert (Some x) (set (queue (message_queue w)))"
      using put_sample_queue [OF put q] by (simp add: w')
    assume "\<not> crashed w'"
    then show "staleness_samples w' + outstanding w + failed (active_tasks w) + dropped w + end_credit (phase w)
        \<le> staleness_samples w + outstanding w' + failed (active_tasks w') + dropped w' + end_credit (phase w')"
      using put_sample_bounded [OF put q] counts by (auto simp: w' outstanding_def queued_def dropped_def in_hand_def)
  qed
qed

lemma stall_task_fail: "async_inv cfg w \<Longrightarrow> stall_inv cfg w \<Longrightarrow> task_fail i w = Some w' \<Longrightarrow> stall_inv cfg w'"
proof -
  assume ainv: "async_inv cfg w" and inv: "stall_inv cfg w" and step: "task_fail i w = Some w'"
  define x where "x = fst (active_tasks w ! i)"
  have i: "i < length (active_tasks w)" "snd (active_tasks w ! i) = Generating"
      and w': "w' = w\<lparr>active_tasks := (active_tasks w)[i := (x, Failed)]\<rparr>"
    using step by (auto simp: task_fail_def x_def split: if_splits)
  note counts = task_update_counts(3,4) [OF i, of x]
  have "\<not> crashed w \<Longrightarrow> phase w \<noteq> Stopped" using ainv i by (auto simp: async_inv_def async_wf_def)
  then show ?thesis
    by (intro stall_invI [OF inv]) (use counts in \<open>auto simp: w' same_trainer_def outstanding_def queued_def dropped_def in_hand_def\<close>)
qed

lemma stall_end_signal: "stall_inv cfg w \<Longrightarrow> end_signal w = Some w' \<Longrightarrow> stall_inv cfg w'"
  using trainer_inv_same [of w w' cfg]
  by (auto simp: end_signal_def stall_inv_def stale_bounded_def same_trainer_def split: if_splits sum.splits)

lemma stall_trainer_get: "stall_inv cfg w \<Longrightarrow> trainer_get cfg w = Some w' \<Longrightarrow> stall_inv cfg w'"
proof -
  assume inv: "stall_inv cfg w" and step: "trainer_get cfg w = Some w'"
  obtain item n q where get: "get_sample_once (message_queue w) = (GotSample item n, q)"
      and en: "\<not> must_sync w" "length (queue_samples w) < required_samples cfg"
      and w': "w' = (case item of Some x \<Rightarrow> w\<lparr>message_queue := q, queue_samples := queue_samples w @ [x], since_reset := since_reset w + 1\<rparr>
                   | None \<Rightarrow> w\<lparr>message_queue := q, trainer_stopped := True\<rparr>)"
    using step by (auto simp: trainer_get_def split: if_splits prod.splits get_outcome.splits option.splits)
  obtain rest where rest: "queue (message_queue w) = item # rest"
      "q = message_queue w\<lparr>queue := rest, total_consumed := total_consumed (message_queue w) + 1\<rparr>"
    using get by (auto simp: get_outcome_cases)
  have "trainer_inv cfg w'"
    using inv en by (cases item) (auto simp: stall_inv_def trainer_inv_def w')
  moreover have "stale_bounded cfg w'"
    using inv rest by (cases item) (auto simp: stall_inv_def stale_bounded_def w' outstanding_def queued_def dropped_def in_hand_def)
  ultimately show ?thesis by (simp add: stall_inv_def)
qed

lemma stall_trainer_step: "stall_inv cfg w \<Longrightarrow> trainer_step cfg w = Some w' \<Longrightarrow> stall_inv cfg w'"
proof -
  assume inv: "stall_inv cfg w" and step: "trainer_step cfg w = Some w'"
  have en: "\<not> must_sync w" "length (queue_samples w) = required_samples cfg"
      and w': "w' = (update_local_step cfg w)\<lparr>queue_samples := [], must_sync := (local_trigger_step (update_local_step cfg w) = 1)\<rparr>"
    using step by (auto simp: trainer_step_def Let_def split: if_splits)
  have t: "trainer_inv cfg w" using inv by (simp add: stall_inv_def)
  have "since_reset w = local_trigger_step w * required_samples cfg"
    using t en by (cases "local_trigger_step w") (auto simp: trainer_inv_def)
  then have "trainer_inv cfg w'"
    using t en by (auto simp: trainer_inv_def w' update_local_step_def sync_period_def)
  moreover have "stale_bounded cfg w'"
    using inv by (auto simp: stall_inv_def stale_bounded_def w' update_local_step_def outstanding_def queued_def dropped_def in_hand_def)
  ultimately show ?thesis by (simp add: stall_inv_def)
qed

lemma stall_reset_begin: "stall_inv cfg w \<Longrightarrow> reset_begin w = Some w' \<Longrightarrow> stall_inv cfg w'"
  by (auto simp: reset_begin_def stall_inv_def trainer_inv_def stale_bounded_def outstanding_def queued_def dropped_def in_hand_def
      split: if_splits)

lemma stall_reset_end: "async_inv cfg w \<Longrightarrow> stall_inv cfg w \<Longrightarrow> reset_end w = Some w' \<Longrightarrow> stall_inv cfg w'"
proof -
  assume ainv: "async_inv cfg w" and inv: "stall_inv cfg w" and step: "reset_end w = Some w'"
  obtain n where n: "resetting w = Some n"
      and w': "w' = w\<lparr>staleness_samples := n + get_queue_size (message_queue w), resetting := None, must_sync := False,
                          since_reset := 0, missed := missed w + in_hand w\<rparr>"
    using step by (auto simp: reset_end_def split: option.splits)
  have "trainer_inv cfg w'" using inv n by (auto simp: stall_inv_def trainer_inv_def w')
  moreover have "stale_bounded cfg w'"
    using inv ainv n
    by (auto simp: stall_inv_def stale_bounded_def async_inv_def async_wf_def w' get_queue_size_def outstanding_def queued_def)
  ultimately show ?thesis by (simp add: stall_inv_def)
qed

lemma stall_inv_step:
  assumes ainv: "async_inv cfg w" and inv: "stall_inv cfg w" and step: "async_exec cfg e w = Some w'"
  shows "stall_inv cfg w'"
proof (cases e)
  case (Feed item)
  then show ?thesis using step stall_feed [OF inv] by blast
next
  case ProcCheck
  then show ?thesis using step stall_check [OF inv] by simp
next
  case ProcDecide
  then show ?thesis using step stall_decide [OF inv] by simp
next
  case ProcPause
  then show ?thesis using step stall_pause [OF inv] by simp
next
  case ProcWake
  then show ?thesis using step stall_wake [OF inv] by simp
next
  case ProcReap
  then show ?thesis using step stall_reap [OF ainv inv] by simp
next
  case ProcResume
  then show ?thesis using step stall_resume [OF inv] by simp
next
  case ProcFetch
  then show ?thesis using step stall_fetch [OF inv] by simp
next
  case ProcWait
  then show ?thesis using step stall_wait [OF inv] by simp
next
  case ProcSubmit
  then show ?thesis using step stall_submit [OF inv] by simp
next
  case ProcFinish
  then show ?thesis using step stall_finish [OF inv] by simp
next
  case EndSignal
  then show ?thesis using step stall_end_signal [OF inv] by simp
next
  case (TaskDone i)
  then show ?thesis using step stall_task_done [OF ainv inv] by simp
next
  case (TaskFail i)
  then show ?thesis using step stall_task_fail [OF ainv inv] by simp
next
  case ResetBegin
  then show ?thesis using step stall_reset_begin [OF inv] by simp
next
  case ResetEnd
  then show ?thesis using step stall_reset_end [OF ainv inv] by simp
next
  case MonitorCheck
  then show ?thesis using step stall_monitor(1) [OF inv] by simp
next
  case MonitorResume
  then show ?thesis using step stall_monitor(2) [OF inv] by simp
next
  case TrainerGet
  then show ?thesis using step stall_trainer_get [OF inv] by simp
next
  case TrainerStep
  then show ?thesis using step stall_trainer_step [OF inv] by simp
qed

lemma stall_inv_reachable: "async_reachable cfg w \<Longrightarrow> stall_inv cfg w"
proof (induction rule: async_reachable.induct)
  case init
  then show ?case by (rule stall_init)
next
  case (step w e w')
  then show ?case using stall_inv_step [OF async_inv_reachable] by blast
qed

section \<open>Stalling\<close>

text \<open>Paused for good: the processor is blocked until somebody resumes it, nothing is in flight, the
  monitor sees the staleness bound reached, and the trainer waits for samples that it does not have
  enough of.\<close>

definition stalled :: "async_config \<Rightarrow> 'a async_state \<Rightarrow> bool" where
  "stalled cfg w \<longleftrightarrow>
     phase w = Draining \<and> \<not> resume_event w \<and> \<not> monitor_ready w \<and> resetting w = None \<and> active_tasks w = []
     \<and> queue (message_queue w) = [] \<and> running (message_queue w) \<and> max_required_samples cfg \<le> staleness_samples w
     \<and> \<not> must_sync w \<and> \<not> trainer_stopped w \<and> length (queue_samples w) < required_samples cfg"

text \<open>A stalled pipeline stays stalled, only its input can grow.\<close>

lemma stalled_step:
  assumes "stalled cfg w" and "async_exec cfg e w = Some w'"
  shows "(\<exists>item. e = Feed item) \<and> stalled cfg w'"
proof (cases e)
  case (Feed item)
  then show ?thesis using assms by (auto simp: stalled_def split: if_splits)
qed (use assms in \<open>auto simp: stalled_def proc_check_def proc_decide_def proc_pause_def proc_wake_def proc_reap_def proc_resume_def
      proc_fetch_def proc_wait_def proc_submit_def proc_finish_def end_signal_def task_done_def task_fail_def reset_begin_def
      reset_end_def monitor_check_def monitor_resume_def should_pause_def trainer_get_def trainer_step_def get_sample_once_def
      done_positions_def split: if_splits\<close>)

lemma stalled_run: "stalled cfg w \<Longrightarrow> async_run cfg es w = Some w' \<Longrightarrow> stalled cfg w'"
proof (induction es arbitrary: w)
  case (Cons e es)
  then obtain w1 where w1: "async_exec cfg e w = Some w1" "async_run cfg es w1 = Some w'" by (auto split: option.splits)
  have "stalled cfg w1" using stalled_step [OF Cons.prems(1) w1(1)] by blast
  then show ?case using w1(2) by (rule Cons.IH)
qed simp

lemma run_reachable: "async_reachable cfg w \<Longrightarrow> async_run cfg es w = Some w' \<Longrightarrow> async_reachable cfg w'"
proof (induction es arbitrary: w)
  case (Cons e es)
  then obtain w1 where w1: "async_exec cfg e w = Some w1" "async_run cfg es w1 = Some w'" by (auto split: option.splits)
  then show ?case using Cons.IH [OF async_reachable.step [OF Cons.prems(1) w1(1)]] by blast
qed simp

section \<open>Demonstration runs\<close>

definition demo_async :: async_config where
  "demo_async = \<lparr>required_samples = 2, staleness_threshold = 1, trigger_parameter_sync_step = 1, num_replicas = 1\<rparr>"

lemma demo_bounds: "max_required_samples demo_async = 4" "max_concurrent_samples demo_async = 4"
proof -
  show "max_required_samples demo_async = 4" by (simp add: max_required_samples_def demo_async_def)
  then show "max_concurrent_samples demo_async = 4" by (simp add: max_concurrent_samples_def) (simp add: demo_async_def)
qed

lemma demo_fields: "required_samples demo_async = 2" "trigger_parameter_sync_step demo_async = 1"
  by (simp_all add: demo_async_def)

definition submit_one :: "nat async_event list" where
  "submit_one = [ProcCheck, ProcDecide, ProcFetch, ProcSubmit]"

lemmas exec_defs = proc_check_def proc_decide_def proc_pause_def proc_wake_def proc_reap_def proc_resume_def proc_fetch_def
  proc_wait_def proc_submit_def proc_finish_def task_done_def reset_begin_def reset_end_def should_pause_def trainer_get_def
  trainer_step_def update_local_step_def get_sample_once_def done_positions_def reap_def lock_free_def in_hand_def
  get_queue_size_def put_sample_def deque_append_def select_def demo_bounds demo_fields

text \<open>A run with a slow input: six samples are generated while the processor waits for the seventh, the
  trainer takes four and updates the parameters, and the reset counts the six finished tasks.\<close>

definition slow_async :: async_config where
  "slow_async = \<lparr>required_samples = 4, staleness_threshold = 1, trigger_parameter_sync_step = 1, num_replicas = 1\<rparr>"

lemma slow_bounds: "max_required_samples slow_async = 8" "max_concurrent_samples slow_async = 8"
proof -
  show "max_required_samples slow_async = 8" by (simp add: max_required_samples_def slow_async_def)
  then show "max_concurrent_samples slow_async = 8" by (simp add: max_concurrent_samples_def) (simp add: slow_async_def)
qed

lemma slow_fields: "required_samples slow_async = 4" "trigger_parameter_sync_step slow_async = 1"
  by (simp_all add: slow_async_def)

definition stalling_run :: "nat async_event list" where
  "stalling_run = concat (map (\<lambda>i. Feed (Some i) # submit_one) [1, 2, 3, 4, 5, 6])
     @ [ProcCheck, ProcDecide, TaskDone 0, TaskDone 1, TaskDone 2, TaskDone 3, TaskDone 4, TaskDone 5,
        TrainerGet, TrainerGet, TrainerGet, TrainerGet, TrainerStep, ResetBegin, ResetEnd,
        Feed (Some 7), Feed (Some 8), ProcFetch, ProcSubmit, ProcCheck, ProcDecide, ProcPause, TaskDone 6, ProcWake, ProcReap,
        TrainerGet, TrainerGet, TrainerGet]"

lemma stalling_run_result:
  "\<exists>w. async_run slow_async stalling_run (async_init slow_async) = Some w \<and> stalled slow_async w \<and> \<not> crashed w
     \<and> pending_queue w = [Some 8] \<and> queue_samples w = [5, 6, 7]"
  by (simp add: stalling_run_def submit_one_def async_init_def exec_defs slow_bounds slow_fields stalled_def)

text \<open>A run in which a parameter update comes while the processor has a sample in hand: later, one sample
  more than the queue holds is in flight, and the oldest is dropped.\<close>

definition dropping_run :: "nat async_event list" where
  "dropping_run = map (\<lambda>i. Feed (Some i)) [1, 2, 3, 4, 5, 6, 7, 8, 9]
     @ submit_one @ submit_one @ submit_one @ submit_one
     @ [ProcCheck, ProcDecide, ProcPause, TaskDone 0, TaskDone 1, TaskDone 2, TaskDone 3, ProcWake, ProcReap,
        TrainerGet, TrainerGet, TrainerStep, ResetBegin, ResetEnd, ProcResume] @ submit_one
     @ [ProcCheck, ProcDecide, ProcFetch, TrainerGet, TrainerGet, TrainerStep, ResetBegin, ResetEnd, ProcSubmit]
     @ submit_one @ submit_one
     @ [ProcCheck, ProcDecide, ProcFetch, ProcWait, TaskDone 0, ProcReap, ProcSubmit,
        TaskDone 0, TaskDone 1, TaskDone 2, TaskDone 3]"

lemma dropping_run_result:
  "\<exists>w. async_run demo_async dropping_run (async_init demo_async) = Some w \<and> \<not> crashed w \<and> dropped w = 1 \<and> missed w = 1
     \<and> dropped_stale_samples w = 1"
  by (simp add: dropping_run_def submit_one_def async_init_def exec_defs dropped_def)

section \<open>Collecting a batch\<close>

lemma collect_samples_step:
  "length acc < n \<Longrightarrow> queue q = Some x # rest \<Longrightarrow>
   collect_samples n acc q = collect_samples n (acc @ [x]) (q\<lparr>queue := rest, total_consumed := total_consumed q + 1\<rparr>)"
  by (subst collect_samples.simps) (simp add: get_sample_once_def)

lemma collect_samples_prefix:
  assumes "queue q = map Some xs @ rest" and "length acc + length xs \<le> n"
  shows "\<exists>q'. collect_samples n acc q = collect_samples n (acc @ xs) q' \<and> queue q' = rest \<and> running q' = running q"
  using assms
proof (induction xs arbitrary: acc q)
  case (Cons x xs)
  then have "collect_samples n acc q = collect_samples n (acc @ [x]) (q\<lparr>queue := map Some xs @ rest, total_consumed := total_consumed q + 1\<rparr>)"
    by (intro collect_samples_step) auto
  with Cons.IH [of "q\<lparr>queue := map Some xs @ rest, total_consumed := total_consumed q + 1\<rparr>" "acc @ [x]"] Cons.prems
  show ?case by auto
qed auto

lemma collect_samples_stop:
  "fst (collect_samples (length xs) xs q) = Batch xs"
  "length xs < n \<Longrightarrow> queue q = [] \<Longrightarrow> running q \<Longrightarrow> fst (collect_samples n xs q) = BlockedWith xs"
  "length xs < n \<Longrightarrow> queue q = [] \<Longrightarrow> \<not> running q \<Longrightarrow> fst (collect_samples n xs q) = CollectError TypeError"
  "length xs < n \<Longrightarrow> queue q = None # rest \<Longrightarrow> fst (collect_samples n xs q) = Terminated xs"
  by (subst collect_samples.simps, simp add: get_sample_once_def)+

section \<open>Properties\<close>

text \<open>C2: The samples in flight are bounded by the staleness limit: in every state that the pipeline can
  reach without a failed generation, the samples being generated, in the processor's hand and in the
  queue are at most \<open>max_required_samples + 1\<close>, the active tasks at most \<open>max_concurrent_samples\<close>, the
  queue within its size, and at most as many samples were dropped as parameter updates came while the
  processor had a sample in hand; without such an update no sample is ever dropped.\<close>

theorem async_pipeline_bounded:
  assumes "async_reachable cfg w" and "\<not> crashed w"
  shows "outstanding w \<le> max_required_samples cfg + 1
    \<and> length (active_tasks w) \<le> max_concurrent_samples cfg
    \<and> length (queue (message_queue w)) \<le> max_required_samples cfg
    \<and> dropped_samples (message_queue w) \<le> missed w"
  using async_inv_reachable [OF assms(1)] assms(2)
  by (simp add: async_inv_def async_wf_def counts_ok_def balance_def queued_def dropped_def)

theorem async_pipeline_bounded_witness:
  "\<exists>w. async_reachable demo_async (w :: nat async_state) \<and> dropped_samples (message_queue w) = 1 \<and> 1 \<le> missed w
     \<and> outstanding w \<le> 5"
proof -
  obtain w where run: "async_run demo_async dropping_run (async_init demo_async) = Some w" "\<not> crashed w" "dropped w = 1"
    using dropping_run_result by blast
  have r: "async_reachable demo_async w" by (rule run_reachable [OF async_reachable.init run(1)])
  from async_pipeline_bounded [OF r run(2)] r run(3) show ?thesis by (auto simp: dropped_def demo_bounds)
qed

text \<open>The pipeline can stall for ever: finished tasks stay in the set of active tasks until the processor
  drains it, and \<open>reset_staleness\<close> counts them as samples in flight. There is a reachable state, without
  any failure, in which the input has more samples and the trainer waits for one, and from which nothing
  but a growing input can happen.\<close>

theorem pipeline_can_stall:
  "\<exists>w. async_reachable slow_async (w :: nat async_state) \<and> \<not> crashed w \<and> pending_queue w \<noteq> []
     \<and> length (queue_samples w) + 1 = required_samples slow_async
     \<and> {w'. \<exists>es. async_run slow_async es w = Some w'} \<subseteq> {w'. stalled slow_async w' \<and> active_tasks w' = []}"
proof -
  obtain w where run: "async_run slow_async stalling_run (async_init slow_async) = Some w" "stalled slow_async w" "\<not> crashed w"
      "pending_queue w = [Some 8]" "queue_samples w = [5, 6, 7]"
    using stalling_run_result by blast
  have "async_reachable slow_async w" by (rule run_reachable [OF async_reachable.init run(1)])
  moreover have "stalled slow_async w'" if "async_run slow_async es w = Some w'" for es w'
    by (rule stalled_run [OF run(2) that])
  ultimately show ?thesis using run(3-5) by (auto simp: slow_fields stalled_def)
qed

text \<open>C6: It cannot stall when there is room for the tasks that may be counted twice: if the staleness limit
  is at least the samples of one parameter update plus the concurrency limit, then no state reachable
  without a failure and without a drop is stalled.\<close>

theorem pipeline_does_not_stall:
  assumes "async_reachable cfg w" and "\<not> crashed w" and "dropped_samples (message_queue w) = 0"
    and "max_concurrent_samples cfg + required_samples cfg * max 1 (trigger_parameter_sync_step cfg) \<le> max_required_samples cfg"
  shows "\<not> stalled cfg w"
proof
  assume st: "stalled cfg w"
  have inv: "trainer_inv cfg w" "stale_bounded cfg w"
    using stall_inv_reachable [OF assms(1)] by (auto simp: stall_inv_def)
  have "staleness_samples w \<le> since_reset w + max_concurrent_samples cfg"
    using inv(2) st assms(2,3)
    by (simp add: stale_bounded_def stalled_def outstanding_def queued_def dropped_def in_hand_def end_credit_def)
  moreover have "since_reset w < required_samples cfg * sync_period cfg"
  proof -
    have "since_reset w < (local_trigger_step w - 1) * required_samples cfg + required_samples cfg"
      using inv(1) st by (simp add: trainer_inv_def stalled_def)
    also have "\<dots> = local_trigger_step w * required_samples cfg"
      using inv(1) by (cases "local_trigger_step w") (auto simp: trainer_inv_def)
    also have "\<dots> \<le> sync_period cfg * required_samples cfg" using inv(1) by (simp add: trainer_inv_def)
    finally show ?thesis by (simp add: mult.commute)
  qed
  ultimately show False using st assms(4) by (simp add: stalled_def sync_period_def)
qed

definition roomy_async :: async_config where
  "roomy_async = \<lparr>required_samples = 32, staleness_threshold = 1, trigger_parameter_sync_step = 1, num_replicas = 1\<rparr>"

theorem pipeline_does_not_stall_witness:
  "\<exists>w. async_run roomy_async [Feed (Some 1), ProcCheck, ProcDecide, ProcFetch, ProcSubmit, TaskDone 0, TrainerGet] (async_init roomy_async)
     = Some (w :: nat async_state) \<and> queue_samples w = [1] \<and> \<not> stalled roomy_async w"
proof -
  have b: "max_required_samples roomy_async = 64" by (simp add: max_required_samples_def roomy_async_def)
  then have c: "max_concurrent_samples roomy_async = 16" by (simp add: max_concurrent_samples_def) (simp add: roomy_async_def)
  have f: "required_samples roomy_async = 32" "trigger_parameter_sync_step roomy_async = 1" by (simp_all add: roomy_async_def)
  let ?es = "[Feed (Some 1), ProcCheck, ProcDecide, ProcFetch, ProcSubmit, TaskDone 0, TrainerGet]"
  obtain w :: "nat async_state" where run: "async_run roomy_async ?es (async_init roomy_async) = Some w" "\<not> crashed w"
      "dropped_samples (message_queue w) = 0" "queue_samples w = [1]"
    by (simp add: async_init_def exec_defs b c f)
  have r: "async_reachable roomy_async w" by (rule run_reachable [OF async_reachable.init run(1)])
  from pipeline_does_not_stall [OF r run(2,3)] b c f run show ?thesis by auto
qed

text \<open>C27: What the producers put, as long as it fits, the trainer collects, in the same order; with fewer
  samples it goes on waiting, the end signal ends the collection, and on a queue that was shut down and
  is empty it fails, for it unpacks the \<open>None\<close> that such a queue returns.\<close>

theorem trainer_collects_in_order:
  assumes "queue q0 = []" and "length xs \<le> max_queue_size q0"
  shows "\<exists>q1. fifo.put_all (map Some xs) q0 = Inr (q1, replicate (length xs) True)
      \<and> fst (collect_samples (length xs) [] q1) = Batch xs
      \<and> fst (collect_samples (length xs + 1) [] (q1\<lparr>running := True\<rparr>)) = BlockedWith xs
      \<and> fst (collect_samples (length xs + 1) [] (q1\<lparr>queue := queue q1 @ [None]\<rparr>)) = Terminated xs
      \<and> fst (collect_samples (length xs + 1) [] (shutdown q1)) = CollectError TypeError"
proof -
  have "length (queue q0) + length (map Some xs) \<le> max_queue_size q0" using assms by simp
  from fifo.put_all_room [OF this] assms(1) obtain q1
    where q1: "fifo.put_all (map Some xs) q0 = Inr (q1, replicate (length xs) True)" "queue q1 = map Some xs" by auto
  have "\<exists>q'. collect_samples n [] q = collect_samples n xs q' \<and> queue q' = rest \<and> running q' = running q"
    if "queue q = map Some xs @ rest" and "length xs \<le> n" for n q rest
    using collect_samples_prefix [of q xs rest "[]" n] that by simp
  from this [of q1 "[]" "length xs"] this [of "q1\<lparr>running := True\<rparr>" "[]" "length xs + 1"]
    this [of "q1\<lparr>queue := queue q1 @ [None]\<rparr>" "[None]" "length xs + 1"] this [of "shutdown q1" "[]" "length xs + 1"] q1
  show ?thesis by (auto simp: collect_samples_stop shutdown_def)
qed

theorem trainer_collects_in_order_witness:
  "\<exists>q0 q1. fifo.put_all (map Some [4, 7]) q0 = Inr (q1, [True, True])
      \<and> fst (collect_samples 2 [] (q1 :: (nat option, unit) mq)) = Batch [4, 7]"
proof -
  let ?q0 = "\<lparr>max_queue_size = 2, queue = [], val_queue = [], running = True, total_produced = 0, total_consumed = 0,
              dropped_samples = 0\<rparr> :: (nat option, unit) mq"
  from trainer_collects_in_order [of ?q0 "[4, 7]"] show ?thesis by (auto simp: numeral_2_eq_2)
qed

end
