(* ===== verification/LoadBalancer.thy ===== *)
theory LoadBalancer
  imports PyObject
begin

text \<open>
  The request routing of \<open>verl/workers/rollout/llm_server.py\<close>: the global load balancer with sticky
  sessions, the client that acquires and releases a server around a generation, and how many replicas
  are launched. The routing cache is \<open>cachetools.LRUCache\<close>, of which only the documented behaviour is
  used; it is a parameter.
\<close>

section \<open>The routing cache\<close>

record 'c cache_ops =
  cache_lookup :: "'c \<Rightarrow> string \<Rightarrow> string option"
  cache_touch :: "'c \<Rightarrow> string \<Rightarrow> 'c"
  cache_insert :: "'c \<Rightarrow> string \<Rightarrow> string \<Rightarrow> 'c"
  cache_delete :: "'c \<Rightarrow> string \<Rightarrow> 'c"

text \<open>Reading an entry (which makes it the most recent) loses none; an inserted entry is there, and the
  others are as before or evicted; a deleted entry is gone.\<close>

locale routing_cache =
  fixes ops :: "'c cache_ops"
  assumes lookup_touch: "cache_lookup ops (cache_touch ops c k) = cache_lookup ops c"
    and lookup_insert: "cache_lookup ops (cache_insert ops c k v) k = Some v"
    and lookup_insert_other: "k' \<noteq> k \<Longrightarrow>
      cache_lookup ops (cache_insert ops c k v) k' = cache_lookup ops c k' \<or> cache_lookup ops (cache_insert ops c k v) k' = None"
    and lookup_delete: "cache_lookup ops (cache_delete ops c k) = (cache_lookup ops c)(k := None)"

section \<open>The balancer\<close>

record ('h, 'c) balancer =
  servers :: "'h pydict"
  inflight_requests :: "nat pydict"
  request_id_to_server :: 'c

definition balancer_new :: "'h pydict \<Rightarrow> 'c \<Rightarrow> ('h, 'c) balancer res" where
  "balancer_new srvs empty_cache =
     rbind (rcheck ValueError (srvs \<noteq> [])) (\<lambda>_.
     Inr \<lparr>servers = srvs, inflight_requests = dict_map (\<lambda>_. 0) srvs, request_id_to_server = empty_cache\<rparr>)"

text \<open>\<open>min(d, key=d.get)\<close>: the first key with the least value.\<close>

fun min_key :: "(string \<times> nat) list \<Rightarrow> (string \<times> nat) option" where
  "min_key [] = None"
| "min_key ((k, n) # d) = (case min_key d of None \<Rightarrow> Some (k, n) | Some (k', n') \<Rightarrow> Some (if n \<le> n' then (k, n) else (k', n')))"

definition bump :: "('h, 'c) balancer \<Rightarrow> string \<Rightarrow> ('h, 'c) balancer" where
  "bump lb sid = lb\<lparr>inflight_requests := dict_set (inflight_requests lb) sid (the (map_of (inflight_requests lb) sid) + 1)\<rparr>"

definition select_new_server :: "'c cache_ops \<Rightarrow> string \<Rightarrow> ('h, 'c) balancer \<Rightarrow> ((string \<times> 'h) \<times> ('h, 'c) balancer) res" where
  "select_new_server ops request_id lb =
     (case min_key (inflight_requests lb) of
        None \<Rightarrow> Inl RuntimeError
      | Some (server_id, _) \<Rightarrow>
          rbind (dict_get (servers lb) server_id) (\<lambda>handle.
          Inr ((server_id, handle),
               bump (lb\<lparr>request_id_to_server := cache_insert ops (request_id_to_server lb) request_id server_id\<rparr>) server_id)))"

text \<open>A session that points to a server that is gone loses its cache entry and gets a new server. If there is none, the
  code has already deleted the entry when it raises; here the error is the whole outcome, and a caller that goes on keeps
  the entry, which the next call for the session would delete in the same way.\<close>

definition acquire_server :: "'c cache_ops \<Rightarrow> string \<Rightarrow> ('h, 'c) balancer \<Rightarrow> ((string \<times> 'h) \<times> ('h, 'c) balancer) res" where
  "acquire_server ops request_id lb =
     (case cache_lookup ops (request_id_to_server lb) request_id of
        None \<Rightarrow> select_new_server ops request_id lb
      | Some server_id \<Rightarrow>
          (let lb1 = lb\<lparr>request_id_to_server := cache_touch ops (request_id_to_server lb) request_id\<rparr> in
           if has_key (inflight_requests lb1) server_id
           then rbind (dict_get (servers lb1) server_id) (\<lambda>handle. Inr ((server_id, handle), bump lb1 server_id))
           else select_new_server ops request_id
                  (lb1\<lparr>request_id_to_server := cache_delete ops (request_id_to_server lb1) request_id\<rparr>)))"

definition release_server :: "string \<Rightarrow> ('h, 'c) balancer \<Rightarrow> ('h, 'c) balancer" where
  "release_server sid lb =
     (case map_of (inflight_requests lb) sid of
        None \<Rightarrow> lb
      | Some n \<Rightarrow> if n > 0 then lb\<lparr>inflight_requests := dict_set (inflight_requests lb) sid (n - 1)\<rparr> else lb)"

definition add_servers :: "'h pydict \<Rightarrow> ('h, 'c) balancer \<Rightarrow> ('h, 'c) balancer" where
  "add_servers srvs lb =
     foldl (\<lambda>lb (sid, handle). lb\<lparr>inflight_requests := dict_set (inflight_requests lb) sid 0,
                                  servers := dict_set (servers lb) sid handle\<rparr>) lb srvs"

definition remove_servers :: "string list \<Rightarrow> ('h, 'c) balancer \<Rightarrow> ('h, 'c) balancer" where
  "remove_servers sids lb =
     foldl (\<lambda>lb sid. lb\<lparr>inflight_requests := dict_del (inflight_requests lb) sid, servers := dict_del (servers lb) sid\<rparr>) lb sids"

definition get_inflight_count :: "string \<Rightarrow> ('h, 'c) balancer \<Rightarrow> nat" where
  "get_inflight_count sid lb = (case map_of (inflight_requests lb) sid of None \<Rightarrow> 0 | Some n \<Rightarrow> n)"

definition get_all_servers :: "('h, 'c) balancer \<Rightarrow> string list" where
  "get_all_servers lb = map fst (inflight_requests lb)"

record balancer_status =
  status_servers :: "nat pydict"
  total_inflight :: nat
  active_servers :: nat
  registered_handles :: "string list"

definition get_status :: "('h, 'c) balancer \<Rightarrow> balancer_status" where
  "get_status lb =
     \<lparr>status_servers = inflight_requests lb, total_inflight = sum_list (map snd (inflight_requests lb)),
      active_servers = length (inflight_requests lb), registered_handles = map fst (servers lb)\<rparr>"

section \<open>The client\<close>

text \<open>\<open>generate\<close>: the server's answer, or its exception, is a parameter; the server is released either way.\<close>

definition client_generate ::
    "'c cache_ops \<Rightarrow> ('h \<Rightarrow> 'out res) \<Rightarrow> string \<Rightarrow> ('h, 'c) balancer \<Rightarrow> 'out res \<times> ('h, 'c) balancer" where
  "client_generate ops call request_id lb =
     (case acquire_server ops request_id lb of
        Inl e \<Rightarrow> (Inl e, lb)
      | Inr ((server_id, handle), lb1) \<Rightarrow> (call handle, release_server server_id lb1))"

section \<open>The number of replicas\<close>

record rollout_sizes =
  tensor_model_parallel_size :: nat
  data_parallel_size :: nat
  pipeline_model_parallel_size :: nat
  n_gpus_per_node :: nat
  nnodes :: nat

text \<open>Prefill and decode replicas of a disaggregated rollout; the decode parallelism defaults to the
  prefill one.\<close>

record disaggregation =
  decode_tensor_model_parallel_size :: "nat option"
  prefill_replicas :: nat
  decode_replicas :: nat

definition rollout_world_size :: "rollout_sizes \<Rightarrow> disaggregation option \<Rightarrow> nat" where
  "rollout_world_size c disagg =
     (case disagg of
        None \<Rightarrow> tensor_model_parallel_size c * data_parallel_size c * pipeline_model_parallel_size c
      | Some d \<Rightarrow>
          (let prefill_tp = tensor_model_parallel_size c;
               decode_tp = (case decode_tensor_model_parallel_size d of Some n \<Rightarrow> n | None \<Rightarrow> prefill_tp)
           in (prefill_tp * prefill_replicas d + decode_tp * decode_replicas d) * data_parallel_size c
              * pipeline_model_parallel_size c))"

definition num_replicas :: "rollout_sizes \<Rightarrow> disaggregation option \<Rightarrow> nat option \<Rightarrow> nat res" where
  "num_replicas c disagg worker_group_size =
     (let world_size = (case worker_group_size of Some n \<Rightarrow> n | None \<Rightarrow> n_gpus_per_node c * nnodes c);
          per_replica = rollout_world_size c disagg in
      rbind (rcheck ZeroDivisionError (per_replica \<noteq> 0)) (\<lambda>_. Inr (world_size div per_replica)))"

definition replica_ranks :: "nat \<Rightarrow> nat \<Rightarrow> nat list" where
  "replica_ranks start_rank n = map (\<lambda>r. start_rank + r) [0..<n]"

section \<open>Hybrid replicas\<close>

text \<open>The replica registry of the fully asynchronous manager: the replicas by resource, those alive with
  their addresses, and the lists of the load balancer's view. A replica is its address and handle.\<close>

record ('h, 'c) server_manager =
  balancer :: "('h, 'c) balancer"
  hybrid_replicas :: "(string \<times> 'h) pydict"
  alive_replicas :: "(string \<times> 'h) pydict"
  alive_addresses :: "string pydict"
  server_addresses :: "string list"
  server_handles :: "'h list"
  rollout_replicas :: "(string \<times> 'h) list"

definition addable :: "('h, 'c) server_manager \<Rightarrow> string list \<Rightarrow> string list" where
  "addable m rids = filter (\<lambda>rid. \<not> has_key (alive_replicas m) rid \<and> has_key (hybrid_replicas m) rid) rids"

definition track_added :: "('h, 'c) server_manager \<Rightarrow> string \<Rightarrow> ('h, 'c) server_manager" where
  "track_added m rid =
     (case map_of (hybrid_replicas m) rid of
        None \<Rightarrow> m
      | Some (addr, handle) \<Rightarrow>
          (let m1 = (if addr \<in> set (server_addresses m) then m
                     else m\<lparr>server_handles := server_handles m @ [handle], server_addresses := server_addresses m @ [addr]\<rparr>);
               m2 = (if (addr, handle) \<in> set (rollout_replicas m1) then m1
                     else m1\<lparr>rollout_replicas := rollout_replicas m1 @ [(addr, handle)]\<rparr>)
           in m2\<lparr>alive_replicas := dict_set (alive_replicas m2) rid (addr, handle),
                 alive_addresses := dict_set (alive_addresses m2) rid addr\<rparr>))"

definition add_replicas :: "string list \<Rightarrow> ('h, 'c) server_manager \<Rightarrow> nat \<times> ('h, 'c) server_manager" where
  "add_replicas rids m =
     (let valid = addable m rids;
          servers_to_add = foldl (\<lambda>d rid. case map_of (hybrid_replicas m) rid of
                                             None \<Rightarrow> d | Some (addr, handle) \<Rightarrow> dict_set d addr handle) [] valid
      in if servers_to_add = [] then (0, m)
         else (length valid, foldl track_added (m\<lparr>balancer := add_servers servers_to_add (balancer m)\<rparr>) valid))"

text \<open>Removing: an exception in the clean-up (a resource given twice) is caught, with what was done so far,
  and zero returned.\<close>

definition remove_nth :: "nat \<Rightarrow> 'a list \<Rightarrow> 'a list" where
  "remove_nth i xs = take i xs @ drop (Suc i) xs"

definition list_index :: "'a list \<Rightarrow> 'a \<Rightarrow> nat" where
  "list_index xs x = length (takeWhile (\<lambda>y. y \<noteq> x) xs)"

definition untrack_removed :: "('h, 'c) server_manager \<Rightarrow> string \<Rightarrow> ('h, 'c) server_manager res" where
  "untrack_removed m rid =
     rbind (dict_get (alive_addresses m) rid) (\<lambda>addr.
     rbind (dict_get (alive_replicas m) rid) (\<lambda>replica.
     (let m1 = (if addr \<in> set (server_addresses m)
                then m\<lparr>server_handles := remove_nth (list_index (server_addresses m) addr) (server_handles m),
                       server_addresses := remove_nth (list_index (server_addresses m) addr) (server_addresses m)\<rparr>
                else m);
          m2 = m1\<lparr>rollout_replicas := remove1 replica (rollout_replicas m1)\<rparr>
      in Inr (m2\<lparr>alive_replicas := dict_del (alive_replicas m2) rid, alive_addresses := dict_del (alive_addresses m2) rid\<rparr>))))"

fun untrack_all :: "string list \<Rightarrow> ('h, 'c) server_manager \<Rightarrow> bool \<times> ('h, 'c) server_manager" where
  "untrack_all [] m = (True, m)"
| "untrack_all (rid # rids) m = (case untrack_removed m rid of Inl e \<Rightarrow> (False, m) | Inr m1 \<Rightarrow> untrack_all rids m1)"

definition remove_replicas :: "string list \<Rightarrow> ('h, 'c) server_manager \<Rightarrow> (nat \<times> ('h, 'c) server_manager) res" where
  "remove_replicas rids m =
     (let valid = filter (\<lambda>rid. has_key (alive_replicas m) rid) rids in
      rbind (rmap (dict_get (alive_addresses m)) valid) (\<lambda>sids.
      if sids = [] then Inr (0, m)
      else (case untrack_all valid (m\<lparr>balancer := remove_servers sids (balancer m)\<rparr>) of
              (True, m1) \<Rightarrow> Inr (length valid, m1)
            | (False, m1) \<Rightarrow> Inr (0, m1))))"

definition get_active_server_count :: "('h, 'c) server_manager \<Rightarrow> nat" where
  "get_active_server_count m = length (rollout_replicas m) + length (alive_replicas m)"

text \<open>Round-robin over the agent-loop workers.\<close>

definition select_best_worker :: "nat \<Rightarrow> nat \<Rightarrow> nat \<times> nat" where
  "select_best_worker num_workers worker_index = (worker_index, (worker_index + 1) mod num_workers)"

section \<open>Resuming an interrupted generation\<close>

record 'r token_output =
  token_ids :: "int list"
  log_probs :: "real list option"
  routed_experts :: "'r list option"
  stop_reason :: "string option"
  num_preempted :: "nat option"
  global_steps :: "nat option"

record 'r resumed =
  all_token_ids :: "int list"
  all_log_probs :: "real list"
  all_routed :: "'r list option"
  all_preempted :: nat
  final_stop_reason :: "string option"
  min_global_steps :: "nat option"
  max_global_steps :: "nat option"

definition resumed_new :: "'r resumed" where
  "resumed_new = \<lparr>all_token_ids = [], all_log_probs = [], all_routed = None, all_preempted = 0,
     final_stop_reason = None, min_global_steps = None, max_global_steps = None\<rparr>"

text \<open>The last \<open>n > 0\<close> rows, \<open>xs[-n:]\<close>.\<close>

definition last_rows :: "nat \<Rightarrow> 'r list \<Rightarrow> 'r list" where
  "last_rows n xs = drop (length xs - n) xs"

definition merge_output :: "'r token_output \<Rightarrow> 'r resumed \<Rightarrow> 'r resumed" where
  "merge_output out f =
     f\<lparr>all_token_ids := all_token_ids f @ token_ids out,
       all_log_probs := all_log_probs f @ (case log_probs out of None \<Rightarrow> [] | Some lps \<Rightarrow> lps),
       all_routed := (case routed_experts out of
                        None \<Rightarrow> all_routed f
                      | Some rows \<Rightarrow> if length (token_ids out) > 0
                          then Some (case all_routed f of None \<Rightarrow> rows | Some old \<Rightarrow> old @ last_rows (length (token_ids out)) rows)
                          else all_routed f),
       all_preempted := all_preempted f + (case num_preempted out of None \<Rightarrow> 0 | Some n \<Rightarrow> n),
       final_stop_reason := stop_reason out,
       min_global_steps := (if min_global_steps f = None then global_steps out else min_global_steps f),
       max_global_steps := global_steps out\<rparr>"

text \<open>The loop over the answers of the server; \<open>None\<close> when it still waits for one. It returns the merged
  output, the calls made (prompt and token limit) and the limit left in \<open>sampling_params\<close>, the caller's
  dictionary.\<close>

fun resume_loop ::
    "bool \<Rightarrow> int list \<Rightarrow> int option \<Rightarrow> 'r resumed \<Rightarrow> 'r token_output list \<Rightarrow> ('r resumed \<times> (int list \<times> int option) list \<times> int option) option" where
  "resume_loop partial prompt max_tokens f [] = None"
| "resume_loop partial prompt max_tokens f (out # outs) =
     (let limit = map_option (\<lambda>m. m - int (length (all_token_ids f))) max_tokens;
          call = (prompt @ all_token_ids f, limit);
          f1 = merge_output out f;
          limit1 = map_option (\<lambda>m. m - int (length (all_token_ids f1))) max_tokens;
          full = (case max_tokens of None \<Rightarrow> False | Some m \<Rightarrow> m \<le> int (length (all_token_ids f1))) in
      if full then Some (f1\<lparr>final_stop_reason := Some ''length''\<rparr>, [call], limit1)
      else if stop_reason out \<notin> {Some ''aborted'', Some ''abort''} \<or> \<not> partial then Some (f1, [call], limit1)
      else (case resume_loop partial prompt max_tokens f1 outs of
              None \<Rightarrow> None
            | Some (r, calls, left) \<Rightarrow> Some (r, call # calls, left)))"

definition resume_generate ::
    "bool \<Rightarrow> int list \<Rightarrow> int option \<Rightarrow> 'r token_output list \<Rightarrow> ('r resumed \<times> (int list \<times> int option) list \<times> int option) option" where
  "resume_generate partial prompt max_tokens outs = resume_loop partial prompt max_tokens resumed_new outs"

end
