(* ===== verification/BalancerLaws.thy ===== *)
theory BalancerLaws
  imports LoadBalancer
begin

text \<open>
  What the request routing keeps: the tables of the load balancer agree, its counters never exceed the
  requests that are being served, a new session goes to the least loaded server and a known one to its
  own; a resumed generation looks to the caller like an uninterrupted one; and activating hybrid replicas
  can be undone.
\<close>

section \<open>Dictionaries\<close>

lemma keys_dict_del: "map fst (dict_del d k) = filter (\<lambda>k'. k' \<noteq> k) (map fst d)"
  by (induction d) (auto simp: dict_del_def)

lemma dict_wf_del: "dict_wf d \<Longrightarrow> dict_wf (dict_del d k)"
  unfolding dict_wf_def keys_dict_del by simp

lemma same_keys_get:
  fixes d :: "'v pydict" and e :: "'w pydict"
  shows "map fst d = map fst e \<Longrightarrow> map_of e k = Some v \<Longrightarrow> \<exists>w. map_of d k = Some w"
  by (metis has_key_def has_key_iff)

lemma dict_del_fresh: "\<not> has_key d k \<Longrightarrow> dict_del d k = d"
  by (induction d) (auto simp: dict_del_def has_key_def)

lemma not_has_key: "\<not> has_key d k \<Longrightarrow> map_of d k = None"
  by (cases "map_of d k") (auto simp: has_key_iff)

lemma filter_keys_disjoint: "S \<inter> set (map fst d) = {} \<Longrightarrow> filter (\<lambda>(k, _). k \<notin> S) d = d"
  by (induction d) auto

section \<open>A concrete routing cache\<close>

text \<open>A least-recently-used cache of a fixed size, oldest entry first.\<close>

definition lru_ops :: "nat \<Rightarrow> string pydict cache_ops" where
  "lru_ops maxsize =
     \<lparr>cache_lookup = map_of,
      cache_touch = (\<lambda>c k. case map_of c k of None \<Rightarrow> c | Some v \<Rightarrow> dict_del c k @ [(k, v)]),
      cache_insert = (\<lambda>c k v. let c1 = dict_del c k in
        (if maxsize \<le> length c1 then dict_del c1 (fst (hd c1)) else c1) @ [(k, v)]),
      cache_delete = dict_del\<rparr>"

interpretation lru: routing_cache "lru_ops maxsize" for maxsize
proof
  show "cache_lookup (lru_ops maxsize) (cache_touch (lru_ops maxsize) c k) = cache_lookup (lru_ops maxsize) c" for c k
    by (auto simp: lru_ops_def map_add_def map_of_dict_del fun_eq_iff split: option.splits)
  show "cache_lookup (lru_ops maxsize) (cache_insert (lru_ops maxsize) c k v) k = Some v" for c k v
    by (auto simp: lru_ops_def map_add_def map_of_dict_del Let_def split: option.splits)
  show "cache_lookup (lru_ops maxsize) (cache_insert (lru_ops maxsize) c k v) k' = cache_lookup (lru_ops maxsize) c k'
      \<or> cache_lookup (lru_ops maxsize) (cache_insert (lru_ops maxsize) c k v) k' = None" if "k' \<noteq> k" for c k v k'
    using that by (auto simp: lru_ops_def map_add_def map_of_dict_del Let_def split: option.splits)
  show "cache_lookup (lru_ops maxsize) (cache_delete (lru_ops maxsize) c k) = (cache_lookup (lru_ops maxsize) c)(k := None)" for c k
    by (auto simp: lru_ops_def map_of_dict_del fun_eq_iff)
qed

section \<open>The tables of the balancer\<close>

definition balancer_wf :: "('h, 'c) balancer \<Rightarrow> bool" where
  "balancer_wf lb \<longleftrightarrow> dict_wf (inflight_requests lb) \<and> map fst (servers lb) = map fst (inflight_requests lb)"

lemma balancer_new_wf: "dict_wf srvs \<Longrightarrow> balancer_new srvs c = Inr lb \<Longrightarrow> balancer_wf lb \<and> (\<forall>sid. get_inflight_count sid lb = 0)"
  by (auto simp: balancer_new_def res_simps balancer_wf_def get_inflight_count_def map_of_dict_map split: option.splits)

lemma bump_wf: "balancer_wf lb \<Longrightarrow> has_key (inflight_requests lb) sid \<Longrightarrow> balancer_wf (bump lb sid)"
  by (auto simp: balancer_wf_def bump_def dict_wf_set keys_dict_set)

lemma bump_count:
  "has_key (inflight_requests lb) sid \<Longrightarrow>
   get_inflight_count s (bump lb sid) = get_inflight_count s lb + (if s = sid then 1 else 0)"
  by (auto simp: get_inflight_count_def bump_def map_of_dict_set has_key_iff)

lemma min_key_None [simp]: "min_key d = None \<longleftrightarrow> d = []"
  by (cases d rule: min_key.cases) (auto split: option.splits prod.splits)

text \<open>The first of the least loaded servers.\<close>

lemma min_key_first_least:
  assumes "min_key d = Some (k, n)"
  shows "\<exists>pre post. d = pre @ (k, n) # post \<and> (\<forall>(k', m) \<in> set pre. n < m) \<and> (\<forall>(k', m) \<in> set post. n \<le> m)"
  using assms
proof (induction d arbitrary: k n)
  case (Cons e d)
  obtain a m where e: "e = (a, m)" by force
  show ?case
  proof (cases "min_key d")
    case None
    with Cons.prems e have "e # d = [] @ (k, n) # []" by auto
    then show ?thesis by fastforce
  next
    case (Some p)
    obtain a' m' where p: "p = (a', m')" by force
    from Cons.IH [OF Some [unfolded p]] obtain pre post
      where d: "d = pre @ (a', m') # post" "\<forall>(k', x) \<in> set pre. m' < x" "\<forall>(k', x) \<in> set post. m' \<le> x" by blast
    show ?thesis
    proof (cases "m \<le> m'")
      case True
      then have "k = a" "n = m" using Cons.prems Some p e by auto
      then have "e # d = [] @ (k, n) # d \<and> (\<forall>(k', m) \<in> set []. n < m) \<and> (\<forall>(k', m) \<in> set d. n \<le> m)"
        using d True e by fastforce
      then show ?thesis by blast
    next
      case False
      then have "k = a'" "n = m'" using Cons.prems Some p e by auto
      then have "e # d = (e # pre) @ (k, n) # post \<and> (\<forall>(k', m) \<in> set (e # pre). n < m) \<and> (\<forall>(k', m) \<in> set post. n \<le> m)"
        using d False e by auto
      then show ?thesis by blast
    qed
  qed
qed simp

text \<open>Choosing a server: the first of the least loaded ones, its counter goes up by one.\<close>

lemma select_new_server_result:
  assumes "balancer_wf lb" and "servers lb \<noteq> []"
  shows "\<exists>sid h. select_new_server ops rid lb
      = Inr ((sid, h), bump (lb\<lparr>request_id_to_server := cache_insert ops (request_id_to_server lb) rid sid\<rparr>) sid)
    \<and> map_of (servers lb) sid = Some h
    \<and> min_key (inflight_requests lb) = Some (sid, get_inflight_count sid lb)"
proof -
  have keys: "map fst (servers lb) = map fst (inflight_requests lb)" and d: "distinct (map fst (inflight_requests lb))"
    using assms(1) by (auto simp: balancer_wf_def dict_wf_def)
  then obtain sid n where m: "min_key (inflight_requests lb) = Some (sid, n)"
    using assms(2) by (cases "min_key (inflight_requests lb)") auto
  then have "(sid, n) \<in> set (inflight_requests lb)" using min_key_first_least [OF m] by auto
  then have n: "map_of (inflight_requests lb) sid = Some n" using d by simp
  with same_keys_get [OF keys] obtain h where "map_of (servers lb) sid = Some h" by blast
  with m n show ?thesis by (auto simp: select_new_server_def dict_get_def get_inflight_count_def)
qed

lemma select_new_server_empty: "balancer_wf lb \<Longrightarrow> servers lb = [] \<Longrightarrow> select_new_server ops rid lb = Inl RuntimeError"
  by (auto simp: select_new_server_def balancer_wf_def)

lemma wf_with_cache [simp]: "balancer_wf (lb\<lparr>request_id_to_server := c\<rparr>) = balancer_wf lb"
  by (simp add: balancer_wf_def)

lemma count_with_cache [simp]: "get_inflight_count sid (lb\<lparr>request_id_to_server := c\<rparr>) = get_inflight_count sid lb"
  by (simp add: get_inflight_count_def)

lemma servers_bump [simp]: "servers (bump lb sid) = servers lb" "request_id_to_server (bump lb sid) = request_id_to_server lb"
  by (simp_all add: bump_def)

text \<open>What every acquisition does, on each of its branches.\<close>

definition acquired :: "('h, 'c) balancer \<Rightarrow> string \<Rightarrow> 'h \<Rightarrow> ('h, 'c) balancer \<Rightarrow> bool" where
  "acquired lb sid h lb' \<longleftrightarrow>
     balancer_wf lb' \<and> servers lb' = servers lb \<and> map_of (servers lb) sid = Some h
     \<and> (\<forall>s. get_inflight_count s lb' = get_inflight_count s lb + (if s = sid then 1 else 0))"

lemma acquired_bump:
  assumes "balancer_wf lb" and "map_of (servers lb) sid = Some h"
  shows "acquired lb sid h (bump (lb\<lparr>request_id_to_server := c\<rparr>) sid)"
proof -
  have "has_key (inflight_requests lb) sid"
    using assms same_keys_get [of "inflight_requests lb" "servers lb" sid h] by (auto simp: balancer_wf_def has_key_iff)
  then have k: "has_key (inflight_requests (lb\<lparr>request_id_to_server := c\<rparr>)) sid" by simp
  then show ?thesis using assms by (simp add: acquired_def bump_wf bump_count [OF k])
qed

lemma select_acquired:
  assumes "balancer_wf lb" and "servers lb \<noteq> []"
  shows "\<exists>sid h lb'. select_new_server ops rid lb = Inr ((sid, h), lb') \<and> acquired lb sid h lb'
    \<and> request_id_to_server lb' = cache_insert ops (request_id_to_server lb) rid sid
    \<and> min_key (inflight_requests lb) = Some (sid, get_inflight_count sid lb)"
  using select_new_server_result [OF assms, of ops rid] assms(1) by (auto intro: acquired_bump)

lemma acquired_with_cache [simp]: "acquired (lb\<lparr>request_id_to_server := c\<rparr>) sid h lb' = acquired lb sid h lb'"
  by (simp add: acquired_def)

lemma acquire_server_result:
  assumes "balancer_wf lb" and "servers lb \<noteq> []"
  shows "\<exists>sid h lb'. acquire_server ops rid lb = Inr ((sid, h), lb') \<and> acquired lb sid h lb'"
proof (cases "cache_lookup ops (request_id_to_server lb) rid")
  case None
  then show ?thesis using select_acquired [OF assms, of ops rid] by (auto simp: acquire_server_def)
next
  case (Some sid)
  let ?c = "cache_touch ops (request_id_to_server lb) rid"
  show ?thesis
  proof (cases "has_key (inflight_requests lb) sid")
    case True
    then obtain h where "map_of (servers lb) sid = Some h"
      using assms(1) same_keys_get [of "servers lb" "inflight_requests lb" sid] by (auto simp: balancer_wf_def has_key_iff)
    with acquired_bump [OF assms(1), of sid h ?c] True Some show ?thesis by (auto simp: acquire_server_def dict_get_def)
  next
    case False
    then show ?thesis
      using select_acquired [of "lb\<lparr>request_id_to_server := cache_delete ops ?c rid\<rparr>" ops rid] assms Some
      by (auto simp: acquire_server_def)
  qed
qed

lemma acquire_server_empty: "balancer_wf lb \<Longrightarrow> servers lb = [] \<Longrightarrow> acquire_server ops rid lb = Inl RuntimeError"
  by (auto simp: acquire_server_def select_new_server_empty balancer_wf_def has_key_def split: option.splits)

lemma release_wf: "balancer_wf lb \<Longrightarrow> balancer_wf (release_server sid lb)"
  by (auto simp: balancer_wf_def release_server_def dict_wf_set keys_dict_set has_key_iff split: option.splits)

lemma release_count: "get_inflight_count s (release_server sid lb) = get_inflight_count s lb - (if s = sid then 1 else 0)"
  by (auto simp: get_inflight_count_def release_server_def map_of_dict_set split: option.splits)

lemma servers_release [simp]: "servers (release_server sid lb) = servers lb"
  by (auto simp: release_server_def split: option.splits)

lemma add_servers_wf: "balancer_wf lb \<Longrightarrow> balancer_wf (add_servers srvs lb)"
  unfolding add_servers_def
proof (induction srvs arbitrary: lb)
  case (Cons s srvs)
  obtain sid h where s: "s = (sid, h)" by force
  have "balancer_wf (lb\<lparr>inflight_requests := dict_set (inflight_requests lb) sid 0, servers := dict_set (servers lb) sid h\<rparr>)"
    using Cons.prems by (auto simp: balancer_wf_def dict_wf_set keys_dict_set has_key_def)
  with Cons.IH s show ?case by simp
qed simp

lemma add_servers_count: "get_inflight_count s (add_servers srvs lb) \<le> get_inflight_count s lb"
  unfolding add_servers_def
proof (induction srvs arbitrary: lb)
  case (Cons e srvs)
  obtain sid h where e: "e = (sid, h)" by force
  let ?lb = "lb\<lparr>inflight_requests := dict_set (inflight_requests lb) sid 0, servers := dict_set (servers lb) sid h\<rparr>"
  have "get_inflight_count s ?lb \<le> get_inflight_count s lb" by (simp add: get_inflight_count_def map_of_dict_set)
  with Cons.IH [of ?lb] e show ?case by simp
qed simp

lemma remove_servers_wf: "balancer_wf lb \<Longrightarrow> balancer_wf (remove_servers sids lb)"
  unfolding remove_servers_def
proof (induction sids arbitrary: lb)
  case (Cons sid sids)
  have "balancer_wf (lb\<lparr>inflight_requests := dict_del (inflight_requests lb) sid, servers := dict_del (servers lb) sid\<rparr>)"
    using Cons.prems by (auto simp: balancer_wf_def dict_wf_del keys_dict_del)
  with Cons.IH show ?case by simp
qed simp

lemma remove_servers_count:
  "get_inflight_count s (remove_servers sids lb) = (if s \<in> set sids then 0 else get_inflight_count s lb)"
  unfolding remove_servers_def
proof (induction sids arbitrary: lb)
  case (Cons sid sids)
  then show ?case by (simp add: get_inflight_count_def map_of_dict_del)
qed simp

section \<open>Runs\<close>

text \<open>The requests being served, by the server they were given; an acquired server is released once.\<close>

datatype 'h lb_event = Acquire string | Release string | AddServers "'h pydict" | RemoveServers "string list"

inductive lb_step :: "'c cache_ops \<Rightarrow> ('h, 'c) balancer \<times> string list \<Rightarrow> 'h lb_event \<Rightarrow> ('h, 'c) balancer \<times> string list \<Rightarrow> bool"
  for ops :: "'c cache_ops" where
  acquire: "acquire_server ops rid lb = Inr ((sid, h), lb') \<Longrightarrow> lb_step ops (lb, out) (Acquire rid) (lb', sid # out)"
| acquire_raises: "acquire_server ops rid lb = Inl e \<Longrightarrow> lb_step ops (lb, out) (Acquire rid) (lb, out)"
| release: "sid \<in> set out \<Longrightarrow> lb_step ops (lb, out) (Release sid) (release_server sid lb, remove1 sid out)"
| add: "lb_step ops (lb, out) (AddServers srvs) (add_servers srvs lb, out)"
| remove: "lb_step ops (lb, out) (RemoveServers sids) (remove_servers sids lb, out)"

fun pool_event :: "'h lb_event \<Rightarrow> bool" where
  "pool_event (AddServers _) = True"
| "pool_event (RemoveServers _) = True"
| "pool_event _ = False"

text \<open>The flag tells whether the pool has changed.\<close>

inductive lb_reachable :: "'c cache_ops \<Rightarrow> 'h pydict \<Rightarrow> 'c \<Rightarrow> ('h, 'c) balancer \<times> string list \<Rightarrow> bool \<Rightarrow> bool"
  for ops :: "'c cache_ops" and srvs :: "'h pydict" and cache :: 'c where
  init: "balancer_new srvs cache = Inr lb \<Longrightarrow> lb_reachable ops srvs cache (lb, []) False"
| step: "lb_reachable ops srvs cache w changed \<Longrightarrow> lb_step ops w e w' \<Longrightarrow>
    lb_reachable ops srvs cache w' (changed \<or> pool_event e)"

definition balancer_inv :: "('h, 'c) balancer \<times> string list \<Rightarrow> bool \<Rightarrow> bool" where
  "balancer_inv w changed \<longleftrightarrow> (case w of (lb, out) \<Rightarrow>
     balancer_wf lb \<and> (\<forall>sid. get_inflight_count sid lb \<le> count_list out sid)
     \<and> (\<not> changed \<longrightarrow> (\<forall>sid. get_inflight_count sid lb = count_list out sid)))"

lemma count_list_remove1: "count_list (remove1 x xs) y = count_list xs y - (if x = y then 1 else 0)"
proof (induction xs)
  case (Cons a xs)
  then show ?case by auto
qed simp

lemma acquired_result:
  assumes "balancer_wf lb" and "acquire_server ops rid lb = Inr ((sid, h), lb')"
  shows "acquired lb sid h lb'"
  using acquire_server_result [OF assms(1), of ops rid] acquire_server_empty [OF assms(1), of ops rid] assms(2)
  by (cases "servers lb = []") auto

lemma balancer_inv_step:
  assumes "lb_step ops w e w'" and "balancer_inv w changed"
  shows "balancer_inv w' (changed \<or> pool_event e)"
  using assms
proof cases
  case (acquire rid lb sid h lb' out)
  with assms(2) acquired_result [of lb ops rid sid h lb'] show ?thesis by (auto simp: balancer_inv_def acquired_def)
next
  case (release sid out lb)
  with assms(2) show ?thesis
    by (auto simp: balancer_inv_def release_wf release_count count_list_remove1 intro: diff_le_mono)
next
  case (add lb out srvs)
  with assms(2) show ?thesis by (auto simp: balancer_inv_def add_servers_wf intro: le_trans [OF add_servers_count])
next
  case (remove lb out sids)
  with assms(2) show ?thesis by (auto simp: balancer_inv_def remove_servers_wf remove_servers_count)
qed (use assms(2) in simp)

lemma balancer_inv_reachable:
  assumes "dict_wf srvs" and "lb_reachable ops srvs cache w changed"
  shows "balancer_inv w changed"
  using assms(2)
proof induction
  case (init lb)
  then show ?case using balancer_new_wf [OF assms(1) init] by (auto simp: balancer_inv_def)
next
  case (step w changed e w')
  then show ?case by (blast intro: balancer_inv_step)
qed

section \<open>Resuming\<close>

definition tokens_before :: "'r token_output list \<Rightarrow> nat \<Rightarrow> int list" where
  "tokens_before outs i = concat (map token_ids (take i outs))"

lemma tokens_before_simps [simp]:
  "tokens_before outs 0 = []"
  "tokens_before (out # outs) (Suc i) = token_ids out @ tokens_before outs i"
  by (simp_all add: tokens_before_def)

text \<open>The call that follows the tokens \<open>ts\<close>.\<close>

definition resume_call :: "int list \<Rightarrow> int option \<Rightarrow> int list \<Rightarrow> int list \<times> int option" where
  "resume_call prompt max_tokens ts = (prompt @ ts, map_option (\<lambda>m. m - int (length ts)) max_tokens)"

definition aborted :: "'r token_output \<Rightarrow> bool" where
  "aborted out \<longleftrightarrow> stop_reason out \<in> {Some ''aborted'', Some ''abort''}"

definition limit_hit :: "int option \<Rightarrow> int list \<Rightarrow> bool" where
  "limit_hit max_tokens ts \<longleftrightarrow> (case max_tokens of None \<Rightarrow> False | Some m \<Rightarrow> m \<le> int (length ts))"

lemma merge_tokens [simp]: "all_token_ids (merge_output out f) = all_token_ids f @ token_ids out"
  "final_stop_reason (merge_output out f) = stop_reason out"
  by (simp_all add: merge_output_def)

text \<open>One turn of the loop.\<close>

lemma resume_loop_step:
  "resume_loop partial prompt mt f (out # outs) =
     (let ts = all_token_ids f @ token_ids out; call = resume_call prompt mt (all_token_ids f); f1 = merge_output out f in
      if limit_hit mt ts then Some (f1\<lparr>final_stop_reason := Some ''length''\<rparr>, [call], snd (resume_call prompt mt ts))
      else if partial \<and> aborted out
      then map_option (\<lambda>(r, calls, left). (r, call # calls, left)) (resume_loop partial prompt mt f1 outs)
      else Some (f1, [call], snd (resume_call prompt mt ts)))"
  unfolding resume_loop.simps(2) Let_def merge_tokens resume_call_def limit_hit_def aborted_def
  by (cases "resume_loop partial prompt mt (merge_output out f) outs") auto

lemma resume_loop_result:
  assumes "resume_loop partial prompt mt f outs = Some (r, calls, left)"
  shows "\<exists>n < length outs. length calls = Suc n
    \<and> (\<forall>i \<le> n. calls ! i = resume_call prompt mt (all_token_ids f @ tokens_before outs i))
    \<and> all_token_ids r = all_token_ids f @ tokens_before outs (Suc n)
    \<and> left = snd (resume_call prompt mt (all_token_ids r))
    \<and> final_stop_reason r = (if limit_hit mt (all_token_ids r) then Some ''length'' else stop_reason (outs ! n))
    \<and> (\<forall>i < n. partial \<and> aborted (outs ! i) \<and> \<not> limit_hit mt (all_token_ids f @ tokens_before outs (Suc i)))
    \<and> (limit_hit mt (all_token_ids r) \<or> \<not> partial \<or> \<not> aborted (outs ! n))"
  using assms
proof (induction outs arbitrary: f calls r left)
  case (Cons out outs)
  let ?ts = "all_token_ids f @ token_ids out" and ?f1 = "merge_output out f"
  let ?call = "resume_call prompt mt (all_token_ids f)"
  show ?case
  proof (cases "\<not> limit_hit mt ?ts \<and> partial \<and> aborted out")
    case True
    then obtain calls' where rec: "resume_loop partial prompt mt ?f1 outs = Some (r, calls', left)" and calls: "calls = ?call # calls'"
      using Cons.prems unfolding resume_loop_step Let_def by auto
    from Cons.IH [OF rec] obtain n where n: "n < length outs" "length calls' = Suc n"
      "\<forall>i \<le> n. calls' ! i = resume_call prompt mt (all_token_ids ?f1 @ tokens_before outs i)"
      "all_token_ids r = all_token_ids ?f1 @ tokens_before outs (Suc n)"
      "left = snd (resume_call prompt mt (all_token_ids r))"
      "final_stop_reason r = (if limit_hit mt (all_token_ids r) then Some ''length'' else stop_reason (outs ! n))"
      "\<forall>i < n. partial \<and> aborted (outs ! i) \<and> \<not> limit_hit mt (all_token_ids ?f1 @ tokens_before outs (Suc i))"
      "limit_hit mt (all_token_ids r) \<or> \<not> partial \<or> \<not> aborted (outs ! n)" by blast
    have "calls ! i = resume_call prompt mt (all_token_ids f @ tokens_before (out # outs) i)" if "i \<le> Suc n" for i
      using n(3) that calls by (cases i) auto
    moreover have "partial \<and> aborted ((out # outs) ! i) \<and> \<not> limit_hit mt (all_token_ids f @ tokens_before (out # outs) (Suc i))"
      if "i < Suc n" for i
      using n(7) that True by (cases i) auto
    ultimately show ?thesis using n calls by (intro exI [of _ "Suc n"]) (simp del: tokens_before_simps(1))
  next
    case False
    then have "calls = [?call] \<and> all_token_ids r = ?ts \<and> left = snd (resume_call prompt mt ?ts)
        \<and> final_stop_reason r = (if limit_hit mt ?ts then Some ''length'' else stop_reason out)"
      using Cons.prems unfolding resume_loop_step Let_def by (auto split: if_splits)
    with False show ?thesis by (intro exI [of _ 0]) auto
  qed
qed simp

lemma resume_generate_result:
  assumes "resume_generate partial prompt mt outs = Some (r, calls, left)"
  obtains n where "n < length outs" and "length calls = Suc n"
    and "\<forall>i \<le> n. calls ! i = resume_call prompt mt (tokens_before outs i)"
    and "all_token_ids r = tokens_before outs (Suc n)"
    and "left = snd (resume_call prompt mt (all_token_ids r))"
    and "final_stop_reason r = (if limit_hit mt (all_token_ids r) then Some ''length'' else stop_reason (outs ! n))"
    and "\<forall>i < n. partial \<and> aborted (outs ! i) \<and> \<not> limit_hit mt (tokens_before outs (Suc i))"
    and "limit_hit mt (all_token_ids r) \<or> \<not> partial \<or> \<not> aborted (outs ! n)"
  using resume_loop_result [OF assms [unfolded resume_generate_def]] by (auto simp: resumed_new_def)

lemma resume_loop_returns:
  assumes "\<And>out. out \<in> set outs \<Longrightarrow> token_ids out \<noteq> []" and "outs \<noteq> []"
    and "m \<le> length (all_token_ids f) + length outs"
  shows "resume_loop partial prompt (Some (int m)) f outs \<noteq> None"
  using assms
proof (induction outs arbitrary: f)
  case (Cons out outs)
  let ?ts = "all_token_ids f @ token_ids out"
  show ?case
  proof (cases "\<not> limit_hit (Some (int m)) ?ts \<and> partial \<and> aborted out")
    case True
    obtain t tl where "token_ids out = t # tl" using Cons.prems(1) by (cases "token_ids out") auto
    then have "m \<le> length (all_token_ids (merge_output out f)) + length outs" using Cons.prems(3) by simp
    moreover have "outs \<noteq> []" using True Cons.prems(3) calculation by (auto simp: limit_hit_def)
    ultimately have "resume_loop partial prompt (Some (int m)) (merge_output out f) outs \<noteq> None"
      using Cons.IH Cons.prems(1) by simp
    then show ?thesis unfolding resume_loop_step Let_def by auto
  next
    case False
    then show ?thesis unfolding resume_loop_step Let_def by auto
  qed
qed simp

lemma tokens_before_grows:
  assumes "\<And>out. out \<in> set outs \<Longrightarrow> token_ids out \<noteq> []" and "n \<le> length outs"
  shows "n \<le> length (tokens_before outs n)"
  using assms
proof (induction outs arbitrary: n)
  case (Cons out outs)
  obtain t tl where "token_ids out = t # tl" using Cons.prems(1) by (cases "token_ids out") auto
  moreover have "n - 1 \<le> length (tokens_before outs (n - 1))" using Cons by simp
  ultimately show ?case by (cases n) auto
qed simp

section \<open>Activating hybrid replicas\<close>

lemma add_servers_fresh:
  assumes "distinct (map fst srvs)" and "set (map fst srvs) \<inter> set (map fst (servers lb)) = {}"
    and "set (map fst srvs) \<inter> set (map fst (inflight_requests lb)) = {}"
  shows "add_servers srvs lb = lb\<lparr>inflight_requests := inflight_requests lb @ dict_map (\<lambda>_. 0) srvs, servers := servers lb @ srvs\<rparr>"
  using assms unfolding add_servers_def
proof (induction srvs arbitrary: lb)
  case (Cons e srvs)
  obtain sid h where e: "e = (sid, h)" by force
  have "dict_set (inflight_requests lb) sid 0 = inflight_requests lb @ [(sid, 0)]"
    and "dict_set (servers lb) sid h = servers lb @ [(sid, h)]"
    using Cons.prems e by (auto intro!: dict_set_new simp: has_key_def)
  with Cons.IH [of "lb\<lparr>inflight_requests := inflight_requests lb @ [(sid, 0)], servers := servers lb @ [(sid, h)]\<rparr>"] Cons.prems e
  show ?case by simp
qed simp

lemma remove_servers_filter:
  "remove_servers sids lb = lb\<lparr>inflight_requests := filter (\<lambda>(k, _). k \<notin> set sids) (inflight_requests lb),
                              servers := filter (\<lambda>(k, _). k \<notin> set sids) (servers lb)\<rparr>"
  unfolding remove_servers_def
proof (induction sids arbitrary: lb)
  case Nil
  then show ?case by simp
next
  case (Cons sid sids)
  then show ?case by (simp add: dict_del_def split_beta conj_commute)
qed

lemma remove_added_servers:
  assumes "distinct (map fst srvs)" and "set (map fst srvs) \<inter> set (map fst (servers lb)) = {}"
    and "balancer_wf lb"
  shows "remove_servers (map fst srvs) (add_servers srvs lb) = lb"
proof -
  have keys: "map fst (inflight_requests lb) = map fst (servers lb)" using assms(3) by (simp add: balancer_wf_def)
  then have keys': "fst ` set (inflight_requests lb) = fst ` set (servers lb)" by (metis list.set_map)
  have none: "filter (\<lambda>(k, _). k \<notin> fst ` set srvs) srvs = []" "filter (\<lambda>(k, _). k \<notin> fst ` set srvs) (dict_map (\<lambda>_. 0 :: nat) srvs) = []"
    by (auto simp: filter_empty_conv dict_map_def rev_image_eqI)
  have all: "filter (\<lambda>(k, _). k \<notin> fst ` set srvs) (servers lb) = servers lb"
    "filter (\<lambda>(k, _). k \<notin> fst ` set srvs) (inflight_requests lb) = inflight_requests lb"
    using assms(2) keys' by (auto intro!: filter_keys_disjoint [where S = "fst ` set srvs"])
  have "set (map fst srvs) \<inter> set (map fst (inflight_requests lb)) = {}" using assms(2) keys by simp
  from add_servers_fresh [OF assms(1,2) this] none all show ?thesis by (simp add: remove_servers_filter)
qed

text \<open>The registry agrees with the lists: every active server is in the pool, the replicas that are alive
  are among the registered ones, and the others are not active.\<close>

definition manager_wf :: "('h, 'c) server_manager \<Rightarrow> bool" where
  "manager_wf m \<longleftrightarrow>
     balancer_wf (balancer m) \<and> dict_wf (hybrid_replicas m) \<and> distinct (map (fst \<circ> snd) (hybrid_replicas m))
     \<and> dict_wf (alive_replicas m) \<and> alive_addresses m = dict_map fst (alive_replicas m)
     \<and> server_addresses m = map fst (rollout_replicas m) \<and> server_handles m = map snd (rollout_replicas m)
     \<and> distinct (server_addresses m) \<and> set (map fst (servers (balancer m))) = set (server_addresses m)
     \<and> (\<forall>(rid, p) \<in> set (hybrid_replicas m).
          if has_key (alive_replicas m) rid then p \<in> set (rollout_replicas m) else fst p \<notin> set (server_addresses m))
     \<and> set (alive_replicas m) \<subseteq> set (hybrid_replicas m)"

text \<open>The local lists with further replicas.\<close>

definition with_replicas :: "('h, 'c) server_manager \<Rightarrow> (string \<times> 'h) pydict \<Rightarrow> ('h, 'c) server_manager" where
  "with_replicas m reps = m\<lparr>server_handles := server_handles m @ map (snd \<circ> snd) reps,
     server_addresses := server_addresses m @ map (fst \<circ> snd) reps, rollout_replicas := rollout_replicas m @ map snd reps,
     alive_replicas := alive_replicas m @ reps, alive_addresses := alive_addresses m @ dict_map fst reps\<rparr>"

definition fresh_replicas :: "('h, 'c) server_manager \<Rightarrow> (string \<times> 'h) pydict \<Rightarrow> bool" where
  "fresh_replicas m reps \<longleftrightarrow>
     distinct (map fst reps) \<and> distinct (map (fst \<circ> snd) reps)
     \<and> (\<forall>(rid, p) \<in> set reps. map_of (hybrid_replicas m) rid = Some p \<and> \<not> has_key (alive_replicas m) rid
          \<and> \<not> has_key (alive_addresses m) rid \<and> fst p \<notin> set (server_addresses m) \<and> p \<notin> set (rollout_replicas m))"

lemma with_replicas_append: "with_replicas (with_replicas m reps) reps' = with_replicas m (reps @ reps')"
  by (simp add: with_replicas_def dict_map_def)

lemma with_replicas_Nil: "with_replicas m [] = m"
  by (simp add: with_replicas_def)

lemma track_added_fresh: "fresh_replicas m [(rid, p)] \<Longrightarrow> track_added m rid = with_replicas m [(rid, p)]"
  by (cases p) (simp add: fresh_replicas_def track_added_def with_replicas_def dict_set_new)

lemma fresh_replicas_Cons:
  "fresh_replicas m ((rid, p) # reps) \<Longrightarrow> fresh_replicas m [(rid, p)] \<and> fresh_replicas (with_replicas m [(rid, p)]) reps"
  by (cases p) (auto simp: fresh_replicas_def with_replicas_def has_key_def dict_map_def image_iff)

lemma track_all_added:
  assumes "fresh_replicas m reps"
  shows "foldl track_added m (map fst reps) = with_replicas m reps"
  using assms
proof (induction reps arbitrary: m)
  case (Cons r reps)
  obtain rid p where r: "r = (rid, p)" by (cases r) blast
  with fresh_replicas_Cons Cons.prems have "fresh_replicas m [(rid, p)]" "fresh_replicas (with_replicas m [(rid, p)]) reps" by blast+
  with Cons.IH r show ?case by (simp add: track_added_fresh with_replicas_append)
qed (simp add: with_replicas_Nil)

lemma remove_nth_middle: "remove_nth (length xs) (xs @ y # zs) = xs @ zs"
  by (simp add: remove_nth_def)

lemma list_index_middle: "y \<notin> set xs \<Longrightarrow> list_index (xs @ y # zs) y = length xs"
  by (subst list_index_def, subst takeWhile_append2) auto

lemma dict_del_middle: "\<not> has_key d k \<Longrightarrow> \<not> has_key e k \<Longrightarrow> dict_del (d @ (k, v) # e) k = d @ e"
  using dict_del_fresh [of d k] dict_del_fresh [of e k] by (simp add: dict_del_def)

lemma untrack_removed_extend:
  assumes "fresh_replicas m ((rid, p) # reps)" and "length (server_handles m) = length (server_addresses m)"
  shows "untrack_removed (with_replicas m ((rid, p) # reps)) rid = Inr (with_replicas m reps)"
proof -
  obtain addr h where p: "p = (addr, h)" by force
  have fresh: "\<not> has_key (alive_replicas m) rid" "\<not> has_key (alive_addresses m) rid" "\<not> has_key reps rid"
      "\<not> has_key (dict_map fst reps) rid" "addr \<notin> set (server_addresses m)" "p \<notin> set (rollout_replicas m)"
    using assms p by (auto simp: fresh_replicas_def has_key_def)
  note look = fresh(1) [THEN not_has_key] fresh(2) [THEN not_has_key] fresh(3) [THEN not_has_key] fresh(4) [THEN not_has_key]
  have "remove_nth (length (server_addresses m)) (server_handles m @ h # map (snd \<circ> snd) reps) = server_handles m @ map (snd \<circ> snd) reps"
    using remove_nth_middle [of "server_handles m"] assms(2) by simp
  with fresh look p show ?thesis
    by (simp add: untrack_removed_def with_replicas_def dict_get_def map_add_def list_index_middle remove_nth_middle
      dict_del_middle remove1_append)
qed

lemma untrack_all_extend:
  assumes "fresh_replicas m reps" and "length (server_handles m) = length (server_addresses m)"
  shows "untrack_all (map fst reps) (with_replicas m reps) = (True, m)"
  using assms
proof (induction reps)
  case (Cons r reps)
  obtain rid p where r: "r = (rid, p)" by (cases r) blast
  have "fresh_replicas m reps" using Cons.prems(1) by (simp add: fresh_replicas_def)
  with Cons.IH Cons.prems r show ?case by (simp add: untrack_removed_extend)
qed (simp add: with_replicas_Nil)

lemma collect_servers_fresh:
  assumes "\<forall>(rid, p) \<in> set reps. map_of hyb rid = Some p" and "distinct (map (fst \<circ> snd) reps)"
    and "set (map (fst \<circ> snd) reps) \<inter> set (map fst d) = {}"
  shows "foldl (\<lambda>d rid. case map_of hyb rid of None \<Rightarrow> d | Some (addr, handle) \<Rightarrow> dict_set d addr handle) d (map fst reps)
    = d @ map snd reps"
  using assms
proof (induction reps arbitrary: d)
  case (Cons r reps)
  obtain rid addr h where r: "r = (rid, addr, h)" by (cases r) auto
  have "dict_set d addr h = d @ [(addr, h)]" using Cons.prems r by (auto intro!: dict_set_new simp: has_key_def)
  with Cons.IH [of "d @ [(addr, h)]"] Cons.prems r show ?case by simp
qed simp

definition chosen_replicas :: "('h, 'c) server_manager \<Rightarrow> string list \<Rightarrow> (string \<times> 'h) pydict" where
  "chosen_replicas m rids = map (\<lambda>rid. (rid, the (map_of (hybrid_replicas m) rid))) (addable m rids)"

lemma chosen_keys [simp]: "map fst (chosen_replicas m rids) = addable m rids"
  by (simp add: chosen_replicas_def comp_def)

lemma length_chosen [simp]: "length (chosen_replicas m rids) = length (addable m rids)"
  by (simp add: chosen_replicas_def)

lemma chosen_in_hybrid:
  "(rid, p) \<in> set (chosen_replicas m rids) \<Longrightarrow>
   map_of (hybrid_replicas m) rid = Some p \<and> \<not> has_key (alive_replicas m) rid"
  by (auto simp: chosen_replicas_def addable_def has_key_iff)

lemma distinct_by_address:
  assumes "distinct (map (fst \<circ> snd) d)" and "(rid, p) \<in> set d" and "(rid', p') \<in> set d" and "fst p = fst p'"
  shows "rid = rid'"
  using assms by (induction d) (auto simp: rev_image_eqI)

lemma chosen_fresh:
  assumes "manager_wf m" and "distinct rids"
  shows "fresh_replicas m (chosen_replicas m rids)"
proof -
  have wf: "distinct (map (fst \<circ> snd) (hybrid_replicas m))" "alive_addresses m = dict_map fst (alive_replicas m)"
      "server_addresses m = map fst (rollout_replicas m)"
    using assms(1) by (auto simp: manager_wf_def)
  have wf4: "fst p \<notin> set (server_addresses m)" if "(rid, p) \<in> set (hybrid_replicas m)" "\<not> has_key (alive_replicas m) rid" for rid p
  proof -
    have "\<forall>(rid, p) \<in> set (hybrid_replicas m).
        if has_key (alive_replicas m) rid then p \<in> set (rollout_replicas m) else fst p \<notin> set (server_addresses m)"
      using assms(1) unfolding manager_wf_def by blast
    from bspec [OF this that(1)] that(2) show ?thesis by simp
  qed
  let ?reps = "chosen_replicas m rids"
  have "distinct (addable m rids)" using assms(2) by (simp add: addable_def)
  then have d: "distinct (map fst ?reps)" by simp
  have "distinct (map (fst \<circ> snd) ?reps)"
  proof -
    have "inj_on (fst \<circ> snd) (set ?reps)"
    proof (rule inj_onI)
      fix x y assume "x \<in> set ?reps" "y \<in> set ?reps" "(fst \<circ> snd) x = (fst \<circ> snd) y"
      moreover obtain rid p rid' p' where "x = (rid, p)" "y = (rid', p')" by (cases x, cases y) blast
      ultimately have h: "map_of (hybrid_replicas m) rid = Some p" "map_of (hybrid_replicas m) rid' = Some p'" "fst p = fst p'"
          and xy: "x = (rid, p)" "y = (rid', p')"
        by (auto dest: chosen_in_hybrid)
      have "rid = rid'" by (rule distinct_by_address [OF wf(1) h(1,2) [THEN map_of_SomeD] h(3)])
      with h xy show "x = y" by simp
    qed
    moreover have "distinct ?reps" using d unfolding distinct_map by blast
    ultimately show ?thesis by (simp add: distinct_map)
  qed
  moreover have "fst p \<notin> set (server_addresses m)" if "(rid, p) \<in> set ?reps" for rid p
    using chosen_in_hybrid [OF that] wf4 [of rid p] by (auto dest: map_of_SomeD)
  ultimately show ?thesis
    using d wf(2,3) by (auto simp: fresh_replicas_def dest: chosen_in_hybrid)
qed

lemma add_replicas_result:
  assumes "manager_wf m" and "distinct rids"
  shows "add_replicas rids m = (length (addable m rids),
    with_replicas (m\<lparr>balancer := add_servers (map snd (chosen_replicas m rids)) (balancer m)\<rparr>) (chosen_replicas m rids))"
proof -
  let ?reps = "chosen_replicas m rids" and ?m = "m\<lparr>balancer := add_servers (map snd (chosen_replicas m rids)) (balancer m)\<rparr>"
  have f: "fresh_replicas m ?reps" by (rule chosen_fresh [OF assms])
  then have servers: "foldl (\<lambda>d rid. case map_of (hybrid_replicas m) rid of None \<Rightarrow> d | Some (addr, handle) \<Rightarrow> dict_set d addr handle)
      [] (map fst ?reps) = [] @ map snd ?reps"
    by (intro collect_servers_fresh) (auto simp: fresh_replicas_def)
  have "fresh_replicas ?m ?reps" using f by (simp add: fresh_replicas_def)
  from track_all_added [OF this] have track: "foldl track_added ?m (addable m rids) = with_replicas ?m ?reps" by simp
  show ?thesis
  proof (cases "addable m rids = []")
    case True
    then have "?reps = []" by (simp add: chosen_replicas_def)
    with True show ?thesis by (simp add: add_replicas_def with_replicas_Nil add_servers_def)
  next
    case False
    then have "map snd ?reps \<noteq> []" by (simp add: chosen_replicas_def)
    with False servers track show ?thesis by (simp add: add_replicas_def Let_def)
  qed
qed

lemma with_replicas_fields [simp]:
  "balancer (with_replicas m reps) = balancer m" "hybrid_replicas (with_replicas m reps) = hybrid_replicas m"
  "alive_replicas (with_replicas m reps) = alive_replicas m @ reps"
  "alive_addresses (with_replicas m reps) = alive_addresses m @ dict_map fst reps"
  "rollout_replicas (with_replicas m reps) = rollout_replicas m @ map snd reps"
  "server_addresses (with_replicas m reps) = server_addresses m @ map (fst \<circ> snd) reps"
  "server_handles (with_replicas m reps) = server_handles m @ map (snd \<circ> snd) reps"
  by (simp_all add: with_replicas_def)

lemma with_replicas_balancer: "(with_replicas m reps)\<lparr>balancer := lb\<rparr> = with_replicas (m\<lparr>balancer := lb\<rparr>) reps"
  by (simp add: with_replicas_def)

lemma alive_addresses_fresh:
  assumes "fresh_replicas m reps"
  shows "rmap (dict_get (alive_addresses m @ dict_map fst reps)) (map fst reps) = Inr (map (fst \<circ> snd) reps)"
proof -
  have "dict_get (alive_addresses m @ dict_map fst reps) (fst r) = Inr (fst (snd r))" if "r \<in> set reps" for r
  proof -
    obtain rid p where r: "r = (rid, p)" by (cases r) blast
    have d: "distinct (map fst reps)" and n: "\<not> has_key (alive_addresses m) rid" using assms that r by (auto simp: fresh_replicas_def)
    from d that r have "map_of reps rid = Some p" by simp
    then have "map_of (dict_map fst reps) rid = Some (fst p)" by (simp add: map_of_dict_map)
    with not_has_key [OF n] r show ?thesis by (simp add: dict_get_def map_add_def)
  qed
  then have "map (dict_get (alive_addresses m @ dict_map fst reps)) (map fst reps) = map Inr (map (fst \<circ> snd) reps)" by simp
  then show ?thesis by (simp only: rmap_eq_Inr)
qed

lemma remove_undoes_add:
  assumes "manager_wf m" and "distinct rids"
  shows "remove_replicas (addable m rids) (snd (add_replicas rids m)) = Inr (length (addable m rids), m)"
proof -
  let ?reps = "chosen_replicas m rids"
  let ?m1 = "m\<lparr>balancer := add_servers (map snd ?reps) (balancer m)\<rparr>"
  have f: "fresh_replicas m ?reps" by (rule chosen_fresh [OF assms])
  have wf: "balancer_wf (balancer m)" "set (map fst (servers (balancer m))) = set (server_addresses m)"
      "length (server_handles m) = length (server_addresses m)"
    using assms(1) by (simp_all add: manager_wf_def)
  have add: "snd (add_replicas rids m) = with_replicas ?m1 ?reps" using add_replicas_result [OF assms] by simp
  have valid: "filter (\<lambda>rid. has_key (alive_replicas (with_replicas ?m1 ?reps)) rid) (addable m rids) = addable m rids"
    unfolding chosen_keys [symmetric] by (auto simp: has_key_def filter_id_conv simp del: chosen_keys)
  have "fresh_replicas ?m1 ?reps" using f by (simp add: fresh_replicas_def)
  from alive_addresses_fresh [OF this]
  have sids: "rmap (dict_get (alive_addresses (with_replicas ?m1 ?reps))) (addable m rids) = Inr (map (fst \<circ> snd) ?reps)" by simp
  show ?thesis
  proof (cases "?reps = []")
    case True
    then have "addable m rids = []" "?m1 = m" by (simp_all add: chosen_replicas_def add_servers_def)
    with True add valid sids show ?thesis by (simp add: remove_replicas_def with_replicas_Nil)
  next
    case False
    have "set (map fst (map snd ?reps)) \<inter> set (map fst (servers (balancer m))) = {}"
      using f wf(2) by (auto simp: fresh_replicas_def)
    moreover have "distinct (map fst (map snd ?reps))" using f by (simp add: fresh_replicas_def comp_def)
    ultimately have "remove_servers (map (fst \<circ> snd) ?reps) (add_servers (map snd ?reps) (balancer m)) = balancer m"
      using remove_added_servers [of "map snd ?reps" "balancer m"] wf(1) by simp
    then have "(with_replicas ?m1 ?reps)\<lparr>balancer := remove_servers (map (fst \<circ> snd) ?reps) (balancer (with_replicas ?m1 ?reps))\<rparr> = with_replicas m ?reps"
      by (simp add: with_replicas_balancer)
    moreover have "untrack_all (addable m rids) (with_replicas m ?reps) = (True, m)"
      using untrack_all_extend [OF f wf(3)] by simp
    ultimately show ?thesis using False unfolding remove_replicas_def add valid sids Let_def rbind.simps by simp
  qed
qed

lemma add_replicas_wf:
  assumes "manager_wf m" and "distinct rids"
  shows "manager_wf (snd (add_replicas rids m))"
proof -
  let ?reps = "chosen_replicas m rids"
  let ?m1 = "m\<lparr>balancer := add_servers (map snd ?reps) (balancer m)\<rparr>"
  have f: "fresh_replicas m ?reps" by (rule chosen_fresh [OF assms])
  have add: "snd (add_replicas rids m) = with_replicas ?m1 ?reps" using add_replicas_result [OF assms] by simp
  have wf: "balancer_wf (balancer m)" "set (map fst (servers (balancer m))) = set (server_addresses m)" "dict_wf (alive_replicas m)"
    "set (alive_replicas m) \<subseteq> set (hybrid_replicas m)" "alive_addresses m = dict_map fst (alive_replicas m)"
    using assms(1) by (simp_all add: manager_wf_def)
  have disj: "set (map fst (map snd ?reps)) \<inter> set (map fst (servers (balancer m))) = {}"
    using f wf(2) by (auto simp: fresh_replicas_def)
  have d: "distinct (map fst (map snd ?reps))" using f by (simp add: fresh_replicas_def comp_def)
  have "set (map fst (map snd ?reps)) \<inter> set (map fst (inflight_requests (balancer m))) = {}"
    using disj wf(1) unfolding balancer_wf_def by metis
  from add_servers_fresh [OF d disj this]
  have srv: "servers (balancer ?m1) = servers (balancer m) @ map snd ?reps" by simp
  have bwf: "balancer_wf (balancer ?m1)" using add_servers_wf [OF wf(1)] by simp
  have in_hyb: "set ?reps \<subseteq> set (hybrid_replicas m)" by (auto dest!: chosen_in_hybrid map_of_SomeD)
  have alive: "dict_wf (alive_replicas m @ ?reps)"
  proof -
    have "rid \<notin> set (map fst (alive_replicas m))" if "rid \<in> set (addable m rids)" for rid
      using that by (simp add: addable_def has_key_def)
    then have "set (map fst (alive_replicas m)) \<inter> set (map fst ?reps) = {}" unfolding chosen_keys by blast
    then show ?thesis using f wf(3) by (simp add: fresh_replicas_def dict_wf_def)
  qed
  have each: "if has_key (alive_replicas m @ ?reps) rid then p \<in> set (rollout_replicas m @ map snd ?reps)
      else fst p \<notin> set (server_addresses m @ map (fst \<circ> snd) ?reps)" if h: "(rid, p) \<in> set (hybrid_replicas m)" for rid p
  proof (cases "(rid, p) \<in> set ?reps")
    case True
    then have "rid \<in> set (map fst ?reps)" "p \<in> set (map snd ?reps)" by (metis fst_conv snd_conv in_set_conv_nth nth_map length_map)+
    then show ?thesis by (simp add: has_key_def)
  next
    case False
    have dh: "dict_wf (hybrid_replicas m)" "distinct (map (fst \<circ> snd) (hybrid_replicas m))"
      using assms(1) by (simp_all add: manager_wf_def)
    have no: "\<not> has_key ?reps rid"
    proof
      assume "has_key ?reps rid"
      then obtain q where q: "(rid, q) \<in> set ?reps" unfolding has_key_iff by (blast dest: map_of_SomeD)
      from chosen_in_hybrid [OF q] h dh(1) have "q = p" by (simp add: dict_wf_def)
      with q False show False by simp
    qed
    have "fst p \<notin> set (map (fst \<circ> snd) ?reps)"
    proof
      assume "fst p \<in> set (map (fst \<circ> snd) ?reps)"
      then obtain rid' q where q: "(rid', q) \<in> set ?reps" "fst p = fst q" by auto
      from distinct_by_address [OF dh(2) h _ q(2), of rid'] q(1) in_hyb have "rid = rid'" by blast
      with q(1) no show False unfolding has_key_iff by (metis map_of_eq_None_iff not_None_eq image_eqI fst_conv)
    qed
    moreover have "if has_key (alive_replicas m) rid then p \<in> set (rollout_replicas m) else fst p \<notin> set (server_addresses m)"
      using assms(1) h unfolding manager_wf_def by blast
    ultimately show ?thesis using no by (auto simp: has_key_def)
  qed
  have rest: "dict_wf (hybrid_replicas m)" "distinct (map (fst \<circ> snd) (hybrid_replicas m))"
      "server_addresses m = map fst (rollout_replicas m)" "server_handles m = map snd (rollout_replicas m)"
    using assms(1) by (simp_all add: manager_wf_def)
  have da: "distinct (server_addresses m @ map (fst \<circ> snd) ?reps)"
    using assms(1) d disj wf(2) by (auto simp: manager_wf_def comp_def)
  have each': "\<forall>(rid, p) \<in> set (hybrid_replicas ?m1). if has_key (alive_replicas ?m1 @ ?reps) rid
      then p \<in> set (rollout_replicas ?m1 @ map snd ?reps) else fst p \<notin> set (server_addresses ?m1 @ map (fst \<circ> snd) ?reps)"
  proof (rule ballI, rule case_prodI2)
    fix r rid p assume "r \<in> set (hybrid_replicas ?m1)" "r = (rid, p)"
    then have "(rid, p) \<in> set (hybrid_replicas m)" by simp
    from each [OF this] show "if has_key (alive_replicas ?m1 @ ?reps) rid
      then p \<in> set (rollout_replicas ?m1 @ map snd ?reps) else fst p \<notin> set (server_addresses ?m1 @ map (fst \<circ> snd) ?reps)" by (simp split: if_splits)
  qed
  have pool: "set (map fst (servers (balancer ?m1))) = set (server_addresses m @ map (fst \<circ> snd) ?reps)"
    unfolding srv map_append set_append wf(2) by simp
  have "manager_wf (with_replicas ?m1 ?reps)"
    unfolding manager_wf_def with_replicas_fields
  proof (intro conjI)
    show "alive_addresses ?m1 @ dict_map fst ?reps = dict_map fst (alive_replicas ?m1 @ ?reps)"
      using wf(5) by (simp add: dict_map_def)
    show "server_addresses ?m1 @ map (fst \<circ> snd) ?reps = map fst (rollout_replicas ?m1 @ map snd ?reps)" using rest(3) by simp
    show "server_handles ?m1 @ map (snd \<circ> snd) ?reps = map snd (rollout_replicas ?m1 @ map snd ?reps)" using rest(4) by simp
    show "distinct (server_addresses ?m1 @ map (fst \<circ> snd) ?reps)" using da by simp
    show "set (map fst (servers (balancer ?m1))) = set (server_addresses ?m1 @ map (fst \<circ> snd) ?reps)" using pool by simp
    show "set (alive_replicas ?m1 @ ?reps) \<subseteq> set (hybrid_replicas ?m1)" using wf(4) in_hyb by simp
    show "dict_wf (alive_replicas ?m1 @ ?reps)" using alive by simp
    show "\<forall>(rid, p) \<in> set (hybrid_replicas ?m1). if has_key (alive_replicas ?m1 @ ?reps) rid
      then p \<in> set (rollout_replicas ?m1 @ map snd ?reps) else fst p \<notin> set (server_addresses ?m1 @ map (fst \<circ> snd) ?reps)"
      by (rule each')
  qed (use bwf rest in simp_all)
  then show ?thesis by (simp only: add)
qed

section \<open>Sessions\<close>

text \<open>The server that a session is bound to, when it is still in the pool.\<close>

definition session_server :: "'c cache_ops \<Rightarrow> ('h, 'c) balancer \<Rightarrow> string \<Rightarrow> string option" where
  "session_server ops lb rid =
     (case cache_lookup ops (request_id_to_server lb) rid of
        None \<Rightarrow> None
      | Some sid \<Rightarrow> if has_key (servers lb) sid then Some sid else None)"

definition least_loaded :: "nat pydict \<Rightarrow> string \<Rightarrow> bool" where
  "least_loaded d sid \<longleftrightarrow>
     (\<exists>n pre post. d = pre @ (sid, n) # post \<and> (\<forall>(k, m) \<in> set pre. n < m) \<and> (\<forall>(k, m) \<in> set post. n \<le> m))"

lemma min_key_least_loaded: "min_key d = Some (sid, n) \<Longrightarrow> least_loaded d sid"
  unfolding least_loaded_def by (blast dest: min_key_first_least)

text \<open>What an acquisition does to the sessions.\<close>

definition sessions_after :: "'c cache_ops \<Rightarrow> ('h, 'c) balancer \<Rightarrow> string \<Rightarrow> string \<Rightarrow> ('h, 'c) balancer \<Rightarrow> bool" where
  "sessions_after ops lb rid sid lb' \<longleftrightarrow>
     session_server ops lb' rid = Some sid
     \<and> (\<forall>rid'. rid' = rid \<or> session_server ops lb' rid' = session_server ops lb rid' \<or> session_server ops lb' rid' = None)"

context routing_cache
begin

lemma select_sessions:
  assumes "balancer_wf lb" and "servers lb \<noteq> []"
    and "\<And>rid'. rid' \<noteq> rid \<Longrightarrow> cache_lookup ops c rid' = cache_lookup ops (request_id_to_server lb) rid'"
  shows "\<exists>sid h lb'. select_new_server ops rid (lb\<lparr>request_id_to_server := c\<rparr>) = Inr ((sid, h), lb') \<and> acquired lb sid h lb'
    \<and> sessions_after ops lb rid sid lb' \<and> least_loaded (inflight_requests lb) sid"
proof -
  have w: "balancer_wf (lb\<lparr>request_id_to_server := c\<rparr>)" "servers (lb\<lparr>request_id_to_server := c\<rparr>) \<noteq> []" using assms by simp_all
  from select_acquired [OF w, of ops rid] obtain sid h lb'
    where s: "select_new_server ops rid (lb\<lparr>request_id_to_server := c\<rparr>) = Inr ((sid, h), lb')" "acquired lb sid h lb'"
      "request_id_to_server lb' = cache_insert ops c rid sid"
      "min_key (inflight_requests lb) = Some (sid, get_inflight_count sid lb)" by auto
  have srv: "servers lb' = servers lb" "has_key (servers lb) sid" using s(2) by (auto simp: acquired_def has_key_iff)
  have "session_server ops lb' rid = Some sid" using s(3) srv by (simp add: session_server_def lookup_insert)
  moreover have "rid' = rid \<or> session_server ops lb' rid' = session_server ops lb rid' \<or> session_server ops lb' rid' = None" for rid'
    using lookup_insert_other [of rid' rid c sid] assms(3) [of rid'] s(3) srv
    by (cases "rid' = rid") (auto simp: session_server_def split: option.splits)
  ultimately have "sessions_after ops lb rid sid lb'" by (simp add: sessions_after_def)
  with s(1,2) min_key_least_loaded [OF s(4)] show ?thesis by (intro exI conjI)
qed

lemma acquire_sessions:
  assumes "balancer_wf lb" and "servers lb \<noteq> []"
  shows "\<exists>sid h lb'. acquire_server ops rid lb = Inr ((sid, h), lb') \<and> acquired lb sid h lb' \<and> sessions_after ops lb rid sid lb'
    \<and> (case session_server ops lb rid of Some s \<Rightarrow> sid = s | None \<Rightarrow> least_loaded (inflight_requests lb) sid)"
proof (cases "cache_lookup ops (request_id_to_server lb) rid")
  case None
  with select_sessions [OF assms, of rid "request_id_to_server lb"] show ?thesis
    by (auto simp: acquire_server_def session_server_def)
next
  case (Some sid)
  let ?c = "cache_touch ops (request_id_to_server lb) rid"
  have keys: "has_key (inflight_requests lb) sid = has_key (servers lb) sid"
    using assms(1) by (simp add: balancer_wf_def has_key_def)
  show ?thesis
  proof (cases "has_key (servers lb) sid")
    case True
    then obtain h where h: "map_of (servers lb) sid = Some h" by (auto simp: has_key_iff)
    have "acquire_server ops rid lb = Inr ((sid, h), bump (lb\<lparr>request_id_to_server := ?c\<rparr>) sid)"
      using Some True h keys by (simp add: acquire_server_def dict_get_def)
    moreover have "sessions_after ops lb rid sid (bump (lb\<lparr>request_id_to_server := ?c\<rparr>) sid)"
      using Some True by (auto simp: sessions_after_def session_server_def lookup_touch split: option.splits)
    ultimately show ?thesis using acquired_bump [OF assms(1) h] Some True by (auto simp: session_server_def)
  next
    case False
    have "cache_lookup ops (cache_delete ops ?c rid) rid' = cache_lookup ops (request_id_to_server lb) rid'" if "rid' \<noteq> rid" for rid'
      using that by (simp add: lookup_delete lookup_touch)
    from select_sessions [OF assms this] False keys Some show ?thesis
      by (auto simp: acquire_server_def session_server_def)
  qed
qed

end

section \<open>Properties\<close>

text \<open>C26: The load balancer's tables always agree, whatever the order of acquisitions, releases and
  changes of the pool: the same servers in both, each once; the counter of a server is never more than
  the requests it is serving, and exactly their number as long as the pool has not been changed.\<close>

theorem balancer_counts_requests:
  assumes "dict_wf srvs" and "lb_reachable ops srvs cache (lb, out) changed"
  shows "map fst (servers lb) = map fst (inflight_requests lb) \<and> distinct (map fst (servers lb))
    \<and> (\<forall>sid. get_inflight_count sid lb \<le> count_list out sid)
    \<and> (changed \<or> (\<forall>sid. get_inflight_count sid lb = count_list out sid))"
  using balancer_inv_reachable [OF assms] by (auto simp: balancer_inv_def balancer_wf_def dict_wf_def)

theorem balancer_counts_requests_witness:
  "\<exists>lb. lb_reachable (lru_ops 2) [(''a'', 1 :: nat), (''b'', 2)] [] (lb, [''a'', ''b'', ''a'']) False
     \<and> get_inflight_count ''a'' lb = 2 \<and> get_inflight_count ''b'' lb = 1"
proof -
  let ?ops = "lru_ops 2" and ?srvs = "[(''a'', 1 :: nat), (''b'', 2)]"
  note r = lb_reachable.step [OF _ lb_step.acquire]
  obtain lb0 :: "(nat, string pydict) balancer" where "balancer_new ?srvs [] = Inr lb0" and lb0: "lb0 = \<lparr>servers = ?srvs, inflight_requests = [(''a'', 0), (''b'', 0)], request_id_to_server = []\<rparr>"
    by (simp add: balancer_new_def)
  then have "lb_reachable ?ops ?srvs [] (lb0, []) False" by (intro lb_reachable.init)
  moreover obtain lb1 where "acquire_server ?ops ''x'' lb0 = Inr ((''a'', 1), lb1)"
      and lb1: "lb1 = \<lparr>servers = ?srvs, inflight_requests = [(''a'', 1), (''b'', 0)], request_id_to_server = [(''x'', ''a'')]\<rparr>"
    by (simp add: lb0 acquire_server_def select_new_server_def lru_ops_def bump_def dict_get_def dict_set_def dict_del_def)
  ultimately have "lb_reachable ?ops ?srvs [] (lb1, [''a'']) False" by (auto dest: r)
  moreover obtain lb2 where "acquire_server ?ops ''y'' lb1 = Inr ((''b'', 2), lb2)"
      and lb2: "lb2 = \<lparr>servers = ?srvs, inflight_requests = [(''a'', 1), (''b'', 1)], request_id_to_server = [(''x'', ''a''), (''y'', ''b'')]\<rparr>"
    by (simp add: lb1 acquire_server_def select_new_server_def lru_ops_def bump_def dict_get_def dict_set_def dict_del_def)
  ultimately have "lb_reachable ?ops ?srvs [] (lb2, [''b'', ''a'']) False" by (auto dest: r)
  moreover obtain lb3 where "acquire_server ?ops ''x'' lb2 = Inr ((''a'', 1), lb3)"
    by (simp add: lb2 acquire_server_def lru_ops_def bump_def dict_get_def dict_set_def dict_del_def has_key_def)
  ultimately have run: "lb_reachable ?ops ?srvs [] (lb3, [''a'', ''b'', ''a'']) False" by (auto dest: r)
  from balancer_counts_requests [OF _ run] have "get_inflight_count ''a'' lb3 = 2 \<and> get_inflight_count ''b'' lb3 = 1"
    by (simp add: dict_wf_def)
  with run show ?thesis by blast
qed

text \<open>Routing: with servers in the pool every request gets one, and its handle; only that server's counter
  changes, by one. A request whose session is bound to a server of the pool goes to that server; any other
  goes to the first of the least loaded ones, to which its session is bound from then on. No other session
  is moved to another server (it may be forgotten). Without servers the request is refused.\<close>

theorem sessions_stick_to_least_loaded:
  assumes "routing_cache ops" and "balancer_wf lb"
  shows "if servers lb = [] then acquire_server ops rid lb = Inl RuntimeError
    else \<exists>sid h lb'. acquire_server ops rid lb = Inr ((sid, h), lb')
      \<and> (case session_server ops lb rid of Some s \<Rightarrow> sid = s | None \<Rightarrow> least_loaded (inflight_requests lb) sid)
      \<and> session_server ops lb' rid = Some sid
      \<and> (\<forall>rid'. rid' = rid \<or> session_server ops lb' rid' = session_server ops lb rid' \<or> session_server ops lb' rid' = None)
      \<and> map_of (servers lb) sid = Some h \<and> servers lb' = servers lb
      \<and> (\<forall>s. get_inflight_count s lb' = get_inflight_count s lb + (if s = sid then 1 else 0))"
proof (cases "servers lb = []")
  case False
  from routing_cache.acquire_sessions [OF assms False, of rid] False
  show ?thesis by (auto simp: acquired_def sessions_after_def)
qed (simp add: acquire_server_empty [OF assms(2)])

theorem sessions_stick_to_least_loaded_witness:
  "\<exists>lb sid h lb'. servers (lb :: (nat, string pydict) balancer) = [(''a'', 1), (''b'', 2)]
     \<and> acquire_server (lru_ops 5) ''x'' lb = Inr ((sid, h), lb') \<and> sid = ''b'' \<and> session_server (lru_ops 5) lb' ''x'' = Some ''b''"
proof -
  let ?lb = "\<lparr>servers = [(''a'', 1), (''b'', 2)], inflight_requests = [(''a'', 3), (''b'', 0)], request_id_to_server = [(''x'', ''gone'')]\<rparr>
    :: (nat, string pydict) balancer"
  have wf: "balancer_wf ?lb" by (simp add: balancer_wf_def dict_wf_def)
  have none: "session_server (lru_ops 5) ?lb ''x'' = None" by (simp add: session_server_def lru_ops_def has_key_def)
  have least: "sid = ''b''" if "least_loaded [(''a'', 3), (''b'', 0)] sid" for sid
    using that by (auto simp: least_loaded_def append_eq_Cons_conv Cons_eq_append_conv)
  from sessions_stick_to_least_loaded [OF lru.routing_cache_axioms [of 5] wf, of "''x''"] none least
  obtain sid h lb' where "acquire_server (lru_ops 5) ''x'' ?lb = Inr ((sid, h), lb')" "sid = ''b''"
      "session_server (lru_ops 5) lb' ''x'' = Some sid" by auto
  then show ?thesis by (intro exI [of _ ?lb] exI [of _ sid] exI [of _ h] exI [of _ lb']) simp
qed

text \<open>A client leaves the counters as it found them, whether its request succeeds or the server raises: it
  returns what the server of the request answers, and the server is released; and it fails without
  asking a server only when there is none.\<close>

theorem client_releases_server:
  assumes "balancer_wf lb" and "client_generate ops call rid lb = (r, lb')"
  shows "balancer_wf lb' \<and> servers lb' = servers lb \<and> (\<forall>sid. get_inflight_count sid lb' = get_inflight_count sid lb)
    \<and> (if servers lb = [] then r = Inl RuntimeError else r \<in> call ` snd ` set (servers lb))"
proof (cases "servers lb = []")
  case True
  then show ?thesis using assms acquire_server_empty [OF assms(1) True, of ops rid] by (simp add: client_generate_def)
next
  case False
  from acquire_server_result [OF assms(1) False, of ops rid] obtain sid h lb1
    where a: "acquire_server ops rid lb = Inr ((sid, h), lb1)" "acquired lb sid h lb1" by blast
  have "h \<in> snd ` set (servers lb)" using a(2) by (auto simp: acquired_def dest!: map_of_SomeD intro: rev_image_eqI)
  with False a assms(2) show ?thesis
    by (auto simp: client_generate_def acquired_def release_wf release_count)
qed

theorem client_releases_server_witness:
  "\<exists>lb lb'. client_generate (lru_ops 3) (\<lambda>h. if h = 2 then Inl TimeoutError else Inr h) ''x'' (lb :: (nat, string pydict) balancer)
      = (Inl TimeoutError, lb') \<and> get_inflight_count ''b'' lb = 5 \<and> get_inflight_count ''b'' lb' = 5"
proof -
  let ?lb = "\<lparr>servers = [(''a'', 1), (''b'', 2)], inflight_requests = [(''a'', 7), (''b'', 5)], request_id_to_server = []\<rparr>
    :: (nat, string pydict) balancer"
  let ?call = "\<lambda>h. if h = 2 then Inl TimeoutError else Inr h :: nat res"
  have wf: "balancer_wf ?lb" by (simp add: balancer_wf_def dict_wf_def)
  obtain lb' where run: "client_generate (lru_ops 3) ?call ''x'' ?lb = (Inl TimeoutError, lb')"
    by (simp add: client_generate_def acquire_server_def select_new_server_def lru_ops_def dict_get_def)
  have b: "get_inflight_count ''b'' ?lb = 5" by (simp add: get_inflight_count_def)
  have "get_inflight_count ''b'' lb' = get_inflight_count ''b'' ?lb" using client_releases_server [OF wf run] by blast
  with b have b': "get_inflight_count ''b'' lb' = 5" by (rule trans [rotated])
  show ?thesis by (intro exI conjI) (rule run b b')+
qed

text \<open>C15: A resumed generation is one generation to its caller: the server is asked again, with the prompt
  followed by all the tokens so far and the limit reduced by their number, exactly as long as it was
  aborted, partial rollout is on and the limit is not reached; the answer is all the tokens in order, its
  stop reason that of the last answer, or \<open>length\<close>. The caller's sampling parameters are left with the
  rest of the limit.\<close>

theorem resumed_generation_is_seamless:
  assumes "resume_generate partial prompt max_tokens outs = Some (r, calls, left)"
  shows "\<exists>n < length outs.
      calls = map (\<lambda>i. resume_call prompt max_tokens (tokens_before outs i)) [0..<Suc n]
    \<and> all_token_ids r = tokens_before outs (Suc n)
    \<and> left = snd (resume_call prompt max_tokens (all_token_ids r))
    \<and> final_stop_reason r = (if limit_hit max_tokens (all_token_ids r) then Some ''length'' else stop_reason (outs ! n))
    \<and> (\<forall>i < n. partial \<and> aborted (outs ! i) \<and> \<not> limit_hit max_tokens (tokens_before outs (Suc i)))
    \<and> (limit_hit max_tokens (all_token_ids r) \<or> \<not> partial \<or> \<not> aborted (outs ! n))"
proof -
  obtain n where n: "n < length outs" "length calls = Suc n"
      "\<forall>i \<le> n. calls ! i = resume_call prompt max_tokens (tokens_before outs i)"
    and rest: "all_token_ids r = tokens_before outs (Suc n)"
      "left = snd (resume_call prompt max_tokens (all_token_ids r))"
      "final_stop_reason r = (if limit_hit max_tokens (all_token_ids r) then Some ''length'' else stop_reason (outs ! n))"
      "\<forall>i < n. partial \<and> aborted (outs ! i) \<and> \<not> limit_hit max_tokens (tokens_before outs (Suc i))"
      "limit_hit max_tokens (all_token_ids r) \<or> \<not> partial \<or> \<not> aborted (outs ! n)"
    by (rule resume_generate_result [OF assms]) (rule that; assumption)
  have "calls = map (\<lambda>i. resume_call prompt max_tokens (tokens_before outs i)) [0..<Suc n]"
    using n(2,3) by (intro nth_equalityI) (auto simp: less_Suc_eq_le simp del: upt_Suc)
  with n(1) rest show ?thesis by (intro exI [of _ n]) simp
qed

text \<open>Two answers, the first of which is aborted.\<close>

definition demo_out :: "int list \<Rightarrow> string \<Rightarrow> unit token_output" where
  "demo_out ts reason = \<lparr>token_ids = ts, log_probs = None, routed_experts = None, stop_reason = Some reason,
     num_preempted = Some 1, global_steps = None\<rparr>"

theorem resumed_generation_is_seamless_witness:
  "\<exists>r calls left. resume_generate True [1, 2] (Some 9) [demo_out [5, 6] ''aborted'', demo_out [7] ''stop'', demo_out [8] ''stop'']
      = Some (r, calls, left) \<and> calls = [([1, 2], Some 9), ([1, 2, 5, 6], Some 7)] \<and> all_token_ids r = [5, 6, 7] \<and> left = Some 6"
proof -
  let ?outs = "[demo_out [5, 6] ''aborted'', demo_out [7] ''stop'', demo_out [8] ''stop'']"
  obtain r calls left where run: "resume_generate True [1, 2] (Some 9) ?outs = Some (r, calls, left)" "length calls = 2"
    by (auto simp: resume_generate_def resumed_new_def merge_output_def demo_out_def Let_def)
  obtain n where n: "calls = map (\<lambda>i. resume_call [1, 2] (Some 9) (tokens_before ?outs i)) [0..<Suc n]"
      "all_token_ids r = tokens_before ?outs (Suc n)" "left = snd (resume_call [1, 2] (Some 9) (all_token_ids r))"
    using resumed_generation_is_seamless [OF run(1)] by (elim exE conjE) (rule that, assumption+)
  have "length calls = Suc n" unfolding n(1) by simp
  then have "Suc n = Suc (Suc 0)" using run(2) by simp
  then have "calls = [([1, 2], Some 9), ([1, 2, 5, 6], Some 7)]" "all_token_ids r = [5, 6, 7]" "left = Some 6"
    using n by (simp_all add: resume_call_def tokens_before_def demo_out_def)
  with run(1) show ?thesis by blast
qed

text \<open>Resuming ends: if the server makes progress, at least one token in each answer, then with a limit of
  \<open>m > 0\<close> tokens at most \<open>m\<close> answers are needed, and the answer is returned; each of the calls asks for a
  positive number of tokens, and no more than \<open>m\<close> tokens are returned by a server that keeps to the limit
  it is given.\<close>

theorem resumed_generation_terminates:
  assumes "\<And>out. out \<in> set outs \<Longrightarrow> token_ids out \<noteq> []" and "0 < m" and "m \<le> length outs"
    and "\<And>i. i < length outs \<Longrightarrow> length (tokens_before outs i) < m \<Longrightarrow> length (tokens_before outs (Suc i)) \<le> m"
  shows "\<exists>r calls left. resume_generate partial prompt (Some (int m)) outs = Some (r, calls, left)
    \<and> length calls \<le> m \<and> length (all_token_ids r) \<le> m \<and> snd ` set calls \<subseteq> {Some k |k. 0 < k}"
proof -
  have "resume_generate partial prompt (Some (int m)) outs \<noteq> None"
    unfolding resume_generate_def using assms(1-3) by (intro resume_loop_returns) auto
  then obtain r calls left where run: "resume_generate partial prompt (Some (int m)) outs = Some (r, calls, left)" by auto
  obtain n where n: "n < length outs" "length calls = Suc n"
      "\<forall>i \<le> n. calls ! i = resume_call prompt (Some (int m)) (tokens_before outs i)"
    and all: "all_token_ids r = tokens_before outs (Suc n)"
    and more: "\<forall>i < n. partial \<and> aborted (outs ! i) \<and> \<not> limit_hit (Some (int m)) (tokens_before outs (Suc i))"
    by (rule resume_generate_result [OF run]) (rule that; assumption)
  have room: "length (tokens_before outs i) < m" if "i \<le> n" for i
    using more [THEN spec, of "i - 1"] assms(2) that by (cases i) (auto simp: limit_hit_def simp del: tokens_before_simps(2))
  have "n \<le> length (tokens_before outs n)" using n(1) by (intro tokens_before_grows assms(1)) auto
  with room [of n] have "length calls \<le> m" using n(2) by simp
  moreover have "length (all_token_ids r) \<le> m" using assms(4) [OF n(1) room [of n]] all by simp
  moreover have "snd c \<in> {Some k |k. 0 < k}" if "c \<in> set calls" for c
  proof -
    obtain i where i: "i < length calls" "c = calls ! i" using \<open>c \<in> set calls\<close> unfolding in_set_conv_nth by blast
    then have "i \<le> n" using n(2) by simp
    with n(3) i(2) have "c = resume_call prompt (Some (int m)) (tokens_before outs i)" by simp
    with room [OF \<open>i \<le> n\<close>] show ?thesis by (simp add: resume_call_def)
  qed
  ultimately show ?thesis using run by blast
qed

theorem resumed_generation_terminates_witness:
  "\<exists>r calls left. resume_generate True [1] (Some 3) [demo_out [5] ''abort'', demo_out [6, 7] ''abort'', demo_out [8] ''abort'']
     = Some (r, calls, left) \<and> length calls \<le> 3 \<and> length (all_token_ids r) \<le> 3"
proof -
  let ?outs = "[demo_out [5] ''abort'', demo_out [6, 7] ''abort'', demo_out [8] ''abort'']"
  have lim: "length (tokens_before ?outs (Suc i)) \<le> 3" if "i < length ?outs" "length (tokens_before ?outs i) < 3" for i
    using that by (cases i; cases "i - 1") (auto simp: demo_out_def tokens_before_def numeral_2_eq_2 less_Suc_eq)
  have "\<exists>r calls left. resume_generate True [1] (Some (int 3)) ?outs = Some (r, calls, left)
    \<and> length calls \<le> 3 \<and> length (all_token_ids r) \<le> 3 \<and> snd ` set calls \<subseteq> {Some k |k. 0 < k}"
    by (rule resumed_generation_terminates [OF _ _ _ lim]) (auto simp: demo_out_def)
  then show ?thesis by auto
qed

text \<open>Activating hybrid replicas keeps the registry consistent and can be undone: of the given resources
  those that are registered and not yet active are activated, all of them, and deactivating these restores
  the manager and the load balancer, lists, order and counters included. In between
  \<open>get_active_server_count\<close> has grown by two for each of them, for an active hybrid replica is in both of
  the collections that it adds.\<close>

theorem activation_can_be_undone:
  assumes "manager_wf m" and "distinct rids"
  shows "\<exists>m'. add_replicas rids m = (length (addable m rids), m') \<and> manager_wf m'
    \<and> remove_replicas (addable m rids) m' = Inr (length (addable m rids), m)
    \<and> map fst (alive_replicas m') = map fst (alive_replicas m) @ addable m rids
    \<and> get_active_server_count m' = get_active_server_count m + 2 * length (addable m rids)"
  using add_replicas_result [OF assms] add_replicas_wf [OF assms] remove_undoes_add [OF assms]
  by (simp add: get_active_server_count_def)

theorem activation_can_be_undone_witness:
  "\<exists>m m'. add_replicas [''h0'', ''h7''] (m :: (nat, string pydict) server_manager) = (1, m') \<and> remove_replicas [''h0''] m' = Inr (1, m)
     \<and> get_active_server_count m = 1 \<and> get_active_server_count m' = 3"
proof -
  let ?m = "\<lparr>balancer = \<lparr>servers = [(''s'', 9)], inflight_requests = [(''s'', 4)], request_id_to_server = []\<rparr>,
      hybrid_replicas = [(''h0'', (''a'', 5)), (''h1'', (''b'', 6))], alive_replicas = [], alive_addresses = [],
      server_addresses = [''s''], server_handles = [9], rollout_replicas = [(''s'', 9)]\<rparr> :: (nat, string pydict) server_manager"
  have wf: "manager_wf ?m" by (simp add: manager_wf_def balancer_wf_def dict_wf_def has_key_def)
  have d: "distinct [''h0'', ''h7'']" by simp
  have a: "addable ?m [''h0'', ''h7''] = [''h0'']" by (simp add: addable_def has_key_def)
  have c: "get_active_server_count ?m = 1" by (simp add: get_active_server_count_def)
  obtain m' where "add_replicas [''h0'', ''h7''] ?m = (1, m')" "remove_replicas [''h0''] m' = Inr (1, ?m)"
      "get_active_server_count m' = 3"
    using activation_can_be_undone [OF wf d, unfolded a c] by auto
  with c show ?thesis by blast
qed

end
