(* ===== verification/PyString.thy ===== *)
theory PyString
  imports Prelude
begin

text \<open>
  The methods of Python's strings that the modelled code uses, on 8-bit characters, and the reading of a
  number by \<open>float\<close>. Numbers are exact, so the literals \<open>inf\<close> and \<open>nan\<close> are not read.
\<close>

definition is_space :: "char \<Rightarrow> bool" where
  "is_space c \<longleftrightarrow> (of_char c :: nat) \<in> {9, 10, 11, 12, 13, 28, 29, 30, 31, 32, 133, 160}"

definition strip :: "string \<Rightarrow> string" where
  "strip s = rev (dropWhile is_space (rev (dropWhile is_space s)))"

definition starts_with :: "string \<Rightarrow> string \<Rightarrow> bool" where
  "starts_with p s \<longleftrightarrow> take (length p) s = p"

definition ends_with :: "string \<Rightarrow> string \<Rightarrow> bool" where
  "ends_with p s \<longleftrightarrow> length p \<le> length s \<and> drop (length s - length p) s = p"

text \<open>\<open>s.split(c)\<close>, and \<open>s.split(c, 1)\<close> of a string that contains \<open>c\<close>.\<close>

fun split_on :: "char \<Rightarrow> string \<Rightarrow> string list" where
  "split_on c [] = [[]]"
| "split_on c (x # xs) =
     (if x = c then [] # split_on c xs
      else (case split_on c xs of [] \<Rightarrow> [[x]] | w # ws \<Rightarrow> (x # w) # ws))"

definition split_once :: "char \<Rightarrow> string \<Rightarrow> string \<times> string" where
  "split_once c s = (takeWhile (\<lambda>x. x \<noteq> c) s, drop 1 (dropWhile (\<lambda>x. x \<noteq> c) s))"

lemma split_on_not_Nil [simp]: "split_on c s \<noteq> []"
  by (induction s) (auto split: list.splits)

lemma split_on_no_sep: "c \<notin> set s \<Longrightarrow> split_on c s = [s]"
  by (induction s) auto

lemma split_on_sep: "w \<in> set (split_on c s) \<Longrightarrow> c \<notin> set w"
proof (induction s arbitrary: w)
  case (Cons x xs)
  then show ?case by (cases "split_on c xs") (auto split: if_splits)
qed simp

section \<open>Numbers\<close>

definition is_digit :: "char \<Rightarrow> bool" where
  "is_digit c \<longleftrightarrow> 48 \<le> (of_char c :: nat) \<and> (of_char c :: nat) \<le> 57"

definition digit_value :: "char \<Rightarrow> nat" where
  "digit_value c = of_char c - 48"

text \<open>Digits, with single underscores between them: their value, how many there are, and the rest.\<close>

fun read_digits :: "nat \<Rightarrow> nat \<Rightarrow> string \<Rightarrow> nat \<times> nat \<times> string" where
  "read_digits v n [] = (v, n, [])"
| "read_digits v n (c # cs) =
     (if is_digit c then read_digits (10 * v + digit_value c) (n + 1) cs
      else if c = CHR ''_'' \<and> 0 < n \<and> (case cs of [] \<Rightarrow> False | d # _ \<Rightarrow> is_digit d) then read_digits v n cs
      else (v, n, c # cs))"

definition read_sign :: "string \<Rightarrow> real \<times> string" where
  "read_sign s = (case s of [] \<Rightarrow> (1, []) | c # cs \<Rightarrow> if c = CHR ''-'' then (-1, cs) else if c = CHR ''+'' then (1, cs) else (1, s))"

definition read_fraction :: "string \<Rightarrow> nat \<times> nat \<times> string" where
  "read_fraction s = (case s of [] \<Rightarrow> (0, 0, []) | c # cs \<Rightarrow> if c = CHR ''.'' then read_digits 0 0 cs else (0, 0, s))"

text \<open>The exponent, or a failure when something else follows.\<close>

definition read_exponent :: "string \<Rightarrow> real option" where
  "read_exponent s =
     (case s of
        [] \<Rightarrow> Some 1
      | c # cs \<Rightarrow>
          (if c = CHR ''e'' \<or> c = CHR ''E''
           then (let (sign, ds) = read_sign cs; (e, n, rest) = read_digits 0 0 ds in
                 if n = 0 \<or> rest \<noteq> [] then None else Some (if sign < 0 then 1 / 10 ^ e else 10 ^ e))
           else None))"

definition py_float :: "string \<Rightarrow> real option" where
  "py_float s =
     (let (sign, t) = read_sign (strip s);
          (whole, n, t1) = read_digits 0 0 t;
          (frac, m, t2) = read_fraction t1
      in if n + m = 0 then None
         else map_option (\<lambda>e. sign * (real whole + real frac / 10 ^ m) * e) (read_exponent t2))"

lemma py_float_examples:
  "py_float ''2.0'' = Some 2" "py_float '' 0.5 '' = Some (1 / 2)" "py_float ''1e-1'' = Some (1 / 10)"
  "py_float ''abc'' = None" "py_float ''1_'' = None" "py_float ''1_0'' = Some 10"
  by (simp_all add: py_float_def read_sign_def strip_def is_space_def read_fraction_def read_exponent_def is_digit_def
      digit_value_def)

end
