(* ===== verification/RolloutCorr.thy ===== *)
theory RolloutCorr
  imports LossVariants Advantages PyString
begin

text \<open>
  The correction of the mismatch between the policy that generated the responses and the one that is
  trained, \<open>verl/trainer/ppo/rollout_corr_helper.py\<close>: thresholds read from strings, importance-sampling
  weights, rejection by divergence, the metrics of both, and the loss in bypass mode
  (\<open>core_algos.py\<close>). Detached tensors are values.
\<close>

section \<open>Thresholds\<close>

text \<open>A threshold as it stands in the configuration: a boolean, a number, a string or something else.\<close>

datatype threshold_spec = SpecBool bool | SpecNum real | SpecStr string | SpecOther

definition float_or_error :: "string \<Rightarrow> real res" where
  "float_or_error s = (case py_float s of None \<Rightarrow> Inl ValueError | Some x \<Rightarrow> Inr x)"

definition parse_rollout_is_threshold :: "threshold_spec \<Rightarrow> (real \<times> real option) res" where
  "parse_rollout_is_threshold spec =
     rbind (case spec of
              SpecBool _ \<Rightarrow> Inl TypeError
            | SpecNum x \<Rightarrow> Inr (x, None)
            | SpecStr str \<Rightarrow>
                (let s = strip str in
                 if s = [] then Inl ValueError
                 else if CHR ''_'' \<in> set s
                 then (let (lower_str, upper_str) = split_once (CHR ''_'') s in
                       rbind (float_or_error lower_str) (\<lambda>lower.
                       rbind (float_or_error upper_str) (\<lambda>upper. Inr (upper, Some lower))))
                 else rbind (float_or_error s) (\<lambda>upper. Inr (upper, None)))
            | SpecOther \<Rightarrow> Inl TypeError) (\<lambda>(upper, lower).
     rbind (rcheck ValueError (\<not> upper \<le> 0)) (\<lambda>_.
     rbind (case lower of
              None \<Rightarrow> Inr ()
            | Some l \<Rightarrow> rbind (rcheck ValueError (\<not> l \<le> 0)) (\<lambda>_. rcheck ValueError (\<not> l > upper))) (\<lambda>_.
     Inr (upper, lower))))"

text \<open>The thresholds of the rejection options. A number goes through its decimal representation, which reads
  as the same number and has no underscore; so do the names of the booleans.\<close>

datatype raw_spec = RawNum real | RawStr string

definition raw_float :: "raw_spec \<Rightarrow> real res" where
  "raw_float raw = (case raw of RawNum x \<Rightarrow> Inr x | RawStr s \<Rightarrow> float_or_error s)"

definition raw_bounds :: "raw_spec \<Rightarrow> (string \<times> string) option" where
  "raw_bounds raw =
     (case raw of RawNum _ \<Rightarrow> None | RawStr s \<Rightarrow> if CHR ''_'' \<in> set s then Some (split_once (CHR ''_'') s) else None)"

definition raw_specs :: "threshold_spec \<Rightarrow> raw_spec list res" where
  "raw_specs spec =
     (case spec of
        SpecBool b \<Rightarrow> Inr [RawStr (if b then ''True'' else ''False'')]
      | SpecNum x \<Rightarrow> Inr [RawNum x]
      | SpecStr s \<Rightarrow> Inr (map RawStr (filter (\<lambda>p. p \<noteq> []) (map strip (split_on (CHR '','') s))))
      | SpecOther \<Rightarrow> Inl TypeError)"

definition parse_option_threshold :: "string \<Rightarrow> raw_spec \<Rightarrow> (real option \<times> real) res" where
  "parse_option_threshold opt spec =
     (if ends_with ''k1'' opt
      then rbind (case raw_bounds spec of
                    Some (lower_str, upper_str) \<Rightarrow>
                      rbind (float_or_error lower_str) (\<lambda>lower.
                      rbind (float_or_error upper_str) (\<lambda>upper. Inr (lower, upper)))
                  | None \<Rightarrow>
                      rbind (raw_float spec) (\<lambda>upper.
                      rbind (rcheck ZeroDivisionError (upper \<noteq> 0)) (\<lambda>_. Inr (1 / upper, upper)))) (\<lambda>(lower, upper).
           rbind (rcheck ValueError (\<not> (lower \<le> 0 \<or> upper \<le> 0))) (\<lambda>_. Inr (Some lower, upper)))
      else rbind (rcheck ValueError (raw_bounds spec = None)) (\<lambda>_.
           rbind (raw_float spec) (\<lambda>upper.
           rbind (rcheck ValueError (\<not> upper \<le> 0)) (\<lambda>_. Inr (None, upper)))))"

definition parse_rollout_rs_thresholds :: "string list \<Rightarrow> threshold_spec option \<Rightarrow> (real option \<times> real) pydict res" where
  "parse_rollout_rs_thresholds options threshold_spec =
     (case threshold_spec of
        None \<Rightarrow> Inl ValueError
      | Some spec \<Rightarrow>
          rbind (raw_specs spec) (\<lambda>raws.
          rbind (rcheck ValueError (raws \<noteq> [])) (\<lambda>_.
          rbind (rcheck ValueError (length raws \<in> {1, length options})) (\<lambda>_.
          (let raws' = (if length raws = 1 \<and> 1 < length options then replicate (length options) (hd raws) else raws) in
           rmap (\<lambda>(opt, raw). rbind (parse_option_threshold opt raw) (\<lambda>t. Inr (opt, t))) (zip options raws'))))))"

section \<open>Rejection\<close>

definition supported_rollout_rs_options :: "string list" where
  "supported_rollout_rs_options =
     [''token_k1'', ''token_k2'', ''token_k3'', ''seq_sum_k1'', ''seq_sum_k2'', ''seq_sum_k3'',
      ''seq_mean_k1'', ''seq_mean_k2'', ''seq_mean_k3'', ''seq_max_k2'', ''seq_max_k3'']"

definition token_level_options :: "string list" where
  "token_level_options = [''token_k1'', ''token_k2'', ''token_k3'']"

text \<open>The options of the comma-separated string, checked, without repetitions.\<close>

fun normalize_options :: "string list \<Rightarrow> string list \<Rightarrow> string list res" where
  "normalize_options seen [] = Inr seen"
| "normalize_options seen (opt # opts) =
     rbind (rcheck ValueError (opt \<in> set supported_rollout_rs_options)) (\<lambda>_.
     normalize_options (if opt \<in> set seen then seen else seen @ [opt]) opts)"

definition safe_log_ratio :: "real \<Rightarrow> real" where
  "safe_log_ratio l = clamp (-20) 20 l"

definition token_k1 :: "real \<Rightarrow> real" where
  "token_k1 l = - safe_log_ratio l"

definition token_k2 :: "real \<Rightarrow> real" where
  "token_k2 l = 1 / 2 * (safe_log_ratio l)\<^sup>2"

definition token_k3 :: "real \<Rightarrow> real" where
  "token_k3 l = exp (safe_log_ratio l) - 1 - safe_log_ratio l"

definition token_statistic :: "string \<Rightarrow> real \<Rightarrow> real" where
  "token_statistic opt =
     (if ends_with ''k1'' opt then token_k1 else if ends_with ''k2'' opt then token_k2 else token_k3)"

text \<open>Statistics of a row under its mask.\<close>

definition row_mean :: "real list \<Rightarrow> real list \<Rightarrow> real" where
  "row_mean vals m = masked_sum1 vals m / (sum_list m + 1 / 10 ^ 8)"

definition row_valid :: "real list \<Rightarrow> real list \<Rightarrow> real list" where
  "row_valid vals m = map fst (filter (\<lambda>(v, x). x \<noteq> 0) (zip vals m))"

definition row_max :: "real list \<Rightarrow> real list \<Rightarrow> real" where
  "row_max vals m = (case row_valid vals m of [] \<Rightarrow> 0 | v # vs \<Rightarrow> fold max vs v)"

definition sequence_statistic :: "string \<Rightarrow> tensor \<Rightarrow> tensor \<Rightarrow> real list" where
  "sequence_statistic opt stats msk =
     map2 (if starts_with ''seq_sum'' opt then masked_sum1 else if starts_with ''seq_mean'' opt then row_mean else row_max)
       stats msk"

text \<open>A number per row, for every token of the row.\<close>

definition expand_rows :: "'a list \<Rightarrow> 'b list list \<Rightarrow> 'a list list" where
  "expand_rows xs msk = map2 (\<lambda>x row. replicate (length row) x) xs msk"

text \<open>The bounds of an option, in logarithms for \<open>k1\<close>.\<close>

record rs_bounds =
  rs_lower :: "real option"
  rs_upper :: real

definition option_bounds :: "real option \<times> real \<Rightarrow> rs_bounds" where
  "option_bounds t =
     (case t of
        (Some lower, upper) \<Rightarrow> \<lparr>rs_lower = Some (ln lower), rs_upper = ln upper\<rparr>
      | (None, upper) \<Rightarrow> \<lparr>rs_lower = None, rs_upper = upper\<rparr>)"

definition in_bounds :: "rs_bounds \<Rightarrow> real \<Rightarrow> bool" where
  "in_bounds b x \<longleftrightarrow> (case rs_lower b of None \<Rightarrow> True | Some l \<Rightarrow> l \<le> x) \<and> x \<le> rs_upper b"

text \<open>The statistic of an option: per token, and for the options on sequences per row as well.\<close>

definition option_statistic :: "string \<Rightarrow> tensor \<Rightarrow> tensor \<Rightarrow> tensor \<times> real list option" where
  "option_statistic opt log_ratio msk =
     (let stats = tmap (token_statistic opt) log_ratio in
      if opt \<in> set token_level_options then (stats, None)
      else (let seq_stat = sequence_statistic opt stats msk in (expand_rows seq_stat msk, Some seq_stat)))"

definition option_keep :: "rs_bounds \<Rightarrow> tensor \<times> real list option \<Rightarrow> tensor \<Rightarrow> bool list list" where
  "option_keep b statistic msk =
     (case snd statistic of
        None \<Rightarrow> tmap (in_bounds b) (fst statistic)
      | Some seq_stat \<Rightarrow> expand_rows (map (in_bounds b) seq_stat) msk)"

section \<open>Metrics of the rejection\<close>

definition valid_tokens :: "tensor \<Rightarrow> tensor \<Rightarrow> real list" where
  "valid_tokens vals msk = concat (map2 row_valid vals msk)"

definition list_max :: "real list \<Rightarrow> real" where
  "list_max xs = Max (set xs)"

definition list_min :: "real list \<Rightarrow> real" where
  "list_min xs = Min (set xs)"

definition share :: "(real \<Rightarrow> bool) \<Rightarrow> real list \<Rightarrow> real" where
  "share P xs = tmean (map (\<lambda>x. of_bool (P x)) xs)"

definition any_token :: "tensor \<Rightarrow> bool" where
  "any_token msk \<longleftrightarrow> (\<exists>row \<in> set msk. \<exists>m \<in> set row. m \<noteq> 0)"

definition row_means :: "tensor \<Rightarrow> tensor \<Rightarrow> real list" where
  "row_means vals msk = map2 row_mean vals msk"

definition seq_valid :: "tensor \<Rightarrow> bool list" where
  "seq_valid msk = map (\<lambda>n. n > 0) (row_sums msk)"

text \<open>The standard deviation of numbers clamped to \<open>[lo, hi]\<close>.\<close>

definition clamped_std :: "real \<Rightarrow> real \<Rightarrow> tensor \<Rightarrow> tensor \<Rightarrow> real" where
  "clamped_std lo hi vals msk =
     (if tsum msk > 1
      then (let clamped = tmap (clamp lo hi) vals; mean = masked_mean clamped msk;
                var = masked_mean (tmap (\<lambda>v. v\<^sup>2) clamped) msk - mean\<^sup>2
            in sqrt (max 0 var))
      else 0)"

definition std_of_many :: "real list \<Rightarrow> real" where
  "std_of_many xs = (if length xs > 1 then tstd xs else 0)"

definition compute_rs_metrics ::
    "string \<Rightarrow> tensor \<times> real list option \<Rightarrow> tensor \<Rightarrow> rs_bounds \<Rightarrow> real pydict res" where
  "compute_rs_metrics option_name statistic msk b =
     (let stats = fst statistic;
          prefix = ''rollout_rs_'' @ option_name;
          seq_values = (case snd statistic of Some xs \<Rightarrow> xs | None \<Rightarrow> row_means stats msk);
          seq_values_valid = map fst (filter snd (zip seq_values (seq_valid msk)));
          by_sequence = (snd statistic \<noteq> None \<and> seq_values_valid \<noteq> []);
          high = (\<lambda>x. x > rs_upper b);
          low = (\<lambda>x. case rs_lower b of None \<Rightarrow> False | Some l \<Rightarrow> x < l);
          token_share = (\<lambda>P. masked_mean (tmap (\<lambda>x. of_bool (P x)) stats) msk)
      in rbind (rcheck ValueError (any_token msk)) (\<lambda>_.
         Inr ([(prefix @ ''_mean'', masked_mean stats msk),
               (prefix @ ''_max'', list_max (if by_sequence then seq_values_valid else valid_tokens stats msk)),
               (prefix @ ''_min'', list_min (if by_sequence then seq_values_valid else valid_tokens stats msk)),
               (prefix @ ''_fraction_high'', if by_sequence then share high seq_values_valid else token_share high),
               (prefix @ ''_fraction_low'', if by_sequence then share low seq_values_valid else token_share low),
               (prefix @ ''_std'', clamped_std (case rs_lower b of None \<Rightarrow> 0 | Some l \<Rightarrow> l) (rs_upper b) stats msk)]
              @ (if seq_values_valid \<noteq> []
                 then [(prefix @ ''_seq_mean'', tmean seq_values_valid), (prefix @ ''_seq_std'', std_of_many seq_values_valid),
                       (prefix @ ''_seq_max'', list_max seq_values_valid), (prefix @ ''_seq_min'', list_min seq_values_valid),
                       (prefix @ ''_seq_max_deviation'', list_max (map abs seq_values_valid)),
                       (prefix @ ''_seq_fraction_high'', share high seq_values_valid)]
                      @ (if rs_lower b = None then [] else [(prefix @ ''_seq_fraction_low'', share low seq_values_valid)])
                 else map (\<lambda>k. (prefix @ k, 0)) [''_seq_mean'', ''_seq_std'', ''_seq_max'', ''_seq_min'', ''_seq_max_deviation'',
                       ''_seq_fraction_high'', ''_seq_fraction_low'']))))"

text \<open>The rows in which a valid token is not kept.\<close>

definition rows_hit :: "bool list list \<Rightarrow> tensor \<Rightarrow> bool list" where
  "rows_hit keep msk = map2 (\<lambda>ks ms. \<exists>(k, m) \<in> set (zip ks ms). \<not> k \<and> m \<noteq> 0) keep msk"

definition mask_fractions :: "string \<Rightarrow> bool list list \<Rightarrow> tensor \<Rightarrow> real pydict" where
  "mask_fractions option_name keep msk =
     (let valid = map of_bool (seq_valid msk) :: real list in
      [(''rollout_rs_'' @ option_name @ ''_masked_fraction'', masked_mean (tmap (\<lambda>k. 1 - of_bool k) keep) msk),
       (''rollout_rs_'' @ option_name @ ''_seq_masked_fraction'',
        if sum_list valid > 0
        then sum_list (map2 (\<lambda>hit v. of_bool hit * v) (rows_hit keep msk) valid) / sum_list valid else 0)])"

text \<open>One option: the kept tokens and its metrics.\<close>

definition reject_option ::
    "tensor \<Rightarrow> tensor \<Rightarrow> string \<times> real option \<times> real \<Rightarrow> (bool list list \<times> real pydict) res" where
  "reject_option log_ratio msk opt_threshold =
     (case opt_threshold of
        (opt, threshold) \<Rightarrow>
          (let b = option_bounds threshold; statistic = option_statistic opt log_ratio msk; keep = option_keep b statistic msk in
           rbind (compute_rs_metrics opt statistic msk b) (\<lambda>ms.
           Inr (keep, dict_update ms (mask_fractions opt keep msk)))))"

definition combine_masks :: "tensor \<Rightarrow> bool list list list \<Rightarrow> tensor" where
  "combine_masks log_ratio keeps = foldl (\<lambda>acc keep. tmap2 (\<lambda>a k. a * of_bool k) acc keep) (tmap (\<lambda>_. 1) log_ratio) keeps"

definition compute_rollout_rejection_mask ::
    "tensor \<Rightarrow> tensor \<Rightarrow> string option \<Rightarrow> threshold_spec option \<Rightarrow> (tensor \<times> real pydict) res" where
  "compute_rollout_rejection_mask log_ratio msk rollout_rs rollout_rs_threshold =
     (case rollout_rs of
        None \<Rightarrow> Inl ValueError
      | Some rs \<Rightarrow>
          rbind (rcheck ValueError (rollout_rs_threshold \<noteq> None)) (\<lambda>_.
          if log_ratio = [] then Inr (msk, [])
          else (let option_modes = filter (\<lambda>opt. opt \<noteq> []) (map strip (split_on (CHR '','') rs)) in
                rbind (rcheck ValueError (option_modes \<noteq> [])) (\<lambda>_.
                rbind (normalize_options [] option_modes) (\<lambda>options.
                rbind (parse_rollout_rs_thresholds options rollout_rs_threshold) (\<lambda>thresholds.
                rbind (rmap (reject_option log_ratio msk) thresholds) (\<lambda>results.
                (let final_mask = combine_masks log_ratio (map fst results);
                     hits = rows_hit (tmap (\<lambda>x. x > 1 / 2) final_mask) msk;
                     metrics = dict_update (foldl dict_update [] (map snd results))
                       [(''rollout_rs_masked_fraction'', masked_mean (tmap (\<lambda>x. 1 - x) final_mask) msk),
                        (''rollout_rs_seq_masked_fraction'', tmean (map of_bool hits))]
                 in Inr (tmap2 (*) msk final_mask, metrics)))))))))"

section \<open>Importance-sampling weights\<close>

definition sequence_log_ratio :: "tensor \<Rightarrow> tensor \<Rightarrow> real list" where
  "sequence_log_ratio log_ratio msk = map2 masked_sum1 log_ratio msk"

definition raw_is_weights :: "string \<Rightarrow> tensor \<Rightarrow> tensor \<Rightarrow> tensor" where
  "raw_is_weights rollout_is log_ratio msk =
     tmap2 (*)
       (if rollout_is = ''token'' then tmap (\<lambda>l. exp (safe_log_ratio l)) log_ratio
        else expand_rows (map (\<lambda>s. exp (safe_log_ratio s)) (sequence_log_ratio log_ratio msk)) log_ratio)
       msk"

definition truncate_weight :: "real \<Rightarrow> real option \<Rightarrow> real \<Rightarrow> real" where
  "truncate_weight upper lower w =
     (case lower of None \<Rightarrow> min upper w | Some l \<Rightarrow> if l \<le> w \<and> w \<le> upper then w else 0)"

text \<open>The effective sample size divides Python numbers, so it raises when no weight is left.\<close>

definition effective_sample_size :: "real \<Rightarrow> tensor \<Rightarrow> tensor \<Rightarrow> real res" where
  "effective_sample_size threshold weights msk =
     (let clamped = tmap (clamp 0 threshold) weights; mean = masked_mean clamped msk;
          second = masked_mean (tmap (\<lambda>w. (w / (mean + 1 / 10 ^ 8))\<^sup>2) clamped) msk
      in rbind (rcheck ZeroDivisionError (second \<noteq> 0)) (\<lambda>_. Inr (1 / second)))"

definition compute_is_metrics ::
    "tensor \<Rightarrow> tensor \<Rightarrow> tensor \<Rightarrow> tensor \<Rightarrow> string \<Rightarrow> real \<Rightarrow> real option \<Rightarrow> real pydict res" where
  "compute_is_metrics weights raw_weights log_ratio msk rollout_is threshold lower =
     (let low = (case lower of None \<Rightarrow> 1 / threshold | Some l \<Rightarrow> l);
          seq_log = sequence_log_ratio log_ratio msk;
          seq_means = row_means weights msk;
          mean = masked_mean weights msk;
          level_metrics =
            (if rollout_is = ''sequence''
             then [(''rollout_is_max'', exp (min 20 (list_max seq_log))), (''rollout_is_min'', exp (list_min seq_log)),
                   (''rollout_is_mean'', mean),
                   (''rollout_is_ratio_fraction_high'', share (\<lambda>x. x > ln threshold) seq_log),
                   (''rollout_is_ratio_fraction_low'', share (\<lambda>x. x < ln low) seq_log)]
             else [(''rollout_is_mean'', mean),
                   (''rollout_is_ratio_fraction_high'', masked_mean (tmap (\<lambda>w. of_bool (w > threshold)) raw_weights) msk),
                   (''rollout_is_ratio_fraction_low'', masked_mean (tmap (\<lambda>w. of_bool (w < low)) raw_weights) msk),
                   (''rollout_is_max'', list_max (valid_tokens weights msk)), (''rollout_is_min'', list_min (valid_tokens weights msk))])
      in rbind (rcheck ValueError (any_token msk)) (\<lambda>_.
         rbind (effective_sample_size threshold weights msk) (\<lambda>ess.
         Inr (level_metrics @
              [(''rollout_is_std'', clamped_std 0 threshold weights msk), (''rollout_is_eff_sample_size'', ess),
               (''rollout_is_seq_mean'', tmean seq_means), (''rollout_is_seq_std'', std_of_many seq_means),
               (''rollout_is_seq_max'', list_max seq_means), (''rollout_is_seq_min'', list_min seq_means),
               (''rollout_is_seq_max_deviation'', list_max (map (\<lambda>x. \<bar>x - 1\<bar>) seq_means)),
               (''rollout_is_seq_fraction_high'', share (\<lambda>x. x > threshold) seq_means),
               (''rollout_is_seq_fraction_low'', share (\<lambda>x. x < low) seq_means)]))))"

text \<open>The mean over all ranks: the reduction of the local sum and the local count is a parameter, absent when
  the processes are not distributed.\<close>

type_synonym reduction = "(real \<times> real \<Rightarrow> real \<times> real) option"

definition distributed_masked_mean :: "(real \<times> real \<Rightarrow> real \<times> real) \<Rightarrow> real list \<Rightarrow> real list \<Rightarrow> real" where
  "distributed_masked_mean all_reduce vals msk =
     (let (global_sum, global_num) = all_reduce (sum_list (map2 (*) vals msk), sum_list msk) in global_sum / global_num)"

definition is_weights_mean :: "reduction \<Rightarrow> string \<Rightarrow> tensor \<Rightarrow> tensor \<Rightarrow> real" where
  "is_weights_mean reduction rollout_is weights msk =
     (if rollout_is = ''token''
      then (case reduction of
              Some all_reduce \<Rightarrow> distributed_masked_mean all_reduce (concat weights) (concat msk)
            | None \<Rightarrow> masked_mean weights msk)
      else (let seq_weights = row_means weights msk; seq_mask = map of_bool (seq_valid msk) in
            case reduction of
              Some all_reduce \<Rightarrow> distributed_masked_mean all_reduce seq_weights seq_mask
            | None \<Rightarrow> sum_list (map2 (*) seq_weights seq_mask) / max (1 / 10 ^ 8) (sum_list seq_mask)))"

definition batch_normalize :: "reduction \<Rightarrow> string \<Rightarrow> tensor \<Rightarrow> tensor \<Rightarrow> tensor \<times> real" where
  "batch_normalize reduction rollout_is weights msk =
     (let weights_mean = is_weights_mean reduction rollout_is weights msk in
      if weights_mean > 1 / 10 ^ 8 then (tmap (\<lambda>w. w / weights_mean) weights, weights_mean) else (weights, 1))"

definition compute_rollout_correction_weights ::
    "reduction \<Rightarrow> tensor \<Rightarrow> tensor \<Rightarrow> string \<Rightarrow> threshold_spec \<Rightarrow> bool \<Rightarrow> (tensor \<times> real pydict) res" where
  "compute_rollout_correction_weights reduction log_ratio msk rollout_is rollout_is_threshold batch_norm =
     rbind (rcheck ValueError (rollout_is \<in> {''token'', ''sequence''})) (\<lambda>_.
     rbind (parse_rollout_is_threshold rollout_is_threshold) (\<lambda>(upper, lower).
     (let raw = raw_is_weights rollout_is log_ratio msk;
          weights = tmap (truncate_weight upper lower) raw in
      rbind (compute_is_metrics weights raw log_ratio msk rollout_is upper lower) (\<lambda>ms.
      (let ms1 = (case lower of
                    None \<Rightarrow> ms
                  | Some l \<Rightarrow> dict_set ms ''rollout_is_oob_ratio'' (masked_mean (tmap (\<lambda>w. of_bool (w < l \<or> w > upper)) raw) msk))
       in if batch_norm
          then (let (weights', factor) = batch_normalize reduction rollout_is weights msk in
                Inr (weights', dict_set ms1 ''rollout_is_batch_norm_factor'' factor))
          else Inr (weights, ms1))))))"

section \<open>Diagnostics\<close>

definition compute_offpolicy_metrics :: "tensor \<Rightarrow> tensor option \<Rightarrow> tensor \<Rightarrow> real pydict res" where
  "compute_offpolicy_metrics old rollout_option msk =
     rbind (rassert (any_token msk)) (\<lambda>_.
     (let training = row_means old msk;
          ms = [(''training_ppl'', tmean (map (\<lambda>x. exp (- x)) training)), (''training_log_ppl'', tmean (map uminus training))] in
      case rollout_option of
        None \<Rightarrow> Inr ms
      | Some rollout_lp \<Rightarrow>
          (let log_ratio = tmap2 (-) old rollout_lp;
               rollout_means = row_means rollout_lp msk;
               diffs = map2 (-) rollout_means training in
           Inr (ms @
             [(''kl'', masked_mean (tmap2 (-) rollout_lp old) msk),
              (''k3_kl'', masked_mean (tmap (\<lambda>l. exp l - l - 1) log_ratio) msk),
              (''rollout_ppl'', tmean (map (\<lambda>x. exp (- x)) rollout_means)), (''rollout_log_ppl'', tmean (map uminus rollout_means)),
              (''log_ppl_diff'', tmean diffs), (''log_ppl_abs_diff'', tmean (map abs diffs)),
              (''log_ppl_diff_max'', list_max diffs), (''log_ppl_diff_min'', list_min diffs),
              (''ppl_ratio'', tmean (map exp diffs)),
              (''chi2_token'', masked_mean (tmap (\<lambda>l. (exp (safe_log_ratio l))\<^sup>2) log_ratio) msk - 1),
              (''chi2_seq'', tmean (map (\<lambda>s. exp (2 * safe_log_ratio s)) (sequence_log_ratio log_ratio msk)) - 1)]))))"

definition with_prefix :: "real pydict \<Rightarrow> real pydict" where
  "with_prefix ms = map (\<lambda>(k, v). (''rollout_corr/'' @ k, v)) ms"

definition compute_rollout_corr_metrics_from_logprobs :: "tensor \<Rightarrow> tensor \<Rightarrow> tensor \<Rightarrow> real pydict res" where
  "compute_rollout_corr_metrics_from_logprobs lp rollout_lp msk =
     rbind (compute_offpolicy_metrics lp (Some rollout_lp) msk) (\<lambda>ms. Inr (with_prefix ms))"

section \<open>The correction of a batch\<close>

record rollout_corr_config =
  corr_rollout_is :: "string option"
  corr_rollout_is_threshold :: "threshold_spec option"
  corr_batch_normalize :: bool
  corr_rollout_rs :: "string option"
  corr_rollout_rs_threshold :: "threshold_spec option"
  corr_loss_type :: string

text \<open>The weights are wrapped into a container under the key \<open>rollout_is_weights\<close>.\<close>

definition weights_proto :: "tensor option \<Rightarrow> (real list, 'o) dataproto option res" where
  "weights_proto weights =
     (case weights of
        None \<Rightarrow> Inr None
      | Some w \<Rightarrow> rbind (from_dict [(''rollout_is_weights'', w)] [] [] False) (\<lambda>dp. Inr (Some dp)))"

definition compute_rollout_correction_and_rejection_mask ::
    "reduction \<Rightarrow> tensor \<Rightarrow> tensor \<Rightarrow> tensor \<Rightarrow> rollout_corr_config \<Rightarrow> (tensor option \<times> tensor \<times> real pydict) res" where
  "compute_rollout_correction_and_rejection_mask reduction old rollout_lp msk cfg =
     rbind (rcheck ValueError (any_token msk)) (\<lambda>_.
     rbind (rcheck ValueError (same_shape old rollout_lp)) (\<lambda>_.
     rbind (rcheck ValueError (same_shape old msk)) (\<lambda>_.
     (let log_ratio = tmap2 (-) old rollout_lp in
      rbind (case (corr_rollout_is cfg, corr_rollout_is_threshold cfg) of
               (Some rollout_is, Some threshold) \<Rightarrow>
                 rbind (compute_rollout_correction_weights reduction log_ratio msk rollout_is threshold (corr_batch_normalize cfg))
                   (\<lambda>(w, ms). Inr (Some w, ms))
             | _ \<Rightarrow> Inr (None, [])) (\<lambda>(weights, ms1).
      rbind (case corr_rollout_rs cfg of
               None \<Rightarrow> Inr (msk, [])
             | Some rs \<Rightarrow>
                 rbind (rcheck ValueError (corr_rollout_rs_threshold cfg \<noteq> None)) (\<lambda>_.
                 compute_rollout_rejection_mask log_ratio msk (Some rs) (corr_rollout_rs_threshold cfg))) (\<lambda>(modified, ms2).
      rbind (compute_offpolicy_metrics old (Some rollout_lp) msk) (\<lambda>ms3.
      Inr (weights, modified, with_prefix (dict_update (dict_update (dict_update [] ms1) ms2) ms3)))))))))"

text \<open>On a batch: the response mask is replaced, the weights are added.\<close>

definition set_tensor :: "string \<Rightarrow> 'r list \<Rightarrow> ('r, 'o) dataproto \<Rightarrow> ('r, 'o) dataproto" where
  "set_tensor k v dp = dp\<lparr>batch := map_option (\<lambda>td. td\<lparr>tensors := dict_set (tensors td) k v\<rparr>) (batch dp)\<rparr>"

definition get_tensor :: "string \<Rightarrow> ('r, 'o) dataproto \<Rightarrow> 'r list res" where
  "get_tensor k dp = (case batch dp of None \<Rightarrow> Inl TypeError | Some td \<Rightarrow> dict_get (tensors td) k)"

definition compute_rollout_correction_and_add_to_batch ::
    "reduction \<Rightarrow> ('o list \<Rightarrow> 'o list \<Rightarrow> bool) \<Rightarrow> (real list, 'o) dataproto \<Rightarrow> rollout_corr_config
     \<Rightarrow> ((real list, 'o) dataproto \<times> real pydict) res" where
  "compute_rollout_correction_and_add_to_batch reduction deep_equal dp cfg =
     rbind (get_tensor ''old_log_probs'' dp) (\<lambda>old.
     rbind (get_tensor ''rollout_log_probs'' dp) (\<lambda>rollout_lp.
     rbind (get_tensor ''response_mask'' dp) (\<lambda>msk.
     rbind (compute_rollout_correction_and_rejection_mask reduction old rollout_lp msk cfg) (\<lambda>(weights, modified, ms).
     rbind (weights_proto weights) (\<lambda>proto.
     (let dp1 = set_tensor ''response_mask'' modified dp in
      case proto of
        None \<Rightarrow> Inr (dp1, ms)
      | Some w \<Rightarrow> rbind (union_dataproto deep_equal dp1 w) (\<lambda>dp2. Inr (dp2, ms))))))))"

text \<open>The policy-loss configuration receives the correction and the loss mode.\<close>

definition apply_bypass_mode ::
    "(real list, 'o) dataproto \<Rightarrow> rollout_corr_config option \<Rightarrow> ((real list, 'o) dataproto \<times> rollout_corr_config option \<times> string) res" where
  "apply_bypass_mode dp corr =
     (case batch dp of
        None \<Rightarrow> Inl TypeError
      | Some td \<Rightarrow>
          rbind (rcheck ValueError (has_key (tensors td) ''rollout_log_probs'')) (\<lambda>_.
          rbind (get_tensor ''rollout_log_probs'' dp) (\<lambda>rollout_lp.
          Inr (set_tensor ''old_log_probs'' rollout_lp dp, corr, ''bypass_mode''))))"

section \<open>The loss in bypass mode\<close>

text \<open>The old policy is the rollout policy. The rejected tokens leave the mask; the weights are used by
  REINFORCE only.\<close>

definition compute_policy_loss_bypass_mode ::
    "reduction \<Rightarrow> rollout_corr_config option \<Rightarrow> actor_config option \<Rightarrow> policy_inputs \<Rightarrow> string \<Rightarrow> loss_result" where
  "compute_policy_loss_bypass_mode reduction corr config_option inp loss_agg_mode =
     rbind (rassert (config_option \<noteq> None)) (\<lambda>_.
     case corr of
       None \<Rightarrow> Inl ValueError
     | Some cfg \<Rightarrow>
         rbind (compute_rollout_correction_and_rejection_mask reduction (log_prob inp) (old_log_prob inp) (response_mask inp) cfg)
           (\<lambda>(weights, effective_mask, rollout_metrics).
         rbind (if corr_loss_type cfg = ''reinforce''
                then compute_policy_loss_reinforce config_option
                       (inp\<lparr>response_mask := effective_mask, rollout_is_weights := weights\<rparr>) loss_agg_mode
                else if corr_loss_type cfg = ''ppo_clip''
                then compute_policy_loss_vanilla config_option
                       (inp\<lparr>response_mask := effective_mask, rollout_is_weights := None\<rparr>) loss_agg_mode
                else Inl ValueError) (\<lambda>(pg_loss, pg_metrics).
         Inr (pg_loss, dict_update pg_metrics rollout_metrics))))"

end
