(* ===== verification/RolloutCorrLaws.thy ===== *)
theory RolloutCorrLaws
  imports RolloutCorr LossLaws
begin

text \<open>
  What the rollout correction does to a batch: rejection keeps exactly the valid tokens that pass every
  option, the weights stay in their bounds and vanish on padding, normalising gives them mean one, and
  without a mismatch nothing is corrected.
\<close>

section \<open>Shapes\<close>

lemma same_shape_length: "same_shape A B \<Longrightarrow> length A = length B"
  unfolding same_shape_def by (metis length_map)

lemma same_shape_nth: "same_shape A B \<Longrightarrow> i < length A \<Longrightarrow> length (A ! i) = length (B ! i)"
  unfolding same_shape_def by (metis length_map nth_map)

lemma same_shapeI: "length A = length B \<Longrightarrow> (\<And>i. i < length A \<Longrightarrow> length (A ! i) = length (B ! i)) \<Longrightarrow> same_shape A B"
  unfolding same_shape_def by (auto intro: nth_equalityI)

lemma same_shape_sym: "same_shape A B \<Longrightarrow> same_shape B A"
  by (simp add: same_shape_def)

declare same_shape_refl [simp]

lemma same_shape_tmap_iff [simp]: "same_shape (tmap f A) B = same_shape A B"
  by (simp add: same_shape_def tmap_def comp_def)

lemma same_shape_tmap2_right: "same_shape A B \<Longrightarrow> same_shape (tmap2 f A B) B"
  by (rule same_shapeI) (auto simp: same_shape_length same_shape_nth)

lemma nth_tmap: "i < length A \<Longrightarrow> j < length (A ! i) \<Longrightarrow> tmap f A ! i ! j = f (A ! i ! j)"
  by (simp add: tmap_def)

lemma length_tmap [simp]: "length (tmap f A) = length A"
  by (simp add: tmap_def)

lemma length_tmap_row [simp]: "i < length A \<Longrightarrow> length (tmap f A ! i) = length (A ! i)"
  by (simp add: tmap_def)

lemma nth_tmap2_nth:
  "same_shape A B \<Longrightarrow> i < length A \<Longrightarrow> j < length (A ! i) \<Longrightarrow> tmap2 f A B ! i ! j = f (A ! i ! j) (B ! i ! j)"
  by (simp add: same_shape_length [symmetric] same_shape_nth [symmetric])

lemma tensor_eqI:
  "same_shape A B \<Longrightarrow> (\<And>i j. i < length A \<Longrightarrow> j < length (A ! i) \<Longrightarrow> A ! i ! j = B ! i ! j) \<Longrightarrow> A = B"
  by (auto intro!: nth_equalityI dest: same_shape_length same_shape_nth)

lemma same_shape_expand: "length xs = length msk \<Longrightarrow> same_shape (expand_rows xs msk) msk"
  by (rule same_shapeI) (auto simp: expand_rows_def)

lemma nth_expand:
  "length xs = length msk \<Longrightarrow> i < length msk \<Longrightarrow> j < length (msk ! i) \<Longrightarrow> expand_rows xs msk ! i ! j = xs ! i"
  by (simp add: expand_rows_def)

section \<open>Rejection\<close>

text \<open>Whether a token passes an option.\<close>

definition token_passes :: "tensor \<Rightarrow> tensor \<Rightarrow> string \<times> real option \<times> real \<Rightarrow> nat \<Rightarrow> nat \<Rightarrow> bool" where
  "token_passes log_ratio msk ot r t \<longleftrightarrow>
     in_bounds (option_bounds (snd ot))
       (if fst ot \<in> set token_level_options then token_statistic (fst ot) (log_ratio ! r ! t)
        else sequence_statistic (fst ot) (tmap (token_statistic (fst ot)) log_ratio) msk ! r)"

lemma length_sequence_statistic: "same_shape A msk \<Longrightarrow> length (sequence_statistic opt A msk) = length msk"
  by (simp add: sequence_statistic_def same_shape_length)

lemma reject_option_keep:
  assumes "reject_option log_ratio msk ot = Inr (keep, ms)" and "same_shape log_ratio msk"
  shows "same_shape keep msk
    \<and> (\<forall>r < length msk. \<forall>t < length (msk ! r). keep ! r ! t = token_passes log_ratio msk ot r t)"
proof -
  obtain opt th where ot: "ot = (opt, th)" by (cases ot) blast
  let ?b = "option_bounds th" and ?st = "option_statistic opt log_ratio msk"
  have keep: "keep = option_keep ?b ?st msk"
    using assms(1) ot by (auto simp: reject_option_def Let_def res_simps)
  note len = same_shape_length [OF assms(2)] and row = same_shape_nth [OF assms(2)]
  show ?thesis
  proof (cases "opt \<in> set token_level_options")
    case True
    then have "keep = tmap (in_bounds ?b) (tmap (token_statistic opt) log_ratio)"
      using keep by (simp add: option_keep_def option_statistic_def)
    then show ?thesis using True ot assms(2) len row by (auto simp: nth_tmap token_passes_def)
  next
    case False
    let ?s = "sequence_statistic opt (tmap (token_statistic opt) log_ratio) msk"
    have "length ?s = length msk" using assms(2) by (intro length_sequence_statistic) simp
    moreover have "keep = expand_rows (map (in_bounds ?b) ?s) msk"
      using keep False by (simp add: option_keep_def option_statistic_def Let_def)
    ultimately show ?thesis using False ot by (auto simp: nth_expand same_shape_expand token_passes_def)
  qed
qed

lemma combine_masks_result:
  assumes "same_shape log_ratio msk" and "\<And>keep. keep \<in> set keeps \<Longrightarrow> same_shape keep msk"
  shows "same_shape (combine_masks log_ratio keeps) msk
    \<and> (\<forall>r < length msk. \<forall>t < length (msk ! r).
         combine_masks log_ratio keeps ! r ! t = of_bool (\<forall>keep \<in> set keeps. keep ! r ! t))"
  using assms(2)
proof (induction keeps rule: rev_induct)
  case Nil
  show ?case using assms(1) same_shape_length [OF assms(1)] same_shape_nth [OF assms(1)]
    by (auto simp: combine_masks_def nth_tmap)
next
  case (snoc keep keeps)
  let ?c = "combine_masks log_ratio keeps"
  have IH: "same_shape ?c msk" "\<forall>r < length msk. \<forall>t < length (msk ! r). ?c ! r ! t = of_bool (\<forall>keep \<in> set keeps. keep ! r ! t)"
    using snoc by auto
  have k: "same_shape keep msk" using snoc.prems by simp
  have ck: "same_shape ?c keep" by (rule same_shape_trans [OF IH(1) same_shape_sym [OF k]])
  have eq: "combine_masks log_ratio (keeps @ [keep]) = tmap2 (\<lambda>a k. a * of_bool k) ?c keep" by (simp add: combine_masks_def)
  have "same_shape (tmap2 (\<lambda>a k. a * of_bool k) ?c keep) msk" by (rule same_shape_trans [OF same_shape_tmap2_right [OF ck] k])
  moreover have "tmap2 (\<lambda>a k. a * of_bool k) ?c keep ! r ! t = of_bool (\<forall>kp \<in> set (keeps @ [keep]). kp ! r ! t)"
    if "r < length msk" "t < length (msk ! r)" for r t
  proof -
    have "r < length ?c" "t < length (?c ! r)" using that same_shape_length [OF IH(1)] same_shape_nth [OF IH(1)] by auto
    then have "tmap2 (\<lambda>a k. a * of_bool k) ?c keep ! r ! t = ?c ! r ! t * of_bool (keep ! r ! t)"
      by (rule nth_tmap2_nth [OF ck])
    with IH(2) that show ?thesis by auto
  qed
  ultimately show ?case by (simp add: eq)
qed

lemma rmap_results: "rmap f xs = Inr ys \<Longrightarrow> y \<in> set ys \<Longrightarrow> \<exists>x \<in> set xs. f x = Inr y"
  by (induction xs arbitrary: ys) (auto simp: res_simps)

lemma rmap_covers: "rmap f xs = Inr ys \<Longrightarrow> x \<in> set xs \<Longrightarrow> \<exists>y \<in> set ys. f x = Inr y"
  by (induction xs arbitrary: ys) (auto simp: res_simps)

text \<open>A token keeps its mask value exactly if it passes all the options.\<close>

lemma rejection_result:
  assumes "compute_rollout_rejection_mask log_ratio msk (Some rs) spec = Inr (modified, ms)" and "log_ratio \<noteq> []"
    and "same_shape log_ratio msk"
  shows "\<exists>options thresholds. normalize_options [] (filter (\<lambda>opt. opt \<noteq> []) (map strip (split_on (CHR '','') rs))) = Inr options
    \<and> parse_rollout_rs_thresholds options spec = Inr thresholds
    \<and> same_shape modified msk
    \<and> (\<forall>r < length msk. \<forall>t < length (msk ! r).
         modified ! r ! t = (if \<forall>ot \<in> set thresholds. token_passes log_ratio msk ot r t then msk ! r ! t else 0))"
proof -
  obtain options thresholds results
    where n: "normalize_options [] (filter (\<lambda>opt. opt \<noteq> []) (map strip (split_on (CHR '','') rs))) = Inr options"
      and p: "parse_rollout_rs_thresholds options spec = Inr thresholds"
      and r: "rmap (reject_option log_ratio msk) thresholds = Inr results"
      and m: "modified = tmap2 (*) msk (combine_masks log_ratio (map fst results))"
    using assms(1,2) by (auto simp: compute_rollout_rejection_mask_def Let_def res_simps)
  have keep: "\<exists>ot \<in> set thresholds. \<exists>ms. reject_option log_ratio msk ot = Inr (keep, ms)" if "keep \<in> set (map fst results)" for keep
    using that rmap_results [OF r] by fastforce
  have shape: "same_shape keep msk" if "keep \<in> set (map fst results)" for keep
    using keep [OF that] reject_option_keep [OF _ assms(3)] by blast
  let ?c = "combine_masks log_ratio (map fst results)"
  have c: "same_shape ?c msk" "\<And>r t. r < length msk \<Longrightarrow> t < length (msk ! r) \<Longrightarrow>
      ?c ! r ! t = of_bool (\<forall>keep \<in> set (map fst results). keep ! r ! t)"
    using combine_masks_result [OF assms(3), of "map fst results"] shape by blast+
  have all: "(\<forall>keep \<in> set (map fst results). keep ! r ! t) \<longleftrightarrow> (\<forall>ot \<in> set thresholds. token_passes log_ratio msk ot r t)"
    if "r < length msk" "t < length (msk ! r)" for r t
  proof
    assume a: "\<forall>keep \<in> set (map fst results). keep ! r ! t"
    show "\<forall>ot \<in> set thresholds. token_passes log_ratio msk ot r t"
    proof
      fix ot assume "ot \<in> set thresholds"
      with rmap_covers [OF r] obtain keep ms where k: "(keep, ms) \<in> set results" "reject_option log_ratio msk ot = Inr (keep, ms)" by fastforce
      then have "keep ! r ! t" using a by force
      with reject_option_keep [OF k(2) assms(3)] that show "token_passes log_ratio msk ot r t" by simp
    qed
  next
    assume a: "\<forall>ot \<in> set thresholds. token_passes log_ratio msk ot r t"
    show "\<forall>keep \<in> set (map fst results). keep ! r ! t"
    proof
      fix keep assume "keep \<in> set (map fst results)"
      from keep [OF this] obtain ot ms where "ot \<in> set thresholds" "reject_option log_ratio msk ot = Inr (keep, ms)" by blast
      with reject_option_keep [OF this(2) assms(3)] a that show "keep ! r ! t" by simp
    qed
  qed
  have "modified ! r ! t = (if \<forall>ot \<in> set thresholds. token_passes log_ratio msk ot r t then msk ! r ! t else 0)"
    if "r < length msk" "t < length (msk ! r)" for r t
  proof -
    have "modified ! r ! t = msk ! r ! t * ?c ! r ! t"
      unfolding m by (rule nth_tmap2_nth [OF same_shape_sym [OF c(1)] that])
    with c(2) [OF that] all [OF that] show ?thesis by auto
  qed
  moreover have "same_shape modified msk"
    unfolding m by (rule same_shape_trans [OF same_shape_tmap2_right [OF same_shape_sym [OF c(1)]] c(1)])
  ultimately show ?thesis using n p by blast
qed

section \<open>Weights\<close>

lemma sum_map2_zero:
  fixes f :: "'a \<Rightarrow> 'b \<Rightarrow> real"
  assumes "\<And>v m. v \<in> set vs \<Longrightarrow> f v m = 0"
  shows "sum_list (map2 f vs ms) = 0"
proof -
  have "map2 f vs ms = map (\<lambda>_. 0) (zip vs ms)" using assms by (auto dest: set_zip_leftD)
  then show ?thesis by (simp del: map_eq_conv)
qed

text \<open>The unclamped, unmasked weight of a token.\<close>

definition token_weight :: "string \<Rightarrow> tensor \<Rightarrow> tensor \<Rightarrow> nat \<Rightarrow> nat \<Rightarrow> real" where
  "token_weight rollout_is log_ratio msk r t =
     exp (safe_log_ratio (if rollout_is = ''token'' then log_ratio ! r ! t else sequence_log_ratio log_ratio msk ! r))"

lemma raw_is_weights_result:
  assumes "same_shape log_ratio msk"
  shows "same_shape (raw_is_weights rollout_is log_ratio msk) msk"
    and "r < length msk \<Longrightarrow> t < length (msk ! r) \<Longrightarrow>
      raw_is_weights rollout_is log_ratio msk ! r ! t = token_weight rollout_is log_ratio msk r t * msk ! r ! t"
proof -
  note len = same_shape_length [OF assms] and row = same_shape_nth [OF assms]
  let ?s = "map (\<lambda>s. exp (safe_log_ratio s)) (sequence_log_ratio log_ratio msk)"
  let ?e = "if rollout_is = ''token'' then tmap (\<lambda>l. exp (safe_log_ratio l)) log_ratio else expand_rows ?s log_ratio"
  have ls: "length ?s = length log_ratio" using len by (simp add: sequence_log_ratio_def)
  have e: "same_shape ?e msk" using assms same_shape_trans [OF same_shape_expand [OF ls] assms] by simp
  have raw: "raw_is_weights rollout_is log_ratio msk = tmap2 (*) ?e msk" by (simp add: raw_is_weights_def)
  show "same_shape (raw_is_weights rollout_is log_ratio msk) msk" unfolding raw by (rule same_shape_tmap2_right [OF e])
  assume rt: "r < length msk" "t < length (msk ! r)"
  then have "raw_is_weights rollout_is log_ratio msk ! r ! t = ?e ! r ! t * msk ! r ! t"
    unfolding raw using same_shape_length [OF e] same_shape_nth [OF e] by (intro nth_tmap2_nth [OF e]) auto
  moreover have "?e ! r ! t = token_weight rollout_is log_ratio msk r t"
    using rt len row ls by (auto simp: token_weight_def nth_tmap nth_expand sequence_log_ratio_def)
  ultimately show "raw_is_weights rollout_is log_ratio msk ! r ! t = token_weight rollout_is log_ratio msk r t * msk ! r ! t" by simp
qed

lemma parse_is_threshold_bounds:
  assumes "parse_rollout_is_threshold spec = Inr (upper, lower)"
  shows "0 < upper \<and> (\<forall>l. lower = Some l \<longrightarrow> 0 < l \<and> l \<le> upper)"
  using assms by (auto simp: parse_rollout_is_threshold_def res_simps split: option.splits)

definition bounded_weights :: "real \<Rightarrow> real option \<Rightarrow> string \<Rightarrow> tensor \<Rightarrow> tensor \<Rightarrow> tensor" where
  "bounded_weights upper lower rollout_is log_ratio msk = tmap (truncate_weight upper lower) (raw_is_weights rollout_is log_ratio msk)"

lemma correction_weights_cases:
  assumes "compute_rollout_correction_weights reduction log_ratio msk rollout_is spec batch_norm = Inr (w, ms)"
  obtains upper lower where "rollout_is \<in> {''token'', ''sequence''}" and "parse_rollout_is_threshold spec = Inr (upper, lower)"
    and "any_token msk"
    and "w = (if batch_norm then fst (batch_normalize reduction rollout_is (bounded_weights upper lower rollout_is log_ratio msk) msk)
              else bounded_weights upper lower rollout_is log_ratio msk)"
proof -
  obtain upper lower where p: "rollout_is \<in> {''token'', ''sequence''}" "parse_rollout_is_threshold spec = Inr (upper, lower)"
    using assms unfolding compute_rollout_correction_weights_def rbind_eq_Inr rcheck_eq_Inr by fast
  let ?w = "bounded_weights upper lower rollout_is log_ratio msk"
  obtain ms0 where m: "compute_is_metrics ?w (raw_is_weights rollout_is log_ratio msk) log_ratio msk rollout_is upper lower = Inr ms0"
    using assms p(1) unfolding compute_rollout_correction_weights_def p(2) rcheck_def rbind.simps bounded_weights_def Let_def
    by (auto simp: rbind_eq_Inr)
  have "w = (if batch_norm then fst (batch_normalize reduction rollout_is ?w msk) else ?w)"
    using assms p(1) m
    unfolding compute_rollout_correction_weights_def p(2) rcheck_def rbind.simps bounded_weights_def Let_def
    by (cases batch_norm) (simp_all add: split_beta)
  note * = p m this
  from *(3) have "any_token msk" by (auto simp: compute_is_metrics_def Let_def res_simps)
  with * that show thesis by blast
qed

lemma bounded_weights_nth:
  assumes "same_shape log_ratio msk" and "r < length msk" and "t < length (msk ! r)"
  shows "bounded_weights upper lower rollout_is log_ratio msk ! r ! t
    = truncate_weight upper lower (token_weight rollout_is log_ratio msk r t * msk ! r ! t)"
  using raw_is_weights_result [OF assms(1)] assms same_shape_length [OF raw_is_weights_result(1) [OF assms(1)]]
    same_shape_nth [OF raw_is_weights_result(1) [OF assms(1)]]
  by (simp add: bounded_weights_def nth_tmap)

lemma masked_mean_scale: "masked_mean (tmap (\<lambda>w. w / c) vals) msk = masked_mean vals msk / c"
proof -
  have row: "sum_list (map2 (\<lambda>v m. (if m \<noteq> 0 then v else 0) * m) (map (\<lambda>w. w / c) vs) ms)
      = sum_list (map2 (\<lambda>v m. (if m \<noteq> 0 then v else 0) * m) vs ms) / c" for vs ms
    by (induction vs ms rule: list_induct2') (auto simp: add_divide_distrib)
  have "masked_sum (tmap (\<lambda>w. w / c) vals) msk = masked_sum vals msk / c"
  proof (induction vals arbitrary: msk)
    case (Cons vs vals)
    then show ?case
      by (cases msk) (auto simp: masked_sum_def tmap2_def tmap_def row add_divide_distrib)
  qed (simp add: masked_sum_def tmap2_def tmap_def)
  then show ?thesis by (simp add: masked_mean_def)
qed

lemma row_mean_scale: "row_mean (map (\<lambda>w. w / c) vs) ms = row_mean vs ms / c"
proof -
  have "masked_sum1 (map (\<lambda>w. w / c) vs) ms = masked_sum1 vs ms / c"
    unfolding masked_sum1_def by (induction vs ms rule: list_induct2') (auto simp: add_divide_distrib)
  then show ?thesis by (simp add: row_mean_def)
qed

lemma is_weights_mean_scale: "is_weights_mean None rollout_is (tmap (\<lambda>w. w / c) weights) msk = is_weights_mean None rollout_is weights msk / c"
proof -
  have rows: "row_means (tmap (\<lambda>w. w / c) weights) msk = map (\<lambda>x. x / c) (row_means weights msk)"
    unfolding row_means_def tmap_def by (induction weights msk rule: list_induct2') (auto simp: row_mean_scale)
  have "sum_list (map2 (*) (map (\<lambda>x. x / c) xs) ys) = sum_list (map2 (*) xs ys) / c" for xs ys :: "real list"
    by (induction xs ys rule: list_induct2') (auto simp: add_divide_distrib)
  then show ?thesis by (simp add: is_weights_mean_def masked_mean_scale rows Let_def)
qed

lemma masked_mean_all_zero:
  assumes "\<And>row v. row \<in> set vals \<Longrightarrow> v \<in> set row \<Longrightarrow> v = 0"
  shows "masked_mean vals msk = 0"
proof -
  have "masked_sum vals msk = 0"
    using assms
  proof (induction vals arbitrary: msk)
    case (Cons vs vals)
    then have "sum_list (map2 (\<lambda>v m. (if m \<noteq> 0 then v else 0) * m) vs ms) = 0" for ms by (intro sum_map2_zero) auto
    then show ?case using Cons.IH [of "tl msk"] Cons.prems by (cases msk) (auto simp: masked_sum_def tmap2_def)
  qed (simp add: masked_sum_def tmap2_def)
  then show ?thesis by (simp add: masked_mean_def)
qed

lemma in_set_tensor: "row \<in> set A \<Longrightarrow> v \<in> set row \<Longrightarrow> \<exists>r t. r < length A \<and> t < length (A ! r) \<and> v = A ! r ! t"
  by (metis in_set_conv_nth)

lemma effective_sample_size_none:
  assumes "\<And>row v. row \<in> set weights \<Longrightarrow> v \<in> set row \<Longrightarrow> v = 0" and "0 < threshold"
  shows "effective_sample_size threshold weights msk = Inl ZeroDivisionError"
proof -
  have "masked_mean (tmap (\<lambda>w. (w / (c + 1 / 10 ^ 8))\<^sup>2) (tmap (clamp 0 threshold) weights)) msk = 0" for c
    using assms by (intro masked_mean_all_zero) (fastforce simp: tmap_def clamp_def)
  then show ?thesis by (simp add: effective_sample_size_def Let_def)
qed

lemma bounded_weights_shape: "same_shape log_ratio msk \<Longrightarrow> same_shape (bounded_weights upper lower rollout_is log_ratio msk) msk"
  by (simp add: bounded_weights_def raw_is_weights_result(1))

lemma binary_nth: "binary_mask msk \<Longrightarrow> r < length msk \<Longrightarrow> t < length (msk ! r) \<Longrightarrow> msk ! r ! t = 0 \<or> msk ! r ! t = 1"
  unfolding binary_mask_def by (metis nth_mem)

section \<open>No mismatch\<close>

lemma zero_log_ratio: "r < length lp \<Longrightarrow> t < length (lp ! r) \<Longrightarrow> tmap2 (-) lp lp ! r ! t = (0 :: real)"
  by (subst nth_tmap2_nth) auto

lemma zero_log_ratio_rows: "row \<in> set (tmap2 (-) lp lp) \<Longrightarrow> v \<in> set row \<Longrightarrow> v = (0 :: real)"
  by (auto simp: tmap2_def set_zip)

lemma masked_sum1_zero:
  assumes "\<And>v. v \<in> set vs \<Longrightarrow> v = 0"
  shows "masked_sum1 vs ms = 0"
  unfolding masked_sum1_def
proof (rule sum_map2_zero)
  fix v m assume "v \<in> set vs"
  from assms [OF this] show "(if m \<noteq> 0 then v else 0) * m = 0" by simp
qed

lemma fold_max_zero: "set vs \<subseteq> {0} \<Longrightarrow> fold max vs (0 :: real) = 0"
  by (induction vs) auto

lemma row_max_zero:
  assumes "\<And>v. v \<in> set vs \<Longrightarrow> v = 0"
  shows "row_max vs ms = 0"
proof (cases "row_valid vs ms")
  case (Cons w ws)
  have "v = 0" if "v \<in> set (row_valid vs ms)" for v
    using that assms unfolding row_valid_def by (auto dest: set_zip_leftD)
  then have "w = 0" "set ws \<subseteq> {0}" using Cons by auto
  then show ?thesis using fold_max_zero [of ws] by (simp add: row_max_def Cons)
qed (simp add: row_max_def)

lemma token_statistic_zero: "token_statistic opt 0 = 0"
  by (simp add: token_statistic_def token_k1_def token_k2_def token_k3_def safe_log_ratio_def clamp_def)

lemma sequence_statistic_zero:
  assumes "\<And>row v. row \<in> set A \<Longrightarrow> v \<in> set row \<Longrightarrow> v = 0" and "length A = length msk" and "r < length msk"
  shows "sequence_statistic opt A msk ! r = 0"
proof -
  have z: "v = 0" if "v \<in> set (A ! r)" for v using that assms by (metis nth_mem)
  then show ?thesis using assms(2,3)
    by (auto simp: sequence_statistic_def masked_sum1_zero row_mean_def row_max_zero)
qed

lemma zero_passes:
  assumes "same_shape lp msk" and "r < length msk" and "t < length (msk ! r)"
    and "0 \<le> rs_upper (option_bounds (snd ot))" and "\<And>l. rs_lower (option_bounds (snd ot)) = Some l \<Longrightarrow> l \<le> 0"
  shows "token_passes (tmap2 (-) lp lp) msk ot r t"
proof -
  note len = same_shape_length [OF assms(1)] and row = same_shape_nth [OF assms(1)]
  have "tmap2 (-) lp lp ! r ! t = 0" using assms(2,3) len row by (intro zero_log_ratio) auto
  moreover have "sequence_statistic (fst ot) (tmap (token_statistic (fst ot)) (tmap2 (-) lp lp)) msk ! r = 0"
  proof (rule sequence_statistic_zero)
    show "v = 0" if "row \<in> set (tmap (token_statistic (fst ot)) (tmap2 (-) lp lp))" "v \<in> set row" for row v
      using that zero_log_ratio_rows [of _ lp] token_statistic_zero [of "fst ot"] by (auto simp: tmap_def) metis
  qed (use len assms(2) in auto)
  ultimately show ?thesis using assms(4,5)
    by (auto simp: token_passes_def in_bounds_def token_statistic_zero split: option.splits)
qed

lemma zero_token_weight:
  assumes "same_shape lp msk" and "r < length msk" and "t < length (msk ! r)"
  shows "token_weight rollout_is (tmap2 (-) lp lp) msk r t = 1"
proof -
  note len = same_shape_length [OF assms(1)] and row = same_shape_nth [OF assms(1)]
  have "tmap2 (-) lp lp ! r ! t = 0" using assms(2,3) len row by (intro zero_log_ratio) auto
  moreover have "sequence_log_ratio (tmap2 (-) lp lp) msk ! r = 0"
  proof -
    have "r < length (tmap2 (-) lp lp)" using len assms(2) by simp
    then have "masked_sum1 (tmap2 (-) lp lp ! r) (msk ! r) = 0"
      by (intro masked_sum1_zero) (rule zero_log_ratio_rows [OF nth_mem])
    then show ?thesis using len assms(2) by (simp add: sequence_log_ratio_def)
  qed
  ultimately show ?thesis by (simp add: token_weight_def safe_log_ratio_def clamp_def)
qed

lemma zero_weights_are_mask:
  assumes "same_shape lp msk" and "binary_mask msk" and "1 \<le> upper" and "\<And>l. lower = Some l \<Longrightarrow> 0 < l \<and> l \<le> 1"
  shows "bounded_weights upper lower rollout_is (tmap2 (-) lp lp) msk = msk"
proof (rule tensor_eqI)
  have z: "same_shape (tmap2 (-) lp lp) msk" by (rule same_shape_trans [OF same_shape_tmap2_right assms(1)]) simp
  show sh: "same_shape (bounded_weights upper lower rollout_is (tmap2 (-) lp lp) msk) msk" by (rule bounded_weights_shape [OF z])
  fix r t assume "r < length (bounded_weights upper lower rollout_is (tmap2 (-) lp lp) msk)"
    and "t < length (bounded_weights upper lower rollout_is (tmap2 (-) lp lp) msk ! r)"
  then have rt: "r < length msk" "t < length (msk ! r)" using same_shape_length [OF sh] same_shape_nth [OF sh] by auto
  show "bounded_weights upper lower rollout_is (tmap2 (-) lp lp) msk ! r ! t = msk ! r ! t"
    using binary_nth [OF assms(2) rt] assms(3,4)
    by (auto simp: bounded_weights_nth [OF z rt] zero_token_weight [OF assms(1) rt] truncate_weight_def split: option.splits)
qed

lemma rs_thresholds_positive:
  assumes "parse_rollout_rs_thresholds options spec = Inr thresholds" and "(opt, lower, upper) \<in> set thresholds"
  shows "0 < upper" and "\<And>l. lower = Some l \<Longrightarrow> 0 < l"
proof -
  obtain sp where "spec = Some sp" using assms(1) by (auto simp: parse_rollout_rs_thresholds_def split: option.splits)
  then obtain raws where "rmap (\<lambda>(opt, raw). rbind (parse_option_threshold opt raw) (\<lambda>t. Inr (opt, t))) (zip options raws) = Inr thresholds"
    using assms(1) by (auto simp: parse_rollout_rs_thresholds_def res_simps Let_def)
  from rmap_results [OF this assms(2)] obtain raw where "parse_option_threshold opt raw = Inr (lower, upper)"
    by (auto simp: res_simps)
  then have "0 < upper \<and> (\<forall>l. lower = Some l \<longrightarrow> 0 < l)"
    by (auto simp: parse_option_threshold_def res_simps split: if_splits)
  then show "0 < upper" and "\<And>l. lower = Some l \<Longrightarrow> 0 < l" by auto
qed

text \<open>The options that are used: all of them supported, each once, in the order of first appearance.\<close>

lemma normalize_options_result:
  assumes "normalize_options seen opts = Inr os" and "distinct seen"
  shows "set opts \<subseteq> set supported_rollout_rs_options \<and> os = rev (remdups (rev opts @ rev seen))"
  using assms
proof (induction opts arbitrary: seen)
  case Nil
  then show ?case by (simp add: distinct_remdups_id)
next
  case (Cons opt opts)
  let ?seen = "if opt \<in> set seen then seen else seen @ [opt]"
  have opt: "opt \<in> set supported_rollout_rs_options" and n: "normalize_options ?seen opts = Inr os"
    using Cons.prems(1) by (auto simp: res_simps)
  have "set opts \<subseteq> set supported_rollout_rs_options \<and> os = rev (remdups (rev opts @ rev ?seen))"
    using Cons.prems(2) by (intro Cons.IH [OF n]) auto
  moreover have "remdups (xs @ rev ?seen) = remdups (xs @ opt # rev seen)" for xs
    by (cases "opt \<in> set seen") (simp, metis remdups.simps(2) remdups_append2 set_rev, simp)
  ultimately show ?case using opt by simp
qed

lemma rmap_fst:
  "rmap (\<lambda>(opt, raw). rbind (f opt raw) (\<lambda>t. Inr (opt, t))) xs = Inr ys \<Longrightarrow> map fst ys = map fst xs"
  by (induction xs arbitrary: ys) (auto simp: res_simps)

lemma parse_thresholds_options: "parse_rollout_rs_thresholds options spec = Inr thresholds \<Longrightarrow> map fst thresholds = options"
  by (cases spec) (auto simp: parse_rollout_rs_thresholds_def res_simps Let_def map_fst_zip_take dest!: rmap_fst split: if_splits)

section \<open>Properties\<close>

text \<open>C35: Rejection: when it succeeds, every option of the comma-separated list is a supported one, each of them is used
  exactly once, in the order of first appearance and with its threshold of the configuration, and a token
  keeps its mask value exactly if it passes all of them, by its own statistic or that of its sequence;
  otherwise its mask becomes zero.\<close>

theorem rejection_keeps_what_passes_all:
  assumes "compute_rollout_rejection_mask log_ratio msk (Some rs) spec = Inr (modified, ms)"
    and "log_ratio \<noteq> []" and "same_shape log_ratio msk"
  defines "modes \<equiv> filter (\<lambda>opt. opt \<noteq> []) (map strip (split_on (CHR '','') rs))"
  shows "\<exists>thresholds. set modes \<subseteq> set supported_rollout_rs_options
    \<and> map fst thresholds = rev (remdups (rev modes))
    \<and> parse_rollout_rs_thresholds (map fst thresholds) spec = Inr thresholds
    \<and> same_shape modified msk
    \<and> (\<forall>r < length msk. \<forall>t < length (msk ! r).
         modified ! r ! t = (if \<forall>ot \<in> set thresholds. token_passes log_ratio msk ot r t then msk ! r ! t else 0))"
proof -
  obtain options thresholds where r: "normalize_options [] modes = Inr options"
      "parse_rollout_rs_thresholds options spec = Inr thresholds" "same_shape modified msk"
      "\<forall>r < length msk. \<forall>t < length (msk ! r).
         modified ! r ! t = (if \<forall>ot \<in> set thresholds. token_passes log_ratio msk ot r t then msk ! r ! t else 0)"
    using rejection_result [OF assms(1-3)] unfolding modes_def by blast
  with parse_thresholds_options [OF r(2)] normalize_options_result [OF r(1)] show ?thesis
    by (intro exI [of _ thresholds]) simp
qed

text \<open>What the two bounds of \<open>token_k1\<close> bound is the inverse of the ratio of the training policy to the
  rollout policy: a token with log ratio \<open>l\<close> passes exactly if \<open>exp (- l)\<close> is between them.\<close>

theorem k1_bounds_inverse_ratio:
  assumes "0 < lower" and "0 < upper" and "\<bar>log_ratio ! r ! t\<bar> \<le> 20"
  shows "token_passes log_ratio msk (''token_k1'', Some lower, upper) r t
    \<longleftrightarrow> lower \<le> 1 / exp (log_ratio ! r ! t) \<and> 1 / exp (log_ratio ! r ! t) \<le> upper"
proof -
  let ?l = "log_ratio ! r ! t"
  have s: "safe_log_ratio ?l = ?l" using assms(3) by (auto simp: safe_log_ratio_def clamp_def)
  have st: "token_statistic ''token_k1'' ?l = - ?l" by (simp add: token_statistic_def token_k1_def ends_with_def s)
  have "ln lower \<le> - ?l \<longleftrightarrow> lower \<le> exp (- ?l)" using assms(1) by (metis exp_gt_zero ln_exp ln_le_cancel_iff)
  moreover have "- ?l \<le> ln upper \<longleftrightarrow> exp (- ?l) \<le> upper" using assms(2) by (metis exp_gt_zero ln_exp ln_le_cancel_iff)
  ultimately show ?thesis
    by (simp add: token_passes_def token_level_options_def st option_bounds_def in_bounds_def exp_minus inverse_eq_divide)
qed

theorem k1_bounds_inverse_ratio_witness:
  "\<not> token_passes [[ln (1 / 2)]] [[1]] (''token_k1'', Some (1 / 10), 6 / 5) 0 0
   \<and> token_passes [[ln 5]] [[1]] (''token_k1'', Some (1 / 10), 6 / 5) 0 0"
proof
  have small: "\<bar>ln (1 / 2 :: real)\<bar> \<le> 20" "\<bar>ln (5 :: real)\<bar> \<le> 20"
    using ln_le_minus_one [of "2 :: real"] ln_le_minus_one [of "5 :: real"] by (auto simp: ln_div)
  show "\<not> token_passes [[ln (1 / 2)]] [[1]] (''token_k1'', Some (1 / 10), 6 / 5) 0 0"
    using k1_bounds_inverse_ratio [of "1 / 10" "6 / 5" "[[ln (1 / 2)]]" 0 0 "[[1]]"] small by simp
  show "token_passes [[ln 5]] [[1]] (''token_k1'', Some (1 / 10), 6 / 5) 0 0"
    using k1_bounds_inverse_ratio [of "1 / 10" "6 / 5" "[[ln 5]]" 0 0 "[[1]]"] small by simp
qed

text \<open>A batch of two rows, the second one without a response.\<close>

definition demo_mask :: tensor where
  "demo_mask = [[1, 1, 0], [0, 0, 0]]"

theorem rejection_keeps_what_passes_all_witness:
  "\<exists>modified ms. compute_rollout_rejection_mask [[0, 1, 0], [0, 0, 0]] demo_mask (Some ''token_k2, token_k2'')
        (Some (SpecNum (1 / 4))) = Inr (modified, ms)
     \<and> modified ! 0 ! 0 = 1 \<and> modified ! 0 ! 1 = 0"
proof -
  let ?lr = "[[0, 1, 0], [0, 0, 0]] :: tensor" and ?spec = "Some (SpecNum (1 / 4))" and ?rs = "''token_k2, token_k2''"
  have modes: "filter (\<lambda>opt. opt \<noteq> []) (map strip (split_on (CHR '','') ?rs)) = [''token_k2'', ''token_k2'']"
    by (simp add: strip_def is_space_def)
  have th: "parse_rollout_rs_thresholds [''token_k2''] ?spec = Inr [(''token_k2'', None, 1 / 4)]"
    by (simp add: parse_rollout_rs_thresholds_def raw_specs_def parse_option_threshold_def raw_bounds_def raw_float_def
        ends_with_def)
  have any: "any_token demo_mask" by (simp add: any_token_def demo_mask_def)
  obtain keep ms0 where rej: "reject_option ?lr demo_mask (''token_k2'', None, 1 / 4) = Inr (keep, ms0)"
    by (simp add: reject_option_def Let_def compute_rs_metrics_def any)
  obtain modified ms where run: "compute_rollout_rejection_mask ?lr demo_mask (Some ?rs) ?spec = Inr (modified, ms)"
    unfolding compute_rollout_rejection_mask_def using modes th rej
    by (simp add: Let_def supported_rollout_rs_options_def strip_def is_space_def)
  have sh: "same_shape ?lr demo_mask" by (simp add: same_shape_def demo_mask_def)
  obtain thresholds where r: "map fst thresholds = rev (remdups (rev [''token_k2'', ''token_k2'']))"
      "parse_rollout_rs_thresholds (map fst thresholds) ?spec = Inr thresholds"
      "\<forall>r < length demo_mask. \<forall>t < length (demo_mask ! r).
         modified ! r ! t = (if \<forall>ot \<in> set thresholds. token_passes ?lr demo_mask ot r t then demo_mask ! r ! t else 0)"
    using rejection_keeps_what_passes_all [OF run _ sh] unfolding modes by blast
  then have "thresholds = [(''token_k2'', None, 1 / 4)]" using th by simp
  moreover have "token_passes ?lr demo_mask (''token_k2'', None, 1 / 4) 0 0"
    and "\<not> token_passes ?lr demo_mask (''token_k2'', None, 1 / 4) 0 1"
    by (simp_all add: token_passes_def token_level_options_def token_statistic_def token_k2_def safe_log_ratio_def clamp_def
        option_bounds_def in_bounds_def ends_with_def)
  ultimately have "modified ! 0 ! 0 = 1" "modified ! 0 ! 1 = 0" using r(3) by (auto simp: demo_mask_def)
  with run show ?thesis by blast
qed

text \<open>Importance weights: on padding they are zero; with one threshold a weight is the ratio of the
  policies (of the token or of its sequence, clamped) cut at the threshold, with two it is the ratio if
  that is between them and zero otherwise. So every weight is between zero and the upper threshold.\<close>

theorem correction_weights_bounded:
  assumes "compute_rollout_correction_weights reduction log_ratio msk rollout_is spec False = Inr (w, ms)"
    and "parse_rollout_is_threshold spec = Inr (upper, lower)" and "same_shape log_ratio msk" and "binary_mask msk"
  shows "same_shape w msk
    \<and> (\<forall>r < length msk. \<forall>t < length (msk ! r).
         w ! r ! t = (if msk ! r ! t = 0 then 0 else truncate_weight upper lower (token_weight rollout_is log_ratio msk r t))
         \<and> 0 \<le> w ! r ! t \<and> w ! r ! t \<le> upper)"
proof -
  obtain u l where "parse_rollout_is_threshold spec = Inr (u, l)" "w = bounded_weights u l rollout_is log_ratio msk"
    using correction_weights_cases [OF assms(1)] by (metis (full_types))
  then have w: "w = bounded_weights upper lower rollout_is log_ratio msk" using assms(2) by simp
  have up: "0 < upper" "\<And>l. lower = Some l \<Longrightarrow> 0 < l" using parse_is_threshold_bounds [OF assms(2)] by auto
  have each: "w ! r ! t = (if msk ! r ! t = 0 then 0 else truncate_weight upper lower (token_weight rollout_is log_ratio msk r t))
         \<and> 0 \<le> w ! r ! t \<and> w ! r ! t \<le> upper" if "r < length msk" "t < length (msk ! r)" for r t
  proof -
    have "0 < token_weight rollout_is log_ratio msk r t" by (simp add: token_weight_def)
    then show ?thesis
      using binary_nth [OF assms(4) that] up
      by (auto simp: w bounded_weights_nth [OF assms(3) that] truncate_weight_def split: option.splits)
  qed
  then show ?thesis using bounded_weights_shape [OF assms(3)] w by blast
qed

text \<open>Two valid tokens on which the policies agree.\<close>

lemma demo_run:
  "\<exists>w ms. compute_rollout_correction_weights None [[0, 0]] [[1, 1]] ''token'' (SpecNum 2) batch_norm = Inr (w, ms)"
proof -
  have ess: "\<exists>ess. effective_sample_size 2 [[1, 1]] [[1, 1]] = Inr ess"
    by (simp add: effective_sample_size_def masked_mean_def masked_sum_def tmap_def tmap2_def clamp_def Let_def)
  have raw: "raw_is_weights ''token'' [[0, 0]] [[1, 1]] = [[1, 1]]"
    by (simp add: raw_is_weights_def tmap_def tmap2_def safe_log_ratio_def clamp_def)
  have trunc: "tmap (truncate_weight 2 None) [[1, 1]] = [[1, 1]]" by (simp add: tmap_def truncate_weight_def)
  have parse: "parse_rollout_is_threshold (SpecNum 2) = Inr (2, None)" by (simp add: parse_rollout_is_threshold_def)
  have any: "any_token [[1, 1]]" by (simp add: any_token_def)
  obtain ms where "compute_is_metrics [[1, 1]] [[1, 1]] [[0, 0]] [[1, 1]] ''token'' 2 None = Inr ms"
    using ess any by (auto simp: compute_is_metrics_def Let_def)
  then show ?thesis
    by (cases batch_norm) (simp_all add: compute_rollout_correction_weights_def parse raw trunc split_beta Let_def)
qed

theorem correction_weights_bounded_witness:
  "\<exists>w ms. compute_rollout_correction_weights None [[0, 0]] [[1, 1]] ''token'' (SpecNum 2) False = Inr (w, ms) \<and> w ! 0 ! 1 = 1"
proof -
  obtain w ms where run: "compute_rollout_correction_weights None [[0, 0]] [[1, 1]] ''token'' (SpecNum 2) False = Inr (w, ms)"
    using demo_run by blast
  have parse: "parse_rollout_is_threshold (SpecNum 2) = Inr (2, None)" by (simp add: parse_rollout_is_threshold_def)
  have "same_shape [[0, 0 :: real]] [[1, 1 :: real]]" "binary_mask [[1, 1]]" by (simp_all add: same_shape_def binary_mask_def)
  from correction_weights_bounded [OF run parse this, THEN conjunct2, rule_format, of 0 1]
  have "w ! 0 ! 1 = truncate_weight 2 None (token_weight ''token'' [[0, 0]] [[1, 1]] 0 1)" by simp
  then have "w ! 0 ! 1 = 1" by (simp add: truncate_weight_def token_weight_def safe_log_ratio_def clamp_def)
  with run show ?thesis by blast
qed

text \<open>Normalised weights have mean one, over the tokens or over the sequences as configured, whenever their
  mean was not negligible.\<close>

theorem normalized_weights_mean_one:
  assumes "compute_rollout_correction_weights None log_ratio msk rollout_is spec True = Inr (w, ms)"
    and "parse_rollout_is_threshold spec = Inr (upper, lower)"
    and "1 / 10 ^ 8 < is_weights_mean None rollout_is (bounded_weights upper lower rollout_is log_ratio msk) msk"
  shows "is_weights_mean None rollout_is w msk = 1"
proof -
  let ?b = "bounded_weights upper lower rollout_is log_ratio msk"
  obtain u l where "parse_rollout_is_threshold spec = Inr (u, l)"
      "w = fst (batch_normalize None rollout_is (bounded_weights u l rollout_is log_ratio msk) msk)"
    using correction_weights_cases [OF assms(1)] by (metis (full_types))
  then have "w = fst (batch_normalize None rollout_is ?b msk)" using assms(2) by simp
  then have "w = tmap (\<lambda>x. x / is_weights_mean None rollout_is ?b msk) ?b"
    using assms(3) by (simp add: batch_normalize_def Let_def)
  with assms(3) show ?thesis by (simp add: is_weights_mean_scale)
qed

theorem normalized_weights_mean_one_witness:
  "\<exists>w ms. compute_rollout_correction_weights None [[0, 0]] [[1, 1]] ''token'' (SpecNum 2) True = Inr (w, ms)
     \<and> is_weights_mean None ''token'' w [[1, 1]] = 1"
proof -
  obtain w ms where run: "compute_rollout_correction_weights None [[0, 0]] [[1, 1]] ''token'' (SpecNum 2) True = Inr (w, ms)"
    using demo_run by blast
  have parse: "parse_rollout_is_threshold (SpecNum 2) = Inr (2, None)" by (simp add: parse_rollout_is_threshold_def)
  have "bounded_weights 2 None ''token'' [[0, 0]] [[1, 1]] = [[1, 1]]"
    by (simp add: bounded_weights_def raw_is_weights_def tmap_def tmap2_def safe_log_ratio_def clamp_def truncate_weight_def)
  then have "1 / 10 ^ 8 < is_weights_mean None ''token'' (bounded_weights 2 None ''token'' [[0, 0]] [[1, 1]]) [[1, 1]]"
    by (simp add: is_weights_mean_def masked_mean_def masked_sum_def tmap2_def)
  from normalized_weights_mean_one [OF run parse this] run show ?thesis by blast
qed

text \<open>With two thresholds (IcePop), a batch none of whose ratios is between them stops the training: the
  effective sample size divides by zero.\<close>

theorem icepop_without_survivors_raises:
  assumes "parse_rollout_is_threshold spec = Inr (upper, Some lower)" and "rollout_is \<in> {''token'', ''sequence''}"
    and "any_token msk" and "binary_mask msk" and "same_shape log_ratio msk"
    and "\<And>r t. r < length msk \<Longrightarrow> t < length (msk ! r) \<Longrightarrow> msk ! r ! t = 1 \<Longrightarrow>
      token_weight rollout_is log_ratio msk r t < lower \<or> upper < token_weight rollout_is log_ratio msk r t"
  shows "compute_rollout_correction_weights reduction log_ratio msk rollout_is spec batch_norm = Inl ZeroDivisionError"
proof -
  let ?w = "bounded_weights upper (Some lower) rollout_is log_ratio msk"
  have up: "0 < upper" "0 < lower" using parse_is_threshold_bounds [OF assms(1)] by auto
  have sh: "same_shape ?w msk" by (rule bounded_weights_shape [OF assms(5)])
  have "v = 0" if row: "row \<in> set ?w" and v: "v \<in> set row" for row v
  proof -
    obtain r t where rt: "r < length ?w" "t < length (?w ! r)" "v = ?w ! r ! t" using in_set_tensor [OF row v] by blast
    then have m: "r < length msk" "t < length (msk ! r)" using same_shape_length [OF sh] same_shape_nth [OF sh] by auto
    from rt(3) bounded_weights_nth [OF assms(5) m] binary_nth [OF assms(4) m] assms(6) [OF m] up
    show ?thesis by (auto simp: truncate_weight_def)
  qed
  then have "effective_sample_size upper ?w msk = Inl ZeroDivisionError" using up(1) by (rule effective_sample_size_none)
  then have "compute_is_metrics ?w (raw_is_weights rollout_is log_ratio msk) log_ratio msk rollout_is upper (Some lower)
      = Inl ZeroDivisionError"
    using assms(3) by (simp add: compute_is_metrics_def)
  then show ?thesis
    using assms(2) by (simp add: compute_rollout_correction_weights_def assms(1) bounded_weights_def rcheck_def)
qed

theorem icepop_without_survivors_raises_witness:
  "compute_rollout_correction_weights None [[0, 0]] [[1, 1]] ''token'' (SpecStr ''2_5.0'') False = Inl ZeroDivisionError"
proof (rule icepop_without_survivors_raises)
  show "parse_rollout_is_threshold (SpecStr ''2_5.0'') = Inr (5, Some 2)"
    by (simp add: parse_rollout_is_threshold_def strip_def is_space_def split_once_def float_or_error_def py_float_def
        read_sign_def read_fraction_def read_exponent_def is_digit_def digit_value_def)
  show "token_weight ''token'' [[0, 0]] [[1, 1]] r t < 2 \<or> 5 < token_weight ''token'' [[0, 0]] [[1, 1]] r t"
    if "r < length [[1, 1 :: real]]" "t < length ([[1, 1]] ! r :: real list)" for r t
    using that by (cases t) (auto simp: token_weight_def safe_log_ratio_def clamp_def)
qed (auto simp: any_token_def binary_mask_def same_shape_def)

text \<open>The three parts of the correction.\<close>

lemma correction_cases:
  assumes "compute_rollout_correction_and_rejection_mask reduction old lp msk cfg = Inr (weights, modified, ms)"
  obtains ms1 ms2 where "same_shape old lp" and "same_shape old msk" and "any_token msk"
    and "(weights = None \<and> (corr_rollout_is cfg = None \<or> corr_rollout_is_threshold cfg = None))
      \<or> (\<exists>rollout_is spec w. corr_rollout_is cfg = Some rollout_is \<and> corr_rollout_is_threshold cfg = Some spec \<and> weights = Some w
          \<and> compute_rollout_correction_weights reduction (tmap2 (-) old lp) msk rollout_is spec (corr_batch_normalize cfg) = Inr (w, ms1))"
    and "(corr_rollout_rs cfg = None \<and> modified = msk)
      \<or> (\<exists>rs. corr_rollout_rs cfg = Some rs
          \<and> compute_rollout_rejection_mask (tmap2 (-) old lp) msk (Some rs) (corr_rollout_rs_threshold cfg) = Inr (modified, ms2))"
proof -
  let ?lr = "tmap2 (-) old lp"
  have shapes: "any_token msk" "same_shape old lp" "same_shape old msk"
    using assms unfolding compute_rollout_correction_and_rejection_mask_def rbind_eq_Inr rcheck_eq_Inr by blast+
  let ?is = "case (corr_rollout_is cfg, corr_rollout_is_threshold cfg) of
               (Some rollout_is, Some threshold) \<Rightarrow>
                 rbind (compute_rollout_correction_weights reduction ?lr msk rollout_is threshold (corr_batch_normalize cfg))
                   (\<lambda>(w, ms). Inr (Some w, ms))
             | _ \<Rightarrow> Inr (None, [])"
  let ?rs = "case corr_rollout_rs cfg of
               None \<Rightarrow> Inr (msk, [])
             | Some rs \<Rightarrow>
                 rbind (rcheck ValueError (corr_rollout_rs_threshold cfg \<noteq> None)) (\<lambda>_.
                 compute_rollout_rejection_mask ?lr msk (Some rs) (corr_rollout_rs_threshold cfg))"
  obtain ms1 ms2 where parts: "?is = Inr (weights, ms1)" "?rs = Inr (modified, ms2)"
    using assms unfolding compute_rollout_correction_and_rejection_mask_def Let_def rbind_eq_Inr rcheck_eq_Inr
    by (auto simp: rbind_eq_Inr)
  from parts(1) have 1: "(weights = None \<and> (corr_rollout_is cfg = None \<or> corr_rollout_is_threshold cfg = None))
      \<or> (\<exists>rollout_is spec w. corr_rollout_is cfg = Some rollout_is \<and> corr_rollout_is_threshold cfg = Some spec \<and> weights = Some w
          \<and> compute_rollout_correction_weights reduction ?lr msk rollout_is spec (corr_batch_normalize cfg) = Inr (w, ms1))"
    by (auto simp: res_simps split: option.splits)
  from parts(2) have 2: "(corr_rollout_rs cfg = None \<and> modified = msk)
      \<or> (\<exists>rs. corr_rollout_rs cfg = Some rs
          \<and> compute_rollout_rejection_mask ?lr msk (Some rs) (corr_rollout_rs_threshold cfg) = Inr (modified, ms2))"
    by (auto simp: res_simps split: option.splits)
  show thesis by (rule that [OF shapes(2,3,1) 1 2])
qed

text \<open>The ratio one is within the thresholds of the configuration.\<close>

definition one_within :: "rollout_corr_config \<Rightarrow> bool" where
  "one_within cfg \<longleftrightarrow>
     (\<forall>spec upper lower. corr_rollout_is_threshold cfg = Some spec \<and> parse_rollout_is_threshold spec = Inr (upper, lower) \<longrightarrow>
        1 \<le> upper \<and> (\<forall>l. lower = Some l \<longrightarrow> l \<le> 1))
     \<and> (\<forall>options thresholds opt l u.
        parse_rollout_rs_thresholds options (corr_rollout_rs_threshold cfg) = Inr thresholds \<and> (opt, Some l, u) \<in> set thresholds \<longrightarrow>
        l \<le> 1 \<and> 1 \<le> u)"

lemma on_policy_correction:
  assumes "compute_rollout_correction_and_rejection_mask reduction lp lp msk cfg = Inr (weights, modified, ms)"
    and "binary_mask msk" and "\<not> corr_batch_normalize cfg"
    and "one_within cfg"
  shows "modified = msk \<and> weights \<in> {None, Some msk}"
proof -
  have is_ok: "1 \<le> upper \<and> (\<forall>l. lower = Some l \<longrightarrow> l \<le> 1)"
    if "corr_rollout_is_threshold cfg = Some spec" "parse_rollout_is_threshold spec = Inr (upper, lower)" for spec upper lower
    using assms(4) that unfolding one_within_def by blast
  have rs_ok: "l \<le> 1 \<and> 1 \<le> u"
    if "parse_rollout_rs_thresholds options (corr_rollout_rs_threshold cfg) = Inr thresholds" "(opt, Some l, u) \<in> set thresholds"
    for options thresholds opt l u
    using assms(4) that unfolding one_within_def by blast
  let ?lr = "tmap2 (-) lp lp"
  obtain ms1 ms2 where sh: "same_shape lp msk" and any: "any_token msk"
    and w: "(weights = None \<and> (corr_rollout_is cfg = None \<or> corr_rollout_is_threshold cfg = None))
      \<or> (\<exists>rollout_is spec w. corr_rollout_is cfg = Some rollout_is \<and> corr_rollout_is_threshold cfg = Some spec \<and> weights = Some w
          \<and> compute_rollout_correction_weights reduction ?lr msk rollout_is spec (corr_batch_normalize cfg) = Inr (w, ms1))"
    and m: "(corr_rollout_rs cfg = None \<and> modified = msk)
      \<or> (\<exists>rs. corr_rollout_rs cfg = Some rs
          \<and> compute_rollout_rejection_mask ?lr msk (Some rs) (corr_rollout_rs_threshold cfg) = Inr (modified, ms2))"
    by (rule correction_cases [OF assms(1)])
  have z: "same_shape ?lr msk" by (rule same_shape_trans [OF same_shape_tmap2_right sh]) simp
  have "weights \<in> {None, Some msk}"
    using w
  proof
    assume "\<exists>rollout_is spec w. corr_rollout_is cfg = Some rollout_is \<and> corr_rollout_is_threshold cfg = Some spec \<and> weights = Some w
          \<and> compute_rollout_correction_weights reduction ?lr msk rollout_is spec (corr_batch_normalize cfg) = Inr (w, ms1)"
    then obtain rollout_is spec w' where c: "corr_rollout_is_threshold cfg = Some spec" "weights = Some w'"
        "compute_rollout_correction_weights reduction ?lr msk rollout_is spec (corr_batch_normalize cfg) = Inr (w', ms1)" by blast
    obtain upper lower where u: "parse_rollout_is_threshold spec = Inr (upper, lower)"
        "w' = bounded_weights upper lower rollout_is ?lr msk"
      using correction_weights_cases [OF c(3)] assms(3) by (metis (full_types))
    have "bounded_weights upper lower rollout_is ?lr msk = msk"
      using is_ok [OF c(1) u(1)] parse_is_threshold_bounds [OF u(1)]
      by (intro zero_weights_are_mask [OF sh assms(2)]) auto
    with c(2) u(2) show ?thesis by simp
  qed simp
  moreover have "modified = msk"
    using m
  proof
    assume "\<exists>rs. corr_rollout_rs cfg = Some rs
          \<and> compute_rollout_rejection_mask ?lr msk (Some rs) (corr_rollout_rs_threshold cfg) = Inr (modified, ms2)"
    then obtain rs where r: "compute_rollout_rejection_mask ?lr msk (Some rs) (corr_rollout_rs_threshold cfg) = Inr (modified, ms2)" by blast
    have "msk \<noteq> []" using any by (auto simp: any_token_def)
    then have "?lr \<noteq> []" using same_shape_length [OF z] by fastforce
    from rejection_result [OF r this z] obtain options thresholds
      where p: "parse_rollout_rs_thresholds options (corr_rollout_rs_threshold cfg) = Inr thresholds"
        and shape: "same_shape modified msk"
        and each: "\<forall>r < length msk. \<forall>t < length (msk ! r).
         modified ! r ! t = (if \<forall>ot \<in> set thresholds. token_passes ?lr msk ot r t then msk ! r ! t else 0)" by blast
    have "token_passes ?lr msk ot r t" if "ot \<in> set thresholds" "r < length msk" "t < length (msk ! r)" for ot r t
    proof -
      obtain opt lower upper where ot: "ot = (opt, lower, upper)" by (cases ot) auto
      have pos: "0 < upper" "\<And>l. lower = Some l \<Longrightarrow> 0 < l" using rs_thresholds_positive [OF p, of opt lower upper] that(1) ot by auto
      have one: "\<And>l. lower = Some l \<Longrightarrow> l \<le> 1 \<and> 1 \<le> upper" using rs_ok [OF p, of opt] that(1) ot by blast
      show ?thesis
        using pos one ot by (intro zero_passes [OF sh that(2,3)]) (auto simp: option_bounds_def split: option.splits)
    qed
    then have each': "modified ! r ! t = msk ! r ! t" if "r < length msk" "t < length (msk ! r)" for r t
      using each that by simp
    show ?thesis
    proof (rule tensor_eqI [OF shape])
      fix r t assume "r < length modified" "t < length (modified ! r)"
      then show "modified ! r ! t = msk ! r ! t"
        using same_shape_length [OF shape] same_shape_nth [OF shape] by (intro each') auto
    qed
  qed simp
  ultimately show ?thesis by blast
qed

text \<open>Without a mismatch there is nothing to correct: if the two policies give every token the same
  probability and one lies within the thresholds, then no token is rejected, all weights of valid tokens
  are one, and the loss of the bypass mode is the PPO loss of the uncorrected batch.\<close>

theorem on_policy_needs_no_correction:
  assumes "compute_rollout_correction_and_rejection_mask reduction lp lp msk cfg = Inr (weights, modified, ms)"
    and "binary_mask msk" and "\<not> corr_batch_normalize cfg"
    and "one_within cfg"
    and "inp = \<lparr>old_log_prob = lp, log_prob = lp, advantages = adv, response_mask = msk, rollout_is_weights = None\<rparr>"
    and "corr_loss_type cfg = ''ppo_clip''"
  shows "modified = msk \<and> weights \<in> {None, Some msk}
    \<and> compute_policy_loss_bypass_mode reduction (Some cfg) (Some config) inp mode
      = rbind (compute_policy_loss_vanilla (Some config) inp mode) (\<lambda>(pg_loss, pg_metrics). Inr (pg_loss, dict_update pg_metrics ms))"
proof -
  have c: "modified = msk" "weights \<in> {None, Some msk}" using on_policy_correction [OF assms(1-4)] by blast+
  have "inp\<lparr>response_mask := msk, rollout_is_weights := None\<rparr> = inp" using assms(5) by simp
  then show ?thesis
    using assms(1,5,6) c by (simp add: compute_policy_loss_bypass_mode_def)
qed

theorem on_policy_needs_no_correction_witness:
  "\<exists>cfg ms. compute_rollout_correction_and_rejection_mask None [[-1, -2]] [[-1, -2]] [[1, 1]] cfg = Inr (Some [[1, 1]], [[1, 1]], ms)
     \<and> corr_rollout_is cfg = Some ''token''"
proof -
  let ?cfg = "\<lparr>corr_rollout_is = Some ''token'', corr_rollout_is_threshold = Some (SpecNum 2), corr_batch_normalize = False,
     corr_rollout_rs = None, corr_rollout_rs_threshold = None, corr_loss_type = ''ppo_clip''\<rparr>"
  let ?lp = "[[-1, -2]] :: tensor"
  have lr: "tmap2 (-) ?lp ?lp = [[0, 0]]" by (simp add: tmap2_def)
  obtain w ms1 where w: "compute_rollout_correction_weights None [[0, 0]] [[1, 1]] ''token'' (SpecNum 2) False = Inr (w, ms1)"
    using demo_run by blast
  obtain ms3 where "compute_offpolicy_metrics ?lp (Some ?lp) [[1, 1]] = Inr ms3"
    by (simp add: compute_offpolicy_metrics_def any_token_def Let_def)
  then obtain ms where run: "compute_rollout_correction_and_rejection_mask None ?lp ?lp [[1, 1]] ?cfg = Inr (Some w, [[1, 1]], ms)"
    using lr w by (simp add: compute_rollout_correction_and_rejection_mask_def any_token_def same_shape_def)
  have "one_within ?cfg"
    by (auto simp: one_within_def parse_rollout_is_threshold_def parse_rollout_rs_thresholds_def res_simps)
  moreover have "binary_mask [[1, 1]]" by (simp add: binary_mask_def)
  ultimately have "Some w \<in> {None, Some [[1, 1]]}"
    using on_policy_needs_no_correction [OF run _ _ _ refl] by simp
  with run show ?thesis by (intro exI [of _ ?cfg] exI [of _ ms]) simp
qed

end
