(* ===== verification/TeacherManager.thy ===== *)
theory TeacherManager
  imports TeacherReplay BatchOps
begin

text \<open>
  The teacher client of \<open>verl/experimental/teacher_loop/teacher_manager.py\<close>: routing a replay request to a
  teacher, scoring a sequence and its negative counterpart, and assembling the padded outputs of a
  batch of requests. A teacher server is a parameter: from token ids, sampling parameters and the
  multi-modal inputs it gives the ids and log-probabilities of the top-k tokens of every position, or it
  fails. Of several requests that run at the same time and fail, the first one in order raises.
\<close>

section \<open>Tensors of different types in one batch\<close>

text \<open>A row of a batch: one number, numbers along the tokens, or \<open>k\<close> numbers for every token.\<close>

datatype cell =
    RealNum real | IntRow "int list" | RealRow "real list" | IntRows "int list list" | RealRows "real list list"

definition row_width :: "'a list list \<Rightarrow> nat" where
  "row_width rows = (case rows of [] \<Rightarrow> 0 | row # _ \<Rightarrow> length row)"

text \<open>\<open>torch.tensor\<close> of nested lists wants rows of the same length.\<close>

definition rectangular :: "'a list list \<Rightarrow> bool" where
  "rectangular rows \<longleftrightarrow> (\<forall>row\<in>set rows. length row = row_width rows)"

text \<open>\<open>torch.cat(..., dim=0)\<close> of one-row tensors: there is one, and their shapes agree.\<close>

definition cat_columns :: "'a list list list \<Rightarrow> 'a list list list res" where
  "cat_columns cols =
     rbind (rcheck RuntimeError (cols \<noteq> [] \<and> (\<forall>c\<in>set cols. length c = length (hd cols) \<and> row_width c = row_width (hd cols)))) (\<lambda>_.
     Inr cols)"

section \<open>Requests, outputs and the client\<close>

record sampling_params =
  max_tokens :: nat
  temperature :: real
  prompt_logprobs :: nat

definition get_teacher_sampling_params :: "bool \<Rightarrow> nat \<Rightarrow> sampling_params" where
  "get_teacher_sampling_params use_topk topk =
     \<lparr>max_tokens = 1, temperature = 1, prompt_logprobs = (if use_topk then topk else 0)\<rparr>"

record 'o teacher_request =
  req_sequence_ids :: "int list"
  req_prompt_width :: int
  req_response_width :: int
  req_prompt_length :: int
  req_response_length :: int
  req_pad_token_id :: int
  req_multi_modal_data :: "'o pydict option"
  req_mm_processor_kwargs :: "'o pydict option"
  req_routing_key :: "string option"
  req_student_prompt_length :: "int option"
  req_student_response_length :: "int option"
  req_teacher_prompt_length :: "int option"
  req_negative_sequence_ids :: "int list option"
  req_negative_multi_modal_data :: "'o pydict option"
  req_negative_mm_processor_kwargs :: "'o pydict option"
  req_negative_teacher_prompt_length :: "int option"

record teacher_output =
  out_ids :: "int list list"
  out_logprobs :: "real list list"
  out_neg_ids :: "int list list option"
  out_neg_logprobs :: "real list list option"

text \<open>The arguments of a server: the sequence, the sampling parameters, images, videos, audios and the
  processor's keywords.\<close>

type_synonym 'o teacher_server =
  "int list \<Rightarrow> sampling_params \<Rightarrow> 'o option \<Rightarrow> 'o option \<Rightarrow> 'o option \<Rightarrow> 'o pydict option
   \<Rightarrow> (int list list \<times> real list list) res"

record 'o teacher_manager =
  teacher_model_configs :: "string list"
  teacher_client :: "'o teacher_server pydict"
  use_topk :: bool
  topk :: nat

definition teacher_manager_new :: "string list \<Rightarrow> bool \<Rightarrow> nat \<Rightarrow> 'o teacher_server pydict \<Rightarrow> 'o teacher_manager res" where
  "teacher_manager_new teachers topk_loss k clients =
     rbind (rcheck ValueError (set (map fst clients) = set teachers)) (\<lambda>_.
     Inr \<lparr>teacher_model_configs = teachers, teacher_client = clients, use_topk = topk_loss, topk = k\<rparr>)"

definition resolve_teacher_key :: "'o teacher_manager \<Rightarrow> string option \<Rightarrow> string res" where
  "resolve_teacher_key mgr routing_key =
     (case teacher_model_configs mgr of
        [key] \<Rightarrow> Inr key
      | _ \<Rightarrow> (case routing_key of
          None \<Rightarrow> Inl ValueError
        | Some key \<Rightarrow> rbind (rcheck ValueError (key \<in> set (teacher_model_configs mgr))) (\<lambda>_. Inr key)))"

section \<open>Scoring\<close>

definition score_teacher_sequence ::
    "'o teacher_manager \<Rightarrow> int list \<Rightarrow> 'o pydict option \<Rightarrow> 'o pydict option \<Rightarrow> string option
     \<Rightarrow> int option \<Rightarrow> int option \<Rightarrow> int option \<Rightarrow> int option \<Rightarrow> (int list list \<times> real list list) res" where
  "score_teacher_sequence mgr sequence_ids multi_modal mm_kwargs routing_key
       student_prompt_length student_response_length teacher_prompt_length pad_token_id =
     (let alignment_args = [student_prompt_length, student_response_length, teacher_prompt_length, pad_token_id];
          data = (case multi_modal of None \<Rightarrow> [] | Some d \<Rightarrow> d) in
      rbind (rcheck ValueError (\<not> ((\<exists>v\<in>set alignment_args. v \<noteq> None) \<and> (\<exists>v\<in>set alignment_args. v = None)))) (\<lambda>_.
      rbind (resolve_teacher_key mgr routing_key) (\<lambda>teacher_key.
      rbind (dict_get (teacher_client mgr) teacher_key) (\<lambda>client.
      rbind (client sequence_ids (get_teacher_sampling_params (use_topk mgr) (topk mgr))
               (map_of data ''images'') (map_of data ''videos'') (map_of data ''audios'') mm_kwargs) (\<lambda>(ids, logprobs).
      rbind (rcheck ValueError (rectangular ids \<and> rectangular logprobs)) (\<lambda>_.
      rbind (rassert (length ids = length logprobs \<and> length logprobs = length sequence_ids)) (\<lambda>_.
      (case (student_prompt_length, student_response_length, teacher_prompt_length, pad_token_id) of
         (Some sp, Some sr, Some tp, Some pad) \<Rightarrow>
           align_teacher_outputs_to_student_sequence ids logprobs sp sr tp
             (replicate (row_width ids) pad) (replicate (row_width logprobs) 0)
       | _ \<Rightarrow> Inr (ids, logprobs)))))))))"

definition compute_teacher_logprobs_single :: "'o teacher_manager \<Rightarrow> 'o teacher_request \<Rightarrow> teacher_output res" where
  "compute_teacher_logprobs_single mgr r =
     (let positive = score_teacher_sequence mgr (req_sequence_ids r) (req_multi_modal_data r) (req_mm_processor_kwargs r)
            (req_routing_key r) (req_student_prompt_length r) (req_student_response_length r)
            (req_teacher_prompt_length r) (Some (req_pad_token_id r)) in
      case req_negative_sequence_ids r of
        None \<Rightarrow> rbind positive (\<lambda>(ids, logprobs).
          Inr \<lparr>out_ids = ids, out_logprobs = logprobs, out_neg_ids = None, out_neg_logprobs = None\<rparr>)
      | Some negative_ids \<Rightarrow>
          rbind (rcheck ValueError (req_negative_teacher_prompt_length r \<noteq> None)) (\<lambda>_.
          rbind positive (\<lambda>(ids, logprobs).
          rbind (score_teacher_sequence mgr negative_ids (req_negative_multi_modal_data r)
                   (req_negative_mm_processor_kwargs r) (req_routing_key r) (req_student_prompt_length r)
                   (req_student_response_length r) (req_negative_teacher_prompt_length r) (Some (req_pad_token_id r)))
            (\<lambda>(neg_ids, neg_logprobs).
          Inr \<lparr>out_ids = ids, out_logprobs = logprobs, out_neg_ids = Some neg_ids, out_neg_logprobs = Some neg_logprobs\<rparr>))))"

text \<open>Padding an output to the widths of its request.\<close>

definition pad_request_outputs ::
    "'o teacher_request \<Rightarrow> int list list \<Rightarrow> real list list \<Rightarrow> (int list list \<times> real list list) res" where
  "pad_request_outputs r ids logprobs =
     pad_teacher_outputs ids logprobs (req_prompt_width r) (req_response_width r) (req_prompt_length r)
       (req_response_length r) (replicate (row_width ids) (req_pad_token_id r)) (replicate (row_width logprobs) 0)"

section \<open>A batch of requests\<close>

type_synonym padded_pair = "int list list \<times> real list list"

text \<open>The padded outputs become the columns of a batch, the negative ones when there are any; then every
  sample must have them.\<close>

definition teacher_batch :: "(padded_pair \<times> padded_pair option) list \<Rightarrow> (cell, 'a) dataproto res" where
  "teacher_batch rows =
     rbind (cat_columns (map (fst \<circ> fst) rows)) (\<lambda>ids.
     rbind (cat_columns (map (snd \<circ> fst) rows)) (\<lambda>logprobs.
     rbind (if \<exists>r\<in>set rows. snd r \<noteq> None
            then rbind (rcheck ValueError (\<forall>r\<in>set rows. snd r \<noteq> None)) (\<lambda>_.
                 rbind (cat_columns (map (fst \<circ> the \<circ> snd) rows)) (\<lambda>neg_ids.
                 rbind (cat_columns (map (snd \<circ> the \<circ> snd) rows)) (\<lambda>neg_logprobs.
                 Inr [(''teacher_neg_ids'', map IntRows neg_ids), (''teacher_neg_logprobs'', map RealRows neg_logprobs)])))
            else Inr []) (\<lambda>negative.
     rbind (tensordict_new ([(''teacher_ids'', map IntRows ids), (''teacher_logprobs'', map RealRows logprobs)] @ negative)
              (length rows)) (\<lambda>td.
     dataproto_new (Some td) [] []))))"

definition pad_all_outputs ::
    "bool \<Rightarrow> 'o teacher_request \<times> teacher_output \<Rightarrow> (padded_pair \<times> padded_pair option) res" where
  "pad_all_outputs has_negative p =
     (case p of (r, out) \<Rightarrow>
        rbind (pad_request_outputs r (out_ids out) (out_logprobs out)) (\<lambda>pos.
        if has_negative
        then rbind (pad_request_outputs r (the (out_neg_ids out)) (the (out_neg_logprobs out))) (\<lambda>neg. Inr (pos, Some neg))
        else Inr (pos, None)))"

definition compute_teacher_logprobs ::
    "'o teacher_manager \<Rightarrow> 'o teacher_request option list \<Rightarrow> (cell, 'a) dataproto res" where
  "compute_teacher_logprobs mgr requests =
     rbind (rcheck ValueError (requests \<noteq> [])) (\<lambda>_.
     rbind (rcheck ValueError (None \<notin> set requests)) (\<lambda>_.
     (let reqs = map the requests in
      rbind (rmap (compute_teacher_logprobs_single mgr) reqs) (\<lambda>outputs.
      (let has_negative = (\<exists>out\<in>set outputs. out_neg_logprobs out \<noteq> None) in
       rbind (rcheck ValueError
                (\<not> (has_negative \<and> (\<exists>out\<in>set outputs. out_neg_logprobs out = None \<or> out_neg_ids out = None)))) (\<lambda>_.
       rbind (rmap (pad_all_outputs has_negative) (zip reqs outputs)) (\<lambda>rows.
       teacher_batch rows)))))))"

end
