(* ===== verification/WorkPool.thy ===== *)
theory WorkPool
  imports TeacherManager
begin

text \<open>
  Streaming of teacher log-probabilities and validation rewards in
  \<open>verl/experimental/agent_loop/agent_loop.py\<close>: \<open>generate_sequences\<close> starts one agent loop per sample and a
  pool of consumers; a loop puts its request into an unbounded \<open>asyncio.Queue\<close> when its sample is
  finished, a consumer takes requests, processes them and stores the result at the sample's position.
  After the last loop one sentinel per consumer follows, and the results are gathered. Everything runs on
  one event loop, so the model has one step per stretch between awaits; the queue is unbounded and so a put
  does not suspend.
\<close>

section \<open>The pool\<close>

text \<open>A consumer waits for the queue, is at work on the item of a sample, has returned, or has raised; the
  sample whose item raised is remembered for the statements.\<close>

datatype 'q consumer = Waiting | Working nat 'q | Returned | Raised pyerr nat

record ('q, 'r) pool =
  running_loops :: "nat list"
  work_queue :: "(nat \<times> 'q) option list"
  consumers :: "'q consumer list"
  results :: "'r option list"
  sentinels_put :: bool
  gathered :: "('r option list) res option"

definition pool_init :: "nat \<Rightarrow> nat \<Rightarrow> ('q, 'r) pool" where
  "pool_init n concurrency =
     \<lparr>running_loops = [0..<n], work_queue = [], consumers = replicate concurrency Waiting,
      results = replicate n None, sentinels_put = False, gathered = None\<rparr>"

definition set_consumer :: "nat \<Rightarrow> 'q consumer \<Rightarrow> ('q, 'r) pool \<Rightarrow> ('q, 'r) pool" where
  "set_consumer c k s = s\<lparr>consumers := (consumers s)[c := k]\<rparr>"

text \<open>\<open>loops i\<close> is the item that the loop of sample \<open>i\<close> puts, or what it raises; \<open>work\<close> is a consumer's
  processing of an item.\<close>

inductive pool_step ::
    "(nat \<Rightarrow> 'q res) \<Rightarrow> ('q \<Rightarrow> 'r res) \<Rightarrow> ('q, 'r) pool \<Rightarrow> ('q, 'r) pool \<Rightarrow> bool"
  for loops :: "nat \<Rightarrow> 'q res" and work :: "'q \<Rightarrow> 'r res" where
  put: "gathered s = None \<Longrightarrow> i \<in> set (running_loops s) \<Longrightarrow> loops i = Inr q \<Longrightarrow>
    pool_step loops work s (s\<lparr>running_loops := remove1 i (running_loops s), work_queue := work_queue s @ [Some (i, q)]\<rparr>)"
| loop_raises: "gathered s = None \<Longrightarrow> i \<in> set (running_loops s) \<Longrightarrow> loops i = Inl e \<Longrightarrow>
    pool_step loops work s (s\<lparr>gathered := Some (Inl e)\<rparr>)"
| put_sentinels: "gathered s = None \<Longrightarrow> running_loops s = [] \<Longrightarrow> \<not> sentinels_put s \<Longrightarrow>
    pool_step loops work s
      (s\<lparr>work_queue := work_queue s @ replicate (length (consumers s)) None, sentinels_put := True\<rparr>)"
| take_item: "gathered s = None \<Longrightarrow> c < length (consumers s) \<Longrightarrow> consumers s ! c = Waiting \<Longrightarrow>
    work_queue s = Some (i, q) # rest \<Longrightarrow>
    pool_step loops work s (set_consumer c (Working i q) (s\<lparr>work_queue := rest\<rparr>))"
| take_sentinel: "gathered s = None \<Longrightarrow> c < length (consumers s) \<Longrightarrow> consumers s ! c = Waiting \<Longrightarrow>
    work_queue s = None # rest \<Longrightarrow>
    pool_step loops work s (set_consumer c Returned (s\<lparr>work_queue := rest\<rparr>))"
| finish_item: "gathered s = None \<Longrightarrow> c < length (consumers s) \<Longrightarrow> consumers s ! c = Working i q \<Longrightarrow>
    work q = Inr r \<Longrightarrow>
    pool_step loops work s (set_consumer c Waiting (s\<lparr>results := (results s)[i := Some r]\<rparr>))"
| item_raises: "gathered s = None \<Longrightarrow> c < length (consumers s) \<Longrightarrow> consumers s ! c = Working i q \<Longrightarrow>
    work q = Inl e \<Longrightarrow> pool_step loops work s (set_consumer c (Raised e i) s)"
| gather: "gathered s = None \<Longrightarrow> sentinels_put s \<Longrightarrow> \<forall>k\<in>set (consumers s). k = Returned \<Longrightarrow>
    pool_step loops work s (s\<lparr>gathered := Some (Inr (results s))\<rparr>)"
| gather_raises: "gathered s = None \<Longrightarrow> sentinels_put s \<Longrightarrow> Raised e i \<in> set (consumers s) \<Longrightarrow>
    pool_step loops work s (s\<lparr>gathered := Some (Inl e)\<rparr>)"

definition pool_reachable ::
    "(nat \<Rightarrow> 'q res) \<Rightarrow> ('q \<Rightarrow> 'r res) \<Rightarrow> nat \<Rightarrow> nat \<Rightarrow> ('q, 'r) pool \<Rightarrow> bool" where
  "pool_reachable loops work n concurrency s = (pool_step loops work)\<^sup>*\<^sup>* (pool_init n concurrency) s"

inductive_cases pool_stepE: "pool_step loops work s s'"

section \<open>The streams\<close>

text \<open>How many consumers there are: the environment variable, when it is set, or a default.\<close>

definition teacher_logprob_streaming_concurrency :: "int option \<Rightarrow> nat \<Rightarrow> nat res" where
  "teacher_logprob_streaming_concurrency configured size_of_batch =
     (if size_of_batch \<le> 0 then Inr 0
      else case configured of
          Some concurrency \<Rightarrow> rbind (rcheck ValueError (0 < concurrency)) (\<lambda>_. Inr (min size_of_batch (nat concurrency)))
        | None \<Rightarrow> Inr (min size_of_batch 8))"

definition validation_reward_streaming_concurrency :: "int option \<Rightarrow> nat \<Rightarrow> nat res" where
  "validation_reward_streaming_concurrency raw num_samples =
     (case raw of
        None \<Rightarrow> Inr (max 1 (min num_samples 32))
      | Some concurrency \<Rightarrow> rbind (rcheck ValueError (0 < concurrency)) (\<lambda>_. Inr (min (nat concurrency) (max 1 num_samples))))"

text \<open>What a consumer of teacher requests does with one: score it and pad the outputs.\<close>

definition teacher_work :: "'o teacher_manager \<Rightarrow> 'o teacher_request \<Rightarrow> (padded_pair \<times> padded_pair option) res" where
  "teacher_work mgr r =
     rbind (compute_teacher_logprobs_single mgr r) (\<lambda>out.
     rbind (pad_request_outputs r (out_ids out) (out_logprobs out)) (\<lambda>pos.
     (case (out_neg_ids out, out_neg_logprobs out) of
        (Some neg_ids, Some neg_logprobs) \<Rightarrow>
          rbind (pad_request_outputs r neg_ids neg_logprobs) (\<lambda>neg. Inr (pos, Some neg))
      | _ \<Rightarrow> Inr (pos, None))))"

text \<open>The result of a finished stream: all results are there.\<close>

definition all_results :: "'r option list \<Rightarrow> 'r list res" where
  "all_results rs = rbind (rcheck ValueError (None \<notin> set rs)) (\<lambda>_. Inr (map the rs))"

definition finalize_teacher_logprob_stream ::
    "(padded_pair \<times> padded_pair option) option list res \<Rightarrow> (cell, 'a) dataproto res" where
  "finalize_teacher_logprob_stream outcome =
     rbind outcome (\<lambda>rs.
     rbind (all_results rs) (\<lambda>rows. teacher_batch rows))"

section \<open>Validation rewards\<close>

text \<open>An item carries the data to score, or the score that the agent loop has already given.\<close>

record ('d, 'o) reward_item =
  item_data :: "'d option"
  item_response_length :: nat
  item_reward_score :: real
  item_extra_info :: "'o pydict"

record 'o reward_result =
  res_reward_score :: real
  res_extra_info :: "'o pydict"
  res_response_length :: nat

text \<open>\<open>compute_score\<close> is the remote reward worker.\<close>

definition reward_work ::
    "('d \<Rightarrow> (real \<times> 'o pydict) res) \<Rightarrow> ('d, 'o) reward_item \<Rightarrow> 'o reward_result res" where
  "reward_work compute_score it =
     (case item_data it of
        None \<Rightarrow> Inr \<lparr>res_reward_score = item_reward_score it, res_extra_info = item_extra_info it,
                    res_response_length = item_response_length it\<rparr>
      | Some data \<Rightarrow> rbind (compute_score data) (\<lambda>(score, info).
          Inr \<lparr>res_reward_score = score, res_extra_info = info, res_response_length = item_response_length it\<rparr>))"

text \<open>The score of a sample stands at its last response token, or at the first column when the response is
  empty. A width of zero has no column to write to.\<close>

definition score_row :: "nat \<Rightarrow> nat \<Rightarrow> real \<Rightarrow> real list" where
  "score_row width position score = (replicate width 0)[position := score]"

definition str_lt :: "string \<Rightarrow> string \<Rightarrow> bool" where
  "str_lt = py_list_lt (\<lambda>a b. (of_char a :: nat) < of_char b)"

definition validation_reward_results_to_dataproto ::
    "'o \<Rightarrow> nat \<Rightarrow> 'o reward_result option list \<Rightarrow> (cell, 'o) dataproto res" where
  "validation_reward_results_to_dataproto none response_width outcome =
     rbind (all_results outcome) (\<lambda>rs.
     rbind (rcheck IndexError (0 < response_width \<or> rs = [])) (\<lambda>_.
     (let rows = map (\<lambda>r. RealRow (score_row response_width
                   (max 1 (min (res_response_length r) response_width) - 1) (res_reward_score r))) rs;
          infos = map res_extra_info rs;
          keys = py_sorted str_lt (remdups (concat (map (map fst) infos)))
      in rbind (tensordict_new [(''rm_scores'', rows)] (length rs)) (\<lambda>td.
         dataproto_new (Some td)
           (map (\<lambda>k. (k, map (\<lambda>info. case map_of info k of None \<Rightarrow> none | Some v \<Rightarrow> v) infos)) keys)
           [(''reward_extra_keys'', PList (map PStr keys))]))))"

end
