(* ===== verification/TeacherContext.thy ===== *)
theory TeacherContext
  imports WorkPool
begin

text \<open>
  The teacher's context of a sample in \<open>verl/experimental/agent_loop/agent_loop.py\<close>: the teacher sees crops of
  the evidence that the student does not see, and, for evidence weighting, negative crops. Reading the
  fields of the sample, replacing the crops in the prompt by negative ones, downsampling them, and the
  replay request that results. Images and their operations, the chat template with the tokenizer, and the
  dataset's extraction of images, videos and audios from messages are parameters.
\<close>

section \<open>Objects in messages\<close>

text \<open>Values of samples and messages. \<open>MScalar\<close> is a value with an \<open>item()\<close> (a NumPy scalar or
  zero-dimensional array), \<open>MArray\<close> an array that \<open>tolist()\<close> makes a list.\<close>

datatype 'img mobj =
    MNone
  | MStr string
  | MBool bool
  | MInt int
  | MFloat real
  | MBytes "int list"
  | MImage 'img
  | MList "'img mobj list"
  | MDict "(string \<times> 'img mobj) list"
  | MScalar "'img mobj"
  | MArray "'img mobj list"

fun mtruthy :: "'img mobj \<Rightarrow> bool" where
  "mtruthy MNone = False"
| "mtruthy (MStr s) = (s \<noteq> [])"
| "mtruthy (MBool b) = b"
| "mtruthy (MInt i) = (i \<noteq> 0)"
| "mtruthy (MFloat x) = (x \<noteq> 0)"
| "mtruthy (MBytes b) = (b \<noteq> [])"
| "mtruthy (MList xs) = (xs \<noteq> [])"
| "mtruthy (MDict d) = (d \<noteq> [])"
| "mtruthy (MScalar v) = mtruthy v"
| "mtruthy _ = True"

text \<open>PIL: the size of an image, conversion to RGB when it has another mode, opening bytes, resizing.\<close>

record 'img image_ops =
  image_size :: "'img \<Rightarrow> int \<times> int"
  image_rgb :: "'img \<Rightarrow> 'img"
  image_open :: "'img mobj \<Rightarrow> 'img res"
  image_resize :: "int \<times> int \<Rightarrow> 'img \<Rightarrow> 'img"

section \<open>Fields of a sample\<close>

fun unwrap_sample_value :: "'img mobj \<Rightarrow> 'img mobj" where
  "unwrap_sample_value (MArray xs) = MList xs"
| "unwrap_sample_value (MScalar v) = v"
| "unwrap_sample_value v = v"

fun empty_container :: "'img mobj \<Rightarrow> bool" where
  "empty_container (MList xs) = (xs = [])"
| "empty_container (MDict d) = (d = [])"
| "empty_container (MArray xs) = (xs = [])"
| "empty_container _ = False"

definition require_teacher_crop_field :: "'img mobj pydict option \<Rightarrow> string \<Rightarrow> 'img mobj res" where
  "require_teacher_crop_field sample_kwargs field_name =
     (case sample_kwargs of
        None \<Rightarrow> Inl ValueError
      | Some kwargs \<Rightarrow>
          (case map_of kwargs field_name of
             None \<Rightarrow> Inl ValueError
           | Some raw \<Rightarrow>
               (let v = unwrap_sample_value raw in
                rbind (rcheck ValueError (v \<noteq> MNone)) (\<lambda>_.
                rbind (rcheck ValueError (\<not> empty_container v)) (\<lambda>_. Inr v)))))"

text \<open>\<open>list(messages)\<close>: the items of a list, the keys of a dictionary, the characters of a string.\<close>

fun as_list :: "'img mobj \<Rightarrow> 'img mobj list res" where
  "as_list (MList xs) = Inr xs"
| "as_list (MArray xs) = Inr xs"
| "as_list (MDict d) = Inr (map (\<lambda>(k, _). MStr k) d)"
| "as_list (MStr s) = Inr (map (\<lambda>c. MStr [c]) s)"
| "as_list (MBytes b) = Inr (map MInt b)"
| "as_list _ = Inl TypeError"

section \<open>Negative images\<close>

text \<open>Images that are not given as a list are taken as the only one.\<close>

fun image_list :: "'img mobj \<Rightarrow> 'img mobj list" where
  "image_list (MList xs) = xs"
| "image_list v = [v]"

definition downsample_image :: "'img image_ops \<Rightarrow> int \<Rightarrow> 'img mobj \<Rightarrow> 'img mobj res" where
  "downsample_image ops factor v =
     (case v of
        MImage im \<Rightarrow>
          rbind (rcheck ZeroDivisionError (factor \<noteq> 0)) (\<lambda>_.
          (let (width, height) = image_size ops im in
           Inr (MImage (image_resize ops (max 1 (width div factor), max 1 (height div factor)) im))))
      | _ \<Rightarrow> Inl TypeError)"

definition downsample_teacher_images :: "'img image_ops \<Rightarrow> string \<Rightarrow> int \<Rightarrow> 'img mobj \<Rightarrow> 'img mobj list res" where
  "downsample_teacher_images ops negative_mode factor images =
     rbind (rcheck ValueError (negative_mode = ''downsample_teacher_crop'')) (\<lambda>_.
     rbind (rcheck ValueError (image_list images \<noteq> [])) (\<lambda>_.
     rmap (downsample_image ops factor) (image_list images)))"

definition coerce_teacher_image_list :: "'img mobj \<Rightarrow> 'img mobj list res" where
  "coerce_teacher_image_list value =
     (let images = image_list (unwrap_sample_value value) in rbind (rcheck ValueError (images \<noteq> [])) (\<lambda>_. Inr images))"

definition image_payload :: "'img image_ops \<Rightarrow> 'img mobj \<Rightarrow> 'img mobj pydict res" where
  "image_payload ops img =
     (case img of
        MImage im \<Rightarrow> Inr [(''image'', MImage (image_rgb ops im))]
      | MDict d \<Rightarrow>
          (case (map_of d ''bytes'', map_of d ''image'') of
             (Some bytes, None) \<Rightarrow> rbind (image_open ops bytes) (\<lambda>im. Inr (dict_set d ''image'' (MImage im)))
           | _ \<Rightarrow> Inr d)
      | MStr s \<Rightarrow> Inr [(''image'', MStr s)]
      | _ \<Rightarrow> Inl TypeError)"

definition inherit_bound :: "'img mobj pydict \<Rightarrow> 'img mobj pydict \<Rightarrow> string \<Rightarrow> 'img mobj pydict" where
  "inherit_bound template content key =
     (case map_of template key of
        Some v \<Rightarrow> (if has_key content key then content else dict_set content key v)
      | None \<Rightarrow> content)"

definition build_teacher_image_content ::
    "'img image_ops \<Rightarrow> 'img mobj \<Rightarrow> 'img mobj pydict \<Rightarrow> 'img mobj pydict res" where
  "build_teacher_image_content ops img template =
     rbind (image_payload ops (unwrap_sample_value img)) (\<lambda>payload.
     Inr (foldl (inherit_bound template) ((''type'', MStr ''image'') # dict_del payload ''type'')
            [''min_pixels'', ''max_pixels'']))"

section \<open>Replacing the crops of the prompt\<close>

definition message_content :: "'img mobj \<Rightarrow> 'img mobj list option res" where
  "message_content message =
     (case message of
        MDict d \<Rightarrow> (case map_of d ''content'' of Some (MList parts) \<Rightarrow> Inr (Some parts) | _ \<Rightarrow> Inr None)
      | _ \<Rightarrow> Inl AttributeError)"

fun image_part :: "'img mobj \<Rightarrow> 'img mobj pydict option" where
  "image_part (MDict d) = (if map_of d ''type'' = Some (MStr ''image'') then Some d else None)"
| "image_part _ = None"

text \<open>The image slots of the messages in order: message, position in its content, and the part.\<close>

definition content_slots :: "nat \<Rightarrow> 'img mobj list \<Rightarrow> (nat \<times> nat \<times> 'img mobj pydict) list" where
  "content_slots m parts =
     concat (map (\<lambda>j. case image_part (parts ! j) of None \<Rightarrow> [] | Some d \<Rightarrow> [(m, j, d)]) [0..<length parts])"

definition image_slots :: "'img mobj list \<Rightarrow> (nat \<times> nat \<times> 'img mobj pydict) list res" where
  "image_slots messages =
     rbind (rmap message_content messages) (\<lambda>contents.
     Inr (concat (map (\<lambda>m. case contents ! m of None \<Rightarrow> [] | Some parts \<Rightarrow> content_slots m parts) [0..<length contents])))"

definition set_part :: "'img mobj list \<Rightarrow> nat \<Rightarrow> nat \<Rightarrow> 'img mobj \<Rightarrow> 'img mobj list" where
  "set_part messages m j part =
     (case messages ! m of
        MDict d \<Rightarrow> (case map_of d ''content'' of
            Some (MList parts) \<Rightarrow> messages[m := MDict (dict_set d ''content'' (MList (parts[j := part])))]
          | _ \<Rightarrow> messages)
      | _ \<Rightarrow> messages)"

fun replace_slots ::
    "'img image_ops \<Rightarrow> 'img mobj list \<Rightarrow> ('img mobj \<times> nat \<times> nat \<times> 'img mobj pydict) list \<Rightarrow> 'img mobj list res" where
  "replace_slots ops messages [] = Inr messages"
| "replace_slots ops messages ((img, m, j, template) # rest) =
     rbind (build_teacher_image_content ops img template) (\<lambda>content.
     replace_slots ops (set_part messages m j (MDict content)) rest)"

text \<open>The deep copy of the messages makes the update local; the last slots of the prompt are the crops. With
  no negative image at all the slice \<open>[-0:]\<close> is the whole list, which \<open>strict=True\<close> refuses unless there is
  no slot.\<close>

definition replace_teacher_crop_images ::
    "'img image_ops \<Rightarrow> 'img mobj list \<Rightarrow> 'img mobj list \<Rightarrow> 'img mobj list res" where
  "replace_teacher_crop_images ops teacher_messages negative_images =
     rbind (image_slots teacher_messages) (\<lambda>slots.
     rbind (rcheck ValueError (length negative_images \<le> length slots)) (\<lambda>_.
     rbind (rcheck ValueError (negative_images \<noteq> [] \<or> slots = [])) (\<lambda>_.
     replace_slots ops teacher_messages
       (zip negative_images (drop (length slots - length negative_images) slots)))))"

section \<open>The context\<close>

text \<open>The dataset's extraction (images, videos, audios, each possibly missing), the rendering and
  tokenisation of a prompt, the sampling rate of the audio features, and the configuration.\<close>

record 'img worker =
  wk_ops :: "'img image_ops"
  wk_has_processor :: bool
  wk_has_sync_extraction :: bool
  wk_extract :: "'img mobj list \<Rightarrow> ('img mobj option \<times> 'img mobj option \<times> 'img mobj option) res"
  wk_tokenize :: "'img mobj list \<Rightarrow> 'img mobj pydict \<Rightarrow> 'img mobj pydict \<Rightarrow> int list res"
  wk_sampling_rate :: "int option"
  wk_mm_processor_kwargs :: "'img mobj pydict"
  wk_pad_token_id :: "int option"
  wk_distillation_enabled :: bool
  wk_teacher_key :: string
  wk_crop_enabled :: bool
  wk_crop_prompt_key :: string
  wk_async_prepare :: bool
  wk_evidence_enabled :: bool
  wk_negative_mode :: string
  wk_negative_image_key :: string
  wk_negative_prompt_key :: string
  wk_downsample_factor :: int

definition optional_entry :: "string \<Rightarrow> 'v option \<Rightarrow> 'v pydict" where
  "optional_entry k v = (case v of None \<Rightarrow> [] | Some x \<Rightarrow> [(k, x)])"

definition extract_teacher_crop_multi_modal_data ::
    "'img worker \<Rightarrow> bool \<Rightarrow> 'img mobj list \<Rightarrow> 'img mobj pydict res" where
  "extract_teacher_crop_multi_modal_data wk sync teacher_messages =
     (if \<not> wk_has_processor wk then Inr []
      else rbind (rcheck NotImplementedError (sync \<longrightarrow> wk_has_sync_extraction wk)) (\<lambda>_.
           rbind (wk_extract wk teacher_messages) (\<lambda>(images, videos, audios).
           Inr (optional_entry ''images'' images @ optional_entry ''videos'' videos @ optional_entry ''audios'' audios))))"

definition get_mm_processor_kwargs :: "'img worker \<Rightarrow> 'img mobj option \<Rightarrow> 'img mobj pydict" where
  "get_mm_processor_kwargs wk audio_data =
     (if audio_data \<noteq> None \<and> \<not> has_key (wk_mm_processor_kwargs wk) ''sampling_rate''
      then (case wk_sampling_rate wk of
              Some rate \<Rightarrow> dict_set (wk_mm_processor_kwargs wk) ''sampling_rate'' (MInt rate)
            | None \<Rightarrow> wk_mm_processor_kwargs wk)
      else wk_mm_processor_kwargs wk)"

definition has_images :: "'img mobj pydict \<Rightarrow> bool" where
  "has_images d = (case map_of d ''images'' of None \<Rightarrow> False | Some v \<Rightarrow> mtruthy v)"

text \<open>A tokenised prompt with its inputs.\<close>

record 'img prompt_inputs =
  pi_ids :: "int list"
  pi_data :: "'img mobj pydict"
  pi_kwargs :: "'img mobj pydict"
  pi_length :: nat

definition tokenize_prompt :: "'img worker \<Rightarrow> 'img mobj list \<Rightarrow> 'img mobj pydict \<Rightarrow> 'img prompt_inputs res" where
  "tokenize_prompt wk messages data =
     (let kwargs = get_mm_processor_kwargs wk (map_of data ''audios'') in
      rbind (wk_tokenize wk messages data kwargs) (\<lambda>ids.
      Inr \<lparr>pi_ids = ids, pi_data = data, pi_kwargs = kwargs, pi_length = length ids\<rparr>))"

definition get_hard_negative_teacher_messages ::
    "'img worker \<Rightarrow> 'img mobj pydict option \<Rightarrow> 'img mobj list \<Rightarrow> 'img mobj list res" where
  "get_hard_negative_teacher_messages wk sample_kwargs teacher_messages =
     (case (case sample_kwargs of None \<Rightarrow> None | Some kwargs \<Rightarrow> map_of kwargs (wk_negative_prompt_key wk)) of
        Some raw \<Rightarrow>
          (let v = unwrap_sample_value raw in rbind (rcheck ValueError (v \<noteq> MNone)) (\<lambda>_. as_list v))
      | None \<Rightarrow>
          rbind (require_teacher_crop_field sample_kwargs (wk_negative_image_key wk)) (\<lambda>v.
          rbind (coerce_teacher_image_list v) (\<lambda>images.
          replace_teacher_crop_images (wk_ops wk) teacher_messages images)))"

definition build_negative_teacher_multi_modal_data :: "'img worker \<Rightarrow> 'img mobj pydict \<Rightarrow> 'img mobj pydict res" where
  "build_negative_teacher_multi_modal_data wk data =
     rbind (rcheck ValueError (map_of data ''images'' \<noteq> None \<and> map_of data ''images'' \<noteq> Some MNone)) (\<lambda>_.
     rbind (downsample_teacher_images (wk_ops wk) (wk_negative_mode wk) (wk_downsample_factor wk) (the (map_of data ''images'')))
       (\<lambda>images. Inr (dict_set data ''images'' (MList images))))"

definition prepare_hard_negative_teacher_context ::
    "'img worker \<Rightarrow> bool \<Rightarrow> 'img mobj pydict option \<Rightarrow> 'img mobj list \<Rightarrow> 'img prompt_inputs res" where
  "prepare_hard_negative_teacher_context wk sync sample_kwargs teacher_messages =
     rbind (get_hard_negative_teacher_messages wk sample_kwargs teacher_messages) (\<lambda>messages.
     rbind (extract_teacher_crop_multi_modal_data wk sync messages) (\<lambda>data.
     rbind (rcheck ValueError (has_images data)) (\<lambda>_. tokenize_prompt wk messages data)))"

record 'img teacher_context =
  ctx_teacher :: "'img prompt_inputs"
  ctx_negative :: "'img prompt_inputs option"
  ctx_pad_token_id :: int

definition pad_token :: "'img worker \<Rightarrow> int" where
  "pad_token wk = (case wk_pad_token_id wk of None \<Rightarrow> 0 | Some t \<Rightarrow> t)"

definition negative_inputs ::
    "'img worker \<Rightarrow> bool \<Rightarrow> 'img mobj pydict option \<Rightarrow> 'img mobj list \<Rightarrow> 'img mobj pydict \<Rightarrow> 'img prompt_inputs option res" where
  "negative_inputs wk sync sample_kwargs messages data =
     (if \<not> wk_evidence_enabled wk then Inr None
      else if wk_negative_mode wk = ''downsample_teacher_crop''
      then rbind (build_negative_teacher_multi_modal_data wk data) (\<lambda>negative_data.
           rbind (tokenize_prompt wk messages negative_data) (\<lambda>p. Inr (Some p)))
      else if wk_negative_mode wk = ''hard_negative_crop''
      then rbind (prepare_hard_negative_teacher_context wk sync sample_kwargs messages) (\<lambda>p. Inr (Some p))
      else Inl ValueError)"

text \<open>The synchronous variant of the thread pool and the asynchronous one differ in the extraction only.\<close>

definition prepare_context_with ::
    "'img worker \<Rightarrow> bool \<Rightarrow> 'img mobj pydict option \<Rightarrow> 'img teacher_context res" where
  "prepare_context_with wk sync sample_kwargs =
     rbind (require_teacher_crop_field sample_kwargs (wk_crop_prompt_key wk)) (\<lambda>v.
     rbind (as_list v) (\<lambda>messages.
     rbind (extract_teacher_crop_multi_modal_data wk sync messages) (\<lambda>data.
     rbind (rcheck ValueError (has_images data)) (\<lambda>_.
     rbind (tokenize_prompt wk messages data) (\<lambda>teacher.
     rbind (negative_inputs wk sync sample_kwargs messages data) (\<lambda>negative.
     Inr \<lparr>ctx_teacher = teacher, ctx_negative = negative, ctx_pad_token_id = pad_token wk\<rparr>))))))"

definition prepare_teacher_crop_context ::
    "'img worker \<Rightarrow> 'img mobj pydict option \<Rightarrow> 'img teacher_context res" where
  "prepare_teacher_crop_context wk sample_kwargs =
     prepare_context_with wk (wk_async_prepare wk \<and> wk_has_sync_extraction wk) sample_kwargs"

section \<open>The request\<close>

text \<open>The routing key of the sample; \<open>item()\<close> of a NumPy string.\<close>

fun key_string :: "'img mobj \<Rightarrow> string option" where
  "key_string (MScalar v) = key_string v"
| "key_string (MStr s) = Some s"
| "key_string _ = None"

definition sample_routing_key :: "'img worker \<Rightarrow> 'img mobj pydict option \<Rightarrow> string option" where
  "sample_routing_key wk sample_kwargs =
     (case sample_kwargs of
        None \<Rightarrow> None
      | Some kwargs \<Rightarrow> (case map_of kwargs (wk_teacher_key wk) of None \<Rightarrow> None | Some v \<Rightarrow> key_string v))"

definition request_without_crop ::
    "'img worker \<Rightarrow> 'img mobj pydict option \<Rightarrow> 'img mobj pydict option \<Rightarrow> string option \<Rightarrow> int list \<Rightarrow> int list
     \<Rightarrow> nat \<Rightarrow> nat \<Rightarrow> 'img mobj teacher_request" where
  "request_without_crop wk data kwargs routing_key prompt_ids response_ids prompt_width response_width =
     \<lparr>req_sequence_ids = prompt_ids @ response_ids, req_prompt_width = int prompt_width,
      req_response_width = int response_width, req_prompt_length = int (length prompt_ids),
      req_response_length = int (length response_ids), req_pad_token_id = pad_token wk,
      req_multi_modal_data = data, req_mm_processor_kwargs = kwargs, req_routing_key = routing_key,
      req_student_prompt_length = None, req_student_response_length = None, req_teacher_prompt_length = None,
      req_negative_sequence_ids = None, req_negative_multi_modal_data = None,
      req_negative_mm_processor_kwargs = None, req_negative_teacher_prompt_length = None\<rparr>"

definition use_teacher_context ::
    "'img teacher_context \<Rightarrow> int list \<Rightarrow> int list \<Rightarrow> 'img mobj teacher_request \<Rightarrow> 'img mobj teacher_request" where
  "use_teacher_context ctx prompt_ids response_ids r =
     (let teacher = ctx_teacher ctx;
          r1 = r\<lparr>req_sequence_ids := pi_ids teacher @ response_ids, req_multi_modal_data := Some (pi_data teacher),
                 req_mm_processor_kwargs := Some (pi_kwargs teacher), req_teacher_prompt_length := Some (int (pi_length teacher)),
                 req_student_prompt_length := Some (int (length prompt_ids)),
                 req_student_response_length := Some (int (length response_ids)), req_pad_token_id := ctx_pad_token_id ctx\<rparr>
      in case ctx_negative ctx of
           None \<Rightarrow> r1
         | Some n \<Rightarrow> r1\<lparr>req_negative_sequence_ids := Some (pi_ids n @ response_ids),
                         req_negative_multi_modal_data := Some (pi_data n), req_negative_mm_processor_kwargs := Some (pi_kwargs n),
                         req_negative_teacher_prompt_length := Some (int (pi_length n))\<rparr>)"

text \<open>\<open>context_task\<close> is the result of a preparation that was started before the generation, when there is one.\<close>

definition prepare_teacher_logprob_request ::
    "'img worker \<Rightarrow> bool \<Rightarrow> 'img mobj pydict option \<Rightarrow> 'img teacher_context res option
     \<Rightarrow> 'img mobj pydict option \<Rightarrow> 'img mobj pydict option \<Rightarrow> int list \<Rightarrow> int list \<Rightarrow> nat option \<Rightarrow> nat option
     \<Rightarrow> 'img mobj teacher_request option res" where
  "prepare_teacher_logprob_request wk validate sample_kwargs context_task data kwargs prompt_ids response_ids
       prompt_width response_width =
     (if \<not> (wk_distillation_enabled wk \<and> \<not> validate) then Inr None
      else case (prompt_width, response_width) of
          (Some pw, Some rw) \<Rightarrow>
            (let r = request_without_crop wk data kwargs (sample_routing_key wk sample_kwargs) prompt_ids response_ids pw rw in
             if wk_crop_enabled wk
             then rbind (case context_task of Some c \<Rightarrow> c | None \<Rightarrow> prepare_teacher_crop_context wk sample_kwargs) (\<lambda>ctx.
                  Inr (Some (use_teacher_context ctx prompt_ids response_ids r)))
             else Inr (Some r))
        | _ \<Rightarrow> Inl ValueError)"

text \<open>When the loop of a sample starts the preparation beforehand.\<close>

definition maybe_start_teacher_crop_prepare_task ::
    "'img worker \<Rightarrow> bool \<Rightarrow> 'img mobj pydict option \<Rightarrow> 'img teacher_context res option" where
  "maybe_start_teacher_crop_prepare_task wk validate sample_kwargs =
     (if wk_distillation_enabled wk \<and> wk_crop_enabled wk \<and> wk_async_prepare wk \<and> \<not> validate
      then Some (prepare_teacher_crop_context wk sample_kwargs) else None)"

text \<open>Scoring a sample at once, outside the stream.\<close>

definition compute_teacher_logprobs_now ::
    "'img mobj teacher_manager \<Rightarrow> 'img worker \<Rightarrow> bool \<Rightarrow> 'img mobj pydict option \<Rightarrow> 'img mobj pydict option
     \<Rightarrow> 'img mobj pydict option \<Rightarrow> int list \<Rightarrow> int list \<Rightarrow> teacher_output option res" where
  "compute_teacher_logprobs_now mgr wk validate sample_kwargs data kwargs prompt_ids response_ids =
     rbind (prepare_teacher_logprob_request wk validate sample_kwargs None data kwargs prompt_ids response_ids
              (Some (length prompt_ids)) (Some (length response_ids))) (\<lambda>request.
     (case request of
        None \<Rightarrow> Inr None
      | Some r \<Rightarrow> rbind (compute_teacher_logprobs_single mgr r) (\<lambda>out. Inr (Some out))))"

section \<open>How the stream is chosen\<close>

definition streaming_alias :: "string \<Rightarrow> string" where
  "streaming_alias configured =
     (if configured \<in> {''1'', ''true'', ''yes'', ''on'', ''async'', ''agent'', ''agent_nonblocking''} then ''nonblocking''
      else if configured \<in> {''0'', ''false'', ''no'', ''off'', ''none'', ''disable'', ''disabled''} then ''trainer''
      else if configured \<in> {''sync'', ''agent_blocking''} then ''blocking''
      else configured)"

text \<open>\<open>configured\<close> is the environment variable, stripped and in lower case, or \<open>nonblocking\<close>.\<close>

definition teacher_logprob_streaming_mode :: "string \<Rightarrow> string res" where
  "teacher_logprob_streaming_mode configured =
     (let mode = streaming_alias configured in
      rbind (rcheck ValueError (mode \<in> {''nonblocking'', ''blocking'', ''trainer''})) (\<lambda>_. Inr mode))"

text \<open>The code also asks whether there is a manager of teacher servers. The constructor of the worker makes one exactly when
  distillation is enabled, so \<open>wk_distillation_enabled\<close> stands for both.\<close>

definition should_stream_teacher_logprobs :: "'img worker \<Rightarrow> string \<Rightarrow> int \<Rightarrow> bool \<Rightarrow> int \<Rightarrow> bool res" where
  "should_stream_teacher_logprobs wk configured critic_warmup validate global_steps =
     (if validate \<or> \<not> wk_distillation_enabled wk then Inr False
      else if critic_warmup \<le> global_steps
      then rbind (teacher_logprob_streaming_mode configured) (\<lambda>mode. Inr (mode \<noteq> ''trainer''))
      else Inr False)"

definition should_stream_validation_rewards :: "bool \<Rightarrow> bool \<Rightarrow> string \<Rightarrow> bool" where
  "should_stream_validation_rewards validate has_reward_workers value =
     (validate \<and> has_reward_workers \<and> value \<notin> {''0'', ''false'', ''no'', ''off''})"

definition validation_reward_streaming_mode :: "string \<Rightarrow> string res" where
  "validation_reward_streaming_mode mode =
     rbind (rcheck ValueError (mode \<in> {''blocking'', ''nonblocking''})) (\<lambda>_. Inr mode)"

end
