(* ===== verification/AgentOutput.thy ===== *)
theory AgentOutput
  imports TeacherContext TensorOps
begin

text \<open>
  From agent loops to a batch in \<open>verl/experimental/agent_loop/agent_loop.py\<close>: the padding of a single loop's
  output (\<open>_agent_loop_postprocess\<close>), the assembly of a worker's outputs, which pads them itself when they
  come unpadded (\<open>_postprocess\<close>), and the bookkeeping of rollouts. Parameters are the tokenizer's \<open>pad\<close>,
  the multi-modal inputs and position ids that the processor computes, and the order in which a set of keys is
  iterated.
\<close>

section \<open>Outputs of agent loops\<close>

text \<open>The experts of a token are a row of numbers. The teacher's values and the request for them stand in the
  extra fields of the code, apart from the other ones here; \<open>neg\<close> marks the values under negative evidence.\<close>

record 'img agent_output =
  ao_prompt_ids :: "int list"
  ao_response_ids :: "int list"
  ao_response_mask :: "int list"
  ao_response_logprobs :: "real list option"
  ao_routed_experts :: "int list list option"
  ao_multi_modal_data :: "'img mobj pydict option"
  ao_reward_score :: "real option"
  ao_num_turns :: int
  ao_metrics :: "pyobj pydict"
  ao_extra_fields :: "'img mobj pydict"
  ao_mm_processor_kwargs :: "'img mobj pydict option"
  ao_teacher_ids :: "int list list option"
  ao_teacher_logprobs :: "real list list option"
  ao_teacher_neg_ids :: "int list list option"
  ao_teacher_neg_logprobs :: "real list list option"
  ao_teacher_request :: "'img mobj teacher_request option"

record 'img padded_output =
  po_prompt_ids :: "int list"
  po_response_ids :: "int list"
  po_input_ids :: "int list"
  po_position_ids :: cell
  po_response_mask :: "int list"
  po_attention_mask :: "int list"
  po_response_logprobs :: "real list option"
  po_routed_experts :: "int list list option"
  po_multi_modal_inputs :: "'img mobj pydict"
  po_teacher_ids :: "int list list option"
  po_teacher_logprobs :: "real list list option"
  po_teacher_neg_ids :: "int list list option"
  po_teacher_neg_logprobs :: "real list list option"
  po_reward_score :: "real option"
  po_num_turns :: int
  po_metrics :: "pyobj pydict"
  po_extra_fields :: "'img mobj pydict"
  po_teacher_request :: "'img mobj teacher_request option"

text \<open>The widths, the padding token, whether reward workers are there, and the library's operations:
  \<open>pc_pad left width ids\<close> is the tokenizer's padding to a length and the attention mask it returns;
  \<open>pc_processor\<close> gives the multi-modal inputs of an output for its decoded tokens, with the lengths of
  images, and the vision position ids of tokens, mask and inputs.\<close>

record 'img pad_config =
  pc_prompt_length :: nat
  pc_response_length :: nat
  pc_pad_token_id :: "int option"
  pc_reward_workers :: bool
  pc_pad :: "bool \<Rightarrow> nat \<Rightarrow> int list \<Rightarrow> int list \<times> int list"
  pc_processor :: "(('img agent_output \<Rightarrow> int list \<Rightarrow> 'img mobj pydict res)
    \<times> (int list \<Rightarrow> int list \<Rightarrow> 'img mobj pydict \<Rightarrow> int list list res)) option"

section \<open>Position ids and multi-modal inputs\<close>

definition compute_position_id_with_mask :: "int list \<Rightarrow> int list" where
  "compute_position_id_with_mask msk = map (\<lambda>c. max 0 (c - 1)) (int_cumsum_from 0 msk)"

definition compute_multi_modal_inputs :: "'img pad_config \<Rightarrow> 'img agent_output \<Rightarrow> int list \<Rightarrow> 'img mobj pydict res" where
  "compute_multi_modal_inputs cfg out input_ids =
     (case pc_processor cfg of None \<Rightarrow> Inr [] | Some (mm_inputs, _) \<Rightarrow> mm_inputs out input_ids)"

text \<open>Text positions count the attended tokens, every other position is one.\<close>

fun text_positions :: "int \<Rightarrow> int list \<Rightarrow> int list" where
  "text_positions n [] = []"
| "text_positions n (m # ms) = (if m \<noteq> 0 then n # text_positions (n + 1) ms else 1 # text_positions n ms)"

text \<open>The token types are used for the positions only: they are taken out of the inputs.\<close>

definition compute_position_ids ::
    "'img pad_config \<Rightarrow> int list \<Rightarrow> int list \<Rightarrow> 'img mobj pydict \<Rightarrow> (cell \<times> 'img mobj pydict) res" where
  "compute_position_ids cfg input_ids attention_mask multi_modal_inputs =
     (case pc_processor cfg of
        None \<Rightarrow> Inr (IntRow (compute_position_id_with_mask attention_mask), multi_modal_inputs)
      | Some (_, rope_index) \<Rightarrow>
          rbind (rope_index input_ids attention_mask multi_modal_inputs) (\<lambda>vision.
          Inr (IntRows (text_positions 0 attention_mask # vision), dict_del multi_modal_inputs ''mm_token_type_ids'')))"

section \<open>Padding one output\<close>

definition place_routed_experts :: "bool \<Rightarrow> nat \<Rightarrow> nat \<Rightarrow> nat \<Rightarrow> int list list \<Rightarrow> int list list res" where
  "place_routed_experts slice prompt_width total_width prompt_length routed =
     (let start_pos = int prompt_width - int prompt_length;
          end_pos = min (start_pos + int (length routed)) (int total_width);
          zero = replicate (row_width routed) 0 in
      rbind (rcheck ValueError (\<not> (start_pos < 0 \<or> int total_width < end_pos))) (\<lambda>_.
      rbind (rcheck RuntimeError (slice \<or> int (length routed) = end_pos - start_pos)) (\<lambda>_.
      Inr (replicate (nat start_pos) zero @ take (nat (end_pos - start_pos)) routed
           @ replicate (nat (int total_width - end_pos)) zero))))"

text \<open>The log-probabilities are extended by zeros; a longer list stays as it is.\<close>

definition pad_logprobs :: "nat \<Rightarrow> real list \<Rightarrow> real list" where
  "pad_logprobs width lps = lps @ replicate (width - length lps) 0"

definition pad_token_or_zero :: "'img pad_config \<Rightarrow> int" where
  "pad_token_or_zero cfg = (case pc_pad_token_id cfg of None \<Rightarrow> 0 | Some t \<Rightarrow> t)"

definition pad_teacher_pair ::
    "'img pad_config \<Rightarrow> 'img agent_output \<Rightarrow> int list list \<times> real list list \<Rightarrow> (int list list \<times> real list list) res" where
  "pad_teacher_pair cfg out pair =
     (case pair of (ids, logprobs) \<Rightarrow>
        pad_teacher_outputs ids logprobs (int (pc_prompt_length cfg)) (int (pc_response_length cfg)) (int (length (ao_prompt_ids out)))
          (int (length (ao_response_ids out))) (replicate (row_width ids) (pad_token_or_zero cfg)) (replicate (row_width logprobs) 0))"

text \<open>First the sequences, which need neither the reward nor the teacher.\<close>

definition pad_sequences :: "'img pad_config \<Rightarrow> 'img agent_output \<Rightarrow> 'img padded_output res" where
  "pad_sequences cfg out =
     (let (prompt_ids, prompt_attention) = pc_pad cfg True (pc_prompt_length cfg) (ao_prompt_ids out);
          (response_ids, response_attention) = pc_pad cfg False (pc_response_length cfg) (ao_response_ids out);
          (mask_ids, _) = pc_pad cfg False (pc_response_length cfg) (ao_response_mask out);
          response_mask = map2 (*) mask_ids response_attention;
          attention_mask = prompt_attention @ response_attention;
          input_ids = prompt_ids @ response_ids in
      rbind (rcheck RuntimeError (length mask_ids = length response_attention)) (\<lambda>_.
      rbind (case ao_routed_experts out of
               None \<Rightarrow> Inr None
             | Some routed \<Rightarrow> rbind (place_routed_experts False (length prompt_ids) (length input_ids) (length (ao_prompt_ids out)) routed)
                 (\<lambda>r. Inr (Some r))) (\<lambda>routed_experts.
      rbind (compute_multi_modal_inputs cfg out input_ids) (\<lambda>mm_inputs.
      rbind (compute_position_ids cfg input_ids attention_mask mm_inputs) (\<lambda>(position_ids, multi_modal_inputs).
      Inr \<lparr>po_prompt_ids = prompt_ids, po_response_ids = response_ids, po_input_ids = input_ids,
           po_position_ids = position_ids, po_response_mask = response_mask, po_attention_mask = attention_mask,
           po_response_logprobs = map_option (pad_logprobs (pc_response_length cfg)) (ao_response_logprobs out),
           po_routed_experts = routed_experts, po_multi_modal_inputs = multi_modal_inputs,
           po_teacher_ids = None, po_teacher_logprobs = None, po_teacher_neg_ids = None, po_teacher_neg_logprobs = None,
           po_reward_score = None, po_num_turns = ao_num_turns out, po_metrics = ao_metrics out,
           po_extra_fields = ao_extra_fields out, po_teacher_request = None\<rparr>)))))"

text \<open>Then what the output carries from the teacher, if both parts are there; the negative values are padded
  only along with the positive ones.\<close>

definition pad_teacher_values ::
    "'img pad_config \<Rightarrow> 'img agent_output \<Rightarrow> ((int list list option \<times> real list list option) \<times> (int list list option \<times> real list list option)) res" where
  "pad_teacher_values cfg out =
     (let negative = (ao_teacher_neg_ids out, ao_teacher_neg_logprobs out) in
      case (ao_teacher_ids out, ao_teacher_logprobs out) of
        (Some ids, Some logprobs) \<Rightarrow>
          rbind (pad_teacher_pair cfg out (ids, logprobs)) (\<lambda>(ids', logprobs').
          (case negative of
             (Some neg_ids, Some neg_logprobs) \<Rightarrow>
               rbind (pad_teacher_pair cfg out (neg_ids, neg_logprobs)) (\<lambda>(neg_ids', neg_logprobs').
               Inr ((Some ids', Some logprobs'), (Some neg_ids', Some neg_logprobs')))
           | _ \<Rightarrow> Inr ((Some ids', Some logprobs'), negative)))
      | pair \<Rightarrow> Inr (pair, negative))"

definition finish_padding :: "'img pad_config \<Rightarrow> 'img agent_output \<Rightarrow> 'img padded_output \<Rightarrow> 'img padded_output res" where
  "finish_padding cfg out p =
     rbind (pad_teacher_values cfg out) (\<lambda>((teacher_ids, teacher_logprobs), (teacher_neg_ids, teacher_neg_logprobs)).
     Inr (p\<lparr>po_teacher_ids := teacher_ids, po_teacher_logprobs := teacher_logprobs,
            po_teacher_neg_ids := teacher_neg_ids, po_teacher_neg_logprobs := teacher_neg_logprobs,
            po_reward_score := ao_reward_score out, po_num_turns := ao_num_turns out, po_metrics := ao_metrics out,
            po_extra_fields := ao_extra_fields out, po_teacher_request := ao_teacher_request out\<rparr>))"

text \<open>Padding an output that needs no reward and no teacher any more.\<close>

definition pad_output :: "'img pad_config \<Rightarrow> 'img agent_output \<Rightarrow> 'img padded_output res" where
  "pad_output cfg out = rbind (pad_sequences cfg out) (finish_padding cfg out)"

section \<open>Assembling a worker's outputs\<close>

text \<open>\<open>torch.cat\<close> of one-row tensors, one per output: all are there and have the same shape.\<close>

definition cat_rows :: "('c \<Rightarrow> nat list) \<Rightarrow> 'c option list \<Rightarrow> 'c list res" where
  "cat_rows shape cols =
     rbind (rcheck TypeError (None \<notin> set cols)) (\<lambda>_.
     (let cs = map the cols in
      rbind (rcheck RuntimeError (\<forall>c\<in>set cs. shape c = shape (hd cs))) (\<lambda>_. Inr cs)))"

definition row_shape :: "'a list \<Rightarrow> nat list" where
  "row_shape xs = [length xs]"

definition rows_shape :: "'a list list \<Rightarrow> nat list" where
  "rows_shape rows = [length rows, row_width rows]"

fun cell_shape :: "cell \<Rightarrow> nat list" where
  "cell_shape (RealNum x) = []"
| "cell_shape (IntRow xs) = row_shape xs"
| "cell_shape (RealRow xs) = row_shape xs"
| "cell_shape (IntRows rows) = rows_shape rows"
| "cell_shape (RealRows rows) = rows_shape rows"

text \<open>The token-level reward: the score at the last attended response token. For an empty response the
  index is \<open>-1\<close>, which is the last column.\<close>

definition last_position :: "nat \<Rightarrow> int list \<Rightarrow> int" where
  "last_position prompt_length attention_mask = sum_list (drop prompt_length attention_mask) - 1"

definition reward_row :: "nat \<Rightarrow> int \<Rightarrow> real \<Rightarrow> real list res" where
  "reward_row width position score =
     rbind (py_index width position) (\<lambda>i. Inr (score_row width i score))"

definition reward_scores :: "real option list \<Rightarrow> real list option" where
  "reward_scores scores = (if None \<in> set scores then None else Some (map the scores))"

text \<open>Everything that both ways of assembling share: rewards, arrays, metadata. \<open>iter_set\<close> is the order of
  iteration over a set of keys.\<close>

definition default_extra_keys :: "string list" where
  "default_extra_keys = [''turn_scores'', ''tool_rewards'', ''min_global_steps'', ''max_global_steps'', ''extras'']"

definition add_reward_info :: "'img mobj pydict list \<Rightarrow> string list \<Rightarrow> 'img mobj list pydict \<Rightarrow> 'img mobj list pydict res" where
  "add_reward_info infos keys nt =
     rbind (rmap (\<lambda>k. rbind (rmap (\<lambda>info. dict_get info k) infos) (\<lambda>vs. Inr (k, vs))) keys) (\<lambda>cols.
     Inr (dict_update nt cols))"

definition extra_column :: "'img mobj pydict list \<Rightarrow> string \<Rightarrow> string \<times> 'img mobj list" where
  "extra_column ds k = (k, map (\<lambda>f. case map_of f k of None \<Rightarrow> MNone | Some v \<Rightarrow> v) ds)"

fun as_dictionary :: "'img mobj \<Rightarrow> 'img mobj pydict res" where
  "as_dictionary (MDict d) = Inr d"
| "as_dictionary _ = Inl AttributeError"

definition reward_extra_info :: "'img mobj pydict \<Rightarrow> 'img mobj pydict res" where
  "reward_extra_info d =
     (case map_of d ''reward_extra_info'' of None \<Rightarrow> Inr [] | Some v \<Rightarrow> as_dictionary v)"

definition assemble ::
    "'img pad_config \<Rightarrow> (string list \<Rightarrow> string list) \<Rightarrow> cell list pydict \<Rightarrow> int list list \<Rightarrow> int list list
     \<Rightarrow> real option list \<Rightarrow> int list \<Rightarrow> 'img mobj pydict list \<Rightarrow> pyobj pydict list \<Rightarrow> 'img mobj pydict list
     \<Rightarrow> 'img mobj list pydict option \<Rightarrow> (cell, 'img mobj) dataproto res" where
  "assemble cfg iter_set columns attention_masks response_masks scores num_turns multi_modal_inputs metrics extra_fields input_non_tensor =
     rbind (tensordict_new columns (length num_turns)) (\<lambda>td.
     rbind (case reward_scores scores of
              None \<Rightarrow> Inr td
            | Some ss \<Rightarrow>
                rbind (rmap (\<lambda>(row, am, s). reward_row (length row) (last_position (pc_prompt_length cfg) am) s)
                         (zip response_masks (zip attention_masks ss))) (\<lambda>rows.
                Inr (td\<lparr>tensors := dict_set (tensors td) ''rm_scores'' (map RealRow rows)\<rparr>))) (\<lambda>td'.
     (let nt0 = [(''__num_turns__'', map MInt num_turns)];
          nt1 = (if pc_reward_workers cfg then nt0
                 else case input_non_tensor of None \<Rightarrow> nt0 | Some d \<Rightarrow> dict_update nt0 d) in
      rbind (rmap reward_extra_info extra_fields) (\<lambda>infos.
      (let keys = map fst (hd infos) in
       rbind (add_reward_info infos keys nt1) (\<lambda>nt2.
       (let nt3 = dict_set nt2 ''multi_modal_inputs'' (map MDict multi_modal_inputs);
            all_keys = iter_set (remdups (concat (map (map fst) extra_fields) @ default_extra_keys));
            nt4 = dict_update nt3 (map (extra_column extra_fields) all_keys);
            mi = [(''metrics'', PList (map PDict metrics))]
                 @ (if has_key (tensors td') ''rm_scores'' then [(''reward_extra_keys'', PList (map PStr keys))] else [])
        in dataproto_new (Some td') nt4 mi)))))))"

text \<open>Outputs that are padded already are concatenated.\<close>

definition postprocess_padded ::
    "'img pad_config \<Rightarrow> (string list \<Rightarrow> string list) \<Rightarrow> 'img padded_output list \<Rightarrow> 'img mobj list pydict option
     \<Rightarrow> (cell, 'img mobj) dataproto res" where
  "postprocess_padded cfg iter_set inputs input_non_tensor =
     rbind (rcheck ValueError (inputs \<noteq> [])) (\<lambda>_.
     rbind (cat_rows row_shape (map (Some \<circ> po_prompt_ids) inputs)) (\<lambda>prompt_ids.
     rbind (cat_rows row_shape (map (Some \<circ> po_response_ids) inputs)) (\<lambda>response_ids.
     rbind (cat_rows row_shape (map (Some \<circ> po_response_mask) inputs)) (\<lambda>response_mask.
     rbind (cat_rows row_shape (map (Some \<circ> po_attention_mask) inputs)) (\<lambda>attention_mask.
     rbind (cat_rows row_shape (map (Some \<circ> po_input_ids) inputs)) (\<lambda>input_ids.
     rbind (cat_rows cell_shape (map (Some \<circ> po_position_ids) inputs)) (\<lambda>position_ids.
     rbind (if po_response_logprobs (hd inputs) = None then Inr []
            else rbind (cat_rows row_shape (map po_response_logprobs inputs)) (\<lambda>v. Inr [(''rollout_log_probs'', map RealRow v)]))
       (\<lambda>logprobs.
     rbind (if po_routed_experts (hd inputs) = None then Inr []
            else rbind (cat_rows rows_shape (map po_routed_experts inputs)) (\<lambda>v. Inr [(''routed_experts'', map IntRows v)]))
       (\<lambda>routed.
     rbind (if po_teacher_logprobs (hd inputs) = None \<or> po_teacher_ids (hd inputs) = None then Inr []
            else rbind (cat_rows rows_shape (map po_teacher_logprobs inputs)) (\<lambda>lps.
                 rbind (cat_rows rows_shape (map po_teacher_ids inputs)) (\<lambda>ids.
                 Inr [(''teacher_logprobs'', map RealRows lps), (''teacher_ids'', map IntRows ids)]))) (\<lambda>teacher.
     rbind (if po_teacher_neg_logprobs (hd inputs) = None \<or> po_teacher_neg_ids (hd inputs) = None then Inr []
            else rbind (cat_rows rows_shape (map po_teacher_neg_logprobs inputs)) (\<lambda>lps.
                 rbind (cat_rows rows_shape (map po_teacher_neg_ids inputs)) (\<lambda>ids.
                 Inr [(''teacher_neg_logprobs'', map RealRows lps), (''teacher_neg_ids'', map IntRows ids)]))) (\<lambda>negative.
     assemble cfg iter_set
       ([(''prompts'', map IntRow prompt_ids), (''responses'', map IntRow response_ids),
         (''response_mask'', map IntRow response_mask), (''input_ids'', map IntRow input_ids),
         (''attention_mask'', map IntRow attention_mask), (''position_ids'', position_ids)] @ logprobs @ routed @ teacher @ negative)
       attention_mask response_mask (map po_reward_score inputs) (map po_num_turns inputs)
       (map po_multi_modal_inputs inputs) (map po_metrics inputs) (map po_extra_fields inputs) input_non_tensor)))))))))))"

text \<open>Outputs that are not padded yet: prompts are padded on the left, responses on the right.\<close>

record raw_row =
  rr_prompt_ids :: "int list"
  rr_prompt_attention :: "int list"
  rr_response_ids :: "int list"
  rr_response_attention :: "int list"
  rr_response_mask :: "int list"

definition raw_row_of :: "'img pad_config \<Rightarrow> 'img agent_output \<Rightarrow> raw_row res" where
  "raw_row_of cfg out =
     (let pw = pc_prompt_length cfg; rw = pc_response_length cfg; pad = pad_token_or_zero cfg;
          prompt = ao_prompt_ids out; response = ao_response_ids out; msk = take rw (ao_response_mask out);
          response_attention = replicate (length response) 1 @ replicate (rw - length response) 0 in
      rbind (rcheck ValueError (length prompt \<le> pw)) (\<lambda>_.
      rbind (rcheck ValueError (length response \<le> rw)) (\<lambda>_.
      Inr \<lparr>rr_prompt_ids = replicate (pw - length prompt) pad @ prompt,
           rr_prompt_attention = replicate (pw - length prompt) 0 @ replicate (length prompt) 1,
           rr_response_ids = response @ replicate (rw - length response) pad,
           rr_response_attention = response_attention,
           rr_response_mask = map2 (*) (msk @ replicate (rw - length msk) 0) response_attention\<rparr>)))"

definition raw_attention :: "raw_row \<Rightarrow> int list" where
  "raw_attention r = rr_prompt_attention r @ rr_response_attention r"

definition raw_input_ids :: "raw_row \<Rightarrow> int list" where
  "raw_input_ids r = rr_prompt_ids r @ rr_response_ids r"

definition raw_logprobs :: "nat \<Rightarrow> real list option \<Rightarrow> real list res" where
  "raw_logprobs rw lps =
     (case lps of
        None \<Rightarrow> Inl ValueError
      | Some vs \<Rightarrow> Inr (take rw vs @ replicate (rw - length (take rw vs)) 0))"

definition raw_routed :: "'img pad_config \<Rightarrow> 'img agent_output list \<Rightarrow> int list list list res" where
  "raw_routed cfg inputs =
     rbind (rcheck ValueError (\<forall>out\<in>set inputs. ao_routed_experts out \<noteq> None)) (\<lambda>_.
     rbind (rmap (\<lambda>out. place_routed_experts True (pc_prompt_length cfg) (pc_prompt_length cfg + pc_response_length cfg)
               (length (ao_prompt_ids out)) (the (ao_routed_experts out))) inputs) (\<lambda>rows.
     rbind (rcheck RuntimeError (\<forall>out\<in>set inputs. row_width (the (ao_routed_experts out)) = row_width (the (ao_routed_experts (hd inputs))))) (\<lambda>_.
     Inr rows)))"

text \<open>The teacher's values, or the negative ones, of all outputs or of none.\<close>

definition raw_teacher ::
    "'img pad_config \<Rightarrow> ('img agent_output \<Rightarrow> int list list option) \<Rightarrow> ('img agent_output \<Rightarrow> real list list option)
     \<Rightarrow> string \<Rightarrow> string \<Rightarrow> 'img agent_output list \<Rightarrow> cell list pydict res" where
  "raw_teacher cfg ids_of logprobs_of ids_key logprobs_key inputs =
     (if \<forall>out\<in>set inputs. ids_of out = None \<and> logprobs_of out = None then Inr []
      else rbind (rcheck ValueError (\<forall>out\<in>set inputs. ids_of out \<noteq> None \<and> logprobs_of out \<noteq> None)) (\<lambda>_.
           rbind (rmap (\<lambda>out. pad_teacher_pair cfg out (the (ids_of out), the (logprobs_of out))) inputs) (\<lambda>pairs.
           rbind (cat_rows rows_shape (map (Some \<circ> fst) pairs)) (\<lambda>ids.
           rbind (cat_rows rows_shape (map (Some \<circ> snd) pairs)) (\<lambda>lps.
           Inr [(ids_key, map IntRows ids), (logprobs_key, map RealRows lps)])))))"

definition raw_positions :: "'img pad_config \<Rightarrow> 'img agent_output \<times> raw_row \<Rightarrow> ('img mobj pydict \<times> cell) res" where
  "raw_positions cfg p =
     (case p of (out, r) \<Rightarrow>
        rbind (compute_multi_modal_inputs cfg out (raw_input_ids r)) (\<lambda>mm.
        rbind (compute_position_ids cfg (raw_input_ids r) (raw_attention r) mm) (\<lambda>(pos, mm'). Inr (mm', pos))))"

definition postprocess_raw ::
    "'img pad_config \<Rightarrow> (string list \<Rightarrow> string list) \<Rightarrow> 'img agent_output list \<Rightarrow> 'img mobj list pydict option
     \<Rightarrow> (cell, 'img mobj) dataproto res" where
  "postprocess_raw cfg iter_set inputs input_non_tensor =
     rbind (rcheck ValueError (inputs \<noteq> [])) (\<lambda>_.
     rbind (rmap (raw_row_of cfg) inputs) (\<lambda>rows.
     rbind (if ao_response_logprobs (hd inputs) = None then Inr []
            else rbind (rmap (raw_logprobs (pc_response_length cfg)) (map ao_response_logprobs inputs)) (\<lambda>v.
                 Inr [(''rollout_log_probs'', map RealRow v)])) (\<lambda>logprobs.
     rbind (if \<forall>out\<in>set inputs. ao_routed_experts out = None then Inr []
            else rbind (raw_routed cfg inputs) (\<lambda>v. Inr [(''routed_experts'', map IntRows v)])) (\<lambda>routed.
     rbind (raw_teacher cfg ao_teacher_ids ao_teacher_logprobs ''teacher_ids'' ''teacher_logprobs'' inputs) (\<lambda>teacher.
     rbind (raw_teacher cfg ao_teacher_neg_ids ao_teacher_neg_logprobs ''teacher_neg_ids'' ''teacher_neg_logprobs'' inputs) (\<lambda>negative.
     rbind (rmap (raw_positions cfg) (zip inputs rows)) (\<lambda>positions.
     rbind (cat_rows cell_shape (map (Some \<circ> snd) positions)) (\<lambda>position_ids.
     assemble cfg iter_set
       ([(''prompts'', map (IntRow \<circ> rr_prompt_ids) rows), (''responses'', map (IntRow \<circ> rr_response_ids) rows),
         (''response_mask'', map (IntRow \<circ> rr_response_mask) rows), (''input_ids'', map (IntRow \<circ> raw_input_ids) rows),
         (''attention_mask'', map (IntRow \<circ> raw_attention) rows), (''position_ids'', position_ids)] @ logprobs @ routed @ teacher @ negative)
       (map raw_attention rows) (map rr_response_mask rows) (map ao_reward_score inputs) (map ao_num_turns inputs)
       (map fst positions) (map ao_metrics inputs) (map ao_extra_fields inputs) input_non_tensor))))))))"

section \<open>Rollouts of a prompt\<close>

text \<open>The number of a rollout counts the neighbours with the same index before it.\<close>

record 'i trajectory =
  tr_step :: int
  tr_sample_index :: 'i
  tr_rollout_n :: nat
  tr_validate :: bool

fun trajectory_loop :: "int \<Rightarrow> bool \<Rightarrow> 'i option \<Rightarrow> nat \<Rightarrow> 'i list \<Rightarrow> 'i trajectory list" where
  "trajectory_loop step validate prev rollout_n [] = []"
| "trajectory_loop step validate prev rollout_n (i # rest) =
     (let n = (if prev = Some i then rollout_n + 1 else 0) in
      \<lparr>tr_step = step, tr_sample_index = i, tr_rollout_n = n, tr_validate = validate\<rparr>
      # trajectory_loop step validate (Some i) n rest)"

definition get_trajectory_info :: "int \<Rightarrow> 'i list \<Rightarrow> bool \<Rightarrow> 'i trajectory list" where
  "get_trajectory_info step index validate = trajectory_loop step validate None 0 index"

section \<open>An output as a dictionary\<close>

text \<open>\<open>as_dict\<close> of the unpadded output. The reward stands at the last token of the response mask.\<close>

datatype 'img field = FieldCell cell | FieldObj "'img mobj" | FieldMetrics "pyobj pydict"

definition optional_cell :: "string \<Rightarrow> ('v \<Rightarrow> cell) \<Rightarrow> 'v option \<Rightarrow> 'img field pydict" where
  "optional_cell k c v = (case v of None \<Rightarrow> [] | Some x \<Rightarrow> [(k, FieldCell (c x))])"

definition optional_object :: "string \<Rightarrow> 'img mobj pydict option \<Rightarrow> 'img field pydict" where
  "optional_object k v = (case v of None \<Rightarrow> [] | Some d \<Rightarrow> [(k, FieldObj (MDict d))])"

definition output_as_dict :: "'img agent_output \<Rightarrow> 'img field pydict res" where
  "output_as_dict out =
     rbind (case ao_reward_score out of
              None \<Rightarrow> Inr []
            | Some score \<Rightarrow> rbind (reward_row (length (ao_response_mask out)) (-1) score) (\<lambda>row.
                Inr [(''rm_scores'', FieldCell (RealRow row))])) (\<lambda>rewards.
     Inr (optional_object ''multi_modal_data'' (ao_multi_modal_data out)
          @ [(''num_turns'', FieldObj (MInt (ao_num_turns out))), (''metrics'', FieldMetrics (ao_metrics out)),
             (''extra_fields'', FieldObj (MDict (ao_extra_fields out)))]
          @ optional_object ''mm_processor_kwargs'' (ao_mm_processor_kwargs out)
          @ [(''prompts'', FieldCell (IntRow (ao_prompt_ids out))), (''responses'', FieldCell (IntRow (ao_response_ids out))),
             (''response_mask'', FieldCell (IntRow (ao_response_mask out)))]
          @ optional_cell ''rollout_log_probs'' RealRow (ao_response_logprobs out)
          @ optional_cell ''routed_experts'' IntRows (ao_routed_experts out)
          @ rewards
          @ optional_cell ''teacher_ids'' IntRows (ao_teacher_ids out)
          @ optional_cell ''teacher_logprobs'' RealRows (ao_teacher_logprobs out)
          @ optional_cell ''teacher_neg_ids'' IntRows (ao_teacher_neg_ids out)
          @ optional_cell ''teacher_neg_logprobs'' RealRows (ao_teacher_neg_logprobs out)))"

end
