(* ===== verification/AgentWorker.thy ===== *)
theory AgentWorker
  imports AgentOutput
begin

text \<open>
  \<open>AgentLoopWorker.generate_sequences\<close> of \<open>verl/experimental/agent_loop/agent_loop.py\<close>: sampling parameters,
  one agent loop per sample, its post-processing with the reward and the teacher's request, and the batch of
  the worker. The agent loops, the reward workers and \<open>repr\<close> are parameters, beside those of the theories
  it builds on. What the consumers of a stream (\<open>WorkPool\<close>) have gathered is an argument. Timings and traces
  are left out.
\<close>

section \<open>Sampling parameters\<close>

record sampling_values =
  sv_temperature :: real
  sv_top_p :: real
  sv_top_k :: int
  sv_presence_penalty :: real
  sv_repetition_penalty :: real

record sampling_config =
  sc_train :: sampling_values
  sc_val :: sampling_values
  sc_do_sample :: bool
  sc_val_do_sample :: bool

definition apply_greedy_sampling_params :: "sampling_values \<Rightarrow> sampling_values" where
  "apply_greedy_sampling_params params =
     params\<lparr>sv_top_p := 1, sv_top_k := -1, sv_temperature := 0, sv_presence_penalty := 0, sv_repetition_penalty := 1\<rparr>"

definition batch_sampling_params :: "sampling_config \<Rightarrow> bool \<Rightarrow> sampling_values" where
  "batch_sampling_params config validate =
     (let params = (if validate then sc_val config else sc_train config) in
      if (if validate then \<not> sc_val_do_sample config else \<not> sc_do_sample config)
      then apply_greedy_sampling_params params else params)"

text \<open>The column \<open>__do_sample__\<close> makes single samples greedy, in training only.\<close>

definition sample_params :: "sampling_config \<Rightarrow> bool \<Rightarrow> 'img mobj list option \<Rightarrow> nat \<Rightarrow> sampling_values" where
  "sample_params config validate per_sample_do_sample i =
     (let params = batch_sampling_params config validate in
      case per_sample_do_sample of
        Some v \<Rightarrow> (if \<not> validate \<and> \<not> mtruthy (v ! i) then apply_greedy_sampling_params params else params)
      | None \<Rightarrow> params)"

section \<open>The worker\<close>

record 'img loop_worker =
  lw_pad :: "'img pad_config"
  lw_teacher :: "'img worker"
  lw_sampling :: sampling_config
  lw_registry :: "(sampling_values \<Rightarrow> 'img mobj pydict \<Rightarrow> 'img agent_output res) pydict"
  lw_default_agent_loop :: string
  lw_compute_score :: "(cell, 'img mobj) dataproto \<Rightarrow> (real \<times> 'img mobj pydict) res"
  lw_repr :: "'img mobj \<Rightarrow> string"
  lw_iter_set :: "string list \<Rightarrow> string list"
  lw_critic_warmup :: int
  lw_teacher_streaming :: string
  lw_teacher_concurrency :: "int option"
  lw_reward_streaming :: string
  lw_reward_streaming_mode :: string
  lw_reward_concurrency :: "int option"

section \<open>The reward of a sample\<close>

text \<open>\<open>pad_sequence\<close>: zeros up to the longest. Position ids of several dimensions are already equal in their
  first dimension, the others must agree.\<close>

definition longest :: "'a list list \<Rightarrow> nat" where
  "longest rows = foldl max 0 (map length rows)"

definition pad_sequence :: "int list list \<Rightarrow> int list list" where
  "pad_sequence rows = map (\<lambda>r. r @ replicate (longest rows - length r) 0) rows"

fun cell_int_row :: "cell \<Rightarrow> int list option" where
  "cell_int_row (IntRow xs) = Some xs"
| "cell_int_row _ = None"

fun cell_int_rows :: "cell \<Rightarrow> int list list option" where
  "cell_int_rows (IntRows rows) = Some rows"
| "cell_int_rows _ = None"

definition pad_position_cells :: "cell list \<Rightarrow> cell list res" where
  "pad_position_cells cells =
     (if None \<notin> set (map cell_int_row cells) then Inr (map IntRow (pad_sequence (map (the \<circ> cell_int_row) cells)))
      else rbind (rcheck RuntimeError (None \<notin> set (map cell_int_rows cells))) (\<lambda>_.
           (let rows = map (the \<circ> cell_int_rows) cells in
            rbind (rcheck RuntimeError (\<forall>r\<in>set rows. row_width r = row_width (hd rows))) (\<lambda>_.
            Inr (map (\<lambda>r. IntRows (r @ replicate (longest rows - length r) (replicate (row_width r) 0))) rows)))))"

definition prepare_score_data ::
    "'img pad_config \<Rightarrow> 'img agent_output list \<Rightarrow> 'img mobj pydict \<Rightarrow> (cell, 'img mobj) dataproto res" where
  "prepare_score_data cfg outputs kwargs =
     (let n = length outputs; tokens = map (\<lambda>o'. ao_prompt_ids o' @ ao_response_ids o') outputs;
          ones = map (\<lambda>ids. replicate (length ids) 1) tokens in
      rbind (rmap (\<lambda>o'. (let ids = ao_prompt_ids o' @ ao_response_ids o' in
               rbind (compute_multi_modal_inputs cfg o' ids) (\<lambda>mm.
               rbind (compute_position_ids cfg ids (replicate (length ids) 1) mm) (\<lambda>(pos, _). Inr pos)))) outputs) (\<lambda>positions.
      rbind (pad_position_cells positions) (\<lambda>position_ids.
      rbind (tensordict_new
               [(''prompts'', map IntRow (pad_sequence (map ao_prompt_ids outputs))),
                (''responses'', map IntRow (pad_sequence (map ao_response_ids outputs))),
                (''attention_mask'', map IntRow (pad_sequence ones)), (''input_ids'', map IntRow (pad_sequence tokens)),
                (''position_ids'', position_ids)] n) (\<lambda>td.
      dataproto_new (Some td)
        (dict_update (dict_map (replicate n) kwargs)
           [(''__num_turns__'', map (MInt \<circ> ao_num_turns) outputs), (''tool_extra_fields'', map (MDict \<circ> ao_extra_fields) outputs),
            (''prompt_len'', map (MInt \<circ> int \<circ> length \<circ> ao_prompt_ids) outputs),
            (''response_len'', map (MInt \<circ> int \<circ> length \<circ> ao_response_ids) outputs)]) []))))"

text \<open>\<open>_compute_score\<close> of a single output: only if it has no reward yet and there are reward workers.\<close>

definition compute_score :: "'img loop_worker \<Rightarrow> 'img mobj pydict \<Rightarrow> 'img agent_output \<Rightarrow> 'img agent_output res" where
  "compute_score lw kwargs out =
     (if ao_reward_score out = None \<and> pc_reward_workers (lw_pad lw)
      then rbind (prepare_score_data (lw_pad lw) [out] kwargs) (\<lambda>data.
           rbind (lw_compute_score lw data) (\<lambda>(score, info).
           Inr (out\<lparr>ao_reward_score := Some score,
                    ao_extra_fields := dict_set (ao_extra_fields out) ''reward_extra_info'' (MDict info)\<rparr>)))
      else Inr out)"

type_synonym 'img score_item = "((cell, 'img mobj) dataproto, 'img mobj) reward_item"

definition given_extra_info :: "'img mobj pydict \<Rightarrow> 'img mobj pydict res" where
  "given_extra_info extra =
     (case map_of extra ''reward_extra_info'' of
        None \<Rightarrow> Inr []
      | Some v \<Rightarrow> if mtruthy v then as_dictionary v else Inr [])"

definition queue_score ::
    "'img loop_worker \<Rightarrow> 'img mobj pydict \<Rightarrow> 'img agent_output \<Rightarrow> ('img agent_output \<times> 'img score_item) res" where
  "queue_score lw kwargs out =
     (case ao_reward_score out of
        None \<Rightarrow>
          rbind (prepare_score_data (lw_pad lw) [out] kwargs) (\<lambda>data.
          Inr (out, \<lparr>item_data = Some data, item_response_length = length (ao_response_ids out), item_reward_score = 0,
                     item_extra_info = []\<rparr>))
      | Some score \<Rightarrow>
          rbind (given_extra_info (ao_extra_fields out)) (\<lambda>info.
          Inr (out\<lparr>ao_reward_score := None, ao_extra_fields := dict_del (ao_extra_fields out) ''reward_extra_info''\<rparr>,
               \<lparr>item_data = None, item_response_length = length (ao_response_ids out), item_reward_score = score,
                item_extra_info = info\<rparr>)))"

section \<open>The post-processing of a sample\<close>

text \<open>With a queue the request is put there, without one it stays in the extra fields of the output.\<close>

definition attach_request ::
    "'img loop_worker \<Rightarrow> bool \<Rightarrow> 'img teacher_context res option \<Rightarrow> bool \<Rightarrow> 'img mobj pydict \<Rightarrow> 'img agent_output
     \<Rightarrow> ('img agent_output \<times> 'img mobj teacher_request option) res" where
  "attach_request lw validate context_task teacher_queue kwargs out =
     rbind (prepare_teacher_logprob_request (lw_teacher lw) validate (Some kwargs) context_task (ao_multi_modal_data out)
              (ao_mm_processor_kwargs out) (ao_prompt_ids out) (ao_response_ids out)
              (Some (pc_prompt_length (lw_pad lw))) (Some (pc_response_length (lw_pad lw)))) (\<lambda>request.
     Inr (case request of
            None \<Rightarrow> (out, None)
          | Some r \<Rightarrow> if teacher_queue then (out\<lparr>ao_teacher_request := None\<rparr>, Some r)
                      else (out\<lparr>ao_teacher_request := Some r\<rparr>, None)))"

record 'img sample_run =
  sr_output :: "'img padded_output"
  sr_score_item :: "'img score_item option"
  sr_teacher_item :: "'img mobj teacher_request option"

definition agent_loop_postprocess ::
    "'img loop_worker \<Rightarrow> bool \<Rightarrow> 'img teacher_context res option \<Rightarrow> bool \<Rightarrow> bool \<Rightarrow> 'img mobj pydict \<Rightarrow> 'img agent_output
     \<Rightarrow> 'img sample_run res" where
  "agent_loop_postprocess lw validate context_task teacher_queue reward_queue kwargs output0 =
     rbind (dict_get kwargs ''raw_prompt'') (\<lambda>raw_prompt.
     (let output = output0\<lparr>ao_extra_fields := dict_set (ao_extra_fields output0) ''raw_prompt'' raw_prompt\<rparr> in
      rbind (pad_sequences (lw_pad lw) output) (\<lambda>padded.
      rbind (if reward_queue then rbind (queue_score lw kwargs output) (\<lambda>(o', item). Inr (o', Some item))
             else rbind (compute_score lw kwargs output) (\<lambda>o'. Inr (o', None))) (\<lambda>(scored, score_item).
      rbind (attach_request lw validate context_task teacher_queue kwargs scored) (\<lambda>(requested, teacher_item).
      rbind (finish_padding (lw_pad lw) requested padded) (\<lambda>processed.
      Inr \<lparr>sr_output = processed, sr_score_item = score_item, sr_teacher_item = teacher_item\<rparr>))))))"

definition run_agent_loop ::
    "'img loop_worker \<Rightarrow> sampling_values \<Rightarrow> bool \<Rightarrow> 'img mobj \<Rightarrow> 'img teacher_context res option \<Rightarrow> bool \<Rightarrow> bool
     \<Rightarrow> 'img mobj pydict \<Rightarrow> 'img sample_run res" where
  "run_agent_loop lw params validate agent_name context_task teacher_queue reward_queue kwargs =
     (case (case agent_name of MStr name \<Rightarrow> map_of (lw_registry lw) name | _ \<Rightarrow> None) of
        None \<Rightarrow> Inl AssertionError
      | Some agent_loop \<Rightarrow>
          (let context = (case context_task of
                 None \<Rightarrow> maybe_start_teacher_crop_prepare_task (lw_teacher lw) validate (Some kwargs)
               | Some c \<Rightarrow> Some c) in
           rbind (agent_loop params kwargs) (\<lambda>output.
           agent_loop_postprocess lw validate context teacher_queue reward_queue kwargs output)))"

section \<open>Teacher contexts that rollouts of a prompt share\<close>

fun hashable :: "'img mobj \<Rightarrow> bool" where
  "hashable (MList _) = False"
| "hashable (MDict _) = False"
| "hashable (MArray _) = False"
| "hashable _ = True"

definition normalize_teacher_crop_cache_key :: "('img mobj \<Rightarrow> string) \<Rightarrow> 'img mobj \<Rightarrow> 'img mobj res" where
  "normalize_teacher_crop_cache_key repr value =
     rbind (case value of
              MScalar v \<Rightarrow> Inr v
            | MArray [v] \<Rightarrow> Inr v
            | MArray _ \<Rightarrow> Inl ValueError
            | v \<Rightarrow> Inr v) (\<lambda>v.
     Inr (if hashable v then v else MStr (repr v)))"

text \<open>The first sample of a key starts the preparation for all samples of the key.\<close>

fun shared_contexts ::
    "('img mobj pydict \<Rightarrow> 'c) \<Rightarrow> ('img mobj \<times> 'c) list \<Rightarrow> ('img mobj \<times> 'img mobj pydict) list \<Rightarrow> 'c list" where
  "shared_contexts start cache [] = []"
| "shared_contexts start cache ((key, kwargs) # rest) =
     (case map_of cache key of
        Some c \<Rightarrow> c # shared_contexts start cache rest
      | None \<Rightarrow> (let c = start kwargs in c # shared_contexts start ((key, c) # cache) rest))"

definition sample_contexts ::
    "'img loop_worker \<Rightarrow> bool \<Rightarrow> 'img mobj list \<Rightarrow> 'img mobj pydict list \<Rightarrow> 'img teacher_context res option list res" where
  "sample_contexts lw validate index kwargss =
     (if wk_distillation_enabled (lw_teacher lw) \<and> wk_crop_enabled (lw_teacher lw)
      then rbind (rmap (\<lambda>(i, kwargs). normalize_teacher_crop_cache_key (lw_repr lw)
                          (case map_of kwargs ''uid'' of None \<Rightarrow> i | Some uid \<Rightarrow> uid)) (zip index kwargss)) (\<lambda>keys.
           Inr (shared_contexts (\<lambda>kwargs. maybe_start_teacher_crop_prepare_task (lw_teacher lw) validate (Some kwargs)) []
                  (zip keys kwargss)))
      else Inr (map (\<lambda>_. None) kwargss))"

section \<open>Running the samples of a batch\<close>

definition batch_validate :: "pyobj pydict \<Rightarrow> bool" where
  "batch_validate mi = (case map_of mi ''validate'' of None \<Rightarrow> False | Some v \<Rightarrow> truthy v)"

definition batch_global_steps :: "pyobj pydict \<Rightarrow> int" where
  "batch_global_steps mi = (case map_of mi ''global_steps'' of Some (PInt n) \<Rightarrow> n | _ \<Rightarrow> -1)"

definition with_agent_name :: "string \<Rightarrow> nat \<Rightarrow> 'img mobj list pydict \<Rightarrow> 'img mobj list pydict" where
  "with_agent_name default_agent_loop n nt =
     (if has_key nt ''agent_name'' then nt else dict_set nt ''agent_name'' (replicate n (MStr default_agent_loop)))"

definition sample_index :: "nat \<Rightarrow> 'img mobj list pydict \<Rightarrow> 'img mobj list" where
  "sample_index n nt = (case map_of nt ''index'' of Some v \<Rightarrow> v | None \<Rightarrow> map (\<lambda>i. MInt (int i)) [0..<n])"

definition sample_kwargs_at :: "'img mobj list pydict \<Rightarrow> nat \<Rightarrow> 'img mobj pydict" where
  "sample_kwargs_at nt i = dict_map (\<lambda>v. v ! i) (dict_del nt ''__do_sample__'')"

text \<open>The mode of a stream, when there is one, with the check of its concurrency.\<close>

definition teacher_stream_mode :: "'img loop_worker \<Rightarrow> bool \<Rightarrow> int \<Rightarrow> nat \<Rightarrow> string option res" where
  "teacher_stream_mode lw validate global_steps n =
     rbind (should_stream_teacher_logprobs (lw_teacher lw) (lw_teacher_streaming lw) (lw_critic_warmup lw) validate global_steps) (\<lambda>stream.
     if \<not> stream then Inr None
     else rbind (teacher_logprob_streaming_mode (lw_teacher_streaming lw)) (\<lambda>mode.
          rbind (teacher_logprob_streaming_concurrency (lw_teacher_concurrency lw) n) (\<lambda>_. Inr (Some mode))))"

definition reward_stream_mode :: "'img loop_worker \<Rightarrow> bool \<Rightarrow> nat \<Rightarrow> string option res" where
  "reward_stream_mode lw validate n =
     (if \<not> should_stream_validation_rewards validate (pc_reward_workers (lw_pad lw)) (lw_reward_streaming lw) then Inr None
      else rbind (validation_reward_streaming_mode (lw_reward_streaming_mode lw)) (\<lambda>mode.
           rbind (validation_reward_streaming_concurrency (lw_reward_concurrency lw) n) (\<lambda>_. Inr (Some mode))))"

definition run_sample ::
    "'img loop_worker \<Rightarrow> bool \<Rightarrow> bool \<Rightarrow> bool \<Rightarrow> 'img mobj list pydict \<Rightarrow> (nat \<times> 'img teacher_context res option) \<Rightarrow> 'img sample_run res" where
  "run_sample lw validate teacher_queue reward_queue nt p =
     (case p of (i, context) \<Rightarrow>
        (let kwargs = sample_kwargs_at nt i in
         run_agent_loop lw (sample_params (lw_sampling lw) validate (map_of nt ''__do_sample__'') i) validate
           (case map_of kwargs ''agent_name'' of None \<Rightarrow> MNone | Some v \<Rightarrow> v) context teacher_queue reward_queue
           (dict_del kwargs ''agent_name'')))"

record 'img batch_run =
  br_runs :: "'img sample_run list"
  br_teacher_mode :: "string option"
  br_reward_mode :: "string option"

definition run_samples :: "'img loop_worker \<Rightarrow> (cell, 'img mobj) dataproto \<Rightarrow> 'img batch_run res" where
  "run_samples lw dp =
     (let validate = batch_validate (meta_info dp); n = dp_len dp;
          nt = with_agent_name (lw_default_agent_loop lw) n (non_tensor_batch dp) in
      rbind (teacher_stream_mode lw validate (batch_global_steps (meta_info dp)) n) (\<lambda>teacher_mode.
      rbind (reward_stream_mode lw validate n) (\<lambda>reward_mode.
      rbind (sample_contexts lw validate (sample_index n nt) (map (sample_kwargs_at nt) [0..<n])) (\<lambda>contexts.
      rbind (rmap (run_sample lw validate (teacher_mode \<noteq> None) (reward_mode \<noteq> None) nt) (zip [0..<n] contexts)) (\<lambda>runs.
      Inr \<lparr>br_runs = runs, br_teacher_mode = teacher_mode, br_reward_mode = reward_mode\<rparr>)))))"

section \<open>The batch of the worker\<close>

text \<open>In the blocking mode the gathered results are written into the outputs.\<close>

definition attach_streamed_teacher_logprob_results ::
    "'img padded_output list \<Rightarrow> (padded_pair \<times> padded_pair option) option list \<Rightarrow> 'img padded_output list res" where
  "attach_streamed_teacher_logprob_results outputs rs =
     rbind (rcheck ValueError (length outputs = length rs)) (\<lambda>_.
     rbind (rcheck ValueError (None \<notin> set rs)) (\<lambda>_.
     Inr (map2 (\<lambda>p r. (case the r of ((ids, logprobs), negative) \<Rightarrow>
            p\<lparr>po_teacher_ids := Some ids, po_teacher_logprobs := Some logprobs,
              po_teacher_neg_ids := map_option fst negative, po_teacher_neg_logprobs := map_option snd negative\<rparr>)) outputs rs)))"

definition attach_streamed_validation_reward_results ::
    "'img padded_output list \<Rightarrow> 'img mobj reward_result option list \<Rightarrow> 'img padded_output list res" where
  "attach_streamed_validation_reward_results outputs rs =
     rbind (rcheck ValueError (length outputs = length rs)) (\<lambda>_.
     rbind (rcheck ValueError (None \<notin> set rs)) (\<lambda>_.
     Inr (map2 (\<lambda>p r. p\<lparr>po_reward_score := Some (res_reward_score (the r)),
              po_extra_fields := dict_set (po_extra_fields p) ''reward_extra_info'' (MDict (res_extra_info (the r)))\<rparr>) outputs rs)))"

text \<open>The requests that stay with the samples become an array of the batch, apart from the other arrays.\<close>

definition request_column :: "'img padded_output list \<Rightarrow> 'img mobj teacher_request option list option" where
  "request_column outputs =
     (if \<exists>p\<in>set outputs. po_teacher_request p \<noteq> None then Some (map po_teacher_request outputs) else None)"

text \<open>What a worker gives back: the batch, the requests, and the identifiers of the streams that it has left
  running, which stand in the \<open>meta_info\<close> of the code. They come from \<open>uuid4\<close>.\<close>

record 'img worker_batch =
  wb_batch :: "(cell, 'img mobj) dataproto"
  wb_requests :: "'img mobj teacher_request option list option"
  wb_teacher_stream :: "string option"
  wb_reward_stream :: "string option"

definition finish_batch ::
    "'img loop_worker \<Rightarrow> (cell, 'img mobj) dataproto \<Rightarrow> 'img batch_run
     \<Rightarrow> (padded_pair \<times> padded_pair option) option list res \<Rightarrow> 'img mobj reward_result option list res
     \<Rightarrow> string \<Rightarrow> string \<Rightarrow> 'img worker_batch res" where
  "finish_batch lw dp run teacher_outcome reward_outcome teacher_id reward_id =
     rbind (if br_teacher_mode run = Some ''blocking''
            then rbind teacher_outcome (attach_streamed_teacher_logprob_results (map sr_output (br_runs run)))
            else Inr (map sr_output (br_runs run))) (\<lambda>outputs1.
     rbind (if br_reward_mode run = Some ''blocking''
            then rbind reward_outcome (attach_streamed_validation_reward_results outputs1)
            else Inr outputs1) (\<lambda>outputs2.
     rbind (postprocess_padded (lw_pad lw) (lw_iter_set lw) outputs2
              (Some (with_agent_name (lw_default_agent_loop lw) (dp_len dp) (non_tensor_batch dp)))) (\<lambda>result.
     Inr \<lparr>wb_batch = result, wb_requests = request_column outputs2,
          wb_teacher_stream = (if br_teacher_mode run = None \<or> br_teacher_mode run = Some ''blocking'' then None else Some teacher_id),
          wb_reward_stream = (if br_reward_mode run = None \<or> br_reward_mode run = Some ''blocking'' then None else Some reward_id)\<rparr>)))"

text \<open>The call of a worker: the samples run, and what the streams of the run give is passed on to the end of the call.\<close>

definition worker_generate_sequences ::
    "'img loop_worker \<Rightarrow> ('img batch_run \<Rightarrow> ((padded_pair \<times> padded_pair option) option list res
        \<times> 'img mobj reward_result option list res) \<times> string \<times> string)
     \<Rightarrow> (cell, 'img mobj) dataproto \<Rightarrow> 'img worker_batch res" where
  "worker_generate_sequences lw streams dp =
     rbind (run_samples lw dp) (\<lambda>run.
     (case streams run of ((teacher_outcome, reward_outcome), teacher_id, reward_id) \<Rightarrow>
        finish_batch lw dp run teacher_outcome reward_outcome teacher_id reward_id))"

end
