(* ===== verification/AgentManager.thy ===== *)
theory AgentManager
  imports AgentWorker
begin

text \<open>
  \<open>AgentLoopManager\<close> of \<open>verl/experimental/agent_loop/agent_loop.py\<close>: a batch is cut into one chunk per
  worker, the workers' outputs are concatenated, and the streams that the workers left running are resolved
  later, in the order that the batch then has; with the trainer's side of it in
  \<open>verl/trainer/ppo/ray_trainer.py\<close>. A worker is a function from its chunk to its batch and the streams it
  leaves; identifiers of streams are the keys of the worker's table.
\<close>

section \<open>Streams of a worker\<close>

text \<open>\<open>get_teacher_logprob_stream\<close>: the task of a stream is taken out of the table and awaited.\<close>

definition get_stream :: "'t pydict \<Rightarrow> string \<Rightarrow> ('t \<times> 't pydict) res" where
  "get_stream pending stream_id =
     (case map_of pending stream_id of None \<Rightarrow> Inl KeyError | Some task \<Rightarrow> Inr (task, dict_del pending stream_id))"

record stream_handle =
  sh_worker :: nat
  sh_stream_id :: string
  sh_length :: nat

text \<open>Resolving the handles of a batch. \<open>tables\<close> are the workers' tables of finished streams; every handle
  removes its stream.\<close>

fun take_streams :: "'t res pydict list \<Rightarrow> stream_handle list \<Rightarrow> 't list res" where
  "take_streams tables [] = Inr []"
| "take_streams tables (h # hs) =
     rbind (get_stream (tables ! sh_worker h) (sh_stream_id h)) (\<lambda>(task, rest).
     rbind task (\<lambda>out. rbind (take_streams (tables[sh_worker h := rest]) hs) (\<lambda>outs. Inr (out # outs))))"

definition resolve_teacher_logprob_streams ::
    "('r, 'o) dataproto res pydict list \<Rightarrow> stream_handle list \<Rightarrow> nat list option \<Rightarrow> ('r, 'o) dataproto res" where
  "resolve_teacher_logprob_streams tables stream_handles order_indices =
     rbind (rcheck ValueError (stream_handles \<noteq> [])) (\<lambda>_.
     rbind (take_streams tables stream_handles) (\<lambda>outputs.
     rbind (concat_dataproto outputs) (\<lambda>teacher_output.
     rbind (rcheck ValueError (dp_len teacher_output = sum_list (map sh_length stream_handles))) (\<lambda>_.
     (case order_indices of
        None \<Rightarrow> Inr teacher_output
      | Some order \<Rightarrow> reorder order teacher_output)))))"

text \<open>Validation rewards: workers whose samples lack a key get a column of \<open>None\<close>.\<close>

definition fill_column :: "string \<Rightarrow> ('r, 'img mobj) dataproto \<Rightarrow> ('r, 'img mobj) dataproto" where
  "fill_column k dp =
     (if has_key (non_tensor_batch dp) k then dp
      else dp\<lparr>non_tensor_batch := dict_set (non_tensor_batch dp) k (replicate (dp_len dp) MNone)\<rparr>)"

definition obj_strings :: "pyobj option \<Rightarrow> string list" where
  "obj_strings v = (case v of Some (PList xs) \<Rightarrow> concat (map (\<lambda>x. case x of PStr s \<Rightarrow> [s] | _ \<Rightarrow> []) xs) | _ \<Rightarrow> [])"

definition resolve_validation_reward_streams ::
    "('r, 'img mobj) dataproto res pydict list \<Rightarrow> stream_handle list \<Rightarrow> nat list option \<Rightarrow> ('r, 'img mobj) dataproto res" where
  "resolve_validation_reward_streams tables stream_handles order_indices =
     rbind (rcheck ValueError (stream_handles \<noteq> [])) (\<lambda>_.
     rbind (take_streams tables stream_handles) (\<lambda>outputs.
     (let keys = py_sorted str_lt (remdups (concat (map (\<lambda>dp. obj_strings (map_of (meta_info dp) ''reward_extra_keys'')) outputs)));
          filled = map (\<lambda>dp. (let dp' = foldl (\<lambda>d k. fill_column k d) dp keys in
                      dp'\<lparr>meta_info := dict_set (meta_info dp') ''reward_extra_keys'' (PList (map PStr keys))\<rparr>)) outputs in
      rbind (concat_dataproto filled) (\<lambda>reward_output.
      rbind (rcheck ValueError (dp_len reward_output = sum_list (map sh_length stream_handles))) (\<lambda>_.
      (case order_indices of
         None \<Rightarrow> Inr reward_output
       | Some order \<Rightarrow> reorder order reward_output))))))"

section \<open>Generating a batch\<close>

definition stream_handles_of :: "(nat \<times> string option \<times> nat) list \<Rightarrow> stream_handle list" where
  "stream_handles_of ws =
     concat (map (\<lambda>(i, stream_id, len). case stream_id of
         None \<Rightarrow> [] | Some k \<Rightarrow> [\<lparr>sh_worker = i, sh_stream_id = k, sh_length = len\<rparr>]) ws)"

definition add_index_column :: "string \<Rightarrow> bool \<Rightarrow> ('r, 'img mobj) dataproto \<Rightarrow> ('r, 'img mobj) dataproto" where
  "add_index_column k present dp =
     (if present then dp\<lparr>non_tensor_batch := dict_set (non_tensor_batch dp) k (map (\<lambda>i. MInt (int i)) [0..<dp_len dp])\<rparr>
      else dp)"

text \<open>Performance metrics of a batch.\<close>

fun obj_list :: "pyobj \<Rightarrow> pyobj list res" where
  "obj_list (PList xs) = Inr xs"
| "obj_list _ = Inl TypeError"

definition metric_or :: "string \<Rightarrow> real \<Rightarrow> pyobj pydict \<Rightarrow> real res" where
  "metric_or k dflt d =
     (case map_of d k of
        None \<Rightarrow> Inr dflt
      | Some v \<Rightarrow> (case py_number v of None \<Rightarrow> Inl TypeError | Some x \<Rightarrow> Inr x))"

definition mean_of :: "real list \<Rightarrow> real" where
  "mean_of xs = sum_list xs / real (length xs)"

fun fold_best :: "(real \<Rightarrow> real \<Rightarrow> bool) \<Rightarrow> real list \<Rightarrow> real" where
  "fold_best better [] = 0"
| "fold_best better [x] = x"
| "fold_best better (x # xs) = (let y = fold_best better xs in if better y x then y else x)"

text \<open>\<open>np.argmax\<close>: the first position of the largest entry.\<close>

fun argmax_from :: "nat \<Rightarrow> nat \<Rightarrow> real \<Rightarrow> real list \<Rightarrow> nat" where
  "argmax_from i best bx [] = best"
| "argmax_from i best bx (x # xs) = (if bx < x then argmax_from (i + 1) i x xs else argmax_from (i + 1) best bx xs)"

definition argmax :: "real list \<Rightarrow> nat" where
  "argmax xs = (case xs of [] \<Rightarrow> 0 | x # rest \<Rightarrow> argmax_from 1 0 x rest)"

definition summary :: "string \<Rightarrow> real list \<Rightarrow> real pydict" where
  "summary k xs =
     [(''agent_loop/'' @ k @ ''/min'', fold_best (<) xs), (''agent_loop/'' @ k @ ''/max'', fold_best (>) xs),
      (''agent_loop/'' @ k @ ''/mean'', mean_of xs)]"

definition numeric_keys :: "pyobj pydict list \<Rightarrow> string list" where
  "numeric_keys ds =
     py_sorted str_lt (remdups (concat (map (\<lambda>d. map fst (filter (\<lambda>(k, v). k \<noteq> ''num_preempted'' \<and> py_number v \<noteq> None) d)) ds)))"

fun cell_ints :: "cell \<Rightarrow> int list" where
  "cell_ints (IntRow xs) = xs"
| "cell_ints _ = []"

definition performance_metrics :: "pyobj pydict list list \<Rightarrow> (cell, 'img mobj) dataproto \<Rightarrow> real pydict res" where
  "performance_metrics metrics output =
     (let flat = concat metrics in
      if flat = [] then Inr []
      else
        rbind (rmap (metric_or ''generate_sequences'' 0) flat) (\<lambda>t_generate.
        rbind (rmap (metric_or ''tool_calls'' 0) flat) (\<lambda>t_tool.
        rbind (rmap (metric_or ''compute_score'' 0) flat) (\<lambda>t_score.
        rbind (rmap (metric_or ''num_preempted'' (-1)) flat) (\<lambda>preempted.
        (let slowest = argmax (map2 (+) (map2 (+) t_generate t_tool) t_score) in
         rbind (case batch output of None \<Rightarrow> Inl TypeError | Some td \<Rightarrow> Inr (tensors td)) (\<lambda>ts.
         rbind (dict_get ts ''prompts'') (\<lambda>prompts.
         rbind (rmap (\<lambda>k. rbind (rmap (metric_or k 0) flat) (\<lambda>vs.
                   Inr (summary k vs @ [(''agent_loop/slowest/'' @ k, vs ! slowest)]))) (numeric_keys flat)) (\<lambda>keyed.
         (let prompt_length = (case prompts of [] \<Rightarrow> 0 | p # _ \<Rightarrow> length (cell_ints p));
              lengths = (case map_of ts ''attention_mask'' of
                 None \<Rightarrow> []
               | Some rows \<Rightarrow>
                   [(''agent_loop/slowest/prompt_length'', of_int (sum_list (take prompt_length (cell_ints (rows ! slowest))))),
                    (''agent_loop/slowest/response_length'', of_int (sum_list (drop prompt_length (cell_ints (rows ! slowest)))))])
          in Inr (dict_update [] (summary ''num_preempted'' preempted
                @ [(''agent_loop/slowest/num_preempted'', preempted ! slowest)] @ concat keyed @ lengths))))))))))))"

definition pop_metrics :: "pyobj pydict \<Rightarrow> (pyobj pydict list \<times> pyobj pydict) res" where
  "pop_metrics mi =
     rbind (dict_get mi ''metrics'') (\<lambda>v. rbind (obj_list v) (\<lambda>xs. rbind (rmap obj_as_dict xs) (\<lambda>ds.
     Inr (ds, dict_del mi ''metrics''))))"

text \<open>The column of requests, like every column, is in all outputs or in none.\<close>

definition concat_requests :: "'q option list option list \<Rightarrow> 'q option list option res" where
  "concat_requests columns =
     (if \<forall>c\<in>set columns. c = None then Inr None
      else rbind (rassert (None \<notin> set columns)) (\<lambda>_. Inr (Some (concat (map the columns)))))"

record 'img generated =
  gen_batch :: "(cell, 'img mobj) dataproto"
  gen_requests :: "'img mobj teacher_request option list option"
  gen_teacher_handles :: "stream_handle list"
  gen_reward_handles :: "stream_handle list"

definition manager_generate_sequences ::
    "(nat \<Rightarrow> nat \<Rightarrow> nat list res) \<Rightarrow> bool \<Rightarrow> ((cell, 'img mobj) dataproto \<Rightarrow> 'img worker_batch res) list
     \<Rightarrow> (cell, 'img mobj) dataproto \<Rightarrow> 'img generated res" where
  "manager_generate_sequences chunk_sizes config_auto_padding workers prompts =
     rbind (chunk_dataproto chunk_sizes config_auto_padding (length workers) prompts) (\<lambda>chunkes.
     rbind (rcheck ValueError (length chunkes = length workers)) (\<lambda>_.
     rbind (rmap (\<lambda>(worker, chunk). worker chunk) (zip workers chunkes)) (\<lambda>outputs.
     (let dps = map wb_batch outputs;
          teacher = stream_handles_of (map2 (\<lambda>i o'. (i, wb_teacher_stream o', dp_len (wb_batch o'))) [0..<length outputs] outputs);
          reward = stream_handles_of (map2 (\<lambda>i o'. (i, wb_reward_stream o', dp_len (wb_batch o'))) [0..<length outputs] outputs) in
      rbind (concat_dataproto dps) (\<lambda>output.
      rbind (concat_requests (map wb_requests outputs)) (\<lambda>requests.
      rbind (rmap (\<lambda>dp. pop_metrics (meta_info dp)) dps) (\<lambda>popped.
      rbind (performance_metrics (map fst popped) output) (\<lambda>timing.
      (let mi = dict_update [(''timing'', PDict (map (\<lambda>(k, v). (k, PFloat v)) timing))] (snd (hd popped));
           out1 = add_index_column ''teacher_logprob_stream_index'' (teacher \<noteq> []) (output\<lparr>meta_info := mi\<rparr>);
           out2 = add_index_column ''validation_reward_stream_index'' (reward \<noteq> []) out1
       in Inr \<lparr>gen_batch = out2, gen_requests = requests, gen_teacher_handles = teacher, gen_reward_handles = reward\<rparr>)))))))))"

section \<open>The trainer's side\<close>

fun obj_index :: "'img mobj \<Rightarrow> nat res" where
  "obj_index (MInt i) = rbind (rcheck IndexError (0 \<le> i)) (\<lambda>_. Inr (nat i))"
| "obj_index _ = Inl TypeError"

text \<open>\<open>_submit_async_teacher_logprobs\<close>: the streams of the batch in the order of the batch, or the requests
  that the batch carries, or nothing. \<open>requests\<close> is the popped column \<open>teacher_logprob_request\<close>.\<close>

definition submit_async_teacher_logprobs ::
    "'o teacher_manager \<Rightarrow> (cell, 'img mobj) dataproto res pydict list \<Rightarrow> stream_handle list option
     \<Rightarrow> 'img mobj list option \<Rightarrow> 'o teacher_request option list option \<Rightarrow> (cell, 'img mobj) dataproto option res" where
  "submit_async_teacher_logprobs mgr tables stream_handles stream_indices requests =
     (case stream_handles of
        Some handles \<Rightarrow>
          (case stream_indices of
             None \<Rightarrow> Inl ValueError
           | Some objs \<Rightarrow> rbind (rmap obj_index objs) (\<lambda>idxs.
               rbind (resolve_teacher_logprob_streams tables handles (Some idxs)) (\<lambda>dp. Inr (Some dp))))
      | None \<Rightarrow>
          (case requests of
             None \<Rightarrow> Inr None
           | Some rs \<Rightarrow>
               if rs = [] \<or> (\<forall>r\<in>set rs. r = None) then Inr None
               else rbind (rcheck ValueError (None \<notin> set rs)) (\<lambda>_.
                    rbind (compute_teacher_logprobs mgr rs) (\<lambda>dp. Inr (Some dp)))))"

text \<open>\<open>_attach_async_teacher_logprobs\<close>: the awaited result joins the batch.\<close>

definition attach_async_teacher_logprobs ::
    "('img mobj list \<Rightarrow> 'img mobj list \<Rightarrow> bool) \<Rightarrow> bool \<Rightarrow> (cell, 'img mobj) dataproto
     \<Rightarrow> (cell, 'img mobj) dataproto option res \<Rightarrow> (cell, 'img mobj) dataproto res" where
  "attach_async_teacher_logprobs deep_equal use_teacher_policy dp future =
     rbind future (\<lambda>result.
     (case result of
        None \<Rightarrow>
          rbind (rcheck ValueError (\<not> (use_teacher_policy
                   \<and> (case batch dp of None \<Rightarrow> True | Some td \<Rightarrow> \<not> has_key (tensors td) ''teacher_logprobs'')))) (\<lambda>_. Inr dp)
      | Some teacher_output \<Rightarrow> union_dataproto deep_equal dp teacher_output))"

end
