(* ===== verification/WorkPoolLaws.thy ===== *)
theory WorkPoolLaws
  imports WorkPool BatchLaws
begin

text \<open>
  What the streams of \<open>WorkPool\<close> guarantee in every interleaving of agent loops and consumers: no item is
  lost, the result of a finished stream is the one of processing the samples in order, a failure of any
  sample is reported, and the stream always ends. With the batch computation of \<open>TeacherManager\<close> as the
  specification, streaming the teacher's outputs refines it.
\<close>

section \<open>The invariant of the pool\<close>

fun consumer_samples :: "'q consumer \<Rightarrow> nat set" where
  "consumer_samples Waiting = {}"
| "consumer_samples (Working i q) = {i}"
| "consumer_samples Returned = {}"
| "consumer_samples (Raised e i) = {i}"

text \<open>Where a sample is: its loop runs, its item is queued or with a consumer, or its result is there.\<close>

definition located :: "('q, 'r) pool \<Rightarrow> nat \<Rightarrow> bool" where
  "located s i \<longleftrightarrow> i \<in> set (running_loops s) \<or> (\<exists>q. Some (i, q) \<in> set (work_queue s))
     \<or> (\<exists>k\<in>set (consumers s). i \<in> consumer_samples k) \<or> results s ! i \<noteq> None"

fun consumer_ok :: "(nat \<Rightarrow> 'q res) \<Rightarrow> ('q \<Rightarrow> 'r res) \<Rightarrow> nat \<Rightarrow> 'q consumer \<Rightarrow> bool" where
  "consumer_ok loops work n (Working i q) = (i < n \<and> loops i = Inr q)"
| "consumer_ok loops work n (Raised e i) = (i < n \<and> (\<exists>q. loops i = Inr q \<and> work q = Inl e))"
| "consumer_ok loops work n _ = True"

definition result_ok :: "(nat \<Rightarrow> 'q res) \<Rightarrow> ('q \<Rightarrow> 'r res) \<Rightarrow> nat \<Rightarrow> 'r \<Rightarrow> bool" where
  "result_ok loops work i r \<longleftrightarrow> (\<exists>q. loops i = Inr q \<and> work q = Inr r)"

text \<open>Items stand before sentinels, and once a consumer has returned no item is left.\<close>

definition queue_ok :: "(nat \<Rightarrow> 'q res) \<Rightarrow> nat \<Rightarrow> ('q, 'r) pool \<Rightarrow> bool" where
  "queue_ok loops n s \<longleftrightarrow>
     (\<exists>its m. work_queue s = map Some its @ replicate m None \<and> (\<forall>(i, q)\<in>set its. i < n \<and> loops i = Inr q)
        \<and> (Returned \<in> set (consumers s) \<longrightarrow> its = [])
        \<and> (if sentinels_put s then running_loops s = [] \<and> m + count_list (consumers s) Returned = length (consumers s)
           else m = 0 \<and> Returned \<notin> set (consumers s)))"

definition pool_inv :: "(nat \<Rightarrow> 'q res) \<Rightarrow> ('q \<Rightarrow> 'r res) \<Rightarrow> nat \<Rightarrow> nat \<Rightarrow> ('q, 'r) pool \<Rightarrow> bool" where
  "pool_inv loops work n concurrency s \<longleftrightarrow>
     length (results s) = n \<and> length (consumers s) = concurrency \<and> distinct (running_loops s)
     \<and> set (running_loops s) \<subseteq> {..<n} \<and> (\<forall>i<n. located s i) \<and> queue_ok loops n s
     \<and> (\<forall>k\<in>set (consumers s). consumer_ok loops work n k)
     \<and> (\<forall>i<n. \<forall>r. results s ! i = Some r \<longrightarrow> result_ok loops work i r)"

lemma pool_inv_init: "pool_inv loops work n concurrency (pool_init n concurrency)"
  by (auto simp: pool_inv_def pool_init_def located_def queue_ok_def)

lemma queue_okI:
  "work_queue s = map Some its @ replicate m None \<Longrightarrow> (\<And>i q. (i, q) \<in> set its \<Longrightarrow> i < n \<and> loops i = Inr q)
   \<Longrightarrow> (Returned \<in> set (consumers s) \<Longrightarrow> its = [])
   \<Longrightarrow> (if sentinels_put s then running_loops s = [] \<and> m + count_list (consumers s) Returned = length (consumers s)
        else m = 0 \<and> Returned \<notin> set (consumers s))
   \<Longrightarrow> queue_ok loops n s"
  unfolding queue_ok_def by blast

lemma queue_okE:
  assumes "queue_ok loops n s"
  obtains its m where "work_queue s = map Some its @ replicate m None" "\<And>i q. (i, q) \<in> set its \<Longrightarrow> i < n \<and> loops i = Inr q"
    "Returned \<in> set (consumers s) \<Longrightarrow> its = []"
    "if sentinels_put s then running_loops s = [] \<and> m + count_list (consumers s) Returned = length (consumers s)
     else m = 0 \<and> Returned \<notin> set (consumers s)"
  using assms unfolding queue_ok_def by blast

text \<open>A consumer that changes between states other than returned.\<close>

lemma count_list_update:
  "c < length ks \<Longrightarrow> count_list (ks[c := k]) y + of_bool (ks ! c = y) = count_list ks y + of_bool (k = y)"
proof (induction ks arbitrary: c)
  case (Cons a ks)
  then show ?case using Cons.IH [of "c - 1"] by (cases c) auto
qed simp

lemma count_list_same:
  "c < length ks \<Longrightarrow> ks ! c \<noteq> y \<Longrightarrow> k \<noteq> y \<Longrightarrow> count_list (ks[c := k]) y = count_list ks y"
  using count_list_update [of c ks k y] by simp

lemma count_list_less: "c < length ks \<Longrightarrow> ks ! c \<noteq> y \<Longrightarrow> count_list ks y < length ks"
  by (simp add: count_list_eq_length_filter length_filter_less [of "ks ! c"])

lemma in_update_same: "c < length ks \<Longrightarrow> ks ! c \<noteq> y \<Longrightarrow> k \<noteq> y \<Longrightarrow> y \<in> set (ks[c := k]) \<longleftrightarrow> y \<in> set ks"
  by (metis (no_types) count_list_0_iff count_list_same)

lemma located_update:
  assumes "c < length (consumers s)" and "\<forall>i<n. located s i"
    and "\<And>i. i < n \<Longrightarrow> i \<in> consumer_samples (consumers s ! c) \<Longrightarrow> i \<in> consumer_samples k \<or> results s' ! i \<noteq> None"
    and "\<And>i q. i < n \<Longrightarrow> Some (i, q) \<in> set (work_queue s) \<Longrightarrow> Some (i, q) \<in> set (work_queue s') \<or> i \<in> consumer_samples k"
    and "running_loops s' = running_loops s" and "consumers s' = (consumers s)[c := k]"
    and "\<And>i. i < n \<Longrightarrow> results s ! i \<noteq> None \<Longrightarrow> results s' ! i \<noteq> None"
  shows "\<forall>i<n. located s' i"
proof (intro allI impI)
  fix i assume i: "i < n"
  have k: "k \<in> set (consumers s')" using assms(1,6) by (simp add: set_update_memI)
  have keep: "j \<in> set (consumers s')" if "j \<in> set (consumers s)" "j \<noteq> consumers s ! c" for j
    using that assms(1,6) by (metis in_set_conv_nth length_list_update nth_list_update_neq)
  show "located s' i"
    using assms(2)[rule_format, OF i] assms(3,4,7)[OF i] assms(5) k keep unfolding located_def by metis
qed

lemma waiting_queue:
  assumes "queue_ok loops n s" and "c < length (consumers s)" and "consumers s ! c = k" and "k \<noteq> Returned"
    and "k' \<noteq> Returned" and "consumers s' = (consumers s)[c := k']" and "running_loops s' = running_loops s"
    and "sentinels_put s' = sentinels_put s" and "work_queue s' = work_queue s"
  shows "queue_ok loops n s'"
proof -
  have "Returned \<in> set (consumers s') \<longleftrightarrow> Returned \<in> set (consumers s)"
    "count_list (consumers s') Returned = count_list (consumers s) Returned" "length (consumers s') = length (consumers s)"
    using assms(2-6) by (simp_all add: in_update_same count_list_same)
  then show ?thesis using assms(1,7-9) by (simp only: queue_ok_def)
qed

lemma set_consumer_simps [simp]:
  "consumers (set_consumer c k s) = (consumers s)[c := k]" "work_queue (set_consumer c k s) = work_queue s"
  "running_loops (set_consumer c k s) = running_loops s" "results (set_consumer c k s) = results s"
  "sentinels_put (set_consumer c k s) = sentinels_put s" "gathered (set_consumer c k s) = gathered s"
  by (simp_all add: set_consumer_def)

lemma pool_invD:
  assumes "pool_inv loops work n p s"
  shows "length (results s) = n" "length (consumers s) = p" "distinct (running_loops s)" "set (running_loops s) \<subseteq> {..<n}"
    "\<forall>i<n. located s i" "queue_ok loops n s" "\<forall>k\<in>set (consumers s). consumer_ok loops work n k"
    "\<forall>i<n. \<forall>r. results s ! i = Some r \<longrightarrow> result_ok loops work i r"
  using assms by (simp_all add: pool_inv_def)

lemma consumers_update_ok:
  "\<forall>k\<in>set ks. consumer_ok loops work n k \<Longrightarrow> consumer_ok loops work n k' \<Longrightarrow> \<forall>k\<in>set (ks[c := k']). consumer_ok loops work n k"
  using set_update_subset_insert [of ks c k'] by blast

lemma inv_put:
  assumes "pool_inv loops work n p s" and "i \<in> set (running_loops s)" and "loops i = Inr q"
  shows "pool_inv loops work n p (s\<lparr>running_loops := remove1 i (running_loops s), work_queue := work_queue s @ [Some (i, q)]\<rparr>)"
proof -
  let ?s = "s\<lparr>running_loops := remove1 i (running_loops s), work_queue := work_queue s @ [Some (i, q)]\<rparr>"
  have inv: "queue_ok loops n s" "i < n" "distinct (running_loops s)" using assms by (auto simp: pool_inv_def)
  from inv(1) obtain its m where its: "work_queue s = map Some its @ replicate m None"
    "\<And>i q. (i, q) \<in> set its \<Longrightarrow> i < n \<and> loops i = Inr q" "\<not> sentinels_put s" "m = 0" "Returned \<notin> set (consumers s)"
    using assms(2) by (elim queue_okE) (auto split: if_splits)
  have "queue_ok loops n ?s"
    by (rule queue_okI [where its = "its @ [(i, q)]" and m = 0]) (use its inv(2) assms(3) in auto)
  moreover have "\<forall>j<n. located ?s j"
    using assms(1) inv(3) by (auto simp: pool_inv_def located_def)
  ultimately show ?thesis
    using assms(1) set_remove1_subset [of i "running_loops s"] by (auto simp: pool_inv_def)
qed

lemma inv_sentinels:
  assumes "pool_inv loops work n p s" and "running_loops s = []" and "\<not> sentinels_put s"
  shows "pool_inv loops work n p (s\<lparr>work_queue := work_queue s @ replicate (length (consumers s)) None, sentinels_put := True\<rparr>)"
proof -
  let ?s = "s\<lparr>work_queue := work_queue s @ replicate (length (consumers s)) None, sentinels_put := True\<rparr>"
  have "queue_ok loops n s" using assms(1) by (simp add: pool_inv_def)
  then obtain its m where its: "work_queue s = map Some its @ replicate m None"
    "\<And>i q. (i, q) \<in> set its \<Longrightarrow> i < n \<and> loops i = Inr q" "m = 0" "Returned \<notin> set (consumers s)"
    using assms(3) by (elim queue_okE) auto
  have "queue_ok loops n ?s"
    by (rule queue_okI [where its = its and m = "length (consumers s)"])
      (use its assms(2) in \<open>auto simp: count_list_0_iff\<close>)
  moreover have "\<forall>j<n. located ?s j" using assms(1) by (auto simp: pool_inv_def located_def)
  ultimately show ?thesis using assms(1) by (simp add: pool_inv_def)
qed

lemma inv_take_item:
  assumes "pool_inv loops work n p s" and "c < length (consumers s)" and "consumers s ! c = Waiting"
    and "work_queue s = Some (i, q) # rest"
  shows "pool_inv loops work n p (set_consumer c (Working i q) (s\<lparr>work_queue := rest\<rparr>))"
proof -
  let ?s = "set_consumer c (Working i q) (s\<lparr>work_queue := rest\<rparr>)"
  have "queue_ok loops n s" using assms(1) by (simp add: pool_inv_def)
  then obtain its m where q: "work_queue s = map Some its @ replicate m None"
    "\<And>i q. (i, q) \<in> set its \<Longrightarrow> i < n \<and> loops i = Inr q" "Returned \<in> set (consumers s) \<Longrightarrow> its = []"
    "if sentinels_put s then running_loops s = [] \<and> m + count_list (consumers s) Returned = length (consumers s)
     else m = 0 \<and> Returned \<notin> set (consumers s)"
    by (elim queue_okE) blast
  obtain its' where its: "its = (i, q) # its'" using q(1) assms(4) by (cases its; cases m) auto
  have ret: "Returned \<notin> set (consumers s)" using q(3) its by auto
  have rest: "rest = map Some its' @ replicate m None" using q(1) assms(4) its by simp
  have item: "i < n" "loops i = Inr q" using q(2) [of i q] its by auto
  have "queue_ok loops n ?s"
  proof (rule queue_okI [where its = its' and m = m])
    show "j < n \<and> loops j = Inr r" if "(j, r) \<in> set its'" for j r using q(2) that its by auto
    show "Returned \<in> set (consumers ?s) \<Longrightarrow> its' = []"
      using ret assms(2,3) by (auto simp: set_consumer_def in_update_same)
  qed (use rest q(4) assms(2,3) in \<open>auto simp: set_consumer_def in_update_same count_list_same\<close>)
  moreover have "\<forall>j<n. located ?s j"
    by (rule located_update [OF assms(2) pool_invD(5) [OF assms(1)]]) (use assms(3,4) in auto)
  moreover have "\<forall>k\<in>set (consumers ?s). consumer_ok loops work n k"
    using consumers_update_ok [OF pool_invD(7) [OF assms(1)], of "Working i q" c] item by simp
  ultimately show ?thesis using assms(1) by (simp add: pool_inv_def)
qed

lemma inv_take_sentinel:
  assumes "pool_inv loops work n p s" and "c < length (consumers s)" and "consumers s ! c = Waiting"
    and "work_queue s = None # rest"
  shows "pool_inv loops work n p (set_consumer c Returned (s\<lparr>work_queue := rest\<rparr>))"
proof -
  let ?s = "set_consumer c Returned (s\<lparr>work_queue := rest\<rparr>)"
  have "queue_ok loops n s" using assms(1) by (simp add: pool_inv_def)
  then obtain its m where q: "work_queue s = map Some its @ replicate m None"
    "if sentinels_put s then running_loops s = [] \<and> m + count_list (consumers s) Returned = length (consumers s)
     else m = 0 \<and> Returned \<notin> set (consumers s)"
    by (elim queue_okE) blast
  obtain m' where m: "its = []" "m = Suc m'" using q(1) assms(4) by (cases its; cases m) auto
  have "queue_ok loops n ?s"
  proof (rule queue_okI [where its = "[]" and m = m'])
    show "if sentinels_put ?s then running_loops ?s = [] \<and> m' + count_list (consumers ?s) Returned = length (consumers ?s)
      else m' = 0 \<and> Returned \<notin> set (consumers ?s)"
      using q(2) m count_list_update [OF assms(2), of Returned Returned] assms(3) by (auto simp: set_consumer_def split: if_splits)
  qed (use q(1) assms(4) m in \<open>auto simp: set_consumer_def\<close>)
  moreover have "\<forall>j<n. located ?s j"
    by (rule located_update [OF assms(2) pool_invD(5) [OF assms(1)]]) (use assms(3,4) in auto)
  moreover have "\<forall>k\<in>set (consumers ?s). consumer_ok loops work n k"
    using consumers_update_ok [OF pool_invD(7) [OF assms(1)], of "Returned" c] by simp
  ultimately show ?thesis using assms(1) by (simp add: pool_inv_def)
qed

lemma inv_finish_item:
  assumes "pool_inv loops work n p s" and "c < length (consumers s)" and "consumers s ! c = Working i q" and "work q = Inr r"
  shows "pool_inv loops work n p (set_consumer c Waiting (s\<lparr>results := (results s)[i := Some r]\<rparr>))"
proof -
  let ?s = "set_consumer c Waiting (s\<lparr>results := (results s)[i := Some r]\<rparr>)"
  have "consumer_ok loops work n (consumers s ! c)" using assms(1,2) by (auto simp: pool_inv_def)
  then have item: "i < n" "loops i = Inr q" "length (results s) = n" using assms by (auto simp: pool_inv_def)
  have "queue_ok loops n ?s"
    by (rule waiting_queue [OF pool_invD(6) [OF assms(1)] assms(2,3)]) simp_all
  moreover have "\<forall>j<n. located ?s j"
    by (rule located_update [OF assms(2) pool_invD(5) [OF assms(1)]]) (use assms(3,4) item in \<open>auto simp: nth_list_update\<close>)
  moreover have "\<forall>k\<in>set (consumers ?s). consumer_ok loops work n k"
    using consumers_update_ok [OF pool_invD(7) [OF assms(1)], of "Waiting" c] by simp
  moreover have "\<forall>j<n. \<forall>r'. results ?s ! j = Some r' \<longrightarrow> result_ok loops work j r'"
    using pool_invD(8) [OF assms(1)] assms(4) item by (auto simp: nth_list_update result_ok_def)
  ultimately show ?thesis using assms(1) by (simp add: pool_inv_def)
qed

lemma inv_item_raises:
  assumes "pool_inv loops work n p s" and "c < length (consumers s)" and "consumers s ! c = Working i q" and "work q = Inl e"
  shows "pool_inv loops work n p (set_consumer c (Raised e i) s)"
proof -
  let ?s = "set_consumer c (Raised e i) s"
  have "consumer_ok loops work n (consumers s ! c)" using assms(1,2) by (auto simp: pool_inv_def)
  then have item: "i < n" "loops i = Inr q" using assms(3) by auto
  have "queue_ok loops n ?s"
    by (rule waiting_queue [OF pool_invD(6) [OF assms(1)] assms(2,3)]) simp_all
  moreover have "\<forall>j<n. located ?s j"
    by (rule located_update [OF assms(2) pool_invD(5) [OF assms(1)]]) (use assms(3,4) item in auto)
  moreover have "\<forall>k\<in>set (consumers ?s). consumer_ok loops work n k"
    using consumers_update_ok [OF pool_invD(7) [OF assms(1)], of "Raised e i" c] item assms(4) by simp
  ultimately show ?thesis using assms(1) by (simp add: pool_inv_def)
qed

lemma inv_gathered:
  assumes "pool_inv loops work n p s"
  shows "pool_inv loops work n p (s\<lparr>gathered := g\<rparr>)"
proof -
  have "queue_ok loops n (s\<lparr>gathered := g\<rparr>) = queue_ok loops n s" by (simp add: queue_ok_def)
  moreover have "located (s\<lparr>gathered := g\<rparr>) i = located s i" for i by (simp add: located_def)
  ultimately show ?thesis using assms by (simp add: pool_inv_def)
qed

lemma pool_inv_step: "pool_step loops work s s' \<Longrightarrow> pool_inv loops work n p s \<Longrightarrow> pool_inv loops work n p s'"
  by (induction rule: pool_step.induct)
    (simp_all add: inv_put inv_sentinels inv_take_item inv_take_sentinel inv_finish_item inv_item_raises inv_gathered)

lemma pool_inv_reachable: "pool_reachable loops work n p s \<Longrightarrow> pool_inv loops work n p s"
  unfolding pool_reachable_def
  by (induction rule: rtranclp_induct) (auto intro: pool_inv_init pool_inv_step)

section \<open>Outcomes\<close>

text \<open>What the gathered results are when every sample is processed in order.\<close>

definition in_order :: "(nat \<Rightarrow> 'q res) \<Rightarrow> ('q \<Rightarrow> 'r res) \<Rightarrow> nat \<Rightarrow> 'r res" where
  "in_order loops work i = rbind (loops i) work"

lemma gathered_step:
  assumes "pool_step loops work s s'" and "gathered s' = Some g" and "pool_inv loops work n p s" and "n = 0 \<or> 0 < p"
  shows "case g of Inr rs \<Rightarrow> rmap (in_order loops work) [0..<n] = Inr (map the rs) \<and> None \<notin> set rs
    | Inl e \<Rightarrow> \<exists>i<n. in_order loops work i = Inl e"
  using assms(1)
proof cases
  case (loop_raises i e)
  then have "i < n" "in_order loops work i = Inl e" "g = Inl e"
    using assms(2) pool_invD(4) [OF assms(3)] by (auto simp: in_order_def)
  then show ?thesis by auto
next
  case gather
  have inv: "queue_ok loops n s" "length (consumers s) = p" "length (results s) = n" using pool_invD [OF assms(3)] by auto
  have "located s i" if "i < n" for i using pool_invD(5) [OF assms(3)] that by blast
  moreover have "running_loops s = []" using inv(1) gather(3) by (auto elim: queue_okE)
  moreover have "Some (i, q) \<notin> set (work_queue s)" if "i < n" for i q
  proof -
    have "0 < length (consumers s)" using assms(4) that inv(2) by auto
    then have "Returned \<in> set (consumers s)" using gather(4) by (metis length_greater_0_conv list.set_intros(1) neq_Nil_conv)
    then show ?thesis using inv(1) by (auto elim!: queue_okE)
  qed
  ultimately have all: "results s ! i \<noteq> None" if "i < n" for i
    using that gather(4) unfolding located_def by (metis consumer_samples.simps(3) empty_iff empty_set)
  have "in_order loops work i = Inr (the (results s ! i))" if i: "i < n" for i
  proof -
    obtain r where "results s ! i = Some r" using all [OF i] by auto
    then show ?thesis using pool_invD(8) [OF assms(3)] i by (fastforce simp: in_order_def result_ok_def)
  qed
  then have "rmap (in_order loops work) [0..<n] = Inr (map (\<lambda>i. the (results s ! i)) [0..<n])"
    by (intro rmap_Inr) simp
  moreover have "map (\<lambda>i. the (results s ! i)) [0..<n] = map the (results s)"
    using inv(3) by (intro nth_equalityI) auto
  moreover have "None \<notin> set (results s)" using all inv(3) by (metis in_set_conv_nth)
  ultimately show ?thesis using gather assms(2) by auto
next
  case (gather_raises e i)
  then have "consumer_ok loops work n (Raised e i)" using pool_invD(7) [OF assms(3)] by blast
  then have "i < n" "in_order loops work i = Inl e" "g = Inl e" using gather_raises assms(2) by (auto simp: in_order_def)
  then show ?thesis by auto
qed (use assms(2) in auto)

lemma gathered_final: "pool_step loops work s s' \<Longrightarrow> gathered s = None"
  by (erule pool_stepE) auto

lemma gathered_reachable:
  assumes "pool_reachable loops work n p s" and "gathered s = Some g" and "n = 0 \<or> 0 < p"
  shows "case g of Inr rs \<Rightarrow> rmap (in_order loops work) [0..<n] = Inr (map the rs) \<and> None \<notin> set rs
    | Inl e \<Rightarrow> \<exists>i<n. in_order loops work i = Inl e"
  using assms(1) unfolding pool_reachable_def
proof (cases rule: rtranclp.cases)
  case rtrancl_refl
  then show ?thesis using assms(2) by (simp add: pool_init_def)
next
  case (rtrancl_into_rtrancl b)
  then show ?thesis
    using gathered_step [OF _ assms(2) pool_inv_reachable assms(3)] by (simp add: pool_reachable_def)
qed

section \<open>The stream ends\<close>

fun consumer_weight :: "'q consumer \<Rightarrow> nat" where
  "consumer_weight (Working i q) = 1"
| "consumer_weight _ = 0"

fun entry_weight :: "(nat \<times> 'q) option \<Rightarrow> nat" where
  "entry_weight None = 1"
| "entry_weight (Some _) = 2"

definition pool_measure :: "('q, 'r) pool \<Rightarrow> nat" where
  "pool_measure s = 3 * length (running_loops s) + sum_list (map entry_weight (work_queue s))
     + sum_list (map consumer_weight (consumers s)) + (if sentinels_put s then 0 else Suc (length (consumers s)))
     + (if gathered s = None then 1 else 0)"

lemma weight_update:
  "c < length ks \<Longrightarrow> sum_list (map consumer_weight (ks[c := k])) + consumer_weight (ks ! c)
    = sum_list (map consumer_weight ks) + consumer_weight k"
proof (induction ks arbitrary: c)
  case (Cons a ks)
  then show ?case using Cons.IH [of "c - 1"] by (cases c) auto
qed simp

lemma pool_step_decreases: "pool_step loops work s s' \<Longrightarrow> pool_measure s' < pool_measure s"
proof (induction rule: pool_step.induct)
  case (put s i q)
  then obtain m where "length (running_loops s) = Suc m" by (cases "running_loops s") auto
  then show ?case using put by (simp add: pool_measure_def length_remove1)
next
  case (put_sentinels s)
  then show ?case by (simp add: pool_measure_def sum_list_replicate)
next
  case (take_item s c i q rest)
  then show ?case using weight_update [of c "consumers s" "Working i q"] by (simp add: pool_measure_def)
next
  case (take_sentinel s c rest)
  then show ?case using weight_update [of c "consumers s" Returned] by (simp add: pool_measure_def)
next
  case (finish_item s c i q r)
  then show ?case using weight_update [of c "consumers s" Waiting] by (simp add: pool_measure_def)
next
  case (item_raises s c i q e)
  then show ?case using weight_update [of c "consumers s" "Raised e i"] by (simp add: pool_measure_def)
qed (simp_all add: pool_measure_def)

lemma waiting_has_entry:
  assumes "pool_inv loops work n p s" and "sentinels_put s" and "c < length (consumers s)" and "consumers s ! c \<noteq> Returned"
  shows "count_list (consumers s) Returned < length (consumers s)" and "consumers s ! c = Waiting \<Longrightarrow> work_queue s \<noteq> []"
proof -
  show less: "count_list (consumers s) Returned < length (consumers s)" by (rule count_list_less [OF assms(3,4)])
  obtain its m where "work_queue s = map Some its @ replicate m None"
    "if sentinels_put s then running_loops s = [] \<and> m + count_list (consumers s) Returned = length (consumers s)
     else m = 0 \<and> Returned \<notin> set (consumers s)"
    using pool_invD(6) [OF assms(1)] by (elim queue_okE) blast
  then have "work_queue s = map Some its @ replicate m None" "m + count_list (consumers s) Returned = length (consumers s)"
    using assms(2) by simp_all
  then show "work_queue s \<noteq> []" using less by auto
qed

lemma pool_progress:
  assumes "pool_inv loops work n p s" and "gathered s = None"
  shows "\<exists>s'. pool_step loops work s s'"
proof (cases "running_loops s")
  case (Cons i rest)
  then have "i \<in> set (running_loops s)" by simp
  then show ?thesis using assms(2) by (cases "loops i") (blast intro: pool_step.put pool_step.loop_raises)+
next
  case Nil
  show ?thesis
  proof (cases "sentinels_put s")
    case False
    then show ?thesis using assms(2) Nil by (blast intro: pool_step.put_sentinels)
  next
    case True
    show ?thesis
    proof (cases "\<forall>k\<in>set (consumers s). k = Returned")
      case True
      then show ?thesis using assms(2) \<open>sentinels_put s\<close> by (blast intro: pool_step.gather)
    next
      case False
      then obtain c where c: "c < length (consumers s)" "consumers s ! c \<noteq> Returned" by (metis in_set_conv_nth)
      show ?thesis
      proof (cases "consumers s ! c")
        case Waiting
        have "work_queue s \<noteq> []" using waiting_has_entry(2) [OF assms(1) True c Waiting] .
        then obtain x rest where q: "work_queue s = x # rest" by (cases "work_queue s") auto
        show ?thesis
        proof (cases x)
          case None
          then show ?thesis using pool_step.take_sentinel [OF assms(2) c(1) Waiting] q by blast
        next
          case (Some it)
          then show ?thesis using pool_step.take_item [OF assms(2) c(1) Waiting] q by (cases it) blast
        qed
      next
        case (Working i q)
        then show ?thesis using assms(2) c(1)
          by (cases "work q") (blast intro: pool_step.finish_item pool_step.item_raises)+
      next
        case (Raised e i)
        then have "Raised e i \<in> set (consumers s)" using c(1) by (metis nth_mem)
        then show ?thesis using assms(2) True by (blast intro: pool_step.gather_raises)
      qed (use c in simp)
    qed
  qed
qed

section \<open>The interface of a stream\<close>

text \<open>What a stream relies on is a pool with at least one consumer as soon as there is a sample.\<close>

locale stream_pool =
  fixes concurrency :: "nat \<Rightarrow> nat res"
  assumes enough: "0 < n \<Longrightarrow> concurrency n = Inr p \<Longrightarrow> 0 < p"
begin

lemma results_in_order:
  assumes "concurrency n = Inr p" and "pool_reachable loops work n p s" and "gathered s = Some (Inr rs)"
  shows "rmap (in_order loops work) [0..<n] = Inr (map the rs)" and "None \<notin> set rs"
  using gathered_reachable [OF assms(2,3)] enough [OF _ assms(1)] by auto

lemma failure_reported:
  assumes "concurrency n = Inr p" and "pool_reachable loops work n p s" and "gathered s = Some (Inl e)"
  shows "\<exists>i<n. in_order loops work i = Inl e"
  using gathered_reachable [OF assms(2,3)] enough [OF _ assms(1)] by auto

end

lemma teacher_concurrency_positive:
  "0 < n \<Longrightarrow> teacher_logprob_streaming_concurrency configured n = Inr p \<Longrightarrow> 0 < p"
  by (auto simp: teacher_logprob_streaming_concurrency_def res_simps split: option.splits)

lemma reward_concurrency_positive: "validation_reward_streaming_concurrency raw n = Inr p \<Longrightarrow> 0 < p"
  by (auto simp: validation_reward_streaming_concurrency_def res_simps split: option.splits)

interpretation teacher_stream: stream_pool "teacher_logprob_streaming_concurrency configured"
  by unfold_locales (rule teacher_concurrency_positive)

interpretation reward_stream: stream_pool "validation_reward_streaming_concurrency raw"
  by unfold_locales (rule reward_concurrency_positive)

section \<open>Streaming computes what the batch computation does\<close>

text \<open>A single output has both negative parts or none.\<close>

lemma single_negative_parts:
  "compute_teacher_logprobs_single mgr r = Inr out \<Longrightarrow> (out_neg_ids out = None) = (out_neg_logprobs out = None)"
  by (auto simp: compute_teacher_logprobs_single_def res_simps Let_def split: option.splits)

lemma teacher_work_single:
  assumes "compute_teacher_logprobs_single mgr r = Inr out"
  shows "teacher_work mgr r = pad_all_outputs (out_neg_logprobs out \<noteq> None) (r, out)"
  using single_negative_parts [OF assms] assms
  by (auto simp: teacher_work_def pad_all_outputs_def split: option.splits)

lemma pad_all_outputs_negative: "pad_all_outputs b p = Inr row \<Longrightarrow> (snd row \<noteq> None) = b"
  by (cases p) (auto simp: pad_all_outputs_def res_simps split: if_splits)

definition fails :: "'a res \<Rightarrow> bool" where
  "fails r \<longleftrightarrow> (\<exists>e. r = Inl e)"

lemma fails_iff: "fails r \<longleftrightarrow> (\<forall>x. r \<noteq> Inr x)"
  by (cases r) (auto simp: fails_def)

lemma teacher_batch_mixed:
  "r \<in> set rows \<Longrightarrow> snd r \<noteq> None \<Longrightarrow> r' \<in> set rows \<Longrightarrow> snd r' = None \<Longrightarrow> fails (teacher_batch rows)"
  by (auto simp: teacher_batch_def fails_iff res_simps)

lemma rmap_fails_iff: "fails (rmap f xs) \<longleftrightarrow> (\<exists>x\<in>set xs. fails (f x))"
proof (induction xs)
  case (Cons x xs)
  then show ?case by (cases "f x"; cases "rmap f xs") (auto simp: fails_def)
qed (simp add: fails_def)

text \<open>The batch computation in terms of the consumers' work.\<close>

lemma rmap_append: "rmap f (xs @ ys) = rbind (rmap f xs) (\<lambda>us. rbind (rmap f ys) (\<lambda>vs. Inr (us @ vs)))"
proof (induction xs)
  case Nil
  then show ?case by (cases "rmap f ys") auto
next
  case (Cons x xs)
  then show ?case by (cases "f x"; cases "rmap f xs"; cases "rmap f ys") auto
qed

lemma rmap_upt: "rmap (\<lambda>i. f (xs ! i)) [0..<length xs] = rmap f xs"
proof (induction xs rule: rev_induct)
  case (snoc x xs)
  have "rmap (\<lambda>i. f ((xs @ [x]) ! i)) [0..<length xs] = rmap (\<lambda>i. f (xs ! i)) [0..<length xs]"
    by (rule rmap_cong) (simp add: nth_append)
  then show ?case using snoc by (simp add: rmap_append)
qed simp

lemma rmap_zip_map: "rmap g (zip xs (map f xs)) = rmap (\<lambda>x. g (x, f x)) xs"
  by (induction xs) auto

lemma batch_from_work:
  fixes reqs :: "'o teacher_request list"
  assumes "reqs \<noteq> []" and "\<And>r. r \<in> set reqs \<Longrightarrow> compute_teacher_logprobs_single mgr r = Inr (out r)"
  defines "negative \<equiv> \<lambda>r. out_neg_logprobs (out r) \<noteq> None"
  shows "compute_teacher_logprobs mgr (map Some reqs)
    = (if (\<exists>r\<in>set reqs. negative r) \<and> (\<exists>r\<in>set reqs. \<not> negative r) then Inl ValueError
       else rbind (rmap (teacher_work mgr) reqs) teacher_batch :: (cell, 'a) dataproto res)"
proof -
  have outs: "rmap (compute_teacher_logprobs_single mgr) reqs = Inr (map out reqs)" using assms(2) by (rule rmap_Inr)
  have parts: "out_neg_ids (out r) = None \<longleftrightarrow> \<not> negative r" if "r \<in> set reqs" for r
    using single_negative_parts [OF assms(2) [OF that]] by (simp add: negative_def)
  have has: "(\<exists>o'\<in>set (map out reqs). out_neg_logprobs o' \<noteq> None) \<longleftrightarrow> (\<exists>r\<in>set reqs. negative r)"
    "(\<exists>o'\<in>set (map out reqs). out_neg_logprobs o' = None \<or> out_neg_ids o' = None) \<longleftrightarrow> (\<exists>r\<in>set reqs. \<not> negative r)"
    using parts by (auto simp: negative_def)
  have work: "rmap (pad_all_outputs (\<exists>r\<in>set reqs. negative r)) (zip reqs (map out reqs)) = rmap (teacher_work mgr) reqs"
    if "\<not> ((\<exists>r\<in>set reqs. negative r) \<and> (\<exists>r\<in>set reqs. \<not> negative r))"
    unfolding rmap_zip_map
  proof (rule rmap_cong)
    fix r assume r: "r \<in> set reqs"
    then have "(\<exists>r\<in>set reqs. negative r) = (out_neg_logprobs (out r) \<noteq> None)" using that by (auto simp: negative_def)
    then show "pad_all_outputs (\<exists>r\<in>set reqs. negative r) (r, out r) = teacher_work mgr r"
      using teacher_work_single [OF assms(2) [OF r]] by simp
  qed
  have none: "None \<notin> set (map Some reqs)" "map Some reqs \<noteq> []" using assms(1) by auto
  have "compute_teacher_logprobs mgr (map Some reqs)
    = (if (\<exists>r\<in>set reqs. negative r) \<and> (\<exists>r\<in>set reqs. \<not> negative r) then Inl ValueError
       else rbind (rmap (pad_all_outputs (\<exists>r\<in>set reqs. negative r)) (zip reqs (map out reqs))) teacher_batch :: (cell, 'a) dataproto res)"
    unfolding compute_teacher_logprobs_def Let_def map_map comp_def option.sel map_ident outs rbind.simps has
    using none by (simp only: rcheck_True rcheck_def rbind.simps if_True if_False not_not simp_thms split: if_split) simp
  then show ?thesis using work by (simp only: split: if_split) simp
qed

lemma batch_fails_from_work:
  assumes "reqs \<noteq> []" and "fails (rmap (teacher_work mgr) reqs)"
  shows "fails (compute_teacher_logprobs mgr (map Some reqs) :: (cell, 'a) dataproto res)"
proof (cases "\<forall>r\<in>set reqs. \<exists>out. compute_teacher_logprobs_single mgr r = Inr out")
  case True
  then obtain out where "\<And>r. r \<in> set reqs \<Longrightarrow> compute_teacher_logprobs_single mgr r = Inr (out r)" by metis
  from batch_from_work [OF assms(1) this] show ?thesis using assms(2) unfolding fails_def by (metis rbind.simps(1))
next
  case False
  then obtain r where "r \<in> set reqs" "fails (compute_teacher_logprobs_single mgr r)" unfolding fails_iff by blast
  then have "fails (rmap (compute_teacher_logprobs_single mgr) reqs)" using rmap_fails_iff by blast
  then show ?thesis using assms(1) by (auto simp: compute_teacher_logprobs_def fails_iff res_simps comp_def)
qed

lemma batch_of_rows:
  assumes "reqs \<noteq> []" and "rmap (teacher_work mgr) reqs = Inr rows"
  shows "(fails (compute_teacher_logprobs mgr (map Some reqs) :: (cell, 'a) dataproto res)
      \<and> fails (teacher_batch rows :: (cell, 'a) dataproto res))
    \<or> compute_teacher_logprobs mgr (map Some reqs) = (teacher_batch rows :: (cell, 'a) dataproto res)"
proof -
  have "\<exists>out. compute_teacher_logprobs_single mgr r = Inr out" if "r \<in> set reqs" for r
  proof -
    have "\<not> fails (teacher_work mgr r)" using assms(2) that rmap_fails_iff [of "teacher_work mgr" reqs] by (auto simp: fails_iff)
    then show ?thesis by (cases "compute_teacher_logprobs_single mgr r") (auto simp: teacher_work_def fails_def)
  qed
  then obtain out where out: "\<And>r. r \<in> set reqs \<Longrightarrow> compute_teacher_logprobs_single mgr r = Inr (out r)" by metis
  let ?neg = "\<lambda>r. out_neg_logprobs (out r) \<noteq> None"
  have row: "\<exists>row\<in>set rows. (snd row \<noteq> None) = ?neg r" if "r \<in> set reqs" for r
  proof -
    obtain i where i: "i < length reqs" "r = reqs ! i" using \<open>r \<in> set reqs\<close> by (metis in_set_conv_nth)
    have "teacher_work mgr r = Inr (rows ! i)" using rmap_nth [OF assms(2) i(1)] i(2) by simp
    then have "(snd (rows ! i) \<noteq> None) = ?neg r"
      using pad_all_outputs_negative teacher_work_single [OF out [OF that]] by metis
    moreover have "rows ! i \<in> set rows" using i(1) rmap_length [OF assms(2)] by simp
    ultimately show ?thesis by blast
  qed
  have eq: "compute_teacher_logprobs mgr (map Some reqs)
    = (if (\<exists>r\<in>set reqs. ?neg r) \<and> (\<exists>r\<in>set reqs. \<not> ?neg r) then Inl ValueError
       else rbind (rmap (teacher_work mgr) reqs) teacher_batch :: (cell, 'a) dataproto res)"
    by (rule batch_from_work [OF assms(1) out])
  show ?thesis
  proof (cases "(\<exists>r\<in>set reqs. ?neg r) \<and> (\<exists>r\<in>set reqs. \<not> ?neg r)")
    case True
    then have "fails (teacher_batch rows :: (cell, 'a) dataproto res)" using row teacher_batch_mixed by metis
    moreover have "fails (compute_teacher_logprobs mgr (map Some reqs) :: (cell, 'a) dataproto res)"
      unfolding fails_def eq if_P [OF True] by blast
    ultimately show ?thesis by blast
  next
    case False
    then have "compute_teacher_logprobs mgr (map Some reqs) = (teacher_batch rows :: (cell, 'a) dataproto res)"
      unfolding eq if_not_P [OF False] assms(2) by simp
    then show ?thesis by blast
  qed
qed

text \<open>Some run gathers: progress along the measure.\<close>

lemma gathered_exists:
  "pool_reachable loops work n p s \<Longrightarrow> \<exists>s' g. pool_reachable loops work n p s' \<and> gathered s' = Some g"
proof (induction "pool_measure s" arbitrary: s rule: less_induct)
  case less
  show ?case
  proof (cases "gathered s")
    case None
    then obtain t where t: "pool_step loops work s t" using pool_progress [OF pool_inv_reachable [OF less.prems]] by blast
    then have "pool_reachable loops work n p t" using less.prems by (simp add: pool_reachable_def)
    then show ?thesis using less.hyps [OF pool_step_decreases [OF t]] by blast
  next
    case (Some g)
    then show ?thesis using less.prems by blast
  qed
qed

lemma gathered_run: "\<exists>s g. pool_reachable loops work n p s \<and> gathered s = Some g"
  by (rule gathered_exists [of _ _ _ _ "pool_init n p"]) (simp add: pool_reachable_def)

text \<open>A teacher whose most likely token is the one it sees, and two requests for it.\<close>

definition demo_manager :: "'o teacher_manager" where
  "demo_manager = \<lparr>teacher_model_configs = [''t''],
     teacher_client = [(''t'', \<lambda>seq _ _ _ _ _. Inr (map (\<lambda>x. [x]) seq, map (\<lambda>x. [- of_int x]) seq))],
     use_topk = False, topk = 0\<rparr>"

definition demo_request :: "int list \<Rightarrow> int \<Rightarrow> nat teacher_request" where
  "demo_request seq response_length =
     \<lparr>req_sequence_ids = seq, req_prompt_width = 2, req_response_width = 2, req_prompt_length = 1,
      req_response_length = response_length, req_pad_token_id = 0, req_multi_modal_data = None, req_mm_processor_kwargs = None,
      req_routing_key = None, req_student_prompt_length = Some 1, req_student_response_length = Some response_length,
      req_teacher_prompt_length = Some 2, req_negative_sequence_ids = None, req_negative_multi_modal_data = None,
      req_negative_mm_processor_kwargs = None, req_negative_teacher_prompt_length = None\<rparr>"

lemma demo_computed:
  "compute_teacher_logprobs demo_manager (map Some [demo_request [7, 8, 9] 1, demo_request [7, 8, 5, 6] 2])
    = Inr \<lparr>batch = Some \<lparr>batch_size = 2, tensors =
        [(''teacher_ids'', [IntRows [[0], [8], [0], [0]], IntRows [[0], [8], [5], [0]]]),
         (''teacher_logprobs'', [RealRows [[0], [-8], [0], [0]], RealRows [[0], [-8], [-5], [0]]])]\<rparr>,
      non_tensor_batch = [], meta_info = []\<rparr>"
  by (simp add: compute_teacher_logprobs_def compute_teacher_logprobs_single_def score_teacher_sequence_def demo_manager_def
      demo_request_def resolve_teacher_key_def dict_get_def rectangular_def row_width_def Let_def
      align_teacher_outputs_to_student_sequence_def pyslice_def pad_all_outputs_def pad_request_outputs_def
      pad_teacher_outputs_def pad_dim_def teacher_batch_def cat_columns_def tensordict_new_def dataproto_new_def
      check_consistency_def eval_nat_numeral)

lemma stream_computes_batch:
  fixes requests :: "'o teacher_request list"
  assumes "requests \<noteq> []" and "teacher_logprob_streaming_concurrency configured (length requests) = Inr p"
    and "pool_reachable (\<lambda>i. Inr (requests ! i)) (teacher_work mgr) (length requests) p s"
    and "gathered s = Some outcome"
  defines "streamed \<equiv> finalize_teacher_logprob_stream outcome :: (cell, 'a) dataproto res"
    and "computed \<equiv> compute_teacher_logprobs mgr (map Some requests) :: (cell, 'a) dataproto res"
  shows "case computed of Inr dp \<Rightarrow> streamed = Inr dp | Inl e \<Rightarrow> (\<exists>e'. streamed = Inl e')"
proof (cases outcome)
  case (Inr rs)
  have work: "rmap (in_order (\<lambda>i. Inr (requests ! i)) (teacher_work mgr)) [0..<length requests] = rmap (teacher_work mgr) requests"
    unfolding in_order_def rbind.simps by (rule rmap_upt)
  have "rmap (teacher_work mgr) requests = Inr (map the rs)" "None \<notin> set rs"
    using teacher_stream.results_in_order [OF assms(2,3)] assms(4) Inr work by auto
  then have "streamed = teacher_batch (map the rs)"
    using Inr by (simp add: streamed_def finalize_teacher_logprob_stream_def all_results_def)
  then show ?thesis
    using batch_of_rows [OF assms(1) \<open>rmap (teacher_work mgr) requests = Inr (map the rs)\<close>, where ?'a = 'a]
    by (cases "teacher_batch (map the rs) :: (cell, 'a) dataproto res") (auto simp: computed_def fails_def)
next
  case (Inl e)
  then obtain i where "i < length requests" "teacher_work mgr (requests ! i) = Inl e"
    using teacher_stream.failure_reported [OF assms(2,3)] assms(4) by (auto simp: in_order_def)
  then have "fails (rmap (teacher_work mgr) requests)" by (metis rmap_fails_iff fails_def nth_mem)
  then have "fails computed" unfolding computed_def by (rule batch_fails_from_work [OF assms(1)])
  then show ?thesis using Inl by (auto simp: fails_def streamed_def finalize_teacher_logprob_stream_def)
qed

section \<open>Properties\<close>

text \<open>Streaming refines the batch computation. Whatever the order in which agent loops finish and
  consumers work, when the stream of a batch of requests has gathered, its batch of teacher ids and
  log-probabilities is exactly the one that the trainer computes from the same requests in order; and it
  fails exactly when that computation fails.\<close>

theorem streaming_refines_batch_computation:
  fixes requests :: "'o teacher_request list"
  assumes "requests \<noteq> []" and "teacher_logprob_streaming_concurrency configured (length requests) = Inr p"
    and "pool_reachable (\<lambda>i. Inr (requests ! i)) (teacher_work mgr) (length requests) p s"
    and "gathered s = Some outcome"
  defines "streamed \<equiv> finalize_teacher_logprob_stream outcome :: (cell, 'a) dataproto res"
    and "computed \<equiv> compute_teacher_logprobs mgr (map Some requests) :: (cell, 'a) dataproto res"
  shows "case computed of Inr dp \<Rightarrow> streamed = Inr dp | Inl e \<Rightarrow> (\<exists>e'. streamed = Inl e')"
  unfolding streamed_def computed_def by (rule stream_computes_batch [OF assms(1-4)])

theorem streaming_refines_batch_computation_witness:
  "\<exists>s outcome. pool_reachable (\<lambda>i. Inr ([demo_request [7, 8, 9] 1, demo_request [7, 8, 5, 6] 2] ! i)) (teacher_work demo_manager) 2 2 s
    \<and> gathered s = Some outcome
    \<and> finalize_teacher_logprob_stream outcome = (Inr \<lparr>batch = Some \<lparr>batch_size = 2, tensors =
        [(''teacher_ids'', [IntRows [[0], [8], [0], [0]], IntRows [[0], [8], [5], [0]]]),
         (''teacher_logprobs'', [RealRows [[0], [-8], [0], [0]], RealRows [[0], [-8], [-5], [0]]])]\<rparr>,
      non_tensor_batch = [], meta_info = []\<rparr> :: (cell, nat) dataproto res)"
proof -
  let ?reqs = "[demo_request [7, 8, 9] 1, demo_request [7, 8, 5, 6] 2]"
  obtain s outcome where run: "pool_reachable (\<lambda>i. Inr (?reqs ! i)) (teacher_work demo_manager) (length ?reqs) 2 s" "gathered s = Some outcome"
    using gathered_run by blast
  have size: "teacher_logprob_streaming_concurrency (Some 2) (length ?reqs) = Inr 2"
    by (simp add: teacher_logprob_streaming_concurrency_def)
  have "finalize_teacher_logprob_stream outcome = (Inr \<lparr>batch = Some \<lparr>batch_size = 2, tensors =
        [(''teacher_ids'', [IntRows [[0], [8], [0], [0]], IntRows [[0], [8], [5], [0]]]),
         (''teacher_logprobs'', [RealRows [[0], [-8], [0], [0]], RealRows [[0], [-8], [-5], [0]]])]\<rparr>,
      non_tensor_batch = [], meta_info = []\<rparr> :: (cell, nat) dataproto res)"
    using streaming_refines_batch_computation [OF _ size run, where ?'a = nat] by (simp add: demo_computed [simplified])
  then show ?thesis using run by (intro exI [of _ s] exI [of _ outcome]) (simp add: numeral_2_eq_2)
qed

text \<open>C34: Every stream ends. With at least one consumer, a pool that has not gathered yet can always make
  a step, in whatever state an interleaving has brought it, also when consumers or loops have failed; and
  no run has more than \<open>3 n + p + 2\<close> steps for \<open>n\<close> samples and \<open>p\<close> consumers.\<close>

theorem stream_ends:
  fixes s :: "('q, 'r) pool"
  assumes "(pool_step loops work ^^ k) (pool_init n p) s"
  shows "k \<le> 3 * n + p + 2 \<and> (gathered s = None \<longleftrightarrow> (\<exists>s'. pool_step loops work s s'))"
proof
  have "pool_measure s + k \<le> pool_measure (pool_init n p :: ('q, 'r) pool)"
    using assms
  proof (induction k arbitrary: s)
    case (Suc k)
    then obtain t where "(pool_step loops work ^^ k) (pool_init n p) t" "pool_step loops work t s" by auto
    then show ?case using Suc.IH pool_step_decreases by fastforce
  qed simp
  moreover have "pool_measure (pool_init n p :: ('q, 'r) pool) = 3 * n + p + 2"
    by (simp add: pool_measure_def pool_init_def sum_list_replicate)
  ultimately show "k \<le> 3 * n + p + 2" by simp
  have "pool_reachable loops work n p s"
    using assms by (simp add: pool_reachable_def rtranclp_power) blast
  then show "gathered s = None \<longleftrightarrow> (\<exists>s'. pool_step loops work s s')"
    using pool_progress [OF pool_inv_reachable] gathered_final by blast
qed

theorem stream_ends_witness:
  "\<exists>s. gathered s = None \<and> (\<exists>s'. pool_step (\<lambda>i. Inr i) (\<lambda>q. Inr q :: nat res) s s')"
proof -
  let ?s = "pool_init 1 1 :: (nat, nat) pool"
  have "pool_step (\<lambda>i. Inr i) (\<lambda>q. Inr q :: nat res) ?s
    (?s\<lparr>running_loops := remove1 0 (running_loops ?s), work_queue := work_queue ?s @ [Some (0, 0)]\<rparr>)"
    by (rule pool_step.put) (simp_all add: pool_init_def)
  then have "(pool_step (\<lambda>i. Inr i) (\<lambda>q. Inr q :: nat res) ^^ 1) ?s
    (?s\<lparr>running_loops := remove1 0 (running_loops ?s), work_queue := work_queue ?s @ [Some (0, 0)]\<rparr>)"
    by (simp only: relpowp_1)
  from stream_ends [OF this]
  have "gathered (?s\<lparr>running_loops := remove1 0 (running_loops ?s), work_queue := work_queue ?s @ [Some (0, 0)]\<rparr>) = None
    \<longleftrightarrow> (\<exists>s'. pool_step (\<lambda>i. Inr i) (\<lambda>q. Inr q :: nat res)
      (?s\<lparr>running_loops := remove1 0 (running_loops ?s), work_queue := work_queue ?s @ [Some (0, 0)]\<rparr>) s')" by blast
  moreover have "gathered (?s\<lparr>running_loops := remove1 0 (running_loops ?s), work_queue := work_queue ?s @ [Some (0, 0)]\<rparr>) = None"
    by (simp add: pool_init_def)
  ultimately show ?thesis by blast
qed

end
