(* ===== verification/StreamLaws.thy ===== *)
theory StreamLaws
  imports AgentManager WorkPoolLaws
begin

text \<open>
  The streams of several workers against one batch: the batch of teacher values of some requests, in any
  order and with repetitions, consists of the rows of the batch of all requests; therefore the streams that
  \<open>AgentLoopManager\<close> resolves have the values of the rows that the trainer's batch then holds.
\<close>

section \<open>Batches of teacher values row by row\<close>

definition uniform_shape :: "('x \<Rightarrow> 'a list list) \<Rightarrow> 'x list \<Rightarrow> bool" where
  "uniform_shape f rows \<longleftrightarrow> (\<exists>a b. \<forall>r\<in>set rows. length (f r) = a \<and> row_width (f r) = b)"

lemma uniform_shape_subset: "uniform_shape f rows \<Longrightarrow> set rows' \<subseteq> set rows \<Longrightarrow> uniform_shape f rows'"
  unfolding uniform_shape_def by blast

lemma cat_columns_uniform:
  "cat_columns (map f rows) = (if rows \<noteq> [] \<and> uniform_shape f rows then Inr (map f rows) else Inl RuntimeError)"
proof -
  have "(\<forall>c\<in>set (map f rows). length c = length (hd (map f rows)) \<and> row_width c = row_width (hd (map f rows))) \<longleftrightarrow> uniform_shape f rows"
    if "rows \<noteq> []"
    using that unfolding uniform_shape_def by (cases rows) auto
  then show ?thesis
    by (auto simp: cat_columns_def rcheck_def)
qed

type_synonym teacher_row = "padded_pair \<times> padded_pair option"

definition teacher_columns :: "teacher_row list \<Rightarrow> cell list pydict" where
  "teacher_columns rows =
     [(''teacher_ids'', map (IntRows \<circ> (fst \<circ> fst)) rows), (''teacher_logprobs'', map (RealRows \<circ> (snd \<circ> fst)) rows)]
     @ (if \<exists>r\<in>set rows. snd r \<noteq> None
        then [(''teacher_neg_ids'', map (IntRows \<circ> (fst \<circ> the \<circ> snd)) rows), (''teacher_neg_logprobs'', map (RealRows \<circ> (snd \<circ> the \<circ> snd)) rows)]
        else [])"

definition batchable :: "teacher_row list \<Rightarrow> bool" where
  "batchable rows \<longleftrightarrow> rows \<noteq> [] \<and> uniform_shape (fst \<circ> fst) rows \<and> uniform_shape (snd \<circ> fst) rows
     \<and> ((\<forall>r\<in>set rows. snd r = None)
        \<or> (\<forall>r\<in>set rows. snd r \<noteq> None) \<and> uniform_shape (fst \<circ> the \<circ> snd) rows \<and> uniform_shape (snd \<circ> the \<circ> snd) rows)"

definition teacher_dataproto :: "teacher_row list \<Rightarrow> (cell, 'a) dataproto" where
  "teacher_dataproto rows =
     \<lparr>batch = Some \<lparr>batch_size = length rows, tensors = teacher_columns rows\<rparr>, non_tensor_batch = [], meta_info = []\<rparr>"

lemma teacher_columns_length: "(k, v) \<in> set (teacher_columns rows) \<Longrightarrow> length v = length rows"
  by (auto simp: teacher_columns_def split: if_splits)

lemma teacher_batch_rows: "batchable rows \<Longrightarrow> teacher_batch rows = Inr (teacher_dataproto rows)"
  by (cases "\<forall>r\<in>set rows. snd r = None")
    (auto simp: teacher_batch_def batchable_def cat_columns_uniform tensordict_new_def dataproto_new_def
      check_consistency_def teacher_dataproto_def teacher_columns_def rcheck_def comp_assoc)

lemma teacher_batch_batchable: "teacher_batch rows = Inr dp \<Longrightarrow> batchable rows"
  by (auto simp: teacher_batch_def cat_columns_uniform batchable_def res_simps split: if_splits)

lemma batchable_subset:
  assumes "batchable rows" and "rows' \<noteq> []" and "set rows' \<subseteq> set rows"
  shows "batchable rows'"
proof -
  note sub = uniform_shape_subset [OF _ assms(3)]
  consider "\<forall>r\<in>set rows. snd r = None"
    | "\<forall>r\<in>set rows. snd r \<noteq> None" "uniform_shape (fst \<circ> the \<circ> snd) rows" "uniform_shape (snd \<circ> the \<circ> snd) rows"
    using assms(1) unfolding batchable_def by argo
  then have "(\<forall>r\<in>set rows'. snd r = None)
      \<or> (\<forall>r\<in>set rows'. snd r \<noteq> None) \<and> uniform_shape (fst \<circ> the \<circ> snd) rows' \<and> uniform_shape (snd \<circ> the \<circ> snd) rows'"
    by cases (meson assms(3) sub subsetD)+
  moreover have "uniform_shape (fst \<circ> fst) rows'" "uniform_shape (snd \<circ> fst) rows'"
    using assms(1) unfolding batchable_def by (meson sub)+
  ultimately show ?thesis
    using assms(2) unfolding batchable_def by simp
qed

lemma set_select: "\<forall>i\<in>set idxs. i < length rows \<Longrightarrow> set (select rows idxs) \<subseteq> set rows"
  by (auto simp: select_def)

lemma map_select: "\<forall>i\<in>set idxs. i < length rows \<Longrightarrow> map f (select rows idxs) = select (map f rows) idxs"
  by (simp add: select_def)

lemma teacher_dataproto_select:
  assumes "batchable rows" and "idxs \<noteq> []" and "\<forall>i\<in>set idxs. i < length rows"
  shows "teacher_dataproto (select rows idxs)
    = with_rows (length idxs) (\<lambda>v. select v idxs) (\<lambda>v. select v idxs) (teacher_dataproto rows)"
proof -
  have "(\<exists>r\<in>set (select rows idxs). snd r \<noteq> None) \<longleftrightarrow> (\<exists>r\<in>set rows. snd r \<noteq> None)"
  proof -
    obtain r where r: "r \<in> set (select rows idxs)"
      using assms(2) hd_in_set by (fastforce simp: select_def)
    consider "\<forall>r\<in>set rows. snd r = None" | "\<forall>r\<in>set rows. snd r \<noteq> None"
      using assms(1) by (auto simp: batchable_def)
    then show ?thesis
      using r set_select [OF assms(3)] by cases (meson subsetD)+
  qed
  then have "teacher_columns (select rows idxs) = dict_map (\<lambda>v. select v idxs) (teacher_columns rows)"
    unfolding teacher_columns_def by (simp add: map_select [OF assms(3)] dict_map_def)
  then show ?thesis
    by (simp add: teacher_dataproto_def with_rows_def dict_map_def)
qed

lemma wf_teacher_dataproto: "wf_dataproto (teacher_dataproto rows)" "dp_len (teacher_dataproto rows) = length rows"
  using teacher_columns_length [of _ _ rows]
  by (auto simp: wf_dataproto_def wf_columns_def wf_meta_def dict_wf_def teacher_dataproto_def dp_len_def)
    (auto simp: teacher_columns_def)

section \<open>Requests in any order\<close>

lemma rmap_select:
  assumes "rmap f xs = Inr ys" and "\<forall>i\<in>set idxs. i < length xs"
  shows "rmap f (select xs idxs) = Inr (select ys idxs)"
  using assms(2) rmap_nth [OF assms(1)] by (auto simp: select_def rmap_eq_Inr)

lemma computed_rows:
  assumes "reqs \<noteq> []" and "compute_teacher_logprobs mgr (map Some reqs) = (Inr full :: (cell, 'a) dataproto res)"
  obtains rows where "rmap (teacher_work mgr) reqs = Inr rows" "batchable rows" "full = teacher_dataproto rows"
proof -
  have "\<not> fails (rmap (teacher_work mgr) reqs)"
    using batch_fails_from_work [OF assms(1), of mgr, where ?'a = 'a] assms(2) by (auto simp: fails_def)
  then obtain rows where rows: "rmap (teacher_work mgr) reqs = Inr rows"
    by (auto simp: fails_iff)
  have "teacher_batch rows = (Inr full :: (cell, 'a) dataproto res)"
    using batch_of_rows [OF assms(1) rows, where ?'a = 'a] assms(2) by (auto simp: fails_def)
  then show thesis
    using that [OF rows] teacher_batch_batchable teacher_batch_rows by fastforce
qed

lemma compute_select:
  assumes "reqs \<noteq> []" and full: "compute_teacher_logprobs mgr (map Some reqs) = (Inr full :: (cell, 'a) dataproto res)"
    and "idxs \<noteq> []" and range: "\<forall>i\<in>set idxs. i < length reqs"
  shows "compute_teacher_logprobs mgr (map Some (select reqs idxs))
    = (Inr (with_rows (length idxs) (\<lambda>v. select v idxs) (\<lambda>v. select v idxs) full) :: (cell, 'a) dataproto res)"
proof -
  obtain rows where rows: "rmap (teacher_work mgr) reqs = Inr rows" "batchable rows" "full = teacher_dataproto rows"
    using computed_rows [OF assms(1) full] .
  have len: "length rows = length reqs"
    by (rule rmap_length [OF rows(1)])
  have ne: "select reqs idxs \<noteq> []" "select rows idxs \<noteq> []"
    using assms(3) by (simp_all add: select_def)
  have "batchable (select rows idxs)"
    using batchable_subset [OF rows(2) ne(2)] set_select range len by metis
  then have "teacher_batch (select rows idxs) = (Inr (teacher_dataproto (select rows idxs)) :: (cell, 'a) dataproto res)"
    by (rule teacher_batch_rows)
  moreover have "compute_teacher_logprobs mgr (map Some (select reqs idxs)) = (teacher_batch (select rows idxs) :: (cell, 'a) dataproto res)"
    using batch_of_rows [OF ne(1) rmap_select [OF rows(1) range], where ?'a = 'a] calculation by (auto simp: fails_def)
  ultimately show ?thesis
    using teacher_dataproto_select [OF rows(2) assms(3)] range len rows(3) by simp
qed


section \<open>Resolving the streams of a batch\<close>

text \<open>Handles that name different finished streams take their tasks, in whatever table they are.\<close>

definition finished :: "'t res pydict list \<Rightarrow> stream_handle \<Rightarrow> 't res \<Rightarrow> bool" where
  "finished tables h task \<longleftrightarrow> sh_worker h < length tables \<and> map_of (tables ! sh_worker h) (sh_stream_id h) = Some task"

definition handle_key :: "stream_handle \<Rightarrow> nat \<times> string" where
  "handle_key h = (sh_worker h, sh_stream_id h)"

lemma take_streams_finished:
  assumes "list_all2 (finished tables) hs tasks" and "distinct (map handle_key hs)"
  shows "take_streams tables hs = rmap (\<lambda>t. t) tasks"
  using assms
proof (induction hs arbitrary: tables tasks)
  case (Cons h hs)
  then obtain task tasks' where tasks: "tasks = task # tasks'" "finished tables h task" "list_all2 (finished tables) hs tasks'"
    by (auto simp: list_all2_Cons1)
  let ?rest = "dict_del (tables ! sh_worker h) (sh_stream_id h)"
  have "list_all2 (finished (tables[sh_worker h := ?rest])) hs tasks'"
  proof (rule list.rel_mono_strong [OF tasks(3)])
    show "finished (tables[sh_worker h := ?rest]) h' t" if "h' \<in> set hs" "finished tables h' t" for h' t
    proof -
      have "handle_key h' \<noteq> handle_key h"
        using Cons.prems(2) that(1) by (metis distinct.simps(2) image_eqI list.map(2) list.set_map)
      then show ?thesis
        using that(2) by (cases "sh_worker h' = sh_worker h") (auto simp: finished_def handle_key_def map_of_dict_del)
    qed
  qed
  then have "take_streams (tables[sh_worker h := ?rest]) hs = rmap (\<lambda>t. t) tasks'"
    using Cons by simp
  then show ?case
    using tasks(1,2) by (cases task) (auto simp: get_stream_def finished_def)
qed simp

lemma take_blocks_map: "take_blocks ns (map f xs) = map (map f) (take_blocks ns xs)"
  by (induction ns arbitrary: xs) (auto simp: take_map drop_map)

lemma take_blocks_concat: "take_blocks (map length xss) (concat xss) = xss"
  by (induction xss) auto

lemma blocks_of_concat:
  obtains blocks where "xss = map (select (concat xss)) blocks" "concat blocks = [0..<length (concat xss)]"
    "map length blocks = map length xss"
proof
  let ?blocks = "take_blocks (map length xss) [0..<length (concat xss)]"
  have "map (select (concat xss)) ?blocks = take_blocks (map length xss) (map ((!) (concat xss)) [0..<length (concat xss)])"
    by (simp add: take_blocks_map select_def [abs_def])
  then show eq: "xss = map (select (concat xss)) ?blocks"
    by (simp add: map_nth take_blocks_concat)
  show "concat ?blocks = [0..<length (concat xss)]"
    by (simp add: concat_take_blocks length_concat)
  show "map length ?blocks = map length xss"
    by (subst (2) eq) (simp add: comp_def)
qed

lemma take_rows_indices:
  "\<forall>i\<in>set idxs. i < length v \<Longrightarrow> take_rows (Indices (map int idxs)) v = Inr (select v idxs)"
  by (simp add: py_index_def select_def rmap_eq_Inr)

lemma reorder_rows:
  assumes "wf_dataproto dp" and "batch dp \<noteq> None" and "\<forall>i\<in>set idxs. i < dp_len dp"
  shows "reorder idxs dp = Inr (with_rows (length idxs) (\<lambda>v. select v idxs) (\<lambda>v. select v idxs) dp)"
proof -
  obtain td where td: "batch dp = Some td"
    using assms(2) by blast
  have "dict_rmap (take_rows (Indices (map int idxs))) (tensors td) = Inr (dict_map (\<lambda>v. select v idxs) (tensors td))"
    "dict_rmap (take_rows (Indices (map int idxs))) (non_tensor_batch dp) = Inr (dict_map (\<lambda>v. select v idxs) (non_tensor_batch dp))"
    using assms(1,3) td by (auto simp: wf_dataproto_def wf_columns_def dp_len_Some simp del: take_rows.simps intro!: dict_rmap_Inr take_rows_indices)
  then show ?thesis
    by (simp add: reorder_def td with_rows_def)
qed


lemma rmap_id: "rmap (\<lambda>t. t) (map Inr xs) = Inr xs"
  by (simp add: rmap_eq_Inr)

lemma concat_map_select: "concat (map (select v) blocks) = select v (concat blocks)"
  by (simp add: select_def [abs_def] map_concat)

text \<open>The workers' streams together have all the rows.\<close>

lemma workers_streams:
  assumes "reqss \<noteq> []" and "[] \<notin> set reqss"
    and full: "compute_teacher_logprobs mgr (map Some (concat reqss)) = (Inr full :: (cell, 'a) dataproto res)"
  shows "\<exists>dps. map (\<lambda>reqs. compute_teacher_logprobs mgr (map Some reqs)) reqss = map Inr dps \<and> concat_dataproto dps = Inr full"
proof -
  let ?all = "concat reqss"
  have "?all \<noteq> []"
    using assms(1,2) by (cases reqss) auto
  then obtain rows where rows: "rmap (teacher_work mgr) ?all = Inr rows" "full = teacher_dataproto rows"
    using computed_rows full by metis
  have wf: "wf_dataproto full" "dp_len full = length ?all" "meta_info full = []"
    using rmap_length [OF rows(1)] by (simp_all add: rows(2) wf_teacher_dataproto) (simp add: teacher_dataproto_def)
  obtain blocks where blocks: "reqss = map (select ?all) blocks" "concat blocks = [0..<length ?all]" "map length blocks = map length reqss"
    using blocks_of_concat .
  let ?dp = "\<lambda>b. with_rows (length b) (\<lambda>v. select v b) (\<lambda>v. select v b) full"
  have "compute_teacher_logprobs mgr (map Some (select ?all b)) = Inr (?dp b)" if "b \<in> set blocks" for b
  proof (rule compute_select [OF \<open>?all \<noteq> []\<close> full])
    show "b \<noteq> []"
      using assms(2) that by (subst (asm) blocks(1)) (auto simp: select_def)
    show "\<forall>i\<in>set b. i < length ?all"
      using that blocks(2) by (metis UN_I atLeastLessThan_iff set_concat set_upt)
  qed
  then have "map (\<lambda>reqs. compute_teacher_logprobs mgr (map Some reqs)) reqss = map Inr (map ?dp blocks)"
    by (subst blocks(1)) simp
  moreover have "concat_dataproto (map ?dp blocks) = Inr full"
  proof -
    have "blocks \<noteq> []" using assms(1) blocks(1) by auto
    moreover have "\<not> has_key (meta_info full) ''metrics''"
      by (simp add: wf(3) has_key_def)
    ultimately have "concat_dataproto (map ?dp blocks) = Inr (with_rows (sum_list (map length blocks))
        (\<lambda>v. concat (map (select v) blocks)) (\<lambda>v. concat (map (select v) blocks)) full)"
      using concat_with_rows [OF wf(1), of blocks "\<lambda>b v. select v b" length "\<lambda>b v. select v b"] by simp
    also have "with_rows (sum_list (map length blocks)) (\<lambda>v. concat (map (select v) blocks)) (\<lambda>v. concat (map (select v) blocks)) full
        = with_rows (dp_len full) (\<lambda>v. v) (\<lambda>v. v) full"
    proof -
      have "sum_list (map length blocks) = dp_len full"
        using blocks(3) by (simp add: wf(2) length_concat)
      then show ?thesis
        by (auto intro!: with_rows_cong [OF wf(1)] simp: concat_map_select blocks(2) simp flip: wf(2)) (metis select_upt)+
    qed
    also have "\<dots> = full"
      by (rule with_rows_id [OF wf(1)])
    finally show ?thesis .
  qed
  ultimately show ?thesis by blast
qed


section \<open>Property\<close>

text \<open>Resolving the streams of a batch follows the batch. Every worker has streamed the teacher requests of
  its chunk; the trainer has balanced and regrouped the batch since, so that its row \<open>j\<close> is the row \<open>idxs ! j\<close>
  that was generated. If the teacher can score the requests as a batch, then the batch that the manager
  resolves from the workers' streams and these indices is exactly what the teacher computes from the
  requests in the order that the batch now has.\<close>

theorem streams_follow_batch:
  fixes reqss :: "'o teacher_request list list"
  assumes "hs \<noteq> []" and "distinct (map handle_key hs)" and "[] \<notin> set reqss" and "map sh_length hs = map length reqss"
    and "list_all2 (finished tables) hs (map (\<lambda>reqs. compute_teacher_logprobs mgr (map Some reqs)) reqss)"
    and "compute_teacher_logprobs mgr (map Some (concat reqss)) = (Inr full :: (cell, 'a) dataproto res)"
    and "idxs \<noteq> []" and "\<forall>i\<in>set idxs. i < length (concat reqss)"
  shows "resolve_teacher_logprob_streams tables hs (Some idxs)
    = (compute_teacher_logprobs mgr (map Some (select (concat reqss) idxs)) :: (cell, 'a) dataproto res)"
proof -
  have "reqss \<noteq> []"
    using assms(1,4) by auto
  then have ne: "concat reqss \<noteq> []"
    using assms(3) by (cases reqss) auto
  obtain dps where dps: "map (\<lambda>reqs. compute_teacher_logprobs mgr (map Some reqs)) reqss = map Inr dps"
    "concat_dataproto dps = Inr full"
    using workers_streams [OF \<open>reqss \<noteq> []\<close> assms(3,6)] by blast
  obtain rows where rows: "rmap (teacher_work mgr) (concat reqss) = Inr rows" "full = teacher_dataproto rows"
    using computed_rows [OF ne assms(6)] .
  have len: "dp_len full = length (concat reqss)"
    using rmap_length [OF rows(1)] by (simp add: rows(2) wf_teacher_dataproto)
  have "take_streams tables hs = Inr dps"
    using take_streams_finished [OF assms(5,2)] by (simp add: dps(1) rmap_eq_Inr)
  moreover have "dp_len full = sum_list (map sh_length hs)"
    by (simp add: len length_concat assms(4))
  moreover have "reorder idxs full = Inr (with_rows (length idxs) (\<lambda>v. select v idxs) (\<lambda>v. select v idxs) full)"
  proof (rule reorder_rows)
    show "wf_dataproto full"
      by (simp add: rows(2) wf_teacher_dataproto)
    show "batch full \<noteq> None"
      by (simp add: rows(2) teacher_dataproto_def)
    show "\<forall>i\<in>set idxs. i < dp_len full"
      using assms(8) by (simp add: len)
  qed
  ultimately show ?thesis
    using assms(1) dps(2) compute_select [OF ne assms(6-8)]
    by (simp add: resolve_teacher_logprob_streams_def)
qed

theorem streams_follow_batch_witness:
  "\<exists>dp :: (cell, nat) dataproto.
     resolve_teacher_logprob_streams
       [[(''a'', compute_teacher_logprobs demo_manager [Some (demo_request [7, 8, 9] 1)])],
        [(''b'', compute_teacher_logprobs demo_manager [Some (demo_request [7, 8, 5, 6] 2)])]]
       [\<lparr>sh_worker = 0, sh_stream_id = ''a'', sh_length = 1\<rparr>, \<lparr>sh_worker = 1, sh_stream_id = ''b'', sh_length = 1\<rparr>] (Some [1, 0]) = Inr dp
     \<and> map_option (\<lambda>td. map_of (tensors td) ''teacher_ids'') (batch dp)
        = Some (Some [IntRows [[0], [8], [5], [0]], IntRows [[0], [8], [0], [0]]])"
proof -
  let ?r1 = "demo_request [7, 8, 9] 1" and ?r2 = "demo_request [7, 8, 5, 6] 2"
  let ?c = "\<lambda>rs. compute_teacher_logprobs demo_manager rs :: (cell, nat) dataproto res"
  let ?tables = "[[(''a'', ?c [Some ?r1])], [(''b'', ?c [Some ?r2])]]"
  let ?hs = "[\<lparr>sh_worker = 0, sh_stream_id = ''a'', sh_length = 1\<rparr>, \<lparr>sh_worker = 1, sh_stream_id = ''b'', sh_length = 1\<rparr>]"
  obtain full :: "(cell, nat) dataproto" where full: "?c (map Some (concat [[?r1], [?r2]])) = Inr full"
    using demo_computed by simp
  have "resolve_teacher_logprob_streams ?tables ?hs (Some [1, 0]) = ?c (map Some (select (concat [[?r1], [?r2]]) [1, 0]))"
    by (rule streams_follow_batch [OF _ _ _ _ _ full]) (simp_all add: handle_key_def finished_def)
  also have "map Some (select (concat [[?r1], [?r2]]) [1, 0]) = map Some [?r2, ?r1]"
    by (simp add: select_def)
  finally have resolved: "resolve_teacher_logprob_streams ?tables ?hs (Some [1, 0]) = ?c (map Some [?r2, ?r1])" .
  show ?thesis
    unfolding resolved
    by (simp add: compute_teacher_logprobs_def compute_teacher_logprobs_single_def score_teacher_sequence_def demo_manager_def
      demo_request_def resolve_teacher_key_def dict_get_def rectangular_def row_width_def Let_def
      align_teacher_outputs_to_student_sequence_def pyslice_def pad_all_outputs_def pad_request_outputs_def
      pad_teacher_outputs_def pad_dim_def teacher_batch_def cat_columns_def tensordict_new_def dataproto_new_def
      check_consistency_def eval_nat_numeral)
qed

end
