(* ===== verification/AgentLaws.thy ===== *)
theory AgentLaws
  imports AgentManager WorkPoolLaws
begin

text \<open>
  What holds of a worker's batch: both ways of padding give the same batch, the padding can be undone with
  the attention mask, the rewards stand where they are expected; and the streams that the manager resolves
  have the rows of the batch's own requests, in the order of the batch.
\<close>

section \<open>Masks\<close>

lemma filter_zeros: "length xs = n \<Longrightarrow> map snd (filter (\<lambda>p. fst p \<noteq> (0 :: int)) (zip (replicate n 0) xs)) = []"
  by (auto simp: filter_empty_conv dest: set_zip_leftD)

lemma filter_ones: "length xs = n \<Longrightarrow> map snd (filter (\<lambda>p. fst p \<noteq> (0 :: int)) (zip (replicate n 1) xs)) = xs"
  by (induction n arbitrary: xs) (auto simp: length_Suc_conv)

lemma filter_window:
  assumes "length us = a" and "length vs = b" and "length ws = c"
  shows "map snd (filter (\<lambda>p. fst p \<noteq> (0 :: int)) (zip (replicate a 0 @ replicate b 1 @ replicate c 0) (us @ vs @ ws))) = vs"
  using assms by (simp add: zip_append filter_zeros filter_ones)

lemma sum_list_ones: "sum_list (replicate n (1 :: int)) = int n"
  by (induction n) auto

lemma sum_list_zeros: "sum_list (replicate n (0 :: int)) = 0"
  by (induction n) auto

section \<open>Padding\<close>

text \<open>What a tokenizer documents of \<open>pad\<close>: up to the length, padding tokens on the chosen side and a mask
  of the tokens that were there. This is assumed for the empty list as well, which is what the documentation says;
  a tokenizer that returns an empty list as it is falls outside.\<close>

definition tokenizer_pads :: "'img pad_config \<Rightarrow> bool" where
  "tokenizer_pads cfg \<longleftrightarrow>
     (\<forall>left w xs. length xs \<le> w \<longrightarrow>
        pc_pad cfg left w xs =
          (let fill = replicate (w - length xs) (pad_token_or_zero cfg); gap = replicate (w - length xs) 0; ones = replicate (length xs) 1 in
           if left then (fill @ xs, gap @ ones) else (xs @ fill, ones @ gap)))"

definition fits :: "'img pad_config \<Rightarrow> 'img agent_output \<Rightarrow> bool" where
  "fits cfg out \<longleftrightarrow> length (ao_prompt_ids out) \<le> pc_prompt_length cfg \<and> length (ao_response_ids out) \<le> pc_response_length cfg
     \<and> length (ao_response_mask out) = length (ao_response_ids out)
     \<and> (case ao_response_logprobs out of None \<Rightarrow> True | Some v \<Rightarrow> length v \<le> pc_response_length cfg)"

definition plain_row :: "'img pad_config \<Rightarrow> 'img agent_output \<Rightarrow> raw_row" where
  "plain_row cfg out =
     (let pw = pc_prompt_length cfg; rw = pc_response_length cfg; pad = pad_token_or_zero cfg;
          prompt = ao_prompt_ids out; response = ao_response_ids out; msk = take rw (ao_response_mask out);
          response_attention = replicate (length response) 1 @ replicate (rw - length response) 0 in
      \<lparr>rr_prompt_ids = replicate (pw - length prompt) pad @ prompt,
       rr_prompt_attention = replicate (pw - length prompt) 0 @ replicate (length prompt) 1,
       rr_response_ids = response @ replicate (rw - length response) pad,
       rr_response_attention = response_attention,
       rr_response_mask = map2 (*) (msk @ replicate (rw - length msk) 0) response_attention\<rparr>)"

lemma raw_row_of_fits: "fits cfg out \<Longrightarrow> raw_row_of cfg out = Inr (plain_row cfg out)"
  by (simp add: raw_row_of_def plain_row_def fits_def Let_def)

lemma plain_row_lengths:
  assumes "fits cfg out"
  shows "length (rr_prompt_ids (plain_row cfg out)) = pc_prompt_length cfg"
    "length (rr_response_ids (plain_row cfg out)) = pc_response_length cfg"
    "length (rr_response_mask (plain_row cfg out)) = pc_response_length cfg"
    "length (raw_attention (plain_row cfg out)) = pc_prompt_length cfg + pc_response_length cfg"
    "length (raw_input_ids (plain_row cfg out)) = pc_prompt_length cfg + pc_response_length cfg"
  using assms by (auto simp: plain_row_def fits_def Let_def raw_attention_def raw_input_ids_def min_def)

text \<open>The padded output of a sample, given its multi-modal inputs and positions.\<close>

definition plain_output :: "'img pad_config \<Rightarrow> 'img agent_output \<Rightarrow> 'img mobj pydict \<times> cell \<Rightarrow> 'img padded_output" where
  "plain_output cfg out p =
     (let r = plain_row cfg out in
      \<lparr>po_prompt_ids = rr_prompt_ids r, po_response_ids = rr_response_ids r, po_input_ids = raw_input_ids r,
       po_position_ids = snd p, po_response_mask = rr_response_mask r, po_attention_mask = raw_attention r,
       po_response_logprobs = map_option (pad_logprobs (pc_response_length cfg)) (ao_response_logprobs out),
       po_routed_experts = None, po_multi_modal_inputs = fst p, po_teacher_ids = None, po_teacher_logprobs = None,
       po_teacher_neg_ids = None, po_teacher_neg_logprobs = None,
       po_reward_score = ao_reward_score out, po_num_turns = ao_num_turns out,
       po_metrics = ao_metrics out, po_extra_fields = ao_extra_fields out, po_teacher_request = ao_teacher_request out\<rparr>)"

definition plain :: "'img agent_output \<Rightarrow> bool" where
  "plain out \<longleftrightarrow> ao_routed_experts out = None \<and> ao_teacher_ids out = None \<and> ao_teacher_logprobs out = None
     \<and> ao_teacher_neg_ids out = None \<and> ao_teacher_neg_logprobs out = None"


text \<open>What the tokenizer pads the response mask with is wiped out by the attention mask.\<close>

lemma map2_times_zeros: "length us = n \<Longrightarrow> map2 (*) us (replicate n (0 :: int)) = replicate n 0"
  by (induction n arbitrary: us) (auto simp: length_Suc_conv)

lemma wiped_padding:
  assumes "length msk = n" and "length us = d" and "length vs = d"
  shows "map2 (*) (msk @ us) (replicate n (1 :: int) @ replicate d 0) = map2 (*) (msk @ vs) (replicate n 1 @ replicate d 0)"
  using assms by (simp add: zip_append map2_times_zeros)

lemma postprocess_one:
  assumes "tokenizer_pads cfg" and "fits cfg out" and "plain out"
  shows "pad_output cfg out
    = rbind (raw_positions cfg (out, plain_row cfg out)) (\<lambda>p. Inr (plain_output cfg out p))"
proof -
  let ?rw = "pc_response_length cfg" and ?r = "plain_row cfg out"
  let ?d = "?rw - length (ao_response_ids out)"
  have pads: "pc_pad cfg True (pc_prompt_length cfg) (ao_prompt_ids out) = (rr_prompt_ids ?r, rr_prompt_attention ?r)"
    "pc_pad cfg False ?rw (ao_response_ids out) = (rr_response_ids ?r, rr_response_attention ?r)"
    "pc_pad cfg False ?rw (ao_response_mask out) = (ao_response_mask out @ replicate ?d (pad_token_or_zero cfg),
       replicate (length (ao_response_mask out)) 1 @ replicate ?d 0)"
    using assms(1,2) by (simp_all add: tokenizer_pads_def fits_def plain_row_def Let_def)
  have att: "rr_response_attention ?r = replicate (length (ao_response_ids out)) 1 @ replicate ?d 0"
    by (simp add: plain_row_def Let_def)
  have msk: "map2 (*) (ao_response_mask out @ replicate ?d (pad_token_or_zero cfg)) (rr_response_attention ?r) = rr_response_mask ?r"
    unfolding att using assms(2) wiped_padding [of "ao_response_mask out" "length (ao_response_ids out)"
        "replicate ?d (pad_token_or_zero cfg)" ?d "replicate ?d 0"]
    by (simp add: plain_row_def Let_def fits_def)
  have len: "length (ao_response_mask out @ replicate ?d (pad_token_or_zero cfg)) = length (rr_response_attention ?r)"
    using assms(2) by (simp add: att fits_def)
  have raw: "rr_prompt_ids ?r @ rr_response_ids ?r = raw_input_ids ?r"
    "rr_prompt_attention ?r @ rr_response_attention ?r = raw_attention ?r"
    by (simp_all add: raw_input_ids_def raw_attention_def)
  show ?thesis
    using assms(3)
    by (cases "compute_multi_modal_inputs cfg out (raw_input_ids ?r)")
      (auto simp: pad_output_def pad_sequences_def finish_padding_def pad_teacher_values_def pads msk len [simplified] raw plain_def
        Let_def raw_positions_def rbind_assoc plain_output_def split_beta intro!: rbind_cong)
qed

text \<open>A pass that computes a value per element and then wraps it.\<close>

lemma rmap_wrap: "rmap (\<lambda>x. rbind (f x) (\<lambda>y. Inr (g x y))) xs = rbind (rmap f xs) (\<lambda>ys. Inr (map2 g xs ys))"
proof (induction xs)
  case (Cons x xs)
  then show ?case by (cases "f x"; cases "rmap f xs") auto
qed simp

lemma cat_rows_uniform:
  assumes "\<And>x. x \<in> set xs \<Longrightarrow> shape (f x) = k"
  shows "cat_rows shape (map (\<lambda>x. Some (f x)) xs) = Inr (map f xs)"
proof -
  have "\<forall>c\<in>set (map f xs). shape c = shape (hd (map f xs))"
    using assms by (cases xs) auto
  moreover have "None \<notin> set (map (\<lambda>x. Some (f x)) xs)"
    by auto
  ultimately show ?thesis
    by (simp add: cat_rows_def Let_def o_def)
qed


lemma zip_map_self: "zip xs (map g xs) = map (\<lambda>x. (x, g x)) xs"
  by (induction xs) auto

text \<open>A batch whose outputs all fit has its columns in the same way on both paths.\<close>

definition same_logprobs :: "'img agent_output list \<Rightarrow> bool" where
  "same_logprobs inputs \<longleftrightarrow> (\<forall>out\<in>set inputs. (ao_response_logprobs out = None) = (ao_response_logprobs (hd inputs) = None))"

definition logprob_columns :: "'img pad_config \<Rightarrow> 'img agent_output list \<Rightarrow> cell list pydict" where
  "logprob_columns cfg inputs =
     (if ao_response_logprobs (hd inputs) = None then []
      else [(''rollout_log_probs'', map (\<lambda>out. RealRow (pad_logprobs (pc_response_length cfg) (the (ao_response_logprobs out)))) inputs)])"

definition assemble_rows ::
    "'img pad_config \<Rightarrow> (string list \<Rightarrow> string list) \<Rightarrow> 'img agent_output list \<Rightarrow> ('img mobj pydict \<times> cell) list \<Rightarrow> 'img mobj list pydict option
     \<Rightarrow> (cell, 'img mobj) dataproto res" where
  "assemble_rows cfg iter_set inputs positions nt =
     (let rows = map (plain_row cfg) inputs in
      rbind (cat_rows cell_shape (map (Some \<circ> snd) positions)) (\<lambda>position_ids.
      assemble cfg iter_set
        ([(''prompts'', map (IntRow \<circ> rr_prompt_ids) rows), (''responses'', map (IntRow \<circ> rr_response_ids) rows),
          (''response_mask'', map (IntRow \<circ> rr_response_mask) rows), (''input_ids'', map (IntRow \<circ> raw_input_ids) rows),
          (''attention_mask'', map (IntRow \<circ> raw_attention) rows), (''position_ids'', position_ids)] @ logprob_columns cfg inputs)
        (map raw_attention rows) (map rr_response_mask rows) (map ao_reward_score inputs) (map ao_num_turns inputs)
        (map fst positions) (map ao_metrics inputs) (map ao_extra_fields inputs) nt))"

lemma raw_batch:
  assumes "inputs \<noteq> []" and fits: "\<forall>out\<in>set inputs. fits cfg out" and plain: "\<forall>out\<in>set inputs. plain out" and "same_logprobs inputs"
  shows "postprocess_raw cfg iter_set inputs nt
    = rbind (rmap (\<lambda>out. raw_positions cfg (out, plain_row cfg out)) inputs) (\<lambda>ps. assemble_rows cfg iter_set inputs ps nt)"
proof -
  have rows: "rmap (raw_row_of cfg) inputs = Inr (map (plain_row cfg) inputs)"
    using fits by (intro rmap_Inr) (simp add: raw_row_of_fits)
  have lps: "(if ao_response_logprobs (hd inputs) = None then Inr []
        else rbind (rmap (raw_logprobs (pc_response_length cfg)) (map ao_response_logprobs inputs)) (\<lambda>v.
             Inr [(''rollout_log_probs'', map RealRow v)])) = Inr (logprob_columns cfg inputs)"
  proof (cases "ao_response_logprobs (hd inputs) = None")
    case False
    have "rmap (\<lambda>out. raw_logprobs (pc_response_length cfg) (ao_response_logprobs out)) inputs
        = Inr (map (\<lambda>out. pad_logprobs (pc_response_length cfg) (the (ao_response_logprobs out))) inputs)"
    proof (rule rmap_Inr)
      fix out assume "out \<in> set inputs"
      then obtain v where "ao_response_logprobs out = Some v" "length v \<le> pc_response_length cfg"
        using False fits \<open>same_logprobs inputs\<close> by (fastforce simp: same_logprobs_def fits_def)
      then show "raw_logprobs (pc_response_length cfg) (ao_response_logprobs out)
          = Inr (pad_logprobs (pc_response_length cfg) (the (ao_response_logprobs out)))"
        by (simp add: raw_logprobs_def pad_logprobs_def)
    qed
    then show ?thesis
      using False by (simp add: logprob_columns_def rmap_map o_def)
  qed (simp add: logprob_columns_def)
  have none: "\<forall>out\<in>set inputs. ao_routed_experts out = None"
    "\<forall>out\<in>set inputs. ao_teacher_ids out = None \<and> ao_teacher_logprobs out = None"
    "\<forall>out\<in>set inputs. ao_teacher_neg_ids out = None \<and> ao_teacher_neg_logprobs out = None"
    using plain by (simp_all add: plain_def)
  have teacher: "raw_teacher cfg ao_teacher_ids ao_teacher_logprobs k l inputs = Inr []"
    "raw_teacher cfg ao_teacher_neg_ids ao_teacher_neg_logprobs k l inputs = Inr []" for k l
    unfolding raw_teacher_def by (rule if_P [OF none(2)], rule if_P [OF none(3)])
  show ?thesis
    unfolding postprocess_raw_def lps rows teacher if_P [OF none(1)]
    using assms(1) by (simp add: zip_map_self rmap_map assemble_rows_def Let_def o_def)
qed

lemma map_plain_output:
  assumes "length ps = length inputs" and "\<And>out p. h (plain_output cfg out p) = f out"
  shows "map h (map2 (plain_output cfg) inputs ps) = map f inputs"
  using assms(1) by (induction inputs ps rule: list_induct2') (auto simp: assms(2))

lemma map_plain_positions:
  assumes "length ps = length inputs" and "\<And>out p. h (plain_output cfg out p) = f p"
  shows "map h (map2 (plain_output cfg) inputs ps) = map f ps"
  using assms(1) by (induction inputs ps rule: list_induct2') (auto simp: assms(2))

lemma padded_batch:
  assumes "inputs \<noteq> []" and fits: "\<forall>out\<in>set inputs. fits cfg out" and "same_logprobs inputs" and len: "length ps = length inputs"
  shows "postprocess_padded cfg iter_set (map2 (plain_output cfg) inputs ps) nt = assemble_rows cfg iter_set inputs ps nt"
proof -
  let ?out = "map2 (plain_output cfg) inputs ps" and ?rw = "pc_response_length cfg" and ?row = "plain_row cfg"
  have ne: "?out \<noteq> []"
    using assms(1) len by (cases inputs; cases ps) auto
  have hd: "hd ?out = plain_output cfg (hd inputs) (hd ps)"
    using assms(1) len by (cases inputs; cases ps) auto
  have cols: "map (Some \<circ> po_prompt_ids) ?out = map (\<lambda>out. Some (rr_prompt_ids (?row out))) inputs"
    "map (Some \<circ> po_response_ids) ?out = map (\<lambda>out. Some (rr_response_ids (?row out))) inputs"
    "map (Some \<circ> po_response_mask) ?out = map (\<lambda>out. Some (rr_response_mask (?row out))) inputs"
    "map (Some \<circ> po_attention_mask) ?out = map (\<lambda>out. Some (raw_attention (?row out))) inputs"
    "map (Some \<circ> po_input_ids) ?out = map (\<lambda>out. Some (raw_input_ids (?row out))) inputs"
    "map po_response_logprobs ?out = map (\<lambda>out. map_option (pad_logprobs ?rw) (ao_response_logprobs out)) inputs"
    "map po_reward_score ?out = map ao_reward_score inputs" "map po_num_turns ?out = map ao_num_turns inputs"
    "map po_metrics ?out = map ao_metrics inputs" "map po_extra_fields ?out = map ao_extra_fields inputs"
    by (rule map_plain_output [OF len], simp add: plain_output_def Let_def)+
  have pos: "map (Some \<circ> po_position_ids) ?out = map (Some \<circ> snd) ps" "map po_multi_modal_inputs ?out = map fst ps"
    by (rule map_plain_positions [OF len], simp add: plain_output_def Let_def)+
  have cat: "cat_rows row_shape (map (\<lambda>out. Some (f (?row out))) inputs) = Inr (map (\<lambda>out. f (?row out)) inputs)"
    if "\<And>out. fits cfg out \<Longrightarrow> length (f (?row out)) = k" for f :: "raw_row \<Rightarrow> int list" and k
    using fits that by (intro cat_rows_uniform [where k = "[k]"]) (simp add: row_shape_def)
  have cats: "cat_rows row_shape (map (\<lambda>out. Some (rr_prompt_ids (?row out))) inputs) = Inr (map (\<lambda>out. rr_prompt_ids (?row out)) inputs)"
    "cat_rows row_shape (map (\<lambda>out. Some (rr_response_ids (?row out))) inputs) = Inr (map (\<lambda>out. rr_response_ids (?row out)) inputs)"
    "cat_rows row_shape (map (\<lambda>out. Some (rr_response_mask (?row out))) inputs) = Inr (map (\<lambda>out. rr_response_mask (?row out)) inputs)"
    "cat_rows row_shape (map (\<lambda>out. Some (raw_attention (?row out))) inputs) = Inr (map (\<lambda>out. raw_attention (?row out)) inputs)"
    "cat_rows row_shape (map (\<lambda>out. Some (raw_input_ids (?row out))) inputs) = Inr (map (\<lambda>out. raw_input_ids (?row out)) inputs)"
    by (rule cat, erule plain_row_lengths)+
  have lps: "(if po_response_logprobs (hd ?out) = None then Inr []
      else rbind (cat_rows row_shape (map po_response_logprobs ?out)) (\<lambda>v. Inr [(''rollout_log_probs'', map RealRow v)]))
    = Inr (logprob_columns cfg inputs)"
  proof (cases "ao_response_logprobs (hd inputs) = None")
    case False
    have some: "\<exists>v. ao_response_logprobs out = Some v \<and> length v \<le> ?rw" if "out \<in> set inputs" for out
      using False fits assms(3) that by (fastforce simp: same_logprobs_def fits_def)
    have "map po_response_logprobs ?out = map (\<lambda>out. Some (pad_logprobs ?rw (the (ao_response_logprobs out)))) inputs"
      unfolding cols(6) using some by force
    moreover have "cat_rows row_shape \<dots> = Inr (map (\<lambda>out. pad_logprobs ?rw (the (ao_response_logprobs out))) inputs)"
      using some by (intro cat_rows_uniform [where k = "[?rw]"]) (force simp: row_shape_def pad_logprobs_def)
    ultimately show ?thesis
      using False unfolding hd by (simp add: logprob_columns_def plain_output_def Let_def o_def)
  next
    case True
    then show ?thesis
      unfolding hd by (simp add: plain_output_def Let_def logprob_columns_def)
  qed
  have rest: "po_routed_experts (hd ?out) = None" "po_teacher_logprobs (hd ?out) = None \<or> po_teacher_ids (hd ?out) = None"
    "po_teacher_neg_logprobs (hd ?out) = None \<or> po_teacher_neg_ids (hd ?out) = None"
    unfolding hd by (simp_all add: plain_output_def Let_def)
  show ?thesis
    unfolding postprocess_padded_def lps if_P [OF rest(1)] if_P [OF rest(2)] if_P [OF rest(3)]
    unfolding cols pos cats
    using ne by (simp add: assemble_rows_def Let_def o_def)
qed


text \<open>C14: Outputs may be padded one by one as their loops finish and then concatenated, or the whole batch may be
  padded at once by the worker. Both ways give the same batch, or raise the same exception, when every output
  fits the widths, has a mask entry per response token, carries no routed experts or teacher values, and the
  outputs agree in whether they have log-probabilities: the columns, the rewards, the arrays and the metadata
  are equal, whatever the processor computes.\<close>

theorem postprocess_paths_agree:
  assumes "tokenizer_pads cfg" and "\<forall>out\<in>set inputs. fits cfg out" and "\<forall>out\<in>set inputs. plain out" and "same_logprobs inputs"
  shows "rbind (rmap (pad_output cfg) inputs) (\<lambda>padded. postprocess_padded cfg iter_set padded nt)
    = postprocess_raw cfg iter_set inputs nt"
proof (cases "inputs = []")
  case True
  then show ?thesis
    by (simp add: postprocess_padded_def postprocess_raw_def)
next
  case False
  let ?pos = "\<lambda>out. raw_positions cfg (out, plain_row cfg out)"
  have "rmap (pad_output cfg) inputs = rmap (\<lambda>out. rbind (?pos out) (\<lambda>p. Inr (plain_output cfg out p))) inputs"
    using assms by (intro rmap_cong) (simp add: postprocess_one)
  also have "\<dots> = rbind (rmap ?pos inputs) (\<lambda>ps. Inr (map2 (plain_output cfg) inputs ps))"
    by (rule rmap_wrap)
  finally have "rbind (rmap (pad_output cfg) inputs) (\<lambda>padded. postprocess_padded cfg iter_set padded nt)
      = rbind (rmap ?pos inputs) (\<lambda>ps. postprocess_padded cfg iter_set (map2 (plain_output cfg) inputs ps) nt)"
    by (simp add: rbind_assoc)
  also have "\<dots> = rbind (rmap ?pos inputs) (\<lambda>ps. assemble_rows cfg iter_set inputs ps nt)"
    using False assms by (intro rbind_cong refl padded_batch) (auto dest: rmap_length)
  also have "\<dots> = postprocess_raw cfg iter_set inputs nt"
    using False assms by (simp add: raw_batch)
  finally show ?thesis .
qed

definition demo_pad_config :: "nat pad_config" where
  "demo_pad_config =
     \<lparr>pc_prompt_length = 3, pc_response_length = 2, pc_pad_token_id = Some 9, pc_reward_workers = True,
      pc_pad = (\<lambda>left w xs.
        (let fill = replicate (w - length xs) 9; gap = replicate (w - length xs) 0; ones = replicate (length xs) 1 in
         if left then (fill @ xs, gap @ ones) else (xs @ fill, ones @ gap))),
      pc_processor = None\<rparr>"

definition demo_output :: "int list \<Rightarrow> int list \<Rightarrow> nat agent_output" where
  "demo_output prompt response =
     \<lparr>ao_prompt_ids = prompt, ao_response_ids = response, ao_response_mask = map (\<lambda>_. 1) response,
      ao_response_logprobs = Some (map (\<lambda>_. -1) response), ao_routed_experts = None, ao_multi_modal_data = None, ao_reward_score = Some 1,
      ao_num_turns = 2, ao_metrics = [], ao_extra_fields = [], ao_mm_processor_kwargs = None, ao_teacher_ids = None, ao_teacher_logprobs = None,
      ao_teacher_neg_ids = None, ao_teacher_neg_logprobs = None, ao_teacher_request = None\<rparr>"

lemma demo_outputs_fit:
  "\<forall>out\<in>set [demo_output [5, 6] [7], demo_output [5] [7, 8]]. fits demo_pad_config out"
  "\<forall>out\<in>set [demo_output [5, 6] [7], demo_output [5] [7, 8]]. plain out"
  "same_logprobs [demo_output [5, 6] [7], demo_output [5] [7, 8]]" "tokenizer_pads demo_pad_config"
  by (simp_all add: fits_def plain_def same_logprobs_def tokenizer_pads_def demo_output_def demo_pad_config_def Let_def pad_token_or_zero_def)

theorem postprocess_paths_agree_witness:
  "\<exists>dp. postprocess_raw demo_pad_config id [demo_output [5, 6] [7], demo_output [5] [7, 8]] None = Inr dp
    \<and> rbind (rmap (pad_output demo_pad_config) [demo_output [5, 6] [7], demo_output [5] [7, 8]])
        (\<lambda>padded. postprocess_padded demo_pad_config id padded None) = Inr dp
    \<and> (\<exists>td. batch dp = Some td
        \<and> map_of (tensors td) ''rm_scores'' = Some [RealRow [1, 0], RealRow [0, 1]]
        \<and> map_of (tensors td) ''input_ids'' = Some [IntRow [9, 5, 6, 7, 9], IntRow [9, 9, 5, 7, 8]])"
proof -
  let ?r = "postprocess_raw demo_pad_config id [demo_output [5, 6] [7], demo_output [5] [7, 8]] None"
  have "case ?r of Inl _ \<Rightarrow> False | Inr dp \<Rightarrow> (case batch dp of None \<Rightarrow> False | Some td \<Rightarrow>
      map_of (tensors td) ''rm_scores'' = Some [RealRow [1, 0], RealRow [0, 1]]
      \<and> map_of (tensors td) ''input_ids'' = Some [IntRow [9, 5, 6, 7, 9], IntRow [9, 9, 5, 7, 8]])"
    by code_simp
  then show ?thesis
    unfolding postprocess_paths_agree [OF demo_outputs_fit(4,1,2,3)]
    by (auto split: sum.splits option.splits)
qed


section \<open>Undoing the padding\<close>

text \<open>The entries of a row where the attention mask is not zero.\<close>

definition attended :: "int list \<Rightarrow> 'a list \<Rightarrow> 'a list" where
  "attended msk xs = map snd (filter (\<lambda>p. fst p \<noteq> 0) (zip msk xs))"

lemma raw_row_ofE:
  assumes "raw_row_of cfg out = Inr r"
  shows "r = plain_row cfg out" and "length (ao_prompt_ids out) \<le> pc_prompt_length cfg"
    and "length (ao_response_ids out) \<le> pc_response_length cfg"
  using assms by (auto simp: raw_row_of_def plain_row_def Let_def res_simps)

lemma raw_attention_window:
  "raw_attention (plain_row cfg out) = replicate (pc_prompt_length cfg - length (ao_prompt_ids out)) 0
    @ replicate (length (ao_prompt_ids out) + length (ao_response_ids out)) 1
    @ replicate (pc_response_length cfg - length (ao_response_ids out)) 0"
  by (simp add: raw_attention_def plain_row_def Let_def replicate_add)

lemma cumsum_zeros: "int_cumsum_from acc (replicate n 0 @ xs) = replicate n acc @ int_cumsum_from acc xs"
  by (induction n) auto

lemma cumsum_ones: "int_cumsum_from acc (replicate n 1 @ xs)
  = map (\<lambda>i. acc + int i + 1) [0..<n] @ int_cumsum_from (acc + int n) xs"
proof (induction n arbitrary: acc)
  case (Suc n)
  then show ?case
    by (simp add: upt_conv_Cons map_Suc_upt [symmetric] algebra_simps del: upt_Suc)
qed simp

lemma window_positions:
  "compute_position_id_with_mask (replicate a 0 @ replicate b 1 @ replicate c 0)
    = replicate a 0 @ map int [0..<b] @ replicate c (max 0 (int b - 1))"
  using cumsum_zeros [of "int b" c "[]"] by (simp add: compute_position_id_with_mask_def cumsum_zeros cumsum_ones)

lemma attended_window:
  "length us = a \<Longrightarrow> length vs = b \<Longrightarrow> length ws = c \<Longrightarrow>
    attended (replicate a 0 @ replicate b 1 @ replicate c 0) (us @ vs @ ws) = vs"
  unfolding attended_def by (rule filter_window)

text \<open>The padding of a sample can be undone: the attended tokens of its row are its prompt followed by its
  response, and the position ids of these tokens count from zero without a gap, however much padding stands
  before, between and after them. The columns have the configured widths.\<close>

theorem padded_row_roundtrip:
  assumes "raw_row_of cfg out = Inr r"
  shows "attended (raw_attention r) (raw_input_ids r) = ao_prompt_ids out @ ao_response_ids out
    \<and> attended (raw_attention r) (compute_position_id_with_mask (raw_attention r))
        = map int [0..<length (ao_prompt_ids out) + length (ao_response_ids out)]
    \<and> length (raw_input_ids r) = pc_prompt_length cfg + pc_response_length cfg
    \<and> length (raw_attention r) = pc_prompt_length cfg + pc_response_length cfg"
proof (intro conjI)
  let ?p = "ao_prompt_ids out" and ?q = "ao_response_ids out" and ?pad = "pad_token_or_zero cfg"
  let ?a = "pc_prompt_length cfg - length ?p" and ?c = "pc_response_length cfg - length ?q"
  note r = raw_row_ofE [OF assms]
  have ids: "raw_input_ids r = replicate ?a ?pad @ (?p @ ?q) @ replicate ?c ?pad"
    unfolding r(1) by (simp add: raw_input_ids_def plain_row_def Let_def)
  show "attended (raw_attention r) (raw_input_ids r) = ?p @ ?q"
    unfolding ids unfolding r(1) raw_attention_window by (rule attended_window) simp_all
  show "attended (raw_attention r) (compute_position_id_with_mask (raw_attention r)) = map int [0..<length ?p + length ?q]"
    unfolding r(1) raw_attention_window window_positions by (rule attended_window) simp_all
  show "length (raw_input_ids r) = pc_prompt_length cfg + pc_response_length cfg"
    "length (raw_attention r) = pc_prompt_length cfg + pc_response_length cfg"
    unfolding ids unfolding r(1) raw_attention_window using r(2,3) by simp_all
qed

theorem padded_row_roundtrip_witness:
  "\<exists>r. raw_row_of demo_pad_config (demo_output [5, 6] [7]) = Inr r
    \<and> raw_input_ids r = [9, 5, 6, 7, 9] \<and> attended (raw_attention r) (raw_input_ids r) = [5, 6, 7]"
proof -
  have r: "raw_row_of demo_pad_config (demo_output [5, 6] [7]) = Inr (plain_row demo_pad_config (demo_output [5, 6] [7]))"
    by (rule raw_row_of_fits) (use demo_outputs_fit in simp)
  show ?thesis
    using padded_row_roundtrip [OF r] r
    by (intro exI [of _ "plain_row demo_pad_config (demo_output [5, 6] [7])"])
      (simp add: demo_output_def raw_input_ids_def plain_row_def demo_pad_config_def pad_token_or_zero_def Let_def)
qed

section \<open>Rewards\<close>

lemma window_last_position:
  assumes "fits cfg out"
  shows "last_position (pc_prompt_length cfg) (raw_attention (plain_row cfg out)) = int (length (ao_response_ids out)) - 1"
proof -
  have "drop (pc_prompt_length cfg) (raw_attention (plain_row cfg out))
      = replicate (length (ao_response_ids out)) 1 @ replicate (pc_response_length cfg - length (ao_response_ids out)) 0"
    using assms by (simp add: raw_attention_window fits_def)
  then show ?thesis
    by (simp add: last_position_def sum_list_ones sum_list_zeros)
qed

text \<open>The column of the reward: the last response token, or the last column when there is none.\<close>

definition reward_column :: "'img pad_config \<Rightarrow> 'img agent_output \<Rightarrow> nat" where
  "reward_column cfg out = (if ao_response_ids out = [] then pc_response_length cfg - 1 else length (ao_response_ids out) - 1)"

lemma reward_row_fits:
  assumes "fits cfg out" and "0 < pc_response_length cfg"
  shows "reward_row (pc_response_length cfg) (last_position (pc_prompt_length cfg) (raw_attention (plain_row cfg out))) x
    = Inr (score_row (pc_response_length cfg) (reward_column cfg out) x)"
proof (cases "ao_response_ids out")
  case Nil
  then show ?thesis
    using assms by (simp add: window_last_position reward_row_def py_index_def reward_column_def nat_diff_distrib)
next
  case (Cons t ts)
  moreover have "length ts < pc_response_length cfg"
    using assms(1) Cons by (simp add: fits_def)
  ultimately show ?thesis
    using assms by (simp add: window_last_position reward_row_def py_index_def reward_column_def)
qed


lemma rmap_zip3: "rmap f (zip (map a xs) (zip (map b xs) (map c xs))) = rmap (\<lambda>x. f (a x, b x, c x)) xs"
  by (induction xs) auto

lemma batch_reward_rows:
  assumes "postprocess_raw cfg iter_set inputs nt = Inr dp" and "0 < pc_response_length cfg"
    and "\<forall>out\<in>set inputs. fits cfg out" and "\<forall>out\<in>set inputs. plain out" and "same_logprobs inputs"
    and scored: "\<forall>out\<in>set inputs. ao_reward_score out \<noteq> None"
  shows "\<exists>td. batch dp = Some td \<and> map_of (tensors td) ''rm_scores''
    = Some (map (\<lambda>out. RealRow (score_row (pc_response_length cfg) (reward_column cfg out) (the (ao_reward_score out)))) inputs)"
proof -
  let ?row = "plain_row cfg" and ?rw = "pc_response_length cfg"
  have "inputs \<noteq> []"
    using assms(1) by (auto simp: postprocess_raw_def)
  from assms(1) [unfolded raw_batch [OF this assms(3,4,5)]] obtain ps where "assemble_rows cfg iter_set inputs ps nt = Inr dp"
    by (auto simp: res_simps)
  then obtain columns mm where assembled:
    "assemble cfg iter_set columns (map raw_attention (map ?row inputs)) (map rr_response_mask (map ?row inputs))
       (map ao_reward_score inputs) (map ao_num_turns inputs) mm (map ao_metrics inputs) (map ao_extra_fields inputs) nt = Inr dp"
    by (auto simp: assemble_rows_def Let_def res_simps)
  have scores: "reward_scores (map ao_reward_score inputs) = Some (map (\<lambda>out. the (ao_reward_score out)) inputs)"
    using scored by (force simp: reward_scores_def)
  have rows: "rmap (\<lambda>(row, am, s). reward_row (length row) (last_position (pc_prompt_length cfg) am) s)
      (zip (map rr_response_mask (map ?row inputs)) (zip (map raw_attention (map ?row inputs)) (map (\<lambda>out. the (ao_reward_score out)) inputs)))
    = Inr (map (\<lambda>out. score_row ?rw (reward_column cfg out) (the (ao_reward_score out))) inputs)"
    unfolding map_map comp_def rmap_zip3 prod.case
    using assms(2,3) by (intro rmap_Inr) (simp add: plain_row_lengths reward_row_fits)
  show ?thesis
    using assembled unfolding assemble_def scores option.case rows
    by (auto simp: res_simps Let_def dataproto_new_def map_of_dict_set o_def)
qed

text \<open>The reward of a sample stands in the same place whether the worker scores it while it builds its batch
  or a reward stream scores it later: at the last token of the response. The two places differ for an empty
  response only, which is rewarded in the last column by the batch and in the first column by the stream.\<close>

theorem streamed_rewards_in_place:
  assumes "postprocess_raw cfg iter_set inputs nt = Inr dp" and "0 < pc_response_length cfg"
    and "\<forall>out\<in>set inputs. fits cfg out \<and> plain out \<and> ao_reward_score out \<noteq> None" and "same_logprobs inputs"
    and "validation_reward_results_to_dataproto none (pc_response_length cfg) (map (\<lambda>out. Some (result out)) inputs) = Inr dv"
    and "\<forall>out\<in>set inputs. res_response_length (result out) = length (ao_response_ids out)
        \<and> ao_reward_score out = Some (res_reward_score (result out))"
  shows "\<exists>td tv rows rows'. batch dp = Some td \<and> batch dv = Some tv
    \<and> map_of (tensors td) ''rm_scores'' = Some rows \<and> map_of (tensors tv) ''rm_scores'' = Some rows'
    \<and> rows = map (\<lambda>out. RealRow (score_row (pc_response_length cfg) (reward_column cfg out) (res_reward_score (result out)))) inputs
    \<and> rows' = map (\<lambda>out. RealRow (score_row (pc_response_length cfg) (length (ao_response_ids out) - 1) (res_reward_score (result out)))) inputs
    \<and> ((\<forall>out\<in>set inputs. ao_response_ids out \<noteq> []) \<longrightarrow> rows = rows')"
proof -
  let ?rw = "pc_response_length cfg"
  obtain td where td: "batch dp = Some td" "map_of (tensors td) ''rm_scores''
      = Some (map (\<lambda>out. RealRow (score_row ?rw (reward_column cfg out) (the (ao_reward_score out)))) inputs)"
    using batch_reward_rows [OF assms(1,2)] assms(3,4) by blast
  have place: "max (Suc 0) (min (res_response_length (result out)) ?rw) - Suc 0 = length (ao_response_ids out) - Suc 0"
    if "out \<in> set inputs" for out
    using that assms(2,3,6) by (auto simp: fits_def)
  obtain tv where tv: "batch dv = Some tv" "tensors tv = [(''rm_scores'',
      map (\<lambda>r. RealRow (score_row ?rw (max (Suc 0) (min (res_response_length r) ?rw) - Suc 0) (res_reward_score r))) (map result inputs))]"
    using assms(2,5) by (auto simp: validation_reward_results_to_dataproto_def all_results_def res_simps Let_def o_def
        tensordict_new_def dataproto_new_def)
  have "map_of (tensors tv) ''rm_scores''
      = Some (map (\<lambda>out. RealRow (score_row ?rw (length (ao_response_ids out) - 1) (res_reward_score (result out)))) inputs)"
    using place by (simp add: tv(2))
  moreover have "map (\<lambda>out. RealRow (score_row ?rw (reward_column cfg out) (the (ao_reward_score out)))) inputs
      = map (\<lambda>out. RealRow (score_row ?rw (reward_column cfg out) (res_reward_score (result out)))) inputs"
    using assms(6) by auto
  ultimately show ?thesis
    using td tv(1) by (auto simp: reward_column_def)
qed


definition demo_result :: "nat agent_output \<Rightarrow> nat reward_result" where
  "demo_result out = \<lparr>res_reward_score = 1, res_extra_info = [], res_response_length = length (ao_response_ids out)\<rparr>"

theorem streamed_rewards_in_place_witness:
  "\<exists>dp td dv. postprocess_raw demo_pad_config id [demo_output [5, 6] [7], demo_output [5] [7, 8]] None = Inr dp
    \<and> validation_reward_results_to_dataproto (0 :: nat) 2
        (map (\<lambda>out. Some (demo_result out)) [demo_output [5, 6] [7], demo_output [5] [7, 8]]) = Inr dv
    \<and> batch dp = Some td \<and> map_of (tensors td) ''rm_scores'' = Some [RealRow [1, 0], RealRow [0, 1]]"
proof -
  let ?inputs = "[demo_output [5, 6] [7], demo_output [5] [7, 8]]"
  have "case postprocess_raw demo_pad_config id ?inputs None of Inl _ \<Rightarrow> False | Inr dp \<Rightarrow> True"
    by code_simp
  then obtain dp where dp: "postprocess_raw demo_pad_config id ?inputs None = Inr dp"
    by (auto split: sum.splits)
  have "case validation_reward_results_to_dataproto (0 :: nat) 2 (map (\<lambda>out. Some (demo_result out)) ?inputs) of Inl _ \<Rightarrow> False | Inr dv \<Rightarrow> True"
    by code_simp
  then obtain dv where dv: "validation_reward_results_to_dataproto (0 :: nat) 2 (map (\<lambda>out. Some (demo_result out)) ?inputs) = Inr dv"
    by (auto split: sum.splits)
  have w: "pc_response_length demo_pad_config = 2"
    by (simp add: demo_pad_config_def)
  have "\<forall>out\<in>set ?inputs. fits demo_pad_config out \<and> plain out \<and> ao_reward_score out \<noteq> None"
    using demo_outputs_fit by (simp add: demo_output_def)
  from streamed_rewards_in_place [OF dp _ this demo_outputs_fit(3) dv [folded w]] dp dv
  show ?thesis
    by (fastforce simp: w demo_result_def demo_output_def reward_column_def score_row_def numeral_2_eq_2)
qed

end
