(* ===== verification/ContextLaws.thy ===== *)
theory ContextLaws
  imports TeacherContext WorkPoolLaws
begin

text \<open>
  What holds of the teacher's contexts and requests: the negative prompt differs from the positive one in the
  trailing images only, a request with a context is scored at the positions of the student's response, and a
  request without one is always refused by the teacher client.
\<close>

section \<open>Requests without a crop\<close>

lemma score_incomplete_alignment:
  "score_teacher_sequence mgr seq data kwargs key None sr tp (Some pad) = Inl ValueError"
  by (simp add: score_teacher_sequence_def)

lemma prepare_without_crop:
  assumes "prepare_teacher_logprob_request wk validate sample_kwargs task data kwargs prompt_ids response_ids pw rw = Inr (Some r)"
    and "\<not> wk_crop_enabled wk"
  shows "\<exists>pw' rw'. r = request_without_crop wk data kwargs (sample_routing_key wk sample_kwargs) prompt_ids response_ids pw' rw'"
  using assms by (auto simp: prepare_teacher_logprob_request_def Let_def split: if_splits option.splits)

section \<open>Requests with a context\<close>

text \<open>A server that answers a sequence with rows for all its tokens.\<close>

definition answers :: "'o teacher_manager \<Rightarrow> 'o teacher_request \<Rightarrow> int list \<Rightarrow> 'o pydict option \<Rightarrow> 'o pydict option
    \<Rightarrow> int list list \<Rightarrow> real list list \<Rightarrow> bool" where
  "answers mgr r seq data kwargs ids lps \<longleftrightarrow>
     (\<exists>key client. resolve_teacher_key mgr (req_routing_key r) = Inr key \<and> dict_get (teacher_client mgr) key = Inr client
       \<and> client seq (get_teacher_sampling_params (use_topk mgr) (topk mgr)) (map_of (case data of None \<Rightarrow> [] | Some d \<Rightarrow> d) ''images'')
           (map_of (case data of None \<Rightarrow> [] | Some d \<Rightarrow> d) ''videos'') (map_of (case data of None \<Rightarrow> [] | Some d \<Rightarrow> d) ''audios'') kwargs
         = Inr (ids, lps)
       \<and> rectangular ids \<and> rectangular lps \<and> length ids = length seq \<and> length lps = length seq)"

lemma score_answered:
  assumes "answers mgr r seq data kwargs ids lps"
  shows "score_teacher_sequence mgr seq data kwargs (req_routing_key r) (Some sp) (Some sr) (Some tp) (Some pad)
    = align_teacher_outputs_to_student_sequence ids lps sp sr tp (replicate (row_width ids) pad) (replicate (row_width lps) 0)"
  using assms by (auto simp: answers_def score_teacher_sequence_def Let_def)

definition context_sample :: "int list \<Rightarrow> int list \<Rightarrow> nat \<Rightarrow> int list list \<Rightarrow> real list list \<Rightarrow> (int list, real list) replay_sample" where
  "context_sample prompt_ids response_ids teacher_prompt_length ids lps =
     \<lparr>student_prompt_len = length prompt_ids, response_len = length response_ids, teacher_prompt_len = teacher_prompt_length,
      replay_ids = ids, replay_logprobs = lps\<rparr>"

lemma row_width_append: "xs \<noteq> [] \<Longrightarrow> row_width (xs @ ys) = row_width xs"
  by (cases xs) (auto simp: row_width_def)

lemma row_width_align:
  assumes "rectangular xs" and "length xs = tp + n" and "1 \<le> tp"
  shows "row_width (replicate k (replicate (row_width xs) v) @ take n (drop (tp - 1) xs) @ [replicate (row_width xs) v]) = row_width xs"
proof -
  have "length (hd (take n (drop (tp - 1) xs) @ [replicate (row_width xs) v])) = row_width xs"
  proof (cases "take n (drop (tp - 1) xs)")
    case (Cons y ys)
    then have "y \<in> set xs" by (metis in_set_dropD in_set_takeD list.set_intros(1))
    then show ?thesis using assms(1) Cons by (simp add: rectangular_def)
  next
    case Nil
    then show ?thesis by (simp only: append_Nil list.sel length_replicate)
  qed
  then show ?thesis
    by (cases k; cases "take n (drop (tp - 1) xs)") (auto simp: row_width_def)
qed

text \<open>Aligning and padding one answer is what the replay of a sample does.\<close>

lemma score_and_pad:
  fixes ids :: "int list list" and lps :: "real list list"
  assumes "answers mgr r seq data kwargs ids lps" and "length seq = tp + length response_ids"
    and "1 \<le> tp" and "prompt_ids \<noteq> []" and "length prompt_ids \<le> pw" and "length response_ids \<le> rw"
    and "req_prompt_width r = int pw" and "req_response_width r = int rw" and "req_prompt_length r = int (length prompt_ids)"
    and "req_response_length r = int (length response_ids)"
  defines "s \<equiv> context_sample prompt_ids response_ids tp ids lps"
  shows "\<exists>ids' lps'. score_teacher_sequence mgr seq data kwargs (req_routing_key r) (Some (int (length prompt_ids)))
        (Some (int (length response_ids))) (Some (int tp)) (Some (req_pad_token_id r)) = Inr (ids', lps')
    \<and> pad_request_outputs r ids' lps' = Inr (padded_column pw rw (replicate (row_width ids) (req_pad_token_id r)) s ids,
        padded_column pw rw (replicate (row_width lps) 0) s lps)"
proof -
  let ?pad = "replicate (row_width ids) (req_pad_token_id r)" and ?zero = "replicate (row_width lps) 0"
  have len: "length ids = tp + length response_ids" "length lps = tp + length response_ids" "rectangular ids" "rectangular lps"
    using assms(1,2) by (auto simp: answers_def)
  have sp: "1 \<le> length prompt_ids" using assms(4) by (cases prompt_ids) auto
  have wf: "wf_sample pw rw s" using len assms(3,5,6) sp by (simp add: wf_sample_def s_def context_sample_def)
  let ?ids = "replicate (length prompt_ids - 1) ?pad @ take (length response_ids) (drop (tp - 1) ids) @ [?pad]"
  let ?lps = "replicate (length prompt_ids - 1) ?zero @ take (length response_ids) (drop (tp - 1) lps) @ [?zero]"
  have score: "score_teacher_sequence mgr seq data kwargs (req_routing_key r) (Some (int (length prompt_ids)))
        (Some (int (length response_ids))) (Some (int tp)) (Some (req_pad_token_id r)) = Inr (?ids, ?lps)"
    unfolding score_answered [OF assms(1)] using align_result [OF sp assms(3) len(1,2)] by simp
  have "row_width ?ids = row_width ids" "row_width ?lps = row_width lps"
    using row_width_align [OF len(3,1) assms(3)] row_width_align [OF len(4,2) assms(3)] by blast+
  then have "pad_request_outputs r ?ids ?lps
      = pad_teacher_outputs ?ids ?lps (int pw) (int rw) (int (length prompt_ids)) (int (length response_ids)) ?pad ?zero"
    by (simp only: pad_request_outputs_def assms(7-10))
  also have "\<dots> = replay_columns pw rw ?pad ?zero s"
    using align_result [OF sp assms(3) len(1,2), of ?pad ?zero]
    by (simp add: replay_columns_def s_def context_sample_def)
  also have "\<dots> = Inr (padded_column pw rw ?pad s ids, padded_column pw rw ?zero s lps)"
    using replay_columns_result [OF wf] by (simp add: s_def context_sample_def)
  finally show ?thesis using score by blast
qed

text \<open>The prompt lengths of a prepared context are those of its token lists.\<close>

lemma tokenize_prompt_length: "tokenize_prompt wk messages data = Inr p \<Longrightarrow> pi_length p = length (pi_ids p)"
  by (auto simp: tokenize_prompt_def Let_def res_simps)

lemma negative_inputs_length:
  "negative_inputs wk sync sample_kwargs messages data = Inr (Some p) \<Longrightarrow> pi_length p = length (pi_ids p)"
  by (auto simp: negative_inputs_def prepare_hard_negative_teacher_context_def res_simps dest: tokenize_prompt_length split: if_splits)

lemma context_lengths:
  assumes "prepare_teacher_crop_context wk sample_kwargs = Inr ctx"
  shows "pi_length (ctx_teacher ctx) = length (pi_ids (ctx_teacher ctx))"
    and "ctx_negative ctx = Some n \<Longrightarrow> pi_length n = length (pi_ids n)"
  using assms
  by (auto simp: prepare_teacher_crop_context_def prepare_context_with_def res_simps
      dest: tokenize_prompt_length negative_inputs_length)

definition columns_of ::
    "nat \<Rightarrow> nat \<Rightarrow> int \<Rightarrow> int list \<Rightarrow> int list \<Rightarrow> nat \<Rightarrow> int list list \<Rightarrow> real list list \<Rightarrow> padded_pair" where
  "columns_of pw rw pad prompt_ids response_ids tp ids lps =
     (let s = context_sample prompt_ids response_ids tp ids lps in
      (padded_column pw rw (replicate (row_width ids) pad) s ids, padded_column pw rw (replicate (row_width lps) 0) s lps))"

section \<open>Replacing images\<close>

definition part_at :: "'img mobj list \<Rightarrow> nat \<Rightarrow> nat \<Rightarrow> 'img mobj option" where
  "part_at messages m j =
     (if m < length messages
      then (case message_content (messages ! m) of
              Inr (Some parts) \<Rightarrow> if j < length parts then Some (parts ! j) else None
            | _ \<Rightarrow> None)
      else None)"

definition slot_position :: "nat \<times> nat \<times> 'a \<Rightarrow> nat \<times> nat" where
  "slot_position slot = (fst slot, fst (snd slot))"

lemma part_atE:
  assumes "part_at messages m j = Some p"
  obtains d parts where "m < length messages" "messages ! m = MDict d" "map_of d ''content'' = Some (MList parts)"
    "j < length parts" "parts ! j = p"
  using assms by (auto simp: part_at_def message_content_def split: if_splits sum.splits option.splits mobj.splits)

lemma length_set_part [simp]: "length (set_part messages m j x) = length messages"
  by (simp add: set_part_def split: mobj.split option.split)

lemma part_at_set_part:
  assumes "part_at messages m j = Some p"
  shows "part_at (set_part messages m j x) m' j' = (if (m', j') = (m, j) then Some x else part_at messages m' j')"
proof -
  from assms obtain d parts where d: "m < length messages" "messages ! m = MDict d" "map_of d ''content'' = Some (MList parts)"
    "j < length parts" by (elim part_atE)
  then have "set_part messages m j x = messages[m := MDict (dict_set d ''content'' (MList (parts[j := x])))]"
    by (simp add: set_part_def)
  then show ?thesis
    using d by (auto simp: part_at_def message_content_def map_of_dict_set nth_list_update)
qed

lemma image_part_dict: "image_part p = Some d \<Longrightarrow> p = MDict d"
  by (cases p) (auto split: if_splits)

lemma content_slots_part:
  "(m', j, d) \<in> set (content_slots m parts) \<Longrightarrow> m' = m \<and> j < length parts \<and> parts ! j = MDict d"
  by (auto simp: content_slots_def image_part_dict split: option.splits)

text \<open>Blocks whose elements carry the number of their block do not overlap.\<close>

lemma distinct_concat_keyed:
  assumes "\<And>i. distinct (map h (f i))" and "\<And>i x. x \<in> set (f i) \<Longrightarrow> g (h x) = i"
  shows "distinct (map h (concat (map f [0..<n])))"
proof (induction n)
  case (Suc n)
  have "g y < n" if "y \<in> set (map h (concat (map f [0..<n])))" for y using that assms(2) by fastforce
  moreover have "g y = n" if "y \<in> set (map h (f n))" for y using that assms(2) by auto
  ultimately have "set (map h (concat (map f [0..<n]))) \<inter> set (map h (f n)) = {}" by fastforce
  then show ?case using Suc assms(1) by simp
qed simp

lemma distinct_content_slots: "distinct (map slot_position (content_slots m parts))"
  unfolding content_slots_def
  by (rule distinct_concat_keyed [where g = snd]) (auto simp: slot_position_def split: option.splits)

lemma image_slotsE:
  assumes "image_slots messages = Inr slots"
  obtains contents where "rmap message_content messages = Inr contents"
    "slots = concat (map (\<lambda>m. case contents ! m of None \<Rightarrow> [] | Some parts \<Rightarrow> content_slots m parts) [0..<length contents])"
  using assms by (auto simp: image_slots_def res_simps)

lemma image_slots_part:
  assumes "image_slots messages = Inr slots" and "(m, j, d) \<in> set slots"
  shows "part_at messages m j = Some (MDict d)"
proof -
  obtain contents where c: "rmap message_content messages = Inr contents"
    "slots = concat (map (\<lambda>m. case contents ! m of None \<Rightarrow> [] | Some parts \<Rightarrow> content_slots m parts) [0..<length contents])"
    using assms(1) by (rule image_slotsE)
  have "\<exists>m'<length contents. (m, j, d) \<in> set (case contents ! m' of None \<Rightarrow> [] | Some parts \<Rightarrow> content_slots m' parts)"
    using assms(2) unfolding c(2) by (simp only: set_concat set_map set_upt UN_iff image_iff) auto
  then obtain m' where m': "m' < length contents" "(m, j, d) \<in> set (case contents ! m' of None \<Rightarrow> [] | Some parts \<Rightarrow> content_slots m' parts)"
    by blast
  from m'(2) obtain parts where parts: "contents ! m' = Some parts" "(m, j, d) \<in> set (content_slots m' parts)"
    by (cases "contents ! m'") auto
  note m = content_slots_part [OF parts(2)]
  have "message_content (messages ! m) = Inr (Some parts)" "m < length messages"
    using rmap_nth [OF c(1)] m m'(1) parts(1) rmap_length [OF c(1)] by auto
  then show ?thesis using m by (simp add: part_at_def)
qed

lemma distinct_image_slots:
  assumes "image_slots messages = Inr slots"
  shows "distinct (map slot_position slots)"
proof -
  obtain contents where
    "slots = concat (map (\<lambda>m. case contents ! m of None \<Rightarrow> [] | Some parts \<Rightarrow> content_slots m parts) [0..<length contents])"
    using assms by (rule image_slotsE)
  moreover have "distinct (map slot_position
    (concat (map (\<lambda>m. case contents ! m of None \<Rightarrow> [] | Some parts \<Rightarrow> content_slots m parts) [0..<length contents])))"
    by (rule distinct_concat_keyed [where g = fst])
      (auto simp: slot_position_def distinct_content_slots dest: content_slots_part split: option.splits)
  ultimately show ?thesis by simp
qed

lemma replace_slots_parts:
  assumes "replace_slots ops messages zs = Inr messages'" and "distinct (map (slot_position \<circ> snd) zs)"
    and "\<And>z. z \<in> set zs \<Longrightarrow> part_at messages (fst (snd z)) (fst (snd (snd z))) \<noteq> None"
  shows "length messages' = length messages
    \<and> (\<forall>m j. (m, j) \<notin> set (map (slot_position \<circ> snd) zs) \<longrightarrow> part_at messages' m j = part_at messages m j)
    \<and> (\<forall>z\<in>set zs. \<exists>c. build_teacher_image_content ops (fst z) (snd (snd (snd z))) = Inr c
         \<and> part_at messages' (fst (snd z)) (fst (snd (snd z))) = Some (MDict c))"
  using assms
proof (induction zs arbitrary: messages)
  case (Cons z zs)
  obtain img m j t where z: "z = (img, m, j, t)" by (cases z)
  obtain c where c: "build_teacher_image_content ops img t = Inr c"
    "replace_slots ops (set_part messages m j (MDict c)) zs = Inr messages'"
    using Cons.prems(1) z by (auto simp: res_simps)
  obtain p where p: "part_at messages m j = Some p" using Cons.prems(3) [of z] z by auto
  let ?ms = "set_part messages m j (MDict c)"
  have fresh: "(m, j) \<notin> set (map (slot_position \<circ> snd) zs)" using Cons.prems(2) z by (auto simp: slot_position_def)
  have "part_at ?ms (fst (snd y)) (fst (snd (snd y))) \<noteq> None" if "y \<in> set zs" for y
    using Cons.prems(3) [of y] that by (simp add: part_at_set_part [OF p])
  then have IH: "length messages' = length ?ms"
    "\<And>m' j'. (m', j') \<notin> set (map (slot_position \<circ> snd) zs) \<Longrightarrow> part_at messages' m' j' = part_at ?ms m' j'"
    "\<And>y. y \<in> set zs \<Longrightarrow> \<exists>c. build_teacher_image_content ops (fst y) (snd (snd (snd y))) = Inr c
         \<and> part_at messages' (fst (snd y)) (fst (snd (snd y))) = Some (MDict c)"
    using Cons.IH [OF c(2)] Cons.prems(2) by auto
  have "part_at messages' m' j' = part_at messages m' j'" if "(m', j') \<notin> set (map (slot_position \<circ> snd) (z # zs))" for m' j'
  proof -
    have "(m', j') \<noteq> (m, j)" "(m', j') \<notin> set (map (slot_position \<circ> snd) zs)" using that z by (auto simp: slot_position_def)
    then show ?thesis using IH(2) [of m' j'] part_at_set_part [OF p, of "MDict c" m' j'] by (simp only: if_False not_False_eq_True)
  qed
  moreover have "part_at messages' m j = Some (MDict c)" using IH(2) [OF fresh] by (simp add: part_at_set_part [OF p])
  ultimately show ?case using IH(1,3) c(1) z by auto
qed simp

lemma inherit_bound_type: "map_of (foldl (inherit_bound t) ((''type'', v) # d) [''min_pixels'', ''max_pixels'']) ''type'' = Some v"
  by (auto simp: inherit_bound_def map_of_dict_set split: option.splits)

lemma built_content_type: "build_teacher_image_content ops img t = Inr c \<Longrightarrow> map_of c ''type'' = Some (MStr ''image'')"
  unfolding build_teacher_image_content_def using inherit_bound_type [of t "MStr ''image''"] by (auto simp: res_simps simp del: foldl.simps)

section \<open>A worker for the examples\<close>

text \<open>Images are numbers; a prompt of \<open>n\<close> messages has \<open>n + 1\<close> tokens.\<close>

definition demo_worker :: "bool \<Rightarrow> nat worker" where
  "demo_worker crop =
     \<lparr>wk_ops = \<lparr>image_size = \<lambda>n. (int n, int n), image_rgb = \<lambda>n. n, image_open = \<lambda>_. Inr 0, image_resize = \<lambda>(w, h) _. nat w\<rparr>,
      wk_has_processor = True, wk_has_sync_extraction = True,
      wk_extract = \<lambda>_. Inr (Some (MList [MImage 8]), None, None),
      wk_tokenize = \<lambda>messages _ _. Inr (map int [0..<Suc (length messages)]),
      wk_sampling_rate = None, wk_mm_processor_kwargs = [], wk_pad_token_id = None, wk_distillation_enabled = True,
      wk_teacher_key = ''key'', wk_crop_enabled = crop, wk_crop_prompt_key = ''teacher_raw_prompt'', wk_async_prepare = False,
      wk_evidence_enabled = True, wk_negative_mode = ''hard_negative_crop'', wk_negative_image_key = ''teacher_neg_images'',
      wk_negative_prompt_key = ''teacher_neg_raw_prompt'', wk_downsample_factor = 2\<rparr>"

definition demo_fields :: "nat mobj pydict" where
  "demo_fields = [(''teacher_raw_prompt'', MList [MNone, MNone]), (''teacher_neg_raw_prompt'', MList [MNone])]"

definition demo_inputs :: "int list \<Rightarrow> nat prompt_inputs" where
  "demo_inputs ids = \<lparr>pi_ids = ids, pi_data = [(''images'', MList [MImage 8])], pi_kwargs = [], pi_length = length ids\<rparr>"

lemma demo_context:
  "prepare_teacher_crop_context (demo_worker True) (Some demo_fields)
    = Inr \<lparr>ctx_teacher = demo_inputs [0, 1, 2], ctx_negative = Some (demo_inputs [0, 1]), ctx_pad_token_id = 0\<rparr>"
  by (simp add: prepare_teacher_crop_context_def prepare_context_with_def demo_worker_def demo_fields_def require_teacher_crop_field_def
      extract_teacher_crop_multi_modal_data_def optional_entry_def has_images_def tokenize_prompt_def get_mm_processor_kwargs_def
      negative_inputs_def prepare_hard_negative_teacher_context_def get_hard_negative_teacher_messages_def pad_token_def
      demo_inputs_def Let_def upt_rec eval_nat_numeral)

definition demo_crop_request :: "nat mobj teacher_request" where
  "demo_crop_request = use_teacher_context
     \<lparr>ctx_teacher = demo_inputs [0, 1, 2], ctx_negative = Some (demo_inputs [0, 1]), ctx_pad_token_id = 0\<rparr> [7] [5, 6]
     (request_without_crop (demo_worker True) None None None [7] [5, 6] 2 3)"

lemma demo_prepared:
  "prepare_teacher_logprob_request (demo_worker True) False (Some demo_fields) None None None [7] [5, 6] (Some 2) (Some 3)
    = Inr (Some demo_crop_request)"
proof -
  have "sample_routing_key (demo_worker True) (Some demo_fields) = None"
    by (simp add: sample_routing_key_def demo_worker_def demo_fields_def)
  moreover have "wk_distillation_enabled (demo_worker True)" "wk_crop_enabled (demo_worker True)" by (simp_all add: demo_worker_def)
  ultimately show ?thesis
    by (simp add: prepare_teacher_logprob_request_def demo_context demo_crop_request_def Let_def)
qed

lemma demo_answers:
  "answers demo_manager demo_crop_request seq data kwargs (map (\<lambda>x. [x]) seq) (map (\<lambda>x. [- of_int x]) seq)"
proof -
  have "rectangular (map (\<lambda>x. [x]) seq)" "rectangular (map (\<lambda>x. [- real_of_int x]) seq)"
    by (cases seq; auto simp: rectangular_def row_width_def)+
  then show ?thesis by (simp add: answers_def demo_manager_def resolve_teacher_key_def dict_get_def)
qed

section \<open>Properties of requests\<close>

text \<open>The negative prompt differs from the positive one in its crops only. When as many images as the
  prompt has slots for are put into it, the number of messages stays, every part that is not one of the last
  \<open>k\<close> image slots stays, in particular the full image that comes first, and the last \<open>k\<close> slots hold the
  negative images in their order, as image parts that inherit the pixel bounds of the crops they replace.\<close>

theorem negative_prompt_replaces_last_images:
  assumes "image_slots messages = Inr slots" and "replace_teacher_crop_images ops messages negatives = Inr messages'"
  defines "crops \<equiv> drop (length slots - length negatives) slots"
  shows "length messages' = length messages \<and> length crops = length negatives
    \<and> (\<forall>m j. (m, j) \<notin> set (map slot_position crops) \<longrightarrow> part_at messages' m j = part_at messages m j)
    \<and> (\<forall>i<length negatives. \<exists>c. build_teacher_image_content ops (negatives ! i) (snd (snd (crops ! i))) = Inr c
         \<and> part_at messages' (fst (crops ! i)) (fst (snd (crops ! i))) = Some (MDict c)
         \<and> map_of c ''type'' = Some (MStr ''image''))"
proof -
  have r: "length negatives \<le> length slots" "replace_slots ops messages (zip negatives crops) = Inr messages'"
    using assms by (auto simp: replace_teacher_crop_images_def res_simps)
  have len: "length crops = length negatives" using r(1) by (simp add: crops_def)
  have pos: "map (slot_position \<circ> snd) (zip negatives crops) = map slot_position crops"
    using len by (simp add: map_zip_map2 [symmetric] flip: map_map)
  have "distinct (map slot_position crops)"
    using distinct_image_slots [OF assms(1)] by (simp add: crops_def drop_map [symmetric] distinct_drop)
  moreover have "part_at messages (fst (snd z)) (fst (snd (snd z))) \<noteq> None" if "z \<in> set (zip negatives crops)" for z
  proof -
    have "snd z \<in> set crops" using that by (metis prod.collapse set_zip_rightD)
    then have "snd z \<in> set slots" unfolding crops_def by (rule in_set_dropD)
    then have "part_at messages (fst (snd z)) (fst (snd (snd z))) = Some (MDict (snd (snd (snd z))))"
      by (intro image_slots_part [OF assms(1)]) simp
    then show ?thesis by simp
  qed
  ultimately have parts: "length messages' = length messages"
    "\<And>m j. (m, j) \<notin> set (map slot_position crops) \<Longrightarrow> part_at messages' m j = part_at messages m j"
    "\<And>z. z \<in> set (zip negatives crops) \<Longrightarrow> \<exists>c. build_teacher_image_content ops (fst z) (snd (snd (snd z))) = Inr c
         \<and> part_at messages' (fst (snd z)) (fst (snd (snd z))) = Some (MDict c)"
    using replace_slots_parts [OF r(2)] unfolding pos by blast+
  have "\<exists>c. build_teacher_image_content ops (negatives ! i) (snd (snd (crops ! i))) = Inr c
         \<and> part_at messages' (fst (crops ! i)) (fst (snd (crops ! i))) = Some (MDict c)
         \<and> map_of c ''type'' = Some (MStr ''image'')" if "i < length negatives" for i
    using parts(3) [of "(negatives ! i, crops ! i)"] that len built_content_type by (fastforce simp: in_set_zip)
  then show ?thesis using parts(1,2) len by blast
qed

theorem negative_prompt_replaces_last_images_witness:
  "\<exists>messages'. replace_teacher_crop_images (wk_ops (demo_worker True))
        [MDict [(''content'', MList [MDict [(''type'', MStr ''image''), (''image'', MStr ''a'')], MStr ''or'',
            MDict [(''type'', MStr ''image''), (''image'', MStr ''b''), (''max_pixels'', MInt 9)]])]] [MStr ''c''] = Inr messages'
      \<and> part_at messages' 0 0 = Some (MDict [(''type'', MStr ''image''), (''image'', MStr ''a'')])
      \<and> part_at messages' 0 2 = Some (MDict [(''type'', MStr ''image''), (''image'', MStr ''c''), (''max_pixels'', MInt 9)])"
proof -
  let ?t = "[(''type'', MStr ''image''), (''image'', MStr ''b''), (''max_pixels'', MInt 9)]"
  let ?c = "[(''type'', MStr ''image''), (''image'', MStr ''c''), (''max_pixels'', MInt 9)]"
  let ?ms = "[MDict [(''content'', MList [MDict [(''type'', MStr ''image''), (''image'', MStr ''a'')], MStr ''or'', MDict ?t])]] :: nat mobj list"
  let ?ms' = "[MDict [(''content'', MList [MDict [(''type'', MStr ''image''), (''image'', MStr ''a'')], MStr ''or'', MDict ?c])]] :: nat mobj list"
  let ?ops = "wk_ops (demo_worker True)"
  have slots: "image_slots ?ms = Inr [(0, 0, [(''type'', MStr ''image''), (''image'', MStr ''a'')]), (0, 2, ?t)]"
    by (simp add: image_slots_def message_content_def content_slots_def upt_rec eval_nat_numeral)
  have build: "build_teacher_image_content ?ops (MStr ''c'') ?t = Inr ?c"
    by (simp add: build_teacher_image_content_def image_payload_def demo_worker_def inherit_bound_def has_key_iff dict_set_def dict_del_def)
  have new: "replace_teacher_crop_images ?ops ?ms [MStr ''c''] = Inr ?ms'"
    by (simp add: replace_teacher_crop_images_def slots build set_part_def dict_set_def eval_nat_numeral)
  from negative_prompt_replaces_last_images [OF slots new]
  have "part_at ?ms' 0 0 = part_at ?ms 0 0" "part_at ?ms' 0 2 = Some (MDict ?c)"
    by (simp_all add: slot_position_def build eval_nat_numeral)
  then show ?thesis using new by (intro exI [of _ ?ms']) (simp add: part_at_def message_content_def)
qed

text \<open>C13: A prepared request is scored at the positions of the student's response. When the teacher answers
  the crop prompt followed by the response, and the negative prompt followed by the response where there is
  one, with a row for every token, the consumer's work on the request succeeds, and its padded columns hold
  the teacher's predictions of the response tokens from the last prompt position on, for the positive and the
  negative evidence alike, although the three prompts have different lengths.\<close>

theorem crop_request_scored_in_place:
  assumes "wk_distillation_enabled wk" and "wk_crop_enabled wk"
    and "prepare_teacher_crop_context wk sample_kwargs = Inr ctx"
    and "prepare_teacher_logprob_request wk False sample_kwargs None data kwargs prompt_ids response_ids (Some pw) (Some rw) = Inr (Some r)"
    and "prompt_ids \<noteq> []" and "length prompt_ids \<le> pw" and "length response_ids \<le> rw"
    and "teacher = ctx_teacher ctx" and "pi_ids teacher \<noteq> []"
    and "answers mgr r (pi_ids teacher @ response_ids) (Some (pi_data teacher)) (Some (pi_kwargs teacher)) ids lps"
    and "\<And>n. ctx_negative ctx = Some n \<Longrightarrow> pi_ids n \<noteq> []
      \<and> answers mgr r (pi_ids n @ response_ids) (Some (pi_data n)) (Some (pi_kwargs n)) nids nlps"
  shows "teacher_work mgr r = Inr (columns_of pw rw (ctx_pad_token_id ctx) prompt_ids response_ids (length (pi_ids teacher)) ids lps,
    map_option (\<lambda>n. columns_of pw rw (ctx_pad_token_id ctx) prompt_ids response_ids (length (pi_ids n)) nids nlps) (ctx_negative ctx))"
proof -
  have r: "r = use_teacher_context ctx prompt_ids response_ids
      (request_without_crop wk data kwargs (sample_routing_key wk sample_kwargs) prompt_ids response_ids pw rw)"
    using assms(1-4) by (simp add: prepare_teacher_logprob_request_def Let_def)
  have fields: "req_prompt_width r = int pw" "req_response_width r = int rw" "req_prompt_length r = int (length prompt_ids)"
    "req_response_length r = int (length response_ids)" "req_pad_token_id r = ctx_pad_token_id ctx"
    "req_student_prompt_length r = Some (int (length prompt_ids))" "req_student_response_length r = Some (int (length response_ids))"
    "req_sequence_ids r = pi_ids teacher @ response_ids" "req_multi_modal_data r = Some (pi_data teacher)"
    "req_mm_processor_kwargs r = Some (pi_kwargs teacher)" "req_teacher_prompt_length r = Some (int (length (pi_ids teacher)))"
    "req_negative_sequence_ids r = map_option (\<lambda>n. pi_ids n @ response_ids) (ctx_negative ctx)"
    unfolding r assms(8) using context_lengths [OF assms(3)]
    by (simp_all add: use_teacher_context_def request_without_crop_def Let_def split: option.splits)
  have negative: "req_negative_multi_modal_data r = Some (pi_data n)" "req_negative_mm_processor_kwargs r = Some (pi_kwargs n)"
    "req_negative_teacher_prompt_length r = Some (int (length (pi_ids n)))" if "ctx_negative ctx = Some n" for n
    unfolding r using context_lengths(2) [OF assms(3) that] that by (simp_all add: use_teacher_context_def Let_def)
  have pos: "1 \<le> length (pi_ids teacher)" using assms(9) by (cases "pi_ids teacher") auto
  obtain ids' lps' where p: "score_teacher_sequence mgr (pi_ids teacher @ response_ids) (Some (pi_data teacher)) (Some (pi_kwargs teacher))
      (req_routing_key r) (Some (int (length prompt_ids))) (Some (int (length response_ids)))
      (Some (int (length (pi_ids teacher)))) (Some (req_pad_token_id r)) = Inr (ids', lps')"
    "pad_request_outputs r ids' lps' = Inr (columns_of pw rw (ctx_pad_token_id ctx) prompt_ids response_ids (length (pi_ids teacher)) ids lps)"
    using score_and_pad [OF assms(10) _ pos assms(5-7) fields(1-4)] by (auto simp: columns_of_def Let_def fields(5))
  show ?thesis
  proof (cases "ctx_negative ctx")
    case None
    then show ?thesis using p by (simp add: teacher_work_def compute_teacher_logprobs_single_def fields)
  next
    case (Some n)
    have neg: "1 \<le> length (pi_ids n)" using assms(11) [OF Some] by (cases "pi_ids n") auto
    obtain nids' nlps' where q: "score_teacher_sequence mgr (pi_ids n @ response_ids) (Some (pi_data n)) (Some (pi_kwargs n))
        (req_routing_key r) (Some (int (length prompt_ids))) (Some (int (length response_ids)))
        (Some (int (length (pi_ids n)))) (Some (req_pad_token_id r)) = Inr (nids', nlps')"
      "pad_request_outputs r nids' nlps' = Inr (columns_of pw rw (ctx_pad_token_id ctx) prompt_ids response_ids (length (pi_ids n)) nids nlps)"
      using score_and_pad [OF conjunct2 [OF assms(11) [OF Some]] _ neg assms(5-7) fields(1-4)]
      by (auto simp: columns_of_def Let_def fields(5))
    show ?thesis using p q negative [OF Some] Some
      by (simp add: teacher_work_def compute_teacher_logprobs_single_def fields)
  qed
qed

theorem crop_request_scored_in_place_witness:
  "teacher_work demo_manager demo_crop_request
    = Inr (columns_of 2 3 0 [7] [5, 6] 3 [[0], [1], [2], [5], [6]] [[0], [-1], [-2], [-5], [-6]],
        Some (columns_of 2 3 0 [7] [5, 6] 2 [[0], [1], [5], [6]] [[0], [-1], [-5], [-6]]))"
proof -
  have on: "wk_distillation_enabled (demo_worker True)" "wk_crop_enabled (demo_worker True)" by (simp_all add: demo_worker_def)
  show ?thesis
    using crop_request_scored_in_place [OF on demo_context demo_prepared _ _ _ refl _ demo_answers, of "[[0], [1], [5], [6]]" "[[0], [-1], [-5], [-6]]"]
      demo_answers [of "[0, 1, 5, 6]"]
    by (simp add: demo_inputs_def numeral_3_eq_3 numeral_2_eq_2)
qed

text \<open>C33: Without the teacher crop no request is ever scored. The client takes the padding token for alignment
  metadata, which a request always has, and refuses the request because the rest of it is missing: every
  request that is prepared with \<open>teacher_crop.enabled = False\<close> raises \<open>ValueError\<close>, for every teacher.\<close>

theorem plain_distillation_always_fails:
  assumes "\<not> wk_crop_enabled wk"
    and "prepare_teacher_logprob_request wk validate sample_kwargs task data kwargs prompt_ids response_ids pw rw = Inr (Some r)"
  shows "compute_teacher_logprobs_single mgr r = Inl ValueError"
proof -
  have "req_student_prompt_length r = None" "req_negative_sequence_ids r = None"
    using prepare_without_crop [OF assms(2,1)] by (auto simp: request_without_crop_def)
  then show ?thesis by (simp add: compute_teacher_logprobs_single_def score_incomplete_alignment)
qed

theorem plain_distillation_always_fails_witness:
  "\<exists>r. prepare_teacher_logprob_request (demo_worker False) False None None None None [7] [5, 6] (Some 2) (Some 3) = Inr (Some r)
    \<and> compute_teacher_logprobs_single demo_manager r = Inl ValueError"
proof -
  have off: "\<not> wk_crop_enabled (demo_worker False)" "wk_distillation_enabled (demo_worker False)" by (simp_all add: demo_worker_def)
  obtain r where "prepare_teacher_logprob_request (demo_worker False) False None None None None [7] [5, 6] (Some 2) (Some 3) = Inr (Some r)"
    using off by (simp add: prepare_teacher_logprob_request_def Let_def)
  then show ?thesis using plain_distillation_always_fails [OF off(1)] by blast
qed

end
