(* ===== verification/WorkerLaws.thy ===== *)
theory WorkerLaws
  imports AgentWorker StreamLaws AgentLaws ContextLaws
begin

text \<open>
  What holds of a worker's batch as a whole: rollouts of a prompt share the context of the first of them; the
  streaming of teacher values changes nothing but where the requests go; and the three modes (the trainer
  asks, the worker waits, the worker streams) give the same values.
\<close>

section \<open>Shared contexts\<close>

lemma shared_contexts_from:
  "shared_contexts start cache ps
    = map (\<lambda>p. case map_of cache (fst p) of Some c \<Rightarrow> c | None \<Rightarrow> start (the (map_of ps (fst p)))) ps"
proof (induction ps arbitrary: cache)
  case (Cons p ps)
  obtain key kwargs where p: "p = (key, kwargs)" by (cases p)
  show ?case
  proof (cases "map_of cache key")
    case None
    have "shared_contexts start ((key, start kwargs) # cache) ps
      = map (\<lambda>q. case map_of cache (fst q) of Some c \<Rightarrow> c | None \<Rightarrow> start (the (map_of (p # ps) (fst q)))) ps"
      unfolding Cons.IH by (intro map_cong refl) (auto simp: p None split: option.splits)
    then show ?thesis
      by (simp add: p None Let_def)
  next
    case (Some c)
    have "shared_contexts start cache ps
      = map (\<lambda>q. case map_of cache (fst q) of Some c \<Rightarrow> c | None \<Rightarrow> start (the (map_of (p # ps) (fst q)))) ps"
      unfolding Cons.IH by (intro map_cong refl) (auto simp: p Some split: option.splits)
    then show ?thesis
      by (simp add: p Some)
  qed
qed simp

section \<open>Streaming and the output of a sample\<close>

text \<open>A request that was left with its sample goes to the queue instead.\<close>

definition queue_request :: "'img sample_run \<Rightarrow> 'img sample_run" where
  "queue_request r =
     r\<lparr>sr_output := (sr_output r)\<lparr>po_teacher_request := None\<rparr>, sr_teacher_item := po_teacher_request (sr_output r)\<rparr>"

lemma pad_teacher_pair_request [simp]: "pad_teacher_pair cfg (out\<lparr>ao_teacher_request := x\<rparr>) p = pad_teacher_pair cfg out p"
  by (simp add: pad_teacher_pair_def)

lemma pad_teacher_values_request [simp]:
  "pad_teacher_values cfg (out\<lparr>ao_teacher_request := x\<rparr>) = pad_teacher_values cfg out"
  unfolding pad_teacher_values_def pad_teacher_pair_request by simp

lemma finish_padding_request:
  "finish_padding cfg (out\<lparr>ao_teacher_request := x\<rparr>) p
    = rbind (finish_padding cfg out p) (\<lambda>p'. Inr (p'\<lparr>po_teacher_request := x\<rparr>))"
  by (cases "pad_teacher_values cfg out") (auto simp: finish_padding_def)

lemma postprocess_queued:
  assumes "wk_distillation_enabled (lw_teacher lw)" and "\<not> validate"
  shows "agent_loop_postprocess lw validate c True rq kwargs out
    = rbind (agent_loop_postprocess lw validate c False rq kwargs out) (\<lambda>r. Inr (queue_request r))"
proof -
  have request: "prepare_teacher_logprob_request (lw_teacher lw) validate s c d k ps rs (Some pw) (Some rw)
      = rbind (prepare_teacher_logprob_request (lw_teacher lw) validate s c d k ps rs (Some pw) (Some rw))
          (\<lambda>q. case q of None \<Rightarrow> Inl ValueError | Some r \<Rightarrow> Inr (Some r))" for s d k ps rs pw rw
    using assms
    by (cases "case c of Some c \<Rightarrow> c | None \<Rightarrow> prepare_teacher_crop_context (lw_teacher lw) s")
      (auto simp: prepare_teacher_logprob_request_def Let_def)
  have attach: "rbind (attach_request lw validate c True kwargs o1) (\<lambda>(o2, item).
        rbind (finish_padding (lw_pad lw) o2 p) (\<lambda>x. Inr \<lparr>sr_output = x, sr_score_item = si, sr_teacher_item = item\<rparr>))
      = rbind (attach_request lw validate c False kwargs o1) (\<lambda>(o2, item).
        rbind (finish_padding (lw_pad lw) o2 p) (\<lambda>x. Inr (queue_request \<lparr>sr_output = x, sr_score_item = si, sr_teacher_item = item\<rparr>)))"
    for o1 :: "'a agent_output" and p si
    unfolding attach_request_def
    by (subst (1 2) request) (auto simp: rbind_assoc finish_padding_request queue_request_def intro!: rbind_cong split: option.splits)
  show ?thesis
    unfolding agent_loop_postprocess_def Let_def rbind_assoc
    by (intro rbind_cong refl) (auto simp: rbind_assoc attach split_beta intro!: rbind_cong)
qed


lemma run_queued:
  assumes "wk_distillation_enabled (lw_teacher lw)" and "\<not> validate"
  shows "run_agent_loop lw params validate name c True rq kwargs
    = rbind (run_agent_loop lw params validate name c False rq kwargs) (\<lambda>r. Inr (queue_request r))"
  unfolding run_agent_loop_def
  by (auto simp: Let_def rbind_assoc postprocess_queued [OF assms] split: option.splits mobj.splits intro!: rbind_cong)

lemma run_sample_queued:
  assumes "wk_distillation_enabled (lw_teacher lw)" and "\<not> validate"
  shows "run_sample lw validate True rq nt p = rbind (run_sample lw validate False rq nt p) (\<lambda>r. Inr (queue_request r))"
  unfolding run_sample_def Let_def by (cases p) (simp add: run_queued [OF assms])

lemma rmap_then_map: "rmap (\<lambda>x. rbind (f x) (\<lambda>y. Inr (g y))) xs = rbind (rmap f xs) (\<lambda>ys. Inr (map g ys))"
proof (induction xs)
  case (Cons x xs)
  then show ?case by (cases "f x"; cases "rmap f xs") auto
qed simp

text \<open>Everything but the mode of the teacher's stream is the same for two settings of it.\<close>

definition streaming_as :: "string \<Rightarrow> 'img loop_worker \<Rightarrow> 'img loop_worker" where
  "streaming_as configured lw = lw\<lparr>lw_teacher_streaming := configured\<rparr>"

lemma streaming_as_simps [simp]:
  "lw_pad (streaming_as m lw) = lw_pad lw" "lw_teacher (streaming_as m lw) = lw_teacher lw"
  "lw_sampling (streaming_as m lw) = lw_sampling lw" "lw_registry (streaming_as m lw) = lw_registry lw"
  "lw_default_agent_loop (streaming_as m lw) = lw_default_agent_loop lw" "lw_repr (streaming_as m lw) = lw_repr lw"
  "lw_critic_warmup (streaming_as m lw) = lw_critic_warmup lw" "lw_teacher_streaming (streaming_as m lw) = m"
  "lw_teacher_concurrency (streaming_as m lw) = lw_teacher_concurrency lw"
  "lw_compute_score (streaming_as m lw) = lw_compute_score lw" "lw_iter_set (streaming_as m lw) = lw_iter_set lw"
  by (simp_all add: streaming_as_def)

lemma score_streaming_as [simp]:
  "queue_score (streaming_as m lw) k out = queue_score lw k out"
  "compute_score (streaming_as m lw) k out = compute_score lw k out"
  "attach_request (streaming_as m lw) v c tq k out = attach_request lw v c tq k out"
  unfolding queue_score_def compute_score_def attach_request_def streaming_as_simps by (rule refl)+

lemma run_streaming_as [simp]:
  "agent_loop_postprocess (streaming_as m lw) v c tq rq k out = agent_loop_postprocess lw v c tq rq k out"
  "run_agent_loop (streaming_as m lw) ps v name c tq rq k = run_agent_loop lw ps v name c tq rq k"
  unfolding run_agent_loop_def agent_loop_postprocess_def streaming_as_simps score_streaming_as by (rule refl)+

lemma run_sample_streaming_as [simp]: "run_sample (streaming_as m lw) v tq rq nt p = run_sample lw v tq rq nt p"
  unfolding run_sample_def streaming_as_simps run_streaming_as by (rule refl)

lemma sample_contexts_streaming_as [simp]: "sample_contexts (streaming_as m lw) v ix ks = sample_contexts lw v ix ks"
  by (simp add: sample_contexts_def)

lemma reward_stream_mode_streaming_as [simp]: "reward_stream_mode (streaming_as m lw) = reward_stream_mode lw"
  by (simp add: fun_eq_iff reward_stream_mode_def streaming_as_def)

text \<open>When a step streams: the worker distils, the step is a training step after the critic's warm-up, the
  setting is a streaming one, and the number of consumers is valid.\<close>

definition streams_in :: "string \<Rightarrow> 'img loop_worker \<Rightarrow> (cell, 'img mobj) dataproto \<Rightarrow> bool" where
  "streams_in mode lw dp \<longleftrightarrow>
     wk_distillation_enabled (lw_teacher lw) \<and> \<not> batch_validate (meta_info dp)
     \<and> lw_critic_warmup lw \<le> batch_global_steps (meta_info dp)
     \<and> mode \<noteq> ''trainer'' \<and> teacher_logprob_streaming_mode mode = Inr mode
     \<and> (\<exists>p. teacher_logprob_streaming_concurrency (lw_teacher_concurrency lw) (dp_len dp) = Inr p)"

lemma streaming_modes:
  assumes "streams_in mode lw dp"
  shows "teacher_stream_mode (streaming_as ''trainer'' lw) (batch_validate (meta_info dp)) (batch_global_steps (meta_info dp)) (dp_len dp) = Inr None"
    "teacher_stream_mode (streaming_as mode lw) (batch_validate (meta_info dp)) (batch_global_steps (meta_info dp)) (dp_len dp) = Inr (Some mode)"
  using assms
  by (auto simp: streams_in_def teacher_stream_mode_def should_stream_teacher_logprobs_def teacher_logprob_streaming_mode_def
      streaming_alias_def Let_def)

lemma run_samples_streamed:
  assumes "streams_in mode lw dp"
  shows "run_samples (streaming_as mode lw) dp
    = rbind (run_samples (streaming_as ''trainer'' lw) dp) (\<lambda>run.
      Inr \<lparr>br_runs = map queue_request (br_runs run), br_teacher_mode = Some mode, br_reward_mode = br_reward_mode run\<rparr>)"
proof -
  have on: "wk_distillation_enabled (lw_teacher lw)" "\<not> batch_validate (meta_info dp)"
    using assms by (auto simp: streams_in_def)
  have runs: "rmap (run_sample lw (batch_validate (meta_info dp)) True rq nt) ps
      = rbind (rmap (run_sample lw (batch_validate (meta_info dp)) False rq nt) ps) (\<lambda>rs. Inr (map queue_request rs))" for rq nt ps
    unfolding rmap_then_map [symmetric] by (rule rmap_cong) (rule run_sample_queued [OF on])
  show ?thesis
    unfolding run_samples_def Let_def
    by (simp add: streaming_modes [OF assms] rbind_assoc runs cong: rmap_cong)
qed


section \<open>Every sample has its request\<close>

lemma finish_padding_keeps: "finish_padding cfg out p = Inr p' \<Longrightarrow> po_teacher_request p' = ao_teacher_request out"
  by (auto simp: finish_padding_def res_simps)

lemma request_attached:
  assumes "wk_distillation_enabled (lw_teacher lw)" and "\<not> validate"
    and "agent_loop_postprocess lw validate c False rq kwargs out = Inr r"
  shows "po_teacher_request (sr_output r) \<noteq> None"
proof -
  obtain o1 item o2 p p' where steps: "attach_request lw validate c False kwargs o1 = Inr (o2, item)"
    "finish_padding (lw_pad lw) o2 p = Inr p'" "sr_output r = p'"
    using assms(3) unfolding agent_loop_postprocess_def Let_def by (auto simp: res_simps)
  have "ao_teacher_request o2 \<noteq> None"
    using steps(1) assms(1,2)
    by (auto simp: attach_request_def prepare_teacher_logprob_request_def res_simps Let_def split: if_splits)
  then show ?thesis
    using finish_padding_keeps [OF steps(2)] steps(3) by simp
qed

lemma run_sample_request:
  assumes "wk_distillation_enabled (lw_teacher lw)" and "\<not> validate" and "run_sample lw validate False rq nt p = Inr r"
  shows "po_teacher_request (sr_output r) \<noteq> None"
  using assms(3) unfolding run_sample_def run_agent_loop_def Let_def
  by (auto simp: res_simps split: prod.splits option.splits mobj.splits dest: request_attached [OF assms(1,2)])

lemma length_shared_contexts [simp]: "length (shared_contexts start cache ps) = length ps"
  by (simp add: shared_contexts_from)

lemma sample_contexts_length:
  "sample_contexts lw v index kwargss = Inr cs \<Longrightarrow> length index = length kwargss \<Longrightarrow> length cs = length kwargss"
  by (auto simp: sample_contexts_def res_simps dest!: rmap_length split: if_splits)

lemma sample_index_length: "wf_dataproto dp \<Longrightarrow> length (sample_index (dp_len dp) (with_agent_name a (dp_len dp) (non_tensor_batch dp))) = dp_len dp"
  by (auto simp: sample_index_def with_agent_name_def map_of_dict_set wf_dataproto_def wf_columns_def split: option.splits dest!: map_of_SomeD)

lemma run_samples_requests:
  assumes "wf_dataproto dp" and "wk_distillation_enabled (lw_teacher lw)" and "\<not> batch_validate (meta_info dp)"
    and "run_samples (streaming_as ''trainer'' lw) dp = Inr run"
  shows "length (br_runs run) = dp_len dp" and "\<forall>r\<in>set (br_runs run). po_teacher_request (sr_output r) \<noteq> None"
proof -
  let ?v = "batch_validate (meta_info dp)" and ?n = "dp_len dp"
  let ?nt = "with_agent_name (lw_default_agent_loop lw) ?n (non_tensor_batch dp)"
  have none: "teacher_stream_mode (streaming_as ''trainer'' lw) ?v g ?n = Inr None \<or> fails (teacher_stream_mode (streaming_as ''trainer'' lw) ?v g ?n)" for g
    by (auto simp: teacher_stream_mode_def should_stream_teacher_logprobs_def teacher_logprob_streaming_mode_def streaming_alias_def Let_def)
  obtain cs rq where steps: "sample_contexts lw ?v (sample_index ?n ?nt) (map (sample_kwargs_at ?nt) [0..<?n]) = Inr cs"
    "rmap (run_sample lw ?v False rq ?nt) (zip [0..<?n] cs) = Inr (br_runs run)"
    using assms(4) none [of "batch_global_steps (meta_info dp)"]
    unfolding run_samples_def Let_def by (auto simp: res_simps fails_def cong: rmap_cong)
  have "length cs = ?n"
    using sample_contexts_length [OF steps(1)] sample_index_length [OF assms(1)] by simp
  then show "length (br_runs run) = ?n"
    using rmap_length [OF steps(2)] by simp
  show "\<forall>r\<in>set (br_runs run). po_teacher_request (sr_output r) \<noteq> None"
  proof
    fix r assume "r \<in> set (br_runs run)"
    then obtain i where "i < length (br_runs run)" "r = br_runs run ! i"
      by (metis in_set_conv_nth)
    then have "run_sample lw ?v False rq ?nt (zip [0..<?n] cs ! i) = Inr r"
      using rmap_nth [OF steps(2)] rmap_length [OF steps(2)] by simp
    then show "po_teacher_request (sr_output r) \<noteq> None"
      by (rule run_sample_request [OF assms(2,3)])
  qed
qed

lemma all_some_map: "\<forall>x\<in>set xs. f x \<noteq> None \<Longrightarrow> map f xs = map Some (map (the \<circ> f) xs)"
  by (induction xs) auto

section \<open>The blocking mode\<close>

lemma assemble_tensors:
  assumes "assemble cfg it columns ams rms scores nts mms ms efs nt = Inr dp"
  shows "\<exists>td. batch dp = Some td \<and> (\<forall>k. k \<noteq> ''rm_scores'' \<longrightarrow> map_of (tensors td) k = map_of columns k)"
  using assms unfolding assemble_def
  by (cases "reward_scores scores")
    (auto simp: res_simps Let_def tensordict_new_def dataproto_new_def map_of_dict_set)

text \<open>The teacher's columns of padded outputs: they are there when the first output has both values.\<close>

definition teacher_column ::
    "('v \<Rightarrow> cell) \<Rightarrow> ('img padded_output \<Rightarrow> 'v option) \<Rightarrow> ('img padded_output \<Rightarrow> 'w option) \<Rightarrow> 'img padded_output list \<Rightarrow> cell list option" where
  "teacher_column c value_of other_of ps =
     (if value_of (hd ps) = None \<or> other_of (hd ps) = None then None else Some (map (\<lambda>p. c (the (value_of p))) ps))"

lemma cat_rows_SomeD: "cat_rows shape cols = Inr cs \<Longrightarrow> cs = map the cols"
  by (auto simp: cat_rows_def res_simps Let_def)

lemma padded_teacher_columns:
  assumes "postprocess_padded cfg it ps nt = Inr dp"
  shows "\<exists>td. batch dp = Some td
    \<and> map_of (tensors td) ''teacher_ids'' = teacher_column IntRows po_teacher_ids po_teacher_logprobs ps
    \<and> map_of (tensors td) ''teacher_logprobs'' = teacher_column RealRows po_teacher_logprobs po_teacher_ids ps
    \<and> map_of (tensors td) ''teacher_neg_ids'' = teacher_column IntRows po_teacher_neg_ids po_teacher_neg_logprobs ps
    \<and> map_of (tensors td) ''teacher_neg_logprobs'' = teacher_column RealRows po_teacher_neg_logprobs po_teacher_neg_ids ps"
proof -
  obtain prompts responses masks ams ids pos L R T N where parts:
    "(if po_response_logprobs (hd ps) = None then Inr []
      else rbind (cat_rows row_shape (map po_response_logprobs ps)) (\<lambda>v. Inr [(''rollout_log_probs'', map RealRow v)])) = Inr L"
    "(if po_routed_experts (hd ps) = None then Inr []
      else rbind (cat_rows rows_shape (map po_routed_experts ps)) (\<lambda>v. Inr [(''routed_experts'', map IntRows v)])) = Inr R"
    "(if po_teacher_logprobs (hd ps) = None \<or> po_teacher_ids (hd ps) = None then Inr []
      else rbind (cat_rows rows_shape (map po_teacher_logprobs ps)) (\<lambda>lps.
           rbind (cat_rows rows_shape (map po_teacher_ids ps)) (\<lambda>ids.
           Inr [(''teacher_logprobs'', map RealRows lps), (''teacher_ids'', map IntRows ids)]))) = Inr T"
    "(if po_teacher_neg_logprobs (hd ps) = None \<or> po_teacher_neg_ids (hd ps) = None then Inr []
      else rbind (cat_rows rows_shape (map po_teacher_neg_logprobs ps)) (\<lambda>lps.
           rbind (cat_rows rows_shape (map po_teacher_neg_ids ps)) (\<lambda>ids.
           Inr [(''teacher_neg_logprobs'', map RealRows lps), (''teacher_neg_ids'', map IntRows ids)]))) = Inr N"
    and assembled: "assemble cfg it
       ([(''prompts'', map IntRow prompts), (''responses'', map IntRow responses),
         (''response_mask'', map IntRow masks), (''input_ids'', map IntRow ids),
         (''attention_mask'', map IntRow ams), (''position_ids'', pos)] @ L @ R @ T @ N)
       ams masks (map po_reward_score ps) (map po_num_turns ps)
       (map po_multi_modal_inputs ps) (map po_metrics ps) (map po_extra_fields ps) nt = Inr dp"
    using assms unfolding postprocess_padded_def rbind_eq_Inr by blast
  let ?base = "[(''prompts'', map IntRow prompts), (''responses'', map IntRow responses),
         (''response_mask'', map IntRow masks), (''input_ids'', map IntRow ids),
         (''attention_mask'', map IntRow ams), (''position_ids'', pos)]"
  have keys: "set (map fst L) \<subseteq> {''rollout_log_probs''}" "set (map fst R) \<subseteq> {''routed_experts''}"
    using parts(1,2) by (auto simp: res_simps split: if_splits)
  have T: "map_of T ''teacher_ids'' = teacher_column IntRows po_teacher_ids po_teacher_logprobs ps"
    "map_of T ''teacher_logprobs'' = teacher_column RealRows po_teacher_logprobs po_teacher_ids ps"
    "map_of T ''teacher_neg_ids'' = None" "map_of T ''teacher_neg_logprobs'' = None"
    using parts(3) by (auto simp: res_simps teacher_column_def dest!: cat_rows_SomeD split: if_splits)
  have N: "map_of N ''teacher_neg_ids'' = teacher_column IntRows po_teacher_neg_ids po_teacher_neg_logprobs ps"
    "map_of N ''teacher_neg_logprobs'' = teacher_column RealRows po_teacher_neg_logprobs po_teacher_neg_ids ps"
    "map_of N ''teacher_ids'' = None" "map_of N ''teacher_logprobs'' = None"
    using parts(4) by (auto simp: res_simps teacher_column_def dest!: cat_rows_SomeD split: if_splits)
  have other: "map_of ?base k = None" "map_of L k = None" "map_of R k = None"
    if "k \<in> {''teacher_ids'', ''teacher_logprobs'', ''teacher_neg_ids'', ''teacher_neg_logprobs''}" for k
    using that keys unfolding map_of_eq_None_iff list.set_map [symmetric] by auto
  obtain td where "batch dp = Some td" "\<And>k. k \<noteq> ''rm_scores'' \<Longrightarrow> map_of (tensors td) k = map_of (?base @ L @ R @ T @ N) k"
    using assemble_tensors [OF assembled] by blast
  then show ?thesis
    using T N other by (intro exI [of _ td]) (simp only: map_of_append map_add_def, simp split: option.splits)
qed

lemma hd_some: "ps \<noteq> [] \<Longrightarrow> map v ps = map Some xs \<Longrightarrow> v (hd ps) \<noteq> None"
  by (cases ps; cases xs) auto

lemma teacher_column_Some:
  assumes "ps \<noteq> []" and "map v ps = map Some xs" and "map w ps = map Some ys"
  shows "teacher_column c v w ps = Some (map c xs)"
proof -
  have "map (\<lambda>p. c (the (v p))) ps = map (\<lambda>x. c (the x)) (map v ps)"
    by simp
  then have "map (\<lambda>p. c (the (v p))) ps = map c xs"
    unfolding assms(2) by (simp add: comp_def)
  then show ?thesis
    using hd_some [OF assms(1,2)] hd_some [OF assms(1,3)] by (simp add: teacher_column_def)
qed

lemma teacher_column_None: "ps \<noteq> [] \<Longrightarrow> \<forall>p\<in>set ps. v p = None \<Longrightarrow> teacher_column c v w ps = None"
  by (simp add: teacher_column_def)

lemma attached_rewards:
  assumes "attach_streamed_validation_reward_results ps rs = Inr ps'"
  shows "length ps' = length ps" and "map po_teacher_ids ps' = map po_teacher_ids ps"
    and "map po_teacher_logprobs ps' = map po_teacher_logprobs ps"
    and "map po_teacher_neg_ids ps' = map po_teacher_neg_ids ps"
    and "map po_teacher_neg_logprobs ps' = map po_teacher_neg_logprobs ps"
proof -
  have len: "length rs = length ps"
    and ps': "ps' = map2 (\<lambda>p r. p\<lparr>po_reward_score := Some (res_reward_score (the r)),
        po_extra_fields := dict_set (po_extra_fields p) ''reward_extra_info'' (MDict (res_extra_info (the r)))\<rparr>) ps rs"
    using assms by (auto simp: attach_streamed_validation_reward_results_def res_simps)
  show "length ps' = length ps" using len ps' by simp
  show "map po_teacher_ids ps' = map po_teacher_ids ps" "map po_teacher_logprobs ps' = map po_teacher_logprobs ps"
    "map po_teacher_neg_ids ps' = map po_teacher_neg_ids ps" "map po_teacher_neg_logprobs ps' = map po_teacher_neg_logprobs ps"
    unfolding ps' using len by (induction ps rs rule: list_induct2') auto
qed

lemma attached_values:
  assumes "attach_streamed_teacher_logprob_results ps (map Some rows) = Inr ps'"
  shows "length ps' = length rows" and "map po_teacher_ids ps' = map (\<lambda>r. Some (fst (fst r))) rows"
    and "map po_teacher_logprobs ps' = map (\<lambda>r. Some (snd (fst r))) rows"
    and "map po_teacher_neg_ids ps' = map (\<lambda>r. map_option fst (snd r)) rows"
    and "map po_teacher_neg_logprobs ps' = map (\<lambda>r. map_option snd (snd r)) rows"
proof -
  have len: "length ps = length rows"
    and ps': "ps' = map2 (\<lambda>p r. (case the r of ((ids, logprobs), negative) \<Rightarrow>
            p\<lparr>po_teacher_ids := Some ids, po_teacher_logprobs := Some logprobs,
              po_teacher_neg_ids := map_option fst negative, po_teacher_neg_logprobs := map_option snd negative\<rparr>)) ps (map Some rows)"
    using assms by (auto simp: attach_streamed_teacher_logprob_results_def res_simps)
  show "length ps' = length rows" using len ps' by simp
  show "map po_teacher_ids ps' = map (\<lambda>r. Some (fst (fst r))) rows" "map po_teacher_logprobs ps' = map (\<lambda>r. Some (snd (fst r))) rows"
    "map po_teacher_neg_ids ps' = map (\<lambda>r. map_option fst (snd r)) rows"
    "map po_teacher_neg_logprobs ps' = map (\<lambda>r. map_option snd (snd r)) rows"
    unfolding ps' using len by (induction ps rows rule: list_induct2') (auto split: prod.splits)
qed

text \<open>Outputs with the values of rows have the columns of these rows.\<close>

lemma columns_of_values:
  assumes "batchable rows" and "ps \<noteq> []" and "map po_teacher_ids ps = map (\<lambda>r. Some (fst (fst r))) rows"
    and "map po_teacher_logprobs ps = map (\<lambda>r. Some (snd (fst r))) rows"
    and "map po_teacher_neg_ids ps = map (\<lambda>r. map_option fst (snd r)) rows"
    and "map po_teacher_neg_logprobs ps = map (\<lambda>r. map_option snd (snd r)) rows"
  shows "teacher_column IntRows po_teacher_ids po_teacher_logprobs ps = map_of (teacher_columns rows) ''teacher_ids''"
    and "teacher_column RealRows po_teacher_logprobs po_teacher_ids ps = map_of (teacher_columns rows) ''teacher_logprobs''"
    and "teacher_column IntRows po_teacher_neg_ids po_teacher_neg_logprobs ps = map_of (teacher_columns rows) ''teacher_neg_ids''"
    and "teacher_column RealRows po_teacher_neg_logprobs po_teacher_neg_ids ps = map_of (teacher_columns rows) ''teacher_neg_logprobs''"
proof -
  have pos: "map po_teacher_ids ps = map Some (map (fst \<circ> fst) rows)" "map po_teacher_logprobs ps = map Some (map (snd \<circ> fst) rows)"
    using assms(3,4) by simp_all
  show "teacher_column IntRows po_teacher_ids po_teacher_logprobs ps = map_of (teacher_columns rows) ''teacher_ids''"
    "teacher_column RealRows po_teacher_logprobs po_teacher_ids ps = map_of (teacher_columns rows) ''teacher_logprobs''"
    using teacher_column_Some [OF assms(2) pos] teacher_column_Some [OF assms(2) pos(2,1)]
    by (simp_all add: teacher_columns_def comp_assoc)
  consider (none) "\<forall>r\<in>set rows. snd r = None" | (all) "\<forall>r\<in>set rows. snd r \<noteq> None" "rows \<noteq> []"
    using assms(1) by (auto simp: batchable_def)
  then have "teacher_column IntRows po_teacher_neg_ids po_teacher_neg_logprobs ps = map_of (teacher_columns rows) ''teacher_neg_ids''
      \<and> teacher_column RealRows po_teacher_neg_logprobs po_teacher_neg_ids ps = map_of (teacher_columns rows) ''teacher_neg_logprobs''"
  proof cases
    case none
    have "\<forall>v\<in>set (map po_teacher_neg_ids ps). v = None" "\<forall>v\<in>set (map po_teacher_neg_logprobs ps). v = None"
      unfolding assms(5,6) using none by auto
    then show ?thesis
      using none by (simp add: teacher_column_None [OF assms(2)] teacher_columns_def)
  next
    case all
    have neg: "map po_teacher_neg_ids ps = map Some (map (fst \<circ> the \<circ> snd) rows)"
      "map po_teacher_neg_logprobs ps = map Some (map (snd \<circ> the \<circ> snd) rows)"
      unfolding assms(5,6) using all by auto
    have some: "\<exists>r\<in>set rows. snd r \<noteq> None"
      using all by (meson hd_in_set)
    show ?thesis
      using teacher_column_Some [OF assms(2) neg] teacher_column_Some [OF assms(2) neg(2,1)]
      unfolding teacher_columns_def if_P [OF some] by (simp add: comp_assoc)
  qed
  then show "teacher_column IntRows po_teacher_neg_ids po_teacher_neg_logprobs ps = map_of (teacher_columns rows) ''teacher_neg_ids''"
    "teacher_column RealRows po_teacher_neg_logprobs po_teacher_neg_ids ps = map_of (teacher_columns rows) ''teacher_neg_logprobs''"
    by simp_all
qed

section \<open>A worker and a batch for the examples\<close>

definition demo_loop_worker :: "nat loop_worker" where
  "demo_loop_worker =
     \<lparr>lw_pad = demo_pad_config, lw_teacher = demo_worker True,
      lw_sampling = \<lparr>sc_train = \<lparr>sv_temperature = 1, sv_top_p = 1, sv_top_k = -1, sv_presence_penalty = 0, sv_repetition_penalty = 1\<rparr>,
        sc_val = \<lparr>sv_temperature = 1, sv_top_p = 1, sv_top_k = -1, sv_presence_penalty = 0, sv_repetition_penalty = 1\<rparr>,
        sc_do_sample = True, sc_val_do_sample = False\<rparr>,
      lw_registry = [(''single'', \<lambda>_ _. Inr (demo_output [5] [7, 8]))], lw_default_agent_loop = ''single'',
      lw_compute_score = (\<lambda>_. Inr (1, [])), lw_repr = (\<lambda>_. []), lw_iter_set = id, lw_critic_warmup = 0,
      lw_teacher_streaming = ''nonblocking'', lw_teacher_concurrency = Some 1, lw_reward_streaming = ''1'',
      lw_reward_streaming_mode = ''nonblocking'', lw_reward_concurrency = None\<rparr>"

definition demo_batch :: "(cell, nat mobj) dataproto" where
  "demo_batch =
     \<lparr>batch = None,
      non_tensor_batch =
        [(''raw_prompt'', [MNone, MNone]), (''uid'', [MStr ''a'', MStr ''a'']), (''teacher_raw_prompt'', [MList [MNone, MNone], MList [MNone]]),
         (''teacher_neg_raw_prompt'', [MList [MNone], MList [MNone]])],
      meta_info = [(''global_steps'', PInt 0)]\<rparr>"

lemma demo_batch_wf: "wf_dataproto demo_batch" "dp_len demo_batch = 2"
  by (simp_all add: wf_dataproto_def wf_columns_def wf_meta_def dict_wf_def demo_batch_def dp_len_def)

lemma demo_streams: "streams_in ''nonblocking'' demo_loop_worker demo_batch"
  "teacher_logprob_streaming_concurrency (lw_teacher_concurrency demo_loop_worker) (dp_len demo_batch) = Inr 1"
proof -
  show concurrency: "teacher_logprob_streaming_concurrency (lw_teacher_concurrency demo_loop_worker) (dp_len demo_batch) = Inr 1"
    by (simp add: demo_batch_wf demo_loop_worker_def teacher_logprob_streaming_concurrency_def)
  then show "streams_in ''nonblocking'' demo_loop_worker demo_batch"
    by (simp add: streams_in_def demo_loop_worker_def demo_worker_def demo_batch_def batch_validate_def batch_global_steps_def
        teacher_logprob_streaming_mode_def streaming_alias_def Let_def)
qed

lemma demo_runs:
  "case run_samples (streaming_as ''trainer'' demo_loop_worker) demo_batch of
     Inl _ \<Rightarrow> False
   | Inr run \<Rightarrow> map (\<lambda>r. po_input_ids (sr_output r)) (br_runs run) = [[9, 9, 5, 7, 8], [9, 9, 5, 7, 8]]
       \<and> map (\<lambda>r. po_reward_score (sr_output r)) (br_runs run) = [Some 1, Some 1]"
  by code_simp

section \<open>Properties\<close>

text \<open>Rollouts of the same prompt share the teacher's context: whatever the order of the samples, the context
  that a sample is given is the one prepared from the first sample that has its \<open>uid\<close> (or its index, without
  one), and each of these contexts is prepared once.\<close>

theorem rollouts_share_teacher_context:
  assumes "sample_contexts lw validate index kwargss = Inr contexts"
    and "wk_distillation_enabled (lw_teacher lw)" and "wk_crop_enabled (lw_teacher lw)" and "length index = length kwargss"
  shows "\<exists>keys. rmap (\<lambda>(i, kwargs). normalize_teacher_crop_cache_key (lw_repr lw)
        (case map_of kwargs ''uid'' of None \<Rightarrow> i | Some uid \<Rightarrow> uid)) (zip index kwargss) = Inr keys
    \<and> contexts = map (\<lambda>key. maybe_start_teacher_crop_prepare_task (lw_teacher lw) validate (map_of (zip keys kwargss) key)) keys"
proof -
  obtain keys where keys: "rmap (\<lambda>(i, kwargs). normalize_teacher_crop_cache_key (lw_repr lw)
        (case map_of kwargs ''uid'' of None \<Rightarrow> i | Some uid \<Rightarrow> uid)) (zip index kwargss) = Inr keys"
    "contexts = shared_contexts (\<lambda>kwargs. maybe_start_teacher_crop_prepare_task (lw_teacher lw) validate (Some kwargs)) []
       (zip keys kwargss)"
    using assms(1-3) by (auto simp: sample_contexts_def res_simps)
  have len: "length keys = length kwargss"
    using rmap_length [OF keys(1)] assms(4) by simp
  have "\<exists>v. map_of (zip keys kwargss) (fst p) = Some v" if "p \<in> set (zip keys kwargss)" for p
    using that weak_map_of_SomeI [of "fst p" "snd p"] by simp
  then have "contexts = map (\<lambda>p. maybe_start_teacher_crop_prepare_task (lw_teacher lw) validate (map_of (zip keys kwargss) (fst p))) (zip keys kwargss)"
    unfolding keys(2) shared_contexts_from by (intro map_cong refl) force
  also have "\<dots> = map (\<lambda>key. maybe_start_teacher_crop_prepare_task (lw_teacher lw) validate (map_of (zip keys kwargss) key)) (map fst (zip keys kwargss))"
    by simp
  finally show ?thesis
    using keys(1) len by auto
qed

theorem rollouts_share_teacher_context_witness:
  "\<exists>context. sample_contexts demo_loop_worker False [MInt 0, MInt 1]
      [[(''uid'', MStr ''a''), (''teacher_raw_prompt'', MNone)], [(''uid'', MStr ''a'')]] = Inr [context, context]"
proof -
  let ?kwargss = "[[(''uid'', MStr ''a''), (''teacher_raw_prompt'', MNone)], [(''uid'', MStr ''a'')]] :: nat mobj pydict list"
  have on: "wk_distillation_enabled (lw_teacher demo_loop_worker)" "wk_crop_enabled (lw_teacher demo_loop_worker)"
    by (simp_all add: demo_loop_worker_def demo_worker_def)
  have keys: "rmap (\<lambda>(i, kwargs). normalize_teacher_crop_cache_key (lw_repr demo_loop_worker)
        (case map_of kwargs ''uid'' of None \<Rightarrow> i | Some uid \<Rightarrow> uid)) (zip [MInt 0, MInt 1] ?kwargss) = Inr [MStr ''a'', MStr ''a'']"
    by (simp add: normalize_teacher_crop_cache_key_def)
  obtain contexts where contexts: "sample_contexts demo_loop_worker False [MInt 0, MInt 1] ?kwargss = Inr contexts"
    using on keys by (simp add: sample_contexts_def)
  show ?thesis
    using rollouts_share_teacher_context [OF contexts on] contexts keys by simp
qed

text \<open>C12: The streaming of teacher values is transparent. For a training step that streams, the worker's samples
  come out as they do when the trainer asks the teacher, but for the requests, which go to the queue instead
  of the batch: the rewards, the padded sequences and the rest are the same, sample by sample. Whatever the
  interleaving of the consumers, what the stream has gathered is the batch of teacher values that the trainer
  would compute from the requests of its batch, or it fails when that computation fails.\<close>

theorem streaming_is_transparent:
  fixes lw :: "'img loop_worker"
  assumes "wf_dataproto dp" and "0 < dp_len dp" and "streams_in mode lw dp"
    and "teacher_logprob_streaming_concurrency (lw_teacher_concurrency lw) (dp_len dp) = Inr p"
    and "run_samples (streaming_as ''trainer'' lw) dp = Inr run"
  shows "\<exists>streamed requests. run_samples (streaming_as mode lw) dp = Inr streamed
    \<and> br_runs streamed = map queue_request (br_runs run)
    \<and> request_column (map sr_output (br_runs run)) = Some (map Some requests)
    \<and> map sr_teacher_item (br_runs streamed) = map Some requests
    \<and> request_column (map sr_output (br_runs streamed)) = None
    \<and> (\<forall>s outcome. pool_reachable (\<lambda>i. Inr (requests ! i)) (teacher_work mgr) (dp_len dp) p s \<longrightarrow> gathered s = Some outcome \<longrightarrow>
        (case compute_teacher_logprobs mgr (map Some requests) :: (cell, 'a) dataproto res of
           Inr values \<Rightarrow> finalize_teacher_logprob_stream outcome = Inr values
         | Inl e \<Rightarrow> (\<exists>e'. (finalize_teacher_logprob_stream outcome :: (cell, 'a) dataproto res) = Inl e')))"
proof -
  have on: "wk_distillation_enabled (lw_teacher lw)" "\<not> batch_validate (meta_info dp)"
    using assms(3) by (auto simp: streams_in_def)
  note runs = run_samples_requests [OF assms(1) on assms(5)]
  let ?streamed = "\<lparr>br_runs = map queue_request (br_runs run), br_teacher_mode = Some mode, br_reward_mode = br_reward_mode run\<rparr>"
  define requests where "requests = map (the \<circ> (po_teacher_request \<circ> sr_output)) (br_runs run)"
  have len: "length requests = dp_len dp" "requests \<noteq> []"
    using runs(1) assms(2) by (auto simp: requests_def)
  have some: "map (po_teacher_request \<circ> sr_output) (br_runs run) = map Some requests"
    unfolding requests_def by (rule all_some_map) (use runs(2) in simp)
  have "run_samples (streaming_as mode lw) dp = Inr ?streamed"
    by (simp add: run_samples_streamed [OF assms(3)] assms(5))
  moreover have "request_column (map sr_output (br_runs run)) = Some (map Some requests)"
  proof -
    have "br_runs run \<noteq> []"
      using runs(1) assms(2) by auto
    then show ?thesis
      using runs(2) some by (auto simp: request_column_def intro!: bexI [OF _ hd_in_set])
  qed
  moreover have "map sr_teacher_item (br_runs ?streamed) = map Some requests"
    using some by (simp add: queue_request_def comp_def)
  moreover have "request_column (map sr_output (br_runs ?streamed)) = None"
    by (auto simp: request_column_def queue_request_def)
  moreover have "case compute_teacher_logprobs mgr (map Some requests) :: (cell, 'a) dataproto res of
         Inr values \<Rightarrow> finalize_teacher_logprob_stream outcome = Inr values
       | Inl e \<Rightarrow> (\<exists>e'. (finalize_teacher_logprob_stream outcome :: (cell, 'a) dataproto res) = Inl e')"
    if "pool_reachable (\<lambda>i. Inr (requests ! i)) (teacher_work mgr) (dp_len dp) p s" "gathered s = Some outcome" for s outcome
    using stream_computes_batch [OF len(2)] assms(4) that len(1) by metis
  ultimately show ?thesis
    by (intro exI [of _ ?streamed] exI [of _ requests]) simp
qed

theorem streaming_is_transparent_witness:
  "\<exists>streamed requests s outcome. run_samples (streaming_as ''nonblocking'' demo_loop_worker) demo_batch = Inr streamed
    \<and> map sr_teacher_item (br_runs streamed) = map Some requests \<and> length requests = 2
    \<and> pool_reachable (\<lambda>i. Inr (requests ! i)) (teacher_work demo_manager) 2 1 s \<and> gathered s = Some outcome"
proof -
  obtain run where run: "run_samples (streaming_as ''trainer'' demo_loop_worker) demo_batch = Inr run" "length (br_runs run) = 2"
    using demo_runs by (auto split: sum.splits)
  from streaming_is_transparent [where mgr = demo_manager and ?'a = nat, OF demo_batch_wf(1) _ demo_streams run(1)] demo_batch_wf(2)
  obtain streamed requests where streamed: "run_samples (streaming_as ''nonblocking'' demo_loop_worker) demo_batch = Inr streamed"
    "map sr_teacher_item (br_runs streamed) = map Some requests" "br_runs streamed = map queue_request (br_runs run)"
    by auto
  then have "length requests = 2"
    using run(2) by (metis length_map)
  then show ?thesis
    using streamed gathered_run by metis
qed

text \<open>Blocking and streaming agree: the batch of a worker that has waited for its stream holds, under each of
  the teacher's names, exactly the column of the batch that the same stream resolves to later, and none where
  that has none.\<close>

theorem blocking_batch_has_streams_columns:
  assumes "br_teacher_mode run = Some ''blocking''"
    and "finish_batch lw dp run outcome reward_outcome teacher_id reward_id = Inr wb"
    and "finalize_teacher_logprob_stream outcome = (Inr values :: (cell, 'a) dataproto res)"
  shows "\<exists>td tv. batch (wb_batch wb) = Some td \<and> batch values = Some tv
    \<and> map (map_of (tensors td)) [''teacher_ids'', ''teacher_logprobs'', ''teacher_neg_ids'', ''teacher_neg_logprobs'']
      = map (map_of (tensors tv)) [''teacher_ids'', ''teacher_logprobs'', ''teacher_neg_ids'', ''teacher_neg_logprobs'']"
proof -
  obtain rs where rs: "outcome = Inr rs" "None \<notin> set rs" "teacher_batch (map the rs) = (Inr values :: (cell, 'a) dataproto res)"
    using assms(3) by (auto simp: finalize_teacher_logprob_stream_def all_results_def res_simps)
  define rows where "rows = map the rs"
  have rs_rows: "rs = map Some rows"
    using rs(2) unfolding rows_def by (induction rs) auto
  have rows: "batchable rows" "values = teacher_dataproto rows"
    using rs(3) teacher_batch_batchable teacher_batch_rows unfolding rows_def by fastforce+
  obtain o1 o2 where steps: "attach_streamed_teacher_logprob_results (map sr_output (br_runs run)) (map Some rows) = Inr o1"
    "(if br_reward_mode run = Some ''blocking'' then rbind reward_outcome (attach_streamed_validation_reward_results o1) else Inr o1) = Inr o2"
    "postprocess_padded (lw_pad lw) (lw_iter_set lw) o2
       (Some (with_agent_name (lw_default_agent_loop lw) (dp_len dp) (non_tensor_batch dp))) = Inr (wb_batch wb)"
    using assms(1,2) unfolding finish_batch_def rs(1) rs_rows by (auto simp: res_simps)
  have same: "length o2 = length o1" "map po_teacher_ids o2 = map po_teacher_ids o1" "map po_teacher_logprobs o2 = map po_teacher_logprobs o1"
    "map po_teacher_neg_ids o2 = map po_teacher_neg_ids o1" "map po_teacher_neg_logprobs o2 = map po_teacher_neg_logprobs o1"
    using steps(2) by (auto simp: res_simps dest: attached_rewards split: if_splits)
  note values1 = attached_values [OF steps(1)]
  have "o2 \<noteq> []"
    using same(1) values1(1) rows(1) by (auto simp: batchable_def)
  note columns = columns_of_values [OF rows(1) this same(2-5) [unfolded values1]]
  obtain td where "batch (wb_batch wb) = Some td"
    "map (map_of (tensors td)) [''teacher_ids'', ''teacher_logprobs'', ''teacher_neg_ids'', ''teacher_neg_logprobs'']
      = map (map_of (teacher_columns rows)) [''teacher_ids'', ''teacher_logprobs'', ''teacher_neg_ids'', ''teacher_neg_logprobs'']"
    using padded_teacher_columns [OF steps(3)] unfolding columns by auto
  then show ?thesis
    unfolding rows(2) by (simp add: teacher_dataproto_def)
qed

definition demo_outcome :: "(padded_pair \<times> padded_pair option) option list res" where
  "demo_outcome = Inr [Some (([[1], [2]], [[0], [0]]), None), Some (([[3], [4]], [[0], [0]]), None)]"

lemma demo_finished:
  "case run_samples (streaming_as ''blocking'' demo_loop_worker) demo_batch of
     Inl _ \<Rightarrow> False
   | Inr run \<Rightarrow> br_teacher_mode run = Some ''blocking''
       \<and> (case finish_batch demo_loop_worker demo_batch run demo_outcome (Inl ValueError) ''t'' ''r'' of Inl _ \<Rightarrow> False | Inr _ \<Rightarrow> True)"
  by code_simp

theorem blocking_batch_has_streams_columns_witness:
  "\<exists>run wb td. br_teacher_mode run = Some ''blocking''
    \<and> finish_batch demo_loop_worker demo_batch run demo_outcome (Inl ValueError) ''t'' ''r'' = Inr wb
    \<and> batch (wb_batch wb) = Some td
    \<and> map_of (tensors td) ''teacher_ids'' = Some [IntRows [[1], [2]], IntRows [[3], [4]]]
    \<and> map_of (tensors td) ''teacher_neg_ids'' = None"
proof -
  obtain run wb where run: "br_teacher_mode run = Some ''blocking''"
    "finish_batch demo_loop_worker demo_batch run demo_outcome (Inl ValueError) ''t'' ''r'' = Inr wb"
    using demo_finished by (auto split: sum.splits)
  have "finalize_teacher_logprob_stream demo_outcome = (Inr \<lparr>batch = Some \<lparr>batch_size = 2,
      tensors = [(''teacher_ids'', [IntRows [[1], [2]], IntRows [[3], [4]]]), (''teacher_logprobs'', [RealRows [[0], [0]], RealRows [[0], [0]]])]\<rparr>,
      non_tensor_batch = [], meta_info = []\<rparr> :: (cell, nat) dataproto res)"
    by (simp add: finalize_teacher_logprob_stream_def demo_outcome_def all_results_def teacher_batch_def cat_columns_def row_width_def
        tensordict_new_def dataproto_new_def check_consistency_def)
  from blocking_batch_has_streams_columns [OF run this] run show ?thesis
    by auto
qed

end
