(* ===== verification/ChatTemplate.thy ===== *)
theory ChatTemplate
  imports AgentWorker PyString
begin

text \<open>
  What every agent loop shares: chat templates with their fall-back and the system prompt
  (\<open>verl/utils/chat_template.py\<close>), the normalisation of token ids (\<open>verl/utils/tokenizer.py\<close>), and
  \<open>AgentLoopBase\<close> of \<open>verl/experimental/agent_loop/agent_loop.py\<close>. The tokenizer's and the processor's own
  templates, the inputs that a multi-modal processor computes and the dataset's extraction of images, videos
  and audios from messages are parameters.
\<close>

section \<open>Slices and integers\<close>

text \<open>\<open>xs[:n]\<close> and \<open>xs[n:]\<close>: a negative bound counts from the end.\<close>

definition slice_to :: "int \<Rightarrow> 'a list \<Rightarrow> 'a list" where
  "slice_to n xs = take (nat (if n < 0 then int (length xs) + n else n)) xs"

definition slice_from :: "int \<Rightarrow> 'a list \<Rightarrow> 'a list" where
  "slice_from n xs = drop (nat (if n < 0 then int (length xs) + n else n)) xs"

lemma slice_to_nat [simp]: "slice_to (int n) xs = take n xs"
  by (simp add: slice_to_def)

lemma slice_from_nat [simp]: "slice_from (int n) xs = drop n xs"
  by (simp add: slice_from_def)

lemma slice_from_neg: "0 < n \<Longrightarrow> slice_from (- int n) xs = drop (length xs - n) xs"
proof -
  have "nat (int (length xs) + - int n) = length xs - n" by linarith
  then show "0 < n \<Longrightarrow> slice_from (- int n) xs = drop (length xs - n) xs" by (simp add: slice_from_def)
qed

lemma slice_from_neg_zero: "slice_from (- int 0) xs = xs"
  by (simp add: slice_from_def)

lemma slice_to_neg: "0 < n \<Longrightarrow> slice_to (- int n) xs = take (length xs - n) xs"
proof -
  have "nat (int (length xs) + - int n) = length xs - n" by linarith
  then show "0 < n \<Longrightarrow> slice_to (- int n) xs = take (length xs - n) xs" by (simp add: slice_to_def)
qed

text \<open>\<open>int\<close> of a string and of a value.\<close>

definition py_int :: "string \<Rightarrow> int option" where
  "py_int s =
     (let (sign, t) = read_sign (strip s); (v, n, rest) = read_digits 0 0 t in
      if n = 0 \<or> rest \<noteq> [] then None else Some (if sign < 0 then - int v else int v))"

definition truncate_real :: "real \<Rightarrow> int" where
  "truncate_real x = (if 0 \<le> x then \<lfloor>x\<rfloor> else \<lceil>x\<rceil>)"

fun mobj_item :: "'img mobj \<Rightarrow> 'img mobj" where
  "mobj_item (MScalar v) = v"
| "mobj_item v = v"

fun token_int :: "'img mobj \<Rightarrow> int option" where
  "token_int (MInt i) = Some i"
| "token_int (MBool b) = Some (of_bool b)"
| "token_int (MFloat x) = Some (truncate_real x)"
| "token_int (MStr s) = py_int s"
| "token_int (MBytes bs) = py_int (map (\<lambda>b. char_of (nat b)) bs)"
| "token_int _ = None"

fun py_tolist :: "'img mobj \<Rightarrow> 'img mobj" where
  "py_tolist (MArray xs) = MList (map py_tolist xs)"
| "py_tolist (MScalar v) = v"
| "py_tolist v = v"

definition normalize_token_ids :: "'img mobj \<Rightarrow> int list res" where
  "normalize_token_ids tokenized_output =
     (let given = (case tokenized_output of
                     MDict d \<Rightarrow> (case map_of d ''input_ids'' of Some v \<Rightarrow> v | None \<Rightarrow> tokenized_output)
                   | _ \<Rightarrow> tokenized_output);
          ids = py_tolist given;
          flat = (case ids of MList [MList row] \<Rightarrow> MList row | _ \<Rightarrow> ids) in
      case flat of
        MList xs \<Rightarrow> rmap (\<lambda>v. case token_int (mobj_item v) of Some i \<Rightarrow> Inr i | None \<Rightarrow> Inl TypeError) xs
      | _ \<Rightarrow> Inl TypeError)"

section \<open>Templates\<close>

text \<open>A template renders messages, with or without the prompt for a generation, for some tool schemas: to a
  string, or to tokens, which are a list, a list of one list, or an array.\<close>

type_synonym ('img, 'a) chat_renderer = "'img mobj list \<Rightarrow> bool \<Rightarrow> 'img mobj list option \<Rightarrow> 'a res"

definition dummy_user_message :: "'img mobj" where
  "dummy_user_message =
     MDict [(''role'', MStr ''user''), (''content'', MList [MDict [(''type'', MStr ''text''), (''text'', MStr [])]])]"

definition template_string :: "('img, string) chat_renderer \<Rightarrow> ('img, string) chat_renderer" where
  "template_string render messages generation tools =
     (case render messages generation tools of
        Inr s \<Rightarrow> Inr s
      | Inl _ \<Rightarrow>
          rbind (render [dummy_user_message] False tools) (\<lambda>prefix.
          rbind (render (dummy_user_message # messages) generation tools) (\<lambda>output.
          Inr (drop (length prefix) output))))"

fun mobj_length :: "'img mobj \<Rightarrow> nat res" where
  "mobj_length (MList xs) = Inr (length xs)"
| "mobj_length (MArray xs) = Inr (length xs)"
| "mobj_length _ = Inl TypeError"

fun mobj_first :: "'img mobj \<Rightarrow> 'img mobj res" where
  "mobj_first (MList []) = Inl IndexError"
| "mobj_first (MArray []) = Inl IndexError"
| "mobj_first (MList (x # _)) = Inr x"
| "mobj_first (MArray (x # _)) = Inr x"
| "mobj_first (MDict _) = Inl KeyError"
| "mobj_first _ = Inl TypeError"

fun mobj_drop :: "nat \<Rightarrow> 'img mobj \<Rightarrow> 'img mobj" where
  "mobj_drop n (MList xs) = MList (drop n xs)"
| "mobj_drop n (MArray xs) = MArray (drop n xs)"
| "mobj_drop n v = v"

definition without_prefix :: "'img mobj \<Rightarrow> 'img mobj \<Rightarrow> 'img mobj res" where
  "without_prefix prefix output =
     rbind (mobj_first output) (\<lambda>first.
     case first of
       MList row \<Rightarrow>
         rbind (mobj_length output) (\<lambda>n.
         rbind (rassert (n = 1)) (\<lambda>_.
         rbind (mobj_first prefix) (\<lambda>prefix_row.
         rbind (mobj_length prefix_row) (\<lambda>k. Inr (MList (drop k row))))))
     | _ \<Rightarrow> rbind (mobj_length prefix) (\<lambda>k. Inr (mobj_drop k output)))"

definition template_tokens :: "('img, 'img mobj) chat_renderer \<Rightarrow> ('img, 'img mobj) chat_renderer" where
  "template_tokens render messages generation tools =
     (case render messages generation tools of
        Inr v \<Rightarrow> Inr v
      | Inl _ \<Rightarrow>
          rbind (render [dummy_user_message] False tools) (\<lambda>prefix.
          rbind (render (dummy_user_message # messages) generation tools) (\<lambda>output. without_prefix prefix output)))"

section \<open>The system prompt\<close>

definition empty_user_message :: "'img mobj" where
  "empty_user_message = MDict [(''role'', MStr ''user''), (''content'', MStr [])]"

definition initialize_system_prompt :: "('img, 'img mobj) chat_renderer \<Rightarrow> int list res" where
  "initialize_system_prompt render =
     rbind (rbind (render [empty_user_message] False None) normalize_token_ids) (\<lambda>token1.
     rbind (rbind (render [empty_user_message, empty_user_message] False None) normalize_token_ids) (\<lambda>token2.
     Inr (slice_to (- (int (length token2) - int (length token1))) token1)))"

definition extract_system_prompt_and_generation :: "('img, 'img mobj) chat_renderer \<Rightarrow> (int list \<times> int list) res" where
  "extract_system_prompt_and_generation render =
     rbind (rbind (render [empty_user_message] False None) normalize_token_ids) (\<lambda>token1.
     rbind (rbind (render [empty_user_message, empty_user_message] False None) normalize_token_ids) (\<lambda>token2.
     rbind (rbind (render [empty_user_message] True None) normalize_token_ids) (\<lambda>token3.
     Inr (slice_to (- (int (length token2) - int (length token1))) token1, drop (length token1) token3))))"

section \<open>The base of agent loops\<close>

text \<open>A processor: its template as a string and as tokens, the input ids of a rendered prompt with images,
  videos, audios and keyword arguments, whether it has an image processor, and its sampling rate.\<close>

record 'img processor_ops =
  pr_render :: "('img, string) chat_renderer"
  pr_tokens :: "('img, 'img mobj) chat_renderer"
  pr_input_ids :: "string \<Rightarrow> 'img mobj option \<Rightarrow> 'img mobj option \<Rightarrow> 'img mobj option \<Rightarrow> 'img mobj pydict \<Rightarrow> 'img mobj res"
  pr_has_image_processor :: bool
  pr_sampling_rate :: "int option"

record 'img agent_base =
  ab_tokens :: "('img, 'img mobj) chat_renderer"
  ab_processor :: "'img processor_ops option"
  ab_extract :: "'img mobj list \<Rightarrow> ('img mobj option \<times> 'img mobj option \<times> 'img mobj option) res"
  ab_mm_processor_kwargs :: "'img mobj pydict"
  ab_system_prompt :: "int list"

definition agent_base_new ::
    "('img, 'img mobj) chat_renderer \<Rightarrow> 'img processor_ops option
     \<Rightarrow> ('img mobj list \<Rightarrow> ('img mobj option \<times> 'img mobj option \<times> 'img mobj option) res)
     \<Rightarrow> 'img mobj pydict \<Rightarrow> 'img agent_base res" where
  "agent_base_new tokens processor extract kwargs =
     rbind (initialize_system_prompt (case processor of Some p \<Rightarrow> pr_tokens p | None \<Rightarrow> tokens)) (\<lambda>system_prompt.
     Inr \<lparr>ab_tokens = tokens, ab_processor = processor, ab_extract = extract, ab_mm_processor_kwargs = kwargs,
          ab_system_prompt = system_prompt\<rparr>)"

definition loop_mm_processor_kwargs :: "'img agent_base \<Rightarrow> 'img mobj option \<Rightarrow> 'img mobj pydict" where
  "loop_mm_processor_kwargs ab audio_data =
     (let kwargs = ab_mm_processor_kwargs ab in
      if audio_data \<noteq> None \<and> \<not> has_key kwargs ''sampling_rate''
      then (case Option.bind (ab_processor ab) pr_sampling_rate of
              Some rate \<Rightarrow> dict_set kwargs ''sampling_rate'' (MInt rate)
            | None \<Rightarrow> kwargs)
      else kwargs)"

text \<open>Images, videos and audios; the dictionary of the code has the entries that are there.\<close>

type_synonym 'img mm_data = "'img mobj option \<times> 'img mobj option \<times> 'img mobj option"

definition process_multi_modal_info :: "'img agent_base \<Rightarrow> 'img mobj list \<Rightarrow> 'img mobj pydict res" where
  "process_multi_modal_info ab messages =
     (case ab_processor ab of
        None \<Rightarrow> Inr []
      | Some _ \<Rightarrow>
          rbind (ab_extract ab messages) (\<lambda>(images, videos, audios).
          Inr (optional_entry ''images'' images @ optional_entry ''videos'' videos @ optional_entry ''audios'' audios)))"

definition apply_chat_template ::
    "'img agent_base \<Rightarrow> 'img mobj list \<Rightarrow> 'img mobj list option \<Rightarrow> 'img mm_data \<Rightarrow> 'img mobj pydict option \<Rightarrow> bool \<Rightarrow> int list res" where
  "apply_chat_template ab messages tools data kwargs remove_system_prompt =
     (case data of (images, videos, audios) \<Rightarrow>
      rbind (case ab_processor ab of
               Some p \<Rightarrow>
                 rbind (template_string (pr_render p) messages True tools) (\<lambda>raw_prompt.
                 rbind (pr_input_ids p raw_prompt images videos audios
                          (case kwargs of Some d \<Rightarrow> d | None \<Rightarrow> loop_mm_processor_kwargs ab audios)) normalize_token_ids)
             | None \<Rightarrow> rbind (template_tokens (ab_tokens ab) messages True tools) normalize_token_ids) (\<lambda>prompt_ids.
      Inr (if remove_system_prompt then drop (length (ab_system_prompt ab)) prompt_ids else prompt_ids)))"

end
