(* ===== verification/ToolParse.thy ===== *)
theory ToolParse
  imports ChatTemplate
begin

text \<open>
  The tool parsers of \<open>verl/experimental/agent_loop/tool_parser.py\<close>, which find the calls in a generated
  text. The regular expressions are written out as searches: every \<open>.*?\<close> stops at the first place where the
  rest of the pattern matches. The tokenizer's decoding, \<open>json\<close>, \<open>str\<close> and \<open>eval\<close> are parameters.
\<close>

section \<open>Searching strings\<close>

text \<open>What stands before and after the first occurrence of a pattern.\<close>

fun break_on :: "string \<Rightarrow> string \<Rightarrow> (string \<times> string) option" where
  "break_on pat [] = (if pat = [] then Some ([], []) else None)"
| "break_on pat (c # cs) =
     (if starts_with pat (c # cs) then Some ([], drop (length pat) (c # cs))
      else map_option (\<lambda>(before, after). (c # before, after)) (break_on pat cs))"

definition occurs_in :: "string \<Rightarrow> string \<Rightarrow> bool" where
  "occurs_in pat s \<longleftrightarrow> break_on pat s \<noteq> None"

lemma break_on_Some: "break_on pat s = Some (before, after) \<Longrightarrow> s = before @ pat @ after"
proof (induction s arbitrary: before)
  case (Cons c cs)
  then show ?case by (auto simp: starts_with_def split: if_splits) (metis append_take_drop_id)
qed (auto split: if_splits)

text \<open>\<open>findall\<close> of \<open>start(.*?)stop\<close>, and the text without these matches. The start is not empty.\<close>

function (sequential) find_between :: "string \<Rightarrow> string \<Rightarrow> string \<Rightarrow> string list" where
  "find_between start stop s =
     (if start = [] then []
      else case break_on start s of
        None \<Rightarrow> []
      | Some (_, rest) \<Rightarrow>
          (case break_on stop rest of
             None \<Rightarrow> []
           | Some (body, after) \<Rightarrow> body # find_between start stop after))"
  by pat_completeness auto
termination
  by (relation "measure (\<lambda>(_, _, s). length s)") (auto dest!: break_on_Some)

declare find_between.simps [simp del]

function (sequential) remove_between :: "string \<Rightarrow> string \<Rightarrow> string \<Rightarrow> string" where
  "remove_between start stop s =
     (if start = [] then s
      else case break_on start s of
        None \<Rightarrow> s
      | Some (before, rest) \<Rightarrow>
          (case break_on stop rest of
             None \<Rightarrow> s
           | Some (_, after) \<Rightarrow> before @ remove_between start stop after))"
  by pat_completeness auto
termination
  by (relation "measure (\<lambda>(_, _, s). length s)") (auto dest!: break_on_Some)

declare remove_between.simps [simp del]

text \<open>\<open>findall\<close> of \<open>start(.*?)stop|start(.*)$\<close>: a last start without a stop matches up to the end, which a lazy
  group sees before a final newline.\<close>

definition newline :: char where
  "newline = CHR 0x0A"

definition before_newline :: "string \<Rightarrow> string" where
  "before_newline s = (if s \<noteq> [] \<and> last s = newline then butlast s else s)"

function (sequential) find_open :: "bool \<Rightarrow> string \<Rightarrow> string \<Rightarrow> string \<Rightarrow> string list" where
  "find_open lazy start stop s =
     (if start = [] then []
      else case break_on start s of
        None \<Rightarrow> []
      | Some (_, rest) \<Rightarrow>
          (case break_on stop rest of
             None \<Rightarrow> [if lazy then before_newline rest else rest]
           | Some (body, after) \<Rightarrow> body # find_open lazy start stop after))"
  by pat_completeness auto
termination
  by (relation "measure (\<lambda>(_, _, _, s). length s)") (auto dest!: break_on_Some)

declare find_open.simps [simp del]

text \<open>\<open>s.replace(old, '')\<close>.\<close>

function (sequential) remove_all :: "string \<Rightarrow> string \<Rightarrow> string" where
  "remove_all old s =
     (if old = [] then s
      else case break_on old s of None \<Rightarrow> s | Some (before, after) \<Rightarrow> before @ remove_all old after)"
  by pat_completeness auto
termination
  by (relation "measure (\<lambda>(_, s). length s)") (auto dest!: break_on_Some)

declare remove_all.simps [simp del]

definition lower_char :: "char \<Rightarrow> char" where
  "lower_char c = (let n = of_char c :: nat in if (65 \<le> n \<and> n \<le> 90) \<or> (192 \<le> n \<and> n \<le> 222 \<and> n \<noteq> 215) then char_of (n + 32) else c)"

definition lower_string :: "string \<Rightarrow> string" where
  "lower_string s = map lower_char s"

section \<open>Calls and schemas\<close>

record function_call =
  fc_name :: string
  fc_arguments :: string

text \<open>A tool's schema: its type, the function's name, its parameters (each a dictionary), and the dump for the
  chat template.\<close>

record 'img tool_schema =
  ts_type :: string
  ts_name :: string
  ts_properties :: "'img mobj pydict pydict"
  ts_dump :: "'img mobj"

text \<open>\<open>json.loads\<close> (a failure with its text), \<open>json.dumps\<close>, \<open>str\<close>, and \<open>eval\<close> of a literal.\<close>

record 'img py_texts =
  py_loads :: "string \<Rightarrow> string + 'img mobj"
  py_dumps :: "'img mobj \<Rightarrow> string res"
  py_str :: "'img mobj \<Rightarrow> string"
  py_eval :: "string \<Rightarrow> 'img mobj res"

section \<open>Hermes\<close>

definition call_start :: string where
  "call_start = ''<tool_call>''"

definition call_stop :: string where
  "call_stop = ''</tool_call>''"

text \<open>What is not a JSON object with a name and arguments is skipped, as is a name that is no string.\<close>

definition hermes_call :: "'img py_texts \<Rightarrow> string \<Rightarrow> function_call option" where
  "hermes_call py body =
     (case py_loads py body of
        Inr (MDict d) \<Rightarrow>
          (case (map_of d ''name'', map_of d ''arguments'') of
             (Some (MStr name), Some arguments) \<Rightarrow>
               (case py_dumps py arguments of
                  Inr s \<Rightarrow> Some \<lparr>fc_name = name, fc_arguments = s\<rparr>
                | Inl _ \<Rightarrow> None)
           | _ \<Rightarrow> None)
      | _ \<Rightarrow> None)"

definition hermes_extract :: "'img py_texts \<Rightarrow> string \<Rightarrow> string \<times> function_call list" where
  "hermes_extract py txt =
     (if \<not> occurs_in call_start txt \<or> \<not> occurs_in call_stop txt then (txt, [])
      else (remove_between call_start call_stop txt,
            List.map_filter (hermes_call py) (find_between call_start call_stop txt)))"

section \<open>gpt-oss\<close>

definition is_open_angle :: "char \<Rightarrow> bool" where
  "is_open_angle c \<longleftrightarrow> c = CHR ''<''"

text \<open>The last place where a pattern occurs and something follows it.\<close>

fun break_last :: "string \<Rightarrow> string \<Rightarrow> string option" where
  "break_last pat [] = None"
| "break_last pat (c # cs) =
     (case break_last pat cs of
        Some after \<Rightarrow> Some after
      | None \<Rightarrow> if starts_with pat (c # cs) \<and> drop (length pat) (c # cs) \<noteq> [] then Some (drop (length pat) (c # cs)) else None)"

definition oss_tag :: string where
  "oss_tag = ''<|start|>assistant<|channel|>''"

definition oss_mark :: string where
  "oss_mark = ''<|constrain|>json<|message|>''"

text \<open>The pattern of a call, at the beginning of a text: \<open>[^<]* to=functions.([^<]+)\<close> followed by a blank fills what
  stands before the next angle, so it ends in the blank.\<close>

definition oss_call_at :: "string \<Rightarrow> (function_call \<times> string) option" where
  "oss_call_at s =
     (if \<not> starts_with oss_tag s then None
      else (let header = takeWhile (\<lambda>c. \<not> is_open_angle c) (drop (length oss_tag) s);
                rest = dropWhile (\<lambda>c. \<not> is_open_angle c) (drop (length oss_tag) s) in
            if header = [] \<or> last header \<noteq> CHR '' '' \<or> \<not> starts_with oss_mark rest then None
            else (case (break_last '' to=functions.'' (butlast header), break_on ''<|call|>'' (drop (length oss_mark) rest)) of
                    (Some name, Some (arguments, after)) \<Rightarrow> Some (\<lparr>fc_name = name, fc_arguments = arguments\<rparr>, after)
                  | _ \<Rightarrow> None)))"

lemma length_dropWhile_drop: "length (dropWhile P (drop n s)) \<le> length s"
  using length_dropWhile_le [of P "drop n s"] by simp

lemma oss_call_at_shorter:
  assumes "oss_call_at s = Some (c, after)"
  shows "length after < length s"
proof -
  let ?rest = "dropWhile (\<lambda>c. \<not> is_open_angle c) (drop (length oss_tag) s)"
  obtain arguments where "break_on ''<|call|>'' (drop (length oss_mark) ?rest) = Some (arguments, after)"
    using assms by (auto simp: oss_call_at_def Let_def split: if_splits option.splits)
  then have "drop (length oss_mark) ?rest = arguments @ ''<|call|>'' @ after"
    by (rule break_on_Some)
  then have "length (drop (length oss_mark) ?rest) = length (arguments @ ''<|call|>'' @ after)"
    by (rule arg_cong)
  moreover have "length ?rest \<le> length s" by (rule length_dropWhile_drop)
  ultimately show ?thesis unfolding length_append length_drop by simp
qed

function oss_calls :: "string \<Rightarrow> function_call list \<times> string" where
  "oss_calls [] = ([], [])"
| "oss_calls (c # cs) =
     (case oss_call_at (c # cs) of
        Some (call, after) \<Rightarrow> (let (calls, content) = oss_calls after in (call # calls, content))
      | None \<Rightarrow> (let (calls, content) = oss_calls cs in (calls, c # content)))"
  by pat_completeness auto
termination
  by (relation "measure length") (auto dest: oss_call_at_shorter)

text \<open>The padding token and the reasoning are taken out first. Without a match the text stays as it is then.\<close>

definition oss_extract :: "string \<Rightarrow> string \<Rightarrow> string \<times> function_call list" where
  "oss_extract pad txt =
     (let txt1 = remove_all pad txt;
          txt2 = remove_between ''<|start|>assistant<|channel|>analysis<|message|>'' ''<|end|>'' txt1;
          txt3 = remove_between ''<|channel|>analysis<|message|>'' ''<|end|>'' txt2;
          (calls, content) = oss_calls txt3 in
      if calls = [] then (txt3, []) else (content, calls))"

section \<open>Qwen3 coder\<close>

fun arguments_config :: "'img tool_schema list \<Rightarrow> string \<Rightarrow> 'img mobj pydict pydict" where
  "arguments_config [] func_name = []"
| "arguments_config (ts # tss) func_name =
     (if ts_type ts = ''function'' \<and> ts_name ts = func_name then ts_properties ts else arguments_config tss func_name)"

definition param_type :: "'img py_texts \<Rightarrow> 'img mobj pydict \<Rightarrow> string" where
  "param_type py cfg =
     (case map_of cfg ''type'' of
        Some v \<Rightarrow> lower_string (strip (case v of MStr s \<Rightarrow> s | _ \<Rightarrow> py_str py v))
      | None \<Rightarrow> ''string'')"

definition float_or_int :: "real \<Rightarrow> 'img mobj" where
  "float_or_int x = (if x - of_int (truncate_real x) \<noteq> 0 then MFloat x else MInt (truncate_real x))"

definition eval_or_string :: "'img py_texts \<Rightarrow> string \<Rightarrow> 'img mobj" where
  "eval_or_string py s = (case py_eval py s of Inr v \<Rightarrow> v | Inl _ \<Rightarrow> MStr s)"

definition convert_param_value :: "'img py_texts \<Rightarrow> string \<Rightarrow> string \<Rightarrow> 'img mobj pydict pydict \<Rightarrow> 'img mobj" where
  "convert_param_value py param_value param_name param_config =
     (if lower_string param_value = ''null'' then MNone
      else case map_of param_config param_name of
        None \<Rightarrow> MStr param_value
      | Some cfg \<Rightarrow>
          (let ty = param_type py cfg in
           if ty \<in> {''string'', ''str'', ''text'', ''varchar'', ''char'', ''enum''} then MStr param_value
           else if list_ex (\<lambda>p. starts_with p ty) [''int'', ''uint'', ''long'', ''short'', ''unsigned'']
           then (case py_int param_value of Some i \<Rightarrow> MInt i | None \<Rightarrow> MStr param_value)
           else if starts_with ''num'' ty \<or> starts_with ''float'' ty
           then (case py_float param_value of Some x \<Rightarrow> float_or_int x | None \<Rightarrow> MStr param_value)
           else if ty \<in> {''boolean'', ''bool'', ''binary''} then MBool (lower_string param_value = ''true'')
           else if ty = ''object'' \<or> starts_with ''dict'' ty
           then (case py_loads py param_value of Inr v \<Rightarrow> v | Inl _ \<Rightarrow> eval_or_string py param_value)
           else eval_or_string py param_value))"

text \<open>One leading and one trailing newline of a value are taken away.\<close>

definition trim_value :: "string \<Rightarrow> string" where
  "trim_value s =
     (let t = (case s of [] \<Rightarrow> [] | c # cs \<Rightarrow> if c = newline then cs else s) in
      if t \<noteq> [] \<and> last t = newline then butlast t else t)"

definition parse_parameter :: "'img py_texts \<Rightarrow> 'img mobj pydict pydict \<Rightarrow> string \<Rightarrow> (string \<times> 'img mobj) res" where
  "parse_parameter py param_config match_text =
     (case break_on ''>'' match_text of
        None \<Rightarrow> Inl ValueError
      | Some (param_name, rest) \<Rightarrow>
          Inr (param_name, convert_param_value py (trim_value rest) param_name param_config))"

definition parse_xml_function_call :: "'img py_texts \<Rightarrow> 'img tool_schema list \<Rightarrow> string \<Rightarrow> function_call res" where
  "parse_xml_function_call py tools function_call_str =
     (case break_on ''>'' function_call_str of
        None \<Rightarrow> Inl ValueError
      | Some (function_name, parameters) \<Rightarrow>
          rbind (rmap (parse_parameter py (arguments_config tools function_name))
                   (find_open True ''<parameter='' ''</parameter>'' parameters)) (\<lambda>params.
          rbind (py_dumps py (MDict (dict_update [] params))) (\<lambda>arguments.
          Inr \<lparr>fc_name = function_name, fc_arguments = arguments\<rparr>)))"

definition get_function_calls :: "string \<Rightarrow> string list" where
  "get_function_calls model_output =
     (let raw = find_open True call_start call_stop model_output;
          raw_tool_calls = (if raw = [] then [model_output] else raw) in
      concat (map (find_open False ''<function='' ''</function>'') raw_tool_calls))"

text \<open>Any exception gives the text without calls.\<close>

definition qwen3_extract :: "'img py_texts \<Rightarrow> 'img tool_schema list \<Rightarrow> string \<Rightarrow> string \<times> function_call list" where
  "qwen3_extract py tools txt =
     (case break_on call_start txt of
        None \<Rightarrow> (txt, [])
      | Some (content, _) \<Rightarrow>
          (let function_calls = get_function_calls txt in
           if function_calls = [] then (txt, [])
           else (case rmap (parse_xml_function_call py tools) function_calls of
                   Inl _ \<Rightarrow> (txt, [])
                 | Inr calls \<Rightarrow> (content, calls))))"

section \<open>The registry of parsers\<close>

text \<open>The tokenizer's decoding, as it is by default and (\<open>True\<close>) with special tokens kept; its padding token, which
  may be missing.\<close>

record 'img decoder =
  dc_decode :: "bool \<Rightarrow> int list \<Rightarrow> string"
  dc_pad_token :: "string option"
  dc_texts :: "'img py_texts"

type_synonym 'img tool_parser = "int list \<Rightarrow> 'img tool_schema list \<Rightarrow> (string \<times> function_call list) res"

definition hermes_parser :: "'img decoder \<Rightarrow> 'img tool_parser" where
  "hermes_parser dc ids tools = Inr (hermes_extract (dc_texts dc) (dc_decode dc False ids))"

definition oss_parser :: "'img decoder \<Rightarrow> 'img tool_parser" where
  "oss_parser dc ids tools =
     (case dc_pad_token dc of
        None \<Rightarrow> Inl TypeError
      | Some pad \<Rightarrow> Inr (oss_extract pad (dc_decode dc True ids)))"

definition qwen3_parser :: "'img decoder \<Rightarrow> 'img tool_parser" where
  "qwen3_parser dc ids tools = Inr (qwen3_extract (dc_texts dc) tools (dc_decode dc False ids))"

definition get_tool_parser :: "('img decoder \<Rightarrow> 'img tool_parser) pydict \<Rightarrow> 'img decoder \<Rightarrow> string \<Rightarrow> 'img tool_parser res" where
  "get_tool_parser registered dc name =
     (case map_of (dict_update [(''hermes'', hermes_parser), (''gpt-oss'', oss_parser), (''qwen3_coder'', qwen3_parser)] registered) name of
        None \<Rightarrow> Inl ValueError
      | Some p \<Rightarrow> Inr (p dc))"

end
