(* ===== verification/ToolLoop.thy ===== *)
theory ToolLoop
  imports ToolParse
begin

text \<open>
  The agent loop with tools of \<open>verl/experimental/agent_loop/tool_agent_loop.py\<close>, the single-turn loop of
  \<open>single_turn_agent_loop.py\<close> beside it, and what tools return (\<open>verl/tools/function_tool.py\<close>,
  \<open>verl/tools/schemas.py\<close>). The world \<open>'w\<close> is the state of everything outside the loop: the generation server,
  which is a parameter, and the tools, which are values of the model that change it. The calls that one turn
  gathers run in their order. Timings, traces and log messages are left out.
\<close>

section \<open>Actions\<close>

text \<open>A fallible operation on a state. An exception keeps the state that it was raised in.\<close>

type_synonym ('s, 'a) action = "'s \<Rightarrow> 'a res \<times> 's"

definition act_bind :: "('s, 'a) action \<Rightarrow> ('a \<Rightarrow> ('s, 'b) action) \<Rightarrow> ('s, 'b) action" where
  "act_bind m f s = (case m s of (Inl e, s1) \<Rightarrow> (Inl e, s1) | (Inr x, s1) \<Rightarrow> f x s1)"

definition act_res :: "'a res \<Rightarrow> ('s, 'a) action" where
  "act_res r s = (r, s)"

lemma act_bind_Inr: "m s = (Inr x, s1) \<Longrightarrow> act_bind m f s = f x s1"
  by (simp add: act_bind_def)

lemma act_bind_Inl: "m s = (Inl e, s1) \<Longrightarrow> act_bind m f s = (Inl e, s1)"
  by (simp add: act_bind_def)

lemma act_bind_eq_Inr: "act_bind m f s = (Inr y, t) \<longleftrightarrow> (\<exists>x s1. m s = (Inr x, s1) \<and> f x s1 = (Inr y, t))"
  by (auto simp: act_bind_def split: prod.splits sum.splits)

lemma act_res_eq_Inr: "act_res r s = (Inr y, t) \<longleftrightarrow> r = Inr y \<and> t = s"
  by (auto simp: act_res_def)

lemma act_res_Inr [simp]: "act_bind (act_res (Inr x)) f = f x"
  by (simp add: act_bind_def act_res_def fun_eq_iff)

section \<open>What tools return\<close>

record 'img tool_response =
  tr_text :: "string option"
  tr_image :: "'img mobj list option"
  tr_video :: "'img mobj list option"

definition text_response :: "string \<Rightarrow> 'img tool_response" where
  "text_response s = \<lparr>tr_text = Some s, tr_image = None, tr_video = None\<rparr>"

text \<open>What a Python function returns: a \<open>ToolResponse\<close>, a tuple, or any other value.\<close>

datatype 'img tool_value =
    ResponseValue "'img tool_response"
  | TupleValue "'img tool_value list"
  | PlainValue "'img mobj"

text \<open>\<open>str\<close> of a value beside the texts of the parsers, and the text of an exception in a world.\<close>

record ('img, 'w) loop_texts =
  lt_texts :: "'img py_texts"
  lt_str :: "'img tool_value \<Rightarrow> string"
  lt_error :: "'w \<Rightarrow> pyerr \<Rightarrow> string"

definition coerce_response :: "('img, 'w) loop_texts \<Rightarrow> 'img tool_value \<Rightarrow> 'img tool_response res" where
  "coerce_response lt v =
     (case v of
        ResponseValue r \<Rightarrow> Inr r
      | PlainValue (MStr s) \<Rightarrow> Inr (text_response s)
      | PlainValue (MDict d) \<Rightarrow> rbind (py_dumps (lt_texts lt) (MDict d)) (\<lambda>s. Inr (text_response s))
      | _ \<Rightarrow> Inr (text_response (lt_str lt v)))"

text \<open>\<open>float(v)\<close> and \<open>dict(v)\<close>; the keys of a dictionary are strings here.\<close>

fun mobj_float :: "'img mobj \<Rightarrow> real res" where
  "mobj_float (MInt i) = Inr (of_int i)"
| "mobj_float (MBool b) = Inr (of_bool b)"
| "mobj_float (MFloat x) = Inr x"
| "mobj_float (MStr s) = (case py_float s of Some x \<Rightarrow> Inr x | None \<Rightarrow> Inl ValueError)"
| "mobj_float (MScalar v) = mobj_float v"
| "mobj_float _ = Inl TypeError"

fun value_float :: "'img tool_value \<Rightarrow> real res" where
  "value_float (PlainValue v) = mobj_float v"
| "value_float _ = Inl TypeError"

definition pair_item :: "'img tool_value list \<Rightarrow> (string \<times> 'img tool_value) res" where
  "pair_item xs = (case xs of [PlainValue (MStr k), v] \<Rightarrow> Inr (k, v) | [_, _] \<Rightarrow> Inl TypeError | _ \<Rightarrow> Inl ValueError)"

fun value_items :: "'img tool_value \<Rightarrow> 'img tool_value list res" where
  "value_items (PlainValue v) = rbind (as_list v) (\<lambda>xs. Inr (map PlainValue xs))"
| "value_items (TupleValue vs) = Inr vs"
| "value_items (ResponseValue r) =
     (let part = (\<lambda>k v. TupleValue [PlainValue (MStr k), PlainValue v]);
          items = (\<lambda>xs. case xs of None \<Rightarrow> MNone | Some ys \<Rightarrow> MList ys) in
      Inr [part ''text'' (case tr_text r of None \<Rightarrow> MNone | Some s \<Rightarrow> MStr s),
           part ''image'' (items (tr_image r)), part ''video'' (items (tr_video r))])"

definition value_dict :: "'img tool_value \<Rightarrow> 'img tool_value pydict res" where
  "value_dict v =
     (case v of
        PlainValue (MDict d) \<Rightarrow> Inr (dict_map PlainValue d)
      | _ \<Rightarrow> rbind (value_items v) (\<lambda>xs.
          rbind (rmap (\<lambda>x. rbind (value_items x) pair_item) xs) (\<lambda>items. Inr (dict_update [] items))))"

definition normalize_function_tool_return ::
    "('img, 'w) loop_texts \<Rightarrow> 'img tool_value \<Rightarrow> ('img tool_response \<times> real \<times> 'img tool_value pydict) res" where
  "normalize_function_tool_return lt ret =
     (case ret of
        TupleValue vs \<Rightarrow>
          rbind (rcheck TypeError (1 \<le> length vs \<and> length vs \<le> 3)) (\<lambda>_.
          rbind (coerce_response lt (vs ! 0)) (\<lambda>response.
          rbind (if length vs < 2 \<or> vs ! 1 = PlainValue MNone then Inr 0 else value_float (vs ! 1)) (\<lambda>reward.
          rbind (if length vs < 3 \<or> vs ! 2 = PlainValue MNone then Inr [] else value_dict (vs ! 2)) (\<lambda>metrics.
          Inr (response, reward, metrics)))))
      | _ \<Rightarrow> rbind (coerce_response lt ret) (\<lambda>response. Inr (response, 0, [])))"

section \<open>The state of a conversation\<close>

datatype agent_state = Pending | Generating | ProcessingTools | Terminated

record 'img agent_data =
  ad_messages :: "'img mobj list"
  ad_image_data :: "'img mobj option"
  ad_video_data :: "'img mobj option"
  ad_audio_data :: "'img mobj option"
  ad_mm_processor_kwargs :: "'img mobj pydict"
  ad_num_preempted :: "int option"
  ad_request_id :: string
  ad_tools_kwargs :: "'img mobj"
  ad_prompt_ids :: "int list"
  ad_response_ids :: "int list"
  ad_response_mask :: "int list"
  ad_response_logprobs :: "real list"
  ad_turn_scores :: "real list"
  ad_tool_rewards :: "real list"
  ad_user_turns :: int
  ad_assistant_turns :: int
  ad_tool_calls :: "function_call list"
  ad_routed_experts :: "int list list option"
  ad_extra_fields :: "'img mobj pydict"

text \<open>One output of the generation server.\<close>

record 'img generation =
  gen_token_ids :: "int list"
  gen_log_probs :: "real list option"
  gen_routed_experts :: "int list list option"
  gen_num_preempted :: "int option"
  gen_extra_fields :: "'img mobj pydict"

record 'img gen_request =
  gr_request_id :: string
  gr_prompt_ids :: "int list"
  gr_sampling_params :: sampling_values
  gr_image_data :: "'img mobj option"
  gr_video_data :: "'img mobj option"
  gr_audio_data :: "'img mobj option"
  gr_mm_processor_kwargs :: "'img mobj pydict"

text \<open>A function tool has no lifecycle. A tool with one is created with keyword arguments, which gives the name of
  the instance, executed, which sees the conversation and may store session data in its extra fields, and
  released.\<close>

datatype ('img, 'w) tool_object =
    FunctionTool "'img mobj pydict \<Rightarrow> ('w, 'img tool_value) action"
  | BaseTool "'img mobj \<Rightarrow> ('w, string) action"
      "string \<Rightarrow> 'img mobj \<Rightarrow> ('img agent_data \<times> 'w, 'img tool_response \<times> real option) action"
      "string \<Rightarrow> ('w, unit) action"

record ('img, 'w) tool =
  tool_schema :: "'img tool_schema"
  tool_object :: "('img, 'w) tool_object"

definition tool_table :: "('img, 'w) tool list \<Rightarrow> ('img, 'w) tool pydict" where
  "tool_table tools = dict_update [] (map (\<lambda>t. (ts_name (tool_schema t), t)) tools)"

text \<open>The loop's configuration. \<open>None\<close> and 0 are no limit of turns.\<close>

record ('img, 'w) tool_loop =
  tl_base :: "'img agent_base"
  tl_texts :: "('img, 'w) loop_texts"
  tl_tools :: "('img, 'w) tool list"
  tl_max_user_turns :: "int option"
  tl_max_assistant_turns :: "int option"
  tl_max_parallel_calls :: int
  tl_max_tool_response_length :: int
  tl_truncate_side :: string
  tl_parser_name :: string
  tl_parser :: "'img tool_parser"
  tl_encode :: "string \<Rightarrow> int list res"
  tl_response_length :: nat
  tl_generate :: "'img gen_request \<Rightarrow> ('w, 'img generation) action"

definition turn_limit :: "int option \<Rightarrow> int \<Rightarrow> bool" where
  "turn_limit limit turns = (case limit of None \<Rightarrow> False | Some n \<Rightarrow> n \<noteq> 0 \<and> n \<le> turns)"

text \<open>The tools of a sample: those of its \<open>tool_selection\<close>, in that order, or all of them.\<close>

fun pick_tool :: "('img, 'w) tool pydict \<Rightarrow> 'img mobj \<Rightarrow> ('img, 'w) tool pydict res" where
  "pick_tool table (MStr s) = Inr (case map_of table s of Some t \<Rightarrow> [(s, t)] | None \<Rightarrow> [])"
| "pick_tool table (MList _) = Inl TypeError"
| "pick_tool table (MDict _) = Inl TypeError"
| "pick_tool table (MArray _) = Inl TypeError"
| "pick_tool table _ = Inr []"

definition selected_tools :: "('img, 'w) tool pydict \<Rightarrow> 'img mobj list \<Rightarrow> ('img, 'w) tool pydict res" where
  "selected_tools table names = rbind (rmap (pick_tool table) names) (\<lambda>parts. Inr (dict_update [] (concat parts)))"

definition active_tools ::
    "('img, 'w) tool_loop \<Rightarrow> 'img mobj pydict \<Rightarrow> (('img, 'w) tool pydict \<times> 'img mobj list) res" where
  "active_tools lp kwargs =
     (let table = tool_table (tl_tools lp);
          dflt = (table, map (ts_dump \<circ> tool_schema) (tl_tools lp)) in
      rbind (case map_of kwargs ''extra_info'' of
               Some v \<Rightarrow> if mtruthy v then as_dictionary v else Inr []
             | None \<Rightarrow> Inr []) (\<lambda>extra_info.
      case map_of extra_info ''tool_selection'' of
        Some v \<Rightarrow>
          (if mtruthy v \<and> table \<noteq> []
           then rbind (as_list v) (\<lambda>names. rbind (selected_tools table names) (\<lambda>chosen.
                Inr (chosen, map (ts_dump \<circ> tool_schema \<circ> snd) chosen)))
           else Inr dflt)
      | None \<Rightarrow> Inr dflt))"

section \<open>Calling a tool\<close>

definition quoted :: "string \<Rightarrow> string" where
  "quoted s = [CHR 0x27] @ s @ [CHR 0x27]"

definition unknown_function_text :: "('img, 'w) tool_loop \<Rightarrow> string \<Rightarrow> string list \<Rightarrow> string" where
  "unknown_function_text lp name available =
     ''Unknown function '' @ quoted name @ ''. Available tools: ''
       @ py_str (lt_texts (tl_texts lp)) (MList (map MStr available))"

definition invalid_json_text :: "string \<Rightarrow> string \<Rightarrow> string" where
  "invalid_json_text name message = ''Invalid JSON in arguments for '' @ quoted name @ '': '' @ message"

definition tool_error_text :: "string \<Rightarrow> string \<Rightarrow> string" where
  "tool_error_text name message = ''Error executing tool '' @ quoted name @ '': '' @ message"

text \<open>An action on the world, with the conversation beside it.\<close>

definition on_world :: "('w, 'a) action \<Rightarrow> ('d \<times> 'w, 'a) action" where
  "on_world m s = (case s of (d, w) \<Rightarrow> (case m w of (r, w1) \<Rightarrow> (r, (d, w1))))"

text \<open>\<open>tools_kwargs.get(name, {}).get('create_kwargs', {})\<close>.\<close>

definition create_kwargs :: "'img mobj \<Rightarrow> string \<Rightarrow> 'img mobj res" where
  "create_kwargs tools_kwargs name =
     rbind (as_dictionary tools_kwargs) (\<lambda>d.
     rbind (case map_of d name of Some v \<Rightarrow> as_dictionary v | None \<Rightarrow> Inr []) (\<lambda>kwargs.
     Inr (case map_of kwargs ''create_kwargs'' of Some v \<Rightarrow> v | None \<Rightarrow> MDict [])))"

text \<open>Only the extra fields of a conversation are a tool's to change.\<close>

definition execute_in :: "('img agent_data \<times> 'w, 'a) action \<Rightarrow> ('img agent_data \<times> 'w, 'a) action" where
  "execute_in m s =
     (case m s of (r, (ad1, w1)) \<Rightarrow> (r, ((fst s)\<lparr>ad_extra_fields := ad_extra_fields ad1\<rparr>, w1)))"

text \<open>The body of the \<open>try\<close>: what the tool answers, and the instance that was created.\<close>

definition run_tool ::
    "('img, 'w) tool_loop \<Rightarrow> ('img, 'w) tool_object \<Rightarrow> string \<Rightarrow> 'img mobj \<Rightarrow> 'img agent_data \<times> 'w
     \<Rightarrow> ('img tool_response \<times> real option) res \<times> string option \<times> ('img agent_data \<times> 'w)" where
  "run_tool lp obj name args s =
     (case obj of
        FunctionTool call \<Rightarrow>
          (case act_bind (act_res (case args of MDict d \<Rightarrow> Inr d | _ \<Rightarrow> Inl TypeError)) (\<lambda>d. on_world (call d)) s of
             (r, s1) \<Rightarrow>
               (rbind r (\<lambda>raw. rbind (normalize_function_tool_return (tl_texts lp) raw) (\<lambda>(response, reward, _).
                Inr (response, Some reward))), None, s1))
      | BaseTool create execute _ \<Rightarrow>
          (case act_bind (act_res (create_kwargs (ad_tools_kwargs (fst s)) name)) (\<lambda>kw. on_world (create kw)) s of
             (Inl e, s1) \<Rightarrow> (Inl e, None, s1)
           | (Inr inst, s1) \<Rightarrow> (case execute_in (execute inst args) s1 of (r, s2) \<Rightarrow> (r, Some inst, s2))))"

text \<open>The \<open>finally\<close>: an instance with a name is released.\<close>

definition release_tool :: "('img, 'w) tool_object \<Rightarrow> string option \<Rightarrow> ('img agent_data \<times> 'w, unit) action" where
  "release_tool obj inst =
     (case (obj, inst) of
        (BaseTool _ _ release, Some (c # cs)) \<Rightarrow> on_world (release (c # cs))
      | _ \<Rightarrow> act_res (Inr ()))"

definition truncate_text :: "int \<Rightarrow> string \<Rightarrow> string \<Rightarrow> string" where
  "truncate_text limit side s =
     (if int (length s) \<le> limit then s
      else if side = ''left'' then slice_to limit s @ ''...(truncated)''
      else if side = ''right'' then ''(truncated)...'' @ slice_from (- limit) s
      else slice_to (limit div 2) s @ ''...(truncated)...'' @ slice_from (- (limit div 2)) s)"

definition truncate_response :: "('img, 'w) tool_loop \<Rightarrow> 'img tool_response \<Rightarrow> 'img tool_response" where
  "truncate_response lp r =
     r\<lparr>tr_text := (case tr_text r of
                      Some s \<Rightarrow> Some (if s = [] then s else truncate_text (tl_max_tool_response_length lp) (tl_truncate_side lp) s)
                    | None \<Rightarrow> None)\<rparr>"

definition call_tool ::
    "('img, 'w) tool_loop \<Rightarrow> ('img, 'w) tool pydict \<Rightarrow> function_call
     \<Rightarrow> ('img agent_data \<times> 'w, 'img tool_response \<times> real option) action" where
  "call_tool lp active call s =
     (let name = fc_name call in
      case map_of active name of
        None \<Rightarrow> (Inr (text_response (unknown_function_text lp name (map fst active)), Some 0), s)
      | Some tool \<Rightarrow>
          (case py_loads (lt_texts (tl_texts lp)) (fc_arguments call) of
             Inl message \<Rightarrow> (Inr (text_response (invalid_json_text name message), Some 0), s)
           | Inr args \<Rightarrow>
               (case run_tool lp (tool_object tool) name args s of
                  (raw, inst, s1) \<Rightarrow>
                    act_bind (release_tool (tool_object tool) inst) (\<lambda>_. act_res
                      (case raw of
                         Inl e \<Rightarrow> Inr (text_response (tool_error_text name (lt_error (tl_texts lp) (snd s1) e)), Some 0)
                       | Inr (response, reward) \<Rightarrow> Inr (truncate_response lp response, reward))) s1)))"

text \<open>All calls of a turn are made; then the first exception among them is raised. The code raises it as soon as it occurs,
  while the other calls go on in the background; the state here is the one after they have ended.\<close>

fun gather_all :: "('s, 'a) action list \<Rightarrow> 's \<Rightarrow> 'a res list \<times> 's" where
  "gather_all [] s = ([], s)"
| "gather_all (m # ms) s = (case m s of (r, s1) \<Rightarrow> (case gather_all ms s1 of (rs, s2) \<Rightarrow> (r # rs, s2)))"

section \<open>Tool responses as messages\<close>

definition given :: "'a list option \<Rightarrow> bool" where
  "given v = (case v of None \<Rightarrow> False | Some xs \<Rightarrow> xs \<noteq> [])"

definition tool_message :: "('img, 'w) tool_loop \<Rightarrow> 'img tool_response \<Rightarrow> 'img mobj res" where
  "tool_message lp r =
     (if given (tr_image r) \<or> given (tr_video r)
      then rbind (rcheck ValueError (case ab_processor (tl_base lp) of None \<Rightarrow> False | Some p \<Rightarrow> pr_has_image_processor p)) (\<lambda>_.
           Inr (MDict [(''role'', MStr ''tool''),
             (''content'', MList
                ((if given (tr_image r) then [MDict [(''type'', MStr ''image'')]] else [])
                 @ (if given (tr_video r) then [MDict [(''type'', MStr ''video'')]] else [])
                 @ (if given (tr_text r) then [MDict [(''type'', MStr ''text''), (''text'', MStr (the (tr_text r)))]] else [])))]))
      else Inr (MDict [(''role'', MStr ''tool''), (''content'', MStr (case tr_text r of None \<Rightarrow> [] | Some s \<Rightarrow> s))]))"

text \<open>A response gives its message, its images and its reward; videos are not supported.\<close>

definition process_response ::
    "('img, 'w) tool_loop \<Rightarrow> 'img tool_response \<times> real option \<Rightarrow> ('img mobj \<times> 'img mobj list \<times> real list) res" where
  "process_response lp answer =
     (case answer of (response, reward) \<Rightarrow>
      rbind (tool_message lp response) (\<lambda>message.
      rbind (rcheck NotImplementedError (\<not> given (tr_video response))) (\<lambda>_.
      Inr (message, (case tr_image response of None \<Rightarrow> [] | Some xs \<Rightarrow> filter (\<lambda>v. v \<noteq> MNone) xs),
           (case reward of None \<Rightarrow> [] | Some x \<Rightarrow> [x])))))"

definition format_gpt_oss_tool_response :: "string \<Rightarrow> string \<Rightarrow> string" where
  "format_gpt_oss_tool_response tool_response tool_call_name =
     ''<|start|>functions.'' @ tool_call_name @ '' to=assistant<|channel|>commentary<|message|>'' @ tool_response @ ''<|end|>''"

definition message_text :: "('img, 'w) tool_loop \<Rightarrow> 'img mobj \<Rightarrow> string" where
  "message_text lp message =
     (case message of
        MDict d \<Rightarrow> (case map_of d ''content'' of Some (MStr s) \<Rightarrow> s | Some v \<Rightarrow> py_str (lt_texts (tl_texts lp)) v | None \<Rightarrow> [])
      | _ \<Rightarrow> [])"

definition build_gpt_oss_tool_response_text :: "('img, 'w) tool_loop \<Rightarrow> 'img mobj list \<Rightarrow> string list \<Rightarrow> string" where
  "build_gpt_oss_tool_response_text lp messages tool_call_names =
     concat (map2 (\<lambda>m name. format_gpt_oss_tool_response (message_text lp m) name) messages tool_call_names)
       @ ''<|start|>assistant''"

definition tool_response_ids :: "('img, 'w) tool_loop \<Rightarrow> 'img mobj list \<Rightarrow> 'img mobj list \<Rightarrow> string list \<Rightarrow> int list res" where
  "tool_response_ids lp messages images names =
     (if tl_parser_name lp = ''gpt-oss'' then tl_encode lp (build_gpt_oss_tool_response_text lp messages names)
      else apply_chat_template (tl_base lp) messages None
             (if images = [] then None else Some (MList images), None, None) None True)"

definition add_images :: "'img mobj option \<Rightarrow> 'img mobj list \<Rightarrow> 'img mobj option" where
  "add_images data images =
     (if images = [] then data
      else Some (MList ((case data of None \<Rightarrow> [] | Some (MList xs) \<Rightarrow> xs | Some v \<Rightarrow> [v]) @ images)))"

section \<open>The handlers of the states\<close>

type_synonym ('img, 'w) handler = "'img agent_data \<Rightarrow> 'w \<Rightarrow> (agent_state \<times> 'img agent_data) res \<times> 'w"

definition handle_pending :: "('img, 'w) tool_loop \<Rightarrow> 'img mobj list \<Rightarrow> ('img, 'w) handler" where
  "handle_pending lp schemas ad w =
     (rbind (apply_chat_template (tl_base lp) (ad_messages ad) (Some schemas)
               (ad_image_data ad, ad_video_data ad, ad_audio_data ad) (Some (ad_mm_processor_kwargs ad)) False) (\<lambda>prompt_ids.
      Inr (Generating, ad\<lparr>ad_prompt_ids := prompt_ids\<rparr>)), w)"

text \<open>The first output gives the extra fields; later ones update the maximal global step, if it is truthy.\<close>

definition merge_extra_fields :: "'img mobj pydict \<Rightarrow> 'img mobj pydict \<Rightarrow> 'img mobj pydict" where
  "merge_extra_fields old new =
     (if old = [] then dict_update [] new
      else case map_of new ''max_global_steps'' of
        Some v \<Rightarrow> if mtruthy v then dict_set old ''max_global_steps'' v else old
      | None \<Rightarrow> old)"

definition add_preempted :: "int option \<Rightarrow> int option \<Rightarrow> int" where
  "add_preempted old n =
     (case old of
        None \<Rightarrow> (case n of Some k \<Rightarrow> k | None \<Rightarrow> -1)
      | Some t \<Rightarrow> t + (case n of Some k \<Rightarrow> k | None \<Rightarrow> 0))"

definition record_generation :: "'img generation \<Rightarrow> 'img agent_data \<Rightarrow> 'img agent_data" where
  "record_generation g ad =
     ad\<lparr>ad_num_preempted := Some (add_preempted (ad_num_preempted ad) (gen_num_preempted g)),
        ad_extra_fields := merge_extra_fields (ad_extra_fields ad) (gen_extra_fields g),
        ad_assistant_turns := ad_assistant_turns ad + 1,
        ad_response_ids := gen_token_ids g,
        ad_prompt_ids := ad_prompt_ids ad @ gen_token_ids g,
        ad_response_mask := ad_response_mask ad @ replicate (length (gen_token_ids g)) 1,
        ad_response_logprobs := ad_response_logprobs ad @ (case gen_log_probs g of None \<Rightarrow> [] | Some lps \<Rightarrow> lps),
        ad_routed_experts := (case gen_routed_experts g of None \<Rightarrow> ad_routed_experts ad | Some r \<Rightarrow> Some r)\<rparr>"

definition generation_ends :: "('img, 'w) tool_loop \<Rightarrow> bool \<Rightarrow> 'img agent_data \<Rightarrow> bool" where
  "generation_ends lp ignore_termination ad \<longleftrightarrow>
     (\<not> ignore_termination \<and> tl_response_length lp \<le> length (ad_response_mask ad))
     \<or> turn_limit (tl_max_assistant_turns lp) (ad_assistant_turns ad) \<or> turn_limit (tl_max_user_turns lp) (ad_user_turns ad)"

definition request_of :: "sampling_values \<Rightarrow> 'img agent_data \<Rightarrow> 'img gen_request" where
  "request_of params ad =
     \<lparr>gr_request_id = ad_request_id ad, gr_prompt_ids = ad_prompt_ids ad, gr_sampling_params = params,
      gr_image_data = ad_image_data ad, gr_video_data = ad_video_data ad, gr_audio_data = ad_audio_data ad,
      gr_mm_processor_kwargs = ad_mm_processor_kwargs ad\<rparr>"

definition handle_generating ::
    "('img, 'w) tool_loop \<Rightarrow> ('img, 'w) tool pydict \<Rightarrow> sampling_values \<Rightarrow> bool \<Rightarrow> ('img, 'w) handler" where
  "handle_generating lp active params ignore_termination ad w =
     (case tl_generate lp (request_of params ad) w of
        (Inl e, w1) \<Rightarrow> (Inl e, w1)
      | (Inr g, w1) \<Rightarrow>
          (let ad1 = record_generation g ad in
           (if generation_ends lp ignore_termination ad1 then Inr (Terminated, ad1)
            else rbind (tl_parser lp (ad_response_ids ad1) (map (tool_schema \<circ> snd) active)) (\<lambda>(_, calls).
                 Inr (if calls \<noteq> [] then ProcessingTools else Terminated, ad1\<lparr>ad_tool_calls := calls\<rparr>)), w1)))"

definition answer_tools ::
    "('img, 'w) tool_loop \<Rightarrow> string list \<Rightarrow> ('img tool_response \<times> real option) list \<Rightarrow> 'img agent_data
     \<Rightarrow> (agent_state \<times> 'img agent_data) res" where
  "answer_tools lp names responses ad =
     rbind (rmap (process_response lp) responses) (\<lambda>processed.
     (let add_messages = map fst processed; new_images = concat (map (fst \<circ> snd) processed);
          ad1 = ad\<lparr>ad_tool_rewards := ad_tool_rewards ad @ concat (map (snd \<circ> snd) processed),
                   ad_messages := ad_messages ad @ add_messages\<rparr> in
      rbind (tool_response_ids lp add_messages new_images names) (\<lambda>response_ids.
      Inr (if tl_response_length lp \<le> length (ad_response_mask ad1) + length response_ids then (Terminated, ad1)
           else (Generating,
             ad1\<lparr>ad_image_data := add_images (ad_image_data ad1) new_images,
                 ad_prompt_ids := ad_prompt_ids ad1 @ response_ids,
                 ad_response_mask := ad_response_mask ad1 @ replicate (length response_ids) 0,
                 ad_response_logprobs := ad_response_logprobs ad1
                   @ (if ad_response_logprobs ad1 = [] then [] else replicate (length response_ids) 0),
                 ad_user_turns := ad_user_turns ad1 + 1\<rparr>)))))"

definition handle_processing_tools :: "('img, 'w) tool_loop \<Rightarrow> ('img, 'w) tool pydict \<Rightarrow> ('img, 'w) handler" where
  "handle_processing_tools lp active ad w =
     (let calls = slice_to (tl_max_parallel_calls lp) (ad_tool_calls ad) in
      case gather_all (map (call_tool lp active) calls) (ad, w) of
        (rs, (ad1, w1)) \<Rightarrow>
          (rbind (rmap id rs) (\<lambda>responses. answer_tools lp (map fc_name calls) responses ad1), w1))"

section \<open>The loop\<close>

definition handle ::
    "('img, 'w) tool_loop \<Rightarrow> ('img, 'w) tool pydict \<times> 'img mobj list \<Rightarrow> sampling_values \<Rightarrow> agent_state \<Rightarrow> ('img, 'w) handler" where
  "handle lp active params state ad w =
     (case state of
        Pending \<Rightarrow> handle_pending lp (snd active) ad w
      | Generating \<Rightarrow> handle_generating lp (fst active) params False ad w
      | ProcessingTools \<Rightarrow> handle_processing_tools lp (fst active) ad w
      | Terminated \<Rightarrow> (Inr (Terminated, ad), w))"

text \<open>The loop until it terminates or raises; \<open>None\<close> when the fuel is not enough for that.\<close>

fun state_loop ::
    "('img, 'w) tool_loop \<Rightarrow> ('img, 'w) tool pydict \<times> 'img mobj list \<Rightarrow> sampling_values \<Rightarrow> nat \<Rightarrow> agent_state
     \<Rightarrow> 'img agent_data \<Rightarrow> 'w \<Rightarrow> ('img agent_data res \<times> 'w) option" where
  "state_loop lp active params fuel Terminated ad w = Some (Inr ad, w)"
| "state_loop lp active params 0 state ad w = None"
| "state_loop lp active params (Suc fuel) state ad w =
     (case handle lp active params state ad w of
        (Inl e, w1) \<Rightarrow> Some (Inl e, w1)
      | (Inr (state1, ad1), w1) \<Rightarrow> state_loop lp active params fuel state1 ad1 w1)"

definition new_agent_data ::
    "'img mobj list \<Rightarrow> 'img mm_data \<Rightarrow> 'img mobj pydict \<Rightarrow> string \<Rightarrow> 'img mobj \<Rightarrow> 'img agent_data" where
  "new_agent_data messages data mm_kwargs request_id tools_kwargs =
     \<lparr>ad_messages = messages, ad_image_data = fst data, ad_video_data = fst (snd data), ad_audio_data = snd (snd data),
      ad_mm_processor_kwargs = mm_kwargs, ad_num_preempted = None, ad_request_id = request_id, ad_tools_kwargs = tools_kwargs,
      ad_prompt_ids = [], ad_response_ids = [], ad_response_mask = [], ad_response_logprobs = [], ad_turn_scores = [],
      ad_tool_rewards = [], ad_user_turns = 0, ad_assistant_turns = 0, ad_tool_calls = [], ad_routed_experts = None,
      ad_extra_fields = []\<rparr>"

text \<open>The output: the response is as long as its mask, from the end of the sequence; \<open>xs[-0:]\<close> is all of it.\<close>

definition loop_output :: "nat \<Rightarrow> 'img agent_data \<Rightarrow> 'img agent_output" where
  "loop_output width ad =
     (let n = length (ad_response_mask ad);
          response_ids = slice_from (- int n) (ad_prompt_ids ad);
          prompt_ids = slice_to (int (length (ad_prompt_ids ad)) - int n) (ad_prompt_ids ad) in
      \<lparr>ao_prompt_ids = prompt_ids, ao_response_ids = take width response_ids, ao_response_mask = take width (ad_response_mask ad),
       ao_response_logprobs = (if ad_response_logprobs ad = [] then None else Some (take width (ad_response_logprobs ad))),
       ao_routed_experts = map_option (take (length prompt_ids + width)) (ad_routed_experts ad),
       ao_multi_modal_data = Some (optional_entry ''images'' (ad_image_data ad) @ optional_entry ''videos'' (ad_video_data ad)
         @ optional_entry ''audios'' (ad_audio_data ad)),
       ao_reward_score = None, ao_num_turns = ad_user_turns ad + ad_assistant_turns ad + 1,
       ao_metrics = optional_entry ''num_preempted'' (map_option PInt (ad_num_preempted ad)),
       ao_extra_fields = dict_update (ad_extra_fields ad)
         [(''turn_scores'', MList (map MFloat (ad_turn_scores ad))), (''tool_rewards'', MList (map MFloat (ad_tool_rewards ad)))],
       ao_mm_processor_kwargs = Some (ad_mm_processor_kwargs ad),
       ao_teacher_ids = None, ao_teacher_logprobs = None, ao_teacher_neg_ids = None, ao_teacher_neg_logprobs = None,
       ao_teacher_request = None\<rparr>)"

text \<open>\<open>run\<close>: the messages, the data in them, the tools of the sample, the loop and the output.\<close>

definition mm_data_of :: "'img mobj pydict \<Rightarrow> 'img mm_data" where
  "mm_data_of d = (map_of d ''images'', map_of d ''videos'', map_of d ''audios'')"

definition start_data :: "('img, 'w) tool_loop \<Rightarrow> string \<Rightarrow> 'img mobj pydict \<Rightarrow> 'img mobj list \<Rightarrow> 'img mobj pydict \<Rightarrow> 'img agent_data" where
  "start_data lp request_id kwargs messages d =
     new_agent_data messages (mm_data_of d) (loop_mm_processor_kwargs (tl_base lp) (map_of d ''audios'')) request_id
       (case map_of kwargs ''tools_kwargs'' of Some v \<Rightarrow> v | None \<Rightarrow> MDict [])"

definition run_start ::
    "('img, 'w) tool_loop \<Rightarrow> string \<Rightarrow> 'img mobj pydict \<Rightarrow> ('img agent_data \<times> ('img, 'w) tool pydict \<times> 'img mobj list) res" where
  "run_start lp request_id kwargs =
     rbind (dict_get kwargs ''raw_prompt'') (\<lambda>v.
     rbind (as_list v) (\<lambda>messages.
     rbind (process_multi_modal_info (tl_base lp) messages) (\<lambda>d.
     rbind (active_tools lp kwargs) (\<lambda>active. Inr (start_data lp request_id kwargs messages d, active)))))"

definition run_tool_agent ::
    "('img, 'w) tool_loop \<Rightarrow> nat \<Rightarrow> string \<Rightarrow> sampling_values \<Rightarrow> 'img mobj pydict \<Rightarrow> 'w \<Rightarrow> ('img agent_output res \<times> 'w) option" where
  "run_tool_agent lp fuel request_id params kwargs w =
     (case run_start lp request_id kwargs of
        Inl e \<Rightarrow> Some (Inl e, w)
      | Inr (ad, active) \<Rightarrow>
          map_option (\<lambda>(r, w1). (rbind r (\<lambda>ad1. Inr (loop_output (tl_response_length lp) ad1)), w1))
            (state_loop lp active params fuel Pending ad w))"

section \<open>The single-turn loop\<close>

definition single_turn_output :: "nat \<Rightarrow> int list \<Rightarrow> 'img mobj pydict \<Rightarrow> 'img mobj pydict \<Rightarrow> 'img generation \<Rightarrow> 'img agent_output" where
  "single_turn_output width prompt_ids d mm_kwargs g =
     \<lparr>ao_prompt_ids = prompt_ids, ao_response_ids = take width (gen_token_ids g),
      ao_response_mask = take width (replicate (length (gen_token_ids g)) 1),
      ao_response_logprobs = (case gen_log_probs g of None \<Rightarrow> None | Some lps \<Rightarrow> if lps = [] then None else Some (take width lps)),
      ao_routed_experts = map_option (take (length prompt_ids + width)) (gen_routed_experts g),
      ao_multi_modal_data = Some d, ao_reward_score = None, ao_num_turns = 2,
      ao_metrics = [(''num_preempted'', PInt (case gen_num_preempted g of Some k \<Rightarrow> k | None \<Rightarrow> -1))],
      ao_extra_fields = dict_update (gen_extra_fields g) [(''turn_scores'', MList []), (''tool_rewards'', MList [])],
      ao_mm_processor_kwargs = Some mm_kwargs,
      ao_teacher_ids = None, ao_teacher_logprobs = None, ao_teacher_neg_ids = None, ao_teacher_neg_logprobs = None,
      ao_teacher_request = None\<rparr>"

definition run_single_turn ::
    "'img agent_base \<Rightarrow> nat \<Rightarrow> ('img gen_request \<Rightarrow> ('w, 'img generation) action) \<Rightarrow> string \<Rightarrow> sampling_values
     \<Rightarrow> 'img mobj pydict \<Rightarrow> 'w \<Rightarrow> 'img agent_output res \<times> 'w" where
  "run_single_turn ab width generate request_id params kwargs w =
     (case rbind (dict_get kwargs ''raw_prompt'') (\<lambda>v.
           rbind (as_list v) (\<lambda>messages.
           rbind (process_multi_modal_info ab messages) (\<lambda>d.
           (let data = mm_data_of d; mm_kwargs = loop_mm_processor_kwargs ab (snd (snd data)) in
            rbind (apply_chat_template ab messages None data (Some mm_kwargs) False) (\<lambda>prompt_ids.
            Inr (prompt_ids, d, mm_kwargs)))))) of
        Inl e \<Rightarrow> (Inl e, w)
      | Inr (prompt_ids, d, mm_kwargs) \<Rightarrow>
          (case generate \<lparr>gr_request_id = request_id, gr_prompt_ids = prompt_ids, gr_sampling_params = params,
                          gr_image_data = map_of d ''images'', gr_video_data = map_of d ''videos'',
                          gr_audio_data = map_of d ''audios'', gr_mm_processor_kwargs = mm_kwargs\<rparr> w of
             (r, w1) \<Rightarrow> (rbind r (\<lambda>g. Inr (single_turn_output width prompt_ids d mm_kwargs g)), w1)))"

end
