(* ===== verification/ToolLoopLaws.thy ===== *)
theory ToolLoopLaws
  imports ToolLoop AgentLaws
begin

text \<open>
  What holds of the loop with tools: the mask marks exactly the generated tokens, the output has the prompt that
  was rendered and a response within its width, the loop ends, calls give an answer whatever the tool does, and
  every instance of a tool is released. A conversation without calls is a single turn.
\<close>

section \<open>Invariants of the loop\<close>

lemma state_loop_Terminated [simp]: "state_loop lp active params fuel Terminated ad w = Some (Inr ad, w)"
  by (cases fuel) auto

lemma state_loop_step:
  assumes "state \<noteq> Terminated"
  shows "state_loop lp active params (Suc fuel) state ad w =
    (case handle lp active params state ad w of
       (Inl e, w1) \<Rightarrow> Some (Inl e, w1)
     | (Inr (state1, ad1), w1) \<Rightarrow> state_loop lp active params fuel state1 ad1 w1)"
    and "state_loop lp active params 0 state ad w = None"
  using assms by (cases state; simp)+

text \<open>What every handler keeps holds at the end, and what a handler's failure gives holds of a failing loop.\<close>

lemma state_loop_invariant:
  assumes "state_loop lp active params fuel state ad w = Some (r, w1)" and "I state ad w"
    and step: "\<And>state ad w state1 ad1 w1. I state ad w \<Longrightarrow> state \<noteq> Terminated
      \<Longrightarrow> handle lp active params state ad w = (Inr (state1, ad1), w1) \<Longrightarrow> I state1 ad1 w1"
    and failing: "\<And>state ad w e w1. I state ad w \<Longrightarrow> state \<noteq> Terminated
      \<Longrightarrow> handle lp active params state ad w = (Inl e, w1) \<Longrightarrow> F w1"
  shows "(\<exists>e. r = Inl e \<and> F w1) \<or> (\<exists>ad1. r = Inr ad1 \<and> I Terminated ad1 w1)"
  using assms(1,2)
proof (induction fuel arbitrary: state ad w)
  case 0
  then show ?case by (cases state) auto
next
  case (Suc fuel)
  show ?case
  proof (cases "state = Terminated")
    case False
    obtain x w2 where h: "handle lp active params state ad w = (x, w2)" by fastforce
    show ?thesis
    proof (cases x)
      case (Inl e)
      then show ?thesis using failing [OF Suc.prems(2) False] Suc.prems(1) h by (auto simp: state_loop_step(1) [OF False])
    next
      case (Inr p)
      obtain state1 ad1 where p: "p = (state1, ad1)" by force
      have "I state1 ad1 w2" using step [OF Suc.prems(2) False] h Inr p by blast
      then show ?thesis using Suc.IH Suc.prems(1) h Inr p by (simp add: state_loop_step(1) [OF False])
    qed
  qed (use Suc.prems in auto)
qed

lemma state_loop_result:
  assumes "state_loop lp active params fuel state ad w = Some (Inr ad1, w1)" and "I state ad w"
    and "\<And>state ad w state1 ad1 w1. I state ad w \<Longrightarrow> state \<noteq> Terminated
      \<Longrightarrow> handle lp active params state ad w = (Inr (state1, ad1), w1) \<Longrightarrow> I state1 ad1 w1"
  shows "I Terminated ad1 w1"
  using state_loop_invariant [where I = I and F = "\<lambda>_. True", OF assms(1,2)] assms(3) by auto

text \<open>A measure that every handler decreases bounds the fuel.\<close>

lemma state_loop_terminates:
  assumes "I state ad w" and "state = Terminated \<or> f state ad \<le> fuel"
    and step: "\<And>state ad w state1 ad1 w1. I state ad w \<Longrightarrow> state \<noteq> Terminated
      \<Longrightarrow> handle lp active params state ad w = (Inr (state1, ad1), w1)
      \<Longrightarrow> I state1 ad1 w1 \<and> (state1 = Terminated \<or> f state1 ad1 < f state ad)"
    and pos: "\<And>state ad w. I state ad w \<Longrightarrow> state \<noteq> Terminated \<Longrightarrow> 0 < f state ad"
  shows "\<exists>r w1. state_loop lp active params fuel state ad w = Some (r, w1)"
  using assms(1,2)
proof (induction fuel arbitrary: state ad w)
  case 0
  then have "state = Terminated" using pos [of state ad w] by fastforce
  then show ?case by simp
next
  case (Suc fuel)
  show ?case
  proof (cases "state = Terminated")
    case False
    obtain r w1 where h: "handle lp active params state ad w = (r, w1)" by fastforce
    show ?thesis
    proof (cases r)
      case (Inr p)
      obtain state1 ad1 where p: "p = (state1, ad1)" by force
      have "I state1 ad1 w1 \<and> (state1 = Terminated \<or> f state1 ad1 < f state ad)"
        using step [OF Suc.prems(1) False] h Inr p by blast
      then have "\<exists>r w2. state_loop lp active params fuel state1 ad1 w1 = Some (r, w2)"
        using Suc.IH [of state1 ad1 w1] Suc.prems(2) False by auto
      then show ?thesis using h Inr p by (simp add: state_loop_step(1) [OF False])
    qed (use h in \<open>simp add: state_loop_step(1) [OF False]\<close>)
  qed simp
qed

section \<open>What the handlers change\<close>

text \<open>A tool changes the extra fields of a conversation only. An observation of the world that no operation of
  the tools changes stays the same.\<close>

definition tool_keeps :: "('w \<Rightarrow> 'v) \<Rightarrow> ('img, 'w) tool_object \<Rightarrow> bool" where
  "tool_keeps f obj \<longleftrightarrow>
     (case obj of
        FunctionTool call \<Rightarrow> (\<forall>d w. f (snd (call d w)) = f w)
      | BaseTool create execute release \<Rightarrow>
          (\<forall>kw w. f (snd (create kw w)) = f w) \<and> (\<forall>inst args ad w. f (snd (snd (execute inst args (ad, w)))) = f w)
          \<and> (\<forall>inst w. f (snd (release inst w)) = f w))"

definition same_but_extra :: "'img agent_data \<Rightarrow> 'img agent_data \<Rightarrow> bool" where
  "same_but_extra ad ad1 \<longleftrightarrow> ad1 = ad\<lparr>ad_extra_fields := ad_extra_fields ad1\<rparr>"

lemma same_but_extra_refl [simp]: "same_but_extra ad ad"
  by (simp add: same_but_extra_def)

lemma same_but_extra_trans: "same_but_extra ad ad1 \<Longrightarrow> same_but_extra ad1 ad2 \<Longrightarrow> same_but_extra ad ad2"
  unfolding same_but_extra_def by (cases ad; cases ad1; cases ad2) simp

lemma same_but_extra_update [simp]: "same_but_extra ad (ad\<lparr>ad_extra_fields := x\<rparr>)"
  by (simp add: same_but_extra_def)

lemma same_but_extra_fields:
  assumes "same_but_extra ad ad1"
  shows "ad_prompt_ids ad1 = ad_prompt_ids ad" and "ad_response_mask ad1 = ad_response_mask ad"
    and "ad_response_logprobs ad1 = ad_response_logprobs ad" and "ad_assistant_turns ad1 = ad_assistant_turns ad"
    and "ad_tools_kwargs ad1 = ad_tools_kwargs ad"
proof -
  obtain x where "ad1 = ad\<lparr>ad_extra_fields := x\<rparr>" using assms unfolding same_but_extra_def by (rule that)
  then show "ad_prompt_ids ad1 = ad_prompt_ids ad" and "ad_response_mask ad1 = ad_response_mask ad"
    and "ad_response_logprobs ad1 = ad_response_logprobs ad" and "ad_assistant_turns ad1 = ad_assistant_turns ad"
    and "ad_tools_kwargs ad1 = ad_tools_kwargs ad"
    by simp_all
qed

lemma on_world_run: "on_world m (ad, w) = (fst (m w), (ad, snd (m w)))"
  by (simp add: on_world_def split: prod.splits)

lemma execute_in_run:
  "execute_in m (ad, w) = (fst (m (ad, w)), (ad\<lparr>ad_extra_fields := ad_extra_fields (fst (snd (m (ad, w))))\<rparr>, snd (snd (m (ad, w)))))"
  by (simp add: execute_in_def split: prod.splits)

lemma run_tool_FunctionTool:
  "run_tool lp (FunctionTool call) name args (ad, w) =
    (case args of
       MDict d \<Rightarrow> (rbind (fst (call d w)) (\<lambda>raw. rbind (normalize_function_tool_return (tl_texts lp) raw)
                     (\<lambda>(response, reward, _). Inr (response, Some reward))), None, (ad, snd (call d w)))
     | _ \<Rightarrow> (Inl TypeError, None, (ad, w)))"
  by (cases args) (simp_all add: run_tool_def act_bind_def act_res_def on_world_run split: prod.splits)

lemma run_tool_BaseTool:
  "run_tool lp (BaseTool create execute release) name args (ad, w) =
    (case create_kwargs (ad_tools_kwargs ad) name of
       Inl e \<Rightarrow> (Inl e, None, (ad, w))
     | Inr kw \<Rightarrow>
         (case create kw w of
            (Inl e, w1) \<Rightarrow> (Inl e, None, (ad, w1))
          | (Inr inst, w1) \<Rightarrow>
              (fst (execute inst args (ad, w1)), Some inst,
               (ad\<lparr>ad_extra_fields := ad_extra_fields (fst (snd (execute inst args (ad, w1))))\<rparr>, snd (snd (execute inst args (ad, w1)))))))"
  by (auto simp: run_tool_def act_bind_def act_res_def on_world_run execute_in_run split: sum.splits prod.splits)

lemma release_tool_run:
  "release_tool obj inst (ad, w) =
    (case (obj, inst) of
       (BaseTool _ _ release, Some (c # cs)) \<Rightarrow> (fst (release (c # cs) w), (ad, snd (release (c # cs) w)))
     | _ \<Rightarrow> (Inr (), (ad, w)))"
  by (auto simp: release_tool_def act_res_def on_world_run split: tool_object.splits option.splits list.splits)

lemma run_tool_frame:
  assumes "run_tool lp obj name args (ad, w) = (r, inst, (ad1, w1))"
  shows "same_but_extra ad ad1" and "tool_keeps f obj \<Longrightarrow> f w1 = f w"
proof -
  have "same_but_extra ad ad1 \<and> (tool_keeps f obj \<longrightarrow> f w1 = f w)"
  proof (cases obj)
    case (FunctionTool call)
    then show ?thesis
      using assms by (cases args) (auto simp: run_tool_FunctionTool tool_keeps_def)
  next
    case (BaseTool create execute release)
    then show ?thesis
      using assms by (auto simp: run_tool_BaseTool tool_keeps_def split: sum.splits prod.splits) (metis snd_conv)+
  qed
  then show "same_but_extra ad ad1" and "tool_keeps f obj \<Longrightarrow> f w1 = f w" by blast+
qed

lemma release_tool_frame:
  assumes "release_tool obj inst (ad, w) = (r, (ad1, w1))"
  shows "ad1 = ad" and "tool_keeps f obj \<Longrightarrow> f w1 = f w"
  using assms by (auto simp: release_tool_run tool_keeps_def split: tool_object.splits option.splits list.splits)

lemma call_tool_frame:
  assumes "call_tool lp active call (ad, w) = (r, (ad1, w1))"
  shows "same_but_extra ad ad1" and "\<forall>(_, t)\<in>set active. tool_keeps f (tool_object t) \<Longrightarrow> f w1 = f w"
proof -
  have "same_but_extra ad ad1 \<and> ((\<forall>(_, t)\<in>set active. tool_keeps f (tool_object t)) \<longrightarrow> f w1 = f w)"
  proof (cases "map_of active (fc_name call)")
    case None
    then show ?thesis using assms by (auto simp: call_tool_def Let_def)
  next
    case (Some tool)
    show ?thesis
    proof (cases "py_loads (lt_texts (tl_texts lp)) (fc_arguments call)")
      case (Inl message)
      then show ?thesis using assms Some by (auto simp: call_tool_def Let_def)
    next
      case (Inr args)
      obtain raw inst ad2 w2 where run: "run_tool lp (tool_object tool) (fc_name call) args (ad, w) = (raw, inst, (ad2, w2))"
        by (metis prod.exhaust)
      obtain rr ad3 w3 where rel: "release_tool (tool_object tool) inst (ad2, w2) = (rr, (ad3, w3))"
        by (metis prod.exhaust)
      have "ad1 = ad3 \<and> w1 = w3"
        using assms Some Inr run rel by (cases rr) (auto simp: call_tool_def Let_def act_bind_def act_res_def)
      moreover have "(fc_name call, tool) \<in> set active" using Some by (rule map_of_SomeD)
      ultimately show ?thesis
        using run_tool_frame [OF run] release_tool_frame [OF rel] by fastforce
    qed
  qed
  then show "same_but_extra ad ad1" and "\<forall>(_, t)\<in>set active. tool_keeps f (tool_object t) \<Longrightarrow> f w1 = f w" by blast+
qed

lemma gather_keeps:
  assumes "gather_all ms s = (rs, s1)" and "Q s" and "\<And>m s r s1. m \<in> set ms \<Longrightarrow> Q s \<Longrightarrow> m s = (r, s1) \<Longrightarrow> Q s1"
  shows "Q s1"
  using assms
proof (induction ms arbitrary: s rs)
  case (Cons m ms)
  obtain r s2 where m: "m s = (r, s2)" by fastforce
  obtain rs2 where "gather_all ms s2 = (rs2, s1)" using Cons.prems(1) m by (auto split: prod.splits)
  moreover have "Q s2" using Cons.prems(2,3) m by (meson list.set_intros(1))
  ultimately show ?case using Cons.IH Cons.prems(3) by (meson list.set_intros(2))
qed simp

lemma gather_length: "gather_all ms s = (rs, s1) \<Longrightarrow> length rs = length ms"
  by (induction ms arbitrary: s rs) (auto split: prod.splits)

lemma gather_tools_frame:
  assumes "gather_all (map (call_tool lp active) calls) (ad, w) = (rs, (ad1, w1))"
  shows "same_but_extra ad ad1" and "\<forall>(_, t)\<in>set active. tool_keeps f (tool_object t) \<Longrightarrow> f w1 = f w"
proof -
  let ?Q = "\<lambda>(ad2, w2). same_but_extra ad ad2 \<and> ((\<forall>(_, t)\<in>set active. tool_keeps f (tool_object t)) \<longrightarrow> f w2 = f w)"
  have "?Q (ad1, w1)"
  proof (rule gather_keeps [OF assms])
    fix m s r s1
    assume m: "m \<in> set (map (call_tool lp active) calls)" and Q: "?Q s" and step: "m s = (r, s1)"
    obtain call ad2 w2 ad3 w3 where eqs: "m = call_tool lp active call" "s = (ad2, w2)" "s1 = (ad3, w3)"
      using m by (cases s; cases s1) auto
    then have run: "call_tool lp active call (ad2, w2) = (r, (ad3, w3))" using step by simp
    show "?Q s1" using Q call_tool_frame(1) [OF run] call_tool_frame(2) [OF run, of f] unfolding eqs
      by (auto intro: same_but_extra_trans)
  qed simp
  then show "same_but_extra ad ad1" and "\<forall>(_, t)\<in>set active. tool_keeps f (tool_object t) \<Longrightarrow> f w1 = f w" by auto
qed

text \<open>A turn of the model.\<close>

lemma handle_generating_effect:
  assumes "handle_generating lp active params ignore_termination ad w = (Inr (state1, ad1), w1)"
  obtains g calls where "tl_generate lp (request_of params ad) w = (Inr g, w1)"
    and "ad1 = (record_generation g ad)\<lparr>ad_tool_calls := calls\<rparr>"
    and "state1 = Terminated \<or> (state1 = ProcessingTools \<and> \<not> generation_ends lp ignore_termination (record_generation g ad)
      \<and> calls \<noteq> [] \<and> (\<exists>c. tl_parser lp (gen_token_ids g) (map (tool_schema \<circ> snd) active) = Inr (c, calls)))"
proof -
  obtain r w2 where g: "tl_generate lp (request_of params ad) w = (r, w2)" by fastforce
  obtain g where r: "r = Inr g" using assms g by (cases r) (auto simp: handle_generating_def)
  let ?ad = "record_generation g ad"
  have ids: "ad_response_ids ?ad = gen_token_ids g" by (simp add: record_generation_def)
  show thesis
  proof (cases "generation_ends lp ignore_termination ?ad")
    case True
    then have "state1 = Terminated \<and> ad1 = ?ad \<and> w1 = w2"
      using assms g r by (auto simp: handle_generating_def Let_def)
    then show thesis using that [of g "ad_tool_calls ?ad"] g r by simp
  next
    case False
    then have eqs: "rbind (tl_parser lp (gen_token_ids g) (map (tool_schema \<circ> snd) active)) (\<lambda>(_, calls).
        Inr (if calls \<noteq> [] then ProcessingTools else Terminated, ?ad\<lparr>ad_tool_calls := calls\<rparr>)) = Inr (state1, ad1)" and "w1 = w2"
      using assms g r ids by (auto simp: handle_generating_def Let_def)
    obtain c calls where "tl_parser lp (gen_token_ids g) (map (tool_schema \<circ> snd) active) = Inr (c, calls)"
      and "state1 = (if calls \<noteq> [] then ProcessingTools else Terminated)" and "ad1 = ?ad\<lparr>ad_tool_calls := calls\<rparr>"
      using eqs by (auto simp: rbind_eq_Inr)
    then show thesis using that [of g calls] False g r \<open>w1 = w2\<close> by auto
  qed
qed

text \<open>A turn of the tools: what it appends is masked, and it leaves room for another token.\<close>

lemma answer_tools_effect:
  assumes "answer_tools lp names responses ad = Inr (state1, ad1)"
  obtains ids where "ad_prompt_ids ad1 = ad_prompt_ids ad @ ids"
    and "ad_response_mask ad1 = ad_response_mask ad @ replicate (length ids) 0"
    and "ad_response_logprobs ad1 = ad_response_logprobs ad @ (if ad_response_logprobs ad = [] then [] else replicate (length ids) 0)"
    and "ad_assistant_turns ad1 = ad_assistant_turns ad"
    and "(state1 = Terminated \<and> ids = [])
      \<or> (state1 = Generating \<and> length (ad_response_mask ad) + length ids < tl_response_length lp)"
proof -
  obtain processed where "rmap (process_response lp) responses = Inr processed"
    using assms by (auto simp: answer_tools_def rbind_eq_Inr)
  moreover obtain ids where "tool_response_ids lp (map fst processed) (concat (map (fst \<circ> snd) processed)) names = Inr ids"
    using assms calculation by (auto simp: answer_tools_def rbind_eq_Inr Let_def)
  ultimately show thesis
    using assms that [of "[]"] that [of ids] by (auto simp: answer_tools_def Let_def split: if_splits)
qed

lemma handle_processing_effect:
  assumes "handle_processing_tools lp active ad w = (Inr (state1, ad1), w1)"
  obtains ids where "ad_prompt_ids ad1 = ad_prompt_ids ad @ ids"
    and "ad_response_mask ad1 = ad_response_mask ad @ replicate (length ids) 0"
    and "ad_response_logprobs ad1 = ad_response_logprobs ad @ (if ad_response_logprobs ad = [] then [] else replicate (length ids) 0)"
    and "ad_assistant_turns ad1 = ad_assistant_turns ad"
    and "(state1 = Terminated \<and> ids = [])
      \<or> (state1 = Generating \<and> length (ad_response_mask ad) + length ids < tl_response_length lp)"
proof -
  let ?calls = "slice_to (tl_max_parallel_calls lp) (ad_tool_calls ad)"
  obtain rs ad2 w2 where g: "gather_all (map (call_tool lp active) ?calls) (ad, w) = (rs, (ad2, w2))"
    by (metis prod.exhaust)
  then obtain responses where "answer_tools lp (map fc_name ?calls) responses ad2 = Inr (state1, ad1)"
    using assms by (auto simp: handle_processing_tools_def Let_def rbind_eq_Inr)
  moreover note same_but_extra_fields [OF gather_tools_frame(1) [OF g]]
  ultimately show thesis by (elim answer_tools_effect) (rule that; simp)
qed

definition grows :: "('img, 'w) tool_loop \<Rightarrow> agent_state \<Rightarrow> 'img agent_data \<Rightarrow> 'img agent_data \<Rightarrow> int list \<Rightarrow> bool" where
  "grows lp state1 ad ad1 ids \<longleftrightarrow>
     ad_prompt_ids ad1 = ad_prompt_ids ad @ ids
     \<and> ad_response_mask ad1 = ad_response_mask ad @ replicate (length ids) 0
     \<and> ad_response_logprobs ad1 = ad_response_logprobs ad @ (if ad_response_logprobs ad = [] then [] else replicate (length ids) 0)
     \<and> ad_assistant_turns ad1 = ad_assistant_turns ad
     \<and> ((state1 = Terminated \<and> ids = [])
        \<or> (state1 = Generating \<and> length (ad_response_mask ad) + length ids < tl_response_length lp))"

lemma handle_processing_grows:
  assumes "handle_processing_tools lp active ad w = (Inr (state1, ad1), w1)"
  obtains ids where "grows lp state1 ad ad1 ids"
  by (rule handle_processing_effect [OF assms]) (simp add: grows_def)

lemma handle_processing_world:
  assumes "handle_processing_tools lp active ad w = (r, w1)" and "\<forall>(_, t)\<in>set active. tool_keeps f (tool_object t)"
  shows "f w1 = f w"
proof -
  let ?calls = "slice_to (tl_max_parallel_calls lp) (ad_tool_calls ad)"
  obtain rs ad2 w2 where g: "gather_all (map (call_tool lp active) ?calls) (ad, w) = (rs, (ad2, w2))"
    by (metis prod.exhaust)
  then have "w1 = w2" using assms(1) by (auto simp: handle_processing_tools_def Let_def)
  then show ?thesis using gather_tools_frame(2) [OF g assms(2)] by simp
qed

section \<open>The mask\<close>

lemma attended_append:
  "length m1 = length x1 \<Longrightarrow> attended (m1 @ m2) (x1 @ x2) = attended m1 x1 @ attended m2 x2"
  by (simp add: attended_def)

lemma attended_ones: "length xs = n \<Longrightarrow> attended (replicate n 1) xs = xs"
  unfolding attended_def by (rule filter_ones)

lemma attended_zeros: "length xs = n \<Longrightarrow> attended (replicate n 0) xs = []"
  unfolding attended_def by (rule filter_zeros)

lemma attended_take:
  "length m = length xs \<Longrightarrow>
    attended (take k m) (take k xs) = take (length (filter (\<lambda>b. b \<noteq> 0) (take k m))) (attended m xs)"
proof (induction m xs arbitrary: k rule: list_induct2)
  case (Cons b m x xs)
  then show ?case by (cases k) (auto simp: attended_def)
qed (simp add: attended_def)

lemma attended_Nil [simp]: "attended [] xs = []"
  by (simp add: attended_def)

text \<open>A conversation of a rendered prompt: behind it the generated tokens are marked by 1, all others by 0.\<close>

definition conversation :: "int list \<Rightarrow> int list \<Rightarrow> 'img agent_data \<Rightarrow> bool" where
  "conversation prompt generated ad \<longleftrightarrow>
     (\<exists>r. ad_prompt_ids ad = prompt @ r \<and> length r = length (ad_response_mask ad) \<and> set (ad_response_mask ad) \<subseteq> {0, 1}
        \<and> attended (ad_response_mask ad) r = generated)"

lemma conversation_start: "ad_response_mask ad = [] \<Longrightarrow> conversation (ad_prompt_ids ad) [] ad"
  by (simp add: conversation_def attended_def)

lemma conversation_generation:
  assumes "conversation prompt generated ad"
  shows "conversation prompt (generated @ gen_token_ids g) ((record_generation g ad)\<lparr>ad_tool_calls := calls\<rparr>)"
proof -
  obtain r where r: "ad_prompt_ids ad = prompt @ r" "length r = length (ad_response_mask ad)" "set (ad_response_mask ad) \<subseteq> {0, 1}"
      "attended (ad_response_mask ad) r = generated"
    using assms unfolding conversation_def by blast
  show ?thesis
    unfolding conversation_def record_generation_def
    by (rule exI [of _ "r @ gen_token_ids g"]) (use r in \<open>auto simp: attended_append attended_ones\<close>)
qed

lemma conversation_tools:
  assumes "conversation prompt generated ad" and "ad_prompt_ids ad1 = ad_prompt_ids ad @ ids"
    and "ad_response_mask ad1 = ad_response_mask ad @ replicate (length ids) 0"
  shows "conversation prompt generated ad1"
proof -
  obtain r where r: "ad_prompt_ids ad = prompt @ r" "length r = length (ad_response_mask ad)" "set (ad_response_mask ad) \<subseteq> {0, 1}"
      "attended (ad_response_mask ad) r = generated"
    using assms(1) unfolding conversation_def by blast
  show ?thesis
    unfolding conversation_def
    by (rule exI [of _ "r @ ids"]) (use r assms(2,3) in \<open>auto simp: attended_append attended_zeros\<close>)
qed

text \<open>The observation \<open>obs\<close> of the world is the record of the generated tokens: the server appends what it
  returns, tools do not touch it.\<close>

definition logs_generation :: "('w \<Rightarrow> int list) \<Rightarrow> ('img, 'w) tool_loop \<Rightarrow> bool" where
  "logs_generation obs lp \<longleftrightarrow>
     (\<forall>req w g w1. tl_generate lp req w = (Inr g, w1) \<longrightarrow> obs w1 = obs w @ gen_token_ids g)
     \<and> (\<forall>t\<in>set (tl_tools lp). tool_keeps obs (tool_object t))"

lemma snd_dict_set: "snd ` set (dict_set d k v) \<subseteq> insert v (snd ` set d)"
  by (induction d) (auto simp: dict_set_def)

lemma snd_dict_update: "snd ` set (dict_update d e) \<subseteq> snd ` set d \<union> snd ` set e"
proof (induction e arbitrary: d)
  case (Cons kv e)
  obtain k v where kv: "kv = (k, v)" by force
  have "snd ` set (dict_update (dict_set d k v) e) \<subseteq> snd ` set (dict_set d k v) \<union> snd ` set e" by (rule Cons.IH)
  then show ?case using snd_dict_set [of d k v] unfolding kv dict_update_def by auto
qed (simp add: dict_update_def)

lemma tool_table_tools: "snd ` set (tool_table tools) \<subseteq> set tools"
  using snd_dict_update [of "[]" "map (\<lambda>t. (ts_name (tool_schema t), t)) tools"] by (auto simp: tool_table_def)

lemma pick_tool_subset: "pick_tool table v = Inr found \<Longrightarrow> snd ` set found \<subseteq> snd ` set table"
  by (cases v) (auto split: option.splits dest!: map_of_SomeD intro: rev_image_eqI)

lemma selected_tools_subset:
  assumes "selected_tools table names = Inr chosen"
  shows "snd ` set chosen \<subseteq> snd ` set table"
proof -
  obtain parts where parts: "rmap (pick_tool table) names = Inr parts" and chosen: "chosen = dict_update [] (concat parts)"
    using assms by (auto simp: selected_tools_def rbind_eq_Inr)
  have "snd ` set found \<subseteq> snd ` set table" if "found \<in> set parts" for found
  proof -
    have "map (pick_tool table) names = map Inr parts" using parts by (simp add: rmap_eq_Inr)
    moreover have "Inr found \<in> set (map Inr parts)" using that by simp
    ultimately have "Inr found \<in> set (map (pick_tool table) names)" by (simp only:)
    then obtain v where "pick_tool table v = Inr found" by auto
    then show ?thesis by (rule pick_tool_subset)
  qed
  then have "snd ` set (concat parts) \<subseteq> snd ` set table" by auto
  then show ?thesis using snd_dict_update [of "[]" "concat parts"] unfolding chosen by auto
qed

lemma active_tools_subset:
  assumes "active_tools lp kwargs = Inr (active, schemas)"
  shows "snd ` set active \<subseteq> set (tl_tools lp)"
proof -
  let ?table = "tool_table (tl_tools lp)"
  have "active = ?table \<or> (\<exists>names. selected_tools ?table names = Inr active)"
    using assms unfolding active_tools_def Let_def rbind_eq_Inr
    by (elim exE conjE) (simp split: option.splits if_splits, auto simp: rbind_eq_Inr split: if_splits)
  then have "snd ` set active \<subseteq> snd ` set ?table" using selected_tools_subset by blast
  then show ?thesis using tool_table_tools by blast
qed

lemma active_tools_keep:
  assumes "active_tools lp kwargs = Inr (active, schemas)" and "\<forall>t\<in>set (tl_tools lp). tool_keeps f (tool_object t)"
  shows "\<forall>(_, t)\<in>set active. tool_keeps f (tool_object t)"
  using active_tools_subset [OF assms(1)] assms(2) by (auto simp: image_subset_iff)

text \<open>The start of a run.\<close>

lemma run_start_data:
  assumes "run_start lp request_id kwargs = Inr (ad, active)"
  shows "ad_response_mask ad = []" and "ad_response_logprobs ad = []" and "ad_assistant_turns ad = 0"
    and "active_tools lp kwargs = Inr active"
  using assms by (auto simp: run_start_def rbind_eq_Inr start_data_def new_agent_data_def)

lemma run_tool_agentE:
  assumes "run_tool_agent lp fuel request_id params kwargs w = Some (Inr out, w1)"
  obtains ad0 active ad where "run_start lp request_id kwargs = Inr (ad0, active)"
    and "state_loop lp active params fuel Pending ad0 w = Some (Inr ad, w1)" and "out = loop_output (tl_response_length lp) ad"
  using assms by (auto simp: run_tool_agent_def res_simps split: sum.splits)

text \<open>The prompt that a run renders.\<close>

definition first_prompt :: "('img, 'w) tool_loop \<Rightarrow> 'img agent_data \<Rightarrow> 'img mobj list \<Rightarrow> int list res" where
  "first_prompt lp ad schemas =
     apply_chat_template (tl_base lp) (ad_messages ad) (Some schemas)
       (ad_image_data ad, ad_video_data ad, ad_audio_data ad) (Some (ad_mm_processor_kwargs ad)) False"

definition marked ::
    "('img, 'w) tool_loop \<Rightarrow> 'img agent_data \<Rightarrow> 'img mobj list \<Rightarrow> 'w \<Rightarrow> agent_state \<Rightarrow> 'img agent_data \<Rightarrow> 'w \<Rightarrow> bool" where
  "marked lp ad0 schemas w0 state ad w \<longleftrightarrow>
     (if state = Pending then ad = ad0 \<and> w = w0
      else \<exists>prompt g. first_prompt lp ad0 schemas = Inr prompt \<and> conversation prompt g ad
        \<and> (\<forall>obs. logs_generation obs lp \<longrightarrow> obs w = obs w0 @ g))"

lemma marked_step:
  assumes "marked lp ad0 (snd active) w0 state ad w" and "handle lp active params state ad w = (Inr (state1, ad1), w1)"
    and "state \<noteq> Terminated" and "ad_response_mask ad0 = []" and "snd ` set (fst active) \<subseteq> set (tl_tools lp)"
  shows "marked lp ad0 (snd active) w0 state1 ad1 w1"
proof (cases state)
  case Pending
  then obtain prompt where "first_prompt lp ad0 (snd active) = Inr prompt" "state1 = Generating" "w1 = w0"
      "ad1 = ad0\<lparr>ad_prompt_ids := prompt\<rparr>"
    using assms(1,2) by (auto simp: marked_def handle_def handle_pending_def first_prompt_def rbind_eq_Inr)
  then show ?thesis using conversation_start [of ad1] assms(4) by (auto simp: marked_def intro!: exI [of _ "[]"])
next
  case Generating
  then obtain prompt g where I: "first_prompt lp ad0 (snd active) = Inr prompt" "conversation prompt g ad"
      "\<And>obs. logs_generation obs lp \<Longrightarrow> obs w = obs w0 @ g"
    using assms(1) by (auto simp: marked_def)
  obtain gen calls where gen: "tl_generate lp (request_of params ad) w = (Inr gen, w1)"
      "ad1 = (record_generation gen ad)\<lparr>ad_tool_calls := calls\<rparr>" "state1 \<noteq> Pending"
    using assms(2) Generating by (auto simp: handle_def elim!: handle_generating_effect)
  have "obs w1 = obs w0 @ g @ gen_token_ids gen" if "logs_generation obs lp" for obs
    using I(3) [OF that] gen(1) that by (simp add: logs_generation_def)
  then show ?thesis
    using I(1) gen(2,3) conversation_generation [OF I(2), of gen calls] unfolding marked_def by auto
next
  case ProcessingTools
  then obtain prompt g where I: "first_prompt lp ad0 (snd active) = Inr prompt" "conversation prompt g ad"
      "\<And>obs. logs_generation obs lp \<Longrightarrow> obs w = obs w0 @ g"
    using assms(1) by (auto simp: marked_def)
  have run: "handle_processing_tools lp (fst active) ad w = (Inr (state1, ad1), w1)"
    using assms(2) ProcessingTools by (simp add: handle_def)
  obtain ids where "grows lp state1 ad ad1 ids"
    by (rule handle_processing_grows [OF run])
  then have ids: "ad_prompt_ids ad1 = ad_prompt_ids ad @ ids"
      "ad_response_mask ad1 = ad_response_mask ad @ replicate (length ids) 0" "state1 \<noteq> Pending"
    by (auto simp: grows_def)
  have "obs w1 = obs w0 @ g" if "logs_generation obs lp" for obs
  proof -
    have "\<forall>(_, t)\<in>set (fst active). tool_keeps obs (tool_object t)"
      using that assms(5) by (auto simp: logs_generation_def image_subset_iff)
    then show ?thesis using handle_processing_world [OF run, of obs] I(3) [OF that] by simp
  qed
  then show ?thesis using I(1) ids(3) conversation_tools [OF I(2) ids(1,2)] unfolding marked_def by auto
qed (use assms(3) in simp)

lemma run_conversation:
  assumes "run_start lp request_id kwargs = Inr (ad0, active)"
    and "state_loop lp active params fuel Pending ad0 w0 = Some (Inr ad, w1)"
  obtains prompt g where "first_prompt lp ad0 (snd active) = Inr prompt" and "conversation prompt g ad"
    and "\<And>obs. logs_generation obs lp \<Longrightarrow> obs w1 = obs w0 @ g"
proof -
  note start = run_start_data [OF assms(1)]
  have "active_tools lp kwargs = Inr (fst active, snd active)" using start(4) by simp
  then have tools: "snd ` set (fst active) \<subseteq> set (tl_tools lp)" by (rule active_tools_subset)
  have "marked lp ad0 (snd active) w0 Pending ad0 w0" by (simp add: marked_def)
  then have "marked lp ad0 (snd active) w0 Terminated ad w1"
    by (rule state_loop_result [OF assms(2)]) (rule marked_step [OF _ _ _ start(1) tools])
  then show thesis using that by (auto simp: marked_def)
qed

lemma loop_output_response:
  assumes "ad_prompt_ids ad = prompt @ r" and "length r = length (ad_response_mask ad)"
  shows "ao_prompt_ids (loop_output width ad) = prompt"
    and "ad_response_mask ad \<noteq> [] \<Longrightarrow> ao_response_ids (loop_output width ad) = take width r"
    and "ao_response_mask (loop_output width ad) = take width (ad_response_mask ad)"
proof -
  have "int (length (ad_prompt_ids ad)) - int (length (ad_response_mask ad)) = int (length prompt)"
    using assms by simp
  then show "ao_prompt_ids (loop_output width ad) = prompt"
    using assms by (simp add: loop_output_def Let_def)
  show "ad_response_mask ad \<noteq> [] \<Longrightarrow> ao_response_ids (loop_output width ad) = take width r"
    using assms by (simp add: loop_output_def Let_def slice_from_neg)
qed (simp add: loop_output_def Let_def)

lemma loop_output_logprobs:
  "ad_response_logprobs ad \<noteq> [] \<Longrightarrow> ao_response_logprobs (loop_output width ad) = Some (take width (ad_response_logprobs ad))"
  by (simp add: loop_output_def Let_def)

lemma loop_output_attended:
  assumes "conversation prompt g ad"
  shows "attended (ao_response_mask (loop_output width ad)) (ao_response_ids (loop_output width ad))
    = take (length (filter (\<lambda>m. m \<noteq> 0) (ao_response_mask (loop_output width ad)))) g"
    and "length (ao_response_mask (loop_output width ad)) < width \<Longrightarrow>
      attended (ao_response_mask (loop_output width ad)) (ao_response_ids (loop_output width ad)) = g"
proof -
  obtain r where r: "ad_prompt_ids ad = prompt @ r" "length r = length (ad_response_mask ad)" "attended (ad_response_mask ad) r = g"
    using assms unfolding conversation_def by blast
  note out = loop_output_response [OF r(1,2), of width]
  show "attended (ao_response_mask (loop_output width ad)) (ao_response_ids (loop_output width ad))
    = take (length (filter (\<lambda>m. m \<noteq> 0) (ao_response_mask (loop_output width ad)))) g"
    using r out by (cases "ad_response_mask ad = []") (auto simp: attended_take)
  show "attended (ao_response_mask (loop_output width ad)) (ao_response_ids (loop_output width ad)) = g"
    if "length (ao_response_mask (loop_output width ad)) < width"
    using r out that by (cases "ad_response_mask ad = []") auto
qed

section \<open>A small loop\<close>

text \<open>A template of one token for the system, one per message and one to ask for a generation; a server that
  returns the outputs of a script and records them; a parser that finds a call wherever token 50 is; a function
  tool and a tool with instances, whose open ones are a list of the world.\<close>

type_synonym demo_world = "int list list \<times> int list \<times> string list"

definition demo_render :: "(nat, nat mobj) chat_renderer" where
  "demo_render messages generation tools =
     Inr (MList (MInt 100 # map (\<lambda>m. case m of MDict [(_, MStr role), _] \<Rightarrow> MInt (if role = ''tool'' then 2 else 1) | _ \<Rightarrow> MInt 0) messages
       @ (if generation then [MInt 9] else [])))"

definition demo_base :: "nat agent_base" where
  "demo_base = \<lparr>ab_tokens = demo_render, ab_processor = None, ab_extract = (\<lambda>_. Inr (None, None, None)),
     ab_mm_processor_kwargs = [], ab_system_prompt = [100]\<rparr>"

definition demo_generate :: "nat gen_request \<Rightarrow> (demo_world, nat generation) action" where
  "demo_generate req w =
     (case w of ([], seen, opened) \<Rightarrow> (Inl RuntimeError, w)
      | (ids # script, seen, opened) \<Rightarrow>
          (Inr \<lparr>gen_token_ids = ids, gen_log_probs = Some (replicate (length ids) (-1)), gen_routed_experts = None,
                gen_num_preempted = None, gen_extra_fields = []\<rparr>, (script, seen @ ids, opened)))"

definition demo_schema :: "string \<Rightarrow> nat tool_schema" where
  "demo_schema name = \<lparr>ts_type = ''function'', ts_name = name, ts_properties = [], ts_dump = MStr name\<rparr>"

definition demo_function :: "(nat, demo_world) tool" where
  "demo_function = \<lparr>tool_schema = demo_schema ''echo'',
     tool_object = FunctionTool (\<lambda>d w. (Inr (PlainValue (MStr ''done'')), w))\<rparr>"

definition demo_lifecycle :: "(nat, demo_world) tool" where
  "demo_lifecycle = \<lparr>tool_schema = demo_schema ''box'',
     tool_object = BaseTool (\<lambda>kw (script, seen, opened). (Inr ''i1'', (script, seen, ''i1'' # opened)))
       (\<lambda>inst args s. (Inl RuntimeError, s))
       (\<lambda>inst (script, seen, opened). (Inr (), (script, seen, remove1 inst opened)))\<rparr>"

definition demo_texts :: "(nat, demo_world) loop_texts" where
  "demo_texts = \<lparr>lt_texts = \<lparr>py_loads = (\<lambda>s. if s = ''{}'' then Inr (MDict []) else Inl ''Expecting value''),
       py_dumps = (\<lambda>v. Inr ''{}''), py_str = (\<lambda>v. ''[...]''), py_eval = (\<lambda>s. Inl ValueError)\<rparr>,
     lt_str = (\<lambda>v. ''value''), lt_error = (\<lambda>w e. ''failed'')\<rparr>"

definition demo_loop :: "string \<Rightarrow> (nat, demo_world) tool_loop" where
  "demo_loop name = \<lparr>tl_base = demo_base, tl_texts = demo_texts, tl_tools = [demo_function, demo_lifecycle],
     tl_max_user_turns = None, tl_max_assistant_turns = None, tl_max_parallel_calls = 1,
     tl_max_tool_response_length = 256, tl_truncate_side = ''middle'', tl_parser_name = ''demo'',
     tl_parser = (\<lambda>ids tools. Inr ([], if 50 \<in> set ids then [\<lparr>fc_name = name, fc_arguments = ''{}''\<rparr>] else [])),
     tl_encode = (\<lambda>s. Inr []), tl_response_length = 8, tl_generate = demo_generate\<rparr>"

definition demo_kwargs :: "nat mobj pydict" where
  "demo_kwargs = [(''raw_prompt'', MList [MDict [(''role'', MStr ''user''), (''content'', MStr ''hello'')]])]"

definition demo_params :: sampling_values where
  "demo_params = \<lparr>sv_temperature = 1, sv_top_p = 1, sv_top_k = -1, sv_presence_penalty = 0, sv_repetition_penalty = 1\<rparr>"

definition demo_world0 :: demo_world where
  "demo_world0 = ([[7, 50], [8, 9]], [], [])"

definition demo_seen :: "demo_world \<Rightarrow> int list" where
  "demo_seen w = fst (snd w)"

lemmas demo_simps = demo_loop_def demo_base_def demo_generate_def demo_function_def demo_lifecycle_def demo_texts_def

lemma demo_logs: "logs_generation demo_seen (demo_loop name)"
  by (auto simp: logs_generation_def demo_simps demo_seen_def tool_keeps_def split: list.splits)

section \<open>Properties of a run\<close>

text \<open>C11: The response mask of a conversation with tools is 1 on the tokens that the model generated and 0 on all
  others: the tokens at the ones, in order, are what the server returned over all turns of the run, up to the
  cut at the response length; if the response is shorter than that, they are all of it. The prompt of the output
  is the rendered prompt, whatever was appended.\<close>

theorem mask_marks_generated_tokens:
  assumes "run_tool_agent lp fuel request_id params kwargs w = Some (Inr out, w1)"
    and "logs_generation obs lp" and "obs w = []"
  shows "attended (ao_response_mask out) (ao_response_ids out)
      = take (length (filter (\<lambda>m. m \<noteq> 0) (ao_response_mask out))) (obs w1)
    \<and> (length (ao_response_mask out) < tl_response_length lp
         \<longrightarrow> attended (ao_response_mask out) (ao_response_ids out) = obs w1)
    \<and> set (ao_response_mask out) \<subseteq> {0, 1}
    \<and> (\<exists>ad active. run_start lp request_id kwargs = Inr (ad, active) \<and> first_prompt lp ad (snd active) = Inr (ao_prompt_ids out))"
proof -
  obtain ad0 active ad where run: "run_start lp request_id kwargs = Inr (ad0, active)"
      "state_loop lp active params fuel Pending ad0 w = Some (Inr ad, w1)" and out: "out = loop_output (tl_response_length lp) ad"
    using assms(1) by (rule run_tool_agentE)
  obtain prompt g where g: "first_prompt lp ad0 (snd active) = Inr prompt" "conversation prompt g ad"
      and seen: "obs w1 = obs w @ g"
    using run_conversation [OF run] assms(2) by metis
  obtain r where r: "ad_prompt_ids ad = prompt @ r" "length r = length (ad_response_mask ad)" "set (ad_response_mask ad) \<subseteq> {0, 1}"
    using g(2) unfolding conversation_def by blast
  have "set (ao_response_mask out) \<subseteq> {0, 1}"
    using r(3) set_take_subset [of "tl_response_length lp" "ad_response_mask ad"] unfolding out loop_output_response(3) [OF r(1,2)] by blast
  then show ?thesis
    using g(1) seen assms(3) run(1) loop_output_attended [OF g(2), of "tl_response_length lp"] loop_output_response(1) [OF r(1,2)]
    unfolding out by auto
qed

theorem mask_marks_generated_tokens_witness:
  "\<exists>out w1. run_tool_agent (demo_loop ''echo'') 9 ''r'' demo_params demo_kwargs demo_world0 = Some (Inr out, w1)
    \<and> ao_prompt_ids out = [100, 1, 9] \<and> ao_response_ids out = [7, 50, 2, 9, 8, 9] \<and> ao_response_mask out = [1, 1, 0, 0, 1, 1]
    \<and> attended (ao_response_mask out) (ao_response_ids out) = [7, 50, 8, 9]"
proof -
  have "case run_tool_agent (demo_loop ''echo'') 9 ''r'' demo_params demo_kwargs demo_world0 of
      Some (Inr out, w1) \<Rightarrow> ao_prompt_ids out = [100, 1, 9] \<and> ao_response_ids out = [7, 50, 2, 9, 8, 9]
        \<and> ao_response_mask out = [1, 1, 0, 0, 1, 1] \<and> demo_seen w1 = [7, 50, 8, 9]
    | _ \<Rightarrow> False"
    by code_simp
  then obtain out w1 where run: "run_tool_agent (demo_loop ''echo'') 9 ''r'' demo_params demo_kwargs demo_world0 = Some (Inr out, w1)"
      "ao_prompt_ids out = [100, 1, 9]" "ao_response_ids out = [7, 50, 2, 9, 8, 9]" "ao_response_mask out = [1, 1, 0, 0, 1, 1]"
      "demo_seen w1 = [7, 50, 8, 9]"
    by (auto split: option.splits prod.splits sum.splits)
  moreover have "demo_seen demo_world0 = []" by (simp add: demo_seen_def demo_world0_def)
  then have "attended (ao_response_mask out) (ao_response_ids out) = [7, 50, 8, 9]"
    using mask_marks_generated_tokens [OF run(1) demo_logs] run by (simp add: demo_loop_def)
  ultimately show ?thesis by blast
qed

text \<open>A parser that finds no call in an empty output, and a server that gives a log-probability per token.\<close>

definition quiet_parser :: "('img, 'w) tool_loop \<Rightarrow> bool" where
  "quiet_parser lp \<longleftrightarrow> (\<forall>tools c calls. tl_parser lp [] tools = Inr (c, calls) \<longrightarrow> calls = [])"

definition gives_logprobs :: "('img, 'w) tool_loop \<Rightarrow> bool" where
  "gives_logprobs lp \<longleftrightarrow>
     (\<forall>req w g w1. tl_generate lp req w = (Inr g, w1) \<longrightarrow>
        (\<exists>lps. gen_log_probs g = Some lps \<and> length lps = length (gen_token_ids g)))"

definition aligned :: "agent_state \<Rightarrow> 'img agent_data \<Rightarrow> bool" where
  "aligned state ad \<longleftrightarrow>
     list_all2 (\<lambda>m l. m = 0 \<longrightarrow> l = 0) (ad_response_mask ad) (ad_response_logprobs ad)
     \<and> (state = ProcessingTools \<longrightarrow> ad_response_logprobs ad \<noteq> [])"

lemma aligned_step:
  assumes "aligned state ad" and "handle lp active params state ad w = (Inr (state1, ad1), w1)"
    and "state \<noteq> Terminated" and "quiet_parser lp" and "gives_logprobs lp"
  shows "aligned state1 ad1"
proof (cases state)
  case Pending
  then show ?thesis using assms(1,2) by (auto simp: aligned_def handle_def handle_pending_def rbind_eq_Inr)
next
  case Generating
  obtain gen calls where gen: "tl_generate lp (request_of params ad) w = (Inr gen, w1)"
      "ad1 = (record_generation gen ad)\<lparr>ad_tool_calls := calls\<rparr>"
      "state1 = Terminated \<or> (state1 = ProcessingTools \<and> calls \<noteq> []
        \<and> (\<exists>c. tl_parser lp (gen_token_ids gen) (map (tool_schema \<circ> snd) (fst active)) = Inr (c, calls)))"
    using assms(2) Generating by (auto simp: handle_def elim!: handle_generating_effect)
  have gen3: "state1 = Terminated \<or> (state1 = ProcessingTools \<and> gen_token_ids gen \<noteq> [])"
    using gen(3) assms(4) unfolding quiet_parser_def by metis
  obtain lps where lps: "gen_log_probs gen = Some lps" "length lps = length (gen_token_ids gen)"
    using assms(5) gen(1) unfolding gives_logprobs_def by blast
  have "list_all2 (\<lambda>m l. m = 0 \<longrightarrow> l = 0) (replicate (length (gen_token_ids gen)) (1 :: int)) lps"
    using lps(2) by (simp add: list_all2_conv_all_nth)
  then show ?thesis
    using assms(1) gen(2) gen3 lps by (auto simp: aligned_def record_generation_def intro!: list_all2_appendI)
next
  case ProcessingTools
  have run: "handle_processing_tools lp (fst active) ad w = (Inr (state1, ad1), w1)"
    using assms(2) ProcessingTools by (simp add: handle_def)
  obtain ids where "grows lp state1 ad ad1 ids"
    by (rule handle_processing_grows [OF run])
  then have ids: "ad_response_mask ad1 = ad_response_mask ad @ replicate (length ids) 0"
      "ad_response_logprobs ad1 = ad_response_logprobs ad @ (if ad_response_logprobs ad = [] then [] else replicate (length ids) 0)"
      "state1 \<noteq> ProcessingTools"
    by (auto simp: grows_def)
  have "list_all2 (\<lambda>m l. m = 0 \<longrightarrow> l = 0) (replicate (length ids) (0 :: int)) (replicate (length ids) (0 :: real))"
    by (simp add: list_all2_conv_all_nth)
  then show ?thesis
    using assms(1) ids ProcessingTools by (auto simp: aligned_def intro!: list_all2_appendI)
qed (use assms(3) in simp)

lemma zeros_aligned:
  "list_all2 (\<lambda>m l. m = 0 \<longrightarrow> l = 0) m l \<Longrightarrow> m \<noteq> [] \<Longrightarrow> l \<noteq> [] \<and> length (take k l) = length (take k m)
    \<and> (\<forall>i < length (take k m). take k m ! i = 0 \<longrightarrow> take k l ! i = 0)"
  by (auto simp: list_all2_conv_all_nth)

text \<open>C22: When the server gives a log-probability for every token and the parser finds no call in an empty output,
  the mask, the response and the log-probabilities of a run with generated tokens have the same length, at most
  the response length, and the log-probability of every token that was not generated is 0.\<close>

theorem tool_run_columns_agree:
  assumes "run_tool_agent lp fuel request_id params kwargs w = Some (Inr out, w1)"
    and "quiet_parser lp" and "gives_logprobs lp" and "ao_response_mask out \<noteq> []"
  shows "length (ao_response_ids out) = length (ao_response_mask out) \<and> length (ao_response_mask out) \<le> tl_response_length lp
    \<and> (\<exists>lps. ao_response_logprobs out = Some lps \<and> length lps = length (ao_response_mask out)
         \<and> (\<forall>i < length lps. ao_response_mask out ! i = 0 \<longrightarrow> lps ! i = 0))"
proof -
  obtain ad0 active ad where run: "run_start lp request_id kwargs = Inr (ad0, active)"
      "state_loop lp active params fuel Pending ad0 w = Some (Inr ad, w1)" and out: "out = loop_output (tl_response_length lp) ad"
    using assms(1) by (rule run_tool_agentE)
  note start = run_start_data [OF run(1)]
  have "aligned Pending ad0" using start by (simp add: aligned_def)
  then have "aligned Terminated ad"
    by (rule state_loop_result [OF run(2), where I = "\<lambda>s ad _. aligned s ad"]) (rule aligned_step [OF _ _ _ assms(2,3)])
  moreover obtain prompt g where "conversation prompt g ad"
    by (rule run_conversation [OF run])
  then obtain r where r: "ad_prompt_ids ad = prompt @ r" "length r = length (ad_response_mask ad)"
    unfolding conversation_def by blast
  have msk: "ao_response_mask out = take (tl_response_length lp) (ad_response_mask ad)" "ad_response_mask ad \<noteq> []"
    using assms(4) unfolding out loop_output_response(3) [OF r] by auto
  ultimately have "ad_response_logprobs ad \<noteq> []"
      and "length (take k (ad_response_logprobs ad)) = length (take k (ad_response_mask ad))"
      and "\<forall>i < length (take k (ad_response_mask ad)). take k (ad_response_mask ad) ! i = 0 \<longrightarrow> take k (ad_response_logprobs ad) ! i = 0" for k
    using zeros_aligned [of "ad_response_mask ad" "ad_response_logprobs ad" k] unfolding aligned_def by blast+
  then show ?thesis
    using loop_output_response(2) [OF r msk(2), of "tl_response_length lp"] loop_output_logprobs [of ad "tl_response_length lp"] r(2)
    unfolding out msk(1) [unfolded out] by simp
qed

theorem tool_run_columns_agree_witness:
  "\<exists>out w1. run_tool_agent (demo_loop ''box'') 9 ''r'' demo_params demo_kwargs demo_world0 = Some (Inr out, w1)
    \<and> (\<exists>lps. ao_response_logprobs out = Some lps \<and> length lps = 6)"
proof -
  have "case run_tool_agent (demo_loop ''box'') 9 ''r'' demo_params demo_kwargs demo_world0 of
      Some (Inr out, w1) \<Rightarrow> ao_response_mask out = [1, 1, 0, 0, 1, 1] | _ \<Rightarrow> False"
    by code_simp
  then obtain out w1 where run: "run_tool_agent (demo_loop ''box'') 9 ''r'' demo_params demo_kwargs demo_world0 = Some (Inr out, w1)"
      "ao_response_mask out = [1, 1, 0, 0, 1, 1]"
    by (auto split: option.splits prod.splits sum.splits)
  have quiet: "quiet_parser (demo_loop ''box'')" by (simp add: quiet_parser_def demo_loop_def)
  have given: "gives_logprobs (demo_loop ''box'')" by (auto simp: gives_logprobs_def demo_simps split: list.splits)
  have "ao_response_mask out \<noteq> []" using run(2) by simp
  from tool_run_columns_agree [OF run(1) quiet given this] show ?thesis
    unfolding run(2) by (intro exI [of _ out] exI [of _ w1] conjI run(1)) auto
qed

text \<open>A turn of the tools that would fill the response is dropped, so what the cut removes was generated.\<close>

definition roomy :: "('img, 'w) tool_loop \<Rightarrow> agent_state \<Rightarrow> 'img agent_data \<Rightarrow> bool" where
  "roomy lp state ad \<longleftrightarrow>
     (if state \<in> {Pending, Generating} then length (ad_response_mask ad) \<le> tl_response_length lp
      else if state = ProcessingTools then length (ad_response_mask ad) < tl_response_length lp
      else set (drop (tl_response_length lp) (ad_response_mask ad)) \<subseteq> {1})"

lemma roomy_step:
  assumes "roomy lp state ad" and "handle lp active params state ad w = (Inr (state1, ad1), w1)" and "state \<noteq> Terminated"
  shows "roomy lp state1 ad1"
proof (cases state)
  case Pending
  then show ?thesis using assms(1,2) by (auto simp: roomy_def handle_def handle_pending_def rbind_eq_Inr)
next
  case Generating
  obtain gen calls where gen: "ad1 = (record_generation gen ad)\<lparr>ad_tool_calls := calls\<rparr>"
      "state1 = Terminated \<or> (state1 = ProcessingTools \<and> \<not> generation_ends lp False (record_generation gen ad))"
    using assms(2) Generating by (auto simp: handle_def elim!: handle_generating_effect)
  then show ?thesis
    using assms(1) Generating by (auto simp: roomy_def record_generation_def generation_ends_def dest: in_set_dropD)
next
  case ProcessingTools
  have run: "handle_processing_tools lp (fst active) ad w = (Inr (state1, ad1), w1)"
    using assms(2) ProcessingTools by (simp add: handle_def)
  obtain ids where "grows lp state1 ad ad1 ids"
    by (rule handle_processing_grows [OF run])
  then show ?thesis using assms(1) ProcessingTools by (auto simp: roomy_def grows_def)
qed (use assms(3) in simp)

text \<open>A tool's answer is never cut: at the end of the loop, every token of the conversation beyond the response
  length was generated by the model.\<close>

theorem tool_answers_never_cut:
  assumes "run_start lp request_id kwargs = Inr (ad0, active)"
    and "state_loop lp active params fuel Pending ad0 w = Some (Inr ad, w1)"
  shows "set (drop (tl_response_length lp) (ad_response_mask ad)) \<subseteq> {1}"
proof -
  have "roomy lp Pending ad0" using run_start_data(1) [OF assms(1)] by (simp add: roomy_def)
  then have "roomy lp Terminated ad"
    by (rule state_loop_result [OF assms(2), where I = "\<lambda>s ad _. roomy lp s ad"]) (rule roomy_step)
  then show ?thesis by (simp add: roomy_def)
qed

theorem tool_answers_never_cut_witness:
  "\<exists>ad0 active ad w1. run_start (demo_loop ''echo'') ''r'' demo_kwargs = Inr (ad0, active)
    \<and> state_loop (demo_loop ''echo'') active demo_params 9 Pending ad0 ([[7, 50], [1, 2, 3, 4, 5, 6]], [], []) = Some (Inr ad, w1)
    \<and> ad_response_mask ad = [1, 1, 0, 0, 1, 1, 1, 1, 1, 1] \<and> set (drop 8 (ad_response_mask ad)) \<subseteq> {1}"
proof -
  let ?loop = "\<lambda>p. state_loop (demo_loop ''echo'') (snd p) demo_params 9 Pending (fst p) ([[7, 50], [1, 2, 3, 4, 5, 6]], [], [])"
  have "case run_start (demo_loop ''echo'') ''r'' demo_kwargs of
      Inr p \<Rightarrow> (case ?loop p of
                  Some q \<Rightarrow> (case fst q of Inr ad \<Rightarrow> ad_response_mask ad = [1, 1, 0, 0, 1, 1, 1, 1, 1, 1] | Inl _ \<Rightarrow> False)
                | None \<Rightarrow> False)
    | Inl _ \<Rightarrow> False"
    by code_simp
  then obtain p where run1: "run_start (demo_loop ''echo'') ''r'' demo_kwargs = Inr p" and
      "case ?loop p of
         Some q \<Rightarrow> (case fst q of Inr ad \<Rightarrow> ad_response_mask ad = [1, 1, 0, 0, 1, 1, 1, 1, 1, 1] | Inl _ \<Rightarrow> False)
       | None \<Rightarrow> False"
    by (cases "run_start (demo_loop ''echo'') ''r'' demo_kwargs") simp_all
  then obtain q where run2: "?loop p = Some q" and
      "case fst q of Inr ad \<Rightarrow> ad_response_mask ad = [1, 1, 0, 0, 1, 1, 1, 1, 1, 1] | Inl _ \<Rightarrow> False"
    by (cases "?loop p") simp_all
  then obtain ad where run3: "fst q = Inr ad" and msk: "ad_response_mask ad = [1, 1, 0, 0, 1, 1, 1, 1, 1, 1]"
    by (cases "fst q") simp_all
  have start: "run_start (demo_loop ''echo'') ''r'' demo_kwargs = Inr (fst p, snd p)"
    and loop: "?loop p = Some (Inr ad, snd q)"
    using run1 run2 run3 by (simp, metis prod.collapse)
  have "set (drop 8 (ad_response_mask ad)) \<subseteq> {1}"
    using tool_answers_never_cut [OF start loop] by (simp add: demo_loop_def)
  then show ?thesis using start loop msk by blast
qed

section \<open>Termination\<close>

definition room_measure :: "('img, 'w) tool_loop \<Rightarrow> agent_state \<Rightarrow> 'img agent_data \<Rightarrow> nat" where
  "room_measure lp state ad =
     (case state of
        Pending \<Rightarrow> 2 * tl_response_length lp + 2
      | Generating \<Rightarrow> 2 * (tl_response_length lp - length (ad_response_mask ad)) + 1
      | ProcessingTools \<Rightarrow> 2 * (tl_response_length lp - length (ad_response_mask ad)) + 2
      | Terminated \<Rightarrow> 0)"

lemma room_measure_step:
  assumes "handle lp active params state ad w = (Inr (state1, ad1), w1)" and "state \<noteq> Terminated" and "quiet_parser lp"
  shows "state1 = Terminated \<or> room_measure lp state1 ad1 < room_measure lp state ad"
proof (cases state)
  case Pending
  then show ?thesis using assms(1) by (auto simp: room_measure_def handle_def handle_pending_def rbind_eq_Inr)
next
  case Generating
  obtain gen calls where gen: "ad1 = (record_generation gen ad)\<lparr>ad_tool_calls := calls\<rparr>"
      "state1 = Terminated \<or> (state1 = ProcessingTools \<and> \<not> generation_ends lp False (record_generation gen ad)
        \<and> calls \<noteq> [] \<and> (\<exists>c. tl_parser lp (gen_token_ids gen) (map (tool_schema \<circ> snd) (fst active)) = Inr (c, calls)))"
    using assms(1) Generating by (auto simp: handle_def elim!: handle_generating_effect)
  then have "state1 = Terminated \<or> (gen_token_ids gen \<noteq> [] \<and> state1 = ProcessingTools
      \<and> length (ad_response_mask ad1) < tl_response_length lp)"
    using assms(3) unfolding quiet_parser_def by (auto simp: generation_ends_def record_generation_def)
  moreover have "length (ad_response_mask ad1) = length (ad_response_mask ad) + length (gen_token_ids gen)"
    using gen(1) by (simp add: record_generation_def)
  ultimately show ?thesis
    using Generating by (cases "gen_token_ids gen") (auto simp: room_measure_def)
next
  case ProcessingTools
  have run: "handle_processing_tools lp (fst active) ad w = (Inr (state1, ad1), w1)"
    using assms(1) ProcessingTools by (simp add: handle_def)
  obtain ids where "grows lp state1 ad ad1 ids" by (rule handle_processing_grows [OF run])
  then show ?thesis using ProcessingTools by (auto simp: room_measure_def grows_def)
qed (use assms(2) in simp)

definition turn_measure :: "nat \<Rightarrow> agent_state \<Rightarrow> 'img agent_data \<Rightarrow> nat" where
  "turn_measure n state ad =
     (case state of
        Pending \<Rightarrow> 2 * n + 2
      | Generating \<Rightarrow> 2 * nat (int n - ad_assistant_turns ad) + 1
      | ProcessingTools \<Rightarrow> 2 * nat (int n - ad_assistant_turns ad) + 2
      | Terminated \<Rightarrow> 0)"

lemma turn_measure_step:
  assumes "handle lp active params state ad w = (Inr (state1, ad1), w1)" and "state \<noteq> Terminated"
    and "tl_max_assistant_turns lp = Some (int n)" and "0 < n" and "0 \<le> ad_assistant_turns ad"
  shows "0 \<le> ad_assistant_turns ad1 \<and> (state1 = Terminated \<or> turn_measure n state1 ad1 < turn_measure n state ad)"
proof (cases state)
  case Pending
  then show ?thesis using assms(1,5) by (auto simp: turn_measure_def handle_def handle_pending_def rbind_eq_Inr)
next
  case Generating
  obtain gen calls where gen: "ad1 = (record_generation gen ad)\<lparr>ad_tool_calls := calls\<rparr>"
      "state1 = Terminated \<or> (state1 = ProcessingTools \<and> \<not> generation_ends lp False (record_generation gen ad))"
    using assms(1) Generating by (auto simp: handle_def elim!: handle_generating_effect)
  have turns: "ad_assistant_turns ad1 = ad_assistant_turns ad + 1" using gen(1) by (simp add: record_generation_def)
  have "state1 = Terminated \<or> (state1 = ProcessingTools \<and> ad_assistant_turns ad + 1 < int n)"
    using gen(2) assms(3,4) by (auto simp: generation_ends_def turn_limit_def record_generation_def)
  then show ?thesis
    using Generating turns assms(5) by (auto simp: turn_measure_def)
next
  case ProcessingTools
  have run: "handle_processing_tools lp (fst active) ad w = (Inr (state1, ad1), w1)"
    using assms(1) ProcessingTools by (simp add: handle_def)
  obtain ids where "grows lp state1 ad ad1 ids" by (rule handle_processing_grows [OF run])
  then show ?thesis using ProcessingTools assms(5) by (auto simp: turn_measure_def grows_def)
qed (use assms(2) in simp)

text \<open>C32: The loop ends. If the parser finds no call in an empty output, it ends within two handlers per token of the
  response length and two more, whatever the server and the tools do; if the turns of the model are limited to
  \<open>n > 0\<close>, within two handlers per turn and two more, even if every output is empty. (Each step of the fuel is
  one handler.)\<close>

theorem tool_loop_terminates:
  assumes "quiet_parser lp \<and> 2 * tl_response_length lp + 2 \<le> fuel
    \<or> 0 < n \<and> tl_max_assistant_turns lp = Some (int n) \<and> 2 * n + 2 \<le> fuel"
  shows "\<exists>r w1. run_tool_agent lp fuel request_id params kwargs w = Some (r, w1)"
proof (cases "run_start lp request_id kwargs")
  case (Inr start)
  obtain ad0 active where start: "start = (ad0, active)" by (cases start)
  have turns: "ad_assistant_turns ad0 = 0" using run_start_data(3) Inr start by blast
  have "\<exists>r w1. state_loop lp active params fuel Pending ad0 w = Some (r, w1)"
    using assms
  proof (elim disjE conjE)
    assume "quiet_parser lp" and "2 * tl_response_length lp + 2 \<le> fuel"
    then show ?thesis
      by (intro state_loop_terminates [where I = "\<lambda>_ _ _. True" and f = "room_measure lp"])
        (auto simp: room_measure_def [of lp Pending] dest: room_measure_step, auto simp: room_measure_def split: agent_state.splits)
  next
    assume "0 < n" and limit: "tl_max_assistant_turns lp = Some (int n)" and "2 * n + 2 \<le> fuel"
    then show ?thesis
      using turns by (intro state_loop_terminates [where I = "\<lambda>_ ad _. 0 \<le> ad_assistant_turns ad" and f = "turn_measure n"])
        (auto simp: turn_measure_def [of n Pending] dest: turn_measure_step [OF _ _ limit], auto simp: turn_measure_def split: agent_state.splits)
  qed
  then show ?thesis using Inr start by (auto simp: run_tool_agent_def)
qed (simp add: run_tool_agent_def)

theorem tool_loop_terminates_witness:
  "quiet_parser (demo_loop ''box'') \<and> (\<exists>r w1. run_tool_agent (demo_loop ''box'') 18 ''r'' demo_params demo_kwargs demo_world0 = Some (r, w1))"
proof -
  have "quiet_parser (demo_loop ''box'')" by (simp add: quiet_parser_def demo_loop_def)
  then show ?thesis
    using tool_loop_terminates [of "demo_loop ''box''" 18 1 "''r''" demo_params demo_kwargs demo_world0] by (simp add: demo_loop_def)
qed

section \<open>Calls\<close>

text \<open>A call always gives an answer, as long as releasing an instance does not fail: an unknown function, arguments
  that are no JSON, and a tool that raises (in its creation, its execution or the conversion of its result) each
  give the text of the error as the answer and the reward 0; in the first two cases no tool is touched.\<close>

theorem call_tool_answers:
  assumes "\<forall>(_, t)\<in>set active. case tool_object t of
      BaseTool _ _ release \<Rightarrow> (\<forall>inst w. fst (release inst w) = Inr ()) | FunctionTool _ \<Rightarrow> True"
  shows "\<exists>response reward s1. call_tool lp active call s = (Inr (response, reward), s1)
    \<and> (map_of active (fc_name call) = None \<longrightarrow>
         response = text_response (unknown_function_text lp (fc_name call) (map fst active)) \<and> reward = Some 0 \<and> s1 = s)
    \<and> (\<forall>t message. map_of active (fc_name call) = Some t \<longrightarrow> py_loads (lt_texts (tl_texts lp)) (fc_arguments call) = Inl message \<longrightarrow>
         response = text_response (invalid_json_text (fc_name call) message) \<and> reward = Some 0 \<and> s1 = s)
    \<and> (\<forall>t args e inst s2. map_of active (fc_name call) = Some t \<longrightarrow> py_loads (lt_texts (tl_texts lp)) (fc_arguments call) = Inr args
         \<longrightarrow> run_tool lp (tool_object t) (fc_name call) args s = (Inl e, inst, s2)
         \<longrightarrow> response = text_response (tool_error_text (fc_name call) (lt_error (tl_texts lp) (snd s2) e)) \<and> reward = Some 0)"
proof (cases "map_of active (fc_name call)")
  case None
  then show ?thesis by (simp add: call_tool_def Let_def)
next
  case (Some t)
  show ?thesis
  proof (cases "py_loads (lt_texts (tl_texts lp)) (fc_arguments call)")
    case (Inl message)
    then show ?thesis using Some by (simp add: call_tool_def Let_def)
  next
    case (Inr args)
    obtain raw inst ad2 w2 where run: "run_tool lp (tool_object t) (fc_name call) args s = (raw, inst, (ad2, w2))"
      by (metis prod.exhaust)
    have "(fc_name call, t) \<in> set active" using Some by (rule map_of_SomeD)
    then have "fst (release_tool (tool_object t) inst (ad2, w2)) = Inr ()"
      using assms by (auto simp: release_tool_run split: tool_object.splits option.splits list.splits)
    then obtain s3 where rel: "release_tool (tool_object t) inst (ad2, w2) = (Inr (), s3)" by (metis prod.collapse)
    have "call_tool lp active call s = act_bind (release_tool (tool_object t) inst) (\<lambda>_. act_res
        (case raw of
           Inl e \<Rightarrow> Inr (text_response (tool_error_text (fc_name call) (lt_error (tl_texts lp) w2 e)), Some 0)
         | Inr (response, reward) \<Rightarrow> Inr (truncate_response lp response, reward))) (ad2, w2)"
      using Some Inr run by (simp add: call_tool_def Let_def cong: sum.case_cong)
    then have call: "call_tool lp active call s =
        (case raw of
           Inl e \<Rightarrow> Inr (text_response (tool_error_text (fc_name call) (lt_error (tl_texts lp) w2 e)), Some 0)
         | Inr (response, reward) \<Rightarrow> Inr (truncate_response lp response, reward), s3)"
      by (simp add: act_bind_def rel act_res_def)
    then show ?thesis using Some Inr run by (cases raw) (auto split: prod.splits)
  qed
qed

theorem call_tool_answers_witness:
  "\<exists>s1. call_tool (demo_loop ''box'') (tool_table [demo_function, demo_lifecycle]) \<lparr>fc_name = ''box'', fc_arguments = ''{}''\<rparr>
      (new_agent_data [] (None, None, None) [] ''r'' (MDict []), demo_world0)
    = (Inr (text_response (tool_error_text ''box'' ''failed''), Some 0), s1)"
proof -
  let ?active = "tool_table [demo_function, demo_lifecycle]"
  let ?call = "\<lparr>fc_name = ''box'', fc_arguments = ''{}''\<rparr>"
  let ?s = "(new_agent_data [] (None, None, None) [] ''r'' (MDict []) :: nat agent_data, demo_world0)"
  have tab: "?active = [(''echo'', demo_function), (''box'', demo_lifecycle)]"
    by (simp add: tool_table_def demo_function_def demo_lifecycle_def demo_schema_def dict_update_def dict_set_def)
  have release: "\<forall>(_, t)\<in>set ?active. case tool_object t of
      BaseTool _ _ release \<Rightarrow> (\<forall>inst w. fst (release inst w) = Inr ()) | FunctionTool _ \<Rightarrow> True"
    unfolding tab by (simp add: demo_function_def demo_lifecycle_def)
  have fails: "run_tool (demo_loop ''box'') (tool_object demo_lifecycle) ''box'' (MDict []) ?s
      = (Inl RuntimeError, Some ''i1'', (fst ?s, ([[7, 50], [8, 9]], [], [''i1''])))"
    by (simp add: demo_lifecycle_def run_tool_BaseTool create_kwargs_def new_agent_data_def demo_world0_def)
  have loads: "py_loads (lt_texts (tl_texts (demo_loop ''box''))) (fc_arguments ?call) = Inr (MDict [])"
    by (simp add: demo_loop_def demo_texts_def)
  show ?thesis
    using call_tool_answers [OF release, of "demo_loop ''box''" ?call ?s] fails loads unfolding tab
    by (simp add: demo_loop_def demo_texts_def)
qed

section \<open>Instances\<close>

text \<open>A run is watched from outside: every tool is wrapped so that the world records, beside its own state, the instances
  that were created and those whose release was called. The wrapped tools do and return what the tools do.\<close>

datatype tool_event = Created string | Released string

definition logged_object :: "('img, 'w) tool_object \<Rightarrow> ('img, 'w \<times> tool_event list) tool_object" where
  "logged_object obj =
     (case obj of
        FunctionTool call \<Rightarrow> FunctionTool (\<lambda>d (w, events). case call d w of (r, w1) \<Rightarrow> (r, (w1, events)))
      | BaseTool create execute release \<Rightarrow>
          BaseTool (\<lambda>kw (w, events). case create kw w of
                (Inl e, w1) \<Rightarrow> (Inl e, (w1, events)) | (Inr inst, w1) \<Rightarrow> (Inr inst, (w1, events @ [Created inst])))
            (\<lambda>inst args (ad, (w, events)). case execute inst args (ad, w) of (r, (ad1, w1)) \<Rightarrow> (r, (ad1, (w1, events))))
            (\<lambda>inst (w, events). case release inst w of (r, w1) \<Rightarrow> (r, (w1, events @ [Released inst]))))"

definition logged_loop :: "('img, 'w) tool_loop \<Rightarrow> ('img, 'w \<times> tool_event list) tool_loop" where
  "logged_loop lp =
     \<lparr>tl_base = tl_base lp,
      tl_texts = \<lparr>lt_texts = lt_texts (tl_texts lp), lt_str = lt_str (tl_texts lp), lt_error = (\<lambda>(w, _). lt_error (tl_texts lp) w)\<rparr>,
      tl_tools = map (\<lambda>t. \<lparr>tool_schema = tool_schema t, tool_object = logged_object (tool_object t)\<rparr>) (tl_tools lp),
      tl_max_user_turns = tl_max_user_turns lp, tl_max_assistant_turns = tl_max_assistant_turns lp,
      tl_max_parallel_calls = tl_max_parallel_calls lp, tl_max_tool_response_length = tl_max_tool_response_length lp,
      tl_truncate_side = tl_truncate_side lp, tl_parser_name = tl_parser_name lp, tl_parser = tl_parser lp,
      tl_encode = tl_encode lp, tl_response_length = tl_response_length lp,
      tl_generate = (\<lambda>req (w, events). case tl_generate lp req w of (r, w1) \<Rightarrow> (r, (w1, events)))\<rparr>"

fun created :: "tool_event list \<Rightarrow> string multiset" where
  "created [] = {#}"
| "created (Created i # es) = add_mset i (created es)"
| "created (Released i # es) = created es"

fun released :: "tool_event list \<Rightarrow> string multiset" where
  "released [] = {#}"
| "released (Created i # es) = released es"
| "released (Released i # es) = add_mset i (released es)"

lemma events_append [simp]: "created (xs @ ys) = created xs + created ys" "released (xs @ ys) = released xs + released ys"
  by (induction xs rule: created.induct) auto

text \<open>Events in which every instance is released after its creation, but for those without a name.\<close>

definition tidy :: "tool_event list \<Rightarrow> bool" where
  "tidy events \<longleftrightarrow> released events = filter_mset (\<lambda>i. i \<noteq> []) (created events) \<and> (\<forall>n. released (take n events) \<subseteq># created (take n events))"

lemma tidy_Nil: "tidy []"
  by (simp add: tidy_def)

lemma filter_subset_add: "filter_mset P A \<subseteq># add_mset i A"
  by (metis add_mset_add_single mset_subset_eq_add_left multiset_filter_subset subset_mset.order_trans)

lemma tidy_instance:
  assumes "tidy events"
  shows "tidy (events @ Created i # (if i = [] then [] else [Released i]))"
proof -
  let ?es = "if i = [] then [] else [Released i]"
  have "released events \<subseteq># created events" using assms unfolding tidy_def by (metis multiset_filter_subset)
  then have "released (take n (events @ Created i # ?es)) \<subseteq># created (take n (events @ Created i # ?es))" for n
    using assms by (cases "n - length events"; cases "n - length events - 1")
      (auto simp: tidy_def take_Cons' filter_subset_add)
  then show ?thesis using assms by (simp add: tidy_def)
qed

text \<open>The \<open>events\<close> of the world records what a tool object does to instances.\<close>

definition logs_instances :: "('w \<Rightarrow> tool_event list) \<Rightarrow> ('img, 'w) tool_object \<Rightarrow> bool" where
  "logs_instances events obj \<longleftrightarrow>
     (case obj of
        FunctionTool call \<Rightarrow> (\<forall>d w. events (snd (call d w)) = events w)
      | BaseTool create execute release \<Rightarrow>
          (\<forall>kw w. case create kw w of (Inl e, w1) \<Rightarrow> events w1 = events w | (Inr inst, w1) \<Rightarrow> events w1 = events w @ [Created inst])
          \<and> (\<forall>inst args ad w. events (snd (snd (execute inst args (ad, w)))) = events w)
          \<and> (\<forall>inst w. events (snd (release inst w)) = events w @ [Released inst]))"

lemma logged_object_logs: "logs_instances snd (logged_object obj)"
  by (cases obj) (auto simp: logs_instances_def logged_object_def split: prod.splits sum.splits)

lemma run_and_release:
  assumes "logs_instances events obj" and "run_tool lp obj name args (ad, w) = (raw, inst, (ad1, w1))" and "tidy (events w)"
  shows "tidy (events (snd (snd (release_tool obj inst (ad1, w1)))))"
proof (cases obj)
  case (FunctionTool call)
  then show ?thesis
    using assms by (cases args) (auto simp: run_tool_FunctionTool logs_instances_def release_tool_run)
next
  case (BaseTool create execute release)
  show ?thesis
  proof (cases "create_kwargs (ad_tools_kwargs ad) name")
    case (Inl e)
    then show ?thesis using assms BaseTool by (auto simp: run_tool_BaseTool release_tool_run)
  next
    case (Inr kw)
    obtain r w2 where c: "create kw w = (r, w2)" by fastforce
    have new: "case r of Inl e \<Rightarrow> events w2 = events w | Inr i \<Rightarrow> events w2 = events w @ [Created i]"
      using assms(1) c unfolding BaseTool logs_instances_def by (auto dest!: spec [of _ kw] spec [of _ w] split: sum.splits)
    show ?thesis
    proof (cases r)
      case (Inl e)
      then show ?thesis using assms(2,3) Inr new c unfolding BaseTool by (auto simp: run_tool_BaseTool release_tool_run)
    next
      case r: (Inr i)
      then have "inst = Some i" "w1 = snd (snd (execute i args (ad, w2)))"
        using assms(2) Inr c unfolding BaseTool by (auto simp: run_tool_BaseTool)
      moreover have "events (snd (snd (execute i args (ad, w2)))) = events w2" "events (snd (release i w')) = events w' @ [Released i]" for w'
        using assms(1) unfolding BaseTool logs_instances_def by auto
      moreover have "events w2 = events w @ [Created i]" using new r by simp
      ultimately show ?thesis using tidy_instance [OF assms(3), of i] unfolding BaseTool by (cases i) (auto simp: release_tool_run)
    qed
  qed
qed

lemma call_tool_tidy:
  assumes "\<forall>(_, t)\<in>set active. logs_instances events (tool_object t)" and "call_tool lp active call (ad, w) = (r, (ad1, w1))"
    and "tidy (events w)"
  shows "tidy (events w1)"
proof (cases "map_of active (fc_name call)")
  case None
  then show ?thesis using assms(2,3) by (auto simp: call_tool_def Let_def)
next
  case (Some t)
  show ?thesis
  proof (cases "py_loads (lt_texts (tl_texts lp)) (fc_arguments call)")
    case (Inl message)
    then show ?thesis using assms(2,3) Some by (auto simp: call_tool_def Let_def)
  next
    case (Inr args)
    obtain raw inst ad2 w2 where run: "run_tool lp (tool_object t) (fc_name call) args (ad, w) = (raw, inst, (ad2, w2))"
      by (metis prod.exhaust)
    obtain rr ad3 w3 where rel: "release_tool (tool_object t) inst (ad2, w2) = (rr, (ad3, w3))"
      by (metis prod.exhaust)
    have "logs_instances events (tool_object t)" using assms(1) map_of_SomeD [OF Some] by fastforce
    then have "tidy (events w3)" using run_and_release [where events = events, OF _ run] assms(3) rel by simp
    moreover have "w1 = w3"
      using assms(2) Some Inr run rel by (cases rr) (auto simp: call_tool_def Let_def act_bind_def act_res_def)
    ultimately show ?thesis by simp
  qed
qed

lemma handle_tidy:
  assumes "\<forall>(_, t)\<in>set (fst active). logs_instances events (tool_object t)"
    and "\<forall>req w. events (snd (tl_generate lp req w)) = events w" and "handle lp active params state ad w = (r, w1)" and "tidy (events w)"
  shows "tidy (events w1)"
proof (cases state)
  case Generating
  obtain x w2 where "tl_generate lp (request_of params ad) w = (x, w2)" by fastforce
  moreover have "events w2 = events w" using assms(2) calculation by (metis snd_conv)
  ultimately show ?thesis using assms(3,4) Generating by (cases x) (auto simp: handle_def handle_generating_def Let_def)
next
  case ProcessingTools
  let ?calls = "slice_to (tl_max_parallel_calls lp) (ad_tool_calls ad)"
  obtain rs ad2 w2 where g: "gather_all (map (call_tool lp (fst active)) ?calls) (ad, w) = (rs, (ad2, w2))"
    by (metis prod.exhaust)
  have "tidy (events (snd (ad2, w2)))"
  proof (rule gather_keeps [OF g])
    fix m s r s1
    assume "m \<in> set (map (call_tool lp (fst active)) ?calls)" and "tidy (events (snd s))" and "m s = (r, s1)"
    then show "tidy (events (snd s1))"
      using call_tool_tidy [OF assms(1)] by (cases s; cases s1) auto
  qed (simp add: assms(4))
  then show ?thesis using assms(3) g ProcessingTools by (auto simp: handle_def handle_processing_tools_def Let_def)
qed (use assms(3,4) in \<open>auto simp: handle_def handle_pending_def\<close>)

text \<open>C31: A run that ends with an output leaves no instance of a tool behind: whatever the server and the tools do, every
  instance that was created is released exactly once and after its creation, also when its execution raises; and nothing
  else is released. Only instances with an empty name are not released, which the code skips. (Runs that end with an
  exception are left out: when a release raises, the other calls of the turn may still be running.)\<close>

theorem tool_instances_released:
  assumes "run_tool_agent (logged_loop lp) fuel request_id params kwargs (w, []) = Some (Inr out, (w1, events))"
  shows "released events = filter_mset (\<lambda>i. i \<noteq> []) (created events) \<and> (\<forall>n. released (take n events) \<subseteq># created (take n events))"
proof -
  let ?lp = "logged_loop lp"
  obtain ad0 active where start: "run_start ?lp request_id kwargs = Inr (ad0, active)"
    using assms by (cases "run_start ?lp request_id kwargs") (auto simp: run_tool_agent_def)
  have "active_tools ?lp kwargs = Inr (fst active, snd active)" using run_start_data(4) [OF start] by simp
  moreover have "\<forall>t\<in>set (tl_tools ?lp). logs_instances snd (tool_object t)"
    by (auto simp: logged_loop_def logged_object_logs)
  ultimately have tools: "\<forall>(_, t)\<in>set (fst active). logs_instances snd (tool_object t)"
    using active_tools_subset by fastforce
  have server: "\<forall>req w. snd (snd (tl_generate ?lp req w)) = snd w" by (auto simp: logged_loop_def split: prod.splits)
  obtain r1 where loop: "state_loop ?lp active params fuel Pending ad0 (w, []) = Some (r1, (w1, events))"
    using assms start by (auto simp: run_tool_agent_def)
  have "(\<exists>e. r1 = Inl e \<and> tidy (snd (w1, events))) \<or> (\<exists>ad1. r1 = Inr ad1 \<and> tidy (snd (w1, events)))"
    by (rule state_loop_invariant [OF loop, where I = "\<lambda>_ _ w'. tidy (snd w')" and F = "\<lambda>w'. tidy (snd w')"])
      (auto simp: tidy_Nil dest: handle_tidy [OF tools server])
  then show ?thesis by (auto simp: tidy_def)
qed

theorem tool_instances_released_witness:
  "\<exists>out w1 events. run_tool_agent (logged_loop (demo_loop ''box'')) 9 ''r'' demo_params demo_kwargs (demo_world0, []) = Some (Inr out, (w1, events))
    \<and> released events = created events \<and> ''i1'' \<in># released events"
proof -
  have ok: "(case run_tool_agent (logged_loop (demo_loop ''box'')) 9 ''r'' demo_params demo_kwargs (demo_world0, []) of
      Some (Inr _, (_, events)) \<Rightarrow> events = [Created ''i1'', Released ''i1''] | _ \<Rightarrow> False)"
    by code_simp
  then obtain out w1 where run: "run_tool_agent (logged_loop (demo_loop ''box'')) 9 ''r'' demo_params demo_kwargs (demo_world0, [])
      = Some (Inr out, (w1, [Created ''i1'', Released ''i1'']))"
    by (auto split: option.splits prod.splits sum.splits)
  from tool_instances_released [OF this] run show ?thesis by fastforce
qed

end
