(* ===== verification/TurnLaws.thy ===== *)
theory TurnLaws
  imports ToolLoopLaws
begin

text \<open>
  The loop with tools against the single-turn loop, and its boundary cases: an empty generation, and the texts of
  tools that are longer than allowed.
\<close>

section \<open>A conversation without calls\<close>










section \<open>An empty generation\<close>

text \<open>When nothing was generated, the response mask is empty and the slice \<open>[-0:]\<close> takes the whole sequence: the
  response of the output is a copy of the prompt, cut to the response length, with no mask for it. The single-turn
  loop returns an empty response there.\<close>

theorem empty_generation_echoes_prompt:
  assumes "run_tool_agent lp fuel request_id params kwargs w = Some (Inr out, w1)"
    and "ao_response_mask out = []" and "0 < tl_response_length lp"
  shows "ao_response_ids out = take (tl_response_length lp) (ao_prompt_ids out)"
proof -
  obtain ad0 active ad where run: "run_start lp request_id kwargs = Inr (ad0, active)"
      "state_loop lp active params fuel Pending ad0 w = Some (Inr ad, w1)" and out: "out = loop_output (tl_response_length lp) ad"
    using assms(1) by (rule run_tool_agentE)
  obtain prompt g where "conversation prompt g ad" by (rule run_conversation [OF run])
  then obtain r where r: "ad_prompt_ids ad = prompt @ r" "length r = length (ad_response_mask ad)"
    unfolding conversation_def by blast
  have "ad_response_mask ad = []"
    using assms(2,3) unfolding out loop_output_response(3) [OF r] by simp
  then show ?thesis
    using r loop_output_response(1) [OF r, of "tl_response_length lp"] unfolding out
    by (simp add: loop_output_def Let_def slice_from_def)
qed

theorem empty_generation_echoes_prompt_witness:
  "\<exists>out w1. run_tool_agent (demo_loop ''echo'') 18 ''r'' demo_params demo_kwargs ([[]], [], []) = Some (Inr out, w1)
    \<and> ao_response_ids out = [100, 1, 9] \<and> ao_response_mask out = []"
proof -
  have "case run_tool_agent (demo_loop ''echo'') 18 ''r'' demo_params demo_kwargs ([[]], [], []) of
      Some (Inr out, w1) \<Rightarrow> ao_response_mask out = [] \<and> ao_prompt_ids out = [100, 1, 9] | _ \<Rightarrow> False"
    by code_simp
  then obtain out w1 where run: "run_tool_agent (demo_loop ''echo'') 18 ''r'' demo_params demo_kwargs ([[]], [], []) = Some (Inr out, w1)"
      "ao_response_mask out = []" "ao_prompt_ids out = [100, 1, 9]"
    by (auto split: option.splits prod.splits sum.splits)
  then have "ao_response_ids out = [100, 1, 9]"
    using empty_generation_echoes_prompt [OF run(1,2)] by (simp add: demo_loop_def)
  then show ?thesis using run by blast
qed

section \<open>Long answers of tools\<close>

text \<open>A tool's text of at most the allowed length is kept; a longer one is cut to the allowed length, plus a marker
  of at most 17 characters, for limits from 2 on. For the limits 0 and 1 a cut in the middle keeps the whole text,
  since \<open>s[-0:]\<close> is all of it, and so does a cut on the right for the limit 0.\<close>

theorem truncated_text_bounded:
  shows "(int (length s) \<le> limit \<longrightarrow> truncate_text limit side s = s)
    \<and> (2 \<le> limit \<longrightarrow> int (length (truncate_text limit side s)) \<le> limit + 17)
    \<and> (limit \<in> {0, 1} \<and> limit < int (length s) \<longrightarrow> truncate_text limit ''middle'' s = ''...(truncated)...'' @ s)
    \<and> (s \<noteq> [] \<longrightarrow> truncate_text 0 ''right'' s = ''(truncated)...'' @ s)"
proof (intro conjI impI)
  show "int (length (truncate_text limit side s)) \<le> limit + 17" if "2 \<le> limit"
  proof -
    have "\<not> limit < 0" "- limit < 0" "\<not> limit div 2 < 0" "- (limit div 2) < 0" "2 * (limit div 2) \<le> limit" using that by linarith+
    then show ?thesis
      by (simp add: truncate_text_def slice_to_def slice_from_def)
  qed
qed (auto simp: truncate_text_def slice_to_def slice_from_def)

theorem truncated_text_bounded_witness:
  "int (length (truncate_text 4 ''left'' (replicate 9 CHR ''x''))) \<le> 21
    \<and> truncate_text 1 ''middle'' ''abc'' = ''...(truncated)...abc''"
proof -
  have "int (length (truncate_text 4 ''left'' (replicate 9 CHR ''x''))) \<le> 4 + 17"
    using truncated_text_bounded [of "replicate 9 CHR ''x''" 4 "''left''"] by simp
  moreover have "truncate_text 1 ''middle'' ''abc'' = ''...(truncated)...abc''"
    using truncated_text_bounded [of "''abc''" 1 "''left''"] by simp
  ultimately show ?thesis by simp
qed

end
