(* ===== verification/ToolParseLaws.thy ===== *)
theory ToolParseLaws
  imports ToolLoop
begin

text \<open>
  Round trips of the tool parsers, and the chat template: for a template that renders message by message, the tokens
  of a tool turn are those of its messages; for one that refuses messages without a user, the fall-back takes the
  system prompt away twice.
\<close>

section \<open>Searches\<close>

lemma occurs_in_Cons: "occurs_in pat (c # s) \<longleftrightarrow> starts_with pat (c # s) \<or> occurs_in pat s"
  by (auto simp: occurs_in_def)

lemma starts_with_length: "starts_with pat s \<Longrightarrow> length pat \<le> length s"
  by (metis length_take min.absorb_iff2 min.commute starts_with_def)

lemma starts_with_append: "starts_with pat s \<Longrightarrow> starts_with pat (s @ t)"
  using starts_with_length [of pat s] by (simp add: starts_with_def)

lemma occurs_in_append: "occurs_in pat s \<Longrightarrow> occurs_in pat (s @ t)"
proof (induction s)
  case Nil
  then have "pat = []" by (auto simp: occurs_in_def split: if_splits)
  then show ?case by (cases t) (auto simp: occurs_in_def starts_with_def)
next
  case (Cons c s)
  then show ?case using starts_with_append [of pat "c # s" t] by (auto simp: occurs_in_Cons)
qed

text \<open>The first occurrence is where it was put, if none began before.\<close>

lemma break_on_first:
  assumes "\<not> occurs_in pat (s @ butlast pat)" and "pat \<noteq> []"
  shows "break_on pat (s @ pat @ t) = Some (s, t)"
  using assms(1)
proof (induction s)
  case Nil
  then show ?case using assms(2) by (cases pat) (auto simp: starts_with_def)
next
  case (Cons c s)
  have "take (length pat) ((c # s) @ pat @ t) = take (length pat) ((c # s) @ butlast pat)"
  proof -
    have "(c # s) @ pat @ t = ((c # s) @ butlast pat) @ (last pat # t)" using assms(2) by simp
    moreover have "length pat \<le> length ((c # s) @ butlast pat)" using assms(2) by (cases pat) auto
    ultimately show ?thesis by (metis take_append append.right_neutral diff_is_0_eq take0)
  qed
  then have "starts_with pat ((c # s) @ pat @ t) = starts_with pat ((c # s) @ butlast pat)" by (simp add: starts_with_def)
  moreover have "\<not> starts_with pat ((c # s) @ butlast pat)" "\<not> occurs_in pat (s @ butlast pat)"
    using Cons.prems by (simp_all add: occurs_in_Cons)
  ultimately show ?case using Cons.IH by simp
qed

lemma break_on_none: "\<not> occurs_in pat (s @ t) \<Longrightarrow> break_on pat s = None"
  using occurs_in_append [of pat s t] by (cases "break_on pat s") (auto simp: occurs_in_def)

section \<open>Tagged texts\<close>

text \<open>A text with bodies between tags, and gaps behind them; no tag begins in the gaps, no closing tag in a body.\<close>

definition tagged :: "string \<Rightarrow> string \<Rightarrow> (string \<times> string) list \<Rightarrow> string" where
  "tagged start stop parts = concat (map (\<lambda>(body, gap). start @ body @ stop @ gap) parts)"

definition clean_parts :: "string \<Rightarrow> string \<Rightarrow> (string \<times> string) list \<Rightarrow> bool" where
  "clean_parts start stop parts \<longleftrightarrow>
     (\<forall>(body, gap)\<in>set parts. \<not> occurs_in stop (body @ butlast stop) \<and> \<not> occurs_in start (gap @ butlast start))"

lemma tagged_Cons: "tagged start stop ((body, gap) # parts) = start @ body @ stop @ gap @ tagged start stop parts"
  by (simp add: tagged_def)

lemma break_on_tagged:
  assumes "\<not> occurs_in start (pre @ butlast start)" and "start \<noteq> []" and "parts = (body, gap) # ps"
  shows "break_on start (pre @ tagged start stop parts) = Some (pre, body @ stop @ gap @ tagged start stop ps)"
  unfolding assms(3) tagged_Cons by (rule break_on_first [OF assms(1,2)])

lemma find_between_tagged:
  assumes "\<not> occurs_in start (pre @ butlast start)" and "clean_parts start stop parts" and "start \<noteq> []" and "stop \<noteq> []"
  shows "find_between start stop (pre @ tagged start stop parts) = map fst parts"
    and "remove_between start stop (pre @ tagged start stop parts) = pre @ concat (map snd parts)"
    and "find_open lazy start stop (pre @ tagged start stop parts) = map fst parts"
proof -
  have "find_between start stop (pre @ tagged start stop parts) = map fst parts
    \<and> remove_between start stop (pre @ tagged start stop parts) = pre @ concat (map snd parts)
    \<and> find_open lazy start stop (pre @ tagged start stop parts) = map fst parts"
    using assms(1,2)
  proof (induction parts arbitrary: pre)
    case Nil
    then have "break_on start pre = None" by (metis break_on_none)
    then show ?case by (simp add: tagged_def find_between.simps [of start] remove_between.simps [of start] find_open.simps [of _ start])
  next
    case (Cons p parts)
    obtain body gap where p: "p = (body, gap)" by force
    have clean: "\<not> occurs_in stop (body @ butlast stop)" "\<not> occurs_in start (gap @ butlast start)" "clean_parts start stop parts"
      using Cons.prems(2) by (auto simp: p clean_parts_def)
    have first: "break_on start (pre @ tagged start stop (p # parts)) = Some (pre, body @ stop @ gap @ tagged start stop parts)"
      by (rule break_on_tagged [OF Cons.prems(1) assms(3)]) (simp add: p)
    have second: "break_on stop (body @ stop @ gap @ tagged start stop parts) = Some (body, gap @ tagged start stop parts)"
      by (rule break_on_first [OF clean(1) assms(4)])
    show ?case
      using Cons.IH [OF clean(2,3)] assms(3) first second
      by (simp add: p find_between.simps [of start _ "pre @ _"] remove_between.simps [of start _ "pre @ _"] find_open.simps [of _ start _ "pre @ _"])
  qed
  then show "find_between start stop (pre @ tagged start stop parts) = map fst parts"
    and "remove_between start stop (pre @ tagged start stop parts) = pre @ concat (map snd parts)"
    and "find_open lazy start stop (pre @ tagged start stop parts) = map fst parts"
    by blast+
qed

section \<open>Hermes\<close>

text \<open>The text of calls in the Hermes format, each with what follows it.\<close>

definition hermes_text :: "(function_call \<Rightarrow> string) \<Rightarrow> string \<Rightarrow> (function_call \<times> string) list \<Rightarrow> string" where
  "hermes_text encode content calls = content @ tagged call_start call_stop (map (\<lambda>(c, gap). (encode c, gap)) calls)"

lemma call_tags: "call_start \<noteq> []" "call_stop \<noteq> []"
  by (simp_all add: call_start_def call_stop_def)

lemma occurs_in_middle: "pat \<noteq> [] \<Longrightarrow> occurs_in pat (u @ pat @ v)"
proof (induction u)
  case Nil
  then show ?case by (cases pat) (auto simp: occurs_in_Cons starts_with_def)
qed (simp add: occurs_in_Cons)

text \<open>Calls printed in the Hermes format are read back: if each is encoded as a JSON object of its name and
  arguments, no closing tag begins in an encoding and no opening tag in the text around, the parser returns exactly
  the calls, in order, and the text around them as the content.\<close>

theorem hermes_roundtrip:
  assumes "\<forall>(c, gap)\<in>set calls. py_loads py (encode c) = Inr (MDict [(''name'', MStr (fc_name c)), (''arguments'', arguments c)])
      \<and> py_dumps py (arguments c) = Inr (fc_arguments c)"
    and "clean_parts call_start call_stop (map (\<lambda>(c, gap). (encode c, gap)) calls)"
    and "\<not> occurs_in call_start (content @ butlast call_start)" and "calls \<noteq> []"
  shows "hermes_extract py (hermes_text encode content calls) = (content @ concat (map snd calls), map fst calls)"
proof -
  let ?parts = "map (\<lambda>(c, gap). (encode c, gap)) calls"
  let ?text = "hermes_text encode content calls"
  obtain body gap ps where parts: "?parts = (body, gap) # ps" using assms(4) by (cases calls) auto
  have "?text = content @ call_start @ (body @ call_stop @ gap @ tagged call_start call_stop ps)"
    "?text = (content @ call_start @ body) @ call_stop @ (gap @ tagged call_start call_stop ps)"
    unfolding hermes_text_def parts by (simp_all add: tagged_Cons)
  then have "occurs_in call_start ?text" "occurs_in call_stop ?text"
    using occurs_in_middle call_tags by metis+
  moreover have "find_between call_start call_stop ?text = map (encode \<circ> fst) calls"
      "remove_between call_start call_stop ?text = content @ concat (map snd calls)"
    using find_between_tagged(1,2) [OF assms(3,2) call_tags] by (simp_all add: hermes_text_def comp_def split_beta)
  moreover have "hermes_call py (encode (fst p)) = Some (fst p)" if "p \<in> set calls" for p
    using assms(1) that by (cases "fst p") (fastforce simp: hermes_call_def)
  then have "List.map_filter (hermes_call py) (map (encode \<circ> fst) calls) = map fst calls"
    by (induction calls) (auto simp: List.map_filter_def)
  ultimately show ?thesis by (simp add: hermes_extract_def)
qed

definition demo_json :: "nat py_texts" where
  "demo_json = \<lparr>py_loads = (\<lambda>s. Inr (MDict [(''name'', MStr s), (''arguments'', MDict [])])), py_dumps = (\<lambda>v. Inr ''{}''),
     py_str = (\<lambda>v. ''value''), py_eval = (\<lambda>s. Inl ValueError)\<rparr>"

theorem hermes_roundtrip_witness:
  "hermes_extract demo_json ''say <tool_call>f</tool_call> and <tool_call>g</tool_call>''
    = (''say  and '', [\<lparr>fc_name = ''f'', fc_arguments = ''{}''\<rparr>, \<lparr>fc_name = ''g'', fc_arguments = ''{}''\<rparr>])"
proof -
  let ?calls = "[(\<lparr>fc_name = ''f'', fc_arguments = ''{}''\<rparr>, '' and ''), (\<lparr>fc_name = ''g'', fc_arguments = ''{}''\<rparr>, [])]"
  have json: "\<forall>(c, gap)\<in>set ?calls. py_loads demo_json (fc_name c) = Inr (MDict [(''name'', MStr (fc_name c)), (''arguments'', MDict [])])
      \<and> py_dumps demo_json (MDict []) = Inr (fc_arguments c)"
    by (simp add: demo_json_def)
  have clean: "clean_parts call_start call_stop (map (\<lambda>(c, gap). (fc_name c, gap)) ?calls)"
      "\<not> occurs_in call_start (''say '' @ butlast call_start)"
    by (simp_all add: clean_parts_def call_start_def call_stop_def occurs_in_Cons starts_with_def)
      (simp_all add: occurs_in_def)
  show ?thesis
    using hermes_roundtrip [OF json clean] by (simp add: hermes_text_def tagged_def call_start_def call_stop_def)
qed

section \<open>Qwen3 coder\<close>

text \<open>A text without an angle that opens a tag.\<close>

definition plain_text :: "string \<Rightarrow> bool" where
  "plain_text s \<longleftrightarrow> CHR ''<'' \<notin> set s"

text \<open>A tag opens with its only angle and has more than that.\<close>

definition tag_text :: "string \<Rightarrow> bool" where
  "tag_text s \<longleftrightarrow> (\<exists>p. s = CHR ''<'' # p \<and> plain_text p \<and> p \<noteq> [])"

lemma occurs_in_plain:
  assumes "tag_text pat" and "plain_text u"
  shows "occurs_in pat (u @ t) = occurs_in pat t"
  using assms(2)
proof (induction u)
  case (Cons c u)
  have "c \<noteq> CHR ''<''" using Cons.prems by (auto simp: plain_text_def)
  then have "\<not> starts_with pat ((c # u) @ t)" using assms(1) by (auto simp: tag_text_def starts_with_def)
  moreover have "plain_text u" using Cons.prems by (simp add: plain_text_def)
  ultimately show ?case using Cons.IH by (simp add: occurs_in_Cons)
qed simp

lemma plain_not_occurs:
  assumes "tag_text pat" and "plain_text s"
  shows "\<not> occurs_in pat s"
proof -
  have "occurs_in pat s = occurs_in pat []" using occurs_in_plain [OF assms, of "[]"] by simp
  then show ?thesis using assms(1) by (auto simp: occurs_in_def tag_text_def)
qed

lemma plain_text_butlast: "plain_text s \<Longrightarrow> plain_text (butlast s)"
  by (auto simp: plain_text_def dest: in_set_butlastD)

text \<open>Before its last character a tag does not occur, nor behind a tag that does not begin with it.\<close>

lemma tag_butlast:
  assumes "tag_text pat"
  shows "\<not> occurs_in pat (butlast pat)"
proof -
  obtain p where p: "pat = CHR ''<'' # p" "plain_text p" "p \<noteq> []" using assms by (auto simp: tag_text_def)
  have "\<not> occurs_in pat (butlast p)" by (rule plain_not_occurs [OF assms plain_text_butlast [OF p(2)]])
  moreover have "\<not> starts_with pat (butlast pat)"
    using p starts_with_length [of pat "butlast pat"] by (cases "length p") auto
  ultimately show ?thesis using p by (simp add: occurs_in_Cons)
qed

lemma occurs_in_tag:
  assumes "tag_text pat" and "tag_text tag" and "\<not> starts_with pat (tag @ t)"
  shows "occurs_in pat (tag @ t) = occurs_in pat t"
proof -
  obtain p where p: "tag = CHR ''<'' # p" "plain_text p" using assms(2) by (auto simp: tag_text_def)
  show ?thesis using assms(3) occurs_in_plain [OF assms(1) p(2)] unfolding p(1) by (simp add: occurs_in_Cons)
qed

lemma occurs_in_tagged:
  assumes "tag_text pat" and "tag_text start" and "tag_text stop"
    and "\<And>t. \<not> starts_with pat (start @ t)" and "\<And>t. \<not> starts_with pat (stop @ t)"
    and "\<forall>(body, gap)\<in>set parts. plain_text body \<and> plain_text gap"
  shows "occurs_in pat (tagged start stop parts @ t) = occurs_in pat t"
  using assms(6)
proof (induction parts)
  case Nil
  then show ?case by (simp add: tagged_def)
next
  case (Cons p parts)
  obtain body gap where p: "p = (body, gap)" by force
  then have plain: "plain_text body" "plain_text gap" using Cons.prems by auto
  show ?case
    using Cons.IH Cons.prems unfolding p tagged_Cons append_assoc
    by (simp add: occurs_in_tag [OF assms(1,2) assms(4)] occurs_in_tag [OF assms(1,3) assms(5)]
        occurs_in_plain [OF assms(1) plain(1)] occurs_in_plain [OF assms(1) plain(2)])
qed

text \<open>The text of calls in the format of Qwen3 coder: a function with its parameters, each on its own lines.\<close>

abbreviation "function_start \<equiv> ''<function=''"
abbreviation "function_stop \<equiv> ''</function>''"
abbreviation "parameter_start \<equiv> ''<parameter=''"
abbreviation "parameter_stop \<equiv> ''</parameter>''"

definition parameters_text :: "(string \<times> string) list \<Rightarrow> string" where
  "parameters_text params =
     tagged parameter_start parameter_stop (map (\<lambda>(k, v). (k @ ''>'' @ [newline] @ v @ [newline], [newline])) params)"

definition function_text :: "string \<times> (string \<times> string) list \<Rightarrow> string" where
  "function_text call = fst call @ ''>'' @ [newline] @ parameters_text (snd call)"

definition qwen3_body :: "string \<times> (string \<times> string) list \<Rightarrow> string" where
  "qwen3_body call = [newline] @ tagged function_start function_stop [(function_text call, [newline])]"

definition qwen3_text :: "string \<Rightarrow> ((string \<times> (string \<times> string) list) \<times> string) list \<Rightarrow> string" where
  "qwen3_text content calls = content @ tagged call_start call_stop (map (\<lambda>(c, gap). (qwen3_body c, gap)) calls)"

text \<open>No text opens a tag; names and keys do not close one.\<close>

definition plain_call :: "string \<times> (string \<times> string) list \<Rightarrow> bool" where
  "plain_call call \<longleftrightarrow> plain_text (fst call) \<and> CHR ''>'' \<notin> set (fst call)
     \<and> (\<forall>(k, v)\<in>set (snd call). plain_text k \<and> CHR ''>'' \<notin> set k \<and> plain_text v)"

lemma tags: "tag_text call_start" "tag_text call_stop" "tag_text function_start" "tag_text function_stop"
    "tag_text parameter_start" "tag_text parameter_stop"
  by (simp_all add: tag_text_def plain_text_def call_start_def call_stop_def)

lemma tag_nonempty: "tag_text s \<Longrightarrow> s \<noteq> []"
  by (auto simp: tag_text_def)

lemma plain_clean: "tag_text pat \<Longrightarrow> plain_text s \<Longrightarrow> \<not> occurs_in pat (s @ butlast pat)"
  by (simp add: occurs_in_plain tag_butlast)

lemma plain_newline [simp]: "plain_text [newline]" "plain_text []"
  by (simp_all add: plain_text_def newline_def)

lemma plain_append [simp]: "plain_text (s @ t) \<longleftrightarrow> plain_text s \<and> plain_text t"
  by (auto simp: plain_text_def)

lemma plain_Cons [simp]: "plain_text (c # s) \<longleftrightarrow> c \<noteq> CHR ''<'' \<and> plain_text s"
  by (auto simp: plain_text_def)

lemma break_on_angle: "CHR ''>'' \<notin> set s \<Longrightarrow> break_on ''>'' (s @ CHR ''>'' # t) = Some (s, t)"
  by (induction s) (auto simp: starts_with_def)

lemma trim_lines: "trim_value (newline # v @ [newline]) = v"
  by (simp add: trim_value_def Let_def)

definition qwen3_arguments :: "'img py_texts \<Rightarrow> 'img tool_schema list \<Rightarrow> string \<times> (string \<times> string) list \<Rightarrow> 'img mobj" where
  "qwen3_arguments py tools call =
     MDict (dict_update [] (map (\<lambda>(k, v). (k, convert_param_value py v k (arguments_config tools (fst call)))) (snd call)))"

lemma parameter_parts_plain:
  "plain_call call \<Longrightarrow> \<forall>(body, gap)\<in>set (map (\<lambda>(k, v). (k @ ''>'' @ [newline] @ v @ [newline], [newline])) (snd call)).
    plain_text body \<and> plain_text gap"
  by (auto simp: plain_call_def newline_def)

lemma parse_parameter_text:
  "CHR ''>'' \<notin> set k \<Longrightarrow> parse_parameter py cfg (k @ ''>'' @ [newline] @ v @ [newline]) = Inr (k, convert_param_value py v k cfg)"
  using break_on_angle [of k "newline # v @ [newline]"] trim_lines [of v] by (simp add: parse_parameter_def)

lemma parse_function_text:
  assumes "plain_call call" and "py_dumps py (qwen3_arguments py tools call) = Inr encoded"
  shows "parse_xml_function_call py tools (function_text call) = Inr \<lparr>fc_name = fst call, fc_arguments = encoded\<rparr>"
proof -
  let ?parts = "map (\<lambda>(k, v). (k @ ''>'' @ [newline] @ v @ [newline], [newline])) (snd call)"
  have name: "break_on ''>'' (function_text call) = Some (fst call, [newline] @ parameters_text (snd call))"
    using break_on_angle [of "fst call"] assms(1) by (simp add: function_text_def plain_call_def)
  have "clean_parts parameter_start parameter_stop ?parts"
    using parameter_parts_plain [OF assms(1)] plain_clean [OF tags(5)] plain_clean [OF tags(6)]
    unfolding clean_parts_def by blast
  then have found: "find_open True parameter_start parameter_stop ([newline] @ parameters_text (snd call)) = map fst ?parts"
    unfolding parameters_text_def
    by (rule find_between_tagged(3) [OF plain_clean [OF tags(5) plain_newline(1)] _ tag_nonempty [OF tags(5)] tag_nonempty [OF tags(6)]])
  have "rmap (parse_parameter py (arguments_config tools (fst call))) (map fst ?parts)
      = Inr (map (\<lambda>(k, v). (k, convert_param_value py v k (arguments_config tools (fst call)))) (snd call))"
    unfolding map_map rmap_map
    by (rule rmap_Inr) (use assms(1) in \<open>auto simp: plain_call_def parse_parameter_text [simplified] dest!: bspec\<close>)
  then show ?thesis
    using assms(2) unfolding parse_xml_function_call_def name found [simplified] option.case prod.case
    by (simp add: found [simplified] qwen3_arguments_def)
qed

lemma qwen3_body_clean:
  assumes "plain_call call"
  shows "\<not> occurs_in call_stop (qwen3_body call @ butlast call_stop)"
    and "find_open False function_start function_stop (qwen3_body call) = [function_text call]"
proof -
  let ?parts = "map (\<lambda>(k, v). (k @ ''>'' @ [newline] @ v @ [newline], [newline])) (snd call)"
  have plain: "plain_text (fst call @ ''>'' @ [newline])" using assms by (simp add: plain_call_def newline_def)
  have skip: "occurs_in pat (function_text call @ t) = occurs_in pat t"
    if "tag_text pat" "\<And>t. \<not> starts_with pat (parameter_start @ t)" "\<And>t. \<not> starts_with pat (parameter_stop @ t)" for pat t
    using occurs_in_plain [OF that(1) plain] occurs_in_tagged [OF that(1) tags(5,6) that(2,3) parameter_parts_plain [OF assms]]
    by (simp add: function_text_def parameters_text_def)
  have no_stop: "\<not> starts_with call_stop (parameter_start @ t)" "\<not> starts_with call_stop (parameter_stop @ t)"
      "\<not> starts_with call_stop (function_start @ t)" "\<not> starts_with call_stop (function_stop @ t)" for t
    by (simp_all add: starts_with_def call_stop_def)
  have no_function: "\<not> starts_with function_stop (parameter_start @ t)" "\<not> starts_with function_stop (parameter_stop @ t)" for t
    by (simp_all add: starts_with_def)
  have "occurs_in call_stop (qwen3_body call @ butlast call_stop) = occurs_in call_stop (butlast call_stop)"
    unfolding qwen3_body_def tagged_Cons append_assoc
    by (simp add: tagged_def occurs_in_plain [OF tags(2) plain_newline(1), simplified] occurs_in_tag [OF tags(2,3) no_stop(3), simplified]
        occurs_in_tag [OF tags(2,4) no_stop(4), simplified] skip [OF tags(2) no_stop(1,2)])
  then show "\<not> occurs_in call_stop (qwen3_body call @ butlast call_stop)" using tag_butlast [OF tags(2)] by simp
  have "clean_parts function_start function_stop [(function_text call, [newline])]"
    using skip [OF tags(4) no_function] tag_butlast [OF tags(4)] plain_clean [OF tags(3) plain_newline(1)] by (simp add: clean_parts_def)
  then show "find_open False function_start function_stop (qwen3_body call) = [function_text call]"
    using find_between_tagged(3) [OF plain_clean [OF tags(3) plain_newline(1)] _ tag_nonempty [OF tags(3)] tag_nonempty [OF tags(4)]]
    unfolding qwen3_body_def by simp
qed

text \<open>C40: Calls printed in the format of Qwen3 coder are read back: if no name, key, value or text around opens a tag and
  names and keys do not close one, the parser returns every call, in order, with its name and its parameters in
  order, each converted by the type that the tool's schema gives it, and as the content the text before the first
  call.\<close>

theorem qwen3_roundtrip:
  assumes "\<forall>(c, gap)\<in>set calls. plain_call c \<and> plain_text gap \<and> py_dumps py (qwen3_arguments py tools c) = Inr (encoded c)"
    and "plain_text content" and "calls \<noteq> []"
  shows "qwen3_extract py tools (qwen3_text content calls)
    = (content, map (\<lambda>(c, gap). \<lparr>fc_name = fst c, fc_arguments = encoded c\<rparr>) calls)"
proof -
  let ?parts = "map (\<lambda>(c, gap). (qwen3_body c, gap)) calls"
  have clean: "clean_parts call_start call_stop ?parts"
    using assms(1) qwen3_body_clean(1) plain_clean [OF tags(1)] by (auto simp: clean_parts_def)
  note content = plain_clean [OF tags(1) assms(2)]
  obtain body gap ps where parts: "?parts = (body, gap) # ps" using assms(3) by (cases calls) auto
  have first: "break_on call_start (qwen3_text content calls) = Some (content, body @ call_stop @ gap @ tagged call_start call_stop ps)"
    unfolding qwen3_text_def by (rule break_on_tagged [OF content call_tags(1) parts])
  have "find_open True call_start call_stop (qwen3_text content calls) = map fst ?parts"
    unfolding qwen3_text_def by (rule find_between_tagged(3) [OF content clean call_tags])
  then have "get_function_calls (qwen3_text content calls)
      = concat (map (find_open False function_start function_stop) (map fst ?parts))"
    using assms(3) by (simp add: get_function_calls_def Let_def)
  also have "\<dots> = concat (map (\<lambda>p. [function_text (fst p)]) calls)"
    using assms(1) qwen3_body_clean(2) by (intro arg_cong [where f = concat]) (auto simp: split_beta)
  also have "\<dots> = map (function_text \<circ> fst) calls" by (induction calls) auto
  finally have found: "get_function_calls (qwen3_text content calls) = map (function_text \<circ> fst) calls" .
  have "rmap (parse_xml_function_call py tools) (map (function_text \<circ> fst) calls)
      = Inr (map (\<lambda>(c, gap). \<lparr>fc_name = fst c, fc_arguments = encoded c\<rparr>) calls)"
    unfolding rmap_map by (rule rmap_Inr) (use assms(1) parse_function_text in \<open>fastforce simp: split_beta\<close>)
  then show ?thesis
    using assms(3) by (simp add: qwen3_extract_def first found)
qed

theorem qwen3_roundtrip_witness:
  "qwen3_extract demo_json [\<lparr>ts_type = ''function'', ts_name = ''f'', ts_properties = [(''n'', [(''type'', MStr ''integer'')])], ts_dump = MNone\<rparr>]
      (qwen3_text ''ok'' [((''f'', [(''n'', ''12''), (''s'', ''a b'')]), []), ((''g'', []), ''!'')])
    = (''ok'', [\<lparr>fc_name = ''f'', fc_arguments = ''{}''\<rparr>, \<lparr>fc_name = ''g'', fc_arguments = ''{}''\<rparr>])"
proof -
  let ?calls = "[((''f'', [(''n'', ''12''), (''s'', ''a b'')]), []), ((''g'', []), ''!'')]"
  let ?tools = "[\<lparr>ts_type = ''function'', ts_name = ''f'', ts_properties = [(''n'', [(''type'', MStr ''integer'')])], ts_dump = MNone\<rparr>]"
  have calls: "\<forall>(c, gap)\<in>set ?calls. plain_call c \<and> plain_text gap \<and> py_dumps demo_json (qwen3_arguments demo_json ?tools c) = Inr ''{}''"
    by (simp add: plain_call_def demo_json_def)
  have "plain_text ''ok''" by simp
  from qwen3_roundtrip [OF calls this] show ?thesis by simp
qed

section \<open>Chat templates\<close>

text \<open>A template that renders the system, each message by itself, and the prompt for a generation.\<close>

definition renders_messages ::
    "('img, 'img mobj) chat_renderer \<Rightarrow> ('img mobj list option \<Rightarrow> int list) \<Rightarrow> ('img mobj \<Rightarrow> int list) \<Rightarrow> int list \<Rightarrow> bool" where
  "renders_messages render system body ask \<longleftrightarrow>
     (\<forall>messages generation tools. render messages generation tools
        = Inr (MList (map MInt (system tools @ concat (map body messages) @ (if generation then ask else [])))))"

lemma normalize_ints [simp]: "normalize_token_ids (MList (map MInt xs)) = Inr xs"
proof -
  have "rmap (\<lambda>v. case token_int (mobj_item v) of Some i \<Rightarrow> Inr i | None \<Rightarrow> Inl TypeError) (map MInt xs) = Inr xs"
    by (induction xs) auto
  then show ?thesis by (cases xs) (auto simp: normalize_token_ids_def split: list.splits)
qed

lemma system_prompt_found:
  assumes "render [empty_user_message] False None = Inr (MList (map MInt (sys @ b)))"
    and "render [empty_user_message, empty_user_message] False None = Inr (MList (map MInt (sys @ b @ b)))" and "b \<noteq> []"
  shows "initialize_system_prompt render = Inr sys"
proof -
  have "int (length (sys @ b @ b)) - int (length (sys @ b)) = int (length b)" by simp
  then show ?thesis
    using assms slice_to_neg [of "length b" "sys @ b"] by (simp add: initialize_system_prompt_def del: map_append)
qed

text \<open>With a template that renders message by message, an agent loop finds the system prompt that the template puts
  in front, and the tokens that a tool turn appends are exactly those of its messages and of the prompt for the next
  generation, while the first prompt has the system prompt in front of its messages.\<close>

theorem tool_turn_follows_template:
  assumes "renders_messages render system body ask" and "body empty_user_message \<noteq> []"
    and "agent_base_new render None extract kwargs = Inr ab"
  shows "ab_system_prompt ab = system None
    \<and> apply_chat_template ab messages None data kw True = Inr (concat (map body messages) @ ask)
    \<and> apply_chat_template ab messages tools data kw False = Inr (system tools @ concat (map body messages) @ ask)"
proof -
  have "initialize_system_prompt render = Inr (system None)"
    using system_prompt_found [of render "system None" "body empty_user_message"] assms(1,2) by (simp add: renders_messages_def)
  then have ab: "ab_tokens ab = render" "ab_processor ab = None" "ab_system_prompt ab = system None"
    using assms(3) by (auto simp: agent_base_new_def)
  have "rbind (template_tokens render messages True tls) normalize_token_ids = Inr (system tls @ concat (map body messages) @ ask)" for tls
    using assms(1) by (simp add: template_tokens_def renders_messages_def del: map_append)
  then show ?thesis by (cases data) (simp add: apply_chat_template_def ab)
qed

text \<open>A template that does so only when a user's message is there.\<close>

definition needs_user ::
    "('img, 'img mobj) chat_renderer \<Rightarrow> int list \<Rightarrow> ('img mobj \<Rightarrow> int list) \<Rightarrow> int list \<Rightarrow> ('img mobj \<Rightarrow> bool) \<Rightarrow> bool" where
  "needs_user render sys body ask user \<longleftrightarrow>
     (\<forall>messages generation tools. render messages generation tools =
        (if \<exists>m\<in>set messages. user m
         then Inr (MList (map MInt (sys @ concat (map body messages) @ (if generation then ask else []))))
         else Inl RuntimeError))"

lemma prefix_taken_off:
  assumes "p \<noteq> []"
  shows "without_prefix (MList (map MInt p)) (MList (map MInt (p @ q))) = Inr (MList (map MInt q))"
  using assms by (cases p) (auto simp: without_prefix_def)

text \<open>With a template that refuses messages without a user's, the fall-back renders a dummy user's message in front
  and takes its rendering away, the system prompt with it; then the tool turn takes the system prompt away once more:
  the tokens appended for the tools' messages lack as many tokens at their beginning as the system prompt has.\<close>

theorem fallback_drops_system_prompt_twice:
  assumes "needs_user render sys body ask user" and "user empty_user_message" and "user dummy_user_message"
    and "body empty_user_message \<noteq> []" and "sys \<noteq> []" and "agent_base_new render None extract kwargs = Inr ab"
    and "\<forall>m\<in>set messages. \<not> user m"
  shows "apply_chat_template ab messages None data kw True = Inr (drop (length sys) (concat (map body messages) @ ask))"
proof -
  have "initialize_system_prompt render = Inr sys"
    using system_prompt_found [of render sys "body empty_user_message"] assms(1,2,4) by (simp add: needs_user_def)
  then have ab: "ab_tokens ab = render" "ab_processor ab = None" "ab_system_prompt ab = sys"
    using assms(6) by (auto simp: agent_base_new_def)
  have refused: "render messages True None = Inl RuntimeError" using assms(1,7) by (auto simp: needs_user_def)
  have rendered: "render [dummy_user_message] False None = Inr (MList (map MInt (sys @ body dummy_user_message)))"
      "render (dummy_user_message # messages) True None
        = Inr (MList (map MInt ((sys @ body dummy_user_message) @ concat (map body messages) @ ask)))"
    using assms(1,3) by (simp_all add: needs_user_def)
  have "template_tokens render messages True None = Inr (MList (map MInt (concat (map body messages) @ ask)))"
    unfolding template_tokens_def refused rendered sum.case rbind.simps by (rule prefix_taken_off) (use assms(5) in simp)
  then show ?thesis by (cases data) (simp add: apply_chat_template_def ab del: map_append)
qed

definition strict_render :: "(nat, nat mobj) chat_renderer" where
  "strict_render messages generation tools =
     (let is_user = (\<lambda>m. case m of MDict ((_, MStr role) # _) \<Rightarrow> role = ''user'' | _ \<Rightarrow> False) in
      if list_ex is_user messages
      then Inr (MList (map MInt ([100, 101] @ concat (map (\<lambda>m. if is_user m then [1] else [2, 3]) messages) @ (if generation then [9] else []))))
      else Inl RuntimeError)"

definition strict_user :: "nat mobj \<Rightarrow> bool" where
  "strict_user m = (case m of MDict ((_, MStr role) # _) \<Rightarrow> role = ''user'' | _ \<Rightarrow> False)"

theorem fallback_drops_system_prompt_twice_witness:
  "\<exists>ab. agent_base_new strict_render None (\<lambda>_. Inr (None, None, None)) [] = Inr ab
    \<and> apply_chat_template ab [MDict [(''role'', MStr ''tool''), (''content'', MStr ''5'')]] None (None, None, None) None True = Inr [9]"
proof -
  let ?body = "\<lambda>m. if strict_user m then [1] else [2, 3] :: int list"
  have needs: "needs_user strict_render [100, 101] ?body [9] strict_user"
    by (auto simp: needs_user_def strict_render_def strict_user_def Let_def list_ex_iff)
  have users: "strict_user empty_user_message" "strict_user dummy_user_message"
    by (simp_all add: strict_user_def empty_user_message_def dummy_user_message_def)
  have "initialize_system_prompt strict_render = Inr [100, 101]" by code_simp
  then obtain ab where ab: "agent_base_new strict_render None (\<lambda>_. Inr (None, None, None)) [] = Inr ab"
    by (simp add: agent_base_new_def)
  have tool: "\<forall>m\<in>set [MDict [(''role'', MStr ''tool''), (''content'', MStr ''5'')]]. \<not> strict_user m" by (simp add: strict_user_def)
  have "?body empty_user_message \<noteq> []" "[100, 101 :: int] \<noteq> []" by simp_all
  from fallback_drops_system_prompt_twice [OF needs users this ab tool] show ?thesis
    using ab by (auto simp: strict_user_def)
qed

theorem tool_turn_follows_template_witness:
  "\<exists>ab. agent_base_new (\<lambda>messages generation tools. Inr (MList (map MInt ([100, 101] @ concat (map (\<lambda>m. [2, 3]) messages) @ (if generation then [9] else [])))))
      None (\<lambda>_. Inr (None, None, None)) [] = Inr ab
    \<and> apply_chat_template ab [MNone, MNone :: nat mobj] None (None, None, None) None True = Inr [2, 3, 2, 3, 9]"
proof -
  let ?render = "\<lambda>(messages :: nat mobj list) generation (tools :: nat mobj list option).
    Inr (MList (map MInt ([100, 101] @ concat (map (\<lambda>m. [2, 3]) messages) @ (if generation then [9] else []))))"
  have renders: "renders_messages ?render (\<lambda>_. [100, 101]) (\<lambda>_. [2, 3]) [9]" by (simp add: renders_messages_def)
  have "initialize_system_prompt ?render = Inr [100, 101]" by code_simp
  then obtain ab where ab: "agent_base_new ?render None (\<lambda>_. Inr (None, None, None)) [] = Inr ab"
    by (simp add: agent_base_new_def)
  have "[2, 3 :: int] \<noteq> []" by simp
  from tool_turn_follows_template [OF renders this ab] show ?thesis using ab by auto
qed

end
