(* ===== verification/TrainerBatch.thy ===== *)
theory TrainerBatch
  imports AgentManager Partition LossVariants EvidenceWeighting "HOL-Library.List_Lexorder" "HOL-Library.Char_ord"
begin

text \<open>
  What the driver of \<open>verl/trainer/ppo/ray_trainer.py\<close> does to a batch between the remote calls: cutting
  out the part that is sent to generation, the penalty on the rewards, the response mask, the order that
  balances the ranks, and the evidence weights. Remote calls, timers and logging are left out.
\<close>

section \<open>Columns\<close>

text \<open>\<open>data.batch[k]\<close>; the columns read as token-level tensors and as one number per row.\<close>

definition batch_column :: "('r, 'o) dataproto \<Rightarrow> string \<Rightarrow> 'r list res" where
  "batch_column dp k = (case batch dp of None \<Rightarrow> Inl TypeError | Some td \<Rightarrow> dict_get (tensors td) k)"

fun cell_reals :: "cell \<Rightarrow> real list res" where
  "cell_reals (RealRow xs) = Inr xs"
| "cell_reals (IntRow xs) = Inr (map of_int xs)"
| "cell_reals _ = Inl RuntimeError"

fun cell_real :: "cell \<Rightarrow> real res" where
  "cell_real (RealNum x) = Inr x"
| "cell_real _ = Inl RuntimeError"

definition token_column :: "(cell, 'o) dataproto \<Rightarrow> string \<Rightarrow> tensor res" where
  "token_column dp k = rbind (batch_column dp k) (rmap cell_reals)"

definition number_column :: "(cell, 'o) dataproto \<Rightarrow> string \<Rightarrow> real list res" where
  "number_column dp k = rbind (batch_column dp k) (rmap cell_real)"

definition has_tensor :: "('r, 'o) dataproto \<Rightarrow> string \<Rightarrow> bool" where
  "has_tensor dp k = (case batch dp of None \<Rightarrow> False | Some td \<Rightarrow> has_key (tensors td) k)"

text \<open>\<open>data.batch[k] = v\<close>: a \<open>TensorDict\<close> wants the rows of its batch size.\<close>

definition set_batch_tensor :: "('r, 'o) dataproto \<Rightarrow> string \<Rightarrow> 'r list \<Rightarrow> ('r, 'o) dataproto res" where
  "set_batch_tensor dp k rows =
     (case batch dp of
        None \<Rightarrow> Inl TypeError
      | Some td \<Rightarrow> rbind (rcheck RuntimeError (length rows = batch_size td)) (\<lambda>_.
          Inr (dp\<lparr>batch := Some (td\<lparr>tensors := dict_set (tensors td) k rows\<rparr>)\<rparr>)))"

definition drop_tensor :: "string \<Rightarrow> ('r, 'o) dataproto \<Rightarrow> ('r, 'o) dataproto" where
  "drop_tensor k dp = dp\<lparr>batch := map_option (\<lambda>td. td\<lparr>tensors := dict_del (tensors td) k\<rparr>) (batch dp)\<rparr>"

fun cell_width :: "cell \<Rightarrow> nat" where
  "cell_width (RealNum x) = 0"
| "cell_width (IntRow xs) = length xs"
| "cell_width (RealRow xs) = length xs"
| "cell_width (IntRows rows) = length rows"
| "cell_width (RealRows rows) = length rows"

definition token_width :: "cell list \<Rightarrow> nat" where
  "token_width rows = (case rows of [] \<Rightarrow> 0 | c # _ \<Rightarrow> cell_width c)"

section \<open>The part for generation\<close>

text \<open>\<open>_get_gen_batch\<close>: everything but the keys of the reward leaves the batch; the generation part gets a
  copy of what stays. The popped keys are taken in the order of the dictionary.\<close>

definition reward_keys :: "string list" where
  "reward_keys = [''data_source'', ''reward_model'', ''extra_info'', ''uid'', ''image_path'']"

definition get_gen_batch :: "('r, 'o) dataproto \<Rightarrow> (('r, 'o) dataproto \<times> ('r, 'o) dataproto) res" where
  "get_gen_batch dp =
     (let to_pop = filter (\<lambda>k. k \<notin> set reward_keys) (map fst (non_tensor_batch dp)) in
      rbind (pop_columns [] to_pop [] dp) (\<lambda>(gen_batch, rest).
      Inr (gen_batch\<lparr>non_tensor_batch := dict_update (non_tensor_batch gen_batch) (non_tensor_batch rest)\<rparr>, rest)))"

section \<open>KL penalty on the rewards\<close>

definition apply_kl_penalty ::
    "(cell, 'o) dataproto \<Rightarrow> kl_controller \<Rightarrow> string
     \<Rightarrow> ((cell, 'o) dataproto \<times> kl_controller \<times> real pydict) res" where
  "apply_kl_penalty data kl_ctrl penalty =
     rbind (token_column data ''response_mask'') (\<lambda>response_mask.
     rbind (token_column data ''token_level_scores'') (\<lambda>token_level_scores.
     rbind (token_column data ''old_log_probs'') (\<lambda>old_log_probs.
     rbind (token_column data ''ref_log_prob'') (\<lambda>ref_log_prob.
     rbind (kl_penalty old_log_probs ref_log_prob penalty) (\<lambda>raw_kld.
     (let kld = tmap2 (*) raw_kld response_mask;
          beta = kl_value kl_ctrl;
          token_level_rewards = tmap2 (\<lambda>s k. s - beta * k) token_level_scores kld;
          current_kl = mean_of (seq_masked_mean kld response_mask) in
      rbind (set_batch_tensor data ''token_level_rewards'' (map RealRow token_level_rewards)) (\<lambda>data'.
      Inr (data', kl_update kl_ctrl current_kl (real (dp_len data)),
           [(''actor/reward_kl_penalty'', current_kl), (''actor/reward_kl_penalty_coeff'', beta)]))))))))"

section \<open>The response mask\<close>

text \<open>\<open>attention_mask[:, -n:]\<close>: for \<open>n = 0\<close> the slice is the whole row.\<close>

definition last_columns :: "nat \<Rightarrow> 'a list \<Rightarrow> 'a list" where
  "last_columns n row = (if n = 0 then row else drop (length row - n) row)"

fun cell_last :: "nat \<Rightarrow> cell \<Rightarrow> cell" where
  "cell_last n (IntRow xs) = IntRow (last_columns n xs)"
| "cell_last n (RealRow xs) = RealRow (last_columns n xs)"
| "cell_last n c = c"

definition compute_response_mask :: "(cell, 'o) dataproto \<Rightarrow> cell list res" where
  "compute_response_mask data =
     rbind (batch_column data ''responses'') (\<lambda>responses.
     rbind (batch_column data ''attention_mask'') (\<lambda>attention_mask.
     Inr (map (cell_last (token_width responses)) attention_mask)))"

section \<open>Balancing the ranks\<close>

definition get_dp_size :: "int list \<Rightarrow> int res" where
  "get_dp_size dp_rank_mapping =
     rbind (rcheck ValueError (dp_rank_mapping \<noteq> [])) (\<lambda>_. Inr (Max (set dp_rank_mapping) + 1))"

fun cell_total :: "cell \<Rightarrow> int" where
  "cell_total (IntRow xs) = sum_list xs"
| "cell_total (IntRows rows) = sum_list (map sum_list rows)"
| "cell_total _ = 0"

text \<open>Within a rank: by workload, then every second one forwards and the others backwards, so that the
  small ones stand at both ends.\<close>

definition small_at_both_ends :: "int list \<Rightarrow> nat list \<Rightarrow> nat list" where
  "small_at_both_ends workload_lst members =
     (let sorted_partition = py_sorted (\<lambda>x y. py_pair_lt (<) (<) (workload_lst ! x, x) (workload_lst ! y, y)) members
      in every 2 sorted_partition @ rev (every 2 (drop 1 sorted_partition)))"

text \<open>The partition of every mini-batch, appended rank by rank.\<close>

fun minibatch_partitions :: "int list \<Rightarrow> nat \<Rightarrow> nat \<Rightarrow> nat list \<Rightarrow> nat list list \<Rightarrow> nat list list res" where
  "minibatch_partitions workload_lst minibatch_size ranks [] acc = Inr acc"
| "minibatch_partitions workload_lst minibatch_size ranks (i # is) acc =
     rbind (get_seqlen_balanced_partitions
              (pyslice (i * minibatch_size) ((i + 1) * minibatch_size) workload_lst) ranks True) (\<lambda>parts.
     minibatch_partitions workload_lst minibatch_size ranks is
       (map2 (\<lambda>a part. a @ map (\<lambda>x. x + minibatch_size * i) part) acc parts))"

definition uid_object :: "'img mobj \<Rightarrow> 'img mobj option" where
  "uid_object u = (if u = MNone then None else Some u)"

definition global_partitions ::
    "nat \<Rightarrow> bool \<Rightarrow> bool \<Rightarrow> nat option \<Rightarrow> int list \<Rightarrow> 'img mobj list option \<Rightarrow> nat list list res" where
  "global_partitions ranks use_prefix_grouper keep_minibatch ppo_mini_batch_size global_seqlen_lst uids =
     (let workload_lst = map calculate_workload global_seqlen_lst in
      case (if use_prefix_grouper then uids else None) of
        Some uid_list \<Rightarrow>
          rbind (rcheck ZeroDivisionError (ranks \<noteq> 0)) (\<lambda>_.
          rbind (rcheck ValueError (length (remdups uid_list) mod ranks = 0)) (\<lambda>_.
          get_group_balanced_partitions global_seqlen_lst (map uid_object uid_list) ranks))
      | None \<Rightarrow>
          if keep_minibatch
          then (case ppo_mini_batch_size of
                  None \<Rightarrow> Inl TypeError
                | Some minibatch_size \<Rightarrow>
                    rbind (rcheck ZeroDivisionError (minibatch_size \<noteq> 0)) (\<lambda>_.
                    minibatch_partitions workload_lst minibatch_size ranks
                      [0..<length workload_lst div minibatch_size] (replicate ranks [])))
          else get_seqlen_balanced_partitions workload_lst ranks True)"

definition balance_batch ::
    "nat \<Rightarrow> bool \<Rightarrow> bool \<Rightarrow> nat option \<Rightarrow> (cell, 'img mobj) dataproto
     \<Rightarrow> ((cell, 'img mobj) dataproto \<times> unbalance_metrics) res" where
  "balance_batch ranks use_prefix_grouper keep_minibatch ppo_mini_batch_size dp =
     rbind (batch_column dp ''attention_mask'') (\<lambda>attention_mask.
     (let global_seqlen_lst = map cell_total attention_mask;
          workload_lst = map calculate_workload global_seqlen_lst in
      rbind (global_partitions ranks use_prefix_grouper keep_minibatch ppo_mini_batch_size global_seqlen_lst
               (map_of (non_tensor_batch dp) ''uid'')) (\<lambda>partitions.
      (let global_partition_lst = (if use_prefix_grouper then partitions
                                   else map (small_at_both_ends workload_lst) partitions);
           global_idx = concat global_partition_lst in
       rbind (rcheck IndexError (global_idx \<noteq> [])) (\<lambda>_.
       rbind (reorder global_idx dp) (\<lambda>dp'.
       rbind (log_seqlen_unbalance global_seqlen_lst global_partition_lst) (\<lambda>stats. Inr (dp', stats))))))))"

section \<open>Evidence weights\<close>

definition logprob_tensor_of :: "cell list \<Rightarrow> logprob_tensor res" where
  "logprob_tensor_of rows =
     (if \<forall>c\<in>set rows. case c of RealRows _ \<Rightarrow> True | _ \<Rightarrow> False
      then Inr (Logprobs3 (map (\<lambda>c. case c of RealRows r \<Rightarrow> r | _ \<Rightarrow> []) rows))
      else rbind (rmap cell_reals rows) (\<lambda>A. Inr (Logprobs2 A)))"

fun uid_string :: "'img mobj \<Rightarrow> string res" where
  "uid_string (MStr s) = Inr s"
| "uid_string _ = Inl TypeError"

definition maybe_compute_evidence_opd_weights ::
    "evidence_config option \<Rightarrow> (cell, 'img mobj) dataproto \<Rightarrow> ((cell, 'img mobj) dataproto \<times> real pydict) res" where
  "maybe_compute_evidence_opd_weights weight_config dp =
     (case weight_config of
        None \<Rightarrow> Inr (dp, [])
      | Some cfg \<Rightarrow>
          rbind (rcheck ValueError (\<forall>k\<in>set [''teacher_logprobs'', ''teacher_neg_logprobs'', ''response_mask'', ''prompts''].
                   has_tensor dp k)) (\<lambda>_.
          rbind (rcheck ValueError (has_key (non_tensor_batch dp) ''uid'')) (\<lambda>_.
          rbind (rbind (batch_column dp ''teacher_logprobs'') logprob_tensor_of) (\<lambda>plus.
          rbind (rbind (batch_column dp ''teacher_neg_logprobs'') logprob_tensor_of) (\<lambda>minus.
          rbind (token_column dp ''response_mask'') (\<lambda>response_mask.
          rbind (batch_column dp ''prompts'') (\<lambda>prompts.
          rbind (rbind (dict_get (non_tensor_batch dp) ''uid'') (rmap uid_string)) (\<lambda>uids.
          rbind (compute_relative_evidence_opd_weights cfg plus minus response_mask (int (token_width prompts)) uids)
            (\<lambda>(weights, metrics, scores, advantages).
          rbind (set_batch_tensor dp ''opd_weights'' (map RealNum weights)) (\<lambda>dp1.
          rbind (set_batch_tensor dp1 ''opd_scores'' (map RealNum scores)) (\<lambda>dp2.
          rbind (set_batch_tensor dp2 ''opd_advantages'' (map RealNum advantages)) (\<lambda>dp3.
          Inr (drop_tensor ''teacher_neg_logprobs'' (drop_tensor ''teacher_neg_ids'' dp3), metrics)))))))))))))"

end
