(* ===== verification/TrainerAdvantage.thy ===== *)
theory TrainerAdvantage
  imports TrainerBatch Advantages ChatTemplate
begin

text \<open>
  \<open>compute_advantage\<close> of \<open>verl/trainer/ppo/ray_trainer.py\<close>: the driver looks the estimator up, collects its
  arguments from the batch and stores the result there; with \<open>as_torch_index\<close> of
  \<open>verl/utils/groupwise.py\<close>, which turns the ids of the prompts into group numbers.
\<close>

section \<open>Group numbers\<close>

text \<open>The integer that \<open>astype(np.int64)\<close> makes of an object.\<close>

fun coerced_label :: "'img mobj \<Rightarrow> int option" where
  "coerced_label (MStr s) = py_int s"
| "coerced_label (MInt i) = Some i"
| "coerced_label (MBool b) = Some (of_bool b)"
| "coerced_label (MFloat x) = Some (truncate_real x)"
| "coerced_label (MScalar v) = coerced_label v"
| "coerced_label _ = None"

definition int64 :: "int \<Rightarrow> bool" where
  "int64 i \<longleftrightarrow> - (2 ^ 63) \<le> i \<and> i < 2 ^ 63"

text \<open>\<open>np.unique(..., return_inverse=True)\<close> on strings; other labels are compared by their \<open>str\<close>, a
  parameter.\<close>

definition position_in :: "'a list \<Rightarrow> 'a \<Rightarrow> nat" where
  "position_in xs x = length (takeWhile (\<lambda>y. y \<noteq> x) xs)"

definition unique_inverse :: "string list \<Rightarrow> int list" where
  "unique_inverse labels = (let keys = py_sorted str_lt (remdups labels) in map (\<lambda>s. int (position_in keys s)) labels)"

fun label_text :: "('img mobj \<Rightarrow> string) \<Rightarrow> 'img mobj \<Rightarrow> string" where
  "label_text to_str (MStr s) = s"
| "label_text to_str v = to_str v"

definition as_torch_index :: "('img mobj \<Rightarrow> string) \<Rightarrow> 'img mobj list \<Rightarrow> int list" where
  "as_torch_index to_str index =
     (if \<forall>l\<in>set index. (case coerced_label l of None \<Rightarrow> False | Some i \<Rightarrow> int64 i)
      then map (\<lambda>l. the (coerced_label l)) index
      else unique_inverse (map (label_text to_str) index))"

text \<open>Negative labels: no group is allocated for them, \<open>index_add_\<close> and the lookup fail.\<close>

definition group_indices :: "int list \<Rightarrow> nat list res" where
  "group_indices gidx =
     rbind (rcheck RuntimeError (gidx = [] \<or> - 1 \<le> Max (set gidx))) (\<lambda>_.
     rbind (rcheck IndexError (\<forall>g\<in>set gidx. 0 \<le> g)) (\<lambda>_. Inr (map nat gidx)))"

section \<open>The configuration and the arguments\<close>

record algo_config =
  ac_gamma :: real
  ac_norm_adv :: "bool option"
  ac_use_pf_ppo :: bool
  ac_reweight_method :: "string option"
  ac_weight_pow :: "real option"
  ac_gdpo_reward_keys :: "string list option"
  ac_gdpo_reward_weights :: "real list option"

text \<open>The random draw of PF-PPO, the first position of a maximum that \<open>topk\<close> names, and \<open>str\<close>.\<close>

record 'img adv_env =
  env_multinomial :: "real list \<Rightarrow> nat \<Rightarrow> nat list"
  env_top_position :: "real list \<Rightarrow> nat"
  env_str :: "'img mobj \<Rightarrow> string"

fun obj_real :: "'img mobj \<Rightarrow> real res" where
  "obj_real (MFloat x) = Inr x"
| "obj_real (MInt i) = Inr (of_int i)"
| "obj_real (MBool b) = Inr (of_bool b)"
| "obj_real (MScalar v) = obj_real v"
| "obj_real MNone = Inl TypeError"
| "obj_real _ = Inl ValueError"

definition gdpo_inputs_of :: "algo_config \<Rightarrow> (cell, 'img mobj) dataproto \<Rightarrow> gdpo_inputs res" where
  "gdpo_inputs_of config data =
     (let keys = (case ac_gdpo_reward_keys config of None \<Rightarrow> [] | Some ks \<Rightarrow> ks) in
      rbind (rassert (keys \<noteq> [])) (\<lambda>_.
      rbind (batch_column data ''prompts'') (\<lambda>prompts.
      rbind (batch_column data ''attention_mask'') (\<lambda>msk.
      rbind (rmap (\<lambda>k. case map_of (non_tensor_batch data) k of
                         None \<Rightarrow> Inl AssertionError
                       | Some column \<Rightarrow> rbind (rmap obj_real column) (\<lambda>xs. Inr (k, xs))) keys) (\<lambda>components.
      Inr \<lparr>gdpo_reward_keys = Some keys, gdpo_reward_weights = ac_gdpo_reward_weights config,
           gdpo_components = components, prompt_length = token_width prompts,
           attention_mask = map cell_ints msk\<rparr>)))))"

definition index_arg :: "'o list option \<Rightarrow> ('o list \<Rightarrow> 'b res) \<Rightarrow> 'b res" where
  "index_arg index f = (case index of None \<Rightarrow> Inl TypeError | Some ix \<Rightarrow> f ix)"

section \<open>The call of the estimator\<close>

text \<open>The names under which the estimators are registered.\<close>

definition adv_estimator_registry :: "string list" where
  "adv_estimator_registry =
     [''gae'', ''grpo'', ''grpo_vectorized'', ''gdpo'', ''grpo_passk'', ''reinforce_plus_plus_baseline'', ''rloo'', ''opo'',
      ''reinforce_plus_plus'', ''remax'', ''gpg'', ''rloo_vectorized'', ''optimal_token_baseline'',
      ''tir_optimal_token_baseline'']"

text \<open>The epsilons and the other arguments are the defaults of the estimators: the driver passes none of
  them. A missing argument without a default is a \<open>TypeError\<close>, and so is one that
  the vectorised GRPO, which has no \<open>**kwargs\<close>, does not know.\<close>

definition grpo_epsilon :: real where
  "grpo_epsilon = 1 / 10 ^ 6"

definition otb_arguments ::
    "(cell, 'o) dataproto \<Rightarrow> (tensor \<times> tensor \<times> tensor option) res" where
  "otb_arguments data =
     rbind (rassert (has_tensor data ''sum_pi_squared'')) (\<lambda>_.
     rbind (token_column data ''sum_pi_squared'') (\<lambda>sum_pi_squared.
     rbind (token_column data ''old_log_probs'') (\<lambda>old_log_probs.
     rbind (if has_tensor data ''rollout_is_weights''
            then rbind (token_column data ''rollout_is_weights'') (\<lambda>w. Inr (Some w)) else Inr None) (\<lambda>rollout_is_weights.
     Inr (old_log_probs, sum_pi_squared, rollout_is_weights)))))"

definition call_estimator ::
    "'img adv_env \<Rightarrow> string \<Rightarrow> algo_config option \<Rightarrow> (cell, 'img mobj) dataproto \<Rightarrow> tensor \<Rightarrow> tensor
     \<Rightarrow> 'img mobj list option \<Rightarrow> (tensor \<times> tensor) res" where
  "call_estimator env name config data rewards msk index =
     (if name = ''reinforce_plus_plus''
      then compute_reinforce_plus_plus_outcome_advantage rewards msk (map_option ac_gamma config)
      else if name = ''reinforce_plus_plus_baseline''
      then index_arg index (compute_reinforce_plus_plus_baseline_outcome_advantage rewards msk)
      else if name = ''remax''
      then (if has_tensor data ''reward_baselines''
            then rbind (number_column data ''reward_baselines'') (\<lambda>baselines.
                 Inr (compute_remax_outcome_advantage rewards baselines msk))
            else Inl TypeError)
      else if name = ''rloo'' then index_arg index (\<lambda>ix. Inr (compute_rloo_outcome_advantage rewards msk ix))
      else if name = ''opo'' then index_arg index (\<lambda>ix. Inr (compute_opo_outcome_advantage rewards msk ix))
      else if name = ''gpg'' then index_arg index (\<lambda>ix. Inr (compute_gpg_outcome_advantage rewards msk ix 1))
      else if name = ''rloo_vectorized''
      then index_arg index (\<lambda>ix. Inr (compute_rloo_vectorized_outcome_advantage rewards msk ix))
      else if name = ''grpo_vectorized''
      then (if has_tensor data ''reward_baselines'' then Inl TypeError
            else index_arg index (\<lambda>ix. rbind (group_indices (as_torch_index (env_str env) ix)) (\<lambda>gidx.
                 compute_grpo_vectorized_outcome_advantage rewards msk gidx grpo_epsilon True)))
      else if name = ''grpo_passk''
      then index_arg index (\<lambda>ix. compute_grpo_passk_outcome_advantage (env_top_position env) rewards msk ix
             grpo_epsilon (map_option ac_norm_adv config))
      else if name = ''gdpo''
      then index_arg index (\<lambda>ix.
             rbind (case config of None \<Rightarrow> Inr None | Some c \<Rightarrow> rbind (gdpo_inputs_of c data) (\<lambda>i. Inr (Some i))) (\<lambda>inputs.
             compute_gdpo_outcome_advantage rewards msk ix grpo_epsilon True inputs))
      else if name \<in> {''optimal_token_baseline'', ''tir_optimal_token_baseline''}
      then rbind (otb_arguments data) (\<lambda>(old_log_probs, sum_pi_squared, weights).
           index_arg index (\<lambda>ix.
             Inr (if name = ''optimal_token_baseline''
                  then compute_optimal_token_baseline_advantage rewards msk ix old_log_probs sum_pi_squared weights
                         True (1 / 10 ^ 8) (row_width rewards)
                  else compute_multi_turn_optimal_token_baseline_advantage rewards msk ix old_log_probs
                         sum_pi_squared weights True (1 / 10 ^ 8))))
      else Inl ValueError)"

section \<open>compute_advantage\<close>

definition with_response_mask :: "(cell, 'o) dataproto \<Rightarrow> (cell, 'o) dataproto res" where
  "with_response_mask data =
     (if batch data = None then Inl AttributeError
      else if has_tensor data ''response_mask'' then Inr data
      else rbind (compute_response_mask data) (set_batch_tensor data ''response_mask''))"

definition store_advantages ::
    "(cell, 'o) dataproto \<Rightarrow> tensor \<times> tensor \<Rightarrow> (cell, 'o) dataproto res" where
  "store_advantages data result =
     rbind (set_batch_tensor data ''advantages'' (map RealRow (fst result))) (\<lambda>data'.
     set_batch_tensor data' ''returns'' (map RealRow (snd result)))"

definition pf_ppo_step ::
    "'img adv_env \<Rightarrow> algo_config option \<Rightarrow> (cell, 'img mobj) dataproto \<Rightarrow> (cell, 'img mobj) dataproto res" where
  "pf_ppo_step env config data =
     (case config of
        None \<Rightarrow> Inl AttributeError
      | Some c \<Rightarrow>
          if \<not> ac_use_pf_ppo c then Inr data
          else (case ac_reweight_method c of
                  None \<Rightarrow> Inl ValueError
                | Some reweight_method \<Rightarrow>
                    (case ac_weight_pow c of
                       None \<Rightarrow> if reweight_method = ''pow'' then Inl TypeError
                               else compute_pf_ppo_reweight_data (env_multinomial env)
                                      (\<lambda>r. case cell_reals r of Inl _ \<Rightarrow> [] | Inr xs \<Rightarrow> xs) data reweight_method 1
                     | Some weight_pow \<Rightarrow>
                         compute_pf_ppo_reweight_data (env_multinomial env)
                           (\<lambda>r. case cell_reals r of Inl _ \<Rightarrow> [] | Inr xs \<Rightarrow> xs) data reweight_method weight_pow)))"

definition compute_advantage ::
    "'img adv_env \<Rightarrow> string \<Rightarrow> real \<Rightarrow> real \<Rightarrow> bool \<Rightarrow> algo_config option \<Rightarrow> (cell, 'img mobj) dataproto
     \<Rightarrow> (cell, 'img mobj) dataproto res" where
  "compute_advantage env adv_estimator gamma lam norm_adv_by_std_in_grpo config data0 =
     rbind (with_response_mask data0) (\<lambda>data.
     rbind (rcheck ValueError (adv_estimator \<in> set adv_estimator_registry)) (\<lambda>_.
     rbind (token_column data ''token_level_rewards'') (\<lambda>rewards.
     if adv_estimator = ''gae''
     then rbind (token_column data ''values'') (\<lambda>vals.
          rbind (token_column data ''response_mask'') (\<lambda>msk.
          rbind (compute_gae_advantage_return rewards vals msk gamma lam) (\<lambda>result.
          rbind (store_advantages data result) (pf_ppo_step env config))))
     else rbind (token_column data ''response_mask'') (\<lambda>msk.
     if adv_estimator = ''grpo''
     then rbind (dict_get (non_tensor_batch data) ''uid'') (\<lambda>uid.
          store_advantages data (compute_grpo_outcome_advantage rewards msk uid grpo_epsilon norm_adv_by_std_in_grpo))
     else rbind (call_estimator env adv_estimator config data rewards msk (map_of (non_tensor_batch data) ''uid''))
            (store_advantages data)))))"

end
