(* ===== verification/ReorderLaws.thy ===== *)
theory ReorderLaws
  imports TrainerAdvantage AdvantageLaws
begin

text \<open>
  Advantages do not depend on the order of the batch: an estimator that is given the rows in another order
  returns its rows in that order. First for tensors, estimator by estimator.
\<close>

section \<open>Another order of the rows\<close>

definition row_order :: "nat list \<Rightarrow> nat \<Rightarrow> bool" where
  "row_order idx n \<longleftrightarrow> mset idx = mset [0..<n]"

abbreviation sel :: "nat list \<Rightarrow> 'a list \<Rightarrow> 'a list" where
  "sel idx xs \<equiv> select xs idx"

lemma row_orderD:
  assumes "row_order idx n"
  shows "length idx = n" and "set idx = {0..<n}"
proof -
  show "length idx = n" using mset_eq_length [OF assms [unfolded row_order_def]] by simp
  show "set idx = {0..<n}" using mset_eq_setD [OF assms [unfolded row_order_def]] by simp
qed

lemma row_order_nth: "row_order idx n \<Longrightarrow> i < length idx \<Longrightarrow> idx ! i < n"
  by (metis atLeastLessThan_iff nth_mem row_orderD(2))

lemma sel_map: "row_order idx (length xs) \<Longrightarrow> sel idx (map f xs) = map f (sel idx xs)"
  by (auto simp: select_def dest: row_orderD(2))

lemma sel_map2:
  "row_order idx (length xs) \<Longrightarrow> length xs = length ys \<Longrightarrow>
   sel idx (map2 f xs ys) = map2 f (sel idx xs) (sel idx ys)"
  by (rule nth_equalityI) (auto simp: select_def row_order_nth)

lemma sel_zip:
  "row_order idx (length xs) \<Longrightarrow> length xs = length ys \<Longrightarrow> sel idx (zip xs ys) = zip (sel idx xs) (sel idx ys)"
  by (rule nth_equalityI) (auto simp: select_def row_order_nth)

lemma mset_sel: "row_order idx (length xs) \<Longrightarrow> mset (sel idx xs) = mset xs"
  by (simp add: row_order_def mset_select_perm)

lemma set_sel: "row_order idx (length xs) \<Longrightarrow> set (sel idx xs) = set xs"
  by (metis mset_eq_setD mset_sel)

lemma sum_sel: "row_order idx (length xs) \<Longrightarrow> sum_list (sel idx xs) = sum_list (xs :: real list)"
  by (simp add: row_order_def sum_list_select_perm)

lemma sum_list_mset_cong: "mset xs = mset ys \<Longrightarrow> sum_list xs = (sum_list ys :: real)"
  by (metis sum_mset_sum_list)

lemma row_sums_sel: "row_order idx (length A) \<Longrightarrow> row_sums (sel idx A) = sel idx (row_sums A)"
  by (simp add: row_sums_def sel_map)

lemma tmap2_sel:
  "row_order idx (length A) \<Longrightarrow> length A = length B \<Longrightarrow> tmap2 f (sel idx A) (sel idx B) = sel idx (tmap2 f A B)"
  by (simp add: tmap2_def sel_map2)

lemma tmap_sel: "row_order idx (length A) \<Longrightarrow> tmap f (sel idx A) = sel idx (tmap f A)"
  by (simp add: tmap_def sel_map)

lemma mask_rows_sel:
  "row_order idx (length A) \<Longrightarrow> length s = length A \<Longrightarrow> mask_rows (sel idx s) (sel idx A) = sel idx (mask_rows s A)"
  by (simp add: mask_rows_def sel_map2)

lemma tsum_sel: "row_order idx (length A) \<Longrightarrow> tsum (sel idx A) = tsum A"
  by (simp add: tsum_def row_sums_sel sum_sel)

lemma masked_sum_sel:
  "row_order idx (length A) \<Longrightarrow> length A = length M \<Longrightarrow> masked_sum (sel idx A) (sel idx M) = masked_sum A M"
  by (simp add: masked_sum_def tmap2_sel tsum_sel)

lemma masked_mean_sel:
  "row_order idx (length A) \<Longrightarrow> length A = length M \<Longrightarrow> masked_mean (sel idx A) (sel idx M) = masked_mean A M"
  by (simp add: masked_mean_def masked_sum_sel tsum_sel)

lemma masked_var_sel:
  assumes "row_order idx (length A)" and "length A = length M"
  shows "masked_var (sel idx A) (sel idx M) unbiased = masked_var A M unbiased"
proof -
  have "length (tmap (\<lambda>v. (v - m)\<^sup>2) A) = length A" for m by (simp add: tmap_def)
  with assms show ?thesis
    by (simp add: masked_var_def Let_def masked_mean_sel tmap_sel tsum_sel)
qed

definition res_map :: "('a \<Rightarrow> 'b) \<Rightarrow> 'a res \<Rightarrow> 'b res" where
  "res_map f r = rbind r (\<lambda>x. Inr (f x))"

lemma res_map_simps [simp]: "res_map f (Inr x) = Inr (f x)" "res_map f (Inl e) = Inl e"
  by (simp_all add: res_map_def)

lemma masked_whiten_sel:
  assumes "row_order idx (length A)" and "length A = length M"
  shows "masked_whiten (sel idx A) (sel idx M) s = res_map (sel idx) (masked_whiten A M s)"
proof (cases "masked_var A M True")
  case (Inl e)
  with assms show ?thesis by (simp add: masked_whiten_def masked_var_sel)
next
  case (Inr v)
  have len: "length (tmap f A) = length A" for f :: "real \<Rightarrow> real" by (simp add: tmap_def)
  have shift: "tmap f (sel idx (tmap h A)) = sel idx (tmap f (tmap h A))" for f h :: "real \<Rightarrow> real"
    using assms len by (intro tmap_sel) simp
  from Inr assms show ?thesis
    by (simp add: masked_whiten_def Let_def masked_var_sel masked_mean_sel tmap_sel shift)
qed

lemma masked_whiten_length: "masked_whiten A M s = Inr W \<Longrightarrow> length W = length A"
  by (auto simp: masked_whiten_def Let_def tmap_def res_simps)

section \<open>Groups\<close>

lemma id2list_sel:
  assumes "row_order idx (length index)" and "length index = length xs"
  shows "mset (id2list (sel idx index) (sel idx xs) g) = mset (id2list index xs g)"
  using assms mset_sel [of idx "zip index xs"]
  by (simp add: id2list_filter sel_zip [symmetric])

lemma tmean_mset: "mset xs = mset ys \<Longrightarrow> tmean xs = tmean ys"
  by (simp add: tmean_def sum_list_mset_cong [of xs ys] mset_eq_length [of xs ys])

lemma sum_list_map_mset_cong: "mset xs = mset ys \<Longrightarrow> (\<Sum>x\<leftarrow>xs. f x) = (\<Sum>x\<leftarrow>ys. f x :: real)"
  by (metis mset_map sum_list_mset_cong)

lemma group_statistics_mset:
  assumes "mset xs = mset ys"
  shows "id2mean xs = id2mean ys" and "id2std xs = id2std ys" and "tstd xs = tstd ys"
proof -
  have "(\<Sum>x\<leftarrow>xs. (x - tmean xs)\<^sup>2) = (\<Sum>x\<leftarrow>ys. (x - tmean ys)\<^sup>2)"
    using sum_list_map_mset_cong [OF assms, of "\<lambda>x. (x - tmean xs)\<^sup>2"] tmean_mset [OF assms] by simp
  then show "tstd xs = tstd ys" using mset_eq_length [OF assms] by (simp add: tstd_def)
  then show "id2mean xs = id2mean ys" "id2std xs = id2std ys"
    using mset_eq_length [OF assms] tmean_mset [OF assms] by (simp_all add: id2mean_def id2std_def)
qed

lemma id2list_products:
  "length ix = length as \<Longrightarrow> length ix = length bs \<Longrightarrow>
   map2 (*) (id2list ix as g) (id2list ix bs g) = id2list ix (map2 (*) as bs) g"
  unfolding id2list_filter
proof (induction ix arbitrary: as bs)
  case (Cons i ix)
  then show ?case by (cases as; cases bs) auto
qed simp

lemma opo_baseline_sel:
  assumes "row_order idx (length index)" and "length index = length xs" and "length index = length ls"
  shows "opo_baseline (id2list (sel idx index) (sel idx xs) g) (id2list (sel idx index) (sel idx ls) g)
    = opo_baseline (id2list index xs g) (id2list index ls g)"
proof -
  note pairs = id2list_products
  have "sum_list (id2list (sel idx index) (sel idx ys) g) = sum_list (id2list index ys g)"
    "length (id2list (sel idx index) (sel idx ys) g) = length (id2list index ys g)"
    if "length index = length ys" for ys :: "real list"
    using id2list_sel [OF assms(1) that] by (auto dest: sum_list_mset_cong mset_eq_length)
  moreover have "map2 (*) (sel idx ls) (sel idx xs) = sel idx (map2 (*) ls xs)"
    using assms by (simp add: sel_map2)
  ultimately show ?thesis
    using assms by (simp add: opo_baseline_def pairs)
qed

lemma group_sum_sel:
  assumes "row_order idx (length index)" and "length index = length xs"
  shows "group_sum (sel idx index) (sel idx xs) g = group_sum index xs g"
proof -
  have "mset (filter (\<lambda>p. fst p = g) (sel idx (zip index xs))) = mset (filter (\<lambda>p. fst p = g) (zip index xs))"
    using assms mset_sel [of idx "zip index xs"] by simp
  then show ?thesis using assms by (simp add: group_sum_def sel_zip sum_list_map_mset_cong)
qed

lemma group_size_sel:
  assumes "row_order idx (length index)"
  shows "group_size (sel idx index) g = group_size index g"
proof -
  have "mset (filter (\<lambda>j. j = g) (sel idx index)) = mset (filter (\<lambda>j. j = g) index)"
    using mset_sel [OF assms] by (simp only: mset_filter)
  then show ?thesis unfolding group_size_def by (metis mset_eq_length)
qed

section \<open>The estimators\<close>

abbreviation both :: "nat list \<Rightarrow> 'a list \<times> 'b list \<Rightarrow> 'a list \<times> 'b list" where
  "both idx \<equiv> map_prod (sel idx) (sel idx)"

text \<open>The scores of an estimator that turns every row's score into a scalar by the statistics of its
  group.\<close>

lemma grouped_scalars_sel:
  assumes "row_order idx (length index)" and "length index = length xs"
    and "\<And>i x. F' i x = F i x"
  shows "map2 F' (sel idx index) (sel idx xs) = sel idx (map2 F index xs)"
proof -
  have "F' = F" using assms(3) by blast
  then show ?thesis using assms(1,2) by (simp add: sel_map2)
qed

lemma grpo_sel:
  assumes "row_order idx (length R)" and "length R = length M" and "length R = length index"
  shows "compute_grpo_outcome_advantage (sel idx R) (sel idx M) (sel idx index) eps b
    = both idx (compute_grpo_outcome_advantage R M index eps b)"
proof -
  note stats = group_statistics_mset [OF id2list_sel]
  have "grpo_scalars (sel idx index) (sel idx (row_sums R)) eps b = sel idx (grpo_scalars index (row_sums R) eps b)"
    unfolding grpo_scalars_def Let_def using assms by (intro grouped_scalars_sel) (simp_all add: stats)
  moreover have "length (grpo_scalars index (row_sums R) eps b) = length M"
    using assms by (simp add: grpo_scalars_def Let_def)
  ultimately show ?thesis
    using assms by (simp add: compute_grpo_outcome_advantage_def Let_def row_sums_sel mask_rows_sel)
qed

lemma rloo_sel:
  assumes "row_order idx (length R)" and "length R = length M" and "length R = length index"
  shows "compute_rloo_outcome_advantage (sel idx R) (sel idx M) (sel idx index)
    = both idx (compute_rloo_outcome_advantage R M index)"
proof -
  note stats = group_statistics_mset [OF id2list_sel] mset_eq_length [OF id2list_sel]
  have "rloo_scalars (sel idx index) (sel idx (row_sums R)) = sel idx (rloo_scalars index (row_sums R))"
    unfolding rloo_scalars_def Let_def using assms by (intro grouped_scalars_sel) (simp_all add: stats)
  moreover have "length (rloo_scalars index (row_sums R)) = length M"
    using assms by (simp add: rloo_scalars_def Let_def)
  ultimately show ?thesis
    using assms by (simp add: compute_rloo_outcome_advantage_def Let_def row_sums_sel mask_rows_sel)
qed

lemma rloo_vectorized_sel:
  assumes "row_order idx (length R)" and "length R = length M" and "length R = length index"
  shows "compute_rloo_vectorized_outcome_advantage (sel idx R) (sel idx M) (sel idx index)
    = both idx (compute_rloo_vectorized_outcome_advantage R M index)"
proof -
  have "rloo_vectorized_scalars (sel idx index) (sel idx (row_sums R)) = sel idx (rloo_vectorized_scalars index (row_sums R))"
    unfolding rloo_vectorized_scalars_def Let_def using assms
    by (intro grouped_scalars_sel) (simp_all add: group_sum_sel group_size_sel)
  moreover have "length (rloo_vectorized_scalars index (row_sums R)) = length M"
    using assms by (simp add: rloo_vectorized_scalars_def)
  ultimately show ?thesis
    using assms by (simp add: compute_rloo_vectorized_outcome_advantage_def Let_def row_sums_sel mask_rows_sel)
qed

lemma opo_sel:
  assumes "row_order idx (length R)" and "length R = length M" and "length R = length index"
  shows "compute_opo_outcome_advantage (sel idx R) (sel idx M) (sel idx index)
    = both idx (compute_opo_outcome_advantage R M index)"
proof -
  have "opo_scalars (sel idx index) (sel idx (row_sums R)) (sel idx (row_sums M))
      = sel idx (opo_scalars index (row_sums R) (row_sums M))"
    unfolding opo_scalars_def Let_def using assms by (intro grouped_scalars_sel) (simp_all add: opo_baseline_sel)
  moreover have "length (opo_scalars index (row_sums R) (row_sums M)) = length M"
    using assms by (simp add: opo_scalars_def Let_def)
  ultimately show ?thesis
    using assms by (simp add: compute_opo_outcome_advantage_def Let_def row_sums_sel mask_rows_sel)
qed

lemma gpg_sel:
  assumes "row_order idx (length R)" and "length R = length M" and "length R = length index"
  shows "compute_gpg_outcome_advantage (sel idx R) (sel idx M) (sel idx index) f
    = both idx (compute_gpg_outcome_advantage R M index f)"
proof -
  note stats = group_statistics_mset [OF id2list_sel]
  have "mset (filter (\<lambda>s. s \<noteq> 0) (sel idx (row_sums R))) = mset (filter (\<lambda>s. s \<noteq> 0) (row_sums R))"
    using mset_sel [of idx "row_sums R"] assms by simp
  then have count: "length (filter (\<lambda>s. s \<noteq> 0) (sel idx (row_sums R))) = length (filter (\<lambda>s. s \<noteq> 0) (row_sums R))"
    by (metis mset_eq_length)
  have n: "length idx = length (row_sums R)" using assms by (simp add: row_orderD)
  define F where "F = (\<lambda>i s. real (length (row_sums R)) / max (real (length (filter (\<lambda>s. s \<noteq> 0) (row_sums R)))) 1
      * (s - id2mean (id2list index (row_sums R) i)) / f)"
  have "map2 (\<lambda>i s. real (length (sel idx (row_sums R))) / max (real (length (filter (\<lambda>s. s \<noteq> 0) (sel idx (row_sums R))))) 1
      * (s - id2mean (id2list (sel idx index) (sel idx (row_sums R)) i)) / f) (sel idx index) (sel idx (row_sums R))
    = sel idx (map2 F index (row_sums R))"
    using assms by (intro grouped_scalars_sel) (simp_all add: F_def stats count n)
  moreover have "length (map2 F index (row_sums R)) = length M" using assms by simp
  ultimately show ?thesis
    using assms by (simp add: compute_gpg_outcome_advantage_def Let_def row_sums_sel mask_rows_sel F_def)
qed

lemma rfpp_baseline_sel:
  assumes "row_order idx (length R)" and "length R = length M" and "length R = length index"
  shows "compute_reinforce_plus_plus_baseline_outcome_advantage (sel idx R) (sel idx M) (sel idx index)
    = res_map (both idx) (compute_reinforce_plus_plus_baseline_outcome_advantage R M index)"
proof -
  note stats = group_statistics_mset [OF id2list_sel]
  define C where "C = map2 (\<lambda>i s. s - id2mean (id2list index (row_sums R) i)) index (row_sums R)"
  have "map2 (\<lambda>i s. s - id2mean (id2list (sel idx index) (sel idx (row_sums R)) i)) (sel idx index) (sel idx (row_sums R))
      = sel idx C"
    unfolding C_def using assms by (intro grouped_scalars_sel) (simp_all add: stats)
  moreover have "length C = length M" using assms by (simp add: C_def)
  moreover have "compute_reinforce_plus_plus_baseline_outcome_advantage R M index
      = rbind (masked_whiten (mask_rows C M) M True) (\<lambda>white. Inr (tmap2 (*) white M, tmap2 (*) white M))"
    by (simp add: compute_reinforce_plus_plus_baseline_outcome_advantage_def C_def Let_def)
  ultimately show ?thesis
    using assms masked_whiten_sel [of idx "mask_rows C M" M True]
    by (cases "masked_whiten (mask_rows C M) M True")
      (simp_all add: compute_reinforce_plus_plus_baseline_outcome_advantage_def Let_def row_sums_sel mask_rows_sel
         tmap2_sel masked_whiten_length)
qed

lemma gae_advantages_sel:
  assumes "row_order idx (length R)" and "length R = length M" and "length R = length V"
  shows "gae_advantages gamma lam (sel idx R) (sel idx V) (sel idx M) = sel idx (gae_advantages gamma lam R V M)"
  using assms by (simp add: gae_advantages_def sel_zip [symmetric] sel_map)

lemma gae_sel:
  assumes "row_order idx (length R)" and "length R = length M" and "length R = length V"
  shows "compute_gae_advantage_return (sel idx R) (sel idx V) (sel idx M) gamma lam
    = res_map (both idx) (compute_gae_advantage_return R V M gamma lam)"
proof -
  have "length (gae_advantages gamma lam R V M) = length M" using assms by (simp add: gae_advantages_def)
  with assms show ?thesis
    using masked_whiten_sel [of idx "gae_advantages gamma lam R V M" M True]
    by (cases "masked_whiten (gae_advantages gamma lam R V M) M True")
      (simp_all add: compute_gae_advantage_return_def Let_def gae_advantages_sel tmap2_sel)
qed

lemma rfpp_sel:
  assumes "row_order idx (length R)" and "length R = length M"
  shows "compute_reinforce_plus_plus_outcome_advantage (sel idx R) (sel idx M) g
    = res_map (both idx) (compute_reinforce_plus_plus_outcome_advantage R M g)"
proof (cases g)
  case (Some gamma)
  define Q where "Q = map2 (\<lambda>r m. fst (rfpp_row gamma (zip r m))) R M"
  have "length Q = length M" using assms by (simp add: Q_def)
  with assms Some show ?thesis
    using masked_whiten_sel [of idx Q M True]
    by (cases "masked_whiten Q M True")
      (simp_all add: compute_reinforce_plus_plus_outcome_advantage_def Let_def sel_map2 [symmetric] tmap2_sel
        masked_whiten_length flip: Q_def)
qed (simp add: compute_reinforce_plus_plus_outcome_advantage_def)

lemma remax_sel:
  assumes "row_order idx (length R)" and "length R = length M" and "length R = length B"
  shows "compute_remax_outcome_advantage (sel idx R) (sel idx B) (sel idx M)
    = both idx (compute_remax_outcome_advantage R B M)"
proof -
  have "rewards_to_go (sel idx R) (sel idx M) = sel idx (rewards_to_go R M)"
    using assms by (simp add: rewards_to_go_def tmap2_sel sel_map)
  moreover have "length (rewards_to_go R M) = length R" using assms by (simp add: rewards_to_go_def)
  ultimately show ?thesis
    using assms by (simp add: compute_remax_outcome_advantage_def Let_def mask_rows_sel tmap2_sel)
qed

section \<open>Group numbers\<close>

lemma py_insort_linorder: "py_insort (<) (x :: 'a :: linorder) xs = insort x xs"
  by (induction xs) auto

lemma py_sorted_linorder: "py_sorted (<) (xs :: 'a :: linorder list) = sort xs"
  by (induction xs) (auto simp: py_insort_linorder)

lemma str_lt_less: "str_lt s t \<longleftrightarrow> s < t"
proof (induction s arbitrary: t)
  case Nil
  show ?case by (cases t) (simp_all add: str_lt_def)
next
  case (Cons c s)
  show ?case
  proof (cases t)
    case (Cons d t')
    show ?thesis
      using Cons.IH [of t'] by (cases "c = d") (simp_all add: Cons str_lt_def less_char_def)
  qed (simp add: str_lt_def)
qed

lemma py_sorted_strings: "py_sorted str_lt xs = sort xs"
proof -
  have "str_lt = (<)" by (intro ext) (simp add: str_lt_less)
  then show ?thesis by (simp add: py_sorted_linorder)
qed

lemma unique_inverse_sel:
  assumes "row_order idx (length labels)"
  shows "unique_inverse (sel idx labels) = sel idx (unique_inverse labels)"
proof -
  have "sort (remdups (sel idx labels)) = sort (remdups labels)"
    using set_sel [OF assms] by (simp flip: sorted_list_of_set_sort_remdups)
  then show ?thesis using assms by (simp add: unique_inverse_def Let_def py_sorted_strings sel_map)
qed

lemma as_torch_index_sel:
  assumes "row_order idx (length index)"
  shows "as_torch_index f (sel idx index) = sel idx (as_torch_index f index)"
  using assms by (simp add: as_torch_index_def set_sel sel_map unique_inverse_sel [symmetric])

lemma length_as_torch_index [simp]: "length (as_torch_index f index) = length index"
  by (simp add: as_torch_index_def unique_inverse_def Let_def)

lemma group_indices_length: "group_indices g = Inr h \<Longrightarrow> length h = length g"
  by (auto simp: group_indices_def res_simps)

lemma group_indices_sel:
  assumes "row_order idx (length g)"
  shows "group_indices (sel idx g) = res_map (sel idx) (group_indices g)"
proof -
  have "sel idx g = [] \<longleftrightarrow> g = []" using assms by (metis length_0_conv length_select row_orderD(1))
  moreover have "sel idx (map nat g) = map nat (sel idx g)" using assms by (rule sel_map)
  ultimately show ?thesis
    using assms by (cases "g = []") (auto simp: group_indices_def set_sel rcheck_def)
qed

lemma index_add_sel:
  assumes "row_order idx (length g)" and "length g = length xs" and "\<forall>i\<in>set g. i < G"
  shows "index_add G (sel idx g) (sel idx xs) = index_add G g xs"
proof (rule nth_equalityI)
  fix j assume "j < length (index_add G (sel idx g) (sel idx xs))"
  then have j: "j < G" by simp
  have "sum_list (id2list (sel idx g) (sel idx xs) j) = sum_list (id2list g xs j)"
    using id2list_sel [OF assms(1,2)] by (rule sum_list_mset_cong)
  then show "index_add G (sel idx g) (sel idx xs) ! j = index_add G g xs ! j"
    using assms j by (simp add: index_add_nth set_sel)
qed simp

lemma group_mean_std_sel:
  assumes "row_order idx (length xs)" and "length xs = length g"
  shows "group_mean_std (sel idx xs) (sel idx g) eps = group_mean_std xs g eps"
proof (cases "g = []")
  case True
  with assms have "idx = []" using row_orderD(1) [of idx 0] by simp
  with True assms show ?thesis by (simp add: select_def)
next
  case False
  have ord: "row_order idx (length g)" and ne: "sel idx g \<noteq> []"
    using assms False row_orderD(1) [of idx "length g"] by (auto simp: select_def)
  have bound: "\<forall>i\<in>set g. i < Max (set g) + 1" by (auto simp: less_Suc_eq_le)
  have "index_add (Max (set g) + 1) (sel idx g) (map f (sel idx xs)) = index_add (Max (set g) + 1) g (map f xs)" for f
    using index_add_sel [OF ord, of "map f xs" "Max (set g) + 1"] assms bound by (simp add: sel_map)
  from this [of "\<lambda>s. s"] this [of "\<lambda>_. 1"] this [of "\<lambda>s. s * s"]
  show ?thesis
    using assms False ne by (simp add: group_mean_std_def set_sel [OF ord])
qed

lemma grpo_vectorized_sel:
  assumes "row_order idx (length R)" and "length R = length M" and "length R = length g"
  shows "compute_grpo_vectorized_outcome_advantage (sel idx R) (sel idx M) (sel idx g) eps b
    = res_map (both idx) (compute_grpo_vectorized_outcome_advantage R M g eps b)"
proof -
  have gms: "group_mean_std (sel idx (row_sums R)) (sel idx g) eps = group_mean_std (row_sums R) g eps"
    using assms by (intro group_mean_std_sel) simp_all
  show ?thesis
    using assms
    by (cases "group_mean_std (row_sums R) g eps")
      (auto simp: compute_grpo_vectorized_outcome_advantage_def Let_def row_sums_sel gms sel_map2 [symmetric]
         mask_rows_sel split: prod.splits)
qed

end
