(* ===== verification/TrainerLaws.thy ===== *)
theory TrainerLaws
  imports ReorderLaws StreamLaws
begin

text \<open>
  What the driver's steps on a batch guarantee: the order that balances the ranks gives every rank as many
  samples and almost the same work, advantages do not depend on that order, and the option that keeps the
  mini-batches apart loses the samples that do not fill one.
\<close>

section \<open>The steps in another order\<close>

abbreviation shuf :: "nat list \<Rightarrow> ('r, 'o) dataproto \<Rightarrow> ('r, 'o) dataproto" where
  "shuf idx dp \<equiv> with_rows (length idx) (sel idx) (sel idx) dp"

text \<open>A batch with tensors, and an order of its rows.\<close>

definition ordered_batch :: "nat list \<Rightarrow> ('r, 'o) dataproto \<Rightarrow> bool" where
  "ordered_batch idx dp \<longleftrightarrow> wf_dataproto dp \<and> batch dp \<noteq> None \<and> row_order idx (dp_len dp)"

lemma ordered_batchD:
  assumes "ordered_batch idx dp"
  shows "row_order idx (dp_len dp)" and "length idx = dp_len dp" and "wf_dataproto dp"
  using assms by (auto simp: ordered_batch_def row_orderD(1))

lemma reorder_shuf: "ordered_batch idx dp \<Longrightarrow> reorder idx dp = Inr (shuf idx dp)"
  by (rule reorder_rows) (auto simp: ordered_batch_def row_orderD(2))

lemma batch_column_length:
  assumes "wf_dataproto dp" and "batch_column dp k = Inr rows"
  shows "length rows = dp_len dp"
proof -
  obtain td where td: "batch dp = Some td" using assms(2) by (cases "batch dp") (auto simp: batch_column_def)
  with assms(2) have "map_of (tensors td) k = Some rows"
    by (auto simp: batch_column_def dict_get_def split: option.splits)
  then have "(k, rows) \<in> set (tensors td)" by (rule map_of_SomeD)
  moreover have "wf_columns (batch_size td) (tensors td)" using assms(1) td by (simp add: wf_dataproto_def)
  ultimately show ?thesis using td by (auto dest: wf_columnsD simp: dp_len_Some)
qed

lemma batch_column_shuf: "batch_column (shuf idx dp) k = res_map (sel idx) (batch_column dp k)"
  by (cases "batch dp")
    (auto simp: batch_column_def dp_simps dict_get_def map_of_dict_map split: option.splits)

lemma rmap_one_error:
  "(\<And>x e'. f x = Inl e' \<Longrightarrow> e' = e) \<Longrightarrow> rmap f xs = (if \<exists>x\<in>set xs. f x = Inl e then Inl e else Inr (map (\<lambda>x. projr (f x)) xs))"
proof (induction xs)
  case (Cons x xs)
  then show ?case by (cases "f x") auto
qed simp

lemma rmap_sel:
  assumes "\<And>x e'. f x = Inl e' \<Longrightarrow> e' = e" and "row_order idx (length xs)"
  shows "rmap f (sel idx xs) = res_map (sel idx) (rmap f xs)"
  using assms(2) by (simp add: rmap_one_error [of f e, OF assms(1)] set_sel sel_map)

lemma cell_reals_error: "cell_reals c = Inl e \<Longrightarrow> e = RuntimeError"
  by (cases c) auto

lemma cell_real_error: "cell_real c = Inl e \<Longrightarrow> e = RuntimeError"
  by (cases c) auto

lemma read_column_shuf:
  assumes ord: "ordered_batch idx dp" and err: "\<And>x e'. f x = Inl e' \<Longrightarrow> e' = RuntimeError"
  shows "rbind (batch_column (shuf idx dp) k) (rmap f) = res_map (sel idx) (rbind (batch_column dp k) (rmap f))"
proof (cases "batch_column dp k")
  case (Inr rows)
  then have "row_order idx (length rows)"
    using ord batch_column_length [of dp k rows] by (simp add: ordered_batch_def)
  from rmap_sel [of f, OF err this] Inr show ?thesis by (simp add: batch_column_shuf)
qed (simp add: batch_column_shuf)

lemma token_column_shuf:
  "ordered_batch idx dp \<Longrightarrow> token_column (shuf idx dp) k = res_map (sel idx) (token_column dp k)"
  unfolding token_column_def by (rule read_column_shuf) (auto dest: cell_reals_error)

lemma number_column_shuf:
  "ordered_batch idx dp \<Longrightarrow> number_column (shuf idx dp) k = res_map (sel idx) (number_column dp k)"
  unfolding number_column_def by (rule read_column_shuf) (auto dest: cell_real_error)

lemma token_column_length: "wf_dataproto dp \<Longrightarrow> token_column dp k = Inr A \<Longrightarrow> length A = dp_len dp"
  by (auto simp: token_column_def res_simps dest!: batch_column_length rmap_length)

lemma number_column_length: "wf_dataproto dp \<Longrightarrow> number_column dp k = Inr A \<Longrightarrow> length A = dp_len dp"
  by (auto simp: number_column_def res_simps dest!: batch_column_length rmap_length)

lemma has_tensor_shuf [simp]: "has_tensor (shuf idx dp) k = has_tensor dp k"
  by (cases "batch dp") (simp_all add: has_tensor_def dp_simps)

lemma dict_set_dict_map: "dict_set (dict_map f d) k (f v) = dict_map f (dict_set d k v)"
  by (induction d) (auto simp: dict_set_def)

lemma set_batch_tensor_shuf:
  assumes ord: "ordered_batch idx dp" and len: "length rows = dp_len dp"
  shows "set_batch_tensor (shuf idx dp) k (sel idx rows) = res_map (shuf idx) (set_batch_tensor dp k rows)"
proof -
  obtain td where td: "batch dp = Some td" using ord by (auto simp: ordered_batch_def)
  have "length rows = batch_size td" using len td by (simp add: dp_len_Some)
  then show ?thesis
    by (simp add: set_batch_tensor_def td with_rows_def rcheck_def dict_set_dict_map [of "sel idx"])
qed

lemma set_batch_tensor_ordered:
  assumes "ordered_batch idx dp" and "set_batch_tensor dp k rows = Inr dp'"
  shows "ordered_batch idx dp'" and "dp_len dp' = dp_len dp" and "non_tensor_batch dp' = non_tensor_batch dp"
proof -
  obtain td where td: "batch dp = Some td" using assms(1) by (auto simp: ordered_batch_def)
  with assms(2) have dp': "dp' = dp\<lparr>batch := Some (td\<lparr>tensors := dict_set (tensors td) k rows\<rparr>)\<rparr>"
    and len: "length rows = batch_size td"
    by (auto simp: set_batch_tensor_def res_simps)
  show same: "dp_len dp' = dp_len dp" "non_tensor_batch dp' = non_tensor_batch dp"
    using td dp' by (simp_all add: dp_len_def)
  have cols: "wf_columns (batch_size td) (tensors td)" using assms(1) td by (simp add: ordered_batch_def wf_dataproto_def)
  have "wf_columns (batch_size td) (dict_set (tensors td) k rows)"
    using cols len by (rule wf_columns_set)
  then have "wf_dataproto dp'"
    using assms(1) td same dp' by (simp add: ordered_batch_def wf_dataproto_def)
  then show "ordered_batch idx dp'" using assms(1) same dp' by (simp add: ordered_batch_def)
qed

section \<open>Advantages in another order\<close>

lemma store_advantages_shuf:
  assumes ord: "ordered_batch idx dp" and "length (fst r) = dp_len dp" and "length (snd r) = dp_len dp"
  shows "store_advantages (shuf idx dp) (both idx r) = res_map (shuf idx) (store_advantages dp r)"
proof -
  have order: "row_order idx (length (fst r))" "row_order idx (length (snd r))"
    using assms by (auto simp: ordered_batch_def)
  have first: "set_batch_tensor (shuf idx dp) k (map RealRow (sel idx (fst r))) = res_map (shuf idx) (set_batch_tensor dp k (map RealRow (fst r)))" for k
    using set_batch_tensor_shuf [OF ord, of "map RealRow (fst r)"] assms by (simp add: sel_map [OF order(1)])
  show ?thesis
  proof (cases "set_batch_tensor dp ''advantages'' (map RealRow (fst r))")
    case (Inr dp')
    note next' = set_batch_tensor_ordered [OF ord Inr]
    have "set_batch_tensor (shuf idx dp') k (map RealRow (sel idx (snd r))) = res_map (shuf idx) (set_batch_tensor dp' k (map RealRow (snd r)))" for k
      using set_batch_tensor_shuf [OF next'(1), of "map RealRow (snd r)"] assms next'(2) by (simp add: sel_map [OF order(2)])
    with first Inr show ?thesis by (simp add: store_advantages_def)
  qed (use first in \<open>simp add: store_advantages_def\<close>)
qed

text \<open>The estimators whose result follows the rows. The others look at positions: Pass@k at the first
  maximum, the optimal token baselines and GDPO at columns of their own.\<close>

definition order_free :: "string list" where
  "order_free = [''gae'', ''grpo'', ''reinforce_plus_plus'', ''reinforce_plus_plus_baseline'', ''remax'', ''rloo'',
     ''opo'', ''gpg'', ''rloo_vectorized'', ''grpo_vectorized'']"

lemma index_arg_sel:
  assumes "\<And>ix. index = Some ix \<Longrightarrow> f' (sel idx ix) = res_map g (f ix)"
  shows "index_arg (map_option (sel idx) index) f' = res_map g (index_arg index f)"
  using assms by (cases index) (simp_all add: index_arg_def)

lemma call_estimator_sel:
  assumes ord: "ordered_batch idx dp" and n: "length R = dp_len dp" "length M = dp_len dp"
    and ix: "\<And>ix. index = Some ix \<Longrightarrow> length ix = dp_len dp"
    and est: "est \<in> set order_free" "est \<noteq> ''gae''" "est \<noteq> ''grpo''"
  shows "call_estimator env est config (shuf idx dp) (sel idx R) (sel idx M) (map_option (sel idx) index)
    = res_map (both idx) (call_estimator env est config dp R M index)"
proof -
  have r: "row_order idx (length R)" "length R = length M" using ord n by (auto simp: ordered_batch_def)
  have ixR: "length R = length ix" if "index = Some ix" for ix using ix that n by simp
  have "est = ''gae'' \<or> est = ''grpo'' \<or> est = ''reinforce_plus_plus'' \<or> est = ''reinforce_plus_plus_baseline''
      \<or> est = ''remax'' \<or> est = ''rloo'' \<or> est = ''opo'' \<or> est = ''gpg'' \<or> est = ''rloo_vectorized''
      \<or> est = ''grpo_vectorized''"
    using est(1) by (simp only: order_free_def list.set insert_iff empty_iff simp_thms)
  then show ?thesis
  proof (elim disjE)
    assume "est = ''gae''"
    with est(2) show ?thesis by contradiction
  next
    assume "est = ''grpo''"
    with est(3) show ?thesis by contradiction
  next
    assume 1: "est = ''reinforce_plus_plus''"
    show ?thesis using rfpp_sel [OF r] by (simp add: 1 call_estimator_def)
  next
    assume 2: "est = ''reinforce_plus_plus_baseline''"
    show ?thesis using rfpp_baseline_sel [OF r ixR] by (simp add: 2 call_estimator_def index_arg_sel)
  next
    assume 3: "est = ''remax''"
    show ?thesis
    proof (cases "number_column dp ''reward_baselines''")
      case (Inr B)
      then have "length R = length B" using n number_column_length [OF ordered_batchD(3) [OF ord]] by simp
      with Inr remax_sel [OF r] show ?thesis by (simp add: 3 call_estimator_def number_column_shuf [OF ord])
    qed (simp add: 3 call_estimator_def number_column_shuf [OF ord])
  next
    assume 4: "est = ''rloo''"
    show ?thesis using rloo_sel [OF r ixR] by (simp add: 4 call_estimator_def index_arg_sel)
  next
    assume 5: "est = ''opo''"
    show ?thesis using opo_sel [OF r ixR] by (simp add: 5 call_estimator_def index_arg_sel)
  next
    assume 6: "est = ''gpg''"
    show ?thesis using gpg_sel [OF r ixR] by (simp add: 6 call_estimator_def index_arg_sel)
  next
    assume 7: "est = ''rloo_vectorized''"
    show ?thesis using rloo_vectorized_sel [OF r ixR] by (simp add: 7 call_estimator_def index_arg_sel)
  next
    assume 8: "est = ''grpo_vectorized''"
    have "rbind (group_indices (as_torch_index f (sel idx ix)))
           (\<lambda>gidx. compute_grpo_vectorized_outcome_advantage (sel idx R) (sel idx M) gidx eps True)
         = res_map (both idx) (rbind (group_indices (as_torch_index f ix))
           (\<lambda>gidx. compute_grpo_vectorized_outcome_advantage R M gidx eps True))" if "index = Some ix" for ix f eps
    proof -
      have o: "row_order idx (length ix)" using r ixR [OF that] by simp
      show ?thesis
      proof (cases "group_indices (as_torch_index f ix)")
        case (Inr g)
        then have "length g = length ix" using group_indices_length by fastforce
        then show ?thesis
          using Inr grpo_vectorized_sel [OF r] ixR [OF that] o
          by (simp add: as_torch_index_sel group_indices_sel)
      qed (use o in \<open>simp add: as_torch_index_sel group_indices_sel\<close>)
    qed
    then show ?thesis by (simp add: 8 call_estimator_def index_arg_sel)
  qed
qed

lemma call_estimator_length:
  assumes ord: "ordered_batch idx dp" and n: "length R = dp_len dp" "length M = dp_len dp"
    and ix: "\<And>ix. index = Some ix \<Longrightarrow> length ix = dp_len dp"
    and est: "est \<in> set order_free" "est \<noteq> ''gae''" "est \<noteq> ''grpo''"
    and res: "call_estimator env est config dp R M index = Inr r"
  shows "length (fst r) = dp_len dp \<and> length (snd r) = dp_len dp"
proof -
  have white: "length (fst r) = dp_len dp" if "masked_whiten A M b = Inr W" "length A = dp_len dp" "fst r = tmap2 (*) W M" for A W b
    using that n masked_whiten_length by simp
  have "est = ''gae'' \<or> est = ''grpo'' \<or> est = ''reinforce_plus_plus'' \<or> est = ''reinforce_plus_plus_baseline''
      \<or> est = ''remax'' \<or> est = ''rloo'' \<or> est = ''opo'' \<or> est = ''gpg'' \<or> est = ''rloo_vectorized''
      \<or> est = ''grpo_vectorized''"
    using est(1) by (simp only: order_free_def list.set insert_iff empty_iff simp_thms)
  then show ?thesis
  proof (elim disjE)
    assume "est = ''gae''"
    with est(2) show ?thesis by contradiction
  next
    assume "est = ''grpo''"
    with est(3) show ?thesis by contradiction
  next
    assume 1: "est = ''reinforce_plus_plus''"
    show ?thesis
      using res n by (auto simp: 1 call_estimator_def compute_reinforce_plus_plus_outcome_advantage_def Let_def res_simps
        split: option.splits dest!: masked_whiten_length)
  next
    assume 2: "est = ''reinforce_plus_plus_baseline''"
    show ?thesis
      using res n ix by (auto simp: 2 call_estimator_def index_arg_def compute_reinforce_plus_plus_baseline_outcome_advantage_def Let_def
        res_simps split: option.splits dest!: masked_whiten_length)
  next
    assume 3: "est = ''remax''"
    show ?thesis
      using res n number_column_length [OF ordered_batchD(3) [OF ord]]
      by (auto simp: 3 call_estimator_def compute_remax_outcome_advantage_def rewards_to_go_def Let_def res_simps split: if_splits)
  next
    assume 4: "est = ''rloo''"
    show ?thesis
      using res n ix by (auto simp: 4 call_estimator_def index_arg_def compute_rloo_outcome_advantage_def rloo_scalars_def Let_def split: option.splits)
  next
    assume 5: "est = ''opo''"
    show ?thesis
      using res n ix by (auto simp: 5 call_estimator_def index_arg_def compute_opo_outcome_advantage_def opo_scalars_def Let_def split: option.splits)
  next
    assume 6: "est = ''gpg''"
    show ?thesis
      using res n ix by (auto simp: 6 call_estimator_def index_arg_def compute_gpg_outcome_advantage_def Let_def split: option.splits)
  next
    assume 7: "est = ''rloo_vectorized''"
    show ?thesis
      using res n ix by (auto simp: 7 call_estimator_def index_arg_def compute_rloo_vectorized_outcome_advantage_def
        rloo_vectorized_scalars_def Let_def split: option.splits)
  next
    assume 8: "est = ''grpo_vectorized''"
    show ?thesis
      using res n ix by (auto simp: 8 call_estimator_def index_arg_def compute_grpo_vectorized_outcome_advantage_def
        Let_def res_simps split: option.splits if_splits dest!: group_indices_length)
  qed
qed

lemma order_free_registered: "set order_free \<subseteq> set adv_estimator_registry"
  by (simp add: order_free_def adv_estimator_registry_def)

lemma pf_ppo_step_off:
  "(\<And>c. config = Some c \<Longrightarrow> \<not> ac_use_pf_ppo c) \<Longrightarrow>
   pf_ppo_step env config dp = (if config = None then Inl AttributeError else Inr dp)"
  by (cases config) (simp_all add: pf_ppo_step_def)

text \<open>The two ways through \<open>compute_advantage\<close>, on a batch that has its mask.\<close>

lemma gae_shuf:
  assumes ord: "ordered_batch idx dp" and pf: "\<And>c. config = Some c \<Longrightarrow> \<not> ac_use_pf_ppo c"
    and mask: "has_tensor dp ''response_mask''"
  shows "compute_advantage env ''gae'' gamma lam b config (shuf idx dp)
    = res_map (shuf idx) (compute_advantage env ''gae'' gamma lam b config dp)"
proof -
  have some: "batch dp \<noteq> None" "batch (shuf idx dp) \<noteq> None" using ord by (auto simp: ordered_batch_def dp_simps)
  have known: "''gae'' \<in> set adv_estimator_registry" by (simp add: adv_estimator_registry_def)
  note len = token_column_length [OF ordered_batchD(3) [OF ord]]
  define tail where "tail d R = rbind (token_column d ''values'') (\<lambda>vals. rbind (token_column d ''response_mask'') (\<lambda>msk.
     rbind (compute_gae_advantage_return R vals msk gamma lam) (\<lambda>result.
     rbind (store_advantages d result) (pf_ppo_step env config))))" for d R
  have unfold: "compute_advantage env ''gae'' gamma lam b config d
      = rbind (token_column d ''token_level_rewards'') (tail d)" if "batch d \<noteq> None" "has_tensor d ''response_mask''" for d
    using that known by (cases "batch d") (simp_all add: compute_advantage_def with_response_mask_def tail_def [abs_def] rcheck_def)
  have "tail (shuf idx dp) (sel idx R) = res_map (shuf idx) (tail dp R)" if R: "length R = dp_len dp" for R
  proof (cases "token_column dp ''values''")
    case V: (Inr V)
    show ?thesis
    proof (cases "token_column dp ''response_mask''")
      case M: (Inr M)
      have r: "row_order idx (length R)" "length R = length M" "length R = length V"
        using ord R len [OF V] len [OF M] by (auto simp: ordered_batch_def)
      show ?thesis
      proof (cases "compute_gae_advantage_return R V M gamma lam")
        case res: (Inr r')
        then have "length (fst r') = dp_len dp" "length (snd r') = dp_len dp"
          using r R by (auto simp: compute_gae_advantage_return_def gae_advantages_def Let_def res_simps dest!: masked_whiten_length)
        then show ?thesis
          using gae_sel [OF r] store_advantages_shuf [OF ord, of r']
          by (cases "store_advantages dp r'")
            (simp_all add: tail_def token_column_shuf [OF ord] V M res pf_ppo_step_off [OF pf])
      qed (use gae_sel [OF r] in \<open>simp add: tail_def token_column_shuf [OF ord] V M\<close>)
    qed (simp add: tail_def token_column_shuf [OF ord] V)
  qed (simp add: tail_def token_column_shuf [OF ord])
  then show ?thesis
    using len by (cases "token_column dp ''token_level_rewards''")
      (simp_all add: unfold some mask token_column_shuf [OF ord])
qed

lemma map_of_uid_shuf: "map_of (non_tensor_batch (shuf idx dp)) k = map_option (sel idx) (map_of (non_tensor_batch dp) k)"
  by (simp add: dp_simps map_of_dict_map)

lemma uid_length:
  assumes "ordered_batch idx dp" and "map_of (non_tensor_batch dp) k = Some ix"
  shows "length ix = dp_len dp"
  using assms by (auto simp: ordered_batch_def wf_dataproto_def dest!: map_of_SomeD dest: wf_columnsD)

lemma estimator_shuf:
  assumes ord: "ordered_batch idx dp" and est: "est \<in> set order_free" "est \<noteq> ''gae''"
    and mask: "has_tensor dp ''response_mask''"
  shows "compute_advantage env est gamma lam b config (shuf idx dp)
    = res_map (shuf idx) (compute_advantage env est gamma lam b config dp)"
proof -
  have some: "batch dp \<noteq> None" "batch (shuf idx dp) \<noteq> None" using ord by (auto simp: ordered_batch_def dp_simps)
  have known: "est \<in> set adv_estimator_registry" using est order_free_registered by blast
  note len = token_column_length [OF ordered_batchD(3) [OF ord]]
  define call where "call d R M = (if est = ''grpo''
     then rbind (dict_get (non_tensor_batch d) ''uid'') (\<lambda>uid. Inr (compute_grpo_outcome_advantage R M uid grpo_epsilon b))
     else call_estimator env est config d R M (map_of (non_tensor_batch d) ''uid''))" for d R M
  have unfold: "compute_advantage env est gamma lam b config d
      = rbind (token_column d ''token_level_rewards'') (\<lambda>R. rbind (token_column d ''response_mask'') (\<lambda>M.
        rbind (call d R M) (store_advantages d)))" if "batch d \<noteq> None" "has_tensor d ''response_mask''" for d
    using that known est(2)
    by (cases "batch d"; cases "est = ''grpo''"; cases "dict_get (non_tensor_batch d) ''uid''")
      (simp_all add: compute_advantage_def with_response_mask_def call_def rcheck_def)
  have call: "call (shuf idx dp) (sel idx R) (sel idx M) = res_map (both idx) (call dp R M)
      \<and> (\<forall>r. call dp R M = Inr r \<longrightarrow> length (fst r) = dp_len dp \<and> length (snd r) = dp_len dp)"
    if R: "length R = dp_len dp" "length M = dp_len dp" for R M
  proof (cases "est = ''grpo''")
    case True
    have r: "row_order idx (length R)" "length R = length M" using ord R by (auto simp: ordered_batch_def)
    show ?thesis
    proof (cases "map_of (non_tensor_batch dp) ''uid''")
      case (Some ix)
      then have "length R = length ix" using R uid_length [OF ord] by simp
      moreover have "length (fst r) = length R \<and> length (snd r) = length R"
        if "r = compute_grpo_outcome_advantage R M ix grpo_epsilon b" for r
        using that r calculation by (simp add: compute_grpo_outcome_advantage_def grpo_scalars_def Let_def)
      ultimately show ?thesis
        using grpo_sel [OF r, of ix] Some True R by (simp add: call_def map_of_uid_shuf dict_get_def)
    qed (simp add: call_def True map_of_uid_shuf dict_get_def)
  next
    case False
    show ?thesis
      using call_estimator_sel [OF ord R uid_length [OF ord] est False]
        call_estimator_length [OF ord R uid_length [OF ord] est False]
      by (simp add: call_def False map_of_uid_shuf)
  qed
  show ?thesis
  proof (cases "token_column dp ''token_level_rewards''")
    case R: (Inr R)
    show ?thesis
    proof (cases "token_column dp ''response_mask''")
      case M: (Inr M)
      show ?thesis
        using call [OF len [OF R] len [OF M]] store_advantages_shuf [OF ord]
        by (cases "call dp R M") (simp_all add: unfold some mask token_column_shuf [OF ord] R M)
    qed (simp add: unfold some mask token_column_shuf [OF ord] R)
  qed (simp add: unfold some mask token_column_shuf [OF ord])
qed

lemma store_advantages_ordered:
  assumes "ordered_batch idx dp" and "store_advantages dp r = Inr dp'"
  shows "ordered_batch idx dp'"
  using assms(2) set_batch_tensor_ordered(1) [OF set_batch_tensor_ordered(1) [OF assms(1)]]
  by (auto simp: store_advantages_def res_simps)

lemma compute_advantage_stores:
  assumes "compute_advantage env est gamma lam b config dp = Inr dp'" and "has_tensor dp ''response_mask''"
    and "\<And>c. config = Some c \<Longrightarrow> \<not> ac_use_pf_ppo c"
  shows "\<exists>r. store_advantages dp r = Inr dp'"
proof -
  have off: "pf_ppo_step env config d = Inr d' \<Longrightarrow> d' = d" for d d'
    using pf_ppo_step_off [OF assms(3), of config env d] by (simp split: if_splits)
  show ?thesis
    using assms(1,2)
    by (auto simp: compute_advantage_def with_response_mask_def res_simps split: if_splits dest!: off simp del: split_paired_Ex)
qed

text \<open>C9: The driver reorders the batch to balance the ranks before it computes advantages, and a comment
  says that this does not affect them. For the ten estimators that look at a row and at the scores of its
  group, computing the advantages of the reordered batch gives the reordered result (or the same
  exception), for every order, configuration (without PF-PPO's random resampling) and content of the batch.\<close>

theorem balancing_keeps_advantages:
  assumes "ordered_batch idx dp" and "est \<in> set order_free" and "has_tensor dp ''response_mask''"
    and "\<And>c. config = Some c \<Longrightarrow> \<not> ac_use_pf_ppo c"
  shows "rbind (reorder idx dp) (compute_advantage env est gamma lam b config)
    = rbind (compute_advantage env est gamma lam b config dp) (reorder idx)"
proof -
  have "compute_advantage env est gamma lam b config (shuf idx dp)
      = res_map (shuf idx) (compute_advantage env est gamma lam b config dp)"
    using gae_shuf [OF assms(1,4,3)] estimator_shuf [OF assms(1,2) _ assms(3)] by (cases "est = ''gae''") simp_all
  then show ?thesis
    using reorder_shuf [OF assms(1)] reorder_shuf [OF store_advantages_ordered [OF assms(1)]]
      compute_advantage_stores [OF _ assms(3,4)]
    by (cases "compute_advantage env est gamma lam b config dp") fastforce+
qed

section \<open>Balancing the ranks\<close>

lemma mset_small_at_both_ends [simp]: "mset (small_at_both_ends w xs) = mset xs"
proof -
  let ?s = "py_sorted (\<lambda>x y. py_pair_lt (<) (<) (w ! x, x) (w ! y, y)) xs"
  have "mset (small_at_both_ends w xs) = mset (every 2 ?s) + mset (every 2 (drop 1 ?s))"
    by (simp add: small_at_both_ends_def Let_def)
  also have "\<dots> = mset xs" using mset_every2 [of ?s] by (simp only: mset_py_sorted)
  finally show ?thesis .
qed

lemma length_small_at_both_ends [simp]: "length (small_at_both_ends w xs) = length xs"
  by (metis mset_small_at_both_ends size_mset)

lemma mset_concat_small: "mset (concat (map (small_at_both_ends w) parts)) = mset (concat parts)"
  by (induction parts) simp_all

lemma concat_block:
  "(\<And>xs. xs \<in> set xss \<Longrightarrow> length xs = m) \<Longrightarrow> i < length xss \<Longrightarrow> pyslice (i * m) ((i + 1) * m) (concat xss) = xss ! i"
proof (induction xss arbitrary: i)
  case (Cons xs xss)
  show ?case
  proof (cases i)
    case 0
    then show ?thesis using Cons.prems by (simp add: pyslice_def)
  next
    case (Suc j)
    have "pyslice (i * m) ((i + 1) * m) (concat (xs # xss)) = pyslice (j * m) ((j + 1) * m) (concat xss)"
      using Cons.prems by (simp add: pyslice_def Suc)
    then show ?thesis using Cons Suc by simp
  qed
qed simp

text \<open>The work of a rank: the dispatch gives it the \<open>i\<close>-th of equal consecutive blocks.\<close>

definition rank_work :: "nat \<Rightarrow> cell list \<Rightarrow> nat \<Rightarrow> int" where
  "rank_work ranks rows i =
     (let m = length rows div ranks in
      \<Sum>r\<leftarrow>pyslice (i * m) ((i + 1) * m) rows. calculate_workload (cell_total r))"

lemma log_seqlen_unbalance_ok:
  "partitions \<noteq> [] \<Longrightarrow> length partitions \<le> length seqlens \<Longrightarrow> \<exists>stats. log_seqlen_unbalance seqlens partitions = Inr stats"
  by (simp add: log_seqlen_unbalance_def Let_def rcheck_def div_greater_zero_iff)

lemma rank_work_blocks:
  fixes rows :: "cell list"
  defines "w \<equiv> map calculate_workload (map cell_total rows)"
  assumes idx: "row_order (concat order) (length rows)" and order: "order = map (small_at_both_ends w) parts"
    and size: "\<forall>p\<in>set parts. length p = length rows div length parts" and i: "i < length parts"
  shows "rank_work (length parts) (sel (concat order) rows) i = psum w (parts ! i)"
proof -
  let ?m = "length rows div length parts"
  have "length (concat order) = length rows" using row_orderD(1) [OF idx] .
  then have "rank_work (length parts) (sel (concat order) rows) i
      = (\<Sum>r\<leftarrow>sel (pyslice (i * ?m) ((i + 1) * ?m) (concat order)) rows. calculate_workload (cell_total r))"
    by (simp add: rank_work_def Let_def select_def pyslice_def take_map drop_map)
  also have "pyslice (i * ?m) ((i + 1) * ?m) (concat order) = order ! i"
    using size i by (intro concat_block) (auto simp: order)
  also have "(\<Sum>r\<leftarrow>sel (order ! i) rows. calculate_workload (cell_total r)) = sum_list (sel (order ! i) w)"
  proof -
    have "order ! i \<in> set order" using i by (simp add: order)
    then have "set (order ! i) \<subseteq> set (concat order)" by auto
    then have "\<forall>x\<in>set (order ! i). x < length rows" using row_orderD(2) [OF idx] by auto
    then have "sel (order ! i) w = map (\<lambda>r. calculate_workload (cell_total r)) (sel (order ! i) rows)"
      by (auto simp: select_def w_def)
    then show ?thesis by simp
  qed
  also have "\<dots> = psum w (parts ! i)"
  proof -
    have "mset (order ! i) = mset (parts ! i)" using i by (simp add: order)
    then have "mset (sel (order ! i) w) = mset (sel (parts ! i) w)" by (simp add: select_def)
    then show ?thesis unfolding psum_def by (metis sum_mset_sum_list)
  qed
  finally show ?thesis .
qed

text \<open>C19: Balancing without prefix grouping and without keeping mini-batches apart succeeds when the batch divides among
  the ranks. The result is the batch in another order, every rank's block has the same number of samples, and the work (by
  the workload formula on the lengths) of two ranks differs by no more than the work of two samples can differ. With
  prefix grouping this is not enough: if the number of distinct prompts does not divide among the ranks, balancing fails
  with a ValueError although the number of samples does.\<close>

theorem balanced_ranks:
  assumes wf: "wf_dataproto dp" and rows: "batch_column dp ''attention_mask'' = Inr rows"
    and ranks: "0 < ranks" "ranks dvd dp_len dp" "0 < dp_len dp"
    and bounds: "\<forall>r\<in>set rows. lo \<le> calculate_workload (cell_total r) \<and> calculate_workload (cell_total r) \<le> hi"
  shows "\<exists>idx dp' stats rows'. balance_batch ranks False False mini dp = Inr (dp', stats)
    \<and> ordered_batch idx dp \<and> reorder idx dp = Inr dp'
    \<and> batch_column dp' ''attention_mask'' = Inr rows' \<and> length rows' = ranks * (length rows' div ranks)
    \<and> (\<forall>i<ranks. \<forall>j<ranks. rank_work ranks rows' i - rank_work ranks rows' j \<le> hi - lo)
    \<and> (\<forall>uids. map_of (non_tensor_batch dp) ''uid'' = Some uids \<and> length (remdups uids) mod ranks \<noteq> 0
        \<longrightarrow> balance_batch ranks True keep mini dp = Inl ValueError)"
proof -
  define n where "n = dp_len dp"
  define lens where "lens = map cell_total rows"
  define w where "w = map calculate_workload lens"
  have len: "length rows = n" "length w = n" "length lens = n"
    using batch_column_length [OF wf rows] by (simp_all add: n_def w_def lens_def)
  have ne: "w \<noteq> []" "ranks \<le> n" using len ranks by (auto simp: n_def dvd_imp_le)
  have wb: "\<forall>v\<in>set w. lo \<le> v \<and> v \<le> hi" using bounds by (auto simp: w_def lens_def)
  have dvd: "ranks dvd length w" using ranks len by (simp add: n_def)
  obtain parts where parts: "get_seqlen_balanced_partitions w ranks True = Inr parts" "length parts = ranks"
      "mset (concat parts) = mset [0..<n]" "\<forall>p\<in>set parts. length p = n div ranks"
      "\<forall>p\<in>set parts. \<forall>q\<in>set parts. psum w p - psum w q \<le> hi - lo"
    using equal_size_partition_exists [OF ranks(1) ne(1) dvd wb] len by auto
  define order where "order = map (small_at_both_ends w) parts"
  define idx where "idx = concat order"
  have idx: "row_order idx n" unfolding row_order_def idx_def order_def using parts(3) by (simp only: mset_concat_small)
  have batch: "batch dp \<noteq> None" using rows by (cases "batch dp") (simp_all add: batch_column_def)
  have ord: "ordered_batch idx dp" using wf batch idx by (simp add: ordered_batch_def n_def)
  have "idx \<noteq> []" using row_orderD(1) [OF idx] ranks by (auto simp: n_def)
  moreover obtain stats where "log_seqlen_unbalance lens order = Inr stats"
    using log_seqlen_unbalance_ok [of order lens] parts(2) ranks ne(2) len by (auto simp: order_def)
  ultimately have run: "balance_batch ranks False False mini dp = Inr (shuf idx dp, stats)"
    using reorder_shuf [OF ord] parts(1) rows
    by (simp add: balance_batch_def global_partitions_def w_def lens_def order_def idx_def rcheck_def Let_def comp_def)
  have work: "rank_work ranks (sel idx rows) i = psum w (parts ! i)" if "i < ranks" for i
    using rank_work_blocks [of order rows parts i] idx parts(2,4) len that by (simp add: order_def idx_def w_def lens_def)
  have "batch_column (shuf idx dp) ''attention_mask'' = Inr (sel idx rows)" by (simp add: batch_column_shuf rows)
  moreover have "rank_work ranks (sel idx rows) i - rank_work ranks (sel idx rows) j \<le> hi - lo"
    if "i < ranks" "j < ranks" for i j
    using parts(2,5) that by (simp add: work)
  moreover have "length (sel idx rows) = ranks * (length (sel idx rows) div ranks)"
    using row_orderD(1) [OF idx] ranks(2) by (simp add: n_def)
  moreover have "balance_batch ranks True keep mini dp = Inl ValueError"
    if "map_of (non_tensor_batch dp) ''uid'' = Some uids" "length (remdups uids) mod ranks \<noteq> 0" for uids
    using rows that ranks(1) by (simp add: balance_batch_def global_partitions_def rcheck_def Let_def)
  ultimately show ?thesis using run ord reorder_shuf [OF ord] by blast
qed

text \<open>Balancing every mini-batch on its own: the blocks of the mini-batches that are full.\<close>

lemma minibatch_partitions_cover:
  assumes ranks: "0 < ranks" "ranks dvd mb" "0 < mb" and q: "q * mb \<le> length w"
    and acc: "length acc = ranks" "mset (concat acc) = mset [0..<j * mb]" "j \<le> q"
  shows "\<exists>parts. minibatch_partitions w mb ranks [j..<q] acc = Inr parts
    \<and> length parts = ranks \<and> mset (concat parts) = mset [0..<q * mb]"
  using acc
proof (induction "q - j" arbitrary: j acc)
  case 0
  then show ?case by simp
next
  case (Suc d)
  then have j: "j < q" by simp
  let ?s = "pyslice (j * mb) ((j + 1) * mb) w"
  have "(j + 1) * mb \<le> q * mb" using j by (intro mult_le_mono1) simp
  then have len: "length ?s = mb" using q by (simp add: pyslice_def)
  then have "?s \<noteq> []" "ranks dvd length ?s" "\<forall>v\<in>set ?s. Min (set ?s) \<le> v \<and> v \<le> Max (set ?s)"
    using ranks by auto
  from equal_size_partition_exists [OF ranks(1) this] obtain parts where
    parts: "get_seqlen_balanced_partitions ?s ranks True = Inr parts" "length parts = ranks"
      "mset (concat parts) = mset [0..<mb]" using len by auto
  define acc' where "acc' = map2 (\<lambda>a part. a @ map (\<lambda>x. x + mb * j) part) acc parts"
  have "mset (concat acc') = mset (concat acc) + mset (concat (map (map (\<lambda>x. x + mb * j)) parts))"
    using mset_concat_map_add [of acc "map (map (\<lambda>x. x + mb * j)) parts"] Suc.prems(1) parts(2)
    by (simp add: acc'_def zip_map2 case_prod_unfold comp_def)
  also have "mset (concat (map (map (\<lambda>x. x + mb * j)) parts)) = image_mset (\<lambda>x. x + mb * j) (mset (concat parts))"
    by (simp add: map_concat [symmetric])
  also have "\<dots> = mset (map (\<lambda>x. x + mb * j) [0..<mb])" unfolding parts(3) by simp
  also have "map (\<lambda>x. x + mb * j) [0..<mb] = [j * mb..<(j + 1) * mb]"
    using map_add_upt [of "mb * j" mb] by (simp add: mult.commute)
  also have "mset (concat acc) + mset [j * mb..<(j + 1) * mb] = mset [0..<(j + 1) * mb]"
  proof -
    have "[0..<(j + 1) * mb] = [0..<j * mb] @ [j * mb..<(j + 1) * mb]"
      using upt_add_eq_append [of 0 "j * mb" mb] by (simp add: add.commute)
    then show ?thesis unfolding Suc.prems(2) by (simp only: mset_append)
  qed
  finally have "mset (concat acc') = mset [0..<(j + 1) * mb]" .
  moreover have "length acc' = ranks" using Suc.prems(1) parts(2) by (simp add: acc'_def)
  ultimately have "\<exists>parts. minibatch_partitions w mb ranks [j + 1..<q] acc' = Inr parts
    \<and> length parts = ranks \<and> mset (concat parts) = mset [0..<q * mb]"
    using Suc.hyps(2) j by (intro Suc.hyps(1)) simp_all
  moreover have "[j..<q] = j # [j + 1..<q]" using j by (simp add: upt_conv_Cons)
  then have "minibatch_partitions w mb ranks [j..<q] acc = minibatch_partitions w mb ranks [j + 1..<q] acc'"
    by (simp only: minibatch_partitions.simps parts(1) rbind.simps acc'_def)
  ultimately show ?case by simp
qed

text \<open>With \<open>keep_minibatch\<close> the order is made of full mini-batches only: the samples after the last full
  mini-batch are not in the reordered batch any more, although the step is meant to reorder.\<close>

theorem keep_minibatch_drops_remainder:
  assumes wf: "wf_dataproto dp" and rows: "batch_column dp ''attention_mask'' = Inr rows"
    and ranks: "0 < ranks" "ranks dvd mb" "0 < mb" "mb \<le> dp_len dp"
  shows "\<exists>idx dp' stats. balance_batch ranks False True (Some mb) dp = Inr (dp', stats)
    \<and> reorder idx dp = Inr dp' \<and> mset idx = mset [0..<dp_len dp div mb * mb]
    \<and> dp_len dp' = dp_len dp div mb * mb"
proof -
  define n where "n = dp_len dp"
  define lens where "lens = map cell_total rows"
  define w where "w = map calculate_workload lens"
  have len: "length w = n" "length lens = n"
    using batch_column_length [OF wf rows] by (simp_all add: n_def w_def lens_def)
  have "n div mb * mb \<le> length w" using len by simp
  from minibatch_partitions_cover [OF ranks(1-3) this, of "replicate ranks []" 0] obtain parts where
    parts: "minibatch_partitions w mb ranks [0..<n div mb] (replicate ranks []) = Inr parts" "length parts = ranks"
      "mset (concat parts) = mset [0..<n div mb * mb]" by auto
  define order where "order = map (small_at_both_ends w) parts"
  define idx where "idx = concat order"
  have idx: "mset idx = mset [0..<n div mb * mb]" unfolding idx_def order_def using parts(3) by (simp only: mset_concat_small)
  have "set idx = {0..<n div mb * mb}" using mset_eq_setD [OF idx] by simp
  then have inside: "\<forall>i\<in>set idx. i < dp_len dp"
    by (metis atLeastLessThan_iff div_times_less_eq_dividend n_def order_less_le_trans)
  have batch: "batch dp \<noteq> None" using rows by (cases "batch dp") (simp_all add: batch_column_def)
  note perm = reorder_rows [OF wf batch inside]
  have count: "length idx = n div mb * mb" using mset_eq_length [OF idx] by simp
  then have "idx \<noteq> []" using ranks by (auto simp: n_def div_eq_0_iff)
  moreover have "ranks \<le> n" using ranks dvd_imp_le [OF ranks(2,3)] by (simp add: n_def)
  then obtain stats where "log_seqlen_unbalance lens order = Inr stats"
    using log_seqlen_unbalance_ok [of order lens] parts(2) ranks(1) len by (auto simp: order_def)
  ultimately have run: "balance_batch ranks False True (Some mb) dp = Inr (shuf idx dp, stats)"
    using perm parts(1) rows ranks(3) len
    by (simp add: balance_batch_def global_partitions_def w_def lens_def order_def idx_def rcheck_def Let_def comp_def)
  have "dp_len (shuf idx dp) = length idx" using batch by (auto simp: dp_len_def dp_simps)
  then show ?thesis
    using run perm idx count unfolding n_def by (intro exI [of _ idx] exI [of _ "shuf idx dp"] exI [of _ stats]) simp
qed

section \<open>The vectorised GRPO\<close>

lemma id2list_relabel:
  assumes "inj_on f (insert g (set index))"
  shows "id2list (map f index) xs (f g) = id2list index xs g"
proof -
  have "filter (\<lambda>p. fst p = f g) (zip (map f index) xs) = map (\<lambda>(i, x). (f i, x)) (filter (\<lambda>p. fst p = g) (zip index xs))"
    using assms
  proof (induction index arbitrary: xs)
    case (Cons i index)
    then have "inj_on f (insert g (set index))" by (auto intro: inj_on_subset)
    moreover have "f i = f g \<longleftrightarrow> i = g" using Cons.prems by (auto simp: inj_on_def)
    ultimately show ?case using Cons.IH by (cases xs) auto
  qed simp
  then show ?thesis unfolding id2list_filter by (simp add: comp_def split_beta)
qed

lemma map2_relabel:
  "(\<And>i x. i \<in> set index \<Longrightarrow> F (f i) x = G i x) \<Longrightarrow> map2 F (map f index) xs = map2 G index xs"
proof (induction index arbitrary: xs)
  case (Cons i index)
  then show ?case by (cases xs) auto
qed simp

lemma grpo_relabel:
  assumes "inj_on f (set index)"
  shows "compute_grpo_outcome_advantage R M (map f index) eps b = compute_grpo_outcome_advantage R M index eps b"
proof -
  have "id2list (map f index) xs (f i) = id2list index xs i" if "i \<in> set index" for i and xs :: "real list"
    using assms that by (intro id2list_relabel) (simp add: insert_absorb)
  then have "grpo_scalars (map f index) xs eps b = grpo_scalars index xs eps b" for xs
    unfolding grpo_scalars_def Let_def by (intro map2_relabel) simp
  then show ?thesis by (simp add: compute_grpo_outcome_advantage_def)
qed

lemma inj_position_in: "inj_on (position_in xs) (set xs)"
proof -
  have "xs ! position_in xs x = x" if "x \<in> set xs" for x
    using that by (induction xs) (auto simp: position_in_def)
  then show ?thesis by (rule inj_on_inverseI)
qed

text \<open>Ids of prompts that are not all numerals, as \<open>uuid4\<close> gives them: their group numbers tell them apart.\<close>

lemma text_group_indices:
  assumes "\<exists>u\<in>set us. py_int u = None"
  shows "\<exists>f. inj_on f (set us) \<and> group_indices (as_torch_index to_str (map MStr us)) = Inr (map f us)"
proof -
  let ?keys = "py_sorted str_lt (remdups us)"
  have idx: "as_torch_index to_str (map MStr us) = map (\<lambda>u. int (position_in ?keys u)) us"
    using assms by (auto simp: as_torch_index_def unique_inverse_def Let_def comp_def)
  have "group_indices (map (\<lambda>u. int (position_in ?keys u)) us) = Inr (map (position_in ?keys) us)"
  proof -
    have "- 1 \<le> Max (set (map (\<lambda>u. int (position_in ?keys u)) us))" if "us \<noteq> []"
      using that by (subst Max_ge_iff) (auto simp: neq_Nil_conv)
    then show ?thesis by (auto simp: group_indices_def rcheck_def comp_def)
  qed
  moreover have "inj_on (position_in ?keys) (set us)" using inj_position_in [of ?keys] by simp
  ultimately show ?thesis using idx by auto
qed

text \<open>C39: The vectorised GRPO, which goes through group numbers made of the prompts' ids, stores the same
  advantages as GRPO with normalisation, for ids that are not all numerals and groups whose variance is
  not below the floor. It does so whatever the configured normalisation flag is: the driver does not pass it on.\<close>

theorem vectorized_grpo_agrees:
  fixes dp :: "(cell, 'img mobj) dataproto"
  assumes wf: "wf_dataproto dp" and R: "token_column dp ''token_level_rewards'' = Inr R"
    and uid: "map_of (non_tensor_batch dp) ''uid'' = Some (map MStr us)"
    and words: "\<exists>u\<in>set us. py_int u = None"
    and no_baselines: "\<not> has_tensor dp ''reward_baselines''" and mask: "has_tensor dp ''response_mask''"
    and spread: "\<forall>u\<in>set us. 2 \<le> length (id2list us (row_sums R) u) \<longrightarrow> 1 / 10 ^ 6 \<le> (tstd (id2list us (row_sums R) u))\<^sup>2"
  shows "compute_advantage env ''grpo_vectorized'' gamma lam b config dp
    = compute_advantage env ''grpo'' gamma lam True config dp"
proof -
  obtain f where f: "inj_on f (set us)" "group_indices (as_torch_index (env_str env) (map MStr us)) = Inr (map f us)"
    using text_group_indices [OF words] by blast
  have n: "length us = length R"
  proof -
    have "wf_columns (dp_len dp) (non_tensor_batch dp)" using wf by (simp add: wf_dataproto_def)
    with map_of_SomeD [OF uid] have "length us = dp_len dp" by (fastforce simp: wf_columns_def)
    with token_column_length [OF wf R] show ?thesis by simp
  qed
  have "\<forall>g\<in>set (map f us). 2 \<le> length (id2list (map f us) (row_sums R) g)
      \<longrightarrow> grpo_epsilon \<le> (tstd (id2list (map f us) (row_sums R) g))\<^sup>2"
    using spread f(1) by (auto simp: id2list_relabel insert_absorb grpo_epsilon_def)
  then have "compute_grpo_vectorized_outcome_advantage R M (map f us) grpo_epsilon True
      = Inr (compute_grpo_outcome_advantage R M us grpo_epsilon True)" for M
    using grpo_vectorized_agrees [of "map f us" R grpo_epsilon True M] n grpo_relabel [OF f(1)] by (simp add: grpo_epsilon_def)
  moreover have "compute_grpo_outcome_advantage R M (map MStr us :: 'img mobj list) grpo_epsilon True
      = compute_grpo_outcome_advantage R M us grpo_epsilon True" for M
    by (rule grpo_relabel) (simp add: inj_on_def)
  moreover have "''grpo_vectorized'' \<in> set adv_estimator_registry" "''grpo'' \<in> set adv_estimator_registry"
    by (simp_all add: adv_estimator_registry_def)
  moreover have "batch dp \<noteq> None" using mask by (auto simp: has_tensor_def split: option.splits)
  ultimately show ?thesis
    using R uid no_baselines mask f(2)
    by (simp add: compute_advantage_def with_response_mask_def call_estimator_def index_arg_def rcheck_def dict_get_def)
qed

section \<open>Examples\<close>

definition demo_driver_batch :: "(cell, nat mobj) dataproto" where
  "demo_driver_batch =
     \<lparr>batch = Some \<lparr>batch_size = 3, tensors =
        [(''attention_mask'', [IntRow [1, 1, 0], IntRow [1, 1, 1], IntRow [1, 0, 0]]),
         (''response_mask'', [RealRow [1, 0], RealRow [1, 1], RealRow [1, 0]]),
         (''token_level_rewards'', [RealRow [4, 0], RealRow [0, 1], RealRow [2, 0]])]\<rparr>,
      non_tensor_batch = [(''uid'', [MStr ''p'', MStr ''p'', MStr ''q''])], meta_info = []\<rparr>"

definition demo_env :: "nat adv_env" where
  "demo_env = \<lparr>env_multinomial = (\<lambda>_ n. [0..<n]), env_top_position = (\<lambda>_. 0), env_str = (\<lambda>_. [])\<rparr>"

lemma demo_driver_batch_wf: "wf_dataproto demo_driver_batch"
  by (simp add: demo_driver_batch_def wf_dataproto_def wf_columns_def wf_meta_def dict_wf_def dp_len_def)

lemma demo_driver_batch_columns:
  "batch_column demo_driver_batch ''attention_mask'' = Inr [IntRow [1, 1, 0], IntRow [1, 1, 1], IntRow [1, 0, 0]]"
  "token_column demo_driver_batch ''token_level_rewards'' = Inr [[4, 0], [0, 1], [2, 0]]"
  "has_tensor demo_driver_batch ''response_mask''" "\<not> has_tensor demo_driver_batch ''reward_baselines''"
  "dp_len demo_driver_batch = 3" "batch demo_driver_batch \<noteq> None"
  by (simp_all add: demo_driver_batch_def batch_column_def token_column_def has_tensor_def dict_get_def has_key_def dp_len_def)

theorem balancing_keeps_advantages_witness:
  "rbind (reorder [2, 0, 1] demo_driver_batch) (compute_advantage demo_env ''rloo'' 1 1 True None)
    = rbind (compute_advantage demo_env ''rloo'' 1 1 True None demo_driver_batch) (reorder [2, 0, 1])"
proof (rule balancing_keeps_advantages)
  have "mset [2, 0, 1] = mset [0..<3]" by (simp add: upt_rec)
  then show "ordered_batch [2, 0, 1] demo_driver_batch"
    using demo_driver_batch_wf demo_driver_batch_columns by (simp add: ordered_batch_def row_order_def)
qed (simp_all add: order_free_def demo_driver_batch_columns)

theorem balanced_ranks_witness:
  "(\<exists>idx dp' stats rows'. balance_batch 3 False False None demo_driver_batch = Inr (dp', stats)
    \<and> ordered_batch idx demo_driver_batch \<and> reorder idx demo_driver_batch = Inr dp'
    \<and> batch_column dp' ''attention_mask'' = Inr rows'
    \<and> (\<forall>i<3. \<forall>j<3. rank_work 3 rows' i - rank_work 3 rows' j \<le> 100000 - 0))
    \<and> balance_batch 3 True False None demo_driver_batch = Inl ValueError"
proof -
  have "map_of (non_tensor_batch demo_driver_batch) ''uid'' = Some [MStr ''p'', MStr ''p'', MStr ''q'']"
    by (simp add: demo_driver_batch_def)
  moreover have "length (remdups [MStr ''p'' :: nat mobj, MStr ''p'', MStr ''q'']) mod 3 \<noteq> 0" by simp
  moreover note balanced_ranks [OF demo_driver_batch_wf demo_driver_batch_columns(1), of 3 0 100000]
  ultimately show ?thesis by (simp add: demo_driver_batch_columns calculate_workload_def) blast
qed

theorem keep_minibatch_drops_remainder_witness:
  "\<exists>idx dp' stats. balance_batch 1 False True (Some 2) demo_driver_batch = Inr (dp', stats)
    \<and> reorder idx demo_driver_batch = Inr dp' \<and> mset idx = mset [0..<dp_len demo_driver_batch div 2 * 2]
    \<and> dp_len dp' = dp_len demo_driver_batch div 2 * 2"
  by (rule keep_minibatch_drops_remainder [OF demo_driver_batch_wf demo_driver_batch_columns(1)])
    (simp_all add: demo_driver_batch_columns)

theorem vectorized_grpo_agrees_witness:
  "compute_advantage demo_env ''grpo_vectorized'' 1 1 False None demo_driver_batch
    = compute_advantage demo_env ''grpo'' 1 1 True None demo_driver_batch"
proof (rule vectorized_grpo_agrees [OF demo_driver_batch_wf demo_driver_batch_columns(2)])
  show "map_of (non_tensor_batch demo_driver_batch) ''uid'' = Some (map MStr [''p'', ''p'', ''q''])"
    by (simp add: demo_driver_batch_def)
  show "\<exists>u\<in>set [''p'', ''p'', ''q'']. py_int u = None" by code_simp
  show "\<forall>u\<in>set [''p'', ''p'', ''q'']. 2 \<le> length (id2list [''p'', ''p'', ''q''] (row_sums [[4, 0], [0, 1], [2, 0]]) u)
      \<longrightarrow> 1 / 10 ^ 6 \<le> (tstd (id2list [''p'', ''p'', ''q''] (row_sums [[4, 0], [0, 1], [2, 0]]) u))\<^sup>2"
    by (simp add: id2list_filter row_sums_def tstd_def tmean_def power2_eq_square)
qed (simp_all add: demo_driver_batch_columns)

end
