(* ===== verification/ValMetrics.thy ===== *)
theory ValMetrics
  imports TrainerBatch MetricAgg
begin

text \<open>
  Validation metrics: \<open>process_validation_metrics\<close> and its helpers in \<open>verl/trainer/ppo/metric_utils.py\<close>.
  Samples are grouped by data source and prompt; per prompt the mean, the bootstrapped best, worst and majority
  values are computed, then averaged over the prompts. The bootstrap indices of the seeded generator are a
  parameter. Ids of prompts and data sources are strings.
\<close>

section \<open>Values\<close>

text \<open>A value of a variable: a number, \<open>nan\<close>, or an object that is not a number. A metric is a number or
  \<open>nan\<close> (\<open>None\<close>).\<close>

datatype 'img vval = VNum real | VNan | VObj "'img mobj"

fun vval_number :: "'img vval \<Rightarrow> real option res" where
  "vval_number (VNum x) = Inr (Some x)"
| "vval_number VNan = Inr None"
| "vval_number (VObj _) = Inl TypeError"

text \<open>\<open>np.mean\<close> and \<open>np.std\<close>: \<open>nan\<close> if any entry is.\<close>

definition nan_mean :: "real option list \<Rightarrow> real option" where
  "nan_mean xs = (if xs = [] \<or> None \<in> set xs then None else Some (mean1 (map the xs)))"

definition nan_std :: "real option list \<Rightarrow> real option" where
  "nan_std xs = (if xs = [] \<or> None \<in> set xs then None else Some (std1 (map the xs)))"

text \<open>\<open>np.max\<close> and \<open>np.min\<close> of an array of objects: a fold with \<open>>=\<close> (\<open><=\<close>), which is false on \<open>nan\<close>,
  and then takes the right operand.\<close>

fun object_max :: "real option \<Rightarrow> real option \<Rightarrow> real option" where
  "object_max (Some x) (Some y) = (if x \<ge> y then Some x else Some y)"
| "object_max a b = b"

fun object_min :: "real option \<Rightarrow> real option \<Rightarrow> real option" where
  "object_min (Some x) (Some y) = (if x \<le> y then Some x else Some y)"
| "object_min a b = b"

definition reduce_object :: "(real option \<Rightarrow> real option \<Rightarrow> real option) \<Rightarrow> 'img vval list \<Rightarrow> real option res" where
  "reduce_object f xs =
     rbind (rcheck ValueError (xs \<noteq> [])) (\<lambda>_. rbind (rmap vval_number xs) (\<lambda>ns. Inr (foldl f (hd ns) (tl ns))))"

section \<open>Bootstrap\<close>

text \<open>The parameter \<open>choice n k\<close> gives the index lists of size \<open>k\<close> below \<open>n\<close>, one per bootstrap.\<close>

definition bootstrap_metric ::
    "(nat \<Rightarrow> nat \<Rightarrow> nat list list) \<Rightarrow> 'd list \<Rightarrow> nat \<Rightarrow> ('d list \<Rightarrow> real option res) list
     \<Rightarrow> (real option \<times> real option) list res" where
  "bootstrap_metric choice data subset_size reduce_fns =
     rmap (\<lambda>reduce_fn.
        rbind (rmap (\<lambda>idxs. reduce_fn (select data idxs)) (choice (length data) subset_size)) (\<lambda>rs.
        Inr (nan_mean rs, nan_std rs))) reduce_fns"

text \<open>Majority vote: the first key with the largest count, and its first value.\<close>

fun vote_hashable :: "'img vval \<Rightarrow> bool" where
  "vote_hashable (VObj (MList _)) = False"
| "vote_hashable (VObj (MDict _)) = False"
| "vote_hashable (VObj (MArray _)) = False"
| "vote_hashable _ = True"

definition votes :: "('k \<times> 'v) list \<Rightarrow> 'k \<Rightarrow> 'v list" where
  "votes data k = map snd (filter (\<lambda>p. fst p = k) data)"

fun first_max :: "('k \<Rightarrow> nat) \<Rightarrow> 'k list \<Rightarrow> 'k option" where
  "first_max cnt [] = None"
| "first_max cnt (k # ks) =
     (case first_max cnt ks of None \<Rightarrow> Some k | Some m \<Rightarrow> if cnt m > cnt k then Some m else Some k)"

definition calc_maj_val :: "('img vval \<times> 'img vval) list \<Rightarrow> real option res" where
  "calc_maj_val data =
     rbind (rcheck TypeError (\<forall>p\<in>set data. vote_hashable (fst p))) (\<lambda>_.
     (case first_max (\<lambda>k. length (votes data k)) (rev (remdups (rev (map fst data)))) of
        None \<Rightarrow> Inl ValueError
      | Some maj_vote \<Rightarrow> vval_number (hd (votes data maj_vote))))"

section \<open>The metrics of one prompt\<close>

text \<open>\<open>gen_ns\<close>: the powers of two below the number of responses, and that number.\<close>

function powers_below :: "nat \<Rightarrow> nat \<Rightarrow> nat list" where
  "powers_below n n_resps = (if 0 < n \<and> n < n_resps then n # powers_below (n * 2) n_resps else [])"
  by auto
termination by (relation "measure (\<lambda>(n, m). m - n)") auto

declare powers_below.simps [simp del]

definition gen_ns :: "nat \<Rightarrow> nat list" where
  "gen_ns n_resps = (if n_resps \<le> 1 then [] else powers_below 2 n_resps @ [n_resps])"

text \<open>\<open>str\<close> of a natural number.\<close>

fun nat_text :: "nat \<Rightarrow> string" where
  "nat_text n = (if n < 10 then [char_of (48 + n)] else nat_text (n div 10) @ [char_of (48 + n mod 10)])"

declare nat_text.simps [simp del]

definition metric_name :: "string \<Rightarrow> nat \<Rightarrow> string \<Rightarrow> string" where
  "metric_name kind n suffix = kind @ ''@'' @ nat_text n @ suffix"

definition subset_metrics ::
    "(nat \<Rightarrow> nat \<Rightarrow> nat list list) \<Rightarrow> 'img vval list option \<Rightarrow> 'img vval list \<Rightarrow> nat \<Rightarrow> real option pydict res" where
  "subset_metrics choice pred_vals var_vals n =
     rbind (bootstrap_metric choice var_vals n [reduce_object object_max, reduce_object object_min]) (\<lambda>bw.
     rbind (case pred_vals of
              None \<Rightarrow> Inr []
            | Some preds \<Rightarrow>
                rbind (rcheck ValueError (length var_vals = length preds)) (\<lambda>_.
                rbind (bootstrap_metric choice (zip preds var_vals) n [calc_maj_val]) (\<lambda>maj.
                Inr [(metric_name ''maj'' n ''/mean'', fst (hd maj)), (metric_name ''maj'' n ''/std'', snd (hd maj))]))) (\<lambda>maj.
     Inr ([(metric_name ''best'' n ''/mean'', fst (bw ! 0)), (metric_name ''best'' n ''/std'', snd (bw ! 0)),
           (metric_name ''worst'' n ''/mean'', fst (bw ! 1)), (metric_name ''worst'' n ''/std'', snd (bw ! 1))] @ maj)))"

definition var_metrics ::
    "(nat \<Rightarrow> nat \<Rightarrow> nat list list) \<Rightarrow> 'img vval list option \<Rightarrow> 'img vval list \<Rightarrow> real option pydict res" where
  "var_metrics choice pred_vals var_vals =
     (let n_resps = length var_vals in
      rbind (rmap vval_number var_vals) (\<lambda>ns.
      if n_resps > 1
      then rbind (rmap (subset_metrics choice pred_vals var_vals) (gen_ns n_resps)) (\<lambda>ms.
           Inr (dict_update [(metric_name ''mean'' n_resps '''', nan_mean ns), (metric_name ''std'' n_resps '''', nan_std ns)]
                  (concat ms)))
      else Inr [(metric_name ''mean'' n_resps '''', nan_mean ns)]))"

fun is_text :: "'img vval \<Rightarrow> bool" where
  "is_text (VObj (MStr _)) = True"
| "is_text _ = False"

text \<open>Variables without values and those that start with a string are skipped.\<close>

definition prompt_metrics ::
    "(nat \<Rightarrow> nat \<Rightarrow> nat list list) \<Rightarrow> 'img vval list pydict \<Rightarrow> real option pydict pydict res" where
  "prompt_metrics choice var2vals =
     dict_rmap (var_metrics choice (map_of var2vals ''pred''))
       (filter (\<lambda>(_, var_vals). var_vals \<noteq> [] \<and> \<not> is_text (hd var_vals)) var2vals)"

section \<open>Grouping and averaging\<close>

text \<open>\<open>d[k]\<close> of a \<open>defaultdict\<close>, updated.\<close>

definition dict_alter :: "'v \<Rightarrow> ('v \<Rightarrow> 'v) \<Rightarrow> 'v pydict \<Rightarrow> string \<Rightarrow> 'v pydict" where
  "dict_alter dflt f d k = dict_set d k (f (case map_of d k of None \<Rightarrow> dflt | Some v \<Rightarrow> v))"

definition add_sample ::
    "'v pydict \<Rightarrow> 'v list pydict pydict pydict \<Rightarrow> string \<Rightarrow> string \<Rightarrow> 'v list pydict pydict pydict" where
  "add_sample sample d data_source uid =
     dict_alter [] (\<lambda>uids. dict_alter [] (\<lambda>vars. foldl (\<lambda>vs (k, v). dict_alter [] (\<lambda>xs. xs @ [v]) vs k) vars sample) uids uid) d data_source"

definition sample_at :: "'v list pydict \<Rightarrow> nat \<Rightarrow> 'v pydict res" where
  "sample_at infos i = dict_rmap (\<lambda>vals. rbind (rcheck IndexError (i < length vals)) (\<lambda>_. Inr (vals ! i))) infos"

definition group_samples ::
    "string list \<Rightarrow> string list \<Rightarrow> 'v list pydict \<Rightarrow> 'v list pydict pydict pydict res" where
  "group_samples data_sources sample_uids infos =
     rbind (rmap (\<lambda>i. rbind (rcheck IndexError (i < length sample_uids)) (\<lambda>_.
                      rbind (sample_at infos i) (\<lambda>s. Inr (data_sources ! i, sample_uids ! i, s))))
              [0..<length data_sources]) (\<lambda>samples.
     Inr (foldl (\<lambda>d (src, uid, s). add_sample s d src uid) [] samples))"

definition collect_metric ::
    "real option list pydict pydict pydict \<Rightarrow> string \<times> string \<times> string \<times> real option \<Rightarrow> real option list pydict pydict pydict" where
  "collect_metric d p =
     (case p of (src, var, name, x) \<Rightarrow>
        dict_alter [] (\<lambda>vars. dict_alter [] (\<lambda>ms. dict_alter [] (\<lambda>xs. xs @ [x]) ms name) vars var) d src)"

definition flat_metrics :: "real option pydict pydict pydict pydict \<Rightarrow> (string \<times> string \<times> string \<times> real option) list" where
  "flat_metrics d =
     concat (map (\<lambda>(src, uids). concat (map (\<lambda>(_, vars). concat (map (\<lambda>(var, ms). map (\<lambda>(name, x). (src, var, name, x)) ms) vars)) uids)) d)"

definition process_validation_metrics ::
    "(nat \<Rightarrow> nat \<Rightarrow> nat list list) \<Rightarrow> string list \<Rightarrow> string list \<Rightarrow> 'img vval list pydict
     \<Rightarrow> real option pydict pydict pydict res" where
  "process_validation_metrics choice data_sources sample_uids infos_dict =
     rbind (group_samples data_sources sample_uids infos_dict) (\<lambda>src2uid2var2vals.
     rbind (dict_rmap (dict_rmap (prompt_metrics choice)) src2uid2var2vals) (\<lambda>src2uid2var2metric.
     Inr (dict_map (dict_map (dict_map nan_mean)) (foldl collect_metric [] (flat_metrics src2uid2var2metric)))))"

end
