(* ===== verification/Validation.thy ===== *)
theory Validation
  imports ValMetrics ChatTemplate
begin

text \<open>
  Validation in \<open>verl/trainer/ppo/ray_trainer.py\<close>: every batch of the validation set is repeated, padded, sent
  to generation and unpadded; the rewards are awaited later and collected beside the ids of the prompts, and
  the metrics of all samples are named. Dumps, tables for loggers and progress messages are left out.
\<close>

section \<open>Values of a batch\<close>

fun to_list :: "'img mobj \<Rightarrow> 'img mobj list" where
  "to_list (MArray xs) = xs"
| "to_list (MList xs) = xs"
| "to_list v = [v]"

fun vval_of :: "'img mobj \<Rightarrow> 'img vval" where
  "vval_of (MFloat x) = VNum x"
| "vval_of (MInt i) = VNum (of_int i)"
| "vval_of (MBool b) = VNum (of_bool b)"
| "vval_of (MScalar v) = vval_of v"
| "vval_of v = VObj v"

text \<open>\<open>_validation_metric_values\<close>: predictions are kept as they are; other values must be numbers or
  missing, and at least one a number, else the batch has none.\<close>

fun metric_value_of :: "'img mobj \<Rightarrow> 'img vval option" where
  "metric_value_of (MScalar v) = metric_value_of v"
| "metric_value_of MNone = Some VNan"
| "metric_value_of v = (case vval_of v of VNum x \<Rightarrow> Some (VNum x) | _ \<Rightarrow> None)"

definition validation_metric_values :: "string \<Rightarrow> 'img mobj \<Rightarrow> 'img vval list option" where
  "validation_metric_values key vals =
     (let xs = to_list vals in
      if key = ''pred'' then Some (map vval_of xs)
      else (let ms = map metric_value_of xs in
            if None \<in> set ms then None
            else if \<exists>m\<in>set ms. m \<noteq> Some VNan then Some (map the ms) else None))"

section \<open>Scored batches\<close>

definition extract_reward :: "(cell, 'img mobj) dataproto \<Rightarrow> (tensor \<times> 'img mobj list pydict) res" where
  "extract_reward dp =
     rbind (token_column dp ''rm_scores'') (\<lambda>reward_tensor.
     rbind (rmap (\<lambda>k. rbind (dict_get (non_tensor_batch dp) k) (\<lambda>col. Inr (k, col)))
              (obj_strings (map_of (meta_info dp) ''reward_extra_keys''))) (\<lambda>infos.
     Inr (reward_tensor, infos)))"

record 'img val_record =
  vr_uids :: "string list"
  vr_turns :: "real list option"
  vr_sources :: "string list"
  vr_reward_data :: "(cell, 'img mobj) dataproto option"
  vr_handles :: "stream_handle list"
  vr_indices :: "'img mobj list option"

record 'img val_result =
  val_sources :: "string list list"
  val_uids :: "string list"
  val_turns :: "real list list"
  val_infos :: "'img vval list pydict"

record 'img val_state = "'img val_result" +
  num_scored_samples :: nat

definition extend_list :: "'v list pydict \<Rightarrow> string \<Rightarrow> 'v list \<Rightarrow> 'v list pydict" where
  "extend_list d k xs = dict_alter [] (\<lambda>ys. ys @ xs) d k"

definition process_scored_validation_batch ::
    "'img val_record \<Rightarrow> (cell, 'img mobj) dataproto \<Rightarrow> 'img val_state \<Rightarrow> 'img val_state res" where
  "process_scored_validation_batch vrec scored_batch st =
     rbind (extract_reward scored_batch) (\<lambda>(reward_tensor, reward_extra_info).
     (let batch_scores = row_sums reward_tensor;
          infos = extend_list (val_infos st) ''reward'' (map VNum batch_scores);
          infos' = foldl (\<lambda>d (key, col). case validation_metric_values key (MArray col) of
                                           None \<Rightarrow> d | Some vs \<Rightarrow> extend_list d key vs) infos reward_extra_info
      in Inr (st\<lparr>val_infos := infos', num_scored_samples := num_scored_samples st + length batch_scores,
                 val_uids := val_uids st @ vr_uids vrec,
                 val_turns := val_turns st @ (case vr_turns vrec of None \<Rightarrow> [] | Some ts \<Rightarrow> [ts]),
                 val_sources := val_sources st @ [vr_sources vrec]\<rparr>)))"

section \<open>Generation for a batch of the validation set\<close>

text \<open>The parts of the configuration and of the trainer that the loop uses; \<open>fresh_uids\<close> stands for
  \<open>uuid4\<close>, the colocated reward model is present when \<open>use_rm\<close> is set.\<close>

record 'img val_env =
  val_n :: nat
  val_num_workers :: nat
  val_meta :: "pyobj pydict"
  fresh_uids :: "nat \<Rightarrow> string list"
  val_generate :: "(cell, 'img mobj) dataproto \<Rightarrow> 'img generated res"
  colocate_reward :: "((cell, 'img mobj) dataproto \<Rightarrow> (cell, 'img mobj) dataproto res) option"
  objects_equal :: "'img mobj list \<Rightarrow> 'img mobj list \<Rightarrow> bool"

definition with_uids :: "(nat \<Rightarrow> string list) \<Rightarrow> (cell, 'img mobj) dataproto \<Rightarrow> (cell, 'img mobj) dataproto" where
  "with_uids fresh dp =
     (if has_key (non_tensor_batch dp) ''uid'' then dp
      else dp\<lparr>non_tensor_batch := dict_set (non_tensor_batch dp) ''uid'' (map MStr (fresh (dp_len dp)))\<rparr>)"

definition score_colocated :: "'img val_env \<Rightarrow> 'img generated \<Rightarrow> (cell, 'img mobj) dataproto res" where
  "score_colocated env g =
     (case colocate_reward env of
        None \<Rightarrow> Inr (gen_batch g)
      | Some reward \<Rightarrow>
          if has_tensor (gen_batch g) ''rm_scores'' \<or> gen_reward_handles g \<noteq> [] then Inr (gen_batch g)
          else rbind (reward (gen_batch g)) (union_dataproto (objects_equal env) (gen_batch g)))"

definition string_column :: "'img mobj list \<Rightarrow> string list res" where
  "string_column = rmap uid_string"

definition turns_of :: "(cell, 'img mobj) dataproto \<Rightarrow> real list option res" where
  "turns_of dp =
     (case map_of (non_tensor_batch dp) ''__num_turns__'' of
        None \<Rightarrow> Inr None
      | Some col \<Rightarrow> rbind (rmap (\<lambda>v. case vval_of v of VNum x \<Rightarrow> Inr x | _ \<Rightarrow> Inl TypeError) col) (\<lambda>ts. Inr (Some ts)))"

definition validation_record ::
    "(cell, 'img mobj) dataproto \<Rightarrow> (cell, 'img mobj) dataproto \<Rightarrow> stream_handle list \<Rightarrow> 'img val_record res" where
  "validation_record test_batch output handles =
     rbind (rbind (dict_get (non_tensor_batch test_batch) ''uid'') string_column) (\<lambda>uids.
     rbind (case map_of (non_tensor_batch test_batch) ''data_source'' of
              None \<Rightarrow> Inr (replicate (dp_len test_batch) ''unknown'') | Some col \<Rightarrow> string_column col) (\<lambda>sources.
     rbind (turns_of output) (\<lambda>turns.
     Inr \<lparr>vr_uids = uids, vr_turns = turns, vr_sources = sources,
          vr_reward_data = (if handles \<noteq> [] \<and> \<not> has_tensor output ''rm_scores'' then None else Some output),
          vr_handles = handles,
          vr_indices = (if handles = [] then None else map_of (non_tensor_batch output) ''validation_reward_stream_index'')\<rparr>)))"

definition generate_validation_batch :: "'img val_env \<Rightarrow> (cell, 'img mobj) dataproto \<Rightarrow> 'img val_record res" where
  "generate_validation_batch env test_data =
     rbind (repeat_dataproto (val_n env) True (with_uids (fresh_uids env) test_data)) (\<lambda>test_batch.
     rbind (get_gen_batch test_batch) (\<lambda>(gen0, rest).
     rbind (pad_dataproto_to_divisor (val_num_workers env) (gen0\<lparr>meta_info := val_meta env\<rparr>)) (\<lambda>(padded, pad_size).
     rbind (val_generate env padded) (\<lambda>g.
     rbind (score_colocated env g) (\<lambda>scored.
     rbind (unpad_dataproto scored pad_size) (\<lambda>output.
     validation_record rest output (gen_reward_handles g)))))))"

section \<open>The loop\<close>

definition resolve_record ::
    "(cell, 'img mobj) dataproto res pydict list \<Rightarrow> 'img val_record \<Rightarrow> (cell, 'img mobj) dataproto res" where
  "resolve_record tables vrec =
     (if vr_handles vrec \<noteq> []
      then rbind (case vr_indices vrec of None \<Rightarrow> Inr None
                                        | Some objs \<Rightarrow> rbind (rmap obj_index objs) (\<lambda>is. Inr (Some is))) (\<lambda>indices.
           resolve_validation_reward_streams tables (vr_handles vrec) indices)
      else (case vr_reward_data vrec of None \<Rightarrow> Inl ValueError | Some dp \<Rightarrow> Inr dp))"

fun score_records ::
    "(cell, 'img mobj) dataproto res pydict list \<Rightarrow> 'img val_record list \<Rightarrow> 'img val_state \<Rightarrow> 'img val_state res" where
  "score_records tables [] st = Inr st"
| "score_records tables (r # rs) st =
     rbind (resolve_record tables r) (\<lambda>scored.
     rbind (process_scored_validation_batch r scored st) (score_records tables rs))"

definition val_start :: "'img val_state" where
  "val_start = \<lparr>val_sources = [], val_uids = [], val_turns = [], val_infos = [], num_scored_samples = 0\<rparr>"

text \<open>The streams of a batch finish while later batches are generated: \<open>tables\<close> holds their results.\<close>

definition collect_validation ::
    "'img val_env \<Rightarrow> (cell, 'img mobj) dataproto res pydict list \<Rightarrow> (cell, 'img mobj) dataproto list \<Rightarrow> 'img val_state res" where
  "collect_validation env tables batches =
     rbind (rmap (generate_validation_batch env) batches) (\<lambda>records.
     rbind (score_records tables records val_start) (\<lambda>st.
     rbind (rassert (\<forall>(k, vs)\<in>set (val_infos st). vs = [] \<or> length vs = num_scored_samples st)) (\<lambda>_. Inr st)))"

section \<open>The names of the metrics\<close>

definition metric_size :: "string \<Rightarrow> int res" where
  "metric_size name =
     (case py_int (hd (split_on (CHR ''/'') (last (split_on (CHR ''@'') name)))) of
        None \<Rightarrow> Inl ValueError | Some i \<Rightarrow> Inr i)"

definition int_text :: "int \<Rightarrow> string" where
  "int_text i = (if i < 0 then CHR ''-'' # nat_text (nat (- i)) else nat_text (nat i))"

definition is_core :: "string \<Rightarrow> int \<Rightarrow> string \<Rightarrow> string \<Rightarrow> bool" where
  "is_core core_var n_max var_name metric =
     (var_name = core_var \<and> (\<exists>pfx\<in>set [''mean'', ''maj'', ''best'']. starts_with pfx metric)
      \<and> contains_text (''@'' @ int_text n_max) metric)"

definition named_metrics :: "string \<Rightarrow> string \<Rightarrow> string \<times> real option pydict \<Rightarrow> real option pydict res" where
  "named_metrics data_source core_var v =
     (case v of (var_name, metric2val) \<Rightarrow>
        rbind (rcheck ValueError (metric2val \<noteq> [])) (\<lambda>_.
        rbind (rmap (\<lambda>(name, _). metric_size name) metric2val) (\<lambda>sizes.
        Inr (map (\<lambda>(name, x). ((if is_core core_var (Max (set sizes)) var_name name then ''val-core'' else ''val-aux'')
                                @ ''/'' @ data_source @ ''/'' @ var_name @ ''/'' @ name, x)) metric2val))))"

definition val_metrics_update ::
    "(nat \<Rightarrow> nat \<Rightarrow> nat list list) \<Rightarrow> string list \<Rightarrow> string list \<Rightarrow> 'img vval list pydict \<Rightarrow> real list list
     \<Rightarrow> real option pydict res" where
  "val_metrics_update choice data_sources sample_uids infos sample_turns =
     rbind (process_validation_metrics choice data_sources sample_uids infos) (\<lambda>src2var2metric2val.
     rbind (rmap (\<lambda>(src, var2metric2val).
              (let core_var = (if has_key var2metric2val ''acc'' then ''acc'' else ''reward'') in
               rbind (rmap (named_metrics src core_var) var2metric2val) (\<lambda>ms. Inr (concat ms)))) src2var2metric2val) (\<lambda>named.
     (let metric_dict = dict_update [] (concat named); turns = concat sample_turns in
      if sample_turns = [] then Inr metric_dict
      else rbind (rcheck ValueError (turns \<noteq> [])) (\<lambda>_.
           Inr (dict_update metric_dict
             [(''val-aux/num_turns/min'', Some (Min (set turns))), (''val-aux/num_turns/max'', Some (Max (set turns))),
              (''val-aux/num_turns/mean'', Some (mean1 turns))])))))"

definition validate ::
    "'img val_env \<Rightarrow> (nat \<Rightarrow> nat \<Rightarrow> nat list list) \<Rightarrow> (cell, 'img mobj) dataproto res pydict list
     \<Rightarrow> (cell, 'img mobj) dataproto list \<Rightarrow> real option pydict res" where
  "validate env choice tables batches =
     rbind (collect_validation env tables batches) (\<lambda>st.
     rbind (rcheck ValueError (val_sources st \<noteq> [])) (\<lambda>_.
     val_metrics_update choice (concat (val_sources st)) (val_uids st) (val_infos st) (val_turns st)))"

section \<open>Merging the results of two validations\<close>

definition empty_result :: "'img val_result" where
  "empty_result = \<lparr>val_sources = [], val_uids = [], val_turns = [], val_infos = []\<rparr>"

text \<open>The keys of both results; the code goes through them as a set, here in order of appearance.\<close>

definition merge_infos :: "'v list pydict \<Rightarrow> 'v list pydict \<Rightarrow> 'v list pydict" where
  "merge_infos a b =
     map (\<lambda>k. (k, (case map_of a k of None \<Rightarrow> [] | Some xs \<Rightarrow> xs) @ (case map_of b k of None \<Rightarrow> [] | Some xs \<Rightarrow> xs)))
       (map fst a @ filter (\<lambda>k. \<not> has_key a k) (map fst b))"

definition merge_validation_results ::
    "(nat \<Rightarrow> nat \<Rightarrow> nat list list) \<Rightarrow> 'img val_result option \<Rightarrow> 'img val_result option \<Rightarrow> real option pydict res" where
  "merge_validation_results choice result_a result_b =
     (if result_a = None \<and> result_b = None then Inr []
      else (let a = (case result_a of None \<Rightarrow> empty_result | Some r \<Rightarrow> r);
                b = (case result_b of None \<Rightarrow> empty_result | Some r \<Rightarrow> r) in
            if val_sources a = [] \<and> val_sources b = [] then Inr []
            else val_metrics_update choice (concat (val_sources a @ val_sources b)) (val_uids a @ val_uids b)
                   (merge_infos (val_infos a) (val_infos b)) (val_turns a @ val_turns b)))"

end
