(* ===== verification/ValLaws.thy ===== *)
theory ValLaws
  imports Validation BatchLaws
begin

text \<open>
  What validation guarantees: rows keep their content through repeating and padding (\<open>ValidationRuns\<close> goes on
  through the generation), the core metrics are the ones of the largest sample size, best and worst are bounds of
  each other; and where it fails: predictions that are missing, keys that only some batches have, results with different keys.
\<close>

section \<open>Decimal numerals\<close>

definition digits_value :: "string \<Rightarrow> nat" where
  "digits_value s = foldl (\<lambda>v c. 10 * v + digit_value c) 0 s"

lemma foldl_digits: "foldl (\<lambda>v c. 10 * v + digit_value c) a s = a * 10 ^ length s + digits_value s"
proof (induction s arbitrary: a)
  case (Cons c s)
  show ?case
    using Cons [of "10 * a + digit_value c"] Cons [of "digit_value c"] by (simp add: digits_value_def algebra_simps)
qed (simp add: digits_value_def)

lemma digits_value_append: "digits_value (s @ t) = digits_value s * 10 ^ length t + digits_value t"
  using foldl_digits [of "digits_value s" t] by (simp add: digits_value_def)

lemma digit_char: "d < 10 \<Longrightarrow> is_digit (char_of (48 + d)) \<and> digit_value (char_of (48 + d)) = d"
  by (simp add: is_digit_def digit_value_def take_bit_eq_mod)

lemma nat_text_digits: "nat_text n \<noteq> [] \<and> (\<forall>c\<in>set (nat_text n). is_digit c) \<and> digits_value (nat_text n) = n"
proof (induction n rule: nat_text.induct)
  case (1 n)
  show ?case
  proof (cases "n < 10")
    case True
    then show ?thesis using digit_char [of n] by (simp add: nat_text.simps [of n] digits_value_def)
  next
    case False
    with 1 have IH: "nat_text (n div 10) \<noteq> []" "\<forall>c\<in>set (nat_text (n div 10)). is_digit c" "digits_value (nat_text (n div 10)) = n div 10"
      by auto
    have "n mod 10 < 10" by simp
    from digit_char [OF this] IH False show ?thesis
      by (simp add: nat_text.simps [of n] digits_value_append) (simp add: digits_value_def)
  qed
qed

lemma read_digits_all: "\<forall>c\<in>set s. is_digit c \<Longrightarrow> read_digits v n s = (foldl (\<lambda>v c. 10 * v + digit_value c) v s, n + length s, [])"
  by (induction s arbitrary: v n) auto

lemma digit_not_special: "is_digit c \<Longrightarrow> \<not> is_space c \<and> c \<noteq> CHR ''-'' \<and> c \<noteq> CHR ''+'' \<and> c \<noteq> CHR ''@'' \<and> c \<noteq> CHR ''/''"
  by (auto simp: is_digit_def is_space_def)

lemma strip_no_space: "\<forall>c\<in>set s. \<not> is_space c \<Longrightarrow> strip s = s"
proof -
  assume s: "\<forall>c\<in>set s. \<not> is_space c"
  then have "dropWhile is_space s = s" "dropWhile is_space (rev s) = rev s"
    using hd_in_set [of s] hd_in_set [of "rev s"] by (auto simp: dropWhile_eq_self_iff)
  then show ?thesis by (simp add: strip_def)
qed

lemma py_int_nat_text: "py_int (nat_text n) = Some (int n)"
proof -
  have t: "nat_text n \<noteq> []" "\<forall>c\<in>set (nat_text n). is_digit c" "digits_value (nat_text n) = n"
    using nat_text_digits by auto
  then obtain c cs where c: "nat_text n = c # cs" by (meson neq_Nil_conv)
  have "strip (nat_text n) = nat_text n" using t(2) digit_not_special by (intro strip_no_space) blast
  moreover have "read_sign (nat_text n) = (1, nat_text n)" using c t(2) digit_not_special [of c] by (simp add: read_sign_def)
  moreover have "read_digits 0 0 (nat_text n) = (n, length (nat_text n), [])"
    using read_digits_all [OF t(2), of 0 0] t(3) by (simp add: digits_value_def)
  ultimately show ?thesis using t(1) by (simp add: py_int_def)
qed

text \<open>The names of metrics: a kind without \<open>@\<close>, and a suffix that is empty or starts with a slash.\<close>

definition suffix_ok :: "string \<Rightarrow> bool" where
  "suffix_ok suffix \<longleftrightarrow> CHR ''@'' \<notin> set suffix \<and> (suffix = [] \<or> hd suffix = CHR ''/'')"

lemma split_on_sep_append: "c \<notin> set w \<Longrightarrow> split_on c (w @ c # s) = w # split_on c s"
  by (induction w) auto

lemma metric_size_name:
  assumes "CHR ''@'' \<notin> set kind" and "suffix_ok suffix"
  shows "metric_size (metric_name kind n suffix) = Inr (int n)"
proof -
  have d: "\<forall>c\<in>set (nat_text n). is_digit c" using nat_text_digits by blast
  then have "CHR ''@'' \<notin> set (nat_text n @ suffix)" "CHR ''/'' \<notin> set (nat_text n)"
    using assms(2) digit_not_special by (auto simp: suffix_ok_def)
  then have "last (split_on (CHR ''@'') (metric_name kind n suffix)) = nat_text n @ suffix"
    using assms(1) by (simp add: metric_name_def split_on_sep_append split_on_no_sep)
  moreover have "hd (split_on (CHR ''/'') (nat_text n @ suffix)) = nat_text n"
  proof (cases suffix)
    case (Cons c cs)
    then show ?thesis
      using assms(2) \<open>CHR ''/'' \<notin> set (nat_text n)\<close> by (simp add: suffix_ok_def split_on_sep_append)
  qed (simp add: split_on_no_sep \<open>CHR ''/'' \<notin> set (nat_text n)\<close>)
  ultimately show ?thesis by (simp add: metric_size_def py_int_nat_text)
qed

lemma nat_text_prefix:
  assumes "take (length (nat_text m)) (nat_text n @ suffix) = nat_text m" and "suffix_ok suffix" and "n \<le> m"
  shows "n = m"
proof -
  have dm: "\<forall>c\<in>set (nat_text m). is_digit c" using nat_text_digits by blast
  have "length (nat_text m) \<le> length (nat_text n)"
  proof (rule ccontr)
    assume less: "\<not> ?thesis"
    have "length (nat_text m) \<le> length (nat_text n @ suffix)" using assms(1) by (metis length_take min.cobounded1)
    with less have ne: "suffix \<noteq> []" by auto
    have "nat_text m ! length (nat_text n) = take (length (nat_text m)) (nat_text n @ suffix) ! length (nat_text n)"
      by (simp only: assms(1))
    also have "\<dots> = (nat_text n @ suffix) ! length (nat_text n)" using less by (intro nth_take) simp
    also have "\<dots> = hd suffix" using ne by (simp add: nth_append hd_conv_nth)
    finally have "is_digit (hd suffix)" using dm less by (metis leI nth_mem)
    then show False using assms(2) ne digit_not_special by (auto simp: suffix_ok_def)
  qed
  with assms(1) have "nat_text n = nat_text m @ drop (length (nat_text m)) (nat_text n)"
    by (metis append_take_drop_id diff_is_0_eq' append_Nil2 take0 take_append)
  then have "digits_value (nat_text n) = m * 10 ^ length (drop (length (nat_text m)) (nat_text n))
      + digits_value (drop (length (nat_text m)) (nat_text n))"
    using digits_value_append [of "nat_text m" "drop (length (nat_text m)) (nat_text n)"] nat_text_digits [of m] by simp
  then have "n = m * 10 ^ length (drop (length (nat_text m)) (nat_text n))
      + digits_value (drop (length (nat_text m)) (nat_text n))" using nat_text_digits [of n] by simp
  moreover have "m * 1 \<le> m * 10 ^ k" for k :: nat by (intro mult_le_mono2) simp
  ultimately have "m \<le> n" by (metis mult.right_neutral trans_le_add1)
  with assms(3) show ?thesis by simp
qed

lemma at_position:
  assumes "CHR ''@'' \<notin> set xs" and "CHR ''@'' \<notin> set ys" and "i < length (xs @ CHR ''@'' # ys)"
    and "(xs @ CHR ''@'' # ys) ! i = CHR ''@''"
  shows "i = length xs"
proof (rule ccontr)
  assume "i \<noteq> length xs"
  then consider "i < length xs" | j where "i = Suc (length xs) + j" by (metis add.commute less_imp_Suc_add linorder_neqE_nat add_Suc)
  then show False
  proof cases
    case 1
    then have "xs ! i = CHR ''@''" using assms(4) by (simp add: nth_append)
    then show ?thesis using 1 assms(1) by (metis nth_mem)
  next
    case 2
    then have "ys ! j = CHR ''@''" "j < length ys" using assms(3,4) by (simp_all add: nth_append)
    then show ?thesis using assms(2) by (metis nth_mem)
  qed
qed

lemma contains_size:
  assumes "CHR ''@'' \<notin> set kind" and "suffix_ok suffix" and "n \<le> m"
  shows "contains_text (''@'' @ nat_text m) (metric_name kind n suffix) \<longleftrightarrow> n = m"
proof
  let ?text = "metric_name kind n suffix"
  have name: "?text = kind @ CHR ''@'' # (nat_text n @ suffix)" by (simp add: metric_name_def)
  have no_at: "CHR ''@'' \<notin> set (nat_text n @ suffix)"
    using assms(2) nat_text_digits [of n] digit_not_special by (auto simp: suffix_ok_def)
  assume "contains_text (''@'' @ nat_text m) ?text"
  then obtain i where i: "i \<le> length ?text" "take (Suc (length (nat_text m))) (drop i ?text) = CHR ''@'' # nat_text m"
    by (auto simp: contains_text_def list_ex_iff less_Suc_eq_le simp del: upt_Suc)
  have "i < length ?text" using i(2) by (cases "i = length ?text") (use i(1) in auto)
  moreover have "?text ! i = CHR ''@''" using i(2) \<open>i < length ?text\<close> by (metis hd_drop_conv_nth list.sel(1) take_Suc Zero_neq_Suc hd_take zero_less_Suc)
  ultimately have "i = length kind" using at_position [OF assms(1) no_at] name by simp
  with i(2) have "take (length (nat_text m)) (nat_text n @ suffix) = nat_text m" by (simp add: name)
  then show "n = m" by (rule nat_text_prefix) (rule assms(2,3))+
next
  assume "n = m"
  then show "contains_text (''@'' @ nat_text m) (metric_name kind n suffix)"
    by (auto simp: contains_text_def list_ex_iff metric_name_def intro!: bexI [of _ "length kind"])
qed


section \<open>The part for generation\<close>

lemma pop_keys_all:
  assumes "distinct keys" and "\<forall>k\<in>set keys. has_key d k" and "dict_wf d" and "dict_wf p"
  shows "\<exists>p' d'. pop_keys keys p d = Inr (p', d') \<and> dict_wf p' \<and> dict_wf d'
    \<and> (\<forall>k. map_of d' k = (if k \<in> set keys then None else map_of d k))
    \<and> (\<forall>k. map_of p' k = (if k \<in> set keys then map_of d k else map_of p k))"
  using assms
proof (induction keys arbitrary: p d)
  case (Cons key keys)
  obtain v where v: "map_of d key = Some v" using Cons.prems(2) by (auto simp: has_key_iff)
  have "\<forall>k\<in>set keys. has_key (dict_del d key) k" using Cons.prems(1,2) by (auto simp: has_key_iff map_of_dict_del)
  moreover have "dict_wf (dict_del d key)"
    using Cons.prems(3) by (simp add: dict_wf_def dict_del_def distinct_map inj_on_def)
  ultimately obtain p' d' where pd: "pop_keys keys (dict_set p key v) (dict_del d key) = Inr (p', d')"
      "dict_wf p'" "dict_wf d'" "\<forall>k. map_of d' k = (if k \<in> set keys then None else map_of (dict_del d key) k)"
      "\<forall>k. map_of p' k = (if k \<in> set keys then map_of (dict_del d key) k else map_of (dict_set p key v) k)"
    using Cons.IH [of "dict_del d key" "dict_set p key v"] Cons.prems by (auto simp: dict_wf_set)
  then show ?case
    using v Cons.prems(1) by (intro exI [of _ p'] exI [of _ d']) (auto simp: map_of_dict_del map_of_dict_set)
qed simp

lemma wf_columns_iff: "wf_columns n d \<longleftrightarrow> dict_wf d \<and> (\<forall>k v. map_of d k = Some v \<longrightarrow> length v = n)"
  by (auto simp: wf_columns_def dict_wf_def)

lemma wf_column_length: "wf_dataproto dp \<Longrightarrow> map_of (non_tensor_batch dp) k = Some v \<Longrightarrow> length v = dp_len dp"
  by (auto simp: wf_dataproto_def wf_columns_iff)

lemma dp_len_meta: "dp_len (dp\<lparr>meta_info := mi\<rparr>) = dp_len dp"
  by (simp add: dp_len_def split: option.split)

lemma dict_update_map: "dict_wf e \<Longrightarrow> map_of (dict_update d e) k = (case map_of e k of None \<Rightarrow> map_of d k | Some v \<Rightarrow> Some v)"
proof (induction e arbitrary: d)
  case (Cons kv e)
  obtain a v where kv: "kv = (a, v)" by force
  have "dict_wf e" "map_of e a = None" using Cons.prems kv by (auto simp: dict_wf_def map_of_eq_None_iff)
  then show ?case using Cons.IH [of "dict_set d a v"] kv by (auto simp: dict_update_def map_of_dict_set split: option.splits)
qed (simp add: dict_update_def)

lemma dict_update_wf: "dict_wf d \<Longrightarrow> dict_wf (dict_update d e)"
proof (induction e arbitrary: d)
  case (Cons kv e)
  then show ?case using Cons.IH [of "dict_set d (fst kv) (snd kv)"] by (simp add: dict_update_def dict_wf_set split_beta)
qed (simp add: dict_update_def)

lemma dp_len_column:
  assumes "batch dp = None" and "wf_columns n (non_tensor_batch dp)" and "map_of (non_tensor_batch dp) k = Some v"
  shows "dp_len dp = n"
proof -
  obtain a w rest where c: "non_tensor_batch dp = (a, w) # rest" using assms(3) by (cases "non_tensor_batch dp") auto
  then show ?thesis using assms(1,2) by (simp add: dp_len_def wf_columns_def)
qed

lemma gen_batch_columns:
  assumes "wf_dataproto dp" and "map_of (non_tensor_batch dp) ''uid'' = Some us"
  shows "\<exists>g rest. get_gen_batch dp = Inr (g, rest) \<and> batch g = None \<and> wf_dataproto g \<and> dp_len g = dp_len dp
    \<and> (\<forall>k. map_of (non_tensor_batch g) k = map_of (non_tensor_batch dp) k)
    \<and> (\<forall>k\<in>set reward_keys. map_of (non_tensor_batch rest) k = map_of (non_tensor_batch dp) k)
    \<and> batch rest = batch dp \<and> dp_len rest = dp_len dp"
proof -
  let ?nt = "non_tensor_batch dp" and ?n = "dp_len dp"
  let ?pop = "filter (\<lambda>k. k \<notin> set reward_keys) (map fst ?nt)"
  have cols: "wf_columns ?n ?nt" and wf: "dict_wf ?nt" using assms(1) by (auto simp: wf_dataproto_def wf_columns_def)
  have "distinct ?pop" using wf by (simp add: dict_wf_def)
  moreover have "\<forall>k\<in>set ?pop. has_key ?nt k" by (auto simp: has_key_def)
  moreover have "dict_wf ([] :: 'b list pydict)" by (simp add: dict_wf_def)
  ultimately obtain p d where pd: "pop_keys ?pop [] ?nt = Inr (p, d)" "dict_wf p" "dict_wf d"
      "\<And>k. map_of d k = (if k \<in> set ?pop then None else map_of ?nt k)"
      "\<And>k. map_of p k = (if k \<in> set ?pop then map_of ?nt k else None)"
    using pop_keys_all [of ?pop ?nt "[]"] wf by auto
  have rk: "map_of ?nt k = None \<or> k \<in> set reward_keys" if "k \<notin> set ?pop" for k
    using that by (auto simp: map_of_eq_None_iff image_iff)
  have keys: "pop_tensors [] (batch dp) = Inr ([], batch dp)" by (cases "batch dp") (auto simp: pop_tensors_def rcheck_def)
  let ?p = "\<lparr>batch = None, non_tensor_batch = p, meta_info = []\<rparr> :: ('a, 'b) dataproto"
  let ?rest = "\<lparr>batch = batch dp, non_tensor_batch = d, meta_info = meta_info dp\<rparr>"
  let ?g = "?p\<lparr>non_tensor_batch := dict_update p d\<rparr>"
  have "from_dict [] p [] False = Inr ?p"
    by (simp add: from_dict_def dataproto_new_def check_consistency_def Let_def res_simps)
  then have get: "get_gen_batch dp = Inr (?g, ?rest)"
    by (simp add: get_gen_batch_def pop_columns_def keys pd(1) Let_def)
  have g: "map_of (non_tensor_batch ?g) k = map_of ?nt k" for k
    using rk [of k] pd(4,5) [of k] by (auto simp: dict_update_map [OF pd(3)] split: option.splits)
  have gcols: "wf_columns ?n (non_tensor_batch ?g)"
    using cols g pd(2) by (simp add: wf_columns_iff dict_update_wf)
  have glen: "dp_len ?g = ?n" using dp_len_column [OF _ gcols, of "''uid''" us] g assms(2) by simp
  have "wf_dataproto ?g" using gcols glen by (simp add: wf_dataproto_def wf_meta_def dict_wf_def)
  moreover have "map_of (non_tensor_batch ?rest) k = map_of ?nt k" if "k \<in> set reward_keys" for k
    using that pd(4) [of k] by auto
  moreover have "dp_len ?rest = ?n"
  proof (cases "batch dp")
    case None
    have "wf_columns ?n d" using cols pd(3,4) by (auto simp: wf_columns_iff)
    moreover have "map_of d ''uid'' = Some us" using pd(4) [of "''uid''"] assms(2) by (simp add: reward_keys_def)
    ultimately show ?thesis using dp_len_column [of ?rest ?n "''uid''" us] None by simp
  qed (simp add: dp_len_def)
  ultimately show ?thesis using get g glen by (intro exI [of _ ?g] exI [of _ ?rest]) simp
qed


section \<open>The rows stay together\<close>

text \<open>Row \<open>i\<close> of the columns that are not tensors.\<close>

definition row_of :: "('r, 'o) dataproto \<Rightarrow> nat \<Rightarrow> string \<Rightarrow> 'o option" where
  "row_of dp i = (\<lambda>k. map_option (\<lambda>col. col ! i) (map_of (non_tensor_batch dp) k))"

lemma rows_of_repeat:
  assumes "wf_dataproto dp" and "i < dp_len dp * n"
  shows "row_of (with_rows (dp_len dp * n) (repeat_rows True n) (repeat_rows True n) dp) i = row_of dp (i div n)"
proof
  fix k
  show "row_of (with_rows (dp_len dp * n) (repeat_rows True n) (repeat_rows True n) dp) i k = row_of dp (i div n) k"
  proof (cases "map_of (non_tensor_batch dp) k")
    case (Some col)
    then have "length col = dp_len dp" using assms(1) by (auto simp: wf_dataproto_def wf_columns_iff)
    then show ?thesis using Some assms(2) by (simp add: row_of_def dp_simps map_of_dict_map repeat_rows_def nth_repeat_interleave)
  qed (simp add: row_of_def dp_simps map_of_dict_map)
qed

lemma rows_of_cyclic:
  assumes "wf_dataproto dp" and "i < dp_len dp" and "dp_len dp \<le> m"
  shows "row_of (with_rows m (cyclic m) (cyclic m) dp) i = row_of dp i"
proof
  fix k
  show "row_of (with_rows m (cyclic m) (cyclic m) dp) i k = row_of dp i k"
  proof (cases "map_of (non_tensor_batch dp) k")
    case (Some col)
    then have "length col = dp_len dp" using assms(1) by (auto simp: wf_dataproto_def wf_columns_iff)
    then show ?thesis using Some assms(2,3) by (simp add: row_of_def dp_simps map_of_dict_map cyclic_def)
  qed (simp add: row_of_def dp_simps map_of_dict_map)
qed

lemma string_column_strings: "string_column (map MStr xs) = Inr xs"
  by (induction xs) (auto simp: string_column_def)

lemma repeat_strings:
  assumes "length xs = m"
  shows "repeat_rows True n (map MStr xs) = map MStr (map (\<lambda>i. xs ! (i div n)) [0..<m * n])"
proof (rule nth_equalityI)
  fix i
  assume "i < length (repeat_rows True n (map MStr xs))"
  then have "i < m * n" using assms by (simp add: length_repeat_rows)
  then show "repeat_rows True n (map MStr xs) ! i = map MStr (map (\<lambda>i. xs ! (i div n)) [0..<m * n]) ! i"
    using assms by (simp add: repeat_rows_def nth_repeat_interleave less_mult_imp_div_less)
qed (use assms in \<open>simp add: length_repeat_rows\<close>)

section \<open>The core metrics\<close>

text \<open>Metrics by kind, size and suffix, the way the metrics of a prompt are named.\<close>

definition metrics_of :: "((string \<times> nat \<times> string) \<times> real option) list \<Rightarrow> real option pydict" where
  "metrics_of ms = map (\<lambda>((kind, n, suffix), x). (metric_name kind n suffix, x)) ms"

definition metric_parts_ok :: "string \<times> nat \<times> string \<Rightarrow> bool" where
  "metric_parts_ok p = (case p of (kind, n, suffix) \<Rightarrow>
     kind \<in> set [''mean'', ''std'', ''best'', ''worst'', ''maj''] \<and> suffix \<in> set ['''', ''/mean'', ''/std''])"

lemma metric_parts_okD:
  assumes "metric_parts_ok (kind, n, suffix)"
  shows "CHR ''@'' \<notin> set kind" and "suffix_ok suffix"
    and "(\<exists>pfx\<in>set [''mean'', ''maj'', ''best'']. starts_with pfx (metric_name kind n suffix)) \<longleftrightarrow> kind \<in> set [''mean'', ''maj'', ''best'']"
proof -
  have k: "kind \<in> set [''mean'', ''std'', ''best'', ''worst'', ''maj'']" and s: "suffix \<in> set ['''', ''/mean'', ''/std'']"
    using assms by (simp_all only: metric_parts_ok_def prod.case)
  show "CHR ''@'' \<notin> set kind" using k by (simp only: list.set insert_iff empty_iff) (elim disjE; simp)
  show "suffix_ok suffix" using s by (simp only: list.set insert_iff empty_iff) (elim disjE; simp add: suffix_ok_def)
  show "(\<exists>pfx\<in>set [''mean'', ''maj'', ''best'']. starts_with pfx (metric_name kind n suffix)) \<longleftrightarrow> kind \<in> set [''mean'', ''maj'', ''best'']"
    using k by (simp only: list.set insert_iff empty_iff) (elim disjE; simp add: starts_with_def metric_name_def)
qed

lemma Max_int: "ns \<noteq> [] \<Longrightarrow> Max (set (map int ns)) = int (Max (set ns))"
  by (simp add: mono_Max_commute [of int] mono_def)

lemma metric_sizes:
  assumes "\<forall>(p, x)\<in>set ms. metric_parts_ok p"
  shows "rmap (\<lambda>(name, _). metric_size name) (metrics_of ms) = Inr (map int (map (\<lambda>((_, m, _), _). m) ms))"
proof -
  let ?ns = "map (\<lambda>((_, m, _), _). m) ms"
  have "rmap (\<lambda>(name, _). metric_size name) (metrics_of ms) = Inr (map (\<lambda>((_, m, _), _). int m) ms)"
    unfolding metrics_of_def rmap_map
  proof (rule rmap_Inr)
    fix q
    assume q: "q \<in> set ms"
    obtain kind n suffix x where "q = ((kind, n, suffix), x)" by (metis surj_pair)
    moreover from this q assms have "metric_parts_ok (kind, n, suffix)" by blast
    ultimately show "(\<lambda>(name, _). metric_size name) ((\<lambda>((kind, n, suffix), x). (metric_name kind n suffix, x)) q)
        = Inr ((\<lambda>((_, m, _), _). int m) q)"
      using metric_size_name [of kind suffix n] metric_parts_okD(1,2) [of kind n suffix] by simp
  qed
  also have "map (\<lambda>((_, m, _), _). int m) ms = map int ?ns" by auto
  finally show "rmap (\<lambda>(name, _). metric_size name) (metrics_of ms) = Inr (map int ?ns)" .
qed

lemma is_core_iff:
  assumes "metric_parts_ok (kind, n, suffix)" and "n \<le> m"
  shows "is_core core_var (int m) var_name (metric_name kind n suffix)
    \<longleftrightarrow> var_name = core_var \<and> kind \<in> set [''mean'', ''maj'', ''best''] \<and> n = m"
proof -
  have "contains_text (''@'' @ nat_text m) (metric_name kind n suffix) \<longleftrightarrow> n = m"
    using metric_parts_okD [OF assms(1)] assms(2) by (intro contains_size)
  then show ?thesis using metric_parts_okD(3) [OF assms(1)] unfolding is_core_def int_text_def by auto
qed

text \<open>C20: The core metrics are the ones of the largest size: the code picks them by the substring \<open>@n\<close> of
  their name, where \<open>n\<close> is the largest size, and that substring never matches a smaller size (such as
  \<open>@1\<close> in \<open>@16\<close>); so exactly the mean, best and majority values of size \<open>n\<close> of the core variable
  get the core section, and all others the auxiliary one.\<close>

theorem core_metrics_have_largest_size:
  assumes "ms \<noteq> []" and "\<forall>(p, x)\<in>set ms. metric_parts_ok p"
  shows "named_metrics data_source core_var (var_name, metrics_of ms)
    = Inr (map (\<lambda>((kind, n, suffix), x).
        ((if var_name = core_var \<and> kind \<in> set [''mean'', ''maj'', ''best''] \<and> n = Max (set (map (\<lambda>((_, m, _), _). m) ms))
          then ''val-core'' else ''val-aux'') @ ''/'' @ data_source @ ''/'' @ var_name @ ''/'' @ metric_name kind n suffix, x)) ms)"
proof -
  let ?ns = "map (\<lambda>((_, m, _), _). m) ms" and ?N = "Max (set (map (\<lambda>((_, m, _), _). m) ms))"
  note sizes = metric_sizes [OF assms(2)]
  have core: "is_core core_var (int ?N) var_name (metric_name kind n suffix)
      \<longleftrightarrow> var_name = core_var \<and> kind \<in> set [''mean'', ''maj'', ''best''] \<and> n = ?N"
    if "((kind, n, suffix), x) \<in> set ms" for kind n suffix x
    using assms(2) that by (intro is_core_iff Max_ge) force+
  have N: "Max (set (map int ?ns)) = int ?N" by (rule Max_int) (simp add: assms(1))
  have ne: "metrics_of ms \<noteq> []" using assms(1) by (simp add: metrics_of_def)
  let ?sec = "\<lambda>core :: bool. if core then ''val-core'' else ''val-aux''"
  have "named_metrics data_source core_var (var_name, metrics_of ms)
      = Inr (map (\<lambda>(name, x). (?sec (is_core core_var (int ?N) var_name name) @ ''/'' @ data_source @ ''/'' @ var_name @ ''/'' @ name, x)) (metrics_of ms))"
    unfolding named_metrics_def prod.case sizes using ne by (simp only: N rbind.simps rcheck_def if_True not_False_eq_True simp_thms)
  also have "\<dots> = Inr (map (\<lambda>((kind, n, suffix), x). (?sec (var_name = core_var \<and> kind \<in> set [''mean'', ''maj'', ''best''] \<and> n = ?N)
        @ ''/'' @ data_source @ ''/'' @ var_name @ ''/'' @ metric_name kind n suffix, x)) ms)"
    unfolding metrics_of_def map_map
  proof (intro arg_cong [where f = Inr] map_cong refl)
    fix q
    assume q: "q \<in> set ms"
    obtain kind n suffix x where "q = ((kind, n, suffix), x)" by (metis surj_pair)
    then show "((\<lambda>(name, x). (?sec (is_core core_var (int ?N) var_name name) @ ''/'' @ data_source @ ''/'' @ var_name @ ''/'' @ name, x))
        \<circ> (\<lambda>((kind, n, suffix), x). (metric_name kind n suffix, x))) q
        = (\<lambda>((kind, n, suffix), x). (?sec (var_name = core_var \<and> kind \<in> set [''mean'', ''maj'', ''best''] \<and> n = ?N)
            @ ''/'' @ data_source @ ''/'' @ var_name @ ''/'' @ metric_name kind n suffix, x)) q"
      using core q by (simp only: o_apply prod.case)
  qed
  finally show ?thesis .
qed

theorem core_metrics_have_largest_size_witness:
  "named_metrics ''math'' ''acc'' (''acc'', [(''mean@16'', Some (1/2)), (''best@2/mean'', Some 1), (''best@16/mean'', Some 1), (''worst@16/std'', Some 0)])
    = Inr [(''val-core/math/acc/mean@16'', Some (1/2)), (''val-aux/math/acc/best@2/mean'', Some 1),
           (''val-core/math/acc/best@16/mean'', Some 1), (''val-aux/math/acc/worst@16/std'', Some 0)]"
proof -
  let ?ms = "[((''mean'', 16, ''''), Some (1/2)), ((''best'', 2, ''/mean''), Some 1), ((''best'', 16, ''/mean''), Some 1),
    ((''worst'', 16, ''/std''), Some 0)] :: ((string \<times> nat \<times> string) \<times> real option) list"
  have t: "nat_text 16 = ''16''" "nat_text 2 = ''2''" by code_simp+
  have "\<forall>(p, x)\<in>set ?ms. metric_parts_ok p" by (simp add: metric_parts_ok_def)
  then have "named_metrics ''math'' ''acc'' (''acc'', metrics_of ?ms)
    = Inr (map (\<lambda>((kind, n, suffix), x).
        ((if ''acc'' = ''acc'' \<and> kind \<in> set [''mean'', ''maj'', ''best''] \<and> n = Max (set (map (\<lambda>((_, m, _), _). m) ?ms))
          then ''val-core'' else ''val-aux'') @ ''/'' @ ''math'' @ ''/'' @ ''acc'' @ ''/'' @ metric_name kind n suffix, x)) ?ms)"
    by (intro core_metrics_have_largest_size) simp_all
  then show ?thesis by (simp add: metrics_of_def metric_name_def t)
qed

section \<open>Best and worst\<close>

lemma object_max_fold: "foldl object_max (Some a) (map Some ys) = Some (Max (insert a (set ys)))"
proof (induction ys arbitrary: a)
  case (Cons y ys)
  have "object_max (Some a) (Some y) = Some (max a y)" by (simp add: max_def)
  then show ?case using Cons [of "max a y"] by (cases "ys = []") (simp_all add: ac_simps)
qed simp

lemma object_min_fold: "foldl object_min (Some a) (map Some ys) = Some (Min (insert a (set ys)))"
proof (induction ys arbitrary: a)
  case (Cons y ys)
  have "object_min (Some a) (Some y) = Some (min a y)" by (simp add: min_def)
  then show ?case using Cons [of "min a y"] by (cases "ys = []") (simp_all add: ac_simps)
qed simp

lemma numbers_of: "rmap vval_number (map VNum xs) = Inr (map Some xs)"
  by (simp add: rmap_map) (intro rmap_Inr; simp)

lemma reduce_object_numbers:
  assumes "ys \<noteq> []"
  shows "reduce_object object_max (map VNum ys) = Inr (Some (Max (set ys)))"
    and "reduce_object object_min (map VNum ys) = Inr (Some (Min (set ys)))"
proof -
  obtain y zs where y: "ys = y # zs" using assms by (cases ys) auto
  show "reduce_object object_max (map VNum ys) = Inr (Some (Max (set ys)))"
    and "reduce_object object_min (map VNum ys) = Inr (Some (Min (set ys)))"
    using object_max_fold [of y zs] object_min_fold [of y zs] y
    by (simp_all only: reduce_object_def numbers_of) (simp_all add: rcheck_def)
qed

lemma nan_mean_numbers: "xs \<noteq> [] \<Longrightarrow> nan_mean (map Some xs) = Some (mean1 xs)"
  by (auto simp: nan_mean_def o_def)

lemma mean1_le: "xs \<noteq> [] \<Longrightarrow> (\<And>x. x \<in> set xs \<Longrightarrow> f x \<le> g x) \<Longrightarrow> mean1 (map f xs) \<le> mean1 (map g xs)"
  by (auto simp: mean1_def intro!: divide_right_mono sum_list_mono)

lemma mean1_const: "xs \<noteq> [] \<Longrightarrow> mean1 (map (\<lambda>_. c) xs) = c"
  by (simp add: mean1_def sum_list_const_mult [of _ "\<lambda>_. 1", simplified] sum_list_triv)

text \<open>C30: Best and worst of \<open>n\<close> are what they are called: for numeric values and bootstrap indices within
  range, the metrics exist, the averaged worst value is at most the averaged best one, and both lie between the
  smallest and the largest value of the prompt.\<close>

theorem worst_below_best:
  assumes "choice (length xs) n \<noteq> []"
    and "\<forall>idxs\<in>set (choice (length xs) n). idxs \<noteq> [] \<and> (\<forall>i\<in>set idxs. i < length xs)"
  shows "\<exists>ms b w. subset_metrics choice None (map VNum xs) n = Inr ms
    \<and> map_of ms (metric_name ''best'' n ''/mean'') = Some (Some b) \<and> map_of ms (metric_name ''worst'' n ''/mean'') = Some (Some w)
    \<and> Min (set xs) \<le> w \<and> w \<le> b \<and> b \<le> Max (set xs)"
proof -
  let ?c = "choice (length xs) n"
  let ?hi = "\<lambda>idxs. Max (set (select xs idxs))" and ?lo = "\<lambda>idxs. Min (set (select xs idxs))"
  have sel: "select (map VNum xs) idxs = map VNum (select xs idxs)" "select xs idxs \<noteq> []" "set (select xs idxs) \<subseteq> set xs"
    if "idxs \<in> set ?c" for idxs
    using that assms(2) by (auto simp: select_def)
  have rs: "rmap (\<lambda>idxs. reduce_object object_max (select (map VNum xs) idxs)) ?c = Inr (map Some (map ?hi ?c))"
    "rmap (\<lambda>idxs. reduce_object object_min (select (map VNum xs) idxs)) ?c = Inr (map Some (map ?lo ?c))"
    unfolding map_map by (auto intro!: rmap_Inr simp: sel(1) reduce_object_numbers [OF sel(2)])
  have boot: "bootstrap_metric choice (map VNum xs) n [reduce_object object_max, reduce_object object_min]
      = Inr [(Some (mean1 (map ?hi ?c)), nan_std (map Some (map ?hi ?c))), (Some (mean1 (map ?lo ?c)), nan_std (map Some (map ?lo ?c)))]"
    using assms(1) by (simp add: bootstrap_metric_def nan_mean_numbers rs del: map_map)
  have ms: "subset_metrics choice None (map VNum xs) n = Inr
      [(metric_name ''best'' n ''/mean'', Some (mean1 (map ?hi ?c))), (metric_name ''best'' n ''/std'', nan_std (map Some (map ?hi ?c))),
       (metric_name ''worst'' n ''/mean'', Some (mean1 (map ?lo ?c))), (metric_name ''worst'' n ''/std'', nan_std (map Some (map ?lo ?c)))]"
    by (simp add: subset_metrics_def boot del: map_map)
  have step: "Min (set xs) \<le> ?lo idxs" "?lo idxs \<le> ?hi idxs" "?hi idxs \<le> Max (set xs)" if "idxs \<in> set ?c" for idxs
  proof -
    from sel [OF that] have ne: "set (select xs idxs) \<noteq> {}" "set (select xs idxs) \<subseteq> set xs" by auto
    show "Min (set xs) \<le> ?lo idxs" "?hi idxs \<le> Max (set xs)" by (rule Min_antimono Max_mono; use ne in simp)+
    show "?lo idxs \<le> ?hi idxs" by (rule Min_le) (use ne in simp_all)
  qed
  have "Min (set xs) = mean1 (map (\<lambda>_. Min (set xs)) ?c)" using mean1_const [OF assms(1)] by simp
  also have "\<dots> \<le> mean1 (map ?lo ?c)" by (rule mean1_le [OF assms(1) step(1)])
  finally have lo: "Min (set xs) \<le> mean1 (map ?lo ?c)" .
  have "mean1 (map ?hi ?c) \<le> mean1 (map (\<lambda>_. Max (set xs)) ?c)" by (rule mean1_le [OF assms(1) step(3)])
  also have "\<dots> = Max (set xs)" by (rule mean1_const [OF assms(1)])
  finally have hi: "mean1 (map ?hi ?c) \<le> Max (set xs)" .
  have mid: "mean1 (map ?lo ?c) \<le> mean1 (map ?hi ?c)" by (rule mean1_le [OF assms(1) step(2)])
  have "metric_name ''best'' n ''/mean'' \<noteq> metric_name ''worst'' n ''/mean''"
    "metric_name ''best'' n ''/std'' \<noteq> metric_name ''worst'' n ''/mean''" by (simp_all add: metric_name_def)
  then show ?thesis using ms lo mid hi by (intro exI conjI) (auto simp: metric_name_def)
qed

theorem worst_below_best_witness:
  "\<exists>ms b w. subset_metrics (\<lambda>n k. [[0, 2], [1, 1]]) None (map VNum [1, 0, 1 / 2]) 2 = Inr ms
    \<and> map_of ms (metric_name ''best'' 2 ''/mean'') = Some (Some b) \<and> map_of ms (metric_name ''worst'' 2 ''/mean'') = Some (Some w)
    \<and> Min (set [1, 0, 1 / 2]) \<le> w \<and> w \<le> b \<and> b \<le> Max (set [1, 0, 1 / 2])"
  by (rule worst_below_best) auto

section \<open>Grouping the samples\<close>

definition dict_or :: "'v \<Rightarrow> 'v pydict \<Rightarrow> string \<Rightarrow> 'v" where
  "dict_or dflt d k = (case map_of d k of None \<Rightarrow> dflt | Some v \<Rightarrow> v)"

definition values_of :: "'v list pydict pydict pydict \<Rightarrow> string \<Rightarrow> string \<Rightarrow> string \<Rightarrow> 'v list" where
  "values_of d src uid var = dict_or [] (dict_or [] (dict_or [] d src) uid) var"

lemma dict_or_alter: "dict_or dflt (dict_alter dflt f d k) k' = (if k' = k then f (dict_or dflt d k) else dict_or dflt d k')"
  by (simp add: dict_or_def dict_alter_def map_of_dict_set)

lemma values_of_sample:
  "dict_wf s \<Longrightarrow> dict_or [] (foldl (\<lambda>vs (k, v). dict_alter [] (\<lambda>xs. xs @ [v]) vs k) vars s) var
     = dict_or [] vars var @ (case map_of s var of None \<Rightarrow> [] | Some v \<Rightarrow> [v])"
proof (induction s arbitrary: vars)
  case (Cons kv s)
  obtain k v where kv: "kv = (k, v)" by force
  have "dict_wf s" "map_of s k = None" using Cons.prems kv by (auto simp: dict_wf_def map_of_eq_None_iff)
  then show ?case using Cons.IH [of "dict_alter [] (\<lambda>xs. xs @ [v]) vars k"] kv by (simp add: dict_or_alter split: option.split)
qed simp

lemma values_of_add:
  "dict_wf s \<Longrightarrow> values_of (add_sample s d src uid) src' uid' var
     = values_of d src' uid' var @ (if src' = src \<and> uid' = uid then (case map_of s var of None \<Rightarrow> [] | Some v \<Rightarrow> [v]) else [])"
  by (simp add: values_of_def add_sample_def dict_or_alter values_of_sample)

definition columns_ok :: "nat \<Rightarrow> 'v list pydict \<Rightarrow> bool" where
  "columns_ok n infos \<longleftrightarrow> dict_wf infos \<and> (\<forall>(k, vals)\<in>set infos. length vals = n)"

lemma sample_at_column: "columns_ok n infos \<Longrightarrow> i < n \<Longrightarrow> sample_at infos i = Inr (dict_map (\<lambda>vals. vals ! i) infos)"
  unfolding sample_at_def by (intro dict_rmap_Inr) (auto simp: columns_ok_def rcheck_def)

lemma group_samples_values:
  assumes "columns_ok (length data_sources) infos" and "length sample_uids = length data_sources"
    and "map_of infos var = Some vals"
  shows "\<exists>d. group_samples data_sources sample_uids infos = Inr d
    \<and> (\<forall>src uid. values_of d src uid var
        = map ((!) vals) (filter (\<lambda>i. data_sources ! i = src \<and> sample_uids ! i = uid) [0..<length data_sources]))"
proof -
  let ?smp = "\<lambda>i. (data_sources ! i, sample_uids ! i, dict_map (\<lambda>vals. vals ! i) infos)"
  have "rmap (\<lambda>i. rbind (rcheck IndexError (i < length sample_uids)) (\<lambda>_.
                  rbind (sample_at infos i) (\<lambda>s. Inr (data_sources ! i, sample_uids ! i, s)))) [0..<length data_sources]
      = Inr (map ?smp [0..<length data_sources])"
    using assms(1,2) by (intro rmap_Inr) (simp add: sample_at_column rcheck_def)
  then have grp: "group_samples data_sources sample_uids infos
      = Inr (foldl (\<lambda>d (src, uid, s). add_sample s d src uid) [] (map ?smp [0..<length data_sources]))"
    by (simp add: group_samples_def)
  have "values_of (foldl (\<lambda>d (src, uid, s). add_sample s d src uid) [] (map ?smp is)) src uid var
      = map ((!) vals) (filter (\<lambda>i. data_sources ! i = src \<and> sample_uids ! i = uid) is)" for "is" src uid
  proof (induction "is" rule: rev_induct)
    case (snoc i "is")
    have "dict_wf (dict_map (\<lambda>vals. vals ! i) infos)" using assms(1) by (simp add: columns_ok_def)
    then show ?case using snoc assms(3) by (auto simp: values_of_add map_of_dict_map)
  qed (simp add: values_of_def dict_or_def)
  with grp show ?thesis by blast
qed

lemma rmap_fails: "x \<in> set xs \<Longrightarrow> f x = Inl e \<Longrightarrow> \<exists>e'. rmap f xs = Inl e'"
proof (induction xs)
  case (Cons y xs)
  show ?case
  proof (cases "f y")
    case (Inr b)
    then obtain e' where "rmap f xs = Inl e'" using Cons by auto
    then show ?thesis using Inr by simp
  qed simp
qed simp

lemma rmap_Inl: "rmap f xs = Inl e \<Longrightarrow> \<exists>x\<in>set xs. f x = Inl e"
proof (induction xs)
  case (Cons y xs)
  then show ?case by (cases "f y"; cases "rmap f xs") auto
qed simp

lemma dict_rmap_fails: "(k, v) \<in> set d \<Longrightarrow> f v = Inl e \<Longrightarrow> \<exists>e'. dict_rmap f d = Inl e'"
  unfolding dict_rmap_def by (rule rmap_fails [of "(k, v)" _ _ e]) simp_all

lemma dict_rmap_Inl: "dict_rmap f d = Inl e \<Longrightarrow> \<exists>k v. (k, v) \<in> set d \<and> f v = Inl e"
  unfolding dict_rmap_def by (drule rmap_Inl) (force simp: res_simps)

lemma values_of_Cons:
  assumes "values_of d src uid var = v # vs"
  shows "\<exists>uids vars. (src, uids) \<in> set d \<and> (uid, vars) \<in> set uids \<and> (var, v # vs) \<in> set vars"
  using assms by (auto simp: values_of_def dict_or_def split: option.splits dest!: map_of_SomeD)

lemma first_of_filter:
  assumes "i < n" and "P i" and "\<forall>j<i. \<not> P j"
  shows "filter P [0..<n] = i # filter P [Suc i..<n]"
proof -
  have "[0..<n] = [0..<i] @ i # [Suc i..<n]" using assms(1) upt_add_eq_append [of 0 i "n - i"] by (simp add: upt_conv_Cons)
  then show ?thesis using assms(2,3) by (simp add: filter_empty_conv)
qed

text \<open>A prediction that is missing stops the validation: if the first sample of a prompt has no prediction
  (\<open>None\<close>, which resolving the reward streams fills in for keys that only other samples have), the metrics
  of all samples are lost to an exception, although predictions are never averaged when they are strings.\<close>

theorem missing_prediction_fails:
  assumes "columns_ok (length data_sources) infos" and "length sample_uids = length data_sources"
    and "map_of infos ''pred'' = Some preds" and "i < length data_sources" and "preds ! i = VObj MNone"
    and "\<forall>j<i. \<not> (data_sources ! j = data_sources ! i \<and> sample_uids ! j = sample_uids ! i)"
  shows "\<exists>e. process_validation_metrics choice data_sources sample_uids infos = Inl e"
proof -
  let ?src = "data_sources ! i" and ?uid = "sample_uids ! i"
  obtain d where d: "group_samples data_sources sample_uids infos = Inr d"
      "values_of d ?src ?uid ''pred'' = map ((!) preds) (filter (\<lambda>j. data_sources ! j = ?src \<and> sample_uids ! j = ?uid) [0..<length data_sources])"
    using group_samples_values [OF assms(1-3)] by blast
  obtain vs where "values_of d ?src ?uid ''pred'' = VObj MNone # vs"
    using d(2) first_of_filter [of i "length data_sources" "\<lambda>j. data_sources ! j = ?src \<and> sample_uids ! j = ?uid"] assms(4-6) by auto
  then obtain uids vars where s: "(?src, uids) \<in> set d" "(?uid, vars) \<in> set uids" "(''pred'', VObj MNone # vs) \<in> set vars"
    using values_of_Cons by metis
  have fails: "var_metrics choice (map_of vars ''pred'') (VObj MNone # vs) = Inl TypeError"
    by (simp add: var_metrics_def)
  have "(''pred'', VObj MNone # vs) \<in> set (filter (\<lambda>(_, var_vals). var_vals \<noteq> [] \<and> \<not> is_text (hd var_vals)) vars)"
    using s(3) by simp
  from dict_rmap_fails [of _ _ _ "var_metrics choice (map_of vars ''pred'')", OF this fails] obtain e1 where e1: "prompt_metrics choice vars = Inl e1"
    unfolding prompt_metrics_def by blast
  from dict_rmap_fails [of _ _ _ "prompt_metrics choice", OF s(2) e1] obtain e2 where e2: "dict_rmap (prompt_metrics choice) uids = Inl e2" by blast
  from dict_rmap_fails [of _ _ _ "dict_rmap (prompt_metrics choice)", OF s(1) e2] obtain e3 where "dict_rmap (dict_rmap (prompt_metrics choice)) d = Inl e3" by blast
  then show ?thesis by (simp add: process_validation_metrics_def d(1))
qed

theorem missing_prediction_fails_witness:
  "\<exists>e. process_validation_metrics (\<lambda>n k. []) [''math'', ''math''] [''a'', ''b'']
     [(''reward'', [VNum 1, VNum 0]), (''pred'', [VObj (MStr ''4''), VObj MNone])] = Inl e"
  by (rule missing_prediction_fails [where i = 1 and preds = "[VObj (MStr ''4''), VObj MNone]"])
     (auto simp: columns_ok_def dict_wf_def)

section \<open>Merging\<close>

lemma sample_at_error: "sample_at infos i = Inl e \<Longrightarrow> e = IndexError"
  unfolding sample_at_def by (drule dict_rmap_Inl) (auto simp: res_simps)

lemma group_samples_error: "group_samples data_sources sample_uids infos = Inl e \<Longrightarrow> e = IndexError"
  by (auto simp: group_samples_def res_simps dest!: rmap_Inl sample_at_error)

text \<open>Merging two validations needs the same variables in both: if the first has a variable that the second,
  which is not empty, does not have, the lists are joined without filling the gap, and the metrics end in an
  \<open>IndexError\<close>.\<close>

theorem merge_needs_same_keys:
  assumes "map_of (val_infos a) k = Some xs" and "length xs = length (concat (val_sources a))"
    and "\<not> has_key (val_infos b) k" and "concat (val_sources b) \<noteq> []"
    and "length (val_uids a) = length (concat (val_sources a))" and "length (val_uids b) = length (concat (val_sources b))"
  shows "merge_validation_results choice (Some a) (Some b) = Inl IndexError"
proof -
  let ?infos = "merge_infos (val_infos a) (val_infos b)" and ?src = "concat (val_sources a @ val_sources b)"
    and ?uids = "val_uids a @ val_uids b" and ?n = "length (concat (val_sources a))"
  have k: "(k, xs) \<in> set ?infos"
    using assms(1,3) has_key_iff [of "val_infos b" k]
    by (auto simp: merge_infos_def image_iff split: option.split dest: map_of_SomeD intro!: bexI [of _ "(k, xs)"])
  have "rbind (rcheck IndexError (?n < length xs)) (\<lambda>_. Inr (xs ! ?n)) = Inl IndexError" using assms(2) by simp
  from dict_rmap_fails [of k xs ?infos "\<lambda>vals. rbind (rcheck IndexError (?n < length vals)) (\<lambda>_. Inr (vals ! ?n))", OF k this]
  obtain e1 where e1: "sample_at ?infos ?n = Inl e1" unfolding sample_at_def by blast
  have "?n \<in> set [0..<length ?src]" "?n < length ?uids" using assms(4-6) by auto
  then obtain e where "group_samples ?src ?uids ?infos = Inl e"
    using rmap_fails [of ?n "[0..<length ?src]" "\<lambda>i. rbind (rcheck IndexError (i < length ?uids)) (\<lambda>_.
       rbind (sample_at ?infos i) (\<lambda>s. Inr (?src ! i, ?uids ! i, s)))" e1] e1
    by (auto simp: group_samples_def)
  then have "group_samples ?src ?uids ?infos = Inl IndexError" using group_samples_error by metis
  then show ?thesis
    using assms(4) by (auto simp: merge_validation_results_def val_metrics_update_def process_validation_metrics_def)
qed

theorem merge_needs_same_keys_witness:
  "merge_validation_results choice
     (Some \<lparr>val_sources = [[''math'']], val_uids = [''a''], val_turns = [], val_infos = [(''reward'', [VNum 1]), (''acc'', [VNum 1])]\<rparr>)
     (Some \<lparr>val_sources = [[''code'']], val_uids = [''b''], val_turns = [], val_infos = [(''reward'', [VNum 0])]\<rparr>) = Inl IndexError"
  by (rule merge_needs_same_keys [where k = "''acc''" and xs = "[VNum 1]"]) (simp_all add: has_key_def)

section \<open>Collecting the batches\<close>

definition batch_values :: "string \<Rightarrow> real list \<Rightarrow> 'img mobj list pydict \<Rightarrow> 'img vval list" where
  "batch_values k scores extra =
     (if k = ''reward'' then map VNum scores else [])
     @ (case map_of extra k of None \<Rightarrow> [] | Some col \<Rightarrow>
          (case validation_metric_values k (MArray col) of None \<Rightarrow> [] | Some vs \<Rightarrow> vs))"

lemma dict_or_extend: "dict_or [] (extend_list d k xs) k' = (if k' = k then dict_or [] d k @ xs else dict_or [] d k')"
  by (simp add: extend_list_def dict_or_alter)

lemma extra_values:
  "dict_wf extra \<Longrightarrow>
   dict_or [] (foldl (\<lambda>d (key, col). case validation_metric_values key (MArray col) of None \<Rightarrow> d | Some vs \<Rightarrow> extend_list d key vs) infos extra) k
   = dict_or [] infos k @ (case map_of extra k of None \<Rightarrow> [] | Some col \<Rightarrow>
          (case validation_metric_values k (MArray col) of None \<Rightarrow> [] | Some vs \<Rightarrow> vs))"
proof (induction extra arbitrary: infos)
  case (Cons kv extra)
  obtain a col where kv: "kv = (a, col)" by force
  have "dict_wf extra" "map_of extra a = None" using Cons.prems kv by (auto simp: dict_wf_def map_of_eq_None_iff)
  then show ?case
    using Cons.IH kv by (cases "validation_metric_values a (MArray col)") (auto simp: dict_or_extend split: option.split)
qed simp

lemma scored_batch_values:
  assumes "extract_reward dp = Inr (t, extra)" and "dict_wf extra"
  shows "\<exists>st'. process_scored_validation_batch r dp st = Inr st'
    \<and> num_scored_samples st' = num_scored_samples st + length t
    \<and> (\<forall>k. dict_or [] (val_infos st') k = dict_or [] (val_infos st) k @ batch_values k (row_sums t) extra)"
  using assms
  by (auto simp: process_scored_validation_batch_def Let_def extra_values dict_or_extend batch_values_def row_sums_def)

text \<open>A variable that only some batches report stops the validation: if a reward function returns a number
  under a key for the samples of the first batch and not for those of the second (as with two data sources
  whose reward functions differ), the check of the lengths after the last batch raises.\<close>

theorem keys_must_be_in_every_batch:
  assumes "generate_validation_batch env b1 = Inr r1" and "generate_validation_batch env b2 = Inr r2"
    and "resolve_record tables r1 = Inr o1" and "resolve_record tables r2 = Inr o2"
    and "extract_reward o1 = Inr (t1, e1)" and "extract_reward o2 = Inr (t2, e2)"
    and "dict_wf e1" and "dict_wf e2" and "k \<noteq> ''reward''"
    and "map_of e1 k = Some col" and "validation_metric_values k (MArray col) = Some vs" and "length vs = length t1"
    and "map_of e2 k = None" and "t1 \<noteq> []" and "t2 \<noteq> []"
  shows "collect_validation env tables [b1, b2] = Inl AssertionError"
proof -
  obtain s1 where s1: "process_scored_validation_batch r1 o1 val_start = Inr s1"
      "num_scored_samples s1 = length t1"
      "\<And>k. dict_or [] (val_infos s1) k = batch_values k (row_sums t1) e1"
    using scored_batch_values [OF assms(5,7), of r1 val_start] by (auto simp: val_start_def dict_or_def)
  obtain s2 where s2: "process_scored_validation_batch r2 o2 s1 = Inr s2"
      "num_scored_samples s2 = num_scored_samples s1 + length t2"
      "\<And>k. dict_or [] (val_infos s2) k = dict_or [] (val_infos s1) k @ batch_values k (row_sums t2) e2"
    using scored_batch_values [OF assms(6,8), of r2 s1] by blast
  have "dict_or [] (val_infos s2) k = vs" "num_scored_samples s2 = length t1 + length t2"
    using s1(2,3) s2(2,3) assms(9-11,13) by (simp_all add: batch_values_def)
  moreover from this assms(12,14) have "(k, vs) \<in> set (val_infos s2)"
    by (auto simp: dict_or_def split: option.splits dest: map_of_SomeD)
  ultimately have "\<not> (\<forall>(k, vs)\<in>set (val_infos s2). vs = [] \<or> length vs = num_scored_samples s2)"
    using assms(12,14,15) by force
  then show ?thesis
    using assms(1-4) s1(1) s2(1) by (simp add: collect_validation_def rassert_def)
qed

text \<open>Two batches of one row; only prompt \<open>a\<close> is scored with an accuracy.\<close>

definition mixed_answer :: "(cell, nat mobj) dataproto \<Rightarrow> nat generated res" where
  "mixed_answer p =
     Inr \<lparr>gen_batch =
           (if row_of p 0 ''uid'' = Some (MStr ''a'')
            then \<lparr>batch = Some \<lparr>batch_size = 1, tensors = [(''rm_scores'', [RealRow [1]])]\<rparr>,
                  non_tensor_batch = [(''acc'', [MInt 1])], meta_info = [(''reward_extra_keys'', PList [PStr ''acc''])]\<rparr>
            else \<lparr>batch = Some \<lparr>batch_size = 1, tensors = [(''rm_scores'', [RealRow [0]])]\<rparr>,
                  non_tensor_batch = [], meta_info = [(''reward_extra_keys'', PList [])]\<rparr>),
         gen_requests = None, gen_teacher_handles = [], gen_reward_handles = []\<rparr>"

definition mixed_env :: "nat val_env" where
  "mixed_env = \<lparr>val_n = 1, val_num_workers = 1, val_meta = [], fresh_uids = (\<lambda>n. []), val_generate = mixed_answer,
     colocate_reward = None, objects_equal = (\<lambda>xs ys. xs = ys)\<rparr>"

definition mixed_batch :: "string \<Rightarrow> (cell, nat mobj) dataproto" where
  "mixed_batch uid = \<lparr>batch = None, non_tensor_batch = [(''uid'', [MStr uid])], meta_info = []\<rparr>"

definition mixed_record :: "string \<Rightarrow> nat val_record" where
  "mixed_record uid = \<lparr>vr_uids = [uid], vr_turns = None, vr_sources = [''unknown''],
     vr_reward_data = Some (gen_batch (projr (mixed_answer (mixed_batch uid)))), vr_handles = [], vr_indices = None\<rparr>"

theorem keys_must_be_in_every_batch_witness:
  "collect_validation mixed_env [] [mixed_batch ''a'', mixed_batch ''b''] = Inl AssertionError"
proof (rule keys_must_be_in_every_batch)
  show "generate_validation_batch mixed_env (mixed_batch ''a'') = Inr (mixed_record ''a'')" by code_simp
  show "generate_validation_batch mixed_env (mixed_batch ''b'') = Inr (mixed_record ''b'')" by code_simp
  show "resolve_record [] (mixed_record ''a'') = Inr (gen_batch (projr (mixed_answer (mixed_batch ''a''))))"
    "resolve_record [] (mixed_record ''b'') = Inr (gen_batch (projr (mixed_answer (mixed_batch ''b''))))"
    by (simp_all add: resolve_record_def mixed_record_def)
  show "extract_reward (gen_batch (projr (mixed_answer (mixed_batch ''a'')))) = Inr ([[1]], [(''acc'', [MInt 1])])"
    "extract_reward (gen_batch (projr (mixed_answer (mixed_batch ''b'')))) = Inr ([[0]], [])"
    by code_simp+
  show "validation_metric_values ''acc'' (MArray [MInt 1]) = Some ([VNum 1] :: nat vval list)"
    by (simp add: validation_metric_values_def Let_def)
qed (simp_all add: dict_wf_def)

end
