(* ===== verification/ValidationRuns.thy ===== *)
theory ValidationRuns
  imports ValLaws WorkerLaws
begin

text \<open>
  Validation with the repository's own generation: the manager cuts a padded batch into chunks, its workers run an
  agent loop for every sample of their chunk and assemble the outputs, and the results are joined and unpadded.
  Shown: every score that is recorded is the score of an agent loop that ran on the test row whose id
  and data source are recorded beside it.
\<close>

section \<open>Columns of joined batches\<close>

lemma batch_column_iff: "batch_column dp k = Inr v \<longleftrightarrow> (\<exists>td. batch dp = Some td \<and> map_of (tensors td) k = Some v)"
  by (auto simp: batch_column_def dict_get_def split: option.splits)

lemma cat_batches_columns:
  assumes "cat_batches bs = Inr b" and "bs \<noteq> []" and "\<forall>x\<in>set bs. x \<noteq> None"
  shows "\<exists>td. b = Some td \<and> batch_size td = sum_list (map (batch_size \<circ> the) bs)
    \<and> (\<forall>k v. map_of (tensors td) k = Some v \<longrightarrow>
        (\<forall>x\<in>set bs. map_of (tensors (the x)) k \<noteq> None) \<and> v = concat (map (\<lambda>x. the (map_of (tensors (the x)) k)) bs))"
proof -
  have "rmap (\<lambda>b. case b of None \<Rightarrow> Inl TypeError | Some td \<Rightarrow> Inr td) bs = Inr (map the bs)"
    using assms(3) by (intro rmap_Inr) auto
  with assms obtain td where td: "cat_tensordicts (map the bs) = Inr td" "b = Some td"
    by (cases bs) (auto simp: cat_batches_def res_simps split: option.splits)
  let ?keys = "map fst (tensors (hd (map the bs)))"
  have td': "td = \<lparr>batch_size = sum_list (map batch_size (map the bs)),
       tensors = map (\<lambda>k. (k, concat (map (\<lambda>td. the (map_of (tensors td) k)) (map the bs)))) ?keys\<rparr>"
    and keys: "\<forall>td\<in>set (map the bs). set (map fst (tensors td)) = set ?keys"
    using td(1) by (simp_all only: cat_tensordicts_def Let_def) (auto simp: res_simps simp del: set_map map_map)
  have "(\<forall>x\<in>set bs. map_of (tensors (the x)) k \<noteq> None) \<and> v = concat (map (\<lambda>x. the (map_of (tensors (the x)) k)) bs)"
    if "map_of (tensors td) k = Some v" for k v
  proof -
    from map_of_SomeD [OF that] have "k \<in> set ?keys" "v = concat (map (\<lambda>x. the (map_of (tensors (the x)) k)) bs)"
      unfolding td' by (auto simp: comp_def)
    moreover have "map_of (tensors (the x)) k \<noteq> None" if "x \<in> set bs" for x
      using keys that \<open>k \<in> set ?keys\<close> by (metis image_eqI list.set_map map_of_eq_None_iff)
    ultimately show ?thesis by blast
  qed
  moreover have "batch_size td = sum_list (map (batch_size \<circ> the) bs)" by (simp add: td' comp_def)
  ultimately show ?thesis using td(2) by blast
qed

lemma concat_dataproto_batch:
  "concat_dataproto ds = Inr q \<Longrightarrow> cat_batches (map batch ds) = Inr (batch q)"
  by (auto simp: concat_dataproto_def dataproto_new_def Let_def res_simps)

lemma unpad_columns:
  assumes "unpad_dataproto q k = Inr out" and "batch q = Some td" and "batch_size td = m + k"
    and "batch_column out key = Inr w"
  shows "\<exists>v. batch_column q key = Inr v \<and> (length v = m + k \<longrightarrow> w = take m v)"
proof (cases "k = 0")
  case True
  then show ?thesis using assms by (auto simp: unpad_dataproto_def)
next
  case False
  have "batch out = Some \<lparr>batch_size = m, tensors = dict_map (\<lambda>rows. select rows [0..<m]) (tensors td)\<rparr>"
    using assms(1,2,3) False slice_indices_drop_last [of k "m + k"]
    by (auto simp: unpad_dataproto_def slice_dataproto_def slice_tensordict_def dataproto_new_def Let_def res_simps)
  then show ?thesis using assms(2,4)
    by (auto simp: batch_column_iff map_of_dict_map select_upt_slice pyslice_def)
qed

lemma nth_concat_even:
  assumes "\<forall>v\<in>set vs. length v = m" and "i < length vs * m"
  shows "concat vs ! i = vs ! (i div m) ! (i mod m)"
  using assms
proof (induction vs arbitrary: i)
  case (Cons v vs)
  have m: "0 < m" using Cons.prems(2) by (cases m) auto
  show ?case
  proof (cases "i < m")
    case True
    then show ?thesis using Cons.prems by (simp add: nth_append)
  next
    case False
    then obtain j where j: "i = m + j" by (metis le_Suc_ex not_less)
    have "concat vs ! j = vs ! (j div m) ! (j mod m)" using Cons j by (intro Cons.IH) auto
    then show ?thesis using Cons.prems j m by (simp add: nth_append)
  qed
qed simp

section \<open>The scores of a worker\<close>

lemma cat_rows_length: "cat_rows shape cols = Inr cs \<Longrightarrow> length cs = length cols"
  by (auto simp: cat_rows_def Let_def res_simps)

lemma sum_list_single: "i < n \<Longrightarrow> sum_list ((replicate n 0)[i := s]) = (s :: real)"
proof (induction n arbitrary: i)
  case (Suc n)
  then show ?case by (cases i) (simp_all add: sum_list_replicate)
qed simp

lemma reward_row_sum: "reward_row width pos s = Inr row \<Longrightarrow> sum_list row = s"
proof -
  assume "reward_row width pos s = Inr row"
  then obtain i where i: "py_index width pos = Inr i" "row = score_row width i s"
    by (auto simp: reward_row_def res_simps)
  then have "i < width" by (auto simp: py_index_def split: if_splits)
  then show ?thesis by (simp add: i(2) score_row_def sum_list_single)
qed

text \<open>The scores of a tensor dictionary: when it has them, there is a row of scores for each of its \<open>n\<close> samples,
  and the sum of row \<open>i\<close> satisfies \<open>Q i\<close>.\<close>

definition row_scores :: "nat \<Rightarrow> (nat \<Rightarrow> real \<Rightarrow> bool) \<Rightarrow> cell tensordict \<Rightarrow> bool" where
  "row_scores n Q td \<longleftrightarrow> batch_size td = n
     \<and> (\<forall>rows. map_of (tensors td) ''rm_scores'' = Some rows \<longrightarrow> length rows = n
         \<and> (\<forall>i<n. \<exists>row. rows ! i = RealRow row \<and> Q i (sum_list row)))"

lemma row_scores_mono: "row_scores n Q td \<Longrightarrow> (\<And>i s. i < n \<Longrightarrow> Q i s \<Longrightarrow> R i s) \<Longrightarrow> row_scores n R td"
  unfolding row_scores_def by metis

lemma assemble_batch:
  assumes "assemble cfg iter_set cols ams rms scores turns mm metrics extra nt = Inr r"
    and "map_of cols ''rm_scores'' = None" and "length rms = length turns" "length ams = length turns" "length scores = length turns"
  shows "\<exists>td. batch r = Some td \<and> row_scores (length turns) (\<lambda>j s. scores ! j = Some s) td"
proof -
  from assms(1) obtain td td' where td: "tensordict_new cols (length turns) = Inr td" "batch r = Some td'"
      "(case reward_scores scores of None \<Rightarrow> Inr td
        | Some ss \<Rightarrow> rbind (rmap (\<lambda>(row, am, s). reward_row (length row) (last_position (pc_prompt_length cfg) am) s) (zip rms (zip ams ss)))
            (\<lambda>rows. Inr (td\<lparr>tensors := dict_set (tensors td) ''rm_scores'' (map RealRow rows)\<rparr>))) = Inr td'"
    by (auto simp: assemble_def Let_def dataproto_new_def res_simps)
  have base: "batch_size td = length turns" "tensors td = cols"
    using td(1) by (auto simp: tensordict_new_def res_simps)
  show ?thesis
  proof (cases "reward_scores scores")
    case None
    then show ?thesis using td(2,3) base assms(2) by (auto simp: row_scores_def)
  next
    case (Some ss)
    then have ss: "ss = map the scores" "None \<notin> set scores" by (auto simp: reward_scores_def split: if_splits)
    obtain rows where rows: "rmap (\<lambda>(row, am, s). reward_row (length row) (last_position (pc_prompt_length cfg) am) s)
          (zip rms (zip ams ss)) = Inr rows" "td' = td\<lparr>tensors := dict_set (tensors td) ''rm_scores'' (map RealRow rows)\<rparr>"
      using td(3) Some by (auto simp: res_simps)
    note rr = rmap_nth [OF rows(1)]
    have len: "length rows = length turns" using rmap_length [OF rows(1)] assms(3-5) ss(1) by simp
    have "\<exists>s. scores ! j = Some s \<and> sum_list (rows ! j) = s" if "j < length turns" for j
    proof -
      have "reward_row (length (rms ! j)) (last_position (pc_prompt_length cfg) (ams ! j)) (the (scores ! j)) = Inr (rows ! j)"
        using rr [of j] that assms(3-5) ss(1) by simp
      from reward_row_sum [OF this] have sum: "sum_list (rows ! j) = the (scores ! j)" .
      have "scores ! j \<noteq> None" using ss(2) that assms(5) nth_mem [of j scores] by (intro notI) simp
      with sum show ?thesis by auto
    qed
    then have "\<forall>j<length turns. \<exists>row. map RealRow rows ! j = RealRow row \<and> scores ! j = Some (sum_list row)"
      using len by simp
    moreover have "map_of (tensors td') ''rm_scores'' = Some (map RealRow rows)" by (simp add: rows(2) map_of_dict_set)
    moreover have "batch_size td' = length turns" by (simp add: rows(2) base(1))
    ultimately show ?thesis using td(2) len by (simp add: row_scores_def)
  qed
qed

lemma postprocess_batch:
  assumes "postprocess_padded cfg iter_set inputs nt = Inr r"
  shows "\<exists>td. batch r = Some td \<and> row_scores (length inputs) (\<lambda>j s. map po_reward_score inputs ! j = Some s) td"
proof -
  obtain cols ams rms where a: "assemble cfg iter_set cols ams rms (map po_reward_score inputs) (map po_num_turns inputs)
        (map po_multi_modal_inputs inputs) (map po_metrics inputs) (map po_extra_fields inputs) nt = Inr r"
      "map_of cols ''rm_scores'' = None"
      "cat_rows row_shape (map (Some \<circ> po_attention_mask) inputs) = Inr ams" "cat_rows row_shape (map (Some \<circ> po_response_mask) inputs) = Inr rms"
    using assms unfolding postprocess_padded_def rbind_eq_Inr
    by (elim exE conjE) (auto simp: res_simps map_add_def split: if_splits)
  show ?thesis
    using assemble_batch [OF a(1,2)] cat_rows_length [OF a(3)] cat_rows_length [OF a(4)] by simp
qed

text \<open>The agent loop of a validation worker ran on the columns \<open>row\<close> of a sample and was scored with \<open>s\<close>. The loop is
  the one that the sample names, or the default; that name and the sampling flag are taken out of what the loop gets.\<close>

definition scored_run :: "'img loop_worker \<Rightarrow> (string \<Rightarrow> 'img mobj option) \<Rightarrow> real \<Rightarrow> bool" where
  "scored_run lw row s \<longleftrightarrow>
     (\<exists>params ctx kwargs run.
        run_agent_loop lw params True (case row ''agent_name'' of None \<Rightarrow> MStr (lw_default_agent_loop lw) | Some v \<Rightarrow> v)
          ctx False False kwargs = Inr run
        \<and> po_reward_score (sr_output run) = Some s
        \<and> (\<forall>k. k \<noteq> ''agent_name'' \<and> k \<noteq> ''__do_sample__'' \<longrightarrow> map_of kwargs k = row k))"

definition no_reward_stream :: "'img loop_worker \<Rightarrow> bool" where
  "no_reward_stream lw \<longleftrightarrow> \<not> should_stream_validation_rewards True (pc_reward_workers (lw_pad lw)) (lw_reward_streaming lw)"

lemma worker_scores:
  assumes "worker_generate_sequences lw streams p = Inr b" and "wf_dataproto p" and "batch_validate (meta_info p)"
    and "no_reward_stream lw"
  shows "wb_reward_stream b = None
    \<and> (\<exists>td. batch (wb_batch b) = Some td \<and> row_scores (dp_len p) (\<lambda>j. scored_run lw (row_of p j)) td)"
proof -
  let ?n = "dp_len p" and ?nt = "with_agent_name (lw_default_agent_loop lw) (dp_len p) (non_tensor_batch p)"
  have modes: "teacher_stream_mode lw True g n = Inr None" "reward_stream_mode lw True n = Inr None" for g n
    using assms(4) by (simp_all add: teacher_stream_mode_def should_stream_teacher_logprobs_def reward_stream_mode_def no_reward_stream_def)
  obtain run t r ti ri where w: "run_samples lw p = Inr run" "finish_batch lw p run t r ti ri = Inr b"
    using assms(1) unfolding worker_generate_sequences_def rbind_eq_Inr by (metis (no_types, lifting) case_prod_conv prod.exhaust)
  obtain contexts where c: "sample_contexts lw True (sample_index ?n ?nt) (map (sample_kwargs_at ?nt) [0..<?n]) = Inr contexts"
      "rmap (run_sample lw True False False ?nt) (zip [0..<?n] contexts) = Inr (br_runs run)"
      "br_teacher_mode run = None" "br_reward_mode run = None"
    using w(1) assms(3) by (auto simp: run_samples_def Let_def modes res_simps)
  have "map_of ?nt ''index'' = map_of (non_tensor_batch p) ''index''"
    by (simp add: with_agent_name_def map_of_dict_set)
  then have "length (sample_index ?n ?nt) = ?n"
    using wf_column_length [OF assms(2), of "''index''"] by (auto simp: sample_index_def split: option.splits)
  then have contexts: "length contexts = ?n" using sample_contexts_length [OF c(1)] by simp
  let ?outputs = "map sr_output (br_runs run)"
  have fin: "postprocess_padded (lw_pad lw) (lw_iter_set lw) ?outputs (Some ?nt) = Inr (wb_batch b)" "wb_reward_stream b = None"
    using w(2) c(3,4) by (auto simp: finish_batch_def res_simps)
  have len: "length (br_runs run) = ?n" using rmap_length [OF c(2)] contexts by simp
  have ran: "scored_run lw (row_of p j) s" if "j < ?n" "po_reward_score (?outputs ! j) = Some s" for j s
  proof -
    let ?kwargs = "dict_del (sample_kwargs_at ?nt j) ''agent_name''"
    have "run_sample lw True False False ?nt (j, contexts ! j) = Inr (br_runs run ! j)"
      using rmap_nth [OF c(2), of j] that(1) contexts by simp
    moreover have "map_of (sample_kwargs_at ?nt j) ''agent_name''
        = Some (case row_of p j ''agent_name'' of None \<Rightarrow> MStr (lw_default_agent_loop lw) | Some v \<Rightarrow> v)"
      using that(1) by (auto simp: row_of_def sample_kwargs_at_def map_of_dict_del map_of_dict_map with_agent_name_def
          map_of_dict_set has_key_iff split: option.splits)
    ultimately obtain params ctx where "run_agent_loop lw params True
        (case row_of p j ''agent_name'' of None \<Rightarrow> MStr (lw_default_agent_loop lw) | Some v \<Rightarrow> v)
        ctx False False ?kwargs = Inr (br_runs run ! j)"
      by (auto simp: run_sample_def Let_def)
    moreover have "map_of ?kwargs k = row_of p j k" if "k \<noteq> ''agent_name''" "k \<noteq> ''__do_sample__''" for k
      using that by (simp add: row_of_def sample_kwargs_at_def map_of_dict_del map_of_dict_map with_agent_name_def map_of_dict_set)
    moreover have "po_reward_score (sr_output (br_runs run ! j)) = Some s" using that len by simp
    ultimately show ?thesis unfolding scored_run_def by blast
  qed
  obtain td where "batch (wb_batch b) = Some td" "row_scores ?n (\<lambda>j s. map po_reward_score ?outputs ! j = Some s) td"
    using postprocess_batch [OF fin(1)] len by auto
  moreover have "row_scores ?n (\<lambda>j. scored_run lw (row_of p j)) td"
    using calculation(2) by (rule row_scores_mono) (use ran len in simp)
  ultimately show ?thesis using fin(2) by blast
qed

section \<open>Through the manager\<close>

lemma row_of_part:
  assumes "wf_dataproto p" and "dp_len p = m * c" and "i < c" and "j < m"
  shows "row_of (part c m i p) j = row_of p (i * m + j)"
proof
  fix k
  show "row_of (part c m i p) j k = row_of p (i * m + j) k"
  proof (cases "map_of (non_tensor_batch p) k")
    case (Some v)
    then have v: "length v = m * c" using wf_column_length [OF assms(1)] assms(2) by simp
    let ?vs = "map (\<lambda>i. take_blocks (replicate c m) v ! i) [0..<c]"
    have pos: "i * m + j < c * m"
    proof -
      have "i * m + j < Suc i * m" using assms(4) by simp
      also have "\<dots> \<le> c * m" using assms(3) by (intro mult_le_mono1) simp
      finally show ?thesis .
    qed
    have "concat ?vs ! (i * m + j) = ?vs ! ((i * m + j) div m) ! ((i * m + j) mod m)"
      using v pos by (intro nth_concat_even) (auto simp: length_even_block)
    then have "v ! (i * m + j) = take_blocks (replicate c m) v ! i ! j"
      using assms(3,4) blocks_concat [OF v] by simp
    then show ?thesis using Some by (simp add: row_of_def part_def dp_simps map_of_dict_map)
  qed (simp add: row_of_def part_def dp_simps map_of_dict_map)
qed

lemma batch_add_index_column: "batch (add_index_column k present dp) = batch dp"
  by (simp add: add_index_column_def)

lemma part_dataproto:
  assumes wf: "wf_dataproto p" and len: "dp_len p = m * c" "i < c" and p: "non_tensor_batch p \<noteq> []"
  shows "wf_dataproto (part c m i p)" and "dp_len (part c m i p) = m"
proof -
  have block: "length (take_blocks (replicate c m) v ! i) = m" if "length v = dp_len p" for v :: "'x list"
    using that len by (simp add: length_even_block)
  show "wf_dataproto (part c m i p)" unfolding part_def by (rule wf_with_rows [OF wf]) (use block p in auto)
  show "dp_len (part c m i p) = m" unfolding part_def by (rule dp_len_with_rows [OF wf]) (use block p in auto)
qed

lemma joined_scores:
  assumes cat: "concat_dataproto ds = Inr q" and "ds \<noteq> []"
    and ds: "\<And>i. i < length ds \<Longrightarrow> \<exists>td. batch (ds ! i) = Some td \<and> row_scores m (\<lambda>j. Q (i * m + j)) td"
  shows "\<exists>td. batch q = Some td \<and> row_scores (length ds * m) Q td"
proof -
  let ?tds = "map (\<lambda>d. the (batch d)) ds" and ?c = "length ds"
  have some: "\<forall>x\<in>set (map batch ds). x \<noteq> None" using ds by (fastforce simp: in_set_conv_nth)
  obtain td where td: "batch q = Some td" "batch_size td = sum_list (map batch_size ?tds)"
      "\<And>v. map_of (tensors td) ''rm_scores'' = Some v \<Longrightarrow> (\<forall>x\<in>set ?tds. map_of (tensors x) ''rm_scores'' \<noteq> None)
        \<and> v = concat (map (\<lambda>x. the (map_of (tensors x) ''rm_scores'')) ?tds)"
    using cat_batches_columns [OF concat_dataproto_batch [OF cat] _ some] assms(2) by (auto simp: comp_def)
  have each: "row_scores m (\<lambda>j. Q (i * m + j)) (?tds ! i)" if "i < ?c" for i using ds [OF that] that by auto
  have "map batch_size ?tds = replicate ?c m" using each by (intro nth_equalityI) (simp_all add: row_scores_def)
  then have size: "batch_size td = ?c * m" using td(2) by (simp add: sum_list_replicate)
  have "length rows = ?c * m \<and> (\<forall>i<?c * m. \<exists>row. rows ! i = RealRow row \<and> Q i (sum_list row))"
    if rows: "map_of (tensors td) ''rm_scores'' = Some rows" for rows
  proof -
    let ?cols = "map (\<lambda>x. the (map_of (tensors x) ''rm_scores'')) ?tds"
    have rc: "rows = concat ?cols" using td(3) [OF rows] by simp
    have part: "length (?cols ! i) = m \<and> (\<forall>j<m. \<exists>row. ?cols ! i ! j = RealRow row \<and> Q (i * m + j) (sum_list row))" if "i < ?c" for i
    proof -
      have "map_of (tensors (?tds ! i)) ''rm_scores'' \<noteq> None" using td(3) [OF rows] that nth_mem [of i ?tds] by simp
      then show ?thesis using each [OF that] that by (auto simp: row_scores_def)
    qed
    then have "map length ?cols = replicate ?c m" by (intro nth_equalityI) simp_all
    then have "length rows = ?c * m" unfolding rc length_concat by (simp add: sum_list_replicate del: map_map)
    moreover have "\<exists>row. rows ! i = RealRow row \<and> Q i (sum_list row)" if "i < ?c * m" for i
    proof -
      have i: "i div m < ?c" "i mod m < m"
        using that by (simp_all add: less_mult_imp_div_less) (cases m; simp)
      have "rows ! i = ?cols ! (i div m) ! (i mod m)"
        unfolding rc using part that by (intro nth_concat_even) (auto simp: in_set_conv_nth)
      then show ?thesis using part [OF i(1)] i(2) by (metis div_mult_mod_eq)
    qed
    ultimately show ?thesis by blast
  qed
  then show ?thesis using td(1) size by (auto simp: row_scores_def)
qed

lemma manager_scores:
  fixes ws :: "('img loop_worker \<times> ('img batch_run \<Rightarrow> ((padded_pair \<times> padded_pair option) option list res
        \<times> 'img mobj reward_result option list res) \<times> string \<times> string)) list"
  assumes "manager_generate_sequences chunk_sizes auto (map (\<lambda>(lw, streams). worker_generate_sequences lw streams) ws) p = Inr g"
    and wf: "wf_dataproto p" and p: "batch p = None" "dp_len p = m * length ws" "ws \<noteq> []" "non_tensor_batch p \<noteq> []"
    and val: "batch_validate (meta_info p)" and ns: "\<forall>(lw, _)\<in>set ws. no_reward_stream lw"
  shows "gen_reward_handles g = [] \<and> (\<exists>td. batch (gen_batch g) = Some td
    \<and> row_scores (dp_len p) (\<lambda>i s. \<exists>(lw, _)\<in>set ws. scored_run lw (row_of p i) s) td)"
proof -
  let ?c = "length ws" and ?w = "\<lambda>(lw, streams). worker_generate_sequences lw streams"
  let ?Q = "\<lambda>i s. \<exists>(lw, _)\<in>set ws. scored_run lw (row_of p i) s"
  let ?chunks = "map (\<lambda>i. part ?c m i p) [0..<?c]"
  have chunk: "chunk_dataproto chunk_sizes auto ?c p = Inr ?chunks"
    by (rule chunk_even [OF wf p(2)]) (use p(1,3) in simp_all)
  obtain outputs joined where o: "rmap (\<lambda>(worker, chunk). worker chunk) (zip (map ?w ws) ?chunks) = Inr outputs"
      "concat_dataproto (map wb_batch outputs) = Inr joined" "batch (gen_batch g) = batch joined"
      "gen_reward_handles g = stream_handles_of (map2 (\<lambda>i o'. (i, wb_reward_stream o', dp_len (wb_batch o'))) [0..<length outputs] outputs)"
    using assms(1) chunk by (auto simp: manager_generate_sequences_def res_simps Let_def batch_add_index_column)
  have len: "length outputs = ?c" using rmap_length [OF o(1)] by simp
  have worker: "wb_reward_stream (outputs ! i) = None
      \<and> (\<exists>td. batch (wb_batch (outputs ! i)) = Some td \<and> row_scores m (\<lambda>j. ?Q (i * m + j)) td)" if i: "i < ?c" for i
  proof -
    note part = part_dataproto [OF wf p(2) i p(4)]
    have run: "worker_generate_sequences (fst (ws ! i)) (snd (ws ! i)) (part ?c m i p) = Inr (outputs ! i)"
      using rmap_nth [OF o(1), of i] i by (simp add: split_beta)
    have ns_i: "no_reward_stream (fst (ws ! i))" using ns i by (auto simp: split_beta)
    have "batch_validate (meta_info (part ?c m i p))" using val by (simp add: part_def dp_simps)
    from worker_scores [OF run part(1) this ns_i] obtain td where td: "wb_reward_stream (outputs ! i) = None"
        "batch (wb_batch (outputs ! i)) = Some td" "row_scores m (\<lambda>j. scored_run (fst (ws ! i)) (row_of (part ?c m i p) j)) td"
      by (auto simp: part(2))
    have "row_scores m (\<lambda>j. ?Q (i * m + j)) td"
      using td(3) by (rule row_scores_mono) (use i in \<open>auto simp: row_of_part [OF wf p(2) i] split_beta\<close>)
    then show ?thesis using td by blast
  qed
  have "\<exists>td. batch joined = Some td \<and> row_scores (length (map wb_batch outputs) * m) ?Q td"
    by (rule joined_scores [OF o(2)]) (use worker len p(3) in auto)
  moreover have "gen_reward_handles g = []"
    unfolding o(4) stream_handles_of_def using len worker by (auto simp: set_zip)
  ultimately show ?thesis using o(3) len p(2) by (auto simp: mult.commute)
qed

lemma unpadded_scores:
  assumes unpad: "unpad_dataproto q k = Inr out" and td: "batch q = Some td" "row_scores (m + k) Q td"
    and ex: "extract_reward out = Inr (scores, infos)"
  shows "length scores = m \<and> (\<forall>i<m. Q i (sum_list (scores ! i)))"
proof -
  obtain col where col: "batch_column out ''rm_scores'' = Inr col" "rmap cell_reals col = Inr scores"
    using ex by (auto simp: extract_reward_def token_column_def res_simps)
  have "batch_size td = m + k" using td(2) by (simp add: row_scores_def)
  then obtain v where v: "batch_column q ''rm_scores'' = Inr v" "length v = m + k \<longrightarrow> col = take m v"
    using unpad_columns [OF unpad td(1) _ col(1)] by blast
  have at: "length v = m + k" "\<And>i. i < m + k \<Longrightarrow> \<exists>row. v ! i = RealRow row \<and> Q i (sum_list row)"
    using td v(1) by (auto simp: batch_column_iff row_scores_def)
  have "Q i (sum_list (scores ! i))" if "i < m" for i
  proof -
    obtain row where row: "v ! i = RealRow row" "Q i (sum_list row)" using at(2) [of i] \<open>i < m\<close> by auto
    moreover have "scores ! i = row" using rmap_nth [OF col(2), of i] at(1) v(2) that row(1) by simp
    ultimately show ?thesis by simp
  qed
  then show ?thesis using rmap_length [OF col(2)] at(1) v(2) by simp
qed

lemma padded_prompts:
  assumes g: "wf_dataproto g" "batch g = None" "0 < dp_len g" and mi: "wf_meta mi" "\<not> has_key mi ''metrics''" and d: "0 < d"
  shows "\<exists>p k. pad_dataproto_to_divisor d (g\<lparr>meta_info := mi\<rparr>) = Inr (p, k) \<and> wf_dataproto p \<and> batch p = None
    \<and> dp_len p = dp_len g + k \<and> d dvd dp_len g + k \<and> non_tensor_batch p \<noteq> [] \<and> meta_info p = mi
    \<and> (\<forall>i<dp_len g. row_of p i = row_of g i)"
proof -
  let ?m = "dp_len g" and ?g = "g\<lparr>meta_info := mi\<rparr>"
  have gw: "wf_dataproto ?g" using g(1) mi(1) by (simp add: wf_dataproto_def dp_len_meta)
  have no_metrics: "\<not> has_key (meta_info ?g) ''metrics''" using mi(2) by simp
  let ?k = "if ?m mod d = 0 then 0 else d - ?m mod d"
  let ?p = "with_rows (?m + ?k) (cyclic (?m + ?k)) (cyclic (?m + ?k)) ?g"
  have pad: "pad_dataproto_to_divisor d ?g = Inr (?p, ?k)"
    using pad_dataproto [OF gw no_metrics d] by (simp only: dp_len_meta)
  have pw: "wf_dataproto ?p" by (rule wf_with_rows [OF gw]) (use g(2,3) in \<open>auto simp: dp_len_def\<close>)
  have pl: "dp_len ?p = ?m + ?k" by (rule dp_len_with_rows [OF gw]) (use g(2,3) in \<open>auto simp: dp_len_def\<close>)
  have row: "row_of ?p i = row_of g i" if "i < ?m" for i
    using rows_of_cyclic [OF gw, of i "?m + ?k"] that by (simp add: dp_len_meta) (simp add: row_of_def)
  have dvd: "d dvd ?m + ?k"
  proof (cases "?m mod d = 0")
    case False
    have "?m mod d < d" using d by simp
    then have "?m + (d - ?m mod d) = ?m div d * d + d" using div_mult_mod_eq [of ?m d] by linarith
    then show ?thesis using False by simp
  qed auto
  have "non_tensor_batch ?p \<noteq> []"
  proof
    assume "non_tensor_batch ?p = []"
    then show False using pl g(2,3) by (simp add: dp_len_def dp_simps)
  qed
  moreover have "batch ?p = None" "meta_info ?p = mi" using g(2) by (simp_all add: dp_simps)
  ultimately show ?thesis using pad pw pl dvd row by blast
qed

section \<open>Validation\<close>

text \<open>C10: The samples of a validation batch keep their place, through the repository's own generation: a batch is repeated,
  padded to the number of workers, cut into chunks, run by the workers' agent loops, assembled, joined, unpadded and recorded.
  When that succeeds, the prompt id and the data source recorded for sample \<open>i\<close> are those of test row \<open>i div n\<close>,
  and the score that is later extracted for it is the score of an agent loop that a worker ran on the columns of that very
  row. (Without a colocated reward model and without reward streams; the number of turns is among the columns of the
  assembled batch.)\<close>

theorem validation_rows_aligned:
  fixes env :: "'img val_env" and test_data :: "(cell, 'img mobj) dataproto"
  defines "td \<equiv> with_uids (fresh_uids env) test_data"
  defines "m \<equiv> dp_len td * val_n env"
  assumes wf: "wf_dataproto td" and uids: "map_of (non_tensor_batch td) ''uid'' = Some (map MStr us)"
    and sources: "map_of (non_tensor_batch td) ''data_source'' = Some (map MStr ss)"
    and n: "0 < m" and w: "ws \<noteq> []" "val_num_workers env = length ws"
    and meta: "wf_meta (val_meta env)" "\<not> has_key (val_meta env) ''metrics''" "batch_validate (val_meta env)"
    and rm: "colocate_reward env = None" and ns: "\<forall>(lw, _)\<in>set ws. no_reward_stream lw"
    and gen: "val_generate env = manager_generate_sequences chunk_sizes auto (map (\<lambda>(lw, streams). worker_generate_sequences lw streams) ws)"
    and run: "generate_validation_batch env test_data = Inr r"
  shows "\<exists>out. vr_reward_data r = Some out
    \<and> vr_uids r = map (\<lambda>i. us ! (i div val_n env)) [0..<m] \<and> vr_sources r = map (\<lambda>i. ss ! (i div val_n env)) [0..<m]
    \<and> (\<forall>scores infos. extract_reward out = Inr (scores, infos) \<longrightarrow> length scores = m
        \<and> (\<forall>i<m. \<exists>(lw, _)\<in>set ws. scored_run lw (row_of td (i div val_n env)) (sum_list (scores ! i))))"
proof -
  let ?n = "val_n env" and ?d = "length ws"
  let ?rep = "with_rows m (repeat_rows True ?n) (repeat_rows True ?n) td"
  have rep: "repeat_dataproto ?n True td = Inr ?rep" unfolding m_def by (rule repeat_dataproto_rows [OF wf])
  note wfrep = wf_repeat [OF wf rep]
  have lrep: "dp_len ?rep = m" by (rule dp_len_with_rows [OF wf]) (use n in \<open>auto simp: m_def length_repeat_rows dp_len_def\<close>)
  have lens: "length us = dp_len td" "length ss = dp_len td"
    using wf_column_length [OF wf uids] wf_column_length [OF wf sources] by simp_all
  have us: "map_of (non_tensor_batch ?rep) ''uid'' = Some (map MStr (map (\<lambda>i. us ! (i div ?n)) [0..<m]))"
    and ss: "map_of (non_tensor_batch ?rep) ''data_source'' = Some (map MStr (map (\<lambda>i. ss ! (i div ?n)) [0..<m]))"
    using uids sources lens by (simp_all only: dp_simps map_of_dict_map option.map repeat_strings m_def)
  obtain g rest where g: "get_gen_batch ?rep = Inr (g, rest)" "batch g = None" "wf_dataproto g" "dp_len g = m"
      "\<And>k. map_of (non_tensor_batch g) k = map_of (non_tensor_batch ?rep) k"
      "\<And>k. k \<in> set reward_keys \<Longrightarrow> map_of (non_tensor_batch rest) k = map_of (non_tensor_batch ?rep) k"
    using gen_batch_columns [OF wfrep us] lrep by auto
  obtain p k where p: "pad_dataproto_to_divisor ?d (g\<lparr>meta_info := val_meta env\<rparr>) = Inr (p, k)" "wf_dataproto p" "batch p = None"
      "dp_len p = m + k" "?d dvd m + k" "non_tensor_batch p \<noteq> []" "meta_info p = val_meta env" "\<And>i. i < m \<Longrightarrow> row_of p i = row_of g i"
    using padded_prompts [OF g(3,2) _ meta(1,2), of ?d] g(4,5) n us w(1) by auto
  obtain a out where a: "val_generate env p = Inr a" "unpad_dataproto (gen_batch a) k = Inr out"
      "validation_record rest out (gen_reward_handles a) = Inr r"
    using run rep g(1) p(1) rm w(2) unfolding td_def
    by (auto simp: generate_validation_batch_def score_colocated_def res_simps)
  obtain q where q: "dp_len p = q * ?d" using p(4,5) by (metis dvd_def mult.commute)
  let ?Q = "\<lambda>i s. \<exists>(lw, _)\<in>set ws. scored_run lw (row_of p i) s"
  obtain atd where atd: "gen_reward_handles a = []" "batch (gen_batch a) = Some atd" "row_scores (m + k) ?Q atd"
    using manager_scores [OF a(1) [unfolded gen] p(2,3) q w(1) p(6) _ ns] p(4,7) meta(3) by auto
  have row: "row_of p i = row_of td (i div ?n)" if "i < m" for i
    using p(8) [OF that] rows_of_repeat [OF wf, of i ?n] that g(5) by (simp add: row_of_def m_def)
  have scores: "length scores = m \<and> (\<forall>i<m. \<exists>(lw, _)\<in>set ws. scored_run lw (row_of td (i div ?n)) (sum_list (scores ! i)))"
    if "extract_reward out = Inr (scores, infos)" for scores infos
    using unpadded_scores [OF a(2) atd(2,3) that] row by simp
  have "vr_uids r = map (\<lambda>i. us ! (i div ?n)) [0..<m] \<and> vr_sources r = map (\<lambda>i. ss ! (i div ?n)) [0..<m] \<and> vr_reward_data r = Some out"
    using a(3) us ss g(6) [of "''uid''"] g(6) [of "''data_source''"] atd(1)
    by (auto simp: validation_record_def dict_get_def reward_keys_def string_column_strings res_simps simp del: map_map)
  then show ?thesis using scores by blast
qed

text \<open>A validation set of two rows, two samples each, three workers that are padded to two samples each, and agent loops
  that score a response by the id of the prompt.\<close>

definition run_worker :: "nat loop_worker" where
  "run_worker = demo_loop_worker\<lparr>lw_pad := demo_pad_config\<lparr>pc_reward_workers := False\<rparr>, lw_teacher := demo_worker False,
     lw_registry := [(''single'', \<lambda>_ kwargs. Inr ((demo_output [5] [7, 8])
       \<lparr>ao_reward_score := Some (if map_of kwargs ''uid'' = Some (MStr ''a'') then 1 else 0)\<rparr>))]\<rparr>"

definition run_workers :: "(nat loop_worker \<times> (nat batch_run \<Rightarrow> ((padded_pair \<times> padded_pair option) option list res
    \<times> nat mobj reward_result option list res) \<times> string \<times> string)) list" where
  "run_workers = replicate 3 (run_worker, \<lambda>_. ((Inl ValueError, Inl ValueError), [], []))"

definition run_env :: "nat val_env" where
  "run_env = \<lparr>val_n = 2, val_num_workers = 3, val_meta = [(''validate'', PBool True)], fresh_uids = (\<lambda>n. []),
     val_generate = manager_generate_sequences (\<lambda>_ _. Inr []) False
       (map (\<lambda>(lw, streams). worker_generate_sequences lw streams) run_workers),
     colocate_reward = None, objects_equal = (\<lambda>xs ys. xs = ys)\<rparr>"

definition run_test :: "(cell, nat mobj) dataproto" where
  "run_test = \<lparr>batch = None, non_tensor_batch = [(''uid'', [MStr ''a'', MStr ''b'']), (''data_source'', [MStr ''s'', MStr ''t'']),
     (''raw_prompt'', [MNone, MNone])], meta_info = []\<rparr>"

lemma run_validation:
  "case generate_validation_batch run_env run_test of
     Inl _ \<Rightarrow> False
   | Inr r \<Rightarrow> vr_turns r = Some [2, 2, 2, 2] \<and> (case vr_reward_data r of
         None \<Rightarrow> False
       | Some out \<Rightarrow> (case extract_reward out of Inl _ \<Rightarrow> False | Inr (scores, _) \<Rightarrow> scores = [[0, 1], [0, 1], [0, 0], [0, 0]]))"
  by code_simp

theorem validation_rows_aligned_witness:
  "\<exists>r out infos. generate_validation_batch run_env run_test = Inr r \<and> vr_turns r = Some [2, 2, 2, 2] \<and> vr_reward_data r = Some out
    \<and> extract_reward out = Inr ([[0, 1], [0, 1], [0, 0], [0, 0]], infos)
    \<and> vr_uids r = [''a'', ''a'', ''b'', ''b''] \<and> vr_sources r = [''s'', ''s'', ''t'', ''t'']
    \<and> scored_run run_worker (row_of run_test 0) 1 \<and> scored_run run_worker (row_of run_test 1) 0"
proof -
  obtain r where r1: "generate_validation_batch run_env run_test = Inr r"
    using run_validation by (cases "generate_validation_batch run_env run_test") auto
  obtain out where r2: "vr_reward_data r = Some out" using run_validation r1 by (cases "vr_reward_data r") auto
  obtain scores infos where r3: "extract_reward out = Inr (scores, infos)"
    using run_validation r1 r2 by (cases "extract_reward out") auto
  then have r: "generate_validation_batch run_env run_test = Inr r" "vr_turns r = Some [2, 2, 2, 2]"
      "vr_reward_data r = Some out" "extract_reward out = Inr ([[0, 1], [0, 1], [0, 0], [0, 0]], infos)"
    using run_validation r1 r2 by simp_all
  have td: "with_uids (fresh_uids run_env) run_test = run_test" by (simp add: with_uids_def run_test_def has_key_def)
  have len: "dp_len run_test = 2" by (simp add: run_test_def dp_len_def)
  have env: "val_n run_env = 2" "val_num_workers run_env = length run_workers" "run_workers \<noteq> []" "colocate_reward run_env = None"
      "wf_meta (val_meta run_env)" "\<not> has_key (val_meta run_env) ''metrics''" "batch_validate (val_meta run_env)"
      "val_generate run_env = manager_generate_sequences (\<lambda>_ _. Inr []) False
        (map (\<lambda>(lw, streams). worker_generate_sequences lw streams) run_workers)"
    by (simp_all add: run_env_def run_workers_def wf_meta_def dict_wf_def has_key_def batch_validate_def)
  have wf: "wf_dataproto run_test" by (simp add: wf_dataproto_def wf_columns_def wf_meta_def dict_wf_def len) (simp add: run_test_def)
  have cols: "map_of (non_tensor_batch run_test) ''uid'' = Some (map MStr [''a'', ''b''])"
      "map_of (non_tensor_batch run_test) ''data_source'' = Some (map MStr [''s'', ''t''])" by (simp_all add: run_test_def)
  have ns: "\<forall>(lw, _)\<in>set run_workers. no_reward_stream lw"
    by (simp add: run_workers_def run_worker_def no_reward_stream_def should_stream_validation_rewards_def)
  note al = validation_rows_aligned [of run_env run_test, unfolded td, OF wf cols _ env(3,2,5,6,7,4) ns env(8) r(1), unfolded len env(1)]
  have up: "[0..<4] = [0, 1, 2, 3 :: nat]" by (simp add: upt_rec)
  have "vr_uids r = [''a'', ''a'', ''b'', ''b''] \<and> vr_sources r = [''s'', ''s'', ''t'', ''t'']"
    and sc: "\<And>i. i < 4 \<Longrightarrow> \<exists>(lw, _)\<in>set run_workers. scored_run lw (row_of run_test (i div 2)) (sum_list ([[0, 1], [0, 1], [0, 0], [0, 0]] ! i))"
    using al r(3,4) by (auto simp: up)
  moreover have "scored_run run_worker (row_of run_test 0) 1" "scored_run run_worker (row_of run_test 1) 0"
    using sc [of 0] sc [of 2] by (auto simp: run_workers_def)
  ultimately show ?thesis using r by blast
qed

end
