(* ===== verification/PackedBoundary.thy ===== *)
theory PackedBoundary
  imports PyObject PyString
begin

text \<open>
  The overlay of the packed actor, \<open>scripts/fa3/packed_boundary.py\<close>: the boundaries of the samples packed into one
  row are checked against the text positions and handed to the native kernels of the linear-attention
  layers, and an audit keeps evidence that every kernel of every micro-batch ran with them, in the forward pass
  and in the recomputation of the checkpoint. Tensors are named by where they come from, so that the
  code's comparison by identity is equality. The model's own code and the autograd engine are the environment:
  which layer runs when is up to the step relation. What a record of the audit holds besides its event is
  left out.
\<close>

section \<open>The layout of a packed row\<close>

fun obj_int :: "pyobj \<Rightarrow> int option" where
  "obj_int (PInt i) = Some i"
| "obj_int _ = None"

definition obj_ints :: "pyobj list \<Rightarrow> int list option" where
  "obj_ints xs = (if None \<in> set (map obj_int xs) then None else Some (map (the \<circ> obj_int) xs))"

definition segments :: "int list \<Rightarrow> (int \<times> int) list" where
  "segments offsets = zip offsets (tl offsets)"

text \<open>Offsets that are not integers fail one of the two checks of the code, both with the same exception.\<close>

definition segment_ids :: "pyobj list \<Rightarrow> int \<Rightarrow> nat list res" where
  "segment_ids offsets row_length =
     (case obj_ints offsets of
        None \<Rightarrow> Inl ValueError
      | Some os \<Rightarrow>
          rbind (rcheck ValueError (2 \<le> length os \<and> hd os = 0 \<and> last os = row_length \<and> row_length < 2 ^ 31)) (\<lambda>_.
          rbind (rcheck ValueError (list_all (\<lambda>(a, b). a < b) (segments os))) (\<lambda>_.
          Inr (concat (map (\<lambda>(i, a, b). replicate (nat (b - a)) i) (enumerate 0 (segments os)))))))"

definition expected_positions :: "int list \<Rightarrow> int list" where
  "expected_positions os = concat (map (\<lambda>(a, b). map int [0..<nat (b - a)]) (segments os))"

definition validate_layout :: "nat list \<Rightarrow> nat list \<Rightarrow> pyobj list \<Rightarrow> int list \<Rightarrow> nat list res" where
  "validate_layout input_shape position_shape offsets text_positions =
     rbind (rcheck ValueError (length input_shape = 2 \<and> input_shape ! 0 = 1)) (\<lambda>_.
     rbind (rcheck ValueError (position_shape = [4, 1, input_shape ! 1])) (\<lambda>_.
     rbind (segment_ids offsets (int (input_shape ! 1))) (\<lambda>ids.
     rbind (rcheck ValueError (text_positions = expected_positions (the (obj_ints offsets)))) (\<lambda>_. Inr ids))))"

section \<open>The audit\<close>

datatype boundary_arm = BaselineArm | BoundaryArm
datatype decoder_phase = Forward | Recompute
datatype kernel_kind = Conv | Gdn

text \<open>A tensor that a kernel is called with: the segment ids or the offsets of a ticket, or any other.\<close>

datatype tensor_ref = SeqOf nat | CuOf nat | OtherTensor nat

text \<open>A ticket is what a micro-batch carries through the decoder layers.\<close>

record boundary_ticket =
  tk_cu :: "int list"
  tk_seq :: "nat list"
  tk_train :: bool
  tk_calls :: "string \<Rightarrow> nat"
  tk_seen :: "(string \<times> decoder_phase \<times> kernel_kind) list"

text \<open>What is recorded once: by event, by mode of the guard, or by mode, phase and kernel.\<close>

datatype audit_key = EventKey string | GuardKey bool | KernelKey bool decoder_phase kernel_kind

text \<open>\<open>au_call\<close> is the context variable, \<open>au_tokens\<close> its values before the decoders that are running. The last
  two fields list the effects outside the overlay: the calls of the original kernels and of the original linear layers.\<close>

record boundary_audit =
  au_arm :: boundary_arm
  au_layers :: "string list"
  au_emitted :: "audit_key list"
  au_log :: "audit_key list"
  au_counts :: "string \<Rightarrow> nat"
  au_batch :: "nat list option"
  au_next :: nat
  au_tickets :: "nat \<Rightarrow> boundary_ticket option"
  au_call :: "(nat \<times> string \<times> decoder_phase) option"
  au_tokens :: "(nat \<times> string \<times> decoder_phase) option list"
  au_in_backward :: bool
  au_kernels :: "(nat \<times> string \<times> decoder_phase \<times> kernel_kind \<times> tensor_ref option) list"
  au_decoders :: "(nat \<times> string \<times> decoder_phase) list"

definition audit_new :: "boundary_arm \<Rightarrow> boundary_audit" where
  "audit_new arm = \<lparr>au_arm = arm, au_layers = [], au_emitted = [], au_log = [], au_counts = (\<lambda>_. 0), au_batch = None,
     au_next = 0, au_tickets = (\<lambda>_. None), au_call = None, au_tokens = [], au_in_backward = False, au_kernels = [], au_decoders = []\<rparr>"

definition emit :: "audit_key \<Rightarrow> boundary_audit \<Rightarrow> boundary_audit" where
  "emit key st =
     (if key \<in> set (au_emitted st) then st
      else st\<lparr>au_emitted := key # au_emitted st, au_log := au_log st @ [key]\<rparr>)"

definition bump_count :: "string \<Rightarrow> boundary_audit \<Rightarrow> boundary_audit" where
  "bump_count k st = st\<lparr>au_counts := (au_counts st)(k := Suc (au_counts st k))\<rparr>"

definition boundary_options :: "string option \<Rightarrow> string option \<Rightarrow> string pydict \<Rightarrow> (boundary_arm \<times> string) res" where
  "boundary_options arm audit_dir environ =
     (let given_or = (\<lambda>x k. case x of Some (c # cs) \<Rightarrow> Some (c # cs) | _ \<Rightarrow> map_of environ k);
          arm' = given_or arm ''VZERO_PACKED_BOUNDARY_ARM''; dir = given_or audit_dir ''VZERO_PACKED_AUDIT_DIR'' in
      case dir of
        None \<Rightarrow> Inl RuntimeError
      | Some d \<Rightarrow>
          if d = [] then Inl RuntimeError
          else if arm' = Some ''baseline'' then Inr (BaselineArm, d)
          else if arm' = Some ''boundary'' then Inr (BoundaryArm, d)
          else Inl RuntimeError)"

section \<open>Training batches\<close>

definition batch_start :: "boundary_audit \<Rightarrow> boundary_audit res" where
  "batch_start st = rbind (rcheck RuntimeError (au_batch st = None)) (\<lambda>_. Inr (st\<lparr>au_batch := Some []\<rparr>))"

definition expected_evidence :: "string list \<Rightarrow> (string \<times> decoder_phase \<times> kernel_kind) list" where
  "expected_evidence layers =
     concat (map (\<lambda>l. [(l, Forward, Conv), (l, Forward, Gdn), (l, Recompute, Conv), (l, Recompute, Gdn)]) layers)"

definition batch_failed :: "boundary_audit \<Rightarrow> boundary_audit" where
  "batch_failed st = (emit (EventKey ''audit_failure'') st)\<lparr>au_batch := None\<rparr>"

definition ticket_seen :: "boundary_audit \<Rightarrow> nat \<Rightarrow> (string \<times> decoder_phase \<times> kernel_kind) list" where
  "ticket_seen st t = (case au_tickets st t of None \<Rightarrow> [] | Some tk \<Rightarrow> tk_seen tk)"

definition batch_end :: "boundary_audit \<Rightarrow> unit res \<times> boundary_audit" where
  "batch_end st =
     (let tickets = (case au_batch st of None \<Rightarrow> [] | Some ts \<Rightarrow> ts) in
      if tickets = [] \<or> au_layers st = [] then (Inl RuntimeError, batch_failed st)
      else if \<not> list_all (\<lambda>t. set (expected_evidence (au_layers st)) \<subseteq> set (ticket_seen st t)) tickets
      then (Inl RuntimeError, batch_failed st)
      else (Inr (), (emit (EventKey ''backward_batch_complete'') (bump_count ''backward_batches'' st))\<lparr>au_batch := None\<rparr>))"

text \<open>The context manager around the engine's \<open>forward_backward_batch\<close>.\<close>

definition training_batch :: "(boundary_audit \<Rightarrow> 'r res \<times> boundary_audit) \<Rightarrow> boundary_audit \<Rightarrow> 'r res \<times> boundary_audit" where
  "training_batch body st =
     (case batch_start st of
        Inl e \<Rightarrow> (Inl e, st)
      | Inr st0 \<Rightarrow>
          (case body st0 of
             (Inl e, st1) \<Rightarrow> (Inl e, batch_failed st1)
           | (Inr r, st1) \<Rightarrow> (case batch_end st1 of (Inl e, st2) \<Rightarrow> (Inl e, st2) | (Inr _, st2) \<Rightarrow> (Inr r, st2))))"

definition boundary_batch ::
    "(boundary_audit \<Rightarrow> 'r res \<times> boundary_audit) \<Rightarrow> bool \<Rightarrow> boundary_audit \<Rightarrow> 'r res \<times> boundary_audit" where
  "boundary_batch original forward_only st = (if forward_only then original st else training_batch original st)"

section \<open>Preparing a micro-batch\<close>

text \<open>What is read of the inputs of the model: the names of the arguments, the shapes, the text axis of the
  positions, whether there is an attention mask and whether caching is on.\<close>

record boundary_inputs =
  bi_keys :: "string list"
  bi_input_shape :: "nat list"
  bi_position_shape :: "nat list"
  bi_text_positions :: "int list"
  bi_attention_mask :: bool
  bi_use_cache :: bool

definition ticket_key :: string where
  "ticket_key = ''_vzero_packed_boundary_ticket''"

definition prepare_inputs :: "boundary_inputs \<Rightarrow> pyobj list \<Rightarrow> boundary_audit \<Rightarrow> (nat \<times> boundary_audit) res" where
  "prepare_inputs inp offsets st =
     rbind (rcheck RuntimeError (set [ticket_key, ''seq_idx'', ''cu_seq_lens_q''] \<inter> set (bi_keys inp) = {})) (\<lambda>_.
     rbind (rcheck KeyError (''input_ids'' \<in> set (bi_keys inp) \<and> ''position_ids'' \<in> set (bi_keys inp))) (\<lambda>_.
     rbind (rcheck RuntimeError (\<not> bi_attention_mask inp \<and> \<not> bi_use_cache inp)) (\<lambda>_.
     rbind (rcheck IndexError (bi_input_shape inp \<noteq> [])) (\<lambda>_.
     rbind (rcheck ValueError (bi_position_shape inp = [4, 1, last (bi_input_shape inp)])) (\<lambda>_.
     rbind (validate_layout (bi_input_shape inp) (bi_position_shape inp) offsets (bi_text_positions inp)) (\<lambda>ids.
     (let t = Suc (au_next st); train = au_batch st \<noteq> None;
          ticket = \<lparr>tk_cu = the (obj_ints offsets), tk_seq = ids, tk_train = train, tk_calls = (\<lambda>_. 0), tk_seen = []\<rparr>;
          st1 = st\<lparr>au_next := t, au_tickets := (au_tickets st)(t \<mapsto> ticket),
                   au_batch := map_option (\<lambda>ts. ts @ [t]) (au_batch st)\<rparr>
      in Inr (t, emit (GuardKey train) (bump_count ''packed_guards'' st1)))))))))"

text \<open>The wrapper of \<open>prepare_model_inputs\<close> looks at the metadata of the micro-batch first.\<close>

definition boundary_prepare ::
    "bool \<Rightarrow> bool \<Rightarrow> boundary_inputs res \<Rightarrow> pyobj list \<Rightarrow> boundary_audit \<Rightarrow> (nat \<times> boundary_audit) res" where
  "boundary_prepare remove_padding fused_kernels model_inputs offsets st =
     rbind (rcheck RuntimeError (remove_padding \<and> \<not> fused_kernels)) (\<lambda>_.
     rbind model_inputs (\<lambda>inp. prepare_inputs inp offsets st))"

section \<open>Kernels and decoder layers\<close>

definition native_tensor :: "kernel_kind \<Rightarrow> nat \<Rightarrow> tensor_ref" where
  "native_tensor kind t = (case kind of Conv \<Rightarrow> SeqOf t | Gdn \<Rightarrow> CuOf t)"

definition expected_argument :: "boundary_arm \<Rightarrow> kernel_kind \<Rightarrow> nat \<Rightarrow> tensor_ref option" where
  "expected_argument arm kind t = (case arm of BaselineArm \<Rightarrow> None | BoundaryArm \<Rightarrow> Some (native_tensor kind t))"

definition phase_text :: "decoder_phase \<Rightarrow> string" where
  "phase_text p = (case p of Forward \<Rightarrow> ''forward'' | Recompute \<Rightarrow> ''recompute'')"

definition kind_text :: "kernel_kind \<Rightarrow> string" where
  "kind_text k = (case k of Conv \<Rightarrow> ''conv'' | Gdn \<Rightarrow> ''gdn'')"

definition mode_text :: "bool \<Rightarrow> string" where
  "mode_text train = (if train then ''train'' else ''inference'')"

text \<open>The wrapper of a kernel, called with the given boundary argument. Tickets of another overlay are
  not among the tickets of the state.\<close>

definition kernel_call :: "string \<Rightarrow> kernel_kind \<Rightarrow> tensor_ref option \<Rightarrow> boundary_audit \<Rightarrow> boundary_audit res" where
  "kernel_call layer kind actual st =
     (case au_call st of
        None \<Rightarrow> Inl RuntimeError
      | Some (t, name, phase) \<Rightarrow>
          (case au_tickets st t of
             None \<Rightarrow> Inl RuntimeError
           | Some tk \<Rightarrow>
               rbind (rcheck RuntimeError (name = layer)) (\<lambda>_.
               rbind (rcheck RuntimeError (actual = expected_argument (au_arm st) kind t)) (\<lambda>_.
               (let st1 = st\<lparr>au_tickets := (au_tickets st)(t \<mapsto> tk\<lparr>tk_seen := (layer, phase, kind) # tk_seen tk\<rparr>)\<rparr>;
                    st2 = emit (KernelKey (tk_train tk) phase kind)
                            (bump_count (mode_text (tk_train tk) @ ''_'' @ phase_text phase @ ''_'' @ kind_text kind) st1)
                in Inr (st2\<lparr>au_kernels := au_kernels st2 @ [(t, layer, phase, kind, actual)]\<rparr>))))))"

text \<open>The keyword arguments of a decoder layer, and what it passes on as its native boundaries.\<close>

record decoder_kwargs =
  dk_ticket :: "nat option"
  dk_boundaries :: bool
  dk_past :: bool
  dk_use_cache :: bool

definition decoder_enter ::
    "string \<Rightarrow> bool \<Rightarrow> decoder_kwargs \<Rightarrow> boundary_audit \<Rightarrow> ((tensor_ref \<times> tensor_ref) option \<times> boundary_audit) res" where
  "decoder_enter name is_linear kw st =
     (case dk_ticket kw of
        None \<Rightarrow> Inl RuntimeError
      | Some t \<Rightarrow>
          (case au_tickets st t of
             None \<Rightarrow> Inl RuntimeError
           | Some tk \<Rightarrow>
               rbind (rcheck RuntimeError (\<not> dk_boundaries kw)) (\<lambda>_.
               rbind (rcheck RuntimeError (\<not> dk_past kw \<and> \<not> dk_use_cache kw)) (\<lambda>_.
               if \<not> is_linear then Inr (None, st)
               else
                 rbind (rcheck RuntimeError (if au_in_backward st then 0 < tk_calls tk name else tk_calls tk name = 0)) (\<lambda>_.
                 (let phase = (if au_in_backward st then Recompute else Forward);
                      tk1 = tk\<lparr>tk_calls := (tk_calls tk)(name := Suc (tk_calls tk name))\<rparr>
                  in Inr (case au_arm st of BaselineArm \<Rightarrow> None | BoundaryArm \<Rightarrow> Some (SeqOf t, CuOf t),
                       st\<lparr>au_tickets := (au_tickets st)(t \<mapsto> tk1), au_call := Some (t, name, phase),
                          au_tokens := au_call st # au_tokens st, au_decoders := au_decoders st @ [(t, name, phase)]\<rparr>)))))))"

text \<open>Leaving a linear layer, by a return or an exception, resets the context variable.\<close>

definition decoder_leave :: "boundary_audit \<Rightarrow> boundary_audit" where
  "decoder_leave st =
     (case au_tokens st of [] \<Rightarrow> st | c # cs \<Rightarrow> st\<lparr>au_call := c, au_tokens := cs\<rparr>)"

section \<open>Installation\<close>

record native_kernel =
  nk_parameters :: "string list"
  nk_module :: string

definition check_kernel :: "native_kernel option \<Rightarrow> string \<Rightarrow> string \<Rightarrow> unit res" where
  "check_kernel fn argument module_prefix =
     (case fn of
        None \<Rightarrow> Inl RuntimeError
      | Some k \<Rightarrow> rbind (rcheck RuntimeError (argument \<in> set (nk_parameters k))) (\<lambda>_.
                  rcheck RuntimeError (starts_with module_prefix (nk_module k))))"

record decoder_layer =
  dl_name :: string
  dl_checkpointing :: bool
  dl_use_reentrant :: "bool option"
  dl_type :: string
  dl_conv :: "native_kernel option"
  dl_gdn :: "native_kernel option"

record actor_model =
  am_type :: "string option"
  am_overlay :: bool
  am_layers :: "decoder_layer list"

definition check_layer :: "decoder_layer \<Rightarrow> string option res" where
  "check_layer layer =
     rbind (rcheck RuntimeError (dl_checkpointing layer)) (\<lambda>_.
     rbind (rcheck RuntimeError (dl_use_reentrant layer = Some False)) (\<lambda>_.
     if dl_type layer = ''linear_attention''
     then rbind (check_kernel (dl_conv layer) ''seq_idx'' ''causal_conv1d'') (\<lambda>_.
          rbind (check_kernel (dl_gdn layer) ''cu_seqlens'' ''fla.ops.gated_delta_rule'') (\<lambda>_. Inr (Some (dl_name layer))))
     else rbind (rcheck RuntimeError (dl_type layer = ''full_attention'')) (\<lambda>_. Inr None)))"

definition install_model :: "actor_model \<Rightarrow> boundary_audit \<Rightarrow> (actor_model \<times> boundary_audit) res" where
  "install_model model st =
     rbind (rcheck RuntimeError (am_type model = Some ''qwen3_5'')) (\<lambda>_.
     rbind (rcheck RuntimeError (\<not> am_overlay model)) (\<lambda>_.
     rbind (rcheck RuntimeError (am_layers model \<noteq> [])) (\<lambda>_.
     rbind (rmap check_layer (am_layers model)) (\<lambda>checked.
     (let linear_names = concat (map (\<lambda>x. case x of None \<Rightarrow> [] | Some n \<Rightarrow> [n]) checked) in
      rbind (rcheck RuntimeError (linear_names \<noteq> [])) (\<lambda>_.
      Inr (model\<lparr>am_overlay := True\<rparr>, emit (EventKey ''model_wrapped'') (st\<lparr>au_layers := linear_names\<rparr>))))))))"

record actor_engine =
  ae_overlay :: "boundary_audit option"
  ae_forward_only :: bool
  ae_strategy :: string
  ae_use_ulysses :: bool
  ae_ulysses_size :: nat
  ae_remove_padding :: bool
  ae_fused_kernels :: bool
  ae_checkpointing :: bool
  ae_lora :: bool
  ae_qat :: bool
  ae_built :: bool

text \<open>Installing twice with the same arm keeps the first overlay.\<close>

definition patch_engine :: "actor_engine \<Rightarrow> boundary_audit \<Rightarrow> (actor_engine \<times> boundary_audit) res" where
  "patch_engine engine st =
     (case ae_overlay engine of
        Some old \<Rightarrow> rbind (rcheck RuntimeError (au_arm old = au_arm st)) (\<lambda>_. Inr (engine, old))
      | None \<Rightarrow>
          rbind (rcheck RuntimeError (\<not> ae_forward_only engine)) (\<lambda>_.
          rbind (rcheck RuntimeError (ae_strategy engine = ''fsdp'' \<and> \<not> ae_use_ulysses engine \<and> ae_ulysses_size engine = 1)) (\<lambda>_.
          rbind (rcheck RuntimeError (ae_remove_padding engine \<and> \<not> ae_fused_kernels engine)) (\<lambda>_.
          rbind (rcheck RuntimeError (ae_checkpointing engine)) (\<lambda>_.
          rbind (rcheck RuntimeError (\<not> ae_lora engine \<and> \<not> ae_qat engine)) (\<lambda>_.
          rbind (rcheck RuntimeError (\<not> ae_built engine)) (\<lambda>_.
          (let st' = emit (EventKey ''actor_engine_installed'') st in Inr (engine\<lparr>ae_overlay := Some st'\<rparr>, st')))))))))"

text \<open>The registry of engines: \<open>setup_worker\<close> patches it once per worker, and every actor it makes gets the overlay.\<close>

definition patch_registry :: "(boundary_arm \<times> string) option \<Rightarrow> boundary_arm \<times> string \<Rightarrow> (boundary_arm \<times> string) option res" where
  "patch_registry installed options =
     (case installed of
        Some previous \<Rightarrow> rbind (rcheck RuntimeError (previous = options)) (\<lambda>_. Inr installed)
      | None \<Rightarrow> Inr (Some options))"

definition registry_new ::
    "(boundary_arm \<times> string) option \<Rightarrow> string \<Rightarrow> string \<Rightarrow> actor_engine \<Rightarrow> (actor_engine \<times> boundary_audit option) res" where
  "registry_new installed model_type backend engine =
     (case installed of
        None \<Rightarrow> Inr (engine, None)
      | Some (arm, _) \<Rightarrow>
          if model_type = ''language_model'' \<and> \<not> ae_forward_only engine
          then rbind (rcheck RuntimeError (backend = ''fsdp'')) (\<lambda>_.
               rbind (patch_engine engine (audit_new arm)) (\<lambda>(engine', st). Inr (engine', Some st)))
          else Inr (engine, None))"

section \<open>Runs\<close>

text \<open>What can happen to an installed overlay, in any order: the engine starts, finishes or aborts a training batch, prepares
  micro-batches, enters and leaves its linear layers, their kernels are called with any argument, and the
  autograd engine starts and ends a backward pass.\<close>

inductive overlay_step :: "boundary_audit \<Rightarrow> boundary_audit \<Rightarrow> bool" where
  start: "batch_start st = Inr st' \<Longrightarrow> overlay_step st st'"
| complete: "au_batch st \<noteq> None \<Longrightarrow> batch_end st = (r, st') \<Longrightarrow> overlay_step st st'"
| abort: "au_batch st \<noteq> None \<Longrightarrow> overlay_step st (batch_failed st)"
| prepare: "prepare_inputs inp offsets st = Inr (t, st') \<Longrightarrow> overlay_step st st'"
| enter: "name \<in> set (au_layers st) \<Longrightarrow> decoder_enter name True kw st = Inr (native, st') \<Longrightarrow> overlay_step st st'"
| leave: "au_tokens st \<noteq> [] \<Longrightarrow> overlay_step st (decoder_leave st)"
| kernel: "layer \<in> set (au_layers st) \<Longrightarrow> kernel_call layer kind actual st = Inr st' \<Longrightarrow> overlay_step st st'"
| backward: "overlay_step st (st\<lparr>au_in_backward := b\<rparr>)"

inductive_cases overlay_stepE: "overlay_step st st'"

text \<open>The same steps with what an observer outside the overlay sees of them: which layer is called with
  which ticket, when a layer is left, when a backward pass starts or ends, and which calls reach an original kernel.
  Nothing of an event is read from the context variable.\<close>

datatype overlay_event =
  Entered nat string
| LeftLayer
| BackwardPass bool
| KernelRan string kernel_kind "tensor_ref option"
| OtherEvent

inductive overlay_move :: "overlay_event \<Rightarrow> boundary_audit \<Rightarrow> boundary_audit \<Rightarrow> bool" where
  start: "batch_start st = Inr st' \<Longrightarrow> overlay_move OtherEvent st st'"
| complete: "au_batch st \<noteq> None \<Longrightarrow> batch_end st = (r, st') \<Longrightarrow> overlay_move OtherEvent st st'"
| abort: "au_batch st \<noteq> None \<Longrightarrow> overlay_move OtherEvent st (batch_failed st)"
| prepare: "prepare_inputs inp offsets st = Inr (t, st') \<Longrightarrow> overlay_move OtherEvent st st'"
| enter: "name \<in> set (au_layers st) \<Longrightarrow> dk_ticket kw = Some t \<Longrightarrow> decoder_enter name True kw st = Inr (native, st')
    \<Longrightarrow> overlay_move (Entered t name) st st'"
| leave: "au_tokens st \<noteq> [] \<Longrightarrow> overlay_move LeftLayer st (decoder_leave st)"
| kernel: "layer \<in> set (au_layers st) \<Longrightarrow> kernel_call layer kind actual st = Inr st'
    \<Longrightarrow> overlay_move (KernelRan layer kind actual) st st'"
| backward: "overlay_move (BackwardPass b) st (st\<lparr>au_in_backward := b\<rparr>)"

inductive overlay_run :: "boundary_audit \<Rightarrow> overlay_event list \<Rightarrow> boundary_audit \<Rightarrow> bool" for st0 where
  nothing: "overlay_run st0 [] st0"
| move: "overlay_run st0 events st \<Longrightarrow> overlay_move e st st' \<Longrightarrow> overlay_run st0 (events @ [e]) st'"

text \<open>The layers that are running after some events, the innermost first, each with its ticket and with the pass in
  which it was called.\<close>

fun layers_after :: "overlay_event \<Rightarrow> bool \<times> (nat \<times> string \<times> decoder_phase) list \<Rightarrow> bool \<times> (nat \<times> string \<times> decoder_phase) list" where
  "layers_after (Entered t name) (bw, ls) = (bw, (t, name, if bw then Recompute else Forward) # ls)"
| "layers_after LeftLayer (bw, ls) = (bw, tl ls)"
| "layers_after (BackwardPass b) (bw, ls) = (b, ls)"
| "layers_after _ (bw, ls) = (bw, ls)"

definition running_layers :: "overlay_event list \<Rightarrow> (nat \<times> string \<times> decoder_phase) list" where
  "running_layers events = snd (fold layers_after events (False, []))"

text \<open>The overlay of a fresh engine, and of the model that it builds.\<close>

definition install_overlay :: "boundary_arm \<Rightarrow> actor_engine \<Rightarrow> actor_model \<Rightarrow> boundary_audit res" where
  "install_overlay arm engine model =
     rbind (patch_engine engine (audit_new arm)) (\<lambda>(_, st). rbind (install_model model st) (\<lambda>(_, st'). Inr st'))"

end
