(* ===== verification/BoundaryLaws.thy ===== *)
theory BoundaryLaws
  imports PackedBoundary
begin

text \<open>
  What the packed overlay guarantees: the layout check accepts exactly the segmentation that the text positions
  show, no kernel runs with the boundaries of another micro-batch, a training batch only completes when
  every kernel of every linear layer ran in both passes, and the audit writes a bounded number of records.
\<close>

section \<open>The layout\<close>

lemma obj_ints_Some: "obj_ints offsets = Some os \<longleftrightarrow> offsets = map PInt os"
proof
  assume some: "obj_ints offsets = Some os"
  then have none: "None \<notin> set (map obj_int offsets)" and os: "os = map (the \<circ> obj_int) offsets"
    by (auto simp: obj_ints_def split: if_splits)
  have "x = PInt (the (obj_int x))" if "x \<in> set offsets" for x
  proof -
    have "obj_int x \<noteq> None" using none that by force
    then show ?thesis by (cases x) auto
  qed
  then show "offsets = map PInt os" using os by (auto simp: comp_def intro: map_idI [symmetric])
next
  assume "offsets = map PInt os"
  then show "obj_ints offsets = Some os" by (auto simp: obj_ints_def comp_def)
qed

fun ids_from :: "nat \<Rightarrow> int list \<Rightarrow> nat list" where
  "ids_from i (a # b # os) = replicate (nat (b - a)) i @ ids_from (Suc i) (b # os)"
| "ids_from i os = []"

fun positions_from :: "int list \<Rightarrow> int list" where
  "positions_from (a # b # os) = map int [0..<nat (b - a)] @ positions_from (b # os)"
| "positions_from os = []"

lemma ids_from_segments:
  "concat (map (\<lambda>(i, a, b). replicate (nat (b - a)) i) (enumerate n (segments os))) = ids_from n os"
  by (induction n os rule: ids_from.induct) (simp_all add: segments_def)

lemma expected_positions_from: "expected_positions os = positions_from os"
  by (induction os rule: positions_from.induct) (simp_all add: expected_positions_def segments_def)

fun increasing :: "int list \<Rightarrow> bool" where
  "increasing (a # b # os) \<longleftrightarrow> a < b \<and> increasing (b # os)"
| "increasing os = True"

lemma increasing_segments: "list_all (\<lambda>(a, b). a < b) (segments os) = increasing os"
  by (induction os rule: increasing.induct) (simp_all add: segments_def)

definition packed_offsets :: "int list \<Rightarrow> int \<Rightarrow> bool" where
  "packed_offsets os n \<longleftrightarrow> 2 \<le> length os \<and> hd os = 0 \<and> last os = n \<and> n < 2 ^ 31 \<and> increasing os"

lemma segment_ids_iff:
  "segment_ids offsets n = Inr ids \<longleftrightarrow> (\<exists>os. offsets = map PInt os \<and> packed_offsets os n \<and> ids = ids_from 0 os)"
proof (cases "obj_ints offsets")
  case None
  then have "offsets \<noteq> map PInt os" for os using obj_ints_Some [of offsets os] by simp
  with None show ?thesis by (simp add: segment_ids_def)
next
  case (Some os)
  then have o: "offsets = map PInt os" by (simp add: obj_ints_Some)
  have "map PInt os = map PInt os' \<longleftrightarrow> os = os'" for os' by (auto intro: map_injective simp: inj_def)
  with Some o show ?thesis
    by (auto simp: segment_ids_def ids_from_segments increasing_segments packed_offsets_def rcheck_def)
qed

lemma length_ids_from: "increasing os \<Longrightarrow> os \<noteq> [] \<Longrightarrow> int (length (ids_from i os)) = last os - hd os"
  by (induction i os rule: ids_from.induct) auto

lemma length_positions_from: "length (positions_from os) = length (ids_from i os)"
  by (induction i os rule: ids_from.induct) auto

text \<open>Every token's position is its distance from the start of its segment.\<close>

lemma ids_from_nth:
  "increasing os \<Longrightarrow> j < length (ids_from i os) \<Longrightarrow>
   i \<le> ids_from i os ! j \<and> Suc (ids_from i os ! j - i) < length os
   \<and> os ! (ids_from i os ! j - i) \<le> hd os + int j \<and> hd os + int j < os ! Suc (ids_from i os ! j - i)
   \<and> positions_from os ! j = hd os + int j - os ! (ids_from i os ! j - i)"
proof (induction i os arbitrary: j rule: ids_from.induct)
  case (1 i a b os)
  let ?w = "nat (b - a)"
  have ab: "a < b" "increasing (b # os)" using "1.prems"(1) by auto
  show ?case
  proof (cases "j < ?w")
    case True
    then show ?thesis using ab by (simp add: nth_append)
  next
    case False
    define k where "k = j - ?w"
    have jk: "j = ?w + k" using False by (simp add: k_def)
    have "k < length (ids_from (Suc i) (b # os))" using "1.prems"(2) jk by simp
    note IH = "1.IH" [OF ab(2) this]
    let ?m = "ids_from (Suc i) (b # os) ! k"
    have "Suc i \<le> ?m" using IH by blast
    then have m: "?m - i = Suc (?m - Suc i)" by (rule Suc_diff_Suc [symmetric, OF Suc_le_lessD])
    have "ids_from i (a # b # os) ! j = ?m" "positions_from (a # b # os) ! j = positions_from (b # os) ! k"
      using jk by (simp_all add: nth_append)
    moreover have "hd (a # b # os) + int j = b + int k" using ab(1) jk by simp
    ultimately show ?thesis using IH m by simp
  qed
qed simp_all

text \<open>The positions determine the offsets: they start again at \<open>0\<close> exactly where a segment starts.\<close>

lemma positions_from_Cons:
  "increasing (a # b # os) \<Longrightarrow> \<exists>ps. positions_from (a # b # os) = map int [0..<nat (b - a)] @ ps \<and> (ps = [] \<or> hd ps = 0) \<and> ps = positions_from (b # os)"
  by (cases os) (auto simp: upt_conv_Cons)

lemma counting_prefix:
  assumes "map int [0..<m] @ ps = map int [0..<n] @ qs" and "ps = [] \<or> hd ps = 0" and "qs = [] \<or> hd qs = 0" and "0 < m" "0 < n"
  shows "m = n"
proof -
  have False if le: "m' < n'" "0 < m'" "map int [0..<m'] @ ps' = map int [0..<n'] @ qs'" "ps' = [] \<or> hd ps' = 0" for m' n' ps' qs'
  proof -
    have len: "length (map int [0..<m'] @ ps') = length (map int [0..<n'] @ qs')" using le(3) by simp
    then have "ps' \<noteq> []" using le(1) by auto
    then have "(map int [0..<m'] @ ps') ! m' = 0" using le(4) by (simp add: nth_append hd_conv_nth)
    moreover have "(map int [0..<n'] @ qs') ! m' = int m'" using le(1) by (simp add: nth_append)
    ultimately show False using le(2,3) by simp
  qed
  from this [of m n ps qs] this [of n m qs ps] assms show ?thesis by (metis linorder_neqE_nat)
qed

lemma positions_determine_offsets:
  "increasing (a # os) \<Longrightarrow> increasing (a # os') \<Longrightarrow> positions_from (a # os) = positions_from (a # os') \<Longrightarrow> os = os'"
proof (induction os arbitrary: a os')
  case Nil
  then show ?case by (cases os') (auto simp: upt_conv_Cons)
next
  case (Cons b os)
  then obtain b' os1 where os': "os' = b' # os1" by (cases os') (auto simp: upt_conv_Cons)
  obtain ps where ps: "positions_from (a # b # os) = map int [0..<nat (b - a)] @ ps" "ps = [] \<or> hd ps = 0" "ps = positions_from (b # os)"
    using positions_from_Cons [OF Cons.prems(1)] by blast
  obtain qs where qs: "positions_from (a # b' # os1) = map int [0..<nat (b' - a)] @ qs" "qs = [] \<or> hd qs = 0" "qs = positions_from (b' # os1)"
    using positions_from_Cons Cons.prems(2) os' by blast
  have "nat (b - a) = nat (b' - a)"
    using counting_prefix [of "nat (b - a)" ps "nat (b' - a)" qs] Cons.prems ps qs os' by auto
  then have b: "b' = b" using Cons.prems(1,2) os' by auto
  have "ps = qs" using Cons.prems(3) ps(1) qs(1) os' b by simp
  then have "os = os1" using Cons.IH [of b os1] Cons.prems(1,2) ps(3) qs(3) os' b by simp
  then show ?case using os' b by simp
qed

text \<open>The layout check accepts exactly the right segmentation: when it passes, every token belongs to the segment
  between whose offsets it lies and its text position is its distance from the segment's start; and no other
  offsets pass with the same text positions, so a wrong boundary cannot reach the kernels.\<close>

theorem layout_check_exact:
  assumes "validate_layout input_shape position_shape offsets positions = Inr ids"
  shows "\<exists>os n. offsets = map PInt os \<and> input_shape = [1, n] \<and> length ids = n
    \<and> (\<forall>j<n. Suc (ids ! j) < length os \<and> os ! (ids ! j) \<le> int j \<and> int j < os ! Suc (ids ! j) \<and> positions ! j = int j - os ! (ids ! j))
    \<and> (\<forall>offsets' shape'. (\<exists>ids'. validate_layout shape' position_shape offsets' positions = Inr ids') \<longrightarrow> offsets' = offsets)"
proof -
  have layout: "\<exists>os n. offsets = map PInt os \<and> shape = [1, n] \<and> packed_offsets os (int n) \<and> ids = ids_from 0 os \<and> positions = positions_from os"
    if "validate_layout shape position_shape offsets positions = Inr ids" for shape offsets ids
    using that obj_ints_Some [of "map PInt _", THEN iffD2, OF refl]
    by (auto simp: validate_layout_def rcheck_eq_Inr rbind_eq_Inr segment_ids_iff expected_positions_from numeral_2_eq_2 length_Suc_conv)
  obtain os n where os: "offsets = map PInt os" "input_shape = [1, n]" "packed_offsets os (int n)" "ids = ids_from 0 os" "positions = positions_from os"
    using layout [OF assms] by blast
  have inc: "increasing os" "hd os = 0" "os \<noteq> []" "last os = int n" using os(3) by (auto simp: packed_offsets_def)
  have len: "length ids = n" using length_ids_from [OF inc(1,3), of 0] inc os(4) by simp
  have "offsets' = offsets" if v: "validate_layout shape' position_shape offsets' positions = Inr ids'" for offsets' shape' ids'
  proof -
    obtain os' n' where os': "offsets' = map PInt os'" "packed_offsets os' (int n')" "positions = positions_from os'"
      using layout [OF v] by blast
    then have "increasing os'" "hd os' = 0" "os' \<noteq> []" by (auto simp: packed_offsets_def)
    then have "os' = os"
      using positions_determine_offsets [of 0 "tl os" "tl os'"] inc os(5) os'(3) by (metis list.collapse)
    then show ?thesis using os(1) os'(1) by simp
  qed
  moreover have "Suc (ids ! j) < length os \<and> os ! (ids ! j) \<le> int j \<and> int j < os ! Suc (ids ! j) \<and> positions ! j = int j - os ! (ids ! j)"
    if "j < n" for j
    using ids_from_nth [OF inc(1), of j 0] that len inc(2) os(4,5) by simp
  ultimately show ?thesis using os(1,2) len by blast
qed

theorem layout_check_exact_witness:
  "validate_layout [1, 5] [4, 1, 5] [PInt 0, PInt 2, PInt 5] [0, 1, 0, 1, 2] = Inr [0, 0, 1, 1, 1]
    \<and> \<not> (\<exists>ids. validate_layout [1, 5] [4, 1, 5] [PInt 0, PInt 3, PInt 5] [0, 1, 0, 1, 2] = Inr ids)"
proof -
  have ok: "validate_layout [1, 5] [4, 1, 5] [PInt 0, PInt 2, PInt 5] [0, 1, 0, 1, 2] = Inr [0, 0, 1, 1, 1]" by code_simp
  from layout_check_exact [OF ok] have "validate_layout [1, 5] [4, 1, 5] [PInt 0, PInt 3, PInt 5] [0, 1, 0, 1, 2] = Inr ids
      \<Longrightarrow> [PInt 0, PInt 3, PInt 5] = [PInt 0, PInt 2, PInt 5]" for ids
    by blast
  then show ?thesis using ok by auto
qed

section \<open>Effects of the operations\<close>

lemma emit_fields [simp]:
  "au_arm (emit k st) = au_arm st" "au_layers (emit k st) = au_layers st" "au_batch (emit k st) = au_batch st"
  "au_next (emit k st) = au_next st" "au_tickets (emit k st) = au_tickets st" "au_call (emit k st) = au_call st"
  "au_tokens (emit k st) = au_tokens st" "au_in_backward (emit k st) = au_in_backward st"
  "au_kernels (emit k st) = au_kernels st" "au_decoders (emit k st) = au_decoders st" "au_counts (emit k st) = au_counts st"
  by (simp_all add: emit_def)

lemma bump_count_fields [simp]:
  "au_arm (bump_count k st) = au_arm st" "au_layers (bump_count k st) = au_layers st" "au_batch (bump_count k st) = au_batch st"
  "au_next (bump_count k st) = au_next st" "au_tickets (bump_count k st) = au_tickets st" "au_call (bump_count k st) = au_call st"
  "au_tokens (bump_count k st) = au_tokens st" "au_emitted (bump_count k st) = au_emitted st" "au_log (bump_count k st) = au_log st"
  "au_kernels (bump_count k st) = au_kernels st" "au_decoders (bump_count k st) = au_decoders st"
  by (simp_all add: bump_count_def)

lemma batch_failed_fields [simp]:
  "au_arm (batch_failed st) = au_arm st" "au_layers (batch_failed st) = au_layers st" "au_batch (batch_failed st) = None"
  "au_next (batch_failed st) = au_next st" "au_tickets (batch_failed st) = au_tickets st" "au_call (batch_failed st) = au_call st"
  "au_tokens (batch_failed st) = au_tokens st" "au_kernels (batch_failed st) = au_kernels st" "au_decoders (batch_failed st) = au_decoders st"
  by (simp_all add: batch_failed_def)

text \<open>Steps that only open or close a batch, or change the phase, leave tickets, calls and effects alone.\<close>

definition same_evidence :: "boundary_audit \<Rightarrow> boundary_audit \<Rightarrow> bool" where
  "same_evidence st st' \<longleftrightarrow> au_arm st' = au_arm st \<and> au_layers st' = au_layers st \<and> au_next st' = au_next st \<and> au_tickets st' = au_tickets st
     \<and> au_call st' = au_call st \<and> au_tokens st' = au_tokens st \<and> au_kernels st' = au_kernels st \<and> au_decoders st' = au_decoders st"

lemma batch_end_same: "batch_end st = (r, st') \<Longrightarrow> same_evidence st st' \<and> au_batch st' = None"
  by (auto simp: batch_end_def Let_def same_evidence_def split: if_splits)

lemma prepare_inputsD:
  assumes "prepare_inputs inp offsets st = Inr (t, st')"
  shows "\<exists>tk. t = Suc (au_next st) \<and> (\<exists>n. segment_ids (map PInt (tk_cu tk)) n = Inr (tk_seq tk)) \<and> tk_calls tk = (\<lambda>_. 0) \<and> tk_seen tk = []
    \<and> tk_train tk = (au_batch st \<noteq> None)
    \<and> st' = emit (GuardKey (tk_train tk)) (bump_count ''packed_guards'' (st\<lparr>au_next := t, au_tickets := (au_tickets st)(t \<mapsto> tk),
          au_batch := map_option (\<lambda>ts. ts @ [t]) (au_batch st)\<rparr>))"
proof -
  obtain ids where ids: "validate_layout (bi_input_shape inp) (bi_position_shape inp) offsets (bi_text_positions inp) = Inr ids"
      and st': "t = Suc (au_next st)"
        "st' = emit (GuardKey (au_batch st \<noteq> None)) (bump_count ''packed_guards'' (st\<lparr>au_next := t,
          au_tickets := (au_tickets st)(t \<mapsto> \<lparr>tk_cu = the (obj_ints offsets), tk_seq = ids, tk_train = au_batch st \<noteq> None, tk_calls = (\<lambda>_. 0), tk_seen = []\<rparr>),
          au_batch := map_option (\<lambda>ts. ts @ [t]) (au_batch st)\<rparr>))"
    using assms by (auto simp: prepare_inputs_def Let_def rcheck_eq_Inr rbind_eq_Inr)
  obtain n where n: "segment_ids offsets n = Inr ids" using ids by (auto simp: validate_layout_def rbind_eq_Inr)
  then obtain os where "offsets = map PInt os" by (auto simp: segment_ids_iff)
  then have "segment_ids (map PInt (the (obj_ints offsets))) n = Inr ids" using n obj_ints_Some [of offsets os] by simp
  then show ?thesis using st' by (intro exI [of _ "\<lparr>tk_cu = the (obj_ints offsets), tk_seq = ids, tk_train = au_batch st \<noteq> None, tk_calls = (\<lambda>_. 0), tk_seen = []\<rparr>"]) auto
qed

lemma decoder_enterD:
  assumes "decoder_enter name True kw st = Inr (native, st')"
  shows "\<exists>t tk phase. au_tickets st t = Some tk \<and> phase = (if tk_calls tk name = 0 then Forward else Recompute)
    \<and> native = (case au_arm st of BaselineArm \<Rightarrow> None | BoundaryArm \<Rightarrow> Some (SeqOf t, CuOf t))
    \<and> st' = st\<lparr>au_tickets := (au_tickets st)(t \<mapsto> tk\<lparr>tk_calls := (tk_calls tk)(name := Suc (tk_calls tk name))\<rparr>),
          au_call := Some (t, name, phase), au_tokens := au_call st # au_tokens st, au_decoders := au_decoders st @ [(t, name, phase)]\<rparr>"
proof -
  obtain t tk where t: "dk_ticket kw = Some t" "au_tickets st t = Some tk"
    using assms by (auto simp: decoder_enter_def split: option.splits)
  let ?phase = "if au_in_backward st then Recompute else Forward"
  have ok: "if au_in_backward st then 0 < tk_calls tk name else tk_calls tk name = 0"
    and st': "native = (case au_arm st of BaselineArm \<Rightarrow> None | BoundaryArm \<Rightarrow> Some (SeqOf t, CuOf t))"
      "st' = st\<lparr>au_tickets := (au_tickets st)(t \<mapsto> tk\<lparr>tk_calls := (tk_calls tk)(name := Suc (tk_calls tk name))\<rparr>),
          au_call := Some (t, name, ?phase), au_tokens := au_call st # au_tokens st, au_decoders := au_decoders st @ [(t, name, ?phase)]\<rparr>"
    using assms t by (simp_all add: decoder_enter_def Let_def rcheck_eq_Inr rbind_eq_Inr)
  have "?phase = (if tk_calls tk name = 0 then Forward else Recompute)" using ok by (simp split: if_splits)
  then show ?thesis using t(2) st' by (intro exI [of _ t] exI [of _ tk] exI [of _ ?phase]) simp
qed

lemma kernel_callD:
  assumes "kernel_call layer kind actual st = Inr st'"
  shows "\<exists>t tk phase. au_call st = Some (t, layer, phase) \<and> au_tickets st t = Some tk \<and> actual = expected_argument (au_arm st) kind t
    \<and> au_tickets st' = (au_tickets st)(t \<mapsto> tk\<lparr>tk_seen := (layer, phase, kind) # tk_seen tk\<rparr>)
    \<and> au_kernels st' = au_kernels st @ [(t, layer, phase, kind, actual)]
    \<and> au_arm st' = au_arm st \<and> au_layers st' = au_layers st \<and> au_next st' = au_next st \<and> au_call st' = au_call st \<and> au_tokens st' = au_tokens st
    \<and> au_decoders st' = au_decoders st \<and> au_batch st' = au_batch st
    \<and> (\<exists>s. st' = emit (KernelKey (tk_train tk) phase kind) s\<lparr>au_kernels := au_kernels st'\<rparr> \<and> au_emitted s = au_emitted st \<and> au_log s = au_log st)"
proof -
  obtain t phase tk where c: "au_call st = Some (t, layer, phase)" "au_tickets st t = Some tk" "actual = expected_argument (au_arm st) kind t"
    using assms by (auto simp: kernel_call_def rcheck_eq_Inr rbind_eq_Inr split: option.splits)
  let ?s = "bump_count (mode_text (tk_train tk) @ ''_'' @ phase_text phase @ ''_'' @ kind_text kind)
      (st\<lparr>au_tickets := (au_tickets st)(t \<mapsto> tk\<lparr>tk_seen := (layer, phase, kind) # tk_seen tk\<rparr>)\<rparr>)"
  have st': "st' = emit (KernelKey (tk_train tk) phase kind) ?s
      \<lparr>au_kernels := au_kernels st @ [(t, layer, phase, kind, actual)]\<rparr>"
    using assms c by (simp add: kernel_call_def Let_def)
  show ?thesis
    by (rule exI [of _ t], rule exI [of _ tk], rule exI [of _ phase]) (use c st' in \<open>auto intro!: exI [of _ ?s]\<close>)
qed

section \<open>Evidence\<close>

definition calls_live :: "boundary_audit \<Rightarrow> bool" where
  "calls_live st \<longleftrightarrow> (\<forall>c\<in>set (au_call st # au_tokens st). \<forall>t l p. c = Some (t, l, p) \<longrightarrow> (t, l, p) \<in> set (au_decoders st))"

definition evidence_ok :: "boundary_audit \<Rightarrow> bool" where
  "evidence_ok st \<longleftrightarrow>
     (\<forall>t l p k. (l, p, k) \<in> set (ticket_seen st t) \<longrightarrow> (t, l, p, k, expected_argument (au_arm st) k t) \<in> set (au_kernels st))
   \<and> (\<forall>(t, l, p, k, a)\<in>set (au_kernels st). a = expected_argument (au_arm st) k t \<and> (t, l, p) \<in> set (au_decoders st) \<and> au_tickets st t \<noteq> None)"

definition tickets_ok :: "boundary_audit \<Rightarrow> bool" where
  "tickets_ok st \<longleftrightarrow>
     (\<forall>t. au_tickets st t \<noteq> None \<longrightarrow> t \<le> au_next st)
   \<and> (\<forall>t tk. au_tickets st t = Some tk \<longrightarrow> (\<exists>n. segment_ids (map PInt (tk_cu tk)) n = Inr (tk_seq tk)))
   \<and> (\<forall>ts. au_batch st = Some ts \<longrightarrow> distinct ts \<and> (\<forall>t\<in>set ts. \<exists>tk. au_tickets st t = Some tk \<and> tk_train tk))"

lemma same_evidence_live: "same_evidence st st' \<Longrightarrow> calls_live st \<Longrightarrow> calls_live st'"
  by (simp add: same_evidence_def calls_live_def)

lemma same_evidence_ok: "same_evidence st st' \<Longrightarrow> evidence_ok st \<Longrightarrow> evidence_ok st'"
  by (simp add: same_evidence_def evidence_ok_def ticket_seen_def)

lemma evidence_ok_ticket:
  assumes ok: "evidence_ok st" and t: "au_tickets st' = (au_tickets st)(t \<mapsto> tk)" "set (tk_seen tk) \<subseteq> set (ticket_seen st t)"
    and same: "au_kernels st' = au_kernels st" "au_arm st' = au_arm st" "set (au_decoders st) \<subseteq> set (au_decoders st')"
  shows "evidence_ok st'"
proof -
  have seen: "set (ticket_seen st' u) \<subseteq> set (ticket_seen st u)" for u using t by (auto simp: ticket_seen_def)
  have live: "au_tickets st u \<noteq> None \<Longrightarrow> au_tickets st' u \<noteq> None" for u using t(1) by auto
  show ?thesis
    unfolding evidence_ok_def same(1,2)
    using ok [unfolded evidence_ok_def] live same(3) by (auto dest!: subsetD [OF seen])
qed

lemma step_kinds:
  assumes "overlay_step st st'"
  obtains (same) "same_evidence st st'" "au_batch st' = None \<or> au_batch st' = Some [] \<or> au_batch st' = au_batch st"
  | (prepare) inp offsets t where "prepare_inputs inp offsets st = Inr (t, st')"
  | (enter) name kw native where "decoder_enter name True kw st = Inr (native, st')"
  | (leave) "st' = decoder_leave st" "au_tokens st \<noteq> []"
  | (kernel) layer kind actual where "layer \<in> set (au_layers st)" "kernel_call layer kind actual st = Inr st'"
  using assms
proof (cases rule: overlay_step.cases)
  case start
  then show thesis by (intro same) (auto simp: batch_start_def rbind_eq_Inr same_evidence_def)
next
  case (complete r)
  then show thesis using batch_end_same same by blast
next
  case abort
  then show thesis by (intro same) (auto simp: same_evidence_def)
next
  case (backward b)
  then show thesis by (intro same) (auto simp: same_evidence_def)
qed (blast intro: prepare enter leave kernel)+

lemma step_calls_live: "overlay_step st st' \<Longrightarrow> calls_live st \<Longrightarrow> calls_live st'"
proof (erule step_kinds)
  assume live: "calls_live st"
  show "calls_live st'" if "same_evidence st st'" using that live by (rule same_evidence_live)
  show "calls_live st'" if "prepare_inputs inp offsets st = Inr (t, st')" for inp offsets t
    using prepare_inputsD [OF that] live by (auto simp: calls_live_def)
  show "calls_live st'" if "decoder_enter name True kw st = Inr (native, st')" for name kw native
    using decoder_enterD [OF that] live by (fastforce simp: calls_live_def)
  show "calls_live st'" if "st' = decoder_leave st" "au_tokens st \<noteq> []"
    using that live by (auto simp: calls_live_def decoder_leave_def split: list.splits)
  show "calls_live st'" if "kernel_call layer kind actual st = Inr st'" for layer kind actual
    using kernel_callD [OF that] live by (auto simp: calls_live_def)
qed

lemma step_evidence_ok:
  assumes "overlay_step st st'" and live: "calls_live st" and tickets: "tickets_ok st" and ok: "evidence_ok st"
  shows "evidence_ok st'"
  using assms(1)
proof (cases rule: step_kinds)
  case same
  then show ?thesis using same_evidence_ok ok by blast
next
  case (prepare inp offsets t)
  from prepare_inputsD [OF this] obtain tk where tk: "au_tickets st' = (au_tickets st)(t \<mapsto> tk)" "tk_seen tk = []"
      "au_kernels st' = au_kernels st" "au_arm st' = au_arm st" "au_decoders st' = au_decoders st" by auto
  show ?thesis by (rule evidence_ok_ticket [OF ok tk(1)]) (simp_all add: tk)
next
  case (enter name kw native)
  from decoder_enterD [OF this] obtain t tk tk' p where tk: "au_tickets st t = Some tk" "au_tickets st' = (au_tickets st)(t \<mapsto> tk')" "tk_seen tk' = tk_seen tk"
      "au_kernels st' = au_kernels st" "au_arm st' = au_arm st" "au_decoders st' = au_decoders st @ [(t, name, p)]" by auto
  show ?thesis by (rule evidence_ok_ticket [OF ok tk(2)]) (use tk in \<open>auto simp: ticket_seen_def\<close>)
next
  case leave
  then show ?thesis using ok by (auto simp: evidence_ok_def ticket_seen_def decoder_leave_def split: list.splits)
next
  case (kernel layer kind actual)
  from kernel_callD [OF kernel(2)] obtain t tk phase where k: "au_call st = Some (t, layer, phase)" "au_tickets st t = Some tk"
      "actual = expected_argument (au_arm st) kind t"
      "au_tickets st' = (au_tickets st)(t \<mapsto> tk\<lparr>tk_seen := (layer, phase, kind) # tk_seen tk\<rparr>)"
      "au_kernels st' = au_kernels st @ [(t, layer, phase, kind, actual)]" "au_arm st' = au_arm st" "au_decoders st' = au_decoders st"
    by blast
  have "(t, layer, phase) \<in> set (au_decoders st)" using live k(1) by (auto simp: calls_live_def)
  moreover have "ticket_seen st' u = (if u = t then (layer, phase, kind) # ticket_seen st u else ticket_seen st u)" for u
    using k(2,4) by (simp add: ticket_seen_def)
  ultimately show ?thesis
    unfolding evidence_ok_def k(5-7) using ok [unfolded evidence_ok_def] k(2-4) by (auto split: if_splits)
qed

lemma step_tickets_ok:
  assumes "overlay_step st st'" and ok: "tickets_ok st"
  shows "tickets_ok st'"
  using assms(1)
proof (cases rule: step_kinds)
  case same
  then show ?thesis using ok by (auto simp: tickets_ok_def same_evidence_def)
next
  case (prepare inp offsets t)
  from prepare_inputsD [OF this] obtain tk where p: "t = Suc (au_next st)" "\<exists>n. segment_ids (map PInt (tk_cu tk)) n = Inr (tk_seq tk)"
      "tk_train tk = (au_batch st \<noteq> None)"
      "st' = emit (GuardKey (tk_train tk)) (bump_count ''packed_guards'' (st\<lparr>au_next := t, au_tickets := (au_tickets st)(t \<mapsto> tk),
          au_batch := map_option (\<lambda>ts. ts @ [t]) (au_batch st)\<rparr>))" by blast
  have tk: "au_tickets st' = (au_tickets st)(t \<mapsto> tk)" "au_next st' = t" "au_batch st' = map_option (\<lambda>ts. ts @ [t]) (au_batch st)"
    by (simp_all add: p(4))
  have old: "u \<le> au_next st" if "au_tickets st u = Some v" for u v using ok that by (auto simp: tickets_ok_def)
  have batch: "t \<notin> set ts \<and> distinct ts \<and> (\<forall>u\<in>set ts. \<exists>v. au_tickets st u = Some v \<and> tk_train v)" if "au_batch st = Some ts" for ts
    using ok that old p(1) by (fastforce simp: tickets_ok_def)
  have "u \<le> t" if "au_tickets st u = Some v" for u v using old [OF that] p(1) by simp
  then show ?thesis
    using ok batch p(2,3) tk unfolding tickets_ok_def by auto
next
  case (enter name kw native)
  from decoder_enterD [OF this] ok show ?thesis unfolding tickets_ok_def by (elim exE conjE) (simp, fastforce)
next
  case leave
  then show ?thesis using ok by (auto simp: tickets_ok_def decoder_leave_def split: list.splits)
next
  case (kernel layer kind actual)
  from kernel_callD [OF kernel(2)] ok show ?thesis unfolding tickets_ok_def by (elim exE conjE) (simp, fastforce)
qed

section \<open>The order of the passes\<close>

definition decoder_phases :: "boundary_audit \<Rightarrow> nat \<Rightarrow> string \<Rightarrow> decoder_phase list" where
  "decoder_phases st t l = map (\<lambda>(_, _, p). p) (filter (\<lambda>(t', l', _). t' = t \<and> l' = l) (au_decoders st))"

definition passes :: "nat \<Rightarrow> decoder_phase list" where
  "passes n = (if n = 0 then [] else Forward # replicate (n - 1) Recompute)"

lemma passes_Suc: "passes (Suc n) = passes n @ [if n = 0 then Forward else Recompute]"
  by (cases n) (simp_all add: passes_def replicate_append_same)

definition ticket_calls :: "boundary_audit \<Rightarrow> nat \<Rightarrow> string \<Rightarrow> nat" where
  "ticket_calls st t l = (case au_tickets st t of None \<Rightarrow> 0 | Some tk \<Rightarrow> tk_calls tk l)"

definition order_ok :: "boundary_audit \<Rightarrow> bool" where
  "order_ok st \<longleftrightarrow> (\<forall>t l. decoder_phases st t l = passes (ticket_calls st t l))"

lemma order_ok_same:
  "order_ok st \<Longrightarrow> au_decoders st' = au_decoders st \<Longrightarrow> (\<And>t l. ticket_calls st' t l = ticket_calls st t l) \<Longrightarrow> order_ok st'"
  by (simp add: order_ok_def decoder_phases_def)

lemma step_order_ok:
  assumes "overlay_step st st'" and tickets: "tickets_ok st" and ok: "order_ok st"
  shows "order_ok st'"
  using assms(1)
proof (cases rule: step_kinds)
  case same
  then show ?thesis using ok by (intro order_ok_same [OF ok]) (auto simp: same_evidence_def ticket_calls_def)
next
  case (prepare inp offsets t)
  have "au_tickets st (Suc (au_next st)) = None" using tickets by (metis Suc_n_not_le_n tickets_ok_def)
  with prepare_inputsD [OF prepare] show ?thesis by (intro order_ok_same [OF ok]) (auto simp: ticket_calls_def)
next
  case (enter name kw native)
  from decoder_enterD [OF this] obtain t tk phase where e: "au_tickets st t = Some tk" "phase = (if tk_calls tk name = 0 then Forward else Recompute)"
      "st' = st\<lparr>au_tickets := (au_tickets st)(t \<mapsto> tk\<lparr>tk_calls := (tk_calls tk)(name := Suc (tk_calls tk name))\<rparr>),
          au_call := Some (t, name, phase), au_tokens := au_call st # au_tokens st, au_decoders := au_decoders st @ [(t, name, phase)]\<rparr>"
    by blast
  have calls: "ticket_calls st' u l = (if u = t \<and> l = name then Suc (ticket_calls st u l) else ticket_calls st u l)" for u l
    using e(1) by (simp add: e(3) ticket_calls_def)
  have "decoder_phases st' u l = (if u = t \<and> l = name then decoder_phases st u l @ [phase] else decoder_phases st u l)" for u l
    by (simp add: e(3) decoder_phases_def)
  moreover have "phase = (if ticket_calls st t name = 0 then Forward else Recompute)" using e(1,2) by (simp add: ticket_calls_def)
  ultimately show ?thesis using ok calls by (simp add: order_ok_def passes_Suc)
next
  case leave
  then show ?thesis by (intro order_ok_same [OF ok]) (auto simp: decoder_leave_def ticket_calls_def split: list.splits)
next
  case (kernel layer kind actual)
  from kernel_callD [OF kernel(2)] show ?thesis by (elim exE conjE) (rule order_ok_same [OF ok]; simp add: ticket_calls_def)
qed

section \<open>The records\<close>

definition all_audit_keys :: "audit_key list" where
  "all_audit_keys = [EventKey ''actor_engine_installed'', EventKey ''model_wrapped'', EventKey ''backward_batch_complete'',
     EventKey ''audit_failure'', GuardKey True, GuardKey False]
     @ [KernelKey b p k. b \<leftarrow> [True, False], p \<leftarrow> [Forward, Recompute], k \<leftarrow> [Conv, Gdn]]"

definition log_ok :: "boundary_audit \<Rightarrow> bool" where
  "log_ok st \<longleftrightarrow> distinct (au_log st) \<and> set (au_emitted st) = set (au_log st) \<and> set (au_log st) \<subseteq> set all_audit_keys"

lemma log_ok_emit: "log_ok st \<Longrightarrow> key \<in> set all_audit_keys \<Longrightarrow> log_ok (emit key st)"
  by (auto simp: log_ok_def emit_def)

lemma log_ok_same: "log_ok st \<Longrightarrow> au_log st' = au_log st \<Longrightarrow> au_emitted st' = au_emitted st \<Longrightarrow> log_ok st'"
  by (simp only: log_ok_def)

lemma kernel_key_listed: "KernelKey b p k \<in> set all_audit_keys"
  by (cases b; cases p; cases k) (simp_all add: all_audit_keys_def)

lemma guard_key_listed: "GuardKey b \<in> set all_audit_keys"
  by (cases b) (simp_all add: all_audit_keys_def)

lemma log_ok_failed: "log_ok st \<Longrightarrow> log_ok (batch_failed st)"
  by (rule log_ok_same [OF log_ok_emit [of st "EventKey ''audit_failure''"]]) (simp_all add: batch_failed_def all_audit_keys_def)

lemma step_log_ok:
  assumes "overlay_step st st'" and ok: "log_ok st"
  shows "log_ok st'"
  using assms(1)
proof (cases rule: overlay_step.cases)
  case start
  then show ?thesis using ok by (auto simp: batch_start_def rbind_eq_Inr intro: log_ok_same)
next
  case (complete r)
  have "log_ok (emit (EventKey ''backward_batch_complete'') (bump_count ''backward_batches'' st))"
    by (rule log_ok_emit [OF log_ok_same [OF ok]]) (simp_all add: all_audit_keys_def)
  with complete log_ok_failed [OF ok] show ?thesis
    by (auto simp: batch_end_def Let_def split: if_splits intro: log_ok_same)
next
  case abort
  then show ?thesis using log_ok_failed [OF ok] by simp
next
  case (prepare inp offsets t)
  from prepare_inputsD [OF this] show ?thesis
    by (elim exE conjE) (simp only:, rule log_ok_emit [OF log_ok_same [OF ok] guard_key_listed], simp_all)
next
  case (enter name kw native)
  from decoder_enterD [OF enter(2)] show ?thesis by (elim exE conjE) (rule log_ok_same [OF ok]; simp)
next
  case leave
  then show ?thesis by (auto simp: decoder_leave_def split: list.splits intro: log_ok_same [OF ok])
next
  case (kernel layer kind actual)
  from kernel_callD [OF kernel(2)] obtain tk :: boundary_ticket and phase s where k: "st' = emit (KernelKey (tk_train tk) phase kind) s\<lparr>au_kernels := au_kernels st'\<rparr>"
      "au_emitted s = au_emitted st" "au_log s = au_log st" by blast
  have "log_ok (emit (KernelKey (tk_train tk) phase kind) s)" by (rule log_ok_emit [OF log_ok_same [OF ok k(3,2)] kernel_key_listed])
  then show ?thesis by (subst k(1)) (rule log_ok_same; simp add: emit_def)
next
  case (backward b)
  then show ?thesis by (intro log_ok_same [OF ok]) simp_all
qed

section \<open>Reachable states\<close>

definition overlay_inv :: "boundary_arm \<Rightarrow> string list \<Rightarrow> boundary_audit \<Rightarrow> bool" where
  "overlay_inv arm layers st \<longleftrightarrow> au_arm st = arm \<and> au_layers st = layers
     \<and> calls_live st \<and> tickets_ok st \<and> evidence_ok st \<and> order_ok st \<and> log_ok st"

definition linear_names :: "decoder_layer list \<Rightarrow> string list" where
  "linear_names ls = map dl_name (filter (\<lambda>l. dl_type l = ''linear_attention'') ls)"

lemma check_layers_names:
  "rmap check_layer ls = Inr cs \<Longrightarrow> concat (map (\<lambda>x. case x of None \<Rightarrow> [] | Some n \<Rightarrow> [n]) cs) = linear_names ls"
  by (induction ls arbitrary: cs) (auto simp: check_layer_def linear_names_def rbind_eq_Inr split: if_splits)

lemma install_overlayD:
  assumes "install_overlay arm engine model = Inr st" and "ae_overlay engine = None"
  shows "overlay_inv arm (linear_names (am_layers model)) st \<and> linear_names (am_layers model) \<noteq> [] \<and> au_batch st = None"
proof -
  obtain m where i: "install_model model (emit (EventKey ''actor_engine_installed'') (audit_new arm)) = Inr (m, st)"
    using assms by (auto simp: install_overlay_def patch_engine_def Let_def rbind_eq_Inr)
  then obtain cs where cs: "rmap check_layer (am_layers model) = Inr cs"
    by (auto simp: install_model_def rbind_eq_Inr)
  note names = check_layers_names [OF this]
  have st: "linear_names (am_layers model) \<noteq> []"
    "st = emit (EventKey ''model_wrapped'') (emit (EventKey ''actor_engine_installed'') (audit_new arm)\<lparr>au_layers := linear_names (am_layers model)\<rparr>)"
    using i cs names by (auto simp: install_model_def rbind_eq_Inr rcheck_eq_Inr Let_def)
  have "log_ok (emit (EventKey ''actor_engine_installed'') (audit_new arm))"
    by (rule log_ok_emit) (simp_all add: log_ok_def audit_new_def all_audit_keys_def)
  then have "log_ok st" unfolding st(2)
    by (intro log_ok_emit) (auto simp: all_audit_keys_def intro: log_ok_same)
  then show ?thesis
    using st(1) by (simp add: overlay_inv_def st(2) audit_new_def calls_live_def tickets_ok_def evidence_ok_def order_ok_def
        ticket_seen_def ticket_calls_def decoder_phases_def passes_def)
qed

lemma step_keeps_layers: "overlay_step st st' \<Longrightarrow> au_arm st' = au_arm st \<and> au_layers st' = au_layers st"
proof (erule step_kinds)
  show "au_arm st' = au_arm st \<and> au_layers st' = au_layers st" if "same_evidence st st'" using that by (simp add: same_evidence_def)
  show "au_arm st' = au_arm st \<and> au_layers st' = au_layers st" if "prepare_inputs inp offsets st = Inr (t, st')" for inp offsets t
    using prepare_inputsD [OF that] by auto
  show "au_arm st' = au_arm st \<and> au_layers st' = au_layers st" if "decoder_enter name True kw st = Inr (native, st')" for name kw native
    using decoder_enterD [OF that] by auto
  show "au_arm st' = au_arm st \<and> au_layers st' = au_layers st" if "st' = decoder_leave st" "au_tokens st \<noteq> []"
    using that by (auto simp: decoder_leave_def split: list.splits)
  show "au_arm st' = au_arm st \<and> au_layers st' = au_layers st" if "kernel_call layer kind actual st = Inr st'" for layer kind actual
    using kernel_callD [OF that] by blast
qed

lemma overlay_inv_reachable:
  assumes "overlay_step\<^sup>*\<^sup>* st st'" and "overlay_inv arm layers st"
  shows "overlay_inv arm layers st'"
  using assms(1)
proof (induction rule: rtranclp_induct)
  case (step s s')
  then show ?case
    using step_keeps_layers step_calls_live step_tickets_ok step_evidence_ok step_order_ok step_log_ok
    unfolding overlay_inv_def by metis
qed (rule assms(2))

section \<open>Running layers\<close>

text \<open>The calls of layers and of kernels among the events, in order, each with the ticket and pass of the innermost
  running layer, and the passes in which a layer was called with a ticket.\<close>

definition calls_after :: "overlay_event \<Rightarrow> overlay_event list \<Rightarrow> (nat \<times> string \<times> decoder_phase) list" where
  "calls_after e events = (case e of Entered t name \<Rightarrow> [hd (running_layers (events @ [e]))] | _ \<Rightarrow> [])"

definition layer_calls :: "overlay_event list \<Rightarrow> (nat \<times> string \<times> decoder_phase) list" where
  "layer_calls events = concat (map (\<lambda>i. calls_after (events ! i) (take i events)) [0..<length events])"

definition kernels_of :: "overlay_event list \<Rightarrow> (nat \<times> string \<times> decoder_phase \<times> kernel_kind \<times> tensor_ref option) list" where
  "kernels_of events = concat (map (\<lambda>i. case events ! i of
       KernelRan l k a \<Rightarrow> (case hd (running_layers (take i events)) of (t, l, p) \<Rightarrow> [(t, l, p, k, a)])
     | _ \<Rightarrow> []) [0..<length events])"

definition phases_of :: "overlay_event list \<Rightarrow> nat \<Rightarrow> string \<Rightarrow> decoder_phase list" where
  "phases_of events t l = map (\<lambda>(_, _, p). p) (filter (\<lambda>(t', l', _). t' = t \<and> l' = l) (layer_calls events))"

lemma events_snoc:
  "concat (map (\<lambda>i. f ((events @ [e]) ! i) (take i (events @ [e]))) [0..<length (events @ [e])])
    = concat (map (\<lambda>i. f (events ! i) (take i events)) [0..<length events]) @ f e events"
proof -
  have "map (\<lambda>i. f ((events @ [e]) ! i) (take i (events @ [e]))) [0..<length (events @ [e])]
      = map (\<lambda>i. f (events ! i) (take i events)) [0..<length events] @ [f e events]"
    by (auto simp: nth_append)
  then show ?thesis by (simp only: concat_append) simp
qed

lemma layer_calls_snoc: "layer_calls (events @ [e]) = layer_calls events @ calls_after e events"
  unfolding layer_calls_def by (rule events_snoc)

lemma kernels_of_snoc:
  "kernels_of (events @ [e]) = kernels_of events @ (case e of
       KernelRan l k a \<Rightarrow> (case hd (running_layers events) of (t, l, p) \<Rightarrow> [(t, l, p, k, a)]) | _ \<Rightarrow> [])"
  unfolding kernels_of_def by (rule events_snoc [of "\<lambda>e events. case e of
       KernelRan l k a \<Rightarrow> (case hd (running_layers events) of (t, l, p) \<Rightarrow> [(t, l, p, k, a)]) | _ \<Rightarrow> []"])

text \<open>The context variable and the tokens of the overlay are the stack of running layers.\<close>

definition tracks_layers :: "overlay_event list \<Rightarrow> boundary_audit \<Rightarrow> bool" where
  "tracks_layers events st \<longleftrightarrow> fst (fold layers_after events (False, [])) = au_in_backward st
     \<and> au_call st # au_tokens st = map Some (running_layers events) @ [None]
     \<and> au_kernels st = kernels_of events \<and> au_decoders st = layer_calls events"

lemma running_layers_snoc:
  "fold layers_after (events @ [e]) (False, []) = layers_after e (fst (fold layers_after events (False, [])), running_layers events)"
  "running_layers (events @ [e]) = snd (layers_after e (fst (fold layers_after events (False, [])), running_layers events))"
  by (simp_all add: running_layers_def)

lemma tracks_same:
  assumes "tracks_layers events st" and "au_in_backward st' = au_in_backward st" "same_evidence st st'"
  shows "tracks_layers (events @ [OtherEvent]) st'"
  using assms by (simp add: tracks_layers_def running_layers_snoc layer_calls_snoc kernels_of_snoc calls_after_def same_evidence_def
      del: fold_append)

lemma decoder_enter_phase:
  assumes "decoder_enter name True kw st = Inr (native, st')" and "dk_ticket kw = Some t"
  shows "au_call st' = Some (t, name, if au_in_backward st then Recompute else Forward) \<and> au_tokens st' = au_call st # au_tokens st
    \<and> au_decoders st' = au_decoders st @ [(t, name, if au_in_backward st then Recompute else Forward)]
    \<and> au_in_backward st' = au_in_backward st \<and> au_kernels st' = au_kernels st"
  using assms by (auto simp: decoder_enter_def Let_def rcheck_eq_Inr rbind_eq_Inr split: option.splits)

lemma overlay_move_step: "overlay_move e st st' \<Longrightarrow> overlay_step st st'"
  by (induction rule: overlay_move.induct) (blast intro: overlay_step.intros)+

lemma overlay_run_steps: "overlay_run st0 events st \<Longrightarrow> overlay_step\<^sup>*\<^sup>* st0 st"
  by (induction rule: overlay_run.induct) (auto intro: overlay_move_step rtranclp.rtrancl_into_rtrancl)

lemma overlay_move_tracks:
  assumes "overlay_move e st st'" and tr: "tracks_layers events st"
  shows "tracks_layers (events @ [e]) st'"
  using assms(1)
proof (cases rule: overlay_move.cases)
  case start
  then show ?thesis unfolding start(1) by (intro tracks_same [OF tr]) (auto simp: batch_start_def rbind_eq_Inr same_evidence_def)
next
  case (complete r)
  then show ?thesis unfolding complete(1)
    by (intro tracks_same [OF tr]) (auto simp: same_evidence_def batch_end_def batch_failed_def Let_def bump_count_def split: if_splits)
next
  case abort
  then show ?thesis unfolding abort(1) by (intro tracks_same [OF tr]) (auto simp: same_evidence_def batch_failed_def)
next
  case (prepare inp offsets t)
  from prepare_inputsD [OF prepare(2)] tr show ?thesis unfolding prepare(1)
    by (auto simp: tracks_layers_def running_layers_snoc layer_calls_snoc kernels_of_snoc calls_after_def bump_count_def simp del: fold_append)
next
  case (enter name kw t native)
  from decoder_enter_phase [OF enter(4,3)] tr show ?thesis unfolding enter(1)
    by (auto simp: tracks_layers_def running_layers_snoc layer_calls_snoc kernels_of_snoc calls_after_def simp del: fold_append)
next
  case leave
  then show ?thesis using tr unfolding leave(1)
    by (cases "running_layers events")
      (auto simp: tracks_layers_def running_layers_snoc layer_calls_snoc kernels_of_snoc calls_after_def decoder_leave_def
        split: list.splits simp del: fold_append)
next
  case (kernel layer kind actual)
  from kernel_callD [OF kernel(3)] obtain t phase where k: "au_call st = Some (t, layer, phase)"
      "au_kernels st' = au_kernels st @ [(t, layer, phase, kind, actual)]" "au_call st' = au_call st" "au_tokens st' = au_tokens st"
      "au_decoders st' = au_decoders st" by blast
  moreover have "au_in_backward st' = au_in_backward st"
    using kernel(3) by (auto simp: kernel_call_def rcheck_eq_Inr rbind_eq_Inr Let_def bump_count_def split: option.splits)
  ultimately show ?thesis using tr unfolding kernel(1)
    by (cases "running_layers events")
      (auto simp: tracks_layers_def running_layers_snoc layer_calls_snoc kernels_of_snoc calls_after_def simp del: fold_append)
next
  case (backward b)
  then show ?thesis using tr unfolding backward(1)
    by (auto simp: tracks_layers_def running_layers_snoc layer_calls_snoc kernels_of_snoc calls_after_def simp del: fold_append)
qed

definition fresh_overlay :: "boundary_audit \<Rightarrow> bool" where
  "fresh_overlay st \<longleftrightarrow> au_call st = None \<and> au_tokens st = [] \<and> \<not> au_in_backward st \<and> au_kernels st = [] \<and> au_decoders st = []"

lemma overlay_run_tracks: "overlay_run st0 events st \<Longrightarrow> fresh_overlay st0 \<Longrightarrow> tracks_layers events st"
proof (induction rule: overlay_run.induct)
  case nothing
  then show ?case by (simp add: fresh_overlay_def tracks_layers_def running_layers_def layer_calls_def kernels_of_def)
qed (simp add: overlay_move_tracks)

lemma move_keeps_tickets: "overlay_step st st' \<Longrightarrow> au_tickets st t \<noteq> None \<Longrightarrow> au_tickets st' t \<noteq> None"
proof (erule step_kinds)
  assume live: "au_tickets st t \<noteq> None"
  show "au_tickets st' t \<noteq> None" if "same_evidence st st'" using that live by (simp add: same_evidence_def)
  show "au_tickets st' t \<noteq> None" if "prepare_inputs inp offsets st = Inr (u, st')" for inp offsets u
    using prepare_inputsD [OF that] live by auto
  show "au_tickets st' t \<noteq> None" if "decoder_enter name True kw st = Inr (native, st')" for name kw native
    using decoder_enterD [OF that] live by auto
  show "au_tickets st' t \<noteq> None" if "st' = decoder_leave st" "au_tokens st \<noteq> []"
    using that live by (auto simp: decoder_leave_def split: list.splits)
  show "au_tickets st' t \<noteq> None" if "kernel_call layer kind actual st = Inr st'" for layer kind actual
    using kernel_callD [OF that] live by auto
qed

lemma overlay_run_kernel:
  assumes "overlay_run st0 events st" and "fresh_overlay st0" and "events = before @ KernelRan l k a # after"
  shows "\<exists>t p outer. running_layers before = (t, l, p) # outer \<and> a = expected_argument (au_arm st) k t \<and> au_tickets st t \<noteq> None"
  using assms(1,3)
proof (induction arbitrary: after rule: overlay_run.induct)
  case (move events st e st')
  note step = overlay_move_step [OF move.hyps(2)]
  show ?case
  proof (cases after rule: rev_cases)
    case (snoc rest x)
    with move.prems have "events = before @ KernelRan l k a # rest" by simp
    from move.IH [OF this] show ?thesis using step_keeps_layers [OF step] move_keeps_tickets [OF step] by auto
  next
    case Nil
    with move.prems have e: "events = before" "e = KernelRan l k a" by simp_all
    have "tracks_layers before st" using overlay_run_tracks [OF move.hyps(1) assms(2)] e(1) by simp
    moreover from move.hyps(2) have "kernel_call l k a st = Inr st'" unfolding e(2) by (cases rule: overlay_move.cases)
    from kernel_callD [OF this] obtain t phase where "au_call st = Some (t, l, phase)" "a = expected_argument (au_arm st) k t"
      "au_arm st' = au_arm st" "au_tickets st' t \<noteq> None" by auto
    ultimately show ?thesis by (cases "running_layers before") (auto simp: tracks_layers_def)
  qed
qed simp

lemma install_overlay_fresh:
  assumes "install_overlay arm engine model = Inr st" and "ae_overlay engine = None"
  shows "fresh_overlay st"
proof -
  obtain m where i: "install_model model (emit (EventKey ''actor_engine_installed'') (audit_new arm)) = Inr (m, st)"
    using assms by (auto simp: install_overlay_def patch_engine_def Let_def rbind_eq_Inr)
  then show ?thesis by (auto simp: install_model_def rbind_eq_Inr Let_def fresh_overlay_def audit_new_def)
qed

text \<open>A run of one micro-batch with two samples through a model with one linear layer.\<close>

definition demo_engine :: actor_engine where
  "demo_engine = \<lparr>ae_overlay = None, ae_forward_only = False, ae_strategy = ''fsdp'', ae_use_ulysses = False, ae_ulysses_size = 1,
     ae_remove_padding = True, ae_fused_kernels = False, ae_checkpointing = True, ae_lora = False, ae_qat = False, ae_built = False\<rparr>"

definition demo_model :: actor_model where
  "demo_model = \<lparr>am_type = Some ''qwen3_5'', am_overlay = False, am_layers =
     [\<lparr>dl_name = ''layers.0'', dl_checkpointing = True, dl_use_reentrant = Some False, dl_type = ''linear_attention'',
       dl_conv = Some \<lparr>nk_parameters = [''x'', ''seq_idx''], nk_module = ''causal_conv1d.interface''\<rparr>,
       dl_gdn = Some \<lparr>nk_parameters = [''q'', ''cu_seqlens''], nk_module = ''fla.ops.gated_delta_rule.chunk''\<rparr>\<rparr>]\<rparr>"

definition demo_inputs :: boundary_inputs where
  "demo_inputs = \<lparr>bi_keys = [''input_ids'', ''position_ids''], bi_input_shape = [1, 5], bi_position_shape = [4, 1, 5],
     bi_text_positions = [0, 1, 0, 1, 2], bi_attention_mask = False, bi_use_cache = False\<rparr>"

definition demo_kwargs :: decoder_kwargs where
  "demo_kwargs = \<lparr>dk_ticket = Some 1, dk_boundaries = False, dk_past = False, dk_use_cache = False\<rparr>"

definition demo_pass :: "boundary_audit \<Rightarrow> boundary_audit res" where
  "demo_pass st =
     rbind (decoder_enter ''layers.0'' True demo_kwargs st) (\<lambda>(_, s1).
     rbind (kernel_call ''layers.0'' Conv (Some (SeqOf 1)) s1) (\<lambda>s2.
     rbind (kernel_call ''layers.0'' Gdn (Some (CuOf 1)) s2) (\<lambda>s3. Inr (decoder_leave s3))))"

definition demo_overlay :: boundary_audit where
  "demo_overlay = projr (install_overlay BoundaryArm demo_engine demo_model)"

definition demo_prepared :: boundary_audit where
  "demo_prepared = snd (projr (prepare_inputs demo_inputs [PInt 0, PInt 2, PInt 5] (projr (batch_start demo_overlay))))"

definition demo_audit :: boundary_audit where
  "demo_audit = projr (demo_pass ((projr (demo_pass demo_prepared))\<lparr>au_in_backward := True\<rparr>))"

lemma projr_of: "\<not> isl r \<Longrightarrow> r = Inr (projr r)"
  by (cases r) auto

definition demo_pass_events :: "overlay_event list" where
  "demo_pass_events = [Entered 1 ''layers.0'', KernelRan ''layers.0'' Conv (Some (SeqOf 1)),
     KernelRan ''layers.0'' Gdn (Some (CuOf 1)), LeftLayer]"

definition demo_events :: "overlay_event list" where
  "demo_events = [OtherEvent, OtherEvent] @ demo_pass_events @ [BackwardPass True] @ demo_pass_events"

lemma demo_pass_run:
  assumes "demo_pass st = Inr st'" and "au_layers st = [''layers.0'']" and "overlay_run st0 events st"
  shows "overlay_run st0 (events @ demo_pass_events) st'"
proof -
  obtain native s1 s2 s3 where p: "decoder_enter ''layers.0'' True demo_kwargs st = Inr (native, s1)"
      "kernel_call ''layers.0'' Conv (Some (SeqOf 1)) s1 = Inr s2" "kernel_call ''layers.0'' Gdn (Some (CuOf 1)) s2 = Inr s3" "st' = decoder_leave s3"
    using assms(1) by (auto simp: demo_pass_def rbind_eq_Inr)
  have 1: "overlay_move (Entered 1 ''layers.0'') st s1"
    by (rule overlay_move.enter [OF _ _ p(1)]) (simp_all add: assms(2) demo_kwargs_def)
  have l1: "au_layers s1 = [''layers.0'']" using step_keeps_layers [OF overlay_move_step [OF 1]] assms(2) by simp
  have 2: "overlay_move (KernelRan ''layers.0'' Conv (Some (SeqOf 1))) s1 s2" by (rule overlay_move.kernel [OF _ p(2)]) (simp add: l1)
  have 3: "overlay_move (KernelRan ''layers.0'' Gdn (Some (CuOf 1))) s2 s3"
    by (rule overlay_move.kernel [OF _ p(3)]) (use step_keeps_layers [OF overlay_move_step [OF 2]] l1 in simp)
  have "au_tokens s1 \<noteq> []" using decoder_enterD [OF p(1)] by auto
  moreover have "au_tokens s3 = au_tokens s1" using kernel_callD [OF p(2)] kernel_callD [OF p(3)] by auto
  ultimately have 4: "overlay_move LeftLayer s3 st'" unfolding p(4) by (intro overlay_move.leave) simp
  from overlay_run.move [OF overlay_run.move [OF overlay_run.move [OF overlay_run.move [OF assms(3) 1] 2] 3] 4]
  show ?thesis by (simp add: demo_pass_events_def)
qed

lemma demo_overlay_run: "overlay_run demo_overlay demo_events demo_audit"
proof -
  have "batch_start demo_overlay = Inr (projr (batch_start demo_overlay))" by (rule projr_of) code_simp
  then have 1: "overlay_move OtherEvent demo_overlay (projr (batch_start demo_overlay))" by (rule overlay_move.start)
  have "prepare_inputs demo_inputs [PInt 0, PInt 2, PInt 5] (projr (batch_start demo_overlay))
      = Inr (projr (prepare_inputs demo_inputs [PInt 0, PInt 2, PInt 5] (projr (batch_start demo_overlay))))"
    by (rule projr_of) code_simp
  then have 2: "overlay_move OtherEvent (projr (batch_start demo_overlay)) demo_prepared"
    unfolding demo_prepared_def by (metis overlay_move.prepare prod.collapse)
  have 3: "overlay_run demo_overlay [OtherEvent, OtherEvent] demo_prepared"
    using overlay_run.move [OF overlay_run.move [OF overlay_run.nothing 1] 2] by simp
  have p: "demo_pass demo_prepared = Inr (projr (demo_pass demo_prepared))" by (rule projr_of) code_simp
  have "au_layers demo_prepared = [''layers.0'']" by code_simp
  from overlay_run.move [OF demo_pass_run [OF p this 3] overlay_move.backward, of True]
  have 4: "overlay_run demo_overlay ([OtherEvent, OtherEvent] @ demo_pass_events @ [BackwardPass True])
      ((projr (demo_pass demo_prepared))\<lparr>au_in_backward := True\<rparr>)" by simp
  have p: "demo_pass ((projr (demo_pass demo_prepared))\<lparr>au_in_backward := True\<rparr>) = Inr demo_audit"
    unfolding demo_audit_def by (rule projr_of) code_simp
  have "au_layers ((projr (demo_pass demo_prepared))\<lparr>au_in_backward := True\<rparr>) = [''layers.0'']" by code_simp
  from demo_pass_run [OF p this 4] show ?thesis by (simp add: demo_events_def)
qed

lemma boundary_demo_runs:
  "install_overlay BoundaryArm demo_engine demo_model = Inr demo_overlay \<and> overlay_step\<^sup>*\<^sup>* demo_overlay demo_audit"
proof
  show "install_overlay BoundaryArm demo_engine demo_model = Inr demo_overlay"
    unfolding demo_overlay_def by (rule projr_of) code_simp
  show "overlay_step\<^sup>*\<^sup>* demo_overlay demo_audit" by (rule overlay_run_steps [OF demo_overlay_run])
qed

text \<open>C8: A training batch that completes has run every kernel: in any run of an installed overlay, when the batch
  is closed without an error, for every micro-batch prepared in it and every linear-attention layer
  of the model both native kernels were called in the forward pass and in the recomputation, with the
  boundaries of that very micro-batch (or with none, in the baseline arm).\<close>

theorem completed_batch_ran_every_kernel:
  assumes "install_overlay arm engine model = Inr st0" and "ae_overlay engine = None" and "overlay_step\<^sup>*\<^sup>* st0 st"
    and "au_batch st = Some ts" and "batch_end st = (Inr (), st')"
  shows "ts \<noteq> [] \<and> distinct ts \<and> linear_names (am_layers model) \<noteq> []
    \<and> (\<forall>t\<in>set ts. \<forall>l\<in>set (linear_names (am_layers model)). \<forall>p k.
         (t, l, p, k, expected_argument arm k t) \<in> set (au_kernels st))"
proof -
  note inst = install_overlayD [OF assms(1,2)]
  have inv: "overlay_inv arm (linear_names (am_layers model)) st" using overlay_inv_reachable [OF assms(3)] inst by blast
  have all: "ts \<noteq> []" "list_all (\<lambda>t. set (expected_evidence (au_layers st)) \<subseteq> set (ticket_seen st t)) ts"
    using assms(4,5) by (auto simp: batch_end_def Let_def split: if_splits)
  have "(t, l, p, k, expected_argument arm k t) \<in> set (au_kernels st)"
    if "t \<in> set ts" "l \<in> set (linear_names (am_layers model))" for t l p k
  proof -
    have "(l, p, k) \<in> set (expected_evidence (au_layers st))"
      using that(2) inv by (cases p; cases k) (auto simp: expected_evidence_def overlay_inv_def)
    then have "(l, p, k) \<in> set (ticket_seen st t)" using all(2) that(1) by (auto simp: list_all_iff)
    then show ?thesis using inv by (auto simp: overlay_inv_def evidence_ok_def)
  qed
  moreover have "distinct ts" using inv assms(4) by (auto simp: overlay_inv_def tickets_ok_def)
  ultimately show ?thesis using all(1) inst by blast
qed

theorem completed_batch_ran_every_kernel_witness:
  "au_batch demo_audit = Some [1] \<and> (\<exists>st'. batch_end demo_audit = (Inr (), st'))
    \<and> (1, ''layers.0'', Recompute, Gdn, Some (CuOf 1)) \<in> set (au_kernels demo_audit)"
proof -
  have "au_batch demo_audit = Some [1]" by code_simp
  moreover have "fst (batch_end demo_audit) = Inr ()" by code_simp
  then obtain st' where "batch_end demo_audit = (Inr (), st')" by (cases "batch_end demo_audit") auto
  moreover have "ae_overlay demo_engine = None" by (simp add: demo_engine_def)
  moreover have "linear_names (am_layers demo_model) = [''layers.0'']" by code_simp
  ultimately have "\<forall>p k. (1, ''layers.0'', p, k, expected_argument BoundaryArm k 1) \<in> set (au_kernels demo_audit)"
    and fin: "au_batch demo_audit = Some [1]" "batch_end demo_audit = (Inr (), st')"
    using completed_batch_ran_every_kernel [OF boundary_demo_runs [THEN conjunct1] _ boundary_demo_runs [THEN conjunct2], of "[1]" st'] by auto
  from this(1) [rule_format, of Recompute Gdn] fin show ?thesis by (auto simp: expected_argument_def native_tensor_def)
qed

text \<open>C18: No kernel sees the boundaries of another micro-batch: whatever the engine does, and in whatever order, a call that
  reaches an original kernel is made while a linear layer of that name is running; that layer is the innermost running
  one, and the call has exactly the checked boundaries of the micro-batch with whose ticket the layer was called (or
  none, in the baseline arm). A call after its layer has been left never gets through. The evidence kept for the audit
  is the list of these calls with the ticket and pass of their layers, and per micro-batch and layer the calls of the
  layer are one in the forward pass and then only recomputations.\<close>

theorem kernels_get_own_boundaries:
  assumes "install_overlay arm engine model = Inr st0" and "ae_overlay engine = None" and "overlay_run st0 events st"
  shows "(\<forall>before l k a after. events = before @ KernelRan l k a # after \<longrightarrow>
        (\<exists>t p outer tk n. running_layers before = (t, l, p) # outer \<and> a = expected_argument arm k t
          \<and> au_tickets st t = Some tk \<and> segment_ids (map PInt (tk_cu tk)) n = Inr (tk_seq tk)))
    \<and> au_kernels st = kernels_of events \<and> (\<forall>t l. \<exists>n. phases_of events t l = passes n)"
proof -
  note inst = install_overlayD [OF assms(1,2)] and fresh = install_overlay_fresh [OF assms(1,2)]
  have inv: "overlay_inv arm (linear_names (am_layers model)) st"
    using overlay_inv_reachable [OF overlay_run_steps [OF assms(3)]] inst by blast
  have tr: "tracks_layers events st" by (rule overlay_run_tracks [OF assms(3) fresh])
  have ran: "\<exists>t p outer. running_layers before = (t, l, p) # outer \<and> a = expected_argument arm k t \<and> au_tickets st t \<noteq> None"
    if "events = before @ KernelRan l k a # after" for before l k a after
    using overlay_run_kernel [OF assms(3) fresh that] inv by (auto simp: overlay_inv_def)
  have checked: "\<exists>tk n. au_tickets st t = Some tk \<and> segment_ids (map PInt (tk_cu tk)) n = Inr (tk_seq tk)"
    if "au_tickets st t \<noteq> None" for t
    using that inv by (auto simp: overlay_inv_def tickets_ok_def)
  have "phases_of events t l = passes (ticket_calls st t l)" for t l
    using inv tr by (simp add: overlay_inv_def order_ok_def decoder_phases_def tracks_layers_def phases_of_def)
  then have "\<forall>t l. \<exists>n. phases_of events t l = passes n" by blast
  moreover have "au_kernels st = kernels_of events" using tr by (simp add: tracks_layers_def)
  moreover have "\<exists>t p outer tk n. running_layers before = (t, l, p) # outer \<and> a = expected_argument arm k t
      \<and> au_tickets st t = Some tk \<and> segment_ids (map PInt (tk_cu tk)) n = Inr (tk_seq tk)"
    if "events = before @ KernelRan l k a # after" for before l k a after
    using ran [OF that] checked by blast
  ultimately show ?thesis by blast
qed

theorem kernels_get_own_boundaries_witness:
  "(\<exists>t p outer tk n. running_layers (take 3 demo_events) = (t, ''layers.0'', p) # outer
      \<and> Some (SeqOf 1) = expected_argument BoundaryArm Conv t
      \<and> au_tickets demo_audit t = Some tk \<and> segment_ids (map PInt (tk_cu tk)) n = Inr (tk_seq tk))
    \<and> running_layers demo_events = [] \<and> length (kernels_of demo_events) = 4
    \<and> (\<exists>n. phases_of demo_events 1 ''layers.0'' = passes n)"
proof -
  have e: "demo_events = take 3 demo_events @ KernelRan ''layers.0'' Conv (Some (SeqOf 1)) # drop 4 demo_events"
    by (simp add: demo_events_def demo_pass_events_def)
  have "running_layers demo_events = []" "length (kernels_of demo_events) = 4" by code_simp+
  moreover have "ae_overlay demo_engine = None" by (simp add: demo_engine_def)
  note kernels_get_own_boundaries [OF boundary_demo_runs [THEN conjunct1] this demo_overlay_run]
  ultimately show ?thesis using e by blast
qed

text \<open>The audit is bounded: however many batches, micro-batches and kernel calls a run has, the file of the audit
  gets at most fourteen records, each of them once.\<close>

theorem audit_records_bounded:
  assumes "install_overlay arm engine model = Inr st0" and "ae_overlay engine = None" and "overlay_step\<^sup>*\<^sup>* st0 st"
  shows "length (au_log st) \<le> 14 \<and> distinct (au_log st)"
proof -
  have "log_ok st" using overlay_inv_reachable [OF assms(3)] install_overlayD [OF assms(1,2)] by (auto simp: overlay_inv_def)
  then have log: "distinct (au_log st)" "set (au_log st) \<subseteq> set all_audit_keys" by (simp_all add: log_ok_def)
  have "length (au_log st) = card (set (au_log st))" by (rule distinct_card [OF log(1), symmetric])
  also have "\<dots> \<le> card (set all_audit_keys)" using log(2) by (rule card_mono [OF finite_set])
  also have "\<dots> \<le> length all_audit_keys" by (rule card_length)
  also have "\<dots> = 14" by (simp add: all_audit_keys_def)
  finally show ?thesis using log(1) by simp
qed

theorem audit_records_bounded_witness: "length (au_log demo_audit) \<le> 14 \<and> distinct (au_log demo_audit)"
  by (rule audit_records_bounded [OF boundary_demo_runs [THEN conjunct1] _ boundary_demo_runs [THEN conjunct2]]) (simp add: demo_engine_def)

end
