(* ===== verification/TeacherScheduler.thy ===== *)
theory TeacherScheduler
  imports Complex_Main Prelude
begin

text \<open>
  The scheduler of the teacher servers, \<open>scripts/fa3/teacher_scheduler.py\<close>: how many tokens of a request are scheduled
  when its private state does not end at a cache boundary, and the watch over steps without progress. The
  splitter of the serving library that is called for all other requests is a parameter.
\<close>

section \<open>Resuming at a boundary\<close>

record sched_request =
  rq_id :: string
  rq_num_computed_tokens :: nat
  rq_num_tokens :: nat

record sched_config =
  sg_block_size :: nat
  sg_use_eagle :: bool
  sg_aligned_split :: bool

definition last_boundary :: "nat \<Rightarrow> sched_request \<Rightarrow> nat" where
  "last_boundary block rq = rq_num_tokens rq - rq_num_tokens rq mod block"

definition resume_boundary ::
    "(sched_request \<Rightarrow> nat \<Rightarrow> nat \<Rightarrow> nat \<Rightarrow> nat res) \<Rightarrow> sched_config \<Rightarrow> sched_request \<Rightarrow> nat \<Rightarrow> nat \<Rightarrow> nat \<Rightarrow> nat res" where
  "resume_boundary original scheduler rq num_new num_local num_external =
     rbind (rcheck ValueError (num_external = 0)) (\<lambda>_.
     (let start = rq_num_computed_tokens rq + num_local; block = sg_block_size scheduler in
      rbind (rcheck ZeroDivisionError (block \<noteq> 0)) (\<lambda>_.
      rbind (rcheck ValueError (\<not> sg_use_eagle scheduler)) (\<lambda>_.
      if start mod block \<noteq> 0 \<and> start < last_boundary block rq
      then (let distance = block - start mod block in Inr (if distance \<le> num_new then distance else 0))
      else original rq num_new num_local num_external))))"

text \<open>The guards of the factory, before and after the scheduler of the library is made.\<close>

definition teacher_scheduler_new :: "(bool \<times> bool) option \<Rightarrow> sched_config res \<Rightarrow> sched_config res" where
  "teacher_scheduler_new config base =
     (case config of
        None \<Rightarrow> Inl ValueError
      | Some (speculative, kv_transfer) \<Rightarrow>
          rbind (rcheck ValueError (\<not> speculative \<and> \<not> kv_transfer)) (\<lambda>_.
          rbind base (\<lambda>scheduler.
          rbind (rcheck ValueError (sg_aligned_split scheduler \<and> \<not> sg_use_eagle scheduler)) (\<lambda>_. Inr scheduler))))"

section \<open>Steps without progress\<close>

record progress_watch =
  zero_steps :: nat
  zero_logged :: real

text \<open>The attributes before the first step.\<close>

definition watch_start :: progress_watch where
  "watch_start = \<lparr>zero_steps = 0, zero_logged = - 60\<rparr>"

text \<open>A step schedules some tokens, leaves requests pending, and is looked at at a time; a report names the first three requests.\<close>

record sched_step =
  ss_tokens :: nat
  ss_pending :: "sched_request list"
  ss_now :: real

definition report_zero_progress :: "sched_step \<Rightarrow> progress_watch \<Rightarrow> (nat \<times> sched_request list) option \<times> progress_watch" where
  "report_zero_progress step w =
     (if ss_tokens step \<noteq> 0 \<or> ss_pending step = [] then (None, w\<lparr>zero_steps := 0\<rparr>)
      else (let w1 = w\<lparr>zero_steps := zero_steps w + 1\<rparr> in
            if zero_steps w1 < 100 \<or> ss_now step - zero_logged w1 < 60 then (None, w1)
            else (Some (zero_steps w1, take 3 (ss_pending step)), w1\<lparr>zero_logged := ss_now step\<rparr>)))"

fun watch_run :: "sched_step list \<Rightarrow> progress_watch \<Rightarrow> (nat \<times> sched_request list) option list \<times> progress_watch" where
  "watch_run [] w = ([], w)"
| "watch_run (s # ss) w =
     (let (r, w1) = report_zero_progress s w; (rs, w2) = watch_run ss w1 in (r # rs, w2))"

section \<open>Boundaries are not crossed\<close>

lemma last_boundary_dvd: "block dvd last_boundary block rq"
  by (simp add: last_boundary_def minus_mod_eq_mult_div)

lemma next_boundary:
  fixes start block last :: nat
  assumes "start < last" and "block dvd last" and "0 < block"
  shows "block dvd start + (block - start mod block) \<and> start + (block - start mod block) \<le> last"
proof -
  have "start mod block < block" using assms(3) by simp
  then have e: "start + (block - start mod block) = block * (start div block + 1)"
    using mult_div_mod_eq [of block start] by (simp only: distrib_left mult_1_right)
  obtain q where q: "last = block * q" using assms(2) by (auto elim: dvdE)
  have "start div block < q" using assms(1,3) q by (simp add: div_less_iff_less_mult mult.commute)
  then have "block * (start div block + 1) \<le> block * q" by (intro mult_le_mono2) simp
  then show ?thesis using q by (simp only: e) simp
qed

lemma inside_block:
  fixes start s' block :: nat
  assumes "start \<le> s'" and "s' < start + (block - start mod block)" and "start mod block \<noteq> 0"
  shows "s' mod block \<noteq> 0 \<and> s' + (block - s' mod block) = start + (block - start mod block)"
proof -
  have pos: "0 < block" using assms(1,2) by (cases block) simp_all
  then have r: "start mod block < block" by simp
  have small: "start mod block + (s' - start) < block" using assms(1,2) r by linarith
  have "s' mod block = (start mod block + (s' - start)) mod block"
    using mod_add_left_eq [of start block "s' - start"] assms(1) by simp
  then have "s' mod block = start mod block + (s' - start)" using small by simp
  then show ?thesis using assms small by linarith
qed

text \<open>The rounds in which the library schedules one request, as the tokens computed before and after each of them.
  A round has its budget of tokens and a bound down to which the scheduling of encoder inputs may lower the
  count. In the method rewritten by \<open>reordered_schedule\<close> the splitter is called first and the encoder inputs
  are scheduled for what it returns; both are the library's own code. A round that raises ends the list.\<close>

fun schedule_path ::
    "(sched_request \<Rightarrow> nat \<Rightarrow> nat \<Rightarrow> nat \<Rightarrow> nat res) \<Rightarrow> sched_config \<Rightarrow> sched_request \<Rightarrow> (nat \<times> nat) list \<Rightarrow> nat list" where
  "schedule_path original scheduler rq [] = [rq_num_computed_tokens rq]"
| "schedule_path original scheduler rq ((budget, encoder_bound) # rounds) =
     rq_num_computed_tokens rq #
     (case resume_boundary original scheduler rq (min budget (rq_num_tokens rq - rq_num_computed_tokens rq)) 0 0 of
        Inl _ \<Rightarrow> []
      | Inr n \<Rightarrow> schedule_path original scheduler
          (rq\<lparr>rq_num_computed_tokens := rq_num_computed_tokens rq + min n encoder_bound\<rparr>) rounds)"

lemma schedule_path_first:
  "schedule_path original scheduler rq rounds \<noteq> []" "schedule_path original scheduler rq rounds ! 0 = rq_num_computed_tokens rq"
  by (cases rounds; auto)+

lemma last_boundary_computed [simp]: "last_boundary block (rq\<lparr>rq_num_computed_tokens := n\<rparr>) = last_boundary block rq"
  by (simp add: last_boundary_def)

text \<open>The rest of a path is the path of the request at that point.\<close>

lemma schedule_path_drop:
  "i < length (schedule_path original scheduler rq rounds) \<Longrightarrow>
   \<exists>rq'. drop i (schedule_path original scheduler rq rounds) = schedule_path original scheduler rq' (drop i rounds)
     \<and> rq_num_computed_tokens rq' = schedule_path original scheduler rq rounds ! i \<and> rq_num_tokens rq' = rq_num_tokens rq"
proof (induction original scheduler rq rounds arbitrary: i rule: schedule_path.induct)
  case (2 original scheduler rq budget encoder_bound rounds)
  show ?case
  proof (cases i)
    case (Suc j)
    let ?r = "resume_boundary original scheduler rq (min budget (rq_num_tokens rq - rq_num_computed_tokens rq)) 0 0"
    obtain n where c: "?r = Inr n" using 2(2) Suc by (cases ?r) auto
    then show ?thesis using 2(1) [OF c, of j] 2(2) Suc by simp
  qed (auto intro: exI [of _ rq])
qed (auto intro: exI)

text \<open>From inside a block the next boundary is not passed, and it is reached when the budgets hold a block.\<close>

lemma schedule_path_stops:
  assumes "\<not> sg_use_eagle scheduler" and "0 < sg_block_size scheduler"
    and "rq_num_computed_tokens rq mod sg_block_size scheduler \<noteq> 0"
    and "rq_num_computed_tokens rq < last_boundary (sg_block_size scheduler) rq"
    and "b = rq_num_computed_tokens rq + (sg_block_size scheduler - rq_num_computed_tokens rq mod sg_block_size scheduler)"
  shows "(\<forall>j<length (schedule_path original scheduler rq rounds). b \<le> schedule_path original scheduler rq rounds ! j \<longrightarrow>
      (\<exists>k\<le>j. schedule_path original scheduler rq rounds ! k = b))
    \<and> ((\<forall>(budget, encoder_bound)\<in>set rounds. sg_block_size scheduler \<le> budget \<and> 0 < encoder_bound)
        \<and> b - rq_num_computed_tokens rq \<le> length rounds \<longrightarrow> b \<in> set (schedule_path original scheduler rq rounds))"
  using assms(3-5)
proof (induction rounds arbitrary: rq)
  case (Cons round rounds)
  let ?block = "sg_block_size scheduler" and ?c = "rq_num_computed_tokens rq"
  obtain budget bound where round: "round = (budget, bound)" by force
  let ?new = "min budget (rq_num_tokens rq - ?c)" and ?d = "sg_block_size scheduler - ?c mod sg_block_size scheduler"
  define n where "n = (if ?d \<le> ?new then ?d else 0)"
  let ?rq = "rq\<lparr>rq_num_computed_tokens := ?c + min n bound\<rparr>"
  have "resume_boundary original scheduler rq ?new 0 0 = Inr n"
    using Cons.prems assms(1,2) by (simp add: resume_boundary_def rcheck_def Let_def n_def)
  then have path: "schedule_path original scheduler rq (round # rounds) = ?c # schedule_path original scheduler ?rq rounds"
    by (simp add: round)
  have up: "b \<le> last_boundary ?block rq" using next_boundary [OF Cons.prems(2) last_boundary_dvd assms(2)] Cons.prems(3) by simp
  have "0 < ?d" using mod_less_divisor [OF assms(2)] by simp
  then have low: "?c < b" using Cons.prems(3) by simp
  have le: "?c + min n bound \<le> b" using Cons.prems(3) by (simp add: n_def)
  have moves: "0 < min n bound" if "?block \<le> budget" "0 < bound"
  proof -
    have "?d \<le> rq_num_tokens rq - ?c" using up Cons.prems(3) by (simp add: last_boundary_def)
    then have "?d \<le> ?new" using that(1) by simp
    then show ?thesis using that(2) low Cons.prems(3) by (simp add: n_def)
  qed
  show ?case
  proof (cases "?c + min n bound = b")
    case True
    then have first: "schedule_path original scheduler ?rq rounds ! 0 = b"
      using schedule_path_first(2) [of original scheduler ?rq rounds] by simp
    have "b \<in> set (schedule_path original scheduler ?rq rounds)"
      unfolding first [symmetric] using schedule_path_first(1) by (intro nth_mem) blast
    then have "b \<in> set (?c # schedule_path original scheduler ?rq rounds)" by simp
    moreover have at: "(?c # schedule_path original scheduler ?rq rounds) ! 1 = b" using first by simp
    moreover have "1 \<le> j" if "b \<le> (?c # schedule_path original scheduler ?rq rounds) ! j" for j
      using that low by (cases j) simp_all
    ultimately show ?thesis unfolding path by blast
  next
    case False
    with le have "?c + min n bound < b" by simp
    note inside = inside_block [OF le_add1 this [unfolded Cons.prems(3)] Cons.prems(1)]
    let ?P = "schedule_path original scheduler ?rq rounds"
    have IH: "(\<forall>j<length ?P. b \<le> ?P ! j \<longrightarrow> (\<exists>k\<le>j. ?P ! k = b))
        \<and> ((\<forall>(budget, encoder_bound)\<in>set rounds. ?block \<le> budget \<and> 0 < encoder_bound)
            \<and> b - (?c + min n bound) \<le> length rounds \<longrightarrow> b \<in> set ?P)"
      using Cons.IH [of ?rq] inside Cons.prems(3) up False le by simp
    have "\<exists>k\<le>j. (?c # ?P) ! k = b" if j: "j < length (?c # ?P)" "b \<le> (?c # ?P) ! j" for j
    proof (cases j)
      case (Suc i)
      then obtain k where "k \<le> i" "?P ! k = b" using IH j by auto
      then show ?thesis using Suc by (intro exI [of _ "Suc k"]) simp
    qed (use j low in simp)
    moreover have "b \<in> set (?c # ?P)" if "\<forall>(budget, encoder_bound)\<in>set (round # rounds). ?block \<le> budget \<and> 0 < encoder_bound"
      "b - ?c \<le> length (round # rounds)"
    proof -
      have "0 < min n bound" using that(1) moves by (simp add: round)
      moreover have "b - ?c \<le> Suc (length rounds)" using that(2) by simp
      ultimately have "b - (?c + min n bound) \<le> length rounds" by arith
      then show ?thesis using IH that(1) by simp
    qed
    ultimately show ?thesis unfolding path by blast
  qed
qed (use mod_less_divisor [OF assms(2)] in \<open>auto simp: not_le\<close>)

text \<open>C29: A teacher request whose private state ends inside a cache block stops at the next boundary before it goes on:
  whatever the library's splitter does, whatever the budgets of the rounds are and however far the encoder inputs lower
  the counts after the splitting, if the state ends inside a block below the last boundary, then no later round brings it
  to that block's end or beyond without it having stopped exactly there. It gets there, in at most as many
  rounds as there are tokens left in the block, when every budget holds a block and the encoder leaves at least one token;
  and a budget that does not reach the boundary schedules nothing.\<close>

theorem teacher_requests_stop_at_boundaries:
  fixes original scheduler rq rounds and i b :: nat
  assumes "\<not> sg_use_eagle scheduler" and "0 < sg_block_size scheduler"
  defines "path \<equiv> schedule_path original scheduler rq rounds" and "block \<equiv> sg_block_size scheduler"
  assumes i: "i < length path" "path ! i mod block \<noteq> 0" "path ! i < last_boundary block rq"
    and b: "b = path ! i + (block - path ! i mod block)"
  shows "block dvd b \<and> b \<le> last_boundary block rq
    \<and> (\<forall>j. i < j \<and> j < length path \<and> b \<le> path ! j \<longrightarrow> (\<exists>k. i < k \<and> k \<le> j \<and> path ! k = b))
    \<and> ((\<forall>(budget, encoder_bound)\<in>set (drop i rounds). block \<le> budget \<and> 0 < encoder_bound)
        \<and> b - path ! i \<le> length rounds - i \<longrightarrow> b \<in> set (drop i path))
    \<and> (\<forall>r num_new. rq_num_computed_tokens r = path ! i \<and> rq_num_tokens r = rq_num_tokens rq \<and> path ! i + num_new < b
        \<longrightarrow> resume_boundary original scheduler r num_new 0 0 = Inr 0)"
proof -
  obtain rq' where d: "drop i path = schedule_path original scheduler rq' (drop i rounds)"
      "rq_num_computed_tokens rq' = path ! i" "rq_num_tokens rq' = rq_num_tokens rq"
    using schedule_path_drop i(1) unfolding path_def by blast
  have l: "last_boundary block r = last_boundary block rq" if "rq_num_tokens r = rq_num_tokens rq" for r
    using that by (simp add: last_boundary_def)
  note bd = next_boundary [OF i(3) last_boundary_dvd assms(2) [folded block_def]]
  have stops: "(\<forall>j<length (drop i path). b \<le> drop i path ! j \<longrightarrow> (\<exists>k\<le>j. drop i path ! k = b))
      \<and> ((\<forall>(budget, encoder_bound)\<in>set (drop i rounds). block \<le> budget \<and> 0 < encoder_bound)
        \<and> b - path ! i \<le> length (drop i rounds) \<longrightarrow> b \<in> set (drop i path))"
    using schedule_path_stops [OF assms(1,2), of rq' b original "drop i rounds"] i(2,3) b d l [OF d(3)] by (simp add: block_def)
  have "\<exists>k. i < k \<and> k \<le> j \<and> path ! k = b" if j: "i < j" "j < length path" "b \<le> path ! j" for j
  proof -
    obtain k where k: "k \<le> j - i" "path ! (i + k) = b" using conjunct1 [OF stops] j by (auto dest!: spec [of _ "j - i"])
    moreover have "path ! i < b" using b mod_less_divisor [OF assms(2), of "path ! i"] by (simp add: block_def)
    then have "k \<noteq> 0" using k(2) by (intro notI) simp
    ultimately show ?thesis using j(1) by (intro exI [of _ "i + k"]) simp
  qed
  moreover have "resume_boundary original scheduler r num_new 0 0 = Inr 0"
    if "rq_num_computed_tokens r = path ! i" "rq_num_tokens r = rq_num_tokens rq" "path ! i + num_new < b" for r num_new
    using that i(2,3) b assms(1,2) l [OF that(2)] by (simp add: resume_boundary_def rcheck_def Let_def block_def)
  ultimately show ?thesis using bd b stops by simp
qed

text \<open>The splitter of the library as the repository's test has it: whole blocks, up to the last boundary.\<close>

definition block_splitter :: "nat \<Rightarrow> sched_request \<Rightarrow> nat \<Rightarrow> nat \<Rightarrow> nat \<Rightarrow> nat res" where
  "block_splitter block rq num_new num_local num_external =
     (let start = rq_num_computed_tokens rq + num_local + num_external; final = last_boundary block rq in
      Inr (if start + num_new < final then num_new div block * block
           else if start < final \<and> final < start + num_new then final - start else num_new))"

text \<open>The request of the test: two images of which the second one does not fit into the encoder cache at first, so that
  the first round stops at 510, inside the block of 768.\<close>

theorem teacher_requests_stop_at_boundaries_witness:
  "schedule_path (block_splitter 768) \<lparr>sg_block_size = 768, sg_use_eagle = False, sg_aligned_split = True\<rparr>
      \<lparr>rq_id = ''r'', rq_num_computed_tokens = 0, rq_num_tokens = 1010\<rparr> [(8192, 510), (8192, 8192), (8192, 8192)] = [0, 510, 768, 1010]
   \<and> (\<exists>k. 1 < k \<and> k \<le> 3 \<and> [0, 510, 768, 1010 :: nat] ! k = 768)"
proof -
  let ?s = "\<lparr>sg_block_size = 768, sg_use_eagle = False, sg_aligned_split = True\<rparr>"
    and ?rq = "\<lparr>rq_id = ''r'', rq_num_computed_tokens = 0, rq_num_tokens = 1010\<rparr>" and ?rounds = "[(8192, 510), (8192, 8192), (8192, 8192)]"
  have p: "schedule_path (block_splitter 768) ?s ?rq ?rounds = [0, 510, 768, 1010]" by code_simp
  note teacher_requests_stop_at_boundaries [of ?s 1 "block_splitter 768" ?rq ?rounds 768, unfolded p,
      THEN conjunct2, THEN conjunct2, THEN conjunct1, THEN spec, of 3]
  then have "\<exists>k. 1 < k \<and> k \<le> 3 \<and> [0, 510, 768, 1010 :: nat] ! k = 768" by (simp add: last_boundary_def)
  with p show ?thesis by blast
qed

section \<open>Reports\<close>

definition idle :: "sched_step \<Rightarrow> bool" where
  "idle s \<longleftrightarrow> ss_tokens s = 0 \<and> ss_pending s \<noteq> []"

lemma report_cases:
  assumes "report_zero_progress s w = (r, w1)"
  shows "\<not> idle s \<Longrightarrow> r = None \<and> zero_steps w1 = 0 \<and> zero_logged w1 = zero_logged w"
    and "idle s \<Longrightarrow> zero_steps w1 = zero_steps w + 1"
    and "r = Some (z, rqs) \<Longrightarrow> idle s \<and> z = zero_steps w + 1 \<and> 100 \<le> z \<and> 60 \<le> ss_now s - zero_logged w
      \<and> zero_logged w1 = ss_now s \<and> rqs = take 3 (ss_pending s)"
    and "r = None \<Longrightarrow> zero_logged w1 = zero_logged w"
  using assms by (auto simp: report_zero_progress_def idle_def Let_def split: if_splits)

lemma watch_run_Cons:
  assumes "report_zero_progress s w = (r, w1)"
  shows "watch_run (s # ss) w = (r # fst (watch_run ss w1), snd (watch_run ss w1))"
  using assms by (simp add: split_beta)

lemma reported_after_idle_steps:
  "i < length steps \<Longrightarrow> fst (watch_run steps w) ! i = Some (z, rqs) \<Longrightarrow>
   100 \<le> z \<and> z \<le> zero_steps w + i + 1 \<and> (\<forall>k<z. k \<le> i \<longrightarrow> idle (steps ! (i - k)))
   \<and> rqs = take 3 (ss_pending (steps ! i)) \<and> 60 \<le> ss_now (steps ! i) - zero_logged w"
proof (induction steps arbitrary: w i)
  case (Cons s ss)
  obtain r w1 where r: "report_zero_progress s w = (r, w1)" by force
  note run = watch_run_Cons [OF r, of ss] and rc = report_cases [OF r]
  show ?case
  proof (cases i)
    case 0
    then have "r = Some (z, rqs)" using Cons.prems(2) run by simp
    from rc(3) [OF this] show ?thesis using 0 by auto
  next
    case (Suc j)
    then have j: "j < length ss" "fst (watch_run ss w1) ! j = Some (z, rqs)" using Cons.prems run by auto
    note IH = Cons.IH [OF this]
    have "idle s" if "Suc j < z" using rc(1) IH that by force
    moreover have "zero_steps w1 \<le> zero_steps w + 1" using rc(1,2) by (cases "idle s") auto
    moreover have "zero_logged w \<le> zero_logged w1" using rc(3,4) by (cases r) auto
    moreover have "idle ((s # ss) ! (Suc j - k))" if "k < z" "k \<le> Suc j" for k
    proof (cases "k = Suc j")
      case True
      then show ?thesis using \<open>Suc j < z \<Longrightarrow> idle s\<close> that by simp
    next
      case False
      then have "k \<le> j" "Suc j - k = Suc (j - k)" using that by auto
      then show ?thesis using IH that(1) by simp
    qed
    ultimately show ?thesis using IH Suc by auto
  qed
qed simp

lemma reports_apart:
  "i < j \<Longrightarrow> j < length steps \<Longrightarrow> fst (watch_run steps w) ! i = Some a \<Longrightarrow> fst (watch_run steps w) ! j = Some b \<Longrightarrow>
   60 \<le> ss_now (steps ! j) - ss_now (steps ! i)"
proof (induction steps arbitrary: w i j)
  case (Cons s ss)
  obtain r w1 where r: "report_zero_progress s w = (r, w1)" by force
  note run = watch_run_Cons [OF r, of ss] and rc = report_cases [OF r]
  obtain j' where j: "j = Suc j'" using Cons.prems(1) by (cases j) auto
  have b: "j' < length ss" "fst (watch_run ss w1) ! j' = Some b" using Cons.prems(2,4) run j by auto
  show ?case
  proof (cases i)
    case 0
    then have "r = Some a" using Cons.prems(3) run by simp
    then have "zero_logged w1 = ss_now s" using rc(3) [of "fst a" "snd a"] by simp
    then show ?thesis using reported_after_idle_steps [OF b(1), of w1 "fst b" "snd b"] b(2) 0 j by simp
  next
    case (Suc i')
    then show ?thesis using Cons.IH [of i' j' w1] Cons.prems run b j by simp
  qed
qed simp

text \<open>The watch over stalled teachers raises no false alarm and does not flood the log: a report means that the last
  hundred steps all scheduled nothing although requests were pending, it names the first three of them, and two
  reports of a run are at least a minute apart.\<close>

theorem stall_reports_sound:
  assumes "i < length steps" and "fst (watch_run steps watch_start) ! i = Some (z, rqs)"
  shows "100 \<le> z \<and> z \<le> i + 1 \<and> (\<forall>k<z. ss_tokens (steps ! (i - k)) = 0 \<and> ss_pending (steps ! (i - k)) \<noteq> [])
    \<and> rqs = take 3 (ss_pending (steps ! i))
    \<and> (\<forall>j<i. fst (watch_run steps watch_start) ! j \<noteq> None \<longrightarrow> 60 \<le> ss_now (steps ! i) - ss_now (steps ! j))"
proof -
  note r = reported_after_idle_steps [OF assms]
  have "z \<le> i + 1" using r by (simp add: watch_start_def)
  moreover have "60 \<le> ss_now (steps ! i) - ss_now (steps ! j)"
    if "j < i" "fst (watch_run steps watch_start) ! j \<noteq> None" for j
    using reports_apart [OF that(1) assms(1) _ assms(2)] that(2) by blast
  ultimately show ?thesis using r by (auto simp: idle_def)
qed

text \<open>A hundred steps that schedule nothing for one pending request.\<close>

definition stalled_steps :: "sched_step list" where
  "stalled_steps = replicate 100 \<lparr>ss_tokens = 0, ss_pending = [\<lparr>rq_id = ''r'', rq_num_computed_tokens = 5, rq_num_tokens = 50\<rparr>], ss_now = 0\<rparr>"

theorem stall_reports_sound_witness:
  "fst (watch_run stalled_steps watch_start) ! 99 = Some (100, [\<lparr>rq_id = ''r'', rq_num_computed_tokens = 5, rq_num_tokens = 50\<rparr>])
    \<and> ss_tokens (stalled_steps ! 50) = 0"
proof -
  have r: "fst (watch_run stalled_steps watch_start) ! 99 = Some (100, [\<lparr>rq_id = ''r'', rq_num_computed_tokens = 5, rq_num_tokens = 50\<rparr>])"
    by code_simp
  have "99 < length stalled_steps" by (simp add: stalled_steps_def)
  from stall_reports_sound [OF this r] have "\<forall>k<100. ss_tokens (stalled_steps ! (99 - k)) = 0" by blast
  from this [rule_format, of 49] r show ?thesis by simp
qed

end
