(* ===== verification/WeightTransfer.thy ===== *)
theory WeightTransfer
  imports PyObject "HOL-Library.Word"
begin

text \<open>
  The transfer of weights from the trainer to rollout and teacher servers: the chunks of
  \<open>verl/checkpoint_engine/base.py\<close> and the buckets of \<open>nccl_checkpoint_engine.py\<close>. The sender fills one buffer while
  the other is broadcast, and each receiver reads one buffer while the other is received; both sides and the
  broadcasts interleave in a step relation. Tensors are their bytes. The contents of a tensor made by
  \<open>torch.empty\<close> are a parameter.
\<close>

section \<open>Tensors as bytes\<close>

datatype torch_dtype = BFloat16 | Float16 | Float32 | Float64 | Int64 | Uint8

fun itemsize :: "torch_dtype \<Rightarrow> nat" where
  "itemsize BFloat16 = 2"
| "itemsize Float16 = 2"
| "itemsize Float32 = 4"
| "itemsize Float64 = 8"
| "itemsize Int64 = 8"
| "itemsize Uint8 = 1"

type_synonym bytes = "8 word list"

record wtensor =
  wt_name :: string
  wt_shape :: "nat list"
  wt_dtype :: torch_dtype
  wt_bytes :: bytes

record tensor_meta =
  tm_name :: string
  tm_shape :: "nat list"
  tm_dtype :: torch_dtype
  tm_chunk_offset :: nat
  tm_chunk_size :: nat
  tm_offset :: "nat option"

text \<open>A contiguous tensor holds an item for every index.\<close>

definition wtensor_wf :: "wtensor \<Rightarrow> bool" where
  "wtensor_wf w \<longleftrightarrow> length (wt_bytes w) = prod_list (wt_shape w) * itemsize (wt_dtype w)"

text \<open>\<open>buf[a:b]\<close> and \<open>buf[a:b] = chunk\<close>; a single item is broadcast, any other wrong number is an error.\<close>

definition buf_slice :: "bytes \<Rightarrow> nat \<Rightarrow> nat \<Rightarrow> bytes" where
  "buf_slice buf a b = take (b - a) (drop a buf)"

definition slice_assign :: "pyerr \<Rightarrow> bytes \<Rightarrow> nat \<Rightarrow> nat \<Rightarrow> bytes \<Rightarrow> bytes res" where
  "slice_assign e buf a b chunk =
     (let n = length (buf_slice buf a b) in
      if length chunk = n then Inr (take a buf @ chunk @ drop (a + n) buf)
      else if length chunk = 1 then Inr (take a buf @ replicate n (hd chunk) @ drop (a + n) buf)
      else Inl e)"

section \<open>Splitting into chunks\<close>

type_synonym wchunk = "tensor_meta \<times> bytes"

text \<open>The loop over one weight, from an offset; with an empty bucket it does not end.\<close>

partial_function (option) split_weight :: "nat \<Rightarrow> wtensor \<Rightarrow> nat \<Rightarrow> wchunk list option" where
  "split_weight bucket w chunk_offset =
     (if chunk_offset < length (wt_bytes w)
      then (let chunk_size = min bucket (length (wt_bytes w) - chunk_offset);
                meta = \<lparr>tm_name = wt_name w, tm_shape = wt_shape w, tm_dtype = wt_dtype w,
                        tm_chunk_offset = chunk_offset, tm_chunk_size = chunk_size, tm_offset = None\<rparr> in
            Option.bind (split_weight bucket w (chunk_offset + chunk_size)) (\<lambda>rest.
            Some ((meta, buf_slice (wt_bytes w) chunk_offset (chunk_offset + chunk_size)) # rest)))
      else Some [])"

fun split_weight_chunks :: "nat \<Rightarrow> wtensor list \<Rightarrow> wchunk list option" where
  "split_weight_chunks bucket [] = Some []"
| "split_weight_chunks bucket (w # ws) =
     Option.bind (split_weight bucket w 0) (\<lambda>a. Option.bind (split_weight_chunks bucket ws) (\<lambda>b. Some (a @ b)))"

section \<open>Merging chunks\<close>

text \<open>A weight that is being put together from its chunks.\<close>

record merging =
  mg_weight :: wtensor
  mg_offset :: nat

text \<open>\<open>chunk.view(dtype).view(shape)\<close>, for a chunk that starts at a position of its buffer: the position and the
  length are whole items, and the shape has that many.\<close>

definition view_chunk :: "tensor_meta \<Rightarrow> nat \<Rightarrow> bytes \<Rightarrow> wtensor res" where
  "view_chunk meta start chunk =
     rbind (rcheck RuntimeError (start mod itemsize (tm_dtype meta) = 0 \<and> length chunk mod itemsize (tm_dtype meta) = 0)) (\<lambda>_.
     rbind (rcheck RuntimeError (length chunk = prod_list (tm_shape meta) * itemsize (tm_dtype meta))) (\<lambda>_.
     Inr \<lparr>wt_name = tm_name meta, wt_shape = tm_shape meta, wt_dtype = tm_dtype meta, wt_bytes = chunk\<rparr>))"

definition start_merge :: "(nat \<Rightarrow> bytes) \<Rightarrow> tensor_meta \<Rightarrow> merging option \<Rightarrow> merging res" where
  "start_merge fresh meta merge =
     (case merge of
        Some m \<Rightarrow> Inr m
      | None \<Rightarrow>
          rbind (rassert (tm_chunk_offset meta = 0)) (\<lambda>_.
          Inr \<lparr>mg_weight = \<lparr>wt_name = tm_name meta, wt_shape = tm_shape meta, wt_dtype = tm_dtype meta,
                             wt_bytes = fresh (prod_list (tm_shape meta) * itemsize (tm_dtype meta))\<rparr>, mg_offset = 0\<rparr>))"

definition merge_chunk ::
    "(nat \<Rightarrow> bytes) \<Rightarrow> nat \<Rightarrow> tensor_meta \<times> nat \<times> bytes \<Rightarrow> merging option \<Rightarrow> (wtensor option \<times> merging option) res" where
  "merge_chunk fresh bucket c merge =
     (let (meta, start, chunk) = c; nbytes = prod_list (tm_shape meta) * itemsize (tm_dtype meta) in
      if nbytes \<le> bucket
      then rbind (rassert (merge = None)) (\<lambda>_. rbind (view_chunk meta start chunk) (\<lambda>w. Inr (Some w, None)))
      else
        rbind (start_merge fresh meta merge) (\<lambda>m.
        rbind (rassert (tm_name meta = wt_name (mg_weight m))) (\<lambda>_.
        rbind (rassert (mg_offset m = tm_chunk_offset meta)) (\<lambda>_.
        rbind (slice_assign RuntimeError (wt_bytes (mg_weight m)) (tm_chunk_offset meta)
                 (tm_chunk_offset meta + tm_chunk_size meta) chunk) (\<lambda>buf.
        (let w = (mg_weight m)\<lparr>wt_bytes := buf\<rparr> in
         if tm_chunk_offset meta + tm_chunk_size meta = nbytes then Inr (Some w, None)
         else Inr (None, Some \<lparr>mg_weight = w, mg_offset = mg_offset m + tm_chunk_size meta\<rparr>)))))))"

text \<open>What the generator yields, and the exception that ends it, if any.\<close>

fun merge_chunks ::
    "(nat \<Rightarrow> bytes) \<Rightarrow> nat \<Rightarrow> merging option \<Rightarrow> (tensor_meta \<times> nat \<times> bytes) list \<Rightarrow> wtensor list \<times> pyerr option" where
  "merge_chunks fresh bucket merge [] = ([], None)"
| "merge_chunks fresh bucket merge (c # cs) =
     (case merge_chunk fresh bucket c merge of
        Inl e \<Rightarrow> ([], Some e)
      | Inr (y, merge') \<Rightarrow>
          (let (ys, e) = merge_chunks fresh bucket merge' cs in (case y of None \<Rightarrow> ys | Some w \<Rightarrow> w # ys, e)))"

definition merge_weight_chunks ::
    "(nat \<Rightarrow> bytes) \<Rightarrow> nat \<Rightarrow> (tensor_meta \<times> nat \<times> bytes) list \<Rightarrow> wtensor list \<times> pyerr option" where
  "merge_weight_chunks fresh bucket chunks = merge_chunks fresh bucket None chunks"

section \<open>The sender\<close>

text \<open>The metadata of a bucket: what it holds, by name, and whether it is the last.\<close>

type_synonym bucket_meta = "tensor_meta pydict \<times> bool"

text \<open>A broadcast first answers the requests for the metadata, one per receiver, and then broadcasts.\<close>

datatype op_phase = Serving nat | Broadcasting

text \<open>The two arrays are named by a truth value; \<open>sn_front\<close> is the one that \<open>send_buf\<close> refers to. A broadcast holds
  one of the arrays and the metadata until it is complete.\<close>

record bucket_sender =
  sn_chunks :: "wchunk list"
  sn_buf :: "bool \<Rightarrow> bytes"
  sn_front :: bool
  sn_meta :: "tensor_meta pydict"
  sn_offset :: nat
  sn_op :: "(bool \<times> bucket_meta \<times> op_phase) option"
  sn_done :: bool
  sn_error :: "pyerr option"

text \<open>The next chunk does not fit into the bucket.\<close>

definition must_flush :: "nat \<Rightarrow> bucket_sender \<Rightarrow> bool" where
  "must_flush bucket s =
     (case sn_chunks s of [] \<Rightarrow> False | (meta, _) # _ \<Rightarrow> sn_offset s + tm_chunk_size meta > bucket)"

definition launch :: "bool \<Rightarrow> bucket_sender \<Rightarrow> bucket_sender" where
  "launch is_last s = s\<lparr>sn_op := Some (sn_front s, (sn_meta s, is_last), Serving 0)\<rparr>"

definition flush_bucket :: "bucket_sender \<Rightarrow> bucket_sender" where
  "flush_bucket s = (launch False s)\<lparr>sn_front := \<not> sn_front s, sn_meta := [], sn_offset := 0\<rparr>"

definition fill_bucket :: "nat \<Rightarrow> bucket_sender \<Rightarrow> bucket_sender res" where
  "fill_bucket bucket s =
     (case sn_chunks s of
        [] \<Rightarrow> Inr s
      | (meta, chunk) # rest \<Rightarrow>
          rbind (rassert (sn_offset s + tm_chunk_size meta \<le> bucket)) (\<lambda>_.
          rbind (rassert (\<not> has_key (sn_meta s) (tm_name meta))) (\<lambda>_.
          rbind (slice_assign ValueError (sn_buf s (sn_front s)) (sn_offset s) (sn_offset s + tm_chunk_size meta) chunk) (\<lambda>buf.
          Inr (s\<lparr>sn_chunks := rest, sn_buf := (sn_buf s)(sn_front s := buf),
                 sn_meta := dict_set (sn_meta s) (tm_name meta) (meta\<lparr>tm_offset := Some (sn_offset s)\<rparr>),
                 sn_offset := sn_offset s + tm_chunk_size meta\<rparr>)))))"

section \<open>Receivers\<close>

text \<open>A receiver's broadcast: it has sent its request, it has the metadata and joins the broadcast, the broadcast
  is complete, or no further one is started.\<close>

datatype rx_op = Requesting | Joined bucket_meta | Arrived bucket_meta | Closed

text \<open>\<open>rc_recv\<close> names the array that \<open>recv_buf\<close> refers to; \<open>rc_todo\<close> are the items of the bucket that the loop has
  not yielded yet. What is yielded is read from the array then: the consumer uses a chunk before it asks for the next.\<close>

record bucket_receiver =
  rc_buf :: "bool \<Rightarrow> bytes"
  rc_recv :: bool
  rc_op :: rx_op
  rc_todo :: "tensor_meta list"
  rc_out :: "(tensor_meta \<times> nat \<times> bytes) list"

text \<open>After a broadcast the arrays are swapped, and unless the bucket was the last the next broadcast is started.\<close>

definition take_bucket :: "bucket_meta \<Rightarrow> bucket_receiver \<Rightarrow> bucket_receiver" where
  "take_bucket bm r =
     r\<lparr>rc_recv := \<not> rc_recv r, rc_todo := map snd (fst bm), rc_op := (if snd bm then Closed else Requesting)\<rparr>"

definition yield_chunk :: "tensor_meta \<Rightarrow> bucket_receiver \<Rightarrow> bucket_receiver" where
  "yield_chunk meta r =
     (let start = the (tm_offset meta) in
      r\<lparr>rc_todo := tl (rc_todo r),
        rc_out := rc_out r @ [(meta, start, buf_slice (rc_buf r (\<not> rc_recv r)) start (start + tm_chunk_size meta))]\<rparr>)"

section \<open>A transfer\<close>

record transfer =
  tr_sender :: bucket_sender
  tr_receivers :: "bucket_receiver list"

definition idle_sender :: "nat \<Rightarrow> wchunk list \<Rightarrow> bucket_sender" where
  "idle_sender bucket chunks =
     \<lparr>sn_chunks = chunks, sn_buf = (\<lambda>_. replicate bucket 0), sn_front = True, sn_meta = [], sn_offset = 0,
      sn_op = None, sn_done = False, sn_error = None\<rparr>"

definition first_request :: "nat \<Rightarrow> bucket_receiver" where
  "first_request bucket =
     \<lparr>rc_buf = (\<lambda>_. replicate bucket 0), rc_recv = True, rc_op = Requesting, rc_todo = [], rc_out = []\<rparr>"

definition start_transfer :: "nat \<Rightarrow> nat \<Rightarrow> wchunk list \<Rightarrow> transfer" where
  "start_transfer bucket n chunks =
     \<lparr>tr_sender = idle_sender bucket chunks, tr_receivers = replicate n (first_request bucket)\<rparr>"

definition set_receiver :: "transfer \<Rightarrow> nat \<Rightarrow> bucket_receiver \<Rightarrow> transfer" where
  "set_receiver st i r = st\<lparr>tr_receivers := (tr_receivers st)[i := r]\<rparr>"

text \<open>The steps of the sender's loop, of its broadcasts and of the receivers' loops, in any order. The sender waits
  for its last broadcast before the next one.\<close>

inductive transfer_step :: "nat \<Rightarrow> transfer \<Rightarrow> transfer \<Rightarrow> bool" for bucket :: nat where
  fill: "\<lbrakk>s = tr_sender st; sn_error s = None; \<not> sn_done s; sn_chunks s \<noteq> []; \<not> must_flush bucket s;
          fill_bucket bucket s = Inr s'\<rbrakk> \<Longrightarrow> transfer_step bucket st (st\<lparr>tr_sender := s'\<rparr>)"
| fail: "\<lbrakk>s = tr_sender st; sn_error s = None; \<not> sn_done s; sn_chunks s \<noteq> []; \<not> must_flush bucket s;
          fill_bucket bucket s = Inl e\<rbrakk> \<Longrightarrow> transfer_step bucket st (st\<lparr>tr_sender := s\<lparr>sn_error := Some e\<rparr>\<rparr>)"
| flush: "\<lbrakk>s = tr_sender st; sn_error s = None; \<not> sn_done s; must_flush bucket s; sn_op s = None\<rbrakk>
          \<Longrightarrow> transfer_step bucket st (st\<lparr>tr_sender := flush_bucket s\<rparr>)"
| last_bucket: "\<lbrakk>s = tr_sender st; sn_error s = None; \<not> sn_done s; sn_chunks s = []; sn_op s = None\<rbrakk>
          \<Longrightarrow> transfer_step bucket st (st\<lparr>tr_sender := (launch True s)\<lparr>sn_done := True\<rparr>\<rparr>)"
| serve: "\<lbrakk>sn_op (tr_sender st) = Some (b, bm, Serving k); k < length (tr_receivers st); i < length (tr_receivers st);
           r = tr_receivers st ! i; rc_op r = Requesting\<rbrakk>
          \<Longrightarrow> transfer_step bucket st
                (set_receiver (st\<lparr>tr_sender := (tr_sender st)\<lparr>sn_op := Some (b, bm, Serving (Suc k))\<rparr>\<rparr>) i (r\<lparr>rc_op := Joined bm\<rparr>))"
| broadcast: "sn_op (tr_sender st) = Some (b, bm, Serving (length (tr_receivers st)))
          \<Longrightarrow> transfer_step bucket st (st\<lparr>tr_sender := (tr_sender st)\<lparr>sn_op := Some (b, bm, Broadcasting)\<rparr>\<rparr>)"
| deliver: "\<lbrakk>sn_op (tr_sender st) = Some (b, bm, Broadcasting); i < length (tr_receivers st);
             r = tr_receivers st ! i; rc_op r = Joined rm\<rbrakk>
          \<Longrightarrow> transfer_step bucket st
                (set_receiver st i (r\<lparr>rc_buf := (rc_buf r)(rc_recv r := sn_buf (tr_sender st) b), rc_op := Arrived rm\<rparr>))"
| complete: "\<lbrakk>sn_op (tr_sender st) = Some (b, bm, Broadcasting); \<forall>r\<in>set (tr_receivers st). \<forall>rm. rc_op r \<noteq> Joined rm\<rbrakk>
          \<Longrightarrow> transfer_step bucket st (st\<lparr>tr_sender := (tr_sender st)\<lparr>sn_op := None\<rparr>\<rparr>)"
| take_next: "\<lbrakk>i < length (tr_receivers st); r = tr_receivers st ! i; rc_op r = Arrived rm; rc_todo r = []\<rbrakk>
          \<Longrightarrow> transfer_step bucket st (set_receiver st i (take_bucket rm r))"
| yield_next: "\<lbrakk>i < length (tr_receivers st); r = tr_receivers st ! i; rc_todo r = meta # rest\<rbrakk>
          \<Longrightarrow> transfer_step bucket st (set_receiver st i (yield_chunk meta r))"

inductive_cases transfer_stepE: "transfer_step bucket st st'"

definition transfer_run :: "nat \<Rightarrow> transfer \<Rightarrow> transfer \<Rightarrow> bool" where
  "transfer_run bucket = (transfer_step bucket)\<^sup>*\<^sup>*"

text \<open>The sender and all receivers have left their loops.\<close>

definition transfer_complete :: "transfer \<Rightarrow> bool" where
  "transfer_complete st \<longleftrightarrow>
     sn_done (tr_sender st) \<and> sn_op (tr_sender st) = None \<and> (\<forall>r\<in>set (tr_receivers st). rc_op r = Closed \<and> rc_todo r = [])"

definition received_weights :: "(nat \<Rightarrow> bytes) \<Rightarrow> nat \<Rightarrow> bucket_receiver \<Rightarrow> wtensor list \<times> pyerr option" where
  "received_weights fresh bucket r = merge_weight_chunks fresh bucket (rc_out r)"

section \<open>Process groups\<close>

text \<open>What an engine knows of its process group. Whether the collective library of the process has the group is part of
  the state: it refuses to make a group that it has, and to destroy one that it does not have is nothing.\<close>

record group_engine =
  ge_rebuild :: bool
  ge_master :: bool
  ge_rank :: "int option"
  ge_world :: "nat option"
  ge_group :: bool

definition new_engine :: "bool \<Rightarrow> bool \<Rightarrow> group_engine" where
  "new_engine rebuild master =
     \<lparr>ge_rebuild = rebuild, ge_master = master, ge_rank = None, ge_world = None, ge_group = False\<rparr>"

text \<open>The ranks and the world size of the workers on either side.\<close>

definition build_topology :: "nat \<Rightarrow> nat \<Rightarrow> (int \<times> nat) list \<times> (int \<times> nat) list" where
  "build_topology trainer_world rollout_world =
     (map (\<lambda>rank. (rank, rollout_world + 1)) (0 # replicate (trainer_world - 1) (- 1)),
      map (\<lambda>rank. (int rank, rollout_world + 1)) [1..<rollout_world + 1])"

definition init_process_group :: "int \<Rightarrow> nat \<Rightarrow> group_engine \<Rightarrow> group_engine res" where
  "init_process_group rank world e =
     (if rank < 0 then Inr (e\<lparr>ge_rank := Some rank, ge_world := Some world\<rparr>)
      else
        rbind (if ge_rebuild e \<or> \<not> ge_group e
               then rbind (rcheck RuntimeError (\<not> ge_group e)) (\<lambda>_.
                    Inr (e\<lparr>ge_group := True, ge_rank := Some rank, ge_world := Some world\<rparr>))
               else rbind (rassert (ge_rank e = Some rank)) (\<lambda>_.
                    rbind (rassert (ge_world e = Some world)) (\<lambda>_. Inr e))) (\<lambda>e'.
        rbind (if rank > 0 then rassert (\<not> ge_master e') else Inr ()) (\<lambda>_. Inr e')))"

definition finalize_group :: "group_engine \<Rightarrow> group_engine res" where
  "finalize_group e =
     (if ge_rebuild e
      then (case ge_rank e of
              None \<Rightarrow> Inl TypeError
            | Some rank \<Rightarrow> Inr (e\<lparr>ge_group := (if rank \<ge> 0 then False else ge_group e), ge_rank := None, ge_world := None\<rparr>))
      else Inr e)"

text \<open>The synchronisations of one trainer worker, each with the replicas of a manager: the group is made and finalised.\<close>

fun sync_groups :: "int \<Rightarrow> nat list \<Rightarrow> group_engine \<Rightarrow> group_engine res" where
  "sync_groups rank [] e = Inr e"
| "sync_groups rank (world # worlds) e =
     rbind (init_process_group rank world e) (\<lambda>e. rbind (finalize_group e) (sync_groups rank worlds))"

end
