(* ===== verification/TransferLaws.thy ===== *)
theory TransferLaws
  imports WeightLaws
begin

text \<open>
  The invariant of a transfer and what follows from it. The buckets that were launched so far determine what each buffer
  that is still read has to hold, and how far each receiver is.
\<close>

section \<open>Buckets\<close>

text \<open>The items of a bucket lie within its used part, at aligned places, under different names.\<close>

definition bucket_ok :: "nat \<Rightarrow> nat \<Rightarrow> wchunk list \<Rightarrow> bool" where
  "bucket_ok z used items \<longleftrightarrow>
     distinct (map (\<lambda>(m, _). tm_name m) items)
     \<and> (\<forall>(m, bs)\<in>set items. \<exists>off. tm_offset m = Some off \<and> z dvd off \<and> off + length bs \<le> used \<and> tm_chunk_size m = length bs)"

definition holds :: "bytes \<Rightarrow> wchunk list \<Rightarrow> bool" where
  "holds buf items \<longleftrightarrow>
     (\<forall>(m, bs)\<in>set items. buf_slice buf (the (tm_offset m)) (the (tm_offset m) + tm_chunk_size m) = bs)"

definition meta_of :: "wchunk list \<Rightarrow> tensor_meta pydict" where
  "meta_of items = map (\<lambda>(m, _). (tm_name m, m)) items"

definition unplaced :: "wchunk \<Rightarrow> wchunk" where
  "unplaced c = ((fst c)\<lparr>tm_offset := None\<rparr>, snd c)"

definition viewed :: "wchunk \<Rightarrow> tensor_meta \<times> nat \<times> bytes" where
  "viewed c = (fst c, the (tm_offset (fst c)), snd c)"

text \<open>What is sent: chunks that fit into a bucket, aligned, where a weight goes on only after a full bucket.\<close>

definition chunks_ok :: "nat \<Rightarrow> nat \<Rightarrow> wchunk list \<Rightarrow> bool" where
  "chunks_ok z bucket chunks \<longleftrightarrow>
     (\<forall>(m, bs)\<in>set chunks. tm_chunk_size m = length bs \<and> 0 < length bs \<and> length bs \<le> bucket \<and> z dvd length bs \<and> tm_offset m = None)
     \<and> sorted_wrt (\<lambda>c d. tm_name (fst c) = tm_name (fst d) \<longrightarrow> tm_chunk_size (fst c) = bucket) chunks"

text \<open>The buckets that the chunks are packed into: a bucket is closed when the next chunk does not fit.\<close>

fun pack_chunks :: "nat \<Rightarrow> wchunk list \<Rightarrow> nat \<Rightarrow> wchunk list \<Rightarrow> wchunk list list" where
  "pack_chunks bucket cur used [] = [cur]"
| "pack_chunks bucket cur used ((m, bs) # cs) =
     (if used + tm_chunk_size m > bucket then cur # pack_chunks bucket [(m\<lparr>tm_offset := Some 0\<rparr>, bs)] (tm_chunk_size m) cs
      else pack_chunks bucket (cur @ [(m\<lparr>tm_offset := Some used\<rparr>, bs)]) (used + tm_chunk_size m) cs)"

lemma bucket_ok_Nil [simp]: "bucket_ok z used []"
  by (simp add: bucket_ok_def)

lemma holds_Nil [simp]: "holds buf []"
  by (simp add: holds_def)

lemma meta_of_Nil [simp]: "meta_of [] = []"
  by (simp add: meta_of_def)

lemma length_meta_of [simp]: "length (meta_of items) = length items"
  by (simp add: meta_of_def)

lemma bucket_ok_mono: "bucket_ok z used items \<Longrightarrow> used \<le> used' \<Longrightarrow> bucket_ok z used' items"
  by (fastforce simp: bucket_ok_def)

text \<open>Adding a chunk behind the used part.\<close>

lemma bucket_ok_add:
  assumes "bucket_ok z used items" and "z dvd used" and "tm_chunk_size m = length bs"
    and "tm_name m \<notin> set (map (\<lambda>(m, _). tm_name m) items)"
  shows "bucket_ok z (used + length bs) (items @ [(m\<lparr>tm_offset := Some used\<rparr>, bs)])"
proof -
  have "bucket_ok z (used + length bs) items" using assms(1) by (rule bucket_ok_mono) simp
  then show ?thesis using assms(2-4) by (auto simp: bucket_ok_def)
qed

lemma buf_slice_write:
  "off + n \<le> a \<Longrightarrow> a + length bs \<le> length buf \<Longrightarrow>
   buf_slice (take a buf @ bs @ drop (a + length bs) buf) off (off + n) = buf_slice buf off (off + n)"
  by (auto simp: buf_slice_def drop_take min_def)

lemma holds_add:
  assumes "holds buf items" and "bucket_ok z used items" and "used + length bs \<le> length buf" and "tm_chunk_size m = length bs"
  shows "holds (take used buf @ bs @ drop (used + length bs) buf) (items @ [(m\<lparr>tm_offset := Some used\<rparr>, bs)])"
proof -
  have "buf_slice (take used buf @ bs @ drop (used + length bs) buf) (the (tm_offset i)) (the (tm_offset i) + tm_chunk_size i) = c"
    if item: "(i, c) \<in> set items" for i c
  proof -
    obtain off where "tm_offset i = Some off" "off + length c \<le> used" "tm_chunk_size i = length c"
      using item assms(2) by (fastforce simp: bucket_ok_def)
    then show ?thesis using item assms(1,3) by (fastforce simp: holds_def buf_slice_write)
  qed
  moreover have "buf_slice (take used buf @ bs @ drop (used + length bs) buf) used (used + length bs) = bs"
    using assms(3) by (simp add: buf_slice_def)
  ultimately show ?thesis using assms(4) by (auto simp: holds_def)
qed

section \<open>The chunks of weights\<close>

lemma chunk_chain_ok:
  assumes "chunk_chain bucket w off cs" and "0 < bucket" and "z dvd bucket" and "z dvd length (wt_bytes w)" and "z dvd off"
  shows "chunks_ok z bucket cs \<and> (\<forall>c\<in>set cs. tm_name (fst c) = wt_name w)"
  using assms(1,5)
proof (induction cs arbitrary: off)
  case (Cons c cs)
  let ?size = "min bucket (length (wt_bytes w) - off)"
  have c: "c = (chunk_meta bucket w off, buf_slice (wt_bytes w) off (off + ?size))" "off < length (wt_bytes w)"
    and chain: "chunk_chain bucket w (off + ?size) cs"
    using Cons.prems(1) by (cases c; simp)+
  have size: "z dvd ?size" using assms(3,4) Cons.prems(2) by (simp add: min_def)
  with Cons.prems(2) have "z dvd off + ?size" by simp
  note IH = Cons.IH [OF chain this]
  have "cs = []" if "?size \<noteq> bucket"
    using that chain c(2) by (cases cs) (auto simp: min_def split: if_splits)
  then have last: "?size = bucket \<or> cs = []" by blast
  obtain bs where bs: "c = (chunk_meta bucket w off, bs)" "length bs = ?size" "0 < length bs"
    using c assms(2) by simp
  moreover have "tm_offset (chunk_meta bucket w off) = None" by (simp add: chunk_meta_def)
  with bs show ?case using IH size last by (auto simp: chunks_ok_def)
qed (simp add: chunks_ok_def)

lemma chunks_ok_append:
  assumes "chunks_ok z bucket a" and "chunks_ok z bucket b"
    and "\<forall>c\<in>set a. \<forall>d\<in>set b. tm_name (fst c) \<noteq> tm_name (fst d)"
  shows "chunks_ok z bucket (a @ b)"
  using assms by (auto simp: chunks_ok_def sorted_wrt_append)

lemma split_chunks_ok:
  assumes "0 < bucket" and "sendable ws" and "z dvd bucket \<and> (\<forall>w\<in>set ws. z dvd length (wt_bytes w))"
    and "split_weight_chunks bucket ws = Some cs"
  shows "chunks_ok z bucket cs \<and> (\<forall>c\<in>set cs. tm_name (fst c) \<in> set (map wt_name ws))"
  using assms(2-4)
proof (induction ws arbitrary: cs)
  case (Cons w ws)
  from Cons.prems(3) obtain a b where ab: "split_weight bucket w 0 = Some a" "split_weight_chunks bucket ws = Some b" "cs = a @ b"
    by (auto simp: bind_eq_Some_conv)
  then have "chunk_chain bucket w 0 a" using split_weight_chain [OF assms(1), of w 0] by auto
  then have a: "chunks_ok z bucket a \<and> (\<forall>c\<in>set a. tm_name (fst c) = wt_name w)"
    using assms(1) Cons.prems(2) by (intro chunk_chain_ok [where off = 0]) auto
  have b: "chunks_ok z bucket b \<and> (\<forall>c\<in>set b. tm_name (fst c) \<in> set (map wt_name ws))"
    using Cons.IH [OF _ _ ab(2)] Cons.prems(1,2) by (simp add: sendable_def)
  have "wt_name w \<notin> set (map wt_name ws)" using Cons.prems(1) by (simp add: sendable_def)
  then show ?case using a b ab(3) chunks_ok_append [of z bucket a b] by fastforce
qed (simp add: chunks_ok_def)

section \<open>The invariant\<close>

fun phase_of :: "(bool \<times> bucket_meta \<times> op_phase) option \<Rightarrow> op_phase option" where
  "phase_of None = None"
| "phase_of (Some (b, bm, ph)) = Some ph"

text \<open>The sender has launched the buckets \<open>B\<close> and is filling \<open>cur\<close>. A bucket that is being broadcast is in the array
  that is not being filled.\<close>

definition sender_ok :: "nat \<Rightarrow> nat \<Rightarrow> wchunk list \<Rightarrow> wchunk list list \<Rightarrow> wchunk list \<Rightarrow> bucket_sender \<Rightarrow> bool" where
  "sender_ok z bucket chunks B cur s \<longleftrightarrow>
     sn_error s = None
     \<and> map unplaced (concat B @ cur) @ sn_chunks s = chunks
     \<and> pack_chunks bucket [] 0 chunks = B @ (if sn_done s then [] else pack_chunks bucket cur (sn_offset s) (sn_chunks s))
     \<and> (\<forall>items\<in>set B. bucket_ok z bucket items)
     \<and> (\<forall>b. length (sn_buf s b) = bucket)
     \<and> (case sn_op s of None \<Rightarrow> True
        | Some (b, bm, ph) \<Rightarrow> B \<noteq> [] \<and> bm = (meta_of (last B), sn_done s) \<and> holds (sn_buf s b) (last B)
                            \<and> (\<not> sn_done s \<longrightarrow> b \<noteq> sn_front s))
     \<and> (if sn_done s then cur = [] \<and> sn_chunks s = [] \<and> B \<noteq> []
        else bucket_ok z (sn_offset s) cur \<and> sn_offset s \<le> bucket \<and> z dvd sn_offset s \<and> sn_meta s = meta_of cur
             \<and> holds (sn_buf s (sn_front s)) cur)"

text \<open>The metadata of the \<open>t\<close>-th bucket; how many buckets a receiver that has taken \<open>t\<close> has received.\<close>

definition bmeta :: "wchunk list list \<Rightarrow> bool \<Rightarrow> nat \<Rightarrow> bucket_meta" where
  "bmeta B finished t = (meta_of (B ! t), finished \<and> Suc t = length B)"

fun op_ok :: "wchunk list list \<Rightarrow> bool \<Rightarrow> nat \<Rightarrow> bytes \<Rightarrow> rx_op \<Rightarrow> bool" where
  "op_ok B finished t buf Requesting \<longleftrightarrow> \<not> (finished \<and> t = length B)"
| "op_ok B finished t buf (Joined bm) \<longleftrightarrow> Suc t = length B \<and> bm = bmeta B finished t"
| "op_ok B finished t buf (Arrived bm) \<longleftrightarrow> t < length B \<and> bm = bmeta B finished t \<and> holds buf (B ! t)"
| "op_ok B finished t buf Closed \<longleftrightarrow> finished \<and> t = length B"

fun is_joined :: "rx_op \<Rightarrow> bool" where
  "is_joined (Joined bm) = True"
| "is_joined _ = False"

fun received :: "nat \<Rightarrow> rx_op \<Rightarrow> nat" where
  "received t (Arrived bm) = Suc t"
| "received t _ = t"

fun phase_ok :: "op_phase option \<Rightarrow> nat \<Rightarrow> nat \<Rightarrow> rx_op \<Rightarrow> bool" where
  "phase_ok None n t op \<longleftrightarrow> received t op = n"
| "phase_ok (Some (Serving k)) n t op \<longleftrightarrow> Suc (received t op) = n"
| "phase_ok (Some Broadcasting) n t op \<longleftrightarrow> (if is_joined op then Suc (received t op) = n else received t op = n)"

text \<open>A receiver has yielded the items of the buckets it has taken, except the ones to do, which are in the array that
  is not being received into.\<close>

definition receiver_ok :: "wchunk list list \<Rightarrow> bool \<Rightarrow> op_phase option \<Rightarrow> bucket_receiver \<Rightarrow> bool" where
  "receiver_ok B finished ph r \<longleftrightarrow>
     (\<exists>t todo. t \<le> length B \<and> phase_ok ph (length B) t (rc_op r)
        \<and> map viewed (concat (take t B)) = rc_out r @ map viewed todo
        \<and> rc_todo r = map fst todo \<and> holds (rc_buf r (\<not> rc_recv r)) todo
        \<and> op_ok B finished t (rc_buf r (rc_recv r)) (rc_op r))"

definition joined_count :: "bucket_receiver list \<Rightarrow> nat" where
  "joined_count rs = length (filter (\<lambda>r. is_joined (rc_op r)) rs)"

definition served_ok :: "op_phase option \<Rightarrow> bucket_receiver list \<Rightarrow> bool" where
  "served_ok ph rs \<longleftrightarrow> (\<forall>k. ph = Some (Serving k) \<longrightarrow> k = joined_count rs)"

definition transfer_ok :: "nat \<Rightarrow> nat \<Rightarrow> wchunk list \<Rightarrow> transfer \<Rightarrow> bool" where
  "transfer_ok z bucket chunks st \<longleftrightarrow>
     (let s = tr_sender st; ph = phase_of (sn_op s) in
      (\<exists>B cur. sender_ok z bucket chunks B cur s \<and> (\<forall>r\<in>set (tr_receivers st). receiver_ok B (sn_done s) ph r))
      \<and> served_ok ph (tr_receivers st))"

lemma transfer_okI:
  "sender_ok z bucket chunks B cur (tr_sender st) \<Longrightarrow>
   (\<And>r. r \<in> set (tr_receivers st) \<Longrightarrow> receiver_ok B (sn_done (tr_sender st)) (phase_of (sn_op (tr_sender st))) r) \<Longrightarrow>
   served_ok (phase_of (sn_op (tr_sender st))) (tr_receivers st) \<Longrightarrow> transfer_ok z bucket chunks st"
  by (auto simp: transfer_ok_def Let_def)

lemma transfer_okE:
  assumes "transfer_ok z bucket chunks st"
  obtains B cur where "sender_ok z bucket chunks B cur (tr_sender st)"
    "\<And>r. r \<in> set (tr_receivers st) \<Longrightarrow> receiver_ok B (sn_done (tr_sender st)) (phase_of (sn_op (tr_sender st))) r"
    "served_ok (phase_of (sn_op (tr_sender st))) (tr_receivers st)"
  using assms by (auto simp: transfer_ok_def Let_def)

lemma receiver_okI:
  "t \<le> length B \<Longrightarrow> phase_ok ph (length B) t (rc_op r) \<Longrightarrow> map viewed (concat (take t B)) = rc_out r @ map viewed todo \<Longrightarrow>
   rc_todo r = map fst todo \<Longrightarrow> holds (rc_buf r (\<not> rc_recv r)) todo \<Longrightarrow> op_ok B finished t (rc_buf r (rc_recv r)) (rc_op r) \<Longrightarrow>
   receiver_ok B finished ph r"
  unfolding receiver_ok_def by blast

lemma receiver_okE:
  assumes "receiver_ok B finished ph r"
  obtains t todo where "t \<le> length B" "phase_ok ph (length B) t (rc_op r)"
    "map viewed (concat (take t B)) = rc_out r @ map viewed todo" "rc_todo r = map fst todo"
    "holds (rc_buf r (\<not> rc_recv r)) todo" "op_ok B finished t (rc_buf r (rc_recv r)) (rc_op r)"
  using assms unfolding receiver_ok_def by blast

section \<open>The invariant at the start\<close>

lemma joined_count_none: "(\<And>r. r \<in> set rs \<Longrightarrow> \<not> is_joined (rc_op r)) \<Longrightarrow> joined_count rs = 0"
  by (simp add: joined_count_def filter_empty_conv)

lemma start_transfer_ok: "transfer_ok z bucket chunks (start_transfer bucket n chunks)"
proof (rule transfer_okI [where B = "[]" and cur = "[]"])
  fix r assume "r \<in> set (tr_receivers (start_transfer bucket n chunks))"
  then have "r = first_request bucket" by (auto simp: start_transfer_def)
  then show "receiver_ok [] (sn_done (tr_sender (start_transfer bucket n chunks)))
      (phase_of (sn_op (tr_sender (start_transfer bucket n chunks)))) r"
    by (intro receiver_okI [where t = 0 and todo = "[]"]) (simp_all add: first_request_def start_transfer_def idle_sender_def)
qed (simp_all add: start_transfer_def idle_sender_def sender_ok_def served_ok_def)

section \<open>The steps of the sender\<close>

text \<open>Filling never fails and keeps the buckets.\<close>

lemma fill_bucket_ok:
  assumes "sender_ok z bucket chunks B cur s" and "chunks_ok z bucket chunks" and "\<not> sn_done s"
    and "sn_chunks s = (m, bs) # rest" and "\<not> must_flush bucket s"
  shows "\<exists>s'. fill_bucket bucket s = Inr s' \<and> sender_ok z bucket chunks B (cur @ [(m\<lparr>tm_offset := Some (sn_offset s)\<rparr>, bs)]) s'
    \<and> sn_done s' = sn_done s \<and> sn_op s' = sn_op s"
proof -
  let ?used = "sn_offset s" and ?buf = "sn_buf s (sn_front s)"
  have inv: "map unplaced (concat B @ cur) @ (m, bs) # rest = chunks" "bucket_ok z ?used cur" "sn_meta s = meta_of cur"
      "holds ?buf cur" "length ?buf = bucket" "z dvd ?used"
    using assms(1,3,4) by (simp_all add: sender_ok_def)
  have chunk: "tm_chunk_size m = length bs" "0 < length bs" "z dvd length bs" "tm_offset m = None"
    using assms(2) inv(1) by (auto simp: chunks_ok_def)
  have fits: "?used + length bs \<le> bucket" using assms(4,5) chunk(1) by (simp add: must_flush_def)
  have other: "tm_name m \<notin> set (map (\<lambda>(m, _). tm_name m) cur)"
  proof
    assume "tm_name m \<in> set (map (\<lambda>(m, _). tm_name m) cur)"
    then obtain i c where item: "(i, c) \<in> set cur" "tm_name i = tm_name m" by auto
    have "chunks = map unplaced (concat B) @ (map unplaced cur @ (m, bs) # rest)" using inv(1) by simp
    then have "sorted_wrt (\<lambda>c d. tm_name (fst c) = tm_name (fst d) \<longrightarrow> tm_chunk_size (fst c) = bucket)
        (map unplaced cur @ (m, bs) # rest)"
      using assms(2) sorted_wrt_append unfolding chunks_ok_def by blast
    then have "tm_chunk_size i = bucket" using item by (force simp: sorted_wrt_append unplaced_def)
    moreover have "tm_chunk_size i \<le> ?used" using item(1) inv(2) by (fastforce simp: bucket_ok_def)
    ultimately show False using fits chunk(2) by simp
  qed
  let ?s' = "s\<lparr>sn_chunks := rest, sn_buf := (sn_buf s)(sn_front s := take ?used ?buf @ bs @ drop (?used + length bs) ?buf),
      sn_meta := meta_of (cur @ [(m\<lparr>tm_offset := Some ?used\<rparr>, bs)]), sn_offset := ?used + length bs\<rparr>"
  have keys: "\<not> has_key (meta_of cur) (tm_name m)"
    using other by (auto simp: has_key_def meta_of_def split_beta)
  then have "fill_bucket bucket s = Inr ?s'"
    using fits inv(3,5) by (simp add: fill_bucket_def assms(4) chunk(1) rassert_def slice_assign_fits dict_set_new meta_of_def)
  moreover have "sender_ok z bucket chunks B (cur @ [(m\<lparr>tm_offset := Some ?used\<rparr>, bs)]) ?s'"
    using assms(1,3,4) inv chunk fits bucket_ok_add [OF inv(2,6) chunk(1) other] holds_add [OF inv(4,2) _ chunk(1)]
    by (auto simp: sender_ok_def unplaced_def split: option.splits)
  ultimately show ?thesis by (intro exI [of _ ?s']) simp
qed

text \<open>Launching a bucket that is not the last, and the last.\<close>

lemma flush_bucket_ok:
  assumes "sender_ok z bucket chunks B cur s" and "\<not> sn_done s" and "chunks_ok z bucket chunks" and "must_flush bucket s"
  shows "sender_ok z bucket chunks (B @ [cur]) [] (flush_bucket s)"
proof -
  from assms(4) obtain m bs rest where next_chunk: "sn_chunks s = (m, bs) # rest" "sn_offset s + tm_chunk_size m > bucket"
    by (auto simp: must_flush_def split: list.splits)
  have "(m, bs) \<in> set chunks" using assms(1) next_chunk(1) by (auto simp: sender_ok_def)
  then have "tm_chunk_size m \<le> bucket" using assms(3) by (auto simp: chunks_ok_def)
  then have "pack_chunks bucket cur (sn_offset s) (sn_chunks s) = cur # pack_chunks bucket [] 0 (sn_chunks s)"
    using next_chunk by simp
  with assms(1,2) show ?thesis by (auto simp: sender_ok_def flush_bucket_def launch_def intro: bucket_ok_mono)
qed

lemma last_bucket_ok:
  assumes "sender_ok z bucket chunks B cur s" and "\<not> sn_done s" and "sn_chunks s = []"
  shows "sender_ok z bucket chunks (B @ [cur]) [] ((launch True s)\<lparr>sn_done := True\<rparr>)"
  using assms by (auto simp: sender_ok_def launch_def intro: bucket_ok_mono)

text \<open>A receiver before and after the launch: it has received all earlier buckets.\<close>

lemma receiver_ok_launch:
  assumes "receiver_ok B False None r"
  shows "receiver_ok (B @ [c]) finished (Some (Serving 0)) r"
proof -
  from assms obtain t todo where r: "t \<le> length B" "phase_ok None (length B) t (rc_op r)"
    "map viewed (concat (take t B)) = rc_out r @ map viewed todo" "rc_todo r = map fst todo"
    "holds (rc_buf r (\<not> rc_recv r)) todo" "op_ok B False t (rc_buf r (rc_recv r)) (rc_op r)"
    by (rule receiver_okE)
  have "op_ok (B @ [c]) finished t (rc_buf r (rc_recv r)) (rc_op r)"
    using r(1,2,6) by (cases "rc_op r") (auto simp: bmeta_def nth_append)
  then show ?thesis using r by (intro receiver_okI [where t = t and todo = todo]) auto
qed

lemma joined_none_idle:
  assumes "\<And>r. r \<in> set rs \<Longrightarrow> receiver_ok B finished None r"
  shows "joined_count rs = 0"
proof (rule joined_count_none)
  fix r assume "r \<in> set rs"
  then obtain t where "received t (rc_op r) = length B" "op_ok B finished t (rc_buf r (rc_recv r)) (rc_op r)"
    using assms by (meson receiver_okE phase_ok.simps(1))
  then show "\<not> is_joined (rc_op r)" by (cases "rc_op r") auto
qed

section \<open>The steps of a broadcast\<close>

lemma joined_count_update:
  "i < length rs \<Longrightarrow> joined_count (rs[i := r]) + (if is_joined (rc_op (rs ! i)) then 1 else 0)
     = joined_count rs + (if is_joined (rc_op r) then 1 else 0)"
proof (induction rs arbitrary: i)
  case (Cons a rs)
  show ?case
  proof (cases i)
    case (Suc j)
    with Cons show ?thesis using Cons.IH [of j] by (simp add: joined_count_def)
  qed (simp add: joined_count_def)
qed simp

lemma joined_count_le: "joined_count rs \<le> length rs"
  by (simp add: joined_count_def)

lemma all_joined: "joined_count rs = length rs \<Longrightarrow> r \<in> set rs \<Longrightarrow> is_joined (rc_op r)"
  unfolding joined_count_def by (metis filter_id_conv length_filter_less less_irrefl)

lemma receiver_ok_serve:
  assumes "receiver_ok B finished (Some (Serving k)) r" and "rc_op r = Requesting" and "B \<noteq> []"
    and "bm = (meta_of (last B), finished)"
  shows "receiver_ok B finished (Some (Serving k')) (r\<lparr>rc_op := Joined bm\<rparr>)"
proof -
  from assms(1) obtain t todo where r: "t \<le> length B" "phase_ok (Some (Serving k)) (length B) t (rc_op r)"
    "map viewed (concat (take t B)) = rc_out r @ map viewed todo" "rc_todo r = map fst todo"
    "holds (rc_buf r (\<not> rc_recv r)) todo" "op_ok B finished t (rc_buf r (rc_recv r)) (rc_op r)"
    by (rule receiver_okE)
  then have t: "Suc t = length B" using assms(2) by simp
  then have last: "last B = B ! t" using assms(3) by (metis diff_Suc_1 last_conv_nth)
  have "bm = bmeta B finished t" by (simp add: bmeta_def assms(4) last t)
  then show ?thesis using r t by (intro receiver_okI [where t = t and todo = todo]) simp_all
qed

lemma receiver_ok_broadcast:
  assumes "receiver_ok B finished (Some (Serving k)) r" and "is_joined (rc_op r)"
  shows "receiver_ok B finished (Some Broadcasting) r"
proof -
  from assms(1) obtain t todo where r: "t \<le> length B" "phase_ok (Some (Serving k)) (length B) t (rc_op r)"
    "map viewed (concat (take t B)) = rc_out r @ map viewed todo" "rc_todo r = map fst todo"
    "holds (rc_buf r (\<not> rc_recv r)) todo" "op_ok B finished t (rc_buf r (rc_recv r)) (rc_op r)"
    by (rule receiver_okE)
  then show ?thesis using assms(2) by (intro receiver_okI [where t = t and todo = todo]) simp_all
qed

lemma receiver_ok_deliver:
  assumes "receiver_ok B finished (Some Broadcasting) r" and "rc_op r = Joined rm" and "B \<noteq> []" and "holds buf (last B)"
  shows "receiver_ok B finished (Some Broadcasting) (r\<lparr>rc_buf := (rc_buf r)(rc_recv r := buf), rc_op := Arrived rm\<rparr>)"
proof -
  from assms(1) obtain t todo where r: "t \<le> length B" "phase_ok (Some Broadcasting) (length B) t (rc_op r)"
    "map viewed (concat (take t B)) = rc_out r @ map viewed todo" "rc_todo r = map fst todo"
    "holds (rc_buf r (\<not> rc_recv r)) todo" "op_ok B finished t (rc_buf r (rc_recv r)) (rc_op r)"
    by (rule receiver_okE)
  then have t: "Suc t = length B" "rm = bmeta B finished t" using assms(2) by simp_all
  then have "last B = B ! t" using assms(3) by (metis diff_Suc_1 last_conv_nth)
  then show ?thesis using assms(4) r t by (intro receiver_okI [where t = t and todo = todo]) simp_all
qed

lemma receiver_ok_complete:
  assumes "receiver_ok B finished (Some Broadcasting) r" and "\<forall>rm. rc_op r \<noteq> Joined rm"
  shows "receiver_ok B finished None r"
proof -
  have joined: "\<not> is_joined (rc_op r)" using assms(2) by (cases "rc_op r") auto
  from assms(1) obtain t todo where r: "t \<le> length B" "phase_ok (Some Broadcasting) (length B) t (rc_op r)"
    "map viewed (concat (take t B)) = rc_out r @ map viewed todo" "rc_todo r = map fst todo"
    "holds (rc_buf r (\<not> rc_recv r)) todo" "op_ok B finished t (rc_buf r (rc_recv r)) (rc_op r)"
    by (rule receiver_okE)
  then show ?thesis using joined by (intro receiver_okI [where t = t and todo = todo]) simp_all
qed

section \<open>The steps of a receiver\<close>

lemma receiver_ok_take:
  assumes "receiver_ok B finished ph r" and "rc_op r = Arrived rm" and "rc_todo r = []"
  shows "receiver_ok B finished ph (take_bucket rm r)"
proof -
  from assms(1) obtain t todo where ok: "t \<le> length B" "phase_ok ph (length B) t (rc_op r)"
    "map viewed (concat (take t B)) = rc_out r @ map viewed todo" "rc_todo r = map fst todo"
    "holds (rc_buf r (\<not> rc_recv r)) todo" "op_ok B finished t (rc_buf r (rc_recv r)) (rc_op r)"
    by (rule receiver_okE)
  then have r: "t < length B" "phase_ok ph (length B) t (Arrived rm)"
    "map viewed (concat (take t B)) = rc_out r @ map viewed todo" "rc_todo r = map fst todo"
    "rm = bmeta B finished t" "holds (rc_buf r (rc_recv r)) (B ! t)"
    using assms(2) by simp_all
  have phase: "phase_ok ph (length B) (Suc t) (rc_op (take_bucket rm r))"
    using r(2) by (cases "(ph, length B, t, Arrived rm)" rule: phase_ok.cases) (auto simp: take_bucket_def)
  have op: "op_ok B finished (Suc t) (rc_buf r (rc_recv r')) (rc_op (take_bucket rm r))" for r'
    using r(5) by (auto simp: take_bucket_def bmeta_def)
  have items: "map snd (fst rm) = map fst (B ! t)" using r(5) by (auto simp: bmeta_def meta_of_def)
  have "map viewed (concat (take (Suc t) B)) = rc_out r @ map viewed (B ! t)"
    using r(1,3,4) assms(3) by (simp add: take_Suc_conv_app_nth)
  with r(1,6) phase op items show ?thesis
    by (intro receiver_okI [where t = "Suc t" and todo = "B ! t"]) (auto simp: take_bucket_def bmeta_def)
qed

lemma receiver_ok_yield:
  assumes "receiver_ok B finished ph r" and "rc_todo r = meta # rest"
  shows "receiver_ok B finished ph (yield_chunk meta r)"
proof -
  from assms(1) obtain t items where r: "t \<le> length B" "phase_ok ph (length B) t (rc_op r)"
    "map viewed (concat (take t B)) = rc_out r @ map viewed items" "rc_todo r = map fst items"
    "holds (rc_buf r (\<not> rc_recv r)) items" "op_ok B finished t (rc_buf r (rc_recv r)) (rc_op r)"
    by (rule receiver_okE)
  then obtain bs todo where "items = (meta, bs) # todo" "rest = map fst todo" using assms(2) by auto
  with r show ?thesis
    by (intro receiver_okI [where t = t and todo = todo]) (auto simp: yield_chunk_def Let_def viewed_def holds_def assms(2))
qed

section \<open>Every step keeps the invariant\<close>

text \<open>A receiver is changed without changing the sender, and not from or to one that has joined while requests are served.\<close>

lemma set_receiver_ok:
  assumes "transfer_ok z bucket chunks st" and "i < length (tr_receivers st)"
    and "\<And>B cur. sender_ok z bucket chunks B cur (tr_sender st) \<Longrightarrow>
           receiver_ok B (sn_done (tr_sender st)) (phase_of (sn_op (tr_sender st))) (tr_receivers st ! i) \<Longrightarrow>
           receiver_ok B (sn_done (tr_sender st)) (phase_of (sn_op (tr_sender st))) r"
    and "is_joined (rc_op r) = is_joined (rc_op (tr_receivers st ! i)) \<or> (\<forall>k. phase_of (sn_op (tr_sender st)) \<noteq> Some (Serving k))"
  shows "transfer_ok z bucket chunks (set_receiver st i r)"
proof -
  from assms(1) obtain B cur where inv: "sender_ok z bucket chunks B cur (tr_sender st)"
    "\<And>r. r \<in> set (tr_receivers st) \<Longrightarrow> receiver_ok B (sn_done (tr_sender st)) (phase_of (sn_op (tr_sender st))) r"
    "served_ok (phase_of (sn_op (tr_sender st))) (tr_receivers st)"
    by (rule transfer_okE) blast
  have new: "receiver_ok B (sn_done (tr_sender st)) (phase_of (sn_op (tr_sender st))) r"
    using assms(2,3) inv(1,2) nth_mem by blast
  have "served_ok (phase_of (sn_op (tr_sender st))) ((tr_receivers st)[i := r])"
    using inv(3) assms(4) joined_count_update [OF assms(2), of r] by (auto simp: served_ok_def)
  moreover have "receiver_ok B (sn_done (tr_sender st)) (phase_of (sn_op (tr_sender st))) r'"
    if "r' \<in> set ((tr_receivers st)[i := r])" for r'
    using that new inv(2) set_update_subset_insert [of "tr_receivers st" i r] by blast
  ultimately show ?thesis using inv(1) by (intro transfer_okI [where B = B and cur = cur]) (simp_all add: set_receiver_def)
qed

lemma serve_ok:
  assumes "transfer_ok z bucket chunks st" and "sn_op (tr_sender st) = Some (b, bm, Serving k)"
    and "i < length (tr_receivers st)" and "rc_op (tr_receivers st ! i) = Requesting"
  shows "transfer_ok z bucket chunks (set_receiver (st\<lparr>tr_sender := (tr_sender st)\<lparr>sn_op := Some (b, bm, Serving (Suc k))\<rparr>\<rparr>) i
            ((tr_receivers st ! i)\<lparr>rc_op := Joined bm\<rparr>))"
proof -
  let ?s = "tr_sender st" and ?r = "(tr_receivers st ! i)\<lparr>rc_op := Joined bm\<rparr>"
  from assms(1,2) obtain B cur where inv: "sender_ok z bucket chunks B cur ?s"
    "\<And>r. r \<in> set (tr_receivers st) \<Longrightarrow> receiver_ok B (sn_done ?s) (Some (Serving k)) r"
    "served_ok (Some (Serving k)) (tr_receivers st)"
    by (auto elim!: transfer_okE)
  have bm: "B \<noteq> []" "bm = (meta_of (last B), sn_done ?s)" using inv(1) assms(2) by (simp_all add: sender_ok_def)
  have "receiver_ok B (sn_done ?s) (Some (Serving (Suc k))) ?r"
    by (rule receiver_ok_serve [OF inv(2) [OF nth_mem [OF assms(3)]] assms(4) bm])
  moreover have "receiver_ok B (sn_done ?s) (Some (Serving (Suc k))) r" if "r \<in> set (tr_receivers st)" for r
    using inv(2) [OF that] by (auto simp: receiver_ok_def)
  ultimately have "receiver_ok B (sn_done ?s) (Some (Serving (Suc k))) r" if "r \<in> set ((tr_receivers st)[i := ?r])" for r
    using that set_update_subset_insert [of "tr_receivers st" i ?r] by blast
  moreover have "joined_count ((tr_receivers st)[i := ?r]) = Suc (joined_count (tr_receivers st))"
    using joined_count_update [OF assms(3), of ?r] assms(4) by simp
  ultimately show ?thesis
    using inv(1,3) assms(2) by (intro transfer_okI [where B = B and cur = cur]) (auto simp: set_receiver_def sender_ok_def served_ok_def)
qed

lemma broadcast_ok:
  assumes "transfer_ok z bucket chunks st" and "sn_op (tr_sender st) = Some (b, bm, Serving (length (tr_receivers st)))"
  shows "transfer_ok z bucket chunks (st\<lparr>tr_sender := (tr_sender st)\<lparr>sn_op := Some (b, bm, Broadcasting)\<rparr>\<rparr>)"
proof -
  let ?s = "tr_sender st"
  from assms obtain B cur where inv: "sender_ok z bucket chunks B cur ?s"
    "\<And>r. r \<in> set (tr_receivers st) \<Longrightarrow> receiver_ok B (sn_done ?s) (Some (Serving (length (tr_receivers st)))) r"
    "served_ok (Some (Serving (length (tr_receivers st)))) (tr_receivers st)"
    by (auto elim!: transfer_okE)
  have "receiver_ok B (sn_done ?s) (Some Broadcasting) r" if "r \<in> set (tr_receivers st)" for r
    using inv(2) [OF that] all_joined [OF _ that] inv(3) by (intro receiver_ok_broadcast) (auto simp: served_ok_def)
  with inv(1) assms(2) show ?thesis
    by (intro transfer_okI [where B = B and cur = cur]) (auto simp: sender_ok_def served_ok_def)
qed

lemma complete_ok:
  assumes "transfer_ok z bucket chunks st" and "sn_op (tr_sender st) = Some (b, bm, Broadcasting)"
    and "\<forall>r\<in>set (tr_receivers st). \<forall>rm. rc_op r \<noteq> Joined rm"
  shows "transfer_ok z bucket chunks (st\<lparr>tr_sender := (tr_sender st)\<lparr>sn_op := None\<rparr>\<rparr>)"
proof -
  let ?s = "tr_sender st"
  from assms(1,2) obtain B cur where inv: "sender_ok z bucket chunks B cur ?s"
    "\<And>r. r \<in> set (tr_receivers st) \<Longrightarrow> receiver_ok B (sn_done ?s) (Some Broadcasting) r"
    by (auto elim!: transfer_okE)
  then have "receiver_ok B (sn_done ?s) None r" if "r \<in> set (tr_receivers st)" for r
    using that assms(3) receiver_ok_complete by blast
  with inv(1) show ?thesis
    by (intro transfer_okI [where B = B and cur = cur]) (auto simp: sender_ok_def served_ok_def)
qed

text \<open>The sender launches a bucket.\<close>

lemma launch_ok:
  assumes "transfer_ok z bucket chunks st" and "sn_op (tr_sender st) = None" and "\<not> sn_done (tr_sender st)"
    and "\<And>B cur. sender_ok z bucket chunks B cur (tr_sender st) \<Longrightarrow> sender_ok z bucket chunks (B @ [cur]) [] s'"
    and "phase_of (sn_op s') = Some (Serving 0)"
  shows "transfer_ok z bucket chunks (st\<lparr>tr_sender := s'\<rparr>)"
proof -
  from assms(1-3) obtain B cur where inv: "sender_ok z bucket chunks B cur (tr_sender st)"
    "\<And>r. r \<in> set (tr_receivers st) \<Longrightarrow> receiver_ok B False None r"
    by (auto elim!: transfer_okE)
  then show ?thesis using assms(4,5) receiver_ok_launch joined_none_idle [OF inv(2)]
    by (intro transfer_okI [where B = "B @ [cur]" and cur = "[]"]) (auto simp: served_ok_def)
qed

lemma fill_ok:
  assumes "transfer_ok z bucket chunks st" and "chunks_ok z bucket chunks" and "\<not> sn_done (tr_sender st)"
    and "sn_chunks (tr_sender st) \<noteq> []" and "\<not> must_flush bucket (tr_sender st)"
  shows "\<exists>s'. fill_bucket bucket (tr_sender st) = Inr s' \<and> transfer_ok z bucket chunks (st\<lparr>tr_sender := s'\<rparr>)"
proof -
  from assms(1) obtain B cur where inv: "sender_ok z bucket chunks B cur (tr_sender st)"
    "\<And>r. r \<in> set (tr_receivers st) \<Longrightarrow> receiver_ok B (sn_done (tr_sender st)) (phase_of (sn_op (tr_sender st))) r"
    "served_ok (phase_of (sn_op (tr_sender st))) (tr_receivers st)"
    by (rule transfer_okE) blast
  obtain m bs rest where "sn_chunks (tr_sender st) = (m, bs) # rest" using assms(4) by (cases "sn_chunks (tr_sender st)") auto
  from fill_bucket_ok [OF inv(1) assms(2,3) this assms(5)] obtain s' where s': "fill_bucket bucket (tr_sender st) = Inr s'"
    "sender_ok z bucket chunks B (cur @ [(m\<lparr>tm_offset := Some (sn_offset (tr_sender st))\<rparr>, bs)]) s'"
    "sn_done s' = sn_done (tr_sender st)" "sn_op s' = sn_op (tr_sender st)"
    by blast
  then show ?thesis using inv(2,3) by (auto intro!: exI [of _ s'] transfer_okI)
qed

lemma transfer_step_ok:
  assumes "transfer_step bucket st st'" and "transfer_ok z bucket chunks st" and "chunks_ok z bucket chunks"
  shows "transfer_ok z bucket chunks st'"
  using assms
proof (cases rule: transfer_step.cases)
  case (fill s s')
  then show ?thesis using fill_ok [OF assms(2,3)] by auto
next
  case (fail s e)
  then show ?thesis using fill_ok [OF assms(2,3)] by auto
next
  case (flush s)
  then show ?thesis using launch_ok [OF assms(2)] flush_bucket_ok [OF _ _ assms(3)] by (auto simp: flush_bucket_def launch_def)
next
  case (last_bucket s)
  then show ?thesis using launch_ok [OF assms(2)] last_bucket_ok by (auto simp: launch_def)
next
  case (serve b bm k i r)
  then show ?thesis using serve_ok [OF assms(2)] by auto
next
  case (broadcast b bm)
  then show ?thesis using broadcast_ok [OF assms(2)] by auto
next
  case (deliver b bm i r rm)
  show ?thesis unfolding deliver(1)
  proof (rule set_receiver_ok [OF assms(2)])
    fix B cur
    assume "sender_ok z bucket chunks B cur (tr_sender st)"
      and "receiver_ok B (sn_done (tr_sender st)) (phase_of (sn_op (tr_sender st))) (tr_receivers st ! i)"
    then show "receiver_ok B (sn_done (tr_sender st)) (phase_of (sn_op (tr_sender st)))
        (r\<lparr>rc_buf := (rc_buf r)(rc_recv r := sn_buf (tr_sender st) b), rc_op := Arrived rm\<rparr>)"
      using deliver receiver_ok_deliver by (simp add: sender_ok_def)
  qed (use deliver in simp_all)
next
  case (complete b bm)
  then show ?thesis using complete_ok [OF assms(2)] by auto
next
  case (take_next i r rm)
  show ?thesis unfolding take_next(1)
    by (rule set_receiver_ok [OF assms(2)]) (use take_next receiver_ok_take in \<open>auto simp: take_bucket_def\<close>)
next
  case (yield_next i r meta rest)
  show ?thesis unfolding yield_next(1)
    by (rule set_receiver_ok [OF assms(2)]) (use yield_next receiver_ok_yield in \<open>auto simp: yield_chunk_def Let_def\<close>)
qed

lemma transfer_run_ok:
  assumes "transfer_run bucket st st'" and "transfer_ok z bucket chunks st" and "chunks_ok z bucket chunks"
  shows "transfer_ok z bucket chunks st'"
  using assms(1,2) unfolding transfer_run_def
  by (induction rule: rtranclp_induct) (auto intro: transfer_step_ok [OF _ _ assms(3)])

section \<open>What is received\<close>

lemma placed_viewed:
  assumes "bucket_ok z used items" and "c \<in> set items"
  shows "placed z (unplaced c) (viewed c)"
proof -
  obtain m bs where c: "c = (m, bs)" by (cases c)
  then obtain off where "tm_offset m = Some off" "z dvd off" using assms by (fastforce simp: bucket_ok_def)
  then show ?thesis by (auto simp: c placed_def unplaced_def viewed_def)
qed

text \<open>Whatever the interleaving, a receiver yields the chunks as they are packed.\<close>

lemma complete_output:
  assumes "transfer_ok z bucket chunks st" and "transfer_complete st" and "r \<in> set (tr_receivers st)"
  shows "rc_out r = map viewed (concat (pack_chunks bucket [] 0 chunks)) \<and> list_all2 (placed z) chunks (rc_out r)"
proof -
  from assms(1,2) obtain B cur where inv: "sender_ok z bucket chunks B cur (tr_sender st)"
    "\<And>r. r \<in> set (tr_receivers st) \<Longrightarrow> receiver_ok B True None r"
    by (auto simp: transfer_complete_def elim!: transfer_okE)
  have B: "map unplaced (concat B) = chunks" "B = pack_chunks bucket [] 0 chunks" "\<And>items. items \<in> set B \<Longrightarrow> bucket_ok z bucket items"
    using inv(1) assms(2) by (auto simp: sender_ok_def transfer_complete_def)
  have out: "rc_out r = map viewed (concat B)"
    using inv(2) [OF assms(3)] assms(2,3) by (auto simp: transfer_complete_def elim!: receiver_okE)
  have "list_all2 (placed z) (map unplaced (concat B)) (map viewed (concat B))"
    using B(3) placed_viewed by (fastforce simp: list.rel_map list_all2_same)
  then show ?thesis using out B(1,2) by simp
qed

section \<open>No transfer is stuck\<close>

lemma receiver_can_go_on:
  assumes "r \<in> set (tr_receivers st)" and "rc_todo r \<noteq> [] \<or> (\<exists>rm. rc_op r = Arrived rm)"
  shows "\<exists>st'. transfer_step bucket st st'"
proof -
  from assms(1) obtain i where i: "i < length (tr_receivers st)" "r = tr_receivers st ! i" by (metis in_set_conv_nth)
  then show ?thesis using assms(2) transfer_step.take_next [OF i] transfer_step.yield_next [OF i]
    by (cases "rc_todo r") blast+
qed

lemma receiver_op_cases:
  assumes "receiver_ok B finished ph r" and "rc_op r = Requesting \<or> rc_op r = Closed \<or> is_joined (rc_op r)"
  shows "\<exists>t. phase_ok ph (length B) t (rc_op r) \<and> received t (rc_op r) = t
    \<and> op_ok B finished t (rc_buf r (rc_recv r)) (rc_op r)"
  using assms(1)
proof (rule receiver_okE)
  fix t
  assume "phase_ok ph (length B) t (rc_op r)" "op_ok B finished t (rc_buf r (rc_recv r)) (rc_op r)"
  moreover have "received t (rc_op r) = t" using assms(2) by (cases "rc_op r") auto
  ultimately show ?thesis by blast
qed

lemma sender_can_go_on:
  assumes "transfer_ok z bucket chunks st" and "chunks_ok z bucket chunks" and "\<not> sn_done (tr_sender st)"
    and "sn_op (tr_sender st) = None"
  shows "\<exists>st'. transfer_step bucket st st'"
proof -
  let ?s = "tr_sender st"
  have error: "sn_error ?s = None" using assms(1) by (auto simp: sender_ok_def elim!: transfer_okE)
  show ?thesis
  proof (cases "sn_chunks ?s = []")
    case True
    then show ?thesis using transfer_step.last_bucket [OF refl error assms(3) _ assms(4)] by blast
  next
    case False
    show ?thesis
    proof (cases "must_flush bucket ?s")
      case True
      then show ?thesis using transfer_step.flush [OF refl error assms(3) _ assms(4)] by blast
    next
      case no_flush: False
      then obtain s' where "fill_bucket bucket ?s = Inr s'" using fill_ok [OF assms(1-3) False] by blast
      then show ?thesis using transfer_step.fill [OF refl error assms(3) False no_flush] by blast
    qed
  qed
qed

end
