(* ===== verification/DeliveryLaws.thy ===== *)
theory DeliveryLaws
  imports TransferLaws
begin

text \<open>
  Transfers come to their end: no interleaving is stuck, every step uses up some of a bounded amount of work, and at
  the end each receiver has the weights. Weights whose item sizes do not fit together are not delivered.
\<close>

section \<open>Every transfer goes on until it is complete\<close>

lemma idle_transfer_goes_on:
  assumes "transfer_ok z bucket chunks st" and "chunks_ok z bucket chunks" and "sn_op (tr_sender st) = None"
    and "\<not> transfer_complete st"
  shows "\<exists>st'. transfer_step bucket st st'"
proof (cases "sn_done (tr_sender st)")
  case True
  from assms(1,3) obtain B where inv: "\<forall>r\<in>set (tr_receivers st). receiver_ok B True None r"
    using True by (auto simp: transfer_ok_def Let_def)
  from assms(3,4) True obtain r where r: "r \<in> set (tr_receivers st)" "rc_op r \<noteq> Closed \<or> rc_todo r \<noteq> []"
    by (auto simp: transfer_complete_def)
  have "rc_op r \<noteq> Requesting \<and> \<not> is_joined (rc_op r)"
    using receiver_op_cases [OF bspec [OF inv r(1)]] by (cases "rc_op r") auto
  then have "rc_todo r \<noteq> [] \<or> (\<exists>rm. rc_op r = Arrived rm)" using r(2) by (cases "rc_op r") auto
  then show ?thesis by (rule receiver_can_go_on [OF r(1)])
qed (use sender_can_go_on [OF assms(1,2) _ assms(3)] in blast)

lemma serving_transfer_goes_on:
  assumes "transfer_ok z bucket chunks st" and "sn_op (tr_sender st) = Some (b, bm, Serving k)"
  shows "\<exists>st'. transfer_step bucket st st'"
proof -
  from assms obtain B where inv: "\<forall>r\<in>set (tr_receivers st). receiver_ok B (sn_done (tr_sender st)) (Some (Serving k)) r"
    and k: "k = joined_count (tr_receivers st)"
    by (auto simp: served_ok_def transfer_ok_def Let_def)
  show ?thesis
  proof (cases "k = length (tr_receivers st)")
    case True
    then show ?thesis using transfer_step.broadcast assms(2) by blast
  next
    case False
    then have less: "k < length (tr_receivers st)" using k joined_count_le [of "tr_receivers st"] by simp
    obtain r where r: "r \<in> set (tr_receivers st)" "\<not> is_joined (rc_op r)"
      using False k by (metis joined_count_def filter_True)
    have "rc_op r \<noteq> Closed" using receiver_op_cases [OF bspec [OF inv r(1)]] by (cases "rc_op r") auto
    then consider "rc_op r = Requesting" | "\<exists>rm. rc_op r = Arrived rm" using r(2) by (cases "rc_op r") auto
    then show ?thesis
    proof cases
      case 1
      obtain i where "i < length (tr_receivers st)" "r = tr_receivers st ! i" using r(1) by (metis in_set_conv_nth)
      then show ?thesis using transfer_step.serve [OF assms(2) less _ _ 1] by blast
    qed (use receiver_can_go_on [OF r(1)] in blast)
  qed
qed

lemma transfer_goes_on:
  assumes "transfer_ok z bucket chunks st" and "chunks_ok z bucket chunks" and "\<not> transfer_complete st"
  shows "\<exists>st'. transfer_step bucket st st'"
proof (cases "sn_op (tr_sender st)")
  case None
  then show ?thesis using idle_transfer_goes_on assms by blast
next
  case (Some op)
  then obtain b bm ph where op: "sn_op (tr_sender st) = Some (b, bm, ph)" by (cases op) auto
  show ?thesis
  proof (cases ph)
    case (Serving k)
    then show ?thesis using serving_transfer_goes_on assms(1) op by blast
  next
    case Broadcasting
    show ?thesis
    proof (cases "\<exists>r\<in>set (tr_receivers st). \<exists>rm. rc_op r = Joined rm")
      case True
      then obtain i rm where i: "i < length (tr_receivers st)" "rc_op (tr_receivers st ! i) = Joined rm"
        by (auto simp: in_set_conv_nth)
      show ?thesis using transfer_step.deliver [OF op [unfolded Broadcasting] i(1) refl i(2)] by blast
    next
      case False
      then show ?thesis using transfer_step.complete [OF op [unfolded Broadcasting]] by blast
    qed
  qed
qed

section \<open>The work that is left\<close>

fun op_left :: "nat \<Rightarrow> (bool \<times> bucket_meta \<times> op_phase) option \<Rightarrow> nat" where
  "op_left n None = 0"
| "op_left n (Some (b, bm, Serving k)) = (n - k) * (3 + length (fst bm)) + 2"
| "op_left n (Some (b, bm, Broadcasting)) = 1"

fun rx_left :: "rx_op \<Rightarrow> nat" where
  "rx_left (Joined bm) = 2 + length (fst bm)"
| "rx_left (Arrived bm) = 1 + length (fst bm)"
| "rx_left _ = 0"

definition receiver_left :: "bucket_receiver \<Rightarrow> nat" where
  "receiver_left r = rx_left (rc_op r) + length (rc_todo r)"

definition sender_left :: "nat \<Rightarrow> bucket_sender \<Rightarrow> nat" where
  "sender_left n s =
     (if sn_done s \<or> sn_error s \<noteq> None then 0
      else length (sn_chunks s) * (4 * n + 6) + 3 + n * (3 + length (sn_meta s)) + (if sn_offset s = 0 then 0 else 3 * n + 5))"

definition transfer_left :: "transfer \<Rightarrow> nat" where
  "transfer_left st =
     (let n = length (tr_receivers st); s = tr_sender st in
      sender_left n s + op_left n (sn_op s) + sum_list (map receiver_left (tr_receivers st)))"

lemma receiver_left_update:
  "i < length rs \<Longrightarrow>
   sum_list (map receiver_left (rs[i := r])) + receiver_left (rs ! i) = sum_list (map receiver_left rs) + receiver_left r"
proof (induction rs arbitrary: i)
  case (Cons a rs)
  show ?case
  proof (cases i)
    case (Suc j)
    with Cons show ?thesis using Cons.IH [of j] by simp
  qed simp
qed simp

lemma length_dict_set_le: "length (dict_set d k v) \<le> Suc (length d)"
  by (induction d) (auto simp: dict_set_def)

lemma fill_uses_work:
  assumes "fill_bucket bucket s = Inr s'" and "sn_chunks s \<noteq> []" and "sn_error s = None" and "\<not> sn_done s"
  shows "sender_left n s' < sender_left n s \<and> sn_op s' = sn_op s"
proof -
  obtain m bs rest where chunks: "sn_chunks s = (m, bs) # rest" using assms(2) by (cases "sn_chunks s") auto
  then obtain buf where s': "s' = s\<lparr>sn_chunks := rest, sn_buf := (sn_buf s)(sn_front s := buf),
      sn_meta := dict_set (sn_meta s) (tm_name m) (m\<lparr>tm_offset := Some (sn_offset s)\<rparr>), sn_offset := sn_offset s + tm_chunk_size m\<rparr>"
    using assms(1) by (auto simp: fill_bucket_def res_simps)
  have "n * length (dict_set (sn_meta s) k v) \<le> n * Suc (length (sn_meta s))" for k v
    using length_dict_set_le [of "sn_meta s"] by (intro mult_le_mono) simp_all
  from this [of "tm_name m" "m\<lparr>tm_offset := Some 0\<rparr>"] this [of "tm_name m" "m\<lparr>tm_offset := Some (sn_offset s)\<rparr>"]
  show ?thesis using assms(3,4) chunks by (simp add: sender_left_def s' algebra_simps)
qed

text \<open>A bucket that is launched is not empty, so the first chunk of the next one fits.\<close>

lemma flush_uses_work:
  assumes "sn_offset s \<noteq> 0" and "sn_error s = None" and "\<not> sn_done s" and "sn_op s = None"
  shows "sender_left n (flush_bucket s) + op_left n (sn_op (flush_bucket s)) < sender_left n s"
  using assms by (simp add: flush_bucket_def launch_def sender_left_def algebra_simps)

lemma transfer_step_uses_work:
  assumes "transfer_step bucket st st'" and "transfer_ok z bucket chunks st" and "chunks_ok z bucket chunks"
  shows "transfer_left st' < transfer_left st \<and> length (tr_receivers st') = length (tr_receivers st)"
  using assms(1)
proof (cases rule: transfer_step.cases)
  case (fill s s')
  then show ?thesis using fill_uses_work [OF fill(7)] by (auto simp: transfer_left_def Let_def)
next
  case (fail s e)
  then show ?thesis by (auto simp: transfer_left_def sender_left_def Let_def)
next
  case (flush s)
  obtain m bs rest where next_chunk: "sn_chunks s = (m, bs) # rest" "sn_offset s + tm_chunk_size m > bucket"
    using flush(5) by (auto simp: must_flush_def split: list.splits)
  have "(m, bs) \<in> set chunks"
    using assms(2) next_chunk(1) by (auto simp: sender_ok_def flush(2) elim!: transfer_okE)
  then have "tm_chunk_size m \<le> bucket" using assms(3) by (auto simp: chunks_ok_def)
  then have "sn_offset s \<noteq> 0" using next_chunk(2) by simp
  then show ?thesis using flush_uses_work [OF _ flush(3,4,6), of "length (tr_receivers st)"] flush(2,6)
    by (simp add: flush(1) transfer_left_def Let_def)
next
  case (last_bucket s)
  then show ?thesis by (auto simp: transfer_left_def sender_left_def launch_def Let_def algebra_simps)
next
  case (serve b bm k i r)
  have "op_left (length (tr_receivers st)) (sn_op (tr_sender st)) =
      op_left (length (tr_receivers st)) (Some (b, bm, Serving (Suc k))) + (3 + length (fst bm))"
    using serve(2,3) by (simp add: Suc_diff_Suc [symmetric] algebra_simps)
  then show ?thesis using serve receiver_left_update [OF serve(4), of "r\<lparr>rc_op := Joined bm\<rparr>"]
    by (simp add: transfer_left_def set_receiver_def receiver_left_def sender_left_def Let_def)
next
  case (broadcast b bm)
  then show ?thesis by (simp add: transfer_left_def sender_left_def Let_def)
next
  case (deliver b bm i r rm)
  then show ?thesis
    using receiver_left_update [OF deliver(3), of "r\<lparr>rc_buf := (rc_buf r)(rc_recv r := sn_buf (tr_sender st) b), rc_op := Arrived rm\<rparr>"]
    by (simp add: transfer_left_def set_receiver_def receiver_left_def Let_def)
next
  case (complete b bm)
  then show ?thesis by (simp add: transfer_left_def sender_left_def Let_def)
next
  case (take_next i r rm)
  then show ?thesis using receiver_left_update [OF take_next(2), of "take_bucket rm r"]
    by (auto simp: transfer_left_def set_receiver_def receiver_left_def take_bucket_def Let_def)
next
  case (yield_next i r meta rest)
  then show ?thesis using receiver_left_update [OF yield_next(2), of "yield_chunk meta r"]
    by (simp add: transfer_left_def set_receiver_def receiver_left_def yield_chunk_def Let_def)
qed

section \<open>Runs\<close>

lemma start_run_ok:
  assumes "0 < bucket" and "sendable ws" and "z dvd bucket \<and> (\<forall>w\<in>set ws. z dvd length (wt_bytes w))"
    and "split_weight_chunks bucket ws = Some chunks" and "transfer_run bucket (start_transfer bucket n chunks) st"
  shows "transfer_ok z bucket chunks st \<and> chunks_ok z bucket chunks"
  using split_chunks_ok [OF assms(1-4)] transfer_run_ok [OF assms(5) start_transfer_ok] by blast

text \<open>A run of \<open>k\<close> steps uses \<open>k\<close> of the work there was.\<close>

lemma steps_use_work:
  assumes "(transfer_step bucket ^^ k) st st'" and "transfer_ok z bucket chunks st" and "chunks_ok z bucket chunks"
  shows "k + transfer_left st' \<le> transfer_left st \<and> transfer_ok z bucket chunks st'
    \<and> length (tr_receivers st') = length (tr_receivers st)"
  using assms(1)
proof (induction k arbitrary: st')
  case (Suc k)
  then obtain mid where mid: "(transfer_step bucket ^^ k) st mid" "transfer_step bucket mid st'" by auto
  from Suc.IH [OF mid(1)] transfer_step_uses_work [OF mid(2) _ assms(3)] transfer_step_ok [OF mid(2) _ assms(3)]
  show ?case by fastforce
qed (use assms(2) in simp)

lemma start_transfer_left: "transfer_left (start_transfer bucket n chunks) = length chunks * (4 * n + 6) + 3 + 3 * n"
  by (simp add: transfer_left_def start_transfer_def idle_sender_def first_request_def sender_left_def receiver_left_def
      sum_list_replicate)

lemma complete_run_exists:
  assumes "transfer_ok z bucket chunks st" and "chunks_ok z bucket chunks"
  shows "\<exists>st'. transfer_run bucket st st' \<and> transfer_complete st' \<and> length (tr_receivers st') = length (tr_receivers st)"
  using assms(1)
proof (induction "transfer_left st" arbitrary: st rule: less_induct)
  case less
  show ?case
  proof (cases "transfer_complete st")
    case True
    then show ?thesis by (auto simp: transfer_run_def)
  next
    case False
    then obtain mid where mid: "transfer_step bucket st mid" using transfer_goes_on [OF less.prems assms(2)] by blast
    then obtain st' where "transfer_run bucket mid st'" "transfer_complete st'"
        "length (tr_receivers st') = length (tr_receivers mid)"
      using less.hyps transfer_step_uses_work [OF mid less.prems assms(2)] transfer_step_ok [OF mid less.prems assms(2)] by blast
    with mid show ?thesis using transfer_step_uses_work [OF mid less.prems assms(2)]
      unfolding transfer_run_def by (metis converse_rtranclp_into_rtranclp)
  qed
qed

section \<open>Examples\<close>

text \<open>Two weights of two-byte items and buckets of four bytes: the first weight takes two chunks. And a weight of six
  bytes before one of a four-byte item.\<close>

definition demo_pair :: "wtensor list" where
  "demo_pair =
     [\<lparr>wt_name = ''q'', wt_shape = [3], wt_dtype = BFloat16, wt_bytes = [1, 2, 3, 4, 5, 6]\<rparr>,
      \<lparr>wt_name = ''k'', wt_shape = [1], wt_dtype = BFloat16, wt_bytes = [7, 8]\<rparr>]"

definition demo_mixed :: "wtensor list" where
  "demo_mixed =
     [\<lparr>wt_name = ''q'', wt_shape = [3], wt_dtype = BFloat16, wt_bytes = [1, 2, 3, 4, 5, 6]\<rparr>,
      \<lparr>wt_name = ''norm'', wt_shape = [1], wt_dtype = Float32, wt_bytes = [7, 8, 9, 10]\<rparr>]"

lemma demo_sendable: "sendable demo_pair" "sendable demo_mixed" "weights_aligned 2 4 demo_pair"
  by (simp_all add: sendable_def demo_pair_def demo_mixed_def wtensor_wf_def weights_aligned_def)

lemma demo_run_exists:
  assumes "0 < bucket" and "sendable ws"
  shows "\<exists>chunks st. split_weight_chunks bucket ws = Some chunks \<and> transfer_run bucket (start_transfer bucket 2 chunks) st
    \<and> transfer_complete st \<and> length (tr_receivers st) = 2"
proof -
  obtain chunks where chunks: "split_weight_chunks bucket ws = Some chunks" using split_weight_chunks_total [OF assms(1)] by blast
  then have "chunks_ok 1 bucket chunks" using split_chunks_ok [OF assms, of 1] by simp
  from complete_run_exists [OF start_transfer_ok this, of 2] chunks show ?thesis by (auto simp: start_transfer_def)
qed

section \<open>Properties\<close>

text \<open>C7: A transfer delivers the weights: whatever the order of the steps of the sender, its broadcasts and the receivers,
  when the transfer is complete every receiver has put together exactly the weights that were sent, in their order,
  and without an error. The weights have different names and at least one byte; their item sizes divide an
  alignment, which divides the size of the buckets and of every weight.\<close>

theorem transfer_delivers_weights:
  assumes "0 < bucket" and "\<And>k. length (fresh k) = k" and "sendable ws" and "weights_aligned z bucket ws"
    and "split_weight_chunks bucket ws = Some chunks" and "transfer_run bucket (start_transfer bucket n chunks) st"
    and "transfer_complete st" and "r \<in> set (tr_receivers st)"
  shows "received_weights fresh bucket r = (ws, None)"
proof -
  have "z dvd bucket \<and> (\<forall>w\<in>set ws. z dvd length (wt_bytes w))" using assms(4) by (simp add: weights_aligned_def)
  note start_run_ok [OF assms(1,3) this assms(5,6)]
  then have "list_all2 (placed z) chunks (rc_out r)" using complete_output assms(7,8) by blast
  then show ?thesis
    using merge_inverts_split [OF assms(1,2,4) _ assms(5)] assms(3) by (simp add: received_weights_def sendable_def)
qed

theorem transfer_delivers_weights_witness:
  "\<exists>chunks st r. split_weight_chunks 4 demo_pair = Some chunks \<and> transfer_run 4 (start_transfer 4 2 chunks) st
     \<and> transfer_complete st \<and> r \<in> set (tr_receivers st) \<and> received_weights (\<lambda>k. replicate k 0) 4 r = (demo_pair, None)"
proof -
  obtain chunks st where run: "split_weight_chunks 4 demo_pair = Some chunks" "transfer_run 4 (start_transfer 4 2 chunks) st"
    "transfer_complete st" "length (tr_receivers st) = 2"
    using demo_run_exists [of 4, OF _ demo_sendable(1)] by auto
  then obtain r where r: "r \<in> set (tr_receivers st)" by (cases "tr_receivers st") auto
  have "received_weights (\<lambda>k. replicate k 0) 4 r = (demo_pair, None)"
    by (rule transfer_delivers_weights [OF _ _ demo_sendable(1,3) run(1-3) r]) simp_all
  with run r show ?thesis by blast
qed

text \<open>C17: A transfer always comes to its end: with buckets of at least one byte and weights of different names and at least
  one byte the loops over the weights end; from then on, whatever the order of the steps, there are never more
  of them than a number that is linear in the chunks times the receivers, the sender raises no error, and until all
  loops are left somebody can make a step.\<close>

theorem transfer_completes:
  assumes "0 < bucket" and "sendable ws"
  shows "\<exists>chunks. split_weight_chunks bucket ws = Some chunks
    \<and> (\<forall>k st. (transfer_step bucket ^^ k) (start_transfer bucket n chunks) st \<longrightarrow>
          k \<le> length chunks * (4 * n + 6) + 3 + 3 * n \<and> sn_error (tr_sender st) = None
          \<and> (transfer_complete st \<or> (\<exists>st'. transfer_step bucket st st')))"
proof -
  obtain chunks where chunks: "split_weight_chunks bucket ws = Some chunks" using split_weight_chunks_total [OF assms(1)] by blast
  then have ok: "chunks_ok 1 bucket chunks" using split_chunks_ok [OF assms, of 1] by simp
  have "k \<le> length chunks * (4 * n + 6) + 3 + 3 * n \<and> sn_error (tr_sender st) = None
      \<and> (transfer_complete st \<or> (\<exists>st'. transfer_step bucket st st'))"
    if run: "(transfer_step bucket ^^ k) (start_transfer bucket n chunks) st" for k st
  proof -
    note used = steps_use_work [OF run start_transfer_ok ok]
    then have "sn_error (tr_sender st) = None" by (auto simp: sender_ok_def elim: transfer_okE)
    then show ?thesis using used transfer_goes_on [OF _ ok] by (auto simp: start_transfer_left)
  qed
  with chunks show ?thesis by blast
qed

theorem transfer_completes_witness:
  "\<exists>chunks st. split_weight_chunks 4 demo_pair = Some chunks \<and> transfer_step 4 (start_transfer 4 2 chunks) st"
proof -
  obtain chunks where chunks: "split_weight_chunks 4 demo_pair = Some chunks"
    and all: "\<And>k st. (transfer_step 4 ^^ k) (start_transfer 4 2 chunks) st \<Longrightarrow>
      transfer_complete st \<or> (\<exists>st'. transfer_step 4 st st')"
    using transfer_completes [of 4 demo_pair 2, OF _ demo_sendable(1)] by auto
  note chunks all [OF relpowp_0_I]
  moreover have "\<not> transfer_complete (start_transfer 4 2 chunks)" for chunks
    by (simp add: transfer_complete_def start_transfer_def idle_sender_def)
  ultimately show ?thesis by blast
qed

text \<open>C28: Two weights that fit into one bucket are not delivered when the size of the first is not a multiple of the
  items of the second: every receiver stops with an error after the first weight, because a chunk is only viewed as items
  where the position in the buffer is a whole number of them.\<close>

theorem mixed_item_sizes_fail:
  assumes "sendable [v, w]" and "length (wt_bytes v) + length (wt_bytes w) \<le> bucket"
    and "\<not> itemsize (wt_dtype w) dvd length (wt_bytes v)"
    and "split_weight_chunks bucket [v, w] = Some chunks" and "transfer_run bucket (start_transfer bucket n chunks) st"
    and "transfer_complete st" and "r \<in> set (tr_receivers st)"
  shows "received_weights fresh bucket r = ([v], Some RuntimeError)"
proof -
  have bytes: "wt_bytes v \<noteq> []" "wt_bytes w \<noteq> []" "wtensor_wf v" "wtensor_wf w" using assms(1) by (simp_all add: sendable_def)
  then have pos: "0 < bucket" using assms(2) by (cases "wt_bytes v") auto
  have one: "split_weight bucket u 0 = Some [(chunk_meta bucket u 0, wt_bytes u)]"
    if "wt_bytes u \<noteq> []" "length (wt_bytes u) \<le> bucket" for u
    using that pos by (simp add: split_weight.simps [of bucket u] chunk_meta_def buf_slice_def Let_def)
  then have chunks: "chunks = [(chunk_meta bucket v 0, wt_bytes v), (chunk_meta bucket w 0, wt_bytes w)]"
    using assms(2,4) bytes by simp
  have "rc_out r = map viewed (concat (pack_chunks bucket [] 0 chunks))"
    using start_run_ok [OF pos assms(1) _ assms(4,5), of 1] complete_output assms(6,7) by fastforce
  then have out: "rc_out r = [((chunk_meta bucket v 0)\<lparr>tm_offset := Some 0\<rparr>, 0, wt_bytes v),
      ((chunk_meta bucket w 0)\<lparr>tm_offset := Some (length (wt_bytes v))\<rparr>, length (wt_bytes v), wt_bytes w)]"
    using assms(2) by (simp add: chunks viewed_def)
  have nbytes: "prod_list (wt_shape u) * itemsize (wt_dtype u) = length (wt_bytes u)" if "u = v \<or> u = w" for u
    using bytes that by (auto simp: wtensor_wf_def)
  then have "itemsize (wt_dtype v) dvd length (wt_bytes v)" by (metis dvd_triv_right)
  then show ?thesis using assms(2,3) nbytes
    by (simp add: received_weights_def merge_weight_chunks_def out merge_chunk_def view_chunk_def rassert_def rcheck_def
        mod_eq_0_iff_dvd Let_def)
qed

theorem mixed_item_sizes_fail_witness:
  "\<exists>chunks st r. split_weight_chunks 16 demo_mixed = Some chunks \<and> transfer_run 16 (start_transfer 16 2 chunks) st
     \<and> transfer_complete st \<and> r \<in> set (tr_receivers st)
     \<and> received_weights (\<lambda>k. replicate k 0) 16 r = ([hd demo_mixed], Some RuntimeError)"
proof -
  obtain chunks st where run: "split_weight_chunks 16 demo_mixed = Some chunks" "transfer_run 16 (start_transfer 16 2 chunks) st"
    "transfer_complete st" "length (tr_receivers st) = 2"
    using demo_run_exists [of 16, OF _ demo_sendable(2)] by auto
  then obtain r where r: "r \<in> set (tr_receivers st)" by (cases "tr_receivers st") auto
  obtain v w where "demo_mixed = [v, w]" "length (wt_bytes v) = 6" "length (wt_bytes w) = 4" "itemsize (wt_dtype w) = 4"
    by (simp add: demo_mixed_def)
  then have pair: "demo_mixed = [v, w]" "length (wt_bytes v) + length (wt_bytes w) \<le> 16"
    "\<not> itemsize (wt_dtype w) dvd length (wt_bytes v)"
    by simp_all
  have "received_weights (\<lambda>k. replicate k 0) 16 r = ([v], Some RuntimeError)"
    by (rule mixed_item_sizes_fail [OF demo_sendable(2) [unfolded pair(1)] pair(2,3) run(1) [unfolded pair(1)] run(2,3) r])
  then have "received_weights (\<lambda>k. replicate k 0) 16 r = ([hd demo_mixed], Some RuntimeError)" by (simp add: pair(1))
  with run r show ?thesis by blast
qed

section \<open>Replicas of different sizes\<close>

lemma sync_groups_rebuild:
  "ge_rebuild e \<Longrightarrow> \<not> ge_group e \<Longrightarrow> \<not> (rank > 0 \<and> ge_master e) \<Longrightarrow> \<exists>e'. sync_groups rank worlds e = Inr e'"
  by (induction worlds arbitrary: e) (auto simp: init_process_group_def finalize_group_def rassert_def rcheck_def)

lemma sync_groups_sender_only: "rank < 0 \<Longrightarrow> \<not> ge_rebuild e \<Longrightarrow> \<exists>e'. sync_groups rank worlds e = Inr e'"
  by (induction worlds arbitrary: e) (auto simp: init_process_group_def finalize_group_def)

lemma sync_groups_kept:
  "\<not> ge_rebuild e \<Longrightarrow> ge_group e \<Longrightarrow> ge_rank e = Some rank \<Longrightarrow> ge_world e = Some world \<Longrightarrow> rank = 0 \<Longrightarrow>
   (\<exists>e'. sync_groups rank worlds e = Inr e') \<longleftrightarrow> set worlds \<subseteq> {world}"
  by (induction worlds arbitrary: e) (auto simp: init_process_group_def finalize_group_def rassert_def)

text \<open>C38: A trainer can send to groups of replicas of different sizes, as the student's and the teacher's, exactly if it
  rebuilds the process group: without that the sending worker, rank 0, gets through a sequence of synchronisations
  only if all of them have the same world size. The workers of the trainer that do not send always get through.\<close>

theorem different_replicas_need_rebuild:
  "((\<exists>e. sync_groups 0 worlds (new_engine rebuild True) = Inr e) \<longleftrightarrow> rebuild \<or> (\<exists>world. set worlds \<subseteq> {world}))
   \<and> (\<exists>e. sync_groups (- 1) worlds (new_engine rebuild False) = Inr e)"
proof -
  have "(\<exists>e. sync_groups 0 worlds (new_engine False True) = Inr e) \<longleftrightarrow> (\<exists>world. set worlds \<subseteq> {world})"
  proof (cases worlds)
    case (Cons world rest)
    let ?e = "\<lparr>ge_rebuild = False, ge_master = True, ge_rank = Some 0, ge_world = Some world, ge_group = True\<rparr>"
    have "sync_groups 0 worlds (new_engine False True) = sync_groups 0 rest ?e"
      by (simp add: Cons init_process_group_def finalize_group_def new_engine_def)
    then show ?thesis using sync_groups_kept [of ?e 0 world rest] by (auto simp: Cons)
  qed simp
  moreover have "\<exists>e. sync_groups 0 worlds (new_engine True True) = Inr e"
    by (rule sync_groups_rebuild) (simp_all add: new_engine_def)
  moreover have "\<exists>e. sync_groups (- 1) worlds (new_engine rebuild False) = Inr e"
    by (cases rebuild; rule sync_groups_rebuild sync_groups_sender_only) (simp_all add: new_engine_def)
  ultimately show ?thesis by (cases rebuild) simp_all
qed

end
