(* ===== verification/Spec2Isabelle.thy ===== *)
theory Spec2Isabelle
  imports MicroBatch BatchLaws AdvantageLaws LossRanges EvidenceWeighting DistillLaws AsyncLaws BalancerLaws RolloutCorrLaws WorkerLaws AgentManager TurnLaws ToolParseLaws TrainerLaws ValLaws ValidationRuns BoundaryLaws TeacherScheduler DeliveryLaws
begin

text \<open>
  V-Zero trains a vision-language model by reinforcement learning and on-policy distillation, on top of
  the library \<open>verl\<close>: rollout servers generate responses for a batch of prompts, rewards or a teacher
  model score them, the scores become advantages or distillation losses, and the batch is cut into
  balanced micro-batches for the update. This development models the algorithms of that loop that are
  code of the repository itself, and proves what makes each of them correct.

  \<^bold>\<open>The theories.\<close> Theories on the left, files under \<open>src/verl\<close> on the right; definitions carry the names of
  the functions they translate.

  \<^item> \<open>Prelude\<close>: exceptions as values (\<open>'a res\<close>, \<open>Inl\<close> of the exception class), Python slices, the stable
    \<open>sorted\<close>, list and multiset lemmas. \<open>PyObject\<close>: dictionaries in insertion order, the values of
    \<open>meta_info\<close> and the helpers of \<open>utils/py_functional.py\<close>.
  \<^item> \<open>HeapQueue\<close>, \<open>KarmarkarKarp\<close>, \<open>Partition\<close>, \<open>MicroBatch\<close>: \<open>utils/seqlen_balancing.py\<close>. The priority
    queue is an interface (\<open>heapq\<close>), the differencing method runs on it, and the micro-batches are built
    from its partitions. Shown: every partitioner returns a partition into the requested number of
    non-empty parts, of equal size when asked; prompts stay together; micro-batches partition the batch,
    respect the bounds of their number, and restoring inverts rearranging.
  \<^item> \<open>DataProto\<close>, \<open>BatchOps\<close>, \<open>BatchLaws\<close>: \<open>protocol.py\<close>, the batch container that every stage passes on.
    Shown: the operations keep the batch consistent, padding, chunking, concatenating and unpadding
    return the batch, folding and unfolding, indexing and collating are inverse.
  \<^item> \<open>TensorOps\<close>, \<open>Advantages\<close>, \<open>AdvantageLaws\<close>: \<open>utils/torch_functional.py\<close>, \<open>utils/groupwise.py\<close> and the
    advantage estimators of \<open>trainer/ppo/core_algos.py\<close>. Shown: group baselines are centred, vectorised
    and looping estimators agree, masked tokens are skipped.
  \<^item> \<open>PolicyLoss\<close>, \<open>LossVariants\<close>, \<open>LossLaws\<close>, \<open>LossRanges\<close>: the policy losses of the same file and their
    aggregation. Shown: the aggregated loss does not depend on how the batch is cut (in the mode that
    divides by a length, when that length is given or the widths agree), closed forms, agreement of the losses on-policy, ranges.
  \<^item> \<open>MetricAgg\<close>: \<open>utils/metric/utils.py\<close>. \<open>TrainLoss\<close>: \<open>workers/utils/losses.py\<close> and the accumulation over
    micro-batches of \<open>workers/engine/fsdp/transformer_impl.py\<close>. Shown: the reported loss is the global one;
    the critic's loss is not independent of the micro-batches.
  \<^item> \<open>PyString\<close>, \<open>RolloutCorr\<close>, \<open>RolloutCorrLaws\<close>: \<open>trainer/ppo/rollout_corr_helper.py\<close> and the bypass loss of
    \<open>core_algos.py\<close>. Shown: rejection keeps the tokens that pass every test, importance weights stay in
    their bounds and have mean one when normalised, an on-policy batch is not changed, and IcePop fails
    when no weight survives.
  \<^item> \<open>TeacherReplay\<close>: \<open>trainer/distillation/teacher_alignment.py\<close>, \<open>workers/utils/padding.py\<close>;
    \<open>EvidenceWeighting\<close>: \<open>trainer/distillation/evidence_weighting.py\<close>; \<open>DistillLoss\<close>, \<open>DistillLaws\<close>:
    \<open>trainer/distillation/losses.py\<close>, \<open>trainer/distillation/fsdp/losses.py\<close>. Shown: the teacher's values reach the tokens they belong to,
    weights and losses stay in their ranges, both uses of the distillation loss agree.
  \<^item> \<open>MessageQueue\<close>, \<open>AsyncRollout\<close>, \<open>AsyncLaws\<close>: \<open>experimental/fully_async_policy/message_queue.py\<close>,
    \<open>fully_async_rollouter.py\<close> and \<open>fully_async_trainer.py\<close>, as step relations: every interleaving of the
    coroutines between their awaits. Shown: no sample is lost or duplicated unaccounted, consumers are
    released, the samples in flight are bounded, when the pipeline can and cannot stall.
  \<^item> \<open>LoadBalancer\<close>, \<open>BalancerLaws\<close>: \<open>workers/rollout/llm_server.py\<close> and the server manager and client of
    \<open>fully_async_rollouter.py\<close>. Shown: the counters count the requests, sessions stick, a resumed
    generation looks uninterrupted and ends, activating replicas can be undone.
  \<^item> \<open>TeacherManager\<close>: \<open>experimental/teacher_loop/teacher_manager.py\<close>, the client that scores replayed
    responses. \<open>TeacherContext\<close>, \<open>ContextLaws\<close>: the teacher's view of a sample in
    \<open>experimental/agent_loop/agent_loop.py\<close>, with crops of the evidence and negative crops, and the request
    that results. Shown: the negative prompt differs in its crops only, the values of a request land on the
    columns of the student's sequence, and requests without the crop are refused by the client.
  \<^item> \<open>AgentOutput\<close>, \<open>AgentLaws\<close>: padding of the outputs of agent loops and the batch of a worker in the same
    file. \<open>AgentWorker\<close>, \<open>WorkerLaws\<close>: \<open>generate_sequences\<close> of the worker. \<open>WorkPool\<close>, \<open>WorkPoolLaws\<close>: the
    consumers that score samples while others are still generated, as a step relation.
    \<open>AgentManager\<close>, \<open>StreamLaws\<close>: the manager over several workers and the trainer's side of the streams in
    \<open>trainer/ppo/ray_trainer.py\<close>. Shown: both ways of padding agree and can be undone, rewards stand at the
    last token, rollouts share the context of their prompt, streams end, and the three ways of scoring (by the
    trainer, by the waiting worker, by streams that are resolved later in the batch's new order) give the
    same values.
  \<^item> \<open>ChatTemplate\<close>, \<open>ToolParse\<close>, \<open>ToolParseLaws\<close>: \<open>utils/chat_template.py\<close>, \<open>utils/tokenizer.py\<close>, the base class of the
    agent loops and \<open>experimental/agent_loop/tool_parser.py\<close>. Shown: the parsers read back the calls they
    are given, the tokens of a tool turn are those of the template, and the template's fall-back takes the
    system prompt away twice. \<open>ToolLoop\<close>, \<open>ToolLoopLaws\<close>, \<open>TurnLaws\<close>:
    \<open>experimental/agent_loop/tool_agent_loop.py\<close>, \<open>single_turn_agent_loop.py\<close> and the tools they call. Shown: the
    response mask marks the generated tokens, the columns of a run agree in length, the loop ends, each call
    is answered and its instance released, a conversation without calls is a single turn, and an empty
    generation hands the prompt out as the response.
  \<^item> \<open>TrainerBatch\<close>, \<open>TrainerAdvantage\<close>, \<open>ReorderLaws\<close>, \<open>TrainerLaws\<close>: what the driver in \<open>trainer/ppo/ray_trainer.py\<close>
    does to a batch (generation part, KL penalty, balancing of the ranks, advantages by the name of the
    estimator, evidence weights). Shown: balancing the ranks does not change any sample's advantage, the
    ranks get equally many samples with the small ones at both ends, keeping mini-batches together drops
    the remainder, and the vectorised GRPO agrees with the loop for any ids of prompts.
  \<^item> \<open>ValMetrics\<close>, \<open>Validation\<close>, \<open>ValLaws\<close>, \<open>ValidationRuns\<close>: \<open>trainer/ppo/metric_utils.py\<close> and the validation loop of
    \<open>ray_trainer.py\<close>. Shown: samples, ids and scores stay together through repeating, padding,
    the chunks of the workers with their agent loops, joining and unpadding, the core metrics are those of the largest sample size, worst and best are ordered and
    bounded; and where it fails: keys that only some batches or results have, and missing predictions.
  \<^item> \<open>PackedBoundary\<close>, \<open>BoundaryLaws\<close>: \<open>scripts/fa3/packed_boundary.py\<close>, the overlay that hands the boundaries of packed samples
    to the kernels of the linear-attention layers and audits it, as a step relation. Shown: the layout check accepts
    exactly the segmentation of the text positions, every kernel runs inside its own decoder layer with the boundaries
    of its micro-batch, a batch completes only with evidence for every kernel in both passes, the audit writes at most fourteen records.
  \<^item> \<open>TeacherScheduler\<close>: \<open>scripts/fa3/teacher_scheduler.py\<close>. Shown: a request whose private state ends inside a block of the
    cache stops at the end of that block before it goes on, also when encoder inputs cut its steps short; and reports of stalled steps are sound and rare.
  \<^item> \<open>WeightTransfer\<close>, \<open>WeightLaws\<close>, \<open>TransferLaws\<close>, \<open>DeliveryLaws\<close>: the chunks of \<open>checkpoint_engine/base.py\<close> and the buckets
    of \<open>nccl_checkpoint_engine.py\<close>: a sender and its receivers with two buffers each, handshakes and broadcasts, as
    a step relation over all interleavings. Shown: every receiver gets exactly the weights, every transfer comes to its
    end within a linear number of steps, weights whose item sizes do not fit together are not delivered, and
    replicas of different sizes need the process group to be rebuilt.

  \<^bold>\<open>Conventions.\<close> A tensor is a list of rows; floating-point numbers are exact reals, so rounding, overflow
  and NaN are not modelled (the mean of nothing is an explicit \<open>None\<close> where it matters); gradients are not
  modelled, \<open>detach\<close> is the identity. Strings are 8-bit; \<open>float\<close> reads decimal literals, without \<open>inf\<close> and \<open>nan\<close>. Python's integers are \<open>int\<close> or \<open>nat\<close>, dictionaries are association
  lists in insertion order. A \<open>raise\<close> or a failed \<open>assert\<close> is \<open>Inl\<close> of its class.
  Parameters of the model, arguments of the definitions that use them: the all-reduce over the
  data-parallel group (absent when the ranks are not synchronised), \<open>torch.chunk\<close>'s sizes and \<open>topk\<close>, \<open>randperm\<close> and \<open>multinomial\<close>; the comparison of
  array objects; the teacher servers, the tokenizer's padding, the processor, the chat template, image
  operations, the tools and the generation server of an agent loop, JSON texts and \<open>str\<close>; in the worker the agent loops themselves; the LRU cache of the load balancer with its documented laws; the answers of the servers
  and the outcome of a generation; in the trainer and its validation the seeded bootstrap indices, \<open>uuid4\<close>, the
  text of labels that are not strings, generation and the colocated reward model; in the
  teacher scheduler the splitter of the serving library; in the transfer of weights the
  contents of a tensor made by \<open>torch.empty\<close>. Loops are structural recursions or recursions with a measure.
  Three are not: \<open>split_weight\<close> is a partial function, shown to be defined for buckets of at least one byte; \<open>resume_loop\<close> waits on its environment, and is a function of the answers it gets, \<open>None\<close> while it
  still waits; \<open>state_loop\<close>, the state machine of the tool agent, has one unit of fuel per handler, and twice the
  response length plus two, or twice the turns plus two, is shown to be enough.

  Of several concurrent calls that fail the first in order is reported (in the pool of consumers, whose
  interleavings are explicit, any of them); the tool calls of one turn run in their order.

  \<^bold>\<open>Interfaces.\<close> \<open>priority_queue\<close> (\<open>HeapQueue\<close>) is what the differencing method needs of \<open>heapq\<close>; \<open>bounded_fifo\<close>
  (\<open>MessageQueue\<close>) what producers and consumers rely on; \<open>routing_cache\<close> (\<open>LoadBalancer\<close>) what the balancer
  relies on; \<open>stream_pool\<close> (\<open>WorkPoolLaws\<close>) what a stream needs of its consumers; \<open>keyed_order\<close> (\<open>Prelude\<close>) what the sorting and the heap need of a comparison. Each is interpreted on
  the definitions of the model.

  \<^bold>\<open>Not modelled.\<close> Serialisation, data loading and device placement; the FSDP and Megatron engines, the
  models, the CUDA and Triton kernels and the rollout back-ends, which call libraries for all they do; the
  Ray controllers and the trainers' main loops, which are sequences of remote calls, logging and
  checkpoints (their steps on a batch and the validation are modelled; dumps and tables of generations are not); configuration files, evaluation scripts, tests and documentation.
\<close>

end
